(* ===== verification/Prelude.thy ===== *)
theory Prelude
  imports Complex_Main "HOL-Library.AList"
begin

text \<open>
  Shared ground of the development: machine integers, the model of
  \<open>std::unordered_map\<close>, loops that stop at the first error, and the two interfaces
  (an idempotent consumer and a state machine with terminal states) that several
  components of the exchange implement.

  C++ signed integers are modelled as \<open>int\<close> with the two's complement wrap-around
  written out at the width of the code (32, 64 or 128 bits). Signed overflow is undefined
  in C++; the model takes the value every supported compiler produces, and each theorem
  whose truth needs the absence of overflow says so in a hypothesis.
\<close>

named_theorems arith_simps \<open>machine arithmetic without overflow\<close>
named_theorems map_simps \<open>lookups after updates of the modelled maps\<close>
named_theorems frame_simps \<open>parts of a state that an operation leaves alone\<close>

section \<open>Machine integers\<close>

definition in_i32 :: "int \<Rightarrow> bool" where
  "in_i32 x \<longleftrightarrow> -2147483648 \<le> x \<and> x \<le> 2147483647"

definition in_i64 :: "int \<Rightarrow> bool" where
  "in_i64 x \<longleftrightarrow> -9223372036854775808 \<le> x \<and> x \<le> 9223372036854775807"

definition in_i128 :: "int \<Rightarrow> bool" where
  "in_i128 x \<longleftrightarrow> -170141183460469231731687303715884105728 \<le> x
     \<and> x \<le> 170141183460469231731687303715884105727"

definition i32 :: "int \<Rightarrow> int" where
  "i32 x = (x + 2147483648) mod 4294967296 - 2147483648"

definition i64 :: "int \<Rightarrow> int" where
  "i64 x = (x + 9223372036854775808) mod 18446744073709551616 - 9223372036854775808"

definition i128 :: "int \<Rightarrow> int" where
  "i128 x = (x + 170141183460469231731687303715884105728)
     mod 340282366920938463463374607431768211456 - 170141183460469231731687303715884105728"

lemma i32_id [arith_simps]: "in_i32 x \<Longrightarrow> i32 x = x"
  by (simp add: i32_def in_i32_def)

lemma i64_id [arith_simps]: "in_i64 x \<Longrightarrow> i64 x = x"
  by (simp add: i64_def in_i64_def)

lemma i128_id [arith_simps]: "in_i128 x \<Longrightarrow> i128 x = x"
  by (simp add: i128_def in_i128_def)

lemma i64_range: "in_i64 (i64 x)"
proof -
  have "0 \<le> (x + 9223372036854775808) mod 18446744073709551616"
    and "(x + 9223372036854775808) mod 18446744073709551616 < 18446744073709551616"
    by simp_all
  then show ?thesis by (simp add: i64_def in_i64_def)
qed

lemma in_i128_abs: "\<bar>x\<bar> \<le> 170141183460469231731687303715884105727 \<Longrightarrow> in_i128 x"
  by (auto simp: in_i128_def)

lemma in_i64_abs: "\<bar>x\<bar> \<le> 9223372036854775807 \<Longrightarrow> in_i64 x"
  by (auto simp: in_i64_def)

section \<open>Unordered maps\<close>

text \<open>
  A \<open>std::unordered_map<std::string, V>\<close> is an association list whose order stands for the
  unspecified iteration order of the container. Every statement about a map speaks about
  its lookups, so it holds whatever the order is.
\<close>

type_synonym 'v umap = "(string \<times> 'v) list"

definition find :: "'v umap \<Rightarrow> string \<Rightarrow> 'v option" where
  "find m k = map_of m k"

definition put :: "string \<Rightarrow> 'v \<Rightarrow> 'v umap \<Rightarrow> 'v umap" where
  "put k v m = AList.update k v m"

definition erase :: "string \<Rightarrow> 'v umap \<Rightarrow> 'v umap" where
  "erase k m = AList.delete k m"

definition find_or :: "'v \<Rightarrow> 'v umap \<Rightarrow> string \<Rightarrow> 'v" where
  "find_or d m k = (case find m k of None \<Rightarrow> d | Some v \<Rightarrow> v)"

lemma find_put [map_simps, simp]: "find (put k v m) k' = (if k' = k then Some v else find m k')"
  by (simp add: find_def put_def update_conv')

lemma find_in: "find m k = Some v \<Longrightarrow> (k, v) \<in> set m"
  by (simp add: find_def map_of_SomeD)

lemma in_find: "distinct (map fst m) \<Longrightarrow> (k, v) \<in> set m \<Longrightarrow> find m k = Some v"
  by (simp add: find_def)

lemma find_erase [map_simps, simp]: "find (erase k m) k' = (if k' = k then None else find m k')"
  by (simp add: find_def erase_def delete_conv')

lemma find_Nil [map_simps, simp]: "find [] k = None"
  by (simp add: find_def)

lemma find_Cons [map_simps]: "find ((a, v) # m) k = (if k = a then Some v else find m k)"
  by (simp add: find_def)

lemma find_or_put [map_simps, simp]:
  "find_or d (put k v m) k' = (if k' = k then v else find_or d m k')"
  by (simp add: find_or_def)

lemma find_or_Nil [map_simps, simp]: "find_or d [] k = d"
  by (simp add: find_or_def)

lemma find_or_None: "find m k = None \<Longrightarrow> find_or d m k = d"
  by (simp add: find_or_def)

lemma find_or_Some: "find m k = Some v \<Longrightarrow> find_or d m k = v"
  by (simp add: find_or_def)

lemma find_filter_distinct:
  "distinct (map fst m) \<Longrightarrow>
   find (filter (\<lambda>kv. P (snd kv)) m) k =
     (case find m k of None \<Rightarrow> None | Some v \<Rightarrow> if P v then Some v else None)"
proof (induction m)
  case Nil
  then show ?case by simp
next
  case (Cons kv m)
  obtain a v where kv: "kv = (a, v)" by (cases kv)
  have "find m a = None"
    using Cons.prems kv by (auto simp: find_def map_of_eq_None_iff)
  with Cons kv show ?case by (auto simp: find_Cons split: option.splits)
qed

lemma distinct_put: "distinct (map fst m) \<Longrightarrow> distinct (map fst (put k v m))"
  by (simp add: put_def distinct_update)

lemma distinct_erase: "distinct (map fst m) \<Longrightarrow> distinct (map fst (erase k m))"
  by (simp add: erase_def distinct_delete)

text \<open>A map of maps, as \<open>balances_[user][currency]\<close>: \<open>operator[]\<close> creates the
  missing entries, so a read that goes through it is a read with a default followed by a
  write.\<close>

definition find2 :: "'v \<Rightarrow> 'v umap umap \<Rightarrow> string \<Rightarrow> string \<Rightarrow> 'v" where
  "find2 d m a b = find_or d (find_or [] m a) b"

definition put2 :: "string \<Rightarrow> string \<Rightarrow> 'v \<Rightarrow> 'v umap umap \<Rightarrow> 'v umap umap" where
  "put2 a b v m = put a (put b v (find_or [] m a)) m"

lemma find2_put2 [map_simps, simp]:
  "find2 d (put2 a b v m) a' b' = (if a' = a \<and> b' = b then v else find2 d m a' b')"
  by (simp add: find2_def put2_def)

section \<open>Loops that stop at the first error\<close>

text \<open>\<open>for (x : xs) if (auto err = check(x)) return err;\<close>\<close>

fun first_error :: "('a \<Rightarrow> 'e option) \<Rightarrow> 'a list \<Rightarrow> 'e option" where
  "first_error f [] = None"
| "first_error f (x # xs) = (case f x of Some e \<Rightarrow> Some e | None \<Rightarrow> first_error f xs)"

lemma first_error_None [simp]: "first_error f xs = None \<longleftrightarrow> (\<forall>x \<in> set xs. f x = None)"
  by (induction xs) (auto split: option.splits)

lemma first_error_SomeD: "first_error f xs = Some e \<Longrightarrow> \<exists>x \<in> set xs. f x = Some e"
  by (induction xs) (auto split: option.splits)

section \<open>Interface: an idempotent consumer\<close>

text \<open>
  Kafka delivers at least once, so most handlers of the exchange keep a set of keys they
  have handled. The contract: handling a message records its key, a message whose key is
  recorded changes nothing, and no handler forgets a key.
\<close>

locale idempotent_consumer =
  fixes handle :: "'s \<Rightarrow> 'm \<Rightarrow> 's"
    and seen :: "'s \<Rightarrow> 'k \<Rightarrow> bool"
    and key :: "'m \<Rightarrow> 'k"
    and core :: "'s \<Rightarrow> 'c"
  assumes records: "seen (handle s m) (key m)"
    and skips: "seen s (key m) \<Longrightarrow> core (handle s m) = core s"
    and remembers: "seen s k \<Longrightarrow> seen (handle s m) k"
begin

lemma redelivery: "core (handle (handle s m) m) = core (handle s m)"
  by (rule skips) (rule records)

lemma remembers_fold: "seen s k \<Longrightarrow> seen (fold (\<lambda>m s. handle s m) ms s) k"
  by (induction ms arbitrary: s) (auto intro: remembers)

lemma seen_after_fold: "m \<in> set ms \<Longrightarrow> seen (fold (\<lambda>m s. handle s m) ms s) (key m)"
  by (induction ms arbitrary: s) (auto intro: remembers_fold records)

lemma replay_seen:
  "(\<forall>m \<in> set ms. seen s (key m)) \<Longrightarrow> core (fold (\<lambda>m s. handle s m) ms s) = core s"
proof (induction ms arbitrary: s)
  case Nil
  then show ?case by simp
next
  case (Cons m ms)
  then have "core (fold (\<lambda>m s. handle s m) ms (handle s m)) = core (handle s m)"
    by (intro Cons.IH) (auto intro: remembers)
  with Cons.prems show ?case by (simp add: skips)
qed

text \<open>Any later redelivery of a sequence already handled is without effect.\<close>

lemma replay:
  "set ms' \<subseteq> set ms \<Longrightarrow>
   core (fold (\<lambda>m s. handle s m) ms' (fold (\<lambda>m s. handle s m) ms s))
     = core (fold (\<lambda>m s. handle s m) ms s)"
  by (rule replay_seen) (auto intro: seen_after_fold)

end

section \<open>Interface: a status machine with terminal states\<close>

locale status_machine =
  fixes allowed :: "'st \<Rightarrow> 'st \<Rightarrow> bool"
    and terminal :: "'st \<Rightarrow> bool"
  assumes terminal_stays: "terminal s \<Longrightarrow> allowed s t \<Longrightarrow> t = s"
    and stutter: "allowed s s"
begin

lemma path_from_terminal:
  assumes "rtranclp allowed s t" and "terminal s"
  shows "t = s"
  using assms by (induction rule: rtranclp_induct) (auto dest: terminal_stays)

lemma no_two_terminals:
  assumes "rtranclp allowed s t" and "terminal s" and "t \<noteq> s"
  shows False
  using assms path_from_terminal by blast

end

end
