(* ===== verification/Decimal.thy ===== *)
theory Decimal
  imports Prelude "HOL-Library.Signed_Division"
begin

text \<open>
  The fixed-point money type of the exchange, \<open>cex::common::Decimal\<close>
  (\<open>cpp/common/include/cex/common/decimal.hpp\<close>, \<open>cpp/common/src/decimal.cpp\<close>): a value is
  \<open>units * 10 ^ (- scale)\<close> with 64-bit units and a 32-bit scale, and the operations work on
  128-bit integers before they round the result back into 64 bits.
\<close>

section \<open>Definitions\<close>

record decimal =
  units :: int
  scale :: int

definition mk_dec :: "int \<Rightarrow> int \<Rightarrow> decimal" where
  "mk_dec u s = \<lparr>units = u, scale = s\<rparr>"

lemma mk_dec_sel [simp]: "units (mk_dec u s) = u" "scale (mk_dec u s) = s"
  by (simp_all add: mk_dec_def)

primrec pow10_loop :: "(int \<Rightarrow> int) \<Rightarrow> nat \<Rightarrow> int \<Rightarrow> int" where
  "pow10_loop wrap 0 r = r"
| "pow10_loop wrap (Suc n) r = pow10_loop wrap n (wrap (r * 10))"

definition pow10_i :: "int \<Rightarrow> int" where
  "pow10_i p = pow10_loop i64 (nat p) 1"

definition pow10_i128 :: "int \<Rightarrow> int" where
  "pow10_i128 p = pow10_loop i128 (nat p) 1"

definition round_div10 :: "int \<Rightarrow> int" where
  "round_div10 v = (let negative = v < 0;
      abs_value = (if negative then i128 (- v) else v);
      abs_value = i128 (abs_value + 5) sdiv 10
    in if negative then i128 (- abs_value) else abs_value)"

function normalize_loop :: "int \<Rightarrow> int \<Rightarrow> int \<times> int" where
  "normalize_loop u s =
     (if (9223372036854775807 < u \<or> u < -9223372036854775808) \<and> 0 < s
      then normalize_loop (round_div10 u) (s - 1) else (u, s))"
  by pat_completeness auto
termination
  by (relation "measure (\<lambda>(u, s). nat s)") auto

declare normalize_loop.simps [simp del]

definition normalize_i128 :: "int \<Rightarrow> int \<Rightarrow> decimal" where
  "normalize_i128 u s = (let (u, s) = normalize_loop u s;
      u = (if 9223372036854775807 < u then 9223372036854775807
           else if u < -9223372036854775808 then -9223372036854775808 else u)
    in mk_dec u s)"

definition align_units_i128 :: "decimal \<Rightarrow> int \<Rightarrow> int" where
  "align_units_i128 v target =
     (if target \<le> scale v then units v
      else i128 (units v * pow10_i128 (i32 (target - scale v))))"

definition dmul :: "decimal \<Rightarrow> decimal \<Rightarrow> decimal" where
  "dmul a b = normalize_i128 (i128 (units a * units b)) (i32 (scale a + scale b))"

definition dadd :: "decimal \<Rightarrow> decimal \<Rightarrow> decimal" where
  "dadd a b = (let s = max (scale a) (scale b) in
     normalize_i128 (i128 (align_units_i128 a s + align_units_i128 b s)) s)"

definition dsub :: "decimal \<Rightarrow> decimal \<Rightarrow> decimal" where
  "dsub a b = (let s = max (scale a) (scale b) in
     normalize_i128 (i128 (align_units_i128 a s - align_units_i128 b s)) s)"

definition dcmp :: "decimal \<Rightarrow> decimal \<Rightarrow> int" where
  "dcmp a b = (let s = max (scale a) (scale b);
      lhs = align_units_i128 a s; rhs = align_units_i128 b s
    in if lhs < rhs then -1 else if rhs < lhs then 1 else 0)"

text \<open>
  \<open>Decimal::div\<close> throws \<open>std::invalid_argument\<close> on a zero divisor (\<open>None\<close>). \<open>ddiv_nz\<close>
  is its body after that check, used directly where the caller has excluded zero.
\<close>

definition ddiv_nz :: "decimal \<Rightarrow> decimal \<Rightarrow> int \<Rightarrow> decimal" where
  "ddiv_nz a b result_scale =
     (let k = i32 (result_scale - scale a + scale b);
          num = (if 0 \<le> k then i128 (units a * pow10_i128 k) else units a);
          den = (if 0 \<le> k then units b else i128 (units b * pow10_i128 (i32 (- k))));
          negative = ((num < 0) \<noteq> (den < 0));
          abs_num = (if num < 0 then i128 (- num) else num);
          abs_den = (if den < 0 then i128 (- den) else den);
          quotient = abs_num sdiv abs_den;
          remainder = abs_num smod abs_den;
          quotient = (if abs_den \<le> i128 (2 * remainder) then i128 (quotient + 1) else quotient)
        in normalize_i128 (if negative then i128 (- quotient) else quotient) result_scale)"

definition ddiv :: "decimal \<Rightarrow> decimal \<Rightarrow> int \<Rightarrow> decimal option" where
  "ddiv a b result_scale = (if units b = 0 then None else Some (ddiv_nz a b result_scale))"

definition dmin :: "decimal \<Rightarrow> decimal \<Rightarrow> decimal" where
  "dmin a b = (if dcmp a b \<le> 0 then a else b)"

definition dmax :: "decimal \<Rightarrow> decimal \<Rightarrow> decimal" where
  "dmax a b = (if 0 \<le> dcmp a b then a else b)"

definition dzero :: decimal where
  "dzero = mk_dec 0 0"

text \<open>\<open>Decimal{-d.units, d.scale}\<close>, the negation the services write out by hand.\<close>

definition dneg :: "decimal \<Rightarrow> decimal" where
  "dneg d = mk_dec (i64 (- units d)) (scale d)"


section \<open>The value of a decimal\<close>

definition dval :: "decimal \<Rightarrow> rat" where
  "dval d = of_int (units d) / 10 ^ nat (scale d)"

text \<open>Units in range and a scale the code can shift by (\<open>10 ^ 18 < 2 ^ 63\<close>).\<close>

definition wf_dec :: "decimal \<Rightarrow> bool" where
  "wf_dec d \<longleftrightarrow> in_i64 (units d) \<and> 0 \<le> scale d \<and> scale d \<le> 18"

definition at_scale :: "nat \<Rightarrow> decimal \<Rightarrow> int" where
  "at_scale s d = units d * 10 ^ (s - nat (scale d))"

text \<open>Half up, away from zero.\<close>

definition round_away :: "rat \<Rightarrow> int" where
  "round_away x = (if x < 0 then - \<lfloor>- x + 1 / 2\<rfloor> else \<lfloor>x + 1 / 2\<rfloor>)"

lemma round_away_error: "\<bar>of_int (round_away x) - x\<bar> \<le> 1 / 2"
  by (cases "x < 0"; simp only: round_away_def if_True if_False abs_le_iff of_int_minus; linarith)

lemma round_away_of_int [simp]: "round_away (of_int n) = n"
proof -
  have "\<lfloor>of_int m + 1 / 2 :: rat\<rfloor> = m" for m :: int
    by (rule floor_unique) auto
  from this[of n] this[of "- n"] show ?thesis
    by (auto simp: round_away_def)
qed

lemma floor_half [simp]: "\<lfloor>1 / 2 :: rat\<rfloor> = 0"
  by (rule floor_unique) auto

lemma half_up_div:
  fixes n d :: int
  assumes "0 \<le> n" "0 < d"
  shows "n div d + (if d \<le> 2 * (n mod d) then 1 else 0) = \<lfloor>of_int n / of_int d + 1 / 2 :: rat\<rfloor>"
proof -
  have r: "0 \<le> n mod d" "n mod d < d" using assms by auto
  have "of_int n / of_int d + 1 / 2 = (of_int (2 * n + d) / of_int (2 * d) :: rat)"
    using assms by (simp add: field_simps)
  then have "\<lfloor>of_int n / of_int d + 1 / 2 :: rat\<rfloor> = (2 * n + d) div (2 * d)"
    by (simp only: floor_divide_of_int_eq)
  also have "2 * n + d = (2 * (n mod d) + d) + (n div d) * (2 * d)"
    using div_mult_mod_eq[of n d] by linarith
  also have "\<dots> div (2 * d) = (n div d) + (2 * (n mod d) + d) div (2 * d)"
    using assms by (subst div_mult_self1) auto
  also have "(2 * (n mod d) + d) div (2 * d) = (if d \<le> 2 * (n mod d) then 1 else 0)"
  proof (cases "d \<le> 2 * (n mod d)")
    case True
    then have "(2 * (n mod d) + d) div (2 * d) = (2 * (n mod d) + d - 2 * d) div (2 * d) + 1"
      using assms by (subst div_pos_geq) auto
    also have "(2 * (n mod d) + d - 2 * d) div (2 * d) = 0"
      by (intro div_pos_pos_trivial) (use True r assms in linarith)+
    finally show ?thesis using True by simp
  next
    case False
    then have "(2 * (n mod d) + d) div (2 * d) = 0"
      by (intro div_pos_pos_trivial) (use r assms in linarith)+
    with False show ?thesis by simp
  qed
  finally show ?thesis by simp
qed

section \<open>Powers of ten and alignment\<close>

lemma pow10_loop_i128:
  "1 \<le> r \<Longrightarrow> r * 10 ^ n \<le> 10 ^ 38 \<Longrightarrow> pow10_loop i128 n r = r * 10 ^ n"
proof (induction n arbitrary: r)
  case 0
  then show ?case by simp
next
  case (Suc n)
  have "1 * r \<le> 10 ^ n * r" using Suc.prems(1) by (intro mult_right_mono) auto
  then have "r * 10 \<le> r * 10 ^ Suc n" by (simp add: mult.commute)
  with Suc.prems have "r * 10 \<le> 10 ^ 38" by linarith
  with Suc.prems(1) have "i128 (r * 10) = r * 10"
    by (intro i128_id) (auto simp: in_i128_def)
  with Suc show ?case by (simp add: mult.assoc)
qed

lemma pow10_i128_eq [arith_simps]: "p \<le> 38 \<Longrightarrow> pow10_i128 p = 10 ^ nat p"
proof -
  assume "p \<le> 38"
  then have "(10::int) ^ nat p \<le> 10 ^ 38" by (intro power_increasing) auto
  then show ?thesis by (simp add: pow10_i128_def pow10_loop_i128)
qed

lemma pow10_loop_i64:
  "1 \<le> r \<Longrightarrow> r * 10 ^ n \<le> 10 ^ 18 \<Longrightarrow> pow10_loop i64 n r = r * 10 ^ n"
proof (induction n arbitrary: r)
  case 0
  then show ?case by simp
next
  case (Suc n)
  have "1 * r \<le> 10 ^ n * r" using Suc.prems(1) by (intro mult_right_mono) auto
  then have "r * 10 \<le> r * 10 ^ Suc n" by (simp add: mult.commute)
  with Suc.prems have "r * 10 \<le> 10 ^ 18" by linarith
  with Suc.prems(1) have "i64 (r * 10) = r * 10"
    by (intro i64_id) (auto simp: in_i64_def)
  with Suc show ?case by (simp add: mult.assoc)
qed

lemma pow10_i_eq [arith_simps]: "p \<le> 18 \<Longrightarrow> pow10_i p = 10 ^ nat p"
proof -
  assume "p \<le> 18"
  then have "(10::int) ^ nat p \<le> 10 ^ 18" by (intro power_increasing) auto
  then show ?thesis by (simp add: pow10_i_def pow10_loop_i64)
qed

lemma shifted_bound:
  assumes "in_i64 u" "n \<le> 18"
  shows "\<bar>u * 10 ^ n\<bar> \<le> 9223372036854775808 * 1000000000000000000"
proof -
  have "\<bar>u\<bar> \<le> 9223372036854775808" using assms(1) by (auto simp: in_i64_def)
  moreover have "(10::int) ^ n \<le> 10 ^ 18" using assms(2) by (intro power_increasing) auto
  ultimately have "\<bar>u\<bar> * 10 ^ n \<le> 9223372036854775808 * 10 ^ 18" by (intro mult_mono) auto
  then show ?thesis by (simp add: abs_mult)
qed

lemma shifted_in_i128: "in_i64 u \<Longrightarrow> n \<le> 18 \<Longrightarrow> in_i128 (u * 10 ^ n)"
  using shifted_bound[of u n] by (intro in_i128_abs) simp

lemma align_eq [arith_simps]:
  assumes "wf_dec d" "scale d \<le> t" "t \<le> 18"
  shows "align_units_i128 d t = at_scale (nat t) d"
proof -
  have k: "i32 (t - scale d) = t - scale d"
    using assms by (intro i32_id) (auto simp: in_i32_def wf_dec_def)
  have "in_i128 (units d * 10 ^ nat (t - scale d))"
    using assms by (intro shifted_in_i128) (auto simp: wf_dec_def)
  moreover have "nat (t - scale d) = nat t - nat (scale d)"
    using assms by (auto simp: wf_dec_def nat_diff_distrib)
  moreover have "pow10_i128 (t - scale d) = 10 ^ nat (t - scale d)"
    using assms by (intro pow10_i128_eq) (auto simp: wf_dec_def)
  ultimately show ?thesis
    using assms by (auto simp: align_units_i128_def at_scale_def k i128_id)
qed

lemma dval_at_scale:
  assumes "0 \<le> scale d" "scale d \<le> int s"
  shows "dval d = of_int (at_scale s d) / 10 ^ s"
proof -
  have "(10::rat) ^ s = 10 ^ nat (scale d) * 10 ^ (s - nat (scale d))"
    using assms by (simp flip: power_add)
  then show ?thesis by (simp add: dval_def at_scale_def field_simps)
qed

lemma dval_mk_dec [simp]: "dval (mk_dec u s) = of_int u / 10 ^ nat s"
  by (simp add: dval_def)

lemma dval_dzero [simp]: "dval dzero = 0"
  by (simp add: dzero_def)

lemma wf_dzero [simp]: "wf_dec dzero"
  by (simp add: dzero_def wf_dec_def in_i64_def)

lemma at_scale_bound:
  "wf_dec d \<Longrightarrow> s \<le> 18 \<Longrightarrow> \<bar>at_scale s d\<bar> \<le> 9223372036854775808 * 1000000000000000000"
  unfolding at_scale_def wf_dec_def by (intro shifted_bound) auto


section \<open>Normalisation\<close>

lemma normalize_i128_id [arith_simps]: "in_i64 u \<Longrightarrow> normalize_i128 u s = mk_dec u s"
  by (auto simp: normalize_i128_def normalize_loop.simps[of u s] in_i64_def)

lemma normalize_units_in_i64: "in_i64 (units (normalize_i128 u s))"
  by (simp add: normalize_i128_def in_i64_def split: prod.splits)

lemma round_div10_eq:
  assumes "\<bar>v\<bar> \<le> 10 ^ 38"
  shows "round_div10 v = round_away (of_int v / 10)"
proof -
  have h: "(w + 5) div 10 = \<lfloor>of_int w / 10 + 1 / 2 :: rat\<rfloor>" for w :: int
  proof -
    have "of_int w / 10 + 1 / 2 = (of_int (w + 5) / of_int 10 :: rat)" by (simp add: field_simps)
    then show ?thesis by (simp only: floor_divide_of_int_eq)
  qed
  define q where "q = (\<bar>v\<bar> + 5) div 10"
  have "0 \<le> q" "q \<le> \<bar>v\<bar> + 5" by (auto simp: q_def)
  then have ranges: "in_i128 (- v)" "in_i128 (\<bar>v\<bar> + 5)" "in_i128 (- q)"
    using assms by (auto simp: in_i128_def)
  have sd: "(\<bar>v\<bar> + 5) sdiv 10 = q"
    by (auto simp: signed_divide_int_def sgn_if q_def)
  have "round_div10 v = (if v < 0 then - q else q)"
    using ranges sd by (cases "v < 0") (auto simp: round_div10_def Let_def i128_id)
  moreover have "q = \<lfloor>of_int \<bar>v\<bar> / 10 + 1 / 2 :: rat\<rfloor>"
    unfolding q_def by (rule h)
  ultimately show ?thesis by (auto simp: round_away_def)
qed

lemma error_chain:
  fixes a b c :: rat
  shows "\<bar>a - b\<bar> \<le> k * (x - y) \<Longrightarrow> \<bar>b - c\<bar> \<le> k * (y - z) \<Longrightarrow> \<bar>a - c\<bar> \<le> k * (x - z)"
  unfolding right_diff_distrib abs_le_iff by linarith

text \<open>
  The loop rounds once per dropped digit, so its error can exceed half a unit of the last
  place: it is below five ninths of it (the sum \<open>1/2 + 1/20 + 1/200 + \<dots>\<close>).
\<close>

lemma normalize_loop_error:
  assumes "\<bar>u\<bar> \<le> 10 ^ 38" "normalize_loop u s = (u', s')" "0 \<le> s"
  shows "0 \<le> s' \<and> s' \<le> s \<and>
    \<bar>of_int u' / 10 ^ nat s' - of_int u / 10 ^ nat s\<bar>
      \<le> (5 / 9) * (1 / 10 ^ nat s' - 1 / 10 ^ nat s :: rat)"
  using assms
proof (induction u s rule: normalize_loop.induct)
  case (1 u s)
  show ?case
  proof (cases "(9223372036854775807 < u \<or> u < -9223372036854775808) \<and> 0 < s")
    case False
    with "1.prems" show ?thesis by (simp add: normalize_loop.simps[of u s])
  next
    case True
    define r where "r = round_div10 u"
    have r: "r = round_away (of_int u / 10)"
      using "1.prems"(1) by (simp add: r_def round_div10_eq)
    have err: "\<bar>of_int r - of_int u / 10\<bar> \<le> (1 / 2 :: rat)"
      unfolding r by (rule round_away_error)
    have "\<bar>of_int u\<bar> \<le> (10 ^ 38 :: rat)"
      using "1.prems"(1) by (metis of_int_abs of_int_le_iff of_int_power of_int_numeral)
    moreover have "(1::rat) \<le> 10 ^ 38" by simp
    ultimately have "\<bar>of_int r\<bar> \<le> (10 ^ 38 :: rat)"
      using err unfolding abs_le_iff by linarith
    then have rb: "\<bar>r\<bar> \<le> 10 ^ 38"
      by (metis of_int_abs of_int_le_iff of_int_power of_int_numeral)
    have loop: "normalize_loop r (s - 1) = (u', s')"
      using True "1.prems"(2) by (simp add: normalize_loop.simps[of u s] r_def)
    have ih: "0 \<le> s' \<and> s' \<le> s - 1 \<and>
      \<bar>of_int u' / 10 ^ nat s' - of_int r / 10 ^ nat (s - 1)\<bar>
      \<le> (5 / 9) * (1 / 10 ^ nat s' - 1 / 10 ^ nat (s - 1) :: rat)"
      using "1.IH"[OF True] rb loop True unfolding r_def by simp
    define n where "n = nat (s - 1)"
    have n: "nat s = Suc n" "nat (s - 1) = n" using True by (auto simp: n_def)
    have "\<bar>of_int r / 10 ^ n - of_int u / 10 ^ Suc n\<bar> = \<bar>of_int r - of_int u / 10\<bar> / (10 ^ n :: rat)"
    proof -
      have "of_int r / 10 ^ n - of_int u / 10 ^ Suc n = (of_int r - of_int u / 10) / (10 ^ n :: rat)"
        by (simp add: field_simps)
      then show ?thesis by (simp add: abs_divide)
    qed
    also have "\<dots> \<le> (1 / 2) / 10 ^ n"
      using err by (intro divide_right_mono) auto
    finally have "\<bar>of_int r / 10 ^ n - of_int u / 10 ^ Suc n\<bar> \<le> (1 / 2) / (10 ^ n :: rat)" .
    moreover have "(1 / 2) / 10 ^ n = (5 / 9) * (1 / 10 ^ n - 1 / 10 ^ Suc n :: rat)"
      by (simp add: field_simps)
    ultimately have step: "\<bar>of_int r / 10 ^ n - of_int u / 10 ^ Suc n\<bar>
        \<le> (5 / 9) * (1 / 10 ^ n - 1 / 10 ^ Suc n :: rat)" by simp
    have "\<bar>of_int u' / 10 ^ nat s' - of_int r / 10 ^ n\<bar>
        \<le> (5 / 9) * (1 / 10 ^ nat s' - 1 / 10 ^ n :: rat)" using ih n by simp
    from this step have "\<bar>of_int u' / 10 ^ nat s' - of_int u / 10 ^ Suc n\<bar>
        \<le> (5 / 9) * (1 / 10 ^ nat s' - 1 / 10 ^ Suc n :: rat)" by (rule error_chain)
    with ih n True show ?thesis by simp
  qed
qed

section \<open>Arithmetic without rounding\<close>

lemma dmul_exact:
  assumes "wf_dec a" "wf_dec b" "in_i64 (units a * units b)"
  shows "dmul a b = mk_dec (units a * units b) (scale a + scale b)"
    and "dval (dmul a b) = dval a * dval b"
proof -
  have "in_i128 (units a * units b)" using assms(3) by (auto simp: in_i64_def in_i128_def)
  moreover have "in_i32 (scale a + scale b)" using assms by (auto simp: wf_dec_def in_i32_def)
  ultimately show e: "dmul a b = mk_dec (units a * units b) (scale a + scale b)"
    using assms(3) by (simp add: dmul_def arith_simps)
  show "dval (dmul a b) = dval a * dval b"
    using assms by (simp add: e dval_def wf_dec_def nat_add_distrib power_add)
qed

lemma dadd_exact:
  fixes a b :: decimal
  defines "t \<equiv> max (scale a) (scale b)"
  assumes "wf_dec a" "wf_dec b" "in_i64 (at_scale (nat t) a + at_scale (nat t) b)"
  shows "dadd a b = mk_dec (at_scale (nat t) a + at_scale (nat t) b) t"
    and "dval (dadd a b) = dval a + dval b"
proof -
  have t: "scale a \<le> t" "scale b \<le> t" "t \<le> 18" "0 \<le> t"
    using assms by (auto simp: wf_dec_def t_def)
  have "in_i128 (at_scale (nat t) a + at_scale (nat t) b)"
    using assms(4) by (auto simp: in_i64_def in_i128_def)
  then show e: "dadd a b = mk_dec (at_scale (nat t) a + at_scale (nat t) b) t"
    using assms(2-4) t by (simp add: dadd_def arith_simps t_def[symmetric])
  show "dval (dadd a b) = dval a + dval b"
    using t assms(2,3) dval_at_scale[of a "nat t"] dval_at_scale[of b "nat t"]
    by (simp add: e wf_dec_def add_divide_distrib)
qed

lemma dsub_exact:
  fixes a b :: decimal
  defines "t \<equiv> max (scale a) (scale b)"
  assumes "wf_dec a" "wf_dec b" "in_i64 (at_scale (nat t) a - at_scale (nat t) b)"
  shows "dsub a b = mk_dec (at_scale (nat t) a - at_scale (nat t) b) t"
    and "dval (dsub a b) = dval a - dval b"
proof -
  have t: "scale a \<le> t" "scale b \<le> t" "t \<le> 18" "0 \<le> t"
    using assms by (auto simp: wf_dec_def t_def)
  have "in_i128 (at_scale (nat t) a - at_scale (nat t) b)"
    using assms(4) by (auto simp: in_i64_def in_i128_def)
  then show e: "dsub a b = mk_dec (at_scale (nat t) a - at_scale (nat t) b) t"
    using assms(2-4) t by (simp add: dsub_def arith_simps t_def[symmetric])
  show "dval (dsub a b) = dval a - dval b"
    using t assms(2,3) dval_at_scale[of a "nat t"] dval_at_scale[of b "nat t"]
    by (simp add: e wf_dec_def diff_divide_distrib)
qed

text \<open>Comparison is exact on every pair of well formed decimals: no overflow, no rounding.\<close>

lemma dcmp_sgn:
  assumes "wf_dec a" "wf_dec b"
  shows "dcmp a b = (if dval a < dval b then -1 else if dval b < dval a then 1 else 0)"
proof -
  let ?t = "max (scale a) (scale b)"
  have t: "scale a \<le> ?t" "scale b \<le> ?t" "?t \<le> 18" "0 \<le> ?t"
    using assms by (auto simp: wf_dec_def)
  have v: "dval a = of_int (at_scale (nat ?t) a) / 10 ^ nat ?t"
    "dval b = of_int (at_scale (nat ?t) b) / 10 ^ nat ?t"
    using t assms by (auto intro!: dval_at_scale simp: wf_dec_def)
  have c: "dval a < dval b \<longleftrightarrow> at_scale (nat ?t) a < at_scale (nat ?t) b"
    "dval b < dval a \<longleftrightarrow> at_scale (nat ?t) b < at_scale (nat ?t) a"
    unfolding v by (simp_all add: divide_less_cancel)
  show ?thesis using assms t by (simp add: dcmp_def arith_simps c Let_def)
qed

lemma dcmp_iffs:
  assumes "wf_dec a" "wf_dec b"
  shows "dcmp a b < 0 \<longleftrightarrow> dval a < dval b" "0 < dcmp a b \<longleftrightarrow> dval b < dval a"
    "dcmp a b = 0 \<longleftrightarrow> dval a = dval b" "dcmp a b \<le> 0 \<longleftrightarrow> dval a \<le> dval b"
    "0 \<le> dcmp a b \<longleftrightarrow> dval b \<le> dval a"
  using dcmp_sgn[OF assms] by (auto split: if_splits)


section \<open>Division\<close>

lemma half_up_core:
  fixes num den :: int
  defines "an \<equiv> \<bar>num\<bar>" and "ad \<equiv> \<bar>den\<bar>"
  assumes "den \<noteq> 0" "an \<le> 10 ^ 37" "ad \<le> 10 ^ 37"
  defines "q \<equiv> (if ad \<le> i128 (2 * (an smod ad)) then i128 (an sdiv ad + 1) else an sdiv ad)"
  shows "(if (num < 0) \<noteq> (den < 0) then i128 (- q) else q) = round_away (of_int num / of_int den)"
proof -
  have ad: "0 < ad" and an: "0 \<le> an" using assms by auto
  have sd: "an sdiv ad = an div ad" "an smod ad = an mod ad"
    using ad an by (auto simp: signed_divide_int_def signed_modulo_int_def sgn_if)
  have dv: "0 \<le> an div ad" "an div ad \<le> an"
    using ad an by (auto simp: pos_imp_zdiv_nonneg_iff int_div_less_self
        intro: zdiv_mono2[of an 1 ad, simplified])
  have md: "0 \<le> an mod ad" "an mod ad < ad" using ad by auto
  have "i128 (2 * (an mod ad)) = 2 * (an mod ad)"
    using md assms(5) by (intro i128_id) (auto simp: in_i128_def)
  moreover have "i128 (an div ad + 1) = an div ad + 1"
    using dv assms(4) by (intro i128_id) (auto simp: in_i128_def)
  ultimately have q: "q = \<lfloor>of_int an / of_int ad + 1 / 2 :: rat\<rfloor>"
    unfolding q_def sd using half_up_div[OF an ad] by (auto split: if_splits)
  have "0 \<le> q" "q \<le> an + 1"
    using dv unfolding q half_up_div[OF an ad, symmetric] by simp_all
  then have nq: "i128 (- q) = - q"
    using assms(4) by (intro i128_id) (auto simp: in_i128_def)
  have ratio: "(of_int num / of_int den :: rat)
      = (if (num < 0) \<noteq> (den < 0) then - (of_int an / of_int ad) else of_int an / of_int ad)"
    by (auto simp: an_def ad_def)
  have pos: "(0::rat) \<le> of_int an / of_int ad" using an ad by auto
  show ?thesis
  proof (cases "num = 0")
    case True
    then have "q = 0" unfolding q an_def by simp
    with True nq show ?thesis by (simp add: round_away_def)
  next
    case False
    then have "(0::rat) < of_int an / of_int ad" using ad by (auto simp: an_def)
    then show ?thesis unfolding ratio nq by (auto simp: round_away_def q add.commute)
  qed
qed

lemma ten_37: "\<bar>x\<bar> \<le> 9223372036854775808 * 1000000000000000000 \<Longrightarrow> \<bar>x\<bar> \<le> (10::int) ^ 37"
  by simp

lemma ddiv_nz_round_away:
  assumes "wf_dec a" "wf_dec b" "units b \<noteq> 0" "0 \<le> s" "s \<le> 18" "s - scale a + scale b \<le> 18"
  shows "ddiv_nz a b s = normalize_i128 (round_away (dval a / dval b * 10 ^ nat s)) s"
proof -
  define k where "k = s - scale a + scale b"
  have k: "i32 (s - scale a + scale b) = k" "i32 (- k) = - k"
    using assms by (auto intro!: i32_id simp: in_i32_def wf_dec_def k_def)
  have kb: "k \<le> 18" "- 18 \<le> k" using assms by (auto simp: k_def wf_dec_def)
  define num where "num = (if 0 \<le> k then units a * 10 ^ nat k else units a)"
  define den where "den = (if 0 \<le> k then units b else units b * 10 ^ nat (- k))"
  have u: "in_i64 (units a)" "in_i64 (units b)" using assms by (auto simp: wf_dec_def)
  have "nat k \<le> 18" "nat (- k) \<le> 18" using kb by auto
  then have big: "\<bar>num\<bar> \<le> 9223372036854775808 * 1000000000000000000"
      "\<bar>den\<bar> \<le> 9223372036854775808 * 1000000000000000000"
    using shifted_bound[OF u(1), of "nat k"] shifted_bound[OF u(2), of "nat (- k)"]
      shifted_bound[OF u(1), of 0] shifted_bound[OF u(2), of 0]
    by (simp_all only: num_def den_def power_0 mult_1_right le0 split: if_splits) simp_all
  note small = big[THEN ten_37]
  have neg: "i128 (- num) = - num" "i128 (- den) = - den"
    using small by (auto intro!: i128_id simp: in_i128_def)
  have np: "(if 0 \<le> k then i128 (units a * pow10_i128 k) else units a) = num"
    using kb u by (auto simp: num_def pow10_i128_eq i128_id shifted_in_i128)
  have dp: "(if 0 \<le> k then units b else i128 (units b * pow10_i128 (- k))) = den"
    using kb u by (auto simp: den_def k pow10_i128_eq i128_id shifted_in_i128)
  have den0: "den \<noteq> 0" using assms(3) by (simp add: den_def)
  have an: "(if num < 0 then i128 (- num) else num) = \<bar>num\<bar>"
    and ad: "(if den < 0 then i128 (- den) else den) = \<bar>den\<bar>"
    by (simp_all add: neg)
  have sc: "nat s + nat (scale b) = nat (scale a) + nat k" if "0 \<le> k"
    using that assms by (auto simp: k_def wf_dec_def nat_add_distrib[symmetric])
  have sc': "nat s + nat (scale b) + nat (- k) = nat (scale a)" if "k < 0"
    using that assms by (auto simp: k_def wf_dec_def nat_add_distrib[symmetric])
  have val: "dval a / dval b * 10 ^ nat s
      = (of_int (units a) * 10 ^ (nat s + nat (scale b))) / (of_int (units b) * 10 ^ nat (scale a) :: rat)"
    by (simp add: dval_def power_add mult_ac)
  have ratio: "dval a / dval b * 10 ^ nat s = of_int num / of_int den"
  proof (cases "0 \<le> k")
    case True
    then show ?thesis unfolding val sc[OF True] by (simp add: num_def den_def power_add)
  next
    case False
    then have "(10::rat) ^ nat (scale a) = 10 ^ (nat s + nat (scale b)) * 10 ^ nat (- k)"
      using sc' by (simp flip: power_add)
    with False show ?thesis unfolding val by (simp add: num_def den_def)
  qed
  show ?thesis
    using half_up_core[OF den0 small]
    by (simp only: ddiv_nz_def k Let_def np dp an ad ratio if_False)
qed

lemma ddiv_nz_half_unit:
  assumes "wf_dec a" "wf_dec b" "units b \<noteq> 0" "0 \<le> s" "s \<le> 18" "s - scale a + scale b \<le> 18"
    and fits: "\<bar>dval a / dval b\<bar> * 10 ^ nat s \<le> 9223372036854775806"
  shows "scale (ddiv_nz a b s) = s" "wf_dec (ddiv_nz a b s)"
    "\<bar>dval (ddiv_nz a b s) - dval a / dval b\<bar> \<le> 1 / (2 * 10 ^ nat s)"
proof -
  let ?x = "dval a / dval b * 10 ^ nat s"
  let ?c = "mk_dec (round_away ?x) s"
  have err: "\<bar>of_int (round_away ?x) - ?x\<bar> \<le> 1 / 2" by (rule round_away_error)
  have "\<bar>?x\<bar> \<le> 9223372036854775806" using fits by (simp add: abs_mult)
  with err have "\<bar>of_int (round_away ?x) :: rat\<bar> \<le> of_int 9223372036854775807"
    unfolding abs_le_iff by simp
  then have "\<bar>round_away ?x\<bar> \<le> 9223372036854775807" by linarith
  then have r: "in_i64 (round_away ?x)" by (rule in_i64_abs)
  define e where "e = of_int (round_away ?x) - ?x"
  have e: "\<bar>e\<bar> \<le> 1 / 2" using err by (simp only: e_def)
  have "dval ?c - dval a / dval b = e / 10 ^ nat s"
    by (simp add: field_simps e_def)
  also have "\<bar>\<dots>\<bar> \<le> (1 / 2) / 10 ^ nat s"
    using e by (simp add: abs_divide divide_right_mono field_simps)
  finally have "\<bar>dval ?c - dval a / dval b\<bar> \<le> 1 / (2 * 10 ^ nat s)" by simp
  moreover have q: "ddiv_nz a b s = ?c"
    using assms r by (simp add: ddiv_nz_round_away normalize_i128_id)
  ultimately show "\<bar>dval (ddiv_nz a b s) - dval a / dval b\<bar> \<le> 1 / (2 * 10 ^ nat s)" by simp
  show "scale (ddiv_nz a b s) = s" by (simp add: q)
  show "wf_dec (ddiv_nz a b s)" using r assms by (simp add: q wf_dec_def)
qed

section \<open>Bounded amounts\<close>

text \<open>
  \<open>grid s m d\<close>: the amount \<open>d\<close> is a multiple of \<open>10 ^ - s\<close> of magnitude at most
  \<open>m * 10 ^ - s\<close>. Sums of such amounts are exact as long as the bounds add up to at most
  \<open>2 ^ 63 - 1\<close>, which is how every conservation theorem of the ledger states its range.
\<close>

definition grid :: "nat \<Rightarrow> int \<Rightarrow> decimal \<Rightarrow> bool" where
  "grid s m d \<longleftrightarrow> s \<le> 18 \<and> 0 \<le> scale d \<and> scale d \<le> int s \<and> \<bar>at_scale s d\<bar> \<le> m"

abbreviation max_units :: int where
  "max_units \<equiv> 9223372036854775807"

lemma grid_mono: "grid s m d \<Longrightarrow> m \<le> n \<Longrightarrow> grid s n d"
  by (auto simp: grid_def)

lemma grid_nonneg: "grid s m d \<Longrightarrow> 0 \<le> m"
  by (auto simp: grid_def)

lemma grid_le_18: "grid s m d \<Longrightarrow> s \<le> 18"
  by (simp add: grid_def)

lemma grid_dzero [simp]: "grid s m dzero \<longleftrightarrow> 0 \<le> m \<and> s \<le> 18"
  by (auto simp: grid_def dzero_def at_scale_def)

lemma at_scale_le:
  assumes "0 \<le> scale d" "scale d \<le> int t" "t \<le> s"
  shows "at_scale s d = at_scale t d * 10 ^ (s - t)" "\<bar>at_scale t d\<bar> \<le> \<bar>at_scale s d\<bar>"
proof -
  have "s - nat (scale d) = (t - nat (scale d)) + (s - t)" using assms by auto
  then show e: "at_scale s d = at_scale t d * 10 ^ (s - t)"
    by (simp add: at_scale_def power_add)
  have "\<bar>at_scale t d\<bar> * 1 \<le> \<bar>at_scale t d\<bar> * 10 ^ (s - t)"
    by (intro mult_left_mono) auto
  then show "\<bar>at_scale t d\<bar> \<le> \<bar>at_scale s d\<bar>" unfolding e by (simp add: abs_mult)
qed

lemma at_scale_mk: "at_scale s (mk_dec u t) = u * 10 ^ (s - nat t)"
  by (simp add: at_scale_def)

lemma grid_at: "grid s m d \<Longrightarrow> scale d \<le> int t \<Longrightarrow> t \<le> s \<Longrightarrow> \<bar>at_scale t d\<bar> \<le> m"
  using at_scale_le(2)[of d t s] by (auto simp: grid_def)

lemma grid_wf:
  assumes "grid s m d" "m \<le> max_units"
  shows "wf_dec d"
proof -
  have "\<bar>at_scale (nat (scale d)) d\<bar> \<le> m"
    using assms(1) by (intro grid_at) (auto simp: grid_def)
  with assms(2) have "in_i64 (units d)" by (intro in_i64_abs) (simp add: at_scale_def)
  with assms(1) show ?thesis by (auto simp: wf_dec_def grid_def)
qed

lemma dval_grid: "grid s m d \<Longrightarrow> dval d = of_int (at_scale s d) / 10 ^ s"
  by (auto simp: grid_def intro: dval_at_scale)

lemma grid_add:
  assumes g: "grid s m a" "grid s n b" and fits: "m + n \<le> max_units"
  shows "dval (dadd a b) = dval a + dval b" and "grid s (m + n) (dadd a b)"
proof -
  let ?t = "max (scale a) (scale b)"
  have wf: "wf_dec a" "wf_dec b"
    using g fits grid_nonneg[OF g(1)] grid_nonneg[OF g(2)] by (auto intro: grid_wf)
  have t: "0 \<le> scale a" "scale a \<le> int (nat ?t)" "0 \<le> scale b" "scale b \<le> int (nat ?t)" "nat ?t \<le> s"
    using g by (auto simp: grid_def)
  have e: "at_scale s a + at_scale s b = (at_scale (nat ?t) a + at_scale (nat ?t) b) * 10 ^ (s - nat ?t)"
    using at_scale_le(1)[OF t(1,2,5)] at_scale_le(1)[OF t(3,4,5)] by (simp add: distrib_right)
  have le: "\<bar>at_scale s a + at_scale s b\<bar> \<le> m + n" using g by (auto simp: grid_def)
  have "\<bar>at_scale (nat ?t) a + at_scale (nat ?t) b\<bar> \<le> max_units"
    using grid_at[OF g(1) t(2,5)] grid_at[OF g(2) t(4,5)] fits by linarith
  then have "in_i64 (at_scale (nat ?t) a + at_scale (nat ?t) b)" by (rule in_i64_abs)
  note ex = dadd_exact[OF wf this]
  show "dval (dadd a b) = dval a + dval b" by (rule ex(2))
  show "grid s (m + n) (dadd a b)"
    unfolding ex(1) grid_def using t le e grid_le_18[OF g(1)]
    by (simp only: mk_dec_sel at_scale_mk) (simp add: nat_le_iff le_max_iff_disj)
qed

lemma grid_sub:
  assumes g: "grid s m a" "grid s n b" and fits: "m + n \<le> max_units"
  shows "dval (dsub a b) = dval a - dval b" and "grid s (m + n) (dsub a b)"
proof -
  let ?t = "max (scale a) (scale b)"
  have wf: "wf_dec a" "wf_dec b"
    using g fits grid_nonneg[OF g(1)] grid_nonneg[OF g(2)] by (auto intro: grid_wf)
  have t: "0 \<le> scale a" "scale a \<le> int (nat ?t)" "0 \<le> scale b" "scale b \<le> int (nat ?t)" "nat ?t \<le> s"
    using g by (auto simp: grid_def)
  have e: "at_scale s a - at_scale s b = (at_scale (nat ?t) a - at_scale (nat ?t) b) * 10 ^ (s - nat ?t)"
    using at_scale_le(1)[OF t(1,2,5)] at_scale_le(1)[OF t(3,4,5)] by (simp add: left_diff_distrib)
  have le: "\<bar>at_scale s a - at_scale s b\<bar> \<le> m + n" using g by (auto simp: grid_def)
  have "\<bar>at_scale (nat ?t) a - at_scale (nat ?t) b\<bar> \<le> max_units"
    using grid_at[OF g(1) t(2,5)] grid_at[OF g(2) t(4,5)] fits by linarith
  then have "in_i64 (at_scale (nat ?t) a - at_scale (nat ?t) b)" by (rule in_i64_abs)
  note ex = dsub_exact[OF wf this]
  show "dval (dsub a b) = dval a - dval b" by (rule ex(2))
  show "grid s (m + n) (dsub a b)"
    unfolding ex(1) grid_def using t le e grid_le_18[OF g(1)]
    by (simp only: mk_dec_sel at_scale_mk) (simp add: nat_le_iff le_max_iff_disj)
qed

lemma grid_cmp:
  assumes "grid s m a" "grid s n b" "m \<le> max_units" "n \<le> max_units"
  shows "dcmp a b < 0 \<longleftrightarrow> dval a < dval b" "0 < dcmp a b \<longleftrightarrow> dval b < dval a"
    "dcmp a b \<le> 0 \<longleftrightarrow> dval a \<le> dval b" "0 \<le> dcmp a b \<longleftrightarrow> dval b \<le> dval a"
  using dcmp_iffs[OF grid_wf[OF assms(1,3)] grid_wf[OF assms(2,4)]] by auto

lemma grid_mul:
  assumes "grid s m a" "grid t n b" "s + t \<le> 18" "m \<le> max_units" "n \<le> max_units" "m * n \<le> max_units"
  shows "dval (dmul a b) = dval a * dval b" and "grid (s + t) (m * n) (dmul a b)"
proof -
  have sc: "0 \<le> scale a" "scale a \<le> int s" "0 \<le> scale b" "scale b \<le> int t"
    using assms(1,2) by (auto simp: grid_def)
  have u: "\<bar>units a\<bar> \<le> m" "\<bar>units b\<bar> \<le> n"
    using grid_at[OF assms(1), of "nat (scale a)"] grid_at[OF assms(2), of "nat (scale b)"] sc
    by (auto simp: at_scale_def nat_le_iff)
  have "\<bar>units a * units b\<bar> \<le> m * n"
    unfolding abs_mult by (rule mult_mono) (use u in auto)
  with assms(6) have i: "in_i64 (units a * units b)" by (intro in_i64_abs) linarith
  note e = dmul_exact[OF grid_wf[OF assms(1,4)] grid_wf[OF assms(2,5)] i]
  show "dval (dmul a b) = dval a * dval b" by (rule e(2))
  have "s + t - nat (scale a + scale b) = (s - nat (scale a)) + (t - nat (scale b))"
    using sc by (simp add: nat_add_distrib)
  then have at: "at_scale (s + t) (dmul a b) = at_scale s a * at_scale t b"
    unfolding e(1) at_scale_mk by (simp add: at_scale_def power_add)
  have "\<bar>at_scale s a\<bar> * \<bar>at_scale t b\<bar> \<le> m * n"
    using assms(1,2) grid_nonneg[OF assms(1)] by (intro mult_mono) (auto simp: grid_def)
  then have "\<bar>at_scale (s + t) (dmul a b)\<bar> \<le> m * n" by (simp only: at abs_mult)
  moreover have "scale (dmul a b) = scale a + scale b" by (simp add: e(1))
  ultimately show "grid (s + t) (m * n) (dmul a b)"
    using sc assms(3) by (simp add: grid_def)
qed

lemma dval_zero_iff: "dval d = 0 \<longleftrightarrow> units d = 0"
  by (simp add: dval_def)

lemma grid_dneg:
  assumes "grid s m d" "m \<le> max_units"
  shows "dval (dneg d) = - dval d" "grid s m (dneg d)"
proof -
  have "wf_dec d" by (rule grid_wf[OF assms])
  moreover have "\<bar>units d\<bar> \<le> m"
    using grid_at[OF assms(1), of "nat (scale d)"] assms(1) by (auto simp: grid_def at_scale_def nat_le_iff)
  ultimately have "i64 (- units d) = - units d"
    using assms(2) by (intro i64_id in_i64_abs) simp
  then show "dval (dneg d) = - dval d" "grid s m (dneg d)"
    using assms(1) by (auto simp: dneg_def dval_def grid_def at_scale_def)
qed

lemma grid_dval_bound:
  assumes "grid s m d"
  shows "\<bar>dval d\<bar> \<le> of_int m / 10 ^ s"
proof -
  have "\<bar>at_scale s d\<bar> \<le> m" using assms by (simp add: grid_def)
  then have "\<bar>of_int (at_scale s d) :: rat\<bar> \<le> of_int m" by (simp flip: of_int_abs)
  then show ?thesis unfolding dval_grid[OF assms] abs_divide by (simp add: divide_right_mono)
qed

lemma grid_dval_bound': "grid s m d \<Longrightarrow> \<bar>dval d\<bar> \<le> of_int m"
proof -
  assume g: "grid s m d"
  have "of_int m / 10 ^ s \<le> (of_int m / 1 :: rat)"
    using grid_nonneg[OF g] by (intro divide_left_mono) auto
  with grid_dval_bound[OF g] show ?thesis by simp
qed

lemma dmin_grid:
  assumes "grid s m a" "grid s n b" "m \<le> max_units" "n \<le> max_units"
  shows "dval (dmin a b) = min (dval a) (dval b)" "grid s (max m n) (dmin a b)"
  using assms grid_cmp(3)[OF assms] by (auto simp: dmin_def min_def intro: grid_mono)

lemma grid_of_value:
  assumes "s \<le> 18" "0 \<le> scale d" "scale d \<le> int s" "\<bar>dval d * 10 ^ s\<bar> \<le> of_int m"
  shows "grid s m d"
proof -
  have "dval d * 10 ^ s = of_int (at_scale s d)" using dval_at_scale[OF assms(2,3)] by simp
  with assms(4) have "\<bar>at_scale s d\<bar> \<le> m" by (simp flip: of_int_abs)
  with assms(1-3) show ?thesis by (simp add: grid_def)
qed

lemma is_dzero: "scale d = 0 \<Longrightarrow> units d = 0 \<Longrightarrow> d = dzero"
  by (cases d) (simp add: dzero_def mk_dec_def)

section \<open>Interface: exact money\<close>

text \<open>
  What the ledger, the risk service and the order flow rely on when they move money: an
  amount read as a rational, sums and differences exact while the bounds fit, comparison
  that agrees with the order of the values.
\<close>

locale exact_money =
  fixes val :: "'d \<Rightarrow> rat"
    and add sub :: "'d \<Rightarrow> 'd \<Rightarrow> 'd"
    and cmp :: "'d \<Rightarrow> 'd \<Rightarrow> int"
    and zero :: 'd
    and bounded :: "int \<Rightarrow> 'd \<Rightarrow> bool"
    and lim :: int
  assumes zero_val: "val zero = 0"
    and bounded_zero: "bounded m a \<Longrightarrow> bounded m zero"
    and bounded_nonneg: "bounded m a \<Longrightarrow> 0 \<le> m"
    and bounded_mono: "bounded m a \<Longrightarrow> m \<le> n \<Longrightarrow> bounded n a"
    and add_val: "bounded m a \<Longrightarrow> bounded n b \<Longrightarrow> m + n \<le> lim \<Longrightarrow> val (add a b) = val a + val b"
    and add_bounded: "bounded m a \<Longrightarrow> bounded n b \<Longrightarrow> m + n \<le> lim \<Longrightarrow> bounded (m + n) (add a b)"
    and sub_val: "bounded m a \<Longrightarrow> bounded n b \<Longrightarrow> m + n \<le> lim \<Longrightarrow> val (sub a b) = val a - val b"
    and sub_bounded: "bounded m a \<Longrightarrow> bounded n b \<Longrightarrow> m + n \<le> lim \<Longrightarrow> bounded (m + n) (sub a b)"
    and cmp_neg: "bounded m a \<Longrightarrow> bounded n b \<Longrightarrow> m \<le> lim \<Longrightarrow> n \<le> lim \<Longrightarrow>
      cmp a b < 0 \<longleftrightarrow> val a < val b"
    and cmp_pos: "bounded m a \<Longrightarrow> bounded n b \<Longrightarrow> m \<le> lim \<Longrightarrow> n \<le> lim \<Longrightarrow>
      0 < cmp a b \<longleftrightarrow> val b < val a"
begin

text \<open>Accumulating a list of bounded amounts.\<close>

lemma sum_exact:
  assumes "bounded m acc" "\<forall>x \<in> set xs. bounded n x" "m + int (length xs) * n \<le> lim" "0 \<le> n"
  shows "val (fold (\<lambda>x acc. add acc x) xs acc) = val acc + sum_list (map val xs)
    \<and> bounded (m + int (length xs) * n) (fold (\<lambda>x acc. add acc x) xs acc)"
  using assms
proof (induction xs arbitrary: acc m)
  case Nil
  then show ?case by simp
next
  case (Cons x xs)
  have len: "int (length (x # xs)) * n = n + int (length xs) * n" by (simp add: algebra_simps)
  have "0 \<le> int (length xs) * n" using Cons.prems(4) by simp
  with Cons.prems(3) have fit: "m + n \<le> lim" unfolding len by linarith
  have x: "bounded n x" using Cons.prems(2) by simp
  have "bounded (m + n) (add acc x)" by (rule add_bounded[OF Cons.prems(1) x fit])
  moreover have "val (add acc x) = val acc + val x" by (rule add_val[OF Cons.prems(1) x fit])
  moreover have "(m + n) + int (length xs) * n \<le> lim" using Cons.prems(3) unfolding len by linarith
  ultimately show ?case
    using Cons.IH[of "m + n" "add acc x"] Cons.prems(2,4) by (auto simp: algebra_simps)
qed

text \<open>Moving an amount from one place to another keeps the total.\<close>

lemma transfer_exact:
  assumes "bounded m a" "bounded m b" "bounded n x" "m + n \<le> lim"
  shows "val (sub a x) + val (add b x) = val a + val b"
    and "bounded (m + n) (sub a x)" and "bounded (m + n) (add b x)"
  using assms by (auto simp: add_val sub_val intro: add_bounded sub_bounded)

end

interpretation dec: exact_money dval dadd dsub dcmp dzero "grid s" max_units for s
  by unfold_locales
    (auto simp: grid_add grid_sub grid_cmp intro: grid_mono grid_nonneg dest: grid_nonneg grid_le_18)

end
