(* ===== verification/Decimal_Laws.thy ===== *)
theory Decimal_Laws
  imports Decimal
begin

text \<open>
  What \<open>cex::common::Decimal\<close> promises to every service: comparison is comparison of values,
  sums, differences and products are exact whenever the result fits and within five ninths
  of its last place otherwise, quotients are within half a unit of the requested scale, and
  no operation returns units outside 64 bits.
\<close>

lemma normalize_loop_stops:
  "normalize_loop u s = (u', s') \<Longrightarrow> s' \<le> 0 \<or> in_i64 u'"
proof (induction u s rule: normalize_loop.induct)
  case (1 u s)
  then show ?case
    by (cases "(9223372036854775807 < u \<or> u < -9223372036854775808) \<and> 0 < s")
       (auto simp: normalize_loop.simps[of u s] in_i64_def)
qed

lemma normalize_error:
  fixes u s :: int
  defines "x \<equiv> of_int u / 10 ^ nat s :: rat"
  assumes "\<bar>u\<bar> \<le> 10 ^ 38" "0 \<le> s" "\<bar>x\<bar> \<le> 9223372036854775806"
  shows "0 \<le> scale (normalize_i128 u s)" "scale (normalize_i128 u s) \<le> s"
    "\<bar>dval (normalize_i128 u s) - x\<bar> \<le> (5 / 9) / 10 ^ nat (scale (normalize_i128 u s))"
proof -
  obtain u' s' where l: "normalize_loop u s = (u', s')" by (cases "normalize_loop u s")
  from normalize_loop_error[OF assms(2) l assms(3)]
  have b: "0 \<le> s'" "s' \<le> s"
    and e: "\<bar>of_int u' / 10 ^ nat s' - x\<bar> \<le> (5 / 9) * (1 / 10 ^ nat s' - 1 / 10 ^ nat s)"
    by (auto simp: x_def)
  have "(5 / 9) * (1 / 10 ^ nat s' - 1 / 10 ^ nat s) \<le> (5 / 9) * (1 / 10 ^ nat s' :: rat)"
    by (intro mult_left_mono) auto
  from order_trans[OF e this] have e': "\<bar>of_int u' / 10 ^ nat s' - x\<bar> \<le> (5 / 9) / (10 ^ nat s' :: rat)"
    by (simp only: times_divide_eq_right mult_1_right)
  have fits: "in_i64 u'"
  proof (cases "s' = 0")
    case True
    with e' assms(4) have "\<bar>of_int u'\<bar> < (9223372036854775807 + 1 :: rat)"
      unfolding abs_le_iff abs_less_iff by simp
    then have "\<bar>u'\<bar> < 9223372036854775808" by linarith
    then show ?thesis by (auto simp: in_i64_def)
  next
    case False
    with normalize_loop_stops[OF l] b show ?thesis by auto
  qed
  have n: "normalize_i128 u s = mk_dec u' s'"
    using l fits by (auto simp: normalize_i128_def in_i64_def)
  show "0 \<le> scale (normalize_i128 u s)" "scale (normalize_i128 u s) \<le> s"
    "\<bar>dval (normalize_i128 u s) - x\<bar> \<le> (5 / 9) / 10 ^ nat (scale (normalize_i128 u s))"
    using b e' by (simp_all add: n)
qed

lemma product_bound:
  assumes "wf_dec a" "wf_dec b"
  shows "\<bar>units a * units b\<bar> \<le> 10 ^ 38" "in_i128 (units a * units b)"
proof -
  have "\<bar>units a\<bar> \<le> 9223372036854775808" "\<bar>units b\<bar> \<le> 9223372036854775808"
    using assms by (auto simp: wf_dec_def in_i64_def)
  then have p: "\<bar>units a\<bar> * \<bar>units b\<bar> \<le> 9223372036854775808 * 9223372036854775808"
    by (intro mult_mono) auto
  then show "\<bar>units a * units b\<bar> \<le> 10 ^ 38" by (simp add: abs_mult)
  show "in_i128 (units a * units b)" using p by (intro in_i128_abs) (simp add: abs_mult)
qed

lemma dmul_normalize:
  assumes "wf_dec a" "wf_dec b"
  shows "dmul a b = normalize_i128 (units a * units b) (scale a + scale b)"
    "of_int (units a * units b) / 10 ^ nat (scale a + scale b) = dval a * dval b"
  using product_bound[OF assms] assms
  by (auto simp: dmul_def arith_simps wf_dec_def in_i32_def dval_def nat_add_distrib power_add i32_id i128_id)

lemma sum_normalize:
  fixes a b :: decimal
  defines "t \<equiv> max (scale a) (scale b)"
  defines "x \<equiv> at_scale (nat t) a" and "y \<equiv> at_scale (nat t) b"
  assumes "wf_dec a" "wf_dec b"
  shows "dadd a b = normalize_i128 (x + y) t" "dsub a b = normalize_i128 (x - y) t"
    "of_int (x + y) / 10 ^ nat t = dval a + dval b" "of_int (x - y) / 10 ^ nat t = dval a - dval b"
    "\<bar>x + y\<bar> \<le> 10 ^ 38" "\<bar>x - y\<bar> \<le> 10 ^ 38" "0 \<le> t"
proof -
  have t: "scale a \<le> t" "scale b \<le> t" "t \<le> 18" "0 \<le> t"
    using assms(4,5) by (auto simp: wf_dec_def t_def)
  have n: "nat t \<le> 18" using t by simp
  note bx = at_scale_bound[OF assms(4) n, folded x_def] and by' = at_scale_bound[OF assms(5) n, folded y_def]
  have "\<bar>x + y\<bar> \<le> 2 * (9223372036854775808 * 1000000000000000000)"
    "\<bar>x - y\<bar> \<le> 2 * (9223372036854775808 * 1000000000000000000)"
    using bx by' by linarith+
  then show b: "\<bar>x + y\<bar> \<le> 10 ^ 38" "\<bar>x - y\<bar> \<le> 10 ^ 38" by simp_all
  have i: "in_i128 (x + y)" "in_i128 (x - y)" using b by (auto intro!: in_i128_abs)
  show "dadd a b = normalize_i128 (x + y) t" "dsub a b = normalize_i128 (x - y) t"
    using assms(4,5) t i by (simp_all add: dadd_def dsub_def Let_def arith_simps flip: t_def x_def y_def)
  have d: "dval a = of_int x / 10 ^ nat t" "dval b = of_int y / 10 ^ nat t"
    using t assms(4,5) dval_at_scale[of a "nat t"] dval_at_scale[of b "nat t"]
    by (simp_all add: x_def y_def wf_dec_def)
  show "of_int (x + y) / 10 ^ nat t = dval a + dval b" "of_int (x - y) / 10 ^ nat t = dval a - dval b"
    by (simp_all add: d add_divide_distrib diff_divide_distrib)
  show "0 \<le> t" by (rule t)
qed

text \<open>C8. Rounding. For all decimals of scale at most eighteen, a sum, difference or product whose
  value is below \<open>2 ^ 63 - 1\<close> comes back with an error of at most five ninths of its last
  place, whatever the size of the intermediate 128-bit result; and the units returned by
  every operation fit in 64 bits, so no result wraps.\<close>

theorem decimal_arithmetic_error:
  fixes x :: rat
  assumes "wf_dec a" "wf_dec b"
    and "(r, x) \<in> {(dadd a b, dval a + dval b), (dsub a b, dval a - dval b), (dmul a b, dval a * dval b)}"
    and "\<bar>x\<bar> \<le> 9223372036854775806"
  shows "in_i64 (units r) \<and> \<bar>dval r - x\<bar> \<le> (5 / 9) / 10 ^ nat (scale r)"
proof -
  note s = sum_normalize[OF assms(1,2)] and p = dmul_normalize[OF assms(1,2)]
    and pb = product_bound[OF assms(1,2)]
  have sc: "0 \<le> scale a + scale b" using assms by (simp add: wf_dec_def)
  have fin: "in_i64 (units r) \<and> \<bar>dval r - x\<bar> \<le> (5 / 9) / 10 ^ nat (scale r)"
    if "r = normalize_i128 u t" "of_int u / 10 ^ nat t = x" "\<bar>u\<bar> \<le> 10 ^ 38" "0 \<le> t" for u t
    using normalize_error(3)[OF that(3,4)] assms(4) normalize_units_in_i64 unfolding that(1) that(2) by blast
  from assms(3) consider "r = dadd a b" "x = dval a + dval b" | "r = dsub a b" "x = dval a - dval b"
    | "r = dmul a b" "x = dval a * dval b" by blast
  then show ?thesis
  proof cases
    case 1
    show ?thesis unfolding 1 by (rule fin[unfolded 1, OF s(1) s(3) s(5) s(7)])
  next
    case 2
    show ?thesis unfolding 2 by (rule fin[unfolded 2, OF s(2) s(4) s(6) s(7)])
  next
    case 3
    show ?thesis unfolding 3 by (rule fin[unfolded 3, OF p(1) p(2) pb(1) sc])
  qed
qed

text \<open>Twice 9 billion with 9 decimals overflows 64 bits and loses its last digit.\<close>

theorem decimal_arithmetic_error_witness:
  "\<bar>dval (dmul (mk_dec 9000000000000000001 9) (mk_dec 20 1)) - 9000000000000000001 / 10 ^ 9 * 2\<bar>
    \<le> (5 / 9) / 10 ^ nat (scale (dmul (mk_dec 9000000000000000001 9) (mk_dec 20 1)))"
  using decimal_arithmetic_error[of "mk_dec 9000000000000000001 9" "mk_dec 20 1"
    "dmul (mk_dec 9000000000000000001 9) (mk_dec 20 1)"
    "dval (mk_dec 9000000000000000001 9) * dval (mk_dec 20 1)"]
  by (simp add: wf_dec_def in_i64_def)

text \<open>Order. \<open>Decimal::cmp\<close> decides the order of the values for all pairs of decimals of scale
  at most eighteen, without any range condition: the alignment to the common scale is done
  in 128 bits. \<open>min\<close> and \<open>max\<close> return one of their arguments, with the extreme value.\<close>

theorem decimal_order_is_value_order:
  assumes "wf_dec a" "wf_dec b"
  shows "(dcmp a b < 0 \<longleftrightarrow> dval a < dval b) \<and> (dcmp a b = 0 \<longleftrightarrow> dval a = dval b)
    \<and> (0 < dcmp a b \<longleftrightarrow> dval b < dval a)
    \<and> dval (dmin a b) = min (dval a) (dval b) \<and> dmin a b \<in> {a, b}
    \<and> dval (dmax a b) = max (dval a) (dval b) \<and> dmax a b \<in> {a, b}"
  using dcmp_iffs[OF assms] by (auto simp: dmin_def dmax_def)

theorem decimal_order_is_value_order_witness:
  "dcmp (mk_dec 9223372036854775807 0) (mk_dec 1 18) \<noteq> 0"
  using decimal_order_is_value_order[of "mk_dec 9223372036854775807 0" "mk_dec 1 18"]
  by (simp add: wf_dec_def in_i64_def)

text \<open>Division. A zero divisor is the exception of the code and nothing else is; the quotient at
  the requested scale is the true one rounded to the nearest unit of that scale, ties away
  from zero, whenever it fits.\<close>

theorem decimal_division_rounds_half_up:
  assumes "wf_dec a" "wf_dec b" "0 \<le> s" "s \<le> 18" "s - scale a + scale b \<le> 18"
    and "dval b \<noteq> 0 \<longrightarrow> \<bar>dval a / dval b\<bar> * 10 ^ nat s \<le> 9223372036854775806"
  shows "case ddiv a b s of None \<Rightarrow> dval b = 0
    | Some q \<Rightarrow> dval b \<noteq> 0 \<and> scale q = s \<and> wf_dec q
        \<and> units q = round_away (dval a / dval b * 10 ^ nat s)
        \<and> \<bar>dval q - dval a / dval b\<bar> \<le> 1 / (2 * 10 ^ nat s)"
proof (cases "units b = 0")
  case True
  then show ?thesis by (simp add: ddiv_def dval_zero_iff)
next
  case False
  then have nz: "dval b \<noteq> 0" by (simp add: dval_zero_iff)
  with assms(6) have fits: "\<bar>dval a / dval b\<bar> * 10 ^ nat s \<le> 9223372036854775806" by simp
  note h = ddiv_nz_half_unit[OF assms(1,2) False assms(3-5) fits]
  have v: "dval (ddiv_nz a b s) * 10 ^ nat s = of_int (units (ddiv_nz a b s))"
    using h(1) by (simp add: dval_def)
  have r: "ddiv_nz a b s = normalize_i128 (round_away (dval a / dval b * 10 ^ nat s)) s"
    by (rule ddiv_nz_round_away[OF assms(1,2) False assms(3-5)])
  have "\<bar>round_away (dval a / dval b * 10 ^ nat s)\<bar> \<le> 9223372036854775807"
  proof -
    have "\<bar>dval a / dval b * 10 ^ nat s\<bar> \<le> 9223372036854775806" using fits by (simp add: abs_mult)
    with round_away_error[of "dval a / dval b * 10 ^ nat s"]
    have "\<bar>of_int (round_away (dval a / dval b * 10 ^ nat s)) :: rat\<bar> \<le> of_int 9223372036854775807"
      unfolding abs_le_iff by simp
    then show ?thesis by linarith
  qed
  then have "units (ddiv_nz a b s) = round_away (dval a / dval b * 10 ^ nat s)"
    by (simp add: r normalize_i128_id in_i64_abs)
  with h nz False show ?thesis by (simp add: ddiv_def)
qed

theorem decimal_division_rounds_half_up_witness:
  "ddiv (mk_dec 1 0) (mk_dec 3 0) 8 = Some (mk_dec 33333333 8)
    \<and> \<bar>dval (mk_dec 33333333 8) - 1 / 3\<bar> \<le> 1 / (2 * 10 ^ 8)"
proof -
  have "ddiv (mk_dec 1 0) (mk_dec 3 0) 8 = Some (mk_dec 33333333 8)" by code_simp
  then show ?thesis
    using decimal_division_rounds_half_up[of "mk_dec 1 0" "mk_dec 3 0" 8]
    by (simp add: wf_dec_def in_i64_def)
qed

end
