(* ===== verification/Decimal_Text.thy ===== *)
theory Decimal_Text
  imports Decimal
begin

text \<open>
  Decimals as text: \<open>Decimal::to_string\<close> (\<open>cpp/common/src/decimal.cpp\<close>), which every service
  uses to write money to PostgreSQL and Kafka, and the parsers that read it back:
  \<open>parse_pg_numeric\<close> of the ledger, \<open>ParsePgNumeric\<close> of risk, \<open>ParseDecimalString\<close> of risk
  (configuration) and \<open>ParseDecimalString\<close> of the backtest's shadow ledger.
\<close>

section \<open>Characters and digits\<close>

definition digit_char :: "nat \<Rightarrow> char" where
  "digit_char n = char_of (48 + n)"

definition is_digit :: "char \<Rightarrow> bool" where
  "is_digit c \<longleftrightarrow> 48 \<le> (of_char c :: nat) \<and> (of_char c :: nat) \<le> 57"

definition digit_val :: "char \<Rightarrow> int" where
  "digit_val c = int (of_char c) - 48"

definition is_space :: "char \<Rightarrow> bool" where
  "is_space c \<longleftrightarrow> (of_char c :: nat) = 32 \<or> 9 \<le> (of_char c :: nat) \<and> (of_char c :: nat) \<le> 13"

text \<open>\<open>operator<<\<close> of an unsigned number on a stream.\<close>

fun digits_of :: "nat \<Rightarrow> string" where
  "digits_of n = (if n < 10 then [digit_char n] else digits_of (n div 10) @ [digit_char (n mod 10)])"

declare digits_of.simps [simp del]

definition int_to_str :: "int \<Rightarrow> string" where
  "int_to_str i = (if i < 0 then CHR ''-'' # digits_of (nat (- i)) else digits_of (nat i))"

text \<open>\<open>std::setw\<close> with the fill character \<open>'0'\<close>.\<close>

definition pad_zeros :: "nat \<Rightarrow> string \<Rightarrow> string" where
  "pad_zeros w s = replicate (w - length s) (CHR ''0'') @ s"

section \<open>Writing\<close>

definition to_string :: "decimal \<Rightarrow> string" where
  "to_string d =
     (let abs_units = (if units d < 0 then i64 (- units d) else units d);
          int_part = abs_units sdiv pow10_i (scale d);
          frac_part = abs_units smod pow10_i (scale d)
      in (if units d < 0 then ''-'' else []) @ int_to_str int_part @
         (if 0 < scale d then CHR ''.'' # pad_zeros (nat (scale d)) (int_to_str frac_part) else []))"

section \<open>Reading\<close>

text \<open>The ledger's reader of \<open>NUMERIC\<close> text: stops at the first character that is neither a digit
  nor a dot, and drops digits of a value too large for 64 bits.\<close>

fun pg_digits :: "string \<Rightarrow> int \<Rightarrow> int \<Rightarrow> bool \<Rightarrow> int \<times> int" where
  "pg_digits [] u s dot = (u, s)"
| "pg_digits (c # cs) u s dot =
     (if c = CHR ''.'' then pg_digits cs u s True
      else if \<not> is_digit c then (u, s)
      else pg_digits cs (i128 (u * 10 + digit_val c)) (if dot then i32 (s + 1) else s) dot)"

function pg_clamp :: "int \<Rightarrow> int \<Rightarrow> int \<times> int" where
  "pg_clamp u s = (if (9223372036854775807 < u \<or> u < -9223372036854775808) \<and> 0 < s
     then pg_clamp (u sdiv 10) (s - 1) else (u, s))"
  by pat_completeness auto
termination
  by (relation "measure (\<lambda>(u, s). nat s)") auto

declare pg_clamp.simps [simp del]

definition split_sign :: "string \<Rightarrow> bool \<times> string" where
  "split_sign t = (case t of [] \<Rightarrow> (False, [])
     | c # cs \<Rightarrow> if c = CHR ''+'' \<or> c = CHR ''-'' then (c = CHR ''-'', cs) else (False, t))"

definition parse_pg_numeric :: "string \<Rightarrow> decimal" where
  "parse_pg_numeric t =
     (if t = [] then dzero
      else let (negative, body) = split_sign t;
               (u, s) = pg_digits body 0 0 False;
               (u, s) = pg_clamp (if negative then i128 (- u) else u) s
           in mk_dec (i64 u) s)"

text \<open>The reader of risk: trims, drops trailing zeros of a fraction, and throws (\<open>None\<close>) on
  anything that is not a number or does not fit.\<close>

definition trim_ascii_space :: "string \<Rightarrow> string" where
  "trim_ascii_space t = rev (dropWhile is_space (rev (dropWhile is_space t)))"

text \<open>\<open>while (size > 1 && back == '0') remove_suffix\<close>, on the reversed text.\<close>

fun strip_zeros_rev :: "string \<Rightarrow> string" where
  "strip_zeros_rev [] = []"
| "strip_zeros_rev [c] = [c]"
| "strip_zeros_rev (c # d # cs) = (if c = CHR ''0'' then strip_zeros_rev (d # cs) else c # d # cs)"

definition strip_fraction :: "string \<Rightarrow> string" where
  "strip_fraction t =
     (if CHR ''.'' \<notin> set t then t
      else let r = strip_zeros_rev (rev t)
           in rev (case r of [] \<Rightarrow> [] | c # cs \<Rightarrow> if c = CHR ''.'' then cs else c # cs))"

fun pg_strict :: "bool \<Rightarrow> string \<Rightarrow> int \<Rightarrow> int \<Rightarrow> bool \<Rightarrow> bool \<Rightarrow> (int \<times> int) option" where
  "pg_strict neg [] acc s digit dot = (if digit then Some (acc, s) else None)"
| "pg_strict neg (c # cs) acc s digit dot =
     (if c = CHR ''.'' then (if dot then None else pg_strict neg cs acc s digit True)
      else if \<not> is_digit c then None
      else let acc = i128 (acc * 10 + digit_val c)
           in if (\<not> neg \<and> 9223372036854775807 < acc) \<or> (neg \<and> 9223372036854775808 < acc) then None
              else pg_strict neg cs acc (if dot then i32 (s + 1) else s) True dot)"

definition ParsePgNumeric :: "string \<Rightarrow> decimal option" where
  "ParsePgNumeric t =
     (let t = trim_ascii_space t
      in if t = [] then None
         else let t = strip_fraction t; (negative, body) = split_sign t
              in if body = [] then None
                 else case pg_strict negative body 0 0 False False of
                        None \<Rightarrow> None
                      | Some (acc, s) \<Rightarrow> Some (mk_dec (if negative then - acc else acc) s))"

text \<open>\<open>std::stoll\<close> in base ten: \<open>None\<close> where it throws.\<close>

definition stoll :: "string \<Rightarrow> int option" where
  "stoll t =
     (let (negative, body) = split_sign (dropWhile is_space t);
          ds = takeWhile is_digit body;
          v = foldl (\<lambda>a c. a * 10 + digit_val c) 0 ds;
          v = (if negative then - v else v)
      in if ds = [] \<or> \<not> in_i64 v then None else Some v)"

text \<open>The configuration reader of risk and matching.\<close>

definition ParseDecimalString :: "string \<Rightarrow> decimal" where
  "ParseDecimalString raw =
     (if raw = [] then dzero
      else let (negative, s) = split_sign raw
           in if s = [] then dzero
              else let int_part = takeWhile (\<lambda>c. c \<noteq> CHR ''.'') s;
                       frac_part = drop 1 (dropWhile (\<lambda>c. c \<noteq> CHR ''.'') s);
                       frac_part = rev (dropWhile (\<lambda>c. c = CHR ''0'') (rev frac_part));
                       int_part = (if int_part = [] then ''0'' else int_part)
                   in case stoll (int_part @ frac_part) of
                        None \<Rightarrow> dzero
                      | Some u \<Rightarrow> mk_dec (if negative then i64 (- u) else u) (int (length frac_part)))"

text \<open>The reader of the shadow ledger: signs and blanks are skipped wherever they stand.\<close>

fun shadow_scan :: "string \<Rightarrow> bool \<Rightarrow> bool \<Rightarrow> int \<Rightarrow> int \<Rightarrow> bool \<Rightarrow> (bool \<times> int \<times> int \<times> bool)" where
  "shadow_scan [] neg dot s u digit = (neg, s, u, digit)"
| "shadow_scan (c # cs) neg dot s u digit =
     (if c = CHR ''+'' \<or> is_space c then shadow_scan cs neg dot s u digit
      else if c = CHR ''-'' then shadow_scan cs True dot s u digit
      else if c = CHR ''.'' then (if dot then (neg, s, u, digit) else shadow_scan cs neg True s u digit)
      else if \<not> is_digit c then (neg, s, u, digit)
      else shadow_scan cs neg dot (if dot then i32 (s + 1) else s) (i64 (i64 (u * 10) + digit_val c)) True)"

definition shadow_ParseDecimalString :: "string \<Rightarrow> decimal" where
  "shadow_ParseDecimalString t =
     (if t = [] then dzero
      else let (neg, s, u, digit) = shadow_scan t False False 0 0 False
           in if \<not> digit then dzero else mk_dec (if neg then i64 (- u) else u) s)"

section \<open>Digit strings\<close>

definition digit_string :: "string \<Rightarrow> bool" where
  "digit_string ds \<longleftrightarrow> (\<forall>c \<in> set ds. is_digit c)"

definition val10 :: "string \<Rightarrow> int" where
  "val10 ds = foldl (\<lambda>a c. a * 10 + digit_val c) 0 ds"

lemma of_char_digit: "n < 10 \<Longrightarrow> (of_char (digit_char n) :: nat) = 48 + n"
  unfolding digit_char_def by (simp only: of_char_of) (rule mod_less, linarith)

lemma digit_char [simp]:
  assumes "n < 10"
  shows "is_digit (digit_char n)" "digit_val (digit_char n) = int n"
  using assms unfolding is_digit_def digit_val_def of_char_digit[OF assms] by linarith+

lemma val10_Nil [simp]: "val10 [] = 0"
  by (simp add: val10_def)

lemma foldl_val10: "foldl (\<lambda>a c. a * 10 + digit_val c) x b = x * 10 ^ length b + val10 b"
proof (induction b rule: rev_induct)
  case (snoc c b)
  show ?case unfolding val10_def foldl_append using snoc
    by (simp only: foldl_Cons foldl_Nil val10_def) (simp add: algebra_simps)
qed simp

lemma val10_append: "val10 (a @ b) = val10 a * 10 ^ length b + val10 b"
  using foldl_val10[of "val10 a" b] by (simp add: val10_def)

lemma digits_of_small: "n < 10 \<Longrightarrow> digits_of n = [digit_char n]"
  by (simp add: digits_of.simps[of n])

lemma digits_of_step: "\<not> n < 10 \<Longrightarrow> digits_of n = digits_of (n div 10) @ [digit_char (n mod 10)]"
  by (simp add: digits_of.simps[of n])

lemma digits_of_induct [case_names small step]:
  assumes "\<And>n. n < 10 \<Longrightarrow> P n" "\<And>n. \<not> n < 10 \<Longrightarrow> P (n div 10) \<Longrightarrow> P n"
  shows "P (n :: nat)"
proof (induction n rule: less_induct)
  case (less n)
  show ?case
  proof (cases "n < 10")
    case False
    then have "n div 10 < n" by simp
    with less False assms(2) show ?thesis by blast
  qed (rule assms(1))
qed

lemma digits_of_digits: "digit_string (digits_of n)"
  by (induction n rule: digits_of_induct)
     (simp_all add: digits_of_small digits_of_step digit_string_def)

lemma val10_single: "n < 10 \<Longrightarrow> val10 [digit_char n] = int n"
  by (simp add: val10_def)

lemma val10_digits_of: "val10 (digits_of n) = int n"
proof (induction n rule: digits_of_induct)
  case (small n)
  then show ?case by (simp add: digits_of_small val10_single)
next
  case (step n)
  have "int n = int (n div 10) * 10 + int (n mod 10)"
    by (metis div_mult_mod_eq of_nat_add of_nat_mult of_nat_numeral)
  with step show ?case by (simp add: digits_of_step val10_append val10_single)
qed

lemma digits_of_ne: "digits_of n \<noteq> []"
  by (cases "n < 10") (simp_all add: digits_of_small digits_of_step)

lemma length_digits_of: "n < 10 ^ k \<Longrightarrow> 0 < k \<Longrightarrow> length (digits_of n) \<le> k"
proof (induction n arbitrary: k rule: digits_of_induct)
  case (small n)
  then show ?case by (simp add: digits_of_small)
next
  case (step n)
  obtain j where k: "k = Suc j" using step.prems(2) by (cases k) auto
  with step.prems have "n div 10 < 10 ^ j" by (simp add: less_mult_imp_div_less mult.commute)
  moreover have "0 < j"
  proof (rule ccontr)
    assume "\<not> 0 < j"
    with step.prems(1) k step.hyps show False by simp
  qed
  ultimately show ?case using step.IH[of j] step.hyps k by (simp add: digits_of_step)
qed

lemma digit_not_special:
  "is_digit c \<Longrightarrow> c \<noteq> CHR ''.'' \<and> c \<noteq> CHR ''+'' \<and> c \<noteq> CHR ''-'' \<and> \<not> is_space c"
  by (auto simp: is_digit_def is_space_def)

lemma digit_val_range: "is_digit c \<Longrightarrow> 0 \<le> digit_val c \<and> digit_val c \<le> 9"
  by (auto simp: is_digit_def digit_val_def)

lemma val10_Cons: "val10 (c # cs) = digit_val c * 10 ^ length cs + val10 cs"
  using val10_append[of "[c]" cs] by (simp add: val10_def)

lemma val10_nonneg: "digit_string ds \<Longrightarrow> 0 \<le> val10 ds"
  by (induction ds) (auto simp: val10_Cons digit_string_def digit_val_range val10_Nil)

lemma val10_zeros: "val10 (replicate n (CHR ''0'')) = 0"
  by (induction n) (simp_all add: val10_Cons digit_val_def val10_def)

section \<open>The shape of a written decimal\<close>

text \<open>An optional minus, digits, and for a positive scale a dot and as many digits.\<close>

definition sign_text :: "bool \<Rightarrow> string" where
  "sign_text neg = (if neg then ''-'' else [])"

definition frac_text :: "string \<Rightarrow> string" where
  "frac_text fp = (if fp = [] then [] else CHR ''.'' # fp)"

definition writable :: "decimal \<Rightarrow> bool" where
  "writable d \<longleftrightarrow> \<bar>units d\<bar> \<le> 9223372036854775807 \<and> 0 \<le> scale d \<and> scale d \<le> 18"

lemma to_string_shape:
  assumes "writable d"
  obtains ip fp where "to_string d = sign_text (units d < 0) @ ip @ frac_text fp"
    "digit_string ip" "ip \<noteq> []" "digit_string fp" "length fp = nat (scale d)"
    "val10 (ip @ fp) = \<bar>units d\<bar>" "length ip \<le> 1000" "length fp \<le> 1000"
proof -
  define n where "n = nat \<bar>units d\<bar>"
  define k where "k = nat (scale d)"
  define ip where "ip = digits_of (n div 10 ^ k)"
  define fp where "fp = (if k = 0 then [] else pad_zeros k (digits_of (n mod 10 ^ k)))"
  have u: "\<bar>units d\<bar> \<le> 9223372036854775807" and sc: "0 \<le> scale d" "scale d \<le> 18"
    using assms by (auto simp: writable_def)
  have au: "(if units d < 0 then i64 (- units d) else units d) = int n"
    using u by (auto simp: n_def i64_id in_i64_def)
  have p: "pow10_i (scale d) = 10 ^ k" using sc by (simp add: pow10_i_eq k_def)
  have sd: "int n sdiv 10 ^ k = int (n div 10 ^ k)" "int n smod 10 ^ k = int (n mod 10 ^ k)"
    by (simp_all add: signed_divide_int_def signed_modulo_int_def sgn_if zdiv_int zmod_int)
  have str: "int_to_str (int m) = digits_of m" for m by (simp add: int_to_str_def)
  have t: "to_string d = sign_text (units d < 0) @ ip @ frac_text fp"
    unfolding to_string_def Let_def au p sd str
    using digits_of_ne[of "n mod 10 ^ k"] sc
    by (auto simp: sign_text_def frac_text_def ip_def fp_def k_def pad_zeros_def)
  have len: "length fp = k"
  proof (cases "k = 0")
    case False
    then have "length (digits_of (n mod 10 ^ k)) \<le> k" by (intro length_digits_of) auto
    with False show ?thesis by (simp add: fp_def pad_zeros_def)
  qed (simp add: fp_def)
  have z: "is_digit (CHR ''0'')" by (simp add: is_digit_def)
  have dfp: "digit_string fp" using digits_of_digits z
    by (auto simp: fp_def pad_zeros_def digit_string_def)
  have vfp: "val10 fp = int (n mod 10 ^ k)"
    by (auto simp: fp_def pad_zeros_def val10_append val10_zeros val10_digits_of)
  have "val10 (ip @ fp) = int (n div 10 ^ k) * 10 ^ k + int (n mod 10 ^ k)"
    by (simp add: val10_append len vfp ip_def val10_digits_of)
  also have "\<dots> = int (n div 10 ^ k * 10 ^ k + n mod 10 ^ k)"
    by (simp only: of_nat_add of_nat_mult of_nat_power of_nat_numeral)
  also have "n div 10 ^ k * 10 ^ k + n mod 10 ^ k = n" by (rule div_mult_mod_eq)
  finally have v: "val10 (ip @ fp) = \<bar>units d\<bar>" by (simp add: n_def)
  have "n < 10 ^ 20" using u by (simp add: n_def nat_less_iff)
  then have "n div 10 ^ k < 10 ^ 20" by (meson div_le_dividend le_less_trans)
  then have "length ip \<le> 20" unfolding ip_def by (rule length_digits_of) simp
  then have li: "length ip \<le> 1000" "length fp \<le> 1000" using sc by (auto simp: len k_def)
  show thesis
    by (rule that[OF t _ _ dfp _ v li]) (simp_all add: ip_def digits_of_digits digits_of_ne len k_def)
qed

lemma digit_string_Cons [simp]: "digit_string (c # cs) \<longleftrightarrow> is_digit c \<and> digit_string cs"
  by (simp add: digit_string_def)

lemma digit_string_append [simp]: "digit_string (a @ b) \<longleftrightarrow> digit_string a \<and> digit_string b"
  by (auto simp: digit_string_def)

lemma split_sign_text:
  assumes "digit_string ip" "ip \<noteq> []"
  shows "split_sign (sign_text neg @ ip @ r) = (neg, ip @ r)"
  using assms digit_not_special
  by (cases ip) (auto simp: split_sign_def sign_text_def)

lemma val10_prefix: "digit_string b \<Longrightarrow> digit_string a \<Longrightarrow> val10 a \<le> val10 (a @ b)"
proof -
  assume d: "digit_string b" "digit_string a"
  have "val10 a * 1 \<le> val10 a * 10 ^ length b"
    by (rule mult_left_mono) (simp_all add: val10_nonneg d)
  then show ?thesis using val10_nonneg[OF d(1)] by (simp add: val10_append)
qed

section \<open>What each reader does with digits\<close>

lemma step_bound:
  assumes "digit_string cs" "is_digit c" "0 \<le> u" "u * 10 ^ length (c # cs) + val10 (c # cs) \<le> B"
  shows "0 \<le> u * 10 + digit_val c" "u * 10 + digit_val c \<le> B"
    "(u * 10 + digit_val c) * 10 ^ length cs + val10 cs = u * 10 ^ length (c # cs) + val10 (c # cs)"
proof -
  show e: "(u * 10 + digit_val c) * 10 ^ length cs + val10 cs = u * 10 ^ length (c # cs) + val10 (c # cs)"
    by (simp add: val10_Cons algebra_simps)
  show nn: "0 \<le> u * 10 + digit_val c" using digit_val_range[OF assms(2)] assms(3) by simp
  have "(u * 10 + digit_val c) * 1 \<le> (u * 10 + digit_val c) * 10 ^ length cs"
    by (rule mult_left_mono[OF _ nn]) simp
  then have "u * 10 + digit_val c \<le> (u * 10 + digit_val c) * 10 ^ length cs + val10 cs"
    using val10_nonneg[OF assms(1)] by simp
  then show "u * 10 + digit_val c \<le> B" unfolding e using assms(4) by (rule order_trans)
qed

lemma pg_digits_digits:
  assumes "digit_string ds" "0 \<le> u" "u * 10 ^ length ds + val10 ds \<le> 9223372036854775807"
    and "0 \<le> s" "s + int (length ds) \<le> 1000"
  shows "pg_digits (ds @ r) u s dot =
    pg_digits r (u * 10 ^ length ds + val10 ds) (if dot then s + int (length ds) else s) dot"
  using assms
proof (induction ds arbitrary: u s)
  case (Cons c cs)
  note b = step_bound[OF _ _ Cons.prems(2,3)]
  have c: "is_digit c" "digit_string cs" using Cons.prems(1) by auto
  have w: "i128 (u * 10 + digit_val c) = u * 10 + digit_val c"
    using b(1,2)[OF c(2,1)] by (intro i128_id) (simp add: in_i128_def)
  have s: "i32 (s + 1) = s + 1" using Cons.prems(4,5) by (intro i32_id) (simp add: in_i32_def)
  have "(u * 10 + digit_val c) * 10 ^ length cs + val10 cs \<le> 9223372036854775807"
    using b(3)[OF c(2,1)] Cons.prems(3) by simp
  from Cons.IH[OF c(2) b(1)[OF c(2,1)] this, of "if dot then s + 1 else s"] Cons.prems(4,5)
  show ?case using c(1) digit_not_special[OF c(1)] b(3)[OF c(2,1)] by (cases dot) (simp_all add: add.assoc w s)
qed simp

lemma shadow_scan_digits:
  assumes "digit_string ds" "0 \<le> u" "u * 10 ^ length ds + val10 ds \<le> 9223372036854775807"
    and "0 \<le> s" "s + int (length ds) \<le> 1000"
  shows "shadow_scan (ds @ r) neg dot s u digit =
    shadow_scan r neg dot (if dot then s + int (length ds) else s)
      (u * 10 ^ length ds + val10 ds) (digit \<or> ds \<noteq> [])"
  using assms
proof (induction ds arbitrary: u s digit)
  case (Cons c cs)
  note b = step_bound[OF _ _ Cons.prems(2,3)]
  have c: "is_digit c" "digit_string cs" using Cons.prems(1) by auto
  have d: "0 \<le> digit_val c" using digit_val_range[OF c(1)] by simp
  have w1: "i64 (u * 10) = u * 10"
    using b(2)[OF c(2,1)] d Cons.prems(2) by (intro i64_id) (simp add: in_i64_def)
  have w: "i64 (u * 10 + digit_val c) = u * 10 + digit_val c"
    using b(1,2)[OF c(2,1)] by (intro i64_id) (simp add: in_i64_def)
  have s: "i32 (s + 1) = s + 1" using Cons.prems(4,5) by (intro i32_id) (simp add: in_i32_def)
  have "(u * 10 + digit_val c) * 10 ^ length cs + val10 cs \<le> 9223372036854775807"
    using b(3)[OF c(2,1)] Cons.prems(3) by simp
  from Cons.IH[OF c(2) b(1)[OF c(2,1)] this, of "if dot then s + 1 else s" True] Cons.prems(4,5)
  show ?case using c(1) digit_not_special[OF c(1)] b(3)[OF c(2,1)]
    by (cases dot) (simp_all add: add.assoc w w1 s)
qed simp

lemma pg_strict_digits:
  assumes "digit_string ds" "0 \<le> u" "u * 10 ^ length ds + val10 ds \<le> 9223372036854775807"
    and "0 \<le> s" "s + int (length ds) \<le> 1000"
  shows "pg_strict neg (ds @ r) u s digit dot =
    pg_strict neg r (u * 10 ^ length ds + val10 ds)
      (if dot then s + int (length ds) else s) (digit \<or> ds \<noteq> []) dot"
  using assms
proof (induction ds arbitrary: u s digit)
  case (Cons c cs)
  note b = step_bound[OF _ _ Cons.prems(2,3)]
  have c: "is_digit c" "digit_string cs" using Cons.prems(1) by auto
  have w: "i128 (u * 10 + digit_val c) = u * 10 + digit_val c"
    using b(1,2)[OF c(2,1)] by (intro i128_id) (simp add: in_i128_def)
  have s: "i32 (s + 1) = s + 1" using Cons.prems(4,5) by (intro i32_id) (simp add: in_i32_def)
  have "(u * 10 + digit_val c) * 10 ^ length cs + val10 cs \<le> 9223372036854775807"
    using b(3)[OF c(2,1)] Cons.prems(3) by simp
  from Cons.IH[OF c(2) b(1)[OF c(2,1)] this, of "if dot then s + 1 else s" True] Cons.prems(4,5)
  show ?case using c(1) digit_not_special[OF c(1)] b(2,3)[OF c(2,1)]
    by (cases dot) (simp_all add: add.assoc w s Let_def)
qed simp

text \<open>A body of digits, then possibly a dot and the digits of the fraction.\<close>

lemma body_bounds:
  assumes "digit_string ip" "digit_string fp" "val10 (ip @ fp) \<le> 9223372036854775807"
  shows "val10 ip \<le> 9223372036854775807" "val10 ip * 10 ^ length fp + val10 fp \<le> 9223372036854775807"
    "0 \<le> val10 ip"
  using assms val10_prefix[of fp ip] val10_append[of ip fp] val10_nonneg[of ip] by auto

lemma pg_digits_body:
  assumes "digit_string ip" "digit_string fp" "val10 (ip @ fp) \<le> 9223372036854775807"
    and "length ip \<le> 1000" "length fp \<le> 1000"
  shows "pg_digits (ip @ frac_text fp) 0 0 False = (val10 (ip @ fp), int (length fp))"
proof -
  note b = body_bounds[OF assms(1-3)]
  have 1: "pg_digits (ip @ frac_text fp) 0 0 False = pg_digits (frac_text fp) (val10 ip) 0 False"
    using pg_digits_digits[of ip 0 0 "frac_text fp" False] assms b by simp
  have 2: "pg_digits (fp @ []) (val10 ip) 0 True = (val10 (ip @ fp), int (length fp))"
    using pg_digits_digits[of fp "val10 ip" 0 "[]" True] assms b by (simp add: val10_append)
  show ?thesis using 1 2 by (cases "fp = []") (simp_all add: frac_text_def)
qed

lemma pg_strict_body:
  assumes "digit_string ip" "digit_string fp" "val10 (ip @ fp) \<le> 9223372036854775807"
    and "length ip \<le> 1000" "length fp \<le> 1000" "ip \<noteq> []"
  shows "pg_strict neg (ip @ frac_text fp) 0 0 False False = Some (val10 (ip @ fp), int (length fp))"
proof -
  note b = body_bounds[OF assms(1-3)]
  have 1: "pg_strict neg (ip @ frac_text fp) 0 0 False False = pg_strict neg (frac_text fp) (val10 ip) 0 True False"
    using pg_strict_digits[of ip 0 0 neg "frac_text fp" False False] assms b by simp
  have 2: "pg_strict neg (fp @ []) (val10 ip) 0 True True = Some (val10 (ip @ fp), int (length fp))"
    using pg_strict_digits[of fp "val10 ip" 0 neg "[]" True True] assms b by (simp add: val10_append)
  show ?thesis using 1 2 by (cases "fp = []") (simp_all add: frac_text_def)
qed

lemma shadow_scan_body:
  assumes "digit_string ip" "digit_string fp" "val10 (ip @ fp) \<le> 9223372036854775807"
    and "length ip \<le> 1000" "length fp \<le> 1000" "ip \<noteq> []"
  shows "shadow_scan (ip @ frac_text fp) neg False 0 0 False = (neg, int (length fp), val10 (ip @ fp), True)"
proof -
  note b = body_bounds[OF assms(1-3)]
  have 1: "shadow_scan (ip @ frac_text fp) neg False 0 0 False = shadow_scan (frac_text fp) neg False 0 (val10 ip) True"
    using shadow_scan_digits[of ip 0 0 "frac_text fp" neg False False] assms b by simp
  have 2: "shadow_scan (fp @ []) neg True 0 (val10 ip) True = (neg, int (length fp), val10 (ip @ fp), True)"
    using shadow_scan_digits[of fp "val10 ip" 0 "[]" neg True True] assms b by (simp add: val10_append)
  show ?thesis using 1 2 by (cases "fp = []") (simp_all add: frac_text_def is_space_def)
qed

text \<open>Dropping the trailing zeros of a fraction.\<close>

definition strip0 :: "string \<Rightarrow> string" where
  "strip0 fp = rev (dropWhile (\<lambda>c. c = CHR ''0'') (rev fp))"

lemma strip0_split: "\<exists>n. fp = strip0 fp @ replicate n (CHR ''0'')"
proof (induction fp rule: rev_induct)
  case Nil
  show ?case by (rule exI[of _ 0]) (simp add: strip0_def)
next
  case (snoc c fp)
  show ?case
  proof (cases "c = CHR ''0''")
    case True
    obtain n where n: "fp = strip0 fp @ replicate n (CHR ''0'')" using snoc by blast
    have "strip0 (fp @ [c]) = strip0 fp" using True by (simp add: strip0_def)
    then have "fp @ [c] = strip0 (fp @ [c]) @ replicate (Suc n) (CHR ''0'')"
      using n True by (metis append.assoc replicate_append_same replicate_Suc)
    then show ?thesis by blast
  next
    case False
    then show ?thesis by (intro exI[of _ 0]) (simp add: strip0_def)
  qed
qed

lemma strip0_value:
  assumes "digit_string ip" "digit_string fp"
  shows "digit_string (strip0 fp)" "length (strip0 fp) \<le> length fp"
    "val10 (ip @ fp) = val10 (ip @ strip0 fp) * 10 ^ (length fp - length (strip0 fp))"
    "val10 (ip @ strip0 fp) \<le> val10 (ip @ fp)"
proof -
  obtain n where n: "fp = strip0 fp @ replicate n (CHR ''0'')" using strip0_split by blast
  show d: "digit_string (strip0 fp)" using assms(2) n by (metis digit_string_append)
  have l: "length fp = length (strip0 fp) + n" using arg_cong[OF n, of length] by simp
  then show "length (strip0 fp) \<le> length fp" by simp
  have "val10 (ip @ fp) = val10 ((ip @ strip0 fp) @ replicate n (CHR ''0''))"
    using n by (metis append.assoc)
  then show "val10 (ip @ fp) = val10 (ip @ strip0 fp) * 10 ^ (length fp - length (strip0 fp))"
    using l by (simp only: val10_append[of "ip @ strip0 fp"]) (simp add: val10_zeros)
  have "digit_string (replicate n (CHR ''0''))" by (simp add: digit_string_def is_digit_def)
  then have "val10 (ip @ strip0 fp) \<le> val10 ((ip @ strip0 fp) @ replicate n (CHR ''0''))"
    by (rule val10_prefix) (simp add: assms(1) d)
  then show "val10 (ip @ strip0 fp) \<le> val10 (ip @ fp)" using n by (metis append.assoc)
qed

lemma strip_zeros_rev_frac:
  "strip_zeros_rev (zs @ CHR ''.'' # q) = dropWhile (\<lambda>c. c = CHR ''0'') zs @ CHR ''.'' # q"
proof (induction zs)
  case Nil
  show ?case by (cases q) simp_all
next
  case (Cons c zs)
  show ?case using Cons by (cases zs) simp_all
qed

lemma no_dot: "digit_string ds \<Longrightarrow> CHR ''.'' \<notin> set ds"
  using digit_not_special by (auto simp: digit_string_def)

lemma strip_fraction_text:
  assumes "digit_string ip" "digit_string fp"
  shows "strip_fraction (sign_text neg @ ip @ frac_text fp) = sign_text neg @ ip @ frac_text (strip0 fp)"
proof (cases "fp = []")
  case True
  then show ?thesis using no_dot[OF assms(1)]
    by (auto simp: strip_fraction_def frac_text_def sign_text_def strip0_def)
next
  case False
  have r: "rev (sign_text neg @ ip @ frac_text fp) = rev fp @ CHR ''.'' # rev (sign_text neg @ ip)"
    using False by (simp add: frac_text_def)
  have dz: "dropWhile (\<lambda>c. c = CHR ''0'') (rev fp) = rev (strip0 fp)" by (simp add: strip0_def)
  have hd: "rev (strip0 fp) = c # cs \<Longrightarrow> c \<noteq> CHR ''.''" for c cs
    using no_dot[OF strip0_value(1)[OF assms]] by (metis list.set_intros(1) set_rev)
  have "CHR ''.'' \<in> set (sign_text neg @ ip @ frac_text fp)" using False by (simp add: frac_text_def)
  then have "strip_fraction (sign_text neg @ ip @ frac_text fp) =
      rev (case rev (strip0 fp) @ CHR ''.'' # rev (sign_text neg @ ip) of [] \<Rightarrow> []
        | c # cs \<Rightarrow> if c = CHR ''.'' then cs else c # cs)"
    unfolding strip_fraction_def Let_def r strip_zeros_rev_frac dz by simp
  then show ?thesis
    using hd by (cases "rev (strip0 fp)") (auto simp: frac_text_def rev_eq_Cons_iff)
qed

lemma dropWhile_space_text:
  assumes "digit_string ip" "ip \<noteq> []"
  shows "dropWhile is_space (sign_text neg @ ip @ r) = sign_text neg @ ip @ r"
  using assms digit_not_special by (cases ip) (auto simp: sign_text_def is_space_def)

lemma trim_text:
  assumes "digit_string ip" "ip \<noteq> []" "digit_string fp"
  shows "trim_ascii_space (sign_text neg @ ip @ frac_text fp) = sign_text neg @ ip @ frac_text fp"
proof -
  let ?t = "sign_text neg @ ip @ frac_text fp"
  have "is_digit (last ?t) \<and> ?t \<noteq> []"
    using assms by (cases "fp = []") (auto simp: frac_text_def digit_string_def)
  then obtain c cs where "rev ?t = c # cs" "is_digit c"
    by (metis append_butlast_last_id rev.simps(2) rev_append rev_rev_ident append_Cons append_Nil)
  then have "dropWhile is_space (rev ?t) = rev ?t" using digit_not_special by auto
  then show ?thesis unfolding trim_ascii_space_def dropWhile_space_text[OF assms(1,2)]
    by (metis rev_rev_ident)
qed

lemma stoll_digits:
  assumes "digit_string ds" "ds \<noteq> []" "val10 ds \<le> 9223372036854775807"
  shows "stoll ds = Some (val10 ds)"
proof -
  have dw: "dropWhile is_space ds = ds" using assms(1,2) digit_not_special by (cases ds) auto
  have sp: "split_sign ds = (False, ds)"
    using split_sign_text[OF assms(1,2), of False "[]"] by (simp add: sign_text_def)
  have tw: "takeWhile is_digit ds = ds"
    using assms(1) by (simp add: digit_string_def takeWhile_eq_all_conv)
  have "in_i64 (val10 ds)" using assms(3) val10_nonneg[OF assms(1)] by (simp add: in_i64_def)
  then show ?thesis using assms(2) by (simp add: stoll_def Let_def dw sp tw val10_def[symmetric])
qed

lemma ParseDecimalString_text:
  assumes "digit_string ip" "ip \<noteq> []" "digit_string fp" "val10 (ip @ fp) \<le> 9223372036854775807"
  shows "ParseDecimalString (sign_text neg @ ip @ frac_text fp) =
    mk_dec (if neg then - val10 (ip @ strip0 fp) else val10 (ip @ strip0 fp)) (int (length (strip0 fp)))"
proof -
  note st = strip0_value[OF assms(1,3)]
  have le: "val10 (ip @ strip0 fp) \<le> 9223372036854775807" using st(4) assms(4) by (rule order_trans)
  have ds: "digit_string (ip @ strip0 fp)" using assms(1) st(1) by simp
  have so: "stoll (ip @ strip0 fp) = Some (val10 (ip @ strip0 fp))"
    by (rule stoll_digits[OF ds _ le]) (simp add: assms(2))
  have w: "i64 (- val10 (ip @ strip0 fp)) = - val10 (ip @ strip0 fp)"
    using le val10_nonneg[OF ds] by (intro i64_id) (simp add: in_i64_def)
  have a: "\<forall>c \<in> set ip. c \<noteq> CHR ''.''" using no_dot[OF assms(1)] by auto
  have tw: "takeWhile (\<lambda>c. c \<noteq> CHR ''.'') (ip @ frac_text fp) = ip"
    "drop 1 (dropWhile (\<lambda>c. c \<noteq> CHR ''.'') (ip @ frac_text fp)) = fp"
    using a by (auto simp: takeWhile_append dropWhile_append frac_text_def takeWhile_eq_all_conv
        dropWhile_eq_Nil_conv)
  have ne: "sign_text neg @ ip @ frac_text fp \<noteq> []" "ip @ frac_text fp \<noteq> []" using assms(2) by auto
  show ?thesis
    unfolding ParseDecimalString_def split_sign_text[OF assms(1,2)] Let_def
    using ne assms(2) by (simp add: tw strip0_def[symmetric] so w del: drop0 One_nat_def)
qed

lemma same_value:
  assumes "v = w * 10 ^ (n - k)" "k \<le> n"
  shows "of_int w / 10 ^ k = (of_int v / 10 ^ n :: rat)"
proof -
  have "(10::rat) ^ n = 10 ^ k * 10 ^ (n - k)" using assms(2) by (simp flip: power_add)
  then show ?thesis using assms(1) by simp
qed

text \<open>The database reader on a written number whose significant digits fit in 64 bits.\<close>

lemma ParsePgNumeric_text:
  assumes "digit_string ip" "ip \<noteq> []" "digit_string fp" "length ip \<le> 1000" "length fp \<le> 1000"
    and "val10 (ip @ strip0 fp) \<le> 9223372036854775807"
  shows "ParsePgNumeric (sign_text neg @ ip @ frac_text fp) =
    Some (mk_dec (if neg then - val10 (ip @ strip0 fp) else val10 (ip @ strip0 fp)) (int (length (strip0 fp))))"
proof -
  note st = strip0_value[OF assms(1,3)]
  have len': "length (strip0 fp) \<le> 1000" using st(2) assms(5) by simp
  show ?thesis
    using pg_strict_body[OF assms(1) st(1) assms(6,4) len' assms(2)] assms(2)
    unfolding ParsePgNumeric_def trim_text[OF assms(1-3)] strip_fraction_text[OF assms(1,3)]
      split_sign_text[OF assms(1,2)] Let_def by simp
qed

lemma ParsePgNumeric_to_string:
  assumes "writable d"
  obtains d' where "ParsePgNumeric (to_string d) = Some d'" "dval d' = dval d" "scale d' \<le> scale d"
    "writable d'"
proof -
  obtain ip fp where t: "to_string d = sign_text (units d < 0) @ ip @ frac_text fp"
    and ip: "digit_string ip" "ip \<noteq> []" and fp: "digit_string fp" "length fp = nat (scale d)"
    and v: "val10 (ip @ fp) = \<bar>units d\<bar>" and len: "length ip \<le> 1000" "length fp \<le> 1000"
    using to_string_shape[OF assms] by metis
  let ?neg = "units d < 0" and ?sf = "strip0 fp"
  have u: "\<bar>units d\<bar> \<le> 9223372036854775807" and sc: "0 \<le> scale d" "scale d \<le> 18"
    using assms by (auto simp: writable_def)
  note st = strip0_value[OF ip(1) fp(1)]
  have le': "val10 (ip @ ?sf) \<le> 9223372036854775807" using st(4) u v by simp
  let ?d = "mk_dec (if ?neg then - val10 (ip @ ?sf) else val10 (ip @ ?sf)) (int (length ?sf))"
  have p: "ParsePgNumeric (to_string d) = Some ?d"
    unfolding t by (rule ParsePgNumeric_text[OF ip fp(1) len le'])
  have "of_int (val10 (ip @ ?sf)) / 10 ^ length ?sf = (of_int \<bar>units d\<bar> / 10 ^ length fp :: rat)"
    by (rule same_value[OF _ st(2)]) (use st(3) v in simp)
  then have val: "dval ?d = dval d"
    using fp(2) by (cases "units d < 0") (simp_all add: dval_def[of d])
  have s: "scale ?d \<le> scale d" using st(2) fp(2) sc by simp
  have "0 \<le> val10 (ip @ ?sf)" using ip(1) st(1) by (intro val10_nonneg) simp
  then have "writable ?d" using le' s sc by (auto simp: writable_def)
  then show thesis by (rule that[OF p val s])
qed

section \<open>Round trips\<close>

lemma to_string_shadow:
  assumes "writable d"
  shows "shadow_ParseDecimalString (to_string d) = d"
proof -
  obtain ip fp where t: "to_string d = sign_text (units d < 0) @ ip @ frac_text fp"
    and ip: "digit_string ip" "ip \<noteq> []" and fp: "digit_string fp" "length fp = nat (scale d)"
    and v: "val10 (ip @ fp) = \<bar>units d\<bar>" and len: "length ip \<le> 1000" "length fp \<le> 1000"
    using to_string_shape[OF assms] by metis
  let ?neg = "units d < 0"
  have u: "\<bar>units d\<bar> \<le> 9223372036854775807" and sc: "0 \<le> scale d"
    using assms by (auto simp: writable_def)
  have le: "val10 (ip @ fp) \<le> 9223372036854775807" using u v by simp
  have ne: "to_string d \<noteq> []" unfolding t using ip(2) by simp
  have same: "mk_dec (units d) (int (length fp)) = d"
    using sc fp(2) by (cases d) (simp add: mk_dec_def)
  have i: "i64 (units d) = units d" "i64 (- \<bar>units d\<bar>) = - \<bar>units d\<bar>"
    using u by (auto intro!: i64_id simp: in_i64_def)
  have "shadow_scan (to_string d) False False 0 0 False = (?neg, int (length fp), \<bar>units d\<bar>, True)"
    using shadow_scan_body[OF ip(1) fp(1) le len ip(2)] unfolding t
    by (auto simp: sign_text_def is_space_def v)
  then show ?thesis
    using ne i same by (cases "units d < 0") (simp_all add: shadow_ParseDecimalString_def)
qed

text \<open>C7. Money survives the trip through text. Every decimal with a scale from 0 to 18 (units
  other than the smallest 64-bit integer) written by \<open>to_string\<close> is read back unchanged by the
  ledger's and the shadow ledger's parsers, and with the same value (in its shortest scale) by
  the database reader and the configuration reader of the risk service, which never reject it.\<close>

theorem decimal_text_roundtrip:
  assumes "writable d"
  shows "parse_pg_numeric (to_string d) = d \<and> shadow_ParseDecimalString (to_string d) = d
    \<and> (\<exists>d'. ParsePgNumeric (to_string d) = Some d' \<and> dval d' = dval d \<and> scale d' \<le> scale d)
    \<and> dval (ParseDecimalString (to_string d)) = dval d"
proof -
  obtain ip fp where t: "to_string d = sign_text (units d < 0) @ ip @ frac_text fp"
    and ip: "digit_string ip" "ip \<noteq> []" and fp: "digit_string fp" "length fp = nat (scale d)"
    and v: "val10 (ip @ fp) = \<bar>units d\<bar>" and len: "length ip \<le> 1000" "length fp \<le> 1000"
    using to_string_shape[OF assms] by metis
  let ?neg = "units d < 0" and ?sf = "strip0 fp"
  have u: "\<bar>units d\<bar> \<le> 9223372036854775807" and sc: "0 \<le> scale d"
    using assms by (auto simp: writable_def)
  have le: "val10 (ip @ fp) \<le> 9223372036854775807" using u v by simp
  have ne: "to_string d \<noteq> []" unfolding t using ip(2) by simp
  have same: "mk_dec (units d) (int (length fp)) = d"
    using sc fp(2) by (cases d) (simp add: mk_dec_def)
  have i: "i64 (units d) = units d" "i64 (- \<bar>units d\<bar>) = - \<bar>units d\<bar>" "i128 (- \<bar>units d\<bar>) = - \<bar>units d\<bar>"
    using u by (auto intro!: i64_id i128_id simp: in_i64_def in_i128_def)
  have cl: "pg_clamp (units d) s = (units d, s)" for s
    using u by (subst pg_clamp.simps) auto
  have ledger: "parse_pg_numeric (to_string d) = d"
    using pg_digits_body[OF ip(1) fp(1) le len] ip(2) i cl same
    unfolding parse_pg_numeric_def t split_sign_text[OF ip]
    by (cases "units d < 0") (simp_all add: v)
  have shadow: "shadow_ParseDecimalString (to_string d) = d" by (rule to_string_shadow[OF assms])
  note st = strip0_value[OF ip(1) fp(1)]
  let ?d = "mk_dec (if ?neg then - val10 (ip @ ?sf) else val10 (ip @ ?sf)) (int (length ?sf))"
  have "of_int (val10 (ip @ ?sf)) / 10 ^ length ?sf = (of_int \<bar>units d\<bar> / 10 ^ length fp :: rat)"
    by (rule same_value[OF _ st(2)]) (use st(3) v in simp)
  then have val: "dval ?d = dval d"
    using fp(2) by (cases "units d < 0") (simp_all add: dval_def[of d])
  obtain d' where "ParsePgNumeric (to_string d) = Some d'" "dval d' = dval d" "scale d' \<le> scale d"
    using ParsePgNumeric_to_string[OF assms] by metis
  moreover have "ParseDecimalString (to_string d) = ?d"
    unfolding t by (rule ParseDecimalString_text[OF ip fp(1) le])
  ultimately show ?thesis using ledger shadow val by auto
qed

theorem decimal_text_roundtrip_witness:
  "to_string (mk_dec (-123450) 2) = ''-1234.50'' \<and>
   parse_pg_numeric (to_string (mk_dec (-123450) 2)) = mk_dec (-123450) 2"
proof
  show "parse_pg_numeric (to_string (mk_dec (-123450) 2)) = mk_dec (-123450) 2"
    using decimal_text_roundtrip[of "mk_dec (-123450) 2"] by (simp add: writable_def)
  show "to_string (mk_dec (-123450) 2) = ''-1234.50''" by code_simp
qed

end
