(* ===== verification/Contracts.thy ===== *)
theory Contracts
  imports Decimal
begin

text \<open>
  The messages of \<open>contracts/proto/fob\<close> that the modelled services exchange. A scalar or
  message field whose presence the code never asks for is a plain field (an absent
  sub-message reads as its default value); a field the code tests with \<open>has_x()\<close> is an
  option. \<open>google.protobuf.Timestamp\<close> is a pair of seconds and nanoseconds.
\<close>

datatype side = SIDE_UNSPECIFIED | SIDE_BUY | SIDE_SELL

datatype order_status =
    ORDER_STATUS_UNSPECIFIED | ORDER_STATUS_NEW | ORDER_STATUS_PARTIALLY_FILLED
  | ORDER_STATUS_FILLED | ORDER_STATUS_CANCELED | ORDER_STATUS_REJECTED | ORDER_STATUS_EXPIRED

datatype tif = TIF_UNSPECIFIED | TIF_GTC | TIF_IOC | TIF_FOK

datatype exec_status =
    EXEC_UNSPECIFIED | EXEC_NEW | EXEC_PARTIALLY_FILLED | EXEC_FILLED | EXEC_CANCELLED
  | EXEC_REJECTED | EXEC_EXPIRED | EXEC_OVERFILL_GUARD | EXEC_UNDERFILLED

datatype strategy =
    EXEC_STRATEGY_UNSPECIFIED | EXEC_STRATEGY_MARKET | EXEC_STRATEGY_LIMIT
  | EXEC_STRATEGY_TWAP | EXEC_STRATEGY_POST_ONLY

datatype urgency = URGENCY_UNSPECIFIED | URGENCY_LOW | URGENCY_MEDIUM | URGENCY_HIGH

datatype hedge_source =
    HEDGE_SOURCE_UNSPECIFIED | HEDGE_SOURCE_AUTO_BATCH | HEDGE_SOURCE_MANUAL_OVERRIDE
  | HEDGE_SOURCE_BACKTEST

type_synonym timestamp = "int \<times> int"

record event_meta =
  em_event_id :: string
  em_ts_event :: "timestamp option"
  em_source :: string
  em_correlation_id :: string
  em_partition_key :: string

definition empty_meta :: event_meta where
  "empty_meta = \<lparr>em_event_id = [], em_ts_event = None, em_source = [],
     em_correlation_id = [], em_partition_key = []\<rparr>"

record error_msg =
  er_code :: string
  er_message :: string
  er_details :: string

definition mk_error :: "string \<Rightarrow> string \<Rightarrow> error_msg" where
  "mk_error c m = \<lparr>er_code = c, er_message = m, er_details = []\<rparr>"

record instrument =
  in_symbol :: string
  in_base :: string
  in_quote :: string

record money =
  mo_currency :: string
  mo_amount :: "decimal option"

record fee =
  fe_cost :: "money option"

record provenance =
  pv_liquidity_source :: string
  pv_venue_id :: string
  pv_snapshot_id :: string
  pv_curve_id :: string

record flow_fill =
  ff_order_id :: string
  ff_user_id :: string
  ff_instrument :: instrument
  ff_side :: side
  ff_executed_qty :: decimal
  ff_price :: "decimal option"
  ff_executed_notional :: decimal
  ff_fee :: "fee option"
  ff_liquidity_source :: string
  ff_provenance :: "provenance option"

record order_update =
  ou_order_id :: string
  ou_status :: order_status
  ou_remaining_qty :: "decimal option"
  ou_filled_qty_total :: "decimal option"
  ou_updated_at :: "timestamp option"

record batch_result =
  br_batch_id :: string
  br_timestamp :: timestamp
  br_clear_prices :: "decimal umap"
  br_fills :: "flow_fill list"
  br_order_updates :: "order_update list"
  br_num_active_orders :: nat
  br_used_liquidity :: "provenance list"

record leg_result =
  lr_leg_id :: string
  lr_instrument_symbol :: string
  lr_side :: side
  lr_exec_qty :: decimal
  lr_exec_price :: decimal
  lr_exec_notional :: decimal

record execution_group =
  eg_execution_group_id :: string
  eg_batch_id :: string
  eg_parent_order_id :: string
  eg_user_id :: string
  eg_leg_results :: "leg_result list"

record exec_intent =
  ei_meta :: event_meta
  ei_intent_id :: string
  ei_batch_id :: string
  ei_internal_order_id :: string
  ei_reason :: string
  ei_hedge_flow_id :: string
  ei_provider_id :: string
  ei_source :: hedge_source
  ei_venue :: string
  ei_instrument :: instrument
  ei_venue_symbol :: string
  ei_allowed_venues :: "string list"
  ei_side :: side
  ei_target_qty :: decimal
  ei_target_notional :: decimal
  ei_limit_price :: "decimal option"
  ei_max_slippage_bps :: int
  ei_reference_mid :: "decimal option"
  ei_strategy :: strategy
  ei_urgency :: urgency
  ei_tif :: tif
  ei_timeout_ms :: int
  ei_client_order_id :: string

record exec_report =
  xr_ts_event :: "timestamp option"
  xr_report_id :: string
  xr_intent_id :: string
  xr_hedge_flow_id :: string
  xr_venue :: string
  xr_instrument :: instrument
  xr_venue_symbol :: string
  xr_venue_order_id :: string
  xr_client_order_id :: string
  xr_status :: exec_status
  xr_filled_qty :: decimal
  xr_remaining_qty :: decimal
  xr_average_price :: decimal
  xr_fee_total :: "fee option"
  xr_error :: "error_msg option"

text \<open>An absent decimal reads as the default message, zero with scale zero.\<close>

definition dec_of :: "decimal option \<Rightarrow> decimal" where
  "dec_of d = (case d of None \<Rightarrow> dzero | Some x \<Rightarrow> x)"

lemma dec_of_simps [simp]: "dec_of None = dzero" "dec_of (Some x) = x"
  by (simp_all add: dec_of_def)

definition empty_money :: money where
  "empty_money = \<lparr>mo_currency = [], mo_amount = None\<rparr>"

text \<open>\<open>fee().cost()\<close> of a message whose sub-messages may be absent.\<close>

definition fee_cost :: "fee \<Rightarrow> money" where
  "fee_cost f = (case fe_cost f of None \<Rightarrow> empty_money | Some m \<Rightarrow> m)"

text \<open>\<open>*resp.mutable_meta() = req.meta(); resp.mutable_meta()->set_source(s)\<close>\<close>

definition echo_meta :: "string \<Rightarrow> event_meta \<Rightarrow> event_meta" where
  "echo_meta s m = m\<lparr>em_source := s\<rparr>"

text \<open>\<open>std::string::find(c)\<close> and the two halves around the position.\<close>

fun split_at :: "char \<Rightarrow> string \<Rightarrow> (string \<times> string) option" where
  "split_at c [] = None"
| "split_at c (x # xs) =
     (if x = c then Some ([], xs)
      else case split_at c xs of None \<Rightarrow> None | Some (a, b) \<Rightarrow> Some (x # a, b))"

lemma split_at_Some: "split_at c s = Some (a, b) \<Longrightarrow> s = a @ c # b \<and> c \<notin> set a"
  by (induction s arbitrary: a b) (auto split: if_splits option.splits)

lemma split_at_None: "split_at c s = None \<longleftrightarrow> c \<notin> set s"
  by (induction s) (auto split: option.splits)

end
