(* ===== verification/Ledger_Core.thy ===== *)
theory Ledger_Core
  imports Contracts
begin

text \<open>
  The state of the ledger service (\<open>LedgerUseCases\<close>, \<open>cpp/ledger/src/app/ledger_uc.hpp\<close> and
  \<open>ledger_uc.cpp\<close>), its lazily created entries, the reservation operations
  \<open>ReserveFunds\<close>, \<open>ReleaseFunds\<close> and \<open>GetBalances\<close>, and the signed position transition
  \<open>apply_signed_fill\<close>. Calls to the optional repositories are returned as effects, in the
  order the code makes them; an exception a repository throws there is caught and logged,
  so it never changes what the handler does next.
\<close>

section \<open>State\<close>

record position =
  po_amount :: decimal
  po_avg_entry_price :: decimal
  po_realised_pnl :: decimal

definition empty_position :: position where
  "empty_position = \<lparr>po_amount = dzero, po_avg_entry_price = dzero, po_realised_pnl = dzero\<rparr>"

record balance =
  ba_available :: decimal
  ba_reserved :: decimal

definition empty_balance :: balance where
  "empty_balance = \<lparr>ba_available = dzero, ba_reserved = dzero\<rparr>"

record venue_balance =
  vb_total :: decimal
  vb_reserved :: decimal
  vb_available :: decimal
  vb_updated_at :: int

record reservation =
  rs_user_id :: string
  rs_order_id :: string
  rs_currency :: string
  rs_amount :: decimal

record hedge_record =
  hr_hedge_id :: string
  hr_venue :: string
  hr_instrument_symbol :: string
  hr_side :: side
  hr_executed_qty :: decimal
  hr_executed_price :: decimal
  hr_internal_price :: decimal
  hr_hedge_pnl :: decimal
  hr_timestamp :: int

record exec_state =
  es_status :: exec_status
  es_filled_qty :: decimal
  es_remaining_qty :: decimal
  es_average_price :: decimal
  es_fee_total :: decimal
  es_fee_currency :: string
  es_terminal :: bool

definition empty_exec_state :: exec_state where
  "empty_exec_state = \<lparr>es_status = EXEC_UNSPECIFIED, es_filled_qty = dzero,
     es_remaining_qty = dzero, es_average_price = dzero, es_fee_total = dzero,
     es_fee_currency = [], es_terminal = False\<rparr>"

record recon_stats =
  st_queued :: nat
  st_replayed :: nat
  st_applied :: nat
  st_duplicate :: nat
  st_missing_plan :: nat
  st_plan_mismatch :: nat
  st_status_regression :: nat
  st_qty_regression :: nat

definition empty_stats :: recon_stats where
  "empty_stats = \<lparr>st_queued = 0, st_replayed = 0, st_applied = 0, st_duplicate = 0,
     st_missing_plan = 0, st_plan_mismatch = 0, st_status_regression = 0, st_qty_regression = 0\<rparr>"

record ledger =
  lg_balances :: "balance umap umap"
  lg_positions :: "position umap umap"
  lg_reservations :: "reservation umap"
  lg_venue_balances :: "venue_balance umap umap"
  lg_hedge_records :: "hedge_record list umap"
  lg_hedge_summary :: "decimal umap"
  lg_intents :: "exec_intent umap"
  lg_pending :: "exec_report list umap"
  lg_exec_states :: "exec_state umap"
  lg_seen_reports :: "string list"
  lg_seen_groups :: "string list"
  lg_stats :: recon_stats

definition empty_ledger :: ledger where
  "empty_ledger = \<lparr>lg_balances = [], lg_positions = [], lg_reservations = [],
     lg_venue_balances = [], lg_hedge_records = [], lg_hedge_summary = [], lg_intents = [],
     lg_pending = [], lg_exec_states = [], lg_seen_reports = [], lg_seen_groups = [],
     lg_stats = empty_stats\<rparr>"

section \<open>Lazily created entries\<close>

text \<open>\<open>ensure_balance_locked\<close>: the entry read with its default, and written back by the caller.\<close>

definition balance_of :: "ledger \<Rightarrow> string \<Rightarrow> string \<Rightarrow> balance" where
  "balance_of l user ccy = find2 empty_balance (lg_balances l) user ccy"

definition set_balance :: "string \<Rightarrow> string \<Rightarrow> balance \<Rightarrow> ledger \<Rightarrow> ledger" where
  "set_balance user ccy b l = l\<lparr>lg_balances := put2 user ccy b (lg_balances l)\<rparr>"

definition ensure_balance :: "string \<Rightarrow> string \<Rightarrow> ledger \<Rightarrow> ledger" where
  "ensure_balance user ccy l = set_balance user ccy (balance_of l user ccy) l"

definition upd_available :: "(decimal \<Rightarrow> decimal) \<Rightarrow> string \<Rightarrow> string \<Rightarrow> ledger \<Rightarrow> ledger" where
  "upd_available f user ccy l =
     (let b = balance_of l user ccy in set_balance user ccy (b\<lparr>ba_available := f (ba_available b)\<rparr>) l)"

definition upd_reserved :: "(decimal \<Rightarrow> decimal) \<Rightarrow> string \<Rightarrow> string \<Rightarrow> ledger \<Rightarrow> ledger" where
  "upd_reserved f user ccy l =
     (let b = balance_of l user ccy in set_balance user ccy (b\<lparr>ba_reserved := f (ba_reserved b)\<rparr>) l)"

text \<open>\<open>ensure_position_locked\<close> resets an entry whose amount is exactly \<open>{0, 0}\<close>.\<close>

definition ensure_position :: "ledger \<Rightarrow> string \<Rightarrow> string \<Rightarrow> position" where
  "ensure_position l user instr =
     (let p = find2 empty_position (lg_positions l) user instr
      in if scale (po_amount p) = 0 \<and> units (po_amount p) = 0 then empty_position else p)"

definition set_position :: "string \<Rightarrow> string \<Rightarrow> position \<Rightarrow> ledger \<Rightarrow> ledger" where
  "set_position user instr p l = l\<lparr>lg_positions := put2 user instr p (lg_positions l)\<rparr>"

definition SeedBalance :: "string \<Rightarrow> string \<Rightarrow> decimal \<Rightarrow> decimal \<Rightarrow> ledger \<Rightarrow> ledger" where
  "SeedBalance user ccy avail res l =
     set_balance user ccy ((balance_of l user ccy)\<lparr>ba_available := avail, ba_reserved := res\<rparr>) l"

definition SeedPosition ::
    "string \<Rightarrow> string \<Rightarrow> decimal \<Rightarrow> decimal \<Rightarrow> decimal \<Rightarrow> ledger \<Rightarrow> ledger" where
  "SeedPosition user instr amt avg pnl l =
     set_position user instr ((ensure_position l user instr)
       \<lparr>po_amount := amt, po_avg_entry_price := avg, po_realised_pnl := pnl\<rparr>) l"

text \<open>The main constructor with \<open>InitOptions\<close>: the demo seed of the development set-up.\<close>

definition LedgerUseCases_init :: "bool \<Rightarrow> ledger" where
  "LedgerUseCases_init seed_demo_state =
     (if \<not> seed_demo_state then empty_ledger
      else set_position ''demo-user'' ''BTC/USDT''
             \<lparr>po_amount = mk_dec 100000000 8, po_avg_entry_price = mk_dec 500000 2,
              po_realised_pnl = mk_dec 0 2\<rparr>
        (set_balance ''demo-user'' ''BTC''
             \<lparr>ba_available = mk_dec 250000000 8, ba_reserved = mk_dec 0 8\<rparr>
        (set_balance ''demo-user'' ''USDT''
             \<lparr>ba_available = mk_dec 1000000 2, ba_reserved = mk_dec 0 2\<rparr> empty_ledger)))"

section \<open>Reservations\<close>

record reserve_request =
  rq_meta :: event_meta
  rq_reservation_id :: string
  rq_user_id :: string
  rq_order_id :: string
  rq_currency :: string
  rq_amount :: decimal

record reserve_response =
  rp_meta :: event_meta
  rp_success :: bool
  rp_error :: "error_msg option"
  rp_reserved_amount :: "decimal option"

datatype account_effect =
    ReserveTx string string decimal string
  | ReleaseTx string string decimal string

text \<open>The flag says whether an \<open>account_reserve_tx_\<close> port is wired.\<close>

definition ReserveFunds ::
    "bool \<Rightarrow> reserve_request \<Rightarrow> ledger \<Rightarrow> reserve_response \<times> ledger \<times> account_effect list" where
  "ReserveFunds has_tx req l =
     (let resp = \<lparr>rp_meta = echo_meta ''ledger'' (rq_meta req), rp_success = False,
                  rp_error = None, rp_reserved_amount = None\<rparr>;
          want = rq_amount req
      in case find (lg_reservations l) (rq_reservation_id req) of
           Some r \<Rightarrow> (resp\<lparr>rp_success := True, rp_reserved_amount := Some (rs_amount r)\<rparr>, l, [])
         | None \<Rightarrow>
             (let l = ensure_balance (rq_user_id req) (rq_currency req) l;
                  b = balance_of l (rq_user_id req) (rq_currency req)
              in if dcmp (ba_available b) want < 0
                 then (resp\<lparr>rp_error := Some (mk_error ''INSUFFICIENT_FUNDS''
                         ''Not enough available balance to reserve.'')\<rparr>, l, [])
                 else let b = \<lparr>ba_available = dsub (ba_available b) want,
                               ba_reserved = dadd (ba_reserved b) want\<rparr>;
                          l = set_balance (rq_user_id req) (rq_currency req) b l;
                          l = l\<lparr>lg_reservations := put (rq_reservation_id req)
                                 \<lparr>rs_user_id = rq_user_id req, rs_order_id = rq_order_id req,
                                  rs_currency = rq_currency req, rs_amount = want\<rparr>
                                 (lg_reservations l)\<rparr>
                      in (resp\<lparr>rp_success := True, rp_reserved_amount := Some want\<rparr>, l,
                          if has_tx then [ReserveTx (rq_user_id req) (rq_currency req) want
                                            (rq_reservation_id req)] else [])))"

definition ReleaseFunds :: "bool \<Rightarrow> string \<Rightarrow> ledger \<Rightarrow> ledger \<times> account_effect list" where
  "ReleaseFunds has_tx rid l =
     (case find (lg_reservations l) rid of
        None \<Rightarrow> (l, [])
      | Some r \<Rightarrow>
          (let l = upd_reserved (\<lambda>x. dsub x (rs_amount r)) (rs_user_id r) (rs_currency r) l;
               l = upd_available (\<lambda>x. dadd x (rs_amount r)) (rs_user_id r) (rs_currency r) l;
               l = l\<lparr>lg_reservations := erase rid (lg_reservations l)\<rparr>
           in (l, if has_tx then [ReleaseTx (rs_user_id r) (rs_currency r) (rs_amount r) rid]
                  else [])))"

record balance_view =
  bv_currency :: string
  bv_available :: decimal
  bv_reserved :: decimal
  bv_total :: decimal

definition GetBalances :: "string \<Rightarrow> ledger \<Rightarrow> balance_view list" where
  "GetBalances user l =
     (case find (lg_balances l) user of
        None \<Rightarrow> []
      | Some ub \<Rightarrow> map (\<lambda>(ccy, b). \<lparr>bv_currency = ccy, bv_available = ba_available b,
          bv_reserved = ba_reserved b, bv_total = dadd (ba_available b) (ba_reserved b)\<rparr>) ub)"

section \<open>Signed positions\<close>

abbreviation kPriceScale :: int where "kPriceScale \<equiv> 2"
abbreviation kPnlScale :: int where "kPnlScale \<equiv> 2"
abbreviation kQtyScale :: int where "kQtyScale \<equiv> 8"

text \<open>The divisor is the constant one, so \<open>Decimal::div\<close> cannot throw here.\<close>

definition rescale :: "decimal \<Rightarrow> int \<Rightarrow> decimal" where
  "rescale v t = (if scale v = t then v else ddiv_nz v (mk_dec 1 0) t)"

text \<open>\<open>fill_dir\<close> is \<open>+1\<close> for a buy and \<open>-1\<close> for a sell.\<close>

definition increase_position :: "position \<Rightarrow> int \<Rightarrow> decimal \<Rightarrow> decimal \<Rightarrow> decimal \<Rightarrow> position" where
  "increase_position pos pos_sign signed_fill fill_qty fill_price =
     (let abs_old = (if pos_sign < 0 then dneg (po_amount pos) else po_amount pos);
          old_value = dmul abs_old (po_avg_entry_price pos);
          new_value = dmul fill_qty fill_price;
          total_value = dadd old_value new_value;
          total_abs = dadd abs_old fill_qty
      in pos\<lparr>po_avg_entry_price :=
               (if 0 < dcmp total_abs dzero then ddiv_nz total_value total_abs kPriceScale
                else mk_dec 0 kPriceScale),
             po_amount := rescale (dadd (po_amount pos) signed_fill) kQtyScale\<rparr>)"

definition reduce_position :: "position \<Rightarrow> int \<Rightarrow> decimal \<Rightarrow> decimal \<Rightarrow> decimal \<Rightarrow> position" where
  "reduce_position pos pos_sign signed_fill fill_qty fill_price =
     (let abs_pos = (if pos_sign < 0 then dneg (po_amount pos) else po_amount pos);
          closed = dmin fill_qty abs_pos;
          price_diff = (if 0 < pos_sign then dsub fill_price (po_avg_entry_price pos)
                        else dsub (po_avg_entry_price pos) fill_price);
          realised = rescale (dmul price_diff closed) kPnlScale;
          pos = pos\<lparr>po_realised_pnl := rescale (dadd (po_realised_pnl pos) realised) kPnlScale\<rparr>;
          new_amount = rescale (dadd (po_amount pos) signed_fill) kQtyScale;
          new_sign = dcmp new_amount dzero
      in if new_sign = 0 then pos\<lparr>po_amount := mk_dec 0 kQtyScale,
                                  po_avg_entry_price := mk_dec 0 kPriceScale\<rparr>
         else if (0 < pos_sign) = (0 < new_sign) then pos\<lparr>po_amount := new_amount\<rparr>
         else pos\<lparr>po_amount := new_amount, po_avg_entry_price := rescale fill_price kPriceScale\<rparr>)"

definition apply_signed_fill :: "position \<Rightarrow> int \<Rightarrow> decimal \<Rightarrow> decimal \<Rightarrow> position" where
  "apply_signed_fill pos fill_dir fill_qty fill_price =
     (if dcmp fill_qty dzero \<le> 0 then pos
      else let signed_fill = (if 0 \<le> fill_dir then fill_qty else dneg fill_qty);
               pos_sign = dcmp (po_amount pos) dzero
           in if pos_sign = 0 \<or> (0 < pos_sign \<and> 0 \<le> fill_dir) \<or> (pos_sign < 0 \<and> fill_dir < 0)
              then increase_position pos pos_sign signed_fill fill_qty fill_price
              else reduce_position pos pos_sign signed_fill fill_qty fill_price)"

definition update_position_for_fill ::
    "string \<Rightarrow> string \<Rightarrow> side \<Rightarrow> decimal \<Rightarrow> decimal \<Rightarrow> ledger \<Rightarrow> ledger" where
  "update_position_for_fill user symbol sd qty price l =
     (let pos = ensure_position l user symbol
      in set_position user symbol
           (case sd of SIDE_BUY \<Rightarrow> apply_signed_fill pos 1 qty price
                     | SIDE_SELL \<Rightarrow> apply_signed_fill pos (-1) qty price
                     | SIDE_UNSPECIFIED \<Rightarrow> pos) l)"

section \<open>Frame lemmas\<close>

lemma balance_of_set [map_simps, simp]:
  "balance_of (set_balance u c b l) u' c' = (if u' = u \<and> c' = c then b else balance_of l u' c')"
  by (simp add: balance_of_def set_balance_def)

lemma balance_of_ensure [simp]: "balance_of (ensure_balance u c l) = balance_of l"
  by (intro ext) (simp add: ensure_balance_def)

lemma balance_of_other [frame_simps, simp]:
  "balance_of (set_position u i p l) = balance_of l"
  "balance_of (l\<lparr>lg_reservations := r\<rparr>) = balance_of l"
  by (simp_all add: balance_of_def set_position_def fun_eq_iff)

lemma balance_of_upd [map_simps, simp]:
  "balance_of (upd_available f u c l) u' c' =
     (if u' = u \<and> c' = c then (balance_of l u c)\<lparr>ba_available := f (ba_available (balance_of l u c))\<rparr>
      else balance_of l u' c')"
  "balance_of (upd_reserved f u c l) u' c' =
     (if u' = u \<and> c' = c then (balance_of l u c)\<lparr>ba_reserved := f (ba_reserved (balance_of l u c))\<rparr>
      else balance_of l u' c')"
  by (simp_all add: upd_available_def upd_reserved_def Let_def)

lemma reservations_frame [frame_simps, simp]:
  "lg_reservations (set_balance u c b l) = lg_reservations l"
  "lg_reservations (ensure_balance u c l) = lg_reservations l"
  "lg_reservations (upd_available f u c l) = lg_reservations l"
  "lg_reservations (upd_reserved f u c l) = lg_reservations l"
  "lg_reservations (set_position u c p l) = lg_reservations l"
  "lg_reservations (update_position_for_fill u i s q pr l) = lg_reservations l"
  by (simp_all add: set_balance_def ensure_balance_def upd_available_def upd_reserved_def
      set_position_def update_position_for_fill_def Let_def)

lemma positions_frame [frame_simps, simp]:
  "lg_positions (set_balance u c b l) = lg_positions l"
  "lg_positions (ensure_balance u c l) = lg_positions l"
  "lg_positions (upd_available f u c l) = lg_positions l"
  "lg_positions (upd_reserved f u c l) = lg_positions l"
  by (simp_all add: set_balance_def ensure_balance_def upd_available_def upd_reserved_def Let_def)

lemma balance_of_position [frame_simps, simp]:
  "balance_of (update_position_for_fill u i s q pr l) = balance_of l"
  by (simp add: update_position_for_fill_def Let_def)

lemma ensure_position_frame [frame_simps, simp]:
  "ensure_position (set_balance u c b l) = ensure_position l"
  "ensure_position (upd_available f u c l) = ensure_position l"
  "ensure_position (upd_reserved f u c l) = ensure_position l"
  "ensure_position (l\<lparr>lg_reservations := r\<rparr>) = ensure_position l"
  by (simp_all add: ensure_position_def fun_eq_iff)

end
