(* ===== verification/Ledger_Batch.thy ===== *)
theory Ledger_Batch
  imports Ledger_Core
begin

text \<open>
  The two consumers of matching results in \<open>ledger_uc.cpp\<close>: \<open>ApplyBatchResult\<close>, which
  settles the fills of a batch against the reserved funds, and \<open>ApplyExecutionGroup\<close>, which
  settles a grouped execution directly against the available funds.
\<close>

section \<open>Settling one fill\<close>

definition consume_reservation :: "string \<Rightarrow> decimal \<Rightarrow> ledger \<Rightarrow> ledger" where
  "consume_reservation oid x l =
     (case find (lg_reservations l) oid of
        None \<Rightarrow> l
      | Some r \<Rightarrow> l\<lparr>lg_reservations :=
          put oid (r\<lparr>rs_amount := dsub (rs_amount r) x\<rparr>) (lg_reservations l)\<rparr>)"

definition settle_fill :: "flow_fill \<Rightarrow> ledger \<Rightarrow> ledger" where
  "settle_fill f l =
     (let user = ff_user_id f;
          base = in_base (ff_instrument f);
          quote = in_quote (ff_instrument f);
          qty = ff_executed_qty f;
          notional = ff_executed_notional f
      in case ff_side f of
           SIDE_BUY \<Rightarrow>
             upd_available (\<lambda>x. dadd x qty) user base
               (consume_reservation (ff_order_id f) notional
                 (upd_reserved (\<lambda>x. dsub x notional) user quote l))
         | SIDE_SELL \<Rightarrow>
             upd_available (\<lambda>x. dadd x notional) user quote
               (consume_reservation (ff_order_id f) qty
                 (upd_reserved (\<lambda>x. dsub x qty) user base l))
         | SIDE_UNSPECIFIED \<Rightarrow> l)"

text \<open>\<open>fill.has_fee() && fee().has_cost() && cost().has_amount()\<close>, with the quote currency
  when the message names none.\<close>

definition fee_of_fill :: "flow_fill \<Rightarrow> (string \<times> decimal) option" where
  "fee_of_fill f =
     (case ff_fee f of
        None \<Rightarrow> None
      | Some fe \<Rightarrow> (case fe_cost fe of
          None \<Rightarrow> None
        | Some m \<Rightarrow> (case mo_amount m of
            None \<Rightarrow> None
          | Some a \<Rightarrow> Some (if mo_currency m = [] then in_quote (ff_instrument f)
                            else mo_currency m, a))))"

definition charge_fee :: "flow_fill \<Rightarrow> ledger \<Rightarrow> ledger" where
  "charge_fee f l =
     (case fee_of_fill f of
        None \<Rightarrow> l
      | Some (ccy, a) \<Rightarrow>
          (let l = upd_available (\<lambda>x. dsub x a) (ff_user_id f) ccy l
           in if ccy = in_quote (ff_instrument f)
              then let pos = ensure_position l (ff_user_id f) (in_symbol (ff_instrument f))
                   in set_position (ff_user_id f) (in_symbol (ff_instrument f))
                        (pos\<lparr>po_realised_pnl := dsub (po_realised_pnl pos) a\<rparr>) l
              else l))"

definition fill_position :: "flow_fill \<Rightarrow> ledger \<Rightarrow> ledger" where
  "fill_position f l = update_position_for_fill (ff_user_id f) (in_symbol (ff_instrument f))
     (ff_side f) (ff_executed_qty f) (dec_of (ff_price f)) l"

definition apply_fill :: "flow_fill \<Rightarrow> ledger \<Rightarrow> ledger" where
  "apply_fill f l = charge_fee f (fill_position f (settle_fill f l))"

section \<open>Releasing what the orders no longer need\<close>

definition is_terminal_order_status :: "order_status \<Rightarrow> bool" where
  "is_terminal_order_status s \<longleftrightarrow> s \<in> {ORDER_STATUS_FILLED, ORDER_STATUS_CANCELED,
     ORDER_STATUS_REJECTED, ORDER_STATUS_EXPIRED}"

definition release_leftover :: "order_update \<Rightarrow> ledger \<Rightarrow> ledger" where
  "release_leftover u l =
     (if \<not> is_terminal_order_status (ou_status u) then l
      else case find (lg_reservations l) (ou_order_id u) of
             None \<Rightarrow> l
           | Some r \<Rightarrow>
               (let left = rs_amount r;
                    l = (if 0 < dcmp left dzero
                         then upd_available (\<lambda>x. dadd x left) (rs_user_id r) (rs_currency r)
                                (upd_reserved (\<lambda>x. dsub x left) (rs_user_id r) (rs_currency r) l)
                         else l)
                in l\<lparr>lg_reservations := erase (ou_order_id u) (lg_reservations l)\<rparr>))"

definition reservation_open :: "reservation \<Rightarrow> bool" where
  "reservation_open r \<longleftrightarrow> 0 < dcmp (rs_amount r) (mk_dec 0 (scale (rs_amount r)))"

definition sweep_reservations :: "ledger \<Rightarrow> ledger" where
  "sweep_reservations l =
     l\<lparr>lg_reservations := filter (\<lambda>kv. reservation_open (snd kv)) (lg_reservations l)\<rparr>"

text \<open>The part of \<open>ApplyBatchResult\<close> under the lock.\<close>

definition apply_batch_locked :: "batch_result \<Rightarrow> ledger \<Rightarrow> ledger" where
  "apply_batch_locked b l =
     sweep_reservations (fold release_leftover (br_order_updates b) (fold apply_fill (br_fills b) l))"

section \<open>Persistence and publication\<close>

record position_row =
  pr_user_id :: string
  pr_symbol :: string
  pr_side :: string
  pr_quantity :: decimal
  pr_avg_entry_price :: decimal
  pr_unrealized_pnl :: decimal
  pr_realized_pnl :: decimal

record account_row =
  ar_user_id :: string
  ar_asset :: string
  ar_free_balance :: decimal
  ar_reserved_balance :: decimal

datatype batch_effect =
    PositionsApplyFill flow_fill
  | EntriesForFill string flow_fill
  | ApplyFillTx position_row "account_row list"
  | MarkBatchProcessed string
  | PublishPositions string string int

text \<open>Which of the optional ports are wired.\<close>

record ledger_ports =
  lp_positions_repo :: bool
  lp_entries_repo :: bool
  lp_position_account_tx :: bool
  lp_idempotency_repo :: bool
  lp_positions_publisher :: bool

definition position_side :: "decimal \<Rightarrow> string" where
  "position_side amt = (let sign = dcmp amt dzero
     in if 0 < sign then ''long'' else if sign < 0 then ''short'' else ''flat'')"

definition abs_amount :: "decimal \<Rightarrow> decimal" where
  "abs_amount amt = (if dcmp amt dzero < 0 then dneg amt else amt)"

definition position_row_of :: "string \<Rightarrow> string \<Rightarrow> position \<Rightarrow> position_row" where
  "position_row_of user symbol pos =
     \<lparr>pr_user_id = user, pr_symbol = symbol, pr_side = position_side (po_amount pos),
      pr_quantity = abs_amount (po_amount pos), pr_avg_entry_price = po_avg_entry_price pos,
      pr_unrealized_pnl = dzero, pr_realized_pnl = po_realised_pnl pos\<rparr>"

definition account_deltas :: "flow_fill \<Rightarrow> account_row list" where
  "account_deltas f =
     (let user = ff_user_id f;
          base = in_base (ff_instrument f);
          quote = in_quote (ff_instrument f);
          qty = ff_executed_qty f;
          notional = ff_executed_notional f;
          row = (\<lambda>asset free res. \<lparr>ar_user_id = user, ar_asset = asset,
                   ar_free_balance = free, ar_reserved_balance = res\<rparr>)
      in case ff_side f of
           SIDE_BUY \<Rightarrow> [row quote dzero (dneg notional), row base qty dzero]
         | SIDE_SELL \<Rightarrow> [row base dzero (dneg qty), row quote notional dzero]
         | SIDE_UNSPECIFIED \<Rightarrow> [])"

text \<open>The transaction port reads the position through \<open>ensure_position_locked\<close>, which writes
  the entry back.\<close>

definition persist_fill ::
    "ledger_ports \<Rightarrow> string \<Rightarrow> flow_fill \<Rightarrow> ledger \<Rightarrow> ledger \<times> batch_effect list" where
  "persist_fill ports bid f l =
     (let user = ff_user_id f; symbol = in_symbol (ff_instrument f);
          e1 = (if lp_positions_repo ports then [PositionsApplyFill f] else []);
          e2 = (if lp_entries_repo ports then [EntriesForFill bid f] else [])
      in if lp_position_account_tx ports
         then let pos = ensure_position l user symbol
              in (set_position user symbol pos l,
                  e1 @ e2 @ [ApplyFillTx (position_row_of user symbol pos) (account_deltas f)])
         else (l, e1 @ e2))"

fun persist_fills ::
    "ledger_ports \<Rightarrow> string \<Rightarrow> flow_fill list \<Rightarrow> ledger \<Rightarrow> ledger \<times> batch_effect list" where
  "persist_fills ports bid [] l = (l, [])"
| "persist_fills ports bid (f # fs) l =
     (let (l, e1) = persist_fill ports bid f l;
          (l, e2) = persist_fills ports bid fs l
      in (l, e1 @ e2))"

text \<open>One signal per user of the batch, in the order of the fills.\<close>

fun publish_users :: "string \<Rightarrow> int \<Rightarrow> string list \<Rightarrow> flow_fill list \<Rightarrow> batch_effect list" where
  "publish_users bid ts seen [] = []"
| "publish_users bid ts seen (f # fs) =
     (let user = ff_user_id f
      in if user = [] then publish_users bid ts seen fs
         else if user \<in> set seen then publish_users bid ts seen fs
         else PublishPositions user bid ts # publish_users bid ts (user # seen) fs)"

text \<open>
  \<open>ApplyBatchResult\<close>. \<open>processed\<close> is what \<open>IsBatchProcessed\<close> answers for a batch id, asked only
  when an idempotency repository is wired; \<open>now_secs\<close> is the clock. The response's
  \<open>success\<close> is true on both paths.
\<close>

definition ApplyBatchResult ::
    "ledger_ports \<Rightarrow> (string \<Rightarrow> bool) \<Rightarrow> int \<Rightarrow> batch_result \<Rightarrow> ledger \<Rightarrow>
      bool \<times> ledger \<times> batch_effect list" where
  "ApplyBatchResult ports processed now_secs b l =
     (let bid = br_batch_id b
      in if lp_idempotency_repo ports \<and> processed bid then (True, l, [])
         else let l = apply_batch_locked b l;
                  (l, e1) = persist_fills ports bid (br_fills b) l;
                  e2 = (if lp_idempotency_repo ports then [MarkBatchProcessed bid] else []);
                  e3 = (if lp_positions_publisher ports
                        then publish_users bid now_secs [] (br_fills b) else [])
              in (True, l, e1 @ e2 @ e3))"

section \<open>Grouped executions\<close>

definition split_symbol :: "string \<Rightarrow> (string \<times> string) option" where
  "split_symbol symbol =
     (case split_at (CHR ''/'') symbol of
        None \<Rightarrow> None
      | Some (base, quote) \<Rightarrow> if base = [] \<or> quote = [] then None else Some (base, quote))"

definition leg_notional :: "leg_result \<Rightarrow> decimal" where
  "leg_notional lr =
     (let n = lr_exec_notional lr
      in if dcmp n (mk_dec 0 (scale n)) \<le> 0 then dmul (lr_exec_qty lr) (lr_exec_price lr) else n)"

definition settle_leg :: "string \<Rightarrow> leg_result \<Rightarrow> ledger \<Rightarrow> ledger" where
  "settle_leg user lr l =
     (case split_symbol (lr_instrument_symbol lr) of
        None \<Rightarrow> l
      | Some (base, quote) \<Rightarrow>
          (let qty = lr_exec_qty lr; notional = leg_notional lr
           in case lr_side lr of
                SIDE_BUY \<Rightarrow> upd_available (\<lambda>x. dadd x qty) user base
                              (upd_available (\<lambda>x. dsub x notional) user quote l)
              | SIDE_SELL \<Rightarrow> upd_available (\<lambda>x. dadd x notional) user quote
                              (upd_available (\<lambda>x. dsub x qty) user base l)
              | SIDE_UNSPECIFIED \<Rightarrow> l))"

definition apply_leg :: "string \<Rightarrow> leg_result \<Rightarrow> ledger \<Rightarrow> ledger" where
  "apply_leg user lr l = settle_leg user lr
     (update_position_for_fill user (lr_instrument_symbol lr) (lr_side lr)
       (lr_exec_qty lr) (lr_exec_price lr) l)"

definition ApplyExecutionGroup :: "execution_group \<Rightarrow> ledger \<Rightarrow> ledger" where
  "ApplyExecutionGroup eg l =
     (if eg_leg_results eg = [] then l
      else if eg_execution_group_id eg \<in> set (lg_seen_groups l) then l
      else fold (apply_leg (eg_user_id eg)) (eg_leg_results eg)
             (l\<lparr>lg_seen_groups := eg_execution_group_id eg # lg_seen_groups l\<rparr>))"

end
