(* ===== verification/Ledger_Spec.thy ===== *)
theory Ledger_Spec
  imports Ledger_Batch
begin

text \<open>
  The contract of the account side of the ledger: a book of rational balances and open
  claims, its operations without rounding, machine integers or maps, the two laws that make
  the book correct (every batch changes totals by its double entry only; the reserved
  balance of an account is the sum of its open claims), and the refinement lemmas that the
  code's operations implement the book as long as the amounts fit their 64 bits.
\<close>

section \<open>The abstract book\<close>

record claim =
  cl_user :: string
  cl_order :: string
  cl_ccy :: string
  cl_amount :: rat

record book =
  bk_avail :: "string \<Rightarrow> string \<Rightarrow> rat"
  bk_res :: "string \<Rightarrow> string \<Rightarrow> rat"
  bk_open :: "string \<Rightarrow> claim option"

definition bump :: "string \<Rightarrow> string \<Rightarrow> rat \<Rightarrow> (string \<Rightarrow> string \<Rightarrow> rat) \<Rightarrow> string \<Rightarrow> string \<Rightarrow> rat" where
  "bump u c x m = (\<lambda>u' c'. if u' = u \<and> c' = c then m u' c' + x else m u' c')"

definition a_avail :: "string \<Rightarrow> string \<Rightarrow> rat \<Rightarrow> book \<Rightarrow> book" where
  "a_avail u c x b = b\<lparr>bk_avail := bump u c x (bk_avail b)\<rparr>"

definition a_res :: "string \<Rightarrow> string \<Rightarrow> rat \<Rightarrow> book \<Rightarrow> book" where
  "a_res u c x b = b\<lparr>bk_res := bump u c x (bk_res b)\<rparr>"

definition total :: "book \<Rightarrow> string \<Rightarrow> string \<Rightarrow> rat" where
  "total b u c = bk_avail b u c + bk_res b u c"

definition a_reserve :: "string \<Rightarrow> claim \<Rightarrow> book \<Rightarrow> book" where
  "a_reserve rid cl b =
     (if bk_open b rid \<noteq> None \<or> bk_avail b (cl_user cl) (cl_ccy cl) < cl_amount cl then b
      else (a_res (cl_user cl) (cl_ccy cl) (cl_amount cl)
             (a_avail (cl_user cl) (cl_ccy cl) (- cl_amount cl) b))
             \<lparr>bk_open := (bk_open b)(rid \<mapsto> cl)\<rparr>)"

definition a_release :: "string \<Rightarrow> book \<Rightarrow> book" where
  "a_release rid b =
     (case bk_open b rid of
        None \<Rightarrow> b
      | Some cl \<Rightarrow> (a_res (cl_user cl) (cl_ccy cl) (- cl_amount cl)
          (a_avail (cl_user cl) (cl_ccy cl) (cl_amount cl) b))
            \<lparr>bk_open := (bk_open b)(rid := None)\<rparr>)"

record trade =
  tr_order :: string
  tr_user :: string
  tr_base :: string
  tr_quote :: string
  tr_side :: side
  tr_qty :: rat
  tr_notional :: rat
  tr_fee :: "(string \<times> rat) option"

definition tr_spent :: "trade \<Rightarrow> rat" where
  "tr_spent t = (case tr_side t of SIDE_BUY \<Rightarrow> tr_notional t | SIDE_SELL \<Rightarrow> tr_qty t
     | SIDE_UNSPECIFIED \<Rightarrow> 0)"

definition tr_spent_ccy :: "trade \<Rightarrow> string" where
  "tr_spent_ccy t = (if tr_side t = SIDE_BUY then tr_quote t else tr_base t)"

definition tr_got :: "trade \<Rightarrow> rat" where
  "tr_got t = (case tr_side t of SIDE_BUY \<Rightarrow> tr_qty t | SIDE_SELL \<Rightarrow> tr_notional t
     | SIDE_UNSPECIFIED \<Rightarrow> 0)"

definition tr_got_ccy :: "trade \<Rightarrow> string" where
  "tr_got_ccy t = (if tr_side t = SIDE_BUY then tr_base t else tr_quote t)"

definition a_consume :: "string \<Rightarrow> rat \<Rightarrow> book \<Rightarrow> book" where
  "a_consume rid x b =
     (case bk_open b rid of
        None \<Rightarrow> b
      | Some cl \<Rightarrow> b\<lparr>bk_open := (bk_open b)(rid \<mapsto> cl\<lparr>cl_amount := cl_amount cl - x\<rparr>)\<rparr>)"

definition a_fee :: "trade \<Rightarrow> book \<Rightarrow> book" where
  "a_fee t b = (case tr_fee t of None \<Rightarrow> b | Some (c, x) \<Rightarrow> a_avail (tr_user t) c (- x) b)"

definition a_fill :: "trade \<Rightarrow> book \<Rightarrow> book" where
  "a_fill t b =
     (if tr_side t = SIDE_UNSPECIFIED then a_fee t b
      else a_fee t (a_avail (tr_user t) (tr_got_ccy t) (tr_got t)
             (a_consume (tr_order t) (tr_spent t)
               (a_res (tr_user t) (tr_spent_ccy t) (- tr_spent t) b))))"

definition a_close :: "string \<Rightarrow> book \<Rightarrow> book" where
  "a_close rid b =
     (case bk_open b rid of
        None \<Rightarrow> b
      | Some cl \<Rightarrow> if 0 < cl_amount cl then a_release rid b
                   else b\<lparr>bk_open := (bk_open b)(rid := None)\<rparr>)"

definition a_sweep :: "book \<Rightarrow> book" where
  "a_sweep b = b\<lparr>bk_open := (\<lambda>rid. case bk_open b rid of None \<Rightarrow> None
     | Some cl \<Rightarrow> if 0 < cl_amount cl then Some cl else None)\<rparr>"

text \<open>A batch: its trades, then the orders it closes.\<close>

definition a_batch :: "trade list \<Rightarrow> string list \<Rightarrow> book \<Rightarrow> book" where
  "a_batch ts done_ids b = a_sweep (fold a_close done_ids (fold a_fill ts b))"

section \<open>Double entry\<close>

definition entry :: "trade \<Rightarrow> string \<Rightarrow> string \<Rightarrow> rat" where
  "entry t u c =
     (if u = tr_user t \<and> tr_side t \<noteq> SIDE_UNSPECIFIED
      then (if c = tr_got_ccy t then tr_got t else 0) - (if c = tr_spent_ccy t then tr_spent t else 0)
      else 0)
     - (case tr_fee t of None \<Rightarrow> 0 | Some (fc, x) \<Rightarrow> if u = tr_user t \<and> c = fc then x else 0)"

lemma total_avail: "total (a_avail u c x b) u' c' = total b u' c' + (if u' = u \<and> c' = c then x else 0)"
  by (simp add: total_def a_avail_def bump_def)

lemma total_res: "total (a_res u c x b) u' c' = total b u' c' + (if u' = u \<and> c' = c then x else 0)"
  by (simp add: total_def a_res_def bump_def)

lemma total_open [simp]: "total (b\<lparr>bk_open := m\<rparr>) = total b"
  by (simp add: total_def fun_eq_iff)

lemma total_consume [simp]: "total (a_consume rid x b) = total b"
  by (simp add: a_consume_def split: option.splits)

lemmas total_simps = total_avail total_res total_open total_consume

lemma total_fee: "total (a_fee t b) u c = total b u c
    - (case tr_fee t of None \<Rightarrow> 0 | Some (fc, x) \<Rightarrow> if u = tr_user t \<and> c = fc then x else 0)"
  by (simp add: a_fee_def total_simps split: option.splits prod.splits)

lemma total_fill: "total (a_fill t b) u c = total b u c + entry t u c"
  by (simp add: a_fill_def entry_def total_fee total_simps)

lemma total_release: "total (a_release rid b) = total b"
  by (simp add: a_release_def total_simps fun_eq_iff split: option.splits)

lemma total_close: "total (a_close rid b) = total b"
  by (simp add: a_close_def total_release split: option.splits)

lemma total_sweep: "total (a_sweep b) = total b"
  by (simp add: a_sweep_def)

lemma total_reserve: "total (a_reserve rid cl b) = total b"
  by (simp add: a_reserve_def total_simps fun_eq_iff)

lemma total_fills: "total (fold a_fill ts b) u c = total b u c + (\<Sum>t \<leftarrow> ts. entry t u c)"
  by (induction ts arbitrary: b) (simp_all add: total_fill)

lemma total_closes: "total (fold a_close ids b) = total b"
  by (induction ids arbitrary: b) (simp_all add: total_close)

lemma total_batch: "total (a_batch ts done_ids b) u c = total b u c + (\<Sum>t \<leftarrow> ts. entry t u c)"
  by (simp add: a_batch_def total_sweep total_closes total_fills)

section \<open>Reserved funds are backed by open claims\<close>

definition held :: "claim option \<Rightarrow> string \<Rightarrow> string \<Rightarrow> rat" where
  "held o_cl u c = (case o_cl of None \<Rightarrow> 0
     | Some cl \<Rightarrow> if cl_user cl = u \<and> cl_ccy cl = c then cl_amount cl else 0)"

definition backed :: "book \<Rightarrow> bool" where
  "backed b \<longleftrightarrow> finite (dom (bk_open b)) \<and>
     (\<forall>u c. bk_res b u c = (\<Sum>rid \<in> dom (bk_open b). held (bk_open b rid) u c))"

lemma held_simps [simp]:
  "held None u c = 0"
  "held (Some cl) u c = (if cl_user cl = u \<and> cl_ccy cl = c then cl_amount cl else 0)"
  by (simp_all add: held_def)

text \<open>Changing one claim changes the sum by the difference of what it holds.\<close>

lemma held_sum_upd:
  assumes "finite (dom m)"
  shows "(\<Sum>r \<in> dom (m(rid := o_cl)). held ((m(rid := o_cl)) r) u c)
    = (\<Sum>r \<in> dom m. held (m r) u c) - held (m rid) u c + held o_cl u c"
proof -
  let ?D = "insert rid (dom m)"
  have fin: "finite ?D" using assms by simp
  have a: "(\<Sum>r \<in> dom (m(rid := o_cl)). held ((m(rid := o_cl)) r) u c)
      = (\<Sum>r \<in> ?D. held ((m(rid := o_cl)) r) u c)"
    by (rule sum.mono_neutral_left[OF fin]) (auto split: if_splits simp: dom_def)
  have b: "(\<Sum>r \<in> dom m. held (m r) u c) = (\<Sum>r \<in> ?D. held (m r) u c)"
    by (rule sum.mono_neutral_left[OF fin]) (auto simp: dom_def)
  have "(\<Sum>r \<in> ?D. held ((m(rid := o_cl)) r) u c)
      = held o_cl u c + (\<Sum>r \<in> ?D - {rid}. held ((m(rid := o_cl)) r) u c)"
    using fin by (simp only: sum.remove[OF fin insertI1]) simp
  also have "(\<Sum>r \<in> ?D - {rid}. held ((m(rid := o_cl)) r) u c)
      = (\<Sum>r \<in> ?D - {rid}. held (m r) u c)"
    by (rule sum.cong) auto
  also have "\<dots> = (\<Sum>r \<in> ?D. held (m r) u c) - held (m rid) u c"
    using fin by (simp only: sum.remove[OF fin insertI1])
  finally show ?thesis unfolding a b by simp
qed

lemma backed_upd:
  assumes "backed b"
    and "\<forall>u c. bk_res b' u c = bk_res b u c - held (bk_open b rid) u c + held o_cl u c"
    and "bk_open b' = (bk_open b)(rid := o_cl)"
  shows "backed b'"
  using assms held_sum_upd[of "bk_open b" rid o_cl]
  by (simp add: backed_def del: fun_upd_apply)

lemma backed_reserve: "backed b \<Longrightarrow> backed (a_reserve rid cl b)"
  by (cases "bk_open b rid \<noteq> None \<or> bk_avail b (cl_user cl) (cl_ccy cl) < cl_amount cl")
     (auto simp: a_reserve_def a_res_def a_avail_def bump_def
        intro: backed_upd[of b _ rid "Some cl"])

lemma backed_release: "backed b \<Longrightarrow> backed (a_release rid b)"
  by (cases "bk_open b rid")
     (auto simp: a_release_def a_res_def a_avail_def bump_def intro: backed_upd[of b _ rid None])

lemma backed_close:
  assumes "backed b" "\<And>cl. bk_open b rid = Some cl \<Longrightarrow> 0 \<le> cl_amount cl"
  shows "backed (a_close rid b)"
proof (cases "bk_open b rid")
  case None
  with assms show ?thesis by (simp add: a_close_def)
next
  case (Some cl)
  with assms(2) have "0 < cl_amount cl \<or> cl_amount cl = 0" by force
  with Some assms(1) show ?thesis
    by (auto simp: a_close_def intro!: backed_release intro: backed_upd[of b _ rid None])
qed

text \<open>A trade that spends from the claim of its order.\<close>

definition covered :: "trade \<Rightarrow> book \<Rightarrow> bool" where
  "covered t b \<longleftrightarrow> tr_side t = SIDE_UNSPECIFIED \<or>
     (\<exists>cl. bk_open b (tr_order t) = Some cl \<and> cl_user cl = tr_user t \<and> cl_ccy cl = tr_spent_ccy t)"

lemma a_fee_frame [simp]: "bk_open (a_fee t b) = bk_open b" "bk_res (a_fee t b) = bk_res b"
  by (simp_all add: a_fee_def a_avail_def split: option.splits prod.splits)

lemma a_fill_open:
  "bk_open (a_fill t b) =
     (if tr_side t = SIDE_UNSPECIFIED then bk_open b
      else case bk_open b (tr_order t) of None \<Rightarrow> bk_open b
      | Some cl \<Rightarrow> (bk_open b)(tr_order t \<mapsto> cl\<lparr>cl_amount := cl_amount cl - tr_spent t\<rparr>))"
  by (simp add: a_fill_def a_avail_def a_consume_def a_res_def split: option.splits)

lemma a_fill_res:
  "bk_res (a_fill t b) =
     (if tr_side t = SIDE_UNSPECIFIED then bk_res b
      else bump (tr_user t) (tr_spent_ccy t) (- tr_spent t) (bk_res b))"
  by (simp add: a_fill_def a_avail_def a_consume_def a_res_def split: option.splits)

lemma backed_fill:
  assumes "backed b" "covered t b"
  shows "backed (a_fill t b)"
proof (cases "tr_side t = SIDE_UNSPECIFIED")
  case True
  with assms(1) show ?thesis by (simp add: backed_def a_fill_open a_fill_res)
next
  case False
  with assms(2) obtain cl where cl: "bk_open b (tr_order t) = Some cl"
    "cl_user cl = tr_user t" "cl_ccy cl = tr_spent_ccy t"
    by (auto simp: covered_def)
  show ?thesis
    by (rule backed_upd[OF assms(1), of _ "tr_order t" "Some (cl\<lparr>cl_amount := cl_amount cl - tr_spent t\<rparr>)"])
       (use False cl in \<open>auto simp: a_fill_open a_fill_res bump_def\<close>)
qed

lemma covered_fill: "covered t' (a_fill t b) \<longleftrightarrow> covered t' b"
  by (auto simp: covered_def a_fill_open split: option.splits)

lemma backed_fills:
  "backed b \<Longrightarrow> \<forall>t \<in> set ts. covered t b \<Longrightarrow> backed (fold a_fill ts b)"
  by (induction ts arbitrary: b) (simp_all add: covered_fill backed_fill)

text \<open>What the trades of a batch spend from one claim.\<close>

definition spent_on :: "trade list \<Rightarrow> string \<Rightarrow> rat" where
  "spent_on ts rid = (\<Sum>t \<leftarrow> ts. if tr_order t = rid then tr_spent t else 0)"

lemma fills_open:
  "bk_open (fold a_fill ts b) rid =
     map_option (\<lambda>cl. cl\<lparr>cl_amount := cl_amount cl - spent_on ts rid\<rparr>) (bk_open b rid)"
proof (induction ts arbitrary: b)
  case Nil
  then show ?case by (simp add: spent_on_def option.map_ident)
next
  case (Cons t ts)
  show ?case
    by (cases "bk_open b rid")
       (auto simp: Cons a_fill_open spent_on_def tr_spent_def split: option.splits)
qed

definition nonneg_claims :: "book \<Rightarrow> bool" where
  "nonneg_claims b \<longleftrightarrow> (\<forall>rid cl. bk_open b rid = Some cl \<longrightarrow> 0 \<le> cl_amount cl)"

lemma a_close_open: "bk_open (a_close rid b) = (bk_open b)(rid := None)"
  by (auto simp: a_close_def a_release_def a_res_def a_avail_def split: option.splits)

lemma closes_open: "bk_open (fold a_close ids b) = (\<lambda>r. if r \<in> set ids then None else bk_open b r)"
  by (induction ids arbitrary: b) (auto simp: a_close_open fun_eq_iff)

lemma backed_closes:
  "backed b \<Longrightarrow> nonneg_claims b \<Longrightarrow> backed (fold a_close ids b)"
proof (induction ids arbitrary: b)
  case Nil
  then show ?case by simp
next
  case (Cons i ids)
  have "nonneg_claims (a_close i b)"
    using Cons.prems(2) by (simp add: nonneg_claims_def a_close_open)
  moreover have "backed (a_close i b)"
    by (rule backed_close) (use Cons.prems in \<open>auto simp: nonneg_claims_def\<close>)
  ultimately show ?case using Cons.IH by simp
qed

lemma backed_sweep:
  assumes "backed b" "nonneg_claims b"
  shows "backed (a_sweep b)"
proof -
  have h: "held (bk_open (a_sweep b) r) u c = held (bk_open b r) u c" for r u c
    using assms(2) by (fastforce simp: a_sweep_def nonneg_claims_def split: option.splits)
  have "dom (bk_open (a_sweep b)) \<subseteq> dom (bk_open b)"
    by (auto simp: a_sweep_def split: option.splits if_splits)
  moreover have "finite (dom (bk_open b))" using assms(1) by (simp add: backed_def)
  moreover have "(\<Sum>r \<in> dom (bk_open (a_sweep b)). held (bk_open (a_sweep b) r) u c)
      = (\<Sum>r \<in> dom (bk_open b). held (bk_open b r) u c)" for u c
    unfolding h
  proof (rule sum.mono_neutral_left)
    show "\<forall>i \<in> dom (bk_open b) - dom (bk_open (a_sweep b)). held (bk_open b i) u c = 0"
      using h[of _ u c] by (metis DiffE domIff held_simps(1))
  qed (use calculation in auto)
  ultimately show ?thesis
    using assms(1) by (auto simp: backed_def a_sweep_def intro: finite_subset)
qed

lemma backed_batch:
  assumes "backed b" "\<forall>t \<in> set ts. covered t b"
    and enough: "\<And>rid cl. bk_open b rid = Some cl \<Longrightarrow> spent_on ts rid \<le> cl_amount cl"
  shows "backed (a_batch ts done_ids b)"
proof -
  have "backed (fold a_fill ts b)" by (rule backed_fills) (use assms in auto)
  moreover have "nonneg_claims (fold a_fill ts b)"
    using enough by (auto simp: nonneg_claims_def fills_open)
  ultimately show ?thesis unfolding a_batch_def
    by (intro backed_sweep backed_closes) (auto simp: nonneg_claims_def closes_open)
qed

lemma a_batch_open:
  "bk_open (a_batch ts done_ids b) rid = Some cl \<longleftrightarrow>
     rid \<notin> set done_ids \<and> 0 < cl_amount cl \<and>
     (\<exists>cl0. bk_open b rid = Some cl0 \<and> cl = cl0\<lparr>cl_amount := cl_amount cl0 - spent_on ts rid\<rparr>)"
  by (auto simp: a_batch_def a_sweep_def closes_open fills_open split: option.splits)

end
