(* ===== verification/Ledger_Refine.thy ===== *)
theory Ledger_Refine
  imports Ledger_Spec
begin

text \<open>
  The refinement of the account operations of the ledger to the abstract book: the
  abstraction function, the range invariant that keeps every sum exact, and one lemma per
  operation that the code's result, read as a book, is the abstract operation.
\<close>

section \<open>Abstraction and range\<close>

definition claim_of :: "reservation \<Rightarrow> claim" where
  "claim_of r = \<lparr>cl_user = rs_user_id r, cl_order = rs_order_id r, cl_ccy = rs_currency r,
     cl_amount = dval (rs_amount r)\<rparr>"

definition book_of :: "ledger \<Rightarrow> book" where
  "book_of l = \<lparr>bk_avail = (\<lambda>u c. dval (ba_available (balance_of l u c))),
     bk_res = (\<lambda>u c. dval (ba_reserved (balance_of l u c))),
     bk_open = (\<lambda>rid. map_option claim_of (find (lg_reservations l) rid))\<rparr>"

definition trade_of :: "flow_fill \<Rightarrow> trade" where
  "trade_of f = \<lparr>tr_order = ff_order_id f, tr_user = ff_user_id f,
     tr_base = in_base (ff_instrument f), tr_quote = in_quote (ff_instrument f),
     tr_side = ff_side f, tr_qty = dval (ff_executed_qty f),
     tr_notional = dval (ff_executed_notional f),
     tr_fee = map_option (\<lambda>(c, a). (c, dval a)) (fee_of_fill f)\<rparr>"

text \<open>Every balance is within \<open>m\<close>, every open reservation within \<open>k\<close> units of scale \<open>s\<close>.\<close>

definition in_range :: "nat \<Rightarrow> int \<Rightarrow> int \<Rightarrow> ledger \<Rightarrow> bool" where
  "in_range s m k l \<longleftrightarrow> s \<le> 18 \<and> distinct (map fst (lg_reservations l)) \<and>
     (\<forall>u c. grid s m (ba_available (balance_of l u c)) \<and> grid s m (ba_reserved (balance_of l u c))) \<and>
     (\<forall>rid r. find (lg_reservations l) rid = Some r \<longrightarrow> grid s k (rs_amount r))"

definition fill_range :: "nat \<Rightarrow> int \<Rightarrow> flow_fill \<Rightarrow> bool" where
  "fill_range s n f \<longleftrightarrow> grid s n (ff_executed_qty f) \<and> grid s n (ff_executed_notional f) \<and>
     (case fee_of_fill f of None \<Rightarrow> True | Some (c, a) \<Rightarrow> grid s n a)"

lemma in_rangeD:
  assumes "in_range s m k l"
  shows "grid s m (ba_available (balance_of l u c))" "grid s m (ba_reserved (balance_of l u c))"
    "find (lg_reservations l) rid = Some r \<Longrightarrow> grid s k (rs_amount r)"
    "distinct (map fst (lg_reservations l))" "s \<le> 18" "0 \<le> m"
proof -
  show "0 \<le> m"
    using assms grid_nonneg[of s m "ba_available (balance_of l [] [])"] by (simp add: in_range_def)
qed (use assms in \<open>auto simp: in_range_def\<close>)

lemma in_range_mono:
  assumes "in_range s m k l" "m \<le> m'" "k \<le> k'"
  shows "in_range s m' k' l"
  using assms grid_mono by (fastforce simp: in_range_def)

lemma book_of_sel [simp]:
  "bk_avail (book_of l) u c = dval (ba_available (balance_of l u c))"
  "bk_res (book_of l) u c = dval (ba_reserved (balance_of l u c))"
  "bk_open (book_of l) rid = map_option claim_of (find (lg_reservations l) rid)"
  by (simp_all add: book_of_def)

lemma book_eqI:
  assumes "\<And>u c. bk_avail a u c = bk_avail b u c" "\<And>u c. bk_res a u c = bk_res b u c"
    "\<And>rid. bk_open a rid = bk_open b rid"
  shows "a = (b :: book)"
  using assms by (cases a; cases b) (auto simp: fun_eq_iff)

lemma book_of_cong:
  "balance_of l = balance_of l' \<Longrightarrow> find (lg_reservations l) = find (lg_reservations l')
   \<Longrightarrow> book_of l = book_of l'"
  by (simp add: book_of_def)

lemma in_range_cong:
  "balance_of l = balance_of l' \<Longrightarrow> lg_reservations l = lg_reservations l'
   \<Longrightarrow> in_range s m k l = in_range s m k l'"
  by (simp add: in_range_def)

lemma claim_of_sel [simp]:
  "cl_user (claim_of r) = rs_user_id r" "cl_ccy (claim_of r) = rs_currency r"
  "cl_order (claim_of r) = rs_order_id r" "cl_amount (claim_of r) = dval (rs_amount r)"
  by (simp_all add: claim_of_def)

section \<open>Primitive moves\<close>

lemma avail_add:
  assumes "in_range s m k l" "grid s n a" "m + n \<le> max_units"
  shows "book_of (upd_available (\<lambda>x. dadd x a) u c l) = a_avail u c (dval a) (book_of l)"
    and "in_range s (m + n) k (upd_available (\<lambda>x. dadd x a) u c l)"
proof -
  note g = grid_add[OF in_rangeD(1)[OF assms(1)] assms(2,3)]
  show "book_of (upd_available (\<lambda>x. dadd x a) u c l) = a_avail u c (dval a) (book_of l)"
    by (rule book_eqI) (auto simp: a_avail_def bump_def g)
  show "in_range s (m + n) k (upd_available (\<lambda>x. dadd x a) u c l)"
    using in_range_mono[OF assms(1), of "m + n" k] g(2) grid_nonneg[OF assms(2)]
    by (auto simp: in_range_def)
qed

lemma avail_sub:
  assumes "in_range s m k l" "grid s n a" "m + n \<le> max_units"
  shows "book_of (upd_available (\<lambda>x. dsub x a) u c l) = a_avail u c (- dval a) (book_of l)"
    and "in_range s (m + n) k (upd_available (\<lambda>x. dsub x a) u c l)"
proof -
  note g = grid_sub[OF in_rangeD(1)[OF assms(1)] assms(2,3)]
  show "book_of (upd_available (\<lambda>x. dsub x a) u c l) = a_avail u c (- dval a) (book_of l)"
    by (rule book_eqI) (auto simp: a_avail_def bump_def g)
  show "in_range s (m + n) k (upd_available (\<lambda>x. dsub x a) u c l)"
    using in_range_mono[OF assms(1), of "m + n" k] g(2) grid_nonneg[OF assms(2)]
    by (auto simp: in_range_def)
qed

lemma res_add:
  assumes "in_range s m k l" "grid s n a" "m + n \<le> max_units"
  shows "book_of (upd_reserved (\<lambda>x. dadd x a) u c l) = a_res u c (dval a) (book_of l)"
    and "in_range s (m + n) k (upd_reserved (\<lambda>x. dadd x a) u c l)"
proof -
  note g = grid_add[OF in_rangeD(2)[OF assms(1)] assms(2,3)]
  show "book_of (upd_reserved (\<lambda>x. dadd x a) u c l) = a_res u c (dval a) (book_of l)"
    by (rule book_eqI) (auto simp: a_res_def bump_def g)
  show "in_range s (m + n) k (upd_reserved (\<lambda>x. dadd x a) u c l)"
    using in_range_mono[OF assms(1), of "m + n" k] g(2) grid_nonneg[OF assms(2)]
    by (auto simp: in_range_def)
qed

lemma res_sub:
  assumes "in_range s m k l" "grid s n a" "m + n \<le> max_units"
  shows "book_of (upd_reserved (\<lambda>x. dsub x a) u c l) = a_res u c (- dval a) (book_of l)"
    and "in_range s (m + n) k (upd_reserved (\<lambda>x. dsub x a) u c l)"
proof -
  note g = grid_sub[OF in_rangeD(2)[OF assms(1)] assms(2,3)]
  show "book_of (upd_reserved (\<lambda>x. dsub x a) u c l) = a_res u c (- dval a) (book_of l)"
    by (rule book_eqI) (auto simp: a_res_def bump_def g)
  show "in_range s (m + n) k (upd_reserved (\<lambda>x. dsub x a) u c l)"
    using in_range_mono[OF assms(1), of "m + n" k] g(2) grid_nonneg[OF assms(2)]
    by (auto simp: in_range_def)
qed

text \<open>Replacing the reservation map alone.\<close>

lemma open_put:
  "book_of (l\<lparr>lg_reservations := put rid r (lg_reservations l)\<rparr>)
     = (book_of l)\<lparr>bk_open := (bk_open (book_of l))(rid \<mapsto> claim_of r)\<rparr>"
  by (rule book_eqI) auto

lemma open_erase:
  "book_of (l\<lparr>lg_reservations := erase rid (lg_reservations l)\<rparr>)
     = (book_of l)\<lparr>bk_open := (bk_open (book_of l))(rid := None)\<rparr>"
  by (rule book_eqI) auto

lemma in_range_put:
  "in_range s m k l \<Longrightarrow> grid s k (rs_amount r) \<Longrightarrow>
     in_range s m k (l\<lparr>lg_reservations := put rid r (lg_reservations l)\<rparr>)"
  by (auto simp: in_range_def intro: distinct_put)

lemma in_range_erase:
  "in_range s m k l \<Longrightarrow> in_range s m k (l\<lparr>lg_reservations := erase rid (lg_reservations l)\<rparr>)"
  by (auto simp: in_range_def distinct_erase split: if_splits)

section \<open>Settling a fill\<close>

lemma consume_refines:
  assumes "in_range s m k l" "grid s n x" "k + n \<le> max_units"
  shows "book_of (consume_reservation rid x l) = a_consume rid (dval x) (book_of l)"
    and "in_range s m (k + n) (consume_reservation rid x l)"
proof -
  have n: "0 \<le> n" by (rule grid_nonneg[OF assms(2)])
  show "book_of (consume_reservation rid x l) = a_consume rid (dval x) (book_of l)"
    using grid_sub(1)[OF in_rangeD(3)[OF assms(1)] assms(2,3)]
    by (auto simp: consume_reservation_def a_consume_def open_put claim_of_def split: option.splits)
  have "in_range s m (k + n) l" by (rule in_range_mono[OF assms(1)]) (use n in auto)
  then show "in_range s m (k + n) (consume_reservation rid x l)"
    using grid_sub(2)[OF in_rangeD(3)[OF assms(1)] assms(2,3)]
    by (auto simp: consume_reservation_def intro!: in_range_put split: option.splits)
qed

lemma fill_position_frame [simp]:
  "balance_of (fill_position f l) = balance_of l"
  "lg_reservations (fill_position f l) = lg_reservations l"
  by (simp_all add: fill_position_def)

lemma book_of_fill_position [simp]: "book_of (fill_position f l) = book_of l"
  by (rule book_of_cong) simp_all

lemma in_range_fill_position [simp]: "in_range s m k (fill_position f l) = in_range s m k l"
  by (rule in_range_cong) simp_all

lemma book_of_set_position [simp]: "book_of (set_position u i p l) = book_of l"
  by (rule book_of_cong) simp_all

lemma in_range_set_position [simp]: "in_range s m k (set_position u i p l) = in_range s m k l"
  by (rule in_range_cong) simp_all

lemma charge_fee_refines:
  assumes "in_range s m k l" "fill_range s n f" "m + n \<le> max_units"
  shows "book_of (charge_fee f l) = a_fee (trade_of f) (book_of l)"
    and "in_range s (m + n) k (charge_fee f l)"
proof -
  have n: "0 \<le> n" using assms(2) grid_nonneg by (auto simp: fill_range_def)
  show "book_of (charge_fee f l) = a_fee (trade_of f) (book_of l)"
    using assms avail_sub(1)[OF assms(1) _ assms(3)]
    by (auto simp: charge_fee_def a_fee_def trade_of_def Let_def fill_range_def
        split: option.splits prod.splits)
  show "in_range s (m + n) k (charge_fee f l)"
    using assms avail_sub(2)[OF assms(1) _ assms(3)] in_range_mono[OF assms(1), of "m + n" k] n
    by (auto simp: charge_fee_def Let_def fill_range_def split: option.splits prod.splits)
qed

lemma settle_refines:
  assumes r: "in_range s m k l" and f: "fill_range s n f"
    and fit: "m + 2 * n \<le> max_units" "k + n \<le> max_units"
  shows "a_fee (trade_of f) (book_of (settle_fill f l)) = a_fill (trade_of f) (book_of l)"
    and "in_range s (m + n + n) (k + n) (settle_fill f l)"
proof -
  have q: "grid s n (ff_executed_qty f)" "grid s n (ff_executed_notional f)"
    using f by (auto simp: fill_range_def)
  have n: "0 \<le> n" by (rule grid_nonneg[OF q(1)])
  have fits: "m + n \<le> max_units" "m + n + n \<le> max_units" using fit n by auto
  note sub = res_sub[OF r _ fits(1)]
  note cons = consume_refines[OF sub(2) _ fit(2)]
  note add = avail_add[OF cons(2) _ fits(2)]
  show "a_fee (trade_of f) (book_of (settle_fill f l)) = a_fill (trade_of f) (book_of l)"
    using q
    by (cases "ff_side f")
       (simp_all add: settle_fill_def Let_def add cons sub a_fill_def trade_of_def
          tr_got_def tr_got_ccy_def tr_spent_def tr_spent_ccy_def)
  show "in_range s (m + n + n) (k + n) (settle_fill f l)"
  proof (cases "ff_side f")
    case SIDE_UNSPECIFIED
    then have "settle_fill f l = l" by (simp add: settle_fill_def)
    then show ?thesis by (simp only:) (rule in_range_mono[OF r]; use n in simp)
  qed (simp_all only: settle_fill_def Let_def side.case, (rule add(2)[OF q(2) q(2) q(1)] add(2)[OF q(1) q(1) q(2)])+)
qed

lemma apply_fill_refines:
  assumes r: "in_range s m k l" and f: "fill_range s n f"
    and fit: "m + 3 * n \<le> max_units" "k + n \<le> max_units"
  shows "book_of (apply_fill f l) = a_fill (trade_of f) (book_of l)"
    and "in_range s (m + 3 * n) (k + n) (apply_fill f l)"
proof -
  have n: "0 \<le> n" using f grid_nonneg by (auto simp: fill_range_def)
  then have fits: "m + 2 * n \<le> max_units" "m + n + n + n \<le> max_units" using fit by auto
  note st = settle_refines[OF r f fits(1) fit(2)]
  have fp: "in_range s (m + n + n) (k + n) (fill_position f (settle_fill f l))"
    using st(2) by simp
  note fee = charge_fee_refines[OF fp f fits(2)]
  show "book_of (apply_fill f l) = a_fill (trade_of f) (book_of l)"
    by (simp add: apply_fill_def fee(1) st(1))
  have three: "m + 3 * n = m + n + n + n" by simp
  show "in_range s (m + 3 * n) (k + n) (apply_fill f l)"
    unfolding three apply_fill_def by (rule fee(2))
qed

lemma apply_fills_refine:
  assumes "in_range s m k l" "\<forall>f \<in> set fs. fill_range s n f" "0 \<le> n"
    and "m + 3 * int (length fs) * n \<le> max_units" "k + int (length fs) * n \<le> max_units"
  shows "book_of (fold apply_fill fs l) = fold a_fill (map trade_of fs) (book_of l)
    \<and> in_range s (m + 3 * int (length fs) * n) (k + int (length fs) * n) (fold apply_fill fs l)"
  using assms
proof (induction fs arbitrary: l m k)
  case Nil
  then show ?case by simp
next
  case (Cons f fs)
  have len: "int (length (f # fs)) * n = n + int (length fs) * n" by (simp add: algebra_simps)
  have len3: "3 * int (length (f # fs)) * n = 3 * n + 3 * int (length fs) * n"
    by (simp add: algebra_simps)
  have pos: "0 \<le> int (length fs) * n" "0 \<le> 3 * int (length fs) * n" using Cons.prems(3) by auto
  have fit: "m + 3 * n \<le> max_units" "k + n \<le> max_units"
    using Cons.prems(4,5) pos unfolding len len3 by linarith+
  have f: "fill_range s n f" using Cons.prems(2) by simp
  note step = apply_fill_refines[OF Cons.prems(1) f fit]
  have "book_of (fold apply_fill fs (apply_fill f l))
      = fold a_fill (map trade_of fs) (book_of (apply_fill f l))
    \<and> in_range s (m + 3 * n + 3 * int (length fs) * n) (k + n + int (length fs) * n)
        (fold apply_fill fs (apply_fill f l))"
    by (rule Cons.IH[OF step(2)]) (use Cons.prems len len3 in auto)
  then show ?case unfolding len len3 by (simp add: step(1) add.assoc)
qed

section \<open>Closing orders\<close>

lemma release_leftover_refines:
  assumes r: "in_range s m k l" and fit: "m + k \<le> max_units" and k: "0 \<le> k"
  shows "book_of (release_leftover u l) =
      (if is_terminal_order_status (ou_status u) then a_close (ou_order_id u) (book_of l)
       else book_of l)"
    and "in_range s (m + k) k (release_leftover u l)"
proof -
  have m: "0 \<le> m" by (rule in_rangeD(6)[OF r])
  have grown: "in_range s (m + k) k l" by (rule in_range_mono[OF r]) (use k in auto)
  have step: "book_of (release_leftover u l) = a_close (ou_order_id u) (book_of l)
      \<and> in_range s (m + k) k (release_leftover u l)"
    if t: "is_terminal_order_status (ou_status u)" and x: "find (lg_reservations l) (ou_order_id u) = Some x" for x
  proof -
    have g: "grid s k (rs_amount x)" by (rule in_rangeD(3)[OF r x])
    have pos: "0 < dcmp (rs_amount x) dzero \<longleftrightarrow> 0 < dval (rs_amount x)"
      using grid_cmp(2)[OF g, of 0 dzero] fit m k in_rangeD(5)[OF r] by simp
    note rs = res_sub[OF r g fit]
    let ?l1 = "upd_reserved (\<lambda>y. dsub y (rs_amount x)) (rs_user_id x) (rs_currency x) l"
    let ?l2 = "upd_available (\<lambda>y. dadd y (rs_amount x)) (rs_user_id x) (rs_currency x) ?l1"
    have r2: "in_range s (m + k) k ?l2"
    proof -
      have "grid s (m + k) (dadd (ba_available (balance_of l u' c')) (rs_amount x))" for u' c'
        by (rule grid_add(2)[OF in_rangeD(1)[OF r] g fit])
      moreover have "grid s (m + k) (dsub (ba_reserved (balance_of l u' c')) (rs_amount x))" for u' c'
        by (rule grid_sub(2)[OF in_rangeD(2)[OF r] g fit])
      ultimately show ?thesis using grown by (auto simp: in_range_def)
    qed
    have b2: "book_of ?l2 = a_res (rs_user_id x) (rs_currency x) (- dval (rs_amount x))
        (a_avail (rs_user_id x) (rs_currency x) (dval (rs_amount x)) (book_of l))"
      by (rule book_eqI)
         (auto simp: a_res_def a_avail_def bump_def grid_add(1)[OF in_rangeD(1)[OF r] g fit]
            grid_sub(1)[OF in_rangeD(2)[OF r] g fit])
    show ?thesis
    proof (cases "0 < dval (rs_amount x)")
      case True
      have e: "release_leftover u l = ?l2\<lparr>lg_reservations := erase (ou_order_id u) (lg_reservations ?l2)\<rparr>"
        using t x True pos by (simp add: release_leftover_def Let_def)
      have "book_of (release_leftover u l) = a_close (ou_order_id u) (book_of l)"
        unfolding e open_erase b2 using True x
        by (simp add: a_close_def a_release_def a_res_def a_avail_def)
      then show ?thesis using in_range_erase[OF r2, of "ou_order_id u"] unfolding e by blast
    next
      case False
      have e: "release_leftover u l = l\<lparr>lg_reservations := erase (ou_order_id u) (lg_reservations l)\<rparr>"
        using t x False pos by (simp add: release_leftover_def Let_def)
      show ?thesis unfolding e using False x
        by (simp add: open_erase in_range_erase[OF grown] a_close_def)
    qed
  qed
  show "book_of (release_leftover u l) =
      (if is_terminal_order_status (ou_status u) then a_close (ou_order_id u) (book_of l)
       else book_of l)"
    using step by (auto simp: release_leftover_def a_close_def split: option.splits)
  show "in_range s (m + k) k (release_leftover u l)"
    using step grown by (auto simp: release_leftover_def split: option.splits)
qed

definition closed_ids :: "order_update list \<Rightarrow> string list" where
  "closed_ids us = map ou_order_id (filter (\<lambda>u. is_terminal_order_status (ou_status u)) us)"

lemma releases_refine:
  assumes "in_range s m k l" "m + int (length us) * k \<le> max_units" "0 \<le> k"
  shows "book_of (fold release_leftover us l) = fold a_close (closed_ids us) (book_of l)
    \<and> in_range s (m + int (length us) * k) k (fold release_leftover us l)"
  using assms
proof (induction us arbitrary: l m)
  case Nil
  then show ?case by (simp add: closed_ids_def)
next
  case (Cons u us)
  have len: "int (length (u # us)) * k = k + int (length us) * k" by (simp add: algebra_simps)
  have pos: "0 \<le> int (length us) * k" using Cons.prems(3) by simp
  have fit: "m + k \<le> max_units" using Cons.prems(2) pos unfolding len by linarith
  note step = release_leftover_refines[OF Cons.prems(1) fit Cons.prems(3), of u]
  have "book_of (fold release_leftover us (release_leftover u l))
      = fold a_close (closed_ids us) (book_of (release_leftover u l))
    \<and> in_range s (m + k + int (length us) * k) k (fold release_leftover us (release_leftover u l))"
    by (rule Cons.IH[OF step(2)]) (use Cons.prems len in auto)
  then show ?case unfolding len by (simp add: step(1) add.assoc closed_ids_def)
qed

lemma reservation_open_iff:
  assumes "grid s k (rs_amount r)" "k \<le> max_units"
  shows "reservation_open r \<longleftrightarrow> 0 < dval (rs_amount r)"
proof -
  have "grid s 0 (mk_dec 0 (scale (rs_amount r)))"
    using assms(1) by (auto simp: grid_def at_scale_mk)
  from grid_cmp(2)[OF assms(1) this assms(2)] show ?thesis
    by (simp add: reservation_open_def)
qed

lemma sweep_refines:
  assumes "in_range s m k l" "k \<le> max_units"
  shows "book_of (sweep_reservations l) = a_sweep (book_of l)"
    and "in_range s m k (sweep_reservations l)"
proof -
  have f: "find (filter (\<lambda>kv. reservation_open (snd kv)) (lg_reservations l)) rid =
      (case find (lg_reservations l) rid of None \<Rightarrow> None
       | Some v \<Rightarrow> if reservation_open v then Some v else None)" for rid
    by (rule find_filter_distinct) (rule in_rangeD(4)[OF assms(1)])
  show "book_of (sweep_reservations l) = a_sweep (book_of l)"
    by (rule book_eqI)
       (auto simp: sweep_reservations_def a_sweep_def f split: option.splits
          dest: reservation_open_iff[OF in_rangeD(3)[OF assms(1)] assms(2)])
  show "in_range s m k (sweep_reservations l)"
    using assms(1)
    by (auto simp: in_range_def sweep_reservations_def f distinct_map_filter
        split: option.splits if_splits)
qed

text \<open>
  The whole batch. Each fill moves a balance at most three times (spend, receive, fee) and
  a reservation once; each terminal update moves a balance by at most one reservation.
\<close>

definition batch_fits :: "nat \<Rightarrow> int \<Rightarrow> int \<Rightarrow> int \<Rightarrow> batch_result \<Rightarrow> bool" where
  "batch_fits s m k n b \<longleftrightarrow> 0 \<le> n \<and> 0 \<le> k \<and> (\<forall>f \<in> set (br_fills b). fill_range s n f) \<and>
     m + 3 * int (length (br_fills b)) * n
       + int (length (br_order_updates b)) * (k + int (length (br_fills b)) * n) \<le> max_units \<and>
     k + int (length (br_fills b)) * n \<le> max_units"

lemma batch_refines:
  assumes "in_range s m k l" "batch_fits s m k n b"
  shows "book_of (apply_batch_locked b l) =
      a_batch (map trade_of (br_fills b)) (closed_ids (br_order_updates b)) (book_of l)"
    and "in_range s max_units max_units (apply_batch_locked b l)"
proof -
  let ?fs = "br_fills b" and ?us = "br_order_updates b"
  let ?k = "k + int (length ?fs) * n" and ?m = "m + 3 * int (length ?fs) * n"
  have b: "0 \<le> n" "0 \<le> k" "\<forall>f \<in> set ?fs. fill_range s n f"
    "?m + int (length ?us) * ?k \<le> max_units" "?k \<le> max_units"
    using assms(2) unfolding batch_fits_def by auto
  have k: "0 \<le> ?k" "0 \<le> int (length ?us) * ?k" using b(1,2) by auto
  have m: "?m \<le> max_units" using b(4) k(2) by linarith
  note fills = apply_fills_refine[OF assms(1) b(3) b(1) m b(5)]
  note rel = releases_refine[OF conjunct2[OF fills] b(4) k(1)]
  note sw = sweep_refines[OF conjunct2[OF rel] b(5)]
  show "book_of (apply_batch_locked b l) =
      a_batch (map trade_of ?fs) (closed_ids ?us) (book_of l)"
    by (simp add: apply_batch_locked_def a_batch_def sw(1) conjunct1[OF rel] conjunct1[OF fills])
  show "in_range s max_units max_units (apply_batch_locked b l)"
    unfolding apply_batch_locked_def by (rule in_range_mono[OF sw(2) b(4,5)])
qed

section \<open>Reservations\<close>

definition claim_for :: "reserve_request \<Rightarrow> claim" where
  "claim_for req = \<lparr>cl_user = rq_user_id req, cl_order = rq_order_id req,
     cl_ccy = rq_currency req, cl_amount = dval (rq_amount req)\<rparr>"

lemma book_of_ensure [simp]: "book_of (ensure_balance u c l) = book_of l"
  by (rule book_of_cong) simp_all

lemma ReserveFunds_book:
  assumes "in_range s m k l" "grid s n (rq_amount req)" "m + n \<le> max_units"
  shows "book_of (fst (snd (ReserveFunds tx req l))) =
      a_reserve (rq_reservation_id req) (claim_for req) (book_of l)"
proof -
  let ?b = "balance_of l (rq_user_id req) (rq_currency req)"
  have n: "0 \<le> n" by (rule grid_nonneg[OF assms(2)])
  have fit: "m \<le> max_units" "n \<le> max_units" using assms(3) n in_rangeD(6)[OF assms(1)] by auto
  note cmp = grid_cmp(1)[OF in_rangeD(1)[OF assms(1)] assms(2) fit]
  note sub = grid_sub(1)[OF in_rangeD(1)[OF assms(1)] assms(2,3)]
  note add = grid_add(1)[OF in_rangeD(2)[OF assms(1)] assms(2,3)]
  show ?thesis
  proof (cases "find (lg_reservations l) (rq_reservation_id req)")
    case (Some r)
    then show ?thesis by (simp add: ReserveFunds_def a_reserve_def Let_def)
  next
    case None
    show ?thesis
    proof (cases "dcmp (ba_available ?b) (rq_amount req) < 0")
      case True
      with None show ?thesis
        by (simp add: ReserveFunds_def a_reserve_def Let_def claim_for_def cmp)
    next
      case False
      with None show ?thesis
        by (intro book_eqI)
           (auto simp: ReserveFunds_def a_reserve_def Let_def claim_for_def cmp
              a_res_def a_avail_def bump_def sub add claim_of_def)
    qed
  qed
qed

lemma ReleaseFunds_book:
  assumes "in_range s m k l" "m + k \<le> max_units"
  shows "book_of (fst (ReleaseFunds tx rid l)) = a_release rid (book_of l)"
proof (cases "find (lg_reservations l) rid")
  case None
  then show ?thesis by (simp add: ReleaseFunds_def a_release_def)
next
  case (Some r)
  have g: "grid s k (rs_amount r)" by (rule in_rangeD(3)[OF assms(1) Some])
  from Some show ?thesis
    by (intro book_eqI)
       (auto simp: ReleaseFunds_def a_release_def Let_def a_res_def a_avail_def bump_def
          grid_sub(1)[OF in_rangeD(2)[OF assms(1)] g assms(2)]
          grid_add(1)[OF in_rangeD(1)[OF assms(1)] g assms(2)])
qed

end
