(* ===== verification/Ledger_Accounts.thy ===== *)
theory Ledger_Accounts
  imports Ledger_Refine
begin

text \<open>
  The properties of the account side of the ledger: double entry and backing of reserved
  funds across a batch, the outcome of a reservation, the round trip of reserve and release,
  and the consumers of the two Kafka topics as instances of the idempotent consumer.
\<close>

section \<open>Helper lemmas\<close>

lemma persist_fill_frame:
  "balance_of (fst (persist_fill ports bid f l)) = balance_of l"
  "lg_reservations (fst (persist_fill ports bid f l)) = lg_reservations l"
  by (simp_all add: persist_fill_def Let_def)

lemma persist_fills_frame [simp]:
  "balance_of (fst (persist_fills ports bid fs l)) = balance_of l"
  "lg_reservations (fst (persist_fills ports bid fs l)) = lg_reservations l"
  by (induction fs arbitrary: l)
     (simp_all add: persist_fill_frame case_prod_beta Let_def)

definition batch_ledger :: "ledger_ports \<Rightarrow> (string \<Rightarrow> bool) \<Rightarrow> int \<Rightarrow> batch_result \<Rightarrow> ledger \<Rightarrow> ledger" where
  "batch_ledger ports processed t b l = fst (snd (ApplyBatchResult ports processed t b l))"

definition to_process :: "ledger_ports \<Rightarrow> (string \<Rightarrow> bool) \<Rightarrow> batch_result \<Rightarrow> bool" where
  "to_process ports processed b \<longleftrightarrow> \<not> (lp_idempotency_repo ports \<and> processed (br_batch_id b))"

lemma batch_ledger_frame:
  assumes "to_process ports processed b"
  shows "balance_of (batch_ledger ports processed t b l) = balance_of (apply_batch_locked b l)"
    and "lg_reservations (batch_ledger ports processed t b l) = lg_reservations (apply_batch_locked b l)"
  using assms
  by (auto simp: batch_ledger_def to_process_def ApplyBatchResult_def Let_def case_prod_beta)

lemma book_of_batch:
  assumes "to_process ports processed b" "in_range s m k l" "batch_fits s m k n b"
  shows "book_of (batch_ledger ports processed t b l) =
      a_batch (map trade_of (br_fills b)) (closed_ids (br_order_updates b)) (book_of l)"
  using batch_refines(1)[OF assms(2,3)]
  by (simp add: book_of_def batch_ledger_frame[OF assms(1)])

lemma closed_gone:
  assumes "to_process ports processed b" "in_range s m k l" "batch_fits s m k n b"
    and "rid \<in> set (closed_ids (br_order_updates b))"
  shows "find (lg_reservations (batch_ledger ports processed t b l)) rid = None"
proof (rule ccontr)
  assume "find (lg_reservations (batch_ledger ports processed t b l)) rid \<noteq> None"
  then obtain cl where "bk_open (book_of (batch_ledger ports processed t b l)) rid = Some cl" by auto
  with assms(4) show False unfolding book_of_batch[OF assms(1-3)] a_batch_open by simp
qed

text \<open>The range invariant of ledgers built from scratch.\<close>

lemma balance_of_empty: "balance_of empty_ledger u c = empty_balance"
  by (simp add: balance_of_def find2_def empty_ledger_def)

lemma in_range_empty [simp]: "in_range s m k empty_ledger \<longleftrightarrow> s \<le> 18 \<and> 0 \<le> m"
  by (auto simp: in_range_def balance_of_def find2_def empty_ledger_def empty_balance_def)

lemma in_range_set_balance:
  "in_range s m k l \<Longrightarrow> grid s m (ba_available b) \<Longrightarrow> grid s m (ba_reserved b) \<Longrightarrow>
   in_range s m k (set_balance u c b l)"
  by (simp add: in_range_def)

lemma in_range_reserve:
  assumes "in_range s m k l" "grid s n (rq_amount req)" "m + n \<le> max_units"
  shows "in_range s (m + n) (max k n) (fst (snd (ReserveFunds tx req l)))"
proof -
  have n: "0 \<le> n" by (rule grid_nonneg[OF assms(2)])
  have k: "grid s (max k n) (rq_amount req)" by (rule grid_mono[OF assms(2)]) simp
  have r: "in_range s (m + n) (max k n) l" by (rule in_range_mono[OF assms(1)]) (use n in auto)
  have "in_range s (m + n) (max k n) (set_balance u c \<lparr>ba_available = dsub (ba_available (balance_of l u c)) (rq_amount req),
      ba_reserved = dadd (ba_reserved (balance_of l u c)) (rq_amount req)\<rparr> (ensure_balance u c l))" for u c
    using r grid_sub(2)[OF in_rangeD(1)[OF assms(1)] assms(2,3), of u c]
      grid_add(2)[OF in_rangeD(2)[OF assms(1)] assms(2,3), of u c]
    by (auto simp: in_range_def)
  from in_range_put[OF this, of "\<lparr>rs_user_id = rq_user_id req, rs_order_id = rq_order_id req,
      rs_currency = rq_currency req, rs_amount = rq_amount req\<rparr>" "rq_reservation_id req"] k r
  show ?thesis by (auto simp: ReserveFunds_def Let_def in_range_def split: option.splits)
qed

lemma reserve_answer:
  assumes "in_range s m k l" "grid s n (rq_amount req)" "m + n \<le> max_units"
    and "ReserveFunds tx req l = (resp, l', effs)"
  shows "(rp_success resp \<longleftrightarrow> find (lg_reservations l) (rq_reservation_id req) \<noteq> None \<or>
      dval (rq_amount req) \<le> dval (ba_available (balance_of l (rq_user_id req) (rq_currency req))))
    \<and> (\<not> rp_success resp \<longrightarrow> map_option er_code (rp_error resp) = Some ''INSUFFICIENT_FUNDS'' \<and> effs = [])"
proof -
  have n: "0 \<le> n" by (rule grid_nonneg[OF assms(2)])
  have fit: "m \<le> max_units" "n \<le> max_units" using assms(3) n in_rangeD(6)[OF assms(1)] by auto
  note cmp = grid_cmp(1)[OF in_rangeD(1)[OF assms(1)] assms(2) fit]
  show ?thesis
    using assms(4)
    by (auto simp: ReserveFunds_def Let_def cmp mk_error_def not_less split: option.splits if_splits)
qed

section \<open>A concrete account\<close>

text \<open>A user with 10000.00 USDT who reserves 100.00 for an order, which a batch then fills for
  90.00 with a fee of 0.09.\<close>

definition ex_l0 :: ledger where
  "ex_l0 = set_balance ''bob'' ''USDT'' \<lparr>ba_available = mk_dec 1000000 2, ba_reserved = mk_dec 0 2\<rparr>
     empty_ledger"

definition ex_req :: reserve_request where
  "ex_req = \<lparr>rq_meta = empty_meta, rq_reservation_id = ''o1'', rq_user_id = ''bob'',
     rq_order_id = ''o1'', rq_currency = ''USDT'', rq_amount = mk_dec 10000 2\<rparr>"

definition ex_l1 :: ledger where
  "ex_l1 = fst (snd (ReserveFunds False ex_req ex_l0))"

definition ex_fill :: flow_fill where
  "ex_fill = \<lparr>ff_order_id = ''o1'', ff_user_id = ''bob'',
     ff_instrument = \<lparr>in_symbol = ''BTC/USDT'', in_base = ''BTC'', in_quote = ''USDT''\<rparr>,
     ff_side = SIDE_BUY, ff_executed_qty = mk_dec 1000000 8, ff_price = Some (mk_dec 900000 2),
     ff_executed_notional = mk_dec 9000 2,
     ff_fee = Some \<lparr>fe_cost = Some \<lparr>mo_currency = [], mo_amount = Some (mk_dec 9 2)\<rparr>\<rparr>,
     ff_liquidity_source = ''EXTERNAL'', ff_provenance = None\<rparr>"

definition ex_update :: order_update where
  "ex_update = \<lparr>ou_order_id = ''o1'', ou_status = ORDER_STATUS_FILLED,
     ou_remaining_qty = None, ou_filled_qty_total = None, ou_updated_at = None\<rparr>"

definition ex_batch :: batch_result where
  "ex_batch = \<lparr>br_batch_id = ''b1'', br_timestamp = (0, 0), br_clear_prices = [],
     br_fills = [ex_fill], br_order_updates = [ex_update], br_num_active_orders = 0,
     br_used_liquidity = []\<rparr>"

definition ex_ports :: ledger_ports where
  "ex_ports = \<lparr>lp_positions_repo = True, lp_entries_repo = True, lp_position_account_tx = True,
     lp_idempotency_repo = True, lp_positions_publisher = True\<rparr>"

lemma ex_process: "to_process ex_ports (\<lambda>_. False) ex_batch"
  by (simp add: to_process_def)

lemma ex_l0_range: "in_range 8 1000000000000 0 ex_l0"
  unfolding ex_l0_def by (rule in_range_set_balance) (auto simp: grid_def at_scale_def)

lemma ex_req_grid: "grid 8 10000000000 (rq_amount ex_req)"
  by (simp add: ex_req_def grid_def at_scale_def)

lemma ex_l1_range: "in_range 8 1010000000000 10000000000 ex_l1"
  using in_range_reserve[OF ex_l0_range ex_req_grid] by (simp add: ex_l1_def)

lemma ex_fits: "batch_fits 8 1010000000000 10000000000 9000000000 ex_batch"
  by (simp add: batch_fits_def ex_batch_def ex_fill_def fill_range_def fee_of_fill_def
      grid_def at_scale_def)

lemma ex_l0_backed: "backed (book_of ex_l0)"
  by (simp add: backed_def ex_l0_def balance_of_def find2_def empty_ledger_def set_balance_def
      put2_def empty_balance_def dom_def)

lemma ex_l1_book: "book_of ex_l1 = a_reserve ''o1'' (claim_for ex_req) (book_of ex_l0)"
  using ReserveFunds_book[OF ex_l0_range ex_req_grid, of False]
  by (simp add: ex_l1_def ex_req_def)

lemma ex_open: "find (lg_reservations ex_l1) rid = (if rid = ''o1'' then
    Some \<lparr>rs_user_id = ''bob'', rs_order_id = ''o1'', rs_currency = ''USDT'', rs_amount = mk_dec 10000 2\<rparr>
    else None)"
  by (simp add: ex_l1_def ReserveFunds_def Let_def ex_req_def ex_l0_def balance_of_def find2_def
      empty_ledger_def set_balance_def put2_def ensure_balance_def dcmp_def align_units_i128_def)

lemma ex_reserved: "rp_success (fst (ReserveFunds False ex_req ex_l0))"
  by (simp add: ReserveFunds_def Let_def ex_req_def ex_l0_def empty_ledger_def set_balance_def)
     (simp add: balance_of_def ensure_balance_def set_balance_def dcmp_def align_units_i128_def)

lemma ex_covered: "\<forall>f \<in> set (br_fills ex_batch). covered (trade_of f) (book_of ex_l1)"
  by (simp add: ex_batch_def covered_def ex_fill_def trade_of_def tr_spent_ccy_def ex_open)

lemma ex_spent: "\<forall>rid r. find (lg_reservations ex_l1) rid = Some r \<longrightarrow>
    spent_on (map trade_of (br_fills ex_batch)) rid \<le> dval (rs_amount r)"
  by (simp add: ex_open ex_batch_def spent_on_def trade_of_def ex_fill_def tr_spent_def)

lemma ex_l1_backed: "backed (book_of ex_l1)"
  unfolding ex_l1_book by (rule backed_reserve[OF ex_l0_backed])

section \<open>Properties\<close>

text \<open>C1. Double entry. Applying a batch changes the total (available plus reserved) of every
  account by exactly the sum of the entries of the batch's fills: a buyer pays the notional
  in quote and receives the quantity in base, a seller the reverse, and fees are paid once.
  Partial fills, terminal order updates, released leftovers and swept reservations create and
  destroy nothing, for any number of fills and updates whose amounts fit 64 bits.\<close>

theorem batch_double_entry:
  assumes "to_process ports processed b" "in_range s m k l" "batch_fits s m k n b"
  shows "total (book_of (batch_ledger ports processed t b l)) u c =
    total (book_of l) u c + (\<Sum>f \<leftarrow> br_fills b. entry (trade_of f) u c)"
  by (simp add: book_of_batch[OF assms] total_batch comp_def)

theorem batch_double_entry_witness:
  "total (book_of (batch_ledger ex_ports (\<lambda>_. False) 0 ex_batch ex_l1)) ''bob'' ''USDT''
    = total (book_of ex_l1) ''bob'' ''USDT'' - 9009 / 100"
  using batch_double_entry[OF ex_process ex_l1_range ex_fits, of 0 "''bob''" "''USDT''"]
  by (simp add: ex_batch_def ex_fill_def entry_def trade_of_def fee_of_fill_def tr_got_ccy_def
      tr_spent_ccy_def tr_spent_def tr_got_def)

text \<open>C2. Reserved funds stay backed. If the reserved balance of every account is the sum of
  its open reservations, every fill is paid from the reservation of its own order (same user
  and currency) and the batch spends no more than a reservation holds, then the same holds
  after the batch, and the reservations that survive are those of orders the batch did not
  close that still hold a positive amount.\<close>

theorem batch_keeps_reserved_backed:
  assumes "to_process ports processed b" "in_range s m k l" "batch_fits s m k n b"
    and "backed (book_of l)"
    and "\<forall>f \<in> set (br_fills b). covered (trade_of f) (book_of l)"
    and "\<forall>rid r. find (lg_reservations l) rid = Some r \<longrightarrow>
      spent_on (map trade_of (br_fills b)) rid \<le> dval (rs_amount r)"
  shows "backed (book_of (batch_ledger ports processed t b l)) \<and>
    (\<forall>rid r. find (lg_reservations (batch_ledger ports processed t b l)) rid = Some r \<longrightarrow>
      rid \<notin> set (closed_ids (br_order_updates b)) \<and> 0 < dval (rs_amount r))"
proof
  show "backed (book_of (batch_ledger ports processed t b l))"
    unfolding book_of_batch[OF assms(1-3)]
    by (rule backed_batch[OF assms(4)]) (use assms(5,6) in auto)
  have "rid \<notin> set (closed_ids (br_order_updates b)) \<and> 0 < cl_amount (claim_of r)"
    if "bk_open (book_of (batch_ledger ports processed t b l)) rid = Some (claim_of r)" for rid r
    using that unfolding book_of_batch[OF assms(1-3)] a_batch_open by auto
  then show "\<forall>rid r. find (lg_reservations (batch_ledger ports processed t b l)) rid = Some r \<longrightarrow>
      rid \<notin> set (closed_ids (br_order_updates b)) \<and> 0 < dval (rs_amount r)"
    by auto
qed

theorem batch_keeps_reserved_backed_witness:
  "backed (book_of (batch_ledger ex_ports (\<lambda>_. False) 0 ex_batch ex_l1)) \<and>
    find (lg_reservations (batch_ledger ex_ports (\<lambda>_. False) 0 ex_batch ex_l1)) ''o1'' = None"
proof -
  note w = batch_keeps_reserved_backed[OF ex_process ex_l1_range ex_fits ex_l1_backed ex_covered ex_spent, of 0]
  have "''o1'' \<in> set (closed_ids (br_order_updates ex_batch))"
    by (simp add: closed_ids_def ex_batch_def ex_update_def is_terminal_order_status_def)
  with w show ?thesis by (metis not_Some_eq)
qed

text \<open>Once the batch closes the last open orders of a user in a currency, nothing of that
  user's funds stays locked: the reserved balance is zero. (The leak this code once had: a
  purchase filled below its limit left the difference reserved forever.)\<close>

theorem batch_unlocks_closed_orders:
  assumes "to_process ports processed b" "in_range s m k l" "batch_fits s m k n b"
    and "backed (book_of l)"
    and "\<forall>f \<in> set (br_fills b). covered (trade_of f) (book_of l)"
    and "\<forall>rid r. find (lg_reservations l) rid = Some r \<longrightarrow>
      spent_on (map trade_of (br_fills b)) rid \<le> dval (rs_amount r)"
    and "\<forall>rid r. find (lg_reservations l) rid = Some r \<and> rs_user_id r = u \<and> rs_currency r = c \<longrightarrow>
      rid \<in> set (closed_ids (br_order_updates b))"
  shows "dval (ba_reserved (balance_of (batch_ledger ports processed t b l) u c)) = 0"
proof -
  let ?B = "book_of (batch_ledger ports processed t b l)"
  have "backed ?B"
    unfolding book_of_batch[OF assms(1-3)]
    by (rule backed_batch[OF assms(4)]) (use assms(5,6) in auto)
  moreover have "held (bk_open ?B rid) u c = 0" for rid
  proof (cases "bk_open ?B rid")
    case (Some cl)
    then obtain z where z: "find (lg_reservations l) rid = Some z"
      "rid \<notin> set (closed_ids (br_order_updates b))"
      "cl_user cl = rs_user_id z" "cl_ccy cl = rs_currency z"
      unfolding book_of_batch[OF assms(1-3)] a_batch_open by auto
    with assms(7) have "\<not> (rs_user_id z = u \<and> rs_currency z = c)" by blast
    with z(3,4) show ?thesis unfolding Some by auto
  qed simp
  ultimately have "bk_res ?B u c = 0" by (simp add: backed_def)
  then show ?thesis by simp
qed

theorem batch_unlocks_closed_orders_witness:
  "dval (ba_reserved (balance_of ex_l1 ''bob'' ''USDT'')) = 100 \<and>
   dval (ba_reserved (balance_of (batch_ledger ex_ports (\<lambda>_. False) 0 ex_batch ex_l1) ''bob'' ''USDT'')) = 0"
proof -
  have d: "\<forall>rid r. find (lg_reservations ex_l1) rid = Some r \<and> rs_user_id r = ''bob''
      \<and> rs_currency r = ''USDT'' \<longrightarrow> rid \<in> set (closed_ids (br_order_updates ex_batch))"
    by (simp add: ex_open closed_ids_def ex_batch_def ex_update_def is_terminal_order_status_def)
  have "bk_res (book_of ex_l1) ''bob'' ''USDT'' = 100"
    unfolding ex_l1_book
    by (simp add: a_reserve_def a_res_def a_avail_def bump_def claim_for_def ex_req_def ex_l0_def
        balance_of_empty) (simp add: set_balance_def empty_ledger_def)
  with batch_unlocks_closed_orders[OF ex_process ex_l1_range ex_fits ex_l1_backed ex_covered ex_spent d, of 0]
  show ?thesis by simp
qed



text \<open>Reserving is idempotent: once an id is reserved, any further request with that id,
  whatever its user, currency or amount, succeeds with the amount stored the first time,
  leaves the ledger as it is and sends nothing to the persistent mirror.\<close>

theorem ReserveFunds_idempotent:
  assumes "rp_success (fst (ReserveFunds tx req l))"
    and "rq_reservation_id req' = rq_reservation_id req"
    and "find (lg_reservations l) (rq_reservation_id req) = None"
  defines "l' \<equiv> fst (snd (ReserveFunds tx req l))"
  shows "rp_success (fst (ReserveFunds tx req' l'))
    \<and> rp_reserved_amount (fst (ReserveFunds tx req' l')) = Some (rq_amount req)
    \<and> snd (ReserveFunds tx req' l') = (l', [])"
proof -
  have "find (lg_reservations l') (rq_reservation_id req) = Some \<lparr>rs_user_id = rq_user_id req,
      rs_order_id = rq_order_id req, rs_currency = rq_currency req, rs_amount = rq_amount req\<rparr>"
    using assms(1,3) by (auto simp: l'_def ReserveFunds_def Let_def split: if_splits)
  with assms(2) show ?thesis by (simp add: ReserveFunds_def Let_def)
qed

theorem ReserveFunds_idempotent_witness:
  "snd (ReserveFunds False (ex_req\<lparr>rq_user_id := ''eve''\<rparr>) ex_l1) = (ex_l1, [])"
proof -
  have "find (lg_reservations ex_l0) (rq_reservation_id ex_req) = None"
    by (simp add: ex_l0_def empty_ledger_def)
  then show ?thesis
    using ReserveFunds_idempotent[of False ex_req ex_l0 "ex_req\<lparr>rq_user_id := ''eve''\<rparr>"] ex_reserved
    by (simp add: ex_l1_def)
qed

text \<open>Release undoes reserve: reserving under a fresh id and releasing that id gives back
  every available and reserved balance and every open reservation, as values; the persistent
  mirror gets the same amount moved there and back.\<close>

theorem release_undoes_reserve:
  assumes "in_range s m k l" "grid s n (rq_amount req)" "m + n + max k n \<le> max_units"
    and "find (lg_reservations l) (rq_reservation_id req) = None"
    and "ReserveFunds tx req l = (resp, l', e1)" "rp_success resp"
    and "ReleaseFunds tx (rq_reservation_id req) l' = (l'', e2)"
  shows "book_of l'' = book_of l \<and>
    (tx \<longrightarrow> e1 = [ReserveTx (rq_user_id req) (rq_currency req) (rq_amount req) (rq_reservation_id req)]
        \<and> e2 = [ReleaseTx (rq_user_id req) (rq_currency req) (rq_amount req) (rq_reservation_id req)])"
proof -
  have n: "0 \<le> n" by (rule grid_nonneg[OF assms(2)])
  have fit: "m + n \<le> max_units" using assms(3) n by simp
  have r: "in_range s (m + n) (max k n) l'"
    using in_range_reserve[OF assms(1,2) fit, of tx] assms(5) by simp
  have b1: "book_of l' = a_reserve (rq_reservation_id req) (claim_for req) (book_of l)"
    using ReserveFunds_book[OF assms(1,2) fit, of tx] assms(5) by simp
  have b2: "book_of l'' = a_release (rq_reservation_id req) (book_of l')"
    using ReleaseFunds_book[OF r assms(3), of tx "rq_reservation_id req"] assms(7) by simp
  have ok: "cl_amount (claim_for req) \<le> bk_avail (book_of l) (rq_user_id req) (rq_currency req)"
    using reserve_answer[OF assms(1,2) fit assms(5)] assms(4,6) by (simp add: claim_for_def)
  have "book_of l'' = book_of l"
    unfolding b2 b1 using assms(4) ok
    by (intro book_eqI) (auto simp: a_reserve_def a_release_def a_res_def a_avail_def bump_def
        claim_for_def)
  moreover have "tx \<longrightarrow> e1 = [ReserveTx (rq_user_id req) (rq_currency req) (rq_amount req)
      (rq_reservation_id req)]
    \<and> e2 = [ReleaseTx (rq_user_id req) (rq_currency req) (rq_amount req) (rq_reservation_id req)]"
    using assms(4-7) by (auto simp: ReserveFunds_def ReleaseFunds_def Let_def split: if_splits)
  ultimately show ?thesis by blast
qed

theorem release_undoes_reserve_witness:
  "book_of (fst (ReleaseFunds False ''o1'' ex_l1)) = book_of ex_l0"
proof -
  obtain r1 l1 e1 where 1: "ReserveFunds False ex_req ex_l0 = (r1, l1, e1)"
    by (metis prod_cases3)
  obtain l2 e2 where 2: "ReleaseFunds False (rq_reservation_id ex_req) l1 = (l2, e2)"
    by fastforce
  have fit: "1000000000000 + 10000000000 + max 0 10000000000 \<le> max_units" by simp
  have f: "find (lg_reservations ex_l0) (rq_reservation_id ex_req) = None"
    by (simp add: ex_l0_def empty_ledger_def)
  have ok: "rp_success r1" using ex_reserved 1 by simp
  show ?thesis
    using release_undoes_reserve[OF ex_l0_range ex_req_grid fit f 1 ok 2] 1 2
    by (simp add: ex_l1_def ex_req_def)
qed

end
