(* ===== verification/Ledger_Consumers.thy ===== *)
theory Ledger_Consumers
  imports Ledger_Accounts
begin

text \<open>
  The batch and group consumers of the ledger as instances of the idempotent consumer, and
  what a grouped execution does to the accounts.
\<close>

section \<open>The batch consumer with its table of processed batches\<close>

text \<open>
  \<open>PostgresIdempotencyRepository\<close>: the table \<open>processed_batches\<close> as the list of its keys;
  \<open>MarkBatchProcessed\<close> inserts with \<open>on conflict do nothing\<close>. The database is taken to
  answer: \<open>IsBatchProcessed\<close> returns \<open>false\<close> when it does not.
\<close>

definition IsBatchProcessed :: "string list \<Rightarrow> string \<Rightarrow> bool" where
  "IsBatchProcessed tbl bid \<longleftrightarrow> bid \<in> set tbl"

definition run_effect :: "batch_effect \<Rightarrow> string list \<Rightarrow> string list" where
  "run_effect e tbl = (case e of MarkBatchProcessed bid \<Rightarrow> List.insert bid tbl | _ \<Rightarrow> tbl)"

definition consume_batch ::
    "ledger_ports \<Rightarrow> int \<Rightarrow> ledger \<times> string list \<Rightarrow> batch_result \<Rightarrow> ledger \<times> string list" where
  "consume_batch ports t s b =
     (let (ok, l, effs) = ApplyBatchResult ports (IsBatchProcessed (snd s)) t b (fst s)
      in (l, fold run_effect effs (snd s)))"

lemma run_effects_mono: "set tbl \<subseteq> set (fold run_effect effs tbl)"
proof (induction effs arbitrary: tbl)
  case (Cons e es)
  have "set tbl \<subseteq> set (run_effect e tbl)" by (cases e) (auto simp: run_effect_def)
  with Cons[of "run_effect e tbl"] show ?case by auto
qed simp

lemma run_effects_mark: "MarkBatchProcessed bid \<in> set effs \<Longrightarrow> bid \<in> set (fold run_effect effs tbl)"
proof (induction effs arbitrary: tbl)
  case (Cons e es)
  show ?case
  proof (cases "e = MarkBatchProcessed bid")
    case True
    then have "bid \<in> set (run_effect e tbl)" by (simp add: run_effect_def)
    then show ?thesis using run_effects_mono[of "run_effect e tbl" es] by auto
  qed (use Cons in auto)
qed simp

definition with_repo :: "ledger_ports \<Rightarrow> ledger_ports" where
  "with_repo ports = ports\<lparr>lp_idempotency_repo := True\<rparr>"

lemma batch_marks:
  "\<not> processed (br_batch_id b) \<Longrightarrow>
   MarkBatchProcessed (br_batch_id b) \<in> set (snd (snd (ApplyBatchResult (with_repo ports) processed t b l)))"
  by (simp add: ApplyBatchResult_def with_repo_def Let_def case_prod_beta)

interpretation batches: idempotent_consumer
  "consume_batch (with_repo ports) t" "\<lambda>s bid. bid \<in> set (snd s)" br_batch_id "\<lambda>s. s" for ports t
proof
  fix s m
  show "br_batch_id m \<in> set (snd (consume_batch (with_repo ports) t s m))"
  proof (cases "IsBatchProcessed (snd s) (br_batch_id m)")
    case True
    then show ?thesis
      by (simp add: consume_batch_def ApplyBatchResult_def with_repo_def IsBatchProcessed_def Let_def)
  next
    case False
    from run_effects_mark[OF batch_marks[of "IsBatchProcessed (snd s)", OF False]] show ?thesis
      by (simp add: consume_batch_def case_prod_beta)
  qed
  assume "br_batch_id m \<in> set (snd s)"
  then show "consume_batch (with_repo ports) t s m = s"
    by (simp add: consume_batch_def ApplyBatchResult_def with_repo_def IsBatchProcessed_def Let_def)
next
  fix s :: "ledger \<times> string list" and k m
  assume "k \<in> set (snd s)"
  then show "k \<in> set (snd (consume_batch (with_repo ports) t s m))"
    using run_effects_mono by (fastforce simp: consume_batch_def case_prod_beta)
qed

text \<open>Redelivery of batches is harmless. With the table of processed batches wired, any
  sequence of batches already applied can be delivered again, in any order and any number of
  times, without changing the ledger or the table.\<close>

theorem batch_redelivery_harmless:
  assumes "set again \<subseteq> set bs"
  shows "fold (\<lambda>b s. consume_batch (with_repo ports) t s b) again
      (fold (\<lambda>b s. consume_batch (with_repo ports) t s b) bs s)
    = fold (\<lambda>b s. consume_batch (with_repo ports) t s b) bs s"
  by (rule batches.replay[OF assms])

theorem batch_redelivery_harmless_witness:
  "consume_batch (with_repo ex_ports) 0 (consume_batch (with_repo ex_ports) 0 (ex_l1, []) ex_batch) ex_batch
    = consume_batch (with_repo ex_ports) 0 (ex_l1, []) ex_batch
   \<and> fst (consume_batch (with_repo ex_ports) 0 (ex_l1, []) ex_batch) \<noteq> ex_l1"
proof
  show "consume_batch (with_repo ex_ports) 0 (consume_batch (with_repo ex_ports) 0 (ex_l1, []) ex_batch) ex_batch
    = consume_batch (with_repo ex_ports) 0 (ex_l1, []) ex_batch"
    using batch_redelivery_harmless[of "[ex_batch]" "[ex_batch]" ex_ports 0 "(ex_l1, [])"] by simp
  have p: "to_process ex_ports (\<lambda>_. False) ex_batch" by (simp add: to_process_def)
  have "fst (consume_batch (with_repo ex_ports) 0 (ex_l1, []) ex_batch) =
      batch_ledger ex_ports (\<lambda>_. False) 0 ex_batch ex_l1"
    by (simp add: consume_batch_def batch_ledger_def IsBatchProcessed_def with_repo_def
        ex_ports_def ApplyBatchResult_def case_prod_beta)
  moreover have "lg_reservations (batch_ledger ex_ports (\<lambda>_. False) 0 ex_batch ex_l1) \<noteq> lg_reservations ex_l1"
  proof -
    have "''o1'' \<in> set (closed_ids (br_order_updates ex_batch))"
      by (simp add: ex_batch_def ex_update_def closed_ids_def is_terminal_order_status_def)
    from closed_gone[OF p ex_l1_range ex_fits this, of 0] show ?thesis
      by (metis ex_open option.distinct(1))
  qed
  ultimately show "fst (consume_batch (with_repo ex_ports) 0 (ex_l1, []) ex_batch) \<noteq> ex_l1" by auto
qed

section \<open>The group consumer\<close>

definition group_key :: "execution_group \<Rightarrow> string option" where
  "group_key eg = (if eg_leg_results eg = [] then None else Some (eg_execution_group_id eg))"

lemma update_position_seen_groups [simp]:
  "lg_seen_groups (update_position_for_fill u i sd q p l) = lg_seen_groups l"
  "lg_seen_groups (upd_available f u c l) = lg_seen_groups l"
  by (simp_all add: update_position_for_fill_def set_position_def upd_available_def set_balance_def Let_def)

lemma apply_leg_seen_groups [simp]: "lg_seen_groups (apply_leg u lr l) = lg_seen_groups l"
  by (simp add: apply_leg_def settle_leg_def Let_def split: option.splits side.splits)

lemma apply_legs_seen_groups [simp]: "lg_seen_groups (fold (apply_leg u) lrs l) = lg_seen_groups l"
  by (induction lrs arbitrary: l) simp_all

interpretation groups: idempotent_consumer
  "\<lambda>l eg. ApplyExecutionGroup eg l"
  "\<lambda>l k. case k of None \<Rightarrow> True | Some i \<Rightarrow> i \<in> set (lg_seen_groups l)" group_key "\<lambda>l. l"
  by unfold_locales
     (auto simp: ApplyExecutionGroup_def group_key_def split: option.splits if_splits)

text \<open>Redelivery of grouped executions is harmless: groups already applied can be delivered
  again in any order and any number of times without changing the ledger.\<close>

theorem group_redelivery_harmless:
  assumes "set again \<subseteq> set egs"
  shows "fold ApplyExecutionGroup again (fold ApplyExecutionGroup egs l) = fold ApplyExecutionGroup egs l"
  using groups.replay[OF assms] by simp

text \<open>The double entry of one leg: nothing when the symbol has no base or no quote.\<close>

definition leg_entry :: "string \<Rightarrow> leg_result \<Rightarrow> string \<Rightarrow> string \<Rightarrow> rat" where
  "leg_entry user lr u c =
     (case split_symbol (lr_instrument_symbol lr) of
        None \<Rightarrow> 0
      | Some (base, quote) \<Rightarrow>
          if u \<noteq> user then 0
          else (let d = (case lr_side lr of SIDE_BUY \<Rightarrow> 1 | SIDE_SELL \<Rightarrow> -1 | SIDE_UNSPECIFIED \<Rightarrow> 0)
                in (if c = base then d * dval (lr_exec_qty lr) else 0)
                   - (if c = quote then d * dval (leg_notional lr) else 0)))"

definition leg_range :: "nat \<Rightarrow> int \<Rightarrow> leg_result \<Rightarrow> bool" where
  "leg_range s n lr \<longleftrightarrow> grid s n (lr_exec_qty lr) \<and> grid s n (leg_notional lr)"

lemma book_of_seen [simp]: "book_of (l\<lparr>lg_seen_groups := x\<rparr>) = book_of l"
  by (simp add: book_of_def balance_of_def)

lemma in_range_seen [simp]: "in_range s m k (l\<lparr>lg_seen_groups := x\<rparr>) = in_range s m k l"
  by (simp add: in_range_def balance_of_def)

lemma apply_leg_refines:
  assumes r: "in_range s m k l" and g: "leg_range s n lr" and fit: "m + n + n \<le> max_units"
  shows "bk_res (book_of (apply_leg user lr l)) = bk_res (book_of l)
    \<and> bk_open (book_of (apply_leg user lr l)) = bk_open (book_of l)
    \<and> bk_avail (book_of (apply_leg user lr l)) u c = bk_avail (book_of l) u c + leg_entry user lr u c
    \<and> in_range s (m + n + n) k (apply_leg user lr l)"
proof -
  have q: "grid s n (lr_exec_qty lr)" "grid s n (leg_notional lr)" using g by (auto simp: leg_range_def)
  have n: "0 \<le> n" by (rule grid_nonneg[OF q(1)])
  define l0 where "l0 = update_position_for_fill user (lr_instrument_symbol lr) (lr_side lr)
    (lr_exec_qty lr) (lr_exec_price lr) l"
  have b0: "book_of l0 = book_of l" by (rule book_of_cong) (simp_all add: l0_def)
  have r0: "in_range s m k l0"
    using r in_range_cong[of l0 l s m k] by (simp add: l0_def)
  have grown: "in_range s (m + n + n) k l0" by (rule in_range_mono[OF r0]) (use n in auto)
  have fit1: "m + n \<le> max_units" using fit n by simp
  note s1 = avail_sub[OF r0 _ fit1] and a1 = avail_add[OF r0 _ fit1]
  note s2 = avail_add[OF avail_sub(2)[OF r0 _ fit1] _ fit]
  have "apply_leg user lr l = settle_leg user lr l0" by (simp add: apply_leg_def l0_def)
  then show ?thesis
    using q grown s1 s2
    by (cases "lr_side lr")
       (auto simp: settle_leg_def leg_entry_def Let_def b0[symmetric] a_avail_def bump_def
          simp del: book_of_sel split: option.splits)
qed

lemma apply_legs_refine:
  assumes "in_range s m k l" "\<forall>lr \<in> set lrs. leg_range s n lr" "0 \<le> n"
    and "m + 2 * int (length lrs) * n \<le> max_units"
  shows "bk_res (book_of (fold (apply_leg user) lrs l)) = bk_res (book_of l)
    \<and> bk_open (book_of (fold (apply_leg user) lrs l)) = bk_open (book_of l)
    \<and> bk_avail (book_of (fold (apply_leg user) lrs l)) u c
        = bk_avail (book_of l) u c + (\<Sum>lr \<leftarrow> lrs. leg_entry user lr u c)"
  using assms
proof (induction lrs arbitrary: l m)
  case Nil
  then show ?case by simp
next
  case (Cons lr lrs)
  have len: "2 * int (length (lr # lrs)) * n = n + n + 2 * int (length lrs) * n"
    by (simp add: algebra_simps)
  have "0 \<le> 2 * int (length lrs) * n" using Cons.prems(3) by simp
  with Cons.prems(4) have fit: "m + n + n \<le> max_units" unfolding len by linarith
  have g: "leg_range s n lr" using Cons.prems(2) by simp
  note step = apply_leg_refines[OF Cons.prems(1) g fit, of user u c]
  have r: "in_range s (m + n + n) k (apply_leg user lr l)" using step by blast
  have fit2: "m + n + n + 2 * int (length lrs) * n \<le> max_units" using Cons.prems(4) unfolding len by linarith
  from Cons.IH[OF r _ Cons.prems(3) fit2] Cons.prems(2) step show ?case by auto
qed

text \<open>A grouped execution settles from available funds only. The first delivery of a group
  moves, leg by leg, quantity and notional (the reported one, or quantity times price when it
  is not positive) between the owner's available base and quote balances, with the signs of
  the leg's side; legs whose symbol lacks a base or a quote move nothing; reserved balances
  and reservations are untouched, for every number of legs that fits 64 bits.\<close>

theorem group_settles_from_available:
  assumes "in_range s m k l" "\<forall>lr \<in> set (eg_leg_results eg). leg_range s n lr" "0 \<le> n"
    and "m + 2 * int (length (eg_leg_results eg)) * n \<le> max_units"
    and "eg_execution_group_id eg \<notin> set (lg_seen_groups l)"
  defines "b \<equiv> book_of l" and "b' \<equiv> book_of (ApplyExecutionGroup eg l)"
  shows "bk_res b' = bk_res b \<and> bk_open b' = bk_open b \<and>
    bk_avail b' u c = bk_avail b u c + (\<Sum>lr \<leftarrow> eg_leg_results eg. leg_entry (eg_user_id eg) lr u c)"
proof (cases "eg_leg_results eg = []")
  case True
  then show ?thesis by (simp add: b_def b'_def ApplyExecutionGroup_def)
next
  case False
  then show ?thesis
    using apply_legs_refine[of s m k "l\<lparr>lg_seen_groups := eg_execution_group_id eg # lg_seen_groups l\<rparr>"
        "eg_leg_results eg" n "eg_user_id eg" u c] assms(1-5)
    by (simp add: b_def b'_def ApplyExecutionGroup_def)
qed

definition ex_group :: execution_group where
  "ex_group = \<lparr>eg_execution_group_id = ''g1'', eg_batch_id = ''b1'', eg_parent_order_id = ''c1'', eg_user_id = ''bob'',
     eg_leg_results = [\<lparr>lr_leg_id = ''l1'', lr_instrument_symbol = ''BTC/USDT'', lr_side = SIDE_BUY,
       lr_exec_qty = mk_dec 2 0, lr_exec_price = mk_dec 300 0, lr_exec_notional = mk_dec 600 0\<rparr>,
      \<lparr>lr_leg_id = ''l2'', lr_instrument_symbol = ''ETH/USDT'', lr_side = SIDE_SELL,
       lr_exec_qty = mk_dec 3 0, lr_exec_price = mk_dec 100 0, lr_exec_notional = mk_dec 300 0\<rparr>]\<rparr>"

theorem group_redelivery_harmless_witness:
  "fold ApplyExecutionGroup [ex_group, ex_group] (fold ApplyExecutionGroup [ex_group] ex_l0)
    = fold ApplyExecutionGroup [ex_group] ex_l0"
  by (rule group_redelivery_harmless) simp

theorem group_settles_from_available_witness:
  "bk_avail (book_of (ApplyExecutionGroup ex_group ex_l0)) ''bob'' ''USDT'' = 9700"
proof -
  have "\<forall>lr \<in> set (eg_leg_results ex_group). leg_range 8 60000000000 lr"
    by (simp add: ex_group_def leg_range_def leg_notional_def grid_def at_scale_def dcmp_def
        align_units_i128_def)
  from group_settles_from_available[OF ex_l0_range this, of "''bob''" "''USDT''"]
  show ?thesis
    by (simp add: ex_group_def leg_entry_def split_symbol_def leg_notional_def dcmp_def
        align_units_i128_def ex_l0_def set_balance_def empty_ledger_def)
       (simp add: balance_of_def)
qed

end
