(* ===== verification/Ledger_Position.thy ===== *)
theory Ledger_Position
  imports Ledger_Accounts
begin

text \<open>
  The signed position of the ledger (\<open>apply_signed_fill\<close>): the amount is exact, the average
  entry price is the volume weighted mean and the realised profit the textbook one, each up
  to half a unit of its last decimal place.
\<close>

section \<open>Rescaling of bounded amounts\<close>

lemma rescale_eq:
  assumes "wf_dec v" "0 \<le> t" "t \<le> 18"
  shows "rescale v t = (if scale v = t then v else normalize_i128 (round_away (dval v * 10 ^ nat t)) t)"
proof (cases "scale v = t")
  case False
  have "wf_dec (mk_dec 1 0)" by (simp add: wf_dec_def in_i64_def)
  then have "ddiv_nz v (mk_dec 1 0) t
      = normalize_i128 (round_away (dval v / dval (mk_dec 1 0) * 10 ^ nat t)) t"
    by (rule ddiv_nz_round_away[OF assms(1)]) (use assms in \<open>auto simp: wf_dec_def\<close>)
  with False show ?thesis by (simp add: rescale_def)
qed (simp add: rescale_def)

text \<open>Rescaling to at least the scale of the amount is exact.\<close>

lemma rescale_exact:
  assumes "grid t m v" "m \<le> max_units"
  shows "dval (rescale v (int t)) = dval v" "grid t m (rescale v (int t))"
    "scale (rescale v (int t)) = int t"
proof -
  have wf: "wf_dec v" by (rule grid_wf[OF assms])
  have t: "0 \<le> int t" "int t \<le> 18" using assms(1) by (auto simp: grid_def)
  have v: "dval v * 10 ^ t = of_int (at_scale t v)" by (simp add: dval_grid[OF assms(1)])
  have i: "in_i64 (at_scale t v)" using assms by (intro in_i64_abs) (simp add: grid_def)
  have e: "rescale v (int t) = (if scale v = int t then v else mk_dec (at_scale t v) (int t))"
    using rescale_eq[OF wf t] by (simp add: v normalize_i128_id[OF i])
  show "dval (rescale v (int t)) = dval v" by (simp add: e dval_grid[OF assms(1)])
  show "grid t m (rescale v (int t))" using assms(1) by (simp add: e grid_def at_scale_mk)
  show "scale (rescale v (int t)) = int t" by (simp add: e)
qed

text \<open>Rescaling to fewer places rounds half up: the error is at most half a unit.\<close>

lemma rescale_error:
  assumes "wf_dec v" "t \<le> 18" "\<bar>dval v\<bar> * 10 ^ t \<le> of_int m" "m + 1 \<le> max_units"
  shows "\<bar>dval (rescale v (int t)) - dval v\<bar> \<le> 1 / (2 * 10 ^ t)" "grid t (m + 1) (rescale v (int t))"
proof -
  let ?x = "dval v * 10 ^ t"
  define e where "e = of_int (round_away ?x) - ?x"
  have err: "\<bar>e\<bar> \<le> 1 / 2" unfolding e_def by (rule round_away_error)
  have x: "\<bar>?x\<bar> \<le> of_int m" using assms(3) by (simp add: abs_mult)
  with err have "\<bar>of_int (round_away ?x) :: rat\<bar> \<le> of_int (m + 1)"
    unfolding e_def abs_le_iff by (simp only: of_int_add of_int_1) linarith
  then have b: "\<bar>round_away ?x\<bar> \<le> m + 1" by linarith
  with assms(4) have i: "in_i64 (round_away ?x)" by (intro in_i64_abs) linarith
  have r: "rescale v (int t) = (if scale v = int t then v else mk_dec (round_away ?x) (int t))"
    using rescale_eq[OF assms(1), of "int t"] assms(2) by (simp add: normalize_i128_id[OF i])
  have "dval (mk_dec (round_away ?x) (int t)) - dval v = e / 10 ^ t"
    by (simp add: field_simps e_def)
  moreover have "\<bar>e / 10 ^ t\<bar> \<le> 1 / (2 * 10 ^ t)"
    using divide_right_mono[OF err, of "10 ^ t"] by (simp add: abs_divide)
  ultimately show "\<bar>dval (rescale v (int t)) - dval v\<bar> \<le> 1 / (2 * 10 ^ t)"
    by (simp add: r)
  have "dval v * 10 ^ t = of_int (units v)" if "scale v = int t"
    using that by (simp add: dval_def)
  then have "\<bar>units v\<bar> \<le> m" if "scale v = int t"
    using that x by (metis of_int_abs of_int_le_iff)
  with b assms(2) show "grid t (m + 1) (rescale v (int t))"
    by (auto simp: r grid_def at_scale_def)
qed

section \<open>The amount\<close>

definition fill_sign :: "side \<Rightarrow> rat" where
  "fill_sign sd = (case sd of SIDE_BUY \<Rightarrow> 1 | SIDE_SELL \<Rightarrow> -1 | SIDE_UNSPECIFIED \<Rightarrow> 0)"

definition signed_qty :: "int \<Rightarrow> decimal \<Rightarrow> rat" where
  "signed_qty dir q = (if dval q \<le> 0 then 0 else if 0 \<le> dir then dval q else - dval q)"

lemma po_amount_increase [simp]:
  "po_amount (increase_position p sg sf q price) = rescale (dadd (po_amount p) sf) 8"
  by (simp add: increase_position_def Let_def)

lemma po_amount_reduce [simp]:
  "po_amount (reduce_position p sg sf q price) =
     (let n = rescale (dadd (po_amount p) sf) 8 in if dcmp n dzero = 0 then mk_dec 0 8 else n)"
  by (cases p) (simp add: reduce_position_def Let_def)

lemma signed_amount:
  fixes dir :: int
  assumes "grid 8 A a" "grid 8 Q q" "A + Q \<le> max_units" "0 < dval q"
  defines "x \<equiv> (if 0 \<le> dir then q else dneg q)"
  shows "dval (rescale (dadd a x) 8) = dval a + signed_qty dir q"
    and "grid 8 (A + Q) (rescale (dadd a x) 8)"
proof -
  have "0 \<le> A" using assms(1) by (rule grid_nonneg)
  with assms(3) have Q: "Q \<le> max_units" by simp
  have x: "grid 8 Q x" "dval x = signed_qty dir q"
    using assms(2,4) grid_dneg[OF assms(2) Q] by (auto simp: x_def signed_qty_def)
  note add = grid_add[OF assms(1) x(1) assms(3)]
  note r = rescale_exact[OF add(2) assms(3)]
  show "dval (rescale (dadd a x) 8) = dval a + signed_qty dir q" using r(1) add(1) x(2) by simp
  show "grid 8 (A + Q) (rescale (dadd a x) 8)" using r(2) by simp
qed

lemma apply_signed_fill_amount:
  assumes "grid 8 A (po_amount p)" "grid 8 Q q" "A + Q \<le> max_units"
  shows "dval (po_amount (apply_signed_fill p dir q price)) = dval (po_amount p) + signed_qty dir q"
    and "grid 8 (A + Q) (po_amount (apply_signed_fill p dir q price))"
proof -
  have nn: "0 \<le> A" "0 \<le> Q" using assms(1,2) by (auto intro: grid_nonneg)
  have lims: "A \<le> max_units" "Q \<le> max_units" using assms(3) nn by auto
  have z: "grid 8 0 dzero" by simp
  have cmpq: "dcmp q dzero \<le> 0 \<longleftrightarrow> dval q \<le> 0"
    using grid_cmp(3)[OF assms(2) z lims(2)] by simp
  show "dval (po_amount (apply_signed_fill p dir q price)) = dval (po_amount p) + signed_qty dir q"
    and "grid 8 (A + Q) (po_amount (apply_signed_fill p dir q price))"
  proof (atomize (full), cases "dval q \<le> 0")
    case True
    then show "dval (po_amount (apply_signed_fill p dir q price)) = dval (po_amount p) + signed_qty dir q
      \<and> grid 8 (A + Q) (po_amount (apply_signed_fill p dir q price))"
      using assms(1) nn by (auto simp: apply_signed_fill_def cmpq signed_qty_def intro: grid_mono)
  next
    case False
    then have q: "0 < dval q" by simp
    note sa = signed_amount[OF assms q, of dir]
    let ?n = "rescale (dadd (po_amount p) (if 0 \<le> dir then q else dneg q)) 8"
    have wf: "wf_dec ?n" by (rule grid_wf[OF sa(2) assms(3)])
    have nz: "dcmp ?n dzero = 0 \<longleftrightarrow> dval ?n = 0" using dcmp_iffs(3)[OF wf wf_dzero] by simp
    let ?p' = "apply_signed_fill p dir q price"
    have "po_amount ?p' = ?n \<or> (dcmp ?n dzero = 0 \<and> po_amount ?p' = mk_dec 0 8)"
      using False by (simp add: apply_signed_fill_def cmpq Let_def)
    then have "dval (po_amount ?p') = dval ?n \<and> grid 8 (A + Q) (po_amount ?p')"
      using nz sa(2) nn by (elim disjE conjE) (simp_all add: grid_def at_scale_mk)
    with sa(1) show "dval (po_amount ?p') = dval (po_amount p) + signed_qty dir q
      \<and> grid 8 (A + Q) (po_amount ?p')" by simp
  qed
qed

section \<open>Entry price and realised profit\<close>

text \<open>Amounts within \<open>A\<close> and \<open>Q\<close> units of \<open>10 ^ -8\<close>, prices within \<open>P\<close> units of \<open>10 ^ - sp\<close>, the
  profit so far within \<open>R\<close> cents, and products that fit 64 bits.\<close>

definition pos_fits :: "nat \<Rightarrow> int \<Rightarrow> int \<Rightarrow> int \<Rightarrow> int \<Rightarrow> position \<Rightarrow> decimal \<Rightarrow> decimal \<Rightarrow> bool" where
  "pos_fits sp A Q P R p q price \<longleftrightarrow>
     grid 8 A (po_amount p) \<and> grid 8 Q q \<and> grid sp P (po_avg_entry_price p) \<and> grid sp P price \<and>
     grid 2 R (po_realised_pnl p) \<and> sp \<le> 10 \<and> A + Q \<le> max_units \<and>
     2 * P * (A + Q) + R + 1 \<le> max_units \<and> 100 * P + 1 \<le> max_units"

lemma pos_fitsD:
  assumes "pos_fits sp A Q P R p q price"
  shows "grid 8 A (po_amount p)" "grid 8 Q q" "grid sp P (po_avg_entry_price p)" "grid sp P price"
    "grid 2 R (po_realised_pnl p)" "sp \<le> 10" "A + Q \<le> max_units" "100 * P + 1 \<le> max_units"
    "2 * P * (A + Q) + R + 1 \<le> max_units"
    "0 \<le> A" "0 \<le> Q" "0 \<le> P" "0 \<le> R" "A \<le> max_units" "Q \<le> max_units" "P \<le> max_units"
proof -
  show g: "grid 8 A (po_amount p)" "grid 8 Q q" "grid sp P (po_avg_entry_price p)" "grid sp P price"
    "grid 2 R (po_realised_pnl p)" "sp \<le> 10" "A + Q \<le> max_units" "100 * P + 1 \<le> max_units"
    "2 * P * (A + Q) + R + 1 \<le> max_units"
    using assms unfolding pos_fits_def by blast+
  show nn: "0 \<le> A" "0 \<le> Q" "0 \<le> P" "0 \<le> R"
    using g(1-5) grid_nonneg by blast+
  show "A \<le> max_units" "Q \<le> max_units" "P \<le> max_units" using g(7,8) nn by linarith+
qed

text \<open>\<open>|amount|\<close> as the code computes it.\<close>

lemma abs_grid:
  assumes "grid 8 A a" "A \<le> max_units"
  defines "x \<equiv> (if dcmp a dzero < 0 then dneg a else a)"
  shows "grid 8 A x" "dval x = \<bar>dval a\<bar>"
proof -
  have z: "grid 8 0 dzero" by simp
  have "dcmp a dzero < 0 \<longleftrightarrow> dval a < 0" using grid_cmp(1)[OF assms(1) z assms(2)] by simp
  then show "grid 8 A x" "dval x = \<bar>dval a\<bar>"
    using assms(1) grid_dneg[OF assms(1,2)] by (auto simp: x_def)
qed

lemma weighted_mean_bound:
  fixes x q a p M :: rat
  assumes "0 \<le> x" "0 < q" "\<bar>a\<bar> \<le> M" "\<bar>p\<bar> \<le> M"
  shows "\<bar>(x * a + q * p) / (x + q)\<bar> \<le> M"
proof -
  have "\<bar>x * a + q * p\<bar> \<le> \<bar>x * a\<bar> + \<bar>q * p\<bar>" by (rule abs_triangle_ineq)
  also have "\<dots> \<le> x * M + q * M"
    using assms by (intro add_mono) (simp_all add: abs_mult mult_left_mono)
  finally have "\<bar>x * a + q * p\<bar> \<le> M * (x + q)" by (simp add: algebra_simps)
  moreover have "0 < x + q" using assms by simp
  ultimately show ?thesis by (simp add: abs_divide field_simps)
qed

lemma increase_average:
  fixes sf :: decimal
  assumes f: "pos_fits sp A Q P R p q price" and q: "0 < dval q"
    and sg: "sg = dcmp (po_amount p) dzero"
  defines "p' \<equiv> increase_position p sg sf q price"
  shows "po_realised_pnl p' = po_realised_pnl p"
    and "\<bar>dval (po_avg_entry_price p') -
      (\<bar>dval (po_amount p)\<bar> * dval (po_avg_entry_price p) + dval q * dval price)
        / (\<bar>dval (po_amount p)\<bar> + dval q)\<bar> \<le> 1 / 200"
proof -
  note g = pos_fitsD[OF f]
  define x where "x = (if dcmp (po_amount p) dzero < 0 then dneg (po_amount p) else po_amount p)"
  note ab = abs_grid[OF g(1) g(14), folded x_def]
  have le: "(A + Q) * P \<le> max_units" "0 \<le> A * P" "0 \<le> Q * P"
  proof -
    show "0 \<le> A * P" "0 \<le> Q * P" using g(10-12) by auto
    then have "0 \<le> (A + Q) * P" by (simp add: distrib_right)
    then have "(A + Q) * P \<le> 2 * P * (A + Q)" by (simp add: algebra_simps)
    then show "(A + Q) * P \<le> max_units" using g(9,13) by linarith
  qed
  then have fits: "A * P + Q * P \<le> max_units" "A * P \<le> max_units" "Q * P \<le> max_units"
    unfolding distrib_right by linarith+
  have s: "8 + sp \<le> 18" using g(6) by simp
  note m1 = grid_mul[OF ab(1) g(3) s g(14) g(16) fits(2)]
  note m2 = grid_mul[OF g(2) g(4) s g(15) g(16) fits(3)]
  note tv = grid_add[OF m1(2) m2(2) fits(1)]
  note ta = grid_add[OF ab(1) g(2) g(7)]
  let ?tv = "dadd (dmul x (po_avg_entry_price p)) (dmul q price)" and ?ta = "dadd x q"
  have pos: "0 < dval ?ta" using ta(1) ab(2) q by simp
  have z: "grid 8 0 dzero" by simp
  have c: "0 < dcmp ?ta dzero" using grid_cmp(2)[OF ta(2) z g(7)] pos by simp
  have mean: "dval ?tv / dval ?ta = (\<bar>dval (po_amount p)\<bar> * dval (po_avg_entry_price p)
      + dval q * dval price) / (\<bar>dval (po_amount p)\<bar> + dval q)"
    by (simp add: tv(1) m1(1) m2(1) ta(1) ab(2))
  have "\<bar>dval ?tv / dval ?ta\<bar> \<le> of_int P"
    unfolding mean by (rule weighted_mean_bound) (use q grid_dval_bound'[OF g(3)] grid_dval_bound'[OF g(4)] in auto)
  moreover have "of_int P * 10 ^ nat 2 \<le> (9223372036854775806 :: rat)"
  proof -
    have "of_int (100 * P) \<le> (of_int 9223372036854775806 :: rat)" using g(8) by (intro of_int_le_iff[THEN iffD2]) linarith
    then show ?thesis by simp
  qed
  ultimately have small: "\<bar>dval ?tv / dval ?ta\<bar> * 10 ^ nat 2 \<le> 9223372036854775806"
    by - (rule order_trans[OF mult_right_mono], auto)
  have nz: "units ?ta \<noteq> 0" using pos by (auto simp: dval_def)
  have sc: "2 - scale ?tv + scale ?ta \<le> 18" using tv(2) ta(2) by (simp add: grid_def)
  note d = ddiv_nz_half_unit(3)[OF grid_wf[OF tv(2) fits(1)] grid_wf[OF ta(2) g(7)] nz _ _ sc small]
  have "po_avg_entry_price p' = ddiv_nz ?tv ?ta 2"
    using c by (simp add: p'_def increase_position_def Let_def x_def sg)
  with d mean show "\<bar>dval (po_avg_entry_price p') -
      (\<bar>dval (po_amount p)\<bar> * dval (po_avg_entry_price p) + dval q * dval price)
        / (\<bar>dval (po_amount p)\<bar> + dval q)\<bar> \<le> 1 / 200"
    by simp
  show "po_realised_pnl p' = po_realised_pnl p" by (simp add: p'_def increase_position_def Let_def)
qed

lemma reduce_pnl:
  fixes sf :: decimal
  assumes f: "pos_fits sp A Q P R p q price" and q: "0 < dval q"
    and sg: "sg = dcmp (po_amount p) dzero" and nonflat: "dval (po_amount p) \<noteq> 0"
  defines "p' \<equiv> reduce_position p sg sf q price"
  shows "\<bar>dval (po_realised_pnl p') - (dval (po_realised_pnl p) + sgn (dval (po_amount p))
      * (dval price - dval (po_avg_entry_price p)) * min (dval q) \<bar>dval (po_amount p)\<bar>)\<bar> \<le> 1 / 200"
proof -
  note g = pos_fitsD[OF f]
  define x where "x = (if dcmp (po_amount p) dzero < 0 then dneg (po_amount p) else po_amount p)"
  note ab = abs_grid[OF g(1) g(14), folded x_def]
  have z: "grid 8 0 dzero" by simp
  have sgp: "0 < sg \<longleftrightarrow> 0 < dval (po_amount p)"
    using grid_cmp(2)[OF g(1) z g(14)] by (simp add: sg)
  define diff where "diff = (if 0 < sg then dsub price (po_avg_entry_price p) else dsub (po_avg_entry_price p) price)"
  have pp: "P + P \<le> max_units" using g(8,12) by linarith
  have diff: "grid sp (P + P) diff"
    "dval diff = sgn (dval (po_amount p)) * (dval price - dval (po_avg_entry_price p))"
    using grid_sub[OF g(3,4) pp] grid_sub[OF g(4,3) pp] nonflat sgp
    by (auto simp: diff_def sgn_if)
  note cl = dmin_grid[OF g(2) ab(1) g(15) g(14)]
  have mm: "max Q A \<le> A + Q" "max Q A \<le> max_units" using g(10,11,14,15) by auto
  have "(P + P) * max Q A \<le> (P + P) * (A + Q)" using mm g(12) by (intro mult_left_mono) auto
  then have fit: "(P + P) * max Q A + R + 1 \<le> max_units" using g(9) by (simp add: algebra_simps)
  then have fit': "(P + P) * max Q A \<le> max_units" using g(13) by linarith
  have s: "sp + 8 \<le> 18" using g(6) by simp
  note mu = grid_mul[OF diff(1) cl(2) s pp mm(2) fit']
  let ?m = "dmul diff (dmin q x)"
  have "\<bar>dval ?m\<bar> \<le> of_int ((P + P) * max Q A) / 10 ^ (sp + 8)" by (rule grid_dval_bound[OF mu(2)])
  then have "\<bar>dval ?m\<bar> * 10 ^ 2 \<le> of_int ((P + P) * max Q A) / 10 ^ (sp + 8) * 10 ^ 2"
    by (rule mult_right_mono) simp
  also have "\<dots> = of_int ((P + P) * max Q A) / 10 ^ (sp + 6)"
    by (simp add: power_add field_simps)
  also have "\<dots> \<le> of_int ((P + P) * max Q A) / 1"
    using g(11,12) by (intro divide_left_mono) (auto simp: zero_le_mult_iff)
  finally have b: "\<bar>dval ?m\<bar> * 10 ^ 2 \<le> of_int ((P + P) * max Q A)" by simp
  have fit2: "(P + P) * max Q A + 1 \<le> max_units" using fit g(13) by linarith
  have two: "(2::nat) \<le> 18" by simp
  note re = rescale_error[OF grid_wf[OF mu(2) fit'] two b fit2]
  have fit3: "R + ((P + P) * max Q A + 1) \<le> max_units" using fit by linarith
  note ad = grid_add[OF g(5) re(2) fit3]
  note ex = rescale_exact(1)[OF ad(2) fit3]
  have "po_realised_pnl p' = rescale (dadd (po_realised_pnl p) (rescale ?m 2)) 2"
    by (simp add: p'_def reduce_position_def Let_def diff_def x_def sg)
  then have "dval (po_realised_pnl p') = dval (po_realised_pnl p) + dval (rescale ?m 2)"
    using ex ad(1) by simp
  moreover have "dval ?m = sgn (dval (po_amount p)) * (dval price - dval (po_avg_entry_price p))
      * min (dval q) \<bar>dval (po_amount p)\<bar>"
    by (simp add: mu(1) diff(2) cl(1) ab(2))
  ultimately show ?thesis using re(1) by simp
qed

section \<open>Positions across a batch\<close>

definition net_fill :: "string \<Rightarrow> string \<Rightarrow> flow_fill \<Rightarrow> rat" where
  "net_fill u i f = (if ff_user_id f = u \<and> in_symbol (ff_instrument f) = i
     then fill_sign (ff_side f) * max 0 (dval (ff_executed_qty f)) else 0)"

abbreviation pos_amount :: "ledger \<Rightarrow> string \<Rightarrow> string \<Rightarrow> rat" where
  "pos_amount l u i \<equiv> dval (po_amount (ensure_position l u i))"

definition pos_range :: "int \<Rightarrow> ledger \<Rightarrow> bool" where
  "pos_range A l \<longleftrightarrow> (\<forall>u i. grid 8 A (po_amount (ensure_position l u i)))"

lemma ensure_position_set [simp]:
  "po_amount (ensure_position (set_position u i p l) u' i') =
     (if u' = u \<and> i' = i then (if scale (po_amount p) = 0 \<and> units (po_amount p) = 0 then dzero else po_amount p)
      else po_amount (ensure_position l u' i'))"
  by (simp add: ensure_position_def set_position_def empty_position_def)

lemma reset_val [simp]:
  "dval (if scale a = 0 \<and> units a = 0 then dzero else a) = dval a"
  "grid s m a \<Longrightarrow> grid s m (if scale a = 0 \<and> units a = 0 then dzero else a)"
  by (auto simp: dval_def grid_le_18 grid_nonneg) (simp add: dzero_def)

lemma pos_range_nonneg: "pos_range A l \<Longrightarrow> 0 \<le> A"
  unfolding pos_range_def using grid_nonneg by blast

lemma pos_range_le: "pos_range A l \<Longrightarrow> A \<le> B \<Longrightarrow> pos_range B l"
  unfolding pos_range_def by (blast intro: grid_mono)

lemma pos_range_set:
  "pos_range A l \<Longrightarrow> grid 8 A (po_amount p) \<Longrightarrow> pos_range A (set_position u i p l)"
  by (auto simp: pos_range_def grid_nonneg)

lemma pos_amount_set [simp]:
  "pos_amount (set_position u i p l) u' i' = (if u' = u \<and> i' = i then dval (po_amount p) else pos_amount l u' i')"
  by (simp add: dval_def dzero_def)

lemma charge_fee_amount:
  "dval (po_amount (ensure_position (charge_fee f l) u i)) = pos_amount l u i"
  "pos_range A l \<Longrightarrow> pos_range A (charge_fee f l)"
  by (auto simp del: ensure_position_set simp add: charge_fee_def Let_def
      split: option.splits prod.splits intro!: pos_range_set)
     (simp_all add: pos_range_def)

lemma settle_fill_position [simp]: "ensure_position (settle_fill f l) = ensure_position l"
  by (simp add: settle_fill_def consume_reservation_def Let_def split: side.splits option.splits)

lemma fill_position_amount:
  assumes "pos_range A l" "grid 8 Q (ff_executed_qty f)" "A + Q \<le> max_units"
  shows "pos_amount (fill_position f l) u i = pos_amount l u i + net_fill u i f"
    and "pos_range (A + Q) (fill_position f l)"
proof -
  let ?p = "ensure_position l (ff_user_id f) (in_symbol (ff_instrument f))"
  have g: "grid 8 A (po_amount (ensure_position l u i))" for u i
    using assms(1) by (simp add: pos_range_def)
  have Q: "0 \<le> Q" by (rule grid_nonneg[OF assms(2)])
  note s = apply_signed_fill_amount[OF g assms(2,3)]
  have w: "grid 8 (A + Q) (po_amount (ensure_position l u i))" for u i
    by (rule grid_mono[OF g]) (use Q in simp)
  show "pos_amount (fill_position f l) u i = pos_amount l u i + net_fill u i f"
    using s(1)
    by (cases "ff_side f")
       (auto simp del: ensure_position_set simp add: fill_position_def update_position_for_fill_def
          Let_def net_fill_def fill_sign_def signed_qty_def)
  show "pos_range (A + Q) (fill_position f l)"
    using s(2) w pos_range_le[OF assms(1), of "A + Q"] Q
    by (auto simp: fill_position_def update_position_for_fill_def Let_def intro!: pos_range_set
        split: side.splits)
qed

lemma apply_fills_amount:
  assumes "pos_range A l" "\<forall>f \<in> set fs. grid 8 Q (ff_executed_qty f)" "0 \<le> Q"
    and "A + int (length fs) * Q \<le> max_units"
  shows "pos_amount (fold apply_fill fs l) u i = pos_amount l u i + (\<Sum>f \<leftarrow> fs. net_fill u i f)"
  using assms
proof (induction fs arbitrary: l A)
  case Nil
  then show ?case by simp
next
  case (Cons f fs)
  have len: "int (length (f # fs)) * Q = Q + int (length fs) * Q" by (simp add: algebra_simps)
  have "0 \<le> int (length fs) * Q" using Cons.prems(3) by simp
  with Cons.prems(4) have fit: "A + Q \<le> max_units" unfolding len by linarith
  have r: "pos_range A (settle_fill f l)" using Cons.prems(1) by (simp add: pos_range_def)
  have q: "grid 8 Q (ff_executed_qty f)" using Cons.prems(2) by simp
  note step = fill_position_amount[OF r q fit]
  have "pos_amount (apply_fill f l) u i = pos_amount l u i + net_fill u i f"
    by (simp add: apply_fill_def charge_fee_amount(1) step(1))
  moreover have "pos_range (A + Q) (apply_fill f l)"
    unfolding apply_fill_def by (rule charge_fee_amount(2)[OF step(2)])
  ultimately show ?case
    using Cons.IH[of "A + Q" "apply_fill f l"] Cons.prems(2-4) len by (simp add: add.assoc)
qed

lemma release_leftovers_position [simp]:
  "ensure_position (fold release_leftover us l) = ensure_position l"
proof -
  have "ensure_position (release_leftover u l) = ensure_position l" for u l
    by (simp add: release_leftover_def Let_def split: option.splits)
  then show ?thesis by (induction us arbitrary: l) simp_all
qed

lemma persist_fills_amount [simp]:
  "pos_amount (fst (persist_fills ports bid fs l)) u i = pos_amount l u i"
proof -
  have "pos_amount (fst (persist_fill ports bid f l)) u i = pos_amount l u i" for f l
    by (simp del: ensure_position_set add: persist_fill_def Let_def)
  then show ?thesis by (induction fs arbitrary: l) (simp_all add: case_prod_beta Let_def)
qed

lemma apply_batch_amount:
  "pos_amount (apply_batch_locked b l) u i = pos_amount (fold apply_fill (br_fills b) l) u i"
  by (simp add: apply_batch_locked_def sweep_reservations_def)



text \<open>Growing a position. A fill in the direction of the position (or from flat) moves the
  amount by the fill, leaves the realised profit alone and sets the average entry price to the
  volume weighted mean of the old entry and the fill price, rounded to within half a cent.\<close>

theorem fill_grows_position:
  assumes "pos_fits sp A Q P R p q price" "0 < dval q"
    and "0 \<le> dval (po_amount p) * (if 0 \<le> dir then 1 else -1)"
  defines "p' \<equiv> apply_signed_fill p dir q price"
  shows "dval (po_amount p') = dval (po_amount p) + (if 0 \<le> dir then dval q else - dval q)
    \<and> po_realised_pnl p' = po_realised_pnl p
    \<and> \<bar>dval (po_avg_entry_price p') -
        (\<bar>dval (po_amount p)\<bar> * dval (po_avg_entry_price p) + dval q * dval price)
          / (\<bar>dval (po_amount p)\<bar> + dval q)\<bar> \<le> 1 / 200"
proof -
  note g = pos_fitsD[OF assms(1)]
  have z: "grid 8 0 dzero" by simp
  note c = grid_cmp[OF g(1) z g(14)] and cq = grid_cmp[OF g(2) z g(15)]
  have "p' = increase_position p (dcmp (po_amount p) dzero) (if 0 \<le> dir then q else dneg q) q price"
    using assms(2,3) c cq
    by (auto simp: p'_def apply_signed_fill_def Let_def not_le split: if_splits)
  with increase_average[OF assms(1,2) refl, of "if 0 \<le> dir then q else dneg q"]
    apply_signed_fill_amount(1)[OF g(1,2,7), of dir price] assms(2)
  show ?thesis by (simp add: p'_def signed_qty_def)
qed

text \<open>Reducing, closing and flipping a position. A fill against the position realises, on
  the closed volume only, the difference of price and entry with the sign of the position,
  rounded to within half a cent. The remainder keeps the entry price, a full close leaves a
  flat position with zero amount and entry, and a flip opens the other side at the fill price.\<close>

theorem fill_reduces_position:
  assumes "pos_fits sp A Q P R p q price" "0 < dval q"
    and "dval (po_amount p) * (if 0 \<le> dir then 1 else -1) < 0"
  defines "p' \<equiv> apply_signed_fill p dir q price"
    and "a \<equiv> dval (po_amount p)"
  shows "dval (po_amount p') = a + (if 0 \<le> dir then dval q else - dval q)
    \<and> \<bar>dval (po_realised_pnl p') - (dval (po_realised_pnl p)
        + sgn a * (dval price - dval (po_avg_entry_price p)) * min (dval q) \<bar>a\<bar>)\<bar> \<le> 1 / 200
    \<and> (dval q < \<bar>a\<bar> \<longrightarrow> po_avg_entry_price p' = po_avg_entry_price p)
    \<and> (dval q = \<bar>a\<bar> \<longrightarrow> po_amount p' = mk_dec 0 8 \<and> po_avg_entry_price p' = mk_dec 0 2)
    \<and> (\<bar>a\<bar> < dval q \<longrightarrow> \<bar>dval (po_avg_entry_price p') - dval price\<bar> \<le> 1 / 200)"
proof -
  note g = pos_fitsD[OF assms(1)]
  have z: "grid 8 0 dzero" by simp
  note c = grid_cmp[OF g(1) z g(14)] and cq = grid_cmp[OF g(2) z g(15)]
  let ?sf = "if 0 \<le> dir then q else dneg q"
  have nz: "a \<noteq> 0" using assms(3) by (auto simp: a_def)
  have e: "p' = reduce_position p (dcmp (po_amount p) dzero) ?sf q price"
    using assms(2,3) c cq dcmp_iffs(3)[OF grid_wf[OF g(1,14)] wf_dzero]
    by (auto simp: p'_def apply_signed_fill_def Let_def not_le mult_less_0_iff split: if_splits)
  have amt: "dval (po_amount p') = a + (if 0 \<le> dir then dval q else - dval q)"
    using apply_signed_fill_amount(1)[OF g(1,2,7), of dir price] assms(2)
    by (simp add: p'_def a_def signed_qty_def)
  have pnl: "\<bar>dval (po_realised_pnl p') - (dval (po_realised_pnl p)
        + sgn a * (dval price - dval (po_avg_entry_price p)) * min (dval q) \<bar>a\<bar>)\<bar> \<le> 1 / 200"
    unfolding e a_def using reduce_pnl[OF assms(1,2) refl] nz by (simp add: a_def)
  let ?n = "rescale (dadd (po_amount p) ?sf) 8"
  note sa = signed_amount[OF g(1,2,7) assms(2), of dir]
  have n: "dval ?n = a + (if 0 \<le> dir then dval q else - dval q)"
    using sa(1) assms(2) by (simp add: a_def signed_qty_def)
  have wfn: "wf_dec ?n" by (rule grid_wf[OF sa(2) g(7)])
  note cn = dcmp_iffs[OF wfn wf_dzero]
  have sg: "0 < dcmp (po_amount p) dzero \<longleftrightarrow> 0 < a" using c(2) by (simp add: a_def)
  have avg: "po_avg_entry_price p' = (if dval ?n = 0 then mk_dec 0 2
      else if (0 < a) = (0 < dval ?n) then po_avg_entry_price p else rescale price 2)"
    using cn sg unfolding e by (cases p) (simp add: reduce_position_def Let_def)
  have flat: "po_amount p' = mk_dec 0 8" if "dval ?n = 0"
    using that cn unfolding e by (simp add: Let_def)
  have dir: "a < 0 \<and> 0 \<le> dir \<or> 0 < a \<and> \<not> 0 \<le> dir"
    using assms(3) by (auto simp: a_def split: if_splits)
  have pr: "\<bar>dval (rescale price 2) - dval price\<bar> \<le> 1 / 200"
  proof -
    have "\<bar>dval price\<bar> * 10 ^ 2 \<le> of_int (100 * P)" using grid_dval_bound'[OF g(4)] by simp
    from rescale_error(1)[OF grid_wf[OF g(4,16)] _ this] g(8) show ?thesis by simp
  qed
  have "dval q < \<bar>a\<bar> \<longrightarrow> po_avg_entry_price p' = po_avg_entry_price p"
    using avg n dir by auto
  moreover have "dval q = \<bar>a\<bar> \<longrightarrow> po_amount p' = mk_dec 0 8 \<and> po_avg_entry_price p' = mk_dec 0 2"
    using avg n dir flat by auto
  moreover have "\<bar>a\<bar> < dval q \<longrightarrow> \<bar>dval (po_avg_entry_price p') - dval price\<bar> \<le> 1 / 200"
    using avg n dir pr assms(2) by auto
  ultimately show ?thesis using amt pnl by blast
qed

definition ex_long :: position where
  "ex_long = \<lparr>po_amount = mk_dec 200000000 8, po_avg_entry_price = mk_dec 10000 2,
     po_realised_pnl = mk_dec 0 2\<rparr>"

lemma ex_long_fits:
  "pos_fits 2 200000000 300000000 13000 0 ex_long (mk_dec 300000000 8) (mk_dec 13000 2)"
  by (simp add: pos_fits_def ex_long_def grid_def at_scale_def)

theorem fill_grows_position_witness:
  "dval (po_amount (apply_signed_fill ex_long 1 (mk_dec 300000000 8) (mk_dec 13000 2))) = 5"
  using fill_grows_position[OF ex_long_fits, of 1] by (simp add: ex_long_def)

theorem fill_reduces_position_witness:
  "dval (po_amount (apply_signed_fill ex_long (-1) (mk_dec 300000000 8) (mk_dec 13000 2))) = -1
   \<and> \<bar>dval (po_realised_pnl (apply_signed_fill ex_long (-1) (mk_dec 300000000 8) (mk_dec 13000 2))) - 60\<bar>
      \<le> 1 / 200"
  using fill_reduces_position[OF ex_long_fits, of "-1"] by (simp add: ex_long_def)

end
