(* ===== verification/Ledger_Exec.thy ===== *)
theory Ledger_Exec
  imports Ledger_Core Decimal_Text
begin

text \<open>
  The hedge side of \<open>ledger_uc.cpp\<close>: execution intents and reports, their reconciliation by
  \<open>apply_execution_report_locked\<close>, the balances on external venues and the hedge profit
  journal. Time points are nanoseconds since the epoch; \<open>now\<close> is the system clock during the
  call.
\<close>

section \<open>Reading a report\<close>

definition has_non_empty_error :: "exec_report \<Rightarrow> bool" where
  "has_non_empty_error r = (case xr_error r of None \<Rightarrow> False
     | Some e \<Rightarrow> er_code e \<noteq> [] \<or> er_message e \<noteq> [] \<or> er_details e \<noteq> [])"

definition is_positive :: "decimal \<Rightarrow> bool" where
  "is_positive d \<longleftrightarrow> 0 < dcmp d dzero"

definition normalize_execution_status :: "exec_report \<Rightarrow> exec_status" where
  "normalize_execution_status r =
     (let status = xr_status r
      in if status \<noteq> EXEC_NEW \<and> status \<noteq> EXEC_UNSPECIFIED then status
         else if has_non_empty_error r then EXEC_REJECTED
         else if is_positive (xr_filled_qty r) \<and> is_positive (xr_remaining_qty r)
           then EXEC_PARTIALLY_FILLED
         else if is_positive (xr_filled_qty r) \<and> \<not> is_positive (xr_remaining_qty r)
           then EXEC_FILLED
         else status)"

fun is_terminal_status :: "exec_status \<Rightarrow> bool" where
  "is_terminal_status EXEC_FILLED = True"
| "is_terminal_status EXEC_CANCELLED = True"
| "is_terminal_status EXEC_REJECTED = True"
| "is_terminal_status EXEC_EXPIRED = True"
| "is_terminal_status _ = False"

definition is_allowed_status_transition :: "exec_status \<Rightarrow> exec_status \<Rightarrow> bool" where
  "is_allowed_status_transition prev nxt =
     (if prev = EXEC_UNSPECIFIED then True
      else if prev = nxt then True
      else if is_terminal_status prev then False
      else if prev = EXEC_NEW then
        nxt = EXEC_PARTIALLY_FILLED \<or> nxt = EXEC_FILLED \<or> nxt = EXEC_CANCELLED \<or>
        nxt = EXEC_REJECTED \<or> nxt = EXEC_EXPIRED
      else if prev = EXEC_PARTIALLY_FILLED then
        nxt = EXEC_FILLED \<or> nxt = EXEC_CANCELLED \<or> nxt = EXEC_PARTIALLY_FILLED
      else False)"

definition normalize_symbol :: "string \<Rightarrow> string" where
  "normalize_symbol v = filter (\<lambda>c. \<not> (c = CHR ''/'' \<or> c = CHR '' '' \<or> c = CHR 0x09 \<or> c = CHR 0x0A)) v"

definition extract_base_quote :: "instrument \<Rightarrow> string \<times> string" where
  "extract_base_quote i =
     (if in_base i \<noteq> [] \<or> in_quote i \<noteq> [] then (in_base i, in_quote i)
      else case split_at (CHR ''/'') (in_symbol i) of
             None \<Rightarrow> ([], [])
           | Some (b, q) \<Rightarrow> (b, q))"

definition instrument_matches :: "exec_intent \<Rightarrow> exec_report \<Rightarrow> bool" where
  "instrument_matches i r =
     (let lhs = ei_instrument i; rhs = xr_instrument r
      in if in_symbol lhs \<noteq> [] \<and> in_symbol rhs \<noteq> [] \<and> in_symbol lhs \<noteq> in_symbol rhs then False
         else if in_base lhs \<noteq> [] \<and> in_base rhs \<noteq> [] \<and> in_base lhs \<noteq> in_base rhs then False
         else if in_quote lhs \<noteq> [] \<and> in_quote rhs \<noteq> [] \<and> in_quote lhs \<noteq> in_quote rhs then False
         else True)"

definition execution_state_key :: "exec_report \<Rightarrow> string" where
  "execution_state_key r = xr_intent_id r @ ''|'' @
     (if xr_venue_order_id r \<noteq> [] then xr_venue_order_id r else xr_client_order_id r)"

fun exec_status_number :: "exec_status \<Rightarrow> int" where
  "exec_status_number EXEC_UNSPECIFIED = 0"
| "exec_status_number EXEC_NEW = 1"
| "exec_status_number EXEC_PARTIALLY_FILLED = 2"
| "exec_status_number EXEC_FILLED = 3"
| "exec_status_number EXEC_CANCELLED = 4"
| "exec_status_number EXEC_REJECTED = 5"
| "exec_status_number EXEC_EXPIRED = 6"
| "exec_status_number EXEC_OVERFILL_GUARD = 7"
| "exec_status_number EXEC_UNDERFILLED = 8"

definition dec_key :: "decimal \<Rightarrow> string" where
  "dec_key d = int_to_str (units d) @ '':'' @ int_to_str (scale d)"

definition execution_report_key :: "exec_report \<Rightarrow> string" where
  "execution_report_key r =
     (if xr_report_id r \<noteq> [] then xr_report_id r
      else xr_intent_id r @ ''|'' @ xr_venue_order_id r @ ''|'' @
           int_to_str (exec_status_number (normalize_execution_status r)) @ ''|'' @
           dec_key (xr_filled_qty r) @ ''|'' @ dec_key (xr_remaining_qty r) @ ''|'' @
           dec_key (xr_average_price r))"

definition timestamp_to_time_point :: "timestamp \<Rightarrow> int" where
  "timestamp_to_time_point ts = i64 (fst ts * 1000000000 + snd ts)"

definition report_time :: "int \<Rightarrow> exec_report \<Rightarrow> int" where
  "report_time now r = (case xr_ts_event r of None \<Rightarrow> now | Some ts \<Rightarrow> timestamp_to_time_point ts)"

section \<open>Venue balances\<close>

definition empty_venue_balance :: "int \<Rightarrow> venue_balance" where
  "empty_venue_balance now = \<lparr>vb_total = dzero, vb_reserved = dzero, vb_available = dzero, vb_updated_at = now\<rparr>"

text \<open>\<open>ensure_venue_balance_locked\<close>: an entry whose total is exactly \<open>{0, 0}\<close> is reset.\<close>

definition ensure_venue_balance :: "int \<Rightarrow> ledger \<Rightarrow> string \<Rightarrow> string \<Rightarrow> venue_balance" where
  "ensure_venue_balance now l venue ccy =
     (let e = find2 (empty_venue_balance now) (lg_venue_balances l) venue ccy
      in if scale (vb_total e) = 0 \<and> units (vb_total e) = 0 then empty_venue_balance now else e)"

definition set_venue_balance :: "string \<Rightarrow> string \<Rightarrow> venue_balance \<Rightarrow> ledger \<Rightarrow> ledger" where
  "set_venue_balance venue ccy e l = l\<lparr>lg_venue_balances := put2 venue ccy e (lg_venue_balances l)\<rparr>"

text \<open>A change of the total, with the available part recomputed.\<close>

definition move_venue_total :: "int \<Rightarrow> (decimal \<Rightarrow> decimal) \<Rightarrow> string \<Rightarrow> string \<Rightarrow> ledger \<Rightarrow> ledger" where
  "move_venue_total now f venue ccy l =
     (let e = ensure_venue_balance now l venue ccy;
          t = f (vb_total e)
      in set_venue_balance venue ccy
           (e\<lparr>vb_total := t, vb_available := dsub t (vb_reserved e), vb_updated_at := now\<rparr>) l)"

section \<open>Hedge profit\<close>

definition calculate_hedge_pnl :: "side \<Rightarrow> decimal \<Rightarrow> decimal \<Rightarrow> decimal \<Rightarrow> decimal" where
  "calculate_hedge_pnl sd executed internal_price qty =
     (let pnl = dmul (dsub executed internal_price) qty
      in if sd = SIDE_BUY then dneg pnl else pnl)"

definition add_hedge_record :: "hedge_record \<Rightarrow> ledger \<Rightarrow> ledger" where
  "add_hedge_record rec l =
     (let key = hr_venue rec @ ''|'' @ hr_instrument_symbol rec
      in l\<lparr>lg_hedge_records := put (hr_venue rec)
             (find_or [] (lg_hedge_records l) (hr_venue rec) @ [rec]) (lg_hedge_records l),
           lg_hedge_summary := put key
             (case find (lg_hedge_summary l) key of
                None \<Rightarrow> hr_hedge_pnl rec
              | Some p \<Rightarrow> dadd p (hr_hedge_pnl rec)) (lg_hedge_summary l)\<rparr>)"

section \<open>Reconciling a report with its intent\<close>

datatype hedge_effect =
    UpdateHedgePnlDelta string string string
  | CreateHedgeEntry string

definition upd_stats :: "(recon_stats \<Rightarrow> recon_stats) \<Rightarrow> ledger \<Rightarrow> ledger" where
  "upd_stats f l = l\<lparr>lg_stats := f (lg_stats l)\<rparr>"

definition plan_mismatch :: "ledger \<Rightarrow> ledger" where
  "plan_mismatch = upd_stats (\<lambda>s. s\<lparr>st_plan_mismatch := Suc (st_plan_mismatch s)\<rparr>)"

text \<open>Everything checked before the execution state is looked up.\<close>

definition report_matches_plan :: "exec_intent \<Rightarrow> exec_report \<Rightarrow> bool" where
  "report_matches_plan i r =
     (if ei_venue i \<noteq> [] \<and> xr_venue r \<noteq> [] \<and> ei_venue i \<noteq> xr_venue r then False
      else if \<not> instrument_matches i r then False
      else if ei_venue_symbol i \<noteq> [] \<and> xr_venue_symbol r \<noteq> [] \<and>
        normalize_symbol (ei_venue_symbol i) \<noteq> normalize_symbol (xr_venue_symbol r) then False
      else if ei_client_order_id i \<noteq> [] \<and> xr_client_order_id r \<noteq> [] \<and>
        ei_client_order_id i \<noteq> xr_client_order_id r then False
      else if 0 < dcmp (xr_filled_qty r) (ei_target_qty i) then False
      else True)"

definition report_currencies :: "exec_intent \<Rightarrow> exec_report \<Rightarrow> string \<times> string" where
  "report_currencies i r =
     (let (base, quote) = extract_base_quote (ei_instrument i)
      in if base = [] \<or> quote = []
         then let from_report = extract_base_quote (xr_instrument r)
              in (if base = [] then fst from_report else base,
                  if quote = [] then snd from_report else quote)
         else (base, quote))"

definition internal_price_of :: "exec_intent \<Rightarrow> exec_report \<Rightarrow> decimal" where
  "internal_price_of i r =
     (case ei_limit_price i of
        Some p \<Rightarrow> if units p \<noteq> 0 then p else xr_average_price r
      | None \<Rightarrow> xr_average_price r)"

definition fee_amount :: "fee \<Rightarrow> decimal" where
  "fee_amount f = dec_of (mo_amount (fee_cost f))"

text \<open>Total fee reported so far and its currency.\<close>

definition report_fee :: "string \<Rightarrow> exec_report \<Rightarrow> decimal \<times> string" where
  "report_fee quote r =
     (case xr_fee_total r of
        None \<Rightarrow> (dzero, [])
      | Some f \<Rightarrow> (fee_amount f,
          if mo_currency (fee_cost f) = [] then quote else mo_currency (fee_cost f)))"

definition settle_base :: "int \<Rightarrow> side \<Rightarrow> string \<Rightarrow> string \<Rightarrow> decimal \<Rightarrow> ledger \<Rightarrow> ledger" where
  "settle_base now sd venue ccy delta l =
     (if ccy = [] then l
      else move_venue_total now (\<lambda>t. case sd of SIDE_BUY \<Rightarrow> dadd t delta | SIDE_SELL \<Rightarrow> dsub t delta
             | SIDE_UNSPECIFIED \<Rightarrow> t) venue ccy l)"

definition settle_quote :: "int \<Rightarrow> side \<Rightarrow> string \<Rightarrow> string \<Rightarrow> decimal \<Rightarrow> ledger \<Rightarrow> ledger" where
  "settle_quote now sd venue ccy delta l =
     (if ccy = [] then l
      else move_venue_total now (\<lambda>t. case sd of SIDE_BUY \<Rightarrow> dsub t delta | SIDE_SELL \<Rightarrow> dadd t delta
             | SIDE_UNSPECIFIED \<Rightarrow> t) venue ccy l)"

definition settle_venue_fee :: "int \<Rightarrow> string \<Rightarrow> string \<Rightarrow> decimal \<Rightarrow> ledger \<Rightarrow> ledger" where
  "settle_venue_fee now venue ccy delta l =
     (if ccy \<noteq> [] \<and> 0 < dcmp delta dzero
      then move_venue_total now (\<lambda>t. dsub t delta) venue ccy l else l)"

definition hedge_flow_of :: "exec_report \<Rightarrow> string" where
  "hedge_flow_of r = (if xr_hedge_flow_id r \<noteq> [] then xr_hedge_flow_id r else xr_intent_id r)"

definition fee_text :: "exec_report \<Rightarrow> string" where
  "fee_text r = (case xr_fee_total r of None \<Rightarrow> []
     | Some f \<Rightarrow> (case fe_cost f of None \<Rightarrow> []
         | Some m \<Rightarrow> (case mo_amount m of None \<Rightarrow> [] | Some a \<Rightarrow> to_string a)))"

text \<open>The quantity filled since the last accepted report, settled on the venue.\<close>

definition settle_report ::
    "bool \<Rightarrow> int \<Rightarrow> exec_intent \<Rightarrow> exec_report \<Rightarrow> exec_state \<Rightarrow> decimal \<Rightarrow> ledger \<Rightarrow>
      ledger \<times> hedge_effect list" where
  "settle_report has_sink now i r st delta l =
     (let (base, quote) = report_currencies i r;
          internal_price = internal_price_of i r;
          avg = xr_average_price r;
          l = settle_base now (ei_side i) (xr_venue r) base delta l;
          l = settle_quote now (ei_side i) (xr_venue r) quote (dmul delta avg) l;
          (fee_total, fee_ccy) = report_fee quote r;
          fee_delta = (if 0 < dcmp fee_total (es_fee_total st) then dsub fee_total (es_fee_total st)
                       else dzero);
          l = settle_venue_fee now (xr_venue r) fee_ccy fee_delta l;
          rec = \<lparr>hr_hedge_id = execution_report_key r, hr_venue = xr_venue r,
                 hr_instrument_symbol = in_symbol (ei_instrument i), hr_side = ei_side i,
                 hr_executed_qty = delta, hr_executed_price = avg, hr_internal_price = internal_price,
                 hr_hedge_pnl = calculate_hedge_pnl (ei_side i) avg internal_price delta,
                 hr_timestamp = report_time now r\<rparr>;
          l = add_hedge_record rec l;
          l = upd_stats (\<lambda>s. s\<lparr>st_applied := Suc (st_applied s)\<rparr>) l
      in (l, if has_sink
             then [UpdateHedgePnlDelta (hedge_flow_of r) (to_string (hr_hedge_pnl rec)) (fee_text r)]
             else []))"

definition next_state :: "exec_report \<Rightarrow> exec_state \<Rightarrow> exec_state" where
  "next_state r st =
     (let status = normalize_execution_status r;
          st = st\<lparr>es_status := status, es_filled_qty := xr_filled_qty r,
                  es_remaining_qty := xr_remaining_qty r, es_average_price := xr_average_price r,
                  es_terminal := is_terminal_status status\<rparr>
      in case xr_fee_total r of
           None \<Rightarrow> st
         | Some f \<Rightarrow> st\<lparr>es_fee_total := fee_amount f, es_fee_currency := mo_currency (fee_cost f)\<rparr>)"

definition set_exec_state :: "string \<Rightarrow> exec_state \<Rightarrow> ledger \<Rightarrow> ledger" where
  "set_exec_state k st l = l\<lparr>lg_exec_states := put k st (lg_exec_states l)\<rparr>"

definition exec_state_of :: "ledger \<Rightarrow> string \<Rightarrow> exec_state" where
  "exec_state_of l k = find_or empty_exec_state (lg_exec_states l) k"

definition apply_execution_report_locked ::
    "bool \<Rightarrow> int \<Rightarrow> exec_report \<Rightarrow> ledger \<Rightarrow> bool \<times> ledger \<times> hedge_effect list" where
  "apply_execution_report_locked has_sink now r l =
     (case find (lg_intents l) (xr_intent_id r) of
        None \<Rightarrow> (False, l, [])
      | Some i \<Rightarrow>
          if \<not> report_matches_plan i r then (False, plan_mismatch l, [])
          else
            let k = execution_state_key r;
                st = exec_state_of l k;
                l = set_exec_state k st l
            in if dcmp (xr_filled_qty r) (es_filled_qty st) < 0
               then (False, upd_stats (\<lambda>s. s\<lparr>st_qty_regression := Suc (st_qty_regression s)\<rparr>) l, [])
               else if \<not> is_allowed_status_transition (es_status st) (normalize_execution_status r)
               then (False, upd_stats (\<lambda>s. s\<lparr>st_status_regression := Suc (st_status_regression s)\<rparr>) l, [])
               else let delta = dsub (xr_filled_qty r) (es_filled_qty st);
                        (l, effs) = (if 0 < dcmp delta dzero
                                     then settle_report has_sink now i r st delta l else (l, []))
                    in (True, set_exec_state k (next_state r st) l, effs))"

section \<open>Handlers\<close>

fun replay_reports ::
    "bool \<Rightarrow> int \<Rightarrow> exec_report list \<Rightarrow> ledger \<Rightarrow> ledger \<times> hedge_effect list" where
  "replay_reports has_sink now [] l = (l, [])"
| "replay_reports has_sink now (r # rs) l =
     (let l = upd_stats (\<lambda>s. s\<lparr>st_replayed := Suc (st_replayed s)\<rparr>) l;
          (ok, l, e1) = apply_execution_report_locked has_sink now r l;
          (l, e2) = replay_reports has_sink now rs l
      in (l, e1 @ e2))"

definition RememberExecutionIntent ::
    "bool \<Rightarrow> int \<Rightarrow> exec_intent \<Rightarrow> ledger \<Rightarrow> ledger \<times> hedge_effect list" where
  "RememberExecutionIntent has_sink now i l =
     (if ei_intent_id i = [] then (l, [])
      else let l = l\<lparr>lg_intents := put (ei_intent_id i) i (lg_intents l)\<rparr>
           in case find (lg_pending l) (ei_intent_id i) of
                None \<Rightarrow> (l, [])
              | Some pending \<Rightarrow>
                  replay_reports has_sink now pending
                    (l\<lparr>lg_pending := erase (ei_intent_id i) (lg_pending l)\<rparr>))"

definition ApplyExecutionReport ::
    "bool \<Rightarrow> int \<Rightarrow> exec_report \<Rightarrow> ledger \<Rightarrow> ledger \<times> hedge_effect list" where
  "ApplyExecutionReport has_sink now r l =
     (let key = execution_report_key r
      in if key \<in> set (lg_seen_reports l)
         then (upd_stats (\<lambda>s. s\<lparr>st_duplicate := Suc (st_duplicate s)\<rparr>) l, [])
         else let l = l\<lparr>lg_seen_reports := key # lg_seen_reports l\<rparr>
              in if xr_intent_id r = [] \<or> find (lg_intents l) (xr_intent_id r) = None
                 then (upd_stats (\<lambda>s. s\<lparr>st_missing_plan := Suc (st_missing_plan s),
                                        st_queued := Suc (st_queued s)\<rparr>)
                        (l\<lparr>lg_pending := put (xr_intent_id r)
                             (find_or [] (lg_pending l) (xr_intent_id r) @ [r]) (lg_pending l)\<rparr>), [])
                 else snd (apply_execution_report_locked has_sink now r l))"

record hedge_execution =
  hx_hedge_id :: string
  hx_venue :: string
  hx_instrument_symbol :: string
  hx_side :: side
  hx_executed_qty :: decimal
  hx_executed_price :: decimal
  hx_internal_price :: decimal
  hx_timestamp :: "timestamp option"

definition RecordHedgeExecution ::
    "bool \<Rightarrow> int \<Rightarrow> hedge_execution \<Rightarrow> ledger \<Rightarrow> error_msg option \<times> ledger \<times> hedge_effect list" where
  "RecordHedgeExecution has_repo now h l =
     (if hx_hedge_id h = [] then (Some (mk_error ''INVALID_HEDGE_ID'' ''hedge_id cannot be empty''), l, [])
      else if hx_venue h = [] then (Some (mk_error ''INVALID_VENUE'' ''venue cannot be empty''), l, [])
      else
        let existing = find_or [] (lg_hedge_records l) (hx_venue h);
            l = l\<lparr>lg_hedge_records := put (hx_venue h) existing (lg_hedge_records l)\<rparr>
        in if \<exists>e \<in> set existing. hr_hedge_id e = hx_hedge_id h then (None, l, [])
           else let rec = \<lparr>hr_hedge_id = hx_hedge_id h, hr_venue = hx_venue h,
                      hr_instrument_symbol = hx_instrument_symbol h, hr_side = hx_side h,
                      hr_executed_qty = hx_executed_qty h, hr_executed_price = hx_executed_price h,
                      hr_internal_price = hx_internal_price h,
                      hr_hedge_pnl = calculate_hedge_pnl (hx_side h) (hx_executed_price h)
                        (hx_internal_price h) (hx_executed_qty h),
                      hr_timestamp = (case hx_timestamp h of None \<Rightarrow> now
                        | Some ts \<Rightarrow> timestamp_to_time_point ts)\<rparr>
                in (None, add_hedge_record rec l,
                    if has_repo then [CreateHedgeEntry (hx_hedge_id h)] else []))"

section \<open>Venue balances and hedge profit on request\<close>

record venue_balance_view =
  vv_venue :: string
  vv_currency :: string
  vv_total :: decimal
  vv_reserved :: decimal
  vv_available :: decimal
  vv_updated_seconds :: int

definition GetVenueBalances :: "string \<Rightarrow> string \<Rightarrow> ledger \<Rightarrow> venue_balance_view list" where
  "GetVenueBalances venue ccy l =
     concat (map (\<lambda>(v, cs). if venue \<noteq> [] \<and> v \<noteq> venue then []
       else concat (map (\<lambda>(c, e). if ccy \<noteq> [] \<and> c \<noteq> ccy then []
         else [\<lparr>vv_venue = v, vv_currency = c, vv_total = vb_total e, vv_reserved = vb_reserved e,
                vv_available = vb_available e,
                vv_updated_seconds = vb_updated_at e sdiv 1000000000\<rparr>]) cs)) (lg_venue_balances l))"

definition UpdateVenueBalance ::
    "int \<Rightarrow> string \<Rightarrow> string \<Rightarrow> decimal \<Rightarrow> decimal \<Rightarrow> ledger \<Rightarrow> error_msg option \<times> ledger" where
  "UpdateVenueBalance now venue ccy new_total reserved l =
     (if venue = [] then (Some (mk_error ''INVALID_VENUE'' ''Venue name cannot be empty''), l)
      else if ccy = [] then (Some (mk_error ''INVALID_CURRENCY'' ''Currency cannot be empty''), l)
      else (None, set_venue_balance venue ccy
              ((ensure_venue_balance now l venue ccy)
                 \<lparr>vb_total := new_total, vb_reserved := reserved, vb_available := dsub new_total reserved,
                  vb_updated_at := now\<rparr>) l))"

record hedge_pnl_view =
  hv_venue :: string
  hv_instrument_symbol :: string
  hv_total_hedge_pnl :: decimal
  hv_hedge_count :: int
  hv_total_hedge_volume :: decimal

record hedge_pnl_query =
  hq_venue :: string
  hq_instrument_symbol :: string
  hq_from_time :: "timestamp option"
  hq_to_time :: "timestamp option"

definition hedge_record_selected :: "hedge_pnl_query \<Rightarrow> hedge_record \<Rightarrow> bool" where
  "hedge_record_selected q rec =
     (if hq_instrument_symbol q \<noteq> [] \<and> hr_instrument_symbol rec \<noteq> hq_instrument_symbol q then False
      else if (case hq_from_time q of None \<Rightarrow> False
        | Some t \<Rightarrow> hr_timestamp rec < timestamp_to_time_point t) then False
      else if (case hq_to_time q of None \<Rightarrow> False
        | Some t \<Rightarrow> timestamp_to_time_point t < hr_timestamp rec) then False
      else True)"

text \<open>\<open>if (agg.venue().empty())\<close>: a record of a venue without a name starts over every time.\<close>

definition aggregate_hedge :: "string \<Rightarrow> hedge_record \<Rightarrow> hedge_pnl_view umap \<Rightarrow> hedge_pnl_view umap" where
  "aggregate_hedge venue rec m =
     (let key = venue @ ''|'' @ hr_instrument_symbol rec;
          empty_view = \<lparr>hv_venue = [], hv_instrument_symbol = [], hv_total_hedge_pnl = dzero,
             hv_hedge_count = 0, hv_total_hedge_volume = dzero\<rparr>;
          agg = find_or empty_view m key
      in put key
           (if hv_venue agg = []
            then \<lparr>hv_venue = venue, hv_instrument_symbol = hr_instrument_symbol rec,
                  hv_total_hedge_pnl = hr_hedge_pnl rec, hv_hedge_count = 1,
                  hv_total_hedge_volume = hr_executed_qty rec\<rparr>
            else agg\<lparr>hv_total_hedge_pnl := dadd (hv_total_hedge_pnl agg) (hr_hedge_pnl rec),
                     hv_hedge_count := i32 (hv_hedge_count agg + 1),
                     hv_total_hedge_volume := dadd (hv_total_hedge_volume agg) (hr_executed_qty rec)\<rparr>) m)"

definition GetHedgePnL :: "hedge_pnl_query \<Rightarrow> ledger \<Rightarrow> hedge_pnl_view list" where
  "GetHedgePnL q l =
     map snd (fold (\<lambda>(venue, recs) m.
       if hq_venue q \<noteq> [] \<and> venue \<noteq> hq_venue q then m
       else fold (aggregate_hedge venue) (filter (hedge_record_selected q) recs) m)
       (lg_hedge_records l) [])"

end
