(* ===== verification/Ledger_Hedge.thy ===== *)
theory Ledger_Hedge
  imports Ledger_Exec
begin

text \<open>
  The properties of the hedge side: reports are applied once, a filled quantity never
  shrinks and a status never leaves its state machine, the available venue balance is always
  total minus reserved, duplicates and stale reports never count twice, and a report may
  arrive before its intent.
\<close>

section \<open>What an operation leaves alone\<close>

lemma upd_stats_frame [frame_simps, simp]:
  "lg_exec_states (upd_stats f l) = lg_exec_states l"
  "lg_seen_reports (upd_stats f l) = lg_seen_reports l"
  "lg_intents (upd_stats f l) = lg_intents l"
  "lg_pending (upd_stats f l) = lg_pending l"
  "lg_venue_balances (upd_stats f l) = lg_venue_balances l"
  "lg_hedge_records (upd_stats f l) = lg_hedge_records l"
  "lg_hedge_summary (upd_stats f l) = lg_hedge_summary l"
  by (simp_all add: upd_stats_def)

lemma plan_mismatch_frame [frame_simps, simp]:
  "lg_exec_states (plan_mismatch l) = lg_exec_states l"
  "lg_seen_reports (plan_mismatch l) = lg_seen_reports l"
  "lg_intents (plan_mismatch l) = lg_intents l"
  "lg_pending (plan_mismatch l) = lg_pending l"
  "lg_venue_balances (plan_mismatch l) = lg_venue_balances l"
  "lg_hedge_records (plan_mismatch l) = lg_hedge_records l"
  "lg_hedge_summary (plan_mismatch l) = lg_hedge_summary l"
  by (simp_all add: plan_mismatch_def)

lemma move_venue_total_frame [frame_simps, simp]:
  "lg_exec_states (move_venue_total now f v c l) = lg_exec_states l"
  "lg_seen_reports (move_venue_total now f v c l) = lg_seen_reports l"
  "lg_intents (move_venue_total now f v c l) = lg_intents l"
  "lg_pending (move_venue_total now f v c l) = lg_pending l"
  "lg_hedge_records (move_venue_total now f v c l) = lg_hedge_records l"
  "lg_hedge_summary (move_venue_total now f v c l) = lg_hedge_summary l"
  by (simp_all add: move_venue_total_def set_venue_balance_def Let_def)

lemma add_hedge_record_frame [frame_simps, simp]:
  "lg_exec_states (add_hedge_record r l) = lg_exec_states l"
  "lg_seen_reports (add_hedge_record r l) = lg_seen_reports l"
  "lg_intents (add_hedge_record r l) = lg_intents l"
  "lg_pending (add_hedge_record r l) = lg_pending l"
  "lg_venue_balances (add_hedge_record r l) = lg_venue_balances l"
  by (simp_all add: add_hedge_record_def Let_def)

lemma set_exec_state_frame [frame_simps, simp]:
  "lg_seen_reports (set_exec_state k st l) = lg_seen_reports l"
  "lg_intents (set_exec_state k st l) = lg_intents l"
  "lg_pending (set_exec_state k st l) = lg_pending l"
  "lg_venue_balances (set_exec_state k st l) = lg_venue_balances l"
  "lg_hedge_records (set_exec_state k st l) = lg_hedge_records l"
  "lg_hedge_summary (set_exec_state k st l) = lg_hedge_summary l"
  by (simp_all add: set_exec_state_def)

lemma settle_base_frame [frame_simps, simp]:
  "lg_exec_states (settle_base now sd v c d l) = lg_exec_states l"
  "lg_seen_reports (settle_base now sd v c d l) = lg_seen_reports l"
  "lg_intents (settle_base now sd v c d l) = lg_intents l"
  "lg_pending (settle_base now sd v c d l) = lg_pending l"
  by (simp_all add: settle_base_def)

lemma settle_quote_frame [frame_simps, simp]:
  "lg_exec_states (settle_quote now sd v c d l) = lg_exec_states l"
  "lg_seen_reports (settle_quote now sd v c d l) = lg_seen_reports l"
  "lg_intents (settle_quote now sd v c d l) = lg_intents l"
  "lg_pending (settle_quote now sd v c d l) = lg_pending l"
  by (simp_all add: settle_quote_def)

lemma settle_venue_fee_frame [frame_simps, simp]:
  "lg_exec_states (settle_venue_fee now v c d l) = lg_exec_states l"
  "lg_seen_reports (settle_venue_fee now v c d l) = lg_seen_reports l"
  "lg_intents (settle_venue_fee now v c d l) = lg_intents l"
  "lg_pending (settle_venue_fee now v c d l) = lg_pending l"
  by (simp_all add: settle_venue_fee_def)

lemma settle_report_frame [frame_simps, simp]:
  "lg_exec_states (fst (settle_report sk now i r st d l)) = lg_exec_states l"
  "lg_seen_reports (fst (settle_report sk now i r st d l)) = lg_seen_reports l"
  "lg_intents (fst (settle_report sk now i r st d l)) = lg_intents l"
  "lg_pending (fst (settle_report sk now i r st d l)) = lg_pending l"
  by (simp_all add: settle_report_def Let_def case_prod_beta)

definition applied_ledger :: "bool \<Rightarrow> int \<Rightarrow> exec_report \<Rightarrow> ledger \<Rightarrow> ledger" where
  "applied_ledger sk now r l = fst (snd (apply_execution_report_locked sk now r l))"

lemma applied_ledger_frame [frame_simps, simp]:
  "lg_seen_reports (applied_ledger sk now r l) = lg_seen_reports l"
  "lg_intents (applied_ledger sk now r l) = lg_intents l"
  "lg_pending (applied_ledger sk now r l) = lg_pending l"
  by (auto simp: applied_ledger_def apply_execution_report_locked_def Let_def case_prod_beta
      split: option.splits)

section \<open>The execution state\<close>

text \<open>A report is accepted when it matches the plan, its quantity does not shrink and its status
  is an allowed successor.\<close>

definition accepts :: "ledger \<Rightarrow> exec_report \<Rightarrow> bool" where
  "accepts l r = (case find (lg_intents l) (xr_intent_id r) of None \<Rightarrow> False
     | Some i \<Rightarrow> report_matches_plan i r
         \<and> \<not> dcmp (xr_filled_qty r) (es_filled_qty (exec_state_of l (execution_state_key r))) < 0
         \<and> is_allowed_status_transition (es_status (exec_state_of l (execution_state_key r)))
             (normalize_execution_status r))"

lemma exec_state_of_set [simp]:
  "exec_state_of (set_exec_state k st l) k' = (if k' = k then st else exec_state_of l k')"
  by (simp add: exec_state_of_def set_exec_state_def)

lemma exec_state_of_cong:
  "lg_exec_states l = lg_exec_states l' \<Longrightarrow> exec_state_of l = exec_state_of l'"
  by (simp add: exec_state_of_def fun_eq_iff)

lemma exec_state_of_settle [simp]:
  "exec_state_of (fst (settle_report sk now i r st d l)) = exec_state_of l"
  "exec_state_of (upd_stats f l) = exec_state_of l"
  "exec_state_of (plan_mismatch l) = exec_state_of l"
  by (rule exec_state_of_cong, simp)+

lemma exec_state_applied:
  "exec_state_of (applied_ledger sk now r l) k =
     (if accepts l r \<and> k = execution_state_key r then next_state r (exec_state_of l k)
      else exec_state_of l k)"
  by (auto simp: applied_ledger_def apply_execution_report_locked_def accepts_def Let_def
      case_prod_beta split: option.splits)

lemma next_state_sel [simp]:
  "es_status (next_state r st) = normalize_execution_status r"
  "es_filled_qty (next_state r st) = xr_filled_qty r"
  "es_terminal (next_state r st) = is_terminal_status (normalize_execution_status r)"
  by (simp_all add: next_state_def Let_def split: option.splits)

interpretation exec_fsm: status_machine is_allowed_status_transition is_terminal_status
proof
  fix s t
  assume "is_terminal_status s" "is_allowed_status_transition s t"
  then show "t = s" by (cases s) (auto simp: is_allowed_status_transition_def split: if_splits)
qed (simp add: is_allowed_status_transition_def)

section \<open>Runs of the hedge consumer\<close>

datatype hedge_event = Report exec_report | Intent exec_intent

definition hedge_step :: "bool \<Rightarrow> int \<Rightarrow> hedge_event \<Rightarrow> ledger \<Rightarrow> ledger" where
  "hedge_step sk now e l = (case e of
     Report r \<Rightarrow> fst (ApplyExecutionReport sk now r l)
   | Intent i \<Rightarrow> fst (RememberExecutionIntent sk now i l))"

definition hedge_run :: "bool \<Rightarrow> int \<Rightarrow> hedge_event list \<Rightarrow> ledger \<Rightarrow> ledger" where
  "hedge_run sk now es l = fold (hedge_step sk now) es l"

text \<open>A property of ledgers that each accepted or rejected report keeps, and that does not look
  at intents, pending reports, seen keys and counters, holds along every run.\<close>

definition bookkeeping :: "ledger \<Rightarrow> ledger" where
  "bookkeeping l = l\<lparr>lg_intents := [], lg_pending := [], lg_seen_reports := [], lg_stats := empty_stats\<rparr>"

lemma bookkeeping_upd [simp]:
  "bookkeeping (upd_stats f l) = bookkeeping l"
  "bookkeeping (l\<lparr>lg_intents := a\<rparr>) = bookkeeping l"
  "bookkeeping (l\<lparr>lg_pending := b\<rparr>) = bookkeeping l"
  "bookkeeping (l\<lparr>lg_seen_reports := c\<rparr>) = bookkeeping l"
  by (simp_all add: bookkeeping_def upd_stats_def)

lemma bookkeeping_states:
  "bookkeeping l = bookkeeping l' \<Longrightarrow> lg_exec_states l = lg_exec_states l'"
  "bookkeeping l = bookkeeping l' \<Longrightarrow> lg_venue_balances l = lg_venue_balances l'"
  "bookkeeping l = bookkeeping l' \<Longrightarrow> lg_hedge_records l = lg_hedge_records l'"
  "bookkeeping l = bookkeeping l' \<Longrightarrow> lg_hedge_summary l = lg_hedge_summary l'"
  by (cases l; cases l'; simp add: bookkeeping_def)+

lemma replay_reports_ledger:
  "fst (replay_reports sk now rs l) =
     fold (\<lambda>r l. applied_ledger sk now r (upd_stats (\<lambda>s. s\<lparr>st_replayed := Suc (st_replayed s)\<rparr>) l)) rs l"
  by (induction rs arbitrary: l) (simp_all add: case_prod_beta Let_def applied_ledger_def)

lemma set_erase: "set (erase k m) \<subseteq> set m"
  by (auto simp: erase_def AList.delete_eq)

lemma set_put: "set (put k v m) \<subseteq> insert (k, v) (set m)"
  unfolding put_def by (induction m) (auto split: if_splits)

definition queued_all :: "(exec_report \<Rightarrow> bool) \<Rightarrow> ledger \<Rightarrow> bool" where
  "queued_all Q l \<longleftrightarrow> (\<forall>k rs. (k, rs) \<in> set (lg_pending l) \<longrightarrow> (\<forall>r \<in> set rs. Q r))"

lemma queued_find: "queued_all Q l \<Longrightarrow> find (lg_pending l) k = Some rs \<Longrightarrow> \<forall>r \<in> set rs. Q r"
  unfolding queued_all_def by (drule find_in) blast

lemma queued_find_or: "queued_all Q l \<Longrightarrow> \<forall>r \<in> set (find_or [] (lg_pending l) k). Q r"
  using queued_find[of Q l k] by (cases "find (lg_pending l) k") (simp_all add: find_or_def)

lemma queued_put:
  "queued_all Q l \<Longrightarrow> \<forall>x \<in> set rs. Q x \<Longrightarrow> lg_pending l' = put k rs (lg_pending l) \<Longrightarrow> queued_all Q l'"
  unfolding queued_all_def by (auto dest!: subsetD[OF set_put])

definition reports_all :: "(exec_report \<Rightarrow> bool) \<Rightarrow> hedge_event list \<Rightarrow> bool" where
  "reports_all Q es \<longleftrightarrow> (\<forall>r. Report r \<in> set es \<longrightarrow> Q r)"

lemma ApplyExecutionReport_outcome:
  "fst (ApplyExecutionReport sk now r l) =
    (if execution_report_key r \<in> set (lg_seen_reports l)
     then upd_stats (\<lambda>s. s\<lparr>st_duplicate := Suc (st_duplicate s)\<rparr>) l
     else if xr_intent_id r = [] \<or> find (lg_intents l) (xr_intent_id r) = None
     then upd_stats (\<lambda>s. s\<lparr>st_missing_plan := Suc (st_missing_plan s), st_queued := Suc (st_queued s)\<rparr>)
       (l\<lparr>lg_seen_reports := execution_report_key r # lg_seen_reports l,
          lg_pending := put (xr_intent_id r) (find_or [] (lg_pending l) (xr_intent_id r) @ [r]) (lg_pending l)\<rparr>)
     else applied_ledger sk now r (l\<lparr>lg_seen_reports := execution_report_key r # lg_seen_reports l\<rparr>))"
  by (simp add: ApplyExecutionReport_def Let_def applied_ledger_def)

locale report_invariant =
  fixes P :: "ledger \<Rightarrow> bool"
    and Q :: "exec_report \<Rightarrow> bool"
    and sk :: bool
    and now :: int
  assumes keeps: "Q r \<Longrightarrow> P l \<Longrightarrow> P (applied_ledger sk now r l)"
    and frame: "bookkeeping l = bookkeeping l' \<Longrightarrow> P l \<Longrightarrow> P l'"
begin

lemma replay_keeps:
  "P l \<Longrightarrow> \<forall>r \<in> set rs. Q r \<Longrightarrow> P (fst (replay_reports sk now rs l))"
  unfolding replay_reports_ledger
proof (induction rs arbitrary: l)
  case (Cons r rs)
  have "P (upd_stats (\<lambda>s. s\<lparr>st_replayed := Suc (st_replayed s)\<rparr>) l)"
    by (rule frame[OF _ Cons.prems(1)]) simp
  then have "P (applied_ledger sk now r (upd_stats (\<lambda>s. s\<lparr>st_replayed := Suc (st_replayed s)\<rparr>) l))"
    by (intro keeps) (use Cons.prems(2) in simp_all)
  with Cons.IH Cons.prems(2) show ?case by simp
qed simp

lemma replay_pending: "lg_pending (fst (replay_reports sk now rs l)) = lg_pending l"
  unfolding replay_reports_ledger by (induction rs arbitrary: l) simp_all

lemma step_keeps:
  assumes "P l" "queued_all Q l" "reports_all Q [e]"
  shows "P (hedge_step sk now e l) \<and> queued_all Q (hedge_step sk now e l)"
proof (cases e)
  case (Report r)
  then have q: "Q r" using assms(3) by (simp add: reports_all_def)
  let ?l1 = "l\<lparr>lg_seen_reports := execution_report_key r # lg_seen_reports l\<rparr>"
  have 1: "P ?l1" "queued_all Q ?l1"
    using frame[of l ?l1] assms(1,2) by (simp_all add: queued_all_def)
  have dup: "P (upd_stats f l)" "queued_all Q (upd_stats f l)" for f
    using frame[of l "upd_stats f l"] assms(1,2) by (simp_all add: queued_all_def)
  let ?rs = "find_or [] (lg_pending l) (xr_intent_id r) @ [r]"
  have rs: "\<forall>x \<in> set ?rs. Q x"
    using q queued_find_or[OF assms(2), of "xr_intent_id r"] by auto
  have 2: "P (upd_stats f (?l1\<lparr>lg_pending := put (xr_intent_id r) ?rs (lg_pending l)\<rparr>))"
    "queued_all Q (upd_stats f (?l1\<lparr>lg_pending := put (xr_intent_id r) ?rs (lg_pending l)\<rparr>))" for f
    using frame[of l "upd_stats f (?l1\<lparr>lg_pending := put (xr_intent_id r) ?rs (lg_pending l)\<rparr>)"]
      assms(1) queued_put[OF assms(2) rs] by simp_all
  have 3: "P (applied_ledger sk now r ?l1)" "queued_all Q (applied_ledger sk now r ?l1)"
    using keeps[OF q 1(1)] 1(2) by (simp_all add: queued_all_def)
  have e: "hedge_step sk now e l = fst (ApplyExecutionReport sk now r l)"
    by (simp add: Report hedge_step_def)
  show ?thesis
    unfolding e ApplyExecutionReport_outcome
    by (cases "execution_report_key r \<in> set (lg_seen_reports l)";
        cases "xr_intent_id r = [] \<or> find (lg_intents l) (xr_intent_id r) = None";
        simp only: if_True if_False dup 2 3 simp_thms)
next
  case (Intent i)
  let ?l1 = "l\<lparr>lg_intents := put (ei_intent_id i) i (lg_intents l)\<rparr>"
  let ?l2 = "?l1\<lparr>lg_pending := erase (ei_intent_id i) (lg_pending ?l1)\<rparr>"
  have 1: "P ?l1" "P ?l2" using frame[of l ?l1] frame[of l ?l2] assms(1) by simp_all
  have q: "queued_all Q ?l1" "queued_all Q ?l2"
    using assms(2) set_erase[of "ei_intent_id i" "lg_pending l"] by (auto simp: queued_all_def)
  show ?thesis
  proof (cases "find (lg_pending l) (ei_intent_id i)")
    case None
    then show ?thesis using Intent assms(1,2) 1 q by (simp add: hedge_step_def RememberExecutionIntent_def)
  next
    case (Some rs)
    then have "\<forall>r \<in> set rs. Q r" by (rule queued_find[OF assms(2)])
    from replay_keeps[OF 1(2) this] have "P (fst (replay_reports sk now rs ?l2))" .
    moreover have "queued_all Q (fst (replay_reports sk now rs ?l2))"
      using q(2) unfolding queued_all_def replay_pending .
    ultimately show ?thesis
      using Intent Some assms(1,2) by (simp add: hedge_step_def RememberExecutionIntent_def Let_def)
  qed
qed

lemma run_keeps:
  "P l \<Longrightarrow> queued_all Q l \<Longrightarrow> reports_all Q es \<Longrightarrow> P (hedge_run sk now es l)"
  unfolding hedge_run_def
proof (induction es arbitrary: l)
  case (Cons e es)
  have "reports_all Q [e]" "reports_all Q es" using Cons.prems(3) by (simp_all add: reports_all_def)
  with Cons step_keeps[OF Cons.prems(1,2)] show ?case by simp
qed simp

end

section \<open>Reports are applied once\<close>

definition uncounted :: "ledger \<Rightarrow> ledger" where
  "uncounted l = l\<lparr>lg_stats := empty_stats\<rparr>"

interpretation reports: idempotent_consumer
  "\<lambda>l r. fst (ApplyExecutionReport sk now r l)" "\<lambda>l k. k \<in> set (lg_seen_reports l)"
  execution_report_key uncounted for sk now
  by unfold_locales
     (auto simp: ApplyExecutionReport_def Let_def uncounted_def upd_stats_def
       simp flip: applied_ledger_def)

text \<open>Redelivery of execution reports is harmless: reports already handled can be delivered
  again in any order and any number of times, and only the duplicate counter changes.\<close>

theorem report_redelivery_harmless:
  assumes "set again \<subseteq> set rs"
  shows "uncounted (fold (\<lambda>r l. fst (ApplyExecutionReport sk now r l)) again
      (fold (\<lambda>r l. fst (ApplyExecutionReport sk now r l)) rs l))
    = uncounted (fold (\<lambda>r l. fst (ApplyExecutionReport sk now r l)) rs l)"
  by (rule reports.replay[OF assms])

section \<open>Quantities and statuses only move forward\<close>

definition forward :: "exec_state \<Rightarrow> exec_state \<Rightarrow> bool" where
  "forward s t \<longleftrightarrow> rtranclp is_allowed_status_transition (es_status s) (es_status t)
     \<and> wf_dec (es_filled_qty t) \<and> dval (es_filled_qty s) \<le> dval (es_filled_qty t)"

interpretation forward_run: report_invariant
  "\<lambda>l. forward s (exec_state_of l k)" "\<lambda>r :: exec_report. wf_dec (xr_filled_qty r)" sk now for s k sk now
proof
  fix r :: exec_report and l
  assume w: "wf_dec (xr_filled_qty r)" and f: "forward s (exec_state_of l k)"
  have wf: "wf_dec (es_filled_qty (exec_state_of l k))" using f by (simp add: forward_def)
  show "forward s (exec_state_of (applied_ledger sk now r l) k)"
  proof (cases "accepts l r \<and> k = execution_state_key r")
    case True
    then have "\<not> dcmp (xr_filled_qty r) (es_filled_qty (exec_state_of l k)) < 0"
      "is_allowed_status_transition (es_status (exec_state_of l k)) (normalize_execution_status r)"
      by (auto simp: accepts_def split: option.splits)
    moreover have "dval (es_filled_qty (exec_state_of l k)) \<le> dval (xr_filled_qty r)"
      using calculation(1) dcmp_iffs(1)[OF w wf] by simp
    ultimately show ?thesis using f w True
      by (auto simp: forward_def exec_state_applied intro: rtranclp.rtrancl_into_rtrancl order_trans)
  next
    case False
    then have "exec_state_of (applied_ledger sk now r l) k = exec_state_of l k"
      by (auto simp: exec_state_applied)
    with f show ?thesis by simp
  qed
next
  fix l l' assume "bookkeeping l = bookkeeping l'" "forward s (exec_state_of l k)"
  then show "forward s (exec_state_of l' k)"
    by (metis exec_state_of_cong bookkeeping_states)
qed

text \<open>C4. Executions only move forward. Over any sequence of reports and intents, in any order
  and with any repetition, the status of every execution moves along the transitions the
  code allows, never leaves a terminal status, and its filled quantity never decreases.\<close>

theorem execution_moves_forward:
  fixes sk :: bool and now :: int
  assumes "wf_dec (es_filled_qty (exec_state_of l k))"
    and "queued_all (\<lambda>r. wf_dec (xr_filled_qty r)) l" "reports_all (\<lambda>r. wf_dec (xr_filled_qty r)) es"
  defines "s \<equiv> exec_state_of l k" and "t \<equiv> exec_state_of (hedge_run sk now es l) k"
  shows "rtranclp is_allowed_status_transition (es_status s) (es_status t)
    \<and> (is_terminal_status (es_status s) \<longrightarrow> es_status t = es_status s)
    \<and> dval (es_filled_qty s) \<le> dval (es_filled_qty t)"
proof -
  have "forward s (exec_state_of l k)" using assms(1) by (simp add: forward_def s_def)
  from forward_run.run_keeps[OF this assms(2,3)] have "forward s t" unfolding t_def .
  then show ?thesis unfolding forward_def using exec_fsm.path_from_terminal by blast
qed

section \<open>Venue balances\<close>

definition venue_entry :: "ledger \<Rightarrow> string \<Rightarrow> string \<Rightarrow> venue_balance" where
  "venue_entry l v c = find2 (empty_venue_balance 0) (lg_venue_balances l) v c"

definition venue_ok :: "ledger \<Rightarrow> bool" where
  "venue_ok l \<longleftrightarrow> (\<forall>v c. vb_available (venue_entry l v c)
     = dsub (vb_total (venue_entry l v c)) (vb_reserved (venue_entry l v c)))"

lemma venue_entry_cong: "lg_venue_balances l = lg_venue_balances l' \<Longrightarrow> venue_entry l = venue_entry l'"
  by (simp add: venue_entry_def fun_eq_iff)

lemma find2_default:
  "find2 (empty_venue_balance a) m v c = find2 (empty_venue_balance b) m v c
   \<or> (find2 (empty_venue_balance a) m v c = empty_venue_balance a
      \<and> find2 (empty_venue_balance b) m v c = empty_venue_balance b)"
  by (simp add: find2_def find_or_def split: option.splits)

lemma ensure_venue_total: "vb_total (ensure_venue_balance now l v c) = vb_total (venue_entry l v c)"
  using find2_default[of now "lg_venue_balances l" v c 0]
  by (auto simp: ensure_venue_balance_def venue_entry_def Let_def empty_venue_balance_def dest: is_dzero)

lemma venue_entry_set [simp]:
  "venue_entry (set_venue_balance v c e l) v' c' = (if v' = v \<and> c' = c then e else venue_entry l v' c')"
  by (simp add: venue_entry_def set_venue_balance_def)

lemma venue_total_move:
  "vb_total (venue_entry (move_venue_total now f v c l) v' c') =
    (if v' = v \<and> c' = c then f (vb_total (venue_entry l v c)) else vb_total (venue_entry l v' c'))"
  by (simp add: move_venue_total_def Let_def ensure_venue_total)

lemma venue_ok_move: "venue_ok l \<Longrightarrow> venue_ok (move_venue_total now f v c l)"
  by (simp add: venue_ok_def move_venue_total_def Let_def)

lemma venue_ok_frame:
  "lg_venue_balances l = lg_venue_balances l' \<Longrightarrow> venue_ok l \<Longrightarrow> venue_ok l'"
  by (simp add: venue_ok_def venue_entry_cong[of l l'])

lemma venue_ok_settle:
  "venue_ok l \<Longrightarrow> venue_ok (settle_base now sd v c d l)"
  "venue_ok l \<Longrightarrow> venue_ok (settle_quote now sd v c d l)"
  "venue_ok l \<Longrightarrow> venue_ok (settle_venue_fee now v c d l)"
  by (simp_all add: settle_base_def settle_quote_def settle_venue_fee_def venue_ok_move)

lemma venue_ok_same [simp]:
  "venue_ok (upd_stats f l) = venue_ok l" "venue_ok (plan_mismatch l) = venue_ok l"
  "venue_ok (set_exec_state k st l) = venue_ok l" "venue_ok (add_hedge_record rec l) = venue_ok l"
  by (simp_all add: venue_ok_def venue_entry_def)

lemma venue_ok_settle_report: "venue_ok l \<Longrightarrow> venue_ok (fst (settle_report sk now i r st d l))"
  by (simp add: settle_report_def Let_def case_prod_beta venue_ok_settle)

lemma venue_ok_applied: "venue_ok l \<Longrightarrow> venue_ok (applied_ledger sk now r l)"
  by (auto simp: applied_ledger_def apply_execution_report_locked_def Let_def case_prod_beta
      intro!: venue_ok_settle_report split: option.splits)

interpretation venue_run: report_invariant venue_ok "\<lambda>r :: exec_report. True" sk now for sk now
  by unfold_locales (auto intro: venue_ok_applied dest: bookkeeping_states(2) venue_ok_frame)

text \<open>On every venue and currency the available balance is the total minus the reserved
  balance, after any sequence of reports and intents and after any manual update.\<close>

theorem venue_available_is_total_minus_reserved:
  assumes "venue_ok l"
  shows "venue_ok (hedge_run sk now es l) \<and> venue_ok (snd (UpdateVenueBalance now v c tot res l))"
proof
  show "venue_ok (hedge_run sk now es l)"
    by (rule venue_run.run_keeps[OF assms]) (simp_all add: queued_all_def reports_all_def)
  show "venue_ok (snd (UpdateVenueBalance now v c tot res l))"
    using assms by (simp add: UpdateVenueBalance_def venue_ok_def)
qed

section \<open>No quantity is counted twice\<close>

definition side_sign :: "side \<Rightarrow> rat" where
  "side_sign sd = (case sd of SIDE_BUY \<Rightarrow> 1 | SIDE_SELL \<Rightarrow> -1 | SIDE_UNSPECIFIED \<Rightarrow> 0)"

abbreviation venue_total :: "ledger \<Rightarrow> string \<Rightarrow> string \<Rightarrow> decimal" where
  "venue_total l v c \<equiv> vb_total (venue_entry l v c)"

text \<open>The reports of one execution: same intent, order and venue, and fees not paid in base.\<close>

definition same_execution ::
    "exec_intent \<Rightarrow> string \<Rightarrow> string \<Rightarrow> nat \<Rightarrow> int \<Rightarrow> exec_report \<Rightarrow> bool" where
  "same_execution i k v s N r \<longleftrightarrow> xr_intent_id r = ei_intent_id i \<and> execution_state_key r = k
     \<and> xr_venue r = v \<and> grid s N (xr_filled_qty r)
     \<and> snd (report_fee (in_quote (ei_instrument i)) r) \<noteq> in_base (ei_instrument i)"

lemma venue_entry_frames [simp]:
  "venue_entry (upd_stats f l) = venue_entry l" "venue_entry (plan_mismatch l) = venue_entry l"
  "venue_entry (set_exec_state k st l) = venue_entry l"
  "venue_entry (add_hedge_record rec l) = venue_entry l"
  by (rule venue_entry_cong, simp)+

lemma settle_report_base:
  assumes "same_execution i k v s N r" "in_base (ei_instrument i) \<noteq> []" "in_quote (ei_instrument i) \<noteq> []"
    and "in_base (ei_instrument i) \<noteq> in_quote (ei_instrument i)"
  shows "venue_total (fst (settle_report sk now i r st d l)) v (in_base (ei_instrument i)) =
    (case ei_side i of SIDE_BUY \<Rightarrow> dadd (venue_total l v (in_base (ei_instrument i))) d
      | SIDE_SELL \<Rightarrow> dsub (venue_total l v (in_base (ei_instrument i))) d
      | SIDE_UNSPECIFIED \<Rightarrow> venue_total l v (in_base (ei_instrument i)))"
proof -
  have "report_currencies i r = (in_base (ei_instrument i), in_quote (ei_instrument i))"
    using assms(2,3) by (simp add: report_currencies_def extract_base_quote_def)
  then show ?thesis
    using assms
    by (auto simp: settle_report_def Let_def case_prod_beta settle_base_def settle_quote_def
        settle_venue_fee_def venue_total_move same_execution_def)
qed

text \<open>What one report does to the base balance and to the filled quantity of its execution.\<close>

lemma applied_telescopes:
  fixes sk :: bool and now :: int
  assumes i: "find (lg_intents l) (ei_intent_id i) = Some i"
    and r: "same_execution i k v s N r"
    and c: "in_base (ei_instrument i) \<noteq> []" "in_quote (ei_instrument i) \<noteq> []"
      "in_base (ei_instrument i) \<noteq> in_quote (ei_instrument i)"
    and g: "grid s N (es_filled_qty (exec_state_of l k))" "grid s M (venue_total l v (in_base (ei_instrument i)))"
    and fit: "M + 2 * N \<le> max_units"
  defines "l' \<equiv> applied_ledger sk now r l" and "b \<equiv> in_base (ei_instrument i)"
  shows "dval (venue_total l' v b) = dval (venue_total l v b) + side_sign (ei_side i) *
      (dval (es_filled_qty (exec_state_of l' k)) - dval (es_filled_qty (exec_state_of l k)))"
    and "grid s N (es_filled_qty (exec_state_of l' k))"
    and "grid s (M + 2 * N) (venue_total l' v b)"
proof -
  let ?f = "es_filled_qty (exec_state_of l k)" and ?x = "xr_filled_qty r"
  have rk: "xr_intent_id r = ei_intent_id i" "execution_state_key r = k" "grid s N ?x"
    using r by (auto simp: same_execution_def)
  have N: "0 \<le> N" "0 \<le> M" using grid_nonneg[OF rk(3)] grid_nonneg[OF g(2)] by auto
  have fits: "N + N \<le> max_units" "N \<le> max_units" "M + (N + N) \<le> max_units" using fit N by auto
  have l': "l' = fst (snd (apply_execution_report_locked sk now r l))" by (simp add: l'_def applied_ledger_def)
  have wide: "grid s (M + 2 * N) (venue_total l v b)"
    using g(2) N unfolding b_def by (auto intro: grid_mono)
  note cmp = grid_cmp[OF rk(3) g(1) fits(2,2)]
  let ?d = "dsub ?x ?f"
  note d = grid_sub[OF rk(3) g(1) fits(1)]
  have zd: "grid s 0 dzero" using g(1) grid_le_18 by auto
  have pos: "0 < dcmp ?d dzero \<longleftrightarrow> dval ?f < dval ?x"
    using grid_cmp(2)[OF d(2) zd fits(1)] d(1) by simp
  have moved: "dval (venue_total l' v b) = dval (venue_total l v b) + side_sign (ei_side i) *
      (dval (es_filled_qty (exec_state_of l' k)) - dval ?f)
    \<and> grid s N (es_filled_qty (exec_state_of l' k)) \<and> grid s (M + 2 * N) (venue_total l' v b)"
  proof (cases "accepts l r")
    case False
    then have "exec_state_of l' k = exec_state_of l k"
      by (simp add: l'_def exec_state_applied)
    moreover have "venue_entry l' = venue_entry l"
      using False i rk by (auto simp: l' apply_execution_report_locked_def accepts_def Let_def)
    ultimately show ?thesis using g(1) wide by simp
  next
    case True
    have st: "es_filled_qty (exec_state_of l' k) = ?x"
      using True rk by (simp add: l'_def exec_state_applied)
    have ge: "dval ?f \<le> dval ?x"
      using True i rk cmp(1) by (auto simp: accepts_def not_less)
    show ?thesis
    proof (cases "dval ?f < dval ?x")
      case False
      then have "venue_entry l' = venue_entry l"
        using True i rk pos by (auto simp: l' apply_execution_report_locked_def accepts_def Let_def)
      then show ?thesis using st False ge rk(3) wide by simp
    next
      case True2: True
      have "venue_total l' v b = (case ei_side i of SIDE_BUY \<Rightarrow> dadd (venue_total l v b) ?d
          | SIDE_SELL \<Rightarrow> dsub (venue_total l v b) ?d | SIDE_UNSPECIFIED \<Rightarrow> venue_total l v b)"
        using True True2 i rk pos settle_report_base[OF r c, of sk now "exec_state_of l k" ?d "set_exec_state k (exec_state_of l k) l"]
        by (cases "ei_side i")
          (auto simp: l' b_def apply_execution_report_locked_def accepts_def Let_def case_prod_beta)
      moreover have "M + 2 * N = M + (N + N)" by simp
      ultimately show ?thesis
        using grid_add[OF g(2)[folded b_def] d(2) fits(3)] grid_sub[OF g(2)[folded b_def] d(2) fits(3)]
          d(1) st rk(3) wide
        by (cases "ei_side i") (simp_all add: side_sign_def)
    qed
  qed
  then show "dval (venue_total l' v b) = dval (venue_total l v b) + side_sign (ei_side i) *
      (dval (es_filled_qty (exec_state_of l' k)) - dval (es_filled_qty (exec_state_of l k)))"
    "grid s N (es_filled_qty (exec_state_of l' k))" "grid s (M + 2 * N) (venue_total l' v b)" by auto
qed

text \<open>C5. Nothing is counted twice. Deliver the reports of one execution in any order, with
  duplicates, replays, stale quantities, mismatches and status regressions: the base balance
  of the venue moves by exactly the change of the execution's filled quantity, bought or
  sold.\<close>

theorem venue_base_tracks_filled_quantity:
  assumes "find (lg_intents l) (ei_intent_id i) = Some i" "ei_intent_id i \<noteq> []"
    and "\<forall>r \<in> set rs. same_execution i k v s N r"
    and "in_base (ei_instrument i) \<noteq> []" "in_quote (ei_instrument i) \<noteq> []"
      "in_base (ei_instrument i) \<noteq> in_quote (ei_instrument i)"
    and "grid s N (es_filled_qty (exec_state_of l k))" "grid s M (venue_total l v (in_base (ei_instrument i)))"
    and "M + 4 * N \<le> max_units"
  shows "dval (venue_total (fold (\<lambda>r l. fst (ApplyExecutionReport sk now r l)) rs l) v (in_base (ei_instrument i)))
    = dval (venue_total l v (in_base (ei_instrument i))) + side_sign (ei_side i) *
      (dval (es_filled_qty (exec_state_of (fold (\<lambda>r l. fst (ApplyExecutionReport sk now r l)) rs l) k))
        - dval (es_filled_qty (exec_state_of l k)))"
proof -
  let ?b = "in_base (ei_instrument i)"
  define T where "T l = dval (venue_total l v ?b)" for l
  define F where "F l = dval (es_filled_qty (exec_state_of l k))" for l
  define I where "I m \<longleftrightarrow> find (lg_intents m) (ei_intent_id i) = Some i \<and> T m = T l + side_sign (ei_side i) * (F m - F l)
      \<and> grid s N (es_filled_qty (exec_state_of m k)) \<and> grid s (M + 2 * N) (venue_total m v ?b)" for m
  have N: "0 \<le> N" using assms(7) by (rule grid_nonneg)
  have step: "I (fst (ApplyExecutionReport sk now r m))" if I: "I m" and r: "r \<in> set rs" for r m
  proof (cases "execution_report_key r \<in> set (lg_seen_reports m)")
    case True
    then show ?thesis using I by (simp add: I_def T_def F_def ApplyExecutionReport_outcome)
  next
    case False
    let ?m = "m\<lparr>lg_seen_reports := execution_report_key r # lg_seen_reports m\<rparr>"
    have same: "venue_entry ?m = venue_entry m" "exec_state_of ?m = exec_state_of m"
      by (rule venue_entry_cong, simp) (rule exec_state_of_cong, simp)
    have rx: "same_execution i k v s N r" using assms(3) r by blast
    have "xr_intent_id r = ei_intent_id i" using rx by (simp add: same_execution_def)
    then have e: "fst (ApplyExecutionReport sk now r m) = applied_ledger sk now r ?m"
      using False I assms(2) by (simp add: I_def ApplyExecutionReport_outcome)
    have Mm: "grid s (M + 2 * N) (venue_total ?m v ?b)" "grid s N (es_filled_qty (exec_state_of ?m k))"
      "find (lg_intents ?m) (ei_intent_id i) = Some i" using I same by (simp_all add: I_def)
    have "M + 2 * N + 2 * N \<le> max_units" using assms(9) by simp
    note a = applied_telescopes[OF Mm(3) rx assms(4-6) Mm(2,1) this, of sk now]
    have t: "T (applied_ledger sk now r ?m) = T l + side_sign (ei_side i) * (F (applied_ledger sk now r ?m) - F l)"
      using a(1) I same by (simp add: I_def T_def F_def algebra_simps)
    have "grid s (M + 2 * N) (venue_total (applied_ledger sk now r ?m) v ?b)"
    proof (rule grid_of_value)
      show "s \<le> 18" "0 \<le> scale (venue_total (applied_ledger sk now r ?m) v ?b)"
        "scale (venue_total (applied_ledger sk now r ?m) v ?b) \<le> int s"
        using a(3) by (auto simp: grid_def)
      have bd: "\<bar>dval d * 10 ^ s\<bar> \<le> of_int n" if "grid s n d" for d n
        using grid_dval_bound[OF that] by (simp add: abs_mult field_simps)
      have "\<bar>side_sign (ei_side i)\<bar> \<le> 1" by (simp add: side_sign_def split: side.splits)
      then have "\<bar>side_sign (ei_side i) * (F (applied_ledger sk now r ?m) - F l) * 10 ^ s\<bar>
          \<le> \<bar>(F (applied_ledger sk now r ?m) - F l) * 10 ^ s\<bar>"
        by (simp add: abs_mult mult_left_le_one_le mult.assoc)
      moreover have "\<bar>F (applied_ledger sk now r ?m) * 10 ^ s\<bar> \<le> of_int N" "\<bar>F l * 10 ^ s\<bar> \<le> of_int N"
        using bd[OF a(2)] bd[OF assms(7)] by (simp_all add: F_def)
      moreover have "\<bar>T l * 10 ^ s\<bar> \<le> of_int M" using bd[OF assms(8)] by (simp add: T_def)
      ultimately have "\<bar>T (applied_ledger sk now r ?m) * 10 ^ s\<bar> \<le> of_int M + (of_int N + of_int N)"
        unfolding t distrib_right left_diff_distrib by linarith
      then show "\<bar>dval (venue_total (applied_ledger sk now r ?m) v ?b) * 10 ^ s\<bar> \<le> of_int (M + 2 * N)"
        by (simp add: T_def)
    qed
    then show ?thesis unfolding e using t a(2) Mm(3) by (simp add: I_def)
  qed
  have "I l" using assms(1,7,8) N grid_mono[of s M _ "M + 2 * N"] by (simp add: I_def)
  then have "I (fold (\<lambda>r l. fst (ApplyExecutionReport sk now r l)) rs l)"
    using step by (intro fold_invariant[where Q = "\<lambda>r. r \<in> set rs" and P = I]) auto
  then show ?thesis by (simp add: I_def T_def F_def)
qed

section \<open>The hedge journal and its running summary\<close>

fun running :: "decimal list \<Rightarrow> decimal option" where
  "running [] = None"
| "running (x # xs) = Some (foldl dadd x xs)"

lemma running_snoc: "running (xs @ [x]) = Some (case running xs of None \<Rightarrow> x | Some p \<Rightarrow> dadd p x)"
  by (cases xs) simp_all

definition records_for :: "ledger \<Rightarrow> string \<Rightarrow> string \<Rightarrow> hedge_record list" where
  "records_for l v isym = filter (\<lambda>h. hr_instrument_symbol h = isym) (find_or [] (lg_hedge_records l) v)"

text \<open>Venue names without the separator of the summary key.\<close>

definition plain_venue :: "string \<Rightarrow> bool" where
  "plain_venue v \<longleftrightarrow> CHR ''|'' \<notin> set v"

definition journal_ok :: "ledger \<Rightarrow> bool" where
  "journal_ok l \<longleftrightarrow> distinct (map fst (lg_hedge_records l)) \<and>
     (\<forall>v isym. plain_venue v \<longrightarrow>
        find (lg_hedge_summary l) (v @ ''|'' @ isym) = running (map hr_hedge_pnl (records_for l v isym)))"

lemma key_split:
  assumes "plain_venue v" "plain_venue v'"
  shows "v @ ''|'' @ a = v' @ ''|'' @ b \<longleftrightarrow> v = v' \<and> a = b"
  using assms
proof (induction v arbitrary: v')
  case Nil
  then show ?case by (cases v') (auto simp: plain_venue_def)
next
  case (Cons c v)
  then show ?case by (cases v') (auto simp: plain_venue_def)
qed

lemma journal_ok_add:
  assumes "journal_ok l" "plain_venue (hr_venue rec)"
  shows "journal_ok (add_hedge_record rec l)"
proof -
  have r: "records_for (add_hedge_record rec l) v isym =
      (if v = hr_venue rec \<and> isym = hr_instrument_symbol rec then records_for l v isym @ [rec]
       else records_for l v isym)" for v isym
    by (simp add: records_for_def add_hedge_record_def Let_def)
  have "find (lg_hedge_summary (add_hedge_record rec l)) (v @ ''|'' @ isym)
      = running (map hr_hedge_pnl (records_for (add_hedge_record rec l) v isym))"
    if "plain_venue v" for v isym
    using assms that key_split[OF that assms(2)] unfolding r
    by (simp add: journal_ok_def add_hedge_record_def Let_def running_snoc del: append_Cons)
  moreover have "distinct (map fst (lg_hedge_records (add_hedge_record rec l)))"
    using assms(1) by (simp add: journal_ok_def add_hedge_record_def Let_def distinct_put)
  ultimately show ?thesis by (simp add: journal_ok_def)
qed

lemma journal_ok_frame:
  "lg_hedge_records l = lg_hedge_records l' \<Longrightarrow> lg_hedge_summary l = lg_hedge_summary l'
   \<Longrightarrow> journal_ok l \<Longrightarrow> journal_ok l'"
  by (simp add: journal_ok_def records_for_def)

lemma settle_journal [simp]:
  "lg_hedge_records (settle_base now sd v c d l) = lg_hedge_records l"
  "lg_hedge_summary (settle_base now sd v c d l) = lg_hedge_summary l"
  "lg_hedge_records (settle_quote now sd v c d l) = lg_hedge_records l"
  "lg_hedge_summary (settle_quote now sd v c d l) = lg_hedge_summary l"
  "lg_hedge_records (settle_venue_fee now v c d l) = lg_hedge_records l"
  "lg_hedge_summary (settle_venue_fee now v c d l) = lg_hedge_summary l"
  by (simp_all add: settle_base_def settle_quote_def settle_venue_fee_def)

lemma journal_ok_settle:
  assumes "journal_ok l" "plain_venue (xr_venue r)"
  shows "journal_ok (fst (settle_report sk now i r st d l))"
proof -
  obtain l0 rec f where e: "fst (settle_report sk now i r st d l) = upd_stats f (add_hedge_record rec l0)"
    "hr_venue rec = xr_venue r" "lg_hedge_records l0 = lg_hedge_records l"
    "lg_hedge_summary l0 = lg_hedge_summary l"
    by (simp add: settle_report_def Let_def case_prod_beta)
  have "journal_ok l0" by (rule journal_ok_frame[OF _ _ assms(1)]) (simp_all add: e)
  then have "journal_ok (add_hedge_record rec l0)" by (rule journal_ok_add) (simp add: e assms(2))
  then show ?thesis unfolding e(1) by (rule journal_ok_frame[rotated 2]) simp_all
qed

lemma journal_ok_applied:
  assumes "journal_ok l" "plain_venue (xr_venue r)"
  shows "journal_ok (applied_ledger sk now r l)"
proof -
  have same: "journal_ok (plan_mismatch l)" "journal_ok (upd_stats f (set_exec_state k st l))"
    "journal_ok (set_exec_state k st l)" for f k st
    by (rule journal_ok_frame[OF _ _ assms(1)], simp, simp)+
  have "journal_ok (set_exec_state k' st' (fst (settle_report sk now i r st d (set_exec_state k st l))))"
    for k' st' i st d k
    by (rule journal_ok_frame[OF _ _ journal_ok_settle[OF same(3) assms(2)]]) simp_all
  moreover have "journal_ok (set_exec_state k' st' (set_exec_state k st l))" for k' st' k st
    by (rule journal_ok_frame[OF _ _ assms(1)]) simp_all
  ultimately show ?thesis using assms(1) same
    by (auto simp: applied_ledger_def apply_execution_report_locked_def Let_def case_prod_beta
        split: option.splits)
qed

interpretation journal_run: report_invariant journal_ok
  "\<lambda>r :: exec_report. plain_venue (xr_venue r)" sk now for sk now
  by unfold_locales
     (auto intro: journal_ok_applied dest: bookkeeping_states(3,4) journal_ok_frame)

lemma journal_ok_record:
  assumes "journal_ok l" "plain_venue (hx_venue h)"
  shows "journal_ok (fst (snd (RecordHedgeExecution rp now h l)))"
proof -
  let ?l = "l\<lparr>lg_hedge_records := put (hx_venue h) (find_or [] (lg_hedge_records l) (hx_venue h)) (lg_hedge_records l)\<rparr>"
  have "records_for ?l = records_for l" by (simp add: records_for_def fun_eq_iff)
  then have k: "journal_ok ?l"
    using assms(1) by (simp add: journal_ok_def distinct_put)
  then show ?thesis
    using assms by (auto simp: RecordHedgeExecution_def Let_def intro!: journal_ok_add)
qed

text \<open>The query for one venue and instrument, without time limits.\<close>

definition query_for :: "string \<Rightarrow> string \<Rightarrow> hedge_pnl_query" where
  "query_for v isym = \<lparr>hq_venue = v, hq_instrument_symbol = isym, hq_from_time = None, hq_to_time = None\<rparr>"

lemma aggregate_fold:
  assumes "v \<noteq> []" "\<forall>h \<in> set hs. hr_instrument_symbol h = isym"
    and "hv_venue agg = v" "hv_instrument_symbol agg = isym"
  shows "fold (aggregate_hedge v) hs [(v @ ''|'' @ isym, agg)] =
    [(v @ ''|'' @ isym, agg\<lparr>hv_total_hedge_pnl := foldl dadd (hv_total_hedge_pnl agg) (map hr_hedge_pnl hs),
      hv_hedge_count := foldl (\<lambda>n _. i32 (n + 1)) (hv_hedge_count agg) hs,
      hv_total_hedge_volume := foldl dadd (hv_total_hedge_volume agg) (map hr_executed_qty hs)\<rparr>)]"
  using assms(2-)
proof (induction hs arbitrary: agg)
  case Nil
  then show ?case by simp
next
  case (Cons h hs)
  let ?agg = "agg\<lparr>hv_total_hedge_pnl := dadd (hv_total_hedge_pnl agg) (hr_hedge_pnl h),
    hv_hedge_count := i32 (hv_hedge_count agg + 1),
    hv_total_hedge_volume := dadd (hv_total_hedge_volume agg) (hr_executed_qty h)\<rparr>"
  have "aggregate_hedge v h [(v @ ''|'' @ isym, agg)] = [(v @ ''|'' @ isym, ?agg)]"
    using Cons.prems assms(1) by (simp add: aggregate_hedge_def Let_def put_def find_or_def find_def)
  with Cons.IH[of ?agg] Cons.prems show ?case by simp
qed

lemma fold_only_key:
  assumes "distinct (map fst m)"
  shows "fold (\<lambda>(k, x) a. if k \<noteq> v then a else f x a) m a0
    = (case find m v of None \<Rightarrow> a0 | Some x \<Rightarrow> f x a0)"
  using assms
proof (induction m arbitrary: a0)
  case Nil
  then show ?case by simp
next
  case (Cons kv m)
  obtain k x where kv: "kv = (k, x)" by (cases kv)
  have "find m k = None" using Cons.prems kv by (auto simp: find_def map_of_eq_None_iff)
  with Cons kv show ?case by (auto simp: find_Cons)
qed

text \<open>The reported hedge profit is the running summary. After any run of reports, intents
  and manual records on venues whose names are free of the separator, asking for one venue and
  instrument returns the journal's records of that pair added up in order, and that figure is
  the running summary kept beside the journal; nothing is returned when there is no record.\<close>

theorem hedge_report_agrees_with_summary:
  fixes sk rp :: bool and now :: int
  assumes "journal_ok l" "queued_all (\<lambda>r. plain_venue (xr_venue r)) l"
    and "reports_all (\<lambda>r. plain_venue (xr_venue r)) es" "plain_venue (hx_venue h)"
    and "plain_venue v" "v \<noteq> []" "isym \<noteq> []"
  defines "l' \<equiv> fst (snd (RecordHedgeExecution rp now h (hedge_run sk now es l)))"
  shows "map hv_total_hedge_pnl (GetHedgePnL (query_for v isym) l')
    = (case find (lg_hedge_summary l') (v @ ''|'' @ isym) of None \<Rightarrow> [] | Some p \<Rightarrow> [p])"
proof -
  have j: "journal_ok l'"
    unfolding l'_def by (intro journal_ok_record journal_run.run_keeps assms)
  have sel: "hedge_record_selected (query_for v isym) = (\<lambda>h. hr_instrument_symbol h = isym)"
    using assms(7) by (simp add: hedge_record_selected_def query_for_def fun_eq_iff)
  have "GetHedgePnL (query_for v isym) l' = map snd (fold (\<lambda>(k, x) a. if k \<noteq> v then a
      else fold (aggregate_hedge v) (filter (\<lambda>h. hr_instrument_symbol h = isym) x) a) (lg_hedge_records l') [])"
    unfolding GetHedgePnL_def sel using assms(6)
    by (intro arg_cong[where f = "map snd"] fold_cong) (auto simp: query_for_def)
  also have "\<dots> = map snd (fold (aggregate_hedge v) (records_for l' v isym) [])"
    using j unfolding journal_ok_def
    by (simp only: fold_only_key) (simp add: records_for_def find_or_def split: option.splits)
  finally have g: "GetHedgePnL (query_for v isym) l' = map snd (fold (aggregate_hedge v) (records_for l' v isym) [])" .
  have s: "find (lg_hedge_summary l') (v @ ''|'' @ isym) = running (map hr_hedge_pnl (records_for l' v isym))"
    using j assms(5) by (simp add: journal_ok_def)
  show ?thesis
  proof (cases "records_for l' v isym")
    case Nil
    then show ?thesis unfolding g s by simp
  next
    case (Cons x xs)
    have all: "\<forall>h \<in> set (x # xs). hr_instrument_symbol h = isym"
      unfolding Cons[symmetric] by (simp add: records_for_def)
    have "aggregate_hedge v x [] = [(v @ ''|'' @ isym, \<lparr>hv_venue = v, hv_instrument_symbol = isym,
        hv_total_hedge_pnl = hr_hedge_pnl x, hv_hedge_count = 1, hv_total_hedge_volume = hr_executed_qty x\<rparr>)]"
      using all by (simp add: aggregate_hedge_def Let_def put_def find_or_def find_def)
    with aggregate_fold[OF assms(6), of xs isym] all show ?thesis unfolding g s Cons by simp
  qed
qed

section \<open>Reports before their intent\<close>

definition core :: "ledger \<Rightarrow> ledger" where
  "core l = l\<lparr>lg_stats := empty_stats, lg_pending := [], lg_seen_reports := []\<rparr>"

text \<open>Equal in everything but the counters and the order of the pending map.\<close>

definition same_hedge_book :: "ledger \<Rightarrow> ledger \<Rightarrow> bool" where
  "same_hedge_book a b \<longleftrightarrow> core a = core b \<and> lg_seen_reports a = lg_seen_reports b
     \<and> find (lg_pending a) = find (lg_pending b)"

lemma core_upd [simp]:
  "core (upd_stats f l) = core l" "core (plan_mismatch l) = core l" "core (core l) = core l"
  "core (l\<lparr>lg_seen_reports := ks\<rparr>) = core l" "core (l\<lparr>lg_pending := p\<rparr>) = core l"
  by (simp_all add: core_def upd_stats_def plan_mismatch_def)

lemma core_sel [simp]:
  "lg_intents (core l) = lg_intents l" "lg_exec_states (core l) = lg_exec_states l"
  by (simp_all add: core_def)

lemma exec_state_of_core [simp]: "exec_state_of (core l) = exec_state_of l"
  by (rule exec_state_of_cong) simp

lemma core_ops:
  "core (move_venue_total now f v c l) = core (move_venue_total now f v c (core l))"
  "core (add_hedge_record rec l) = core (add_hedge_record rec (core l))"
  "core (set_exec_state k st l) = core (set_exec_state k st (core l))"
  by (simp_all add: core_def move_venue_total_def ensure_venue_balance_def set_venue_balance_def
      add_hedge_record_def set_exec_state_def Let_def)

lemma core_settle_steps:
  "core (settle_base now sd v c d l) = core (settle_base now sd v c d (core l))"
  "core (settle_quote now sd v c d l) = core (settle_quote now sd v c d (core l))"
  "core (settle_venue_fee now v c d l) = core (settle_venue_fee now v c d (core l))"
  by (auto simp: settle_base_def settle_quote_def settle_venue_fee_def intro: core_ops(1))

lemma core_cong:
  assumes "core a = core b"
  shows "core (settle_base now sd v c d a) = core (settle_base now sd v c d b)"
    "core (settle_quote now sd v c d a) = core (settle_quote now sd v c d b)"
    "core (settle_venue_fee now v c d a) = core (settle_venue_fee now v c d b)"
    "core (add_hedge_record rec a) = core (add_hedge_record rec b)"
    "core (set_exec_state k st a) = core (set_exec_state k st b)"
  by (subst core_settle_steps core_ops, subst assms, simp only: core_settle_steps[symmetric] core_ops[symmetric])+

lemma core_settle:
  assumes "core a = core b"
  shows "core (fst (settle_report sk now i r st d a)) = core (fst (settle_report sk now i r st d b))"
  unfolding settle_report_def Let_def case_prod_beta fst_conv core_upd
  by (intro core_cong assms)

lemma core_applied:
  assumes "core a = core b"
  shows "core (applied_ledger sk now r a) = core (applied_ledger sk now r b)"
proof -
  have i: "lg_intents a = lg_intents b" and e: "exec_state_of a = exec_state_of b"
    using assms by (metis core_sel(1)) (metis assms exec_state_of_core)
  have s: "core (set_exec_state k st a) = core (set_exec_state k st b)" for k st
    by (rule core_cong(5)[OF assms])
  have t: "core (set_exec_state k' st' (fst (settle_report sk now i r st d (set_exec_state k s0 a))))
      = core (set_exec_state k' st' (fst (settle_report sk now i r st d (set_exec_state k s0 b))))"
    for k' st' i st d k s0
    by (intro core_cong core_settle assms)
  have u: "core (set_exec_state k' st' (set_exec_state k s0 a)) = core (set_exec_state k' st' (set_exec_state k s0 b))"
    for k' st' k s0
    by (intro core_cong assms)
  show ?thesis
    by (simp add: applied_ledger_def apply_execution_report_locked_def i e Let_def case_prod_beta
        assms s t u split: option.split)
qed

text \<open>The reports of a delivery that are not duplicates, in order.\<close>

fun fresh :: "string list \<Rightarrow> exec_report list \<Rightarrow> exec_report list" where
  "fresh ks [] = []"
| "fresh ks (r # rs) = (if execution_report_key r \<in> set ks then fresh ks rs
     else r # fresh (execution_report_key r # ks) rs)"

abbreviation deliver :: "bool \<Rightarrow> int \<Rightarrow> exec_report list \<Rightarrow> ledger \<Rightarrow> ledger" where
  "deliver sk now rs l \<equiv> fold (\<lambda>r l. fst (ApplyExecutionReport sk now r l)) rs l"

lemma deliver_unknown:
  assumes "find (lg_intents l) k = None" "\<forall>r \<in> set rs. xr_intent_id r = k"
  shows "core (deliver sk now rs l) = core l
    \<and> lg_seen_reports (deliver sk now rs l) = rev (map execution_report_key (fresh (lg_seen_reports l) rs)) @ lg_seen_reports l
    \<and> (\<forall>j. find (lg_pending (deliver sk now rs l)) j =
        (if j = k \<and> fresh (lg_seen_reports l) rs \<noteq> []
         then Some (find_or [] (lg_pending l) k @ fresh (lg_seen_reports l) rs) else find (lg_pending l) j))"
  using assms
proof (induction rs arbitrary: l)
  case Nil
  then show ?case by simp
next
  case (Cons r rs)
  let ?l = "fst (ApplyExecutionReport sk now r l)"
  have r: "xr_intent_id r = k" using Cons.prems(2) by simp
  have c: "core ?l = core l" and i: "lg_intents ?l = lg_intents l"
    using Cons.prems(1) r by (simp_all add: ApplyExecutionReport_outcome)
  have i': "find (lg_intents ?l) k = None" using i Cons.prems(1) by simp
  have rs: "\<forall>r \<in> set rs. xr_intent_id r = k" using Cons.prems(2) by simp
  note ih = Cons.IH[OF i' rs]
  show ?case
    using ih c Cons.prems(1) r
    by (cases "execution_report_key r \<in> set (lg_seen_reports l)")
       (simp_all add: ApplyExecutionReport_outcome find_or_def)
qed

lemma deliver_known:
  assumes "find (lg_intents l) k = Some i" "\<forall>r \<in> set rs. xr_intent_id r = k" "k \<noteq> []" "core l = core c"
  shows "core (deliver sk now rs l) = core (fold (\<lambda>r l. applied_ledger sk now r l) (fresh (lg_seen_reports l) rs) c)
    \<and> lg_seen_reports (deliver sk now rs l) = rev (map execution_report_key (fresh (lg_seen_reports l) rs)) @ lg_seen_reports l
    \<and> lg_pending (deliver sk now rs l) = lg_pending l"
  using assms
proof (induction rs arbitrary: l c)
  case Nil
  then show ?case by simp
next
  case (Cons r rs)
  let ?l = "fst (ApplyExecutionReport sk now r l)"
  have r: "xr_intent_id r = k" and rs: "\<forall>r \<in> set rs. xr_intent_id r = k" using Cons.prems(2) by auto
  show ?case
  proof (cases "execution_report_key r \<in> set (lg_seen_reports l)")
    case True
    then have "core ?l = core c" "find (lg_intents ?l) k = Some i" "lg_seen_reports ?l = lg_seen_reports l"
      "lg_pending ?l = lg_pending l"
      using Cons.prems by (simp_all add: ApplyExecutionReport_outcome)
    with Cons.IH[OF this(2) rs Cons.prems(3) this(1)] True show ?thesis by simp
  next
    case False
    let ?m = "l\<lparr>lg_seen_reports := execution_report_key r # lg_seen_reports l\<rparr>"
    have e: "?l = applied_ledger sk now r ?m"
      using False Cons.prems(1,3) r by (simp add: ApplyExecutionReport_outcome)
    have "core ?m = core c" using Cons.prems(4) by simp
    then have "core ?l = core (applied_ledger sk now r c)" unfolding e by (rule core_applied)
    moreover have "find (lg_intents ?l) k = Some i" unfolding e using Cons.prems(1) by simp
    ultimately show ?thesis using Cons.IH[OF _ rs Cons.prems(3), of ?l "applied_ledger sk now r c"] False
      by (simp add: e)
  qed
qed

lemma replay_core:
  "core a = core b \<Longrightarrow> core (fst (replay_reports sk now rs a)) = core (fold (\<lambda>r l. applied_ledger sk now r l) rs b)"
  unfolding replay_reports_ledger
proof (induction rs arbitrary: a b)
  case (Cons r rs)
  have "core (applied_ledger sk now r (upd_stats (\<lambda>s. s\<lparr>st_replayed := Suc (st_replayed s)\<rparr>) a))
      = core (applied_ledger sk now r b)"
    by (rule core_applied) (simp add: Cons.prems)
  from Cons.IH[OF this] show ?case by simp
qed simp

lemma replay_frame:
  "lg_seen_reports (fst (replay_reports sk now rs l)) = lg_seen_reports l"
  "lg_pending (fst (replay_reports sk now rs l)) = lg_pending l"
  unfolding replay_reports_ledger by (induction rs arbitrary: l) simp_all

text \<open>A report may overtake its intent. Delivering any reports of an intent before the intent
  itself leaves the same ledger as delivering them after it: same venue balances, journal,
  summary, execution states and seen keys; only the counters tell the difference.\<close>

theorem report_may_precede_intent:
  assumes "find (lg_intents l) (ei_intent_id i) = None" "find (lg_pending l) (ei_intent_id i) = None"
    and "ei_intent_id i \<noteq> []" "\<forall>r \<in> set rs. xr_intent_id r = ei_intent_id i"
  shows "same_hedge_book
    (fst (RememberExecutionIntent sk now i (deliver sk now rs l)))
    (deliver sk now rs (fst (RememberExecutionIntent sk now i l)))"
proof -
  let ?k = "ei_intent_id i" and ?q = "fresh (lg_seen_reports l) rs"
  define a where "a = deliver sk now rs l"
  define b where "b = l\<lparr>lg_intents := put ?k i (lg_intents l)\<rparr>"
  have A: "core a = core l" "lg_seen_reports a = rev (map execution_report_key ?q) @ lg_seen_reports l"
    "\<And>j. find (lg_pending a) j = (if j = ?k \<and> ?q \<noteq> [] then Some ?q else find (lg_pending l) j)"
    using deliver_unknown[OF assms(1,4), of sk now] assms(2) by (auto simp: a_def find_or_def)
  have R: "fst (RememberExecutionIntent sk now i l) = b"
    using assms(2,3) by (simp add: RememberExecutionIntent_def b_def)
  have "find (lg_intents b) ?k = Some i" by (simp add: b_def)
  note B = deliver_known[OF this assms(4,3) refl, of sk now]
  have sb: "lg_seen_reports b = lg_seen_reports l" "lg_pending b = lg_pending l" by (simp_all add: b_def)
  let ?a1 = "a\<lparr>lg_intents := put ?k i (lg_intents a)\<rparr>"
  have ab: "core ?a1 = core b"
  proof -
    have "lg_intents a = lg_intents l" using A(1) by (metis core_sel(1))
    then have "core ?a1 = (core a)\<lparr>lg_intents := put ?k i (lg_intents l)\<rparr>" by (simp add: core_def)
    also have "\<dots> = core b" unfolding A(1) by (simp add: b_def core_def)
    finally show ?thesis .
  qed
  have "same_hedge_book (fst (RememberExecutionIntent sk now i a)) (deliver sk now rs b)"
  proof (cases "?q = []")
    case True
    then have "fst (RememberExecutionIntent sk now i a) = ?a1"
      using assms(2,3) A(3) by (simp add: RememberExecutionIntent_def)
    then show ?thesis using True ab A B sb by (simp add: same_hedge_book_def fun_eq_iff)
  next
    case False
    let ?a2 = "?a1\<lparr>lg_pending := erase ?k (lg_pending a)\<rparr>"
    have e: "fst (RememberExecutionIntent sk now i a) = fst (replay_reports sk now ?q ?a2)"
      using assms(2,3) A(3) False by (simp add: RememberExecutionIntent_def Let_def)
    have "core ?a2 = core b" using ab by simp
    from replay_core[OF this, of sk now ?q] show ?thesis
      unfolding e same_hedge_book_def replay_frame
      using B sb A(2,3) assms(2) by (auto simp: fun_eq_iff)
  qed
  then show ?thesis by (simp add: a_def R)
qed

section \<open>A concrete hedge\<close>

text \<open>An intent to buy 2 BTC on a venue and two cumulative reports, one and two BTC filled.\<close>

definition ex_btc :: instrument where
  "ex_btc = \<lparr>in_symbol = ''BTC/USDT'', in_base = ''BTC'', in_quote = ''USDT''\<rparr>"

definition ex_intent :: exec_intent where
  "ex_intent = \<lparr>ei_meta = empty_meta, ei_intent_id = ''i1'', ei_batch_id = [], ei_internal_order_id = [],
     ei_reason = [], ei_hedge_flow_id = [], ei_provider_id = [], ei_source = HEDGE_SOURCE_AUTO_BATCH,
     ei_venue = ''kraken'', ei_instrument = ex_btc, ei_venue_symbol = [], ei_allowed_venues = [],
     ei_side = SIDE_BUY, ei_target_qty = mk_dec 2 0, ei_target_notional = dzero,
     ei_limit_price = Some (mk_dec 110 0), ei_max_slippage_bps = 0, ei_reference_mid = None,
     ei_strategy = EXEC_STRATEGY_LIMIT, ei_urgency = URGENCY_LOW, ei_tif = TIF_GTC,
     ei_timeout_ms = 0, ei_client_order_id = []\<rparr>"

definition ex_report :: "string \<Rightarrow> int \<Rightarrow> int \<Rightarrow> exec_report" where
  "ex_report rid filled remaining = \<lparr>xr_ts_event = None, xr_report_id = rid, xr_intent_id = ''i1'',
     xr_hedge_flow_id = [], xr_venue = ''kraken'', xr_instrument = ex_btc, xr_venue_symbol = [],
     xr_venue_order_id = ''v1'', xr_client_order_id = [], xr_status = EXEC_NEW,
     xr_filled_qty = mk_dec filled 0, xr_remaining_qty = mk_dec remaining 0,
     xr_average_price = mk_dec 100 0, xr_fee_total = None, xr_error = None\<rparr>"

definition ex_ready :: ledger where
  "ex_ready = empty_ledger\<lparr>lg_intents := [(''i1'', ex_intent)]\<rparr>"

lemma ex_report_wf: "0 \<le> f \<Longrightarrow> f < 10 \<Longrightarrow> wf_dec (xr_filled_qty (ex_report rid f rem))"
  by (simp add: ex_report_def wf_dec_def in_i64_def)

lemma exec_state_empty: "lg_exec_states l = [] \<Longrightarrow> exec_state_of l k = empty_exec_state"
  by (simp add: exec_state_of_def)

theorem report_redelivery_harmless_witness:
  "uncounted (deliver True 5 [ex_report ''r1'' 1 1, ex_report ''r1'' 1 1] (deliver True 5 [ex_report ''r1'' 1 1] ex_ready))
    = uncounted (deliver True 5 [ex_report ''r1'' 1 1] ex_ready)
   \<and> map fst (lg_venue_balances (deliver True 5 [ex_report ''r1'' 1 1] ex_ready)) = [''kraken'']"
proof
  show "uncounted (deliver True 5 [ex_report ''r1'' 1 1, ex_report ''r1'' 1 1] (deliver True 5 [ex_report ''r1'' 1 1] ex_ready))
    = uncounted (deliver True 5 [ex_report ''r1'' 1 1] ex_ready)"
    by (rule report_redelivery_harmless) simp
  show "map fst (lg_venue_balances (deliver True 5 [ex_report ''r1'' 1 1] ex_ready)) = [''kraken'']"
    by code_simp
qed

theorem execution_moves_forward_witness:
  "es_status (exec_state_of (hedge_run True 5 [Report (ex_report ''r1'' 2 0), Report (ex_report ''r2'' 1 1)] ex_ready)
      ''i1|v1'') = EXEC_FILLED
   \<and> 0 \<le> dval (es_filled_qty (exec_state_of (hedge_run True 5 [Report (ex_report ''r1'' 2 0), Report (ex_report ''r2'' 1 1)] ex_ready)
      ''i1|v1''))"
proof
  let ?es = "[Report (ex_report ''r1'' 2 0), Report (ex_report ''r2'' 1 1)]"
  show "es_status (exec_state_of (hedge_run True 5 ?es ex_ready) ''i1|v1'') = EXEC_FILLED" by code_simp
  have e: "exec_state_of ex_ready k = empty_exec_state" for k
    by (rule exec_state_empty) (simp add: ex_ready_def empty_ledger_def)
  have q: "queued_all (\<lambda>r. wf_dec (xr_filled_qty r)) ex_ready"
    by (simp add: queued_all_def ex_ready_def empty_ledger_def)
  have r: "reports_all (\<lambda>r. wf_dec (xr_filled_qty r)) ?es"
    by (auto simp: reports_all_def intro: ex_report_wf)
  have w: "wf_dec (es_filled_qty (exec_state_of ex_ready ''i1|v1''))"
    by (simp add: e empty_exec_state_def)
  show "0 \<le> dval (es_filled_qty (exec_state_of (hedge_run True 5 ?es ex_ready) ''i1|v1''))"
    using execution_moves_forward[OF w q r, where sk = True and now = 5] e by (simp add: empty_exec_state_def)
qed

lemma ex_ready_venue: "venue_entry ex_ready v c = empty_venue_balance 0"
  by (simp add: venue_entry_def ex_ready_def empty_ledger_def find2_def find_or_def)

theorem venue_available_is_total_minus_reserved_witness:
  "venue_ok (hedge_run True 5 [Report (ex_report ''r1'' 1 1)] ex_ready)"
proof -
  have "venue_ok ex_ready"
    by (simp add: venue_ok_def ex_ready_venue empty_venue_balance_def) code_simp
  then show ?thesis using venue_available_is_total_minus_reserved by blast
qed

theorem venue_base_tracks_filled_quantity_witness:
  "dval (venue_total (deliver True 5 [ex_report ''r1'' 1 1, ex_report ''r2'' 2 0, ex_report ''r3'' 1 1] ex_ready)
     ''kraken'' ''BTC'') = 2"
proof -
  let ?rs = "[ex_report ''r1'' 1 1, ex_report ''r2'' 2 0, ex_report ''r3'' 1 1]"
  have i: "find (lg_intents ex_ready) (ei_intent_id ex_intent) = Some ex_intent"
    "ei_intent_id ex_intent \<noteq> []"
    by (simp_all add: ex_ready_def ex_intent_def find_def)
  have s: "\<forall>r \<in> set ?rs. same_execution ex_intent ''i1|v1'' ''kraken'' 0 2 r"
    by (simp add: same_execution_def ex_report_def ex_intent_def ex_btc_def execution_state_key_def
        grid_def at_scale_def report_fee_def)
  have c: "in_base (ei_instrument ex_intent) \<noteq> []" "in_quote (ei_instrument ex_intent) \<noteq> []"
    "in_base (ei_instrument ex_intent) \<noteq> in_quote (ei_instrument ex_intent)"
    by (simp_all add: ex_intent_def ex_btc_def)
  have e: "exec_state_of ex_ready k = empty_exec_state" for k
    by (rule exec_state_empty) (simp add: ex_ready_def empty_ledger_def)
  have g: "grid 0 2 (es_filled_qty (exec_state_of ex_ready ''i1|v1''))"
    "grid 0 0 (venue_total ex_ready ''kraken'' (in_base (ei_instrument ex_intent)))"
    by (simp_all add: e empty_exec_state_def ex_ready_venue empty_venue_balance_def)
  have f: "es_filled_qty (exec_state_of (deliver True 5 ?rs ex_ready) ''i1|v1'') = mk_dec 2 0"
    by code_simp
  from venue_base_tracks_filled_quantity[OF i s c g, of True 5] f show ?thesis
    by (simp add: ex_intent_def ex_btc_def ex_ready_venue empty_venue_balance_def e
        empty_exec_state_def side_sign_def)
qed

definition ex_manual :: hedge_execution where
  "ex_manual = \<lparr>hx_hedge_id = ''h1'', hx_venue = ''kraken'', hx_instrument_symbol = ''BTC/USDT'',
     hx_side = SIDE_SELL, hx_executed_qty = mk_dec 1 0, hx_executed_price = mk_dec 120 0,
     hx_internal_price = mk_dec 100 0, hx_timestamp = None\<rparr>"

theorem hedge_report_agrees_with_summary_witness:
  "map hv_total_hedge_pnl (GetHedgePnL (query_for ''kraken'' ''BTC/USDT'')
     (fst (snd (RecordHedgeExecution True 5 ex_manual
       (hedge_run True 5 [Report (ex_report ''r1'' 1 1)] ex_ready))))) = [mk_dec 30 0]"
proof -
  have "journal_ok ex_ready"
    by (simp add: journal_ok_def ex_ready_def empty_ledger_def records_for_def)
  moreover have "queued_all (\<lambda>r. plain_venue (xr_venue r)) ex_ready"
    by (simp add: queued_all_def ex_ready_def empty_ledger_def)
  moreover have "reports_all (\<lambda>r. plain_venue (xr_venue r)) [Report (ex_report ''r1'' 1 1)]"
    by (simp add: reports_all_def plain_venue_def ex_report_def)
  moreover have "plain_venue (hx_venue ex_manual)" "plain_venue ''kraken''"
    by (simp_all add: plain_venue_def ex_manual_def)
  moreover have "find (lg_hedge_summary (fst (snd (RecordHedgeExecution True 5 ex_manual
      (hedge_run True 5 [Report (ex_report ''r1'' 1 1)] ex_ready))))) (''kraken'' @ ''|'' @ ''BTC/USDT'')
      = Some (mk_dec 30 0)"
    by code_simp
  ultimately show ?thesis
    using hedge_report_agrees_with_summary[of ex_ready "[Report (ex_report ''r1'' 1 1)]" ex_manual
        "''kraken''" "''BTC/USDT''" True 5 True] by simp
qed

theorem report_may_precede_intent_witness:
  "same_hedge_book
    (fst (RememberExecutionIntent True 5 ex_intent (deliver True 5 [ex_report ''r1'' 1 1, ex_report ''r2'' 2 0] empty_ledger)))
    (deliver True 5 [ex_report ''r1'' 1 1, ex_report ''r2'' 2 0] (fst (RememberExecutionIntent True 5 ex_intent empty_ledger)))"
  by (rule report_may_precede_intent) (simp_all add: ex_intent_def ex_report_def empty_ledger_def)

end
