(* ===== verification/Ledger_Views.thy ===== *)
theory Ledger_Views
  imports Ledger_Position Ledger_Hedge
begin

text \<open>
  The read side of the ledger (\<open>GetPosition\<close>, \<open>GetPositions\<close>, \<open>GetPositionsView\<close>,
  \<open>GetUnrealisedPnL\<close>, \<open>GetRealisedPnL\<close>), the simulation book
  (\<open>cpp/ledger/src/app/sim_book_applier.cpp\<close>) and the two hedge profit formulas.
\<close>

section \<open>Positions on request\<close>

definition GetPosition :: "string \<Rightarrow> string \<Rightarrow> ledger \<Rightarrow> position" where
  "GetPosition user symbol l =
     (case find (lg_positions l) user of
        None \<Rightarrow> empty_position
      | Some up \<Rightarrow> (case find up symbol of None \<Rightarrow> empty_position | Some p \<Rightarrow> p))"

definition GetPositions :: "string \<Rightarrow> ledger \<Rightarrow> position umap" where
  "GetPositions user l = (case find (lg_positions l) user of None \<Rightarrow> [] | Some up \<Rightarrow> up)"

record position_view =
  pw_symbol :: string
  pw_side :: string
  pw_quantity :: decimal
  pw_avg_entry_price :: decimal
  pw_mark_price :: decimal
  pw_unrealized_pnl :: decimal
  pw_realized_pnl :: decimal

definition memory_row :: "string \<Rightarrow> string \<Rightarrow> position \<Rightarrow> position_row" where
  "memory_row user symbol p = \<lparr>pr_user_id = user, pr_symbol = symbol,
     pr_side = position_side (po_amount p), pr_quantity = abs_amount (po_amount p),
     pr_avg_entry_price = po_avg_entry_price p, pr_unrealized_pnl = dzero,
     pr_realized_pnl = po_realised_pnl p\<rparr>"

text \<open>The rows come from the \<open>positions\<close> table when its repository is wired (\<open>Some\<close>).\<close>

definition position_rows :: "position_row list option \<Rightarrow> string \<Rightarrow> ledger \<Rightarrow> position_row list" where
  "position_rows repo user l =
     (case repo of
        Some rows \<Rightarrow> rows
      | None \<Rightarrow> map (\<lambda>(symbol, p). memory_row user symbol p) (GetPositions user l))"

definition view_row :: "decimal umap \<Rightarrow> position_row \<Rightarrow> position_view" where
  "view_row marks r =
     (let flat = (pr_side r = ''flat'' \<or> dcmp (pr_quantity r) dzero = 0);
          entry = pr_avg_entry_price r;
          (mark, upnl) =
            (if flat then (entry, dzero)
             else case find marks (pr_symbol r) of
                    Some mk \<Rightarrow>
                      (let diff = (if pr_side r = ''short'' then dsub entry mk else dsub mk entry)
                       in (mk, rescale (dmul diff (pr_quantity r)) kPnlScale))
                  | None \<Rightarrow> (entry, pr_unrealized_pnl r))
      in \<lparr>pw_symbol = pr_symbol r, pw_side = pr_side r, pw_quantity = pr_quantity r,
          pw_avg_entry_price = entry, pw_mark_price = mark, pw_unrealized_pnl = upnl,
          pw_realized_pnl = pr_realized_pnl r\<rparr>)"

definition GetPositionsView ::
    "position_row list option \<Rightarrow> string \<Rightarrow> decimal umap \<Rightarrow> ledger \<Rightarrow> position_view list" where
  "GetPositionsView repo user marks l = map (view_row marks) (position_rows repo user l)"

record unrealised_view =
  uv_instrument_symbol :: string
  uv_position_amount :: decimal
  uv_avg_entry_price :: decimal
  uv_current_price :: decimal
  uv_unrealised_pnl :: decimal
  uv_price_source :: string

definition unrealised_row :: "decimal umap \<Rightarrow> string \<Rightarrow> position \<Rightarrow> unrealised_view" where
  "unrealised_row prices symbol p =
     (let (price, source) = (case find prices symbol of
            Some x \<Rightarrow> (x, ''provided'') | None \<Rightarrow> (po_avg_entry_price p, ''fallback_to_avg''))
      in \<lparr>uv_instrument_symbol = symbol, uv_position_amount = po_amount p,
          uv_avg_entry_price = po_avg_entry_price p, uv_current_price = price,
          uv_unrealised_pnl = dmul (dsub price (po_avg_entry_price p)) (po_amount p),
          uv_price_source = source\<rparr>)"

definition GetUnrealisedPnL :: "string \<Rightarrow> string \<Rightarrow> decimal umap \<Rightarrow> ledger \<Rightarrow> unrealised_view list" where
  "GetUnrealisedPnL user wanted prices l =
     concat (map (\<lambda>(symbol, p).
       if dcmp (po_amount p) (mk_dec 0 (scale (po_amount p))) = 0 then []
       else if wanted \<noteq> [] \<and> symbol \<noteq> wanted then []
       else [unrealised_row prices symbol p]) (GetPositions user l))"

definition GetRealisedPnL :: "string \<Rightarrow> string \<Rightarrow> ledger \<Rightarrow> (string \<times> decimal) list" where
  "GetRealisedPnL user wanted l =
     concat (map (\<lambda>(symbol, p).
       if wanted \<noteq> [] \<and> symbol \<noteq> wanted then []
       else if dcmp (po_realised_pnl p) (mk_dec 0 (scale (po_realised_pnl p))) = 0 then []
       else [(symbol, po_realised_pnl p)]) (GetPositions user l))"

section \<open>The simulation book\<close>

record sim_report =
  sr_report_id :: string
  sr_session_id :: string
  sr_provider_id :: string
  sr_status :: exec_status
  sr_side :: side
  sr_instrument :: instrument
  sr_venue :: string
  sr_filled_qty :: decimal
  sr_average_price :: decimal
  sr_fee_total :: "fee option"
  sr_reference_mid :: "decimal option"

record sim_position_delta =
  sp_session_id :: string
  sp_provider_id :: string
  sp_symbol :: string
  sp_signed_qty :: decimal
  sp_exec_price :: decimal

record sim_pnl_delta =
  sn_session_id :: string
  sn_venue_id :: string
  sn_symbol :: string
  sn_hedge_pnl :: decimal
  sn_fee :: decimal
  sn_filled_qty :: decimal
  sn_trade_count :: int

text \<open>\<open>Inl\<close> is the reason a report is skipped.\<close>

type_synonym sim_result = "string + (sim_position_delta \<times> sim_pnl_delta)"

definition IsTerminalFill :: "exec_status \<Rightarrow> bool" where
  "IsTerminalFill s \<longleftrightarrow> s = EXEC_FILLED \<or> s = EXEC_PARTIALLY_FILLED"

definition CanonicalSymbol :: "instrument \<Rightarrow> string" where
  "CanonicalSymbol i =
     (if in_symbol i \<noteq> [] then in_symbol i
      else if in_base i \<noteq> [] \<and> in_quote i \<noteq> [] then in_base i @ ''/'' @ in_quote i
      else [])"

definition sim_HedgePnl :: "side \<Rightarrow> decimal \<Rightarrow> decimal \<Rightarrow> decimal \<Rightarrow> decimal" where
  "sim_HedgePnl sd exec_price reference_mid qty =
     (let pnl = dmul (dsub reference_mid exec_price) qty
      in if sd = SIDE_SELL then dneg pnl else pnl)"

definition sim_deltas :: "sim_report \<Rightarrow> sim_position_delta \<times> sim_pnl_delta" where
  "sim_deltas r =
     (let symbol = CanonicalSymbol (sr_instrument r); filled = sr_filled_qty r
      in (\<lparr>sp_session_id = sr_session_id r, sp_provider_id = sr_provider_id r, sp_symbol = symbol,
           sp_signed_qty = (if sr_side r = SIDE_SELL then dneg filled else filled),
           sp_exec_price = sr_average_price r\<rparr>,
          \<lparr>sn_session_id = sr_session_id r, sn_venue_id = sr_venue r, sn_symbol = symbol,
           sn_hedge_pnl = (case sr_reference_mid r of None \<Rightarrow> dzero
             | Some mid \<Rightarrow> if units mid \<noteq> 0
                 then sim_HedgePnl (sr_side r) (sr_average_price r) mid filled else dzero),
           sn_fee = (case sr_fee_total r of None \<Rightarrow> dzero | Some f \<Rightarrow> fee_amount f),
           sn_filled_qty = filled, sn_trade_count = 1\<rparr>))"

definition SimBookApplier_Apply :: "sim_report \<Rightarrow> string list \<Rightarrow> sim_result \<times> string list" where
  "SimBookApplier_Apply r seen =
     (if sr_report_id r = [] then (Inl ''duplicate'', seen)
      else if sr_session_id r = [] then (Inl ''no_session_id'', seen)
      else if \<not> IsTerminalFill (sr_status r) then (Inl ''non_terminal'', seen)
      else if units (sr_filled_qty r) = 0 then (Inl ''zero_fill'', seen)
      else if sr_provider_id r = [] then (Inl ''no_provider'', seen)
      else if sr_report_id r \<in> set seen then (Inl ''duplicate'', seen)
      else (Inr (sim_deltas r), sr_report_id r # seen))"

section \<open>Profit formulas\<close>

lemma hedge_pnl_value:
  assumes "grid s P executed" "grid s P internal" "grid t Q qty" "s + t \<le> 18" "2 * P \<le> max_units"
    "Q \<le> max_units" "2 * P * Q \<le> max_units"
  shows "dval (calculate_hedge_pnl sd executed internal qty) =
      (if sd = SIDE_BUY then dval internal - dval executed else dval executed - dval internal) * dval qty"
    and "dval (sim_HedgePnl sd executed internal qty) =
      (if sd = SIDE_SELL then dval executed - dval internal else dval internal - dval executed) * dval qty"
proof -
  have pp: "P + P \<le> max_units" "(P + P) * Q \<le> max_units" using assms(5,7) by simp_all
  note d1 = grid_sub[OF assms(1,2) pp(1)] and d2 = grid_sub[OF assms(2,1) pp(1)]
  note m1 = grid_mul[OF d1(2) assms(3,4) pp(1) assms(6) pp(2)]
  note m2 = grid_mul[OF d2(2) assms(3,4) pp(1) assms(6) pp(2)]
  show "dval (calculate_hedge_pnl sd executed internal qty) =
      (if sd = SIDE_BUY then dval internal - dval executed else dval executed - dval internal) * dval qty"
    using m1(1) d1(1) grid_dneg(1)[OF m1(2) pp(2)]
    by (simp add: calculate_hedge_pnl_def Let_def left_diff_distrib)
  show "dval (sim_HedgePnl sd executed internal qty) =
      (if sd = SIDE_SELL then dval executed - dval internal else dval internal - dval executed) * dval qty"
    using m2(1) d2(1) grid_dneg(1)[OF m2(2) pp(2)]
    by (simp add: sim_HedgePnl_def Let_def left_diff_distrib)
qed

text \<open>The live hedge profit is what the desk gains against the internal price: a sale above
  it or a purchase below it is positive, quantity times the difference exactly; and the
  simulation book's separately written formula gives the same figure for purchases and sales.\<close>

theorem hedge_pnl_live_and_simulated_agree:
  assumes "grid s P executed" "grid s P internal" "grid t Q qty" "s + t \<le> 18" "2 * P \<le> max_units"
    "Q \<le> max_units" "2 * P * Q \<le> max_units" "sd \<noteq> SIDE_UNSPECIFIED"
  shows "dval (calculate_hedge_pnl sd executed internal qty)
      = side_sign sd * (dval internal - dval executed) * dval qty
    \<and> dval (sim_HedgePnl sd executed internal qty) = dval (calculate_hedge_pnl sd executed internal qty)"
  using hedge_pnl_value[OF assms(1-7)] assms(8) by (cases sd) (simp_all add: side_sign_def)

theorem hedge_pnl_live_and_simulated_agree_witness:
  "dval (calculate_hedge_pnl SIDE_BUY (mk_dec 9900 2) (mk_dec 10000 2) (mk_dec 5 1)) = 1 / 2"
  using hedge_pnl_live_and_simulated_agree[of 2 10000 "mk_dec 9900 2" "mk_dec 10000 2" 1 5 "mk_dec 5 1" SIDE_BUY]
  by (simp add: grid_def at_scale_def side_sign_def)

section \<open>The two mark-to-market views\<close>

lemma dmul_abs_amount:
  assumes "grid 8 A a" "A \<le> max_units"
  shows "grid 8 A (abs_amount a)" "dval (abs_amount a) = \<bar>dval a\<bar>"
  using abs_grid[OF assms] by (simp_all add: abs_amount_def)

text \<open>The two views agree. For an open position with a mark price, the unrealised profit of
  \<open>GetUnrealisedPnL\<close> is exactly the signed amount times mark minus entry, the one of
  \<open>GetPositionsView\<close> (computed from side and absolute quantity) is the same figure to within half
  a cent, and the side shown is the sign of the amount; a flat position shows zero.\<close>

theorem unrealised_pnl_views_agree:
  fixes user :: string
  assumes "grid 8 A (po_amount p)" "grid sp P (po_avg_entry_price p)" "grid sp P mk" "sp \<le> 10"
    and "A \<le> max_units" "2 * P \<le> max_units" "2 * P * A + 1 \<le> max_units"
    and "find marks symbol = Some mk"
  defines "exact \<equiv> (dval mk - dval (po_avg_entry_price p)) * dval (po_amount p)"
    and "v \<equiv> view_row marks (memory_row user symbol p)"
  shows "dval (uv_unrealised_pnl (unrealised_row marks symbol p)) = exact
    \<and> \<bar>dval (pw_unrealized_pnl v) - exact\<bar> \<le> 1 / 200
    \<and> pw_side v = (if 0 < dval (po_amount p) then ''long'' else if dval (po_amount p) < 0 then ''short'' else ''flat'')
    \<and> (dval (po_amount p) = 0 \<longrightarrow> pw_unrealized_pnl v = dzero)"
proof -
  let ?a = "po_amount p" and ?e = "po_avg_entry_price p"
  have nn: "0 \<le> A" "0 \<le> P" using assms(1,2) by (auto intro: grid_nonneg)
  have pp: "P + P \<le> max_units" "(P + P) * A \<le> max_units" "(P + P) * A + 1 \<le> max_units"
    using assms(6,7) by (simp_all add: algebra_simps)
  have s: "sp + 8 \<le> 18" using assms(4) by simp
  note d1 = grid_sub[OF assms(3,2) pp(1)] and d2 = grid_sub[OF assms(2,3) pp(1)]
  note ab = dmul_abs_amount[OF assms(1,5)]
  note m0 = grid_mul[OF d1(2) assms(1) s pp(1) assms(5) pp(2)]
  note m1 = grid_mul[OF d1(2) ab(1) s pp(1) assms(5) pp(2)]
  note m2 = grid_mul[OF d2(2) ab(1) s pp(1) assms(5) pp(2)]
  have z: "grid 8 0 dzero" by simp
  note c = grid_cmp[OF assms(1) z assms(5)]
  have side: "position_side ?a = (if 0 < dval ?a then ''long'' else if dval ?a < 0 then ''short'' else ''flat'')"
    using c by (simp add: position_side_def Let_def)
  have zero: "dcmp (abs_amount ?a) dzero = 0 \<longleftrightarrow> dval ?a = 0"
    using dcmp_iffs(3)[OF grid_wf[OF ab(1) assms(5)] wf_dzero] ab(2) by simp
  have round: "\<bar>dval (rescale x 2) - dval x\<bar> \<le> 1 / 200" if "grid (sp + 8) ((P + P) * A) x" for x
  proof -
    have "\<bar>dval x\<bar> * 10 ^ 2 \<le> of_int ((P + P) * A) / 10 ^ (sp + 8) * 10 ^ 2"
      by (rule mult_right_mono[OF grid_dval_bound[OF that]]) simp
    also have "\<dots> = of_int ((P + P) * A) / 10 ^ (sp + 6)" by (simp add: power_add field_simps)
    also have "\<dots> \<le> of_int ((P + P) * A) / 1"
      using nn by (intro divide_left_mono) (auto simp: zero_le_mult_iff)
    finally have "\<bar>dval x\<bar> * 10 ^ 2 \<le> of_int ((P + P) * A)" by simp
    from rescale_error(1)[OF grid_wf[OF that pp(2)] _ this pp(3)] show ?thesis by simp
  qed
  have u: "dval (uv_unrealised_pnl (unrealised_row marks symbol p)) = exact"
    using m0(1) d1(1) assms(8) by (simp add: unrealised_row_def exact_def)
  have side_v: "pw_side v = position_side ?a"
    by (simp add: v_def view_row_def memory_row_def Let_def case_prod_beta)
  have flat: "pw_unrealized_pnl v = dzero" if "dval ?a = 0"
    using that zero by (simp add: v_def view_row_def memory_row_def Let_def)
  have up: "pw_unrealized_pnl v = rescale (dmul (if position_side ?a = ''short'' then dsub ?e mk else dsub mk ?e)
      (abs_amount ?a)) 2" if "dval ?a \<noteq> 0"
    using that zero side assms(8) by (simp add: v_def view_row_def memory_row_def Let_def)
  have "\<bar>dval (pw_unrealized_pnl v) - exact\<bar> \<le> 1 / 200"
  proof (cases "dval ?a = 0")
    case True
    then show ?thesis by (simp add: flat exact_def)
  next
    case False
    have e1: "dval (dmul (dsub ?e mk) (abs_amount ?a)) = exact" if "dval ?a < 0"
      using that m2(1) d2(1) ab(2) by (simp add: exact_def algebra_simps)
    have e2: "dval (dmul (dsub mk ?e) (abs_amount ?a)) = exact" if "0 < dval ?a"
      using that m1(1) d1(1) ab(2) by (simp add: exact_def)
    show ?thesis
      using False up[OF False] side round[OF m1(2)] round[OF m2(2)] e1 e2
      by (cases "0 < dval ?a") auto
  qed
  then show ?thesis using u side side_v flat by auto
qed

theorem unrealised_pnl_views_agree_witness:
  "\<bar>dval (pw_unrealized_pnl (view_row [(''BTC/USDT'', mk_dec 13000 2)] (memory_row ''bob'' ''BTC/USDT'' ex_long))) - 60\<bar> \<le> 1 / 200"
  using unrealised_pnl_views_agree[of 200000000 ex_long 2 13000 "mk_dec 13000 2" "[(''BTC/USDT'', mk_dec 13000 2)]" "''BTC/USDT''" "''bob''"]
  by (simp add: ex_long_def grid_def at_scale_def find_def)

section \<open>The simulation book is an idempotent consumer\<close>

definition sim_consume :: "(sim_position_delta \<times> sim_pnl_delta) list \<times> string list \<Rightarrow> sim_report \<Rightarrow>
    (sim_position_delta \<times> sim_pnl_delta) list \<times> string list" where
  "sim_consume s r = (let (res, seen) = SimBookApplier_Apply r (snd s)
     in (case res of Inl _ \<Rightarrow> fst s | Inr d \<Rightarrow> d # fst s, seen))"

definition sim_applicable :: "sim_report \<Rightarrow> bool" where
  "sim_applicable r \<longleftrightarrow> sr_report_id r \<noteq> [] \<and> sr_session_id r \<noteq> [] \<and> IsTerminalFill (sr_status r)
     \<and> units (sr_filled_qty r) \<noteq> 0 \<and> sr_provider_id r \<noteq> []"

interpretation sim_book: idempotent_consumer sim_consume
  "\<lambda>s k. case k of None \<Rightarrow> True | Some i \<Rightarrow> i \<in> set (snd s)"
  "\<lambda>r. if sim_applicable r then Some (sr_report_id r) else None" "\<lambda>s. s"
  by unfold_locales
     (auto simp: sim_consume_def SimBookApplier_Apply_def sim_applicable_def split: option.splits if_splits)

end
