(* ===== verification/Order_Messages.thy ===== *)
theory Order_Messages
  imports Contracts
begin

text \<open>
  Messages between the order flow, the risk service and the matching engine:
  \<open>fob.orders.v1.FlowOrder\<close> and the pre-trade check of \<open>fob.risk.v1\<close>.
\<close>

record flow_order =
  fo_order_id :: string
  fo_client_order_id :: string
  fo_user_id :: string
  fo_account_id :: string
  fo_instrument :: instrument
  fo_side :: side
  fo_total_qty :: decimal
  fo_remaining_qty :: decimal
  fo_price_low :: decimal
  fo_price_high :: decimal
  fo_max_speed :: decimal
  fo_status :: order_status
  fo_created_at :: timestamp
  fo_updated_at :: timestamp
  fo_tif :: tif
  fo_tags :: "string umap"

datatype risk_decision =
    RISK_DECISION_UNSPECIFIED | RISK_DECISION_ACCEPT | RISK_DECISION_REJECT
  | RISK_DECISION_RESIZE | RISK_DECISION_HALT

record pretrade_request =
  pt_meta :: event_meta
  pt_user_id :: string
  pt_order :: flow_order
  pt_reference_price :: decimal

record pretrade_response =
  ps_meta :: event_meta
  ps_decision :: risk_decision
  ps_error :: "error_msg option"
  ps_resized_order :: "flow_order option"
  ps_required_initial_margin :: "decimal option"

text \<open>\<open>d.units /= n\<close> on a decimal: C++ division truncates towards zero.\<close>

definition div_units :: "decimal \<Rightarrow> int \<Rightarrow> decimal" where
  "div_units d n = mk_dec (i64 (units d sdiv n)) (scale d)"

end
