(* ===== verification/Risk_Domain.thy ===== *)
theory Risk_Domain
  imports Order_Messages
begin

text \<open>
  The pure part of the risk service (\<open>cpp/risk/src/domain\<close>): the margin formulas of
  \<open>ComputeMargin\<close> and the group check \<open>GroupPreTradeCheck\<close>, and the values they compute.
\<close>

section \<open>Margin\<close>

record margin_position =
  mp_symbol :: string
  mp_quantity :: decimal
  mp_mark_price :: decimal
  mp_unrealized_pnl :: decimal

record margin_rates =
  mr_initial_margin_rate :: decimal
  mr_maintenance_margin_rate :: decimal

record margin_result =
  ms_initial_margin :: decimal
  ms_maintenance_margin :: decimal
  ms_free_collateral :: decimal
  ms_reserved_collateral :: decimal
  ms_throttled :: bool
  ms_margin_call :: bool
  ms_liquidation :: bool

definition dec_Abs :: "decimal \<Rightarrow> decimal" where
  "dec_Abs v = (if dcmp v dzero < 0 then dsub dzero v else v)"

definition position_notional :: "margin_position \<Rightarrow> decimal" where
  "position_notional p = dmul (dec_Abs (mp_quantity p)) (mp_mark_price p)"

text \<open>One pass of the loop over the accumulators for initial margin, maintenance margin and
  unrealised profit.\<close>

definition add_position ::
    "margin_rates \<Rightarrow> margin_position \<Rightarrow> decimal \<times> decimal \<times> decimal \<Rightarrow> decimal \<times> decimal \<times> decimal" where
  "add_position rates p = (\<lambda>(im, mm, up).
     let notional = position_notional p
     in (dadd im (dmul notional (mr_initial_margin_rate rates)),
         dadd mm (dmul notional (mr_maintenance_margin_rate rates)),
         dadd up (mp_unrealized_pnl p)))"

definition ComputeMargin ::
    "margin_position list \<Rightarrow> margin_rates \<Rightarrow> decimal \<Rightarrow> decimal \<Rightarrow> margin_result" where
  "ComputeMargin positions rates free_balance reserved =
     (let (im, mm, up) = fold (add_position rates) positions (dzero, dzero, dzero);
          free_collateral = dadd free_balance up
      in \<lparr>ms_initial_margin = im, ms_maintenance_margin = mm,
          ms_free_collateral = free_collateral, ms_reserved_collateral = reserved,
          ms_throttled = (dcmp free_collateral im < 0),
          ms_margin_call = (dcmp free_collateral mm < 0),
          ms_liquidation = (dcmp free_collateral dzero \<le> 0)\<rparr>)"

section \<open>Group check\<close>

datatype group_policy =
    kStrictAtomic | kScalableAtomic | kBestEffort | kSequentialFallback | kExternalCompensating

datatype group_scope = kInternalBatch | kVenueNative | kScopeExternalCompensating | kNone

record group_leg =
  gl_instrument_symbol :: string
  gl_notional :: decimal
  gl_external :: bool

record group_config =
  gc_max_total_notional :: decimal
  gc_max_legs :: int
  gc_max_external_legs :: int

datatype group_result = GroupAccept | GroupReject string

definition external_legs :: "group_leg list \<Rightarrow> int" where
  "external_legs legs = fold (\<lambda>l n. if gl_external l then i32 (n + 1) else n) legs 0"

definition total_notional :: "group_leg list \<Rightarrow> decimal" where
  "total_notional legs = fold (\<lambda>l t. dadd t (gl_notional l)) legs dzero"

definition GroupPreTradeCheck ::
    "group_leg list \<Rightarrow> group_policy \<Rightarrow> group_scope \<Rightarrow> group_config \<Rightarrow> group_result" where
  "GroupPreTradeCheck legs policy scope cfg =
     (if gc_max_legs cfg < i32 (int (length legs)) then GroupReject ''max_legs_exceeded''
      else if policy = kStrictAtomic \<and> scope = kScopeExternalCompensating
      then GroupReject ''strict_atomic_external_unsupported''
      else if gc_max_external_legs cfg < external_legs legs
      then GroupReject ''max_external_legs_exceeded''
      else if 0 < dcmp (gc_max_total_notional cfg) dzero
        \<and> 0 < dcmp (total_notional legs) (gc_max_total_notional cfg)
      then GroupReject ''total_notional_exceeded''
      else GroupAccept)"

definition MapPolicy :: "string \<Rightarrow> group_policy" where
  "MapPolicy s =
     (if s = ''strict_atomic'' then kStrictAtomic
      else if s = ''scalable_atomic'' then kScalableAtomic
      else if s = ''sequential_fallback'' then kSequentialFallback
      else if s = ''external_compensating'' then kExternalCompensating
      else kBestEffort)"

definition MapScope :: "string \<Rightarrow> group_scope" where
  "MapScope s =
     (if s = ''venue_native'' then kVenueNative
      else if s = ''external_compensating'' then kScopeExternalCompensating
      else if s = ''none'' then kNone
      else kInternalBatch)"

section \<open>Values\<close>

text \<open>A position whose quantity and mark are bounded at the scales of the code, with a product
  that fits after multiplication by a rate.\<close>

definition margin_fits :: "nat \<Rightarrow> nat \<Rightarrow> nat \<Rightarrow> int \<Rightarrow> int \<Rightarrow> int \<Rightarrow> int \<Rightarrow> margin_rates \<Rightarrow> margin_position list \<Rightarrow> bool" where
  "margin_fits sq sp sr Q P R U rates ps \<longleftrightarrow>
     sq + sp + sr \<le> 18 \<and> 0 \<le> Q \<and> 0 \<le> P \<and> 0 \<le> R \<and> 0 \<le> U
     \<and> Q \<le> max_units \<and> P \<le> max_units \<and> R \<le> max_units \<and> Q * P \<le> max_units
     \<and> int (length ps) * (Q * P * R) \<le> max_units \<and> Q * P * R \<le> max_units
     \<and> int (length ps) * U \<le> max_units
     \<and> grid sr R (mr_initial_margin_rate rates) \<and> grid sr R (mr_maintenance_margin_rate rates)
     \<and> (\<forall>p \<in> set ps. grid sq Q (mp_quantity p) \<and> grid sp P (mp_mark_price p)
          \<and> grid (sq + sp + sr) U (mp_unrealized_pnl p))"

definition notional_value :: "margin_position \<Rightarrow> rat" where
  "notional_value p = \<bar>dval (mp_quantity p)\<bar> * dval (mp_mark_price p)"

lemma dec_Abs_grid:
  assumes "grid s m d" "m \<le> max_units"
  shows "dval (dec_Abs d) = \<bar>dval d\<bar>" "grid s m (dec_Abs d)"
proof -
  have z: "grid s 0 dzero" using grid_le_18[OF assms(1)] by simp
  have m0: "0 \<le> m" by (rule grid_nonneg[OF assms(1)])
  note c = grid_cmp(1)[OF assms(1) z assms(2)]
  have sub: "0 + m \<le> max_units" using assms(2) by simp
  note d = grid_sub[OF z assms(1) sub]
  show "dval (dec_Abs d) = \<bar>dval d\<bar>" "grid s m (dec_Abs d)"
    using c d assms(1) by (simp_all add: dec_Abs_def)
qed

lemma position_notional_grid:
  assumes "grid sq Q (mp_quantity p)" "grid sp P (mp_mark_price p)" "sq + sp \<le> 18"
    "Q \<le> max_units" "P \<le> max_units" "Q * P \<le> max_units"
  shows "dval (position_notional p) = notional_value p" "grid (sq + sp) (Q * P) (position_notional p)"
  using grid_mul[OF dec_Abs_grid(2)[OF assms(1,4)] assms(2-6)] dec_Abs_grid(1)[OF assms(1,4)]
  by (simp_all add: position_notional_def notional_value_def)

text \<open>The three accumulators are three sums of bounded amounts.\<close>

lemma fold_add_position:
  "fold (add_position rates) ps (im, mm, up) =
     (fold (\<lambda>x acc. dadd acc x) (map (\<lambda>p. dmul (position_notional p) (mr_initial_margin_rate rates)) ps) im,
      fold (\<lambda>x acc. dadd acc x) (map (\<lambda>p. dmul (position_notional p) (mr_maintenance_margin_rate rates)) ps) mm,
      fold (\<lambda>x acc. dadd acc x) (map mp_unrealized_pnl ps) up)"
  by (induction ps arbitrary: im mm up) (simp_all add: add_position_def Let_def)

lemma sum_from_zero:
  assumes "\<forall>x \<in> set xs. grid s n x" "int (length xs) * n \<le> max_units" "0 \<le> n" "s \<le> 18"
  shows "dval (fold (\<lambda>x acc. dadd acc x) xs dzero) = (\<Sum>x \<leftarrow> xs. dval x)"
    and "grid s (int (length xs) * n) (fold (\<lambda>x acc. dadd acc x) xs dzero)"
proof -
  have "grid s 0 dzero" using assms(4) by simp
  from dec.sum_exact[OF this assms(1), unfolded add_0, OF assms(2,3)]
  show "dval (fold (\<lambda>x acc. dadd acc x) xs dzero) = (\<Sum>x \<leftarrow> xs. dval x)"
    and "grid s (int (length xs) * n) (fold (\<lambda>x acc. dadd acc x) xs dzero)"
    by simp_all
qed

lemma margin_sum:
  assumes "margin_fits sq sp sr Q P R U rates ps" "grid sr R rate"
  shows "dval (fold (\<lambda>x acc. dadd acc x) (map (\<lambda>p. dmul (position_notional p) rate) ps) dzero)
      = (\<Sum>p \<leftarrow> ps. notional_value p) * dval rate"
    and "grid (sq + sp + sr) (int (length ps) * (Q * P * R))
      (fold (\<lambda>x acc. dadd acc x) (map (\<lambda>p. dmul (position_notional p) rate) ps) dzero)"
proof -
  have h: "sq + sp \<le> 18" "sq + sp + sr \<le> 18" "Q \<le> max_units" "P \<le> max_units" "R \<le> max_units"
    "Q * P \<le> max_units" "Q * P * R \<le> max_units" "int (length ps) * (Q * P * R) \<le> max_units" "0 \<le> Q * P * R"
    using assms(1) unfolding margin_fits_def by (simp_all add: zero_le_mult_iff)
  have each: "dval (dmul (position_notional p) rate) = notional_value p * dval rate
      \<and> grid (sq + sp + sr) (Q * P * R) (dmul (position_notional p) rate)" if "p \<in> set ps" for p
  proof -
    have g: "grid sq Q (mp_quantity p)" "grid sp P (mp_mark_price p)"
      using assms(1) that unfolding margin_fits_def by blast+
    note n = position_notional_grid[OF g h(1,3,4,6)]
    from grid_mul[OF n(2) assms(2) h(2,6,5,7)] n(1) show ?thesis by simp
  qed
  have b: "\<forall>x \<in> set (map (\<lambda>p. dmul (position_notional p) rate) ps). grid (sq + sp + sr) (Q * P * R) x"
    using each by simp
  have len: "int (length (map (\<lambda>p. dmul (position_notional p) rate) ps)) * (Q * P * R) \<le> max_units"
    using h(8) by simp
  have "(\<Sum>p \<leftarrow> ps. dval (dmul (position_notional p) rate)) = (\<Sum>p \<leftarrow> ps. notional_value p * dval rate)"
    using each by (intro arg_cong[where f = sum_list] map_cong) auto
  then show "dval (fold (\<lambda>x acc. dadd acc x) (map (\<lambda>p. dmul (position_notional p) rate) ps) dzero)
      = (\<Sum>p \<leftarrow> ps. notional_value p) * dval rate"
    using sum_from_zero(1)[OF b len h(9,2)] by (simp add: sum_list_mult_const o_def)
  show "grid (sq + sp + sr) (int (length ps) * (Q * P * R))
      (fold (\<lambda>x acc. dadd acc x) (map (\<lambda>p. dmul (position_notional p) rate) ps) dzero)"
    using sum_from_zero(2)[OF b len h(9,2)] by simp
qed

text \<open>The margin report is exact. Initial and maintenance margin are the rates times the sum of
  absolute quantity times mark over the positions, free collateral is the free balance plus
  the unrealised profit, and the three flags compare these values; with non-negative marks and
  a maintenance rate between zero and the initial rate, a margin call implies throttling, and
  liquidation implies a margin call as soon as any maintenance margin is due.\<close>

theorem margin_report_exact:
  fixes reserved :: decimal
  assumes fits: "margin_fits sq sp sr Q P R U rates ps"
    and free: "grid (sq + sp + sr) F free" "F + int (length ps) * U \<le> max_units"
  defines "m \<equiv> ComputeMargin ps rates free reserved"
    and "notional \<equiv> \<Sum>p \<leftarrow> ps. notional_value p"
    and "coll \<equiv> dval free + (\<Sum>p \<leftarrow> ps. dval (mp_unrealized_pnl p))"
  defines "im \<equiv> notional * dval (mr_initial_margin_rate rates)"
    and "mm \<equiv> notional * dval (mr_maintenance_margin_rate rates)"
  shows "dval (ms_initial_margin m) = im \<and> dval (ms_maintenance_margin m) = mm
    \<and> dval (ms_free_collateral m) = coll \<and> ms_reserved_collateral m = reserved
    \<and> (ms_throttled m \<longleftrightarrow> coll < im) \<and> (ms_margin_call m \<longleftrightarrow> coll < mm) \<and> (ms_liquidation m \<longleftrightarrow> coll \<le> 0)
    \<and> ((\<forall>p \<in> set ps. 0 \<le> dval (mp_mark_price p)) \<and> 0 \<le> dval (mr_maintenance_margin_rate rates)
        \<and> dval (mr_maintenance_margin_rate rates) \<le> dval (mr_initial_margin_rate rates)
       \<longrightarrow> (ms_margin_call m \<longrightarrow> ms_throttled m) \<and> (ms_liquidation m \<and> 0 < mm \<longrightarrow> ms_margin_call m))"
proof -
  define I where "I = fold (\<lambda>x acc. dadd acc x) (map (\<lambda>p. dmul (position_notional p) (mr_initial_margin_rate rates)) ps) dzero"
  define M where "M = fold (\<lambda>x acc. dadd acc x) (map (\<lambda>p. dmul (position_notional p) (mr_maintenance_margin_rate rates)) ps) dzero"
  define V where "V = fold (\<lambda>x acc. dadd acc x) (map mp_unrealized_pnl ps) dzero"
  let ?s = "sq + sp + sr"
  have h: "grid sr R (mr_initial_margin_rate rates)" "grid sr R (mr_maintenance_margin_rate rates)"
    "int (length ps) * (Q * P * R) \<le> max_units" "int (length ps) * U \<le> max_units" "0 \<le> U" "?s \<le> 18"
    "\<forall>x \<in> set (map mp_unrealized_pnl ps). grid ?s U x"
    using fits by (simp_all add: margin_fits_def)
  have i: "dval I = im" "grid ?s (int (length ps) * (Q * P * R)) I"
    using margin_sum[OF fits h(1)] by (simp_all add: I_def im_def notional_def)
  have mm: "dval M = mm" "grid ?s (int (length ps) * (Q * P * R)) M"
    using margin_sum[OF fits h(2)] by (simp_all add: M_def mm_def notional_def)
  have v: "dval V = (\<Sum>p \<leftarrow> ps. dval (mp_unrealized_pnl p))" "grid ?s (int (length ps) * U) V"
    using sum_from_zero[OF h(7) _ h(5,6)] h(4) by (simp_all add: V_def o_def)
  note f = grid_add[OF free(1) v(2) free(2)]
  have coll: "dval (dadd free V) = coll" using f(1) v(1) by (simp add: coll_def)
  have z: "grid ?s 0 dzero" using h(6) by simp
  note c = grid_cmp[OF f(2) i(2) free(2) h(3)] grid_cmp[OF f(2) mm(2) free(2) h(3)] grid_cmp[OF f(2) z free(2)]
  have m: "m = \<lparr>ms_initial_margin = I, ms_maintenance_margin = M, ms_free_collateral = dadd free V,
      ms_reserved_collateral = reserved, ms_throttled = (dcmp (dadd free V) I < 0),
      ms_margin_call = (dcmp (dadd free V) M < 0), ms_liquidation = (dcmp (dadd free V) dzero \<le> 0)\<rparr>"
    unfolding m_def ComputeMargin_def fold_add_position I_def M_def V_def by (simp only: Let_def prod.case)
  have order: "mm \<le> im" if "\<forall>p \<in> set ps. 0 \<le> dval (mp_mark_price p)"
    "dval (mr_maintenance_margin_rate rates) \<le> dval (mr_initial_margin_rate rates)"
  proof -
    have "0 \<le> notional"
      unfolding notional_def using that(1) by (intro sum_list_nonneg) (auto simp: notional_value_def)
    with that(2) show ?thesis by (simp add: im_def mm_def mult_left_mono)
  qed
  show ?thesis using order by (auto simp: m c i mm coll)
qed

theorem margin_report_exact_witness:
  "ms_margin_call (ComputeMargin
     [\<lparr>mp_symbol = ''BTC/USDT'', mp_quantity = mk_dec 2 0, mp_mark_price = mk_dec 100 0, mp_unrealized_pnl = mk_dec (-8) 0\<rparr>]
     \<lparr>mr_initial_margin_rate = mk_dec 1000 4, mr_maintenance_margin_rate = mk_dec 500 4\<rparr> (mk_dec 15 0) dzero)"
  using margin_report_exact[of 0 0 4 2 100 1000 80000
     "\<lparr>mr_initial_margin_rate = mk_dec 1000 4, mr_maintenance_margin_rate = mk_dec 500 4\<rparr>"
     "[\<lparr>mp_symbol = ''BTC/USDT'', mp_quantity = mk_dec 2 0, mp_mark_price = mk_dec 100 0, mp_unrealized_pnl = mk_dec (-8) 0\<rparr>]"
     150000 "mk_dec 15 0" dzero]
  by (simp add: margin_fits_def grid_def at_scale_def notional_value_def)

text \<open>The group check accepts exactly the groups within the limits: number of legs, number of
  external legs, exact total notional (a limit that is not positive is no limit), and no
  strictly atomic group that relies on external compensation. A refusal names the first limit
  broken in the order of the code.\<close>

theorem group_check_outcome:
  fixes policy :: group_policy and "scope" :: group_scope
  assumes "\<forall>l \<in> set legs. grid s N (gl_notional l)" "int (length legs) * N \<le> max_units" "0 \<le> N" "s \<le> 18"
    and "length legs \<le> 2147483647" "wf_dec (gc_max_total_notional cfg)"
  defines "external \<equiv> int (length (filter gl_external legs))"
    and "notional \<equiv> \<Sum>l \<leftarrow> legs. dval (gl_notional l)"
  defines "limit \<equiv> dval (gc_max_total_notional cfg)"
  defines "too_many \<equiv> gc_max_legs cfg < int (length legs)"
    and "mixed \<equiv> policy = kStrictAtomic \<and> scope = kScopeExternalCompensating"
    and "too_external \<equiv> gc_max_external_legs cfg < external"
    and "too_large \<equiv> 0 < limit \<and> limit < notional"
  shows "GroupPreTradeCheck legs policy scope cfg =
    (if too_many then GroupReject ''max_legs_exceeded''
     else if mixed then GroupReject ''strict_atomic_external_unsupported''
     else if too_external then GroupReject ''max_external_legs_exceeded''
     else if too_large then GroupReject ''total_notional_exceeded'' else GroupAccept)
   \<and> (GroupPreTradeCheck legs policy scope cfg = GroupAccept \<longleftrightarrow>
        \<not> too_many \<and> \<not> mixed \<and> \<not> too_external \<and> \<not> too_large)"
proof -
  have count: "fold (\<lambda>l n. if gl_external l then i32 (n + 1) else n) ls n = n + int (length (filter gl_external ls))"
    if "0 \<le> n" "n + int (length ls) \<le> 2147483647" for ls and n :: int
    using that
  proof (induction ls arbitrary: n)
    case Nil
    then show ?case by simp
  next
    case (Cons l ls)
    have "i32 (n + 1) = n + 1" using Cons.prems by (intro i32_id) (simp add: in_i32_def)
    with Cons show ?case by simp
  qed
  have ext: "external_legs legs = external"
    using count[of 0 legs] assms(5) by (simp add: external_legs_def external_def)
  have len: "i32 (int (length legs)) = int (length legs)"
    using assms(5) by (intro i32_id) (simp add: in_i32_def)
  have tot: "total_notional legs = fold (\<lambda>x acc. dadd acc x) (map gl_notional legs) dzero"
    by (simp add: total_notional_def fold_map o_def)
  have t: "dval (total_notional legs) = notional" "wf_dec (total_notional legs)"
    using sum_from_zero[of "map gl_notional legs" s N] assms(1-4) grid_wf[OF _ assms(2)]
    unfolding tot notional_def by (auto simp: o_def)
  have "0 < dcmp (gc_max_total_notional cfg) dzero \<longleftrightarrow> 0 < limit"
    "0 < dcmp (total_notional legs) (gc_max_total_notional cfg) \<longleftrightarrow> limit < notional"
    using dcmp_iffs(2)[OF assms(6) wf_dzero] dcmp_iffs(2)[OF t(2) assms(6)] t(1) by (simp_all add: limit_def)
  then show ?thesis
    by (simp add: GroupPreTradeCheck_def ext len too_many_def mixed_def too_external_def too_large_def)
qed

theorem group_check_outcome_witness:
  "GroupPreTradeCheck [\<lparr>gl_instrument_symbol = ''BTC/USDT'', gl_notional = mk_dec 600 0, gl_external = True\<rparr>,
      \<lparr>gl_instrument_symbol = ''ETH/USDT'', gl_notional = mk_dec 500 0, gl_external = False\<rparr>]
     kBestEffort kInternalBatch \<lparr>gc_max_total_notional = mk_dec 1000 0, gc_max_legs = 8, gc_max_external_legs = 4\<rparr>
   = GroupReject ''total_notional_exceeded''"
  using group_check_outcome[of "[\<lparr>gl_instrument_symbol = ''BTC/USDT'', gl_notional = mk_dec 600 0, gl_external = True\<rparr>,
      \<lparr>gl_instrument_symbol = ''ETH/USDT'', gl_notional = mk_dec 500 0, gl_external = False\<rparr>]" 0 600
      "\<lparr>gc_max_total_notional = mk_dec 1000 0, gc_max_legs = 8, gc_max_external_legs = 4\<rparr>" kBestEffort kInternalBatch]
  by (simp add: grid_def at_scale_def wf_dec_def in_i64_def)

end
