(* ===== verification/Environment.thy ===== *)
theory Environment
  imports Decimal_Text
begin

text \<open>
  Configuration from environment variables (\<open>cpp/common/src/env.cpp\<close>): the environment of a
  process is a lookup function, and a reader falls back to its default where the variable is
  absent or does not parse.
\<close>

type_synonym env = "string \<Rightarrow> string option"

definition env_get_string :: "env \<Rightarrow> string \<Rightarrow> string \<Rightarrow> string" where
  "env_get_string e key dflt = (case e key of None \<Rightarrow> dflt | Some v \<Rightarrow> v)"

text \<open>\<open>std::stoi\<close> is \<open>std::stoll\<close> with the range of \<open>int\<close>; the exception gives the default.\<close>

definition env_get_int :: "env \<Rightarrow> string \<Rightarrow> int \<Rightarrow> int" where
  "env_get_int e key dflt =
     (case e key of
        None \<Rightarrow> dflt
      | Some v \<Rightarrow> (case stoll v of None \<Rightarrow> dflt | Some n \<Rightarrow> if in_i32 n then n else dflt))"

end
