(* ===== verification/Risk.thy ===== *)
theory Risk
  imports Risk_Domain Environment
begin

text \<open>
  The risk service (\<open>cpp/risk/src/app/risk_uc.cpp\<close>): kill switch, venue health gate, pre-trade
  and pre-hedge checks, exposure of synthetic orders, margin snapshots after a batch.

  The code uses \<open>double\<close> for health scores, curve volumes and the exposure limit. They are
  rationals here, with the rounding of the arithmetic (\<open>fp_round\<close>) and the text conversion
  of the C library (\<open>fp_strtod\<close>) as parameters, so that nothing proved depends on how a
  result is rounded; NaN and infinities are not modelled. Event ids and time stamps of alerts
  are not modelled.
\<close>

section \<open>Floating point\<close>

record fp =
  fp_round :: "rat \<Rightarrow> rat"
  fp_strtod :: "string \<Rightarrow> rat"

text \<open>Arithmetic without rounding, for theorems about what an algorithm computes.\<close>

definition exact :: "fp \<Rightarrow> bool" where
  "exact fl \<longleftrightarrow> fp_round fl = (\<lambda>x. x)"

definition exact_fp :: fp where
  "exact_fp = \<lparr>fp_round = (\<lambda>x. x), fp_strtod = (\<lambda>_. 0)\<rparr>"

lemma exact_round [simp]: "exact fl \<Longrightarrow> fp_round fl x = x"
  by (simp add: exact_def)

lemma exact_exact_fp [simp]: "exact exact_fp"
  by (simp add: exact_def exact_fp_def)

section \<open>State\<close>

datatype venue_status =
    VENUE_HEALTH_STATUS_UNSPECIFIED | VENUE_HEALTH_STATUS_OK | VENUE_HEALTH_STATUS_STALE
  | VENUE_HEALTH_STATUS_DISCONNECTED | VENUE_HEALTH_STATUS_RATE_LIMIT | VENUE_HEALTH_STATUS_DEGRADED

datatype routing = ROUTING_ALLOW | ROUTING_CAUTION | ROUTING_AVOID | ROUTING_BLOCK

datatype breaker = BREAKER_UNSPECIFIED | BREAKER_CLOSED | BREAKER_OPEN | BREAKER_HALF_OPEN

record venue_gate =
  vg_status :: venue_status
  vg_routing :: routing
  vg_breaker :: breaker
  vg_health_score :: rat

record risk =
  rk_global_halt :: bool
  rk_instrument_halt :: "bool umap"
  rk_exposures :: "decimal umap"
  rk_venue_health_gate :: "venue_gate umap"

definition empty_risk :: risk where
  "empty_risk = \<lparr>rk_global_halt = False, rk_instrument_halt = [], rk_exposures = [],
     rk_venue_health_gate = []\<rparr>"

datatype severity = SEVERITY_INFO | SEVERITY_WARN | SEVERITY_CRITICAL

record risk_alert =
  al_partition_key :: string
  al_correlation_id :: string
  al_severity :: severity
  al_user_id :: string
  al_instrument_symbol :: string
  al_alert_type :: string
  al_code :: string
  al_message :: string
  al_details :: "string umap"

definition or_GLOBAL :: "string \<Rightarrow> string" where
  "or_GLOBAL s = (if s = [] then ''GLOBAL'' else s)"

section \<open>Gates\<close>

definition is_halted :: "risk \<Rightarrow> string \<Rightarrow> bool" where
  "is_halted s sy =
     (if rk_global_halt s then True
      else case find (rk_instrument_halt s) sy of None \<Rightarrow> False | Some h \<Rightarrow> h)"

definition hard_block :: "venue_gate \<Rightarrow> bool" where
  "hard_block g \<longleftrightarrow> vg_breaker g = BREAKER_OPEN \<or> vg_routing g = ROUTING_BLOCK
     \<or> vg_status g = VENUE_HEALTH_STATUS_DISCONNECTED \<or> vg_status g = VENUE_HEALTH_STATUS_STALE
     \<or> vg_status g = VENUE_HEALTH_STATUS_RATE_LIMIT"

definition soft_warning :: "venue_gate \<Rightarrow> bool" where
  "soft_warning g \<longleftrightarrow> vg_routing g = ROUTING_CAUTION \<or> vg_routing g = ROUTING_AVOID
     \<or> vg_status g = VENUE_HEALTH_STATUS_DEGRADED"

datatype venue_decision = kAccept | kResize | kReject

text \<open>One pass of the loop: allow, caution and blocked counters and the sum of the scores.\<close>

definition count_venue :: "fp \<Rightarrow> venue_gate \<Rightarrow> nat \<times> nat \<times> nat \<times> rat \<Rightarrow> nat \<times> nat \<times> nat \<times> rat" where
  "count_venue fl g = (\<lambda>(a, c, b, sc).
     let sc = fp_round fl (sc + vg_health_score g)
     in if hard_block g then (a, c, Suc b, sc)
        else if soft_warning g then (a, Suc c, b, sc)
        else (Suc a, c, b, sc))"

definition EvaluateVenueHealthGate :: "fp \<Rightarrow> risk \<Rightarrow> venue_decision" where
  "EvaluateVenueHealthGate fl s =
     (if rk_venue_health_gate s = [] then kAccept
      else let (allow, caution, blocked, score) =
                 fold (count_venue fl) (map snd (rk_venue_health_gate s)) (0, 0, 0, 0)
           in if allow = 0 \<and> caution = 0 \<and> 0 < blocked then kReject
              else let avg = fp_round fl (score / fp_round fl (of_nat (length (rk_venue_health_gate s))))
                   in if allow = 0 \<or> 0 < caution \<or> avg < fp_round fl (65 / 100) then kResize
                      else kAccept)"

section \<open>Pre-trade check\<close>

definition CheckNewOrder :: "fp \<Rightarrow> pretrade_request \<Rightarrow> risk \<Rightarrow> pretrade_response" where
  "CheckNewOrder fl req s =
     (let resp = \<lparr>ps_meta = echo_meta ''risk'' (pt_meta req), ps_decision = RISK_DECISION_UNSPECIFIED,
                  ps_error = None, ps_resized_order = None, ps_required_initial_margin = None\<rparr>;
          ord = pt_order req
      in if is_halted s (in_symbol (fo_instrument ord))
         then resp\<lparr>ps_decision := RISK_DECISION_HALT, ps_error := Some (mk_error ''KILL_SWITCH''
                ''Trading is halted for this instrument (or globally).'')\<rparr>
         else case EvaluateVenueHealthGate fl s of
           kReject \<Rightarrow> resp\<lparr>ps_decision := RISK_DECISION_REJECT, ps_error := Some (mk_error
                ''VENUE_UNAVAILABLE'' ''All external venues are unavailable by venue.health.'')\<rparr>
         | kResize \<Rightarrow> resp\<lparr>ps_decision := RISK_DECISION_RESIZE, ps_resized_order := Some ord,
                ps_error := Some (mk_error ''VENUE_THROTTLE''
                  ''External venue health degraded; preserving requested order speed.'')\<rparr>
         | kAccept \<Rightarrow>
             if units (fo_total_qty ord) \<le> 0
             then resp\<lparr>ps_decision := RISK_DECISION_REJECT,
                       ps_error := Some (mk_error ''BAD_QTY'' ''total_qty must be > 0'')\<rparr>
             else if 0 < dcmp (fo_price_low ord) (fo_price_high ord)
             then resp\<lparr>ps_decision := RISK_DECISION_REJECT,
                       ps_error := Some (mk_error ''BAD_PRICE_RANGE'' ''price_low must be <= price_high'')\<rparr>
             else let notional = dmul (fo_total_qty ord) (pt_reference_price req)
                  in resp\<lparr>ps_required_initial_margin := Some (div_units notional 10),
                          ps_decision := RISK_DECISION_ACCEPT\<rparr>)"

section \<open>Kill switch\<close>

record kill_request =
  kr_meta :: event_meta
  kr_instrument_symbol :: string
  kr_halt :: bool
  kr_reason :: string

definition kill_alert :: "kill_request \<Rightarrow> risk_alert" where
  "kill_alert req = \<lparr>al_partition_key = or_GLOBAL (kr_instrument_symbol req),
     al_correlation_id = em_correlation_id (kr_meta req),
     al_severity = (if kr_halt req then SEVERITY_CRITICAL else SEVERITY_INFO), al_user_id = [],
     al_instrument_symbol = kr_instrument_symbol req, al_alert_type = ''KILL_SWITCH'',
     al_code = (if kr_halt req then ''HALT'' else ''RESUME''), al_message = kr_reason req,
     al_details = []\<rparr>"

text \<open>The response is its echoed meta and \<open>effective_halt\<close>.\<close>

definition SetKillSwitch :: "kill_request \<Rightarrow> risk \<Rightarrow> (event_meta \<times> bool) \<times> risk \<times> risk_alert list" where
  "SetKillSwitch req s =
     (let s' = (if kr_instrument_symbol req = [] then s\<lparr>rk_global_halt := kr_halt req\<rparr>
                else s\<lparr>rk_instrument_halt := put (kr_instrument_symbol req) (kr_halt req) (rk_instrument_halt s)\<rparr>);
          effective = (if kr_instrument_symbol req = [] then rk_global_halt s' else kr_halt req)
      in ((echo_meta ''risk'' (kr_meta req), effective), s', [kill_alert req]))"

section \<open>Margin snapshots\<close>

text \<open>The tables the service reads are functions of the user; \<open>db_insert_ok\<close> says whether the
  database accepts the write.\<close>

record risk_position_row =
  rr_symbol :: string
  rr_side :: string
  rr_quantity :: decimal
  rr_avg_entry_price :: decimal
  rr_unrealized_pnl :: decimal

record risk_db =
  db_ListOpenPositions :: "string \<Rightarrow> risk_position_row list"
  db_LoadCollateral :: "string \<Rightarrow> decimal \<times> decimal"
  db_ResolveRates :: "string \<Rightarrow> string \<Rightarrow> margin_rates"
  db_insert_ok :: "string \<Rightarrow> string \<Rightarrow> bool"

record snapshot =
  sn_entity_id :: string
  sn_batch_id :: string
  sn_free_collateral :: decimal
  sn_reserved_collateral :: decimal
  sn_initial_margin :: decimal
  sn_maintenance_margin :: decimal
  sn_throttled :: bool
  sn_margin_call :: bool
  sn_liquidation :: bool

datatype insert_result = kInserted | kDuplicate | kError

text \<open>\<open>INSERT \<dots> ON CONFLICT (entity_id, batch_id) WHERE batch_id IS NOT NULL DO NOTHING\<close>; the table
  holds the newest row first.\<close>

definition InsertSnapshot :: "bool \<Rightarrow> snapshot \<Rightarrow> snapshot list \<Rightarrow> insert_result \<times> snapshot list" where
  "InsertSnapshot ok r rows =
     (if \<not> ok then (kError, rows)
      else if sn_batch_id r \<noteq> [] \<and>
        (\<exists>x \<in> set rows. sn_entity_id x = sn_entity_id r \<and> sn_batch_id x = sn_batch_id r)
      then (kDuplicate, rows)
      else (kInserted, r # rows))"

definition LatestSnapshot :: "string \<Rightarrow> snapshot list \<Rightarrow> snapshot option" where
  "LatestSnapshot entity rows = List.find (\<lambda>r. sn_entity_id r = entity) rows"

definition PublishMarginAlert :: "string \<Rightarrow> string \<Rightarrow> bool \<Rightarrow> risk_alert" where
  "PublishMarginAlert user batch liquidation =
     (let kind = (if liquidation then ''LIQUIDATION'' else ''MARGIN_CALL'')
      in \<lparr>al_partition_key = or_GLOBAL user, al_correlation_id = [],
          al_severity = (if liquidation then SEVERITY_CRITICAL else SEVERITY_WARN), al_user_id = user,
          al_instrument_symbol = [], al_alert_type = kind, al_code = kind,
          al_message = (if liquidation then ''free_collateral <= 0; liquidation triggered''
                        else ''free_collateral < maintenance_margin; margin call''),
          al_details = [(''batch_id'', batch)]\<rparr>)"

definition margin_position_of :: "decimal umap \<Rightarrow> risk_position_row \<Rightarrow> margin_position" where
  "margin_position_of prices r = \<lparr>mp_symbol = rr_symbol r, mp_quantity = rr_quantity r,
     mp_mark_price = (case find prices (rr_symbol r) of Some x \<Rightarrow> x | None \<Rightarrow> rr_avg_entry_price r),
     mp_unrealized_pnl = rr_unrealized_pnl r\<rparr>"

definition user_margin :: "env \<Rightarrow> risk_db \<Rightarrow> string \<Rightarrow> batch_result \<Rightarrow> margin_result" where
  "user_margin e db user b =
     (let (free, reserved) = db_LoadCollateral db user
      in ComputeMargin (map (margin_position_of (br_clear_prices b)) (db_ListOpenPositions db user))
           (db_ResolveRates db user (env_get_string e ''RISK_DEFAULT_ROLE'' ''client'')) free reserved)"

definition snapshot_of :: "string \<Rightarrow> string \<Rightarrow> margin_result \<Rightarrow> snapshot" where
  "snapshot_of user batch m = \<lparr>sn_entity_id = user, sn_batch_id = batch,
     sn_free_collateral = ms_free_collateral m, sn_reserved_collateral = ms_reserved_collateral m,
     sn_initial_margin = ms_initial_margin m, sn_maintenance_margin = ms_maintenance_margin m,
     sn_throttled = ms_throttled m, sn_margin_call = ms_margin_call m,
     sn_liquidation = ms_liquidation m\<rparr>"

definition buildRiskSnapshot ::
    "env \<Rightarrow> risk_db \<Rightarrow> string \<Rightarrow> batch_result \<Rightarrow> snapshot list \<Rightarrow> bool \<times> snapshot list \<times> risk_alert list" where
  "buildRiskSnapshot e db user b rows =
     (let m = user_margin e db user b;
          (res, rows') = InsertSnapshot (db_insert_ok db user (br_batch_id b))
            (snapshot_of user (br_batch_id b) m) rows
      in case res of
           kDuplicate \<Rightarrow> (True, rows', [])
         | kError \<Rightarrow> (False, rows', [])
         | kInserted \<Rightarrow> (True, rows',
             if ms_liquidation m then [PublishMarginAlert user (br_batch_id b) True]
             else if ms_margin_call m then [PublishMarginAlert user (br_batch_id b) False] else []))"

definition affected_users :: "batch_result \<Rightarrow> string list" where
  "affected_users b = remdups (filter (\<lambda>u. u \<noteq> []) (map ff_user_id (br_fills b)))"

fun build_snapshots ::
    "env \<Rightarrow> risk_db \<Rightarrow> batch_result \<Rightarrow> string list \<Rightarrow> snapshot list \<Rightarrow> snapshot list \<times> risk_alert list" where
  "build_snapshots e db b [] rows = (rows, [])"
| "build_snapshots e db b (u # us) rows =
     (let (_, rows, al) = buildRiskSnapshot e db u b rows; (rows, als) = build_snapshots e db b us rows
      in (rows, al @ als))"

text \<open>No repository, or one that is not enabled, is \<open>None\<close>.\<close>

definition OnBatchResult ::
    "env \<Rightarrow> risk_db option \<Rightarrow> batch_result \<Rightarrow> snapshot list \<Rightarrow> snapshot list \<times> risk_alert list" where
  "OnBatchResult e db b rows =
     (case db of None \<Rightarrow> (rows, []) | Some db \<Rightarrow> build_snapshots e db b (affected_users b) rows)"

record snapshot_view =
  sw_entity_id :: string
  sw_free_collateral :: decimal
  sw_reserved_collateral :: decimal
  sw_initial_margin :: decimal
  sw_maintenance_margin :: decimal
  sw_margin_call :: bool
  sw_liquidation :: bool

definition GetRiskSnapshot :: "risk_db option \<Rightarrow> string \<Rightarrow> snapshot list \<Rightarrow> snapshot_view option" where
  "GetRiskSnapshot db entity rows =
     (case db of
        None \<Rightarrow> None
      | Some _ \<Rightarrow> (case LatestSnapshot entity rows of
          None \<Rightarrow> None
        | Some r \<Rightarrow> Some \<lparr>sw_entity_id = sn_entity_id r, sw_free_collateral = sn_free_collateral r,
            sw_reserved_collateral = sn_reserved_collateral r, sw_initial_margin = sn_initial_margin r,
            sw_maintenance_margin = sn_maintenance_margin r, sw_margin_call = sn_margin_call r,
            sw_liquidation = sn_liquidation r\<rparr>))"

section \<open>Observers\<close>

record liquidity_curve =
  lc_venue_id :: string
  lc_instrument :: instrument
  lc_confidence :: rat
  lc_bid_s_of_q :: "rat list"
  lc_ask_s_of_q :: "rat list"

definition curve_end :: "rat list \<Rightarrow> rat" where
  "curve_end s = max (hd s) (last s)"

definition curve_volume :: "fp \<Rightarrow> liquidity_curve \<Rightarrow> rat" where
  "curve_volume fl c =
     (let v = (if lc_bid_s_of_q c \<noteq> [] then fp_round fl (0 + curve_end (lc_bid_s_of_q c)) else 0)
      in if lc_ask_s_of_q c \<noteq> [] then fp_round fl (v + curve_end (lc_ask_s_of_q c)) else v)"

definition CurveChecks :: "fp \<Rightarrow> env \<Rightarrow> liquidity_curve \<Rightarrow> risk_alert list" where
  "CurveChecks fl e c =
     (let low = lc_confidence c < fp_strtod fl (env_get_string e ''RISK_MIN_CONFIDENCE'' ''0.5'');
          big = fp_strtod fl (env_get_string e ''RISK_MAX_VOLUME'' ''10000'') < curve_volume fl c;
          reason = (if low then ''confidence too low;'' else []) @ (if big then ''volume too big;'' else [])
      in if \<not> low \<and> \<not> big then []
         else [\<lparr>al_partition_key = or_GLOBAL (in_symbol (lc_instrument c)), al_correlation_id = [],
                al_severity = SEVERITY_WARN, al_user_id = lc_venue_id c,
                al_instrument_symbol = in_symbol (lc_instrument c), al_alert_type = [], al_code = [],
                al_message = reason, al_details = []\<rparr>])"

record venue_health =
  vh_venue :: string
  vh_status :: venue_status
  vh_routing :: routing
  vh_breaker :: breaker
  vh_health_score :: rat

text \<open>The first check looks at the status, the second at the routing recommendation; each gives a
  severity and a reason, and the alert carries the larger severity.\<close>

definition status_problem :: "venue_status \<Rightarrow> (severity \<times> string) option" where
  "status_problem st =
     (if st = VENUE_HEALTH_STATUS_RATE_LIMIT \<or> st = VENUE_HEALTH_STATUS_UNSPECIFIED
      then Some (SEVERITY_WARN, ''bad venue status;'')
      else if st \<noteq> VENUE_HEALTH_STATUS_OK then Some (SEVERITY_CRITICAL, ''very bad venue status;'')
      else None)"

definition routing_problem :: "routing \<Rightarrow> (severity \<times> string) option" where
  "routing_problem r =
     (if r = ROUTING_CAUTION then Some (SEVERITY_WARN, ''bad venue recommendation;'')
      else if r \<noteq> ROUTING_ALLOW then Some (SEVERITY_CRITICAL, ''very bad venue recommendation;'')
      else None)"

definition max_severity :: "severity \<Rightarrow> severity \<Rightarrow> severity" where
  "max_severity a b = (if a = SEVERITY_CRITICAL \<or> b = SEVERITY_CRITICAL then SEVERITY_CRITICAL
     else if a = SEVERITY_WARN \<or> b = SEVERITY_WARN then SEVERITY_WARN else SEVERITY_INFO)"

definition escalate :: "(severity \<times> string) option \<Rightarrow> severity \<times> string \<Rightarrow> severity \<times> string" where
  "escalate p a = (case p of None \<Rightarrow> a | Some (sv, r) \<Rightarrow> (max_severity (fst a) sv, snd a @ r))"

definition gate_of :: "venue_health \<Rightarrow> venue_gate" where
  "gate_of h = \<lparr>vg_status = vh_status h, vg_routing = vh_routing h, vg_breaker = vh_breaker h,
     vg_health_score = vh_health_score h\<rparr>"

definition HealthChecks :: "venue_health \<Rightarrow> risk \<Rightarrow> risk \<times> risk_alert list" where
  "HealthChecks h s =
     (let p1 = status_problem (vh_status h); p2 = routing_problem (vh_routing h);
          (sev, reason) = escalate p2 (escalate p1 (SEVERITY_WARN, []));
          s' = s\<lparr>rk_venue_health_gate := put (vh_venue h) (gate_of h) (rk_venue_health_gate s)\<rparr>
      in (s', if p1 = None \<and> p2 = None then []
              else [\<lparr>al_partition_key = ''GLOBAL'', al_correlation_id = [], al_severity = sev,
                     al_user_id = vh_venue h, al_instrument_symbol = [], al_alert_type = [],
                     al_code = [], al_message = reason, al_details = []\<rparr>]))"

definition OnExecutionReport :: "exec_report \<Rightarrow> risk_alert list" where
  "OnExecutionReport r =
     (let has_error = (case xr_error r of None \<Rightarrow> False | Some er \<Rightarrow> er_code er \<noteq> [] \<or> er_message er \<noteq> []);
          rejected = (xr_status r = EXEC_REJECTED);
          reason = (if rejected then ''execution report status=REJECTED;'' else [])
            @ (if has_error then ''execution report has error code/message;'' else [])
      in if \<not> has_error \<and> \<not> rejected then []
         else [\<lparr>al_partition_key = or_GLOBAL (xr_venue r), al_correlation_id = [],
                al_severity = (if rejected then SEVERITY_CRITICAL else SEVERITY_WARN),
                al_user_id = xr_venue r, al_instrument_symbol = in_symbol (xr_instrument r),
                al_alert_type = ''EXECUTION_REPORT'',
                al_code = (if rejected then ''EXECUTION_REJECTED'' else ''EXECUTION_ERROR''),
                al_message = reason, al_details = []\<rparr>])"

section \<open>Exposure of synthetic orders\<close>

record synthetic_order =
  so_synthetic_id :: string
  so_venue_id :: string
  so_side :: side
  so_p_h :: decimal
  so_q_max :: decimal

text \<open>\<open>static_cast<double>(units) * std::pow(10, -scale)\<close>\<close>

definition to_double :: "fp \<Rightarrow> decimal \<Rightarrow> rat" where
  "to_double fl d = fp_round fl (fp_round fl (of_int (units d)) *
     fp_round fl (if 0 \<le> scale d then 1 / 10 ^ nat (scale d) else 10 ^ nat (- scale d)))"

definition synthetic_cost :: "synthetic_order \<Rightarrow> decimal" where
  "synthetic_cost ord = (let cost = dmul (so_p_h ord) (so_q_max ord)
     in if so_side ord = SIDE_BUY then dneg cost else cost)"

definition max_exposure :: "fp \<Rightarrow> env \<Rightarrow> rat" where
  "max_exposure fl e = fp_strtod fl (env_get_string e ''RISK_MAX_EXPOSURE'' ''10000'')"

text \<open>\<open>exposures_[venue]\<close> creates the entry, with the value zero, also when the order is refused.\<close>

definition OnSyntheticOrder :: "fp \<Rightarrow> env \<Rightarrow> synthetic_order \<Rightarrow> risk \<Rightarrow> risk \<times> risk_alert list" where
  "OnSyntheticOrder fl e ord s =
     (let venue = so_venue_id ord;
          exposure = find_or dzero (rk_exposures s) venue;
          new_exposure = dadd exposure (synthetic_cost ord)
      in if \<bar>to_double fl new_exposure\<bar> \<le> max_exposure fl e
         then (s\<lparr>rk_exposures := put venue new_exposure (rk_exposures s)\<rparr>, [])
         else (s\<lparr>rk_exposures := put venue exposure (rk_exposures s)\<rparr>,
               [\<lparr>al_partition_key = ''GLOBAL'', al_correlation_id = [], al_severity = SEVERITY_WARN,
                 al_user_id = so_synthetic_id ord, al_instrument_symbol = [], al_alert_type = [],
                 al_code = [], al_message = ''exposure too big for venue <'' @ venue @ ''>;'',
                 al_details = []\<rparr>]))"

section \<open>Pre-hedge check\<close>

record hedge_risk_config =
  hc_max_notional_per_hedge :: decimal
  hc_hedge_exposure_limit :: decimal
  hc_max_slippage_bps_low :: int
  hc_max_slippage_bps_medium :: int
  hc_max_slippage_bps_high :: int

definition ThresholdEnabled :: "decimal \<Rightarrow> bool" where
  "ThresholdEnabled d \<longleftrightarrow> 0 < dcmp d dzero"

definition LoadHedgeRiskConfig :: "env \<Rightarrow> hedge_risk_config" where
  "LoadHedgeRiskConfig e =
     \<lparr>hc_max_notional_per_hedge = ParseDecimalString (env_get_string e ''RISK_HEDGE_MAX_NOTIONAL'' ''0''),
      hc_hedge_exposure_limit = ParseDecimalString (env_get_string e ''RISK_HEDGE_EXPOSURE_LIMIT'' ''0''),
      hc_max_slippage_bps_low = env_get_int e ''RISK_HEDGE_MAX_SLIPPAGE_LOW_BPS'' 0,
      hc_max_slippage_bps_medium = env_get_int e ''RISK_HEDGE_MAX_SLIPPAGE_MEDIUM_BPS'' 0,
      hc_max_slippage_bps_high = env_get_int e ''RISK_HEDGE_MAX_SLIPPAGE_HIGH_BPS'' 0\<rparr>"

definition MaxSlippageBpsForUrgency :: "hedge_risk_config \<Rightarrow> urgency \<Rightarrow> int" where
  "MaxSlippageBpsForUrgency cfg u =
     (case u of URGENCY_LOW \<Rightarrow> hc_max_slippage_bps_low cfg
      | URGENCY_HIGH \<Rightarrow> hc_max_slippage_bps_high cfg
      | _ \<Rightarrow> hc_max_slippage_bps_medium cfg)"

record prehedge_request =
  pq_meta :: event_meta
  pq_intent :: exec_intent
  pq_expected_slippage_bps :: int
  pq_current_hedge_exposure :: decimal

record prehedge_details =
  pd_notional_used :: decimal
  pd_notional_limit :: decimal
  pd_exposure_after :: decimal
  pd_exposure_limit :: decimal
  pd_slippage_limit_bps :: int
  pd_venues :: "(string \<times> venue_status \<times> bool \<times> rat) list"

record prehedge_response =
  pe_meta :: event_meta
  pe_decision :: risk_decision
  pe_error :: "error_msg option"
  pe_details :: prehedge_details

definition prehedge_notional :: "prehedge_request \<Rightarrow> decimal" where
  "prehedge_notional req = dmul (ei_target_qty (pq_intent req)) (dec_of (ei_reference_mid (pq_intent req)))"

definition prehedge_exposure :: "prehedge_request \<Rightarrow> decimal" where
  "prehedge_exposure req = dadd (pq_current_hedge_exposure req) (ei_target_qty (pq_intent req))"

definition venue_blocked :: "venue_gate \<Rightarrow> bool" where
  "venue_blocked g \<longleftrightarrow> vg_breaker g = BREAKER_OPEN \<or> vg_routing g = ROUTING_BLOCK"

text \<open>All allowed venues the service knows are blocked, and it knows at least one.\<close>

definition all_venues_blocked :: "string list \<Rightarrow> risk \<Rightarrow> bool" where
  "all_venues_blocked allowed s =
     (let known = List.map_filter (find (rk_venue_health_gate s)) allowed
      in 0 < length known \<and> length (filter venue_blocked known) = length known)"

definition PreHedgeCheck :: "env \<Rightarrow> prehedge_request \<Rightarrow> risk \<Rightarrow> prehedge_response" where
  "PreHedgeCheck e req s =
     (let cfg = LoadHedgeRiskConfig e; intent = pq_intent req;
          notional = prehedge_notional req; exposure_after = prehedge_exposure req;
          slip = MaxSlippageBpsForUrgency cfg (ei_urgency intent);
          details = \<lparr>pd_notional_used = notional, pd_notional_limit = hc_max_notional_per_hedge cfg,
            pd_exposure_after = exposure_after, pd_exposure_limit = hc_hedge_exposure_limit cfg,
            pd_slippage_limit_bps = slip,
            pd_venues = map (\<lambda>(v, g). (v, vg_status g, vg_breaker g = BREAKER_OPEN, vg_health_score g))
              (rk_venue_health_gate s)\<rparr>;
          resp = \<lparr>pe_meta = echo_meta ''risk'' (pq_meta req), pe_decision = RISK_DECISION_UNSPECIFIED,
            pe_error = None, pe_details = details\<rparr>;
          reject = (\<lambda>code msg. resp\<lparr>pe_decision := RISK_DECISION_REJECT, pe_error := Some (mk_error code msg)\<rparr>)
      in if is_halted s (in_symbol (ei_instrument intent))
         then reject ''PROVIDER_HALTED'' (''Kill-switch active for symbol '' @ in_symbol (ei_instrument intent))
         else if ThresholdEnabled (hc_max_notional_per_hedge cfg)
           \<and> 0 < dcmp notional (hc_max_notional_per_hedge cfg)
         then reject ''NOTIONAL_EXCEEDED'' (''target_qty * reference_mid = '' @ to_string notional
           @ '' exceeds maxNotionalPerHedge = '' @ to_string (hc_max_notional_per_hedge cfg))
         else if ThresholdEnabled (hc_hedge_exposure_limit cfg)
           \<and> 0 < dcmp exposure_after (hc_hedge_exposure_limit cfg)
         then reject ''EXPOSURE_EXCEEDED'' (''current_exposure + target_qty = '' @ to_string exposure_after
           @ '' exceeds hedgeExposureLimit = '' @ to_string (hc_hedge_exposure_limit cfg))
         else if 0 < slip \<and> slip < pq_expected_slippage_bps req
         then reject ''SLIPPAGE_EXCEEDED'' (''expected_slippage_bps = '' @ int_to_str (pq_expected_slippage_bps req)
           @ '' exceeds maxSlippage[urgency] = '' @ int_to_str slip)
         else if all_venues_blocked (ei_allowed_venues intent) s
         then reject ''VENUES_UNAVAILABLE'' ''All allowed_venues have circuit breaker OPEN''
         else resp\<lparr>pe_decision := RISK_DECISION_ACCEPT\<rparr>)"

section \<open>Group check over the wire\<close>

text \<open>The gRPC handler around \<open>GroupPreTradeCheck\<close>: limits from the environment, an alert on refusal.\<close>

definition group_config_of :: "env \<Rightarrow> group_config" where
  "group_config_of e = \<lparr>gc_max_total_notional = mk_dec (env_get_int e ''F09_MAX_TOTAL_NOTIONAL'' 0) 0,
     gc_max_legs = env_get_int e ''F09_MAX_LEGS_PER_GROUP'' 8,
     gc_max_external_legs = env_get_int e ''F09_MAX_EXTERNAL_LEGS'' 4\<rparr>"

definition PublishGroupedRejectAlert :: "string \<Rightarrow> string \<Rightarrow> risk_alert" where
  "PublishGroupedRejectAlert user reason = \<lparr>al_partition_key = or_GLOBAL user, al_correlation_id = [],
     al_severity = SEVERITY_WARN, al_user_id = user, al_instrument_symbol = [],
     al_alert_type = ''GROUPED_PRE_TRADE_REJECTED'', al_code = ''GROUPED_PRE_TRADE_REJECTED'',
     al_message = reason, al_details = []\<rparr>"

definition PreTradeCheckGroup ::
    "env \<Rightarrow> string \<Rightarrow> string \<Rightarrow> string \<Rightarrow> group_leg list \<Rightarrow> risk_decision \<times> error_msg option \<times> risk_alert list" where
  "PreTradeCheckGroup e user policy scp legs =
     (case GroupPreTradeCheck legs (MapPolicy policy) (MapScope scp) (group_config_of e) of
        GroupReject reason \<Rightarrow> (RISK_DECISION_REJECT, Some (mk_error ''GROUPED_PRE_TRADE_REJECTED'' reason),
          [PublishGroupedRejectAlert user reason])
      | GroupAccept \<Rightarrow> (RISK_DECISION_ACCEPT, None, []))"

end
