(* ===== verification/Risk_Safety.thy ===== *)
theory Risk_Safety
  imports Risk "HOL-Library.Sublist"
begin

text \<open>
  What the risk service guarantees: a halt holds until it is lifted, the two checks decide by
  the stated limits, exposures stay within theirs, and margin alerts match stored snapshots
  once per batch and user.
\<close>

lemma dval_sign: "dval d \<le> 0 \<longleftrightarrow> units d \<le> 0" "0 < dval d \<longleftrightarrow> 0 < units d"
proof -
  have p: "(0 :: rat) < 10 ^ n" for n :: nat by simp
  show "dval d \<le> 0 \<longleftrightarrow> units d \<le> 0" "0 < dval d \<longleftrightarrow> 0 < units d"
    using p[of "nat (scale d)"] unfolding dval_def by (simp_all add: divide_le_eq less_divide_eq)
qed

section \<open>Runs of the service\<close>

text \<open>The events that change the state of the service.\<close>

datatype risk_event = EvKill kill_request | EvHealth venue_health | EvSynthetic synthetic_order

definition risk_step :: "fp \<Rightarrow> env \<Rightarrow> risk_event \<Rightarrow> risk \<Rightarrow> risk \<times> risk_alert list" where
  "risk_step fl e ev s =
     (case ev of EvKill k \<Rightarrow> snd (SetKillSwitch k s) | EvHealth h \<Rightarrow> HealthChecks h s
      | EvSynthetic ord \<Rightarrow> OnSyntheticOrder fl e ord s)"

definition risk_run :: "fp \<Rightarrow> env \<Rightarrow> risk_event list \<Rightarrow> risk \<Rightarrow> risk" where
  "risk_run fl e evs s = fold (\<lambda>ev s. fst (risk_step fl e ev s)) evs s"

lemma risk_run_simps [simp]:
  "risk_run fl e [] s = s"
  "risk_run fl e (ev # evs) s = risk_run fl e evs (fst (risk_step fl e ev s))"
  by (simp_all add: risk_run_def)

lemma risk_run_invariant:
  assumes "I s" "\<And>ev s. ev \<in> set evs \<Longrightarrow> I s \<Longrightarrow> I (fst (risk_step fl e ev s))"
  shows "I (risk_run fl e evs s)"
  using assms by (induction evs arbitrary: s) auto

lemma HealthChecks_state:
  "fst (HealthChecks h s) = s\<lparr>rk_venue_health_gate := put (vh_venue h) (gate_of h) (rk_venue_health_gate s)\<rparr>"
  by (simp add: HealthChecks_def Let_def split_beta)

lemma SetKillSwitch_state:
  "fst (snd (SetKillSwitch k s)) =
     (if kr_instrument_symbol k = [] then s\<lparr>rk_global_halt := kr_halt k\<rparr>
      else s\<lparr>rk_instrument_halt := put (kr_instrument_symbol k) (kr_halt k) (rk_instrument_halt s)\<rparr>)"
  by (simp add: SetKillSwitch_def Let_def)

lemma OnSyntheticOrder_frame [simp]:
  "rk_global_halt (fst (OnSyntheticOrder fl e ord s)) = rk_global_halt s"
  "rk_instrument_halt (fst (OnSyntheticOrder fl e ord s)) = rk_instrument_halt s"
  by (simp_all add: OnSyntheticOrder_def Let_def)

section \<open>Kill switch\<close>

text \<open>The switch of one scope (the empty symbol is the global one) is on.\<close>

definition scope_halted :: "string \<Rightarrow> risk \<Rightarrow> bool" where
  "scope_halted sc s \<longleftrightarrow> (if sc = [] then rk_global_halt s else find (rk_instrument_halt s) sc = Some True)"

lemma scope_halted_step:
  assumes "scope_halted sc s" "\<And>k. ev = EvKill k \<Longrightarrow> kr_instrument_symbol k = sc \<Longrightarrow> kr_halt k"
  shows "scope_halted sc (fst (risk_step fl e ev s))"
  using assms
  by (cases ev) (auto simp: risk_step_def scope_halted_def SetKillSwitch_state HealthChecks_state)

lemma is_halted_iff: "is_halted s sy \<longleftrightarrow> rk_global_halt s \<or> find (rk_instrument_halt s) sy = Some True"
  by (auto simp: is_halted_def split: option.splits)

lemma halted_check:
  "is_halted s (in_symbol (fo_instrument (pt_order req))) \<Longrightarrow>
   CheckNewOrder fl req s = \<lparr>ps_meta = echo_meta ''risk'' (pt_meta req), ps_decision = RISK_DECISION_HALT,
     ps_error = Some (mk_error ''KILL_SWITCH'' ''Trading is halted for this instrument (or globally).''),
     ps_resized_order = None, ps_required_initial_margin = None\<rparr>"
  by (simp add: CheckNewOrder_def Let_def)

text \<open>C9. A halt holds until it is lifted. After the kill switch is pulled for an instrument or
  globally, whatever synthetic orders, health reports and switches of other scopes follow, and
  as long as no switch of the same scope resumes trading, every new order of a covered
  instrument is answered HALT and every hedge on it is rejected with PROVIDER_HALTED.\<close>

theorem kill_switch_holds:
  fixes s :: risk and e e' :: env and fl :: fp
  assumes "kr_halt k" "kr_instrument_symbol k = [] \<or> kr_instrument_symbol k = sy"
    and "\<And>k'. EvKill k' \<in> set evs \<Longrightarrow> kr_instrument_symbol k' = kr_instrument_symbol k \<Longrightarrow> kr_halt k'"
    and "in_symbol (fo_instrument (pt_order req)) = sy" "in_symbol (ei_instrument (pq_intent hreq)) = sy"
  defines "s' \<equiv> risk_run fl e evs (fst (snd (SetKillSwitch k s)))"
  shows "ps_decision (CheckNewOrder fl req s') = RISK_DECISION_HALT
    \<and> map_option er_code (ps_error (CheckNewOrder fl req s')) = Some ''KILL_SWITCH''
    \<and> pe_decision (PreHedgeCheck e' hreq s') = RISK_DECISION_REJECT
    \<and> map_option er_code (pe_error (PreHedgeCheck e' hreq s')) = Some ''PROVIDER_HALTED''"
proof -
  have "scope_halted (kr_instrument_symbol k) s'"
    unfolding s'_def
  proof (rule risk_run_invariant)
    show "scope_halted (kr_instrument_symbol k) (fst (snd (SetKillSwitch k s)))"
      using assms(1) by (simp add: scope_halted_def SetKillSwitch_state)
    show "scope_halted (kr_instrument_symbol k) (fst (risk_step fl e ev t))"
      if "ev \<in> set evs" "scope_halted (kr_instrument_symbol k) t" for ev t
      using that assms(3) by (intro scope_halted_step) auto
  qed
  with assms(2) have "is_halted s' sy" by (auto simp: is_halted_iff scope_halted_def split: if_splits)
  with assms(4,5) show ?thesis
    by (simp add: halted_check PreHedgeCheck_def Let_def mk_error_def)
qed

section \<open>New orders\<close>

lemma fold_count_venue:
  "\<exists>sc'. fold (count_venue fl) gs (a, c, b, sc) =
    (a + length (filter (\<lambda>g. \<not> hard_block g \<and> \<not> soft_warning g) gs),
     c + length (filter (\<lambda>g. \<not> hard_block g \<and> soft_warning g) gs), b + length (filter hard_block gs), sc')"
proof (induction gs arbitrary: a c b sc)
  case Nil
  then show ?case by simp
next
  case (Cons g gs)
  from Cons[of "if hard_block g \<or> soft_warning g then a else Suc a"
      "if \<not> hard_block g \<and> soft_warning g then Suc c else c" "if hard_block g then Suc b else b"
      "fp_round fl (sc + vg_health_score g)"]
  show ?case by (auto simp: count_venue_def Let_def)
qed

lemma filter_length_0: "length (filter P xs) = 0 \<longleftrightarrow> (\<forall>x \<in> set xs. \<not> P x)"
  by (auto simp: filter_empty_conv)

text \<open>The gate in words, whatever the scores: all venues blocked is a refusal; acceptance needs no
  venue known, or a venue in good order and none with a warning.\<close>

lemma venue_gate_decision:
  fixes s :: risk
  defines "gs \<equiv> map snd (rk_venue_health_gate s)"
  shows "EvaluateVenueHealthGate fl s = kReject \<longleftrightarrow> gs \<noteq> [] \<and> (\<forall>g \<in> set gs. hard_block g)"
    and "EvaluateVenueHealthGate fl s = kAccept \<Longrightarrow>
      gs = [] \<or> (\<exists>g \<in> set gs. \<not> hard_block g) \<and> (\<forall>g \<in> set gs. \<not> hard_block g \<longrightarrow> \<not> soft_warning g)"
proof -
  obtain sc where f: "fold (count_venue fl) gs (0, 0, 0, 0) =
    (length (filter (\<lambda>g. \<not> hard_block g \<and> \<not> soft_warning g) gs),
     length (filter (\<lambda>g. \<not> hard_block g \<and> soft_warning g) gs), length (filter hard_block gs), sc)"
    using fold_count_venue[of fl gs 0 0 0 0] by auto
  have e: "rk_venue_health_gate s = [] \<longleftrightarrow> gs = []" by (simp add: gs_def)
  show "EvaluateVenueHealthGate fl s = kReject \<longleftrightarrow> gs \<noteq> [] \<and> (\<forall>g \<in> set gs. hard_block g)"
    unfolding EvaluateVenueHealthGate_def gs_def[symmetric] f e
    by (cases gs) (auto simp: Let_def filter_empty_conv split: if_splits)
  show "EvaluateVenueHealthGate fl s = kAccept \<Longrightarrow>
      gs = [] \<or> (\<exists>g \<in> set gs. \<not> hard_block g) \<and> (\<forall>g \<in> set gs. \<not> hard_block g \<longrightarrow> \<not> soft_warning g)"
    unfolding EvaluateVenueHealthGate_def gs_def[symmetric] f e
    by (auto simp: Let_def filter_empty_conv split: if_splits)
qed

lemma sdiv_10_error:
  fixes u :: int
  shows "\<bar>u - 10 * (u sdiv 10)\<bar> < 10" "in_i64 u \<Longrightarrow> in_i64 (u sdiv 10)"
proof -
  have "u sdiv 10 = sgn u * (\<bar>u\<bar> div 10)" by (simp add: signed_divide_int_def)
  moreover have "\<bar>u\<bar> = 10 * (\<bar>u\<bar> div 10) + \<bar>u\<bar> mod 10" "\<bar>u\<bar> mod 10 < 10" "0 \<le> \<bar>u\<bar> mod 10" by simp_all
  ultimately show "\<bar>u - 10 * (u sdiv 10)\<bar> < 10" "in_i64 u \<Longrightarrow> in_i64 (u sdiv 10)"
    unfolding in_i64_def by (cases "0 < u"; cases "u = 0"; force simp: sgn_if)+
qed

text \<open>The pre-trade decision. An order is halted exactly when its instrument is, refused when
  every known venue is blocked or when quantity or price range is malformed (the first problem
  in this order is reported), passed unchanged with a warning when venue health is degraded,
  and accepted otherwise with a tenth of quantity times reference price as required margin,
  truncated to the last place of the product.\<close>

theorem new_order_decision:
  fixes fl :: fp and s :: risk
  assumes "grid sq Q (fo_total_qty (pt_order req))" "grid sp P (pt_reference_price req)" "sq + sp \<le> 18"
    "Q \<le> max_units" "P \<le> max_units" "Q * P \<le> max_units"
    and "wf_dec (fo_price_low (pt_order req))" "wf_dec (fo_price_high (pt_order req))"
  defines "r \<equiv> CheckNewOrder fl req s" and "ord \<equiv> pt_order req"
  defines "halted \<equiv> is_halted s (in_symbol (fo_instrument ord))"
    and "gate \<equiv> EvaluateVenueHealthGate fl s"
    and "sound \<equiv> 0 < dval (fo_total_qty ord) \<and> dval (fo_price_low ord) \<le> dval (fo_price_high ord)"
  shows "(ps_decision r = RISK_DECISION_HALT \<longleftrightarrow> halted)
    \<and> (ps_decision r = RISK_DECISION_RESIZE \<longleftrightarrow> \<not> halted \<and> gate = kResize)
    \<and> (ps_decision r = RISK_DECISION_REJECT \<longleftrightarrow> \<not> halted \<and> (gate = kReject \<or> gate = kAccept \<and> \<not> sound))
    \<and> (ps_decision r = RISK_DECISION_ACCEPT \<longleftrightarrow> \<not> halted \<and> gate = kAccept \<and> sound)
    \<and> ps_resized_order r = (if ps_decision r = RISK_DECISION_RESIZE then Some ord else None)
    \<and> (ps_error r = None \<longleftrightarrow> ps_decision r = RISK_DECISION_ACCEPT)
    \<and> (case ps_required_initial_margin r of None \<Rightarrow> ps_decision r \<noteq> RISK_DECISION_ACCEPT
       | Some m \<Rightarrow> ps_decision r = RISK_DECISION_ACCEPT \<and>
           \<bar>10 * dval m - dval (fo_total_qty ord) * dval (pt_reference_price req)\<bar> < 10 / 10 ^ nat (scale m))"
proof -
  let ?n = "dmul (fo_total_qty ord) (pt_reference_price req)"
  note m = grid_mul[OF assms(1-6)]
  have u: "in_i64 (units ?n)" using grid_wf[OF m(2) assms(6)] by (simp add: wf_dec_def ord_def)
  have qty: "units (fo_total_qty ord) \<le> 0 \<longleftrightarrow> dval (fo_total_qty ord) \<le> 0"
    by (simp add: dval_sign)
  have price: "0 < dcmp (fo_price_low ord) (fo_price_high ord) \<longleftrightarrow>
      dval (fo_price_high ord) < dval (fo_price_low ord)"
    using dcmp_iffs(2)[OF assms(7,8)] by (simp add: ord_def)
  define v where "v = units ?n sdiv 10"
  have v: "units (div_units ?n 10) = v" "scale (div_units ?n 10) = scale ?n"
    using u sdiv_10_error(2) by (simp_all add: div_units_def v_def arith_simps)
  have "\<bar>10 * v - units ?n\<bar> < 10" using sdiv_10_error(1)[of "units ?n"] by (simp add: v_def abs_minus_commute)
  then have "\<bar>of_int (10 * v - units ?n)\<bar> < (10 :: rat)" by (simp flip: of_int_abs)
  moreover have "10 * dval (div_units ?n 10) - dval ?n = of_int (10 * v - units ?n) / 10 ^ nat (scale ?n)"
    by (simp add: dval_def v diff_divide_distrib)
  ultimately have err: "\<bar>10 * dval (div_units ?n 10) - dval ?n\<bar> < 10 / 10 ^ nat (scale (div_units ?n 10))"
    unfolding v by (simp only: abs_divide) (simp add: divide_strict_right_mono)
  have val: "dval ?n = dval (fo_total_qty ord) * dval (pt_reference_price req)"
    using m(1) by (simp add: ord_def)
  have cases: "r = (let resp = \<lparr>ps_meta = echo_meta ''risk'' (pt_meta req), ps_decision = RISK_DECISION_UNSPECIFIED,
                  ps_error = None, ps_resized_order = None, ps_required_initial_margin = None\<rparr>
      in if halted then resp\<lparr>ps_decision := RISK_DECISION_HALT, ps_error := Some (mk_error ''KILL_SWITCH''
                ''Trading is halted for this instrument (or globally).'')\<rparr>
         else case gate of
           kReject \<Rightarrow> resp\<lparr>ps_decision := RISK_DECISION_REJECT, ps_error := Some (mk_error
                ''VENUE_UNAVAILABLE'' ''All external venues are unavailable by venue.health.'')\<rparr>
         | kResize \<Rightarrow> resp\<lparr>ps_decision := RISK_DECISION_RESIZE, ps_resized_order := Some ord,
                ps_error := Some (mk_error ''VENUE_THROTTLE''
                  ''External venue health degraded; preserving requested order speed.'')\<rparr>
         | kAccept \<Rightarrow>
             if dval (fo_total_qty ord) \<le> 0
             then resp\<lparr>ps_decision := RISK_DECISION_REJECT,
                       ps_error := Some (mk_error ''BAD_QTY'' ''total_qty must be > 0'')\<rparr>
             else if dval (fo_price_high ord) < dval (fo_price_low ord)
             then resp\<lparr>ps_decision := RISK_DECISION_REJECT,
                       ps_error := Some (mk_error ''BAD_PRICE_RANGE'' ''price_low must be <= price_high'')\<rparr>
             else resp\<lparr>ps_required_initial_margin := Some (div_units ?n 10), ps_decision := RISK_DECISION_ACCEPT\<rparr>)"
    unfolding r_def CheckNewOrder_def Let_def ord_def[symmetric] halted_def[symmetric] gate_def[symmetric]
      qty price by (rule refl)
  show ?thesis
    using err unfolding val cases Let_def
    by (cases gate) (auto simp: sound_def)
qed

section \<open>Hedges\<close>

lemma all_venues_blocked_iff:
  "all_venues_blocked allowed s \<longleftrightarrow>
    (\<exists>v \<in> set allowed. find (rk_venue_health_gate s) v \<noteq> None)
    \<and> (\<forall>v \<in> set allowed. \<forall>g. find (rk_venue_health_gate s) v = Some g \<longrightarrow> venue_blocked g)"
proof -
  let ?known = "List.map_filter (find (rk_venue_health_gate s)) allowed"
  have set: "set ?known = {g. \<exists>v \<in> set allowed. find (rk_venue_health_gate s) v = Some g}"
    by (force simp: map_filter_def)
  have "length (filter venue_blocked ?known) = length ?known \<longleftrightarrow> (\<forall>g \<in> set ?known. venue_blocked g)"
    by (metis filter_True length_filter_less less_irrefl)
  moreover have "0 < length ?known \<longleftrightarrow> set ?known \<noteq> {}" by auto
  ultimately show ?thesis unfolding all_venues_blocked_def Let_def by (auto simp: set)
qed

text \<open>The pre-hedge decision. A hedge is accepted exactly when its instrument is not halted,
  its notional and the exposure after it are within the limits that are set (exactly computed),
  the expected slippage is within the limit of its urgency when that is set, and not all the
  allowed venues the service knows are blocked; a rejection names the first broken rule in that
  order, and the figures reported are the ones compared.\<close>

theorem pre_hedge_decision:
  fixes e :: env and s :: risk
  assumes "grid sq Q (ei_target_qty (pq_intent req))" "grid sp P (dec_of (ei_reference_mid (pq_intent req)))"
    "sq + sp \<le> 18" "Q \<le> max_units" "P \<le> max_units" "Q * P \<le> max_units"
    and "grid sq X (pq_current_hedge_exposure req)" "X + Q \<le> max_units"
  defines "cfg \<equiv> LoadHedgeRiskConfig e" and "i \<equiv> pq_intent req" and "r \<equiv> PreHedgeCheck e req s"
  assumes "wf_dec (hc_max_notional_per_hedge cfg)" "wf_dec (hc_hedge_exposure_limit cfg)"
  defines "halted \<equiv> is_halted s (in_symbol (ei_instrument i))"
    and "notional \<equiv> dval (ei_target_qty i) * dval (dec_of (ei_reference_mid i))"
    and "exposure \<equiv> dval (pq_current_hedge_exposure req) + dval (ei_target_qty i)"
    and "slip \<equiv> MaxSlippageBpsForUrgency cfg (ei_urgency i)"
    and "known \<equiv> \<lambda>g. \<exists>v \<in> set (ei_allowed_venues i). find (rk_venue_health_gate s) v = Some g"
  defines "too_large \<equiv> 0 < dval (hc_max_notional_per_hedge cfg) \<and> dval (hc_max_notional_per_hedge cfg) < notional"
    and "too_exposed \<equiv> 0 < dval (hc_hedge_exposure_limit cfg) \<and> dval (hc_hedge_exposure_limit cfg) < exposure"
    and "too_slippy \<equiv> 0 < slip \<and> slip < pq_expected_slippage_bps req"
    and "no_venue \<equiv> (\<exists>g. known g) \<and> (\<forall>g. known g \<longrightarrow> venue_blocked g)"
  shows "pe_decision r = (if halted \<or> too_large \<or> too_exposed \<or> too_slippy \<or> no_venue
      then RISK_DECISION_REJECT else RISK_DECISION_ACCEPT)
    \<and> map_option er_code (pe_error r) = (if halted then Some ''PROVIDER_HALTED''
        else if too_large then Some ''NOTIONAL_EXCEEDED'' else if too_exposed then Some ''EXPOSURE_EXCEEDED''
        else if too_slippy then Some ''SLIPPAGE_EXCEEDED'' else if no_venue then Some ''VENUES_UNAVAILABLE''
        else None)
    \<and> dval (pd_notional_used (pe_details r)) = notional \<and> dval (pd_exposure_after (pe_details r)) = exposure"
proof -
  note m = grid_mul[OF assms(1-6)] and a = grid_add[OF assms(7,1,8)]
  have n: "dval (prehedge_notional req) = notional" "wf_dec (prehedge_notional req)"
    using m grid_wf[OF m(2) assms(6)] by (simp_all add: prehedge_notional_def notional_def i_def)
  have x: "dval (prehedge_exposure req) = exposure" "wf_dec (prehedge_exposure req)"
    using a grid_wf[OF a(2) assms(8)] by (simp_all add: prehedge_exposure_def exposure_def i_def)
  have large: "(ThresholdEnabled (hc_max_notional_per_hedge cfg)
      \<and> 0 < dcmp (prehedge_notional req) (hc_max_notional_per_hedge cfg)) = too_large"
    using dcmp_iffs(2)[OF assms(12) wf_dzero] dcmp_iffs(2)[OF n(2) assms(12)] n(1)
    by (simp add: too_large_def ThresholdEnabled_def)
  have exposed: "(ThresholdEnabled (hc_hedge_exposure_limit cfg)
      \<and> 0 < dcmp (prehedge_exposure req) (hc_hedge_exposure_limit cfg)) = too_exposed"
    using dcmp_iffs(2)[OF assms(13) wf_dzero] dcmp_iffs(2)[OF x(2) assms(13)] x(1)
    by (simp add: too_exposed_def ThresholdEnabled_def)
  have venues: "all_venues_blocked (ei_allowed_venues i) s = no_venue"
    unfolding all_venues_blocked_iff no_venue_def known_def by blast
  show ?thesis
    unfolding r_def PreHedgeCheck_def Let_def i_def[symmetric] cfg_def[symmetric] halted_def[symmetric]
      large exposed venues slip_def[symmetric] too_slippy_def[symmetric]
    by (simp add: n(1) x(1) mk_error_def)
qed

section \<open>Exposure\<close>

text \<open>Exposure to a venue stays within its limit. Over any sequence of events the recorded
  exposure of every venue is within the configured maximum (as the code measures it); a
  synthetic order either moves the exposure of its venue by exactly its signed worst-case cost
  and raises no alert, or leaves every exposure as it was and raises one.\<close>

theorem exposure_stays_within_limit:
  fixes e :: env
  assumes "0 \<le> max_exposure fl e" "fp_round fl 0 = 0"
    and "\<forall>v. \<bar>to_double fl (find_or dzero (rk_exposures s) v)\<bar> \<le> max_exposure fl e"
    and "grid s1 P (so_p_h ord)" "grid s2 Q (so_q_max ord)" "s1 + s2 \<le> 18" "P \<le> max_units" "Q \<le> max_units"
      "P * Q \<le> max_units"
    and "grid (s1 + s2) X (find_or dzero (rk_exposures (risk_run fl e evs s)) (so_venue_id ord))" "X + P * Q \<le> max_units"
  defines "t \<equiv> risk_run fl e evs s"
    and "cost \<equiv> (if so_side ord = SIDE_BUY then - 1 else 1) * dval (so_p_h ord) * dval (so_q_max ord)"
  shows "(\<forall>v. \<bar>to_double fl (find_or dzero (rk_exposures t) v)\<bar> \<le> max_exposure fl e)
    \<and> (case OnSyntheticOrder fl e ord t of (t', alerts) \<Rightarrow>
        alerts = [] \<and> (\<forall>v. dval (find_or dzero (rk_exposures t') v) = dval (find_or dzero (rk_exposures t) v)
           + (if v = so_venue_id ord then cost else 0))
        \<or> length alerts = 1 \<and> (\<forall>v. find_or dzero (rk_exposures t') v = find_or dzero (rk_exposures t) v))"
proof -
  let ?I = "\<lambda>s. \<forall>v. \<bar>to_double fl (find_or dzero (rk_exposures s) v)\<bar> \<le> max_exposure fl e"
  have step: "?I (fst (risk_step fl e ev s))" if "?I s" for ev s
    using that
    by (cases ev) (auto simp: risk_step_def SetKillSwitch_state HealthChecks_state OnSyntheticOrder_def Let_def)
  have inv: "?I t"
    unfolding t_def by (rule risk_run_invariant[where I = ?I, OF assms(3)]) (rule step)
  note m = grid_mul[OF assms(4-9)]
  have c: "dval (synthetic_cost ord) = cost" "grid (s1 + s2) (P * Q) (synthetic_cost ord)"
    using m grid_dneg[OF m(2) assms(9)] by (simp_all add: synthetic_cost_def cost_def Let_def)
  note a = grid_add(1)[OF assms(10) c(2) assms(11), folded t_def]
  show ?thesis
    using inv a c(1) by (auto simp: OnSyntheticOrder_def Let_def)
qed

section \<open>Margin snapshots\<close>

lemma subseq_distinct: "subseq xs ys \<Longrightarrow> distinct ys \<Longrightarrow> set xs \<subseteq> set ys \<and> distinct xs"
  by (induction rule: list_emb.induct) auto

lemma buildRiskSnapshot_cases:
  "(\<exists>r a. buildRiskSnapshot e db u b rows = (True, r # rows, a) \<and> sn_entity_id r = u \<and> sn_batch_id r = br_batch_id b
      \<and> a = (if sn_liquidation r then [PublishMarginAlert u (br_batch_id b) True]
             else if sn_margin_call r then [PublishMarginAlert u (br_batch_id b) False] else []))
   \<or> (\<exists>ok. buildRiskSnapshot e db u b rows = (ok, rows, []))"
  by (auto simp: buildRiskSnapshot_def Let_def InsertSnapshot_def snapshot_of_def)

definition alert_of :: "snapshot \<Rightarrow> risk_alert list" where
  "alert_of r = (if sn_liquidation r then [PublishMarginAlert (sn_entity_id r) (sn_batch_id r) True]
     else if sn_margin_call r then [PublishMarginAlert (sn_entity_id r) (sn_batch_id r) False] else [])"

lemma build_snapshots_added:
  "\<exists>added. build_snapshots e db b us rows = (rev added @ rows, concat (map alert_of added))
     \<and> subseq (map sn_entity_id added) us \<and> (\<forall>r \<in> set added. sn_batch_id r = br_batch_id b)"
proof (induction us arbitrary: rows)
  case Nil
  show ?case by (rule exI[of _ "[]"]) simp
next
  case (Cons u us)
  obtain ok rows' al where b: "buildRiskSnapshot e db u b rows = (ok, rows', al)"
    by (cases "buildRiskSnapshot e db u b rows")
  obtain added where a: "build_snapshots e db b us rows' = (rev added @ rows', concat (map alert_of added))"
    "subseq (map sn_entity_id added) us" "\<forall>r \<in> set added. sn_batch_id r = br_batch_id b"
    using Cons by blast
  from buildRiskSnapshot_cases[of e db u b rows]
  show ?case
  proof (elim disjE exE conjE)
    fix r a'
    assume "buildRiskSnapshot e db u b rows = (True, r # rows, a')" "sn_entity_id r = u"
      "sn_batch_id r = br_batch_id b" "a' = (if sn_liquidation r then [PublishMarginAlert u (br_batch_id b) True]
             else if sn_margin_call r then [PublishMarginAlert u (br_batch_id b) False] else [])"
    with b have "rows' = r # rows" "al = alert_of r" "sn_entity_id r = u" "sn_batch_id r = br_batch_id b"
      by (auto simp: alert_of_def)
    with a b show ?thesis by (intro exI[of _ "r # added"]) simp
  next
    fix ok'
    assume "buildRiskSnapshot e db u b rows = (ok', rows, [])"
    with a b show ?thesis by (intro exI[of _ added]) (simp add: list_emb_Cons)
  qed
qed

text \<open>Margin alerts and snapshots match. Handling a batch only adds snapshots; every alert is a
  liquidation or margin call of a user whose snapshot with that flag was stored for this very
  batch, every stored snapshot that calls for an alert has exactly one, and a user gets at most
  one per batch.\<close>

theorem margin_alerts_match_snapshots:
  fixes e :: env
  assumes "OnBatchResult e db b rows = (rows', alerts)"
  shows "\<exists>added. rows' = rev added @ rows \<and> alerts = concat (map alert_of added)
    \<and> (\<forall>r \<in> set added. sn_batch_id r = br_batch_id b \<and> sn_entity_id r \<in> ff_user_id ` set (br_fills b))
    \<and> distinct (map sn_entity_id added)"
proof (cases db)
  case None
  with assms show ?thesis by (intro exI[of _ "[]"]) (simp add: OnBatchResult_def)
next
  case (Some d)
  from build_snapshots_added[of e d b "affected_users b" rows] assms Some obtain added where
    a: "rows' = rev added @ rows" "alerts = concat (map alert_of added)"
      "subseq (map sn_entity_id added) (affected_users b)" "\<forall>r \<in> set added. sn_batch_id r = br_batch_id b"
    by (auto simp: OnBatchResult_def)
  have "distinct (map sn_entity_id added)"
    using subseq_distinct[OF a(3)] by (simp add: affected_users_def)
  moreover have "sn_entity_id r \<in> ff_user_id ` set (br_fills b)" if "r \<in> set added" for r
    using subseq_distinct[OF a(3)] that by (auto simp: affected_users_def)
  ultimately show ?thesis using a by (intro exI[of _ added]) simp
qed

text \<open>The consumer of batch outputs: each delivery brings the batch and the state of the database
  at that moment.\<close>

definition snapshot_consume ::
    "env \<Rightarrow> snapshot list \<times> risk_alert list \<Rightarrow> risk_db \<times> batch_result \<Rightarrow> snapshot list \<times> risk_alert list" where
  "snapshot_consume e s m =
     (let (rows, alerts) = OnBatchResult e (Some (fst m)) (snd m) (fst s) in (rows, snd s @ alerts))"

definition storable :: "risk_db \<times> batch_result \<Rightarrow> bool" where
  "storable m \<longleftrightarrow> br_batch_id (snd m) \<noteq> [] \<and> (\<forall>u. db_insert_ok (fst m) u (br_batch_id (snd m)))"

definition has_row :: "snapshot list \<Rightarrow> string \<Rightarrow> string \<Rightarrow> bool" where
  "has_row rows bid u \<longleftrightarrow> (\<exists>r \<in> set rows. sn_entity_id r = u \<and> sn_batch_id r = bid)"

lemma build_snapshots_known:
  assumes "br_batch_id b \<noteq> []" "\<forall>u. db_insert_ok db u (br_batch_id b)"
  shows "\<forall>u \<in> set us. has_row rows (br_batch_id b) u \<Longrightarrow> build_snapshots e db b us rows = (rows, [])"
    and "has_row rows bid u \<Longrightarrow> has_row (fst (build_snapshots e db b us rows)) bid u"
    and "u \<in> set us \<Longrightarrow> has_row (fst (build_snapshots e db b us rows)) (br_batch_id b) u"
proof -
  have dup: "buildRiskSnapshot e db u b rows = (True, rows, [])" if "has_row rows (br_batch_id b) u" for u rows
    using that assms unfolding buildRiskSnapshot_def InsertSnapshot_def has_row_def Let_def
    by (auto simp: snapshot_of_def)
  have new: "has_row (fst (snd (buildRiskSnapshot e db u b rows))) (br_batch_id b) u" for u rows
    using assms unfolding buildRiskSnapshot_def InsertSnapshot_def has_row_def Let_def
    by (auto simp: snapshot_of_def)
  have keep: "has_row (fst (build_snapshots e db b us rows)) bid u" if "has_row rows bid u" for us rows bid u
    using that build_snapshots_added[of e db b us rows] by (auto simp: has_row_def)
  show "\<forall>u \<in> set us. has_row rows (br_batch_id b) u \<Longrightarrow> build_snapshots e db b us rows = (rows, [])"
    by (induction us) (simp_all add: dup)
  show "has_row rows bid u \<Longrightarrow> has_row (fst (build_snapshots e db b us rows)) bid u" by (rule keep)
  show "u \<in> set us \<Longrightarrow> has_row (fst (build_snapshots e db b us rows)) (br_batch_id b) u"
  proof (induction us arbitrary: rows)
    case Nil
    then show ?case by simp
  next
    case (Cons v us)
    obtain ok rows' al where b: "buildRiskSnapshot e db v b rows = (ok, rows', al)"
      by (cases "buildRiskSnapshot e db v b rows")
    have f: "fst (build_snapshots e db b (v # us) rows) = fst (build_snapshots e db b us rows')"
      by (simp add: b split: prod.splits)
    show ?case
    proof (cases "u = v")
      case True
      then show ?thesis unfolding f using new[of v rows] b by (intro keep) simp
    next
      case False
      with Cons show ?thesis unfolding f by auto
    qed
  qed
qed

interpretation snapshots: idempotent_consumer
  "\<lambda>s m. if storable m then snapshot_consume e s m else s"
  "\<lambda>s k. case k of None \<Rightarrow> True | Some (bid, us) \<Rightarrow> \<forall>u \<in> us. has_row (fst s) bid u"
  "\<lambda>m. if storable m then Some (br_batch_id (snd m), set (affected_users (snd m))) else None" "\<lambda>s. s" for e
proof
  fix s :: "snapshot list \<times> risk_alert list" and m :: "risk_db \<times> batch_result" and k
  note known = build_snapshots_known[of "snd m" "fst m"]
  have st: "fst (snapshot_consume e s m) = fst (build_snapshots e (fst m) (snd m) (affected_users (snd m)) (fst s))"
    by (simp add: snapshot_consume_def OnBatchResult_def split: prod.splits)
  show "case if storable m then Some (br_batch_id (snd m), set (affected_users (snd m))) else None of None \<Rightarrow> True
      | Some (bid, us) \<Rightarrow> \<forall>u \<in> us. has_row (fst (if storable m then snapshot_consume e s m else s)) bid u"
    using known(3) by (simp add: st storable_def)
  show "(if storable m then snapshot_consume e s m else s) = s"
    if "case if storable m then Some (br_batch_id (snd m), set (affected_users (snd m))) else None of None \<Rightarrow> True
      | Some (bid, us) \<Rightarrow> \<forall>u \<in> us. has_row (fst s) bid u"
    using that known(1) by (auto simp: snapshot_consume_def OnBatchResult_def storable_def)
  show "case k of None \<Rightarrow> True
      | Some (bid, us) \<Rightarrow> \<forall>u \<in> us. has_row (fst (if storable m then snapshot_consume e s m else s)) bid u"
    if "case k of None \<Rightarrow> True | Some (bid, us) \<Rightarrow> \<forall>u \<in> us. has_row (fst s) bid u"
    using that known(2) by (auto simp: st storable_def split: option.splits)
qed

text \<open>Redelivered batches raise no second alert. Batches that carry an id and were stored can be
  delivered again, in any order, any number of times and whatever the positions, balances and
  rates in the database have become meanwhile: no snapshot is added and no alert is sent.\<close>

theorem snapshot_redelivery_harmless:
  fixes e :: env
  assumes "\<forall>m \<in> set ms. storable m" "\<forall>m \<in> set again. storable m \<and> snd m \<in> snd ` set ms"
  shows "fold (\<lambda>m s. snapshot_consume e s m) again (fold (\<lambda>m s. snapshot_consume e s m) ms s)
    = fold (\<lambda>m s. snapshot_consume e s m) ms s"
proof -
  let ?h = "\<lambda>m s. if storable m then snapshot_consume e s m else s"
  have eq: "fold (\<lambda>m s. snapshot_consume e s m) xs t = fold ?h xs t" if "\<forall>m \<in> set xs. storable m" for xs t
    using that by (intro fold_cong) auto
  have "fold ?h again (fold ?h ms s) = fold ?h ms s"
  proof (rule snapshots.replay_seen, rule ballI)
    fix m
    assume "m \<in> set again"
    with assms(2) obtain m' where "m' \<in> set ms" "snd m' = snd m" "storable m" by force
    with assms(1) snapshots.seen_after_fold[of m' ms e s]
    show "case if storable m then Some (br_batch_id (snd m), set (affected_users (snd m))) else None of None \<Rightarrow> True
      | Some (bid, us) \<Rightarrow> \<forall>u \<in> us. has_row (fst (fold ?h ms s)) bid u" by simp
  qed
  with assms show ?thesis by (simp add: eq)
qed

section \<open>Concrete inputs\<close>

definition ex_pair :: instrument where
  "ex_pair = \<lparr>in_symbol = ''BTC/USDT'', in_base = ''BTC'', in_quote = ''USDT''\<rparr>"

definition ex_flow_order :: flow_order where
  "ex_flow_order = \<lparr>fo_order_id = ''o1'', fo_client_order_id = [], fo_user_id = ''alice'', fo_account_id = [],
     fo_instrument = ex_pair, fo_side = SIDE_BUY, fo_total_qty = mk_dec 25 1, fo_remaining_qty = dzero,
     fo_price_low = mk_dec 99 0, fo_price_high = mk_dec 101 0, fo_max_speed = mk_dec 1 0,
     fo_status = ORDER_STATUS_UNSPECIFIED, fo_created_at = (0, 0), fo_updated_at = (0, 0),
     fo_tif = TIF_GTC, fo_tags = []\<rparr>"

definition ex_pretrade :: pretrade_request where
  "ex_pretrade = \<lparr>pt_meta = empty_meta, pt_user_id = ''alice'', pt_order = ex_flow_order,
     pt_reference_price = mk_dec 100 0\<rparr>"

definition ex_hedge_intent :: exec_intent where
  "ex_hedge_intent = \<lparr>ei_meta = empty_meta, ei_intent_id = ''h1'', ei_batch_id = [], ei_internal_order_id = [],
     ei_reason = [], ei_hedge_flow_id = [], ei_provider_id = [], ei_source = HEDGE_SOURCE_AUTO_BATCH,
     ei_venue = ''binance'', ei_instrument = ex_pair, ei_venue_symbol = [], ei_allowed_venues = [''binance''],
     ei_side = SIDE_BUY, ei_target_qty = mk_dec 3 0, ei_target_notional = dzero, ei_limit_price = None,
     ei_max_slippage_bps = 0, ei_reference_mid = Some (mk_dec 100 0), ei_strategy = EXEC_STRATEGY_MARKET,
     ei_urgency = URGENCY_HIGH, ei_tif = TIF_IOC, ei_timeout_ms = 0, ei_client_order_id = []\<rparr>"

definition ex_prehedge :: prehedge_request where
  "ex_prehedge = \<lparr>pq_meta = empty_meta, pq_intent = ex_hedge_intent, pq_expected_slippage_bps = 5,
     pq_current_hedge_exposure = mk_dec 1 0\<rparr>"

definition ex_env :: env where
  "ex_env = (\<lambda>k. if k = ''RISK_HEDGE_MAX_NOTIONAL'' then Some ''250.5'' else None)"

definition ex_fp :: fp where
  "ex_fp = \<lparr>fp_round = (\<lambda>x. x), fp_strtod = (\<lambda>s. 10000)\<rparr>"

definition ex_kill :: "string \<Rightarrow> bool \<Rightarrow> kill_request" where
  "ex_kill sy h = \<lparr>kr_meta = empty_meta, kr_instrument_symbol = sy, kr_halt = h, kr_reason = []\<rparr>"

definition ex_synthetic :: synthetic_order where
  "ex_synthetic = \<lparr>so_synthetic_id = ''s1'', so_venue_id = ''binance'', so_side = SIDE_BUY,
     so_p_h = mk_dec 100 0, so_q_max = mk_dec 3 0\<rparr>"

definition ex_db :: risk_db where
  "ex_db = \<lparr>db_ListOpenPositions = (\<lambda>u. []), db_LoadCollateral = (\<lambda>u. (mk_dec (-1) 0, dzero)),
     db_ResolveRates = (\<lambda>u r. \<lparr>mr_initial_margin_rate = mk_dec 1000 4, mr_maintenance_margin_rate = mk_dec 500 4\<rparr>),
     db_insert_ok = (\<lambda>u b. True)\<rparr>"

definition ex_fills_batch :: batch_result where
  "ex_fills_batch = \<lparr>br_batch_id = ''b1'', br_timestamp = (0, 0), br_clear_prices = [],
     br_fills = [\<lparr>ff_order_id = ''o1'', ff_user_id = ''alice'', ff_instrument = ex_pair, ff_side = SIDE_BUY,
        ff_executed_qty = mk_dec 1 0, ff_price = None, ff_executed_notional = mk_dec 100 0, ff_fee = None,
        ff_liquidity_source = [], ff_provenance = None\<rparr>],
     br_order_updates = [], br_num_active_orders = 0, br_used_liquidity = []\<rparr>"

text \<open>A global resume after a halt of one instrument does not reopen that instrument.\<close>

theorem kill_switch_holds_witness:
  "ps_decision (CheckNewOrder ex_fp ex_pretrade (risk_run ex_fp ex_env [EvKill (ex_kill [] False), EvSynthetic ex_synthetic]
     (fst (snd (SetKillSwitch (ex_kill ''BTC/USDT'' True) empty_risk))))) = RISK_DECISION_HALT"
  using kill_switch_holds[of "ex_kill ''BTC/USDT'' True" "''BTC/USDT''" "[EvKill (ex_kill [] False), EvSynthetic ex_synthetic]"
      ex_pretrade ex_prehedge ex_fp ex_env empty_risk ex_env]
  by (auto simp: ex_kill_def ex_pretrade_def ex_flow_order_def ex_pair_def ex_prehedge_def ex_hedge_intent_def)

theorem new_order_decision_witness:
  "ps_decision (CheckNewOrder ex_fp ex_pretrade empty_risk) = RISK_DECISION_ACCEPT"
proof -
  have "EvaluateVenueHealthGate ex_fp empty_risk = kAccept" "\<not> is_halted empty_risk ''BTC/USDT''"
    by (simp_all add: EvaluateVenueHealthGate_def empty_risk_def is_halted_def)
  then show ?thesis
    using new_order_decision[of 1 25 ex_pretrade 0 100 ex_fp empty_risk]
    by (simp add: ex_pretrade_def ex_flow_order_def ex_pair_def grid_def at_scale_def wf_dec_def in_i64_def)
qed

lemma ex_hedge_config:
  "LoadHedgeRiskConfig ex_env = \<lparr>hc_max_notional_per_hedge = mk_dec 2505 1, hc_hedge_exposure_limit = mk_dec 0 0,
     hc_max_slippage_bps_low = 0, hc_max_slippage_bps_medium = 0, hc_max_slippage_bps_high = 0\<rparr>"
  unfolding LoadHedgeRiskConfig_def ex_env_def by code_simp

theorem pre_hedge_decision_witness:
  "map_option er_code (pe_error (PreHedgeCheck ex_env ex_prehedge empty_risk)) = Some ''NOTIONAL_EXCEEDED''"
  using pre_hedge_decision[of 0 3 ex_prehedge 0 100 1 ex_env empty_risk]
  by (simp add: ex_hedge_config ex_prehedge_def ex_hedge_intent_def ex_pair_def empty_risk_def is_halted_def
      grid_def at_scale_def wf_dec_def in_i64_def)

theorem exposure_stays_within_limit_witness:
  "\<bar>to_double ex_fp (find_or dzero (rk_exposures (risk_run ex_fp ex_env [EvSynthetic ex_synthetic] empty_risk)) ''binance'')\<bar>
    \<le> max_exposure ex_fp ex_env"
proof -
  have m: "max_exposure ex_fp ex_env = 10000" by (simp add: max_exposure_def ex_fp_def)
  have z: "to_double ex_fp dzero = 0" by (simp add: to_double_def ex_fp_def dzero_def)
  have x: "find_or dzero (rk_exposures (risk_run ex_fp ex_env [EvSynthetic ex_synthetic] empty_risk)) ''binance'' = mk_dec (-300) 0"
  proof -
    have c: "dadd dzero (synthetic_cost ex_synthetic) = mk_dec (-300) 0" by code_simp
    have "to_double ex_fp (mk_dec (-300) 0) = -300" by (simp add: to_double_def ex_fp_def)
    then show ?thesis
      by (simp add: risk_step_def OnSyntheticOrder_def Let_def empty_risk_def ex_synthetic_def[THEN arg_cong[where f = so_venue_id]]
          c m)
  qed
  have v: "so_venue_id ex_synthetic = ''binance''" by (simp add: ex_synthetic_def)
  have f: "fp_round ex_fp 0 = 0" by (simp add: ex_fp_def)
  show ?thesis
    by (rule exposure_stays_within_limit[of ex_fp ex_env empty_risk 0 100 ex_synthetic 0 3 300
          "[EvSynthetic ex_synthetic]", THEN conjunct1, THEN spec])
       (simp_all only: v x, simp_all add: m z f ex_synthetic_def grid_def at_scale_def empty_risk_def[THEN arg_cong[where f = rk_exposures]])
qed

theorem margin_alerts_match_snapshots_witness:
  "\<exists>r. OnBatchResult ex_env (Some ex_db) ex_fills_batch [] = ([r], alert_of r) \<and> sn_liquidation r"
proof -
  have l: "fst (OnBatchResult ex_env (Some ex_db) ex_fills_batch []) =
      [snapshot_of ''alice'' ''b1'' (ComputeMargin [] (db_ResolveRates ex_db ''alice'' ''client'') (mk_dec (-1) 0) dzero)]"
    unfolding ex_fills_batch_def ex_db_def ex_env_def by code_simp
  have liq: "sn_liquidation (snapshot_of ''alice'' ''b1'' (ComputeMargin [] (db_ResolveRates ex_db ''alice'' ''client'') (mk_dec (-1) 0) dzero))"
    unfolding ex_db_def by code_simp
  obtain rows al where o: "OnBatchResult ex_env (Some ex_db) ex_fills_batch [] = (rows, al)" by fastforce
  from margin_alerts_match_snapshots[OF this] l liq o show ?thesis by auto
qed

theorem snapshot_redelivery_harmless_witness:
  "fold (\<lambda>m s. snapshot_consume ex_env s m) [(ex_db, ex_fills_batch), (ex_db, ex_fills_batch)]
     (fold (\<lambda>m s. snapshot_consume ex_env s m) [(ex_db, ex_fills_batch)] ([], []))
   = fold (\<lambda>m s. snapshot_consume ex_env s m) [(ex_db, ex_fills_batch)] ([], [])"
  by (rule snapshot_redelivery_harmless) (simp_all add: storable_def ex_db_def ex_fills_batch_def)

end
