(* ===== verification/Order_Flow.thy ===== *)
theory Order_Flow
  imports Order_Messages Ledger_Accounts
begin

text \<open>
  The order flow service (\<open>cpp/order_flow/src/app/order_flow_uc.cpp\<close>) and the clients it calls
  (\<open>infra/ledger_client.cpp\<close>, \<open>infra/risk_client.cpp\<close>). The handlers take the risk and ledger
  calls and the repository as arguments (\<open>order_ports\<close>); what they rely on is stated in the
  locale \<open>reservation_port\<close>, which the model of the ledger implements.
\<close>

section \<open>Validation\<close>

definition validate_order :: "flow_order \<Rightarrow> string option" where
  "validate_order ord =
     (if units (fo_total_qty ord) \<le> 0 then Some ''total_qty must be > 0''
      else if 0 < dcmp (fo_price_low ord) (fo_price_high ord)
      then Some ''price_low must be <= price_high''
      else if units (fo_max_speed ord) \<le> 0 then Some ''max_speed must be > 0''
      else None)"

definition midpoint :: "decimal \<Rightarrow> decimal \<Rightarrow> decimal" where
  "midpoint a b = div_units (dadd a b) 2"

definition timestamp_to_unix_ms :: "timestamp \<Rightarrow> int" where
  "timestamp_to_unix_ms ts = i64 (i64 (fst ts * 1000) + snd ts sdiv 1000000)"

section \<open>Ports and state\<close>

record release_request =
  rl_reservation_id :: string
  rl_user_id :: string
  rl_order_id :: string
  rl_reason :: string

text \<open>\<open>op_insert\<close> is absent without a database; it returns the message of the exception, if any.\<close>

record 'l order_ports =
  op_risk :: "pretrade_request \<Rightarrow> pretrade_response"
  op_reserve :: "reserve_request \<Rightarrow> 'l \<Rightarrow> reserve_response \<times> 'l"
  op_release :: "release_request \<Rightarrow> 'l \<Rightarrow> 'l"
  op_insert :: "(flow_order \<Rightarrow> string option) option"

record order_flow =
  of_orders :: "flow_order umap"
  of_applied_fills :: "bool umap"

datatype order_event =
    OrderCreated string string flow_order
  | OrderCanceled string string string string string

record create_request =
  cr_meta :: event_meta
  cr_order :: flow_order

record create_response =
  cs_meta :: event_meta
  cs_accepted :: bool
  cs_order_id :: string
  cs_error :: "error_msg option"

section \<open>Creating an order\<close>

definition reserve_for :: "event_meta \<Rightarrow> flow_order \<Rightarrow> reserve_request option" where
  "reserve_for meta ord =
     (let rq = (\<lambda>c a. \<lparr>rq_meta = meta, rq_reservation_id = fo_order_id ord, rq_user_id = fo_user_id ord,
                  rq_order_id = fo_order_id ord, rq_currency = c, rq_amount = a\<rparr>)
      in case fo_side ord of
           SIDE_BUY \<Rightarrow> Some (rq (in_quote (fo_instrument ord)) (dmul (fo_total_qty ord) (fo_price_high ord)))
         | SIDE_SELL \<Rightarrow> Some (rq (in_base (fo_instrument ord)) (fo_total_qty ord))
         | SIDE_UNSPECIFIED \<Rightarrow> None)"

definition approved_order :: "pretrade_response \<Rightarrow> flow_order \<Rightarrow> flow_order" where
  "approved_order r ord =
     (if ps_decision r = RISK_DECISION_RESIZE
      then case ps_resized_order r of Some ord' \<Rightarrow> ord' | None \<Rightarrow> ord
      else ord)"

definition stored_order :: "timestamp \<Rightarrow> flow_order \<Rightarrow> flow_order" where
  "stored_order now ord = ord\<lparr>fo_status := ORDER_STATUS_NEW, fo_remaining_qty := fo_total_qty ord,
     fo_updated_at := now\<rparr>"

definition CreateFlowOrder ::
    "'l order_ports \<Rightarrow> timestamp \<Rightarrow> create_request \<Rightarrow> order_flow \<Rightarrow> 'l \<Rightarrow>
      create_response \<times> order_flow \<times> 'l \<times> order_event list" where
  "CreateFlowOrder ports now req s l =
     (let resp = \<lparr>cs_meta = echo_meta ''order_flow'' (cr_meta req), cs_accepted = False,
                  cs_order_id = [], cs_error = None\<rparr>
      in case validate_order (cr_order req) of
           Some err \<Rightarrow> (resp\<lparr>cs_error := Some (mk_error ''VALIDATION_ERROR'' err)\<rparr>, s, l, [])
         | None \<Rightarrow>
       let rr = op_risk ports \<lparr>pt_meta = cr_meta req, pt_user_id = fo_user_id (cr_order req),
                  pt_order = cr_order req,
                  pt_reference_price = midpoint (fo_price_low (cr_order req)) (fo_price_high (cr_order req))\<rparr>
       in if ps_decision rr = RISK_DECISION_HALT \<or> ps_decision rr = RISK_DECISION_REJECT
          then (resp\<lparr>cs_error := Some (case ps_error rr of Some e \<Rightarrow> e | None \<Rightarrow> mk_error [] [])\<rparr>, s, l, [])
          else let approved = approved_order rr (cr_order req)
       in case reserve_for (cr_meta req) approved of
            None \<Rightarrow> (resp\<lparr>cs_error := Some (mk_error ''SIDE_UNSPECIFIED'' ''Order side must be BUY or SELL'')\<rparr>, s, l, [])
          | Some rq \<Rightarrow>
       (case op_reserve ports rq l of (led, l1) \<Rightarrow>
          if \<not> rp_success led
          then (resp\<lparr>cs_error := Some (case rp_error led of Some e \<Rightarrow> e | None \<Rightarrow> mk_error [] [])\<rparr>, s, l1, [])
          else
       let stored = stored_order now approved; oid = fo_order_id stored;
           s1 = s\<lparr>of_orders := put oid stored (of_orders s)\<rparr>
       in case (case op_insert ports of None \<Rightarrow> None | Some ins \<Rightarrow> ins stored) of
            Some what \<Rightarrow>
              (resp\<lparr>cs_error := Some (mk_error ''PERSIST_ERROR'' what)\<rparr>,
               s1\<lparr>of_orders := erase oid (of_orders s1)\<rparr>,
               op_release ports \<lparr>rl_reservation_id = oid, rl_user_id = fo_user_id stored, rl_order_id = oid,
                  rl_reason = ''persist_failed''\<rparr> l1, [])
          | None \<Rightarrow>
              (resp\<lparr>cs_accepted := True, cs_order_id := oid\<rparr>, s1, l1,
               [OrderCreated (em_correlation_id (cr_meta req)) (in_symbol (fo_instrument stored)) stored])))"

section \<open>Cancelling and reading\<close>

record cancel_request =
  cq_meta :: event_meta
  cq_order_id :: string
  cq_user_id :: string
  cq_reason :: string

record cancel_response =
  cp_meta :: event_meta
  cp_success :: bool
  cp_error :: "error_msg option"

definition CancelFlowOrder ::
    "'l order_ports \<Rightarrow> timestamp \<Rightarrow> cancel_request \<Rightarrow> order_flow \<Rightarrow> 'l \<Rightarrow>
      cancel_response \<times> order_flow \<times> 'l \<times> order_event list" where
  "CancelFlowOrder ports now req s l =
     (let resp = \<lparr>cp_meta = echo_meta ''order_flow'' (cq_meta req), cp_success = False, cp_error = None\<rparr>
      in case find (of_orders s) (cq_order_id req) of
           None \<Rightarrow> (resp\<lparr>cp_error := Some (mk_error ''NOT_FOUND'' ''Order not found'')\<rparr>, s, l, [])
         | Some ord \<Rightarrow>
             (let user = (if cq_user_id req = [] then fo_user_id ord else cq_user_id req)
              in (resp\<lparr>cp_success := True\<rparr>,
                  s\<lparr>of_orders := put (cq_order_id req)
                      (ord\<lparr>fo_status := ORDER_STATUS_CANCELED, fo_updated_at := now\<rparr>) (of_orders s)\<rparr>,
                  op_release ports \<lparr>rl_reservation_id = cq_order_id req, rl_user_id = user,
                     rl_order_id = cq_order_id req,
                     rl_reason = (if cq_reason req = [] then ''cancel'' else cq_reason req)\<rparr> l,
                  [OrderCanceled (em_correlation_id (cq_meta req)) (in_symbol (fo_instrument ord))
                     (cq_order_id req) user (cq_reason req)])))"

definition GetFlowOrder :: "string \<Rightarrow> order_flow \<Rightarrow> error_msg + flow_order" where
  "GetFlowOrder oid s =
     (case find (of_orders s) oid of
        None \<Rightarrow> Inl (mk_error ''NOT_FOUND'' ''Order not found'') | Some ord \<Rightarrow> Inr ord)"

text \<open>\<open>std::sort\<close> leaves the order of equal keys open; the model keeps it.\<close>

definition ListFlowOrders :: "string \<Rightarrow> order_flow \<Rightarrow> flow_order list" where
  "ListFlowOrders user s =
     sort_key (\<lambda>ord. - timestamp_to_unix_ms (fo_created_at ord))
       (filter (\<lambda>ord. user = [] \<or> fo_user_id ord = user) (map snd (of_orders s)))"

section \<open>Applying a batch\<close>

definition idem_key :: "batch_result \<Rightarrow> flow_fill \<Rightarrow> string" where
  "idem_key b f = br_batch_id b @ ''|'' @ ff_order_id f"

definition is_dead :: "order_status \<Rightarrow> bool" where
  "is_dead st \<longleftrightarrow> st = ORDER_STATUS_CANCELED \<or> st = ORDER_STATUS_EXPIRED \<or> st = ORDER_STATUS_REJECTED"

definition fill_order :: "timestamp \<Rightarrow> decimal \<Rightarrow> flow_order \<Rightarrow> flow_order" where
  "fill_order now executed ord =
     (let d = dsub (fo_remaining_qty ord) executed;
          new_remaining = (if units d < 0 then mk_dec 0 (scale d) else d)
      in ord\<lparr>fo_remaining_qty := new_remaining,
             fo_status := (if units new_remaining = 0 then ORDER_STATUS_FILLED
                           else ORDER_STATUS_PARTIALLY_FILLED),
             fo_updated_at := now\<rparr>)"

definition apply_order_fill :: "timestamp \<Rightarrow> batch_result \<Rightarrow> flow_fill \<Rightarrow> order_flow \<Rightarrow> order_flow" where
  "apply_order_fill now b f s =
     (if find (of_applied_fills s) (idem_key b f) \<noteq> None then s
      else case find (of_orders s) (ff_order_id f) of
             None \<Rightarrow> s
           | Some ord \<Rightarrow>
               if is_dead (fo_status ord)
               then s\<lparr>of_applied_fills := put (idem_key b f) True (of_applied_fills s)\<rparr>
               else s\<lparr>of_orders := put (ff_order_id f) (fill_order now (ff_executed_qty f) ord) (of_orders s),
                      of_applied_fills := put (idem_key b f) True (of_applied_fills s)\<rparr>)"

definition update_order :: "timestamp \<Rightarrow> order_update \<Rightarrow> flow_order \<Rightarrow> flow_order" where
  "update_order now u ord =
     (let ord = (case ou_remaining_qty u of Some x \<Rightarrow> ord\<lparr>fo_remaining_qty := x\<rparr> | None \<Rightarrow> ord);
          ord = (if ou_status u \<noteq> ORDER_STATUS_UNSPECIFIED then ord\<lparr>fo_status := ou_status u\<rparr> else ord)
      in ord\<lparr>fo_updated_at := now\<rparr>)"

definition apply_order_update :: "timestamp \<Rightarrow> order_update \<Rightarrow> order_flow \<Rightarrow> order_flow" where
  "apply_order_update now u s =
     (case find (of_orders s) (ou_order_id u) of
        None \<Rightarrow> s
      | Some ord \<Rightarrow>
          if fo_status ord = ORDER_STATUS_CANCELED then s
          else s\<lparr>of_orders := put (ou_order_id u) (update_order now u ord) (of_orders s)\<rparr>)"

definition OrderFlow_ApplyBatchResult :: "timestamp \<Rightarrow> batch_result \<Rightarrow> order_flow \<Rightarrow> order_flow" where
  "OrderFlow_ApplyBatchResult now b s =
     fold (apply_order_update now) (br_order_updates b) (fold (apply_order_fill now b) (br_fills b) s)"

section \<open>Clients\<close>

text \<open>A failed call is answered with \<open>GRPC_ERROR\<close>; it did not reach the server.\<close>

definition RiskClient_CheckNewOrder ::
    "string option \<Rightarrow> (pretrade_request \<Rightarrow> pretrade_response) \<Rightarrow> pretrade_request \<Rightarrow> pretrade_response" where
  "RiskClient_CheckNewOrder failure server req =
     (case failure of
        None \<Rightarrow> server req
      | Some msg \<Rightarrow> \<lparr>ps_meta = empty_meta, ps_decision = RISK_DECISION_REJECT,
          ps_error = Some (mk_error ''GRPC_ERROR'' msg), ps_resized_order = None,
          ps_required_initial_margin = None\<rparr>)"

definition LedgerClient_ReserveFunds ::
    "string option \<Rightarrow> bool \<Rightarrow> reserve_request \<Rightarrow> ledger \<Rightarrow> reserve_response \<times> ledger" where
  "LedgerClient_ReserveFunds failure tx req l =
     (case failure of
        None \<Rightarrow> (case ReserveFunds tx req l of (resp, l', _) \<Rightarrow> (resp, l'))
      | Some msg \<Rightarrow> (\<lparr>rp_meta = empty_meta, rp_success = False,
          rp_error = Some (mk_error ''GRPC_ERROR'' msg), rp_reserved_amount = None\<rparr>, l))"

definition LedgerClient_ReleaseFunds :: "bool \<Rightarrow> bool \<Rightarrow> release_request \<Rightarrow> ledger \<Rightarrow> ledger" where
  "LedgerClient_ReleaseFunds failed tx req l =
     (if failed then l else fst (ReleaseFunds tx (rl_reservation_id req) l))"

end
