(* ===== verification/Order_Reservations.thy ===== *)
theory Order_Reservations
  imports Order_Flow Risk_Safety
begin

text \<open>
  The order flow against the ledger: what creating and cancelling an order does to the user's
  funds. The lemmas are proved once over the interface \<open>reservation_port\<close>; the ledger's
  handlers behind the gRPC client implement it.
\<close>

section \<open>Interface: a ledger that reserves and releases\<close>

locale reservation_port =
  fixes ports :: "'l order_ports"
    and book :: "'l \<Rightarrow> book"
    and fits :: "reserve_request \<Rightarrow> 'l \<Rightarrow> bool"
  assumes refused: "fits rq l \<Longrightarrow> \<not> rp_success (fst (op_reserve ports rq l)) \<Longrightarrow>
      book (snd (op_reserve ports rq l)) = book l"
    and granted: "fits rq l \<Longrightarrow> rp_success (fst (op_reserve ports rq l)) \<Longrightarrow>
      book (snd (op_reserve ports rq l)) = a_reserve (rq_reservation_id rq) (claim_for rq) (book l)"
    and covered: "fits rq l \<Longrightarrow> rp_success (fst (op_reserve ports rq l)) \<Longrightarrow>
      bk_open (book l) (rq_reservation_id rq) = None \<Longrightarrow>
      dval (rq_amount rq) \<le> bk_avail (book l) (rq_user_id rq) (rq_currency rq)"
    and released: "fits rq l \<Longrightarrow>
      book (op_release ports rel (snd (op_reserve ports rq l))) =
        a_release (rl_reservation_id rel) (book (snd (op_reserve ports rq l)))"
begin

lemma undo:
  assumes "fits rq l" "bk_open (book l) (rq_reservation_id rq) = None"
    "rp_success (fst (op_reserve ports rq l))" "rl_reservation_id rel = rq_reservation_id rq"
  shows "book (op_release ports rel (snd (op_reserve ports rq l))) = book l"
  unfolding released[OF assms(1)] granted[OF assms(1,3)] assms(4)
  using covered[OF assms(1,3,2)] assms(2)
  by (intro book_eqI) (auto simp: a_reserve_def a_release_def a_res_def a_avail_def bump_def claim_for_def)

end

text \<open>The order as the risk service approved it.\<close>

definition asked :: "'l order_ports \<Rightarrow> create_request \<Rightarrow> flow_order" where
  "asked ports req = approved_order
     (op_risk ports \<lparr>pt_meta = cr_meta req, pt_user_id = fo_user_id (cr_order req), pt_order = cr_order req,
        pt_reference_price = midpoint (fo_price_low (cr_order req)) (fo_price_high (cr_order req))\<rparr>)
     (cr_order req)"

lemma reserve_for_ids:
  "reserve_for meta ord = Some rq \<Longrightarrow> rq_reservation_id rq = fo_order_id ord \<and> rq_order_id rq = fo_order_id ord
     \<and> rq_user_id rq = fo_user_id ord"
  by (auto simp: reserve_for_def Let_def split: side.splits)

text \<open>What a creation can end in: a refusal before or at the reservation, an insertion failure that
  was rolled back, or acceptance.\<close>

lemma create_cases:
  assumes "CreateFlowOrder ports now req s l = (resp, s', l', ev)"
  defines "ord \<equiv> asked ports req" and "stored \<equiv> stored_order now (asked ports req)"
  obtains (refused_early) "\<not> cs_accepted resp" "cs_error resp \<noteq> None" "s' = s" "l' = l" "ev = []"
  | (no_funds) rq where "\<not> cs_accepted resp" "cs_error resp \<noteq> None" "s' = s" "ev = []"
      "reserve_for (cr_meta req) ord = Some rq" "\<not> rp_success (fst (op_reserve ports rq l))"
      "l' = snd (op_reserve ports rq l)"
  | (not_stored) rq rel where "\<not> cs_accepted resp" "cs_error resp \<noteq> None" "ev = []"
      "of_orders s' = erase (fo_order_id ord) (put (fo_order_id ord) stored (of_orders s))"
      "reserve_for (cr_meta req) ord = Some rq" "rp_success (fst (op_reserve ports rq l))"
      "rl_reservation_id rel = fo_order_id ord" "l' = op_release ports rel (snd (op_reserve ports rq l))"
  | (created) rq where "cs_accepted resp" "cs_order_id resp = fo_order_id ord" "cs_error resp = None"
      "reserve_for (cr_meta req) ord = Some rq" "rp_success (fst (op_reserve ports rq l))"
      "l' = snd (op_reserve ports rq l)" "of_orders s' = put (fo_order_id ord) stored (of_orders s)"
      "ev = [OrderCreated (em_correlation_id (cr_meta req)) (in_symbol (fo_instrument ord)) stored]"
proof -
  let ?rr = "op_risk ports \<lparr>pt_meta = cr_meta req, pt_user_id = fo_user_id (cr_order req), pt_order = cr_order req,
        pt_reference_price = midpoint (fo_price_low (cr_order req)) (fo_price_high (cr_order req))\<rparr>"
  have ord: "approved_order ?rr (cr_order req) = ord" by (simp add: ord_def asked_def)
  have st: "stored_order now ord = stored" "fo_order_id stored = fo_order_id ord"
    "in_symbol (fo_instrument stored) = in_symbol (fo_instrument ord)"
    by (simp_all add: stored_def ord_def stored_order_def)
  note run = assms(1)[unfolded CreateFlowOrder_def Let_def ord st]
  show thesis
  proof (cases "validate_order (cr_order req)")
    case (Some err)
    from run[unfolded Some option.case] show thesis by (intro refused_early) auto
  next
    case None
    note valid = None
    show thesis
    proof (cases "ps_decision ?rr = RISK_DECISION_HALT \<or> ps_decision ?rr = RISK_DECISION_REJECT")
      case True
      from run[unfolded valid option.case if_P[OF True]] show thesis by (intro refused_early) auto
    next
      case False
      note pass = False
      show thesis
      proof (cases "reserve_for (cr_meta req) ord")
        case None
        from run[unfolded valid option.case if_not_P[OF pass] None] show thesis by (intro refused_early) auto
      next
        case (Some rq)
        obtain led l1 where r: "op_reserve ports rq l = (led, l1)" by (cases "op_reserve ports rq l")
        note run = run[unfolded valid option.case if_not_P[OF pass] Some r prod.case]
        show thesis
        proof (cases "rp_success led")
          case False
          from run[unfolded if_P[OF False]] r Some False show thesis by (intro no_funds[of rq]) auto
        next
          case True
          note ok = True and rq = Some
          show thesis
          proof (cases "case op_insert ports of None \<Rightarrow> None | Some ins \<Rightarrow> ins stored")
            case None
            from run[unfolded None option.case] r Some ok show thesis by (intro created[of rq]) auto
          next
            case (Some what)
            from run[unfolded Some option.case] r rq ok show thesis by (intro not_stored[of rq]) auto
          qed
        qed
      qed
    qed
  qed
qed

context reservation_port
begin

lemma create_outcome:
  assumes "CreateFlowOrder ports now req s l = (resp, s', l', ev)"
    and "\<And>rq. reserve_for (cr_meta req) (asked ports req) = Some rq \<Longrightarrow> fits rq l"
    and "bk_open (book l) (fo_order_id (asked ports req)) = None"
  defines "ord \<equiv> asked ports req"
  shows "if cs_accepted resp
    then \<exists>rq. reserve_for (cr_meta req) ord = Some rq
      \<and> dval (rq_amount rq) \<le> bk_avail (book l) (rq_user_id rq) (rq_currency rq)
      \<and> book l' = a_reserve (fo_order_id ord) (claim_for rq) (book l)
      \<and> (\<forall>i. find (of_orders s') i = (if i = fo_order_id ord then Some (stored_order now ord) else find (of_orders s) i))
      \<and> ev = [OrderCreated (em_correlation_id (cr_meta req)) (in_symbol (fo_instrument ord)) (stored_order now ord)]
    else book l' = book l \<and> ev = [] \<and> cs_error resp \<noteq> None
      \<and> (\<forall>i. i \<noteq> fo_order_id ord \<or> find (of_orders s) i = None \<longrightarrow> find (of_orders s') i = find (of_orders s) i)"
  using assms(1)
proof (cases rule: create_cases)
  case refused_early
  then show ?thesis by simp
next
  case (no_funds rq)
  with assms(2) show ?thesis by (simp add: refused)
next
  case (not_stored rq rel)
  with assms(2,3) reserve_for_ids[OF not_stored(5)] have "book l' = book l" by (simp add: undo)
  with not_stored show ?thesis by (auto simp: ord_def)
next
  case (created rq)
  with assms(2) reserve_for_ids[OF created(4)] covered[of rq l] assms(3) show ?thesis
    by (simp add: granted ord_def)
qed

text \<open>Creating and cancelling gives the funds back.\<close>

lemma create_cancel:
  assumes "CreateFlowOrder ports now req s l = (resp, s', l', ev)" "cs_accepted resp"
    and "\<And>rq. reserve_for (cr_meta req) (asked ports req) = Some rq \<Longrightarrow> fits rq l"
    and "bk_open (book l) (fo_order_id (asked ports req)) = None"
    and "CancelFlowOrder ports now' creq s' l' = (cresp, s'', l'', ev')" "cq_order_id creq = cs_order_id resp"
  shows "cp_success cresp \<and> book l'' = book l
    \<and> map_option fo_status (find (of_orders s'') (cs_order_id resp)) = Some ORDER_STATUS_CANCELED
    \<and> (\<exists>c p u r. ev' = [OrderCanceled c p (cs_order_id resp) u r])"
  using assms(1)
proof (cases rule: create_cases)
  case (created rq)
  have fit: "fits rq l" by (rule assms(3)[OF created(4)])
  have id: "rq_reservation_id rq = cs_order_id resp" using reserve_for_ids[OF created(4)] created(2) by simp
  have none: "bk_open (book l) (rq_reservation_id rq) = None" using assms(4) id created(2) by simp
  have "find (of_orders s') (cq_order_id creq) = Some (stored_order now (asked ports req))"
    using created assms(6) by simp
  with assms(5,6) id undo[OF fit none created(5)] created(6) show ?thesis
    by (auto simp: CancelFlowOrder_def Let_def)
qed (use assms(2) in simp_all)

end

section \<open>The ledger implements the interface\<close>

definition ledger_order_ports ::
    "(pretrade_request \<Rightarrow> pretrade_response) \<Rightarrow> string option \<Rightarrow> bool \<Rightarrow> (flow_order \<Rightarrow> string option) option \<Rightarrow>
      ledger order_ports" where
  "ledger_order_ports risk failure tx ins = \<lparr>op_risk = risk, op_reserve = LedgerClient_ReserveFunds failure tx,
     op_release = LedgerClient_ReleaseFunds False tx, op_insert = ins\<rparr>"

definition ledger_fits :: "reserve_request \<Rightarrow> ledger \<Rightarrow> bool" where
  "ledger_fits rq l \<longleftrightarrow> (\<exists>s m k n. in_range s m k l \<and> grid s n (rq_amount rq) \<and> m + n + max k n \<le> max_units)"

lemma ledger_fitsE:
  assumes "ledger_fits rq l"
  obtains s m k n where "in_range s m k l" "grid s n (rq_amount rq)" "m + n \<le> max_units" "m + n + max k n \<le> max_units"
proof -
  from assms obtain s m k n where a: "in_range s m k l" "grid s n (rq_amount rq)" "m + n + max k n \<le> max_units"
    by (auto simp: ledger_fits_def)
  have "0 \<le> max k n" using grid_nonneg[OF a(2)] by simp
  with a(3) have "m + n \<le> max_units" by linarith
  from that[OF a(1,2) this a(3)] show thesis .
qed

interpretation ledger_port: reservation_port "ledger_order_ports risk failure tx ins" book_of ledger_fits
  for risk failure tx ins
proof
  fix rq l and rel :: release_request
  assume "ledger_fits rq l"
  then obtain s m k n where a: "in_range s m k l" "grid s n (rq_amount rq)" "m + n \<le> max_units"
      "m + n + max k n \<le> max_units"
    by (rule ledger_fitsE)
  obtain resp l' effs where r: "ReserveFunds tx rq l = (resp, l', effs)" by (cases "ReserveFunds tx rq l") auto
  have b: "book_of l' = a_reserve (rq_reservation_id rq) (claim_for rq) (book_of l)"
    using ReserveFunds_book[OF a(1-3), of tx] r by simp
  have ans: "rp_success resp \<longleftrightarrow> find (lg_reservations l) (rq_reservation_id rq) \<noteq> None \<or>
      dval (rq_amount rq) \<le> dval (ba_available (balance_of l (rq_user_id rq) (rq_currency rq)))"
    using reserve_answer[OF a(1-3) r] by blast
  let ?p = "ledger_order_ports risk failure tx ins"
  have call: "op_reserve ?p rq l = (case failure of None \<Rightarrow> (resp, l')
      | Some msg \<Rightarrow> (\<lparr>rp_meta = empty_meta, rp_success = False, rp_error = Some (mk_error ''GRPC_ERROR'' msg),
          rp_reserved_amount = None\<rparr>, l))"
    by (simp add: ledger_order_ports_def LedgerClient_ReserveFunds_def r split: option.splits)
  show "\<not> rp_success (fst (op_reserve ?p rq l)) \<Longrightarrow> book_of (snd (op_reserve ?p rq l)) = book_of l"
    using b ans by (auto simp: call a_reserve_def claim_for_def split: option.splits)
  show "rp_success (fst (op_reserve ?p rq l)) \<Longrightarrow>
      book_of (snd (op_reserve ?p rq l)) = a_reserve (rq_reservation_id rq) (claim_for rq) (book_of l)"
    using b by (simp add: call split: option.splits)
  show "rp_success (fst (op_reserve ?p rq l)) \<Longrightarrow> bk_open (book_of l) (rq_reservation_id rq) = None \<Longrightarrow>
      dval (rq_amount rq) \<le> bk_avail (book_of l) (rq_user_id rq) (rq_currency rq)"
    using ans by (simp add: call split: option.splits)
  have k: "0 \<le> n" by (rule grid_nonneg[OF a(2)])
  have rng: "in_range s (m + n) (max k n) l'" using in_range_reserve[OF a(1-3), of tx] r by simp
  have rng': "in_range s (m + n) (max k n) l" by (rule in_range_mono[OF a(1)]) (use k in auto)
  have rel: "op_release ?p rel x = fst (ReleaseFunds tx (rl_reservation_id rel) x)" for x
    by (simp add: ledger_order_ports_def LedgerClient_ReleaseFunds_def)
  show "book_of (op_release ?p rel (snd (op_reserve ?p rq l))) =
      a_release (rl_reservation_id rel) (book_of (snd (op_reserve ?p rq l)))"
    unfolding rel call
    using ReleaseFunds_book[OF rng a(4), of tx] ReleaseFunds_book[OF rng' a(4), of tx]
    by (simp split: option.splits)
qed

section \<open>Orders and funds\<close>

definition claim_ccy :: "flow_order \<Rightarrow> string" where
  "claim_ccy ord = (if fo_side ord = SIDE_BUY then in_quote (fo_instrument ord) else in_base (fo_instrument ord))"

definition claim_value :: "flow_order \<Rightarrow> rat" where
  "claim_value ord = (if fo_side ord = SIDE_BUY then dval (fo_total_qty ord) * dval (fo_price_high ord)
     else dval (fo_total_qty ord))"

lemma reserve_for_claim:
  assumes "reserve_for meta ord = Some rq" "grid sq Q (fo_total_qty ord)" "grid sp P (fo_price_high ord)"
    "sq + sp \<le> 18" "Q \<le> max_units" "P \<le> max_units" "Q * P \<le> max_units"
  shows "claim_for rq = \<lparr>cl_user = fo_user_id ord, cl_order = fo_order_id ord, cl_ccy = claim_ccy ord,
      cl_amount = claim_value ord\<rparr>"
    "rq_user_id rq = fo_user_id ord" "rq_currency rq = claim_ccy ord" "dval (rq_amount rq) = claim_value ord"
    "fo_side ord \<noteq> SIDE_UNSPECIFIED"
  using assms(1) grid_mul(1)[OF assms(2-7)]
  by (auto simp: reserve_for_def Let_def claim_for_def claim_ccy_def claim_value_def split: side.splits)


text \<open>Cancelling an order that was just created gives the user back exactly what creating it
  took: every balance and reservation is as before, the order is marked canceled and the
  cancellation is announced.\<close>

theorem create_then_cancel_restores:
  fixes risk :: "pretrade_request \<Rightarrow> pretrade_response" and failure :: "string option" and tx :: bool
    and ins :: "(flow_order \<Rightarrow> string option) option" and req :: create_request
  defines "ports \<equiv> ledger_order_ports risk failure tx ins"
  defines "ord \<equiv> asked ports req"
  assumes "CreateFlowOrder ports now req s l = (resp, s', l', ev)" "cs_accepted resp"
    and "\<forall>rq. reserve_for (cr_meta req) ord = Some rq \<longrightarrow> ledger_fits rq l"
    and "find (lg_reservations l) (fo_order_id ord) = None"
    and "CancelFlowOrder ports now' creq s' l' = (cresp, s'', l'', ev')" "cq_order_id creq = cs_order_id resp"
  shows "cp_success cresp \<and> book_of l'' = book_of l
    \<and> map_option fo_status (find (of_orders s'') (cs_order_id resp)) = Some ORDER_STATUS_CANCELED
    \<and> (\<exists>c p u r. ev' = [OrderCanceled c p (cs_order_id resp) u r])"
proof -
  have none: "bk_open (book_of l) (fo_order_id (asked (ledger_order_ports risk failure tx ins) req)) = None"
    using assms(6) by (simp add: ord_def ports_def)
  show ?thesis
    by (rule ledger_port.create_cancel[OF assms(3)[unfolded ports_def] assms(4)
          assms(5)[unfolded ord_def ports_def, rule_format] none assms(7)[unfolded ports_def] assms(8)])
qed

text \<open>C11. A good order gets through. With the risk service's own check behind the client, an order
  with a side, positive quantity and speed and an ordered price range, on an instrument that
  is not halted and with the venue gate open, is accepted as soon as the available balance
  covers its worst-case cost, the calls succeed and the insertion (if any) does.\<close>

theorem good_order_is_accepted:
  fixes fl :: fp and rs :: risk and tx :: bool and ins :: "(flow_order \<Rightarrow> string option) option"
    and req :: create_request
  defines "ports \<equiv> ledger_order_ports (\<lambda>q. CheckNewOrder fl q rs) None tx ins"
    and "ord \<equiv> cr_order req"
  assumes "fo_side ord \<noteq> SIDE_UNSPECIFIED" "0 < dval (fo_total_qty ord)" "0 < dval (fo_max_speed ord)"
    "dval (fo_price_low ord) \<le> dval (fo_price_high ord)"
    and "wf_dec (fo_price_low ord)" "wf_dec (fo_price_high ord)"
    and "\<not> is_halted rs (in_symbol (fo_instrument ord))" "EvaluateVenueHealthGate fl rs = kAccept"
    and "grid sq Q (fo_total_qty ord)" "grid sp P (fo_price_high ord)"
      "sq + sp \<le> 18" "Q \<le> max_units" "P \<le> max_units" "Q * P \<le> max_units"
    and "\<forall>rq. reserve_for (cr_meta req) ord = Some rq \<longrightarrow> ledger_fits rq l"
    and "claim_value ord \<le> bk_avail (book_of l) (fo_user_id ord) (claim_ccy ord)"
    and "ins = None \<or> (\<exists>f. ins = Some f \<and> f (stored_order now ord) = None)"
  shows "cs_accepted (fst (CreateFlowOrder ports now req s l))"
proof -
  let ?q = "\<lparr>pt_meta = cr_meta req, pt_user_id = fo_user_id ord, pt_order = ord,
     pt_reference_price = midpoint (fo_price_low ord) (fo_price_high ord)\<rparr>"
  have price: "\<not> 0 < dcmp (fo_price_low ord) (fo_price_high ord)"
    using dcmp_iffs(2)[OF assms(7,8)] assms(6) by simp
  have valid: "validate_order ord = None"
    using assms(4,5) price by (simp add: validate_order_def dval_sign not_le)
  have acc: "ps_decision (CheckNewOrder fl ?q rs) = RISK_DECISION_ACCEPT"
    using assms(4,9,10) price by (simp add: CheckNewOrder_def Let_def dval_sign not_le)
  obtain rq where rq: "reserve_for (cr_meta req) ord = Some rq"
    using assms(3) by (cases "fo_side ord") (auto simp: reserve_for_def Let_def)
  obtain s0 m k n where f: "in_range s0 m k l" "grid s0 n (rq_amount rq)" "m + n \<le> max_units"
    using assms(17) rq by (blast elim: ledger_fitsE)
  obtain led l1 e1 where r: "ReserveFunds tx rq l = (led, l1, e1)" by (cases "ReserveFunds tx rq l") auto
  have ok: "rp_success led"
    using reserve_answer[OF f r] reserve_for_claim[OF rq assms(11-16)] assms(18) by simp
  show ?thesis
    using valid acc rq r ok assms(19)
    by (auto simp: CreateFlowOrder_def Let_def approved_order_def ports_def ledger_order_ports_def
        LedgerClient_ReserveFunds_def stored_order_def simp flip: ord_def)
qed

section \<open>A concrete order\<close>

definition ex_create :: create_request where
  "ex_create = \<lparr>cr_meta = empty_meta, cr_order = ex_flow_order\<lparr>fo_user_id := ''bob''\<rparr>\<rparr>"

definition ex_cancel :: cancel_request where
  "ex_cancel = \<lparr>cq_meta = empty_meta, cq_order_id = ''o1'', cq_user_id = [], cq_reason = []\<rparr>"

definition ex_ports :: "ledger order_ports" where
  "ex_ports = ledger_order_ports (\<lambda>q. CheckNewOrder ex_fp q empty_risk) None True None"

definition ex_orders0 :: order_flow where
  "ex_orders0 = \<lparr>of_orders = [], of_applied_fills = []\<rparr>"

lemma ex_create_facts:
  "asked ex_ports ex_create = cr_order ex_create"
  "EvaluateVenueHealthGate ex_fp empty_risk = kAccept" "\<not> is_halted empty_risk sy"
  "reserve_for (cr_meta ex_create) (cr_order ex_create) = Some \<lparr>rq_meta = empty_meta, rq_reservation_id = ''o1'',
     rq_user_id = ''bob'', rq_order_id = ''o1'', rq_currency = ''USDT'', rq_amount = mk_dec 2525 1\<rparr>"
proof -
  show gate: "EvaluateVenueHealthGate ex_fp empty_risk = kAccept" "\<not> is_halted empty_risk sy"
    by (simp_all add: EvaluateVenueHealthGate_def empty_risk_def is_halted_def)
  have "ps_decision (CheckNewOrder ex_fp q empty_risk) \<noteq> RISK_DECISION_RESIZE" for q
    using gate(1) by (simp add: CheckNewOrder_def Let_def)
  then show "asked ex_ports ex_create = cr_order ex_create"
    by (simp add: asked_def approved_order_def ex_ports_def ledger_order_ports_def)
  show "reserve_for (cr_meta ex_create) (cr_order ex_create) = Some \<lparr>rq_meta = empty_meta, rq_reservation_id = ''o1'',
     rq_user_id = ''bob'', rq_order_id = ''o1'', rq_currency = ''USDT'', rq_amount = mk_dec 2525 1\<rparr>"
    unfolding ex_create_def ex_flow_order_def ex_pair_def by code_simp
qed

lemma ex_create_fits:
  "\<forall>rq. reserve_for (cr_meta ex_create) (cr_order ex_create) = Some rq \<longrightarrow> ledger_fits rq ex_l0"
proof -
  have "grid 8 25250000000 (mk_dec 2525 1)" by (simp add: grid_def at_scale_def)
  then have "ledger_fits \<lparr>rq_meta = empty_meta, rq_reservation_id = ''o1'',
     rq_user_id = ''bob'', rq_order_id = ''o1'', rq_currency = ''USDT'', rq_amount = mk_dec 2525 1\<rparr> ex_l0"
    unfolding ledger_fits_def
    by (intro exI[of _ 8] exI[of _ 1000000000000] exI[of _ 0] exI[of _ 25250000000]) (simp add: ex_l0_range)
  then show ?thesis by (simp add: ex_create_facts)
qed

lemma ex_create_order:
  "fo_side (cr_order ex_create) = SIDE_BUY" "fo_order_id (cr_order ex_create) = ''o1''"
  "fo_user_id (cr_order ex_create) = ''bob''" "fo_instrument (cr_order ex_create) = ex_pair"
  "fo_total_qty (cr_order ex_create) = mk_dec 25 1" "fo_price_high (cr_order ex_create) = mk_dec 101 0"
  "fo_price_low (cr_order ex_create) = mk_dec 99 0" "fo_max_speed (cr_order ex_create) = mk_dec 1 0"
  by (simp_all add: ex_create_def ex_flow_order_def)

lemma ex_create_claim:
  "claim_value (cr_order ex_create) = 505 / 2" "claim_ccy (cr_order ex_create) = ''USDT''"
  "find (lg_reservations ex_l0) i = None" "bk_avail (book_of ex_l0) ''bob'' ''USDT'' = 10000"
  "dval (ba_available (balance_of ex_l0 ''bob'' ''USDT'')) = 10000"
  by (simp_all add: claim_value_def claim_ccy_def ex_create_order ex_pair_def ex_l0_def empty_ledger_def
      book_of_def set_balance_def balance_of_def dval_def mk_dec_def)

theorem good_order_is_accepted_witness:
  "cs_accepted (fst (CreateFlowOrder ex_ports (0, 0) ex_create ex_orders0 ex_l0))"
  unfolding ex_ports_def
  by (rule good_order_is_accepted[where sq = 1 and sp = 0 and Q = 25 and P = 101])
     (simp_all add: ex_create_order ex_create_facts(2,3) ex_create_fits ex_create_claim
        wf_dec_def in_i64_def grid_def at_scale_def)


theorem create_then_cancel_restores_witness:
  "\<exists>resp s' l' ev cresp s'' l'' ev'. CreateFlowOrder ex_ports (0, 0) ex_create ex_orders0 ex_l0 = (resp, s', l', ev)
     \<and> CancelFlowOrder ex_ports (1, 0) ex_cancel s' l' = (cresp, s'', l'', ev') \<and> book_of l'' = book_of ex_l0"
proof -
  obtain resp s' l' ev where r: "CreateFlowOrder ex_ports (0, 0) ex_create ex_orders0 ex_l0 = (resp, s', l', ev)"
    by (cases "CreateFlowOrder ex_ports (0, 0) ex_create ex_orders0 ex_l0") auto
  obtain cresp s'' l'' ev' where c: "CancelFlowOrder ex_ports (1, 0) ex_cancel s' l' = (cresp, s'', l'', ev')"
    by (cases "CancelFlowOrder ex_ports (1, 0) ex_cancel s' l'") auto
  have "cs_accepted (fst (CreateFlowOrder ex_ports (0, 0) ex_create ex_orders0 ex_l0)) \<and>
      cs_order_id (fst (CreateFlowOrder ex_ports (0, 0) ex_create ex_orders0 ex_l0)) = ''o1''"
    unfolding ex_ports_def ex_create_def ex_flow_order_def ex_pair_def ex_fp_def empty_risk_def ex_orders0_def ex_l0_def
    by code_simp
  then have ok: "cs_accepted resp" "cs_order_id resp = ''o1''" using r by simp_all
  have "cq_order_id ex_cancel = cs_order_id resp" by (simp add: ok ex_cancel_def)
  from create_then_cancel_restores[OF r[unfolded ex_ports_def] ok(1), folded ex_ports_def,
      unfolded ex_create_facts(1) ex_create_order, OF ex_create_fits ex_create_claim(3) c this] r c
  show ?thesis by blast
qed

end
