(* ===== verification/Order_Lifecycle.thy ===== *)
theory Order_Lifecycle
  imports Order_Reservations
begin

text \<open>
  The life of an order in the order flow: what batches of the matching engine can and cannot do
  to it, and which redeliveries are harmless.
\<close>

section \<open>Cancellation is final\<close>

datatype order_flow_event =
    BatchEv timestamp batch_result
  | CancelEv timestamp cancel_request
  | CreateEv timestamp create_request

definition order_flow_step ::
    "'l order_ports \<Rightarrow> order_flow_event \<Rightarrow> order_flow \<times> 'l \<Rightarrow> order_flow \<times> 'l" where
  "order_flow_step ports ev sl =
     (case ev of
        BatchEv t b \<Rightarrow> (OrderFlow_ApplyBatchResult t b (fst sl), snd sl)
      | CancelEv t q \<Rightarrow> (case CancelFlowOrder ports t q (fst sl) (snd sl) of (_, s, l, _) \<Rightarrow> (s, l))
      | CreateEv t q \<Rightarrow> (case CreateFlowOrder ports t q (fst sl) (snd sl) of (_, s, l, _) \<Rightarrow> (s, l)))"

definition order_flow_run ::
    "'l order_ports \<Rightarrow> order_flow_event list \<Rightarrow> order_flow \<times> 'l \<Rightarrow> order_flow \<times> 'l" where
  "order_flow_run ports evs sl = fold (order_flow_step ports) evs sl"

definition same_but_time :: "flow_order \<Rightarrow> flow_order \<Rightarrow> bool" where
  "same_but_time a b \<longleftrightarrow> a\<lparr>fo_updated_at := (0, 0)\<rparr> = b\<lparr>fo_updated_at := (0, 0)\<rparr>"

lemma same_but_time_refl [simp]: "same_but_time a a" by (simp add: same_but_time_def)

lemma same_but_time_trans: "same_but_time a b \<Longrightarrow> same_but_time b c \<Longrightarrow> same_but_time a c"
  by (simp add: same_but_time_def)

lemma same_but_time_status: "same_but_time a b \<Longrightarrow> fo_status b = fo_status a"
  unfolding same_but_time_def by (drule arg_cong[where f = fo_status]) simp

lemma fold_keeps:
  assumes "P s" "\<And>x s. x \<in> set xs \<Longrightarrow> P s \<Longrightarrow> P (f x s)"
  shows "P (fold f xs s)"
  using assms by (induction xs arbitrary: s) auto

lemma canceled_fill:
  assumes "find (of_orders s) i = Some ord" "fo_status ord = ORDER_STATUS_CANCELED"
  shows "find (of_orders (apply_order_fill now b f s)) i = Some ord"
  using assms by (auto simp: apply_order_fill_def is_dead_def split: option.splits)

lemma canceled_update:
  assumes "find (of_orders s) i = Some ord" "fo_status ord = ORDER_STATUS_CANCELED"
  shows "find (of_orders (apply_order_update now u s)) i = Some ord"
  using assms by (auto simp: apply_order_update_def split: option.splits)

lemma canceled_batch:
  assumes "find (of_orders s) i = Some ord" "fo_status ord = ORDER_STATUS_CANCELED"
  shows "find (of_orders (OrderFlow_ApplyBatchResult now b s)) i = Some ord"
  unfolding OrderFlow_ApplyBatchResult_def
  by (intro fold_keeps[where P = "\<lambda>s. find (of_orders s) i = Some ord"] assms(1))
     (auto intro: canceled_fill canceled_update assms(2))

lemma canceled_create:
  assumes "CreateFlowOrder ports now req s l = (resp, s', l', ev)" "fo_order_id (asked ports req) \<noteq> i"
  shows "find (of_orders s') i = find (of_orders s) i"
  using assms(1) by (cases rule: create_cases) (use assms(2) in auto)

lemma canceled_step:
  assumes "find (of_orders (fst sl)) i = Some ord" "fo_status ord = ORDER_STATUS_CANCELED"
    and "\<And>t q. ev = CreateEv t q \<Longrightarrow> fo_order_id (asked ports q) \<noteq> i"
  shows "\<exists>ord'. find (of_orders (fst (order_flow_step ports ev sl))) i = Some ord' \<and> same_but_time ord ord'"
proof (cases ev)
  case (BatchEv t b)
  with canceled_batch[OF assms(1,2)] show ?thesis by (simp add: order_flow_step_def)
next
  case (CancelEv t q)
  with assms(1,2) show ?thesis
    by (auto simp: order_flow_step_def CancelFlowOrder_def Let_def same_but_time_def split: option.splits)
next
  case (CreateEv t q)
  obtain resp s' l' e where c: "CreateFlowOrder ports t q (fst sl) (snd sl) = (resp, s', l', e)"
    by (cases "CreateFlowOrder ports t q (fst sl) (snd sl)") auto
  from canceled_create[OF c assms(3)[OF CreateEv]] c CreateEv assms(1) show ?thesis
    by (simp add: order_flow_step_def)
qed

text \<open>C12. A canceled order stays canceled. Whatever batches, cancellations and new orders with other
  ids follow, in any order and with any redelivery, the order keeps its status, its remaining
  quantity and every other field; only its time stamp may move. Late fills and updates of the
  matching engine do not revive it.\<close>

theorem canceled_order_is_final:
  fixes ports :: "'l order_ports" and l :: 'l
  assumes "find (of_orders s) i = Some ord" "fo_status ord = ORDER_STATUS_CANCELED"
    and "\<And>t q. CreateEv t q \<in> set evs \<Longrightarrow> fo_order_id (asked ports q) \<noteq> i"
  shows "\<exists>ord'. find (of_orders (fst (order_flow_run ports evs (s, l)))) i = Some ord' \<and> same_but_time ord ord'"
  unfolding order_flow_run_def
proof (rule fold_keeps)
  show "\<exists>ord'. find (of_orders (fst (s, l))) i = Some ord' \<and> same_but_time ord ord'" using assms(1) by simp
  fix ev and sl :: "order_flow \<times> 'l"
  assume ev: "ev \<in> set evs" and "\<exists>ord'. find (of_orders (fst sl)) i = Some ord' \<and> same_but_time ord ord'"
  then obtain ord1 where ord1: "find (of_orders (fst sl)) i = Some ord1" "same_but_time ord ord1" by blast
  have "fo_status ord1 = ORDER_STATUS_CANCELED" using same_but_time_status[OF ord1(2)] assms(2) by simp
  with canceled_step[of sl i ord1 ev ports] ord1(1) ev assms(3)
  obtain ord2 where "find (of_orders (fst (order_flow_step ports ev sl))) i = Some ord2" "same_but_time ord1 ord2"
    by blast
  with same_but_time_trans[OF ord1(2)]
  show "\<exists>ord'. find (of_orders (fst (order_flow_step ports ev sl))) i = Some ord' \<and> same_but_time ord ord'"
    by blast
qed

section \<open>Fills\<close>

definition fill_key :: "batch_result \<Rightarrow> string \<Rightarrow> string" where
  "fill_key b i = br_batch_id b @ ''|'' @ i"

lemma fill_key_eq [simp]: "fill_key b i = fill_key b j \<longleftrightarrow> i = j"
  by (simp add: fill_key_def)

lemma idem_key_fill: "idem_key b f = fill_key b (ff_order_id f)"
  by (simp add: idem_key_def fill_key_def)

lemma fill_other:
  "ff_order_id f \<noteq> i \<Longrightarrow> find (of_orders (apply_order_fill now b f s)) i = find (of_orders s) i"
  "ff_order_id f \<noteq> i \<Longrightarrow> find (of_applied_fills (apply_order_fill now b f s)) (fill_key b i)
     = find (of_applied_fills s) (fill_key b i)"
  by (auto simp: apply_order_fill_def idem_key_fill split: option.splits)

lemma fills_applied:
  "find (of_applied_fills s) (fill_key b i) \<noteq> None \<Longrightarrow>
   find (of_orders (fold (apply_order_fill now b) fs s)) i = find (of_orders s) i"
proof (induction fs arbitrary: s)
  case Nil
  then show ?case by simp
next
  case (Cons f fs)
  show ?case
  proof (cases "ff_order_id f = i")
    case True
    then have "apply_order_fill now b f s = s" using Cons.prems by (simp add: apply_order_fill_def idem_key_fill)
    with Cons show ?thesis by simp
  next
    case False
    with Cons show ?thesis by (simp add: fill_other)
  qed
qed

text \<open>Of several fills of one order in a batch only the first counts.\<close>

lemma fills_of_order:
  assumes "find (of_orders s) i = Some ord" "\<not> is_dead (fo_status ord)"
    "find (of_applied_fills s) (fill_key b i) = None"
  shows "find (of_orders (fold (apply_order_fill now b) fs s)) i =
    (case List.find (\<lambda>f. ff_order_id f = i) fs of None \<Rightarrow> Some ord
     | Some f \<Rightarrow> Some (fill_order now (ff_executed_qty f) ord))"
  using assms
proof (induction fs arbitrary: s)
  case Nil
  then show ?case by simp
next
  case (Cons f fs)
  show ?case
  proof (cases "ff_order_id f = i")
    case False
    with Cons show ?thesis by (simp add: fill_other)
  next
    case True
    with Cons.prems have "find (of_orders (apply_order_fill now b f s)) i = Some (fill_order now (ff_executed_qty f) ord)"
      "find (of_applied_fills (apply_order_fill now b f s)) (fill_key b i) \<noteq> None"
      by (auto simp: apply_order_fill_def idem_key_fill)
    with True show ?thesis by (simp add: fills_applied)
  qed
qed

lemma updates_other:
  "\<forall>u \<in> set us. ou_order_id u \<noteq> i \<Longrightarrow> find (of_orders (fold (apply_order_update now) us s)) i = find (of_orders s) i"
proof (induction us arbitrary: s)
  case Nil
  then show ?case by simp
next
  case (Cons u us)
  moreover from Cons.prems have "find (of_orders (apply_order_update now u s)) i = find (of_orders s) i"
    by (auto simp: apply_order_update_def split: option.splits)
  ultimately show ?case by simp
qed

lemma fill_order_value:
  assumes "grid sc m (fo_remaining_qty ord)" "grid sc n x" "m + n \<le> max_units"
  defines "r \<equiv> dval (fo_remaining_qty ord) - dval x"
  shows "dval (fo_remaining_qty (fill_order now x ord)) = max 0 r"
    and "fo_status (fill_order now x ord) = (if r \<le> 0 then ORDER_STATUS_FILLED else ORDER_STATUS_PARTIALLY_FILLED)"
proof -
  have d: "dval (dsub (fo_remaining_qty ord) x) = r" using grid_sub(1)[OF assms(1-3)] by (simp add: r_def)
  note sg = dval_sign[of "dsub (fo_remaining_qty ord) x", unfolded d]
  show "dval (fo_remaining_qty (fill_order now x ord)) = max 0 r"
    using d sg dval_zero_iff[of "dsub (fo_remaining_qty ord) x"] by (auto simp: fill_order_def Let_def max_def)
  show "fo_status (fill_order now x ord) = (if r \<le> 0 then ORDER_STATUS_FILLED else ORDER_STATUS_PARTIALLY_FILLED)"
    using sg by (auto simp: fill_order_def Let_def)
qed


section \<open>Redelivery\<close>

lemma batch_fold_mono:
  "find (of_applied_fills s) k \<noteq> None \<Longrightarrow> find (of_applied_fills (apply_order_fill now b f s)) k \<noteq> None"
  "find (of_orders s) i = None \<longleftrightarrow> find (of_orders (apply_order_fill now b f s)) i = None"
  by (auto simp: apply_order_fill_def split: option.splits)

text \<open>A fill is settled when its key is recorded or its order is not known here.\<close>

definition settled :: "order_flow \<Rightarrow> string \<times> string \<Rightarrow> bool" where
  "settled s k \<longleftrightarrow> find (of_applied_fills s) (fst k) \<noteq> None \<or> find (of_orders s) (snd k) = None"

definition fill_keys :: "batch_result \<Rightarrow> (string \<times> string) set" where
  "fill_keys b = (\<lambda>f. (idem_key b f, ff_order_id f)) ` set (br_fills b)"

lemma settled_mono: "settled s k \<Longrightarrow> settled (apply_order_fill now b f s) k"
  unfolding settled_def using batch_fold_mono(1)[of s "fst k" now b f] batch_fold_mono(2)[of s "snd k" now b f] by metis

lemma settled_fill: "settled (apply_order_fill now b f s) (idem_key b f, ff_order_id f)"
  by (auto simp: settled_def apply_order_fill_def split: option.splits)

lemma settled_skip: "settled s (idem_key b f, ff_order_id f) \<Longrightarrow> apply_order_fill now b f s = s"
  by (auto simp: settled_def apply_order_fill_def split: option.splits)

interpretation order_fills: idempotent_consumer
  "\<lambda>s b. fold (apply_order_fill now b) (br_fills b) s" "\<lambda>s ks. \<forall>k \<in> ks. settled s k" fill_keys "\<lambda>s. s" for now
proof
  fix s b and ks :: "(string \<times> string) set"
  have keep: "settled (fold (apply_order_fill now b) fs s) k" if "settled s k" for fs s k
    by (rule fold_keeps[where P = "\<lambda>s. settled s k", OF that]) (rule settled_mono)
  have "settled (fold (apply_order_fill now b) fs s) (idem_key b f, ff_order_id f)" if "f \<in> set fs" for f fs s
    using that by (induction fs arbitrary: s) (auto intro: keep settled_fill)
  then show "\<forall>k \<in> fill_keys b. settled (fold (apply_order_fill now b) (br_fills b) s) k"
    by (auto simp: fill_keys_def)
  have skip: "fold (apply_order_fill now b) fs s = s" if "\<forall>f \<in> set fs. settled s (idem_key b f, ff_order_id f)" for fs
    using that by (induction fs) (auto simp: settled_skip)
  show "\<forall>k \<in> fill_keys b. settled s k \<Longrightarrow> fold (apply_order_fill now b) (br_fills b) s = s"
    by (rule skip) (auto simp: fill_keys_def)
  show "\<forall>k \<in> ks. settled s k \<Longrightarrow> \<forall>k \<in> ks. settled (fold (apply_order_fill now b) (br_fills b) s) k"
    by (auto intro: keep)
qed

text \<open>Batches without explicit order updates can be delivered again, in any order.\<close>

theorem fill_batch_redelivery_harmless:
  assumes "set again \<subseteq> set bs" "\<forall>b \<in> set bs. br_order_updates b = []"
  shows "fold (OrderFlow_ApplyBatchResult now) again (fold (OrderFlow_ApplyBatchResult now) bs s)
    = fold (OrderFlow_ApplyBatchResult now) bs s"
proof -
  have eq: "fold (OrderFlow_ApplyBatchResult now) xs t = fold (\<lambda>b s. fold (apply_order_fill now b) (br_fills b) s) xs t"
    if "\<forall>b \<in> set xs. br_order_updates b = []" for xs t
    using that by (intro fold_cong) (auto simp: OrderFlow_ApplyBatchResult_def fun_eq_iff)
  show ?thesis using order_fills.replay[OF assms(1), of now s] assms by (simp add: eq subset_iff)
qed

section \<open>Concrete orders and batches\<close>

definition ex_stored :: flow_order where
  "ex_stored = stored_order (0, 0) ex_flow_order"

definition ex_book_with :: "flow_order \<Rightarrow> order_flow" where
  "ex_book_with ord = \<lparr>of_orders = [(''o1'', ord)], of_applied_fills = []\<rparr>"

theorem canceled_order_is_final_witness:
  "\<exists>ord'. find (of_orders (fst (order_flow_run ex_ports [BatchEv (1, 0) ex_fills_batch, CancelEv (2, 0) ex_cancel]
      (ex_book_with (ex_stored\<lparr>fo_status := ORDER_STATUS_CANCELED\<rparr>), ex_l0)))) ''o1'' = Some ord'
    \<and> same_but_time (ex_stored\<lparr>fo_status := ORDER_STATUS_CANCELED\<rparr>) ord'"
  by (rule canceled_order_is_final) (simp_all add: ex_book_with_def find_def)


text \<open>Explicit order updates are not covered by the idempotency guard: delivering an older batch
  again after a newer one takes a filled order back to partially filled.\<close>

definition ex_update_batch :: "string \<Rightarrow> int \<Rightarrow> order_status \<Rightarrow> batch_result" where
  "ex_update_batch bid left st = \<lparr>br_batch_id = bid, br_timestamp = (0, 0), br_clear_prices = [], br_fills = [],
     br_order_updates = [\<lparr>ou_order_id = ''o1'', ou_status = st, ou_remaining_qty = Some (mk_dec left 0),
        ou_filled_qty_total = None, ou_updated_at = None\<rparr>],
     br_num_active_orders = 0, br_used_liquidity = []\<rparr>"

theorem redelivered_update_rolls_back:
  "let b1 = ex_update_batch ''b1'' 1 ORDER_STATUS_PARTIALLY_FILLED; b2 = ex_update_batch ''b2'' 0 ORDER_STATUS_FILLED;
       s2 = fold (OrderFlow_ApplyBatchResult (1, 0)) [b1, b2] (ex_book_with ex_stored);
       s3 = OrderFlow_ApplyBatchResult (2, 0) b1 s2
   in map_option fo_status (find (of_orders s2) ''o1'') = Some ORDER_STATUS_FILLED
    \<and> map_option fo_status (find (of_orders s3) ''o1'') = Some ORDER_STATUS_PARTIALLY_FILLED
    \<and> map_option fo_remaining_qty (find (of_orders s3) ''o1'') = Some (mk_dec 1 0)"
  unfolding ex_update_batch_def ex_book_with_def ex_stored_def ex_flow_order_def ex_pair_def by code_simp

end
