(* ===== verification/Matching_Orders.thy ===== *)
theory Matching_Orders
  imports Order_Messages Decimal_Text "HOL-Library.Char_ord" "HOL-Library.List_Lexorder"
begin

text \<open>
  The order of the matching engine (\<open>domain/flow_order.hpp\<close>), its construction from the
  message of the order flow, the fill arithmetic (\<open>domain/fill_math.hpp\<close>) and the table
  \<open>flow_orders\<close> the engine loads from and writes its fills to
  (\<open>infra/postgres/postgres_flow_order_repository.cpp\<close>). Time points are nanoseconds since
  the epoch in 64 bits. An exception of the code is \<open>None\<close>, or \<open>Inl\<close> of its message.
\<close>

section \<open>The order of the matching domain\<close>

datatype order_tif = KGtc | KGtd | KIoc

datatype book_status =
    KNew | KActive | KPartiallyFilled | KFilled | KCancelled | KExpired | KLiquidated

record order_leg =
  ol_instrument_symbol :: string
  ol_weight :: decimal

record book_order =
  bo_order_id :: string
  bo_user_id :: string
  bo_legs :: "order_leg list"
  bo_p_low :: decimal
  bo_p_high :: decimal
  bo_q_rate :: decimal
  bo_q_max :: decimal
  bo_filled_cum :: decimal
  bo_time_in_force :: order_tif
  bo_window_start :: int
  bo_window_end :: "int option"
  bo_status :: book_status
  bo_created_at :: int
  bo_updated_at :: int

definition has_non_zero_weight :: "order_leg \<Rightarrow> bool" where
  "has_non_zero_weight l = (dcmp (ol_weight l) (mk_dec 0 (scale (ol_weight l))) \<noteq> 0)"

text \<open>\<open>std::chrono\<close> arithmetic of \<open>ts_to_tp\<close> at the width of \<open>system_clock::duration\<close>.\<close>

definition ts_to_tp :: "timestamp \<Rightarrow> int" where
  "ts_to_tp ts = i64 (i64 (fst ts * 1000000000) + snd ts)"

fun map_status :: "order_status \<Rightarrow> book_status" where
  "map_status ORDER_STATUS_PARTIALLY_FILLED = KPartiallyFilled"
| "map_status ORDER_STATUS_FILLED = KFilled"
| "map_status ORDER_STATUS_CANCELED = KCancelled"
| "map_status ORDER_STATUS_EXPIRED = KExpired"
| "map_status ORDER_STATUS_REJECTED = KLiquidated"
| "map_status ORDER_STATUS_NEW = KNew"
| "map_status ORDER_STATUS_UNSPECIFIED = KActive"

fun map_tif :: "tif \<Rightarrow> order_tif" where
  "map_tif TIF_IOC = KIoc"
| "map_tif TIF_FOK = KIoc"
| "map_tif TIF_GTC = KGtc"
| "map_tif TIF_UNSPECIFIED = KGtc"

definition sort_legs_by_symbol :: "order_leg list \<Rightarrow> order_leg list" where
  "sort_legs_by_symbol = sort_key ol_instrument_symbol"

definition find_leg :: "book_order \<Rightarrow> string \<Rightarrow> order_leg option" where
  "find_leg b s = List.find (\<lambda>l. ol_instrument_symbol l = s) (bo_legs b)"

fun valid_legs_loop :: "string option \<Rightarrow> order_leg list \<Rightarrow> bool" where
  "valid_legs_loop prev [] = True"
| "valid_legs_loop prev (l # ls) =
     (if ol_instrument_symbol l = [] then False
      else if \<not> has_non_zero_weight l then False
      else if (case prev of None \<Rightarrow> False | Some p \<Rightarrow> \<not> p < ol_instrument_symbol l) then False
      else valid_legs_loop (Some (ol_instrument_symbol l)) ls)"

definition has_valid_legs :: "book_order \<Rightarrow> bool" where
  "has_valid_legs b = (if bo_legs b = [] then False else valid_legs_loop None (bo_legs b))"

definition has_valid_fill_state :: "book_order \<Rightarrow> bool" where
  "has_valid_fill_state b = (dcmp (bo_filled_cum b) (bo_q_max b) \<le> 0)"

definition clamp_neg :: "decimal \<Rightarrow> decimal" where
  "clamp_neg d = (if dcmp d (mk_dec 0 (scale d)) < 0 then mk_dec 0 (scale d) else d)"

definition remaining_qty :: "book_order \<Rightarrow> decimal" where
  "remaining_qty b = clamp_neg (dsub (bo_q_max b) (bo_filled_cum b))"

definition is_active_for_batch :: "book_order \<Rightarrow> bool" where
  "is_active_for_batch b \<longleftrightarrow> bo_status b = KActive \<or> bo_status b = KPartiallyFilled"

definition is_matchable_at :: "int \<Rightarrow> book_order \<Rightarrow> bool" where
  "is_matchable_at as_of b =
     (if bo_time_in_force b = KIoc then False
      else if \<not> is_active_for_batch b then False
      else if 0 \<le> dcmp (bo_filled_cum b) (bo_q_max b) then False
      else if as_of < bo_window_start b then False
      else if (case bo_window_end b of None \<Rightarrow> False | Some e \<Rightarrow> e \<le> as_of) then False
      else True)"

text \<open>
  \<open>FlowOrder::from_proto\<close>. The presence bits the code asks for are the extra fields of
  the message; an absent price, speed or quantity reads as zero, which is also the value
  the code substitutes, except for \<open>remaining_qty\<close> and the two time stamps.
\<close>

record order_message = flow_order +
  om_has_remaining_qty :: bool
  om_has_created_at :: bool
  om_has_updated_at :: bool

definition leg_symbol :: "instrument \<Rightarrow> string" where
  "leg_symbol i = (if in_symbol i = [] \<and> in_base i \<noteq> [] \<and> in_quote i \<noteq> []
     then in_base i @ ''/'' @ in_quote i else in_symbol i)"

definition initial_filled :: "decimal \<Rightarrow> decimal \<Rightarrow> decimal" where
  "initial_filled q_max remaining =
     (let f = dsub q_max remaining;
          f = (if dcmp f (mk_dec 0 (scale f)) < 0 then mk_dec 0 (scale f) else f)
      in if 0 < dcmp f q_max then q_max else f)"

definition from_proto :: "int \<Rightarrow> order_message \<Rightarrow> book_order" where
  "from_proto now p =
     (let is_sell = fo_side p = SIDE_SELL;
          leg = \<lparr>ol_instrument_symbol = leg_symbol (fo_instrument p),
                 ol_weight = (if is_sell then mk_dec (-1) 0 else mk_dec 1 0)\<rparr>;
          created = (if om_has_created_at p then ts_to_tp (fo_created_at p) else now)
      in \<lparr>bo_order_id = fo_order_id p, bo_user_id = fo_user_id p,
          bo_legs = sort_legs_by_symbol [leg],
          bo_p_low = (if is_sell then dsub dzero (fo_price_high p) else fo_price_low p),
          bo_p_high = (if is_sell then dsub dzero (fo_price_low p) else fo_price_high p),
          bo_q_rate = fo_max_speed p,
          bo_q_max = fo_total_qty p,
          bo_filled_cum = initial_filled (fo_total_qty p)
            (if om_has_remaining_qty p then fo_remaining_qty p else fo_total_qty p),
          bo_time_in_force = map_tif (fo_tif p),
          bo_window_start = created, bo_window_end = None,
          bo_status = map_status (fo_status p),
          bo_created_at = created,
          bo_updated_at = (if om_has_updated_at p then ts_to_tp (fo_updated_at p) else created)\<rparr>)"

section \<open>Fill arithmetic\<close>

text \<open>\<open>ComputeFilledVolumeUpdate\<close>: \<open>None\<close> is the exception on a negative delta.\<close>

definition ComputeFilledVolumeUpdate ::
    "decimal \<Rightarrow> decimal \<Rightarrow> decimal \<Rightarrow> (decimal \<times> book_status) option" where
  "ComputeFilledVolumeUpdate q_max previous delta =
     (if dcmp delta (mk_dec 0 (scale delta)) < 0 then None
      else let new = dmin (dadd previous delta) q_max
        in Some (new, if 0 \<le> dcmp new q_max then KFilled else KPartiallyFilled))"

section \<open>The table of orders\<close>

text \<open>
  A row of \<open>flow_orders\<close> as the query returns it: numeric and enumeration columns as text,
  time stamps as epoch seconds.
\<close>

record order_row =
  rw_order_id :: string
  rw_user_id :: string
  rw_p_low :: string
  rw_p_high :: string
  rw_q_rate :: string
  rw_q_max :: string
  rw_filled_cum :: string
  rw_time_in_force :: string
  rw_status :: string
  rw_window_start_epoch :: int
  rw_window_end_epoch :: "int option"
  rw_created_at_epoch :: int
  rw_updated_at_epoch :: int

record leg_row =
  lw_order_id :: string
  lw_instrument_symbol :: string
  lw_weight :: string

text \<open>\<open>std::tolower\<close> in the C locale.\<close>

definition to_lower_char :: "char \<Rightarrow> char" where
  "to_lower_char c = (if 65 \<le> (of_char c :: nat) \<and> (of_char c :: nat) \<le> 90
     then char_of ((of_char c :: nat) + 32) else c)"

definition to_lower_ascii :: "string \<Rightarrow> string" where
  "to_lower_ascii s = map to_lower_char s"

definition parse_time_in_force :: "string \<Rightarrow> order_tif option" where
  "parse_time_in_force s = (let t = to_lower_ascii s in
     if t = ''gtc'' then Some KGtc else if t = ''gtd'' then Some KGtd
     else if t = ''ioc'' then Some KIoc else None)"

definition parse_status :: "string \<Rightarrow> book_status option" where
  "parse_status s = (let t = to_lower_ascii s in
     if t = ''new'' then Some KNew
     else if t = ''active'' then Some KActive
     else if t = ''partially_filled'' then Some KPartiallyFilled
     else if t = ''filled'' then Some KFilled
     else if t = ''cancelled'' then Some KCancelled
     else if t = ''expired'' then Some KExpired
     else if t = ''liquidated'' then Some KLiquidated else None)"

definition from_epoch_seconds :: "int \<Rightarrow> int" where
  "from_epoch_seconds s = i64 (s * 1000000000)"

definition to_epoch_seconds :: "int \<Rightarrow> int" where
  "to_epoch_seconds t = t sdiv 1000000000"

definition map_flow_order :: "order_row \<Rightarrow> book_order option" where
  "map_flow_order r =
     (case (ParsePgNumeric (rw_p_low r), ParsePgNumeric (rw_p_high r), ParsePgNumeric (rw_q_rate r),
            ParsePgNumeric (rw_q_max r), ParsePgNumeric (rw_filled_cum r),
            parse_time_in_force (rw_time_in_force r), parse_status (rw_status r)) of
        (Some pl, Some ph, Some qr, Some qm, Some fc, Some tf, Some st) \<Rightarrow>
          Some \<lparr>bo_order_id = rw_order_id r, bo_user_id = rw_user_id r, bo_legs = [],
            bo_p_low = pl, bo_p_high = ph, bo_q_rate = qr, bo_q_max = qm, bo_filled_cum = fc,
            bo_time_in_force = tf,
            bo_window_start = from_epoch_seconds (rw_window_start_epoch r),
            bo_window_end = map_option from_epoch_seconds (rw_window_end_epoch r),
            bo_status = st,
            bo_created_at = from_epoch_seconds (rw_created_at_epoch r),
            bo_updated_at = from_epoch_seconds (rw_updated_at_epoch r)\<rparr>
      | _ \<Rightarrow> None)"

definition attach_leg :: "leg_row \<Rightarrow> book_order list \<Rightarrow> book_order list option" where
  "attach_leg r bs = (if lw_order_id r \<notin> set (map bo_order_id bs) then None
     else case ParsePgNumeric (lw_weight r) of None \<Rightarrow> None
       | Some w \<Rightarrow> Some (map (\<lambda>b. if bo_order_id b = lw_order_id r
           then b\<lparr>bo_legs := bo_legs b @ [\<lparr>ol_instrument_symbol = lw_instrument_symbol r,
                                            ol_weight = w\<rparr>]\<rparr> else b) bs))"

fun attach_legs :: "leg_row list \<Rightarrow> book_order list \<Rightarrow> book_order list option" where
  "attach_legs [] bs = Some bs"
| "attach_legs (r # rs) bs = (case attach_leg r bs of None \<Rightarrow> None | Some bs' \<Rightarrow> attach_legs rs bs')"

definition flip_sell_prices :: "book_order \<Rightarrow> book_order" where
  "flip_sell_prices b = (case bo_legs b of [] \<Rightarrow> b
     | l # _ \<Rightarrow> if dcmp (ol_weight l) dzero < 0
         then b\<lparr>bo_p_low := dsub dzero (bo_p_high b), bo_p_high := dsub dzero (bo_p_low b)\<rparr>
         else b)"

definition validate_loaded_order :: "book_order \<Rightarrow> bool" where
  "validate_loaded_order b =
     (if \<not> has_valid_legs b then False else if \<not> has_valid_fill_state b then False else True)"

definition finish_order :: "book_order \<Rightarrow> book_order option" where
  "finish_order b = (let b = flip_sell_prices (b\<lparr>bo_legs := sort_legs_by_symbol (bo_legs b)\<rparr>)
     in if validate_loaded_order b then Some b else None)"

fun map_all :: "('a \<Rightarrow> 'b option) \<Rightarrow> 'a list \<Rightarrow> 'b list option" where
  "map_all f [] = Some []"
| "map_all f (x # xs) = (case f x of None \<Rightarrow> None
     | Some y \<Rightarrow> map_option (Cons y) (map_all f xs))"

text \<open>
  \<open>LoadActiveFlowOrders\<close> on the rows the two queries return (order ids are the primary key
  of the table, so the index of the code finds the only order with that id).
\<close>

definition LoadActiveFlowOrders ::
    "string option \<Rightarrow> int option \<Rightarrow> order_row list \<Rightarrow> leg_row list \<Rightarrow> book_order list option" where
  "LoadActiveFlowOrders instrument_filter limit rows legs =
     (if (case limit of None \<Rightarrow> False | Some n \<Rightarrow> n \<le> 0) then None
      else if instrument_filter = Some [] then None
      else case map_all map_flow_order rows of None \<Rightarrow> None
        | Some bs \<Rightarrow> (case (if bs = [] then Some bs else attach_legs legs bs) of None \<Rightarrow> None
            | Some bs \<Rightarrow> map_all finish_order bs))"

text \<open>
  \<open>UpdateFilledVolumes\<close> on the columns of the table it reads and writes. One transaction:
  an exception leaves the table as it was. The text form of a numeric and its parsing back
  are the identity on the decimals the code writes, so the columns are decimals here.
\<close>

record volume_row =
  vr_q_max :: decimal
  vr_filled_cum :: decimal
  vr_status :: string
  vr_updated_at :: int

record order_fill_delta =
  fd_order_id :: string
  fd_executed_qty_delta :: decimal

definition apply_delta ::
    "int \<Rightarrow> order_fill_delta \<Rightarrow> volume_row umap \<Rightarrow> string + volume_row umap" where
  "apply_delta batch_epoch d t =
     (let id = fd_order_id d; q = fd_executed_qty_delta d in
      if id = [] then Inl ''OrderFillDelta.order_id must not be empty''
      else if dcmp q (mk_dec 0 (scale q)) \<le> 0 then Inr t
      else case find t id of
        None \<Rightarrow> Inl (''flow_orders row not found for order_id='' @ id)
      | Some r \<Rightarrow> (case ComputeFilledVolumeUpdate (vr_q_max r) (vr_filled_cum r) q of
          None \<Rightarrow> Inl ''executed_qty_delta_portfolio_units must be non-negative''
        | Some (c, st) \<Rightarrow> Inr (put id (r\<lparr>vr_filled_cum := c,
            vr_status := (if st = KFilled then ''filled'' else ''partially_filled''),
            vr_updated_at := batch_epoch\<rparr>) t)))"

fun apply_deltas ::
    "int \<Rightarrow> order_fill_delta list \<Rightarrow> volume_row umap \<Rightarrow> string + volume_row umap" where
  "apply_deltas e [] t = Inr t"
| "apply_deltas e (d # ds) t =
     (case apply_delta e d t of Inl x \<Rightarrow> Inl x | Inr t' \<Rightarrow> apply_deltas e ds t')"

definition UpdateFilledVolumes ::
    "int \<Rightarrow> order_fill_delta list \<Rightarrow> volume_row umap \<Rightarrow> string option \<times> volume_row umap" where
  "UpdateFilledVolumes batch_time ds t =
     (if ds = [] then (None, t)
      else case apply_deltas (to_epoch_seconds batch_time) ds t of
        Inl e \<Rightarrow> (Some e, t)
      | Inr t' \<Rightarrow> (None, t'))"

end
