(* ===== verification/Matching_Hedge.thy ===== *)
theory Matching_Hedge
  imports Order_Messages Environment
begin

text \<open>
  Automatic hedging after a batch: the net position of every provider and instrument
  (\<open>app/position_snapshot_calculator.cpp\<close>), the thresholds that call for a hedge
  (\<open>app/hedge_trigger_policy.cpp\<close>), the execution intents that close the positions
  (\<open>app/execution_intent_builder.cpp\<close>), their publication
  (\<open>app/hedge_execution_intents_publisher.cpp\<close>) and the configuration of all this
  (\<open>app/matching_loop.cpp\<close>). The clock is a parameter.
\<close>

section \<open>Position snapshots\<close>

record position_snapshot =
  sn_provider_id :: string
  sn_symbol :: string
  sn_net_qty :: decimal
  sn_clearing_price :: decimal
  sn_batch_id :: string
  sn_timestamp :: timestamp

record snapshot_accumulator =
  sa_provider_id :: string
  sa_symbol :: string
  sa_net_qty :: decimal

definition IsValidFill :: "flow_fill \<Rightarrow> bool" where
  "IsValidFill f =
     (if ff_user_id f = [] then False
      else if in_symbol (ff_instrument f) = [] then False
      else if ff_side f \<noteq> SIDE_BUY \<and> ff_side f \<noteq> SIDE_SELL then False
      else if units (ff_executed_qty f) \<le> 0 then False
      else True)"

definition SnapshotKey :: "string \<Rightarrow> string \<Rightarrow> string" where
  "SnapshotKey provider symbol = provider @ CHR 0x1F # symbol"

definition accumulate_fill ::
    "snapshot_accumulator umap \<Rightarrow> flow_fill \<Rightarrow> snapshot_accumulator umap" where
  "accumulate_fill totals f =
     (if \<not> IsValidFill f then totals
      else let key = SnapshotKey (ff_user_id f) (in_symbol (ff_instrument f));
               a = find_or \<lparr>sa_provider_id = ff_user_id f,
                     sa_symbol = in_symbol (ff_instrument f), sa_net_qty = dzero\<rparr> totals key;
               qty = ff_executed_qty f
           in put key (a\<lparr>sa_net_qty := if ff_side f = SIDE_BUY then dadd (sa_net_qty a) qty
                         else dsub (sa_net_qty a) qty\<rparr>) totals)"

definition batch_snapshot ::
    "('a) batch_result_scheme \<Rightarrow> snapshot_accumulator \<Rightarrow> position_snapshot" where
  "batch_snapshot b a = \<lparr>sn_provider_id = sa_provider_id a, sn_symbol = sa_symbol a,
     sn_net_qty = sa_net_qty a,
     sn_clearing_price = find_or dzero (br_clear_prices b) (sa_symbol a),
     sn_batch_id = br_batch_id b, sn_timestamp = br_timestamp b\<rparr>"

definition CalculateSnapshots :: "('a) batch_result_scheme \<Rightarrow> position_snapshot list" where
  "CalculateSnapshots b =
     map (batch_snapshot b) (filter (\<lambda>a. dcmp (sa_net_qty a) dzero \<noteq> 0)
       (map snd (foldl accumulate_fill [] (br_fills b))))"

section \<open>Trigger policy\<close>

record hedge_threshold =
  ht_threshold_qty :: decimal
  ht_threshold_notional :: decimal

record hedge_trigger_config =
  tc_default_thresholds :: hedge_threshold
  tc_per_symbol_thresholds :: "hedge_threshold umap"

record hedge_trigger_decision =
  td_snapshot :: position_snapshot
  td_triggered :: bool
  td_abs_qty :: decimal
  td_abs_notional :: decimal
  td_qty_check_enabled :: bool
  td_notional_check_enabled :: bool
  td_qty_threshold_exceeded :: bool
  td_notional_threshold_exceeded :: bool

definition AbsDecimal :: "decimal \<Rightarrow> decimal" where
  "AbsDecimal v = (if 0 \<le> dcmp v dzero then v else dsub dzero v)"

definition IsThresholdEnabled :: "decimal \<Rightarrow> bool" where
  "IsThresholdEnabled t = (0 < dcmp t dzero)"

definition HasValidReferenceMid :: "decimal \<Rightarrow> bool" where
  "HasValidReferenceMid p = (0 < dcmp p dzero)"

definition ResolveThresholdForSymbol :: "hedge_trigger_config \<Rightarrow> string \<Rightarrow> hedge_threshold" where
  "ResolveThresholdForSymbol c s =
     (case find (tc_per_symbol_thresholds c) s of Some t \<Rightarrow> t | None \<Rightarrow> tc_default_thresholds c)"

definition EvaluateTrigger_snapshot ::
    "hedge_trigger_config \<Rightarrow> position_snapshot \<Rightarrow> hedge_trigger_decision" where
  "EvaluateTrigger_snapshot c s =
     (let abs_qty = AbsDecimal (sn_net_qty s);
          t = ResolveThresholdForSymbol c (sn_symbol s);
          qty_on = IsThresholdEnabled (ht_threshold_qty t);
          notional_on = (IsThresholdEnabled (ht_threshold_notional t)
                         \<and> HasValidReferenceMid (sn_clearing_price s));
          qty_over = (qty_on \<and> 0 < dcmp abs_qty (ht_threshold_qty t));
          notional = (if notional_on then dmul abs_qty (sn_clearing_price s) else dzero);
          notional_over = (notional_on \<and> 0 < dcmp notional (ht_threshold_notional t))
      in \<lparr>td_snapshot = s, td_triggered = (qty_over \<or> notional_over), td_abs_qty = abs_qty,
          td_abs_notional = notional, td_qty_check_enabled = qty_on,
          td_notional_check_enabled = notional_on, td_qty_threshold_exceeded = qty_over,
          td_notional_threshold_exceeded = notional_over\<rparr>)"

definition EvaluateTriggers ::
    "hedge_trigger_config \<Rightarrow> position_snapshot list \<Rightarrow> hedge_trigger_decision list" where
  "EvaluateTriggers c ss = map (EvaluateTrigger_snapshot c) ss"

section \<open>Execution intents\<close>

record intent_config =
  ic_urgency :: urgency
  ic_strategy :: strategy
  ic_tif :: tif
  ic_timeout_ms :: int
  ic_max_slippage_bps :: int
  ic_allowed_venues :: "string list"

record intent_build_decision =
  bd_snapshot :: position_snapshot
  bd_triggered :: bool
  bd_intent_created :: bool
  bd_reason :: string

definition empty_intent :: exec_intent where
  "empty_intent = \<lparr>ei_meta = empty_meta, ei_intent_id = [], ei_batch_id = [],
     ei_internal_order_id = [], ei_reason = [], ei_hedge_flow_id = [], ei_provider_id = [],
     ei_source = HEDGE_SOURCE_UNSPECIFIED, ei_venue = [],
     ei_instrument = \<lparr>in_symbol = [], in_base = [], in_quote = []\<rparr>, ei_venue_symbol = [],
     ei_allowed_venues = [], ei_side = SIDE_UNSPECIFIED, ei_target_qty = dzero,
     ei_target_notional = dzero, ei_limit_price = None, ei_max_slippage_bps = 0,
     ei_reference_mid = None, ei_strategy = EXEC_STRATEGY_UNSPECIFIED,
     ei_urgency = URGENCY_UNSPECIFIED, ei_tif = TIF_UNSPECIFIED, ei_timeout_ms = 0,
     ei_client_order_id = []\<rparr>"

definition PopulateInstrument :: "string \<Rightarrow> instrument \<Rightarrow> instrument" where
  "PopulateInstrument s i =
     (let i = i\<lparr>in_symbol := s\<rparr> in
      case split_at CHR ''/'' s of
        None \<Rightarrow> i
      | Some (a, b) \<Rightarrow> if a = [] \<or> b = [] then i else i\<lparr>in_base := a, in_quote := b\<rparr>)"

definition MakeHedgeFlowId :: "position_snapshot \<Rightarrow> string" where
  "MakeHedgeFlowId s = sn_batch_id s @ ''|hedge|'' @ sn_provider_id s @ ''|'' @ sn_symbol s"

definition hedge_intent :: "timestamp \<Rightarrow> intent_config \<Rightarrow> position_snapshot \<Rightarrow> exec_intent" where
  "hedge_intent now c s =
     (let net = sn_net_qty s;
          target = AbsDecimal net;
          flow = MakeHedgeFlowId s;
          id = flow @ ''|intent''
      in empty_intent\<lparr>
        ei_meta := \<lparr>em_event_id = id, em_ts_event = Some now, em_source = ''matching'',
          em_correlation_id = sn_batch_id s,
          em_partition_key = sn_provider_id s @ ''|'' @ sn_symbol s\<rparr>,
        ei_intent_id := id, ei_hedge_flow_id := flow, ei_batch_id := sn_batch_id s,
        ei_provider_id := sn_provider_id s, ei_source := HEDGE_SOURCE_AUTO_BATCH,
        ei_reason := ''hedge'',
        ei_instrument := PopulateInstrument (sn_symbol s) (ei_instrument empty_intent),
        ei_side := (if 0 < dcmp net dzero then SIDE_SELL else SIDE_BUY),
        ei_target_qty := target, ei_target_notional := dmul target (sn_clearing_price s),
        ei_reference_mid := Some (sn_clearing_price s),
        ei_strategy := ic_strategy c, ei_urgency := ic_urgency c, ei_tif := ic_tif c,
        ei_timeout_ms := (if 0 < ic_timeout_ms c then ic_timeout_ms c else 30000),
        ei_max_slippage_bps := ic_max_slippage_bps c,
        ei_allowed_venues := ic_allowed_venues c, ei_client_order_id := id\<rparr>)"

definition build_hedge_intent ::
    "timestamp \<Rightarrow> intent_config \<Rightarrow> hedge_trigger_decision \<Rightarrow> exec_intent option \<times> string" where
  "build_hedge_intent now c d =
     (if \<not> td_triggered d then (None, ''not_triggered'')
      else if \<not> HasValidReferenceMid (sn_clearing_price (td_snapshot d))
        then (None, ''reference_mid_non_positive'')
      else if dcmp (sn_net_qty (td_snapshot d)) dzero = 0 then (None, ''zero_net_qty'')
      else (Some (hedge_intent now c (td_snapshot d)), ''built''))"

definition BuildFromHedgeTriggerDecisions ::
    "timestamp \<Rightarrow> intent_config \<Rightarrow> hedge_trigger_decision list
      \<Rightarrow> exec_intent list \<times> intent_build_decision list" where
  "BuildFromHedgeTriggerDecisions now c ds =
     (List.map_filter (\<lambda>d. fst (build_hedge_intent now c d)) ds,
      map (\<lambda>d. let (i, why) = build_hedge_intent now c d
        in \<lparr>bd_snapshot = td_snapshot d, bd_triggered = td_triggered d,
            bd_intent_created = (i \<noteq> None), bd_reason = why\<rparr>) ds)"

text \<open>
  Intents for the fills the batch took from venues. \<open>static_cast<double>(qty) > 0\<close> is the
  sign of the units.
\<close>

definition fill_provenance :: "flow_fill \<Rightarrow> provenance" where
  "fill_provenance f = (case ff_provenance f of Some p \<Rightarrow> p
     | None \<Rightarrow> \<lparr>pv_liquidity_source = [], pv_venue_id = [], pv_snapshot_id = [], pv_curve_id = []\<rparr>)"

definition IsExternalFill :: "flow_fill \<Rightarrow> bool" where
  "IsExternalFill f =
     (if ff_liquidity_source f = [] \<or> ff_liquidity_source f = ''internal'' then False
      else if pv_venue_id (fill_provenance f) = [] then False
      else if ff_side f = SIDE_UNSPECIFIED then False
      else 0 < units (ff_executed_qty f))"

definition MakeExternalFillIntentId ::
    "string \<Rightarrow> string \<Rightarrow> string \<Rightarrow> string \<Rightarrow> nat \<Rightarrow> string" where
  "MakeExternalFillIntentId batch order symbol venue i =
     batch @ ''|'' @ order @ ''|'' @ symbol @ ''|'' @ venue @ ''|external_fill_'' @ int_to_str (int i)"

definition fill_symbol :: "flow_fill \<Rightarrow> string" where
  "fill_symbol f = (let i = ff_instrument f in
     if in_symbol i = [] \<and> in_base i \<noteq> [] \<and> in_quote i \<noteq> []
     then in_base i @ ''/'' @ in_quote i else in_symbol i)"

definition BuildIntentForExternalFill ::
    "timestamp \<Rightarrow> ('a) batch_result_scheme \<Rightarrow> flow_fill \<Rightarrow> nat \<Rightarrow> exec_intent option" where
  "BuildIntentForExternalFill now b f i =
     (if \<not> IsExternalFill f then None
      else let symbol = fill_symbol f in
      if symbol = [] then None
      else let venue = pv_venue_id (fill_provenance f);
               id = MakeExternalFillIntentId (br_batch_id b) (ff_order_id f) symbol venue i
      in Some (empty_intent\<lparr>
        ei_meta := \<lparr>em_event_id = id, em_ts_event = Some now, em_source = ''matching'',
          em_correlation_id = br_batch_id b, em_partition_key = venue @ ''|'' @ symbol\<rparr>,
        ei_intent_id := id, ei_batch_id := br_batch_id b, ei_internal_order_id := ff_order_id f,
        ei_reason := ''external_liquidity'', ei_venue := venue,
        ei_instrument := PopulateInstrument symbol (ff_instrument f),
        ei_side := ff_side f, ei_target_qty := ff_executed_qty f,
        ei_limit_price := Some (dec_of (ff_price f)),
        ei_strategy := EXEC_STRATEGY_LIMIT, ei_urgency := URGENCY_HIGH, ei_tif := TIF_IOC,
        ei_client_order_id := id\<rparr>))"

definition BuildFromExternalFills ::
    "timestamp \<Rightarrow> ('a) batch_result_scheme \<Rightarrow> exec_intent list" where
  "BuildFromExternalFills now b =
     List.map_filter (\<lambda>(i, f). BuildIntentForExternalFill now b f i) (enumerate 0 (br_fills b))"

section \<open>Publication\<close>

record publish_result =
  pr_attempted :: nat
  pr_published :: nat
  pr_deduped :: nat
  pr_success :: bool
  pr_sent :: "exec_intent list"

definition publish_one ::
    "(exec_intent \<Rightarrow> bool) \<Rightarrow> publish_result \<times> string list \<Rightarrow> exec_intent
      \<Rightarrow> publish_result \<times> string list" where
  "publish_one produce st i =
     (let (r, seen) = st; id = ei_hedge_flow_id i in
      if id \<noteq> [] \<and> id \<in> set seen then (r\<lparr>pr_deduped := pr_deduped r + 1\<rparr>, seen)
      else let seen = (if id = [] then seen else id # seen) in
      if \<not> produce i then (r\<lparr>pr_success := False\<rparr>, seen)
      else (r\<lparr>pr_published := pr_published r + 1, pr_sent := pr_sent r @ [i]\<rparr>, seen))"

definition PublishAutoHedgeExecutionIntents ::
    "(exec_intent \<Rightarrow> bool) \<Rightarrow> exec_intent list \<Rightarrow> publish_result" where
  "PublishAutoHedgeExecutionIntents produce intents =
     fst (foldl (publish_one produce) (\<lparr>pr_attempted = length intents, pr_published = 0,
       pr_deduped = 0, pr_success = True, pr_sent = []\<rparr>, []) intents)"

section \<open>Configuration\<close>

definition SymbolToEnvSuffix :: "string \<Rightarrow> string" where
  "SymbolToEnvSuffix s = map (\<lambda>c. if c = CHR ''/'' \<or> c = CHR ''-'' then CHR ''_'' else c) s"

text \<open>The items between commas, the last one included even when it is empty.\<close>

fun split_commas :: "string \<Rightarrow> string list" where
  "split_commas [] = [[]]"
| "split_commas (c # cs) = (if c = CHR '','' then [] # split_commas cs
     else case split_commas cs of [] \<Rightarrow> [[c]] | x # xs \<Rightarrow> (c # x) # xs)"

definition ParseCsvList :: "string \<Rightarrow> string list" where
  "ParseCsvList raw = filter (\<lambda>s. s \<noteq> []) (map trim_ascii_space (split_commas raw))"

definition symbol_threshold :: "env \<Rightarrow> string \<Rightarrow> hedge_threshold" where
  "symbol_threshold e s =
     \<lparr>ht_threshold_qty = ParseDecimalString
        (env_get_string e (''HEDGE_TRIGGER_QTY_'' @ SymbolToEnvSuffix s) ''0''),
      ht_threshold_notional = ParseDecimalString
        (env_get_string e (''HEDGE_TRIGGER_NOTIONAL_'' @ SymbolToEnvSuffix s) ''0'')\<rparr>"

definition LoadHedgeTriggerConfig :: "env \<Rightarrow> hedge_trigger_config" where
  "LoadHedgeTriggerConfig e =
     (let dflt = \<lparr>ht_threshold_qty = ParseDecimalString (env_get_string e ''HEDGE_TRIGGER_QTY_DEFAULT'' ''0''),
                  ht_threshold_notional = ParseDecimalString (env_get_string e ''HEDGE_TRIGGER_NOTIONAL_DEFAULT'' ''0'')\<rparr>;
          csv = env_get_string e ''HEDGE_TRIGGER_SYMBOLS'' []
      in \<lparr>tc_default_thresholds = dflt,
          tc_per_symbol_thresholds = (if csv = [] then []
            else foldl (\<lambda>m s. if find m s = None then put s (symbol_threshold e s) m else m) []
              (ParseCsvList csv))\<rparr>)"

definition ParseUrgency :: "string \<Rightarrow> urgency" where
  "ParseUrgency s = (if s = ''LOW'' then URGENCY_LOW else if s = ''HIGH'' then URGENCY_HIGH
     else URGENCY_MEDIUM)"

definition ParseStrategy :: "string \<Rightarrow> strategy" where
  "ParseStrategy s = (if s = ''LIMIT'' then EXEC_STRATEGY_LIMIT
     else if s = ''TWAP'' then EXEC_STRATEGY_TWAP
     else if s = ''POST_ONLY'' then EXEC_STRATEGY_POST_ONLY else EXEC_STRATEGY_MARKET)"

definition ParseTif :: "string \<Rightarrow> tif" where
  "ParseTif s = (if s = ''GTC'' then TIF_GTC else if s = ''FOK'' then TIF_FOK else TIF_IOC)"

definition LoadHedgeExecutionIntentConfig :: "env \<Rightarrow> intent_config" where
  "LoadHedgeExecutionIntentConfig e =
     \<lparr>ic_urgency = ParseUrgency (env_get_string e ''HEDGE_INTENT_URGENCY'' ''MEDIUM''),
      ic_strategy = ParseStrategy (env_get_string e ''HEDGE_INTENT_STRATEGY'' ''MARKET''),
      ic_tif = ParseTif (env_get_string e ''HEDGE_INTENT_TIF'' ''IOC''),
      ic_timeout_ms = env_get_int e ''HEDGE_INTENT_TIMEOUT_MS'' 30000,
      ic_max_slippage_bps = env_get_int e ''HEDGE_INTENT_MAX_SLIPPAGE_BPS'' 50,
      ic_allowed_venues = ParseCsvList (env_get_string e ''HEDGE_INTENT_ALLOWED_VENUES'' [])\<rparr>"

end
