(* ===== verification/Matching_Batch.thy ===== *)
theory Matching_Batch
  imports Matching_Orders Matching_Hedge
begin

text \<open>
  One batch of the matching engine (\<open>app/run_batch_uc.cpp\<close>): snapshot of the active orders,
  the solver, the cap on the fills, the provenance of external fills, publication, hedging
  and the update of the active orders; then the fill events of the batch
  (\<open>domain/batch_result_to_fill_events.cpp\<close>).

  The clearing solver is an argument (it may return any batch, or throw: \<open>None\<close>), and so are
  the publication callback, the clock, the event id and the measured solve time. The map of
  active orders is an association list, so the snapshot has some order of its entries.
\<close>

section \<open>Messages and inputs\<close>

text \<open>The batch as the engine sends it: the part the ledger reads, its envelope and the time
  of the solver.\<close>

record batch_output = batch_result +
  bx_meta :: event_meta
  bx_solve_time_ms :: int

record side_curve =
  sc_q_grid :: "rat list"
  sc_p_of_q :: "rat list"

record venue_curve =
  vc_meta :: "event_meta option"
  vc_venue_id :: string
  vc_instrument :: instrument
  vc_snapshot_id :: string
  vc_curve_id :: string
  vc_bid_curve :: "side_curve option"
  vc_ask_curve :: "side_curve option"
  vc_mid_price :: "decimal option"

datatype run_status = KExecuted | KSkippedEmpty | KFailedSolver | KFailedPublish

record run_result =
  rr_status :: run_status
  rr_batch_id :: string
  rr_active_before :: nat
  rr_active_after :: nat
  rr_fills :: nat
  rr_solve_time_ms :: int
  rr_fill_deltas :: "order_fill_delta list"
  rr_position_snapshots :: "position_snapshot list"
  rr_hedge_trigger_decisions :: "hedge_trigger_decision list"
  rr_hedge_execution_intents :: "exec_intent list"
  rr_hedge_execution_intent_decisions :: "intent_build_decision list"
  rr_batch :: "batch_output option"

section \<open>Provenance\<close>

fun IsTerminalStatus :: "order_status \<Rightarrow> bool" where
  "IsTerminalStatus ORDER_STATUS_FILLED = True"
| "IsTerminalStatus ORDER_STATUS_CANCELED = True"
| "IsTerminalStatus ORDER_STATUS_REJECTED = True"
| "IsTerminalStatus ORDER_STATUS_EXPIRED = True"
| "IsTerminalStatus _ = False"

definition NormalizeLiquiditySource :: "string \<Rightarrow> string" where
  "NormalizeLiquiditySource s = (if s = [] then ''internal'' else s)"

definition CurveIdForAudit :: "venue_curve \<Rightarrow> string" where
  "CurveIdForAudit c =
     (if vc_curve_id c \<noteq> [] then vc_curve_id c
      else case vc_meta c of
        Some m \<Rightarrow> (if em_event_id m \<noteq> [] then em_event_id m else [])
      | None \<Rightarrow> [])"

definition ProvenanceKey :: "provenance \<Rightarrow> string" where
  "ProvenanceKey p = pv_liquidity_source p @ ''|'' @ pv_venue_id p @ ''|'' @
     pv_snapshot_id p @ ''|'' @ pv_curve_id p"

definition audit_fill ::
    "string list \<times> provenance list \<Rightarrow> flow_fill \<Rightarrow> string list \<times> provenance list" where
  "audit_fill st f =
     (let (seen, used) = st; src = NormalizeLiquiditySource (ff_liquidity_source f) in
      if src = ''internal'' then st
      else let p = fill_provenance f;
               p = (if pv_liquidity_source p = [] then p\<lparr>pv_liquidity_source := src\<rparr> else p)
      in if pv_venue_id p = [] \<and> pv_snapshot_id p = [] \<and> pv_curve_id p = [] then st
      else if ProvenanceKey p \<in> set seen then st
      else (ProvenanceKey p # seen, used @ [p]))"

definition PopulateBatchLiquidityAuditFromFills :: "batch_output \<Rightarrow> batch_output" where
  "PopulateBatchLiquidityAuditFromFills b =
     (if br_used_liquidity b \<noteq> [] then b
      else b\<lparr>br_used_liquidity := snd (foldl audit_fill ([], []) (br_fills b))\<rparr>)"

definition BackfillFillProvenance :: "venue_curve umap \<Rightarrow> flow_fill \<Rightarrow> flow_fill" where
  "BackfillFillProvenance ext f =
     (let src = NormalizeLiquiditySource (ff_liquidity_source f);
          p = fill_provenance f;
          p = (if pv_liquidity_source p = [] then p\<lparr>pv_liquidity_source := src\<rparr> else p);
          p = (if src = ''internal'' then p
               else case find ext (in_symbol (ff_instrument f)) of None \<Rightarrow> p
                 | Some c \<Rightarrow> p\<lparr>
                     pv_venue_id := (if pv_venue_id p = [] then vc_venue_id c else pv_venue_id p),
                     pv_snapshot_id := (if pv_snapshot_id p = [] then vc_snapshot_id c else pv_snapshot_id p),
                     pv_curve_id := (if pv_curve_id p = [] then CurveIdForAudit c else pv_curve_id p)\<rparr>)
      in f\<lparr>ff_liquidity_source := src, ff_provenance := Some p\<rparr>)"

section \<open>The cap on fills\<close>

definition emplace :: "string \<Rightarrow> 'v \<Rightarrow> 'v umap \<Rightarrow> 'v umap" where
  "emplace k v m = (case find m k of None \<Rightarrow> put k v m | Some _ \<Rightarrow> m)"

definition cap_remaining :: "book_order \<Rightarrow> decimal" where
  "cap_remaining b = (let r = dsub (bo_q_max b) (bo_filled_cum b)
     in if units r < 0 then dzero else r)"

definition remaining_by_order :: "book_order list \<Rightarrow> decimal umap" where
  "remaining_by_order snapshot =
     foldl (\<lambda>m b. emplace (bo_order_id b) (cap_remaining b) m) [] snapshot"

text \<open>One round of the loop: the fill, possibly cut, and the amount applied so far.\<close>

definition cap_fill ::
    "decimal umap \<Rightarrow> decimal umap \<Rightarrow> flow_fill \<Rightarrow> flow_fill \<times> decimal umap" where
  "cap_fill remaining applied f =
     (case find remaining (ff_order_id f) of
        None \<Rightarrow> (f, applied)
      | Some r \<Rightarrow>
         (let a = find_or dzero applied (ff_order_id f);
              qty = ff_executed_qty f;
              would = dadd a qty
          in if dcmp would r \<le> 0 then (f, put (ff_order_id f) would applied)
             else let allowed = dsub r a;
                      allowed = (if units allowed < 0 then dzero else allowed);
                      f = f\<lparr>ff_executed_qty := allowed\<rparr>;
                      f = (case ff_price f of None \<Rightarrow> f
                           | Some p \<Rightarrow> f\<lparr>ff_executed_notional := dmul allowed p\<rparr>)
                  in (f, put (ff_order_id f) r applied)))"

fun cap_fills :: "decimal umap \<Rightarrow> decimal umap \<Rightarrow> flow_fill list \<Rightarrow> flow_fill list" where
  "cap_fills remaining applied [] = []"
| "cap_fills remaining applied (f # fs) =
     (let (g, applied) = cap_fill remaining applied f in g # cap_fills remaining applied fs)"

definition CapFillsAgainstRemaining :: "book_order list \<Rightarrow> batch_output \<Rightarrow> batch_output" where
  "CapFillsAgainstRemaining snapshot b =
     b\<lparr>br_fills := cap_fills (remaining_by_order snapshot) [] (br_fills b)\<rparr>"

section \<open>After the batch\<close>

definition add_fill_qty :: "decimal umap \<Rightarrow> flow_fill \<Rightarrow> decimal umap" where
  "add_fill_qty m f = (case find m (ff_order_id f) of
       None \<Rightarrow> put (ff_order_id f) (ff_executed_qty f) m
     | Some q \<Rightarrow> put (ff_order_id f) (dadd q (ff_executed_qty f)) m)"

definition fill_deltas :: "flow_fill list \<Rightarrow> order_fill_delta list" where
  "fill_deltas fs = map (\<lambda>(k, q). \<lparr>fd_order_id = k, fd_executed_qty_delta = q\<rparr>)
     (foldl add_fill_qty [] fs)"

definition update_book_order :: "order_update \<Rightarrow> book_order \<Rightarrow> book_order" where
  "update_book_order u b =
     (let b = (case ou_filled_qty_total u of None \<Rightarrow> b | Some q \<Rightarrow> b\<lparr>bo_filled_cum := q\<rparr>);
          b = (case ou_status u of
                 ORDER_STATUS_PARTIALLY_FILLED \<Rightarrow> b\<lparr>bo_status := KPartiallyFilled\<rparr>
               | ORDER_STATUS_FILLED \<Rightarrow> b\<lparr>bo_status := KFilled\<rparr>
               | ORDER_STATUS_CANCELED \<Rightarrow> b\<lparr>bo_status := KCancelled\<rparr>
               | ORDER_STATUS_EXPIRED \<Rightarrow> b\<lparr>bo_status := KExpired\<rparr>
               | ORDER_STATUS_REJECTED \<Rightarrow> b\<lparr>bo_status := KLiquidated\<rparr>
               | _ \<Rightarrow> b)
      in (case ou_updated_at u of None \<Rightarrow> b | Some ts \<Rightarrow> b\<lparr>bo_updated_at := ts_to_tp ts\<rparr>))"

definition apply_book_update :: "book_order umap \<Rightarrow> order_update \<Rightarrow> book_order umap" where
  "apply_book_update active u =
     (case find active (ou_order_id u) of None \<Rightarrow> active
      | Some b \<Rightarrow> if IsTerminalStatus (ou_status u) then erase (ou_order_id u) active
          else put (ou_order_id u) (update_book_order u b) active)"

definition drop_exhausted :: "book_order umap \<Rightarrow> book_order umap" where
  "drop_exhausted active =
     filter (\<lambda>(k, b). \<not> dcmp (remaining_qty b) (mk_dec 1 6) \<le> 0) active"

section \<open>The batch\<close>

record run_ports =
  rp_solve :: "book_order list \<Rightarrow> decimal umap \<Rightarrow> venue_curve umap \<Rightarrow> batch_output option"
  rp_publish :: "batch_output \<Rightarrow> bool"
  rp_hedge_triggers :: hedge_trigger_config
  rp_hedge_intents :: intent_config
  rp_now :: timestamp
  rp_event_id :: string
  rp_solve_elapsed_ms :: int

text \<open>The fields the use case writes into the batch the solver returned.\<close>

definition complete_batch ::
    "run_ports \<Rightarrow> string \<Rightarrow> venue_curve umap \<Rightarrow> book_order list \<Rightarrow> batch_output \<Rightarrow> batch_output" where
  "complete_batch p batch_id ext snapshot b =
     (let b = CapFillsAgainstRemaining snapshot b;
          b = b\<lparr>bx_solve_time_ms := min (rp_solve_elapsed_ms p) 4294967295,
                br_batch_id := batch_id, br_timestamp := rp_now p,
                bx_meta := (bx_meta b)\<lparr>em_event_id := rp_event_id p, em_ts_event := Some (rp_now p),
                  em_source := ''matching'', em_correlation_id := batch_id,
                  em_partition_key := batch_id\<rparr>,
                br_num_active_orders := (if br_num_active_orders b = 0
                  then length snapshot mod 4294967296 else br_num_active_orders b),
                br_fills := map (BackfillFillProvenance ext) (br_fills b)\<rparr>
      in PopulateBatchLiquidityAuditFromFills b)"

definition RunBatch_Execute ::
    "run_ports \<Rightarrow> string \<Rightarrow> book_order umap \<Rightarrow> decimal umap \<Rightarrow> venue_curve umap
      \<Rightarrow> run_result \<times> book_order umap" where
  "RunBatch_Execute p batch_id active prices ext =
     (let res = \<lparr>rr_status = KSkippedEmpty, rr_batch_id = batch_id,
            rr_active_before = length active, rr_active_after = length active, rr_fills = 0,
            rr_solve_time_ms = 0, rr_fill_deltas = [], rr_position_snapshots = [],
            rr_hedge_trigger_decisions = [], rr_hedge_execution_intents = [],
            rr_hedge_execution_intent_decisions = [], rr_batch = None\<rparr>;
          snapshot = map snd active
      in if active = [] then (res, active)
      else case rp_solve p snapshot prices ext of
        None \<Rightarrow> (res\<lparr>rr_status := KFailedSolver\<rparr>, active)
      | Some b \<Rightarrow>
        (let b = complete_batch p batch_id ext snapshot b;
             res = res\<lparr>rr_solve_time_ms := bx_solve_time_ms b, rr_batch := Some b\<rparr>
         in if \<not> rp_publish p b
            then (res\<lparr>rr_status := KFailedPublish, rr_fills := length (br_fills b)\<rparr>, active)
            else
              (let snaps = CalculateSnapshots b;
                   triggers = EvaluateTriggers (rp_hedge_triggers p) snaps;
                   (intents, builds) =
                     BuildFromHedgeTriggerDecisions (rp_now p) (rp_hedge_intents p) triggers;
                   active' = drop_exhausted (foldl apply_book_update active (br_order_updates b))
               in (res\<lparr>rr_status := KExecuted, rr_position_snapshots := snaps,
                     rr_hedge_trigger_decisions := triggers,
                     rr_hedge_execution_intents := intents,
                     rr_hedge_execution_intent_decisions := builds,
                     rr_fill_deltas := fill_deltas (br_fills b),
                     rr_active_after := length active', rr_fills := length (br_fills b)\<rparr>,
                   active'))))"

section \<open>Fill events\<close>

record fill_event =
  fv_order_id :: string
  fv_batch_id :: string
  fv_liquidity_source :: string
  fv_provenance :: provenance
  fv_asset_legs :: "instrument list"
  fv_exec_qty :: decimal
  fv_exec_price :: decimal
  fv_fees :: "fee list"

definition NormalizeProvenance :: "flow_fill \<Rightarrow> provenance" where
  "NormalizeProvenance f =
     (let p = fill_provenance f
      in if pv_liquidity_source p = []
         then p\<lparr>pv_liquidity_source := (if ff_liquidity_source f = [] then ''internal''
                                        else ff_liquidity_source f)\<rparr>
         else p)"

definition fee_of :: "fee option \<Rightarrow> fee" where
  "fee_of f = (case f of None \<Rightarrow> \<lparr>fe_cost = None\<rparr> | Some x \<Rightarrow> x)"

text \<open>While the fills are summed, the field of the price holds the notional.\<close>

definition add_fill_event :: "string \<Rightarrow> fill_event umap \<Rightarrow> flow_fill \<Rightarrow> fill_event umap" where
  "add_fill_event batch_id events f =
     (let p = NormalizeProvenance f;
          key = ff_order_id f @ ''|'' @ ProvenanceKey p;
          e = find_or \<lparr>fv_order_id = ff_order_id f, fv_batch_id = batch_id,
                fv_liquidity_source = pv_liquidity_source p, fv_provenance = p,
                fv_asset_legs = [], fv_exec_qty = dzero, fv_exec_price = dzero,
                fv_fees = []\<rparr> events key
      in put key (e\<lparr>fv_asset_legs := fv_asset_legs e @ [ff_instrument f],
             fv_exec_qty := dadd (fv_exec_qty e) (ff_executed_qty f),
             fv_exec_price := dadd (fv_exec_price e) (ff_executed_notional f),
             fv_fees := fv_fees e @ [fee_of (ff_fee f)]\<rparr>) events)"

definition vwap_event :: "fill_event \<Rightarrow> fill_event" where
  "vwap_event e = (if units (fv_exec_qty e) \<noteq> 0
     then e\<lparr>fv_exec_price := ddiv_nz (fv_exec_price e) (fv_exec_qty e) 8\<rparr> else e)"

definition BatchResultToFillEvents :: "('a) batch_result_scheme \<Rightarrow> fill_event list" where
  "BatchResultToFillEvents b =
     map (vwap_event \<circ> snd) (foldl (add_fill_event (br_batch_id b)) [] (br_fills b))"

end
