(* ===== verification/Matching_Fills.thy ===== *)
theory Matching_Fills
  imports Matching_Batch
begin

text \<open>
  What a batch does to the volume of an order: the cap on the fills, the deltas written to
  the table of orders, the orders that stay active. The quantities are amounts on a common
  decimal grid (at most \<open>s\<close> fractional digits, at most \<open>m\<close> units of it), with twice the
  largest amount within 64 bits.
\<close>

section \<open>Amounts\<close>

definition amount :: "nat \<Rightarrow> int \<Rightarrow> decimal \<Rightarrow> bool" where
  "amount s m d \<longleftrightarrow> grid s m d \<and> 0 \<le> dval d \<and> 2 * m \<le> max_units"

named_theorems amounts \<open>values and bounds of operations on amounts\<close>

lemma amount_grid: "amount s m d \<Longrightarrow> grid s m d"
  by (simp add: amount_def)

lemma amount_nonneg: "amount s m d \<Longrightarrow> 0 \<le> dval d"
  by (simp add: amount_def)

lemma amount_bound: "amount s m d \<Longrightarrow> 0 \<le> m \<and> s \<le> 18 \<and> m \<le> max_units \<and> m + m \<le> max_units"
  using grid_nonneg[of s m d] grid_le_18[of s m d] by (auto simp: amount_def)

lemma grid_shrink:
  assumes "grid s n d" "grid s m e" "\<bar>dval d\<bar> \<le> \<bar>dval e\<bar>"
  shows "grid s m d"
proof (rule grid_of_value)
  have "\<bar>dval d\<bar> * 10 ^ s \<le> \<bar>dval e\<bar> * 10 ^ s" using assms(3) by (intro mult_right_mono) auto
  also have "\<bar>dval e\<bar> * 10 ^ s = of_int \<bar>at_scale s e\<bar>" unfolding dval_grid[OF assms(2)] by simp
  also have "\<dots> \<le> of_int m" using assms(2) by (simp only: of_int_le_iff) (simp add: grid_def)
  finally show "\<bar>dval d * 10 ^ s\<bar> \<le> of_int m" by (simp add: abs_mult)
qed (use assms(1) in \<open>auto simp: grid_def\<close>)

lemma amount_shrink: "grid s n d \<Longrightarrow> amount s m e \<Longrightarrow> 0 \<le> dval d \<Longrightarrow> dval d \<le> dval e \<Longrightarrow> amount s m d"
  unfolding amount_def using grid_shrink[of s n d m e] by auto

lemma amount_dzero [simp]: "amount s m dzero \<longleftrightarrow> 0 \<le> m \<and> s \<le> 18 \<and> 2 * m \<le> max_units"
  by (simp add: amount_def)

lemma amount_wf [amounts]: "amount s m d \<Longrightarrow> wf_dec d"
  using amount_bound grid_wf amount_grid by blast

text \<open>Comparison with zero of some scale, and with each other.\<close>

lemma dcmp_zero_scale:
  assumes "wf_dec d"
  shows "dcmp d (mk_dec 0 (scale d)) < 0 \<longleftrightarrow> dval d < 0"
    "dcmp d (mk_dec 0 (scale d)) \<le> 0 \<longleftrightarrow> dval d \<le> 0"
proof -
  have z: "wf_dec (mk_dec 0 (scale d))" using assms by (simp add: wf_dec_def in_i64_def)
  show "dcmp d (mk_dec 0 (scale d)) < 0 \<longleftrightarrow> dval d < 0"
    "dcmp d (mk_dec 0 (scale d)) \<le> 0 \<longleftrightarrow> dval d \<le> 0"
    using dcmp_iffs[OF assms z] by auto
qed

lemma units_sign: "units d < 0 \<longleftrightarrow> dval d < 0" "units d \<le> 0 \<longleftrightarrow> dval d \<le> 0" "0 < units d \<longleftrightarrow> 0 < dval d"
proof -
  have "0 < (10::rat) ^ nat (scale d)" by simp
  then show n: "units d < 0 \<longleftrightarrow> dval d < 0" and p: "0 < units d \<longleftrightarrow> 0 < dval d"
    unfolding dval_def by (simp_all add: divide_less_0_iff zero_less_divide_iff)
  show "units d \<le> 0 \<longleftrightarrow> dval d \<le> 0" using p by linarith
qed

lemma amount_add [amounts]:
  assumes "amount s m a" "amount s m b"
  shows "dval (dadd a b) = dval a + dval b" "grid s (m + m) (dadd a b)"
  using grid_add[OF amount_grid[OF assms(1)] amount_grid[OF assms(2)]] amount_bound[OF assms(1)] by auto

lemma amount_sub [amounts]:
  assumes "amount s m a" "amount s m b"
  shows "dval (dsub a b) = dval a - dval b" "grid s (m + m) (dsub a b)"
  using grid_sub[OF amount_grid[OF assms(1)] amount_grid[OF assms(2)]] amount_bound[OF assms(1)] by auto

lemma amount_cmp [amounts]:
  assumes "amount s m a" "amount s m b"
  shows "dcmp a b \<le> 0 \<longleftrightarrow> dval a \<le> dval b" "0 \<le> dcmp a b \<longleftrightarrow> dval b \<le> dval a"
    "0 < dcmp a b \<longleftrightarrow> dval b < dval a" "dcmp a b < 0 \<longleftrightarrow> dval a < dval b"
  using grid_cmp[OF amount_grid[OF assms(1)] amount_grid[OF assms(2)]] amount_bound[OF assms(1)] by auto

lemma amount_sum_cmp [amounts]:
  assumes "amount s m a" "amount s m b" "amount s m r"
  shows "dcmp (dadd a b) r \<le> 0 \<longleftrightarrow> dval a + dval b \<le> dval r"
  using grid_cmp(3)[OF amount_add(2)[OF assms(1,2)] amount_grid[OF assms(3)]] amount_bound[OF assms(1)]
  by (simp add: amount_add(1)[OF assms(1,2)])

text \<open>The clamped difference is the positive part of the difference.\<close>

lemma clamp_sub:
  assumes "amount s m a" "amount s m b"
  shows "dval (clamp_neg (dsub a b)) = max 0 (dval a - dval b)"
    and "amount s m (clamp_neg (dsub a b))"
proof -
  note g = amount_sub(2)[OF assms] and v = amount_sub(1)[OF assms]
  have sc: "0 \<le> scale (dsub a b)" "scale (dsub a b) \<le> int s" using g by (auto simp: grid_def)
  have z: "amount s m (mk_dec 0 (scale (dsub a b)))"
    using sc amount_bound[OF assms(1)] by (simp add: amount_def grid_def at_scale_def)
  have "wf_dec (dsub a b)" using g amount_bound[OF assms(1)] by (blast intro: grid_wf)
  note c = dcmp_zero_scale(1)[OF this]
  show "dval (clamp_neg (dsub a b)) = max 0 (dval a - dval b)"
    by (auto simp: clamp_neg_def c v)
  show "amount s m (clamp_neg (dsub a b))"
  proof (cases "dval a < dval b")
    case True
    then show ?thesis using z by (simp add: clamp_neg_def c v)
  next
    case False
    then have "amount s m (dsub a b)"
      using assms v amount_nonneg[OF assms(2)] by (intro amount_shrink[OF g, of m a]) auto
    with False show ?thesis by (simp add: clamp_neg_def c v)
  qed
qed

section \<open>Executed volume of an order\<close>

definition executed :: "string \<Rightarrow> flow_fill list \<Rightarrow> rat" where
  "executed k fs = (\<Sum>f \<leftarrow> fs. if ff_order_id f = k then dval (ff_executed_qty f) else 0)"

lemma executed_simps [simp]:
  "executed k [] = 0"
  "executed k (f # fs) = (if ff_order_id f = k then dval (ff_executed_qty f) else 0) + executed k fs"
  by (simp_all add: executed_def)

lemma executed_nonneg:
  "\<forall>f \<in> set fs. 0 \<le> dval (ff_executed_qty f) \<Longrightarrow> 0 \<le> executed k fs"
  by (induction fs) auto

definition order_amounts :: "nat \<Rightarrow> int \<Rightarrow> book_order \<Rightarrow> bool" where
  "order_amounts s m b \<longleftrightarrow> amount s m (bo_q_max b) \<and> amount s m (bo_filled_cum b)"

definition fill_amounts :: "nat \<Rightarrow> int \<Rightarrow> flow_fill list \<Rightarrow> bool" where
  "fill_amounts s m fs \<longleftrightarrow> (\<forall>f \<in> set fs. amount s m (ff_executed_qty f))"

lemma remaining_value:
  "order_amounts s m b \<Longrightarrow> dval (remaining_qty b) = max 0 (dval (bo_q_max b) - dval (bo_filled_cum b))"
  unfolding order_amounts_def remaining_qty_def using clamp_sub(1) by blast

lemma cap_remaining_value:
  assumes "order_amounts s m b"
  shows "dval (cap_remaining b) = dval (remaining_qty b)" "amount s m (cap_remaining b)"
proof -
  have am: "amount s m (bo_q_max b)" "amount s m (bo_filled_cum b)"
    using assms by (auto simp: order_amounts_def)
  note g = amount_sub(2)[OF am] and v = amount_sub(1)[OF am]
  show "dval (cap_remaining b) = dval (remaining_qty b)"
    unfolding remaining_value[OF assms] cap_remaining_def Let_def units_sign by (auto simp: v)
  show "amount s m (cap_remaining b)"
  proof (cases "dval (bo_q_max b) < dval (bo_filled_cum b)")
    case True
    then show ?thesis using amount_bound[OF am(1)] by (simp add: cap_remaining_def units_sign v)
  next
    case False
    then have "amount s m (dsub (bo_q_max b) (bo_filled_cum b))"
      using am amount_nonneg[OF am(2)] by (intro amount_shrink[OF g, of m "bo_q_max b"]) (auto simp: v)
    with False show ?thesis by (simp add: cap_remaining_def units_sign v)
  qed
qed

lemma find_emplaced:
  "find (foldl (\<lambda>m b. emplace (bo_order_id b) (cap_remaining b) m) m0 bs) k =
     (case find m0 k of Some r \<Rightarrow> Some r
      | None \<Rightarrow> map_option cap_remaining (List.find (\<lambda>b. bo_order_id b = k) bs))"
  by (induction bs arbitrary: m0) (auto simp: emplace_def split: option.splits)

lemma find_remaining_by_order:
  "find (remaining_by_order bs) k = map_option cap_remaining (List.find (\<lambda>b. bo_order_id b = k) bs)"
  by (simp add: remaining_by_order_def find_emplaced)

lemma find_by_id:
  "distinct (map bo_order_id bs) \<Longrightarrow> b \<in> set bs \<Longrightarrow> List.find (\<lambda>x. bo_order_id x = bo_order_id b) bs = Some b"
  by (induction bs) auto

section \<open>The loop of the cap\<close>

definition caps_ok :: "nat \<Rightarrow> int \<Rightarrow> decimal umap \<Rightarrow> decimal umap \<Rightarrow> bool" where
  "caps_ok s m remaining applied \<longleftrightarrow> (\<forall>k r. find remaining k = Some r \<longrightarrow>
     amount s m r \<and> amount s m (find_or dzero applied k) \<and> dval (find_or dzero applied k) \<le> dval r)"

lemma cap_fill_step:
  assumes "caps_ok s m remaining applied" "amount s m (ff_executed_qty f)"
    and "cap_fill remaining applied f = (g, applied')"
  shows "ff_order_id g = ff_order_id f" "amount s m (ff_executed_qty g)"
    "caps_ok s m remaining applied'"
    "\<forall>r. find remaining (ff_order_id f) = Some r \<longrightarrow>
       dval (ff_executed_qty g) = min (dval (ff_executed_qty f)) (dval r - dval (find_or dzero applied (ff_order_id f)))
       \<and> dval (find_or dzero applied' (ff_order_id f)) = dval (find_or dzero applied (ff_order_id f)) + dval (ff_executed_qty g)
       \<and> (dval (find_or dzero applied (ff_order_id f)) + dval (ff_executed_qty f) \<le> dval r \<longrightarrow> g = f)"
    "\<forall>k. k \<noteq> ff_order_id f \<longrightarrow> find_or dzero applied' k = find_or dzero applied k"
    "find remaining (ff_order_id f) = None \<Longrightarrow> g = f"
    "g \<noteq> f \<longrightarrow> (\<forall>p. ff_price f = Some p \<longrightarrow> ff_executed_notional g = dmul (ff_executed_qty g) p)"
proof -
  let ?k = "ff_order_id f" and ?q = "ff_executed_qty f"
  let ?a = "find_or dzero applied (ff_order_id f)"
  consider (unknown) "find remaining ?k = None" | (known) r where "find remaining ?k = Some r"
    by (cases "find remaining ?k") auto
  then have "ff_order_id g = ?k \<and> amount s m (ff_executed_qty g) \<and> caps_ok s m remaining applied'
    \<and> (\<forall>r. find remaining ?k = Some r \<longrightarrow>
        dval (ff_executed_qty g) = min (dval ?q) (dval r - dval ?a)
        \<and> dval (find_or dzero applied' ?k) = dval ?a + dval (ff_executed_qty g)
        \<and> (dval ?a + dval ?q \<le> dval r \<longrightarrow> g = f))
    \<and> (\<forall>k. k \<noteq> ?k \<longrightarrow> find_or dzero applied' k = find_or dzero applied k)
    \<and> (find remaining ?k = None \<longrightarrow> g = f)
    \<and> (g \<noteq> f \<longrightarrow> (\<forall>p. ff_price f = Some p \<longrightarrow> ff_executed_notional g = dmul (ff_executed_qty g) p))"
  proof cases
    case unknown
    with assms show ?thesis by (auto simp: cap_fill_def)
  next
    case known
    with assms(1) have a: "amount s m r" "amount s m ?a" "dval ?a \<le> dval r" by (auto simp: caps_ok_def)
    note le = amount_sum_cmp[OF a(2) assms(2) a(1)] and nn = amount_nonneg[OF a(2)]
      amount_nonneg[OF assms(2)]
    show ?thesis
    proof (cases "dval ?a + dval ?q \<le> dval r")
      case True
      then have e: "g = f" "applied' = put ?k (dadd ?a ?q) applied"
        using assms(3) known le by (auto simp: cap_fill_def Let_def)
      have v: "dval (dadd ?a ?q) = dval ?a + dval ?q" by (rule amount_add(1)[OF a(2) assms(2)])
      have "amount s m (dadd ?a ?q)"
        using True nn v by (intro amount_shrink[OF amount_add(2)[OF a(2) assms(2)] a(1)]) auto
      then show ?thesis using True e v assms(1,2) known by (auto simp: caps_ok_def)
    next
      case False
      define al where "al = dsub r ?a"
      have v: "dval al = dval r - dval ?a" unfolding al_def by (rule amount_sub(1)[OF a(1,2)])
      then have nu: "\<not> units al < 0" using a(3) by (simp add: units_sign)
      have e: "ff_executed_qty g = al" "ff_order_id g = ?k" "applied' = put ?k r applied"
        "\<forall>p. ff_price f = Some p \<longrightarrow> ff_executed_notional g = dmul al p"
        using assms(3) known le False nu by (auto simp: cap_fill_def Let_def al_def[symmetric] split: option.splits)
      have "amount s m al"
        using nn v a(3) unfolding al_def
        by (intro amount_shrink[OF amount_sub(2)[OF a(1,2)] a(1)]) auto
      then show ?thesis using False e v assms(1,2) a known by (auto simp: caps_ok_def)
    qed
  qed
  then show "ff_order_id g = ?k" "amount s m (ff_executed_qty g)" "caps_ok s m remaining applied'"
    "\<forall>r. find remaining ?k = Some r \<longrightarrow>
        dval (ff_executed_qty g) = min (dval ?q) (dval r - dval ?a)
        \<and> dval (find_or dzero applied' ?k) = dval ?a + dval (ff_executed_qty g)
        \<and> (dval ?a + dval ?q \<le> dval r \<longrightarrow> g = f)"
    "\<forall>k. k \<noteq> ?k \<longrightarrow> find_or dzero applied' k = find_or dzero applied k"
    "find remaining ?k = None \<Longrightarrow> g = f"
    "g \<noteq> f \<longrightarrow> (\<forall>p. ff_price f = Some p \<longrightarrow> ff_executed_notional g = dmul (ff_executed_qty g) p)"
    by blast+
qed

text \<open>A fill is passed on, or cut with its notional recomputed; nothing else of it changes.\<close>

definition passed_or_cut :: "flow_fill \<Rightarrow> flow_fill \<Rightarrow> bool" where
  "passed_or_cut f g \<longleftrightarrow> ff_order_id g = ff_order_id f \<and> dval (ff_executed_qty g) \<le> dval (ff_executed_qty f)
     \<and> 0 \<le> dval (ff_executed_qty g)
     \<and> (g \<noteq> f \<longrightarrow> (\<forall>p. ff_price f = Some p \<longrightarrow> ff_executed_notional g = dmul (ff_executed_qty g) p))"

lemma cap_fills_props:
  assumes "caps_ok s m remaining applied" "fill_amounts s m fs"
  shows "fill_amounts s m (cap_fills remaining applied fs)
    \<and> list_all2 passed_or_cut fs (cap_fills remaining applied fs)
    \<and> (\<forall>k r. find remaining k = Some r \<longrightarrow>
         executed k (cap_fills remaining applied fs)
           = min (executed k fs) (dval r - dval (find_or dzero applied k))
         \<and> (dval (find_or dzero applied k) + executed k fs \<le> dval r \<longrightarrow>
             filter (\<lambda>f. ff_order_id f = k) (cap_fills remaining applied fs)
               = filter (\<lambda>f. ff_order_id f = k) fs))"
  using assms
proof (induction fs arbitrary: applied)
  case Nil
  then show ?case by (auto simp: fill_amounts_def caps_ok_def)
next
  case (Cons f fs)
  obtain g applied' where g: "cap_fill remaining applied f = (g, applied')" by fastforce
  have q: "amount s m (ff_executed_qty f)" and fs: "fill_amounts s m fs"
    using Cons.prems(2) by (auto simp: fill_amounts_def)
  have nn: "0 \<le> executed k fs" for k
    using fs by (intro executed_nonneg) (auto simp: fill_amounts_def intro: amount_nonneg)
  note st = cap_fill_step[OF Cons.prems(1) q g]
  note IH = Cons.IH[OF st(3) fs]
  have cs: "cap_fills remaining applied (f # fs) = g # cap_fills remaining applied' fs"
    using g by simp
  have "dval (ff_executed_qty g) \<le> dval (ff_executed_qty f)"
    using st(4,6) by (cases "find remaining (ff_order_id f)") auto
  then have pc: "passed_or_cut f g"
    using st(1,7) amount_nonneg[OF st(2)] by (simp add: passed_or_cut_def)
  have third: "executed k (g # cap_fills remaining applied' fs)
           = min (executed k (f # fs)) (dval r - dval (find_or dzero applied k))
         \<and> (dval (find_or dzero applied k) + executed k (f # fs) \<le> dval r \<longrightarrow>
             filter (\<lambda>f. ff_order_id f = k) (g # cap_fills remaining applied' fs)
               = filter (\<lambda>f. ff_order_id f = k) (f # fs))"
    if r: "find remaining k = Some r" for k r
  proof (cases "ff_order_id f = k")
    case False
    note e = st(5)[rule_format, OF False[symmetric]]
    show ?thesis using IH[THEN conjunct2, THEN conjunct2, rule_format, OF r] False
      by (simp add: e st(1))
  next
    case True
    then have v: "dval (ff_executed_qty g) = min (dval (ff_executed_qty f)) (dval r - dval (find_or dzero applied k))"
      "dval (find_or dzero applied' k) = dval (find_or dzero applied k) + dval (ff_executed_qty g)"
      "dval (find_or dzero applied k) + dval (ff_executed_qty f) \<le> dval r \<longrightarrow> g = f"
      using st(4) r by auto
    have i: "executed k (cap_fills remaining applied' fs)
        = min (executed k fs) (dval r - dval (find_or dzero applied' k))"
      "dval (find_or dzero applied' k) + executed k fs \<le> dval r \<Longrightarrow>
        filter (\<lambda>f. ff_order_id f = k) (cap_fills remaining applied' fs)
          = filter (\<lambda>f. ff_order_id f = k) fs"
      using IH[THEN conjunct2, THEN conjunct2, rule_format, OF r] by blast+
    have "executed k (g # cap_fills remaining applied' fs)
           = min (executed k (f # fs)) (dval r - dval (find_or dzero applied k))"
      using i(1) v(1,2) st(1) True nn[of k] by (auto simp: min_def)
    moreover have "filter (\<lambda>f. ff_order_id f = k) (g # cap_fills remaining applied' fs)
        = filter (\<lambda>f. ff_order_id f = k) (f # fs)"
      if le: "dval (find_or dzero applied k) + executed k (f # fs) \<le> dval r"
    proof -
      have "dval (find_or dzero applied k) + dval (ff_executed_qty f) \<le> dval r"
        using le True nn[of k] by simp
      then have "g = f" using v(3) by blast
      then show ?thesis using i(2) v(2) le True by simp
    qed
    ultimately show ?thesis by blast
  qed
  have "fill_amounts s m (g # cap_fills remaining applied' fs)"
    using IH st(2) by (simp add: fill_amounts_def)
  moreover have "list_all2 passed_or_cut (f # fs) (g # cap_fills remaining applied' fs)"
    using IH pc by simp
  ultimately show ?case unfolding cs using third by blast
qed

section \<open>Fill arithmetic\<close>

lemma fill_update_value:
  assumes "grid s m delta" "amount s m q_max" "amount s m previous"
  shows "ComputeFilledVolumeUpdate q_max previous delta = None \<longleftrightarrow> dval delta < 0"
    and "ComputeFilledVolumeUpdate q_max previous delta = Some (c, st) \<Longrightarrow>
      dval c = min (dval previous + dval delta) (dval q_max) \<and> amount s m c
      \<and> st = (if dval q_max \<le> dval previous + dval delta then KFilled else KPartiallyFilled)"
proof -
  have "wf_dec delta" using assms(1) amount_bound[OF assms(2)] by (blast intro: grid_wf)
  note z = dcmp_zero_scale(1)[OF this]
  show none: "ComputeFilledVolumeUpdate q_max previous delta = None \<longleftrightarrow> dval delta < 0"
    by (simp add: ComputeFilledVolumeUpdate_def z Let_def)
  assume run: "ComputeFilledVolumeUpdate q_max previous delta = Some (c, st)"
  then have nn: "0 \<le> dval delta" using none by (cases "dval delta < 0") auto
  then have d: "amount s m delta" using assms(1,2) by (simp add: amount_def)
  note v = amount_add[OF assms(3) d]
  note mn = dmin_grid[OF v(2) amount_grid[OF assms(2)]]
  have b: "m + m \<le> max_units" "m \<le> max_units" using amount_bound[OF assms(2)] by auto
  have c: "c = dmin (dadd previous delta) q_max" "st = (if 0 \<le> dcmp c q_max then KFilled else KPartiallyFilled)"
    using run by (auto simp: ComputeFilledVolumeUpdate_def z Let_def split: if_splits)
  have cv: "dval c = min (dval previous + dval delta) (dval q_max)" using mn(1)[OF b] c(1) v(1) by simp
  moreover have "amount s m c"
    using mn(2)[OF b] cv nn amount_nonneg[OF assms(2)] amount_nonneg[OF assms(3)] c(1)
    by (intro amount_shrink[of s "max (m + m) m" c m q_max]) (auto simp: assms(2))
  moreover from this have "0 \<le> dcmp c q_max \<longleftrightarrow> dval q_max \<le> dval c" by (rule amount_cmp(2)[OF _ assms(2)])
  ultimately show "dval c = min (dval previous + dval delta) (dval q_max) \<and> amount s m c
      \<and> st = (if dval q_max \<le> dval previous + dval delta then KFilled else KPartiallyFilled)"
    using c(2) by auto
qed

text \<open>Cumulative fill. A negative fill is the exception of the code and nothing else is; any
  other fill adds exactly, is cut at the size of the order, and makes the order filled
  precisely when nothing is left of it.
\<close>

theorem fill_update_outcome:
  assumes "grid s m delta" "amount s m q_max" "amount s m previous"
  shows "case ComputeFilledVolumeUpdate q_max previous delta of
      None \<Rightarrow> dval delta < 0
    | Some (c, st) \<Rightarrow> 0 \<le> dval delta \<and> dval c = min (dval previous + dval delta) (dval q_max)
        \<and> dval c \<le> dval q_max \<and> amount s m c
        \<and> st = (if dval c = dval q_max then KFilled else KPartiallyFilled)"
proof (cases "ComputeFilledVolumeUpdate q_max previous delta")
  case None
  then show ?thesis using fill_update_value(1)[OF assms] by simp
next
  case (Some x)
  obtain c st where x: "x = (c, st)" by fastforce
  show ?thesis
    using Some x fill_update_value(1)[OF assms] fill_update_value(2)[OF assms, of c st] by auto
qed

theorem fill_update_outcome_witness:
  "ComputeFilledVolumeUpdate (mk_dec 10 0) (mk_dec 75 1) (mk_dec 300 2) = Some (mk_dec 10 0, KFilled)
   \<and> dval (mk_dec 10 0) = min (dval (mk_dec 75 1) + dval (mk_dec 300 2)) (dval (mk_dec 10 0))"
proof -
  have run: "ComputeFilledVolumeUpdate (mk_dec 10 0) (mk_dec 75 1) (mk_dec 300 2) = Some (mk_dec 10 0, KFilled)"
    by code_simp
  show ?thesis
    using fill_update_outcome[of 2 1000 "mk_dec 300 2" "mk_dec 10 0" "mk_dec 75 1"] run
    by (simp add: amount_def grid_def at_scale_def)
qed

section \<open>The cap of a batch\<close>

lemma caps_ok_start:
  assumes "\<forall>b \<in> set snapshot. order_amounts s m b"
  shows "caps_ok s m (remaining_by_order snapshot) []"
  unfolding caps_ok_def find_remaining_by_order
proof (intro allI impI)
  fix k r assume "map_option cap_remaining (List.find (\<lambda>b. bo_order_id b = k) snapshot) = Some r"
  then obtain b where b: "List.find (\<lambda>b. bo_order_id b = k) snapshot = Some b" "r = cap_remaining b" by auto
  from b(1) have "b \<in> set snapshot" by (auto simp: find_Some_iff)
  then have ok: "order_amounts s m b" using assms by blast
  note c = cap_remaining_value[OF ok]
  show "amount s m r \<and> amount s m (find_or dzero [] k) \<and> dval (find_or dzero [] k) \<le> dval r"
    using c b(2) amount_bound[OF c(2)] amount_nonneg[OF c(2)] by simp
qed

lemma capped_fills:
  assumes "b \<in> set snapshot" "distinct (map bo_order_id snapshot)"
    and "\<forall>b \<in> set snapshot. order_amounts s m b" "fill_amounts s m (br_fills out)"
  shows "executed (bo_order_id b) (br_fills (CapFillsAgainstRemaining snapshot out))
      = min (executed (bo_order_id b) (br_fills out)) (dval (remaining_qty b))
    \<and> fill_amounts s m (br_fills (CapFillsAgainstRemaining snapshot out))
    \<and> list_all2 passed_or_cut (br_fills out) (br_fills (CapFillsAgainstRemaining snapshot out))
    \<and> (executed (bo_order_id b) (br_fills out) \<le> dval (remaining_qty b) \<longrightarrow>
        filter (\<lambda>f. ff_order_id f = bo_order_id b) (br_fills (CapFillsAgainstRemaining snapshot out))
          = filter (\<lambda>f. ff_order_id f = bo_order_id b) (br_fills out))"
proof -
  have r: "find (remaining_by_order snapshot) (bo_order_id b) = Some (cap_remaining b)"
    by (simp add: find_remaining_by_order find_by_id[OF assms(2,1)])
  have v: "dval (cap_remaining b) = dval (remaining_qty b)"
    using assms(1,3) by (intro cap_remaining_value(1)) blast
  note p = cap_fills_props[OF caps_ok_start[OF assms(3)] assms(4)]
  have br: "br_fills (CapFillsAgainstRemaining snapshot out)
      = cap_fills (remaining_by_order snapshot) [] (br_fills out)"
    by (simp add: CapFillsAgainstRemaining_def)
  have z: "dval (find_or dzero [] (bo_order_id b)) = 0" by simp
  show ?thesis
    unfolding br using p[THEN conjunct1] p[THEN conjunct2, THEN conjunct1]
      p[THEN conjunct2, THEN conjunct2, rule_format, OF r]
    unfolding z v by simp
qed

text \<open>The cap on fills. Whatever the solver returns, after the cap the executed volume of an
  order is the smaller of what the solver asked for and what is left of the order. Fills are
  only ever cut, and a cut fill has its notional recomputed at its price; the fills of an
  order that fit stay as they are.
\<close>

theorem fills_fit_remaining:
  assumes "b \<in> set snapshot" "distinct (map bo_order_id snapshot)"
    and "\<forall>b \<in> set snapshot. order_amounts s m b" "fill_amounts s m (br_fills out)"
  shows "executed (bo_order_id b) (br_fills (CapFillsAgainstRemaining snapshot out))
      = min (executed (bo_order_id b) (br_fills out)) (dval (remaining_qty b))
    \<and> list_all2 passed_or_cut (br_fills out) (br_fills (CapFillsAgainstRemaining snapshot out))
    \<and> (executed (bo_order_id b) (br_fills out) \<le> dval (remaining_qty b) \<longrightarrow>
        filter (\<lambda>f. ff_order_id f = bo_order_id b) (br_fills (CapFillsAgainstRemaining snapshot out))
          = filter (\<lambda>f. ff_order_id f = bo_order_id b) (br_fills out))"
  using capped_fills[OF assms] by blast

end
