(* ===== verification/Matching_Books.thy ===== *)
theory Matching_Books
  imports Matching_Fills
begin

text \<open>
  The books after a batch: the volumes the engine writes to the table of orders agree with
  the fills it published, and the orders it keeps active are those that can still trade.
\<close>

section \<open>Deltas of the fills\<close>

lemma find_add_fill:
  assumes "amount s m (ff_executed_qty f)" "amount s m (find_or dzero t (ff_order_id f))"
    and "amount s m cap" "dval (find_or dzero t (ff_order_id f)) + dval (ff_executed_qty f) \<le> dval cap"
  shows "dval (find_or dzero (add_fill_qty t f) k)
      = dval (find_or dzero t k) + (if k = ff_order_id f then dval (ff_executed_qty f) else 0)"
    and "amount s m (find_or dzero (add_fill_qty t f) (ff_order_id f))"
    and "k \<noteq> ff_order_id f \<Longrightarrow> find_or dzero (add_fill_qty t f) k = find_or dzero t k"
    and "find (add_fill_qty t f) k = None \<longleftrightarrow> find t k = None \<and> k \<noteq> ff_order_id f"
    and "distinct (map fst t) \<Longrightarrow> distinct (map fst (add_fill_qty t f))"
proof -
  have am: "amount s m (dadd (find_or dzero t (ff_order_id f)) (ff_executed_qty f))"
    using amount_nonneg[OF assms(1)] amount_nonneg[OF assms(2)] assms(4)
    by (intro amount_shrink[OF amount_add(2)[OF assms(2,1)] assms(3)]) (simp_all add: amount_add(1)[OF assms(2,1)])
  note v = amount_add(1)[OF assms(2,1)]
  show "dval (find_or dzero (add_fill_qty t f) k)
      = dval (find_or dzero t k) + (if k = ff_order_id f then dval (ff_executed_qty f) else 0)"
    using v by (cases "find t (ff_order_id f)") (auto simp: add_fill_qty_def find_or_Some find_or_None)
  show "amount s m (find_or dzero (add_fill_qty t f) (ff_order_id f))"
    using am assms(1) by (cases "find t (ff_order_id f)") (auto simp: add_fill_qty_def find_or_Some)
  show "k \<noteq> ff_order_id f \<Longrightarrow> find_or dzero (add_fill_qty t f) k = find_or dzero t k"
    by (auto simp: add_fill_qty_def split: option.splits)
  show "find (add_fill_qty t f) k = None \<longleftrightarrow> find t k = None \<and> k \<noteq> ff_order_id f"
    by (auto simp: add_fill_qty_def split: option.splits)
  show "distinct (map fst t) \<Longrightarrow> distinct (map fst (add_fill_qty t f))"
    by (auto simp: add_fill_qty_def intro: distinct_put split: option.splits)
qed

definition totals_ok :: "nat \<Rightarrow> int \<Rightarrow> decimal umap \<Rightarrow> flow_fill list \<Rightarrow> decimal umap \<Rightarrow> bool" where
  "totals_ok s m cap fs t \<longleftrightarrow> distinct (map fst t) \<and> (\<forall>f \<in> set fs. amount s m (ff_executed_qty f)
     \<and> amount s m (find_or dzero cap (ff_order_id f))
     \<and> amount s m (find_or dzero t (ff_order_id f))
     \<and> dval (find_or dzero t (ff_order_id f)) + executed (ff_order_id f) fs
         \<le> dval (find_or dzero cap (ff_order_id f)))"

lemma totals_step:
  assumes "totals_ok s m cap (f # fs) t"
  shows "totals_ok s m cap fs (add_fill_qty t f)"
  unfolding totals_ok_def
proof (intro conjI ballI)
  have nn: "0 \<le> executed k fs" for k
    using assms by (intro executed_nonneg) (auto simp: totals_ok_def intro: amount_nonneg)
  have f: "amount s m (ff_executed_qty f)" "amount s m (find_or dzero t (ff_order_id f))"
    "amount s m (find_or dzero cap (ff_order_id f))"
    "dval (find_or dzero t (ff_order_id f)) + dval (ff_executed_qty f) \<le> dval (find_or dzero cap (ff_order_id f))"
    using assms nn[of "ff_order_id f"] by (auto simp: totals_ok_def)
  note step = find_add_fill[OF f]
  show "distinct (map fst (add_fill_qty t f))" using step(5) assms by (simp add: totals_ok_def)
  fix g assume g: "g \<in> set fs"
  with assms have o: "amount s m (ff_executed_qty g)" "amount s m (find_or dzero cap (ff_order_id g))"
    "amount s m (find_or dzero t (ff_order_id g))"
    "dval (find_or dzero t (ff_order_id g)) + executed (ff_order_id g) (f # fs)
         \<le> dval (find_or dzero cap (ff_order_id g))"
    unfolding totals_ok_def by auto
  show "amount s m (ff_executed_qty g)" "amount s m (find_or dzero cap (ff_order_id g))" by fact+
  show "amount s m (find_or dzero (add_fill_qty t f) (ff_order_id g))"
    using step(2) step(3)[of "ff_order_id g"] o(3) by (cases "ff_order_id g = ff_order_id f") auto
  show "dval (find_or dzero (add_fill_qty t f) (ff_order_id g)) + executed (ff_order_id g) fs
         \<le> dval (find_or dzero cap (ff_order_id g))"
    using step(1)[of "ff_order_id g"] o(4) by (auto split: if_splits)
qed

lemma totals_of_fills:
  assumes "totals_ok s m cap fs t"
  shows "dval (find_or dzero (foldl add_fill_qty t fs) k) = dval (find_or dzero t k) + executed k fs"
    and "find (foldl add_fill_qty t fs) k = None \<longleftrightarrow> find t k = None \<and> k \<notin> ff_order_id ` set fs"
    and "distinct (map fst (foldl add_fill_qty t fs))"
    and "amount s m (find_or dzero t k) \<Longrightarrow> amount s m (find_or dzero (foldl add_fill_qty t fs) k)"
  using assms
proof (induction fs arbitrary: t)
  case Nil
  { case 1 then show ?case by simp next case 2 then show ?case by simp next
    case 3 then show ?case by (simp add: totals_ok_def) next case 4 then show ?case by simp }
next
  case (Cons f fs)
  have nn: "0 \<le> executed k fs" if "totals_ok s m cap (f # fs) t" for k t
    using that by (intro executed_nonneg) (auto simp: totals_ok_def intro: amount_nonneg)
  have f: "amount s m (ff_executed_qty f)" "amount s m (find_or dzero t (ff_order_id f))"
    "amount s m (find_or dzero cap (ff_order_id f))"
    "dval (find_or dzero t (ff_order_id f)) + dval (ff_executed_qty f) \<le> dval (find_or dzero cap (ff_order_id f))"
    if "totals_ok s m cap (f # fs) t" for t
    using that nn[OF that, of "ff_order_id f"] by (auto simp: totals_ok_def)
  { case 1
    show ?case using Cons.IH(1)[OF totals_step[OF 1]] find_add_fill(1)[OF f[OF 1]] by simp next
    case 2
    show ?case using Cons.IH(2)[OF totals_step[OF 2]] find_add_fill(4)[OF f[OF 2]] by auto next
    case 3
    show ?case using Cons.IH(3)[OF totals_step[OF 3]] by simp next
    case 4
    have "amount s m (find_or dzero (add_fill_qty t f) k)"
      using find_add_fill(2,3)[OF f[OF 4(2)]] 4(1) by (cases "k = ff_order_id f") auto
    then show ?case using Cons.IH(4)[OF _ totals_step[OF 4(2)]] by simp }
qed

section \<open>Writing the deltas\<close>

definition booked :: "int \<Rightarrow> decimal \<Rightarrow> volume_row \<Rightarrow> volume_row" where
  "booked e q r = (if dval q \<le> 0 then r
     else let c = dmin (dadd (vr_filled_cum r) q) (vr_q_max r)
       in r\<lparr>vr_filled_cum := c, vr_status := (if 0 \<le> dcmp c (vr_q_max r) then ''filled'' else ''partially_filled''),
            vr_updated_at := e\<rparr>)"

lemma apply_delta_booked:
  assumes "fd_order_id d \<noteq> []" "amount s m (fd_executed_qty_delta d)" "find t (fd_order_id d) = Some r"
  shows "\<exists>t'. apply_delta e d t = Inr t' \<and>
    (\<forall>k. find t' k = (if k = fd_order_id d then Some (booked e (fd_executed_qty_delta d) r) else find t k))"
proof -
  note z = dcmp_zero_scale[OF amount_wf[OF assms(2)]]
  show ?thesis
  proof (cases "dval (fd_executed_qty_delta d) \<le> 0")
    case True
    then show ?thesis using assms by (auto simp: apply_delta_def z booked_def Let_def)
  next
    case False
    then show ?thesis using assms
      by (auto simp: apply_delta_def z booked_def Let_def ComputeFilledVolumeUpdate_def)
  qed
qed

lemma apply_deltas_booked:
  assumes "distinct (map fd_order_id ds)"
    and "\<forall>d \<in> set ds. fd_order_id d \<noteq> [] \<and> amount s m (fd_executed_qty_delta d) \<and> find t (fd_order_id d) \<noteq> None"
  shows "\<exists>t'. apply_deltas e ds t = Inr t'
    \<and> (\<forall>k. k \<notin> fd_order_id ` set ds \<longrightarrow> find t' k = find t k)
    \<and> (\<forall>d \<in> set ds. find t' (fd_order_id d) = map_option (booked e (fd_executed_qty_delta d)) (find t (fd_order_id d)))"
  using assms
proof (induction ds arbitrary: t)
  case Nil
  then show ?case by simp
next
  case (Cons d ds)
  obtain r where r: "find t (fd_order_id d) = Some r" using Cons.prems(2) by auto
  obtain t1 where t1: "apply_delta e d t = Inr t1"
    "\<And>k. find t1 k = (if k = fd_order_id d then Some (booked e (fd_executed_qty_delta d) r) else find t k)"
    using apply_delta_booked[OF _ _ r, of s m e] Cons.prems(2) by auto
  obtain t2 where t2: "apply_deltas e ds t1 = Inr t2"
    "\<And>k. k \<notin> fd_order_id ` set ds \<Longrightarrow> find t2 k = find t1 k"
    "\<And>x. x \<in> set ds \<Longrightarrow> find t2 (fd_order_id x)
       = map_option (booked e (fd_executed_qty_delta x)) (find t1 (fd_order_id x))"
  proof -
    have "\<forall>x \<in> set ds. fd_order_id x \<noteq> [] \<and> amount s m (fd_executed_qty_delta x)
        \<and> find t1 (fd_order_id x) \<noteq> None"
      using Cons.prems(2) unfolding t1(2) by simp
    from Cons.IH[OF _ this] Cons.prems(1) that show ?thesis by auto
  qed
  have ne: "fd_order_id x \<noteq> fd_order_id d" if "x \<in> set ds" for x
    using that Cons.prems(1) by (metis distinct.simps(2) image_eqI list.simps(9) set_map)
  have "find t2 (fd_order_id d) = Some (booked e (fd_executed_qty_delta d) r)"
    using t2(2)[of "fd_order_id d"] t1(2) ne by force
  then show ?case using t1 t2 r ne by auto
qed

section \<open>The published batch\<close>

lemma backfill_frame [simp]:
  "ff_order_id (BackfillFillProvenance ext f) = ff_order_id f"
  "ff_executed_qty (BackfillFillProvenance ext f) = ff_executed_qty f"
  "ff_user_id (BackfillFillProvenance ext f) = ff_user_id f"
  "ff_instrument (BackfillFillProvenance ext f) = ff_instrument f"
  "ff_side (BackfillFillProvenance ext f) = ff_side f"
  by (simp_all add: BackfillFillProvenance_def Let_def)

lemma executed_backfill [simp]: "executed k (map (BackfillFillProvenance ext) fs) = executed k fs"
  by (induction fs) simp_all

lemma executed_absent: "k \<notin> ff_order_id ` set fs \<Longrightarrow> executed k fs = 0"
  by (induction fs) auto

lemma fills_of_complete:
  "br_fills (complete_batch p batch_id ext snapshot out)
     = map (BackfillFillProvenance ext) (br_fills (CapFillsAgainstRemaining snapshot out))"
  "br_batch_id (complete_batch p batch_id ext snapshot out) = batch_id"
  "br_clear_prices (complete_batch p batch_id ext snapshot out) = br_clear_prices out"
  "br_order_updates (complete_batch p batch_id ext snapshot out) = br_order_updates out"
  by (simp_all add: complete_batch_def PopulateBatchLiquidityAuditFromFills_def
      CapFillsAgainstRemaining_def Let_def)

lemma executed_run:
  assumes "RunBatch_Execute p batch_id active prices ext = (res, active')" "rr_status res = KExecuted"
  obtains out where "rp_solve p (map snd active) prices ext = Some out" "active \<noteq> []"
    "rr_batch res = Some (complete_batch p batch_id ext (map snd active) out)"
    "rr_fill_deltas res = fill_deltas (br_fills (complete_batch p batch_id ext (map snd active) out))"
    "rr_hedge_execution_intents res = fst (BuildFromHedgeTriggerDecisions (rp_now p) (rp_hedge_intents p)
       (EvaluateTriggers (rp_hedge_triggers p)
          (CalculateSnapshots (complete_batch p batch_id ext (map snd active) out))))"
    "active' = drop_exhausted (foldl apply_book_update active (br_order_updates out))"
proof -
  have ne: "active \<noteq> []" using assms by (auto simp: RunBatch_Execute_def Let_def)
  obtain out where out: "rp_solve p (map snd active) prices ext = Some out"
    using assms ne by (cases "rp_solve p (map snd active) prices ext") (auto simp: RunBatch_Execute_def Let_def)
  let ?b = "complete_batch p batch_id ext (map snd active) out"
  have pub: "rp_publish p ?b"
    using assms ne out by (cases "rp_publish p ?b") (auto simp: RunBatch_Execute_def Let_def)
  obtain intents builds where hb: "BuildFromHedgeTriggerDecisions (rp_now p) (rp_hedge_intents p)
       (EvaluateTriggers (rp_hedge_triggers p) (CalculateSnapshots ?b)) = (intents, builds)" by fastforce
  show ?thesis
    by (rule that[OF out ne])
      (use assms(1) in \<open>simp_all add: RunBatch_Execute_def Let_def ne out pub hb fills_of_complete, auto\<close>)
qed

lemma failed_run:
  assumes "RunBatch_Execute p batch_id active prices ext = (res, active')" "rr_status res \<noteq> KExecuted"
  shows "active' = active \<and> rr_fill_deltas res = [] \<and> rr_hedge_execution_intents res = []"
proof (cases "active = []")
  case True
  then show ?thesis using assms by (auto simp: RunBatch_Execute_def Let_def)
next
  case ne: False
  show ?thesis
  proof (cases "rp_solve p (map snd active) prices ext")
    case None
    then show ?thesis using assms ne by (auto simp: RunBatch_Execute_def Let_def)
  next
    case (Some out)
    then have "\<not> rp_publish p (complete_batch p batch_id ext (map snd active) out)"
      using assms ne by (auto simp: RunBatch_Execute_def Let_def split: prod.splits)
    then show ?thesis using assms ne Some by (auto simp: RunBatch_Execute_def Let_def)
  qed
qed

lemma list_all2_ids:
  "list_all2 passed_or_cut fs gs \<Longrightarrow> map ff_order_id gs = map ff_order_id fs"
  by (induction rule: list_all2_induct) (auto simp: passed_or_cut_def)

text \<open>The active orders are keyed by their own non-empty id and hold amounts.\<close>

definition book_ok :: "nat \<Rightarrow> int \<Rightarrow> book_order umap \<Rightarrow> bool" where
  "book_ok s m active \<longleftrightarrow> distinct (map fst active)
     \<and> (\<forall>(k, b) \<in> set active. k = bo_order_id b \<and> k \<noteq> [] \<and> order_amounts s m b)"

lemma book_snapshot:
  assumes "book_ok s m active"
  shows "distinct (map bo_order_id (map snd active))" "\<forall>b \<in> set (map snd active). order_amounts s m b"
    "bo_order_id ` set (map snd active) = fst ` set active"
proof -
  have "map bo_order_id (map snd active) = map fst active"
    using assms by (auto simp: book_ok_def)
  then show "distinct (map bo_order_id (map snd active))" using assms by (simp only: book_ok_def)
  show "\<forall>b \<in> set (map snd active). order_amounts s m b" using assms by (auto simp: book_ok_def)
  show "bo_order_id ` set (map snd active) = fst ` set active"
    using assms by (force simp: book_ok_def image_iff)
qed

lemma published_fills:
  assumes "book_ok s m active" "(k, b) \<in> set active" "fill_amounts s m (br_fills out)"
  shows "executed k (br_fills (complete_batch p i ext (map snd active) out))
      = min (executed k (br_fills out)) (dval (remaining_qty b))"
    and "fill_amounts s m (br_fills (complete_batch p i ext (map snd active) out))"
    and "ff_order_id ` set (br_fills (complete_batch p i ext (map snd active) out)) = ff_order_id ` set (br_fills out)"
proof -
  have b: "b \<in> set (map snd active)" "bo_order_id b = k"
    using assms(1,2) by (force simp: book_ok_def)+
  note c = capped_fills[OF b(1) book_snapshot(1,2)[OF assms(1)] assms(3)]
  show "executed k (br_fills (complete_batch p i ext (map snd active) out))
      = min (executed k (br_fills out)) (dval (remaining_qty b))"
    using c unfolding fills_of_complete b(2) executed_backfill by blast
  show "fill_amounts s m (br_fills (complete_batch p i ext (map snd active) out))"
    using c unfolding fills_of_complete by (auto simp: fill_amounts_def)
  show "ff_order_id ` set (br_fills (complete_batch p i ext (map snd active) out)) = ff_order_id ` set (br_fills out)"
    using list_all2_ids[of "br_fills out"] c unfolding fills_of_complete
    by (metis (no_types, lifting) backfill_frame(1) image_cong image_image list.set_map)
qed

lemma published_totals:
  fixes p :: run_ports and i :: string and ext :: "venue_curve umap" and out :: batch_output
    and active :: "book_order umap"
  assumes "book_ok s m active" "fill_amounts s m (br_fills out)"
    and "ff_order_id ` set (br_fills out) \<subseteq> fst ` set active"
  defines "sent \<equiv> br_fills (complete_batch p i ext (map snd active) out)"
  shows "totals_ok s m (remaining_by_order (map snd active)) sent []"
  unfolding totals_ok_def
proof (intro conjI ballI)
  show "distinct (map fst ([] :: decimal umap))" by simp
  fix f assume f: "f \<in> set sent"
  have "active \<noteq> []" using f assms(3) by (auto simp: sent_def fills_of_complete CapFillsAgainstRemaining_def)
  then obtain k0 b0 where any: "(k0, b0) \<in> set active" by (cases active) auto
  then have am0: "amount s m (bo_q_max b0)" using assms(1) by (auto simp: book_ok_def order_amounts_def)
  show "amount s m (find_or dzero [] (ff_order_id f))"
    using amount_bound[OF am0] by (simp add: amount_def)
  have "ff_order_id f \<in> ff_order_id ` set sent" using f by (rule imageI)
  then have "ff_order_id f \<in> fst ` set active"
    unfolding sent_def published_fills(3)[OF assms(1) any assms(2)] using assms(3) by (rule rev_subsetD)
  then obtain b where b: "(ff_order_id f, b) \<in> set active" by force
  then have id: "b \<in> set (map snd active)" "bo_order_id b = ff_order_id f" "order_amounts s m b"
    using assms(1) by (force simp: book_ok_def)+
  then have r: "find_or dzero (remaining_by_order (map snd active)) (ff_order_id f) = cap_remaining b"
    using find_by_id[OF book_snapshot(1)[OF assms(1)] id(1)]
    by (simp add: find_or_def find_remaining_by_order)
  note cv = cap_remaining_value[OF id(3)]
  show "amount s m (ff_executed_qty f)"
    using f published_fills(2)[OF assms(1) any assms(2)] by (simp add: sent_def fill_amounts_def)
  show "amount s m (find_or dzero (remaining_by_order (map snd active)) (ff_order_id f))"
    using cv(2) r by simp
  show "dval (find_or dzero [] (ff_order_id f)) + executed (ff_order_id f) sent
         \<le> dval (find_or dzero (remaining_by_order (map snd active)) (ff_order_id f))"
    unfolding r cv(1) sent_def published_fills(1)[OF assms(1) b assms(2)] by simp
qed

section \<open>The table after the batch\<close>

lemma deltas_of_fills:
  assumes "totals_ok s m cap fs []" "fs \<noteq> [] \<Longrightarrow> 0 \<le> m \<and> s \<le> 18 \<and> 2 * m \<le> max_units"
  shows "distinct (map fd_order_id (fill_deltas fs))"
    and "fd_order_id ` set (fill_deltas fs) = ff_order_id ` set fs"
    and "d \<in> set (fill_deltas fs) \<Longrightarrow> dval (fd_executed_qty_delta d) = executed (fd_order_id d) fs"
    and "d \<in> set (fill_deltas fs) \<Longrightarrow> amount s m (fd_executed_qty_delta d)"
proof -
  let ?t = "foldl add_fill_qty [] fs"
  note t = totals_of_fills[OF assms(1)]
  have ids: "map fd_order_id (fill_deltas fs) = map fst ?t"
    by (simp add: fill_deltas_def comp_def split_beta)
  show "distinct (map fd_order_id (fill_deltas fs))" unfolding ids by (rule t(3))
  have "fst ` set ?t = {k. find ?t k \<noteq> None}"
    by (auto simp: find_def dom_map_of_conv_image_fst[symmetric])
  then have "fst ` set ?t = ff_order_id ` set fs" using t(2) by auto
  then show "fd_order_id ` set (fill_deltas fs) = ff_order_id ` set fs"
    using ids by (metis list.set_map)
  assume "d \<in> set (fill_deltas fs)"
  then obtain k q where kq: "(k, q) \<in> set ?t" "d = \<lparr>fd_order_id = k, fd_executed_qty_delta = q\<rparr>"
    by (auto simp: fill_deltas_def)
  then have f: "find_or dzero ?t k = q"
    using t(3) by (simp add: find_or_def find_def)
  show "dval (fd_executed_qty_delta d) = executed (fd_order_id d) fs"
    using t(1)[of k] f kq(2) by simp
  have "fs \<noteq> []" using kq(1) by auto
  then show "amount s m (fd_executed_qty_delta d)"
    using t(4)[of k] f kq(2) assms(2) by auto
qed

text \<open>C14. A published batch books exactly its fills. The deltas of the batch go into the table
  of orders without an error; the cumulative fill of every order grows by its executed
  volume, which is what the solver asked for cut at what was left of the order, so it never
  passes the size of an order that was within it; the order is marked filled exactly when
  nothing is left.
\<close>

theorem batch_books_its_fills:
  assumes "book_ok s m active"
    and "rp_solve p (map snd active) prices ext = Some out"
    and "fill_amounts s m (br_fills out)" "ff_order_id ` set (br_fills out) \<subseteq> fst ` set active"
    and "RunBatch_Execute p batch_id active prices ext = (res, active')" "rr_status res = KExecuted"
    and "\<forall>(k, b) \<in> set active. \<exists>r. find table k = Some r
           \<and> vr_q_max r = bo_q_max b \<and> vr_filled_cum r = bo_filled_cum b"
  shows "\<exists>sent table'. rr_batch res = Some sent
    \<and> UpdateFilledVolumes now (rr_fill_deltas res) table = (None, table')
    \<and> (\<forall>(k, b) \<in> set active. \<exists>r. find table' k = Some r
         \<and> executed k (br_fills sent) = min (executed k (br_fills out)) (dval (remaining_qty b))
         \<and> dval (vr_filled_cum r) = dval (bo_filled_cum b) + executed k (br_fills sent)
         \<and> (dval (bo_filled_cum b) \<le> dval (bo_q_max b) \<longrightarrow> dval (vr_filled_cum r) \<le> dval (bo_q_max b))
         \<and> (0 < executed k (br_fills sent) \<longrightarrow> vr_status r =
              (if dval (vr_filled_cum r) = dval (bo_q_max b) then ''filled'' else ''partially_filled'')))"
proof -
  define sent where "sent = complete_batch p batch_id ext (map snd active) out"
  obtain out' where o: "rp_solve p (map snd active) prices ext = Some out'" "active \<noteq> []"
    "rr_batch res = Some (complete_batch p batch_id ext (map snd active) out')"
    "rr_fill_deltas res = fill_deltas (br_fills (complete_batch p batch_id ext (map snd active) out'))"
    by (rule executed_run[OF assms(5,6)]) auto
  then have run: "rr_batch res = Some sent" "rr_fill_deltas res = fill_deltas (br_fills sent)"
    using assms(2) by (auto simp: sent_def)
  obtain k0 b0 where any: "(k0, b0) \<in> set active" using o(2) by (cases active) auto
  have bnd: "0 \<le> m \<and> s \<le> 18 \<and> 2 * m \<le> max_units"
    using any assms(1) amount_bound by (fastforce simp: book_ok_def order_amounts_def)
  note tot = published_totals[OF assms(1,3,4), of p batch_id ext, folded sent_def]
  note ds = deltas_of_fills[OF tot bnd]
  have ids: "ff_order_id ` set (br_fills sent) \<subseteq> fst ` set active"
    using assms(4) published_fills(3)[OF assms(1) any assms(3)] by (simp add: sent_def)
  have rows: "fd_order_id d \<noteq> [] \<and> amount s m (fd_executed_qty_delta d) \<and> find table (fd_order_id d) \<noteq> None"
    if d: "d \<in> set (fill_deltas (br_fills sent))" for d
  proof -
    have "fd_order_id d \<in> fst ` set active" using d ds(2) ids by blast
    then obtain b where "(fd_order_id d, b) \<in> set active" by force
    then show ?thesis using assms(1,7) ds(4)[OF d] by (fastforce simp: book_ok_def)
  qed
  obtain table' where t': "apply_deltas (to_epoch_seconds now) (fill_deltas (br_fills sent)) table = Inr table'"
    "\<And>k. k \<notin> fd_order_id ` set (fill_deltas (br_fills sent)) \<Longrightarrow> find table' k = find table k"
    "\<And>d. d \<in> set (fill_deltas (br_fills sent)) \<Longrightarrow> find table' (fd_order_id d)
       = map_option (booked (to_epoch_seconds now) (fd_executed_qty_delta d)) (find table (fd_order_id d))"
    using apply_deltas_booked[OF ds(1), of s m table "to_epoch_seconds now"] rows by blast
  have up: "UpdateFilledVolumes now (rr_fill_deltas res) table = (None, table')"
    using t'(1) by (auto simp: UpdateFilledVolumes_def run(2))
  have "\<exists>r. find table' k = Some r
         \<and> executed k (br_fills sent) = min (executed k (br_fills out)) (dval (remaining_qty b))
         \<and> dval (vr_filled_cum r) = dval (bo_filled_cum b) + executed k (br_fills sent)
         \<and> (dval (bo_filled_cum b) \<le> dval (bo_q_max b) \<longrightarrow> dval (vr_filled_cum r) \<le> dval (bo_q_max b))
         \<and> (0 < executed k (br_fills sent) \<longrightarrow> vr_status r =
              (if dval (vr_filled_cum r) = dval (bo_q_max b) then ''filled'' else ''partially_filled''))"
    if kb: "(k, b) \<in> set active" for k b
  proof -
    obtain r where r: "find table k = Some r" "vr_q_max r = bo_q_max b" "vr_filled_cum r = bo_filled_cum b"
      using assms(7) kb by auto
    have am: "amount s m (bo_q_max b)" "amount s m (bo_filled_cum b)" and oa: "order_amounts s m b"
      using assms(1) kb by (auto simp: book_ok_def order_amounts_def)
    have ex: "executed k (br_fills sent) = min (executed k (br_fills out)) (dval (remaining_qty b))"
      unfolding sent_def by (rule published_fills(1)[OF assms(1) kb assms(3)])
    have nn: "0 \<le> executed k (br_fills sent)"
      using published_fills(2)[OF assms(1) kb assms(3), of p batch_id ext]
      by (intro executed_nonneg) (auto simp: sent_def fill_amounts_def amount_nonneg)
    have le: "0 < executed k (br_fills sent) \<Longrightarrow> dval (bo_filled_cum b) + executed k (br_fills sent) \<le> dval (bo_q_max b)"
      using ex remaining_value[OF oa] by (auto simp: min_def max_def split: if_splits)
    show ?thesis
    proof (cases "0 < executed k (br_fills sent)")
      case False
      then have z: "executed k (br_fills sent) = 0" using nn by simp
      have "find table' k = Some r"
      proof (cases "k \<in> fd_order_id ` set (fill_deltas (br_fills sent))")
        case True
        then obtain d where d: "d \<in> set (fill_deltas (br_fills sent))" "fd_order_id d = k" by blast
        then have "dval (fd_executed_qty_delta d) \<le> 0" using ds(3) z by simp
        then show ?thesis using t'(3)[OF d(1)] d(2) r(1) by (simp add: booked_def)
      next
        case False
        then show ?thesis using t'(2) r(1) by simp
      qed
      then show ?thesis using ex z r by auto
    next
      case True
      then have "k \<in> fd_order_id ` set (fill_deltas (br_fills sent))"
        unfolding ds(2) using executed_absent[of k "br_fills sent"] by force
      then obtain d where d: "d \<in> set (fill_deltas (br_fills sent))" "fd_order_id d = k" by blast
      have q: "dval (fd_executed_qty_delta d) = executed k (br_fills sent)" "amount s m (fd_executed_qty_delta d)"
        using ds(3,4)[OF d(1)] d(2) by auto
      define r' where "r' = booked (to_epoch_seconds now) (fd_executed_qty_delta d) r"
      have f': "find table' k = Some r'" using t'(3)[OF d(1)] d(2) r(1) by (simp add: r'_def)
      obtain c st where cs: "ComputeFilledVolumeUpdate (bo_q_max b) (bo_filled_cum b) (fd_executed_qty_delta d) = Some (c, st)"
        using fill_update_value(1)[OF amount_grid[OF q(2)] am] q(1) nn by fastforce
      note v = fill_update_value(2)[OF amount_grid[OF q(2)] am cs]
      have "vr_filled_cum r' = c" "vr_status r' = (if st = KFilled then ''filled'' else ''partially_filled'')"
        using True cs q r(2,3) dcmp_zero_scale(1)[OF amount_wf[OF q(2)]]
        by (auto simp: r'_def booked_def ComputeFilledVolumeUpdate_def Let_def split: if_splits)
      then show ?thesis using f' ex v q(1) le[OF True] by auto
    qed
  qed
  then show ?thesis using run(1) up by blast
qed

section \<open>The orders that stay active\<close>

lemma find_book_updates:
  "find (foldl apply_book_update active us) k =
     (case find active k of None \<Rightarrow> None
      | Some b \<Rightarrow> if \<exists>u \<in> set us. ou_order_id u = k \<and> IsTerminalStatus (ou_status u) then None
          else Some (foldl (\<lambda>b u. update_book_order u b) b (filter (\<lambda>u. ou_order_id u = k) us)))"
proof (induction us arbitrary: active)
  case Nil
  then show ?case by (simp split: option.splits)
next
  case (Cons u us)
  have "find (apply_book_update active u) k =
      (case find active k of None \<Rightarrow> None
       | Some b \<Rightarrow> if ou_order_id u = k then (if IsTerminalStatus (ou_status u) then None
           else Some (update_book_order u b)) else Some b)"
    by (auto simp: apply_book_update_def split: option.splits)
  then show ?case unfolding foldl_Cons Cons.IH by (auto split: option.splits)
qed

lemma distinct_book_updates:
  "distinct (map fst active) \<Longrightarrow> distinct (map fst (foldl apply_book_update active us))"
  by (induction us arbitrary: active)
    (auto simp: apply_book_update_def intro: distinct_put distinct_erase split: option.splits)

lemma find_drop_exhausted:
  "distinct (map fst active) \<Longrightarrow> find (drop_exhausted active) k =
     (case find active k of None \<Rightarrow> None
      | Some b \<Rightarrow> if dcmp (remaining_qty b) (mk_dec 1 6) \<le> 0 then None else Some b)"
  using find_filter_distinct[of active "\<lambda>b. \<not> dcmp (remaining_qty b) (mk_dec 1 6) \<le> 0" k]
  unfolding drop_exhausted_def case_prod_unfold by (auto split: option.splits)

text \<open>C15. The orders that stay active. When the solver or the publication fails, or there is
  nothing to match, the active orders are untouched, and no delta and no hedge is produced.
  After a published batch an order is still active exactly when it was, no update of the
  batch ended it and more than a millionth of it remains; it then carries the updates of the
  batch in their order.
\<close>

theorem active_orders_after_batch:
  assumes "RunBatch_Execute p batch_id active prices ext = (res, active')" "distinct (map fst active)"
  shows "if rr_status res \<noteq> KExecuted
    then active' = active \<and> rr_fill_deltas res = [] \<and> rr_hedge_execution_intents res = []
    else \<exists>sent. rr_batch res = Some sent \<and> (\<forall>k. find active' k =
      (case find active k of None \<Rightarrow> None
       | Some b \<Rightarrow>
          if \<exists>u \<in> set (br_order_updates sent). ou_order_id u = k \<and> IsTerminalStatus (ou_status u) then None
          else let b' = foldl (\<lambda>b u. update_book_order u b) b
                          (filter (\<lambda>u. ou_order_id u = k) (br_order_updates sent))
               in if dcmp (remaining_qty b') (mk_dec 1 6) \<le> 0 then None else Some b'))"
proof (cases "rr_status res = KExecuted")
  case False
  then show ?thesis using failed_run[OF assms(1)] by simp
next
  case True
  obtain out where o: "rr_batch res = Some (complete_batch p batch_id ext (map snd active) out)"
    "active' = drop_exhausted (foldl apply_book_update active (br_order_updates out))"
    by (rule executed_run[OF assms(1) True]) auto
  have "find active' k =
      (case find active k of None \<Rightarrow> None
       | Some b \<Rightarrow>
          if \<exists>u \<in> set (br_order_updates out). ou_order_id u = k \<and> IsTerminalStatus (ou_status u) then None
          else let b' = foldl (\<lambda>b u. update_book_order u b) b
                          (filter (\<lambda>u. ou_order_id u = k) (br_order_updates out))
               in if dcmp (remaining_qty b') (mk_dec 1 6) \<le> 0 then None else Some b')" for k
    unfolding o(2) find_drop_exhausted[OF distinct_book_updates[OF assms(2)]] find_book_updates
    by (auto simp: Let_def split: option.split)
  then have "\<exists>sent. rr_batch res = Some sent \<and> (\<forall>k. find active' k =
      (case find active k of None \<Rightarrow> None
       | Some b \<Rightarrow>
          if \<exists>u \<in> set (br_order_updates sent). ou_order_id u = k \<and> IsTerminalStatus (ou_status u) then None
          else let b' = foldl (\<lambda>b u. update_book_order u b) b
                          (filter (\<lambda>u. ou_order_id u = k) (br_order_updates sent))
               in if dcmp (remaining_qty b') (mk_dec 1 6) \<le> 0 then None else Some b'))"
    unfolding o(1) option.inject by - (rule exI, rule conjI[OF refl], unfold fills_of_complete, blast)
  then show ?thesis using True by simp
qed

section \<open>An example\<close>

definition ex_book_order :: book_order where
  "ex_book_order = \<lparr>bo_order_id = ''o1'', bo_user_id = ''u1'',
     bo_legs = [\<lparr>ol_instrument_symbol = ''BTC/USDT'', ol_weight = mk_dec 1 0\<rparr>],
     bo_p_low = mk_dec 90 0, bo_p_high = mk_dec 110 0, bo_q_rate = mk_dec 5 0,
     bo_q_max = mk_dec 10 0, bo_filled_cum = mk_dec 4 0, bo_time_in_force = KGtc,
     bo_window_start = 0, bo_window_end = None, bo_status = KActive, bo_created_at = 0,
     bo_updated_at = 0\<rparr>"

definition ex_fill :: "int \<Rightarrow> flow_fill" where
  "ex_fill q = \<lparr>ff_order_id = ''o1'', ff_user_id = ''u1'',
     ff_instrument = \<lparr>in_symbol = ''BTC/USDT'', in_base = ''BTC'', in_quote = ''USDT''\<rparr>,
     ff_side = SIDE_BUY, ff_executed_qty = mk_dec q 0, ff_price = Some (mk_dec 100 0),
     ff_executed_notional = mk_dec (q * 100) 0, ff_fee = None, ff_liquidity_source = [],
     ff_provenance = None\<rparr>"

definition ex_solved :: batch_output where
  "ex_solved = \<lparr>br_batch_id = [], br_timestamp = (0, 0),
     br_clear_prices = [(''BTC/USDT'', mk_dec 100 0)], br_fills = [ex_fill 5, ex_fill 3],
     br_order_updates = [\<lparr>ou_order_id = ''o1'', ou_status = ORDER_STATUS_PARTIALLY_FILLED,
       ou_remaining_qty = None, ou_filled_qty_total = Some (mk_dec 9 0), ou_updated_at = None\<rparr>],
     br_num_active_orders = 0, br_used_liquidity = [], bx_meta = empty_meta, bx_solve_time_ms = 0\<rparr>"

definition ex_triggers :: hedge_trigger_config where
  "ex_triggers = \<lparr>tc_default_thresholds = \<lparr>ht_threshold_qty = mk_dec 1 0, ht_threshold_notional = dzero\<rparr>,
     tc_per_symbol_thresholds = []\<rparr>"

definition ex_intents :: intent_config where
  "ex_intents = \<lparr>ic_urgency = URGENCY_MEDIUM, ic_strategy = EXEC_STRATEGY_MARKET, ic_tif = TIF_IOC,
     ic_timeout_ms = 30000, ic_max_slippage_bps = 50, ic_allowed_venues = [''binance'']\<rparr>"

definition ex_run_ports :: run_ports where
  "ex_run_ports = \<lparr>rp_solve = (\<lambda>_ _ _. Some ex_solved), rp_publish = (\<lambda>_. True),
     rp_hedge_triggers = ex_triggers, rp_hedge_intents = ex_intents, rp_now = (1700000000, 0),
     rp_event_id = ''e1'', rp_solve_elapsed_ms = 7\<rparr>"

definition ex_active :: "book_order umap" where
  "ex_active = [(''o1'', ex_book_order)]"

definition ex_table :: "volume_row umap" where
  "ex_table = [(''o1'', \<lparr>vr_q_max = mk_dec 10 0, vr_filled_cum = mk_dec 4 0,
     vr_status = ''active'', vr_updated_at = 0\<rparr>)]"

lemma ex_book_ok: "book_ok 0 1000 ex_active"
  by (simp add: book_ok_def ex_active_def ex_book_order_def order_amounts_def amount_def grid_def at_scale_def)

lemma ex_solved_ok: "fill_amounts 0 1000 (br_fills ex_solved)"
  by (simp add: fill_amounts_def ex_solved_def ex_fill_def amount_def grid_def at_scale_def)

lemma ex_run_executed: "rr_status (fst (RunBatch_Execute ex_run_ports ''b1'' ex_active [] [])) = KExecuted"
  by (simp add: RunBatch_Execute_def Let_def ex_run_ports_def ex_active_def split: prod.split)

lemma ex_capped_qty:
  "map (units \<circ> ff_executed_qty) (br_fills (CapFillsAgainstRemaining [ex_book_order] ex_solved)) = [5, 1]"
  by code_simp

theorem fills_fit_remaining_witness:
  "executed ''o1'' (br_fills (CapFillsAgainstRemaining [ex_book_order] ex_solved)) = 6"
proof -
  have "bo_order_id ex_book_order = ''o1''" "executed ''o1'' (br_fills ex_solved) = 8"
    by (simp_all add: ex_book_order_def ex_solved_def ex_fill_def)
  moreover have "dval (remaining_qty ex_book_order) = 6"
    using ex_book_ok by (subst remaining_value[of 0 1000])
      (simp_all add: book_ok_def ex_active_def, simp add: ex_book_order_def)
  ultimately show ?thesis
    using fills_fit_remaining[of ex_book_order "[ex_book_order]" 0 1000 ex_solved] ex_book_ok ex_solved_ok
    by (simp add: book_ok_def ex_active_def)
qed

theorem batch_books_its_fills_witness:
  "\<exists>table' r. UpdateFilledVolumes 0 (rr_fill_deltas (fst (RunBatch_Execute ex_run_ports ''b1'' ex_active [] []))) ex_table
      = (None, table') \<and> find table' ''o1'' = Some r \<and> dval (vr_filled_cum r) = 10 \<and> vr_status r = ''filled''"
proof -
  obtain res active' where run: "RunBatch_Execute ex_run_ports ''b1'' ex_active [] [] = (res, active')" by fastforce
  have st: "rr_status res = KExecuted" using ex_run_executed run by simp
  have solve: "rp_solve ex_run_ports (map snd ex_active) [] [] = Some ex_solved" by (simp add: ex_run_ports_def)
  have ids: "ff_order_id ` set (br_fills ex_solved) \<subseteq> fst ` set ex_active"
    by (simp add: ex_solved_def ex_fill_def ex_active_def)
  have tab: "\<forall>(k, b) \<in> set ex_active. \<exists>r. find ex_table k = Some r
           \<and> vr_q_max r = bo_q_max b \<and> vr_filled_cum r = bo_filled_cum b"
    by (simp add: ex_active_def ex_table_def ex_book_order_def find_Cons)
  have "dval (remaining_qty ex_book_order) = 6"
    using ex_book_ok by (subst remaining_value[of 0 1000])
      (simp_all add: book_ok_def ex_active_def, simp add: ex_book_order_def)
  moreover have "executed ''o1'' (br_fills ex_solved) = 8" by (simp add: ex_solved_def ex_fill_def)
  moreover have "dval (bo_filled_cum ex_book_order) = 4" "dval (bo_q_max ex_book_order) = 10"
    by (simp_all add: ex_book_order_def)
  ultimately show ?thesis
    using batch_books_its_fills[OF ex_book_ok solve ex_solved_ok ids run st tab, of 0] run
    by (auto simp: ex_active_def)
qed

theorem active_orders_after_batch_witness:
  "find (snd (RunBatch_Execute ex_run_ports ''b1'' ex_active [] [])) ''o1''
     = Some (ex_book_order\<lparr>bo_filled_cum := mk_dec 9 0, bo_status := KPartiallyFilled\<rparr>)"
proof -
  obtain res active' where run: "RunBatch_Execute ex_run_ports ''b1'' ex_active [] [] = (res, active')" by fastforce
  have st: "rr_status res = KExecuted" using ex_run_executed run by simp
  obtain out where o: "rp_solve ex_run_ports (map snd ex_active) [] [] = Some out"
    "rr_batch res = Some (complete_batch ex_run_ports ''b1'' [] (map snd ex_active) out)"
    by (rule executed_run[OF run st]) auto
  then have "br_order_updates (the (rr_batch res)) = br_order_updates ex_solved"
    by (simp add: ex_run_ports_def fills_of_complete)
  moreover have "dcmp (remaining_qty (ex_book_order\<lparr>bo_filled_cum := mk_dec 9 0, bo_status := KPartiallyFilled\<rparr>))
      (mk_dec 1 6) = 1"
    by code_simp
  moreover have "find ex_active ''o1'' = Some ex_book_order" by (simp add: ex_active_def find_Cons)
  moreover have "distinct (map fst ex_active)" by (simp add: ex_active_def)
  ultimately show ?thesis
    using active_orders_after_batch[OF run] st run o(2)
    by (auto simp: ex_solved_def update_book_order_def)
qed

end
