(* ===== verification/Matching_Intake.thy ===== *)
theory Matching_Intake
  imports Matching_Fills
begin

text \<open>
  How orders enter the matching engine: from the message of the order flow and from the
  table of orders. Either way they are well formed: legs with distinct symbols in order and
  non-zero weights, a fill state within the size, and prices in the sign convention of the
  solver (a sell order has both bounds negated and swapped).
\<close>

lemma has_non_zero_weight_iff: "has_non_zero_weight l \<longleftrightarrow> units (ol_weight l) \<noteq> 0"
  by (simp add: has_non_zero_weight_def dcmp_def align_units_i128_def Let_def)

lemma valid_legs_loop_iff:
  "valid_legs_loop prev ls \<longleftrightarrow>
     (\<forall>l \<in> set ls. ol_instrument_symbol l \<noteq> [] \<and> units (ol_weight l) \<noteq> 0)
     \<and> sorted_wrt (<) ((case prev of None \<Rightarrow> [] | Some p \<Rightarrow> [p]) @ map ol_instrument_symbol ls)"
  by (induction ls arbitrary: prev)
    (auto simp: has_non_zero_weight_iff split: option.splits dest: less_trans)

text \<open>The invariant of an order of the engine.\<close>

definition well_formed_order :: "book_order \<Rightarrow> bool" where
  "well_formed_order b \<longleftrightarrow> bo_legs b \<noteq> []
     \<and> (\<forall>l \<in> set (bo_legs b). ol_instrument_symbol l \<noteq> [] \<and> units (ol_weight l) \<noteq> 0)
     \<and> sorted_wrt (<) (map ol_instrument_symbol (bo_legs b))
     \<and> dcmp (bo_filled_cum b) (bo_q_max b) \<le> 0"

lemma well_formed_iff: "well_formed_order b \<longleftrightarrow> has_valid_legs b \<and> has_valid_fill_state b"
  by (auto simp: well_formed_order_def has_valid_legs_def has_valid_fill_state_def valid_legs_loop_iff)

section \<open>From the message\<close>

lemma initial_filled_value:
  assumes "amount s m q_max" "amount s m remaining"
  shows "dval (initial_filled q_max remaining) = max 0 (dval q_max - dval remaining)"
    and "amount s m (initial_filled q_max remaining)"
proof -
  let ?f = "clamp_neg (dsub q_max remaining)"
  note c = clamp_sub[OF assms]
  have "\<not> dval q_max < dval ?f" using c(1) amount_nonneg[OF assms(1)] amount_nonneg[OF assms(2)] by auto
  then have "initial_filled q_max remaining = ?f"
    using amount_cmp(3)[OF c(2) assms(1)] by (simp add: initial_filled_def clamp_neg_def[symmetric] Let_def)
  then show "dval (initial_filled q_max remaining) = max 0 (dval q_max - dval remaining)"
    "amount s m (initial_filled q_max remaining)" using c by auto
qed

lemma negated_price:
  assumes "amount s m p"
  shows "dval (dsub dzero p) = - dval p"
  using amount_sub(1)[of s m dzero p] assms amount_bound[OF assms] by (simp add: amount_def)

text \<open>An order that arrives as a message. The engine's order is well formed as soon as the
  message names an instrument; what is left of it is the smaller of the size and the
  remaining quantity of the message; a sell order carries its price range negated; and it is
  matched from its creation on exactly when it is neither immediate-or-cancel nor
  fill-or-kill, something is left, and its status is partially filled or unspecified (an
  order that arrives as new is never matched from the message).
\<close>

theorem incoming_order_well_formed:
  fixes p :: order_message and now t :: int
  assumes "amount s m (fo_total_qty p)" "amount s m (fo_remaining_qty p)"
    and "amount s m (fo_price_low p)" "amount s m (fo_price_high p)"
  defines "b \<equiv> from_proto now p"
    and "left \<equiv> (if om_has_remaining_qty p then min (dval (fo_total_qty p)) (dval (fo_remaining_qty p))
                 else dval (fo_total_qty p))"
  shows "(well_formed_order b \<longleftrightarrow> leg_symbol (fo_instrument p) \<noteq> [])
    \<and> order_amounts s m b \<and> dval (remaining_qty b) = left
    \<and> (dval (bo_p_low b), dval (bo_p_high b)) =
        (if fo_side p = SIDE_SELL then (- dval (fo_price_high p), - dval (fo_price_low p))
         else (dval (fo_price_low p), dval (fo_price_high p)))
    \<and> (is_matchable_at t b \<longleftrightarrow> fo_tif p \<notin> {TIF_IOC, TIF_FOK}
        \<and> fo_status p \<in> {ORDER_STATUS_UNSPECIFIED, ORDER_STATUS_PARTIALLY_FILLED}
        \<and> 0 < left \<and> (if om_has_created_at p then ts_to_tp (fo_created_at p) else now) \<le> t)"
proof -
  let ?r = "if om_has_remaining_qty p then fo_remaining_qty p else fo_total_qty p"
  have r: "amount s m ?r" using assms(1,2) by simp
  note f = initial_filled_value[OF assms(1) r]
  have sel: "bo_q_max b = fo_total_qty p" "bo_filled_cum b = initial_filled (fo_total_qty p) ?r"
    "bo_window_end b = None" "bo_time_in_force b = map_tif (fo_tif p)" "bo_status b = map_status (fo_status p)"
    "bo_window_start b = (if om_has_created_at p then ts_to_tp (fo_created_at p) else now)"
    by (simp_all add: b_def from_proto_def Let_def)
  have oa: "order_amounts s m b" using assms(1) f(2) by (simp add: order_amounts_def sel)
  have nn: "0 \<le> dval (fo_total_qty p)" "0 \<le> dval (fo_remaining_qty p)"
    using assms(1,2) by (auto intro: amount_nonneg)
  have left: "dval (remaining_qty b) = left"
    unfolding remaining_value[OF oa] sel(1,2) f(1) left_def using nn by auto
  have "dcmp (bo_filled_cum b) (bo_q_max b) \<le> 0"
    unfolding sel(1,2) amount_cmp(1)[OF f(2) assms(1)] f(1) using nn by auto
  then have wf: "well_formed_order b \<longleftrightarrow> leg_symbol (fo_instrument p) \<noteq> []"
    by (auto simp: well_formed_order_def b_def from_proto_def Let_def sort_legs_by_symbol_def)
  have full: "0 \<le> dcmp (bo_filled_cum b) (bo_q_max b) \<longleftrightarrow> \<not> 0 < left"
    unfolding sel(1,2) amount_cmp(2)[OF f(2) assms(1)] f(1) left_def using nn by auto
  have tif: "map_tif (fo_tif p) = KIoc \<longleftrightarrow> fo_tif p \<in> {TIF_IOC, TIF_FOK}"
    by (cases "fo_tif p") auto
  have act: "is_active_for_batch b \<longleftrightarrow> fo_status p \<in> {ORDER_STATUS_UNSPECIFIED, ORDER_STATUS_PARTIALLY_FILLED}"
    by (cases "fo_status p") (simp_all add: is_active_for_batch_def sel)
  have "is_matchable_at t b \<longleftrightarrow> fo_tif p \<notin> {TIF_IOC, TIF_FOK}
        \<and> fo_status p \<in> {ORDER_STATUS_UNSPECIFIED, ORDER_STATUS_PARTIALLY_FILLED}
        \<and> 0 < left \<and> (if om_has_created_at p then ts_to_tp (fo_created_at p) else now) \<le> t"
    unfolding is_matchable_at_def full act unfolding sel tif by auto
  moreover have "(dval (bo_p_low b), dval (bo_p_high b)) =
        (if fo_side p = SIDE_SELL then (- dval (fo_price_high p), - dval (fo_price_low p))
         else (dval (fo_price_low p), dval (fo_price_high p)))"
    using negated_price[OF assms(3)] negated_price[OF assms(4)] by (simp add: b_def from_proto_def Let_def)
  ultimately show ?thesis using wf oa left by blast
qed

section \<open>From the table\<close>

lemma map_all_Some: "map_all f xs = Some ys \<longleftrightarrow> list_all2 (\<lambda>x y. f x = Some y) xs ys"
proof (induction xs arbitrary: ys)
  case Nil
  then show ?case by auto
next
  case (Cons x xs)
  then show ?case by (cases ys) (auto split: option.splits simp: list_all2_Cons1)
qed

definition but_legs :: "book_order \<Rightarrow> book_order" where
  "but_legs b = b\<lparr>bo_legs := []\<rparr>"

lemma but_legs_upd [simp]: "but_legs (b\<lparr>bo_legs := ls\<rparr>) = but_legs b"
  by (simp add: but_legs_def)

lemma attach_legs_frame:
  "attach_legs rs bs = Some bs' \<Longrightarrow> map but_legs bs' = map but_legs bs"
proof (induction rs arbitrary: bs)
  case Nil
  then show ?case by simp
next
  case (Cons r rs)
  then show ?case by (auto simp: attach_leg_def split: option.splits if_splits)
qed

lemma finish_order_Some:
  assumes "finish_order b = Some c"
  shows "well_formed_order c" "bo_order_id c = bo_order_id b"
    "bo_legs c = sort_key ol_instrument_symbol (bo_legs b)"
    "(bo_p_low c, bo_p_high c) = (if dcmp (ol_weight (hd (bo_legs c))) dzero < 0
       then (dsub dzero (bo_p_high b), dsub dzero (bo_p_low b)) else (bo_p_low b, bo_p_high b))"
proof -
  define x where "x = b\<lparr>bo_legs := sort_legs_by_symbol (bo_legs b)\<rparr>"
  have c: "c = flip_sell_prices x" "validate_loaded_order c"
    using assms by (auto simp: finish_order_def x_def Let_def split: if_splits)
  show "well_formed_order c" using c(2) by (auto simp: well_formed_iff validate_loaded_order_def split: if_splits)
  then have ne: "bo_legs c \<noteq> []" by (simp add: well_formed_order_def)
  have legs: "bo_legs c = bo_legs x" by (simp add: c(1) flip_sell_prices_def split: list.split)
  then show "bo_legs c = sort_key ol_instrument_symbol (bo_legs b)" by (simp add: x_def sort_legs_by_symbol_def)
  show "bo_order_id c = bo_order_id b" by (simp add: c(1) flip_sell_prices_def x_def split: list.split)
  from ne legs obtain l ls where "bo_legs x = l # ls" by (cases "bo_legs x") auto
  then show "(bo_p_low c, bo_p_high c) = (if dcmp (ol_weight (hd (bo_legs c))) dzero < 0
       then (dsub dzero (bo_p_high b), dsub dzero (bo_p_low b)) else (bo_p_low b, bo_p_high b))"
    using legs by (simp add: c(1) flip_sell_prices_def) (simp add: x_def)
qed

text \<open>C18. Orders loaded from the table. If the load returns, it returns one order per row, in the
  order of the rows, every order well formed, and with its price range negated and swapped
  when its first leg sells; a row or a leg that breaks this makes the load fail as a whole.
\<close>

theorem loaded_orders_well_formed:
  assumes "LoadActiveFlowOrders filt limit rows legs = Some bs"
  shows "map bo_order_id bs = map rw_order_id rows \<and> (\<forall>b \<in> set bs. well_formed_order b)
    \<and> list_all2 (\<lambda>r b. \<exists>raw. map_flow_order r = Some raw
        \<and> (bo_p_low b, bo_p_high b) = (if dcmp (ol_weight (hd (bo_legs b))) dzero < 0
             then (dsub dzero (bo_p_high raw), dsub dzero (bo_p_low raw))
             else (bo_p_low raw, bo_p_high raw))) rows bs"
proof -
  obtain raw mid where st: "map_all map_flow_order rows = Some raw"
    "(if raw = [] then Some raw else attach_legs legs raw) = Some mid" "map_all finish_order mid = Some bs"
    using assms by (auto simp: LoadActiveFlowOrders_def split: if_splits option.splits)
  have mid: "map but_legs mid = map but_legs raw"
    using st(2) attach_legs_frame by (auto split: if_splits)
  have len: "length raw = length rows" "length mid = length raw" "length bs = length mid"
    using st(1,3) mid map_eq_imp_length_eq[OF mid] by (auto simp: map_all_Some dest: list_all2_lengthD)
  have nth: "map_flow_order (rows ! i) = Some (raw ! i) \<and> but_legs (mid ! i) = but_legs (raw ! i)
      \<and> finish_order (mid ! i) = Some (bs ! i)" if "i < length rows" for i
    using that st(1,3) mid len nth_map[of i mid but_legs] nth_map[of i raw but_legs]
    by (auto simp: map_all_Some list_all2_conv_all_nth)
  have same: "bo_order_id x = bo_order_id y \<and> bo_p_low x = bo_p_low y \<and> bo_p_high x = bo_p_high y"
    if "but_legs x = but_legs y" for x y
    using arg_cong[OF that, of bo_order_id] arg_cong[OF that, of bo_p_low] arg_cong[OF that, of bo_p_high]
    by (simp add: but_legs_def)
  have id: "bo_order_id y = rw_order_id r" if "map_flow_order r = Some y" for r y
    using that by (auto simp: map_flow_order_def split: option.splits)
  have row: "bo_order_id (bs ! i) = rw_order_id (rows ! i) \<and> well_formed_order (bs ! i)
      \<and> (\<exists>raw. map_flow_order (rows ! i) = Some raw
        \<and> (bo_p_low (bs ! i), bo_p_high (bs ! i)) = (if dcmp (ol_weight (hd (bo_legs (bs ! i)))) dzero < 0
             then (dsub dzero (bo_p_high raw), dsub dzero (bo_p_low raw))
             else (bo_p_low raw, bo_p_high raw)))" if i: "i < length rows" for i
    using nth[OF i] finish_order_Some[of "mid ! i" "bs ! i"] same[of "mid ! i" "raw ! i"]
      id[of "rows ! i" "raw ! i"] by simp
  have "map bo_order_id bs = map rw_order_id rows"
    using row len by (intro nth_equalityI) auto
  moreover have "\<forall>b \<in> set bs. well_formed_order b"
    using row len by (auto simp: in_set_conv_nth)
  ultimately show ?thesis using row len by (auto simp: list_all2_conv_all_nth)
qed

section \<open>Examples\<close>

definition ex_order_message :: order_message where
  "ex_order_message = \<lparr>fo_order_id = ''o2'', fo_client_order_id = [], fo_user_id = ''u2'',
     fo_account_id = [], fo_instrument = \<lparr>in_symbol = [], in_base = ''BTC'', in_quote = ''USDT''\<rparr>,
     fo_side = SIDE_SELL, fo_total_qty = mk_dec 10 0, fo_remaining_qty = mk_dec 75 1,
     fo_price_low = mk_dec 90 0, fo_price_high = mk_dec 110 0, fo_max_speed = mk_dec 1 0,
     fo_status = ORDER_STATUS_PARTIALLY_FILLED, fo_created_at = (5, 0), fo_updated_at = (5, 0),
     fo_tif = TIF_GTC, fo_tags = [], om_has_remaining_qty = True, om_has_created_at = True,
     om_has_updated_at = True\<rparr>"

theorem incoming_order_well_formed_witness:
  "is_matchable_at 6000000000 (from_proto 0 ex_order_message)
   \<and> dval (remaining_qty (from_proto 0 ex_order_message)) = 15 / 2"
proof -
  let ?p = ex_order_message
  have am: "amount 1 1000000 (fo_total_qty ?p)" "amount 1 1000000 (fo_remaining_qty ?p)"
    "amount 1 1000000 (fo_price_low ?p)" "amount 1 1000000 (fo_price_high ?p)"
    by (simp_all add: ex_order_message_def amount_def grid_def at_scale_def)
  show ?thesis
    using incoming_order_well_formed[OF am, of 0 6000000000]
    by (simp add: ex_order_message_def ts_to_tp_def i64_def)
qed

definition ex_order_rows :: "order_row list" where
  "ex_order_rows = [\<lparr>rw_order_id = ''o3'', rw_user_id = ''u3'', rw_p_low = ''90.000'', rw_p_high = ''110.5'',
     rw_q_rate = ''1'', rw_q_max = ''10'', rw_filled_cum = ''2.50'', rw_time_in_force = ''GTC'',
     rw_status = ''active'', rw_window_start_epoch = 5, rw_window_end_epoch = None,
     rw_created_at_epoch = 5, rw_updated_at_epoch = 5\<rparr>]"

definition ex_leg_rows :: "leg_row list" where
  "ex_leg_rows = [\<lparr>lw_order_id = ''o3'', lw_instrument_symbol = ''BTC/USDT'', lw_weight = ''-1''\<rparr>]"

theorem loaded_orders_well_formed_witness:
  "\<exists>b. LoadActiveFlowOrders None None ex_order_rows ex_leg_rows = Some [b] \<and> well_formed_order b
     \<and> bo_p_low b = mk_dec (-1105) 1"
proof -
  have run: "map_option (map bo_p_low) (LoadActiveFlowOrders None None ex_order_rows ex_leg_rows)
      = Some [mk_dec (-1105) 1]"
    by code_simp
  then obtain b where b: "LoadActiveFlowOrders None None ex_order_rows ex_leg_rows = Some [b]"
    "bo_p_low b = mk_dec (-1105) 1" by auto
  show ?thesis using loaded_orders_well_formed[OF b(1)] b by auto
qed

end
