(* ===== verification/Matching_Hedging.thy ===== *)
theory Matching_Hedging
  imports Matching_Books
begin

text \<open>
  The automatic hedge after a batch, from the fills to the published intents: every net
  position beyond its threshold is offset exactly by one intent.
\<close>

section \<open>Net positions\<close>

definition signed_qty :: "flow_fill \<Rightarrow> rat" where
  "signed_qty f = (if ff_side f = SIDE_BUY then dval (ff_executed_qty f) else - dval (ff_executed_qty f))"

definition net_position :: "string \<Rightarrow> string \<Rightarrow> flow_fill list \<Rightarrow> rat" where
  "net_position u i fs = (\<Sum>f \<leftarrow> fs. if IsValidFill f \<and> ff_user_id f = u \<and> in_symbol (ff_instrument f) = i
     then signed_qty f else 0)"

lemma net_position_simps [simp]:
  "net_position u i [] = 0"
  "net_position u i (fs @ [f]) = net_position u i fs
     + (if IsValidFill f \<and> ff_user_id f = u \<and> in_symbol (ff_instrument f) = i then signed_qty f else 0)"
  by (simp_all add: net_position_def)

definition plain_id :: "string \<Rightarrow> bool" where
  "plain_id u \<longleftrightarrow> CHR 0x1F \<notin> set u \<and> CHR ''|'' \<notin> set u"

lemma split_unique:
  assumes "xs @ c # ys = xs' @ c # ys'" "c \<notin> set xs" "c \<notin> set xs'"
  shows "xs = xs' \<and> ys = ys'"
  using assms
proof (induction xs arbitrary: xs')
  case Nil
  then show ?case by (cases xs') auto
next
  case (Cons x xs)
  then show ?case by (cases xs') auto
qed

lemma SnapshotKey_inj:
  "SnapshotKey u i = SnapshotKey u' i' \<Longrightarrow> plain_id u \<Longrightarrow> plain_id u' \<Longrightarrow> u = u' \<and> i = i'"
  using split_unique[of u "CHR 0x1F" i u' i'] by (auto simp: SnapshotKey_def plain_id_def)

text \<open>The table of running totals, after a prefix of the fills.\<close>

definition position_totals ::
    "nat \<Rightarrow> int \<Rightarrow> flow_fill list \<Rightarrow> snapshot_accumulator umap \<Rightarrow> bool" where
  "position_totals s m fs t \<longleftrightarrow> distinct (map fst t)
     \<and> (\<forall>(k, a) \<in> set t. k = SnapshotKey (sa_provider_id a) (sa_symbol a) \<and> plain_id (sa_provider_id a)
          \<and> grid s (int (length fs) * m) (sa_net_qty a)
          \<and> dval (sa_net_qty a) = net_position (sa_provider_id a) (sa_symbol a) fs)
     \<and> (\<forall>u i. plain_id u \<longrightarrow> find t (SnapshotKey u i) = None \<longrightarrow> net_position u i fs = 0)"

lemma position_totals_step:
  assumes "position_totals s m fs t" "grid s m (ff_executed_qty f)" "plain_id (ff_user_id f)"
    and "int (length fs + 1) * m \<le> max_units"
  shows "position_totals s m (fs @ [f]) (accumulate_fill t f)"
proof (cases "IsValidFill f")
  case False
  have "grid s (int (length fs) * m) d \<Longrightarrow> grid s (int (length (fs @ [f])) * m) d" for d
    using grid_nonneg[OF assms(2)] by (auto intro: grid_mono simp: distrib_right)
  then show ?thesis using assms(1) False
    by (auto simp: position_totals_def accumulate_fill_def split_beta)
next
  case True
  let ?u = "ff_user_id f" and ?i = "in_symbol (ff_instrument f)" and ?q = "ff_executed_qty f"
  let ?k = "SnapshotKey ?u ?i" and ?n = "int (length fs) * m"
  define a where "a = find_or \<lparr>sa_provider_id = ?u, sa_symbol = ?i, sa_net_qty = dzero\<rparr> t ?k"
  define b where "b = a\<lparr>sa_net_qty := if ff_side f = SIDE_BUY then dadd (sa_net_qty a) ?q
      else dsub (sa_net_qty a) ?q\<rparr>"
  have acc: "accumulate_fill t f = put ?k b t"
    using True by (simp add: accumulate_fill_def Let_def a_def b_def)
  have nn: "0 \<le> ?n" using grid_nonneg[OF assms(2)] by simp
  have len: "int (length (fs @ [f])) * m = ?n + m" by (simp add: distrib_right)
  have a: "sa_provider_id a = ?u" "sa_symbol a = ?i" "grid s ?n (sa_net_qty a)"
    "dval (sa_net_qty a) = net_position ?u ?i fs"
  proof -
    have "sa_provider_id a = ?u \<and> sa_symbol a = ?i \<and> grid s ?n (sa_net_qty a)
      \<and> dval (sa_net_qty a) = net_position ?u ?i fs"
    proof (cases "find t ?k")
      case None
      then show ?thesis using assms nn grid_le_18[OF assms(2)]
        by (simp add: a_def find_or_None position_totals_def)
    next
      case (Some x)
      then have "(?k, x) \<in> set t" by (auto simp: find_def dest: map_of_SomeD)
      then have "?k = SnapshotKey (sa_provider_id x) (sa_symbol x)" "plain_id (sa_provider_id x)"
        "grid s ?n (sa_net_qty x)" "dval (sa_net_qty x) = net_position (sa_provider_id x) (sa_symbol x) fs"
        using assms(1) by (auto simp: position_totals_def)
      then show ?thesis using SnapshotKey_inj[of ?u ?i] assms(3) Some by (simp add: a_def find_or_Some)
    qed
    then show "sa_provider_id a = ?u" "sa_symbol a = ?i" "grid s ?n (sa_net_qty a)"
      "dval (sa_net_qty a) = net_position ?u ?i fs" by auto
  qed
  have fit: "?n + m \<le> max_units" using assms(4) by (simp add: distrib_right)
  note add = grid_add[OF a(3) assms(2) fit] and sub = grid_sub[OF a(3) assms(2) fit]
  have b: "sa_provider_id b = ?u" "sa_symbol b = ?i" "grid s (?n + m) (sa_net_qty b)"
    "dval (sa_net_qty b) = net_position ?u ?i (fs @ [f])"
    using a add sub True by (auto simp: b_def signed_qty_def)
  have old: "(k, x) \<in> set (put ?k b t) \<Longrightarrow> (k, x) = (?k, b) \<or> (k, x) \<in> set t \<and> k \<noteq> ?k" for k x
    using assms(1) find_put[of ?k b t k] distinct_put[of t ?k b]
    by (auto simp: find_def position_totals_def split: if_splits)
  have all: "k = SnapshotKey (sa_provider_id x) (sa_symbol x) \<and> plain_id (sa_provider_id x)
          \<and> grid s (?n + m) (sa_net_qty x)
          \<and> dval (sa_net_qty x) = net_position (sa_provider_id x) (sa_symbol x) (fs @ [f])"
    if kx: "(k, x) \<in> set (put ?k b t)" for k x
    using old[OF kx]
  proof
    assume "(k, x) = (?k, b)"
    then show ?thesis using b assms(3) by simp
  next
    assume o: "(k, x) \<in> set t \<and> k \<noteq> ?k"
    then have x: "k = SnapshotKey (sa_provider_id x) (sa_symbol x)" "plain_id (sa_provider_id x)"
        "grid s ?n (sa_net_qty x)" "dval (sa_net_qty x) = net_position (sa_provider_id x) (sa_symbol x) fs"
      using assms(1) by (auto simp: position_totals_def)
    moreover have "\<not> (?u = sa_provider_id x \<and> ?i = sa_symbol x)" using o x(1) by auto
    ultimately show ?thesis using grid_mono[OF x(3), of "?n + m"] grid_nonneg[OF assms(2)] by auto
  qed
  have absent: "net_position u i (fs @ [f]) = 0"
    if "plain_id u" "find (put ?k b t) (SnapshotKey u i) = None" for u i
  proof -
    have k: "SnapshotKey u i \<noteq> ?k" and "find t (SnapshotKey u i) = None"
      using that(2) by (simp_all split: if_splits)
    then have "net_position u i fs = 0" using assms(1) that(1) unfolding position_totals_def by blast
    moreover have "\<not> (?u = u \<and> ?i = i)" using k by blast
    ultimately show ?thesis by auto
  qed
  have "distinct (map fst (put ?k b t))"
    using assms(1) by (simp add: position_totals_def distinct_put)
  moreover have "\<forall>(k, x) \<in> set (put ?k b t). k = SnapshotKey (sa_provider_id x) (sa_symbol x)
      \<and> plain_id (sa_provider_id x) \<and> grid s (?n + m) (sa_net_qty x)
      \<and> dval (sa_net_qty x) = net_position (sa_provider_id x) (sa_symbol x) (fs @ [f])"
    using all by blast
  moreover have "\<forall>u i. plain_id u \<longrightarrow> find (put ?k b t) (SnapshotKey u i) = None \<longrightarrow>
      net_position u i (fs @ [f]) = 0"
    using absent by blast
  ultimately show ?thesis unfolding position_totals_def acc len by (intro conjI)
qed

lemma position_totals:
  assumes "\<forall>f \<in> set fs. grid s m (ff_executed_qty f) \<and> plain_id (ff_user_id f)"
    and "int (length fs) * m \<le> max_units"
  shows "position_totals s m fs (foldl accumulate_fill [] fs)"
  using assms
proof (induction fs rule: rev_induct)
  case Nil
  then show ?case by (simp add: position_totals_def)
next
  case (snoc f fs)
  have "0 \<le> m" using snoc.prems(1) by (auto dest: grid_nonneg)
  then have "int (length fs) * m \<le> max_units" using snoc.prems(2) by (simp add: distrib_right)
  then have "position_totals s m fs (foldl accumulate_fill [] fs)" using snoc by auto
  then show ?case using snoc.prems position_totals_step[of s m fs _ f] by auto
qed

section \<open>Snapshots\<close>

lemma snapshots_of_batch:
  assumes "\<forall>f \<in> set (br_fills b). grid s m (ff_executed_qty f) \<and> plain_id (ff_user_id f)"
    and "int (length (br_fills b)) * m \<le> max_units"
  shows "x \<in> set (CalculateSnapshots b) \<Longrightarrow>
      dval (sn_net_qty x) = net_position (sn_provider_id x) (sn_symbol x) (br_fills b)
      \<and> sn_clearing_price x = find_or dzero (br_clear_prices b) (sn_symbol x)
      \<and> grid s (int (length (br_fills b)) * m) (sn_net_qty x) \<and> dval (sn_net_qty x) \<noteq> 0
      \<and> plain_id (sn_provider_id x) \<and> sn_batch_id x = br_batch_id b"
    and "plain_id u \<Longrightarrow> net_position u i (br_fills b) \<noteq> 0 \<Longrightarrow>
      \<exists>x \<in> set (CalculateSnapshots b). sn_provider_id x = u \<and> sn_symbol x = i"
    and "distinct (map (\<lambda>x. (sn_provider_id x, sn_symbol x)) (CalculateSnapshots b))"
proof -
  let ?t = "foldl accumulate_fill [] (br_fills b)" and ?M = "int (length (br_fills b)) * m"
  note t = position_totals[OF assms]
  have z: "dcmp d dzero \<noteq> 0 \<longleftrightarrow> dval d \<noteq> 0" if "grid s ?M d" for d
    using dcmp_iffs(3)[OF grid_wf[OF that assms(2)] wf_dzero] by simp
  show "dval (sn_net_qty x) = net_position (sn_provider_id x) (sn_symbol x) (br_fills b)
      \<and> sn_clearing_price x = find_or dzero (br_clear_prices b) (sn_symbol x)
      \<and> grid s (int (length (br_fills b)) * m) (sn_net_qty x) \<and> dval (sn_net_qty x) \<noteq> 0
      \<and> plain_id (sn_provider_id x) \<and> sn_batch_id x = br_batch_id b"
    if x: "x \<in> set (CalculateSnapshots b)"
  proof -
    obtain k a where a: "(k, a) \<in> set ?t" "dcmp (sa_net_qty a) dzero \<noteq> 0" "x = batch_snapshot b a"
      using x by (auto simp: CalculateSnapshots_def)
    then have ok: "plain_id (sa_provider_id a)" "grid s ?M (sa_net_qty a)"
      "dval (sa_net_qty a) = net_position (sa_provider_id a) (sa_symbol a) (br_fills b)"
      using t by (auto simp: position_totals_def)
    then show ?thesis using z[OF ok(2)] a(2,3) by (simp add: batch_snapshot_def)
  qed
  show "\<exists>x \<in> set (CalculateSnapshots b). sn_provider_id x = u \<and> sn_symbol x = i"
    if u: "plain_id u" and ne: "net_position u i (br_fills b) \<noteq> 0"
  proof -
    obtain a where "find ?t (SnapshotKey u i) = Some a"
      using t u ne by (cases "find ?t (SnapshotKey u i)") (auto simp: position_totals_def)
    then have a: "(SnapshotKey u i, a) \<in> set ?t" by (auto simp: find_def dest: map_of_SomeD)
    then have ok: "SnapshotKey u i = SnapshotKey (sa_provider_id a) (sa_symbol a)" "plain_id (sa_provider_id a)"
      "grid s ?M (sa_net_qty a)"
      "dval (sa_net_qty a) = net_position (sa_provider_id a) (sa_symbol a) (br_fills b)"
      using t by (auto simp: position_totals_def)
    then have id: "sa_provider_id a = u" "sa_symbol a = i" using SnapshotKey_inj[OF ok(1)] u by auto
    then have "dcmp (sa_net_qty a) dzero \<noteq> 0" using z[OF ok(3)] ok(4) ne by simp
    then have "batch_snapshot b a \<in> set (CalculateSnapshots b)" using a by (force simp: CalculateSnapshots_def)
    then show ?thesis using id by (force simp: batch_snapshot_def)
  qed
  have "distinct (map (\<lambda>a. (sa_provider_id a, sa_symbol a)) (map snd ?t))"
  proof (rule distinct_map[THEN iffD2], intro conjI)
    have key: "fst ka = SnapshotKey (sa_provider_id (snd ka)) (sa_symbol (snd ka))" if "ka \<in> set ?t" for ka
      using t that by (auto simp: position_totals_def)
    have d: "distinct (map fst ?t)" using t by (simp add: position_totals_def)
    have inj: "inj_on (\<lambda>ka. (sa_provider_id (snd ka), sa_symbol (snd ka))) (set ?t)"
    proof (rule inj_onI)
      fix x y assume "x \<in> set ?t" "y \<in> set ?t"
        "(sa_provider_id (snd x), sa_symbol (snd x)) = (sa_provider_id (snd y), sa_symbol (snd y))"
      then have "fst x = fst y" using key by simp
      then show "x = y" using d \<open>x \<in> set ?t\<close> \<open>y \<in> set ?t\<close> by (metis eq_key_imp_eq_value prod.collapse)
    qed
    show "distinct (map snd ?t)"
      using inj d by (auto simp: distinct_map intro: inj_on_imageI2[of "\<lambda>a. (sa_provider_id a, sa_symbol a)"] simp: comp_def)
    show "inj_on (\<lambda>a. (sa_provider_id a, sa_symbol a)) (set (map snd ?t))"
      using inj by (auto simp: inj_on_def)
  qed
  then have "distinct (map (\<lambda>a. (sa_provider_id a, sa_symbol a)) (filter (\<lambda>a. dcmp (sa_net_qty a) dzero \<noteq> 0) (map snd ?t)))"
    by (rule distinct_map_filter)
  then show "distinct (map (\<lambda>x. (sn_provider_id x, sn_symbol x)) (CalculateSnapshots b))"
    by (simp add: CalculateSnapshots_def batch_snapshot_def comp_def)
qed

section \<open>Intents\<close>

text \<open>When the configuration calls for a hedge of a net position at a clearing price.\<close>

definition hedge_due :: "hedge_trigger_config \<Rightarrow> string \<Rightarrow> rat \<Rightarrow> rat \<Rightarrow> bool" where
  "hedge_due c i net price \<longleftrightarrow> 0 < price \<and>
     (let t = ResolveThresholdForSymbol c i; q = dval (ht_threshold_qty t); n = dval (ht_threshold_notional t)
      in (0 < q \<and> q < \<bar>net\<bar>) \<or> (0 < n \<and> n < \<bar>net\<bar> * price))"

definition thresholds_wf :: "hedge_trigger_config \<Rightarrow> bool" where
  "thresholds_wf c \<longleftrightarrow> (\<forall>i. wf_dec (ht_threshold_qty (ResolveThresholdForSymbol c i))
     \<and> wf_dec (ht_threshold_notional (ResolveThresholdForSymbol c i)))"

lemma dcmp_dzero:
  "wf_dec d \<Longrightarrow> 0 < dcmp d dzero \<longleftrightarrow> 0 < dval d" "wf_dec d \<Longrightarrow> 0 \<le> dcmp d dzero \<longleftrightarrow> 0 \<le> dval d"
  "wf_dec d \<Longrightarrow> dcmp d dzero = 0 \<longleftrightarrow> dval d = 0"
  using dcmp_iffs[of d dzero] by auto

lemma AbsDecimal_value:
  assumes "grid s M d" "M \<le> max_units"
  shows "dval (AbsDecimal d) = \<bar>dval d\<bar>" "grid s M (AbsDecimal d)"
proof -
  have z: "grid s 0 dzero" using grid_le_18[OF assms(1)] by simp
  note sub = grid_sub[OF z assms(1)]
  show "dval (AbsDecimal d) = \<bar>dval d\<bar>" "grid s M (AbsDecimal d)"
    using sub assms dcmp_dzero(2)[OF grid_wf[OF assms]] by (auto simp: AbsDecimal_def)
qed

lemma built_iff:
  assumes "grid s M (sn_net_qty x)" "grid t P (sn_clearing_price x)" "s + t \<le> 18"
    and "M \<le> max_units" "P \<le> max_units" "M * P \<le> max_units" "thresholds_wf c" "dval (sn_net_qty x) \<noteq> 0"
  shows "fst (build_hedge_intent now ic (EvaluateTrigger_snapshot c x)) =
    (if hedge_due c (sn_symbol x) (dval (sn_net_qty x)) (dval (sn_clearing_price x))
     then Some (hedge_intent now ic x) else None)"
proof -
  note ab = AbsDecimal_value[OF assms(1,4)]
  note mul = grid_mul[OF ab(2) assms(2,3,4,5,6)]
  have wf: "wf_dec (AbsDecimal (sn_net_qty x))" "wf_dec (sn_clearing_price x)" "wf_dec (sn_net_qty x)"
    "wf_dec (dmul (AbsDecimal (sn_net_qty x)) (sn_clearing_price x))"
    using grid_wf[OF ab(2) assms(4)] grid_wf[OF assms(2,5)] grid_wf[OF assms(1,4)] grid_wf[OF mul(2) assms(6)]
    by auto
  let ?t = "ResolveThresholdForSymbol c (sn_symbol x)"
  have th: "wf_dec (ht_threshold_qty ?t)" "wf_dec (ht_threshold_notional ?t)"
    using assms(7) by (auto simp: thresholds_wf_def)
  have trig: "td_triggered (EvaluateTrigger_snapshot c x) \<longleftrightarrow>
      (0 < dval (ht_threshold_qty ?t) \<and> dval (ht_threshold_qty ?t) < \<bar>dval (sn_net_qty x)\<bar>)
      \<or> (0 < dval (ht_threshold_notional ?t) \<and> 0 < dval (sn_clearing_price x)
          \<and> dval (ht_threshold_notional ?t) < \<bar>dval (sn_net_qty x)\<bar> * dval (sn_clearing_price x))"
    using dcmp_iffs(2)[OF wf(1) th(1)] dcmp_iffs(2)[OF wf(4) th(2)] dcmp_dzero(1)[OF th(1)]
      dcmp_dzero(1)[OF th(2)] dcmp_dzero(1)[OF wf(2)] ab(1) mul(1)
    by (auto simp: EvaluateTrigger_snapshot_def Let_def IsThresholdEnabled_def HasValidReferenceMid_def)
  have snap: "td_snapshot (EvaluateTrigger_snapshot c x) = x"
    by (simp add: EvaluateTrigger_snapshot_def Let_def)
  show ?thesis
    using trig dcmp_dzero(1)[OF wf(2)] dcmp_dzero(3)[OF wf(3)] assms(8)
    by (auto simp: build_hedge_intent_def snap HasValidReferenceMid_def hedge_due_def Let_def)
qed

lemma intents_of_snapshots:
  assumes "\<And>x. x \<in> set xs \<Longrightarrow> fst (build_hedge_intent now ic (EvaluateTrigger_snapshot c x)) =
      (if due x then Some (hedge_intent now ic x) else None)"
  shows "fst (BuildFromHedgeTriggerDecisions now ic (EvaluateTriggers c xs)) =
    map (hedge_intent now ic) (filter due xs)"
  using assms
  by (induction xs) (auto simp: BuildFromHedgeTriggerDecisions_def EvaluateTriggers_def map_filter_simps)

lemma hedge_intent_sel [simp]:
  "ei_provider_id (hedge_intent now ic x) = sn_provider_id x"
  "in_symbol (ei_instrument (hedge_intent now ic x)) = sn_symbol x"
  "ei_target_qty (hedge_intent now ic x) = AbsDecimal (sn_net_qty x)"
  "ei_side (hedge_intent now ic x) = (if 0 < dcmp (sn_net_qty x) dzero then SIDE_SELL else SIDE_BUY)"
  "ei_hedge_flow_id (hedge_intent now ic x) = MakeHedgeFlowId x"
  by (simp_all add: hedge_intent_def Let_def PopulateInstrument_def split: option.split)

lemma publish_distinct:
  assumes "distinct (map ei_hedge_flow_id xs)" "\<forall>x \<in> set xs. ei_hedge_flow_id x \<noteq> [] \<and> ei_hedge_flow_id x \<notin> set seen"
  shows "pr_sent (fst (foldl (publish_one produce) (r, seen) xs)) = pr_sent r @ filter produce xs
    \<and> pr_deduped (fst (foldl (publish_one produce) (r, seen) xs)) = pr_deduped r"
  using assms
proof (induction xs arbitrary: r seen)
  case Nil
  then show ?case by simp
next
  case (Cons x xs)
  obtain r' where r': "publish_one produce (r, seen) x = (r', ei_hedge_flow_id x # seen)"
    "pr_sent r' = pr_sent r @ filter produce [x]" "pr_deduped r' = pr_deduped r"
    using Cons.prems by (cases "produce x") (auto simp: publish_one_def Let_def)
  have "\<forall>y \<in> set xs. ei_hedge_flow_id y \<noteq> [] \<and> ei_hedge_flow_id y \<notin> set (ei_hedge_flow_id x # seen)"
    using Cons.prems by (auto simp: image_iff)
  from Cons.IH[OF _ this, of r'] Cons.prems(1) r' show ?case by simp
qed

lemma flow_ids_distinct:
  assumes "distinct (map (\<lambda>x. (sn_provider_id x, sn_symbol x)) xs)"
    and "\<forall>x \<in> set xs. plain_id (sn_provider_id x) \<and> sn_batch_id x = b"
  shows "distinct (map MakeHedgeFlowId xs)"
proof -
  have "inj_on MakeHedgeFlowId (set xs)"
  proof (rule inj_onI)
    fix x y assume xy: "x \<in> set xs" "y \<in> set xs" "MakeHedgeFlowId x = MakeHedgeFlowId y"
    then have "sn_provider_id x @ CHR ''|'' # sn_symbol x = sn_provider_id y @ CHR ''|'' # sn_symbol y"
      using assms(2) by (simp add: MakeHedgeFlowId_def)
    then have "sn_provider_id x = sn_provider_id y \<and> sn_symbol x = sn_symbol y"
      using assms(2) xy(1,2) by (intro split_unique) (auto simp: plain_id_def)
    then show "x = y" using assms(1) xy(1,2) by (auto simp: distinct_map inj_on_def)
  qed
  then show ?thesis using assms(1) by (simp add: distinct_map)
qed

text \<open>Automatic hedging. After a published batch there is an intent for a provider and an
  instrument exactly when the fills of the batch leave the provider a net position there
  that passes the configured quantity or notional threshold and the instrument cleared at a
  positive price. There is one intent for each, its target quantity with the sign of its
  side brings the net position to zero, its flow is named after batch, provider and instrument, and no
  intent is lost as a duplicate when they are published.
\<close>

theorem hedges_offset_positions:
  assumes "RunBatch_Execute p batch_id active prices ext = (res, active')" "rr_batch res = Some sent"
    and "rr_status res = KExecuted" "thresholds_wf (rp_hedge_triggers p)"
    and "\<forall>f \<in> set (br_fills sent). grid s m (ff_executed_qty f) \<and> plain_id (ff_user_id f)"
    and "\<forall>i. grid t P (find_or dzero (br_clear_prices sent) i)" "s + t \<le> 18" "P \<le> max_units"
    and "int (length (br_fills sent)) * m \<le> max_units" "int (length (br_fills sent)) * m * P \<le> max_units"
  defines "intents \<equiv> rr_hedge_execution_intents res"
    and "net \<equiv> \<lambda>u i. net_position u i (br_fills sent)"
  shows "(\<forall>u i. plain_id u \<longrightarrow>
        ((\<exists>x \<in> set intents. ei_provider_id x = u \<and> in_symbol (ei_instrument x) = i) \<longleftrightarrow>
         net u i \<noteq> 0 \<and> hedge_due (rp_hedge_triggers p) i (net u i) (dval (find_or dzero (br_clear_prices sent) i))))
    \<and> (\<forall>x \<in> set intents. net (ei_provider_id x) (in_symbol (ei_instrument x))
         + (if ei_side x = SIDE_BUY then dval (ei_target_qty x) else - dval (ei_target_qty x)) = 0)
    \<and> distinct (map (\<lambda>x. (ei_provider_id x, in_symbol (ei_instrument x))) intents)
    \<and> pr_sent (PublishAutoHedgeExecutionIntents produce intents) = filter produce intents
    \<and> (\<forall>x \<in> set intents. plain_id (ei_provider_id x)
          \<and> grid s (int (length (br_fills sent)) * m) (ei_target_qty x) \<and> ei_hedge_flow_id x =
          br_batch_id sent @ ''|hedge|'' @ ei_provider_id x @ CHR ''|'' # in_symbol (ei_instrument x))"
proof -
  let ?M = "int (length (br_fills sent)) * m" and ?S = "CalculateSnapshots sent"
  let ?due = "\<lambda>x. hedge_due (rp_hedge_triggers p) (sn_symbol x) (dval (sn_net_qty x)) (dval (sn_clearing_price x))"
  note snaps = snapshots_of_batch[OF assms(5,9)]
  have all: "dval (sn_net_qty x) = net (sn_provider_id x) (sn_symbol x)"
    "sn_clearing_price x = find_or dzero (br_clear_prices sent) (sn_symbol x)"
    "grid s ?M (sn_net_qty x)" "dval (sn_net_qty x) \<noteq> 0" "plain_id (sn_provider_id x)"
    "sn_batch_id x = br_batch_id sent" if "x \<in> set ?S" for x
    using snaps(1)[OF that] by (simp_all add: net_def)
  have "intents = fst (BuildFromHedgeTriggerDecisions (rp_now p) (rp_hedge_intents p)
      (EvaluateTriggers (rp_hedge_triggers p) ?S))"
    by (rule executed_run[OF assms(1,3)]) (use assms(2) in \<open>simp add: intents_def\<close>)
  also have "\<dots> = map (hedge_intent (rp_now p) (rp_hedge_intents p)) (filter ?due ?S)"
  proof (rule intents_of_snapshots)
    fix x assume x: "x \<in> set ?S"
    have "grid t P (sn_clearing_price x)" using all(2)[OF x] assms(6) by simp
    from built_iff[OF all(3)[OF x] this assms(7,9,8,10,4) all(4)[OF x]]
    show "fst (build_hedge_intent (rp_now p) (rp_hedge_intents p) (EvaluateTrigger_snapshot (rp_hedge_triggers p) x))
      = (if ?due x then Some (hedge_intent (rp_now p) (rp_hedge_intents p) x) else None)" .
  qed
  finally have is_map: "intents = map (hedge_intent (rp_now p) (rp_hedge_intents p)) (filter ?due ?S)" .
  have "(\<exists>x \<in> set intents. ei_provider_id x = u \<and> in_symbol (ei_instrument x) = i) \<longleftrightarrow>
      net u i \<noteq> 0 \<and> hedge_due (rp_hedge_triggers p) i (net u i) (dval (find_or dzero (br_clear_prices sent) i))"
    if u: "plain_id u" for u i
  proof
    assume "\<exists>x \<in> set intents. ei_provider_id x = u \<and> in_symbol (ei_instrument x) = i"
    then obtain x where x: "x \<in> set ?S" "?due x" "sn_provider_id x = u" "sn_symbol x = i"
      unfolding is_map by auto
    then show "net u i \<noteq> 0 \<and> hedge_due (rp_hedge_triggers p) i (net u i) (dval (find_or dzero (br_clear_prices sent) i))"
      using all(1,2,4)[OF x(1)] by simp
  next
    assume r: "net u i \<noteq> 0 \<and> hedge_due (rp_hedge_triggers p) i (net u i) (dval (find_or dzero (br_clear_prices sent) i))"
    then obtain x where x: "x \<in> set ?S" "sn_provider_id x = u" "sn_symbol x = i"
      using snaps(2)[OF u, of i] by (auto simp: net_def)
    then have "?due x" using r all(1,2)[OF x(1)] by simp
    then show "\<exists>x \<in> set intents. ei_provider_id x = u \<and> in_symbol (ei_instrument x) = i"
      unfolding is_map using x by force
  qed
  moreover have "\<forall>x \<in> set intents. net (ei_provider_id x) (in_symbol (ei_instrument x))
         + (if ei_side x = SIDE_BUY then dval (ei_target_qty x) else - dval (ei_target_qty x)) = 0"
  proof
    fix y assume "y \<in> set intents"
    then obtain x where x: "x \<in> set ?S" "y = hedge_intent (rp_now p) (rp_hedge_intents p) x"
      unfolding is_map by auto
    note g = all(3)[OF x(1)]
    show "net (ei_provider_id y) (in_symbol (ei_instrument y))
         + (if ei_side y = SIDE_BUY then dval (ei_target_qty y) else - dval (ei_target_qty y)) = 0"
      using AbsDecimal_value(1)[OF g assms(9)] dcmp_dzero(1)[OF grid_wf[OF g assms(9)]] all(1)[OF x(1)]
      by (auto simp: x(2))
  qed
  moreover have "distinct (map (\<lambda>x. (ei_provider_id x, in_symbol (ei_instrument x))) intents)"
    unfolding is_map map_map comp_def hedge_intent_sel using snaps(3) by (rule distinct_map_filter)
  moreover have "pr_sent (PublishAutoHedgeExecutionIntents produce intents) = filter produce intents"
  proof -
    have "distinct (map MakeHedgeFlowId (filter ?due ?S))"
      using snaps(3) all(5,6) by (intro flow_ids_distinct[of _ "br_batch_id sent"] distinct_map_filter) auto
    then have "distinct (map ei_hedge_flow_id intents)"
      unfolding is_map map_map comp_def hedge_intent_sel .
    moreover have "\<forall>x \<in> set intents. ei_hedge_flow_id x \<noteq> [] \<and> ei_hedge_flow_id x \<notin> set []"
      unfolding is_map by (auto simp: MakeHedgeFlowId_def)
    ultimately show ?thesis
      using publish_distinct[of intents "[]"] by (simp add: PublishAutoHedgeExecutionIntents_def)
  qed
  moreover have "\<forall>x \<in> set intents. plain_id (ei_provider_id x) \<and> grid s ?M (ei_target_qty x) \<and> ei_hedge_flow_id x =
      br_batch_id sent @ ''|hedge|'' @ ei_provider_id x @ CHR ''|'' # in_symbol (ei_instrument x)"
    unfolding is_map using all(5,6) AbsDecimal_value(2)[OF all(3) assms(9)] by (auto simp: MakeHedgeFlowId_def)
  ultimately show ?thesis by blast
qed

lemma ex_hedged_run:
  obtains res active' sent where "RunBatch_Execute ex_run_ports ''b1'' ex_active [] [] = (res, active')"
    "rr_batch res = Some sent" "rr_status res = KExecuted" "thresholds_wf (rp_hedge_triggers ex_run_ports)"
    "\<forall>f \<in> set (br_fills sent). grid 0 5 (ff_executed_qty f) \<and> plain_id (ff_user_id f)"
    "\<forall>i. grid 0 100 (find_or dzero (br_clear_prices sent) i)" "length (br_fills sent) = 2"
    "net_position ''u1'' ''BTC/USDT'' (br_fills sent) = 6"
    "\<forall>u i. (u, i) \<noteq> (''u1'', ''BTC/USDT'') \<longrightarrow> net_position u i (br_fills sent) = 0"
    "hedge_due (rp_hedge_triggers ex_run_ports) ''BTC/USDT'' 6 (dval (find_or dzero (br_clear_prices sent) ''BTC/USDT''))"
proof -
  obtain res active' where run: "RunBatch_Execute ex_run_ports ''b1'' ex_active [] [] = (res, active')" by fastforce
  have st: "rr_status res = KExecuted" using ex_run_executed run by simp
  obtain out where o: "rp_solve ex_run_ports (map snd ex_active) [] [] = Some out"
    "rr_batch res = Some (complete_batch ex_run_ports ''b1'' [] (map snd ex_active) out)"
    by (rule executed_run[OF run st]) auto
  define sent where "sent = complete_batch ex_run_ports ''b1'' [] [ex_book_order] ex_solved"
  have sent: "rr_batch res = Some sent" using o by (simp add: ex_run_ports_def ex_active_def sent_def)
  have prices: "br_clear_prices sent = [(''BTC/USDT'', mk_dec 100 0)]"
    by (simp add: sent_def fills_of_complete ex_solved_def)
  have fills: "br_fills sent = map (BackfillFillProvenance []) (br_fills (CapFillsAgainstRemaining [ex_book_order] ex_solved))"
    by (simp add: sent_def fills_of_complete)
  have "map (\<lambda>f. (units (ff_executed_qty f), scale (ff_executed_qty f), ff_user_id f, ff_side f,
      in_symbol (ff_instrument f))) (br_fills sent)
    = [(5, 0, ''u1'', SIDE_BUY, ''BTC/USDT''), (1, 0, ''u1'', SIDE_BUY, ''BTC/USDT'')]"
    unfolding fills map_map comp_def backfill_frame by code_simp
  then obtain f g where fg: "br_fills sent = [f, g]" "units (ff_executed_qty f) = 5" "scale (ff_executed_qty f) = 0"
    "units (ff_executed_qty g) = 1" "scale (ff_executed_qty g) = 0" "ff_user_id f = ''u1''" "ff_user_id g = ''u1''"
    "ff_side f = SIDE_BUY" "ff_side g = SIDE_BUY" "in_symbol (ff_instrument f) = ''BTC/USDT''"
    "in_symbol (ff_instrument g) = ''BTC/USDT''"
    by (auto simp: map_eq_Cons_conv)
  have ok: "\<forall>f \<in> set (br_fills sent). grid 0 5 (ff_executed_qty f) \<and> plain_id (ff_user_id f)"
    using fg by (auto simp: grid_def at_scale_def plain_id_def)
  have pr: "\<forall>i. grid 0 100 (find_or dzero (br_clear_prices sent) i)"
    by (simp add: prices find_or_def find_Cons grid_def at_scale_def dzero_def)
  have net: "net_position ''u1'' ''BTC/USDT'' (br_fills sent) = 6"
    using fg by (simp add: net_position_def IsValidFill_def signed_qty_def dval_def)
  have th: "thresholds_wf (rp_hedge_triggers ex_run_ports)"
    by (simp add: thresholds_wf_def ex_run_ports_def ex_triggers_def ResolveThresholdForSymbol_def wf_dec_def in_i64_def dzero_def)
  have due: "hedge_due (rp_hedge_triggers ex_run_ports) ''BTC/USDT'' 6
      (dval (find_or dzero (br_clear_prices sent) ''BTC/USDT''))"
    by (simp add: hedge_due_def ex_run_ports_def ex_triggers_def ResolveThresholdForSymbol_def prices
        find_or_def find_Cons Let_def)
  have none: "net_position u i (br_fills sent) = 0" if "(u, i) \<noteq> (''u1'', ''BTC/USDT'')" for u i
    using fg that by (auto simp: net_position_def)
  show ?thesis by (rule that[OF run sent st th ok pr _ net _ due]) (use fg(1) none in simp_all)
qed

end
