(* ===== verification/Combo_Domain.thy ===== *)
theory Combo_Domain
  imports Order_Messages
begin

text \<open>
  Combo orders in the order flow: the domain objects with their invariants
  (\<open>order_flow/src/domain/combo_order.cpp\<close>), the admission policy (\<open>combo_policy.cpp\<close>), the
  request of the client (\<open>combo.proto\<close>) and its translation into a domain order
  (\<open>BuildDomain\<close> of \<open>create_combo_order_use_case.cpp\<close>). A \<open>DomainError\<close> has the two fields of
  an error message.
\<close>

section \<open>Modes, policies and states\<close>

datatype execution_mode =
    ExecutionMode_kUnspecified | ExecutionMode_kOrchestrationOnly | ExecutionMode_kMultilegVectorSolver

datatype combo_atomicity =
    AtomicityPolicy_kUnspecified | AtomicityPolicy_kStrictAtomic | AtomicityPolicy_kScalableAtomic
  | AtomicityPolicy_kBestEffort | AtomicityPolicy_kSequentialFallback
  | AtomicityPolicy_kExternalCompensating

datatype combo_scope =
    AtomicityScope_kUnspecified | AtomicityScope_kInternalBatch | AtomicityScope_kVenueNative
  | AtomicityScope_kExternalCompensating | AtomicityScope_kNone

datatype combo_type =
    ComboType_kUnspecified | ComboType_kPair | ComboType_kBasket | ComboType_kSpread
  | ComboType_kConditional | ComboType_kOco | ComboType_kBracket | ComboType_kFactor
  | ComboType_kBudget

datatype ratio_basis = RatioBasis_kUnspecified | RatioBasis_kNotionalWeight | RatioBasis_kQuantityRatio

datatype combo_fallback =
    FallbackPolicy_kUnspecified | FallbackPolicy_kScaleDown | FallbackPolicy_kWaitNextBatch
  | FallbackPolicy_kCancel | FallbackPolicy_kDegrade | FallbackPolicy_kCompensate

datatype leg_side = Side_kUnspecified | Side_kBuy | Side_kSell

datatype parent_status =
    ParentOrderStatus_kDraft | ParentOrderStatus_kRiskPending | ParentOrderStatus_kActive
  | ParentOrderStatus_kWaitingForTrigger | ParentOrderStatus_kPartiallyFilled
  | ParentOrderStatus_kFilled | ParentOrderStatus_kCancelled | ParentOrderStatus_kExpired
  | ParentOrderStatus_kDegraded | ParentOrderStatus_kRollbackPending
  | ParentOrderStatus_kRolledback | ParentOrderStatus_kRejected

datatype leg_status =
    LegStatus_kInactive | LegStatus_kActive | LegStatus_kWaitingForTrigger
  | LegStatus_kPartiallyFilled | LegStatus_kFilled | LegStatus_kCancelled
  | LegStatus_kBlockedByGroup | LegStatus_kBlockedByAtomicity | LegStatus_kFailedExternal
  | LegStatus_kCompensated

datatype combo_constraint_type =
    ConstraintType_kMaxWeightDeviation | ConstraintType_kMaxTotalNotional
  | ConstraintType_kSpreadRange | ConstraintType_kFactorNeutrality | ConstraintType_kMaxLeverage
  | ConstraintType_kMaxMargin | ConstraintType_kRiskLimit | ConstraintType_kRatioEquality

datatype combo_severity = ConstraintSeverity_kHard | ConstraintSeverity_kSoft

datatype link_type =
    ConditionalLinkType_kOco | ConditionalLinkType_kBracket | ConditionalLinkType_kConditional

section \<open>Domain objects\<close>

record combo_leg =
  cl_leg_id :: string
  cl_parent_order_id :: string
  cl_instrument_symbol :: string
  cl_side :: leg_side
  cl_ratio :: "decimal option"
  cl_weight :: "decimal option"
  cl_ratio_basis :: ratio_basis
  cl_p_low :: decimal
  cl_p_high :: decimal
  cl_q_rate :: decimal
  cl_q_max :: decimal
  cl_filled_cum :: decimal
  cl_venue_preferences :: "string list"
  cl_status :: leg_status

record combo_constraint =
  cc_constraint_id :: string
  cc_parent_order_id :: string
  cc_type :: combo_constraint_type
  cc_coefficients :: "decimal umap"
  cc_lower :: "decimal option"
  cc_upper :: "decimal option"
  cc_value :: "decimal option"
  cc_value_bps :: "int option"
  cc_severity :: combo_severity

record conditional_link =
  lk_link_id :: string
  lk_parent_order_id :: string
  lk_from_leg_id :: string
  lk_to_leg_id :: string
  lk_type :: link_type
  lk_condition_json :: string

record combo_order =
  co_combo_order_id :: string
  co_user_id :: string
  co_account_id :: string
  co_batch_order_id :: "string option"
  co_combo_type :: combo_type
  co_execution_mode :: execution_mode
  co_atomicity_policy :: combo_atomicity
  co_atomicity_scope :: combo_scope
  co_fallback_policy :: combo_fallback
  co_ratio_basis :: ratio_basis
  co_min_execution_scale :: "decimal option"
  co_max_ratio_deviation_bps :: "int option"
  co_legs :: "combo_leg list"
  co_constraints :: "combo_constraint list"
  co_conditional_links :: "conditional_link list"
  co_status :: parent_status

section \<open>Invariants\<close>

definition IsPositive :: "decimal \<Rightarrow> bool" where
  "IsPositive x = (0 < dcmp x dzero)"

definition IsNonNegative :: "decimal \<Rightarrow> bool" where
  "IsNonNegative x = (0 \<le> dcmp x dzero)"

definition Leg_remaining_qty :: "combo_leg \<Rightarrow> decimal" where
  "Leg_remaining_qty l = (let r = dsub (cl_q_max l) (cl_filled_cum l)
     in if dcmp r dzero < 0 then dzero else r)"

definition Leg_validate :: "combo_leg \<Rightarrow> error_msg option" where
  "Leg_validate l =
     (if cl_instrument_symbol l = [] then
        Some (mk_error ''LEG_INSTRUMENT_EMPTY'' ''leg instrument_symbol is empty'')
      else if cl_side l = Side_kUnspecified then
        Some (mk_error ''LEG_SIDE_UNSPECIFIED'' ''leg side is unspecified'')
      else if (cl_ratio l \<noteq> None) = (cl_weight l \<noteq> None) then
        Some (mk_error ''LEG_RATIO_XOR_WEIGHT'' ''exactly one of {ratio, weight} must be set'')
      else if \<not> IsPositive (cl_p_low l) then
        Some (mk_error ''LEG_PRICE_RANGE'' ''p_low must be > 0'')
      else if dcmp (cl_p_high l) (cl_p_low l) < 0 then
        Some (mk_error ''LEG_PRICE_RANGE'' ''p_high must be >= p_low'')
      else if \<not> IsPositive (cl_q_rate l) then
        Some (mk_error ''LEG_Q_RATE'' ''q_rate must be > 0'')
      else if \<not> IsPositive (cl_q_max l) then
        Some (mk_error ''LEG_Q_MAX'' ''q_max must be > 0'')
      else if \<not> IsNonNegative (cl_filled_cum l) then
        Some (mk_error ''LEG_FILLED_CUM'' ''filled_cum must be >= 0'')
      else if \<not> dcmp (cl_filled_cum l) (cl_q_max l) \<le> 0 then
        Some (mk_error ''LEG_FILLED_CUM_EXCEEDS_QMAX'' ''filled_cum must be <= q_max'')
      else None)"

definition Constraint_validate :: "combo_constraint \<Rightarrow> error_msg option" where
  "Constraint_validate c =
     (if cc_constraint_id c = [] then
        Some (mk_error ''CONSTRAINT_ID_EMPTY'' ''constraint_id is empty'')
      else if (case cc_value c of None \<Rightarrow> False | Some v \<Rightarrow> \<not> IsNonNegative v) then
        Some (mk_error ''CONSTRAINT_VALUE_NEGATIVE'' ''constraint value must be >= 0'')
      else if (case cc_value_bps c of None \<Rightarrow> False | Some v \<Rightarrow> v < 0) then
        Some (mk_error ''CONSTRAINT_VALUE_BPS_NEGATIVE'' ''value_bps must be >= 0'')
      else case cc_type c of
        ConstraintType_kSpreadRange \<Rightarrow>
          (case (cc_lower c, cc_upper c) of
             (Some lo, Some up) \<Rightarrow>
               if 0 < dcmp lo up then
                 Some (mk_error ''CONSTRAINT_SPREAD_BOUNDS'' ''lower must be <= upper'')
               else None
           | _ \<Rightarrow> Some (mk_error ''CONSTRAINT_SPREAD_BOUNDS'' ''spread_range requires lower and upper''))
      | ConstraintType_kMaxTotalNotional \<Rightarrow>
          (case cc_value c of
             Some v \<Rightarrow> if IsPositive v then None
               else Some (mk_error ''CONSTRAINT_NOTIONAL_VALUE'' ''max_total_notional requires value > 0'')
           | None \<Rightarrow> Some (mk_error ''CONSTRAINT_NOTIONAL_VALUE'' ''max_total_notional requires value > 0''))
      | _ \<Rightarrow> None)"

definition Link_validate :: "conditional_link \<Rightarrow> error_msg option" where
  "Link_validate k =
     (if lk_link_id k = [] then Some (mk_error ''LINK_ID_EMPTY'' ''link_id is empty'')
      else if lk_from_leg_id k = [] \<or> lk_to_leg_id k = [] then
        Some (mk_error ''LINK_LEG_EMPTY'' ''from_leg_id/to_leg_id must be set'')
      else if lk_from_leg_id k = lk_to_leg_id k then
        Some (mk_error ''LINK_SELF_LOOP'' ''from_leg_id must differ from to_leg_id'')
      else None)"

definition Combo_validate :: "combo_order \<Rightarrow> error_msg option" where
  "Combo_validate c =
     (if co_combo_order_id c = [] then Some (mk_error ''COMBO_ID_EMPTY'' ''combo_order_id is empty'')
      else if co_execution_mode c = ExecutionMode_kUnspecified then
        Some (mk_error ''COMBO_MODE_UNSPECIFIED'' ''execution_mode is unspecified'')
      else if length (co_legs c) < 2 then
        Some (mk_error ''COMBO_TOO_FEW_LEGS'' ''combo requires at least 2 legs'')
      else case first_error Leg_validate (co_legs c) of Some e \<Rightarrow> Some e | None \<Rightarrow>
           case first_error Constraint_validate (co_constraints c) of Some e \<Rightarrow> Some e | None \<Rightarrow>
           case first_error Link_validate (co_conditional_links c) of Some e \<Rightarrow> Some e | None \<Rightarrow>
      if co_execution_mode c = ExecutionMode_kMultilegVectorSolver
         \<and> co_atomicity_policy c = AtomicityPolicy_kUnspecified then
        Some (mk_error ''COMBO_POLICY_REQUIRED'' ''multileg_vector_solver requires atomicity_policy'')
      else if co_atomicity_policy c = AtomicityPolicy_kStrictAtomic
         \<and> co_atomicity_scope c = AtomicityScope_kExternalCompensating then
        Some (mk_error ''COMBO_STRICT_EXTERNAL_SCOPE''
          ''strict_atomic incompatible with external_compensating scope'')
      else if (case co_min_execution_scale c of None \<Rightarrow> False
                | Some s \<Rightarrow> \<not> IsNonNegative s \<or> 0 < dcmp s (mk_dec 1 0)) then
        Some (mk_error ''COMBO_MIN_SCALE_RANGE'' ''min_execution_scale must be in [0, 1]'')
      else if (case co_max_ratio_deviation_bps c of None \<Rightarrow> False | Some b \<Rightarrow> b < 0) then
        Some (mk_error ''COMBO_RATIO_DEV_NEGATIVE'' ''max_ratio_deviation_bps must be >= 0'')
      else None)"

text \<open>The parent container of combos.\<close>

record batch_order =
  bt_batch_order_id :: string
  bt_user_id :: string
  bt_account_id :: string
  bt_type :: combo_type
  bt_execution_mode :: execution_mode
  bt_status :: parent_status
  bt_child_refs :: "(string \<times> string) list"

definition Batch_validate :: "batch_order \<Rightarrow> error_msg option" where
  "Batch_validate b =
     (if bt_batch_order_id b = [] then Some (mk_error ''BATCH_ID_EMPTY'' ''batch_order_id is empty'')
      else if bt_user_id b = [] \<or> bt_account_id b = [] then
        Some (mk_error ''BATCH_OWNER_EMPTY'' ''user_id/account_id must be set'')
      else if bt_child_refs b = [] then
        Some (mk_error ''BATCH_NO_CHILDREN'' ''batch requires at least 1 child_ref'')
      else None)"

section \<open>Admission policy\<close>

record combo_policy =
  cp_grouped_orders_enabled :: bool
  cp_multileg_vector_solver_enabled :: bool
  cp_external_compensating_enabled :: bool
  cp_max_legs_per_group :: int
  cp_allowed_combo_types :: "combo_type list"
  cp_allowed_atomicity_policies :: "combo_atomicity list"

definition Permissive :: combo_policy where
  "Permissive = \<lparr>cp_grouped_orders_enabled = True, cp_multileg_vector_solver_enabled = True,
     cp_external_compensating_enabled = True, cp_max_legs_per_group = 1000,
     cp_allowed_combo_types = [], cp_allowed_atomicity_policies = []\<rparr>"

definition CheckCreate :: "combo_policy \<Rightarrow> combo_order \<Rightarrow> error_msg option" where
  "CheckCreate p c =
     (if \<not> cp_grouped_orders_enabled p then
        Some (mk_error ''COMBO_DISABLED'' ''grouped/combo orders are disabled by policy'')
      else if co_execution_mode c = ExecutionMode_kMultilegVectorSolver
         \<and> \<not> cp_multileg_vector_solver_enabled p then
        Some (mk_error ''COMBO_MULTILEG_DISABLED'' ''multileg_vector_solver mode is disabled by policy'')
      else if co_atomicity_scope c = AtomicityScope_kExternalCompensating
         \<and> \<not> cp_external_compensating_enabled p then
        Some (mk_error ''COMBO_EXTERNAL_COMP_DISABLED''
          ''external_compensating scope is disabled by policy'')
      else if cp_max_legs_per_group p < i32 (int (length (co_legs c))) then
        Some (mk_error ''COMBO_TOO_MANY_LEGS'' ''legs exceed maxLegsPerGroup'')
      else if cp_allowed_combo_types p \<noteq> [] \<and> co_combo_type c \<notin> set (cp_allowed_combo_types p) then
        Some (mk_error ''COMBO_TYPE_NOT_ALLOWED'' ''combo_type not in allowedComboTypes'')
      else if cp_allowed_atomicity_policies p \<noteq> []
         \<and> co_atomicity_policy c \<notin> set (cp_allowed_atomicity_policies p) then
        Some (mk_error ''COMBO_POLICY_NOT_ALLOWED'' ''atomicity_policy not in allowedAtomicityPolicies'')
      else None)"

section \<open>The request\<close>

datatype pb_execution_mode =
    EXECUTION_MODE_UNSPECIFIED | EXECUTION_MODE_ORCHESTRATION_ONLY
  | EXECUTION_MODE_MULTILEG_VECTOR_SOLVER

datatype pb_atomicity_policy =
    ATOMICITY_POLICY_UNSPECIFIED | ATOMICITY_POLICY_STRICT_ATOMIC | ATOMICITY_POLICY_SCALABLE_ATOMIC
  | ATOMICITY_POLICY_BEST_EFFORT | ATOMICITY_POLICY_SEQUENTIAL_FALLBACK
  | ATOMICITY_POLICY_EXTERNAL_COMPENSATING

datatype pb_atomicity_scope =
    ATOMICITY_SCOPE_UNSPECIFIED | ATOMICITY_SCOPE_INTERNAL_BATCH | ATOMICITY_SCOPE_VENUE_NATIVE
  | ATOMICITY_SCOPE_EXTERNAL_COMPENSATING | ATOMICITY_SCOPE_NONE

datatype pb_combo_type =
    COMBO_TYPE_UNSPECIFIED | COMBO_TYPE_PAIR | COMBO_TYPE_BASKET | COMBO_TYPE_SPREAD
  | COMBO_TYPE_CONDITIONAL | COMBO_TYPE_OCO | COMBO_TYPE_BRACKET

datatype pb_ratio_basis =
    RATIO_BASIS_UNSPECIFIED | RATIO_BASIS_QUANTITY | RATIO_BASIS_NOTIONAL_WEIGHT

datatype pb_severity =
    CONSTRAINT_SEVERITY_UNSPECIFIED | CONSTRAINT_SEVERITY_HARD | CONSTRAINT_SEVERITY_SOFT

datatype pb_link_type =
    CONDITIONAL_LINK_TYPE_UNSPECIFIED | CONDITIONAL_LINK_TYPE_OCO_SIBLING
  | CONDITIONAL_LINK_TYPE_BRACKET_ENTRY | CONDITIONAL_LINK_TYPE_CONDITIONAL

text \<open>An absent price, rate or quantity reads as zero, the value the code substitutes.\<close>

record pb_leg =
  pl_leg_id :: string
  pl_instrument :: instrument
  pl_side :: side
  pl_ratio :: "decimal option"
  pl_weight :: "decimal option"
  pl_price_low :: decimal
  pl_price_high :: decimal
  pl_max_rate :: decimal
  pl_max_qty :: decimal
  pl_filled_cum :: decimal
  pl_venue_preferences :: "string list"

text \<open>\<open>DecimalFromDouble\<close> of a coefficient rounds \<open>v * 1e8\<close>; the message carries that number.\<close>

record pb_constraint =
  pc_constraint_id :: string
  pc_constraint_type :: string
  pc_coefficients_e8 :: "int umap"
  pc_lower_bound :: "decimal option"
  pc_upper_bound :: "decimal option"
  pc_severity :: pb_severity

record pb_link =
  pk_link_id :: string
  pk_link_type :: pb_link_type
  pk_source_ref :: string
  pk_target_ref :: string
  pk_trigger_condition :: string

record combo_request =
  qr_meta :: event_meta
  qr_client_combo_id :: string
  qr_user_id :: string
  qr_account_id :: string
  qr_combo_type :: pb_combo_type
  qr_execution_mode :: pb_execution_mode
  qr_atomicity_policy :: pb_atomicity_policy
  qr_atomicity_scope :: pb_atomicity_scope
  qr_fallback_policy :: string
  qr_ratio_basis :: pb_ratio_basis
  qr_min_execution_scale :: "decimal option"
  qr_max_ratio_deviation_bps :: int
  qr_legs :: "pb_leg list"
  qr_constraints :: "pb_constraint list"
  qr_graph_links :: "pb_link list"

section \<open>From the request to the domain\<close>

fun MapExecMode :: "pb_execution_mode \<Rightarrow> execution_mode" where
  "MapExecMode EXECUTION_MODE_ORCHESTRATION_ONLY = ExecutionMode_kOrchestrationOnly"
| "MapExecMode EXECUTION_MODE_MULTILEG_VECTOR_SOLVER = ExecutionMode_kMultilegVectorSolver"
| "MapExecMode EXECUTION_MODE_UNSPECIFIED = ExecutionMode_kUnspecified"

fun Combo_MapPolicy :: "pb_atomicity_policy \<Rightarrow> combo_atomicity" where
  "Combo_MapPolicy ATOMICITY_POLICY_STRICT_ATOMIC = AtomicityPolicy_kStrictAtomic"
| "Combo_MapPolicy ATOMICITY_POLICY_SCALABLE_ATOMIC = AtomicityPolicy_kScalableAtomic"
| "Combo_MapPolicy ATOMICITY_POLICY_BEST_EFFORT = AtomicityPolicy_kBestEffort"
| "Combo_MapPolicy ATOMICITY_POLICY_SEQUENTIAL_FALLBACK = AtomicityPolicy_kSequentialFallback"
| "Combo_MapPolicy ATOMICITY_POLICY_EXTERNAL_COMPENSATING = AtomicityPolicy_kExternalCompensating"
| "Combo_MapPolicy ATOMICITY_POLICY_UNSPECIFIED = AtomicityPolicy_kUnspecified"

fun Combo_MapScope :: "pb_atomicity_scope \<Rightarrow> combo_scope" where
  "Combo_MapScope ATOMICITY_SCOPE_INTERNAL_BATCH = AtomicityScope_kInternalBatch"
| "Combo_MapScope ATOMICITY_SCOPE_VENUE_NATIVE = AtomicityScope_kVenueNative"
| "Combo_MapScope ATOMICITY_SCOPE_EXTERNAL_COMPENSATING = AtomicityScope_kExternalCompensating"
| "Combo_MapScope ATOMICITY_SCOPE_NONE = AtomicityScope_kNone"
| "Combo_MapScope ATOMICITY_SCOPE_UNSPECIFIED = AtomicityScope_kUnspecified"

fun MapComboType :: "pb_combo_type \<Rightarrow> combo_type" where
  "MapComboType COMBO_TYPE_PAIR = ComboType_kPair"
| "MapComboType COMBO_TYPE_BASKET = ComboType_kBasket"
| "MapComboType COMBO_TYPE_SPREAD = ComboType_kSpread"
| "MapComboType COMBO_TYPE_CONDITIONAL = ComboType_kConditional"
| "MapComboType COMBO_TYPE_OCO = ComboType_kOco"
| "MapComboType COMBO_TYPE_BRACKET = ComboType_kBracket"
| "MapComboType COMBO_TYPE_UNSPECIFIED = ComboType_kUnspecified"

fun MapRatioBasis :: "pb_ratio_basis \<Rightarrow> ratio_basis" where
  "MapRatioBasis RATIO_BASIS_QUANTITY = RatioBasis_kQuantityRatio"
| "MapRatioBasis RATIO_BASIS_NOTIONAL_WEIGHT = RatioBasis_kNotionalWeight"
| "MapRatioBasis RATIO_BASIS_UNSPECIFIED = RatioBasis_kUnspecified"

fun MapSide :: "side \<Rightarrow> leg_side" where
  "MapSide SIDE_BUY = Side_kBuy"
| "MapSide SIDE_SELL = Side_kSell"
| "MapSide SIDE_UNSPECIFIED = Side_kUnspecified"

definition MapFallback :: "string \<Rightarrow> combo_fallback" where
  "MapFallback f =
     (if f = ''scale_down'' then FallbackPolicy_kScaleDown
      else if f = ''skip_batch'' then FallbackPolicy_kWaitNextBatch
      else if f = ''cancel_group'' \<or> f = ''cancel'' then FallbackPolicy_kCancel
      else if f = ''best_effort'' then FallbackPolicy_kDegrade
      else if f = ''compensate'' then FallbackPolicy_kCompensate
      else FallbackPolicy_kScaleDown)"

definition MapConstraintType :: "string \<Rightarrow> combo_constraint_type" where
  "MapConstraintType t =
     (if t = ''max_weight_deviation'' then ConstraintType_kMaxWeightDeviation
      else if t = ''spread_range'' then ConstraintType_kSpreadRange
      else if t = ''factor_neutrality'' then ConstraintType_kFactorNeutrality
      else if t = ''ratio_eq'' \<or> t = ''ratio_equality'' then ConstraintType_kRatioEquality
      else if t = ''margin_cap'' \<or> t = ''max_margin'' then ConstraintType_kMaxMargin
      else ConstraintType_kMaxTotalNotional)"

fun MapLinkType :: "pb_link_type \<Rightarrow> link_type" where
  "MapLinkType CONDITIONAL_LINK_TYPE_OCO_SIBLING = ConditionalLinkType_kOco"
| "MapLinkType CONDITIONAL_LINK_TYPE_BRACKET_ENTRY = ConditionalLinkType_kBracket"
| "MapLinkType CONDITIONAL_LINK_TYPE_CONDITIONAL = ConditionalLinkType_kConditional"
| "MapLinkType CONDITIONAL_LINK_TYPE_UNSPECIFIED = ConditionalLinkType_kConditional"

definition InstrumentSymbol :: "instrument \<Rightarrow> string" where
  "InstrumentSymbol i =
     (if in_symbol i \<noteq> [] then in_symbol i
      else if in_base i \<noteq> [] \<and> in_quote i \<noteq> [] then in_base i @ ''/'' @ in_quote i
      else in_symbol i)"

text \<open>
  Ids the client left empty are generated: \<open>uuid n\<close> is the \<open>n\<close>-th identifier the generator
  returns, and the loops of \<open>BuildDomain\<close> hand on the counter.
\<close>

definition fresh_id :: "(nat \<Rightarrow> string) \<Rightarrow> string \<Rightarrow> nat \<Rightarrow> string \<times> nat" where
  "fresh_id uuid given n = (if given = [] then (uuid n, n + 1) else (given, n))"

fun with_ids :: "(nat \<Rightarrow> string) \<Rightarrow> ('p \<Rightarrow> string) \<Rightarrow> (string \<Rightarrow> 'p \<Rightarrow> 'd) \<Rightarrow> nat \<Rightarrow> 'p list \<Rightarrow> 'd list \<times> nat" where
  "with_ids uuid id_of build n [] = ([], n)"
| "with_ids uuid id_of build n (p # ps) =
     (let (i, n) = fresh_id uuid (id_of p) n; (ds, n) = with_ids uuid id_of build n ps
      in (build i p # ds, n))"

definition build_leg :: "string \<Rightarrow> ratio_basis \<Rightarrow> string \<Rightarrow> pb_leg \<Rightarrow> combo_leg" where
  "build_leg combo_id basis i p =
     \<lparr>cl_leg_id = i, cl_parent_order_id = combo_id,
      cl_instrument_symbol = InstrumentSymbol (pl_instrument p), cl_side = MapSide (pl_side p),
      cl_ratio = pl_ratio p, cl_weight = pl_weight p, cl_ratio_basis = basis,
      cl_p_low = pl_price_low p, cl_p_high = pl_price_high p, cl_q_rate = pl_max_rate p,
      cl_q_max = pl_max_qty p, cl_filled_cum = dzero,
      cl_venue_preferences = pl_venue_preferences p, cl_status = LegStatus_kActive\<rparr>"

definition build_constraint :: "string \<Rightarrow> string \<Rightarrow> pb_constraint \<Rightarrow> combo_constraint" where
  "build_constraint combo_id i p =
     \<lparr>cc_constraint_id = i, cc_parent_order_id = combo_id,
      cc_type = MapConstraintType (pc_constraint_type p),
      cc_coefficients = map (\<lambda>(s, v). (s, mk_dec (i64 v) 8)) (pc_coefficients_e8 p),
      cc_lower = pc_lower_bound p, cc_upper = pc_upper_bound p, cc_value = None, cc_value_bps = None,
      cc_severity = (if pc_severity p = CONSTRAINT_SEVERITY_SOFT then ConstraintSeverity_kSoft
                     else ConstraintSeverity_kHard)\<rparr>"

definition build_link :: "string \<Rightarrow> string \<Rightarrow> pb_link \<Rightarrow> conditional_link" where
  "build_link combo_id i p =
     \<lparr>lk_link_id = i, lk_parent_order_id = combo_id, lk_from_leg_id = pk_source_ref p,
      lk_to_leg_id = pk_target_ref p, lk_type = MapLinkType (pk_link_type p),
      lk_condition_json = pk_trigger_condition p\<rparr>"

definition BuildDomain :: "(nat \<Rightarrow> string) \<Rightarrow> combo_request \<Rightarrow> string \<Rightarrow> combo_order" where
  "BuildDomain uuid q combo_id =
     (let basis = MapRatioBasis (qr_ratio_basis q);
          (legs, n) = with_ids uuid pl_leg_id (build_leg combo_id basis) 0 (qr_legs q);
          (constraints, n) = with_ids uuid pc_constraint_id (build_constraint combo_id) n (qr_constraints q);
          (links, n) = with_ids uuid pk_link_id (build_link combo_id) n (qr_graph_links q)
      in \<lparr>co_combo_order_id = combo_id, co_user_id = qr_user_id q, co_account_id = qr_account_id q,
          co_batch_order_id = None, co_combo_type = MapComboType (qr_combo_type q),
          co_execution_mode = MapExecMode (qr_execution_mode q),
          co_atomicity_policy = Combo_MapPolicy (qr_atomicity_policy q),
          co_atomicity_scope = Combo_MapScope (qr_atomicity_scope q),
          co_fallback_policy = MapFallback (qr_fallback_policy q), co_ratio_basis = basis,
          co_min_execution_scale = qr_min_execution_scale q,
          co_max_ratio_deviation_bps = (if qr_max_ratio_deviation_bps q \<noteq> 0
            then Some (i32 (qr_max_ratio_deviation_bps q)) else None),
          co_legs = legs, co_constraints = constraints, co_conditional_links = links,
          co_status = ParentOrderStatus_kActive\<rparr>)"

end
