(* ===== verification/Matching_Groups.thy ===== *)
theory Matching_Groups
  imports Matching_Orders Matching_Hedge Combo_Domain
begin

text \<open>
  Combo groups in the matching engine: the group and its legs
  (\<open>domain/multileg_vector_order.hpp\<close>), the cap of a leg (\<open>domain/multileg_feasible_caps.cpp\<close>),
  the grouped solver (\<open>domain/grouped_solver_bisection.cpp\<close>), the constraints of a group
  (\<open>domain/constraint_evaluator.cpp\<close>), the batch over all groups
  (\<open>app/solve_grouped_batch_use_case.cpp\<close>), the routing of external legs
  (\<open>app/combo_external_routing.cpp\<close>) and the published message
  (\<open>infra/execution_groups_producer.cpp\<close>). A division is the body of \<open>Decimal::div\<close> after its
  check for zero where the code has excluded a zero divisor.
\<close>

section \<open>Groups and legs\<close>

datatype constraint_type = KSpreadRange | KFactorNeutrality | KMaxTotalNotional | KOther

datatype constraint_severity = KHard | KSoft

record group_constraint =
  gc_constraint_id :: string
  gc_type :: constraint_type
  gc_coefficients :: "decimal umap"
  gc_lower :: "decimal option"
  gc_upper :: "decimal option"
  gc_severity :: constraint_severity

datatype atomicity_policy =
    KStrictAtomic | KScalableAtomic | KBestEffort | KSequentialFallback | KExternalCompensating

datatype fallback_policy = KScaleDown | KWaitNextBatch | KCancel | KDegrade | KCompensate

record vector_leg =
  vl_leg_id :: string
  vl_instrument_symbol :: string
  vl_target_ratio :: decimal
  vl_p_low :: decimal
  vl_p_high :: decimal
  vl_q_rate :: decimal
  vl_q_max :: decimal
  vl_filled_cum :: decimal
  vl_q_liq :: "decimal option"
  vl_q_risk :: "decimal option"
  vl_q_venue :: "decimal option"
  vl_venue_preferences :: "string list"

record vector_order =
  vo_parent_order_id :: string
  vo_user_id :: string
  vo_legs :: "vector_leg list"
  vo_atomicity_policy :: atomicity_policy
  vo_fallback_policy :: fallback_policy
  vo_min_execution_scale :: decimal
  vo_max_ratio_deviation_bps :: int
  vo_constraints :: "group_constraint list"

definition leg_remaining :: "vector_leg \<Rightarrow> decimal" where
  "leg_remaining l = clamp_neg (dsub (vl_q_max l) (vl_filled_cum l))"

definition abs_ratio :: "vector_leg \<Rightarrow> decimal" where
  "abs_ratio l = (let zero = mk_dec 0 (scale (vl_target_ratio l))
     in if dcmp (vl_target_ratio l) zero < 0 then dsub zero (vl_target_ratio l)
        else vl_target_ratio l)"

definition is_external :: "vector_leg \<Rightarrow> bool" where
  "is_external l = (if vl_venue_preferences l = [] then False
     else ''internal'' \<notin> set (vl_venue_preferences l))"

section \<open>Feasible caps\<close>

record feasible_cap =
  fc_instrument_symbol :: string
  fc_cap :: decimal
  fc_binding_factor :: string

definition ConsiderCap :: "decimal \<Rightarrow> string \<Rightarrow> decimal \<times> string \<Rightarrow> decimal \<times> string" where
  "ConsiderCap candidate name cb =
     (if dcmp candidate (fst cb) < 0 then (candidate, name) else cb)"

definition consider_opt :: "decimal option \<Rightarrow> string \<Rightarrow> decimal \<times> string \<Rightarrow> decimal \<times> string" where
  "consider_opt c name cb = (case c of None \<Rightarrow> cb | Some d \<Rightarrow> ConsiderCap d name cb)"

definition leg_cap :: "vector_leg \<Rightarrow> feasible_cap" where
  "leg_cap l =
     (let cb = (leg_remaining l, ''remaining'');
          cb = ConsiderCap (vl_q_rate l) ''rate'' cb;
          cb = consider_opt (vl_q_liq l) ''liq'' cb;
          cb = consider_opt (vl_q_risk l) ''risk'' cb;
          cb = consider_opt (vl_q_venue l) ''venue'' cb
      in \<lparr>fc_instrument_symbol = vl_instrument_symbol l, fc_cap = fst cb, fc_binding_factor = snd cb\<rparr>)"

definition ComputeFeasibleCaps :: "vector_order \<Rightarrow> feasible_cap list" where
  "ComputeFeasibleCaps g = map leg_cap (vo_legs g)"

section \<open>The grouped solver\<close>

record leg_exec =
  le_leg_id :: string
  le_instrument_symbol :: string
  le_executed_qty :: decimal
  le_target_ratio :: decimal

datatype group_exec_status = KFullyExecuted | KScaled | KBlocked | KDegraded

record grouped_result =
  gr_execution_scale :: decimal
  gr_leg_execs :: "leg_exec list"
  gr_violated_constraints :: "string list"
  gr_fallback_action :: string
  gr_status :: group_exec_status
  gr_binding_leg :: string

definition one_dec :: decimal where
  "one_dec = mk_dec 1 0"

definition Clamp01 :: "decimal \<Rightarrow> decimal" where
  "Clamp01 a = (if dcmp a dzero < 0 then dzero else if 0 < dcmp a one_dec then one_dec else a)"

fun FallbackActionStr :: "fallback_policy \<Rightarrow> string" where
  "FallbackActionStr KScaleDown = ''scale_down''"
| "FallbackActionStr KWaitNextBatch = ''wait_next_batch''"
| "FallbackActionStr KCancel = ''cancel''"
| "FallbackActionStr KDegrade = ''degrade''"
| "FallbackActionStr KCompensate = ''compensate''"

definition cap_by_sym :: "feasible_cap list \<Rightarrow> decimal umap" where
  "cap_by_sym cs = foldl (\<lambda>m c. put (fc_instrument_symbol c) (fc_cap c) m) [] cs"

definition cap_of :: "decimal umap \<Rightarrow> vector_leg \<Rightarrow> decimal" where
  "cap_of caps l = (case find caps (vl_instrument_symbol l) of Some c \<Rightarrow> c | None \<Rightarrow> leg_remaining l)"

definition has_ratio :: "vector_leg \<Rightarrow> bool" where
  "has_ratio l = (dcmp (abs_ratio l) dzero \<noteq> 0)"

text \<open>The running minima and maximum of the loop over the legs.\<close>

record group_units =
  gu_feas :: decimal
  gu_des :: decimal
  gu_feas_max :: decimal
  gu_binding :: string

definition unit_step ::
    "decimal umap \<Rightarrow> group_units option \<Rightarrow> vector_leg \<Rightarrow> group_units option" where
  "unit_step caps st l =
     (if \<not> has_ratio l then st
      else let gi = ddiv_nz (cap_of caps l) (abs_ratio l) 12;
               di = ddiv_nz (leg_remaining l) (abs_ratio l) 12
      in case st of
        None \<Rightarrow> Some \<lparr>gu_feas = gi, gu_des = di, gu_feas_max = gi,
                  gu_binding = vl_instrument_symbol l\<rparr>
      | Some u \<Rightarrow>
         (let u = (if dcmp gi (gu_feas u) < 0
                   then u\<lparr>gu_feas := gi, gu_binding := vl_instrument_symbol l\<rparr> else u);
              u = (if 0 < dcmp gi (gu_feas_max u) then u\<lparr>gu_feas_max := gi\<rparr> else u)
          in Some (if dcmp di (gu_des u) < 0 then u\<lparr>gu_des := di\<rparr> else u)))"

definition best_effort_execs :: "decimal umap \<Rightarrow> vector_leg list \<Rightarrow> leg_exec list" where
  "best_effort_execs caps ls = map (\<lambda>l. \<lparr>le_leg_id = vl_leg_id l,
     le_instrument_symbol = vl_instrument_symbol l, le_executed_qty = cap_of caps l,
     le_target_ratio = vl_target_ratio l\<rparr>) (filter has_ratio ls)"

definition scaled_execs :: "decimal umap \<Rightarrow> decimal \<Rightarrow> vector_leg list \<Rightarrow> leg_exec list" where
  "scaled_execs caps g ls = map (\<lambda>l. \<lparr>le_leg_id = vl_leg_id l,
     le_instrument_symbol = vl_instrument_symbol l,
     le_executed_qty = dmin (dmul g (abs_ratio l)) (cap_of caps l),
     le_target_ratio = vl_target_ratio l\<rparr>) (filter has_ratio ls)"

definition GroupedSolve :: "vector_order \<Rightarrow> feasible_cap list \<Rightarrow> grouped_result" where
  "GroupedSolve order cs =
     (let caps = cap_by_sym cs;
          res = \<lparr>gr_execution_scale = dzero, gr_leg_execs = [], gr_violated_constraints = [],
                 gr_fallback_action = ''none'', gr_status = KBlocked, gr_binding_leg = []\<rparr>
      in case foldl (unit_step caps) None (vo_legs order) of
        None \<Rightarrow> res
      | Some u \<Rightarrow>
        (let alpha = (if 0 < dcmp (gu_des u) dzero then Clamp01 (ddiv_nz (gu_feas u) (gu_des u) 6)
                      else dzero);
             res = res\<lparr>gr_binding_leg := gu_binding u, gr_execution_scale := alpha\<rparr>
         in if vo_atomicity_policy order = KBestEffort
            then let res = res\<lparr>gr_leg_execs := best_effort_execs caps (vo_legs order)\<rparr>
                 in (if dcmp (gu_feas u) (gu_feas_max u) \<noteq> 0
                     then res\<lparr>gr_violated_constraints := [''ratio_deviation''], gr_status := KDegraded\<rparr>
                     else res\<lparr>gr_status := KFullyExecuted\<rparr>)
            else let (g, res) =
              (case vo_atomicity_policy order of
                 KStrictAtomic \<Rightarrow>
                   (if dcmp (gu_feas u) (gu_des u) < 0 then (dzero, res\<lparr>gr_status := KBlocked\<rparr>)
                    else (gu_feas u, res\<lparr>gr_status := KFullyExecuted, gr_execution_scale := one_dec\<rparr>))
               | KScalableAtomic \<Rightarrow>
                   (if dcmp alpha (vo_min_execution_scale order) < 0
                    then (dzero, res\<lparr>gr_status := KBlocked\<rparr>)
                    else (gu_feas u, res\<lparr>gr_status :=
                            (if 0 \<le> dcmp alpha one_dec then KFullyExecuted else KScaled)\<rparr>))
               | _ \<Rightarrow> (dzero, res\<lparr>gr_status := KBlocked,
                        gr_violated_constraints := [''policy_not_implemented_mvp2'']\<rparr>))
            in if 0 < dcmp g dzero
               then res\<lparr>gr_leg_execs := scaled_execs caps g (vo_legs order)\<rparr>
               else res\<lparr>gr_execution_scale := dzero,
                        gr_fallback_action := FallbackActionStr (vo_fallback_policy order)\<rparr>))"

section \<open>Constraints\<close>

record constraint_violation =
  cv_constraint_id :: string
  cv_type :: constraint_type
  cv_value :: decimal
  cv_hard :: bool

definition dec_Abs0 :: "decimal \<Rightarrow> decimal" where
  "dec_Abs0 d = (if dcmp d dzero < 0 then dsub dzero d else d)"

definition SignedExec :: "leg_exec \<Rightarrow> decimal" where
  "SignedExec e = (if dcmp (le_target_ratio e) dzero < 0 then dsub dzero (le_executed_qty e)
     else le_executed_qty e)"

definition PriceOf :: "decimal umap \<Rightarrow> string \<Rightarrow> decimal" where
  "PriceOf prices s = (case find prices s of Some p \<Rightarrow> p | None \<Rightarrow> dzero)"

definition ConstraintValue :: "group_constraint \<Rightarrow> leg_exec list \<Rightarrow> decimal umap \<Rightarrow> decimal" where
  "ConstraintValue c execs prices =
     (if gc_type c = KMaxTotalNotional
      then foldl (\<lambda>v e. dadd v (dec_Abs0 (dmul (le_executed_qty e)
             (PriceOf prices (le_instrument_symbol e))))) dzero execs
      else let signed = foldl (\<lambda>m e. put (le_instrument_symbol e) (SignedExec e) m) [] execs
           in foldl (\<lambda>v (symbol, coeff). dadd v (dmul coeff
                (if gc_type c = KSpreadRange then PriceOf prices symbol
                 else find_or dzero signed symbol))) dzero (gc_coefficients c))"

definition constraint_violated :: "group_constraint \<Rightarrow> decimal \<Rightarrow> bool" where
  "constraint_violated c v \<longleftrightarrow>
     (case gc_lower c of None \<Rightarrow> False | Some l \<Rightarrow> dcmp v l < 0)
     \<or> (case gc_upper c of None \<Rightarrow> False | Some u \<Rightarrow> 0 < dcmp v u)"

definition EvaluateConstraints ::
    "group_constraint list \<Rightarrow> leg_exec list \<Rightarrow> decimal umap \<Rightarrow> constraint_violation list" where
  "EvaluateConstraints cs execs prices = List.map_filter (\<lambda>c.
     if gc_type c = KOther then None
     else let v = ConstraintValue c execs prices
          in if constraint_violated c v
             then Some \<lparr>cv_constraint_id = gc_constraint_id c, cv_type = gc_type c, cv_value = v,
                        cv_hard = (gc_severity c = KHard)\<rparr>
             else None) cs"

section \<open>The batch over all groups\<close>

definition SolveGroup :: "decimal umap \<Rightarrow> vector_order \<Rightarrow> grouped_result" where
  "SolveGroup prices g =
     (let r = GroupedSolve g (ComputeFeasibleCaps g)
      in if vo_constraints g \<noteq> [] \<and> gr_leg_execs r \<noteq> []
         then let vs = EvaluateConstraints (vo_constraints g) (gr_leg_execs r) prices;
                  r = r\<lparr>gr_violated_constraints := gr_violated_constraints r @ map cv_constraint_id vs\<rparr>
              in if list_ex cv_hard vs
                 then r\<lparr>gr_leg_execs := [], gr_execution_scale := dzero, gr_status := KBlocked\<rparr>
                 else if vs \<noteq> [] then r\<lparr>gr_status := KDegraded\<rparr> else r
         else r)"

definition SolveGroupedBatch ::
    "vector_order list \<Rightarrow> decimal umap \<Rightarrow> (string \<times> grouped_result) list" where
  "SolveGroupedBatch groups prices = map (\<lambda>g. (vo_parent_order_id g, SolveGroup prices g)) groups"

section \<open>External legs\<close>

definition SplitInternalExternal :: "vector_order \<Rightarrow> vector_leg list \<times> vector_leg list" where
  "SplitInternalExternal g = (filter (\<lambda>l. \<not> is_external l) (vo_legs g), filter is_external (vo_legs g))"

definition BuildExternalIntent :: "string \<Rightarrow> string \<Rightarrow> string \<Rightarrow> vector_leg \<Rightarrow> exec_intent" where
  "BuildExternalIntent parent batch_id intent_id l =
     empty_intent\<lparr>ei_meta := empty_meta\<lparr>em_source := ''matching''\<rparr>,
       ei_intent_id := intent_id, ei_batch_id := batch_id, ei_internal_order_id := vl_leg_id l,
       ei_hedge_flow_id := vl_leg_id l,
       ei_client_order_id := vl_leg_id l @ ''#'' @ intent_id,
       ei_reason := ''combo_external_leg:'' @ parent,
       ei_instrument := (ei_instrument empty_intent)\<lparr>in_symbol := vl_instrument_symbol l\<rparr>,
       ei_side := (if dcmp (vl_target_ratio l) (mk_dec 0 (scale (vl_target_ratio l))) < 0
                   then SIDE_SELL else SIDE_BUY),
       ei_target_qty := dmin (leg_remaining l) (vl_q_rate l),
       ei_allowed_venues := vl_venue_preferences l,
       ei_venue := (case List.find (\<lambda>v. v \<noteq> [] \<and> v \<noteq> ''internal'') (vl_venue_preferences l) of
                      None \<Rightarrow> [] | Some v \<Rightarrow> v)\<rparr>"

section \<open>The published message\<close>

datatype group_status =
    GROUP_STATUS_UNSPECIFIED | GROUP_STATUS_FILLED | GROUP_STATUS_PARTIAL
  | GROUP_STATUS_WAITING_NEXT_BATCH | GROUP_STATUS_CANCELLED_BY_ATOMICITY | GROUP_STATUS_DEGRADED
  | GROUP_STATUS_COMPENSATING | GROUP_STATUS_ROLLBACK_PENDING | GROUP_STATUS_ROLLEDBACK
  | GROUP_STATUS_FAILED

record group_output = execution_group +
  go_execution_mode :: pb_execution_mode
  go_atomicity_policy :: pb_atomicity_policy
  go_atomicity_scope :: pb_atomicity_scope
  go_group_status :: group_status
  go_execution_scale :: decimal
  go_violated_constraints :: "string list"
  go_fallback_action :: string
  go_binding_leg_ids :: "string list"

fun StatusProto :: "group_exec_status \<Rightarrow> group_status" where
  "StatusProto KFullyExecuted = GROUP_STATUS_FILLED"
| "StatusProto KScaled = GROUP_STATUS_PARTIAL"
| "StatusProto KDegraded = GROUP_STATUS_DEGRADED"
| "StatusProto KBlocked = GROUP_STATUS_CANCELLED_BY_ATOMICITY"

fun PolicyProto :: "atomicity_policy \<Rightarrow> pb_atomicity_policy" where
  "PolicyProto KStrictAtomic = ATOMICITY_POLICY_STRICT_ATOMIC"
| "PolicyProto KScalableAtomic = ATOMICITY_POLICY_SCALABLE_ATOMIC"
| "PolicyProto KBestEffort = ATOMICITY_POLICY_BEST_EFFORT"
| "PolicyProto KSequentialFallback = ATOMICITY_POLICY_SEQUENTIAL_FALLBACK"
| "PolicyProto KExternalCompensating = ATOMICITY_POLICY_EXTERNAL_COMPENSATING"

definition SideFromRatio :: "decimal \<Rightarrow> side" where
  "SideFromRatio r = (if dcmp r dzero < 0 then SIDE_SELL else SIDE_BUY)"

definition leg_result_of :: "decimal umap \<Rightarrow> leg_exec \<Rightarrow> leg_result" where
  "leg_result_of prices e =
     (let price = PriceOf prices (le_instrument_symbol e)
      in \<lparr>lr_leg_id = le_leg_id e, lr_instrument_symbol = le_instrument_symbol e,
          lr_side = SideFromRatio (le_target_ratio e), lr_exec_qty = le_executed_qty e,
          lr_exec_price = price, lr_exec_notional = dmul (le_executed_qty e) price\<rparr>)"

definition BuildExecutionGroup ::
    "string \<Rightarrow> string \<Rightarrow> vector_order \<Rightarrow> grouped_result \<Rightarrow> decimal umap \<Rightarrow> group_output" where
  "BuildExecutionGroup group_id batch_id order r prices =
     \<lparr>eg_execution_group_id = group_id, eg_batch_id = batch_id,
      eg_parent_order_id = vo_parent_order_id order, eg_user_id = vo_user_id order,
      eg_leg_results = map (leg_result_of prices) (gr_leg_execs r),
      go_execution_mode = EXECUTION_MODE_MULTILEG_VECTOR_SOLVER,
      go_atomicity_policy = PolicyProto (vo_atomicity_policy order),
      go_atomicity_scope = ATOMICITY_SCOPE_INTERNAL_BATCH,
      go_group_status = StatusProto (gr_status r), go_execution_scale = gr_execution_scale r,
      go_violated_constraints = gr_violated_constraints r,
      go_fallback_action = (if gr_fallback_action r \<noteq> ''none'' then gr_fallback_action r else []),
      go_binding_leg_ids = (if gr_binding_leg r = [] then [] else [gr_binding_leg r])\<rparr>"

end
