(* ===== verification/Matching_Grouping.thy ===== *)
theory Matching_Grouping
  imports Matching_Groups Matching_Fills Decimal_Laws
begin

text \<open>
  What the grouped solver guarantees: caps are minima, executions stay within the caps and
  keep the ratio of the legs up to rounding, policies are respected, and no group that breaks
  a hard constraint executes.
\<close>

section \<open>Well formed results\<close>

lemma normalize_loop_scale: "normalize_loop u s = (u', s') \<Longrightarrow> 0 \<le> s \<Longrightarrow> 0 \<le> s' \<and> s' \<le> s"
proof (induction u s rule: normalize_loop.induct)
  case (1 u s)
  then show ?case
    by (cases "(9223372036854775807 < u \<or> u < -9223372036854775808) \<and> 0 < s")
      (auto simp: normalize_loop.simps[of u s])
qed

lemma normalize_wf:
  assumes "0 \<le> s"
  shows "0 \<le> scale (normalize_i128 u s) \<and> scale (normalize_i128 u s) \<le> s"
    and "s \<le> 18 \<Longrightarrow> wf_dec (normalize_i128 u s)"
proof -
  obtain u' s' where l: "normalize_loop u s = (u', s')" by fastforce
  show sc: "0 \<le> scale (normalize_i128 u s) \<and> scale (normalize_i128 u s) \<le> s"
    using normalize_loop_scale[OF l assms] by (simp add: normalize_i128_def l)
  show "s \<le> 18 \<Longrightarrow> wf_dec (normalize_i128 u s)"
    using sc normalize_units_in_i64[of u s] by (simp add: wf_dec_def)
qed

lemma ddiv_nz_wf: "0 \<le> s \<Longrightarrow> s \<le> 18 \<Longrightarrow> wf_dec (ddiv_nz a b s) \<and> scale (ddiv_nz a b s) \<le> s"
  unfolding ddiv_nz_def Let_def using normalize_wf by auto

lemma i32_small: "0 \<le> x \<Longrightarrow> x \<le> 100 \<Longrightarrow> i32 x = x"
  by (intro i32_id) (simp add: in_i32_def)

lemma dmul_wf:
  assumes "0 \<le> scale a" "0 \<le> scale b" "scale a + scale b \<le> 18"
  shows "wf_dec (dmul a b)"
  unfolding dmul_def using assms by (simp add: i32_small normalize_wf(2))

lemma dsub_wf: "wf_dec a \<Longrightarrow> wf_dec b \<Longrightarrow> wf_dec (dsub a b) \<and> scale (dsub a b) \<le> max (scale a) (scale b)"
  unfolding dsub_def Let_def using normalize_wf[of "max (scale a) (scale b)"] by (auto simp: wf_dec_def)

lemma normalize_loop_nonneg:
  "normalize_loop u s = (u', s') \<Longrightarrow> 0 \<le> u \<Longrightarrow> u \<le> 10 ^ 38 \<Longrightarrow> 0 \<le> u'"
proof (induction u s rule: normalize_loop.induct)
  case (1 u s)
  show ?case
  proof (cases "9223372036854775807 < u \<and> 0 < s")
    case False
    with 1 show ?thesis by (auto simp: normalize_loop.simps[of u s])
  next
    case True
    have "round_div10 u = round_away (of_int u / 10)" using "1.prems" by (intro round_div10_eq) simp
    also have "\<dots> = (u + 5) div 10"
    proof -
      have "of_int u / 10 + 1 / 2 = (of_int (u + 5) / of_int 10 :: rat)" by (simp add: field_simps)
      then have "\<lfloor>of_int u / 10 + 1 / 2 :: rat\<rfloor> = (u + 5) div 10" by (simp only: floor_divide_of_int_eq)
      then show ?thesis using "1.prems"(2) by (simp add: round_away_def)
    qed
    finally have r: "round_div10 u = (u + 5) div 10" .
    have "1 \<le> u" using True by simp
    then have "0 \<le> (u + 5) div 10" "(u + 5) div 10 \<le> u" by presburger+
    then show ?thesis using True "1.prems" "1.IH" r by (auto simp: normalize_loop.simps[of u s])
  qed
qed

lemma dmul_nonneg:
  assumes "wf_dec a" "wf_dec b" "0 \<le> dval a" "0 \<le> dval b"
  shows "0 \<le> dval (dmul a b)"
proof -
  have u: "0 \<le> units a" "0 \<le> units b" using assms(3,4) units_sign(1)[of a] units_sign(1)[of b] by auto
  have "units a \<le> 9223372036854775807" "units b \<le> 9223372036854775807"
    using assms(1,2) by (auto simp: wf_dec_def in_i64_def)
  then have "units a * units b \<le> 9223372036854775807 * 9223372036854775807"
    by (rule mult_mono) (use u in auto)
  then have p: "units a * units b \<le> 9223372036854775807 * 9223372036854775807" "0 \<le> units a * units b"
    using u by auto
  then have "i128 (units a * units b) = units a * units b" by (intro i128_id) (simp add: in_i128_def)
  moreover obtain u' s' where l: "normalize_loop (units a * units b) (i32 (scale a + scale b)) = (u', s')" by fastforce
  moreover have "0 \<le> u'" using normalize_loop_nonneg[OF l p(2)] p(1) by simp
  ultimately show ?thesis by (simp add: dmul_def normalize_i128_def dval_def)
qed

section \<open>Caps\<close>

text \<open>The limits of a leg with the names the code gives them.\<close>

definition leg_limits :: "vector_leg \<Rightarrow> (string \<times> decimal) list" where
  "leg_limits l = [(''remaining'', leg_remaining l), (''rate'', vl_q_rate l)]
     @ (case vl_q_liq l of None \<Rightarrow> [] | Some d \<Rightarrow> [(''liq'', d)])
     @ (case vl_q_risk l of None \<Rightarrow> [] | Some d \<Rightarrow> [(''risk'', d)])
     @ (case vl_q_venue l of None \<Rightarrow> [] | Some d \<Rightarrow> [(''venue'', d)])"

definition leg_ok :: "vector_leg \<Rightarrow> bool" where
  "leg_ok l \<longleftrightarrow> wf_dec (vl_q_max l) \<and> wf_dec (vl_filled_cum l)
     \<and> (\<forall>(n, d) \<in> set (leg_limits l). wf_dec d \<and> 0 \<le> dval d)
     \<and> wf_dec (vl_target_ratio l) \<and> scale (vl_target_ratio l) \<le> 6"

lemma ConsiderCap_min:
  assumes "wf_dec d" "wf_dec c" "(n, c) \<in> set S" "\<forall>(n', c') \<in> set S. dval c \<le> dval c'"
    "ConsiderCap d name (c, n) = (c2, n2)"
  shows "wf_dec c2 \<and> (n2, c2) \<in> set (S @ [(name, d)]) \<and> (\<forall>(n', c') \<in> set (S @ [(name, d)]). dval c2 \<le> dval c')"
  using assms dcmp_iffs(1)[OF assms(1,2)] by (auto simp: ConsiderCap_def split: if_splits)

lemma consider_opt_min:
  assumes "\<forall>d. o1 = Some d \<longrightarrow> wf_dec d" "wf_dec c" "(n, c) \<in> set S" "\<forall>(n', c') \<in> set S. dval c \<le> dval c'"
    "consider_opt o1 name (c, n) = (c2, n2)"
  shows "wf_dec c2 \<and> (n2, c2) \<in> set (S @ (case o1 of None \<Rightarrow> [] | Some d \<Rightarrow> [(name, d)]))
    \<and> (\<forall>(n', c') \<in> set (S @ (case o1 of None \<Rightarrow> [] | Some d \<Rightarrow> [(name, d)])). dval c2 \<le> dval c')"
proof (cases o1)
  case None
  then show ?thesis using assms by (simp add: consider_opt_def)
next
  case (Some d)
  then show ?thesis using ConsiderCap_min[of d c n S name c2 n2] assms by (simp add: consider_opt_def)
qed

lemma cap_minimum:
  assumes "leg_ok l"
  shows "(fc_binding_factor (leg_cap l), fc_cap (leg_cap l)) \<in> set (leg_limits l)
    \<and> (\<forall>(name, d) \<in> set (leg_limits l). dval (fc_cap (leg_cap l)) \<le> dval d)"
proof -
  have wf: "wf_dec (leg_remaining l)" "wf_dec (vl_q_rate l)"
    "\<forall>d. vl_q_liq l = Some d \<longrightarrow> wf_dec d" "\<forall>d. vl_q_risk l = Some d \<longrightarrow> wf_dec d"
    "\<forall>d. vl_q_venue l = Some d \<longrightarrow> wf_dec d"
    using assms by (auto simp: leg_ok_def leg_limits_def)
  let ?S0 = "[(''remaining'', leg_remaining l)]"
  obtain c1 n1 where 1: "ConsiderCap (vl_q_rate l) ''rate'' (leg_remaining l, ''remaining'') = (c1, n1)" by fastforce
  obtain c2 n2 where 2: "consider_opt (vl_q_liq l) ''liq'' (c1, n1) = (c2, n2)" by fastforce
  obtain c3 n3 where 3: "consider_opt (vl_q_risk l) ''risk'' (c2, n2) = (c3, n3)" by fastforce
  obtain c4 n4 where 4: "consider_opt (vl_q_venue l) ''venue'' (c3, n3) = (c4, n4)" by fastforce
  have m1: "wf_dec c1 \<and> (n1, c1) \<in> set (?S0 @ [(''rate'', vl_q_rate l)])
      \<and> (\<forall>(n', c') \<in> set (?S0 @ [(''rate'', vl_q_rate l)]). dval c1 \<le> dval c')"
    by (rule ConsiderCap_min[OF wf(2,1) _ _ 1]) auto
  note m2 = consider_opt_min[OF wf(3) m1[THEN conjunct1] m1[THEN conjunct2, THEN conjunct1]
    m1[THEN conjunct2, THEN conjunct2] 2]
  note m3 = consider_opt_min[OF wf(4) m2[THEN conjunct1] m2[THEN conjunct2, THEN conjunct1]
    m2[THEN conjunct2, THEN conjunct2] 3]
  note m4 = consider_opt_min[OF wf(5) m3[THEN conjunct1] m3[THEN conjunct2, THEN conjunct1]
    m3[THEN conjunct2, THEN conjunct2] 4]
  have e: "fc_cap (leg_cap l) = c4" "fc_binding_factor (leg_cap l) = n4"
    by (simp_all add: leg_cap_def Let_def 1 2 3 4)
  have "leg_limits l = ((?S0 @ [(''rate'', vl_q_rate l)]) @ (case vl_q_liq l of None \<Rightarrow> [] | Some d \<Rightarrow> [(''liq'', d)]))
      @ (case vl_q_risk l of None \<Rightarrow> [] | Some d \<Rightarrow> [(''risk'', d)])
      @ (case vl_q_venue l of None \<Rightarrow> [] | Some d \<Rightarrow> [(''venue'', d)])"
    by (simp add: leg_limits_def)
  then show ?thesis using m4 unfolding e by simp
qed

text \<open>The cap of a leg is the smallest of its limits (what remains, the rate of the batch,
  and, where given, the limits from liquidity, risk and the venue), and the reported binding
  factor names a limit that attains it.
\<close>

theorem leg_cap_is_minimum:
  assumes "leg_ok l"
  shows "(fc_binding_factor (leg_cap l), fc_cap (leg_cap l)) \<in> set (leg_limits l)
    \<and> (\<forall>(name, d) \<in> set (leg_limits l). dval (fc_cap (leg_cap l)) \<le> dval d)"
  using cap_minimum[OF assms] .

section \<open>The loop over the legs\<close>

definition feas_unit :: "decimal umap \<Rightarrow> vector_leg \<Rightarrow> decimal" where
  "feas_unit caps l = ddiv_nz (cap_of caps l) (abs_ratio l) 12"

definition units_ok :: "decimal umap \<Rightarrow> vector_leg list \<Rightarrow> group_units option \<Rightarrow> bool" where
  "units_ok caps ls st \<longleftrightarrow> (case st of
       None \<Rightarrow> \<forall>l \<in> set ls. \<not> has_ratio l
     | Some u \<Rightarrow> (\<exists>l \<in> set ls. has_ratio l \<and> gu_feas u = feas_unit caps l)
         \<and> (\<forall>l \<in> set ls. has_ratio l \<longrightarrow> dval (gu_feas u) \<le> dval (feas_unit caps l)))"

lemma feas_unit_wf: "wf_dec (feas_unit caps l) \<and> scale (feas_unit caps l) \<le> 12"
  unfolding feas_unit_def by (rule ddiv_nz_wf) auto

lemma unit_step_ok:
  assumes "units_ok caps ls st"
  shows "units_ok caps (ls @ [l]) (unit_step caps st l)"
proof (cases "has_ratio l")
  case False
  then show ?thesis using assms by (auto simp: units_ok_def unit_step_def split: option.splits)
next
  case True
  let ?gi = "feas_unit caps l"
  show ?thesis
  proof (cases st)
    case None
    then show ?thesis using assms True
      by (auto simp: units_ok_def unit_step_def Let_def feas_unit_def)
  next
    case (Some u)
    obtain l0 where l0: "l0 \<in> set ls" "has_ratio l0" "gu_feas u = feas_unit caps l0"
      using assms Some by (auto simp: units_ok_def)
    have c: "dcmp ?gi (gu_feas u) < 0 \<longleftrightarrow> dval ?gi < dval (gu_feas u)"
      unfolding l0(3) using feas_unit_wf by (intro dcmp_iffs(1)) auto
    have f: "unit_step caps st l = Some u' \<Longrightarrow>
        gu_feas u' = (if dval ?gi < dval (gu_feas u) then ?gi else gu_feas u)" for u'
      using Some True by (auto simp: unit_step_def Let_def feas_unit_def[symmetric] c)
    obtain u' where u': "unit_step caps st l = Some u'"
      using Some True by (auto simp: unit_step_def Let_def)
    show ?thesis using assms Some f[OF u'] u' True
      by (auto simp: units_ok_def split: if_splits)
  qed
qed

lemma units_loop: "units_ok caps ls (foldl (unit_step caps) None ls)"
  by (induction ls rule: rev_induct) (auto simp: unit_step_ok, simp add: units_ok_def)

section \<open>The result of one solve\<close>

lemma GroupedSolve_cases:
  fixes g :: vector_order and cs :: "feasible_cap list"
  defines "r \<equiv> GroupedSolve g cs" and "caps \<equiv> cap_by_sym cs"
  obtains (none) "gr_leg_execs r = []"
  | (best) "vo_atomicity_policy g = KBestEffort" "gr_leg_execs r = best_effort_execs caps (vo_legs g)"
      "gr_status r \<noteq> KBlocked"
  | (strict) u where "foldl (unit_step caps) None (vo_legs g) = Some u"
      "vo_atomicity_policy g = KStrictAtomic" "gr_execution_scale r = one_dec" "gr_status r \<noteq> KBlocked"
      "gr_leg_execs r = scaled_execs caps (gu_feas u) (vo_legs g)" "0 < dcmp (gu_feas u) dzero"
      "\<not> dcmp (gu_feas u) (gu_des u) < 0"
  | (scaled) u where "foldl (unit_step caps) None (vo_legs g) = Some u"
      "vo_atomicity_policy g = KScalableAtomic" "\<not> dcmp (gr_execution_scale r) (vo_min_execution_scale g) < 0"
      "gr_status r \<noteq> KBlocked" "gr_leg_execs r = scaled_execs caps (gu_feas u) (vo_legs g)"
      "0 < dcmp (gu_feas u) dzero"
proof (cases "foldl (unit_step caps) None (vo_legs g)")
  case None
  then show ?thesis using none by (simp add: r_def caps_def GroupedSolve_def)
next
  case (Some u)
  have z: "\<not> 0 < dcmp dzero dzero" by code_simp
  note run = Some[unfolded caps_def]
  show ?thesis
  proof (cases "vo_atomicity_policy g")
    case KBestEffort
    then show ?thesis using best run by (simp add: r_def caps_def GroupedSolve_def Let_def)
  next
    case KSequentialFallback
    then show ?thesis using none run z by (simp add: r_def GroupedSolve_def Let_def)
  next
    case KExternalCompensating
    then show ?thesis using none run z by (simp add: r_def GroupedSolve_def Let_def)
  next
    case KStrictAtomic
    show ?thesis
    proof (cases "dcmp (gu_feas u) (gu_des u) < 0")
      case True
      then show ?thesis using none run z KStrictAtomic by (simp add: r_def GroupedSolve_def Let_def)
    next
      case False
      then show ?thesis
        using none strict[OF Some KStrictAtomic] run KStrictAtomic
        by (cases "0 < dcmp (gu_feas u) dzero") (simp_all add: r_def caps_def GroupedSolve_def Let_def)
    qed
  next
    case KScalableAtomic
    let ?alpha = "if 0 < dcmp (gu_des u) dzero then Clamp01 (ddiv_nz (gu_feas u) (gu_des u) 6) else dzero"
    show ?thesis
    proof (cases "dcmp ?alpha (vo_min_execution_scale g) < 0")
      case True
      then show ?thesis using none run z KScalableAtomic by (simp add: r_def GroupedSolve_def Let_def)
    next
      case False
      then show ?thesis
        using none scaled[OF Some KScalableAtomic] run KScalableAtomic
        by (cases "0 < dcmp (gu_feas u) dzero") (simp_all add: r_def caps_def GroupedSolve_def Let_def)
    qed
  qed
qed

lemma abs_ratio_ok:
  assumes "leg_ok l"
  shows "wf_dec (abs_ratio l)" "scale (abs_ratio l) \<le> 6"
proof -
  have t: "wf_dec (vl_target_ratio l)" "scale (vl_target_ratio l) \<le> 6" "0 \<le> scale (vl_target_ratio l)"
    using assms by (auto simp: leg_ok_def wf_dec_def)
  then have z: "wf_dec (mk_dec 0 (scale (vl_target_ratio l)))" by (simp add: wf_dec_def in_i64_def)
  show "wf_dec (abs_ratio l)" "scale (abs_ratio l) \<le> 6"
    using t dsub_wf[OF z t(1)] by (auto simp: abs_ratio_def Let_def)
qed

lemma find_cap_by_sym:
  assumes "distinct (map vl_instrument_symbol ls)" "l \<in> set ls"
  shows "find (cap_by_sym (map leg_cap ls)) (vl_instrument_symbol l) = Some (fc_cap (leg_cap l))"
proof -
  have sym: "fc_instrument_symbol (leg_cap x) = vl_instrument_symbol x" for x
    by (simp add: leg_cap_def Let_def)
  have "find (foldl (\<lambda>m c. put (fc_instrument_symbol c) (fc_cap c) m) m0 (map leg_cap ls)) k
      = (case List.find (\<lambda>x. vl_instrument_symbol x = k) ls of
           Some x \<Rightarrow> Some (fc_cap (leg_cap x)) | None \<Rightarrow> find m0 k)" for m0 k
    using assms(1)
  proof (induction ls arbitrary: m0)
    case Nil
    then show ?case by simp
  next
    case (Cons x xs)
    have none: "List.find (\<lambda>y. vl_instrument_symbol y = vl_instrument_symbol x) xs = None"
      using Cons.prems by (auto simp: find_None_iff image_iff)
    have "find (foldl (\<lambda>m c. put (fc_instrument_symbol c) (fc_cap c) m)
        (put (vl_instrument_symbol x) (fc_cap (leg_cap x)) m0) (map leg_cap xs)) k
      = (case List.find (\<lambda>y. vl_instrument_symbol y = k) xs of Some y \<Rightarrow> Some (fc_cap (leg_cap y))
         | None \<Rightarrow> find (put (vl_instrument_symbol x) (fc_cap (leg_cap x)) m0) k)"
      using Cons.prems by (intro Cons.IH) simp
    then show ?case using none by (cases "vl_instrument_symbol x = k") (auto simp: sym split: option.splits)
  qed
  moreover have "List.find (\<lambda>x. vl_instrument_symbol x = vl_instrument_symbol l) ls = Some l"
    using assms by (induction ls) auto
  ultimately show ?thesis by (simp add: cap_by_sym_def)
qed

lemma cap_of_leg:
  assumes "distinct (map vl_instrument_symbol (vo_legs g))" "l \<in> set (vo_legs g)"
  shows "cap_of (cap_by_sym (ComputeFeasibleCaps g)) l = fc_cap (leg_cap l)"
  using find_cap_by_sym[OF assms] by (simp add: cap_of_def ComputeFeasibleCaps_def)

lemma leg_cap_bounds:
  assumes "leg_ok l"
  shows "wf_dec (fc_cap (leg_cap l))" "0 \<le> dval (fc_cap (leg_cap l))"
    "\<forall>(n, d) \<in> set (leg_limits l). dval (fc_cap (leg_cap l)) \<le> dval d"
proof -
  have "(fc_binding_factor (leg_cap l), fc_cap (leg_cap l)) \<in> set (leg_limits l)"
    and "\<forall>(n, d) \<in> set (leg_limits l). dval (fc_cap (leg_cap l)) \<le> dval d"
    using cap_minimum[OF assms] by blast+
  then show "wf_dec (fc_cap (leg_cap l))" "0 \<le> dval (fc_cap (leg_cap l))"
    "\<forall>(n, d) \<in> set (leg_limits l). dval (fc_cap (leg_cap l)) \<le> dval d"
    using assms by (auto simp: leg_ok_def)
qed

lemma scaled_qty:
  assumes "wf_dec g" "scale g \<le> 12" "0 < dcmp g dzero" "wf_dec c" "0 \<le> dval c"
    "wf_dec rho" "scale rho \<le> 6" "0 \<le> dval rho"
  shows "dval (dmin (dmul g rho) c) \<le> dval c" "0 \<le> dval (dmin (dmul g rho) c)"
proof -
  have w: "wf_dec (dmul g rho)" using assms by (intro dmul_wf) (auto simp: wf_dec_def)
  have "0 < dval g" using dcmp_iffs(2)[OF assms(1) wf_dzero] assms(3) by simp
  then have "0 \<le> dval (dmul g rho)" using assms by (intro dmul_nonneg) auto
  then show "dval (dmin (dmul g rho) c) \<le> dval c" "0 \<le> dval (dmin (dmul g rho) c)"
    using dcmp_iffs(4)[OF w assms(4)] assms(5) by (auto simp: dmin_def)
qed

lemma abs_ratio_nonneg:
  assumes "leg_ok l"
  shows "0 \<le> dval (abs_ratio l)"
proof -
  let ?t = "vl_target_ratio l" and ?z = "mk_dec 0 (scale (vl_target_ratio l))"
  have t: "wf_dec ?t" "0 \<le> scale ?t" "scale ?t \<le> 18" using assms by (auto simp: leg_ok_def wf_dec_def)
  note z = dcmp_zero_scale(1)[OF t(1)]
  show ?thesis
  proof (cases "dval ?t < 0")
    case False
    then show ?thesis by (simp add: abs_ratio_def Let_def z)
  next
    case True
    then have u: "units ?t < 0" by (simp add: units_sign)
    have "dsub ?z ?t = normalize_i128 (i128 (- units ?t)) (scale ?t)"
      by (simp add: dsub_def align_units_i128_def Let_def)
    also have "i128 (- units ?t) = - units ?t"
      using t(1) by (intro i128_id) (auto simp: wf_dec_def in_i64_def in_i128_def)
    finally have e: "dsub ?z ?t = normalize_i128 (- units ?t) (scale ?t)" .
    obtain u' s' where l: "normalize_loop (- units ?t) (scale ?t) = (u', s')" by fastforce
    have "- units ?t \<le> 10 ^ 38" using t(1) by (auto simp: wf_dec_def in_i64_def)
    then have "0 \<le> u'" using normalize_loop_nonneg[OF l] u by simp
    then have "0 \<le> dval (dsub ?z ?t)" by (simp add: e normalize_i128_def l dval_def)
    then show ?thesis using True by (simp add: abs_ratio_def Let_def z)
  qed
qed


section \<open>The ratio of the legs\<close>

text \<open>The sizes for which the quotients and products of the solver fit 64 bits.\<close>

definition unit_fits :: "vector_leg \<Rightarrow> bool" where
  "unit_fits l \<longleftrightarrow> 12 - scale (fc_cap (leg_cap l)) + scale (abs_ratio l) \<le> 18
     \<and> dval (fc_cap (leg_cap l)) / dval (abs_ratio l) * 10 ^ 12 \<le> 9223372036854775806
     \<and> dval (abs_ratio l) \<le> 10 ^ 6"

lemma feas_unit_error:
  assumes "leg_ok l" "has_ratio l" "unit_fits l" "cap_of caps l = fc_cap (leg_cap l)"
  shows "\<bar>dval (feas_unit caps l) - dval (fc_cap (leg_cap l)) / dval (abs_ratio l)\<bar> \<le> 1 / (2 * 10 ^ 12)"
    and "0 < dval (abs_ratio l)"
proof -
  note r = abs_ratio_ok[OF assms(1)] abs_ratio_nonneg[OF assms(1)] and c = leg_cap_bounds(1,2)[OF assms(1)]
  have ne: "dval (abs_ratio l) \<noteq> 0" using assms(2) dcmp_iffs(3)[OF r(1) wf_dzero] by (simp add: has_ratio_def)
  then show "0 < dval (abs_ratio l)" using r(3) by simp
  have q: "0 \<le> dval (fc_cap (leg_cap l)) / dval (abs_ratio l)" using c(2) r(3) by simp
  have "\<bar>dval (ddiv_nz (fc_cap (leg_cap l)) (abs_ratio l) 12) - dval (fc_cap (leg_cap l)) / dval (abs_ratio l)\<bar>
      \<le> 1 / (2 * 10 ^ nat 12)"
    using assms(3) abs_of_nonneg[OF r(3)] abs_of_nonneg[OF c(2)] ne
    by (intro ddiv_nz_half_unit(3)[OF c(1) r(1)]) (simp_all add: unit_fits_def dval_zero_iff)
  then show "\<bar>dval (feas_unit caps l) - dval (fc_cap (leg_cap l)) / dval (abs_ratio l)\<bar> \<le> 1 / (2 * 10 ^ 12)"
    by (simp add: feas_unit_def assms(4))
qed

lemma scaled_exec_error:
  fixes G :: rat
  assumes "wf_dec g" "wf_dec rho" "wf_dec c" "scale g \<le> 12" "scale rho \<le> 6"
    and "0 \<le> dval g" "dval g \<le> 9223373" "0 < dval rho" "dval rho \<le> 10 ^ 6"
    and "dval g \<le> dval c / dval rho + 1 / (2 * 10 ^ 12)"
  shows "\<exists>p \<le> 18. \<bar>dval (dmin (dmul g rho) c) - dval g * dval rho\<bar>
      \<le> 5 / 9 / 10 ^ p + dval rho / (2 * 10 ^ 12)"
proof -
  let ?d = "dmul g rho" and ?p = "nat (scale (dmul g rho))"
  note n = dmul_normalize[OF assms(1,2)] and pb = product_bound(1)[OF assms(1,2)]
  have sc: "0 \<le> scale g + scale rho" "0 \<le> scale g" "0 \<le> scale rho" using assms(1,2) by (auto simp: wf_dec_def)
  have "dval g * dval rho \<le> 9223373 * 10 ^ 6" using assms(6-9) by (intro mult_mono) auto
  then have big: "\<bar>dval g * dval rho\<bar> \<le> 9223372036854775806" using assms(6,8) by (simp add: abs_mult)
  note e = normalize_error[OF pb sc(1), unfolded n(2) n(1)[symmetric], OF big]
  have p18: "?p \<le> 18" using e(2) assms(4,5) by simp
  have w: "wf_dec ?d" using assms(4,5) sc by (intro dmul_wf) auto
  have m: "dval (dmin ?d c) = min (dval ?d) (dval c)"
    using dcmp_iffs(4)[OF w assms(3)] by (auto simp: dmin_def min_def)
  have h: "dval g * dval rho \<le> dval c + dval rho / (2 * 10 ^ 12)"
  proof -
    have "dval g * dval rho \<le> (dval c / dval rho + 1 / (2 * 10 ^ 12)) * dval rho"
      using assms(8,10) by (intro mult_right_mono) auto
    also have "\<dots> = dval c + dval rho / (2 * 10 ^ 12)" using assms(8) by (simp add: field_simps)
    finally show ?thesis .
  qed
  have r0: "0 \<le> dval rho / (2 * 10 ^ 12)" using assms(8) by simp
  have "\<bar>dval (dmin ?d c) - dval g * dval rho\<bar> \<le> 5 / 9 / 10 ^ ?p + dval rho / (2 * 10 ^ 12)"
    using e(3) h r0 unfolding m min_def abs_le_iff by (auto split: if_splits)
  then show ?thesis using p18 by blast
qed

text \<open>The ratio of the legs. A strictly atomic or scalable group that executes has one group
  quantity \<open>G\<close> for all its legs: each leg executes \<open>G\<close> times the size of its ratio, up to the
  rounding of the product (five ninths of its last place) and of the division by which \<open>G\<close> was
  found (half a unit of the twelfth place, times the ratio).
\<close>

theorem group_keeps_ratio:
  assumes "\<forall>l \<in> set (vo_legs g). leg_ok l \<and> (has_ratio l \<longrightarrow> unit_fits l)"
    and "distinct (map vl_instrument_symbol (vo_legs g))"
    and "vo_atomicity_policy g \<noteq> KBestEffort" "gr_leg_execs (GroupedSolve g (ComputeFeasibleCaps g)) \<noteq> []"
  shows "\<exists>G > 0. \<forall>e \<in> set (gr_leg_execs (GroupedSolve g (ComputeFeasibleCaps g))).
    \<exists>l \<in> set (vo_legs g). \<exists>p \<le> 18. vl_leg_id l = le_leg_id e
      \<and> \<bar>dval (le_executed_qty e) - G * dval (abs_ratio l)\<bar>
          \<le> 5 / 9 / 10 ^ p + dval (abs_ratio l) / (2 * 10 ^ 12)"
proof -
  let ?caps = "cap_by_sym (ComputeFeasibleCaps g)"
  obtain u where u: "foldl (unit_step ?caps) None (vo_legs g) = Some u" "0 < dcmp (gu_feas u) dzero"
    "gr_leg_execs (GroupedSolve g (ComputeFeasibleCaps g)) = scaled_execs ?caps (gu_feas u) (vo_legs g)"
    using assms(3,4) by (cases rule: GroupedSolve_cases[of g "ComputeFeasibleCaps g"]) auto
  obtain l0 where l0: "l0 \<in> set (vo_legs g)" "has_ratio l0" "gu_feas u = feas_unit ?caps l0"
    and least: "\<And>l. l \<in> set (vo_legs g) \<Longrightarrow> has_ratio l \<Longrightarrow> dval (gu_feas u) \<le> dval (feas_unit ?caps l)"
    using units_loop[of ?caps "vo_legs g"] u(1) by (auto simp: units_ok_def)
  have f: "wf_dec (gu_feas u)" "scale (gu_feas u) \<le> 12" using l0(3) feas_unit_wf by auto
  have pos: "0 < dval (gu_feas u)" using u(2) dcmp_iffs(2)[OF f(1) wf_dzero] by simp
  have err: "\<bar>dval (feas_unit ?caps l) - dval (fc_cap (leg_cap l)) / dval (abs_ratio l)\<bar> \<le> 1 / (2 * 10 ^ 12)"
    "0 < dval (abs_ratio l)" if "l \<in> set (vo_legs g)" "has_ratio l" for l
    using feas_unit_error[of l ?caps] assms(1) that cap_of_leg[OF assms(2) that(1)] by auto
  have top: "dval (gu_feas u) \<le> 9223373"
    using err(1)[OF l0(1,2)] assms(1) l0 unfolding l0(3) unit_fits_def abs_le_iff by force
  have "\<exists>l \<in> set (vo_legs g). \<exists>p \<le> 18. vl_leg_id l = le_leg_id e
      \<and> \<bar>dval (le_executed_qty e) - dval (gu_feas u) * dval (abs_ratio l)\<bar>
          \<le> 5 / 9 / 10 ^ p + dval (abs_ratio l) / (2 * 10 ^ 12)"
    if e: "e \<in> set (scaled_execs ?caps (gu_feas u) (vo_legs g))" for e
  proof -
    obtain l where l: "l \<in> set (vo_legs g)" "has_ratio l" "le_leg_id e = vl_leg_id l"
      "le_executed_qty e = dmin (dmul (gu_feas u) (abs_ratio l)) (cap_of ?caps l)"
      using e by (auto simp: scaled_execs_def)
    have ok: "leg_ok l" "unit_fits l" using l(1,2) assms(1) by auto
    have "dval (gu_feas u) \<le> dval (fc_cap (leg_cap l)) / dval (abs_ratio l) + 1 / (2 * 10 ^ 12)"
      using least[OF l(1,2)] err(1)[OF l(1,2)] unfolding abs_le_iff by linarith
    then obtain p where "p \<le> 18"
      "\<bar>dval (dmin (dmul (gu_feas u) (abs_ratio l)) (fc_cap (leg_cap l))) - dval (gu_feas u) * dval (abs_ratio l)\<bar>
        \<le> 5 / 9 / 10 ^ p + dval (abs_ratio l) / (2 * 10 ^ 12)"
      using scaled_exec_error[OF f(1) abs_ratio_ok(1)[OF ok(1)] leg_cap_bounds(1)[OF ok(1)] f(2)
          abs_ratio_ok(2)[OF ok(1)] _ top err(2)[OF l(1,2)]] pos ok(2)
      by (auto simp: unit_fits_def)
    then show ?thesis using l cap_of_leg[OF assms(2) l(1)] by auto
  qed
  then show ?thesis unfolding u(3) using pos by blast
qed

section \<open>Examples\<close>

definition ex_leg :: "string \<Rightarrow> string \<Rightarrow> int \<Rightarrow> int \<Rightarrow> int \<Rightarrow> vector_leg" where
  "ex_leg leg_id symbol ratio rate q = \<lparr>vl_leg_id = leg_id, vl_instrument_symbol = symbol,
     vl_target_ratio = mk_dec ratio 0, vl_p_low = dzero, vl_p_high = dzero, vl_q_rate = mk_dec rate 0,
     vl_q_max = mk_dec q 0, vl_filled_cum = mk_dec 0 0, vl_q_liq = None, vl_q_risk = None,
     vl_q_venue = None, vl_venue_preferences = []\<rparr>"

definition ex_vector_order :: vector_order where
  "ex_vector_order = \<lparr>vo_parent_order_id = ''c1'', vo_user_id = ''u1'',
     vo_legs = [ex_leg ''l1'' ''BTC/USDT'' 1 4 10, ex_leg ''l2'' ''ETH/USDT'' (-2) 6 12],
     vo_atomicity_policy = KScalableAtomic, vo_fallback_policy = KWaitNextBatch,
     vo_min_execution_scale = mk_dec 5 1, vo_max_ratio_deviation_bps = 0,
     vo_constraints = [\<lparr>gc_constraint_id = ''k1'', gc_type = KFactorNeutrality,
       gc_coefficients = [(''BTC/USDT'', mk_dec 2 0), (''ETH/USDT'', mk_dec 1 0)],
       gc_lower = Some (mk_dec 0 0), gc_upper = Some (mk_dec 0 0), gc_severity = KHard\<rparr>]\<rparr>"

lemma ex_legs_ok: "\<forall>l \<in> set (vo_legs ex_vector_order). leg_ok l"
proof -
  have "leg_ok (ex_leg ''l1'' ''BTC/USDT'' 1 4 10)" "leg_ok (ex_leg ''l2'' ''ETH/USDT'' (-2) 6 12)"
    by (simp_all add: leg_ok_def ex_leg_def leg_limits_def leg_remaining_def clamp_neg_def dsub_def
        dcmp_def align_units_i128_def Let_def wf_dec_def in_i64_def i128_def normalize_i128_id)
  then show ?thesis by (simp add: ex_vector_order_def)
qed

lemma ex_symbols: "distinct (map vl_instrument_symbol (vo_legs ex_vector_order))"
  by (simp add: ex_vector_order_def ex_leg_def)

lemma ex_group_run:
  "map (\<lambda>e. (le_leg_id e, dval (le_executed_qty e))) (gr_leg_execs (SolveGroup [] ex_vector_order))
     = [(''l1'', 3), (''l2'', 6)]"
  by code_simp

theorem leg_cap_is_minimum_witness:
  "dval (fc_cap (leg_cap (ex_leg ''l1'' ''BTC/USDT'' 1 4 10))) \<le> 4"
proof -
  have ok: "leg_ok (ex_leg ''l1'' ''BTC/USDT'' 1 4 10)" using ex_legs_ok by (simp add: ex_vector_order_def)
  show ?thesis using leg_cap_is_minimum[OF ok] by (simp add: leg_limits_def ex_leg_def)
qed


theorem group_keeps_ratio_witness:
  "\<exists>G > 0. \<forall>e \<in> set (gr_leg_execs (GroupedSolve ex_vector_order (ComputeFeasibleCaps ex_vector_order))).
    \<exists>l \<in> set (vo_legs ex_vector_order). \<exists>p \<le> 18. vl_leg_id l = le_leg_id e
      \<and> \<bar>dval (le_executed_qty e) - G * dval (abs_ratio l)\<bar>
          \<le> 5 / 9 / 10 ^ p + dval (abs_ratio l) / (2 * 10 ^ 12)"
proof (rule group_keeps_ratio[OF _ ex_symbols])
  have "\<forall>l \<in> set (vo_legs ex_vector_order). unit_fits l" by code_simp
  then show "\<forall>l \<in> set (vo_legs ex_vector_order). leg_ok l \<and> (has_ratio l \<longrightarrow> unit_fits l)"
    using ex_legs_ok by blast
  show "vo_atomicity_policy ex_vector_order \<noteq> KBestEffort" by (simp add: ex_vector_order_def)
  show "gr_leg_execs (GroupedSolve ex_vector_order (ComputeFeasibleCaps ex_vector_order)) \<noteq> []"
    by code_simp
qed

section \<open>Two legs on one instrument\<close>

text \<open>
  The solver looks the cap of a leg up by the instrument, so of two legs on one instrument the
  first gets the cap of the last: here a leg with one unit left executes ten.
\<close>

definition ex_twin_order :: vector_order where
  "ex_twin_order = ex_vector_order\<lparr>vo_atomicity_policy := KBestEffort, vo_constraints := [],
     vo_legs := [ex_leg ''l1'' ''BTC/USDT'' 1 10 1, ex_leg ''l2'' ''BTC/USDT'' 1 10 10]\<rparr>"

theorem twin_legs_overfill:
  "map (\<lambda>e. (le_leg_id e, dval (le_executed_qty e))) (gr_leg_execs (SolveGroup [] ex_twin_order))
     = [(''l1'', 10), (''l2'', 10)]
   \<and> dval (leg_remaining (hd (vo_legs ex_twin_order))) = 1"
  by code_simp

end
