(* ===== verification/Matching_Graph.thy ===== *)
theory Matching_Graph
  imports Order_Messages Decimal_Text
begin

text \<open>
  The graph between the legs of a combo (\<open>domain/trigger_condition.cpp\<close>,
  \<open>domain/child_graph_transitions.cpp\<close>): an executed leg cancels its siblings, an executed entry
  sizes the exits of its bracket, a trigger activates a waiting leg. Each pass walks the edges
  once and records the transitions it applied.
\<close>

section \<open>Triggers\<close>

datatype trigger_op = TriggerOp_kGte | TriggerOp_kLte | TriggerOp_kGt | TriggerOp_kLt

record trigger_condition =
  tr_present :: bool
  tr_op :: trigger_op
  tr_symbol :: string
  tr_threshold :: decimal

definition TriggerOpFromString :: "string \<Rightarrow> trigger_op" where
  "TriggerOpFromString s =
     (if s = ''lte'' then TriggerOp_kLte else if s = ''gt'' then TriggerOp_kGt
      else if s = ''lt'' then TriggerOp_kLt else TriggerOp_kGte)"

definition EvaluateTrigger :: "trigger_condition \<Rightarrow> decimal umap \<Rightarrow> bool" where
  "EvaluateTrigger c prices =
     (if \<not> tr_present c then True
      else case find prices (tr_symbol c) of
        None \<Rightarrow> False
      | Some p \<Rightarrow> (let r = dcmp p (tr_threshold c) in
          case tr_op c of
            TriggerOp_kGte \<Rightarrow> 0 \<le> r | TriggerOp_kLte \<Rightarrow> r \<le> 0
          | TriggerOp_kGt \<Rightarrow> 0 < r | TriggerOp_kLt \<Rightarrow> r < 0))"

section \<open>Legs and edges\<close>

datatype graph_leg_status =
    GroupLegStatus_kActive | GroupLegStatus_kWaitingForTrigger | GroupLegStatus_kPartiallyFilled
  | GroupLegStatus_kFilled | GroupLegStatus_kCancelled

datatype graph_edge_type =
    GroupEdgeType_kOcoSibling | GroupEdgeType_kBracketEntry | GroupEdgeType_kConditional

record graph_leg =
  gy_leg_id :: string
  gy_status :: graph_leg_status
  gy_q_max :: decimal
  gy_filled_cum :: decimal
  gy_is_exit :: bool

record graph_edge =
  ge_type :: graph_edge_type
  ge_source_leg_id :: string
  ge_target_leg_id :: string
  ge_condition :: trigger_condition

record combo_group_state =
  gs_parent_order_id :: string
  gs_legs :: "graph_leg list"
  gs_edges :: "graph_edge list"

record graph_transition =
  gt_source_leg_id :: string
  gt_target_leg_id :: string
  gt_action :: string
  gt_idempotency_key :: string

definition FindLeg :: "graph_leg list \<Rightarrow> string \<Rightarrow> graph_leg option" where
  "FindLeg legs i = List.find (\<lambda>l. gy_leg_id l = i) legs"

text \<open>A write through the pointer \<open>FindLeg\<close> returns.\<close>

fun write_leg :: "string \<Rightarrow> (graph_leg \<Rightarrow> graph_leg) \<Rightarrow> graph_leg list \<Rightarrow> graph_leg list" where
  "write_leg i f [] = []"
| "write_leg i f (l # ls) = (if gy_leg_id l = i then f l # ls else l # write_leg i f ls)"

definition IsFilled :: "graph_leg \<Rightarrow> bool" where
  "IsFilled l \<longleftrightarrow> gy_status l = GroupLegStatus_kFilled \<or> 0 < dcmp (gy_filled_cum l) dzero"

section \<open>The three passes\<close>

text \<open>What one edge changes: \<open>None\<close> is a \<open>continue\<close> of the loop.\<close>

definition oco_change :: "graph_edge \<Rightarrow> graph_leg list \<Rightarrow> graph_leg list option" where
  "oco_change e legs =
     (if ge_type e \<noteq> GroupEdgeType_kOcoSibling then None
      else case (FindLeg legs (ge_source_leg_id e), FindLeg legs (ge_target_leg_id e)) of
        (Some s, Some t) \<Rightarrow>
          if \<not> IsFilled s then None
          else if gy_status t = GroupLegStatus_kCancelled then None
          else Some (write_leg (ge_target_leg_id e) (\<lambda>l. l\<lparr>gy_status := GroupLegStatus_kCancelled\<rparr>) legs)
      | _ \<Rightarrow> None)"

definition bracket_change :: "graph_edge \<Rightarrow> graph_leg list \<Rightarrow> graph_leg list option" where
  "bracket_change e legs =
     (if ge_type e \<noteq> GroupEdgeType_kBracketEntry then None
      else case (FindLeg legs (ge_source_leg_id e), FindLeg legs (ge_target_leg_id e)) of
        (Some s, Some t) \<Rightarrow>
          if dcmp (gy_filled_cum s) dzero \<le> 0 then None
          else if dcmp (gy_q_max t) (gy_filled_cum s) = 0 then None
          else Some (write_leg (ge_target_leg_id e) (\<lambda>l. l\<lparr>gy_q_max := gy_filled_cum s\<rparr>) legs)
      | _ \<Rightarrow> None)"

definition conditional_change :: "decimal umap \<Rightarrow> graph_edge \<Rightarrow> graph_leg list \<Rightarrow> graph_leg list option" where
  "conditional_change prices e legs =
     (if ge_type e \<noteq> GroupEdgeType_kConditional then None
      else case FindLeg legs (ge_target_leg_id e) of
        Some t \<Rightarrow>
          if gy_status t \<noteq> GroupLegStatus_kWaitingForTrigger then None
          else if \<not> EvaluateTrigger (ge_condition e) prices then None
          else Some (write_leg (ge_target_leg_id e) (\<lambda>l. l\<lparr>gy_status := GroupLegStatus_kActive\<rparr>) legs)
      | None \<Rightarrow> None)"

definition transition_of :: "string \<Rightarrow> string \<Rightarrow> graph_edge \<Rightarrow> graph_transition" where
  "transition_of parent action e =
     \<lparr>gt_source_leg_id = ge_source_leg_id e, gt_target_leg_id = ge_target_leg_id e,
      gt_action = takeWhile (\<lambda>c. c \<noteq> CHR '':'') action,
      gt_idempotency_key = parent @ '':'' @ ge_source_leg_id e @ ''->'' @ ge_target_leg_id e @ '':'' @ action\<rparr>"

definition run_pass ::
    "(graph_edge \<Rightarrow> graph_leg list \<Rightarrow> graph_leg list option) \<Rightarrow> (graph_edge \<Rightarrow> graph_leg list \<Rightarrow> graph_transition)
      \<Rightarrow> combo_group_state \<Rightarrow> combo_group_state \<times> graph_transition list" where
  "run_pass change note_of g =
     (let (legs, applied) = foldl (\<lambda>(legs, applied) e. case change e legs of
            None \<Rightarrow> (legs, applied)
          | Some legs' \<Rightarrow> (legs', applied @ [note_of e legs'])) (gs_legs g, []) (gs_edges g)
      in (g\<lparr>gs_legs := legs\<rparr>, applied))"

definition ApplyOCOTransitions :: "combo_group_state \<Rightarrow> combo_group_state \<times> graph_transition list" where
  "ApplyOCOTransitions g =
     run_pass oco_change (\<lambda>e legs. transition_of (gs_parent_order_id g) ''oco_cancel'' e) g"

definition bracket_note :: "string \<Rightarrow> graph_edge \<Rightarrow> graph_leg list \<Rightarrow> graph_transition" where
  "bracket_note parent e legs = transition_of parent (''bracket_resize:'' @
     (case FindLeg legs (ge_source_leg_id e) of None \<Rightarrow> [] | Some s \<Rightarrow> to_string (gy_filled_cum s))) e"

definition ResizeBracketExits :: "combo_group_state \<Rightarrow> combo_group_state \<times> graph_transition list" where
  "ResizeBracketExits g = run_pass bracket_change (bracket_note (gs_parent_order_id g)) g"

definition ApplyConditionalActivations ::
    "combo_group_state \<Rightarrow> decimal umap \<Rightarrow> combo_group_state \<times> graph_transition list" where
  "ApplyConditionalActivations g prices = run_pass (conditional_change prices)
     (\<lambda>e legs. transition_of (gs_parent_order_id g) ''conditional_activate'' e) g"

text \<open>The three passes in the order the matching loop runs them.\<close>

definition advance_graph ::
    "decimal umap \<Rightarrow> combo_group_state \<Rightarrow> combo_group_state \<times> graph_transition list" where
  "advance_graph prices g =
     (let (g1, oco) = ApplyOCOTransitions g; (g2, bracket) = ResizeBracketExits g1;
          (g3, cond) = ApplyConditionalActivations g2 prices
      in (g3, oco @ bracket @ cond))"

end
