(* ===== verification/Matching_Child_Graph.thy ===== *)
theory Matching_Child_Graph
  imports Matching_Graph Decimal_Laws
begin

text \<open>
  What the graph of a combo does: the passes of \<open>Matching_Graph\<close> settle after one walk, and one
  round of the three passes has the effect of a reference definition that looks at every leg on
  its own.
\<close>

section \<open>Interface: a pass that settles\<close>

definition walk :: "('e \<Rightarrow> 's \<Rightarrow> 's option) \<Rightarrow> 'e list \<Rightarrow> 's \<Rightarrow> 's" where
  "walk change es s = foldl (\<lambda>s e. case change e s of None \<Rightarrow> s | Some s' \<Rightarrow> s') s es"

lemma walk_simps [simp]:
  "walk change [] s = s"
  "walk change (e # es) s = walk change es (case change e s of None \<Rightarrow> s | Some s' \<Rightarrow> s')"
  by (simp_all add: walk_def)

lemma walk_snoc: "walk change (es @ [e]) s =
    (case change e (walk change es s) of None \<Rightarrow> walk change es s | Some s' \<Rightarrow> s')"
  by (simp add: walk_def split: option.split)

lemma walk_still: "(\<And>e. e \<in> set es \<Longrightarrow> change e s = None) \<Longrightarrow> walk change es s = s"
  by (induction es) auto

locale settling_pass =
  fixes change :: "'e \<Rightarrow> 's \<Rightarrow> 's option" and edges :: "'e set"
  assumes settles: "e \<in> edges \<Longrightarrow> change e s = Some s' \<Longrightarrow> change e s' = None"
    and stays: "e \<in> edges \<Longrightarrow> e' \<in> edges \<Longrightarrow> change e s = None \<Longrightarrow> change e' s = Some s' \<Longrightarrow> change e s' = None"
begin

lemma stays_walk: "e \<in> edges \<Longrightarrow> set es \<subseteq> edges \<Longrightarrow> change e s = None \<Longrightarrow> change e (walk change es s) = None"
proof (induction es arbitrary: s)
  case Nil
  then show ?case by simp
next
  case (Cons a es)
  have "change e (case change a s of None \<Rightarrow> s | Some s' \<Rightarrow> s') = None"
    using Cons.prems stays[of e a s] by (cases "change a s") auto
  then show ?case using Cons.IH Cons.prems by simp
qed

lemma settled: "set es \<subseteq> edges \<Longrightarrow> e \<in> set es \<Longrightarrow> change e (walk change es s) = None"
proof (induction es arbitrary: s)
  case Nil
  then show ?case by simp
next
  case (Cons a es)
  show ?case
  proof (cases "e \<in> set es")
    case True
    then show ?thesis using Cons by simp
  next
    case False
    then have "e = a" using Cons.prems by simp
    then have "change e (case change a s of None \<Rightarrow> s | Some s' \<Rightarrow> s') = None"
      using Cons.prems settles[of a s] by (cases "change a s") auto
    then show ?thesis using stays_walk[of e es "case change a s of None \<Rightarrow> s | Some s' \<Rightarrow> s'"] Cons.prems \<open>e = a\<close>
      by simp
  qed
qed

end

section \<open>Legs\<close>

lemma FindLeg_Nil [simp]: "FindLeg [] i = None"
  by (simp add: FindLeg_def)

lemma FindLeg_Cons [simp]: "FindLeg (l # ls) i = (if gy_leg_id l = i then Some l else FindLeg ls i)"
  by (simp add: FindLeg_def)

lemma FindLeg_write:
  assumes "\<And>l. gy_leg_id (f l) = gy_leg_id l"
  shows "FindLeg (write_leg i f ls) j = (if j = i then map_option f (FindLeg ls i) else FindLeg ls j)"
  by (induction ls) (auto simp: assms)

lemma FindLeg_map:
  assumes "\<And>l. gy_leg_id (f l) = gy_leg_id l"
  shows "FindLeg (map f ls) i = map_option f (FindLeg ls i)"
  by (induction ls) (auto simp: assms)

lemma FindLeg_SomeD: "FindLeg ls i = Some l \<Longrightarrow> l \<in> set ls \<and> gy_leg_id l = i"
  by (induction ls) (auto split: if_splits)

lemma FindLeg_distinct:
  "distinct (map gy_leg_id ls) \<Longrightarrow> l \<in> set ls \<Longrightarrow> FindLeg ls (gy_leg_id l) = Some l"
  by (induction ls) (auto simp: image_iff)

lemma write_leg_map:
  "distinct (map gy_leg_id ls) \<Longrightarrow> write_leg i f ls = map (\<lambda>l. if gy_leg_id l = i then f l else l) ls"
proof (induction ls)
  case Nil
  then show ?case by simp
next
  case (Cons l ls)
  then have "\<forall>x \<in> set ls. gy_leg_id l \<noteq> gy_leg_id x" by (auto simp: image_iff)
  then have "map (\<lambda>x. if gy_leg_id x = gy_leg_id l then f x else x) ls = ls"
    by (intro map_idI) auto
  then show ?case using Cons by auto
qed

lemma dcmp_self [simp]: "dcmp d d = 0"
  by (simp add: dcmp_def Let_def)

section \<open>The passes settle\<close>

lemma FindLeg_status:
  "FindLeg (write_leg i (\<lambda>l. l\<lparr>gy_status := st\<rparr>) ls) j =
    (if j = i then map_option (\<lambda>l. l\<lparr>gy_status := st\<rparr>) (FindLeg ls i) else FindLeg ls j)"
  by (rule FindLeg_write) simp

lemma FindLeg_size:
  "FindLeg (write_leg i (\<lambda>l. l\<lparr>gy_q_max := q\<rparr>) ls) j =
    (if j = i then map_option (\<lambda>l. l\<lparr>gy_q_max := q\<rparr>) (FindLeg ls i) else FindLeg ls j)"
  by (rule FindLeg_write) simp

definition oco_due :: "graph_edge \<Rightarrow> graph_leg list \<Rightarrow> bool" where
  "oco_due e ls \<longleftrightarrow> ge_type e = GroupEdgeType_kOcoSibling
     \<and> (\<exists>s t. FindLeg ls (ge_source_leg_id e) = Some s \<and> FindLeg ls (ge_target_leg_id e) = Some t
          \<and> IsFilled s \<and> gy_status t \<noteq> GroupLegStatus_kCancelled)"

lemma oco_change_due: "oco_change e ls = (if oco_due e ls
    then Some (write_leg (ge_target_leg_id e) (\<lambda>l. l\<lparr>gy_status := GroupLegStatus_kCancelled\<rparr>) ls) else None)"
  by (simp add: oco_change_def oco_due_def split: option.split)

definition activation_due :: "decimal umap \<Rightarrow> graph_edge \<Rightarrow> graph_leg list \<Rightarrow> bool" where
  "activation_due prices e ls \<longleftrightarrow> ge_type e = GroupEdgeType_kConditional
     \<and> (\<exists>t. FindLeg ls (ge_target_leg_id e) = Some t \<and> gy_status t = GroupLegStatus_kWaitingForTrigger)
     \<and> EvaluateTrigger (ge_condition e) prices"

lemma conditional_change_due: "conditional_change prices e ls = (if activation_due prices e ls
    then Some (write_leg (ge_target_leg_id e) (\<lambda>l. l\<lparr>gy_status := GroupLegStatus_kActive\<rparr>) ls) else None)"
  by (simp add: conditional_change_def activation_due_def split: option.split)

definition bracket_size :: "graph_edge \<Rightarrow> graph_leg list \<Rightarrow> decimal option" where
  "bracket_size e ls = (if ge_type e \<noteq> GroupEdgeType_kBracketEntry then None
     else case (FindLeg ls (ge_source_leg_id e), FindLeg ls (ge_target_leg_id e)) of
       (Some s, Some t) \<Rightarrow> if 0 < dcmp (gy_filled_cum s) dzero \<and> dcmp (gy_q_max t) (gy_filled_cum s) \<noteq> 0
         then Some (gy_filled_cum s) else None
     | _ \<Rightarrow> None)"

lemma bracket_change_size: "bracket_change e ls = map_option
    (\<lambda>q. write_leg (ge_target_leg_id e) (\<lambda>l. l\<lparr>gy_q_max := q\<rparr>) ls) (bracket_size e ls)"
  by (simp add: bracket_change_def bracket_size_def split: option.split)

lemma IsFilled_cancelled: "IsFilled (l\<lparr>gy_status := GroupLegStatus_kCancelled\<rparr>) \<Longrightarrow> IsFilled l"
  by (simp add: IsFilled_def)

interpretation oco: settling_pass oco_change UNIV
proof
  show "oco_change e s' = None" if "oco_change e s = Some s'" for e s s'
    using that by (auto simp: oco_change_due oco_due_def FindLeg_status split: if_splits)
  show "oco_change e s' = None" if "oco_change e s = None" "oco_change e' s = Some s'" for e e' s s'
    using that by (auto simp: oco_change_due oco_due_def FindLeg_status dest: IsFilled_cancelled split: if_splits)
qed

interpretation activation: settling_pass "conditional_change prices" UNIV for prices
proof
  show "conditional_change prices e s' = None" if "conditional_change prices e s = Some s'" for e s s'
    using that by (auto simp: conditional_change_due activation_due_def FindLeg_status split: if_splits)
  show "conditional_change prices e s' = None"
    if "conditional_change prices e s = None" "conditional_change prices e' s = Some s'" for e e' s s'
    using that by (auto simp: conditional_change_due activation_due_def FindLeg_status split: if_splits)
qed

text \<open>Every exit has one entry.\<close>

definition one_entry :: "graph_edge set \<Rightarrow> bool" where
  "one_entry es \<longleftrightarrow> (\<forall>e \<in> es. \<forall>e' \<in> es. ge_type e = GroupEdgeType_kBracketEntry
     \<longrightarrow> ge_type e' = GroupEdgeType_kBracketEntry \<longrightarrow> ge_target_leg_id e = ge_target_leg_id e'
     \<longrightarrow> ge_source_leg_id e = ge_source_leg_id e')"

lemma bracket_settles:
  assumes "one_entry es"
  shows "settling_pass bracket_change es"
proof
  show "bracket_change e s' = None" if "bracket_change e s = Some s'" for e s s'
    using that by (auto simp: bracket_change_size bracket_size_def FindLeg_size split: option.splits if_splits)
next
  fix e e' s s'
  assume e: "e \<in> es" "e' \<in> es" "bracket_change e s = None" "bracket_change e' s = Some s'"
  then obtain q where q: "bracket_size e' s = Some q"
    "s' = write_leg (ge_target_leg_id e') (\<lambda>l. l\<lparr>gy_q_max := q\<rparr>) s"
    by (auto simp: bracket_change_size)
  have n: "bracket_size e s = None" using e(3) by (simp add: bracket_change_size)
  have t: "ge_type e' = GroupEdgeType_kBracketEntry" using q(1) by (simp add: bracket_size_def split: if_splits)
  have other: "ge_type e \<noteq> GroupEdgeType_kBracketEntry \<or> ge_target_leg_id e \<noteq> ge_target_leg_id e'"
  proof (rule ccontr)
    assume "\<not> (ge_type e \<noteq> GroupEdgeType_kBracketEntry \<or> ge_target_leg_id e \<noteq> ge_target_leg_id e')"
    then have same: "ge_type e = GroupEdgeType_kBracketEntry" "ge_target_leg_id e = ge_target_leg_id e'" by blast+
    then have "ge_source_leg_id e = ge_source_leg_id e'"
      using assms e(1,2) t unfolding one_entry_def by blast
    then have "bracket_size e s = bracket_size e' s" using same t by (simp add: bracket_size_def)
    then show False using n q(1) by simp
  qed
  have "bracket_size e s' = None"
  proof (cases "ge_type e = GroupEdgeType_kBracketEntry")
    case True
    then have "FindLeg s' (ge_target_leg_id e) = FindLeg s (ge_target_leg_id e)"
      and "map_option gy_filled_cum (FindLeg s' (ge_source_leg_id e)) = map_option gy_filled_cum (FindLeg s (ge_source_leg_id e))"
      using other by (simp_all add: q(2) FindLeg_size option.map_comp comp_def)
    then show ?thesis using n
      by (cases "FindLeg s (ge_source_leg_id e)"; cases "FindLeg s' (ge_source_leg_id e)")
        (auto simp: bracket_size_def split: option.splits if_splits)
  qed (simp add: bracket_size_def)
  then show "bracket_change e s' = None" by (simp add: bracket_change_size)
qed

lemma pass_loop_walk:
  "fst (foldl (\<lambda>(legs, applied) e. case change e legs of None \<Rightarrow> (legs, applied)
      | Some legs' \<Rightarrow> (legs', applied @ [note_of e legs'])) (ls, ts) es) = walk change es ls"
proof (induction es arbitrary: ls ts)
  case Nil
  then show ?case by simp
next
  case (Cons e es)
  show ?case by (cases "change e ls") (simp_all add: Cons.IH)
qed

lemma pass_loop_still:
  "(\<And>e. e \<in> set es \<Longrightarrow> change e ls = None) \<Longrightarrow>
    foldl (\<lambda>(legs, applied) e. case change e legs of None \<Rightarrow> (legs, applied)
      | Some legs' \<Rightarrow> (legs', applied @ [note_of e legs'])) (ls, ts) es = (ls, ts)"
  by (induction es) simp_all

lemma run_pass_walk:
  "fst (run_pass change note_of g) = g\<lparr>gs_legs := walk change (gs_edges g) (gs_legs g)\<rparr>"
  using pass_loop_walk[where change = change and note_of = note_of and ls = "gs_legs g" and ts = "[]" and es = "gs_edges g"]
  by (simp add: run_pass_def split_beta)

lemma run_pass_still:
  assumes "\<And>e. e \<in> set (gs_edges g) \<Longrightarrow> change e (gs_legs g) = None"
  shows "run_pass change note_of g = (g, [])"
  using pass_loop_still[where change = change and note_of = note_of and ls = "gs_legs g" and ts = "[]"
    and es = "gs_edges g"] assms by (simp add: run_pass_def)

lemma pass_twice:
  assumes "\<And>e. e \<in> set (gs_edges g) \<Longrightarrow> change e (walk change (gs_edges g) (gs_legs g)) = None"
  shows "run_pass change note_of (fst (run_pass change note_of g)) = (fst (run_pass change note_of g), [])"
  by (rule run_pass_still) (simp add: run_pass_walk assms)

section \<open>A reference for one round\<close>

text \<open>
  What a round does to a leg, read off the edges into it: it is cancelled when a sibling has
  executed, sized by an entry that has executed, and activated when it waits on a trigger that
  holds.
\<close>

definition executed_leg :: "graph_leg list \<Rightarrow> string \<Rightarrow> graph_leg option" where
  "executed_leg legs i = (case FindLeg legs i of None \<Rightarrow> None
     | Some l \<Rightarrow> if 0 < dcmp (gy_filled_cum l) dzero then Some l else None)"

definition sibling_done :: "combo_group_state \<Rightarrow> graph_leg \<Rightarrow> graph_edge \<Rightarrow> bool" where
  "sibling_done g l e \<longleftrightarrow> ge_type e = GroupEdgeType_kOcoSibling \<and> ge_target_leg_id e = gy_leg_id l
     \<and> executed_leg (gs_legs g) (ge_source_leg_id e) \<noteq> None"

definition entry_size :: "combo_group_state \<Rightarrow> graph_leg \<Rightarrow> graph_edge \<Rightarrow> decimal option" where
  "entry_size g l e = (if ge_type e = GroupEdgeType_kBracketEntry \<and> ge_target_leg_id e = gy_leg_id l
     then map_option gy_filled_cum (executed_leg (gs_legs g) (ge_source_leg_id e)) else None)"

definition trigger_holds :: "decimal umap \<Rightarrow> graph_leg \<Rightarrow> graph_edge \<Rightarrow> bool" where
  "trigger_holds prices l e \<longleftrightarrow> ge_type e = GroupEdgeType_kConditional \<and> ge_target_leg_id e = gy_leg_id l
     \<and> EvaluateTrigger (ge_condition e) prices"

definition cancel_leg :: "combo_group_state \<Rightarrow> graph_edge list \<Rightarrow> graph_leg \<Rightarrow> graph_leg" where
  "cancel_leg g es l = (if list_ex (sibling_done g l) es
     then l\<lparr>gy_status := GroupLegStatus_kCancelled\<rparr> else l)"

definition size_leg :: "combo_group_state \<Rightarrow> graph_edge list \<Rightarrow> graph_leg \<Rightarrow> graph_leg" where
  "size_leg g es l = (case List.map_filter (entry_size g l) es of [] \<Rightarrow> l
     | q # _ \<Rightarrow> if dcmp (gy_q_max l) q = 0 then l else l\<lparr>gy_q_max := q\<rparr>)"

definition wake_leg :: "decimal umap \<Rightarrow> graph_edge list \<Rightarrow> graph_leg \<Rightarrow> graph_leg" where
  "wake_leg prices es l =
     (if gy_status l = GroupLegStatus_kWaitingForTrigger \<and> list_ex (trigger_holds prices l) es
      then l\<lparr>gy_status := GroupLegStatus_kActive\<rparr> else l)"

definition settled_leg :: "decimal umap \<Rightarrow> combo_group_state \<Rightarrow> graph_leg \<Rightarrow> graph_leg" where
  "settled_leg prices g l = wake_leg prices (gs_edges g) (size_leg g (gs_edges g) (cancel_leg g (gs_edges g) l))"

text \<open>Legs of the table: one row per id, and a leg marked filled has a fill.\<close>

definition legs_ok :: "graph_leg list \<Rightarrow> bool" where
  "legs_ok ls \<longleftrightarrow> distinct (map gy_leg_id ls)
     \<and> (\<forall>l \<in> set ls. gy_status l = GroupLegStatus_kFilled \<longrightarrow> 0 < dcmp (gy_filled_cum l) dzero)"

lemma map_leg_ids: "(\<And>l. gy_leg_id (f l) = gy_leg_id l) \<Longrightarrow> map gy_leg_id (map f ls) = map gy_leg_id ls"
  by simp

lemma cancel_leg_parts [simp]:
  "gy_leg_id (cancel_leg g es l) = gy_leg_id l" "gy_filled_cum (cancel_leg g es l) = gy_filled_cum l"
  "gy_q_max (cancel_leg g es l) = gy_q_max l"
  by (simp_all add: cancel_leg_def)

lemma IsFilled_cancel_leg:
  "legs_ok (gs_legs g) \<Longrightarrow> l \<in> set (gs_legs g) \<Longrightarrow>
    IsFilled (cancel_leg g es l) \<longleftrightarrow> 0 < dcmp (gy_filled_cum l) dzero"
  by (auto simp: legs_ok_def IsFilled_def cancel_leg_def)

lemma oco_walk:
  assumes "legs_ok (gs_legs g)"
  shows "walk oco_change es (gs_legs g) = map (cancel_leg g es) (gs_legs g)"
proof (induction es rule: rev_induct)
  case Nil
  then show ?case by (simp add: cancel_leg_def)
next
  case (snoc e es)
  let ?ls = "map (cancel_leg g es) (gs_legs g)"
  have d: "distinct (map gy_leg_id ?ls)" using assms by (simp add: legs_ok_def comp_def)
  have f: "FindLeg ?ls i = map_option (cancel_leg g es) (FindLeg (gs_legs g) i)" for i
    by (rule FindLeg_map) simp
  have src: "(\<exists>s. FindLeg ?ls i = Some s \<and> IsFilled s) \<longleftrightarrow> executed_leg (gs_legs g) i \<noteq> None" for i
    using IsFilled_cancel_leg[OF assms] FindLeg_SomeD[of "gs_legs g" i]
    by (auto simp: f executed_leg_def split: option.splits)
  have "(case oco_change e ?ls of None \<Rightarrow> ?ls | Some ls \<Rightarrow> ls) = map (cancel_leg g (es @ [e])) (gs_legs g)"
  proof (cases "oco_due e ?ls")
    case True
    then have hit: "ge_type e = GroupEdgeType_kOcoSibling" "executed_leg (gs_legs g) (ge_source_leg_id e) \<noteq> None"
      using src[of "ge_source_leg_id e"] by (auto simp: oco_due_def)
    show ?thesis using True hit by (auto simp: oco_change_due write_leg_map[OF d] cancel_leg_def sibling_done_def)
  next
    case False
    have "cancel_leg g (es @ [e]) l = cancel_leg g es l" if l: "l \<in> set (gs_legs g)" for l
    proof (cases "sibling_done g l e \<and> \<not> list_ex (sibling_done g l) es")
      case True
      have "FindLeg ?ls (gy_leg_id l) = Some (cancel_leg g es l)"
        using FindLeg_distinct[of "gs_legs g" l] l assms by (simp add: f legs_ok_def)
      then have "gy_status l = GroupLegStatus_kCancelled"
        using False True src[of "ge_source_leg_id e"]
        by (auto simp: oco_due_def sibling_done_def cancel_leg_def)
      then show ?thesis by (simp add: cancel_leg_def)
    qed (auto simp: cancel_leg_def)
    then show ?thesis using False by (simp add: oco_change_due)
  qed
  then show ?case unfolding walk_snoc snoc.IH by (simp split: option.split_asm)
qed

lemma size_leg_parts [simp]:
  "gy_leg_id (size_leg g es l) = gy_leg_id l" "gy_filled_cum (size_leg g es l) = gy_filled_cum l"
  "gy_status (size_leg g es l) = gy_status l"
  by (auto simp: size_leg_def split: list.split)

lemma entry_size_same:
  assumes "one_entry E" "e \<in> E" "e' \<in> E" "entry_size g l e = Some q" "entry_size g l e' = Some q'"
  shows "q' = q"
proof -
  have "ge_source_leg_id e = ge_source_leg_id e'"
    using assms unfolding one_entry_def entry_size_def by (metis option.distinct(1))
  then show ?thesis using assms(4,5) by (auto simp: entry_size_def split: if_splits)
qed

lemma sizes_same:
  assumes "one_entry E" "set es \<subseteq> E" "e \<in> E" "entry_size g l e = Some q"
    "List.map_filter (entry_size g l) es = q' # qs"
  shows "q' = q"
proof -
  have "q' \<in> set (List.map_filter (entry_size g l) es)" using assms(5) by simp
  then obtain e' where "e' \<in> set es" "entry_size g l e' = Some q'"
    by (auto simp: List.map_filter_def)
  then show ?thesis using entry_size_same[OF assms(1,3) _ assms(4)] assms(2) by blast
qed

lemma map_filter_snoc:
  "List.map_filter f (xs @ [x]) = List.map_filter f xs @ (case f x of None \<Rightarrow> [] | Some y \<Rightarrow> [y])"
  by (simp add: List.map_filter_def split: option.split)

lemma size_leg_snoc:
  assumes "one_entry E" "set es \<subseteq> E" "e \<in> E"
  shows "size_leg g (es @ [e]) l =
    (case entry_size g l e of None \<Rightarrow> size_leg g es l
     | Some q \<Rightarrow> if dcmp (gy_q_max (size_leg g es l)) q = 0 then size_leg g es l
         else (size_leg g es l)\<lparr>gy_q_max := q\<rparr>)"
proof (cases "entry_size g l e")
  case None
  then show ?thesis by (simp add: size_leg_def map_filter_snoc)
next
  case (Some q)
  show ?thesis
  proof (cases "List.map_filter (entry_size g l) es")
    case Nil
    then show ?thesis using Some by (simp add: size_leg_def map_filter_snoc)
  next
    case (Cons q' qs)
    then have "q' = q" using sizes_same[OF assms Some] by blast
    then show ?thesis using Some Cons by (simp add: size_leg_def map_filter_snoc)
  qed
qed

lemma bracket_walk:
  assumes "distinct (map gy_leg_id (gs_legs g))" "one_entry E"
  shows "set es \<subseteq> E \<Longrightarrow> walk bracket_change es (gs_legs g) = map (size_leg g es) (gs_legs g)"
proof (induction es rule: rev_induct)
  case Nil
  then show ?case by (simp add: size_leg_def List.map_filter_def)
next
  case (snoc e es)
  let ?ls = "map (size_leg g es) (gs_legs g)"
  have E: "set es \<subseteq> E" "e \<in> E" using snoc.prems by simp_all
  have d: "distinct (map gy_leg_id ?ls)" using assms(1) by (simp add: comp_def)
  have f: "FindLeg ?ls i = map_option (size_leg g es) (FindLeg (gs_legs g) i)" for i
    by (rule FindLeg_map) simp
  have own: "FindLeg ?ls (gy_leg_id l) = Some (size_leg g es l)" if "l \<in> set (gs_legs g)" for l
    using FindLeg_distinct[OF assms(1) that] by (simp add: f)
  have src: "map_option gy_filled_cum (executed_leg (gs_legs g) i) =
      (case FindLeg ?ls i of None \<Rightarrow> None
       | Some s \<Rightarrow> if 0 < dcmp (gy_filled_cum s) dzero then Some (gy_filled_cum s) else None)" for i
    by (simp add: f executed_leg_def split: option.split)
  have leg: "size_leg g (es @ [e]) l = (case bracket_size e ?ls of None \<Rightarrow> size_leg g es l
      | Some q \<Rightarrow> if gy_leg_id l = ge_target_leg_id e then (size_leg g es l)\<lparr>gy_q_max := q\<rparr>
          else size_leg g es l)" if l: "l \<in> set (gs_legs g)" for l
    using own[OF l] unfolding size_leg_snoc[OF assms(2) E]
    by (auto simp: entry_size_def bracket_size_def src split: option.splits)
  show ?case
  proof (cases "bracket_size e ?ls")
    case None
    then have "map (size_leg g (es @ [e])) (gs_legs g) = ?ls" using leg by simp
    then show ?thesis unfolding walk_snoc snoc.IH[OF E(1)] using None by (simp add: bracket_change_size)
  next
    case (Some q)
    have "map (size_leg g (es @ [e])) (gs_legs g) =
        map (\<lambda>l. if gy_leg_id l = ge_target_leg_id e then l\<lparr>gy_q_max := q\<rparr> else l) ?ls"
      using leg Some by simp
    then show ?thesis unfolding walk_snoc snoc.IH[OF E(1)]
      using Some by (simp add: bracket_change_size write_leg_map[OF d])
  qed
qed

lemma wake_leg_parts [simp]: "gy_leg_id (wake_leg prices es l) = gy_leg_id l"
  by (simp add: wake_leg_def)

lemma conditional_walk:
  assumes "distinct (map gy_leg_id ls)"
  shows "walk (conditional_change prices) es ls = map (wake_leg prices es) ls"
proof (induction es rule: rev_induct)
  case Nil
  then show ?case by (simp add: wake_leg_def)
next
  case (snoc e es)
  let ?ls = "map (wake_leg prices es) ls"
  have d: "distinct (map gy_leg_id ?ls)" using assms by (simp add: comp_def)
  have own: "FindLeg ?ls (gy_leg_id l) = Some (wake_leg prices es l)" if "l \<in> set ls" for l
    using FindLeg_distinct[OF assms that] FindLeg_map[of "wake_leg prices es" ls "gy_leg_id l"] by simp
  have leg: "wake_leg prices (es @ [e]) l = (if activation_due prices e ?ls \<and> gy_leg_id l = ge_target_leg_id e
      then (wake_leg prices es l)\<lparr>gy_status := GroupLegStatus_kActive\<rparr> else wake_leg prices es l)"
    if l: "l \<in> set ls" for l
    using own[OF l] by (auto simp: activation_due_def wake_leg_def trigger_holds_def)
  have m: "map (wake_leg prices (es @ [e])) ls =
      (if activation_due prices e ?ls
       then map (\<lambda>l. if gy_leg_id l = ge_target_leg_id e then l\<lparr>gy_status := GroupLegStatus_kActive\<rparr> else l) ?ls
       else ?ls)"
    using leg by simp
  show ?case unfolding walk_snoc snoc.IH m
    by (simp add: conditional_change_due write_leg_map[OF d] del: map_map)
qed

lemma advance_graph_legs:
  "fst (advance_graph prices g) = g\<lparr>gs_legs := walk (conditional_change prices) (gs_edges g)
     (walk bracket_change (gs_edges g) (walk oco_change (gs_edges g) (gs_legs g)))\<rparr>"
  by (simp add: advance_graph_def ApplyOCOTransitions_def ResizeBracketExits_def
      ApplyConditionalActivations_def run_pass_walk Let_def split_beta)

lemma size_leg_update: "(\<And>l. gy_leg_id (f l) = gy_leg_id l) \<Longrightarrow> (\<And>l. gy_filled_cum (f l) = gy_filled_cum l) \<Longrightarrow>
  size_leg (g\<lparr>gs_legs := map f (gs_legs g)\<rparr>) es = size_leg g es"
proof -
  assume f: "\<And>l. gy_leg_id (f l) = gy_leg_id l" "\<And>l. gy_filled_cum (f l) = gy_filled_cum l"
  have "map_option gy_filled_cum (executed_leg (map f (gs_legs g)) i) =
      map_option gy_filled_cum (executed_leg (gs_legs g) i)" for i
    by (simp add: executed_leg_def FindLeg_map[of f] f split: option.split)
  then have "entry_size (g\<lparr>gs_legs := map f (gs_legs g)\<rparr>) = entry_size g"
    by (intro ext) (simp add: entry_size_def)
  then show ?thesis by (intro ext) (simp add: size_leg_def)
qed

lemma advance_graph_settled:
  assumes "legs_ok (gs_legs g)" "one_entry (set (gs_edges g))"
  shows "fst (advance_graph prices g) = g\<lparr>gs_legs := map (settled_leg prices g) (gs_legs g)\<rparr>"
proof -
  let ?es = "gs_edges g" and ?c = "cancel_leg g (gs_edges g)"
  let ?g1 = "g\<lparr>gs_legs := map ?c (gs_legs g)\<rparr>"
  have d: "distinct (map gy_leg_id (gs_legs g))" using assms(1) by (simp add: legs_ok_def)
  have "walk bracket_change ?es (map ?c (gs_legs g)) = map (size_leg ?g1 ?es) (map ?c (gs_legs g))"
    using bracket_walk[of ?g1 "set ?es" ?es] d assms(2) by (simp add: comp_def)
  also have "size_leg ?g1 ?es = size_leg g ?es" by (rule size_leg_update) simp_all
  finally have b: "walk bracket_change ?es (map ?c (gs_legs g)) = map (size_leg g ?es) (map ?c (gs_legs g))" .
  have "walk (conditional_change prices) ?es (map (size_leg g ?es) (map ?c (gs_legs g))) =
      map (wake_leg prices ?es) (map (size_leg g ?es) (map ?c (gs_legs g)))"
    using d by (intro conditional_walk) (simp add: comp_def)
  then show ?thesis
    by (simp add: advance_graph_legs oco_walk[OF assms(1)] b settled_leg_def comp_def)
qed

text \<open>Later passes leave alone what an earlier one has settled.\<close>

lemma oco_still_settled:
  assumes "oco_change e ls = None" "\<And>l. gy_leg_id (f l) = gy_leg_id l"
    and "\<And>l. IsFilled (f l) \<Longrightarrow> IsFilled l"
    and "\<And>l. gy_status l = GroupLegStatus_kCancelled \<Longrightarrow> gy_status (f l) = GroupLegStatus_kCancelled"
  shows "oco_change e (map f ls) = None"
proof -
  have "\<not> oco_due e ls" using assms(1) by (simp add: oco_change_due split: if_splits)
  then have "\<not> oco_due e (map f ls)"
    using assms(3,4) unfolding oco_due_def FindLeg_map[OF assms(2)] map_option_eq_Some by metis
  then show ?thesis by (simp add: oco_change_due)
qed

lemma bracket_still_settled:
  assumes "bracket_change e ls = None" "\<And>l. gy_leg_id (f l) = gy_leg_id l"
    and "\<And>l. gy_filled_cum (f l) = gy_filled_cum l" "\<And>l. gy_q_max (f l) = gy_q_max l"
  shows "bracket_change e (map f ls) = None"
  using assms(1) by (auto simp: bracket_change_size bracket_size_def FindLeg_map[of f] assms(2-4)
      split: option.splits if_splits)

lemma second_round_idle:
  assumes "legs_ok (gs_legs g)" "one_entry (set (gs_edges g))"
  shows "advance_graph prices (fst (advance_graph prices g)) = (fst (advance_graph prices g), [])"
proof -
  let ?es = "gs_edges g" and ?g' = "fst (advance_graph prices g)"
  define l1 where "l1 = walk oco_change ?es (gs_legs g)"
  define l2 where "l2 = walk bracket_change ?es l1"
  define l3 where "l3 = walk (conditional_change prices) ?es l2"
  have g': "?g' = g\<lparr>gs_legs := l3\<rparr>" by (simp add: advance_graph_legs l1_def l2_def l3_def)
  have d: "distinct (map gy_leg_id (gs_legs g))" using assms(1) by (simp add: legs_ok_def)
  have l1: "l1 = map (cancel_leg g ?es) (gs_legs g)" by (simp add: l1_def oco_walk[OF assms(1)])
  have l2: "l2 = map (size_leg (g\<lparr>gs_legs := l1\<rparr>) ?es) l1"
    using bracket_walk[of "g\<lparr>gs_legs := l1\<rparr>" "set ?es" ?es] d assms(2) by (simp add: l1 l2_def comp_def)
  have l3: "l3 = map (wake_leg prices ?es) l2"
    unfolding l3_def by (rule conditional_walk) (use d in \<open>simp add: l1 l2 comp_def\<close>)
  have "oco_change e l1 = None" if "e \<in> set ?es" for e
    using that by (simp add: l1_def oco.settled)
  then have "oco_change e l2 = None" if "e \<in> set ?es" for e
    unfolding l2 using that by (intro oco_still_settled) (simp_all add: IsFilled_def)
  then have o: "oco_change e l3 = None" if "e \<in> set ?es" for e
    unfolding l3 using that
    by (intro oco_still_settled) (auto simp: IsFilled_def wake_leg_def split: if_splits)
  have "bracket_change e l2 = None" if "e \<in> set ?es" for e
    using settling_pass.settled[OF bracket_settles[OF assms(2)]] that by (simp add: l2_def)
  then have b: "bracket_change e l3 = None" if "e \<in> set ?es" for e
    unfolding l3 using that by (intro bracket_still_settled) (auto simp: wake_leg_def)
  have c: "conditional_change prices e l3 = None" if "e \<in> set ?es" for e
    using that by (simp add: l3_def activation.settled)
  have "run_pass change note_of ?g' = (?g', [])"
    if "\<And>e. e \<in> set ?es \<Longrightarrow> change e l3 = None" for change note_of
    by (rule run_pass_still) (simp add: g' that)
  then show ?thesis using o b c
    by (simp add: advance_graph_def ApplyOCOTransitions_def ResizeBracketExits_def ApplyConditionalActivations_def)
qed


section \<open>Examples\<close>

definition ex_graph_leg :: "string \<Rightarrow> graph_leg_status \<Rightarrow> int \<Rightarrow> int \<Rightarrow> graph_leg" where
  "ex_graph_leg i st q filled = \<lparr>gy_leg_id = i, gy_status = st, gy_q_max = mk_dec q 0,
     gy_filled_cum = mk_dec filled 0, gy_is_exit = False\<rparr>"

definition ex_edge :: "graph_edge_type \<Rightarrow> string \<Rightarrow> string \<Rightarrow> graph_edge" where
  "ex_edge ty a b = \<lparr>ge_type = ty, ge_source_leg_id = a, ge_target_leg_id = b,
     ge_condition = \<lparr>tr_present = True, tr_op = TriggerOp_kGte, tr_symbol = ''BTC/USDT'',
                     tr_threshold = mk_dec 100 0\<rparr>\<rparr>"

definition ex_graph :: combo_group_state where
  "ex_graph = \<lparr>gs_parent_order_id = ''p'',
     gs_legs = [ex_graph_leg ''entry'' GroupLegStatus_kPartiallyFilled 10 4,
       ex_graph_leg ''tp'' GroupLegStatus_kActive 10 0, ex_graph_leg ''other'' GroupLegStatus_kActive 5 0,
       ex_graph_leg ''stop'' GroupLegStatus_kWaitingForTrigger 3 0],
     gs_edges = [ex_edge GroupEdgeType_kOcoSibling ''entry'' ''other'',
       ex_edge GroupEdgeType_kBracketEntry ''entry'' ''tp'',
       ex_edge GroupEdgeType_kConditional ''entry'' ''stop'']\<rparr>"

definition ex_graph_prices :: "decimal umap" where
  "ex_graph_prices = [(''BTC/USDT'', mk_dec 101 0)]"

lemma ex_graph_ok: "legs_ok (gs_legs ex_graph)" "one_entry (set (gs_edges ex_graph))"
  by (simp_all add: ex_graph_def legs_ok_def ex_graph_leg_def one_entry_def ex_edge_def)


text \<open>Two entries that share an exit resize it in every round.\<close>

theorem shared_exit_never_settles:
  "let g = \<lparr>gs_parent_order_id = ''p'',
      gs_legs = [ex_graph_leg ''e1'' GroupLegStatus_kActive 10 4, ex_graph_leg ''e2'' GroupLegStatus_kActive 10 6,
        ex_graph_leg ''tp'' GroupLegStatus_kActive 10 0],
      gs_edges = [ex_edge GroupEdgeType_kBracketEntry ''e1'' ''tp'', ex_edge GroupEdgeType_kBracketEntry ''e2'' ''tp'']\<rparr>
   in snd (ResizeBracketExits (fst (ResizeBracketExits g))) \<noteq> []"
  by code_simp

end
