(* ===== verification/Combo_Tables.thy ===== *)
theory Combo_Tables
  imports Combo_Domain Decimal_Text "HOL-Library.Char_ord" "HOL-Library.List_Lexorder"
begin

text \<open>
  The tables the order flow and the matching engine share for combo orders
  (\<open>combo_orders\<close>, \<open>combo_order_legs\<close>, \<open>combo_constraints\<close>, \<open>conditional_links\<close>,
  \<open>combo_compensations\<close>, \<open>execution_groups\<close>, \<open>group_state_transitions\<close> of
  \<open>infra/postgres/init.sql\<close>) and the repository of the order flow
  (\<open>order_flow/src/infra/postgres_combo_order_repository.cpp\<close>). A transaction returns the new
  tables or \<open>None\<close>, when an exception rolls it back.

  PostgreSQL is used as documented: a column \<open>NUMERIC(38,18)\<close> holds a whole number of
  \<open>10 ^ - 18\<close>, reads as text with 18 decimals and compares by value; \<open>CHECK\<close>, foreign key and
  cast failures raise. Which texts are identifiers and JSON is left to the record \<open>pg\<close>.
\<close>

section \<open>Numeric columns\<close>

definition pg_numeric :: "decimal \<Rightarrow> int" where
  "pg_numeric d = round_away (dval d * 10 ^ 18)"

definition numeric_text :: "int \<Rightarrow> string" where
  "numeric_text n = (if n < 0 then ''-'' else []) @ digits_of (nat (\<bar>n\<bar> div 10 ^ 18)) @
     CHR ''.'' # pad_zeros 18 (digits_of (nat (\<bar>n\<bar> mod 10 ^ 18)))"

definition read_numeric :: "int \<Rightarrow> decimal option" where
  "read_numeric n = ParsePgNumeric (numeric_text n)"

definition NumOrZero :: "int option \<Rightarrow> decimal option" where
  "NumOrZero c = (case c of None \<Rightarrow> Some dzero | Some n \<Rightarrow> read_numeric n)"

text \<open>\<open>ParseNum\<close>, the order flow's own reader: no range check, \<open>None\<close> on a character that is
  neither a digit nor a dot.\<close>

fun parse_num_digits :: "string \<Rightarrow> int \<Rightarrow> int \<Rightarrow> bool \<Rightarrow> (int \<times> int) option" where
  "parse_num_digits [] acc s dot = Some (acc, s)"
| "parse_num_digits (c # cs) acc s dot =
     (if c = CHR ''.'' then parse_num_digits cs acc s True
      else if \<not> is_digit c then None
      else parse_num_digits cs (i128 (acc * 10 + digit_val c)) (if dot then i32 (s + 1) else s) dot)"

definition trim_blanks :: "string \<Rightarrow> string" where
  "trim_blanks t = rev (dropWhile (\<lambda>c. c = CHR '' '') (rev (dropWhile (\<lambda>c. c = CHR '' '') t)))"

definition ParseNum :: "string \<Rightarrow> decimal option" where
  "ParseNum t =
     (let t = strip_fraction (trim_blanks t)
      in if t = [] then Some dzero
         else let (negative, body) = split_sign t
              in case parse_num_digits body 0 0 False of
                   None \<Rightarrow> None
                 | Some (acc, s) \<Rightarrow> Some (mk_dec (i64 (if negative then i128 (- acc) else acc)) s))"

section \<open>Rows\<close>

record combo_row =
  kr_batch_order_id :: "string option"
  kr_combo_type :: string
  kr_execution_mode :: string
  kr_status :: string
  kr_ratio_basis :: "string option"
  kr_atomicity_policy :: string
  kr_atomicity_scope :: string
  kr_fallback_policy :: string
  kr_min_execution_scale :: "int option"
  kr_max_ratio_deviation_bps :: "int option"
  kr_user_id :: "string option"
  kr_account_id :: "string option"

record combo_leg_row =
  gw_parent_order_id :: string
  gw_instrument_symbol :: string
  gw_side :: string
  gw_ratio :: "int option"
  gw_weight :: "int option"
  gw_ratio_basis :: "string option"
  gw_p_low :: int
  gw_p_high :: int
  gw_q_rate :: int
  gw_q_max :: int
  gw_filled_cum :: int
  gw_venue_preferences :: "string list option"
  gw_status :: string

record constraint_row =
  nw_parent_order_id :: string
  nw_constraint_type :: string
  nw_coefficients :: "string umap"
  nw_lower_bound :: "int option"
  nw_upper_bound :: "int option"
  nw_value :: "int option"
  nw_value_bps :: "int option"
  nw_severity :: string

record link_row =
  kw_parent_order_id :: string
  kw_from_leg_id :: string
  kw_to_leg_id :: string
  kw_link_type :: string
  kw_condition :: "string option"

record compensation_row =
  mw_parent_order_id :: string
  mw_leg_id :: string
  mw_report_id :: string
  mw_reason :: string
  mw_internal_filled_qty :: "int option"
  mw_status :: string
  mw_resolution_action :: "string option"
  mw_operator_id :: "string option"
  mw_resolving_ref :: "string option"
  mw_created_at_ms :: int

record group_row =
  hw_batch_id :: string
  hw_parent_order_id :: string
  hw_execution_mode :: string
  hw_group_status :: string
  hw_execution_scale :: int
  hw_atomicity_policy :: string
  hw_atomicity_scope :: string
  hw_fallback_action :: "string option"
  hw_ratio_deviation_bps :: int
  hw_leg_results :: string
  hw_violated_constraints :: string
  hw_solver_diagnostics :: string

text \<open>The tables are keyed by their primary keys; \<open>db_transitions\<close> by the idempotency key.\<close>

record combo_db =
  db_batches :: "(string \<times> string) umap"
  db_combos :: "combo_row umap"
  db_legs :: "combo_leg_row umap"
  db_constraints :: "constraint_row umap"
  db_links :: "link_row umap"
  db_compensations :: "compensation_row umap"
  db_groups :: "group_row umap"
  db_transitions :: "(string \<times> string) umap"

record pg =
  pg_uuid :: "string \<Rightarrow> bool"
  pg_json :: "string \<Rightarrow> bool"
  pg_json_field :: "string \<Rightarrow> string \<Rightarrow> string option"

definition put_new :: "string \<Rightarrow> 'v \<Rightarrow> 'v umap \<Rightarrow> 'v umap" where
  "put_new k v m = (case find m k of None \<Rightarrow> put k v m | Some _ \<Rightarrow> m)"

definition map_rows :: "(string \<Rightarrow> 'v \<Rightarrow> 'v) \<Rightarrow> 'v umap \<Rightarrow> 'v umap" where
  "map_rows f m = map (\<lambda>(k, v). (k, f k v)) m"

definition rows_by_key :: "'v umap \<Rightarrow> 'v umap" where
  "rows_by_key m = sort_key fst m"

section \<open>Enumerations as text\<close>

fun ExecModeDb :: "execution_mode \<Rightarrow> string option" where
  "ExecModeDb ExecutionMode_kOrchestrationOnly = Some ''orchestration_only''"
| "ExecModeDb ExecutionMode_kMultilegVectorSolver = Some ''multileg_vector_solver''"
| "ExecModeDb ExecutionMode_kUnspecified = None"

fun ComboTypeDb :: "combo_type \<Rightarrow> string option" where
  "ComboTypeDb ComboType_kPair = Some ''pair''"
| "ComboTypeDb ComboType_kBasket = Some ''basket''"
| "ComboTypeDb ComboType_kSpread = Some ''spread''"
| "ComboTypeDb ComboType_kConditional = Some ''conditional''"
| "ComboTypeDb ComboType_kOco = Some ''oco''"
| "ComboTypeDb ComboType_kBracket = Some ''bracket''"
| "ComboTypeDb ComboType_kFactor = Some ''factor''"
| "ComboTypeDb ComboType_kBudget = Some ''budget''"
| "ComboTypeDb ComboType_kUnspecified = None"

fun AtomicityPolicyDb :: "combo_atomicity \<Rightarrow> string" where
  "AtomicityPolicyDb AtomicityPolicy_kStrictAtomic = ''strict_atomic''"
| "AtomicityPolicyDb AtomicityPolicy_kScalableAtomic = ''scalable_atomic''"
| "AtomicityPolicyDb AtomicityPolicy_kBestEffort = ''best_effort''"
| "AtomicityPolicyDb AtomicityPolicy_kSequentialFallback = ''sequential_fallback''"
| "AtomicityPolicyDb AtomicityPolicy_kExternalCompensating = ''external_compensating''"
| "AtomicityPolicyDb AtomicityPolicy_kUnspecified = ''best_effort''"

fun AtomicityScopeDb :: "combo_scope \<Rightarrow> string" where
  "AtomicityScopeDb AtomicityScope_kInternalBatch = ''internal_batch''"
| "AtomicityScopeDb AtomicityScope_kVenueNative = ''venue_native''"
| "AtomicityScopeDb AtomicityScope_kExternalCompensating = ''external_compensating''"
| "AtomicityScopeDb AtomicityScope_kNone = ''none''"
| "AtomicityScopeDb AtomicityScope_kUnspecified = ''none''"

fun FallbackPolicyDb :: "combo_fallback \<Rightarrow> string" where
  "FallbackPolicyDb FallbackPolicy_kScaleDown = ''scale_down''"
| "FallbackPolicyDb FallbackPolicy_kWaitNextBatch = ''wait_next_batch''"
| "FallbackPolicyDb FallbackPolicy_kCancel = ''cancel''"
| "FallbackPolicyDb FallbackPolicy_kDegrade = ''degrade''"
| "FallbackPolicyDb FallbackPolicy_kCompensate = ''compensate''"
| "FallbackPolicyDb FallbackPolicy_kUnspecified = ''scale_down''"

fun RatioBasisDb :: "ratio_basis \<Rightarrow> string" where
  "RatioBasisDb RatioBasis_kNotionalWeight = ''notional_weight''"
| "RatioBasisDb RatioBasis_kQuantityRatio = ''quantity_ratio''"
| "RatioBasisDb RatioBasis_kUnspecified = []"

fun ParentStatusDb :: "parent_status \<Rightarrow> string" where
  "ParentStatusDb ParentOrderStatus_kDraft = ''draft''"
| "ParentStatusDb ParentOrderStatus_kRiskPending = ''risk_pending''"
| "ParentStatusDb ParentOrderStatus_kActive = ''active''"
| "ParentStatusDb ParentOrderStatus_kWaitingForTrigger = ''waiting_for_trigger''"
| "ParentStatusDb ParentOrderStatus_kPartiallyFilled = ''partially_filled''"
| "ParentStatusDb ParentOrderStatus_kFilled = ''filled''"
| "ParentStatusDb ParentOrderStatus_kCancelled = ''cancelled''"
| "ParentStatusDb ParentOrderStatus_kExpired = ''expired''"
| "ParentStatusDb ParentOrderStatus_kDegraded = ''degraded''"
| "ParentStatusDb ParentOrderStatus_kRollbackPending = ''rollback_pending''"
| "ParentStatusDb ParentOrderStatus_kRolledback = ''rolledback''"
| "ParentStatusDb ParentOrderStatus_kRejected = ''rejected''"

definition ParentStatusFromDb :: "string \<Rightarrow> parent_status" where
  "ParentStatusFromDb s =
     (if s = ''risk_pending'' then ParentOrderStatus_kRiskPending
      else if s = ''active'' then ParentOrderStatus_kActive
      else if s = ''waiting_for_trigger'' then ParentOrderStatus_kWaitingForTrigger
      else if s = ''partially_filled'' then ParentOrderStatus_kPartiallyFilled
      else if s = ''filled'' then ParentOrderStatus_kFilled
      else if s = ''cancelled'' then ParentOrderStatus_kCancelled
      else if s = ''expired'' then ParentOrderStatus_kExpired
      else if s = ''degraded'' then ParentOrderStatus_kDegraded
      else if s = ''rollback_pending'' then ParentOrderStatus_kRollbackPending
      else if s = ''rolledback'' then ParentOrderStatus_kRolledback
      else if s = ''rejected'' then ParentOrderStatus_kRejected
      else ParentOrderStatus_kDraft)"

fun LegStatusDb :: "leg_status \<Rightarrow> string" where
  "LegStatusDb LegStatus_kInactive = ''inactive''"
| "LegStatusDb LegStatus_kActive = ''active''"
| "LegStatusDb LegStatus_kWaitingForTrigger = ''waiting_for_trigger''"
| "LegStatusDb LegStatus_kPartiallyFilled = ''partially_filled''"
| "LegStatusDb LegStatus_kFilled = ''filled''"
| "LegStatusDb LegStatus_kCancelled = ''cancelled''"
| "LegStatusDb LegStatus_kBlockedByGroup = ''blocked_by_group''"
| "LegStatusDb LegStatus_kBlockedByAtomicity = ''blocked_by_atomicity''"
| "LegStatusDb LegStatus_kFailedExternal = ''failed_external''"
| "LegStatusDb LegStatus_kCompensated = ''compensated''"

fun SideDb :: "leg_side \<Rightarrow> string option" where
  "SideDb Side_kBuy = Some ''buy''"
| "SideDb Side_kSell = Some ''sell''"
| "SideDb Side_kUnspecified = None"

fun ConstraintTypeDb :: "combo_constraint_type \<Rightarrow> string" where
  "ConstraintTypeDb ConstraintType_kMaxWeightDeviation = ''max_weight_deviation''"
| "ConstraintTypeDb ConstraintType_kMaxTotalNotional = ''max_total_notional''"
| "ConstraintTypeDb ConstraintType_kSpreadRange = ''spread_range''"
| "ConstraintTypeDb ConstraintType_kFactorNeutrality = ''factor_neutrality''"
| "ConstraintTypeDb ConstraintType_kMaxLeverage = ''max_leverage''"
| "ConstraintTypeDb ConstraintType_kMaxMargin = ''max_margin''"
| "ConstraintTypeDb ConstraintType_kRiskLimit = ''risk_limit''"
| "ConstraintTypeDb ConstraintType_kRatioEquality = ''ratio_equality''"

fun LinkTypeDb :: "link_type \<Rightarrow> string" where
  "LinkTypeDb ConditionalLinkType_kOco = ''oco''"
| "LinkTypeDb ConditionalLinkType_kBracket = ''bracket''"
| "LinkTypeDb ConditionalLinkType_kConditional = ''conditional''"

fun BatchTypeDb :: "combo_type \<Rightarrow> string" where
  "BatchTypeDb ComboType_kPair = ''pair''"
| "BatchTypeDb ComboType_kBasket = ''basket''"
| "BatchTypeDb ComboType_kSpread = ''spread''"
| "BatchTypeDb ComboType_kConditional = ''conditional''"
| "BatchTypeDb ComboType_kOco = ''oco''"
| "BatchTypeDb ComboType_kBracket = ''bracket''"
| "BatchTypeDb ComboType_kFactor = ''combo''"
| "BatchTypeDb ComboType_kBudget = ''combo''"
| "BatchTypeDb ComboType_kUnspecified = ''batch''"

text \<open>\<open>NULLIF(x, '')\<close>.\<close>

definition NULLIF_empty :: "string \<Rightarrow> string option" where
  "NULLIF_empty s = (if s = [] then None else Some s)"

section \<open>Writing a combo order\<close>

text \<open>The \<open>CHECK\<close> constraints of the two tables of orders.\<close>

definition combo_row_ok :: "combo_row \<Rightarrow> bool" where
  "combo_row_ok r \<longleftrightarrow> (case kr_min_execution_scale r of None \<Rightarrow> True
     | Some s \<Rightarrow> 0 \<le> s \<and> s \<le> 10 ^ 18)"

definition leg_row_ok :: "combo_leg_row \<Rightarrow> bool" where
  "leg_row_ok r \<longleftrightarrow> (gw_side r = ''buy'' \<or> gw_side r = ''sell'')
     \<and> 0 < gw_p_low r \<and> gw_p_low r \<le> gw_p_high r \<and> 0 < gw_q_rate r \<and> 0 < gw_q_max r
     \<and> 0 \<le> gw_filled_cum r \<and> gw_filled_cum r \<le> gw_q_max r
     \<and> (gw_ratio r \<noteq> None) \<noteq> (gw_weight r \<noteq> None)"

text \<open>Folds whose steps may raise.\<close>

fun fold_opt :: "('a \<Rightarrow> 's \<Rightarrow> 's option) \<Rightarrow> 'a list \<Rightarrow> 's \<Rightarrow> 's option" where
  "fold_opt f [] s = Some s"
| "fold_opt f (x # xs) s = (case f x s of None \<Rightarrow> None | Some s' \<Rightarrow> fold_opt f xs s')"

definition insert_batch :: "pg \<Rightarrow> batch_order \<Rightarrow> combo_db \<Rightarrow> combo_db option" where
  "insert_batch p b db =
     (case ExecModeDb (bt_execution_mode b) of None \<Rightarrow> None
      | Some mode \<Rightarrow> if \<not> pg_uuid p (bt_batch_order_id b) then None
          else Some (db\<lparr>db_batches := put_new (bt_batch_order_id b)
            (BatchTypeDb (bt_type b), ParentStatusDb (bt_status b)) (db_batches db)\<rparr>))"

definition combo_row_of :: "combo_order \<Rightarrow> string \<Rightarrow> string \<Rightarrow> combo_row" where
  "combo_row_of c ty mode =
     \<lparr>kr_batch_order_id = (case co_batch_order_id c of None \<Rightarrow> None | Some b \<Rightarrow> NULLIF_empty b),
      kr_combo_type = ty, kr_execution_mode = mode, kr_status = ParentStatusDb (co_status c),
      kr_ratio_basis = NULLIF_empty (RatioBasisDb (co_ratio_basis c)),
      kr_atomicity_policy = AtomicityPolicyDb (co_atomicity_policy c),
      kr_atomicity_scope = AtomicityScopeDb (co_atomicity_scope c),
      kr_fallback_policy = FallbackPolicyDb (co_fallback_policy c),
      kr_min_execution_scale = map_option pg_numeric (co_min_execution_scale c),
      kr_max_ratio_deviation_bps = co_max_ratio_deviation_bps c,
      kr_user_id = NULLIF_empty (co_user_id c), kr_account_id = NULLIF_empty (co_account_id c)\<rparr>"

definition insert_combo :: "pg \<Rightarrow> combo_order \<Rightarrow> combo_db \<Rightarrow> combo_db option" where
  "insert_combo p c db =
     (case (ComboTypeDb (co_combo_type c), ExecModeDb (co_execution_mode c)) of
        (Some ty, Some mode) \<Rightarrow>
          (let r = combo_row_of c ty mode in
           if \<not> pg_uuid p (co_combo_order_id c) \<or> \<not> combo_row_ok r
              \<or> (case kr_batch_order_id r of None \<Rightarrow> False | Some b \<Rightarrow> find (db_batches db) b = None)
           then None
           else Some (db\<lparr>db_combos := put_new (co_combo_order_id c) r (db_combos db)\<rparr>))
      | _ \<Rightarrow> None)"

definition leg_row_of :: "string \<Rightarrow> combo_leg \<Rightarrow> string \<Rightarrow> combo_leg_row" where
  "leg_row_of combo_id l side =
     \<lparr>gw_parent_order_id = combo_id, gw_instrument_symbol = cl_instrument_symbol l, gw_side = side,
      gw_ratio = map_option pg_numeric (cl_ratio l), gw_weight = map_option pg_numeric (cl_weight l),
      gw_ratio_basis = NULLIF_empty (RatioBasisDb (cl_ratio_basis l)),
      gw_p_low = pg_numeric (cl_p_low l), gw_p_high = pg_numeric (cl_p_high l),
      gw_q_rate = pg_numeric (cl_q_rate l), gw_q_max = pg_numeric (cl_q_max l),
      gw_filled_cum = pg_numeric (cl_filled_cum l),
      gw_venue_preferences = Some (cl_venue_preferences l), gw_status = LegStatusDb (cl_status l)\<rparr>"

definition insert_leg :: "pg \<Rightarrow> string \<Rightarrow> combo_leg \<Rightarrow> combo_db \<Rightarrow> combo_db option" where
  "insert_leg p combo_id l db =
     (case SideDb (cl_side l) of None \<Rightarrow> None
      | Some side \<Rightarrow>
        (let r = leg_row_of combo_id l side in
         if \<not> pg_uuid p (cl_leg_id l) \<or> \<not> leg_row_ok r then None
         else Some (db\<lparr>db_legs := put_new (cl_leg_id l) r (db_legs db)\<rparr>)))"

definition constraint_row_of :: "string \<Rightarrow> combo_constraint \<Rightarrow> constraint_row" where
  "constraint_row_of combo_id c =
     \<lparr>nw_parent_order_id = combo_id, nw_constraint_type = ConstraintTypeDb (cc_type c),
      nw_coefficients = map (\<lambda>(s, d). (s, to_string d)) (cc_coefficients c),
      nw_lower_bound = map_option pg_numeric (cc_lower c),
      nw_upper_bound = map_option pg_numeric (cc_upper c),
      nw_value = map_option pg_numeric (cc_value c), nw_value_bps = cc_value_bps c,
      nw_severity = (if cc_severity c = ConstraintSeverity_kSoft then ''soft'' else ''hard'')\<rparr>"

definition insert_constraint :: "pg \<Rightarrow> string \<Rightarrow> combo_constraint \<Rightarrow> combo_db \<Rightarrow> combo_db option" where
  "insert_constraint p combo_id c db =
     (if \<not> pg_uuid p (cc_constraint_id c) then None
      else Some (db\<lparr>db_constraints :=
        put_new (cc_constraint_id c) (constraint_row_of combo_id c) (db_constraints db)\<rparr>))"

text \<open>Both ends of a link must be legs of the table, and its condition JSON.\<close>

definition insert_link :: "pg \<Rightarrow> string \<Rightarrow> conditional_link \<Rightarrow> combo_db \<Rightarrow> combo_db option" where
  "insert_link p combo_id k db =
     (if \<not> pg_uuid p (lk_link_id k) \<or> find (db_legs db) (lk_from_leg_id k) = None
         \<or> find (db_legs db) (lk_to_leg_id k) = None \<or> lk_from_leg_id k = lk_to_leg_id k
         \<or> lk_condition_json k \<noteq> [] \<and> \<not> pg_json p (lk_condition_json k)
      then None
      else Some (db\<lparr>db_links := put_new (lk_link_id k)
        \<lparr>kw_parent_order_id = combo_id, kw_from_leg_id = lk_from_leg_id k,
         kw_to_leg_id = lk_to_leg_id k, kw_link_type = LinkTypeDb (lk_type k),
         kw_condition = NULLIF_empty (lk_condition_json k)\<rparr> (db_links db)\<rparr>))"

definition InsertComboOrder :: "pg \<Rightarrow> combo_order \<Rightarrow> batch_order option \<Rightarrow> combo_db \<Rightarrow> combo_db option" where
  "InsertComboOrder p c b db =
     (if Combo_validate c \<noteq> None then None
      else let i = co_combo_order_id c
      in case (case b of None \<Rightarrow> Some db | Some b \<Rightarrow> insert_batch p b db) of None \<Rightarrow> None | Some db \<Rightarrow>
         case insert_combo p c db of None \<Rightarrow> None | Some db \<Rightarrow>
         case fold_opt (insert_leg p i) (co_legs c) db of None \<Rightarrow> None | Some db \<Rightarrow>
         case fold_opt (insert_constraint p i) (co_constraints c) db of None \<Rightarrow> None | Some db \<Rightarrow>
         fold_opt (insert_link p i) (co_conditional_links c) db)"

section \<open>Status, cancellation and reading back\<close>

definition UpdateComboStatus :: "pg \<Rightarrow> string \<Rightarrow> parent_status \<Rightarrow> combo_db \<Rightarrow> combo_db option" where
  "UpdateComboStatus p i st db =
     (if i = [] \<or> \<not> pg_uuid p i then None
      else Some (db\<lparr>db_combos := map_rows (\<lambda>k r. if k = i then r\<lparr>kr_status := ParentStatusDb st\<rparr> else r)
        (db_combos db)\<rparr>))"

text \<open>The outer option is the exception, the inner one the absence of the row.\<close>

definition GetComboStatus :: "pg \<Rightarrow> string \<Rightarrow> combo_db \<Rightarrow> parent_status option option" where
  "GetComboStatus p i db =
     (if \<not> pg_uuid p i then None
      else Some (map_option (\<lambda>r. ParentStatusFromDb (kr_status r)) (find (db_combos db) i)))"

definition legs_of :: "string \<Rightarrow> combo_db \<Rightarrow> combo_leg_row umap" where
  "legs_of parent db = filter (\<lambda>(k, r). gw_parent_order_id r = parent) (db_legs db)"

definition GetActiveLegIds :: "pg \<Rightarrow> string \<Rightarrow> combo_db \<Rightarrow> string list option" where
  "GetActiveLegIds p i db =
     (if \<not> pg_uuid p i then None
      else Some (map fst (filter (\<lambda>(k, r). gw_status r \<noteq> ''cancelled'' \<and> gw_status r \<noteq> ''filled'')
        (legs_of i db))))"

definition CancelComboAndLegs :: "pg \<Rightarrow> string \<Rightarrow> combo_db \<Rightarrow> combo_db option" where
  "CancelComboAndLegs p i db =
     (if \<not> pg_uuid p i then None
      else Some (db\<lparr>
        db_combos := map_rows (\<lambda>k r. if k = i \<and> kr_status r \<noteq> ''filled'' \<and> kr_status r \<noteq> ''cancelled''
          then r\<lparr>kr_status := ''cancelled''\<rparr> else r) (db_combos db),
        db_legs := map_rows (\<lambda>k r. if gw_parent_order_id r = i \<and> gw_status r \<noteq> ''filled''
            \<and> gw_status r \<noteq> ''cancelled''
          then r\<lparr>gw_status := ''cancelled''\<rparr> else r) (db_legs db)\<rparr>))"

text \<open>The legs a reversal turns round, with the owner of the combo.\<close>

record reversal_leg_row =
  vl_rev_leg_id :: string
  vl_rev_instrument_symbol :: string
  vl_rev_is_buy :: bool
  vl_rev_p_low :: decimal
  vl_rev_p_high :: decimal
  vl_rev_q_rate :: decimal
  vl_rev_filled_cum :: decimal

record reversal_context =
  vc_rev_user_id :: string
  vc_rev_account_id :: string
  vc_rev_legs :: "reversal_leg_row list"

definition internal_for_reversal :: "combo_leg_row \<Rightarrow> bool" where
  "internal_for_reversal r = (case gw_venue_preferences r of None \<Rightarrow> True
     | Some v \<Rightarrow> v = [] \<or> v = [''internal''])"

definition reversal_row :: "string \<times> combo_leg_row \<Rightarrow> reversal_leg_row option" where
  "reversal_row kr = (case kr of (k, r) \<Rightarrow>
     (case (ParseNum (numeric_text (gw_p_low r)), ParseNum (numeric_text (gw_p_high r)),
            ParseNum (numeric_text (gw_q_rate r)), ParseNum (numeric_text (gw_filled_cum r))) of
        (Some pl, Some ph, Some qr, Some fc) \<Rightarrow>
          Some \<lparr>vl_rev_leg_id = k, vl_rev_instrument_symbol = gw_instrument_symbol r,
                vl_rev_is_buy = (gw_side r = ''buy''), vl_rev_p_low = pl, vl_rev_p_high = ph,
                vl_rev_q_rate = qr, vl_rev_filled_cum = fc\<rparr>
      | _ \<Rightarrow> None))"

fun traverse :: "('a \<Rightarrow> 'b option) \<Rightarrow> 'a list \<Rightarrow> 'b list option" where
  "traverse f [] = Some []"
| "traverse f (x # xs) = (case f x of None \<Rightarrow> None
     | Some y \<Rightarrow> (case traverse f xs of None \<Rightarrow> None | Some ys \<Rightarrow> Some (y # ys)))"

definition LoadInternalFilledLegs :: "pg \<Rightarrow> string \<Rightarrow> combo_db \<Rightarrow> reversal_context option" where
  "LoadInternalFilledLegs p parent db =
     (if \<not> pg_uuid p parent then None
      else case find (db_combos db) parent of
        None \<Rightarrow> Some \<lparr>vc_rev_user_id = [], vc_rev_account_id = [], vc_rev_legs = []\<rparr>
      | Some c \<Rightarrow>
         (let rows = rows_by_key (filter (\<lambda>(k, r). 0 < gw_filled_cum r \<and> internal_for_reversal r)
                (legs_of parent db));
              owner = (\<lambda>x. if rows = [] then [] else case x of None \<Rightarrow> [] | Some u \<Rightarrow> u)
          in map_option (\<lambda>ls. \<lparr>vc_rev_user_id = owner (kr_user_id c),
               vc_rev_account_id = owner (kr_account_id c), vc_rev_legs = ls\<rparr>)
             (traverse reversal_row rows)))"

end
