(* ===== verification/Combo_Usecases.thy ===== *)
theory Combo_Usecases
  imports Combo_Tables Risk
begin

text \<open>
  Accepting and cancelling combo orders: \<open>CreateComboOrderUseCase\<close>, \<open>CancelComboOrderUseCase\<close>
  (\<open>order_flow/src/app\<close>), the producer of the legs' events
  (\<open>infra/orders_normalized_grouped_producer.cpp\<close>) and the group risk check that \<open>main.cpp\<close>
  passes to the use case. The result \<open>None\<close> is an exception, which leaves every state as it
  was. The human-readable promise of the response is a tag.
\<close>

section \<open>Messages\<close>

datatype pb_parent_status =
    PARENT_ORDER_STATUS_UNSPECIFIED | PARENT_ORDER_STATUS_DRAFT | PARENT_ORDER_STATUS_RISK_PENDING
  | PARENT_ORDER_STATUS_ACTIVE | PARENT_ORDER_STATUS_WAITING_FOR_TRIGGER
  | PARENT_ORDER_STATUS_PARTIALLY_FILLED | PARENT_ORDER_STATUS_FILLED
  | PARENT_ORDER_STATUS_CANCELLED | PARENT_ORDER_STATUS_EXPIRED | PARENT_ORDER_STATUS_DEGRADED
  | PARENT_ORDER_STATUS_ROLLBACK_PENDING | PARENT_ORDER_STATUS_ROLLEDBACK
  | PARENT_ORDER_STATUS_REJECTED

datatype guarantee_text =
    NoGuarantee | OrchestrationOnlyText | OcoEventualText | BracketText | ConditionalText
  | ExternalCompensatingText | VectorSolverText

record combo_response =
  cz_meta :: event_meta
  cz_accepted :: bool
  cz_combo_id :: string
  cz_leg_order_ids :: "string umap"
  cz_status :: pb_parent_status
  cz_error :: "error_msg option"
  cz_execution_guarantees :: guarantee_text
  cz_ratio_guaranteed :: bool

text \<open>Events of \<open>orders.normalized\<close>: partition key, and the order or the cancelled id.\<close>

datatype grouped_event =
    LegCreate string flow_order
  | LegCancel string string string string

section \<open>Publishing the legs\<close>

fun SideProto :: "leg_side \<Rightarrow> side" where
  "SideProto Side_kBuy = SIDE_BUY"
| "SideProto Side_kSell = SIDE_SELL"
| "SideProto Side_kUnspecified = SIDE_UNSPECIFIED"

definition ExecModeTag :: "execution_mode \<Rightarrow> string" where
  "ExecModeTag m = (if m = ExecutionMode_kMultilegVectorSolver then ''multileg_vector_solver''
     else ''orchestration_only'')"

definition ComboTypeTag :: "combo_type \<Rightarrow> string" where
  "ComboTypeTag t = (case ComboTypeDb t of Some s \<Rightarrow> s | None \<Rightarrow> ''combo'')"

definition leg_order :: "combo_order \<Rightarrow> string \<Rightarrow> string \<Rightarrow> combo_leg \<Rightarrow> flow_order" where
  "leg_order c user account l =
     \<lparr>fo_order_id = cl_leg_id l, fo_client_order_id = [], fo_user_id = user, fo_account_id = account,
      fo_instrument = \<lparr>in_symbol = cl_instrument_symbol l, in_base = [], in_quote = []\<rparr>,
      fo_side = SideProto (cl_side l), fo_total_qty = cl_q_max l,
      fo_remaining_qty = Leg_remaining_qty l, fo_price_low = cl_p_low l, fo_price_high = cl_p_high l,
      fo_max_speed = cl_q_rate l, fo_status = ORDER_STATUS_UNSPECIFIED, fo_created_at = (0, 0),
      fo_updated_at = (0, 0), fo_tif = TIF_GTC,
      fo_tags = [(''combo_id'', co_combo_order_id c), (''leg_id'', cl_leg_id l),
        (''execution_mode'', ExecModeTag (co_execution_mode c)),
        (''atomicity_policy'', AtomicityPolicyDb (co_atomicity_policy c)),
        (''combo_type'', ComboTypeTag (co_combo_type c))]\<rparr>"

definition PublishOrchestration :: "combo_order \<Rightarrow> string \<Rightarrow> string \<Rightarrow> grouped_event list option" where
  "PublishOrchestration c user account =
     (if co_execution_mode c \<noteq> ExecutionMode_kOrchestrationOnly then None
      else if Combo_validate c \<noteq> None then None
      else Some (map (\<lambda>l. LegCreate (co_combo_order_id c) (leg_order c user account l)) (co_legs c)))"

definition PublishLegCancel :: "string \<Rightarrow> string \<Rightarrow> string \<Rightarrow> string \<Rightarrow> grouped_event" where
  "PublishLegCancel combo_id leg_id user reason = LegCancel combo_id leg_id user reason"

section \<open>The group risk check\<close>

fun ComboScopeStr :: "combo_scope \<Rightarrow> string" where
  "ComboScopeStr AtomicityScope_kVenueNative = ''venue_native''"
| "ComboScopeStr AtomicityScope_kExternalCompensating = ''external_compensating''"
| "ComboScopeStr AtomicityScope_kNone = ''none''"
| "ComboScopeStr AtomicityScope_kInternalBatch = ''internal_batch''"
| "ComboScopeStr AtomicityScope_kUnspecified = ''internal_batch''"

text \<open>
  The lambda of \<open>main.cpp\<close>, the client and the handler of the risk service behind it; the
  reason of a rejection is returned. A failed call rejects with the message of the failure.
\<close>

definition risk_legs :: "combo_order \<Rightarrow> group_leg list" where
  "risk_legs c = map (\<lambda>l. \<lparr>gl_instrument_symbol = cl_instrument_symbol l,
     gl_notional = dmul (cl_q_max l) (cl_p_high l), gl_external = False\<rparr>) (co_legs c)"

definition grouped_risk_check :: "string option \<Rightarrow> env \<Rightarrow> combo_order \<Rightarrow> string option" where
  "grouped_risk_check call_error e c =
     (let (decision, err) = (case call_error of
            Some msg \<Rightarrow> (RISK_DECISION_REJECT, Some (mk_error ''GRPC_ERROR'' msg))
          | None \<Rightarrow> (case PreTradeCheckGroup e (co_user_id c) (AtomicityPolicyDb (co_atomicity_policy c))
                (ComboScopeStr (co_atomicity_scope c)) (risk_legs c) of (d, er, alerts) \<Rightarrow> (d, er)));
          er = (case err of Some x \<Rightarrow> x | None \<Rightarrow> mk_error [] [])
      in if decision \<noteq> RISK_DECISION_ACCEPT
         then Some (if er_message er = [] then er_code er else er_message er) else None)"

section \<open>Creating a combo\<close>

definition SetGuarantees ::
    "pb_execution_mode \<Rightarrow> pb_atomicity_scope \<Rightarrow> pb_combo_type \<Rightarrow> combo_response \<Rightarrow> combo_response" where
  "SetGuarantees mode sc ty r =
     (if mode = EXECUTION_MODE_ORCHESTRATION_ONLY then
        r\<lparr>cz_ratio_guaranteed := False, cz_execution_guarantees := OrchestrationOnlyText\<rparr>
      else if ty = COMBO_TYPE_OCO then
        r\<lparr>cz_ratio_guaranteed := False, cz_execution_guarantees := OcoEventualText\<rparr>
      else if ty = COMBO_TYPE_BRACKET then
        r\<lparr>cz_ratio_guaranteed := False, cz_execution_guarantees := BracketText\<rparr>
      else if ty = COMBO_TYPE_CONDITIONAL then
        r\<lparr>cz_ratio_guaranteed := False, cz_execution_guarantees := ConditionalText\<rparr>
      else if sc = ATOMICITY_SCOPE_EXTERNAL_COMPENSATING then
        r\<lparr>cz_ratio_guaranteed := False, cz_execution_guarantees := ExternalCompensatingText\<rparr>
      else r\<lparr>cz_ratio_guaranteed := True, cz_execution_guarantees := VectorSolverText\<rparr>)"

record combo_ports =
  cq_pg :: pg
  cq_policy :: combo_policy
  cq_risk :: "combo_order \<Rightarrow> string option"
  cq_uuid :: "nat \<Rightarrow> string"

definition reject_combo :: "error_msg \<Rightarrow> combo_response \<Rightarrow> combo_response" where
  "reject_combo e r = r\<lparr>cz_accepted := False, cz_status := PARENT_ORDER_STATUS_REJECTED, cz_error := Some e\<rparr>"

definition CreateCombo_Execute ::
    "combo_ports \<Rightarrow> combo_request \<Rightarrow> string umap \<Rightarrow> combo_db \<Rightarrow>
      (combo_response \<times> string umap \<times> combo_db \<times> grouped_event list) option" where
  "CreateCombo_Execute p q idem db =
     (let resp = \<lparr>cz_meta = echo_meta ''order_flow'' (qr_meta q), cz_accepted = False, cz_combo_id = [],
            cz_leg_order_ids = [], cz_status = PARENT_ORDER_STATUS_UNSPECIFIED, cz_error = None,
            cz_execution_guarantees = NoGuarantee, cz_ratio_guaranteed = False\<rparr>;
          promise = SetGuarantees (qr_execution_mode q) (qr_atomicity_scope q) (qr_combo_type q);
          client = qr_client_combo_id q
      in case (if client = [] then None else find idem client) of
        Some known \<Rightarrow>
          Some (promise (resp\<lparr>cz_accepted := True, cz_combo_id := known,
            cz_status := PARENT_ORDER_STATUS_ACTIVE\<rparr>), idem, db, [])
      | None \<Rightarrow>
      let combo_id = cq_uuid p 0; c = BuildDomain (\<lambda>n. cq_uuid p (Suc n)) q combo_id in
      case Combo_validate c of Some e \<Rightarrow> Some (reject_combo e resp, idem, db, []) | None \<Rightarrow>
      case CheckCreate (cq_policy p) c of Some e \<Rightarrow> Some (reject_combo e resp, idem, db, []) | None \<Rightarrow>
      case cq_risk p c of
        Some why \<Rightarrow> Some (reject_combo (mk_error ''RISK_REJECTED''
            (if why = [] then ''grouped pre-trade risk rejected'' else why)) resp, idem, db, [])
      | None \<Rightarrow>
      case InsertComboOrder (cq_pg p) c None db of None \<Rightarrow> None | Some db' \<Rightarrow>
      case (if co_execution_mode c = ExecutionMode_kOrchestrationOnly
            then PublishOrchestration c (qr_user_id q) (qr_account_id q) else Some []) of
        None \<Rightarrow> None
      | Some events \<Rightarrow>
        Some (promise (resp\<lparr>cz_accepted := True, cz_combo_id := combo_id,
              cz_status := PARENT_ORDER_STATUS_ACTIVE,
              cz_leg_order_ids := foldl (\<lambda>m l. put (cl_leg_id l) (cl_leg_id l) m) [] (co_legs c)\<rparr>),
            (if client = [] then idem else put client combo_id idem), db', events))"

section \<open>Cancelling a combo\<close>

fun StatusProto_combo :: "parent_status \<Rightarrow> pb_parent_status" where
  "StatusProto_combo ParentOrderStatus_kActive = PARENT_ORDER_STATUS_ACTIVE"
| "StatusProto_combo ParentOrderStatus_kWaitingForTrigger = PARENT_ORDER_STATUS_WAITING_FOR_TRIGGER"
| "StatusProto_combo ParentOrderStatus_kPartiallyFilled = PARENT_ORDER_STATUS_PARTIALLY_FILLED"
| "StatusProto_combo ParentOrderStatus_kFilled = PARENT_ORDER_STATUS_FILLED"
| "StatusProto_combo ParentOrderStatus_kCancelled = PARENT_ORDER_STATUS_CANCELLED"
| "StatusProto_combo ParentOrderStatus_kExpired = PARENT_ORDER_STATUS_EXPIRED"
| "StatusProto_combo ParentOrderStatus_kDegraded = PARENT_ORDER_STATUS_DEGRADED"
| "StatusProto_combo ParentOrderStatus_kRollbackPending = PARENT_ORDER_STATUS_ROLLBACK_PENDING"
| "StatusProto_combo ParentOrderStatus_kRolledback = PARENT_ORDER_STATUS_ROLLEDBACK"
| "StatusProto_combo ParentOrderStatus_kRejected = PARENT_ORDER_STATUS_REJECTED"
| "StatusProto_combo ParentOrderStatus_kRiskPending = PARENT_ORDER_STATUS_RISK_PENDING"
| "StatusProto_combo ParentOrderStatus_kDraft = PARENT_ORDER_STATUS_DRAFT"

definition Combo_IsTerminal :: "parent_status \<Rightarrow> bool" where
  "Combo_IsTerminal s \<longleftrightarrow> s = ParentOrderStatus_kCancelled \<or> s = ParentOrderStatus_kFilled
     \<or> s = ParentOrderStatus_kExpired \<or> s = ParentOrderStatus_kRejected
     \<or> s = ParentOrderStatus_kRolledback"

record combo_cancel_request =
  xq_meta :: event_meta
  xq_user_id :: string
  xq_combo_id :: string
  xq_reason :: string

record combo_cancel_response =
  xs_meta :: event_meta
  xs_success :: bool
  xs_status :: pb_parent_status
  xs_error :: "error_msg option"

definition CancelCombo_Execute ::
    "pg \<Rightarrow> combo_cancel_request \<Rightarrow> combo_db \<Rightarrow>
      (combo_cancel_response \<times> combo_db \<times> grouped_event list) option" where
  "CancelCombo_Execute p q db =
     (let resp = \<lparr>xs_meta = echo_meta ''order_flow'' (xq_meta q), xs_success = False,
            xs_status = PARENT_ORDER_STATUS_UNSPECIFIED, xs_error = None\<rparr>; i = xq_combo_id q
      in if i = [] then
        Some (resp\<lparr>xs_error := Some (mk_error ''INVALID_ARGUMENT'' ''combo_id is empty'')\<rparr>, db, [])
      else case GetComboStatus p i db of
        None \<Rightarrow> None
      | Some None \<Rightarrow>
        Some (resp\<lparr>xs_error := Some (mk_error ''COMBO_NOT_FOUND'' (''combo not found: '' @ i))\<rparr>, db, [])
      | Some (Some st) \<Rightarrow>
        (if Combo_IsTerminal st
         then Some (resp\<lparr>xs_success := True, xs_status := StatusProto_combo st\<rparr>, db, [])
         else case GetActiveLegIds p i db of None \<Rightarrow> None | Some legs \<Rightarrow>
         case CancelComboAndLegs p i db of None \<Rightarrow> None | Some db' \<Rightarrow>
           Some (resp\<lparr>xs_success := True, xs_status := PARENT_ORDER_STATUS_CANCELLED\<rparr>, db',
             map (\<lambda>l. PublishLegCancel i l (xq_user_id q) (xq_reason q)) legs)))"

end
