(* ===== verification/Combo_Numeric.thy ===== *)
theory Combo_Numeric
  imports Combo_Tables
begin

text \<open>
  A decimal written to a \<open>NUMERIC(38,18)\<close> column is read back with its value. General facts on
  partial list traversals and updates of tables close the theory.
\<close>

section \<open>Numeric columns\<close>

lemma ten18: "0 \<le> s \<Longrightarrow> s \<le> 18 \<Longrightarrow> (10::rat) ^ 18 = 10 ^ nat s * 10 ^ (18 - nat s)"
  by (simp flip: power_add)

lemma pg_numeric_units:
  assumes "0 \<le> scale d" "scale d \<le> 18"
  shows "pg_numeric d = units d * 10 ^ (18 - nat (scale d))"
proof -
  have "dval d * 10 ^ 18 = of_int (units d * 10 ^ (18 - nat (scale d)))"
    unfolding dval_def ten18[OF assms] by simp
  then show ?thesis unfolding pg_numeric_def by (simp only: round_away_of_int)
qed

lemma pg_numeric_val: "0 \<le> scale d \<Longrightarrow> scale d \<le> 18 \<Longrightarrow> of_int (pg_numeric d) = dval d * 10 ^ 18"
  unfolding dval_def ten18 by (simp add: pg_numeric_units)

lemma strip0_last: "strip0 fp \<noteq> [] \<Longrightarrow> last (strip0 fp) \<noteq> CHR ''0''"
proof -
  assume ne: "strip0 fp \<noteq> []"
  then have d: "dropWhile (\<lambda>c. c = CHR ''0'') (rev fp) \<noteq> []" by (simp add: strip0_def)
  have "last (strip0 fp) = hd (dropWhile (\<lambda>c. c = CHR ''0'') (rev fp))"
    using d by (simp add: strip0_def last_rev)
  then show ?thesis using hd_dropWhile[OF d] by simp
qed

lemma digit_val_zero: "is_digit c \<Longrightarrow> digit_val c = 0 \<Longrightarrow> c = CHR ''0''"
proof -
  assume "is_digit c" "digit_val c = 0"
  then have "(of_char c :: nat) = 48" by (simp add: digit_val_def)
  then have "(of_char c :: nat) = of_char (CHR ''0'')" by simp
  then show ?thesis by (simp only: of_char_eq_iff)
qed

lemma val10_last: "val10 (ds @ [c]) mod 10 = digit_val c mod 10"
  by (simp add: val10_append) (simp add: val10_def)

lemma numeric_text_shape:
  assumes "\<bar>n\<bar> < 10 ^ 38"
  obtains ip fp where "numeric_text n = sign_text (n < 0) @ ip @ frac_text fp"
    "digit_string ip" "ip \<noteq> []" "digit_string fp" "length fp = 18"
    "val10 (ip @ fp) = \<bar>n\<bar>" "length ip \<le> 1000"
proof -
  define ip where "ip = digits_of (nat (\<bar>n\<bar> div 10 ^ 18))"
  define fp where "fp = pad_zeros 18 (digits_of (nat (\<bar>n\<bar> mod 10 ^ 18)))"
  have m: "0 \<le> \<bar>n\<bar> mod 10 ^ 18" "\<bar>n\<bar> mod 10 ^ 18 < 10 ^ 18" by simp_all
  then have "nat (\<bar>n\<bar> mod 10 ^ 18) < 10 ^ 18" by (simp add: nat_less_iff)
  then have lf: "length (digits_of (nat (\<bar>n\<bar> mod 10 ^ 18))) \<le> 18" by (rule length_digits_of) simp
  then have len: "length fp = 18" by (simp add: fp_def pad_zeros_def)
  have z: "is_digit (CHR ''0'')" by (simp add: is_digit_def)
  have dfp: "digit_string fp" using digits_of_digits z
    by (auto simp: fp_def pad_zeros_def digit_string_def)
  have vfp: "val10 fp = \<bar>n\<bar> mod 10 ^ 18"
    by (simp add: fp_def pad_zeros_def val10_append val10_zeros val10_digits_of)
  have "val10 (ip @ fp) = \<bar>n\<bar> div 10 ^ 18 * 10 ^ 18 + \<bar>n\<bar> mod 10 ^ 18"
    unfolding val10_append len vfp ip_def val10_digits_of by (simp add: pos_imp_zdiv_nonneg_iff)
  then have v: "val10 (ip @ fp) = \<bar>n\<bar>" by (simp only: div_mult_mod_eq)
  have "\<bar>n\<bar> div 10 ^ 18 \<le> (10 ^ 38 - 1) div 10 ^ 18" using assms by (intro zdiv_mono1) simp_all
  then have "\<bar>n\<bar> div 10 ^ 18 < 10 ^ 20" by simp
  then have "nat (\<bar>n\<bar> div 10 ^ 18) < 10 ^ 20" by (simp add: nat_less_iff)
  then have "length ip \<le> 20" unfolding ip_def by (rule length_digits_of) simp
  then have li: "length ip \<le> 1000" by simp
  have fne: "fp \<noteq> []" using len by auto
  have t: "numeric_text n = sign_text (n < 0) @ ip @ frac_text fp"
    using fne by (simp add: numeric_text_def sign_text_def frac_text_def ip_def fp_def)
  show thesis
    by (rule that[OF t _ _ dfp len v li]) (simp_all add: ip_def digits_of_digits digits_of_ne)
qed

lemma read_numeric_writable:
  assumes n: "n = u * 10 ^ (18 - s)" and u: "\<bar>u\<bar> \<le> 9223372036854775807" and s: "s \<le> 18"
  obtains d where "read_numeric n = Some d" "dval d * 10 ^ 18 = of_int n" "writable d"
proof -
  have "\<bar>n\<bar> = \<bar>u\<bar> * 10 ^ (18 - s)" unfolding n by (simp add: abs_mult)
  also have "\<dots> \<le> 9223372036854775807 * 10 ^ 18"
    by (rule mult_mono[OF u power_increasing]) simp_all
  finally have "\<bar>n\<bar> < 10 ^ 38" by simp
  from numeric_text_shape[OF this] obtain ip fp
    where t: "numeric_text n = sign_text (n < 0) @ ip @ frac_text fp"
    and ip: "digit_string ip" "ip \<noteq> []" and fp: "digit_string fp" "length fp = 18"
    and v: "val10 (ip @ fp) = \<bar>n\<bar>" and len: "length ip \<le> 1000" by metis
  let ?sf = "strip0 fp"
  note st = strip0_value[OF ip(1) fp(1)]
  have k: "length ?sf \<le> s"
  proof (rule ccontr)
    assume k: "\<not> length ?sf \<le> s"
    then have ne: "?sf \<noteq> []" by auto
    then obtain q c where qc: "?sf = q @ [c]" by (metis rev_exhaust)
    have "val10 (ip @ ?sf) * 10 ^ (18 - length ?sf) = \<bar>u\<bar> * 10 ^ (18 - s)"
      using st(3) v fp(2) unfolding n by (simp add: abs_mult)
    also have "(10::int) ^ (18 - s) = 10 ^ (length ?sf - s) * 10 ^ (18 - length ?sf)"
      using k st(2) fp(2) by (simp flip: power_add)
    finally have "val10 (ip @ ?sf) = \<bar>u\<bar> * 10 ^ (length ?sf - s)" by simp
    also have "\<dots> = \<bar>u\<bar> * 10 ^ (length ?sf - s - 1) * 10" using k by (cases "length ?sf - s") simp_all
    finally have "val10 (ip @ ?sf) mod 10 = 0" by simp
    then have "digit_val c mod 10 = 0" using val10_last[of "ip @ q" c] qc by simp
    moreover have "is_digit c" using st(1) qc by (simp add: digit_string_def)
    ultimately have "c = CHR ''0''" using digit_val_zero digit_val_range[of c] by force
    then show False using strip0_last[OF ne] qc by simp
  qed
  have "val10 (ip @ ?sf) * 10 ^ (18 - length ?sf) = \<bar>u\<bar> * 10 ^ (18 - s)"
    using st(3) v fp(2) unfolding n by (simp add: abs_mult)
  also have "\<dots> \<le> \<bar>u\<bar> * 10 ^ (18 - length ?sf)"
    using k by (intro mult_left_mono power_increasing) auto
  finally have "val10 (ip @ ?sf) \<le> \<bar>u\<bar>" by simp
  then have le: "val10 (ip @ ?sf) \<le> 9223372036854775807" using u by simp
  define d where "d = mk_dec (if n < 0 then - val10 (ip @ ?sf) else val10 (ip @ ?sf)) (int (length ?sf))"
  have "read_numeric n = Some d"
    unfolding read_numeric_def t d_def by (rule ParsePgNumeric_text[OF ip fp(1) len _ le]) (simp add: fp(2))
  moreover have "of_int (val10 (ip @ ?sf)) / 10 ^ length ?sf = (of_int \<bar>n\<bar> / 10 ^ 18 :: rat)"
    by (rule same_value) (use st(2,3) v fp(2) in auto)
  then have "dval d * 10 ^ 18 = of_int n" unfolding dval_def d_def by (cases "n < 0") simp_all
  moreover have "writable d"
    using le st(2) fp(2) body_bounds(3)[OF ip(1) st(1) le] val10_nonneg[of "ip @ ?sf"] ip(1) st(1)
    by (auto simp: writable_def d_def)
  ultimately show thesis by (rule that)
qed

lemma read_pg_numeric:
  assumes "writable d"
  obtains d' where "read_numeric (pg_numeric d) = Some d'" "dval d' = dval d" "writable d'"
proof -
  have w: "\<bar>units d\<bar> \<le> 9223372036854775807" "0 \<le> scale d" "scale d \<le> 18"
    using assms by (auto simp: writable_def)
  have s: "nat (scale d) \<le> 18" using w by simp
  obtain d' where "read_numeric (pg_numeric d) = Some d'"
    and v: "dval d' * 10 ^ 18 = of_int (pg_numeric d)" "writable d'"
    using read_numeric_writable[OF pg_numeric_units[OF w(2,3)] w(1) s] by metis
  then show thesis using that pg_numeric_val[OF w(2,3)] by simp
qed

section \<open>Traversals and tables\<close>

lemma traverse_Some: "traverse f xs = Some ys \<longleftrightarrow> map f xs = map Some ys"
proof (induction xs arbitrary: ys)
  case (Cons x xs)
  show ?case
  proof (cases "traverse f xs")
    case None
    then have "map f xs \<noteq> map Some zs" for zs using Cons[of zs] by simp
    then show ?thesis using None by (cases ys) (auto split: option.splits)
  next
    case (Some zs)
    then have "map f xs = map Some zs" using Cons[of zs] by simp
    then show ?thesis using Some by (cases ys) (auto split: option.splits simp: inj_map_eq_map)
  qed
qed auto

lemma traverse_None: "traverse f xs = None \<longleftrightarrow> (\<exists>x \<in> set xs. f x = None)"
  by (induction xs) (auto split: option.splits)

lemma traverse_total: "\<forall>x \<in> set xs. f x \<noteq> None \<Longrightarrow> \<exists>ys. traverse f xs = Some ys"
  using traverse_None[of f xs] by (cases "traverse f xs") auto

lemma traverse_set: "traverse f xs = Some ys \<Longrightarrow> Some ` set ys = f ` set xs"
  by (metis traverse_Some image_set)

lemma set_rows_by_key [simp]: "set (rows_by_key m) = set m"
  by (simp add: rows_by_key_def)

lemma put_fresh: "find m k = None \<Longrightarrow> put k v m = m @ [(k, v)]"
  unfolding put_def find_def by (induction m) (auto simp: update.simps split: if_splits)

lemma put_new_fresh: "find m k = None \<Longrightarrow> put_new k v m = m @ [(k, v)]"
  by (simp add: put_new_def put_fresh)

lemma find_append: "find (a @ b) k = (case find a k of Some v \<Rightarrow> Some v | None \<Rightarrow> find b k)"
  by (auto simp: find_def map_add_def split: option.splits)

lemma rows_by_key_map:
  assumes "\<And>x. fst (f x) = key x"
  shows "rows_by_key (map f xs) = map f (sort_key key xs)"
proof -
  have "insort_key fst (f x) (map f ys) = map f (insort_key key x ys)" for x ys
    by (induction ys) (auto simp: assms)
  then show ?thesis unfolding rows_by_key_def by (induction xs) simp_all
qed

lemma find_map_rows: "find (map_rows f m) k = map_option (f k) (find m k)"
  by (induction m) (auto simp: map_rows_def find_Cons)

lemma set_map_rows: "set (map_rows f m) = (\<lambda>(k, v). (k, f k v)) ` set m"
  by (simp add: map_rows_def)

lemma keys_map_rows [simp]: "map fst (map_rows f m) = map fst m"
  by (induction m) (auto simp: map_rows_def)

lemma find_put_new: "find (put_new k v m) k' = (if k' = k \<and> find m k = None then Some v else find m k')"
  by (auto simp: put_new_def split: option.splits)

end
