(* ===== verification/Matching_Combos.thy ===== *)
theory Matching_Combos
  imports Combo_Tables Matching_Groups Matching_Graph
begin

text \<open>
  The engine's side of the combo tables: loading the active groups
  (\<open>matching/src/infra/active_grouped_orders_loader.cpp\<close>), booking an execution group
  (\<open>postgres_execution_groups_repository.cpp\<close>), the graph of the legs
  (\<open>postgres_child_graph_repository.cpp\<close>), compensations
  (\<open>postgres_combo_compensation_repository.cpp\<close>), and the two places of the matching loop that
  use them, \<open>run_grouped_batch\<close> and \<open>on_external_execution_report\<close> (\<open>app/matching_loop.cpp\<close>).
\<close>

section \<open>Loading the active groups\<close>

definition PolicyFromDb :: "string \<Rightarrow> atomicity_policy" where
  "PolicyFromDb s =
     (if s = ''strict_atomic'' then KStrictAtomic
      else if s = ''scalable_atomic'' then KScalableAtomic
      else if s = ''sequential_fallback'' then KSequentialFallback
      else if s = ''external_compensating'' then KExternalCompensating
      else KBestEffort)"

definition FallbackFromDb :: "string \<Rightarrow> fallback_policy" where
  "FallbackFromDb s =
     (if s = ''wait_next_batch'' \<or> s = ''skip_batch'' then KWaitNextBatch
      else if s = ''cancel'' \<or> s = ''cancel_group'' then KCancel
      else if s = ''degrade'' then KDegrade
      else if s = ''compensate'' then KCompensate
      else KScaleDown)"

definition ConstraintTypeFromDb :: "string \<Rightarrow> constraint_type" where
  "ConstraintTypeFromDb s =
     (if s = ''spread_range'' then KSpreadRange
      else if s = ''factor_neutrality'' then KFactorNeutrality
      else if s = ''max_total_notional'' then KMaxTotalNotional
      else KOther)"

text \<open>\<open>array_to_string(venue_preferences, ',')\<close> and the loop that splits the text again.\<close>

fun array_to_string :: "string list \<Rightarrow> string" where
  "array_to_string [] = []"
| "array_to_string [v] = v"
| "array_to_string (v # w # vs) = v @ CHR '','' # array_to_string (w # vs)"

function split_csv :: "string \<Rightarrow> string list" where
  "split_csv t =
     (if t = [] then []
      else let part = takeWhile (\<lambda>c. c \<noteq> CHR '','') t; rest = dropWhile (\<lambda>c. c \<noteq> CHR '','') t
           in (if part = [] then [] else [part]) @ (if rest = [] then [] else split_csv (tl rest)))"
  by pat_completeness auto
termination
proof (relation "measure length", goal_cases)
  case (2 t part rest)
  then have "length rest \<le> length t" "rest \<noteq> []" by (simp_all add: length_dropWhile_le)
  then show ?case by (cases rest) (simp_all del: set_dropWhileD)
qed simp

declare split_csv.simps [simp del]

definition load_group_leg :: "string \<Rightarrow> string \<times> combo_leg_row \<Rightarrow> vector_leg option" where
  "load_group_leg basis kr = (case kr of (k, r) \<Rightarrow>
     (case (NumOrZero (if basis = ''quantity'' then gw_ratio r else gw_weight r),
            NumOrZero (Some (gw_p_low r)), NumOrZero (Some (gw_p_high r)),
            NumOrZero (Some (gw_q_rate r)), NumOrZero (Some (gw_q_max r)),
            NumOrZero (Some (gw_filled_cum r))) of
        (Some magnitude, Some pl, Some ph, Some qr, Some qm, Some fc) \<Rightarrow>
          Some \<lparr>vl_leg_id = k, vl_instrument_symbol = gw_instrument_symbol r,
            vl_target_ratio = (if gw_side r = ''sell'' then dsub dzero magnitude else magnitude),
            vl_p_low = pl, vl_p_high = ph, vl_q_rate = qr, vl_q_max = qm, vl_filled_cum = fc,
            vl_q_liq = None, vl_q_risk = None, vl_q_venue = None,
            vl_venue_preferences = (case gw_venue_preferences r of None \<Rightarrow> []
              | Some vs \<Rightarrow> split_csv (array_to_string vs))\<rparr>
      | _ \<Rightarrow> None))"

definition leg_is_loaded :: "combo_leg_row \<Rightarrow> bool" where
  "leg_is_loaded r \<longleftrightarrow> gw_status r \<notin> {''cancelled'', ''waiting_for_trigger'', ''failed_external'', ''filled''}"

fun opt_num :: "int option \<Rightarrow> decimal option option" where
  "opt_num None = Some None"
| "opt_num (Some n) = map_option Some (read_numeric n)"

definition load_group_constraint :: "string \<times> constraint_row \<Rightarrow> group_constraint option" where
  "load_group_constraint kr = (case kr of (k, r) \<Rightarrow>
     (case (opt_num (nw_lower_bound r), opt_num (nw_upper_bound r),
            traverse (\<lambda>(s, t). map_option (Pair s) (ParsePgNumeric t)) (nw_coefficients r)) of
        (Some lo, Some up, Some cs) \<Rightarrow>
          Some \<lparr>gc_constraint_id = k, gc_type = ConstraintTypeFromDb (nw_constraint_type r),
            gc_coefficients = foldl (\<lambda>m (s, d). put s d m) [] cs, gc_lower = lo, gc_upper = up,
            gc_severity = (if nw_severity r = ''soft'' then KSoft else KHard)\<rparr>
      | _ \<Rightarrow> None))"

text \<open>An absent \<open>ratio_basis\<close> makes \<open>as<std::string>()\<close> throw.\<close>

definition load_group :: "combo_db \<Rightarrow> string \<times> combo_row \<Rightarrow> vector_order option" where
  "load_group db kr = (case kr of (k, r) \<Rightarrow>
     (case (NumOrZero (kr_min_execution_scale r), kr_ratio_basis r) of
        (Some least, Some basis) \<Rightarrow>
          (case traverse (load_group_leg basis)
                  (rows_by_key (filter (\<lambda>(i, l). leg_is_loaded l) (legs_of k db))) of
             None \<Rightarrow> None
           | Some legs \<Rightarrow>
             (case traverse load_group_constraint
                     (rows_by_key (filter (\<lambda>(i, c). nw_parent_order_id c = k) (db_constraints db))) of
                None \<Rightarrow> None
              | Some cs \<Rightarrow>
                Some \<lparr>vo_parent_order_id = k,
                  vo_user_id = (case kr_user_id r of None \<Rightarrow> [] | Some u \<Rightarrow> u), vo_legs = legs,
                  vo_atomicity_policy = PolicyFromDb (kr_atomicity_policy r),
                  vo_fallback_policy = FallbackFromDb (kr_fallback_policy r),
                  vo_min_execution_scale = least,
                  vo_max_ratio_deviation_bps =
                    (case kr_max_ratio_deviation_bps r of None \<Rightarrow> 0 | Some b \<Rightarrow> b),
                  vo_constraints = cs\<rparr>))
      | _ \<Rightarrow> None))"

definition combo_is_active :: "combo_row \<Rightarrow> bool" where
  "combo_is_active r \<longleftrightarrow> kr_execution_mode r = ''multileg_vector_solver''
     \<and> (kr_status r = ''active'' \<or> kr_status r = ''partially_filled'')"

definition LoadActiveGroups :: "combo_db \<Rightarrow> vector_order list option" where
  "LoadActiveGroups db =
     traverse (load_group db) (rows_by_key (filter (\<lambda>(k, r). combo_is_active r) (db_combos db)))"

section \<open>Booking an execution group\<close>

fun GroupStatusDb :: "group_status \<Rightarrow> string" where
  "GroupStatusDb GROUP_STATUS_FILLED = ''filled''"
| "GroupStatusDb GROUP_STATUS_PARTIAL = ''partial''"
| "GroupStatusDb GROUP_STATUS_WAITING_NEXT_BATCH = ''waiting_next_batch''"
| "GroupStatusDb GROUP_STATUS_CANCELLED_BY_ATOMICITY = ''cancelled_by_atomicity''"
| "GroupStatusDb GROUP_STATUS_DEGRADED = ''degraded''"
| "GroupStatusDb GROUP_STATUS_COMPENSATING = ''compensating''"
| "GroupStatusDb GROUP_STATUS_ROLLBACK_PENDING = ''rollback_pending''"
| "GroupStatusDb GROUP_STATUS_ROLLEDBACK = ''rolledback''"
| "GroupStatusDb GROUP_STATUS_FAILED = ''failed''"
| "GroupStatusDb GROUP_STATUS_UNSPECIFIED = ''waiting_next_batch''"

definition Group_ExecModeDb :: "pb_execution_mode \<Rightarrow> string" where
  "Group_ExecModeDb m = (if m = EXECUTION_MODE_ORCHESTRATION_ONLY then ''orchestration_only''
     else ''multileg_vector_solver'')"

fun PolicyDb :: "pb_atomicity_policy \<Rightarrow> string" where
  "PolicyDb ATOMICITY_POLICY_STRICT_ATOMIC = ''strict_atomic''"
| "PolicyDb ATOMICITY_POLICY_SCALABLE_ATOMIC = ''scalable_atomic''"
| "PolicyDb ATOMICITY_POLICY_BEST_EFFORT = ''best_effort''"
| "PolicyDb ATOMICITY_POLICY_SEQUENTIAL_FALLBACK = ''sequential_fallback''"
| "PolicyDb ATOMICITY_POLICY_EXTERNAL_COMPENSATING = ''external_compensating''"
| "PolicyDb ATOMICITY_POLICY_UNSPECIFIED = ''best_effort''"

fun ScopeDb :: "pb_atomicity_scope \<Rightarrow> string" where
  "ScopeDb ATOMICITY_SCOPE_INTERNAL_BATCH = ''internal_batch''"
| "ScopeDb ATOMICITY_SCOPE_VENUE_NATIVE = ''venue_native''"
| "ScopeDb ATOMICITY_SCOPE_EXTERNAL_COMPENSATING = ''external_compensating''"
| "ScopeDb ATOMICITY_SCOPE_NONE = ''none''"
| "ScopeDb ATOMICITY_SCOPE_UNSPECIFIED = ''internal_batch''"

text \<open>The JSON texts; the producer never sets the \<open>fill_id\<close> of a leg result.\<close>

definition in_quotes :: "string \<Rightarrow> string" where
  "in_quotes s = CHR 0x22 # s @ [CHR 0x22]"

definition LegResultsJson :: "leg_result list \<Rightarrow> string" where
  "LegResultsJson rs = ''['' @ array_to_string (map (\<lambda>r.
     CHR 0x7B # in_quotes ''legId'' @ '':'' @ in_quotes (lr_leg_id r) @ '','' @
       in_quotes ''execQty'' @ '':'' @ in_quotes (to_string (lr_exec_qty r)) @ '','' @
       in_quotes ''execPrice'' @ '':'' @ in_quotes (to_string (lr_exec_price r)) @ '','' @
       in_quotes ''fillId'' @ '':'' @ in_quotes [] @ [CHR 0x7D]) rs) @ '']''"

definition StringArrayJson :: "string list \<Rightarrow> string" where
  "StringArrayJson ss = ''['' @ array_to_string (map in_quotes ss) @ '']''"

definition DiagnosticsJson :: "group_output \<Rightarrow> string" where
  "DiagnosticsJson g = CHR 0x7B # in_quotes ''bindingLegs'' @ '':'' @
     StringArrayJson (go_binding_leg_ids g) @ [CHR 0x7D]"

definition group_row_of :: "group_output \<Rightarrow> group_row" where
  "group_row_of g =
     \<lparr>hw_batch_id = eg_batch_id g, hw_parent_order_id = eg_parent_order_id g,
      hw_execution_mode = Group_ExecModeDb (go_execution_mode g),
      hw_group_status = GroupStatusDb (go_group_status g),
      hw_execution_scale = pg_numeric (go_execution_scale g),
      hw_atomicity_policy = PolicyDb (go_atomicity_policy g),
      hw_atomicity_scope = ScopeDb (go_atomicity_scope g),
      hw_fallback_action = NULLIF_empty (go_fallback_action g), hw_ratio_deviation_bps = 0,
      hw_leg_results = LegResultsJson (eg_leg_results g),
      hw_violated_constraints = StringArrayJson (go_violated_constraints g),
      hw_solver_diagnostics = DiagnosticsJson g\<rparr>"

text \<open>The casts and the \<open>CHECK\<close> of \<open>execution_groups\<close>.\<close>

definition group_row_ok :: "pg \<Rightarrow> string \<Rightarrow> group_row \<Rightarrow> bool" where
  "group_row_ok p gid r \<longleftrightarrow> pg_uuid p gid \<and> pg_uuid p (hw_parent_order_id r)
     \<and> pg_json p (hw_leg_results r) \<and> pg_json p (hw_violated_constraints r)
     \<and> pg_json p (hw_solver_diagnostics r)
     \<and> 0 \<le> hw_execution_scale r \<and> hw_execution_scale r \<le> 10 ^ 18"

text \<open>An \<open>UPDATE\<close> of legs; a row that breaks a \<open>CHECK\<close> raises.\<close>

definition update_legs :: "(string \<Rightarrow> combo_leg_row \<Rightarrow> bool) \<Rightarrow> (combo_leg_row \<Rightarrow> combo_leg_row)
    \<Rightarrow> combo_db \<Rightarrow> combo_db option" where
  "update_legs sel f db =
     (if list_ex (\<lambda>(k, r). sel k r \<and> \<not> leg_row_ok (f r)) (db_legs db) then None
      else Some (db\<lparr>db_legs := map_rows (\<lambda>k r. if sel k r then f r else r) (db_legs db)\<rparr>))"

definition add_filled :: "int \<Rightarrow> combo_leg_row \<Rightarrow> combo_leg_row" where
  "add_filled q r = r\<lparr>gw_filled_cum := min (gw_filled_cum r + q) (gw_q_max r)\<rparr>"

definition book_leg_result :: "pg \<Rightarrow> string \<Rightarrow> leg_result \<Rightarrow> combo_db \<Rightarrow> combo_db option" where
  "book_leg_result p parent lr db =
     (if \<not> pg_uuid p (lr_leg_id lr) then None
      else update_legs (\<lambda>k r. gw_parent_order_id r = parent \<and> k = lr_leg_id lr)
             (add_filled (pg_numeric (lr_exec_qty lr))) db)"

definition restate_combo :: "string \<Rightarrow> combo_db \<Rightarrow> combo_db" where
  "restate_combo parent db =
     db\<lparr>db_combos := map_rows (\<lambda>k r.
       if k = parent \<and> kr_status r \<noteq> ''filled'' \<and> kr_status r \<noteq> ''cancelled''
       then r\<lparr>kr_status := (if list_ex (\<lambda>(i, l). gw_q_max l \<le> gw_filled_cum l) (legs_of parent db)
              then ''filled'' else ''partially_filled'')\<rparr>
       else r) (db_combos db)\<rparr>"

definition close_filled_combo :: "string \<Rightarrow> combo_db \<Rightarrow> combo_db" where
  "close_filled_combo parent db =
     (if list_ex (\<lambda>(k, r). k = parent \<and> kr_status r = ''filled'') (db_combos db)
      then db\<lparr>db_legs := map_rows (\<lambda>k r. if gw_parent_order_id r = parent \<and> gw_status r = ''active''
              then r\<lparr>gw_status := ''filled''\<rparr> else r) (db_legs db)\<rparr>
      else db)"

definition PersistExecutionGroup :: "pg \<Rightarrow> group_output \<Rightarrow> combo_db \<Rightarrow> combo_db option" where
  "PersistExecutionGroup p g db =
     (let gid = eg_execution_group_id g; parent = eg_parent_order_id g; row = group_row_of g
      in if \<not> group_row_ok p gid row then None
         else if find (db_groups db) gid \<noteq> None then Some db
         else if find (db_combos db) parent = None then None
         else let db = db\<lparr>db_groups := put gid row (db_groups db),
                db_transitions := put_new gid (gid, hw_group_status row) (db_transitions db)\<rparr>
         in if eg_leg_results g = [] then Some db
            else (case fold_opt (book_leg_result p parent) (eg_leg_results g) db of
                    None \<Rightarrow> None
                  | Some db \<Rightarrow> Some (close_filled_combo parent (restate_combo parent db))))"

section \<open>The graph of the legs\<close>

definition LegStatusFromDb :: "string \<Rightarrow> graph_leg_status" where
  "LegStatusFromDb s =
     (if s = ''waiting_for_trigger'' then GroupLegStatus_kWaitingForTrigger
      else if s = ''partially_filled'' then GroupLegStatus_kPartiallyFilled
      else if s = ''filled'' then GroupLegStatus_kFilled
      else if s = ''cancelled'' then GroupLegStatus_kCancelled
      else GroupLegStatus_kActive)"

definition EdgeTypeFromDb :: "string \<Rightarrow> graph_edge_type" where
  "EdgeTypeFromDb s =
     (if s = ''oco'' then GroupEdgeType_kOcoSibling
      else if s = ''bracket'' then GroupEdgeType_kBracketEntry
      else GroupEdgeType_kConditional)"

definition load_graph_leg :: "string list \<Rightarrow> string \<times> combo_leg_row \<Rightarrow> graph_leg option" where
  "load_graph_leg exits kr = (case kr of (k, r) \<Rightarrow>
     (case (NumOrZero (Some (gw_q_max r)), NumOrZero (Some (gw_filled_cum r))) of
        (Some qm, Some fc) \<Rightarrow> Some \<lparr>gy_leg_id = k, gy_status = LegStatusFromDb (gw_status r),
           gy_q_max = qm, gy_filled_cum = fc, gy_is_exit = (k \<in> set exits)\<rparr>
      | _ \<Rightarrow> None))"

definition load_graph_edge :: "pg \<Rightarrow> string \<times> link_row \<Rightarrow> graph_edge option" where
  "load_graph_edge p kr = (case kr of (k, r) \<Rightarrow>
     (let field = (\<lambda>name. case kw_condition r of None \<Rightarrow> None | Some c \<Rightarrow> pg_json_field p c name);
          edge = (\<lambda>c. \<lparr>ge_type = EdgeTypeFromDb (kw_link_type r), ge_source_leg_id = kw_from_leg_id r,
             ge_target_leg_id = kw_to_leg_id r, ge_condition = c\<rparr>)
      in case (field ''op'', field ''symbol'', field ''price'') of
        (Some opr, Some symbol, Some price) \<Rightarrow>
          map_option (\<lambda>t. edge \<lparr>tr_present = True, tr_op = TriggerOpFromString opr,
            tr_symbol = symbol, tr_threshold = t\<rparr>) (ParsePgNumeric price)
      | _ \<Rightarrow> Some (edge \<lparr>tr_present = False, tr_op = TriggerOp_kGte, tr_symbol = [],
            tr_threshold = dzero\<rparr>)))"

definition LoadComboGroupState :: "pg \<Rightarrow> string \<Rightarrow> combo_db \<Rightarrow> combo_group_state option" where
  "LoadComboGroupState p parent db =
     (if parent = [] then Some \<lparr>gs_parent_order_id = parent, gs_legs = [], gs_edges = []\<rparr>
      else if \<not> pg_uuid p parent then None
      else let links = rows_by_key (filter (\<lambda>(k, r). kw_parent_order_id r = parent) (db_links db));
               exits = map (\<lambda>(k, r). kw_to_leg_id r) (filter (\<lambda>(k, r). kw_link_type r = ''bracket'') links)
           in case (traverse (load_graph_leg exits) (rows_by_key (legs_of parent db)),
                    traverse (load_graph_edge p) links) of
                (Some legs, Some edges) \<Rightarrow>
                  Some \<lparr>gs_parent_order_id = parent, gs_legs = legs, gs_edges = edges\<rparr>
              | _ \<Rightarrow> None)"

definition persist_transition ::
    "pg \<Rightarrow> string \<Rightarrow> combo_group_state \<Rightarrow> graph_transition \<Rightarrow> combo_db \<Rightarrow> combo_db option" where
  "persist_transition p group_id g t db =
     (let target = gt_target_leg_id t;
          change = (\<lambda>sel f. if pg_uuid p target then update_legs (\<lambda>k r. k = target \<and> sel r) f db else None)
      in case (if gt_action t = ''oco_cancel'' then
                 change (\<lambda>r. gw_status r \<noteq> ''cancelled'') (\<lambda>r. r\<lparr>gw_status := ''cancelled''\<rparr>)
               else if gt_action t = ''bracket_resize'' then
                 (case FindLeg (gs_legs g) target of None \<Rightarrow> Some db
                  | Some l \<Rightarrow> change (\<lambda>r. True)
                      (\<lambda>r. r\<lparr>gw_q_max := pg_numeric (gy_q_max l), gw_status := ''active''\<rparr>))
               else if gt_action t = ''conditional_activate'' then
                 change (\<lambda>r. gw_status r = ''waiting_for_trigger'') (\<lambda>r. r\<lparr>gw_status := ''active''\<rparr>)
               else Some db) of
           None \<Rightarrow> None
         | Some db \<Rightarrow>
           if \<not> pg_uuid p group_id
              \<or> find (db_transitions db) (gt_idempotency_key t) = None \<and> find (db_groups db) group_id = None
           then None
           else Some (db\<lparr>db_transitions :=
             put_new (gt_idempotency_key t) (group_id, gt_action t) (db_transitions db)\<rparr>))"

definition PersistChildGraphTransitions ::
    "pg \<Rightarrow> string \<Rightarrow> combo_group_state \<Rightarrow> graph_transition list \<Rightarrow> combo_db \<Rightarrow> combo_db option" where
  "PersistChildGraphTransitions p group_id g ts db =
     (if ts = [] then Some db else fold_opt (persist_transition p group_id g) ts db)"

end
