(* ===== verification/Combo_Intake.thy ===== *)
theory Combo_Intake
  imports Combo_Usecases Combo_Numeric Matching_Combos Matching_Grouping
begin

text \<open>
  What order flow and matching engine guarantee together about new and cancelled combos: the
  outcome of the two use cases on every branch, and that the engine loads exactly what was
  accepted.
\<close>

section \<open>What the inserts write\<close>

lemma fold_opt_keeps:
  "(\<And>x s s'. f x s = Some s' \<Longrightarrow> h s' = h s) \<Longrightarrow> fold_opt f xs s = Some s' \<Longrightarrow> h s' = h s"
  by (induction xs arbitrary: s) (auto split: option.splits)

lemma fold_opt_put_new:
  assumes "\<And>x s s'. f x s = Some s' \<Longrightarrow> get s' = put_new (key x) (row x) (get s) \<and> ok x"
    and "fold_opt f xs s = Some s'" "distinct (map key xs)" "\<forall>x \<in> set xs. find (get s) (key x) = None"
  shows "get s' = get s @ map (\<lambda>x. (key x, row x)) xs \<and> (\<forall>x \<in> set xs. ok x)"
  using assms(2-)
proof (induction xs arbitrary: s)
  case (Cons x xs)
  obtain t where t: "f x s = Some t" "fold_opt f xs t = Some s'"
    using Cons.prems(1) by (auto split: option.splits)
  have g: "get t = get s @ [(key x, row x)]" "ok x"
    using assms(1)[OF t(1)] Cons.prems(3) by (auto simp: put_new_fresh)
  have "\<forall>y \<in> set xs. find (get t) (key y) = None" using Cons.prems(2,3)
    by (auto simp: g find_append find_Cons) (metis imageI)
  from Cons.IH[OF t(2) _ this] Cons.prems(2) show ?case using g by auto
qed auto

lemma insert_leg_row:
  assumes "insert_leg p i l db = Some db'"
  shows "db_legs db' = put_new (cl_leg_id l) (leg_row_of i l (the (SideDb (cl_side l)))) (db_legs db)
    \<and> (pg_uuid p (cl_leg_id l) \<and> leg_row_ok (leg_row_of i l (the (SideDb (cl_side l)))))"
    "db_combos db' = db_combos db" "db_constraints db' = db_constraints db"
    "db_groups db' = db_groups db" "db_compensations db' = db_compensations db"
  using assms by (auto simp: insert_leg_def Let_def split: option.splits if_splits)

lemma insert_constraint_row:
  assumes "insert_constraint p i c db = Some db'"
  shows "db_constraints db' = put_new (cc_constraint_id c) (constraint_row_of i c) (db_constraints db)
    \<and> pg_uuid p (cc_constraint_id c)"
    "db_combos db' = db_combos db" "db_legs db' = db_legs db"
  using assms by (auto simp: insert_constraint_def split: if_splits)

lemma insert_link_keeps:
  assumes "insert_link p i k db = Some db'"
  shows "db_combos db' = db_combos db" "db_legs db' = db_legs db" "db_constraints db' = db_constraints db"
  using assms by (auto simp: insert_link_def split: if_splits)

definition combo_ids_fresh :: "combo_order \<Rightarrow> combo_db \<Rightarrow> bool" where
  "combo_ids_fresh c db \<longleftrightarrow> find (db_combos db) (co_combo_order_id c) = None
     \<and> distinct (map cl_leg_id (co_legs c)) \<and> (\<forall>l \<in> set (co_legs c). find (db_legs db) (cl_leg_id l) = None)
     \<and> distinct (map cc_constraint_id (co_constraints c))
     \<and> (\<forall>k \<in> set (co_constraints c). find (db_constraints db) (cc_constraint_id k) = None)
     \<and> (\<forall>(i, r) \<in> set (db_legs db). gw_parent_order_id r \<noteq> co_combo_order_id c)
     \<and> (\<forall>(i, r) \<in> set (db_constraints db). nw_parent_order_id r \<noteq> co_combo_order_id c)"

definition stored_leg :: "combo_order \<Rightarrow> combo_leg \<Rightarrow> string \<times> combo_leg_row" where
  "stored_leg c l = (cl_leg_id l, leg_row_of (co_combo_order_id c) l (the (SideDb (cl_side l))))"

definition stored_combo :: "combo_order \<Rightarrow> combo_row" where
  "stored_combo c = combo_row_of c (the (ComboTypeDb (co_combo_type c))) (the (ExecModeDb (co_execution_mode c)))"

definition stored_constraint :: "combo_order \<Rightarrow> combo_constraint \<Rightarrow> string \<times> constraint_row" where
  "stored_constraint c k = (cc_constraint_id k, constraint_row_of (co_combo_order_id c) k)"

lemma InsertComboOrder_rows:
  assumes "InsertComboOrder p c None db = Some db'" "combo_ids_fresh c db"
  shows "db_combos db' = db_combos db @ [(co_combo_order_id c, stored_combo c)]"
    "db_legs db' = db_legs db @ map (stored_leg c) (co_legs c)"
    "db_constraints db' = db_constraints db @ map (stored_constraint c) (co_constraints c)"
    "\<forall>l \<in> set (co_legs c). SideDb (cl_side l) \<noteq> None \<and> leg_row_ok (snd (stored_leg c l))"
    "Combo_validate c = None"
proof -
  let ?i = "co_combo_order_id c"
  obtain d1 d2 d3 where v: "Combo_validate c = None" and s: "insert_combo p c db = Some d1"
      "fold_opt (insert_leg p ?i) (co_legs c) d1 = Some d2"
      "fold_opt (insert_constraint p ?i) (co_constraints c) d2 = Some d3"
      "fold_opt (insert_link p ?i) (co_conditional_links c) d3 = Some db'"
    using assms(1) by (auto simp: InsertComboOrder_def Let_def split: if_splits option.splits)
  have d1: "d1 = db\<lparr>db_combos := db_combos db @ [(?i, stored_combo c)]\<rparr>"
    using s(1) assms(2)
    by (auto simp: insert_combo_def Let_def stored_combo_def put_new_fresh combo_ids_fresh_def
        split: option.splits if_splits)
  have l: "db_legs d2 = db_legs d1 @ map (\<lambda>l. (cl_leg_id l, leg_row_of ?i l (the (SideDb (cl_side l))))) (co_legs c)
      \<and> (\<forall>l \<in> set (co_legs c). SideDb (cl_side l) \<noteq> None \<and> leg_row_ok (leg_row_of ?i l (the (SideDb (cl_side l)))))"
    by (rule fold_opt_put_new[OF _ s(2)])
      (use assms(2) in \<open>auto simp: combo_ids_fresh_def d1 insert_leg_def Let_def split: option.splits if_splits\<close>)
  have keep2: "db_combos d2 = db_combos d1" "db_constraints d2 = db_constraints d1"
    using fold_opt_keeps[of "insert_leg p ?i" db_combos, OF insert_leg_row(2) s(2)]
      fold_opt_keeps[of "insert_leg p ?i" db_constraints, OF insert_leg_row(3) s(2)] by simp_all
  have k: "db_constraints d3 = db_constraints d2 @
      map (\<lambda>k. (cc_constraint_id k, constraint_row_of ?i k)) (co_constraints c)"
    using fold_opt_put_new[of "insert_constraint p ?i" db_constraints cc_constraint_id "constraint_row_of ?i"
        "\<lambda>k. pg_uuid p (cc_constraint_id k)", OF insert_constraint_row(1) s(3)] assms(2)
    by (auto simp: combo_ids_fresh_def keep2 d1)
  have keep3: "db_combos d3 = db_combos d2" "db_legs d3 = db_legs d2"
    using fold_opt_keeps[of "insert_constraint p ?i" db_combos, OF insert_constraint_row(2) s(3)]
      fold_opt_keeps[of "insert_constraint p ?i" db_legs, OF insert_constraint_row(3) s(3)] by simp_all
  have keep4: "db_combos db' = db_combos d3" "db_legs db' = db_legs d3" "db_constraints db' = db_constraints d3"
    using fold_opt_keeps[of "insert_link p ?i" db_combos, OF insert_link_keeps(1) s(4)]
      fold_opt_keeps[of "insert_link p ?i" db_legs, OF insert_link_keeps(2) s(4)]
      fold_opt_keeps[of "insert_link p ?i" db_constraints, OF insert_link_keeps(3) s(4)] by simp_all
  show "db_combos db' = db_combos db @ [(?i, stored_combo c)]" by (simp add: keep4 keep3 keep2 d1)
  have "(\<lambda>l. (cl_leg_id l, leg_row_of ?i l (the (SideDb (cl_side l))))) = stored_leg c"
    "(\<lambda>k. (cc_constraint_id k, constraint_row_of ?i k)) = stored_constraint c"
    by (simp_all add: stored_leg_def stored_constraint_def fun_eq_iff)
  then show "db_legs db' = db_legs db @ map (stored_leg c) (co_legs c)"
    "db_constraints db' = db_constraints db @ map (stored_constraint c) (co_constraints c)"
    using l k by (simp_all add: keep4 keep3 keep2 d1)
  show "\<forall>l \<in> set (co_legs c). SideDb (cl_side l) \<noteq> None \<and> leg_row_ok (snd (stored_leg c l))"
    using l by (auto simp: stored_leg_def)
  show "Combo_validate c = None" by (rule v)
qed

section \<open>What the engine reads\<close>

lemma split_csv_step:
  assumes "t \<noteq> []" "takeWhile (\<lambda>c. c \<noteq> CHR '','') t = a" "dropWhile (\<lambda>c. c \<noteq> CHR '','') t = b"
  shows "split_csv t = (if a = [] then [] else [a]) @ (if b = [] then [] else split_csv (tl b))"
  unfolding assms(2,3)[symmetric] using assms(1) by (subst split_csv.simps) (simp only: Let_def if_False)

lemma split_csv_array: "\<forall>v \<in> set vs. v \<noteq> [] \<and> CHR '','' \<notin> set v \<Longrightarrow> split_csv (array_to_string vs) = vs"
proof (induction vs rule: array_to_string.induct)
  case 1
  show ?case by (simp add: split_csv.simps)
next
  case (2 v)
  then have "takeWhile (\<lambda>c. c \<noteq> CHR '','') v = v" "dropWhile (\<lambda>c. c \<noteq> CHR '','') v = []"
    by (auto simp: takeWhile_eq_all_conv dropWhile_eq_Nil_conv)
  with 2 show ?case using split_csv_step[of v v "[]"] by simp
next
  case (3 v w vs)
  let ?t = "v @ CHR '','' # array_to_string (w # vs)"
  have "\<forall>c \<in> set v. c \<noteq> CHR '',''" using "3.prems" by auto
  then have "takeWhile (\<lambda>c. c \<noteq> CHR '','') ?t = v"
    "dropWhile (\<lambda>c. c \<noteq> CHR '','') ?t = CHR '','' # array_to_string (w # vs)"
    by (simp_all add: takeWhile_append2 dropWhile_append2)
  moreover have "v \<noteq> []" "split_csv (array_to_string (w # vs)) = w # vs" using 3 by auto
  ultimately show ?case using split_csv_step[of ?t v "CHR '','' # array_to_string (w # vs)"] by simp
qed

lemma dsub_zero:
  assumes "writable d"
  shows "dval (dsub dzero d) = - dval d" "writable (dsub dzero d)"
proof -
  have w: "wf_dec dzero" "wf_dec d" "in_i64 (- units d)" "max 0 (scale d) = scale d"
    using assms by (auto simp: writable_def wf_dec_def dzero_def in_i64_def)
  have "dsub dzero d = normalize_i128 (- units d) (scale d)"
    using sum_normalize(2)[OF w(1,2)] w(4) by (simp add: dzero_def at_scale_def)
  also have "\<dots> = mk_dec (- units d) (scale d)" using w(3) 
    by (simp add: normalize_i128_def in_i64_def normalize_loop.simps[of "- units d"])
  finally have "dsub dzero d = mk_dec (- units d) (scale d)" .
  then show "dval (dsub dzero d) = - dval d" "writable (dsub dzero d)"
    using assms by (simp_all add: dval_def writable_def)
qed

text \<open>Numbers a client can send: any scale up to eighteen.\<close>

definition leg_numbers :: "combo_leg \<Rightarrow> bool" where
  "leg_numbers l \<longleftrightarrow> writable (cl_p_low l) \<and> writable (cl_p_high l) \<and> writable (cl_q_rate l)
     \<and> writable (cl_q_max l) \<and> writable (cl_filled_cum l)
     \<and> (\<forall>w. cl_weight l = Some w \<longrightarrow> writable w) \<and> (\<forall>r. cl_ratio l = Some r \<longrightarrow> writable r)"

definition constraint_numbers :: "combo_constraint \<Rightarrow> bool" where
  "constraint_numbers c \<longleftrightarrow> (\<forall>x. cc_lower c = Some x \<longrightarrow> writable x) \<and> (\<forall>x. cc_upper c = Some x \<longrightarrow> writable x)
     \<and> (\<forall>(s, d) \<in> set (cc_coefficients c). writable d)"

definition combo_numbers :: "combo_order \<Rightarrow> bool" where
  "combo_numbers c \<longleftrightarrow> (\<forall>l \<in> set (co_legs c). leg_numbers l) \<and> (\<forall>k \<in> set (co_constraints c). constraint_numbers k)
     \<and> (\<forall>x. co_min_execution_scale c = Some x \<longrightarrow> writable x)"

definition same_num :: "decimal option \<Rightarrow> decimal option \<Rightarrow> bool" where
  "same_num a b \<longleftrightarrow> map_option dval a = map_option dval b"

text \<open>A leg and a constraint of the engine that stand for those of the accepted order.\<close>

definition leg_written :: "combo_leg \<Rightarrow> vector_leg \<Rightarrow> bool" where
  "leg_written l v \<longleftrightarrow> vl_leg_id v = cl_leg_id l \<and> vl_instrument_symbol v = cl_instrument_symbol l
     \<and> dval (vl_target_ratio v) = (if cl_side l = Side_kSell then -1 else 1)
         * (case cl_weight l of None \<Rightarrow> 0 | Some w \<Rightarrow> dval w) \<and> writable (vl_target_ratio v)
     \<and> dval (vl_p_low v) = dval (cl_p_low l) \<and> dval (vl_p_high v) = dval (cl_p_high l)
     \<and> dval (vl_q_rate v) = dval (cl_q_rate l) \<and> dval (vl_q_max v) = dval (cl_q_max l)
     \<and> dval (vl_filled_cum v) = dval (cl_filled_cum l)
     \<and> vl_q_liq v = None \<and> vl_q_risk v = None \<and> vl_q_venue v = None
     \<and> vl_venue_preferences v = cl_venue_preferences l"

text \<open>What the names of the order flow mean to the engine.\<close>

fun engine_policy :: "combo_atomicity \<Rightarrow> atomicity_policy" where
  "engine_policy AtomicityPolicy_kStrictAtomic = KStrictAtomic"
| "engine_policy AtomicityPolicy_kScalableAtomic = KScalableAtomic"
| "engine_policy AtomicityPolicy_kSequentialFallback = KSequentialFallback"
| "engine_policy AtomicityPolicy_kExternalCompensating = KExternalCompensating"
| "engine_policy AtomicityPolicy_kBestEffort = KBestEffort"
| "engine_policy AtomicityPolicy_kUnspecified = KBestEffort"

fun engine_fallback :: "combo_fallback \<Rightarrow> fallback_policy" where
  "engine_fallback FallbackPolicy_kWaitNextBatch = KWaitNextBatch"
| "engine_fallback FallbackPolicy_kCancel = KCancel"
| "engine_fallback FallbackPolicy_kDegrade = KDegrade"
| "engine_fallback FallbackPolicy_kCompensate = KCompensate"
| "engine_fallback FallbackPolicy_kScaleDown = KScaleDown"
| "engine_fallback FallbackPolicy_kUnspecified = KScaleDown"

fun engine_constraint :: "combo_constraint_type \<Rightarrow> constraint_type" where
  "engine_constraint ConstraintType_kSpreadRange = KSpreadRange"
| "engine_constraint ConstraintType_kFactorNeutrality = KFactorNeutrality"
| "engine_constraint ConstraintType_kMaxTotalNotional = KMaxTotalNotional"
| "engine_constraint _ = KOther"

lemma engine_names [simp]:
  "PolicyFromDb (AtomicityPolicyDb a) = engine_policy a"
  "FallbackFromDb (FallbackPolicyDb f) = engine_fallback f"
  "ConstraintTypeFromDb (ConstraintTypeDb t) = engine_constraint t"
proof -
  show "PolicyFromDb (AtomicityPolicyDb a) = engine_policy a" by (cases a) (simp_all add: PolicyFromDb_def)
  show "FallbackFromDb (FallbackPolicyDb f) = engine_fallback f"
    by (cases f) (simp_all add: FallbackFromDb_def)
  show "ConstraintTypeFromDb (ConstraintTypeDb t) = engine_constraint t"
    by (cases t) (simp_all add: ConstraintTypeFromDb_def)
qed

definition constraint_written :: "combo_constraint \<Rightarrow> group_constraint \<Rightarrow> bool" where
  "constraint_written c g \<longleftrightarrow> gc_constraint_id g = cc_constraint_id c
     \<and> gc_type g = engine_constraint (cc_type c)
     \<and> (\<forall>s. map_option dval (find (gc_coefficients g) s) = map_option dval (find (cc_coefficients c) s))
     \<and> same_num (gc_lower g) (cc_lower c) \<and> same_num (gc_upper g) (cc_upper c)
     \<and> (gc_severity g = KSoft \<longleftrightarrow> cc_severity c = ConstraintSeverity_kSoft)"

lemma read_num: "writable d \<Longrightarrow> \<exists>d'. NumOrZero (Some (pg_numeric d)) = Some d' \<and> dval d' = dval d \<and> writable d'"
  by (rule read_pg_numeric[of d]) (auto simp: NumOrZero_def)

lemma load_stored_leg:
  assumes "leg_numbers l" "SideDb (cl_side l) \<noteq> None" "basis \<noteq> ''quantity''"
    and "\<forall>v \<in> set (cl_venue_preferences l). v \<noteq> [] \<and> CHR '','' \<notin> set v"
  shows "\<exists>v. load_group_leg basis (stored_leg c l) = Some v \<and> leg_written l v"
proof -
  have "\<exists>m. NumOrZero (map_option pg_numeric (cl_weight l)) = Some m
      \<and> dval m = (case cl_weight l of None \<Rightarrow> 0 | Some w \<Rightarrow> dval w) \<and> writable m"
  proof (cases "cl_weight l")
    case None
    then show ?thesis by (simp add: NumOrZero_def dval_def dzero_def writable_def)
  next
    case (Some w)
    then show ?thesis using read_num[of w] assms(1) by (auto simp: leg_numbers_def)
  qed
  then obtain m where m: "NumOrZero (map_option pg_numeric (cl_weight l)) = Some m"
    "dval m = (case cl_weight l of None \<Rightarrow> 0 | Some w \<Rightarrow> dval w)" "writable m" by blast
  obtain pl ph qr qm fc where
    "NumOrZero (Some (pg_numeric (cl_p_low l))) = Some pl" "dval pl = dval (cl_p_low l)"
    "NumOrZero (Some (pg_numeric (cl_p_high l))) = Some ph" "dval ph = dval (cl_p_high l)"
    "NumOrZero (Some (pg_numeric (cl_q_rate l))) = Some qr" "dval qr = dval (cl_q_rate l)"
    "NumOrZero (Some (pg_numeric (cl_q_max l))) = Some qm" "dval qm = dval (cl_q_max l)"
    "NumOrZero (Some (pg_numeric (cl_filled_cum l))) = Some fc" "dval fc = dval (cl_filled_cum l)"
    using read_num[of "cl_p_low l"] read_num[of "cl_p_high l"] read_num[of "cl_q_rate l"]
      read_num[of "cl_q_max l"] read_num[of "cl_filled_cum l"] assms(1)
    unfolding leg_numbers_def by metis
  then show ?thesis
    using assms(2,3) m dsub_zero[OF m(3)] split_csv_array[OF assms(4)]
    by (cases "cl_side l") (auto simp: load_group_leg_def stored_leg_def leg_row_of_def leg_written_def)
qed

lemma read_opt: "\<forall>d. x = Some d \<longrightarrow> writable d \<Longrightarrow> \<exists>y. opt_num (map_option pg_numeric x) = Some y \<and> same_num y x"
proof (cases x)
  case (Some d)
  assume "\<forall>d. x = Some d \<longrightarrow> writable d"
  with Some obtain d' where "read_numeric (pg_numeric d) = Some d'" "dval d' = dval d"
    by (metis read_pg_numeric)
  with Some show ?thesis by (simp add: same_num_def)
qed (simp add: same_num_def)

lemma map_of_rev_distinct: "distinct (map fst ys) \<Longrightarrow> map_of (rev ys) s = map_of ys s"
proof (induction ys)
  case (Cons y ys)
  then have "map_of ys (fst y) = None" by (simp add: map_of_eq_None_iff)
  with Cons show ?case by (cases y) (auto simp: map_add_def split: option.splits)
qed simp

lemma find_foldl_put:
  "find (foldl (\<lambda>m (s, d). put s d m) m cs) k = (case map_of (rev cs) k of Some d \<Rightarrow> Some d | None \<Rightarrow> find m k)"
  by (induction cs arbitrary: m) (auto simp: map_add_def split: option.splits)

lemma load_stored_constraint:
  assumes "constraint_numbers k" "distinct (map fst (cc_coefficients k))"
  shows "\<exists>g. load_group_constraint (stored_constraint c k) = Some g \<and> constraint_written k g"
proof -
  obtain lo up where b: "opt_num (map_option pg_numeric (cc_lower k)) = Some lo" "same_num lo (cc_lower k)"
    "opt_num (map_option pg_numeric (cc_upper k)) = Some up" "same_num up (cc_upper k)"
    using read_opt[of "cc_lower k"] read_opt[of "cc_upper k"] assms(1)
    unfolding constraint_numbers_def by blast
  let ?f = "\<lambda>(s, t). map_option (Pair s) (ParsePgNumeric t)"
  have "\<exists>ys. traverse ?f (map (\<lambda>(s, d). (s, to_string d)) ms) = Some ys
      \<and> map (\<lambda>(s, d). (s, dval d)) ys = map (\<lambda>(s, d). (s, dval d)) ms"
    if "\<forall>(s, d) \<in> set ms. writable d" for ms
    using that
  proof (induction ms)
    case (Cons m ms)
    obtain s d where m: "m = (s, d)" by fastforce
    with Cons.prems obtain d' where "ParsePgNumeric (to_string d) = Some d'" "dval d' = dval d"
      using ParsePgNumeric_to_string[of d] by auto
    moreover obtain ys where "traverse ?f (map (\<lambda>(s, d). (s, to_string d)) ms) = Some ys"
      "map (\<lambda>(s, d). (s, dval d)) ys = map (\<lambda>(s, d). (s, dval d)) ms" using Cons by auto
    ultimately show ?case using m by auto
  qed simp
  then obtain ys where ys: "traverse ?f (map (\<lambda>(s, d). (s, to_string d)) (cc_coefficients k)) = Some ys"
    "map (\<lambda>(s, d). (s, dval d)) ys = map (\<lambda>(s, d). (s, dval d)) (cc_coefficients k)"
    using assms(1) unfolding constraint_numbers_def by blast
  have fst_ys: "map fst ys = map fst (cc_coefficients k)"
    using arg_cong[OF ys(2), of "map fst"] by (simp add: case_prod_beta o_def)
  have co: "map_option dval (find (foldl (\<lambda>m (s, d). put s d m) [] ys) s)
      = map_option dval (find (cc_coefficients k) s)" for s
  proof -
    have "distinct (map fst ys)" using fst_ys assms(2) by simp
    then have "map_of (rev ys) s = map_of ys s" by (simp add: map_of_rev_distinct)
    moreover have v: "map_option dval (map_of zs s) = map_of (map (\<lambda>(s, d). (s, dval d)) zs) s" for zs
      by (simp add: map_of_map)
    have "map_option dval (map_of ys s) = map_option dval (find (cc_coefficients k) s)"
      unfolding find_def v ys(2) by simp
    ultimately show ?thesis unfolding find_foldl_put by (cases "map_of ys s") simp_all
  qed
  show ?thesis using b ys(1) co
    by (auto simp: load_group_constraint_def stored_constraint_def constraint_row_of_def constraint_written_def
        split: if_splits)
qed

section \<open>Accepted combos reach the engine\<close>

lemma load_rows:
  assumes "\<forall>x \<in> set xs. \<exists>y. f (h x) = Some y \<and> R x y"
  shows "\<exists>ys. traverse f (map h xs) = Some ys \<and> list_all2 R xs ys"
  using assms
proof (induction xs)
  case (Cons x xs)
  then obtain y ys where "f (h x) = Some y" "R x y" "traverse f (map h xs) = Some ys" "list_all2 R xs ys" by auto
  then show ?case by auto
qed simp

lemma filter_of_parent:
  "(\<forall>x \<in> set xs. \<not> P x) \<Longrightarrow> (\<forall>y \<in> set ys. P y) \<Longrightarrow> filter P (xs @ ys) = ys"
  by simp

lemma filter_of_other:
  "(\<forall>y \<in> set ys. \<not> P y) \<Longrightarrow> filter P (xs @ ys) = filter P xs"
  by simp

text \<open>The group the engine should see: the policies and numbers of the order, its legs and
  constraints in the order of their identifiers.\<close>

definition group_written :: "combo_order \<Rightarrow> vector_order \<Rightarrow> bool" where
  "group_written c g \<longleftrightarrow> vo_parent_order_id g = co_combo_order_id c \<and> vo_user_id g = co_user_id c
     \<and> vo_atomicity_policy g = engine_policy (co_atomicity_policy c)
     \<and> vo_fallback_policy g = engine_fallback (co_fallback_policy c)
     \<and> dval (vo_min_execution_scale g) = (case co_min_execution_scale c of None \<Rightarrow> 0 | Some s \<Rightarrow> dval s)
     \<and> vo_max_ratio_deviation_bps g = (case co_max_ratio_deviation_bps c of None \<Rightarrow> 0 | Some b \<Rightarrow> b)
     \<and> list_all2 leg_written (sort_key cl_leg_id (co_legs c)) (vo_legs g)
     \<and> list_all2 constraint_written (sort_key cc_constraint_id (co_constraints c)) (vo_constraints g)"

definition loadable_names :: "combo_order \<Rightarrow> bool" where
  "loadable_names c \<longleftrightarrow>
     (\<forall>l \<in> set (co_legs c). \<forall>v \<in> set (cl_venue_preferences l). v \<noteq> [] \<and> CHR '','' \<notin> set v)
     \<and> (\<forall>k \<in> set (co_constraints c). distinct (map fst (cc_coefficients k)))"

lemma stored_combo_loads:
  assumes ins: "InsertComboOrder p c None db = Some db'" and fresh: "combo_ids_fresh c db"
    and nums: "combo_numbers c" and names: "loadable_names c"
    and basis: "co_ratio_basis c \<noteq> RatioBasis_kUnspecified"
    and active: "\<forall>l \<in> set (co_legs c). cl_status l = LegStatus_kActive"
  shows "\<exists>g. load_group db' (co_combo_order_id c, stored_combo c) = Some g \<and> group_written c g"
proof -
  note rows = InsertComboOrder_rows[OF ins fresh]
  let ?i = "co_combo_order_id c" and ?b = "RatioBasisDb (co_ratio_basis c)"
  have bq: "?b \<noteq> ''quantity''" "?b \<noteq> []" using basis by (cases "co_ratio_basis c"; simp)+
  have legs: "filter (\<lambda>(i, l). leg_is_loaded l) (legs_of ?i db') = map (stored_leg c) (co_legs c)"
  proof -
    have "legs_of ?i db' = map (stored_leg c) (co_legs c)"
      unfolding legs_of_def rows(2) using fresh
      by (intro filter_of_parent) (auto simp: combo_ids_fresh_def stored_leg_def leg_row_of_def)
    then show ?thesis using active
      by (auto simp: filter_map stored_leg_def leg_row_of_def leg_is_loaded_def o_def intro!: filter_True)
  qed
  have rb: "rows_by_key (map (stored_leg c) (co_legs c)) = map (stored_leg c) (sort_key cl_leg_id (co_legs c))"
    by (rule rows_by_key_map) (simp add: stored_leg_def)
  have "\<forall>l \<in> set (sort_key cl_leg_id (co_legs c)).
      \<exists>v. load_group_leg ?b (stored_leg c l) = Some v \<and> leg_written l v"
    using load_stored_leg nums names bq rows(4)
    by (auto simp: combo_numbers_def loadable_names_def)
  then obtain vs where vs: "traverse (load_group_leg ?b) (map (stored_leg c) (sort_key cl_leg_id (co_legs c))) = Some vs"
    "list_all2 leg_written (sort_key cl_leg_id (co_legs c)) vs"
    using load_rows[where f = "load_group_leg ?b" and h = "stored_leg c" and R = leg_written] by blast
  have cons: "filter (\<lambda>(i, k). nw_parent_order_id k = ?i) (db_constraints db')
      = map (stored_constraint c) (co_constraints c)"
    unfolding rows(3) using fresh
    by (intro filter_of_parent) (auto simp: combo_ids_fresh_def stored_constraint_def constraint_row_of_def)
  have rc: "rows_by_key (map (stored_constraint c) (co_constraints c))
      = map (stored_constraint c) (sort_key cc_constraint_id (co_constraints c))"
    by (rule rows_by_key_map) (simp add: stored_constraint_def)
  have "\<forall>k \<in> set (sort_key cc_constraint_id (co_constraints c)).
      \<exists>g. load_group_constraint (stored_constraint c k) = Some g \<and> constraint_written k g"
    using load_stored_constraint nums names by (auto simp: combo_numbers_def loadable_names_def)
  then obtain gs where gs: "traverse load_group_constraint
      (map (stored_constraint c) (sort_key cc_constraint_id (co_constraints c))) = Some gs"
    "list_all2 constraint_written (sort_key cc_constraint_id (co_constraints c)) gs"
    using load_rows[where f = load_group_constraint and h = "stored_constraint c" and R = constraint_written]
    by blast
  have "\<exists>s. NumOrZero (map_option pg_numeric (co_min_execution_scale c)) = Some s
      \<and> dval s = (case co_min_execution_scale c of None \<Rightarrow> 0 | Some s \<Rightarrow> dval s)"
  proof (cases "co_min_execution_scale c")
    case None
    then show ?thesis by (simp add: NumOrZero_def dval_def dzero_def)
  next
    case (Some a)
    then show ?thesis using read_num[of a] nums by (auto simp: combo_numbers_def)
  qed
  then obtain s where s: "NumOrZero (kr_min_execution_scale (stored_combo c)) = Some s"
    "dval s = (case co_min_execution_scale c of None \<Rightarrow> 0 | Some s \<Rightarrow> dval s)"
    by (auto simp: stored_combo_def combo_row_of_def)
  have b: "kr_ratio_basis (stored_combo c) = Some ?b"
    using bq(2) by (simp add: stored_combo_def combo_row_of_def NULLIF_empty_def)
  have "load_group db' (?i, stored_combo c) = Some
      \<lparr>vo_parent_order_id = ?i,
       vo_user_id = (case kr_user_id (stored_combo c) of None \<Rightarrow> [] | Some u \<Rightarrow> u), vo_legs = vs,
       vo_atomicity_policy = PolicyFromDb (kr_atomicity_policy (stored_combo c)),
       vo_fallback_policy = FallbackFromDb (kr_fallback_policy (stored_combo c)),
       vo_min_execution_scale = s,
       vo_max_ratio_deviation_bps =
         (case kr_max_ratio_deviation_bps (stored_combo c) of None \<Rightarrow> 0 | Some b \<Rightarrow> b),
       vo_constraints = gs\<rparr>"
    by (simp add: load_group_def s(1) b legs rb vs(1) cons rc gs(1))
  moreover have "(case kr_user_id (stored_combo c) of None \<Rightarrow> [] | Some u \<Rightarrow> u) = co_user_id c"
    "kr_atomicity_policy (stored_combo c) = AtomicityPolicyDb (co_atomicity_policy c)"
    "kr_fallback_policy (stored_combo c) = FallbackPolicyDb (co_fallback_policy c)"
    "kr_max_ratio_deviation_bps (stored_combo c) = co_max_ratio_deviation_bps c"
    by (simp_all add: stored_combo_def combo_row_of_def NULLIF_empty_def)
  ultimately show ?thesis using vs(2) gs(2) s(2) by (simp add: group_written_def)
qed

lemma other_group_loads:
  assumes "InsertComboOrder p c None db = Some db'" "combo_ids_fresh c db" "k \<noteq> co_combo_order_id c"
  shows "load_group db' (k, r) = load_group db (k, r)"
proof -
  note rows = InsertComboOrder_rows[OF assms(1,2)]
  have l: "legs_of k db' = legs_of k db" unfolding legs_of_def rows(2) using assms(3)
    by (intro filter_of_other) (auto simp: stored_leg_def leg_row_of_def)
  have k: "filter (\<lambda>(i, c). nw_parent_order_id c = k) (db_constraints db')
      = filter (\<lambda>(i, c). nw_parent_order_id c = k) (db_constraints db)"
    unfolding rows(3) using assms(3)
    by (intro filter_of_other) (auto simp: stored_constraint_def constraint_row_of_def)
  show ?thesis unfolding load_group_def prod.case l k ..
qed

text \<open>The engine's view after an insert: one more row to load.\<close>

lemma LoadActiveGroups_insert:
  assumes "InsertComboOrder p c None db = Some db'" "combo_ids_fresh c db"
    and mode: "co_execution_mode c = ExecutionMode_kMultilegVectorSolver" "co_status c = ParentOrderStatus_kActive"
  shows "load_group db' (co_combo_order_id c, stored_combo c) = None \<Longrightarrow> LoadActiveGroups db' = None"
    "load_group db' (co_combo_order_id c, stored_combo c) = Some g \<Longrightarrow> LoadActiveGroups db = Some gs \<Longrightarrow>
       \<exists>gs'. LoadActiveGroups db' = Some gs' \<and> set gs' = insert g (set gs)"
proof -
  let ?new = "(co_combo_order_id c, stored_combo c)"
  let ?act = "\<lambda>m. rows_by_key (filter (\<lambda>(k, r). combo_is_active r) m)"
  have "combo_is_active (stored_combo c)"
    using mode by (simp add: combo_is_active_def stored_combo_def combo_row_of_def)
  then have rows: "set (?act (db_combos db')) = insert ?new (set (?act (db_combos db)))"
    unfolding InsertComboOrder_rows(1)[OF assms(1,2)] by auto
  have old: "load_group db' kr = load_group db kr" if "kr \<in> set (?act (db_combos db))" for kr
  proof -
    have "fst kr \<in> fst ` set (db_combos db)" using that by auto
    then have "find (db_combos db) (fst kr) \<noteq> None" by (auto simp: find_def map_of_eq_None_iff)
    then have "fst kr \<noteq> co_combo_order_id c" using assms(2) by (auto simp: combo_ids_fresh_def)
    then show ?thesis using other_group_loads[OF assms(1,2), of "fst kr" "snd kr"] by simp
  qed
  show "LoadActiveGroups db' = None" if "load_group db' ?new = None"
    unfolding LoadActiveGroups_def traverse_None rows using that by blast
  show "\<exists>gs'. LoadActiveGroups db' = Some gs' \<and> set gs' = insert g (set gs)"
    if g: "load_group db' ?new = Some g" and gs: "LoadActiveGroups db = Some gs"
  proof -
    have s: "Some ` set gs = load_group db ` set (?act (db_combos db))"
      using gs unfolding LoadActiveGroups_def by (rule traverse_set)
    have "load_group db' ` set (?act (db_combos db)) = Some ` set gs"
      unfolding s by (rule image_cong[OF refl old])
    then have all: "load_group db' ` set (?act (db_combos db')) = Some ` insert g (set gs)"
      unfolding rows image_insert g by simp
    have "load_group db' x \<noteq> None" if "x \<in> set (?act (db_combos db'))" for x
    proof -
      have "load_group db' x \<in> load_group db' ` set (?act (db_combos db'))" using that by (rule imageI)
      then show ?thesis unfolding all by auto
    qed
    then have "\<exists>gs'. LoadActiveGroups db' = Some gs'"
      unfolding LoadActiveGroups_def by (intro traverse_total ballI)
    then obtain gs' where gs': "LoadActiveGroups db' = Some gs'" ..
    then have "Some ` set gs' = load_group db' ` set (?act (db_combos db'))"
      unfolding LoadActiveGroups_def by (rule traverse_set)
    then have "Some ` set gs' = Some ` insert g (set gs)" unfolding all .
    then have "set gs' = insert g (set gs)" by (simp only: inj_image_eq_iff[OF inj_Some])
    with gs' show ?thesis by blast
  qed
qed

section \<open>The two use cases\<close>

lemma with_ids_all:
  "(\<And>i p. P (build i p)) \<Longrightarrow> with_ids uuid id_of build n ps = (ds, m) \<Longrightarrow> \<forall>d \<in> set ds. P d"
  by (induction ps arbitrary: n ds m) (auto simp: Let_def split: prod.splits)

lemma BuildDomain_simps [simp]:
  "co_combo_order_id (BuildDomain uuid q i) = i"
  "co_execution_mode (BuildDomain uuid q i) = MapExecMode (qr_execution_mode q)"
  "co_ratio_basis (BuildDomain uuid q i) = MapRatioBasis (qr_ratio_basis q)"
  "co_atomicity_policy (BuildDomain uuid q i) = Combo_MapPolicy (qr_atomicity_policy q)"
  "co_status (BuildDomain uuid q i) = ParentOrderStatus_kActive"
  "l \<in> set (co_legs (BuildDomain uuid q i)) \<Longrightarrow> cl_status l = LegStatus_kActive"
proof -
  have leg: "cl_status (build_leg i b j x) = LegStatus_kActive" for b j x by (simp add: build_leg_def)
  show "cl_status l = LegStatus_kActive" if "l \<in> set (co_legs (BuildDomain uuid q i))"
    using that with_ids_all[where P = "\<lambda>l. cl_status l = LegStatus_kActive"
        and build = "build_leg i (MapRatioBasis (qr_ratio_basis q))", OF leg]
    by (auto simp: BuildDomain_def Let_def split: prod.splits)
qed (auto simp: BuildDomain_def Let_def split: prod.splits)

definition known_combo :: "combo_request \<Rightarrow> string umap \<Rightarrow> string option" where
  "known_combo q idem = (if qr_client_combo_id q = [] then None else find idem (qr_client_combo_id q))"

definition requested_combo :: "combo_ports \<Rightarrow> combo_request \<Rightarrow> combo_order" where
  "requested_combo p q = BuildDomain (\<lambda>n. cq_uuid p (Suc n)) q (cq_uuid p 0)"

text \<open>The first check that fails.\<close>

definition combo_refusal :: "combo_ports \<Rightarrow> combo_order \<Rightarrow> error_msg option" where
  "combo_refusal p c =
     (case Combo_validate c of Some e \<Rightarrow> Some e | None \<Rightarrow>
      case CheckCreate (cq_policy p) c of Some e \<Rightarrow> Some e | None \<Rightarrow>
      map_option (\<lambda>why. mk_error ''RISK_REJECTED''
        (if why = [] then ''grouped pre-trade risk rejected'' else why)) (cq_risk p c))"

lemma SetGuarantees_keeps [simp]:
  "cz_accepted (SetGuarantees m s t r) = cz_accepted r" "cz_combo_id (SetGuarantees m s t r) = cz_combo_id r"
  "cz_error (SetGuarantees m s t r) = cz_error r" "cz_status (SetGuarantees m s t r) = cz_status r"
  "cz_leg_order_ids (SetGuarantees m s t r) = cz_leg_order_ids r"
  by (auto simp: SetGuarantees_def)

lemma publish_combo:
  assumes "Combo_validate c = None"
  shows "(if co_execution_mode c = ExecutionMode_kOrchestrationOnly
      then PublishOrchestration c u a else Some []) =
    Some (if co_execution_mode c = ExecutionMode_kOrchestrationOnly
      then map (\<lambda>l. LegCreate (co_combo_order_id c) (leg_order c u a l)) (co_legs c) else [])"
  using assms by (simp add: PublishOrchestration_def)

lemma CreateCombo_cases:
  fixes p q
  defines "c \<equiv> requested_combo p q"
  shows "known_combo q idem = Some i \<Longrightarrow> \<exists>r. CreateCombo_Execute p q idem db = Some (r, idem, db, [])
      \<and> cz_accepted r \<and> cz_combo_id r = i \<and> cz_error r = None"
    and "known_combo q idem = None \<Longrightarrow> combo_refusal p c = Some e \<Longrightarrow>
      \<exists>r. CreateCombo_Execute p q idem db = Some (r, idem, db, [])
      \<and> \<not> cz_accepted r \<and> cz_status r = PARENT_ORDER_STATUS_REJECTED \<and> cz_error r = Some e"
    and "known_combo q idem = None \<Longrightarrow> combo_refusal p c = None \<Longrightarrow>
      InsertComboOrder (cq_pg p) c None db = None \<Longrightarrow> CreateCombo_Execute p q idem db = None"
    and "known_combo q idem = None \<Longrightarrow> combo_refusal p c = None \<Longrightarrow>
      InsertComboOrder (cq_pg p) c None db = Some db' \<Longrightarrow>
      \<exists>r. CreateCombo_Execute p q idem db = Some (r,
          if qr_client_combo_id q = [] then idem else put (qr_client_combo_id q) (cq_uuid p 0) idem, db',
          if qr_execution_mode q = EXECUTION_MODE_ORCHESTRATION_ONLY
          then map (\<lambda>l. LegCreate (cq_uuid p 0) (leg_order c (qr_user_id q) (qr_account_id q) l)) (co_legs c)
          else [])
      \<and> cz_accepted r \<and> cz_combo_id r = cq_uuid p 0 \<and> cz_error r = None"
proof -
  have mode: "co_execution_mode c = ExecutionMode_kOrchestrationOnly
      \<longleftrightarrow> qr_execution_mode q = EXECUTION_MODE_ORCHESTRATION_ONLY"
    unfolding c_def requested_combo_def by (cases "qr_execution_mode q") simp_all
  have i: "co_combo_order_id c = cq_uuid p 0" by (simp add: c_def requested_combo_def)
  note d = CreateCombo_Execute_def Let_def known_combo_def[symmetric] requested_combo_def[symmetric] c_def[symmetric]
  show "\<exists>r. CreateCombo_Execute p q idem db = Some (r, idem, db, [])
      \<and> cz_accepted r \<and> cz_combo_id r = i \<and> cz_error r = None" if "known_combo q idem = Some i"
    unfolding d that by simp
  show "\<exists>r. CreateCombo_Execute p q idem db = Some (r, idem, db, [])
      \<and> \<not> cz_accepted r \<and> cz_status r = PARENT_ORDER_STATUS_REJECTED \<and> cz_error r = Some e"
    if "known_combo q idem = None" "combo_refusal p c = Some e"
    using that(2) unfolding d that(1) combo_refusal_def by (auto simp: reject_combo_def split: option.splits)
  show "CreateCombo_Execute p q idem db = None" if "known_combo q idem = None" "combo_refusal p c = None"
    "InsertComboOrder (cq_pg p) c None db = None"
    using that(2) unfolding d that(1,3) combo_refusal_def by (auto split: option.splits)
  show "\<exists>r. CreateCombo_Execute p q idem db = Some (r,
          if qr_client_combo_id q = [] then idem else put (qr_client_combo_id q) (cq_uuid p 0) idem, db',
          if qr_execution_mode q = EXECUTION_MODE_ORCHESTRATION_ONLY
          then map (\<lambda>l. LegCreate (cq_uuid p 0) (leg_order c (qr_user_id q) (qr_account_id q) l)) (co_legs c)
          else [])
      \<and> cz_accepted r \<and> cz_combo_id r = cq_uuid p 0 \<and> cz_error r = None"
    if "known_combo q idem = None" "combo_refusal p c = None" "InsertComboOrder (cq_pg p) c None db = Some db'"
  proof -
    have r: "Combo_validate c = None" "CheckCreate (cq_policy p) c = None" "cq_risk p c = None"
      using that(2) by (auto simp: combo_refusal_def split: option.splits)
    show ?thesis
      unfolding d that(1,3) option.case r publish_combo[OF r(1)] unfolding mode i by simp
  qed
qed


lemma accepted_insert:
  assumes "CreateCombo_Execute p q idem db = Some (r, idem', db', ev)" "cz_accepted r"
    and "known_combo q idem = None"
  shows "InsertComboOrder (cq_pg p) (requested_combo p q) None db = Some db'"
    "Combo_validate (requested_combo p q) = None"
proof -
  let ?c = "requested_combo p q"
  have ok: "combo_refusal p ?c = None"
    using CreateCombo_cases(2)[OF assms(3), where p = p and db = db] assms(1,2)
    by (cases "combo_refusal p ?c") auto
  then show "Combo_validate ?c = None" by (simp add: combo_refusal_def split: option.splits)
  show "InsertComboOrder (cq_pg p) ?c None db = Some db'"
  proof (cases "InsertComboOrder (cq_pg p) ?c None db")
    case None
    then show ?thesis using CreateCombo_cases(3)[OF assms(3) ok None] assms(1) by simp
  next
    case (Some d)
    then show ?thesis using CreateCombo_cases(4)[OF assms(3) ok Some] assms(1) by auto
  qed
qed

lemma requested_vector_combo:
  assumes "qr_execution_mode q = EXECUTION_MODE_MULTILEG_VECTOR_SOLVER"
  shows "co_execution_mode (requested_combo p q) = ExecutionMode_kMultilegVectorSolver"
    "co_status (requested_combo p q) = ParentOrderStatus_kActive"
    "\<forall>l \<in> set (co_legs (requested_combo p q)). cl_status l = LegStatus_kActive"
    "co_ratio_basis (requested_combo p q) = MapRatioBasis (qr_ratio_basis q)"
  using assms by (simp_all add: requested_combo_def)


section \<open>Combos the engine cannot execute\<close>

text \<open>The engine reads the weight of every leg, since it compares the ratio basis with a name
  the order flow never writes; a leg given by its ratio has no weight and no share in the group.\<close>

lemma list_all2_right: "list_all2 R xs ys \<Longrightarrow> y \<in> set ys \<Longrightarrow> \<exists>x \<in> set xs. R x y"
  by (induction rule: list_all2_induct) auto

lemma foldl_unit_idle: "\<forall>l \<in> set ls. \<not> has_ratio l \<Longrightarrow> foldl (unit_step caps) None ls = None"
  by (induction ls) (simp_all add: unit_step_def)

lemma weightless_legs_idle:
  assumes "group_written c g" "\<forall>l \<in> set (co_legs c). cl_weight l = None"
  shows "gr_leg_execs (SolveGroup prices g) = []"
proof -
  have "\<not> has_ratio v" if "v \<in> set (vo_legs g)" for v
  proof -
    have "list_all2 leg_written (sort_key cl_leg_id (co_legs c)) (vo_legs g)"
      using assms(1) by (simp add: group_written_def)
    from list_all2_right[OF this that] obtain l where "l \<in> set (co_legs c)" "leg_written l v" by auto
    then have z: "dval (vl_target_ratio v) = 0" and w: "writable (vl_target_ratio v)"
      using assms(2) by (auto simp: leg_written_def)
    have u: "units (vl_target_ratio v) = 0" using z by (simp add: dval_def)
    have wf: "wf_dec (vl_target_ratio v)" "wf_dec (mk_dec 0 (scale (vl_target_ratio v)))" "wf_dec dzero"
      using w by (auto simp: writable_def wf_dec_def in_i64_def dzero_def)
    have "dval (mk_dec 0 (scale (vl_target_ratio v))) = 0" "dval dzero = 0" by (simp_all add: dval_def dzero_def)
    then have "abs_ratio v = vl_target_ratio v" "dcmp (vl_target_ratio v) dzero = 0"
      using dcmp_iffs[OF wf(1,2)] dcmp_iffs[OF wf(1,3)] z by (simp_all add: abs_ratio_def Let_def)
    then show ?thesis by (simp add: has_ratio_def)
  qed
  then have "foldl (unit_step caps) None (vo_legs g) = None" for caps by (simp add: foldl_unit_idle)
  then show ?thesis by (simp add: SolveGroup_def GroupedSolve_def Let_def)
qed

theorem quantity_combo_never_executes:
  assumes "CreateCombo_Execute p q idem db = Some (r, idem', db', ev)" "cz_accepted r"
    and "known_combo q idem = None" "qr_execution_mode q = EXECUTION_MODE_MULTILEG_VECTOR_SOLVER"
    and "qr_ratio_basis q = RATIO_BASIS_QUANTITY" "combo_ids_fresh (requested_combo p q) db"
    and "combo_numbers (requested_combo p q)" "loadable_names (requested_combo p q)"
    and "\<forall>l \<in> set (co_legs (requested_combo p q)). cl_ratio l \<noteq> None"
    and "LoadActiveGroups db = Some gs"
  shows "\<exists>g gs'. LoadActiveGroups db' = Some gs' \<and> set gs' = insert g (set gs)
    \<and> vo_parent_order_id g = cq_uuid p 0 \<and> (\<forall>prices. gr_leg_execs (SolveGroup prices g) = [])"
proof -
  let ?c = "requested_combo p q"
  note ins = accepted_insert[OF assms(1-3)] and v = requested_vector_combo[OF assms(4), of p]
  have b: "co_ratio_basis ?c \<noteq> RatioBasis_kUnspecified" unfolding v(4) assms(5) by simp
  from stored_combo_loads[OF ins(1) assms(6-8) b v(3)] obtain g
    where g: "load_group db' (co_combo_order_id ?c, stored_combo ?c) = Some g" "group_written ?c g" by blast
  have "\<forall>l \<in> set (co_legs ?c). Leg_validate l = None"
    using ins(2) by (auto simp: Combo_validate_def split: option.splits if_splits)
  then have "\<forall>l \<in> set (co_legs ?c). cl_weight l = None"
    using assms(9) by (auto simp: Leg_validate_def split: if_splits)
  from weightless_legs_idle[OF g(2) this] have "\<forall>prices. gr_leg_execs (SolveGroup prices g) = []" by blast
  moreover have "vo_parent_order_id g = cq_uuid p 0"
    using g(2) by (simp add: group_written_def requested_combo_def)
  ultimately show ?thesis
    using LoadActiveGroups_insert(2)[OF ins(1) assms(6) v(1,2) g(1) assms(10)] by blast
qed

text \<open>One accepted combo without a ratio basis stops the whole grouped batch: the loader throws
  on it, whatever other groups there are.\<close>

theorem combo_without_basis_stops_engine:
  assumes "CreateCombo_Execute p q idem db = Some (r, idem', db', ev)" "cz_accepted r"
    and "known_combo q idem = None" "qr_execution_mode q = EXECUTION_MODE_MULTILEG_VECTOR_SOLVER"
    and "qr_ratio_basis q = RATIO_BASIS_UNSPECIFIED" "combo_ids_fresh (requested_combo p q) db"
  shows "LoadActiveGroups db' = None"
proof -
  let ?c = "requested_combo p q"
  note ins = accepted_insert[OF assms(1-3)] and v = requested_vector_combo[OF assms(4), of p]
  have "kr_ratio_basis (stored_combo ?c) = None"
    using v(4) assms(5) by (simp add: stored_combo_def combo_row_of_def NULLIF_empty_def)
  then have "load_group db' (co_combo_order_id ?c, stored_combo ?c) = None"
    by (auto simp: load_group_def split: option.splits)
  then show ?thesis by (rule LoadActiveGroups_insert(1)[OF ins(1) assms(6) v(1,2)])
qed

section \<open>Concrete runs\<close>

definition ex_pg :: pg where
  "ex_pg = \<lparr>pg_uuid = (\<lambda>s. s \<noteq> []), pg_json = (\<lambda>s. s \<noteq> []), pg_json_field = (\<lambda>c f. None)\<rparr>"

definition ex_pb_leg :: "string \<Rightarrow> string \<Rightarrow> side \<Rightarrow> decimal option \<Rightarrow> decimal option \<Rightarrow> pb_leg" where
  "ex_pb_leg i symb sd rat wei =
     \<lparr>pl_leg_id = i, pl_instrument = \<lparr>in_symbol = symb, in_base = [], in_quote = []\<rparr>, pl_side = sd,
      pl_ratio = rat, pl_weight = wei, pl_price_low = mk_dec 95 1, pl_price_high = mk_dec 11 0,
      pl_max_rate = mk_dec 2 0, pl_max_qty = mk_dec 5 0, pl_filled_cum = dzero,
      pl_venue_preferences = [''internal'']\<rparr>"

definition ex_combo_request :: "pb_ratio_basis \<Rightarrow> pb_leg list \<Rightarrow> combo_request" where
  "ex_combo_request basis legs =
     \<lparr>qr_meta = empty_meta, qr_client_combo_id = ''c1'', qr_user_id = ''alice'', qr_account_id = ''a1'',
      qr_combo_type = COMBO_TYPE_PAIR, qr_execution_mode = EXECUTION_MODE_MULTILEG_VECTOR_SOLVER,
      qr_atomicity_policy = ATOMICITY_POLICY_SCALABLE_ATOMIC,
      qr_atomicity_scope = ATOMICITY_SCOPE_INTERNAL_BATCH, qr_fallback_policy = ''scale_down'',
      qr_ratio_basis = basis, qr_min_execution_scale = None, qr_max_ratio_deviation_bps = 0,
      qr_legs = legs, qr_constraints = [], qr_graph_links = []\<rparr>"

definition ex_weight_legs :: "pb_leg list" where
  "ex_weight_legs = [ex_pb_leg ''l2'' ''ETH/USDT'' SIDE_SELL None (Some (mk_dec 4 1)),
     ex_pb_leg ''l1'' ''BTC/USDT'' SIDE_BUY None (Some (mk_dec 6 1))]"

definition ex_combo_ports :: combo_ports where
  "ex_combo_ports = \<lparr>cq_pg = ex_pg, cq_policy = Permissive, cq_risk = (\<lambda>c. None),
     cq_uuid = (\<lambda>n. replicate (Suc n) (CHR ''u''))\<rparr>"

definition ex_combo_db :: combo_db where
  "ex_combo_db = \<lparr>db_batches = [], db_combos = [], db_legs = [], db_constraints = [], db_links = [],
     db_compensations = [], db_groups = [], db_transitions = []\<rparr>"

definition ex_request :: combo_request where
  "ex_request = ex_combo_request RATIO_BASIS_NOTIONAL_WEIGHT ex_weight_legs"

definition ex_leg :: "string \<Rightarrow> string \<Rightarrow> leg_side \<Rightarrow> decimal \<Rightarrow> combo_leg" where
  "ex_leg i symb sd wei =
     \<lparr>cl_leg_id = i, cl_parent_order_id = ''u'', cl_instrument_symbol = symb, cl_side = sd,
      cl_ratio = None, cl_weight = Some wei, cl_ratio_basis = RatioBasis_kNotionalWeight,
      cl_p_low = mk_dec 95 1, cl_p_high = mk_dec 11 0, cl_q_rate = mk_dec 2 0, cl_q_max = mk_dec 5 0,
      cl_filled_cum = dzero, cl_venue_preferences = [''internal''], cl_status = LegStatus_kActive\<rparr>"

definition ex_combo :: combo_order where
  "ex_combo =
     \<lparr>co_combo_order_id = ''u'', co_user_id = ''alice'', co_account_id = ''a1'', co_batch_order_id = None,
      co_combo_type = ComboType_kPair, co_execution_mode = ExecutionMode_kMultilegVectorSolver,
      co_atomicity_policy = AtomicityPolicy_kScalableAtomic,
      co_atomicity_scope = AtomicityScope_kInternalBatch, co_fallback_policy = FallbackPolicy_kScaleDown,
      co_ratio_basis = RatioBasis_kNotionalWeight, co_min_execution_scale = None,
      co_max_ratio_deviation_bps = None,
      co_legs = [ex_leg ''l2'' ''ETH/USDT'' Side_kSell (mk_dec 4 1), ex_leg ''l1'' ''BTC/USDT'' Side_kBuy (mk_dec 6 1)],
      co_constraints = [], co_conditional_links = [], co_status = ParentOrderStatus_kActive\<rparr>"

lemma ex_requested: "requested_combo ex_combo_ports ex_request = ex_combo"
  by (simp add: requested_combo_def BuildDomain_def Let_def ex_request_def ex_combo_request_def ex_weight_legs_def
      ex_pb_leg_def ex_combo_ports_def ex_combo_def ex_leg_def fresh_id_def build_leg_def InstrumentSymbol_def
      MapFallback_def)

lemma ex_refusal: "combo_refusal ex_combo_ports ex_combo = None"
proof -
  have "Combo_validate ex_combo = None" "CheckCreate Permissive ex_combo = None" by code_simp+
  then show ?thesis by (simp add: combo_refusal_def ex_combo_ports_def)
qed

lemma ex_fresh: "combo_ids_fresh ex_combo ex_combo_db" "combo_numbers ex_combo" "loadable_names ex_combo"
  by (simp_all add: combo_ids_fresh_def ex_combo_db_def ex_combo_def ex_leg_def combo_numbers_def leg_numbers_def
      writable_def dzero_def loadable_names_def)

lemma ex_insert: "\<exists>db'. InsertComboOrder ex_pg ex_combo None ex_combo_db = Some db'"
proof -
  have v: "Combo_validate ex_combo = None" by code_simp
  have leg: "insert_leg ex_pg ''u'' (ex_leg i symb sd wei) db \<noteq> None"
    if "i \<noteq> []" "sd \<noteq> Side_kUnspecified" for i symb sd wei db
    using that by (cases sd) (simp_all add: insert_leg_def ex_leg_def leg_row_of_def leg_row_ok_def
        pg_numeric_units ex_pg_def dzero_def)
  have "insert_combo ex_pg ex_combo ex_combo_db \<noteq> None"
    by (simp add: insert_combo_def ex_combo_def combo_row_of_def combo_row_ok_def ex_pg_def Let_def)
  then obtain d1 where d1: "insert_combo ex_pg ex_combo ex_combo_db = Some d1" by blast
  obtain d2 where d2: "insert_leg ex_pg ''u'' (ex_leg ''l2'' ''ETH/USDT'' Side_kSell (mk_dec 4 1)) d1 = Some d2"
    using leg[of "''l2''" Side_kSell] by fastforce
  obtain d3 where d3: "insert_leg ex_pg ''u'' (ex_leg ''l1'' ''BTC/USDT'' Side_kBuy (mk_dec 6 1)) d2 = Some d3"
    using leg[of "''l1''" Side_kBuy] by fastforce
  have "co_combo_order_id ex_combo = ''u''" "co_constraints ex_combo = []" "co_conditional_links ex_combo = []"
    "co_legs ex_combo = [ex_leg ''l2'' ''ETH/USDT'' Side_kSell (mk_dec 4 1), ex_leg ''l1'' ''BTC/USDT'' Side_kBuy (mk_dec 6 1)]"
    by (simp_all add: ex_combo_def)
  then show ?thesis by (simp add: InsertComboOrder_def v d1 d2 d3)
qed

lemma ex_created:
  obtains r db' where "CreateCombo_Execute ex_combo_ports ex_request [] ex_combo_db
      = Some (r, [(''c1'', ''u'')], db', [])" "cz_accepted r" "cz_combo_id r = ''u''"
proof -
  have k: "known_combo ex_request [] = None" by (simp add: known_combo_def)
  obtain db' where "InsertComboOrder (cq_pg ex_combo_ports) ex_combo None ex_combo_db = Some db'"
    using ex_insert by (auto simp: ex_combo_ports_def)
  from CreateCombo_cases(4)[OF k, of ex_combo_ports, unfolded ex_requested, OF ex_refusal this]
  show thesis using that
    by (auto simp: ex_request_def ex_combo_request_def ex_combo_ports_def put_def)
qed



end
