(* ===== verification/Matching_Combo_Loop.thy ===== *)
theory Matching_Combo_Loop
  imports Matching_Combos
begin

text \<open>
  Compensations of failed external legs (\<open>matching/src/infra/postgres_combo_compensation_repository.cpp\<close>)
  and the two steps of the matching loop for combos: the batch over the active groups and the
  report of a venue on an external leg (\<open>app/matching_loop.cpp\<close>).
\<close>

section \<open>Compensations\<close>

record combo_compensation =
  cm_parent_order_id :: string
  cm_leg_id :: string
  cm_report_id :: string
  cm_reason :: string
  cm_internal_filled_qty :: decimal

record pending_compensation =
  pq_compensation_id :: string
  pq_parent_order_id :: string
  pq_leg_id :: string
  pq_reason :: string
  pq_internal_filled_qty :: decimal
  pq_created_at_ms :: int

text \<open>The identifier and the time of a new row come from the database (\<open>i\<close> and \<open>now\<close>).\<close>

definition RecordPending ::
    "pg \<Rightarrow> string \<Rightarrow> int \<Rightarrow> combo_compensation \<Rightarrow> combo_db \<Rightarrow> (bool \<times> combo_db) option" where
  "RecordPending p i now c db =
     (if \<not> pg_uuid p (cm_parent_order_id c) \<or> \<not> pg_uuid p (cm_leg_id c) then None
      else if list_ex (\<lambda>(k, r). mw_parent_order_id r = cm_parent_order_id c \<and> mw_leg_id r = cm_leg_id c
                \<and> mw_report_id r = cm_report_id c) (db_compensations db)
      then Some (False, db)
      else if find (db_combos db) (cm_parent_order_id c) = None then None
      else Some (True, db\<lparr>db_compensations := put i
        \<lparr>mw_parent_order_id = cm_parent_order_id c, mw_leg_id = cm_leg_id c,
         mw_report_id = cm_report_id c, mw_reason = cm_reason c,
         mw_internal_filled_qty = Some (pg_numeric (cm_internal_filled_qty c)), mw_status = ''pending'',
         mw_resolution_action = None, mw_operator_id = None, mw_resolving_ref = None,
         mw_created_at_ms = now\<rparr> (db_compensations db)\<rparr>))"

definition names_internal :: "combo_leg_row \<Rightarrow> bool" where
  "names_internal r = (case gw_venue_preferences r of None \<Rightarrow> False | Some v \<Rightarrow> ''internal'' \<in> set v)"

definition SumInternalFilledQty :: "pg \<Rightarrow> string \<Rightarrow> string \<Rightarrow> combo_db \<Rightarrow> decimal option" where
  "SumInternalFilledQty p parent failed db =
     (if \<not> pg_uuid p parent \<or> \<not> pg_uuid p failed then None
      else read_numeric (sum_list (map (\<lambda>(k, r). gw_filled_cum r)
        (filter (\<lambda>(k, r). k \<noteq> failed \<and> names_internal r \<and> 0 < gw_filled_cum r) (legs_of parent db)))))"

text \<open>The outer option is the exception.\<close>

definition FindComboLegParent :: "pg \<Rightarrow> string \<Rightarrow> combo_db \<Rightarrow> string option option" where
  "FindComboLegParent p leg db =
     (if leg = [] then Some None
      else if \<not> pg_uuid p leg then None
      else Some (map_option gw_parent_order_id (find (db_legs db) leg)))"

text \<open>An \<open>UPDATE\<close> of one leg and whether it found a row.\<close>

definition update_leg :: "pg \<Rightarrow> string \<Rightarrow> (combo_leg_row \<Rightarrow> bool) \<Rightarrow> (combo_leg_row \<Rightarrow> combo_leg_row)
    \<Rightarrow> combo_db \<Rightarrow> (bool \<times> combo_db) option" where
  "update_leg p leg sel f db =
     (if \<not> pg_uuid p leg then None
      else map_option (\<lambda>db'. (list_ex (\<lambda>(k, r). k = leg \<and> sel r) (db_legs db), db'))
             (update_legs (\<lambda>k r. k = leg \<and> sel r) f db))"

definition MarkExternalLegFailed :: "pg \<Rightarrow> string \<Rightarrow> combo_db \<Rightarrow> (bool \<times> combo_db) option" where
  "MarkExternalLegFailed p leg db =
     (if leg = [] then Some (False, db)
      else update_leg p leg (\<lambda>r. gw_status r \<notin> {''cancelled'', ''filled'', ''failed_external''})
             (\<lambda>r. r\<lparr>gw_status := ''failed_external''\<rparr>) db)"

definition book_external_fill :: "int \<Rightarrow> combo_leg_row \<Rightarrow> combo_leg_row" where
  "book_external_fill q r =
     r\<lparr>gw_filled_cum := min (gw_filled_cum r + q) (gw_q_max r),
       gw_status := (if gw_q_max r \<le> min (gw_filled_cum r + q) (gw_q_max r)
                     then ''filled'' else ''partially_filled'')\<rparr>"

definition MarkExternalLegFilled :: "pg \<Rightarrow> string \<Rightarrow> decimal \<Rightarrow> combo_db \<Rightarrow> (bool \<times> combo_db) option" where
  "MarkExternalLegFilled p leg qty db =
     (if leg = [] then Some (False, db)
      else update_leg p leg (\<lambda>r. gw_status r = ''active'' \<or> gw_status r = ''partially_filled'')
             (book_external_fill (pg_numeric qty)) db)"

definition ResolvePending ::
    "pg \<Rightarrow> string \<Rightarrow> string \<Rightarrow> string \<Rightarrow> string \<Rightarrow> combo_db \<Rightarrow> (bool \<times> combo_db) option" where
  "ResolvePending p i action operator ref db =
     (if \<not> pg_uuid p i then None
      else let new_status = (if action = ''accept'' then ''cancelled'' else ''resolved'')
           in Some (list_ex (\<lambda>(k, r). k = i \<and> mw_status r = ''pending'') (db_compensations db),
                db\<lparr>db_compensations := map_rows (\<lambda>k r. if k = i \<and> mw_status r = ''pending''
                  then r\<lparr>mw_status := new_status, mw_resolution_action := Some action,
                         mw_operator_id := Some operator, mw_resolving_ref := Some ref\<rparr>
                  else r) (db_compensations db)\<rparr>))"

definition MapPendingRow :: "string \<times> compensation_row \<Rightarrow> pending_compensation option" where
  "MapPendingRow kr = (case kr of (k, r) \<Rightarrow>
     map_option (\<lambda>q. \<lparr>pq_compensation_id = k, pq_parent_order_id = mw_parent_order_id r,
       pq_leg_id = mw_leg_id r, pq_reason = mw_reason r, pq_internal_filled_qty = q,
       pq_created_at_ms = mw_created_at_ms r\<rparr>)
     (case mw_internal_filled_qty r of None \<Rightarrow> Some dzero | Some n \<Rightarrow> read_numeric n))"

definition pending_rows :: "combo_db \<Rightarrow> compensation_row umap" where
  "pending_rows db = sort_key (\<lambda>(k, r). mw_created_at_ms r)
     (filter (\<lambda>(k, r). mw_status r = ''pending'') (db_compensations db))"

definition ListPending :: "combo_db \<Rightarrow> pending_compensation list option" where
  "ListPending db = traverse MapPendingRow (pending_rows db)"

definition ListPending_of :: "pg \<Rightarrow> string \<Rightarrow> combo_db \<Rightarrow> pending_compensation list option" where
  "ListPending_of p parent db =
     (if \<not> pg_uuid p parent then None
      else traverse MapPendingRow (filter (\<lambda>(k, r). mw_parent_order_id r = parent) (pending_rows db)))"

definition GetPending :: "pg \<Rightarrow> string \<Rightarrow> combo_db \<Rightarrow> pending_compensation option option" where
  "GetPending p i db =
     (if i = [] then Some None
      else if \<not> pg_uuid p i then None
      else case filter (\<lambda>(k, r). k = i) (pending_rows db) of
             [] \<Rightarrow> Some None
           | kr # _ \<Rightarrow> map_option Some (MapPendingRow kr))"

definition CountPending :: "pg \<Rightarrow> string \<Rightarrow> combo_db \<Rightarrow> nat option" where
  "CountPending p parent db =
     (if \<not> pg_uuid p parent then None
      else Some (length (filter (\<lambda>(k, r). mw_parent_order_id r = parent) (pending_rows db))))"

section \<open>The report of a venue\<close>

text \<open>
  The engine keeps the legs with a chunk at a venue in \<open>external_in_flight_\<close>; the tables and
  this set are the state of the two steps. The repository calls are transactions of their own,
  so an exception keeps what the earlier ones did.
\<close>

record combo_engine =
  ng_db :: combo_db
  ng_in_flight :: "string list"

fun failure_reason :: "exec_status \<Rightarrow> string option" where
  "failure_reason EXEC_REJECTED = Some ''rejected''"
| "failure_reason EXEC_CANCELLED = Some ''cancelled''"
| "failure_reason EXEC_EXPIRED = Some ''expired''"
| "failure_reason _ = None"

definition leg_of_client_id :: "string \<Rightarrow> string" where
  "leg_of_client_id cid = (case split_at (CHR ''#'') cid of None \<Rightarrow> cid | Some (a, b) \<Rightarrow> a)"

definition fail_external_leg ::
    "pg \<Rightarrow> string \<Rightarrow> int \<Rightarrow> string \<Rightarrow> string \<Rightarrow> string \<Rightarrow> string \<Rightarrow> combo_db \<Rightarrow> combo_db" where
  "fail_external_leg p i now parent leg report_id reason db =
     (case MarkExternalLegFailed p leg db of
        None \<Rightarrow> db
      | Some (False, db') \<Rightarrow> db'
      | Some (True, db') \<Rightarrow>
         (case SumInternalFilledQty p parent leg db' of
            None \<Rightarrow> db'
          | Some internal \<Rightarrow>
             (if dcmp internal dzero \<le> 0 then db'
              else case RecordPending p i now \<lparr>cm_parent_order_id = parent, cm_leg_id = leg,
                       cm_report_id = report_id, cm_reason = reason,
                       cm_internal_filled_qty = internal\<rparr> db' of
                     None \<Rightarrow> db' | Some (_, db'') \<Rightarrow> db'')))"

definition on_external_execution_report ::
    "pg \<Rightarrow> string \<Rightarrow> int \<Rightarrow> exec_report \<Rightarrow> combo_engine \<Rightarrow> combo_engine" where
  "on_external_execution_report p i now r st =
     (let cid = xr_client_order_id r; leg = leg_of_client_id cid;
          is_fill = (xr_status r = EXEC_FILLED); reason = failure_reason (xr_status r)
      in if cid = [] then st
         else if \<not> is_fill \<and> reason = None then st
         else case FindComboLegParent p leg (ng_db st) of
           None \<Rightarrow> st
         | Some None \<Rightarrow> st
         | Some (Some parent) \<Rightarrow>
            (let st = st\<lparr>ng_in_flight := removeAll leg (ng_in_flight st)\<rparr>
             in if is_fill
                then (case MarkExternalLegFilled p leg (xr_filled_qty r) (ng_db st) of
                        None \<Rightarrow> st | Some (_, db) \<Rightarrow> st\<lparr>ng_db := db\<rparr>)
                else (case reason of None \<Rightarrow> st
                      | Some why \<Rightarrow> st\<lparr>ng_db :=
                          fail_external_leg p i now parent leg (xr_report_id r) why (ng_db st)\<rparr>)))"

section \<open>The batch over the active groups\<close>

text \<open>
  What a batch sends out. The ports of the loop: the database, the generator of identifiers,
  whether the Kafka client accepts an intent, and the market data client, which is asked for
  the instruments of the groups' legs and may fail.
\<close>

datatype combo_output =
    ExternalIntent exec_intent
  | GroupPublished group_output

record grouped_ports =
  gq_pg :: pg
  gq_enabled :: bool
  gq_uuid :: "nat \<Rightarrow> string"
  gq_produce :: "exec_intent \<Rightarrow> bool"
  gq_prices :: "((string \<times> string list) list \<Rightarrow> decimal umap option) option"
  gq_child_graph :: bool

definition grouped_prices :: "grouped_ports \<Rightarrow> vector_order list \<Rightarrow> decimal umap" where
  "grouped_prices q groups =
     (case gq_prices q of None \<Rightarrow> []
      | Some client \<Rightarrow> (case client (map (\<lambda>g. (vo_parent_order_id g,
            map vl_instrument_symbol (vo_legs g))) groups) of
          None \<Rightarrow> [] | Some prices \<Rightarrow> prices))"

text \<open>The loop state: used identifiers, legs in flight, intents sent.\<close>

definition route_leg :: "grouped_ports \<Rightarrow> string \<Rightarrow> string \<Rightarrow> vector_leg \<Rightarrow>
    nat \<times> string list \<times> exec_intent list \<Rightarrow> nat \<times> string list \<times> exec_intent list" where
  "route_leg q batch_id parent l st = (case st of (n, flight, sent) \<Rightarrow>
     (if vl_leg_id l \<in> set flight then (n, flight, sent)
      else let intent = BuildExternalIntent parent batch_id (gq_uuid q n) l
           in if gq_produce q intent then (n + 1, vl_leg_id l # flight, sent @ [intent])
              else (n + 1, flight, sent)))"

definition route_group :: "grouped_ports \<Rightarrow> string \<Rightarrow>
    nat \<times> string list \<times> exec_intent list \<Rightarrow> vector_order \<Rightarrow> nat \<times> string list \<times> exec_intent list" where
  "route_group q batch_id st g =
     fold (route_leg q batch_id (vo_parent_order_id g)) (snd (SplitInternalExternal g)) st"

definition internal_groups :: "vector_order list \<Rightarrow> vector_order list" where
  "internal_groups gs = List.map_filter (\<lambda>g. let legs = fst (SplitInternalExternal g)
     in if legs = [] then None else Some (g\<lparr>vo_legs := legs\<rparr>)) gs"

definition step_child_graph :: "pg \<Rightarrow> string \<Rightarrow> string \<Rightarrow> decimal umap \<Rightarrow> combo_db \<Rightarrow> combo_db" where
  "step_child_graph p group_id parent prices db =
     (case LoadComboGroupState p parent db of
        None \<Rightarrow> db
      | Some g \<Rightarrow>
         (if gs_edges g = [] then db
          else let (g', ts) = advance_graph prices g
               in if ts = [] then db
                  else case PersistChildGraphTransitions p group_id g' ts db of
                         None \<Rightarrow> db | Some db' \<Rightarrow> db'))"

definition execute_group :: "grouped_ports \<Rightarrow> string \<Rightarrow> decimal umap \<Rightarrow> vector_order list \<Rightarrow>
    nat \<times> combo_db \<times> group_output list \<Rightarrow> string \<times> grouped_result \<Rightarrow> nat \<times> combo_db \<times> group_output list" where
  "execute_group q batch_id prices groups st res = (case st of (n, db, out) \<Rightarrow>
     (case List.find (\<lambda>g. vo_parent_order_id g = fst res) (rev groups) of
        None \<Rightarrow> (n, db, out)
      | Some g \<Rightarrow>
         (if gr_leg_execs (snd res) = [] then (n, db, out)
          else let gid = gq_uuid q n;
                   eg = BuildExecutionGroup gid batch_id g (snd res) prices;
                   db = (case PersistExecutionGroup (gq_pg q) eg db of None \<Rightarrow> db | Some db' \<Rightarrow> db');
                   db = (if gq_child_graph q
                         then step_child_graph (gq_pg q) gid (fst res) prices db else db)
               in (n + 1, db, out @ [eg]))))"

definition run_grouped_batch ::
    "grouped_ports \<Rightarrow> string \<Rightarrow> combo_engine \<Rightarrow> combo_engine \<times> combo_output list" where
  "run_grouped_batch q batch_id st =
     (if \<not> gq_enabled q then (st, [])
      else case LoadActiveGroups (ng_db st) of
        None \<Rightarrow> (st, [])
      | Some groups \<Rightarrow>
         (if groups = [] then (st, [])
          else let prices = grouped_prices q groups;
                   (n, flight, sent) = foldl (route_group q batch_id) (0, ng_in_flight st, []) groups;
                   igs = internal_groups groups;
                   (n, db, out) = foldl (execute_group q batch_id prices igs) (n, ng_db st, [])
                     (SolveGroupedBatch igs prices)
               in (st\<lparr>ng_db := db, ng_in_flight := flight\<rparr>,
                   map ExternalIntent sent @ map GroupPublished out)))"

end
