(* ===== verification/Combo_Life.thy ===== *)
theory Combo_Life
  imports Combo_Intake Matching_Combo_Loop
begin

text \<open>
  The life of a combo over all steps of the two services that touch its tables: creating and
  cancelling combos, the grouped batch, the report of a venue on an external leg and the
  resolution of a compensation.
\<close>

section \<open>The steps\<close>

inductive combo_step :: "combo_engine \<Rightarrow> combo_engine \<Rightarrow> bool" where
  create: "CreateCombo_Execute p q idem (ng_db st) = Some (r, idem', db', ev) \<Longrightarrow>
    combo_step st (st\<lparr>ng_db := db'\<rparr>)"
| cancel: "CancelCombo_Execute pg x (ng_db st) = Some (s, db', ev) \<Longrightarrow> combo_step st (st\<lparr>ng_db := db'\<rparr>)"
| batch: "run_grouped_batch g batch_id st = (st', out) \<Longrightarrow> combo_step st st'"
| report: "combo_step st (on_external_execution_report pg i now rep st)"
| resolve: "ResolvePending pg i action operator ref (ng_db st) = Some (b, db') \<Longrightarrow>
    combo_step st (st\<lparr>ng_db := db'\<rparr>)"

inductive combo_run :: "combo_engine \<Rightarrow> combo_engine \<Rightarrow> bool" where
  start: "combo_run st st"
| more: "combo_run st st' \<Longrightarrow> combo_step st' st'' \<Longrightarrow> combo_run st st''"

section \<open>Idle combos\<close>

text \<open>The table has the combo, in a status the engine does not load.\<close>

definition combo_idle :: "string \<Rightarrow> combo_row umap \<Rightarrow> bool" where
  "combo_idle k m \<longleftrightarrow> k \<in> fst ` set m \<and> (\<forall>r. (k, r) \<in> set m \<longrightarrow> kr_status r \<notin> {''active'', ''partially_filled''})"

text \<open>The combo an output of the batch belongs to.\<close>

fun output_combo :: "combo_output \<Rightarrow> string" where
  "output_combo (ExternalIntent i) = drop (length ''combo_external_leg:'') (ei_reason i)"
| "output_combo (GroupPublished g) = eg_parent_order_id g"

lemma idle_put_new: "combo_idle k m \<Longrightarrow> combo_idle k (put_new i r m)"
proof -
  assume a: "combo_idle k m"
  show ?thesis
  proof (cases "find m i")
    case None
    then have "i \<notin> fst ` set m" by (simp add: find_def map_of_eq_None_iff)
    with a show ?thesis by (auto simp: put_new_fresh[OF None] combo_idle_def image_iff)
  qed (use a in \<open>simp add: put_new_def\<close>)
qed

lemma idle_map_rows:
  assumes "combo_idle k m" "\<And>r. kr_status r \<notin> {''active'', ''partially_filled''} \<Longrightarrow>
    kr_status (f k r) \<notin> {''active'', ''partially_filled''}"
  shows "combo_idle k (map_rows f m)"
  using assms by (force simp: combo_idle_def set_map_rows image_iff)

lemma idle_insert_combo:
  "insert_combo p c db = Some db' \<Longrightarrow> combo_idle k (db_combos db) \<Longrightarrow> combo_idle k (db_combos db')"
  by (auto simp: insert_combo_def Let_def idle_put_new split: option.splits if_splits)

lemma cancel_rows:
  assumes "CancelComboAndLegs p k db = Some db'"
  shows "db_combos db' = map_rows (\<lambda>i r. if i = k \<and> kr_status r \<noteq> ''filled'' \<and> kr_status r \<noteq> ''cancelled''
      then r\<lparr>kr_status := ''cancelled''\<rparr> else r) (db_combos db)"
    and "db_legs db' = map_rows (\<lambda>i r. if gw_parent_order_id r = k \<and> gw_status r \<noteq> ''filled''
      \<and> gw_status r \<noteq> ''cancelled'' then r\<lparr>gw_status := ''cancelled''\<rparr> else r) (db_legs db)"
proof -
  have "pg_uuid p k" using assms unfolding CancelComboAndLegs_def by (cases "pg_uuid p k") simp_all
  with assms have d: "db' = db\<lparr>
        db_combos := map_rows (\<lambda>i r. if i = k \<and> kr_status r \<noteq> ''filled'' \<and> kr_status r \<noteq> ''cancelled''
          then r\<lparr>kr_status := ''cancelled''\<rparr> else r) (db_combos db),
        db_legs := map_rows (\<lambda>i r. if gw_parent_order_id r = k \<and> gw_status r \<noteq> ''filled''
            \<and> gw_status r \<noteq> ''cancelled''
          then r\<lparr>gw_status := ''cancelled''\<rparr> else r) (db_legs db)\<rparr>"
    unfolding CancelComboAndLegs_def by simp
  show "db_combos db' = map_rows (\<lambda>i r. if i = k \<and> kr_status r \<noteq> ''filled'' \<and> kr_status r \<noteq> ''cancelled''
      then r\<lparr>kr_status := ''cancelled''\<rparr> else r) (db_combos db)"
    and "db_legs db' = map_rows (\<lambda>i r. if gw_parent_order_id r = k \<and> gw_status r \<noteq> ''filled''
      \<and> gw_status r \<noteq> ''cancelled'' then r\<lparr>gw_status := ''cancelled''\<rparr> else r) (db_legs db)"
    unfolding d by simp_all
qed

lemma idle_cancel:
  assumes "CancelComboAndLegs p i db = Some db'" "combo_idle k (db_combos db)"
  shows "combo_idle k (db_combos db')"
proof -
  show ?thesis unfolding cancel_rows(1)[OF assms(1)] by (rule idle_map_rows[OF assms(2)]) (simp split: if_splits)
qed

lemma InsertComboOrder_combos:
  assumes "InsertComboOrder p c None db = Some db'"
  shows "\<exists>d. insert_combo p c db = Some d \<and> db_combos db' = db_combos d"
proof -
  let ?i = "co_combo_order_id c"
  obtain d1 d2 d3 where s: "insert_combo p c db = Some d1"
      "fold_opt (insert_leg p ?i) (co_legs c) d1 = Some d2"
      "fold_opt (insert_constraint p ?i) (co_constraints c) d2 = Some d3"
      "fold_opt (insert_link p ?i) (co_conditional_links c) d3 = Some db'"
    using assms by (auto simp: InsertComboOrder_def Let_def split: if_splits option.splits)
  then show ?thesis
    using fold_opt_keeps[of "insert_leg p ?i" db_combos, OF insert_leg_row(2) s(2)]
      fold_opt_keeps[of "insert_constraint p ?i" db_combos, OF insert_constraint_row(2) s(3)]
      fold_opt_keeps[of "insert_link p ?i" db_combos, OF insert_link_keeps(1) s(4)] by auto
qed

lemma update_legs_keeps [simp]:
  assumes "update_legs sel f db = Some db'"
  shows "db_combos db' = db_combos db" "db_groups db' = db_groups db"
    "db_constraints db' = db_constraints db" "db_links db' = db_links db"
    "db_compensations db' = db_compensations db"
  using assms by (auto simp: update_legs_def split: if_splits)

lemma update_leg_keeps:
  assumes "update_leg p leg sel f db = Some (b, db')"
  shows "db_combos db' = db_combos db" "db_compensations db' = db_compensations db"
  using assms by (auto simp: update_leg_def split: if_splits)

lemma book_leg_result_keeps:
  "book_leg_result p parent lr db = Some db' \<Longrightarrow> db_combos db' = db_combos db"
  by (auto simp: book_leg_result_def split: if_splits)

lemma persist_transition_keeps:
  "persist_transition p gid g t db = Some db' \<Longrightarrow> db_combos db' = db_combos db"
  by (auto simp: persist_transition_def Let_def split: if_splits option.splits)

lemma book_all_keeps:
  "fold_opt (book_leg_result p parent) rs db = Some db' \<Longrightarrow> db_combos db' = db_combos db"
  by (rule fold_opt_keeps[where f = "book_leg_result p parent" and h = db_combos, OF book_leg_result_keeps])

lemma persist_all_keeps:
  "fold_opt (persist_transition p gid g) ts db = Some db' \<Longrightarrow> db_combos db' = db_combos db"
  by (rule fold_opt_keeps[where f = "persist_transition p gid g" and h = db_combos, OF persist_transition_keeps])

lemma PersistExecutionGroup_combos:
  assumes "PersistExecutionGroup p g db = Some db'"
  shows "db_combos db' = db_combos db \<or> (\<exists>d. db_combos db' = db_combos (restate_combo (eg_parent_order_id g) d)
    \<and> db_combos d = db_combos db)"
proof -
  have cf: "db_combos (close_filled_combo parent d) = db_combos d" for parent d
    by (simp add: close_filled_combo_def)
  show ?thesis using assms unfolding PersistExecutionGroup_def Let_def
    by (force simp: cf dest: book_all_keeps split: if_splits option.splits)
qed

lemma idle_persist:
  assumes "PersistExecutionGroup p g db = Some db'" "eg_parent_order_id g \<noteq> k" "combo_idle k (db_combos db)"
  shows "combo_idle k (db_combos db')"
  using PersistExecutionGroup_combos[OF assms(1)] assms(2,3)
  by (auto simp: restate_combo_def intro!: idle_map_rows)

lemma step_child_graph_combos: "db_combos (step_child_graph p gid parent prices db) = db_combos db"
  by (auto simp: step_child_graph_def PersistChildGraphTransitions_def split: option.splits if_splits prod.splits
      dest!: persist_all_keeps)

section \<open>What a batch works on\<close>

lemma load_group_parent: "load_group db (i, r) = Some g \<Longrightarrow> vo_parent_order_id g = i"
  by (auto simp: load_group_def split: option.splits)

lemma loaded_groups_active:
  assumes "LoadActiveGroups db = Some gs" "g \<in> set gs"
  shows "\<exists>r. (vo_parent_order_id g, r) \<in> set (db_combos db) \<and> combo_is_active r"
proof -
  have "Some ` set gs = load_group db ` set (filter (\<lambda>(k, r). combo_is_active r) (db_combos db))"
    using traverse_set[OF assms(1)[unfolded LoadActiveGroups_def]] by simp
  moreover have "Some g \<in> Some ` set gs" using assms(2) by simp
  ultimately have "Some g \<in> load_group db ` set (filter (\<lambda>(k, r). combo_is_active r) (db_combos db))" by simp
  then obtain i r where "load_group db (i, r) = Some g" "(i, r) \<in> set (db_combos db)" "combo_is_active r"
    by (auto split: prod.splits)
  then show ?thesis using load_group_parent by blast
qed

lemma loaded_not_idle:
  "LoadActiveGroups db = Some gs \<Longrightarrow> g \<in> set gs \<Longrightarrow> combo_idle k (db_combos db) \<Longrightarrow> vo_parent_order_id g \<noteq> k"
  using loaded_groups_active by (fastforce simp: combo_idle_def combo_is_active_def)

declare output_combo.simps(1) [simp del]

lemma intent_combo [simp]: "output_combo (ExternalIntent (BuildExternalIntent parent b i l)) = parent"
  by (simp add: BuildExternalIntent_def output_combo.simps(1))

lemma route_leg_sent:
  assumes "route_leg q b parent l (n, fl, sent) = (n', fl', sent')" "i \<in> set sent'"
  shows "i \<in> set sent \<or> output_combo (ExternalIntent i) = parent"
  using assms by (auto simp: route_leg_def Let_def split: if_splits)

lemma route_legs_sent:
  assumes "fold (route_leg q b parent) ls (n, fl, sent) = (n', fl', sent')" "i \<in> set sent'"
  shows "i \<in> set sent \<or> output_combo (ExternalIntent i) = parent"
  using assms
proof (induction ls arbitrary: n fl sent)
  case (Cons l ls)
  obtain m f s where st: "route_leg q b parent l (n, fl, sent) = (m, f, s)" by (metis prod_cases3)
  then show ?case using Cons.IH[of m f s] Cons.prems route_leg_sent[OF st] by auto
qed simp

lemma route_groups_sent:
  assumes "foldl (route_group q b) (n, fl, sent) gs = (n', fl', sent')" "i \<in> set sent'"
  shows "i \<in> set sent \<or> (\<exists>g \<in> set gs. output_combo (ExternalIntent i) = vo_parent_order_id g)"
  using assms
proof (induction gs arbitrary: n fl sent)
  case (Cons g gs)
  obtain m f s where st: "route_group q b (n, fl, sent) g = (m, f, s)" by (metis prod_cases3)
  then show ?case using Cons.IH[of m f s] Cons.prems
      route_legs_sent[OF st[unfolded route_group_def]] by auto
qed simp

lemma execute_group_idle:
  assumes "execute_group q b prices igs (n, db, out) res = (n', db', out')" "fst res \<noteq> k"
    and "combo_idle k (db_combos db)"
  shows "combo_idle k (db_combos db')" "eg \<in> set out' \<Longrightarrow> eg \<in> set out \<or> eg_parent_order_id eg = fst res"
proof -
  have p: "eg_parent_order_id (BuildExecutionGroup gid b g (snd res) prices) = fst res"
    if "List.find (\<lambda>g. vo_parent_order_id g = fst res) (rev igs) = Some g" for g gid
    using that by (auto simp: BuildExecutionGroup_def find_Some_iff)
  show "combo_idle k (db_combos db')"
    using assms p
    by (auto simp: execute_group_def Let_def step_child_graph_combos split: option.splits if_splits
        dest!: idle_persist[where k = k])
  show "eg \<in> set out \<or> eg_parent_order_id eg = fst res" if "eg \<in> set out'"
    using assms(1) that p by (auto simp: execute_group_def Let_def split: option.splits if_splits)
qed

lemma execute_groups_idle:
  assumes "foldl (execute_group q b prices igs) (n, db, out) rs = (n', db', out')"
    and "\<forall>res \<in> set rs. fst res \<noteq> k" "combo_idle k (db_combos db)" "\<forall>eg \<in> set out. eg_parent_order_id eg \<noteq> k"
  shows "combo_idle k (db_combos db') \<and> (\<forall>eg \<in> set out'. eg_parent_order_id eg \<noteq> k)"
  using assms
proof (induction rs arbitrary: n db out)
  case (Cons res rs)
  obtain m d s where st: "execute_group q b prices igs (n, db, out) res = (m, d, s)" by (metis prod_cases3)
  have k: "fst res \<noteq> k" using Cons.prems(2) by simp
  note x = execute_group_idle[OF st k Cons.prems(3)]
  have "\<forall>eg \<in> set s. eg_parent_order_id eg \<noteq> k" using x(2) k Cons.prems(4) by metis
  with x(1) have "combo_idle k (db_combos d)" "\<forall>eg \<in> set s. eg_parent_order_id eg \<noteq> k" by auto
  then show ?case using Cons.IH[of m d s] Cons.prems(1,2) st by simp
qed simp

lemma internal_group_of: "ig \<in> set (internal_groups gs) \<Longrightarrow> \<exists>g \<in> set gs. ig = g\<lparr>vo_legs := vo_legs ig\<rparr>
    \<and> set (vo_legs ig) \<subseteq> set (vo_legs g)"
  by (auto simp: internal_groups_def List.map_filter_def Let_def SplitInternalExternal_def split: if_splits)

lemma batch_idle:
  assumes "run_grouped_batch q b st = (st', out)" "combo_idle k (db_combos (ng_db st))"
  shows "combo_idle k (db_combos (ng_db st')) \<and> (\<forall>x \<in> set out. output_combo x \<noteq> k)"
proof (cases "gq_enabled q \<and> (\<exists>gs. LoadActiveGroups (ng_db st) = Some gs \<and> gs \<noteq> [])")
  case False
  then show ?thesis using assms by (auto simp: run_grouped_batch_def split: option.splits if_splits)
next
  case True
  then obtain gs where gs: "gq_enabled q" "LoadActiveGroups (ng_db st) = Some gs" "gs \<noteq> []" by blast
  note not_k = loaded_not_idle[OF gs(2) _ assms(2)]
  let ?prices = "grouped_prices q gs" and ?igs = "internal_groups gs"
  obtain n fl sent where r: "foldl (route_group q b) (0, ng_in_flight st, []) gs = (n, fl, sent)"
    by (metis prod_cases3)
  obtain n' db egs where e: "foldl (execute_group q b ?prices ?igs) (n, ng_db st, [])
      (SolveGroupedBatch ?igs ?prices) = (n', db, egs)" by (metis prod_cases3)
  have pp: "vo_parent_order_id ig \<noteq> k" if "ig \<in> set ?igs" for ig
  proof -
    from internal_group_of[OF that] obtain g where g: "g \<in> set gs" "ig = g\<lparr>vo_legs := vo_legs ig\<rparr>" by blast
    have "vo_parent_order_id ig = vo_parent_order_id (g\<lparr>vo_legs := vo_legs ig\<rparr>)" using g(2) by (rule arg_cong)
    then show ?thesis using not_k[OF g(1)] by simp
  qed
  have "\<forall>res \<in> set (SolveGroupedBatch ?igs ?prices). fst res \<noteq> k"
    using pp by (simp add: SolveGroupedBatch_def)
  from execute_groups_idle[OF e this assms(2)] have
    i: "combo_idle k (db_combos db)" "\<forall>eg \<in> set egs. eg_parent_order_id eg \<noteq> k" by auto
  have s: "\<forall>x \<in> set sent. output_combo (ExternalIntent x) \<noteq> k" using route_groups_sent[OF r] not_k by fastforce
  have "st' = st\<lparr>ng_db := db, ng_in_flight := fl\<rparr>" "out = map ExternalIntent sent @ map GroupPublished egs"
    using assms(1) gs by (simp_all add: run_grouped_batch_def Let_def r e)
  then show ?thesis using i s by auto
qed

lemma report_combos: "db_combos (ng_db (on_external_execution_report p i now r st)) = db_combos (ng_db st)"
proof -
  have f: "db_combos db' = db_combos db" if "MarkExternalLegFilled p leg q db = Some (b, db')" for leg q db b db'
    using that by (auto simp: MarkExternalLegFilled_def dest: update_leg_keeps split: if_splits)
  have g: "db_combos db' = db_combos db" if "MarkExternalLegFailed p leg db = Some (b, db')" for leg db b db'
    using that by (auto simp: MarkExternalLegFailed_def dest: update_leg_keeps split: if_splits)
  have h: "db_combos db' = db_combos db" if "RecordPending p i now c db = Some (b, db')" for c db b db'
    using that by (auto simp: RecordPending_def split: if_splits)
  have k: "db_combos (fail_external_leg p i now parent leg rid why db) = db_combos db" for parent leg rid why db
    by (auto simp: fail_external_leg_def split: option.splits bool.splits dest!: g h)
  show ?thesis
    by (auto simp: on_external_execution_report_def Let_def k split: option.splits dest: f)
qed

lemma step_idle: "combo_step st st' \<Longrightarrow> combo_idle k (db_combos (ng_db st)) \<Longrightarrow> combo_idle k (db_combos (ng_db st'))"
proof (induction rule: combo_step.induct)
  case (create p q idem st r idem' db' ev)
  have "db' = ng_db st \<or> InsertComboOrder (cq_pg p) (requested_combo p q) None (ng_db st) = Some db'"
    using create(1) by (auto simp: CreateCombo_Execute_def Let_def requested_combo_def split: option.splits)
  then show ?case
  proof
    assume "InsertComboOrder (cq_pg p) (requested_combo p q) None (ng_db st) = Some db'"
    from InsertComboOrder_combos[OF this] obtain d where
      d: "insert_combo (cq_pg p) (requested_combo p q) (ng_db st) = Some d" "db_combos db' = db_combos d" by blast
    show ?thesis using idle_insert_combo[OF d(1) create(2)] d(2) by simp
  qed (use create(2) in simp)
next
  case (cancel pg x st s db' ev)
  have "db' = ng_db st \<or> CancelComboAndLegs pg (xq_combo_id x) (ng_db st) = Some db'"
    using cancel(1) by (auto simp: CancelCombo_Execute_def Let_def split: option.splits if_splits)
  then show ?case
  proof
    assume "CancelComboAndLegs pg (xq_combo_id x) (ng_db st) = Some db'"
    from idle_cancel[OF this cancel(2)] show ?thesis by simp
  qed (use cancel(2) in simp)
next
  case (batch g batch_id st st' out)
  then show ?case using batch_idle by blast
next
  case (report st pg i now rep)
  then show ?case by (simp add: report_combos)
next
  case (resolve pg i action operator ref st b db')
  then show ?case by (auto simp: ResolvePending_def Let_def split: if_splits)
qed

lemma run_idle: "combo_run st st' \<Longrightarrow> combo_idle k (db_combos (ng_db st)) \<Longrightarrow> combo_idle k (db_combos (ng_db st'))"
  by (induction rule: combo_run.induct) (auto intro: step_idle)

section \<open>Closed combos\<close>

lemma terminal_not_active: "Combo_IsTerminal (ParentStatusFromDb s) \<Longrightarrow> s \<notin> {''active'', ''partially_filled''}"
  by (auto simp: Combo_IsTerminal_def ParentStatusFromDb_def)

definition open_legs :: "string \<Rightarrow> combo_db \<Rightarrow> string list" where
  "open_legs k db = map fst (filter (\<lambda>(i, r). gw_status r \<notin> {''cancelled'', ''filled''}) (legs_of k db))"

lemma map_rows_all:
  assumes "\<And>i r. Q i (f i r)"
  shows "(i, r) \<in> set (map_rows f m) \<Longrightarrow> Q i r"
  using assms by (auto simp: set_map_rows)

lemma map_rows_keys: "fst ` set (map_rows f m) = fst ` set m"
  by (force simp: set_map_rows image_iff)

lemma open_legs_cancelled:
  assumes "CancelComboAndLegs p k db = Some db'"
  shows "open_legs k db' = []"
proof -
  have "gw_parent_order_id r = k \<longrightarrow> gw_status r \<in> {''cancelled'', ''filled''}" if "(i, r) \<in> set (db_legs db')" for i r
    using that unfolding cancel_rows(2)[OF assms] by (rule map_rows_all[rotated]) auto
  then show ?thesis by (auto simp: open_legs_def legs_of_def filter_empty_conv)
qed

lemma cancel_idle:
  assumes "CancelComboAndLegs p k db = Some db'" "k \<in> fst ` set (db_combos db)"
  shows "combo_idle k (db_combos db')"
proof -
  have "i = k \<longrightarrow> kr_status r \<notin> {''active'', ''partially_filled''}" if "(i, r) \<in> set (db_combos db')" for i r
    using that unfolding cancel_rows(1)[OF assms(1)] by (rule map_rows_all[rotated]) simp
  moreover have "k \<in> fst ` set (db_combos db')"
    using assms(2) unfolding cancel_rows(1)[OF assms(1)] map_rows_keys .
  ultimately show ?thesis unfolding combo_idle_def by blast
qed

lemma successful_cancel:
  assumes "CancelCombo_Execute p x db = Some (r, db', evs)" "xs_success r" "distinct (map fst (db_combos db))"
  shows "combo_idle (xq_combo_id x) (db_combos db')"
    and "(db' = db \<and> evs = []) \<or> (open_legs (xq_combo_id x) db' = [] \<and>
      evs = map (\<lambda>l. PublishLegCancel (xq_combo_id x) l (xq_user_id x) (xq_reason x)) (open_legs (xq_combo_id x) db))"
proof -
  let ?k = "xq_combo_id x"
  from assms(1,2) obtain s where g: "GetComboStatus p ?k db = Some (Some s)"
    by (auto simp: CancelCombo_Execute_def Let_def split: if_splits option.splits)
  then obtain row where row: "find (db_combos db) ?k = Some row" "s = ParentStatusFromDb (kr_status row)"
    by (auto simp: GetComboStatus_def split: if_splits)
  have f: "(?k, row) \<in> set (db_combos db)" using row(1) by (simp add: find_def map_of_SomeD)
  have one: "row' = row" if "(?k, row') \<in> set (db_combos db)" for row'
    using assms(3) f that by (metis map_of_eq_Some_iff option.inject)
  consider "Combo_IsTerminal s" "db' = db" "evs = []"
    | legs where "GetActiveLegIds p ?k db = Some legs" "CancelComboAndLegs p ?k db = Some db'"
        "evs = map (\<lambda>l. PublishLegCancel ?k l (xq_user_id x) (xq_reason x)) legs"
    using assms(1,2) g by (auto simp: CancelCombo_Execute_def Let_def split: if_splits option.splits)
  then have "combo_idle ?k (db_combos db') \<and> ((db' = db \<and> evs = []) \<or> (open_legs ?k db' = [] \<and>
      evs = map (\<lambda>l. PublishLegCancel ?k l (xq_user_id x) (xq_reason x)) (open_legs ?k db)))"
  proof cases
    case 1
    have "kr_status row \<notin> {''active'', ''partially_filled''}"
      using 1(1) unfolding row(2) by (rule terminal_not_active)
    then have "combo_idle ?k (db_combos db)" unfolding combo_idle_def using one f by (metis fst_conv image_eqI)
    with 1 show ?thesis by simp
  next
    case 2
    have "legs = open_legs ?k db"
      using 2(1) by (simp add: GetActiveLegIds_def open_legs_def split: if_splits)
    moreover have "?k \<in> fst ` set (db_combos db)" using f by force
    ultimately show ?thesis using 2 cancel_idle[OF 2(2)] open_legs_cancelled[OF 2(2)] by simp
  qed
  then show "combo_idle ?k (db_combos db')"
    and "(db' = db \<and> evs = []) \<or> (open_legs ?k db' = [] \<and>
      evs = map (\<lambda>l. PublishLegCancel ?k l (xq_user_id x) (xq_reason x)) (open_legs ?k db))" by simp_all
qed


definition ex_open_db :: combo_db where
  "ex_open_db = ex_combo_db\<lparr>db_combos := [(''u'', stored_combo ex_combo)],
    db_legs := [stored_leg ex_combo (ex_leg ''l1'' ''BTC/USDT'' Side_kBuy (mk_dec 6 1))]\<rparr>"

definition ex_cancel :: combo_cancel_request where
  "ex_cancel = \<lparr>xq_meta = empty_meta, xq_user_id = ''alice'', xq_combo_id = ''u'', xq_reason = ''user''\<rparr>"

definition ex_grouped_ports :: grouped_ports where
  "ex_grouped_ports = \<lparr>gq_pg = ex_pg, gq_enabled = True, gq_uuid = (\<lambda>n. ''g''), gq_produce = (\<lambda>i. True),
    gq_prices = None, gq_child_graph = True\<rparr>"

lemma ex_cancelled: "\<exists>r db'. CancelCombo_Execute ex_pg ex_cancel ex_open_db
    = Some (r, db', [PublishLegCancel ''u'' ''l1'' ''alice'' ''user'']) \<and> xs_success r"
  by (simp add: CancelCombo_Execute_def Let_def ex_cancel_def GetComboStatus_def ex_open_db_def ex_combo_db_def
      ex_pg_def stored_combo_def combo_row_of_def ex_combo_def ParentStatusFromDb_def Combo_IsTerminal_def
      GetActiveLegIds_def legs_of_def CancelComboAndLegs_def stored_leg_def leg_row_of_def ex_leg_def find_def)


end
