(* ===== verification/Combo_Compensation.thy ===== *)
theory Combo_Compensation
  imports Combo_Life Order_Flow "HOL-Library.Word"
begin

text \<open>
  Resolving the compensations of failed external legs: the reversal orders
  (\<open>common/src/compensation_reversal.cpp\<close>), the use case of the operator
  (\<open>order_flow/src/app/resolve_compensation_use_case.cpp\<close>), the client and the service between
  the order flow and the matching engine, and the policy and loop that resolve without an
  operator (\<open>auto_resolve_policy.cpp\<close>, \<open>auto_resolve_loop.cpp\<close>).
\<close>

unbundle bit_operations_syntax

section \<open>Reversal orders\<close>

record reversal_leg =
  rv_instrument_symbol :: string
  rv_is_buy :: bool
  rv_filled_qty :: decimal

record reversal_order =
  ro_instrument_symbol :: string
  ro_is_buy :: bool
  ro_qty :: decimal

definition ComputeReversals :: "reversal_leg list \<Rightarrow> reversal_order list" where
  "ComputeReversals legs =
     map (\<lambda>l. \<lparr>ro_instrument_symbol = rv_instrument_symbol l, ro_is_buy = (\<not> rv_is_buy l),
               ro_qty = rv_filled_qty l\<rparr>)
       (filter (\<lambda>l. \<not> dcmp (rv_filled_qty l) dzero \<le> 0) legs)"

section \<open>Identifiers of the reversal orders\<close>

definition fnv :: "string \<Rightarrow> 64 word \<Rightarrow> 64 word" where
  "fnv s seed = fold (\<lambda>c h. (h XOR of_char c) * 1099511628211) s seed"

definition hex_digit :: "nat \<Rightarrow> char" where
  "hex_digit d = ''0123456789abcdef'' ! d"

text \<open>\<open>%0nx\<close> of a number below \<open>16 ^ n\<close>.\<close>

fun hex :: "nat \<Rightarrow> nat \<Rightarrow> string" where
  "hex 0 v = []"
| "hex (Suc n) v = hex n (v div 16) @ [hex_digit (v mod 16)]"

definition uuid_seed :: "64 word" where
  "uuid_seed = 1469598103934665603"

definition DeterministicUuid :: "string \<Rightarrow> string" where
  "DeterministicUuid key =
     (let hi = fnv key uuid_seed; lo = fnv (key @ ''#rev'') uuid_seed
      in hex 8 (unat (drop_bit 32 hi) mod 2 ^ 32) @ ''-'' @ hex 4 (unat (drop_bit 16 hi) mod 2 ^ 16) @ ''-''
         @ hex 4 (unat hi mod 2 ^ 16) @ ''-'' @ hex 4 (unat (drop_bit 48 lo) mod 2 ^ 16) @ ''-''
         @ hex 12 (unat (lo AND 0xFFFFFFFFFFFF)))"

text \<open>\<open>BASE/QUOTE\<close> at the first slash.\<close>

definition SplitSymbol :: "string \<Rightarrow> string \<times> string" where
  "SplitSymbol s = (if CHR ''/'' \<notin> set s then ([], [])
     else (takeWhile (\<lambda>c. c \<noteq> CHR ''/'') s, tl (dropWhile (\<lambda>c. c \<noteq> CHR ''/'') s)))"

section \<open>Resolving a compensation\<close>

record resolve_request =
  zq_meta :: event_meta
  zq_compensation_id :: string
  zq_action :: string
  zq_operator_id :: string

record resolve_response =
  zs_meta :: event_meta
  zs_applied :: bool
  zs_reversing_order_ids :: "string list"
  zs_error :: "error_msg option"

text \<open>
  The ports of the use case over the state \<open>'w\<close> of the services behind them: the pending
  compensation if there is one, its resolution, the legs to turn round (none: an exception) and
  the creation of an order.
\<close>

record 'w compensation_ports =
  kp_get_pending :: "string \<Rightarrow> 'w \<Rightarrow> pending_compensation option"
  kp_resolve_pending :: "string \<Rightarrow> string \<Rightarrow> string \<Rightarrow> string \<Rightarrow> 'w \<Rightarrow> (bool \<times> error_msg option) \<times> 'w"
  kp_load_legs :: "string \<Rightarrow> 'w \<Rightarrow> reversal_context option"
  kp_create_flow_order :: "create_request \<Rightarrow> 'w \<Rightarrow> create_response \<times> 'w"

definition is_resolve_action :: "string \<Rightarrow> bool" where
  "is_resolve_action a \<longleftrightarrow> a = ''reverse_internal'' \<or> a = ''retry_external'' \<or> a = ''accept''"

definition reversal_flow_order :: "resolve_request \<Rightarrow> reversal_context \<Rightarrow> reversal_leg_row \<times> reversal_order
    \<Rightarrow> create_request" where
  "reversal_flow_order req ctx lr =
     (case lr of (leg, turned) \<Rightarrow>
      let key = zq_compensation_id req @ '':'' @ vl_rev_leg_id leg;
          bq = SplitSymbol (ro_instrument_symbol turned)
      in \<lparr>cr_meta = zq_meta req, cr_order =
           \<lparr>fo_order_id = DeterministicUuid key, fo_client_order_id = key,
            fo_user_id = vc_rev_user_id ctx, fo_account_id = vc_rev_account_id ctx,
            fo_instrument = \<lparr>in_symbol = ro_instrument_symbol turned, in_base = fst bq, in_quote = snd bq\<rparr>,
            fo_side = (if ro_is_buy turned then SIDE_BUY else SIDE_SELL), fo_total_qty = ro_qty turned,
            fo_remaining_qty = dzero, fo_price_low = vl_rev_p_low leg, fo_price_high = vl_rev_p_high leg,
            fo_max_speed = vl_rev_q_rate leg, fo_status = ORDER_STATUS_UNSPECIFIED,
            fo_created_at = (0, 0), fo_updated_at = (0, 0), fo_tif = TIF_GTC, fo_tags = []\<rparr>\<rparr>)"

definition place_reversal ::
    "'w compensation_ports \<Rightarrow> create_request \<Rightarrow> string list \<times> 'w \<Rightarrow> string list \<times> 'w" where
  "place_reversal k q st = (case st of (ids, w) \<Rightarrow>
     (case kp_create_flow_order k q w of (r, w') \<Rightarrow>
        (if cs_order_id r = [] then ids else ids @ [cs_order_id r], w')))"

fun join_refs :: "string list \<Rightarrow> string" where
  "join_refs [] = []"
| "join_refs [i] = i"
| "join_refs (i # is) = i @ '','' @ join_refs is"

definition reversals_of :: "reversal_context \<Rightarrow> reversal_order list" where
  "reversals_of ctx = ComputeReversals (map (\<lambda>l. \<lparr>rv_instrument_symbol = vl_rev_instrument_symbol l,
     rv_is_buy = vl_rev_is_buy l, rv_filled_qty = vl_rev_filled_cum l\<rparr>) (vc_rev_legs ctx))"

definition finish_resolve :: "'w compensation_ports \<Rightarrow> resolve_request \<Rightarrow> resolve_response \<Rightarrow> string list
    \<Rightarrow> 'w \<Rightarrow> (resolve_response \<times> 'w) option" where
  "finish_resolve k req resp ids w =
     (case kp_resolve_pending k (zq_compensation_id req) (zq_action req) (zq_operator_id req) (join_refs ids) w of
        ((applied, err), w') \<Rightarrow>
          Some (resp\<lparr>zs_applied := applied, zs_reversing_order_ids := ids,
            zs_error := (case err of None \<Rightarrow> None | Some e \<Rightarrow> if er_code e = [] then None else Some e)\<rparr>, w'))"

definition Resolve :: "'w compensation_ports \<Rightarrow> resolve_request \<Rightarrow> 'w \<Rightarrow> (resolve_response \<times> 'w) option" where
  "Resolve k req w =
     (let resp = \<lparr>zs_meta = zq_meta req, zs_applied = False, zs_reversing_order_ids = [], zs_error = None\<rparr>
      in if \<not> is_resolve_action (zq_action req)
         then Some (resp\<lparr>zs_error := Some (mk_error ''INVALID_ACTION''
           ''action must be reverse_internal | retry_external | accept'')\<rparr>, w)
      else if zq_compensation_id req = [] \<or> zq_operator_id req = []
         then Some (resp\<lparr>zs_error := Some (mk_error ''INVALID_ARGUMENT''
           ''compensation_id and operator_id are required'')\<rparr>, w)
      else case kp_get_pending k (zq_compensation_id req) w of
        None \<Rightarrow> Some (resp, w)
      | Some pending \<Rightarrow>
        if zq_action req = ''retry_external''
        then Some (resp\<lparr>zs_error := Some (mk_error ''NOT_IMPLEMENTED''
          ''retry_external is deferred to MVP-7 (re-emit ExecutionIntent)'')\<rparr>, w)
        else if zq_action req = ''reverse_internal''
        then (case kp_load_legs k (pq_parent_order_id pending) w of
            None \<Rightarrow> None
          | Some ctx \<Rightarrow>
            if length (reversals_of ctx) \<noteq> length (vc_rev_legs ctx)
            then Some (resp\<lparr>zs_error := Some (mk_error ''INTERNAL'' ''reversal/leg count mismatch'')\<rparr>, w)
            else (case fold (place_reversal k) (map (reversal_flow_order req ctx)
                      (zip (vc_rev_legs ctx) (reversals_of ctx))) ([], w) of
                (ids, w') \<Rightarrow> finish_resolve k req resp ids w'))
        else finish_resolve k req resp [] w)"

section \<open>The client and the service\<close>

text \<open>
  A call fails before it reaches the server (\<open>failed\<close>) or with an exception of the repository,
  which changes nothing.
\<close>

definition GrpcCompensationService_ResolvePending :: "pg \<Rightarrow> string \<Rightarrow> string \<Rightarrow> string \<Rightarrow> string \<Rightarrow>
    combo_db \<Rightarrow> ((bool \<times> error_msg option) \<times> combo_db) option" where
  "GrpcCompensationService_ResolvePending p i action operator ref db =
     (if \<not> is_resolve_action action
      then Some ((False, Some \<lparr>er_code = ''INVALID_ACTION'',
        er_message = ''action must be reverse_internal | retry_external | accept'', er_details = action\<rparr>), db)
      else if i = [] \<or> operator = []
      then Some ((False, Some (mk_error ''INVALID_ARGUMENT'' ''compensation_id and operator_id are required'')), db)
      else map_option (\<lambda>(b, db'). ((b, None), db')) (ResolvePending p i action operator ref db))"

definition MatchingClient_ResolvePending :: "bool \<Rightarrow> string \<Rightarrow> pg \<Rightarrow> string \<Rightarrow> string \<Rightarrow> string \<Rightarrow> string \<Rightarrow>
    combo_db \<Rightarrow> (bool \<times> error_msg option) \<times> combo_db" where
  "MatchingClient_ResolvePending failed msg p i action operator ref db =
     (case (if failed then None else GrpcCompensationService_ResolvePending p i action operator ref db) of
        None \<Rightarrow> ((False, Some (mk_error ''GRPC_ERROR'' msg)), db)
      | Some r \<Rightarrow> r)"

definition MatchingClient_GetPending :: "bool \<Rightarrow> pg \<Rightarrow> string \<Rightarrow> combo_db \<Rightarrow> pending_compensation option" where
  "MatchingClient_GetPending failed p i db =
     (if failed then None else case GetPending p i db of None \<Rightarrow> None | Some found \<Rightarrow> found)"

definition MatchingClient_ListPending :: "bool \<Rightarrow> pg \<Rightarrow> string \<Rightarrow> combo_db \<Rightarrow> pending_compensation list" where
  "MatchingClient_ListPending failed p parent db =
     (case (if failed then None
            else if parent = [] then ListPending db else ListPending_of p parent db) of
        None \<Rightarrow> [] | Some ps \<Rightarrow> ps)"

text \<open>The services behind the ports: the combo tables, the orders and the ledger.\<close>

record 'l comp_world =
  cw_db :: combo_db
  cw_orders :: order_flow
  cw_ledger :: 'l
  cw_events :: "order_event list"

definition service_ports :: "bool \<Rightarrow> bool \<Rightarrow> pg \<Rightarrow> 'l order_ports \<Rightarrow> timestamp \<Rightarrow> 'l comp_world compensation_ports" where
  "service_ports get_fails resolve_fails p op now =
     \<lparr>kp_get_pending = (\<lambda>i w. MatchingClient_GetPending get_fails p i (cw_db w)),
      kp_resolve_pending = (\<lambda>i action operator ref w.
        case MatchingClient_ResolvePending resolve_fails ''unavailable'' p i action operator ref (cw_db w) of
          (r, db') \<Rightarrow> (r, w\<lparr>cw_db := db'\<rparr>)),
      kp_load_legs = (\<lambda>parent w. LoadInternalFilledLegs p parent (cw_db w)),
      kp_create_flow_order = (\<lambda>q w. case CreateFlowOrder op now q (cw_orders w) (cw_ledger w) of
        (r, s', l', ev) \<Rightarrow> (r, w\<lparr>cw_orders := s', cw_ledger := l', cw_events := cw_events w @ ev\<rparr>))\<rparr>"

section \<open>Resolving without an operator\<close>

record auto_config =
  ac_enabled :: bool
  ac_max_notional :: decimal
  ac_window_notional :: decimal
  ac_max_per_window :: int
  ac_min_age_ms :: int

record auto_candidate =
  ad_compensation_id :: string
  ad_reason :: string
  ad_age_ms :: int
  ad_reversal_notional :: decimal

record auto_window =
  aw_spent_notional :: decimal
  aw_count :: int

datatype auto_decision = AutoDecision_kAutoReverse | AutoDecision_kEscalate

definition IsTerminalReason :: "string \<Rightarrow> bool" where
  "IsTerminalReason r \<longleftrightarrow> r = ''rejected'' \<or> r = ''timeout'' \<or> r = ''cancelled''"

definition EvaluateAutoResolve ::
    "auto_candidate \<Rightarrow> auto_config \<Rightarrow> auto_window \<Rightarrow> auto_decision \<times> string" where
  "EvaluateAutoResolve c cfg w =
     (if \<not> ac_enabled cfg then (AutoDecision_kEscalate, ''disabled'')
      else if \<not> IsTerminalReason (ad_reason c) then (AutoDecision_kEscalate, ''non_terminal_reason'')
      else if ad_age_ms c < ac_min_age_ms cfg then (AutoDecision_kEscalate, ''too_young'')
      else if dcmp (ad_reversal_notional c) dzero \<le> 0 then (AutoDecision_kEscalate, ''nothing_to_reverse'')
      else if 0 < dcmp (ad_reversal_notional c) (ac_max_notional cfg)
      then (AutoDecision_kEscalate, ''notional_over_cap'')
      else if ac_max_per_window cfg < aw_count w + 1 then (AutoDecision_kEscalate, ''window_count_exceeded'')
      else if 0 < dcmp (dadd (aw_spent_notional w) (ad_reversal_notional c)) (ac_window_notional cfg)
      then (AutoDecision_kEscalate, ''window_notional_exceeded'')
      else (AutoDecision_kAutoReverse, ''auto_reverse''))"

definition EstimateNotional :: "reversal_context \<Rightarrow> decimal" where
  "EstimateNotional ctx =
     foldl (\<lambda>t leg. dadd t (dmul (vl_rev_filled_cum leg)
         (ddiv_nz (dadd (vl_rev_p_low leg) (vl_rev_p_high leg)) (mk_dec 2 0) 8)))
       dzero (vc_rev_legs ctx)"

text \<open>The deque of the resolutions in the window, oldest first.\<close>

definition PruneWindow :: "int \<Rightarrow> int \<Rightarrow> (int \<times> decimal) list \<Rightarrow> (int \<times> decimal) list" where
  "PruneWindow window_ms now win = dropWhile (\<lambda>e. fst e < now - window_ms) win"

definition WindowSnapshot :: "(int \<times> decimal) list \<Rightarrow> auto_window" where
  "WindowSnapshot win = \<lparr>aw_spent_notional = foldl (\<lambda>t e. dadd t (snd e)) dzero win, aw_count = int (length win)\<rparr>"

definition auto_candidate_of :: "int \<Rightarrow> pending_compensation \<Rightarrow> reversal_context \<Rightarrow> auto_candidate" where
  "auto_candidate_of now p ctx =
     \<lparr>ad_compensation_id = pq_compensation_id p, ad_reason = pq_reason p,
      ad_age_ms = (if 0 < pq_created_at_ms p then now - pq_created_at_ms p else 0),
      ad_reversal_notional = EstimateNotional ctx\<rparr>"

definition auto_request :: "pending_compensation \<Rightarrow> resolve_request" where
  "auto_request p = \<lparr>zq_meta = empty_meta, zq_compensation_id = pq_compensation_id p,
     zq_action = ''reverse_internal'', zq_operator_id = ''auto:reverse_internal''\<rparr>"

text \<open>The pass over the pending compensations; it ends early (no count) on an exception.\<close>

fun auto_pass :: "auto_config \<Rightarrow> 'w compensation_ports \<Rightarrow> int \<Rightarrow> pending_compensation list \<Rightarrow>
    int \<Rightarrow> (int \<times> decimal) list \<Rightarrow> 'w \<Rightarrow> int option \<times> (int \<times> decimal) list \<times> 'w" where
  "auto_pass cfg k now [] n win w = (Some n, win, w)"
| "auto_pass cfg k now (p # ps) n win w =
     (case kp_load_legs k (pq_parent_order_id p) w of
        None \<Rightarrow> (None, win, w)
      | Some ctx \<Rightarrow>
        let cand = auto_candidate_of now p ctx
        in if fst (EvaluateAutoResolve cand cfg (WindowSnapshot win)) \<noteq> AutoDecision_kAutoReverse
           then auto_pass cfg k now ps n win w
           else (case Resolve k (auto_request p) w of
               None \<Rightarrow> (None, win, w)
             | Some (r, w') \<Rightarrow>
               if zs_applied r
               then auto_pass cfg k now ps (n + 1) (win @ [(now, ad_reversal_notional cand)]) w'
               else auto_pass cfg k now ps n win w'))"

definition RunOnce :: "auto_config \<Rightarrow> int \<Rightarrow> 'w compensation_ports \<Rightarrow> ('w \<Rightarrow> pending_compensation list) \<Rightarrow>
    int \<Rightarrow> (int \<times> decimal) list \<Rightarrow> 'w \<Rightarrow> int option \<times> (int \<times> decimal) list \<times> 'w" where
  "RunOnce cfg window_ms k pending now win w =
     (if \<not> ac_enabled cfg then (Some 0, win, w)
      else auto_pass cfg k now (pending w) 0 (PruneWindow window_ms now win) w)"

end
