(* ===== verification/Combo_Reversal.thy ===== *)
theory Combo_Reversal
  imports Combo_Compensation
begin

text \<open>
  The laws of the resolution of compensations: the reversal orders offset the internal exposure,
  a compensation is resolved once, the resolutions without an operator stay within their budget
  in every window, and the identifiers of the reversal orders.
\<close>

section \<open>The budget of the loop\<close>

text \<open>The passes of the loop, each at its time and with the ports and the state it finds, and the
  hist of what they resolved.\<close>

fun auto_runs :: "auto_config \<Rightarrow> int \<Rightarrow>
    (int \<times> 'w compensation_ports \<times> ('w \<Rightarrow> pending_compensation list) \<times> 'w) list \<Rightarrow>
    (int \<times> decimal) list \<Rightarrow> (int \<times> decimal) list \<Rightarrow> (int \<times> decimal) list" where
  "auto_runs cfg window_ms [] win hist = hist"
| "auto_runs cfg window_ms ((now, k, pending, w) # calls) win hist =
     (let win' = fst (snd (RunOnce cfg window_ms k pending now win w));
          kept = (if ac_enabled cfg then PruneWindow window_ms now win else win)
      in auto_runs cfg window_ms calls win' (hist @ drop (length kept) win'))"

definition in_window :: "int \<Rightarrow> int \<Rightarrow> (int \<times> decimal) list \<Rightarrow> (int \<times> decimal) list" where
  "in_window window_ms t hist = filter (\<lambda>e. t - window_ms \<le> fst e \<and> fst e \<le> t) hist"

definition within_budget :: "auto_config \<Rightarrow> int \<Rightarrow> (int \<times> decimal) list \<Rightarrow> bool" where
  "within_budget cfg window_ms hist \<longleftrightarrow>
     (\<forall>e \<in> set hist. 0 < dval (snd e) \<and> dval (snd e) \<le> dval (ac_max_notional cfg))
     \<and> (\<forall>t. int (length (in_window window_ms t hist)) \<le> max 0 (ac_max_per_window cfg)
          \<and> (\<Sum>e\<leftarrow>in_window window_ms t hist. dval (snd e)) \<le> max 0 (dval (ac_window_notional cfg)))"

text \<open>The limits and the estimates are exact amounts: multiples of \<open>10 ^ - s\<close> whose sum over a
  window fits in 64 bits.\<close>

definition auto_scale :: "auto_config \<Rightarrow> nat \<Rightarrow> int \<Rightarrow> bool" where
  "auto_scale cfg s m \<longleftrightarrow> 0 \<le> m \<and> max 0 (ac_max_per_window cfg) * m \<le> max_units \<and> m \<le> max_units
     \<and> s \<le> 18 \<and> grid s max_units (ac_max_notional cfg) \<and> grid s max_units (ac_window_notional cfg)"

definition estimates_fit :: "nat \<Rightarrow> int \<Rightarrow> 'w compensation_ports \<Rightarrow> bool" where
  "estimates_fit s m k \<longleftrightarrow> (\<forall>i w ctx. kp_load_legs k i w = Some ctx \<longrightarrow> grid s m (EstimateNotional ctx))"

lemma spent_exact:
  assumes "\<forall>e \<in> set win. grid s m (snd e)" "int (length win) * m \<le> max_units" "0 \<le> m" "s \<le> 18"
  shows "dval (foldl (\<lambda>t e. dadd t (snd e)) dzero win) = (\<Sum>e\<leftarrow>win. dval (snd e))
    \<and> grid s (int (length win) * m) (foldl (\<lambda>t e. dadd t (snd e)) dzero win)"
  using assms
proof (induction win rule: rev_induct)
  case Nil
  then show ?case by (simp add: dval_def dzero_def grid_def at_scale_def)
next
  case (snoc e win)
  have b: "int (length win) * m \<le> max_units" and c: "int (length win) * m + m \<le> max_units"
    using snoc.prems(2,3) by (simp_all add: algebra_simps)
  have ih: "dval (foldl (\<lambda>t e. dadd t (snd e)) dzero win) = (\<Sum>e\<leftarrow>win. dval (snd e))"
    "grid s (int (length win) * m) (foldl (\<lambda>t e. dadd t (snd e)) dzero win)"
    using snoc.IH[OF _ b] snoc.prems by auto
  have g: "grid s m (snd e)" using snoc.prems(1) by simp
  from grid_add[OF ih(2) g c] ih(1) show ?case by (simp add: algebra_simps)
qed

lemma positive_filter_sum:
  fixes f :: "'a \<Rightarrow> rat"
  assumes "\<forall>e \<in> set xs. 0 < f e"
  shows "(\<Sum>e\<leftarrow>filter P xs. f e) \<le> (\<Sum>e\<leftarrow>xs. f e)"
  using assms by (induction xs) auto

lemma approved_within:
  assumes "fst (EvaluateAutoResolve c cfg (WindowSnapshot win)) = AutoDecision_kAutoReverse"
    and sc: "auto_scale cfg s m" and g: "grid s m (ad_reversal_notional c)" "\<forall>e \<in> set win. grid s m (snd e)"
    and len: "int (length win) \<le> max 0 (ac_max_per_window cfg)"
  shows "0 < dval (ad_reversal_notional c)" "dval (ad_reversal_notional c) \<le> dval (ac_max_notional cfg)"
    "int (length win) + 1 \<le> ac_max_per_window cfg"
    "(\<Sum>e\<leftarrow>win. dval (snd e)) + dval (ad_reversal_notional c) \<le> dval (ac_window_notional cfg)"
proof -
  let ?x = "ad_reversal_notional c" and ?w = "foldl (\<lambda>t e. dadd t (snd e)) dzero win"
  have d: "\<not> dcmp ?x dzero \<le> 0" "\<not> 0 < dcmp ?x (ac_max_notional cfg)"
    "\<not> ac_max_per_window cfg < int (length win) + 1" "\<not> 0 < dcmp (dadd ?w ?x) (ac_window_notional cfg)"
    using assms(1) by (auto simp: EvaluateAutoResolve_def WindowSnapshot_def split: if_splits)
  have s: "0 \<le> m" "m \<le> max_units" "max 0 (ac_max_per_window cfg) * m \<le> max_units" "s \<le> 18"
    "grid s max_units (ac_max_notional cfg)" "grid s max_units (ac_window_notional cfg)"
    using sc by (auto simp: auto_scale_def)
  show c: "int (length win) + 1 \<le> ac_max_per_window cfg" using d(3) by simp
  have "(int (length win) + 1) * m \<le> max 0 (ac_max_per_window cfg) * m" using c s(1) by (intro mult_right_mono) auto
  then have f: "int (length win) * m + m \<le> max_units" "int (length win) * m \<le> max_units"
    using s(1,3) by (auto simp: algebra_simps)
  note sp = spent_exact[OF g(2) f(2) s(1,4)]
  note add = grid_add[OF sp[THEN conjunct2] g(1) f(1)]
  have z: "grid s max_units dzero" using s(1,2,4) by simp
  show "0 < dval ?x" using d(1) grid_cmp[OF g(1) z s(2) order_refl] by (auto simp: dval_def dzero_def)
  show "dval ?x \<le> dval (ac_max_notional cfg)" using d(2) grid_cmp[OF g(1) s(5) s(2) order_refl] by auto
  have "dval (dadd ?w ?x) \<le> dval (ac_window_notional cfg)"
    using d(4) grid_cmp[OF add(2) s(6) f(1) order_refl] by auto
  then show "(\<Sum>e\<leftarrow>win. dval (snd e)) + dval ?x \<le> dval (ac_window_notional cfg)" using add(1) sp by simp
qed

lemma budget_snoc:
  assumes b: "within_budget cfg W hist" and past: "\<forall>e \<in> set hist. fst e \<le> now" and w: "0 \<le> W"
    and win: "win = filter (\<lambda>e. now - W \<le> fst e) hist"
    and x: "0 < dval x" "dval x \<le> dval (ac_max_notional cfg)" "int (length win) + 1 \<le> ac_max_per_window cfg"
      "(\<Sum>e\<leftarrow>win. dval (snd e)) + dval x \<le> dval (ac_window_notional cfg)"
  shows "within_budget cfg W (hist @ [(now, x)])"
proof -
  have pos: "\<forall>e \<in> set hist. 0 < dval (snd e)" using b by (auto simp: within_budget_def)
  have "int (length (in_window W t (hist @ [(now, x)]))) \<le> max 0 (ac_max_per_window cfg)
      \<and> (\<Sum>e\<leftarrow>in_window W t (hist @ [(now, x)]). dval (snd e)) \<le> max 0 (dval (ac_window_notional cfg))" for t
  proof (cases "t < now")
    case True
    then have "in_window W t (hist @ [(now, x)]) = in_window W t hist" by (simp add: in_window_def)
    with b show ?thesis by (simp add: within_budget_def)
  next
    case False
    have e: "in_window W t hist = filter (\<lambda>e. t - W \<le> fst e \<and> fst e \<le> t) win"
      unfolding in_window_def win filter_filter using False by (intro filter_cong) auto
    have wpos: "\<forall>e \<in> set win. 0 < dval (snd e)" using pos by (simp add: win)
    have "length (in_window W t hist) \<le> length win"
      "(\<Sum>e\<leftarrow>in_window W t hist. dval (snd e)) \<le> (\<Sum>e\<leftarrow>win. dval (snd e))"
      unfolding e by (rule length_filter_le, rule positive_filter_sum[OF wpos])
    moreover have "in_window W t (hist @ [(now, x)]) = in_window W t hist @ (if now < t - W then [] else [(now, x)])"
      using False by (simp add: in_window_def)
    ultimately show ?thesis using x by (auto simp: not_less)
  qed
  with b x show ?thesis by (auto simp: within_budget_def)
qed

text \<open>What a pass keeps: the history is within the budget and in the past, and the deque holds its
  entries of the last window.\<close>

definition pass_inv :: "auto_config \<Rightarrow> int \<Rightarrow> nat \<Rightarrow> int \<Rightarrow> int \<Rightarrow> (int \<times> decimal) list \<Rightarrow> (int \<times> decimal) list \<Rightarrow> bool" where
  "pass_inv cfg W s m now win hist \<longleftrightarrow> within_budget cfg W hist \<and> sorted (map fst hist)
     \<and> (\<forall>e \<in> set hist. fst e \<le> now \<and> grid s m (snd e)) \<and> win = filter (\<lambda>e. now - W \<le> fst e) hist"

lemma in_window_now: "\<forall>e \<in> set hist. fst e \<le> now \<Longrightarrow> in_window W now hist = filter (\<lambda>e. now - W \<le> fst e) hist"
  by (auto simp: in_window_def intro: filter_cong)

lemma pass_inv_snoc:
  assumes i: "pass_inv cfg W s m now win hist" and w: "0 \<le> W" and sc: "auto_scale cfg s m"
    and g: "grid s m (ad_reversal_notional c)"
    and ok: "fst (EvaluateAutoResolve c cfg (WindowSnapshot win)) = AutoDecision_kAutoReverse"
  shows "pass_inv cfg W s m now (win @ [(now, ad_reversal_notional c)]) (hist @ [(now, ad_reversal_notional c)])"
proof -
  have b: "within_budget cfg W hist" "\<forall>e \<in> set hist. fst e \<le> now" "win = filter (\<lambda>e. now - W \<le> fst e) hist"
    "\<forall>e \<in> set win. grid s m (snd e)" "sorted (map fst hist)"
    using i by (auto simp: pass_inv_def)
  have "int (length win) \<le> max 0 (ac_max_per_window cfg)"
    using b(1) in_window_now[OF b(2), of W] unfolding within_budget_def b(3) by metis
  from approved_within[OF ok sc g b(4) this] budget_snoc[OF b(1,2) w b(3)]
  have "within_budget cfg W (hist @ [(now, ad_reversal_notional c)])" by blast
  with i w g show ?thesis by (auto simp: pass_inv_def sorted_append)
qed

lemma auto_pass_inv:
  assumes "pass_inv cfg W s m now win hist" "0 \<le> W" "auto_scale cfg s m" "estimates_fit s m k"
  shows "\<exists>more. fst (snd (auto_pass cfg k now ps n win w)) = win @ more \<and> pass_inv cfg W s m now (win @ more) (hist @ more)"
  using assms(1)
proof (induction ps arbitrary: n win w hist)
  case (Cons p ps)
  note keep = Cons.IH[OF Cons.prems]
  have stop: "\<exists>more. win = win @ more \<and> pass_inv cfg W s m now (win @ more) (hist @ more)"
    using Cons.prems by (intro exI[of _ "[]"]) simp
  show ?case
  proof (cases "kp_load_legs k (pq_parent_order_id p) w")
    case None
    with stop show ?thesis by simp
  next
    case (Some ctx)
    define c where "c = auto_candidate_of now p ctx"
    have g: "grid s m (ad_reversal_notional c)"
      using Some assms(4) by (simp add: c_def auto_candidate_of_def estimates_fit_def)
    show ?thesis
    proof (cases "fst (EvaluateAutoResolve c cfg (WindowSnapshot win)) = AutoDecision_kAutoReverse")
      case False
      then show ?thesis using Some keep by (simp add: c_def)
    next
      case ok: True
      note snoc = pass_inv_snoc[OF Cons.prems assms(2,3) g ok]
      show ?thesis
      proof (cases "Resolve k (auto_request p) w")
        case None
        with Some ok stop show ?thesis by (simp add: c_def)
      next
        case r: (Some rw)
        obtain r w' where rw: "rw = (r, w')" by force
        show ?thesis
        proof (cases "zs_applied r")
          case False
          with Some ok r rw keep show ?thesis by (simp add: c_def)
        next
          case True
          from Cons.IH[OF snoc, of "n + 1" w'] obtain more where
            "fst (snd (auto_pass cfg k now ps (n + 1) (win @ [(now, ad_reversal_notional c)]) w'))
               = win @ (now, ad_reversal_notional c) # more"
            "pass_inv cfg W s m now (win @ (now, ad_reversal_notional c) # more)
               (hist @ (now, ad_reversal_notional c) # more)" by auto
          with Some ok r rw True show ?thesis by (intro exI[of _ "(now, ad_reversal_notional c) # more"]) (simp add: c_def)
        qed
      qed
    qed
  qed
qed (auto intro!: exI[of _ "[]"])

lemma sorted_prune:
  assumes "sorted (map fst hist)" "now \<le> now'" "0 \<le> W"
  shows "PruneWindow W now' (filter (\<lambda>e. now - W \<le> fst e) hist) = filter (\<lambda>e. now' - W \<le> fst e) hist"
proof -
  have "dropWhile (\<lambda>e. fst e < t) xs = filter (\<lambda>e. t \<le> fst e) xs" if "sorted (map fst xs)"
    for t :: int and xs :: "(int \<times> decimal) list"
    using that by (induction xs) (auto simp: not_less filter_id_conv dest: order_trans intro!: filter_True[symmetric])
  from this[OF sorted_filter[OF assms(1)]] show ?thesis
    unfolding PruneWindow_def filter_filter using assms(2) by (auto intro: filter_cong)
qed

fun calls_ordered :: "int \<Rightarrow> (int \<times> 'b) list \<Rightarrow> bool" where
  "calls_ordered t [] = True"
| "calls_ordered t ((now, x) # cs) = (t \<le> now \<and> calls_ordered now cs)"

lemma auto_runs_inv:
  assumes "pass_inv cfg W s m t win hist" "0 \<le> W" "auto_scale cfg s m" "ac_enabled cfg"
    and "calls_ordered t calls" "\<forall>(now, k, pending, w) \<in> set calls. estimates_fit s m k"
  shows "within_budget cfg W (auto_runs cfg W calls win hist)"
  using assms(1,5,6)
proof (induction calls arbitrary: t win hist)
  case Nil
  then show ?case by (simp add: pass_inv_def)
next
  case (Cons c cs)
  obtain now k pending w where c: "c = (now, k, pending, w)" by (metis prod_cases4)
  have t: "t \<le> now" "calls_ordered now cs" and f: "estimates_fit s m k" using Cons.prems(2,3) by (simp_all add: c)
  let ?win = "PruneWindow W now win"
  have i: "pass_inv cfg W s m now ?win hist"
    using Cons.prems(1) sorted_prune[OF _ t(1) assms(2), of hist] t(1) by (fastforce simp: pass_inv_def)
  from auto_pass_inv[OF i assms(2,3) f, of "pending w" 0 w] obtain more where
    m: "fst (snd (RunOnce cfg W k pending now win w)) = ?win @ more" "pass_inv cfg W s m now (?win @ more) (hist @ more)"
    using assms(4) by (auto simp: RunOnce_def)
  from Cons.IH[OF m(2) t(2)] Cons.prems(3) show ?case by (simp add: c m(1) assms(4))
qed


section \<open>Turning the exposure round\<close>

definition signed :: "bool \<Rightarrow> decimal \<Rightarrow> rat" where
  "signed is_buy d = (if is_buy then dval d else - dval d)"

definition reversal_requests :: "resolve_request \<Rightarrow> reversal_context \<Rightarrow> create_request list" where
  "reversal_requests req ctx = map (\<lambda>l. reversal_flow_order req ctx (l,
     \<lparr>ro_instrument_symbol = vl_rev_instrument_symbol l, ro_is_buy = (\<not> vl_rev_is_buy l),
      ro_qty = vl_rev_filled_cum l\<rparr>)) (vc_rev_legs ctx)"

lemma reversals_of_filled:
  assumes "\<forall>l \<in> set (vc_rev_legs ctx). 0 < dcmp (vl_rev_filled_cum l) dzero"
  shows "reversals_of ctx = map (\<lambda>l. \<lparr>ro_instrument_symbol = vl_rev_instrument_symbol l,
    ro_is_buy = (\<not> vl_rev_is_buy l), ro_qty = vl_rev_filled_cum l\<rparr>) (vc_rev_legs ctx)"
  using assms by (simp add: reversals_of_def ComputeReversals_def filter_map o_def filter_id_conv not_le)

lemma reversals_of_missing:
  assumes "l \<in> set (vc_rev_legs ctx)" "dcmp (vl_rev_filled_cum l) dzero \<le> 0"
  shows "length (reversals_of ctx) \<noteq> length (vc_rev_legs ctx)"
proof -
  let ?f = "\<lambda>l. \<lparr>rv_instrument_symbol = vl_rev_instrument_symbol l, rv_is_buy = vl_rev_is_buy l,
    rv_filled_qty = vl_rev_filled_cum l\<rparr>"
  have "length (filter (\<lambda>l. \<not> dcmp (rv_filled_qty l) dzero \<le> 0) (map ?f (vc_rev_legs ctx)))
      < length (map ?f (vc_rev_legs ctx))"
    using assms by (intro length_filter_less[of "?f l"]) auto
  then show ?thesis by (simp add: reversals_of_def ComputeReversals_def)
qed

lemma reversal_order_fields [simp]:
  "in_symbol (fo_instrument (cr_order (reversal_flow_order req ctx (l, r)))) = ro_instrument_symbol r"
  "fo_side (cr_order (reversal_flow_order req ctx (l, r))) = (if ro_is_buy r then SIDE_BUY else SIDE_SELL)"
  "fo_total_qty (cr_order (reversal_flow_order req ctx (l, r))) = ro_qty r"
  by (simp_all add: reversal_flow_order_def Let_def)

lemma reversal_requests_net:
  "(\<Sum>q\<leftarrow>filter (\<lambda>q. in_symbol (fo_instrument (cr_order q)) = i) (reversal_requests req ctx).
      signed (fo_side (cr_order q) = SIDE_BUY) (fo_total_qty (cr_order q)))
    = - (\<Sum>l\<leftarrow>filter (\<lambda>l. vl_rev_instrument_symbol l = i) (vc_rev_legs ctx).
      signed (vl_rev_is_buy l) (vl_rev_filled_cum l))"
proof -
  let ?q = "\<lambda>l. reversal_flow_order req ctx (l,
     \<lparr>ro_instrument_symbol = vl_rev_instrument_symbol l, ro_is_buy = (\<not> vl_rev_is_buy l),
      ro_qty = vl_rev_filled_cum l\<rparr>)"
  have "(\<Sum>q\<leftarrow>filter (\<lambda>q. in_symbol (fo_instrument (cr_order q)) = i) (map ?q ls).
      signed (fo_side (cr_order q) = SIDE_BUY) (fo_total_qty (cr_order q)))
    = - (\<Sum>l\<leftarrow>filter (\<lambda>l. vl_rev_instrument_symbol l = i) ls. signed (vl_rev_is_buy l) (vl_rev_filled_cum l))" for ls
    by (induction ls) (auto simp: signed_def)
  then show ?thesis unfolding reversal_requests_def .
qed


section \<open>A compensation is resolved once\<close>

lemma place_reversal_db:
  "fold (place_reversal (service_ports f g p op now)) qs (ids, w) = (ids', w') \<Longrightarrow> cw_db w' = cw_db w"
proof (induction qs arbitrary: ids w)
  case (Cons q qs)
  obtain r s l ev where c: "CreateFlowOrder op now q (cw_orders w) (cw_ledger w) = (r, s, l, ev)"
    by (metis prod_cases4)
  from Cons.IH Cons.prems show ?case by (auto simp: place_reversal_def service_ports_def c)
qed simp

lemma resolved_not_pending:
  assumes "ResolvePending p i action operator ref db = Some (b, db')"
  shows "filter (\<lambda>(k, r). k = i) (pending_rows db') = []" "pg_uuid p i"
proof -
  have u: "pg_uuid p i" and d: "db_compensations db' = map_rows (\<lambda>k r. if k = i \<and> mw_status r = ''pending''
                  then r\<lparr>mw_status := (if action = ''accept'' then ''cancelled'' else ''resolved''),
                         mw_resolution_action := Some action,
                         mw_operator_id := Some operator, mw_resolving_ref := Some ref\<rparr>
                  else r) (db_compensations db)"
    using assms by (auto simp: ResolvePending_def Let_def split: if_splits)
  have "k = i \<longrightarrow> mw_status r \<noteq> ''pending''" if "(k, r) \<in> set (db_compensations db')" for k r
    using that unfolding d by (rule map_rows_all[rotated]) simp
  then show "filter (\<lambda>(k, r). k = i) (pending_rows db') = []"
    by (auto simp: pending_rows_def filter_empty_conv)
  show "pg_uuid p i" by (rule u)
qed

lemma finish_settles:
  assumes "finish_resolve (service_ports f g p op now) req resp ids w = Some (r, w')" "zs_applied r"
  shows "cw_orders w' = cw_orders w" "zs_reversing_order_ids r = ids" "zs_error r = None"
    "ResolvePending p (zq_compensation_id req) (zq_action req) (zq_operator_id req) (join_refs ids) (cw_db w)
      = Some (True, cw_db w')"
  using assms
  by (auto simp: finish_resolve_def service_ports_def MatchingClient_ResolvePending_def
      GrpcCompensationService_ResolvePending_def split: if_splits option.splits prod.splits)

lemma applied_settles:
  assumes "Resolve (service_ports f g p op now) req w = Some (r, w')" "zs_applied r"
  shows "zs_error r = None" "\<exists>ref. ResolvePending p (zq_compensation_id req) (zq_action req) (zq_operator_id req)
    ref (cw_db w) = Some (True, cw_db w')"
proof -
  let ?k = "service_ports f g p op now"
  obtain resp ids v where fin: "finish_resolve ?k req resp ids v = Some (r, w')" and v: "cw_db v = cw_db w"
  proof (cases "zq_action req = ''reverse_internal''")
    case True
    then obtain ctx ids v where x: "fold (place_reversal ?k) (map (reversal_flow_order req ctx)
        (zip (vc_rev_legs ctx) (reversals_of ctx))) ([], w) = (ids, v)"
      "finish_resolve ?k req \<lparr>zs_meta = zq_meta req, zs_applied = False, zs_reversing_order_ids = [],
            zs_error = None\<rparr> ids v = Some (r, w')"
      using assms by (auto simp: Resolve_def Let_def split: if_splits option.splits prod.splits)
    show thesis by (rule that[OF x(2) place_reversal_db[OF x(1)]])
  next
    case False
    then show thesis
      using assms that[of "\<lparr>zs_meta = zq_meta req, zs_applied = False, zs_reversing_order_ids = [],
            zs_error = None\<rparr>" "[]" w]
      by (auto simp: Resolve_def Let_def split: if_splits option.splits)
  qed
  note s = finish_settles[OF fin assms(2)]
  show "zs_error r = None" "\<exists>ref. ResolvePending p (zq_compensation_id req) (zq_action req) (zq_operator_id req)
    ref (cw_db w) = Some (True, cw_db w')" using s v by auto
qed

text \<open>A compensation is settled once. When a resolution is applied, the response has no error and the
  row is no longer pending; every later request for the same compensation, whatever its action
  and operator and whatever the state of the orders and the ledger, is answered as not applied,
  creates no order and changes nothing.\<close>

theorem compensation_settles_once:
  assumes "Resolve (service_ports f g p op now) req w = Some (r, w')" "zs_applied r"
    and "zq_compensation_id again = zq_compensation_id req" "cw_db later = cw_db w'"
  shows "zs_error r = None \<and> GetPending p (zq_compensation_id req) (cw_db w') = Some None
    \<and> (\<exists>r2. Resolve (service_ports f2 g2 p op2 now2) again later = Some (r2, later)
        \<and> \<not> zs_applied r2 \<and> zs_reversing_order_ids r2 = [])"
proof -
  note a = applied_settles[OF assms(1,2)]
  then obtain ref where "ResolvePending p (zq_compensation_id req) (zq_action req) (zq_operator_id req)
    ref (cw_db w) = Some (True, cw_db w')" by blast
  from resolved_not_pending[OF this]
  have g: "GetPending p (zq_compensation_id req) (cw_db w') = Some None" by (simp add: GetPending_def)
  then have "kp_get_pending (service_ports f2 g2 p op2 now2) (zq_compensation_id again) later = None"
    by (simp add: service_ports_def MatchingClient_GetPending_def assms(3,4))
  then show ?thesis using a(1) g by (simp add: Resolve_def Let_def)
qed

section \<open>A repeated order\<close>

text \<open>When the answer of the matching engine to the resolution is lost, the orders exist and the
  compensation is still pending, so the reversal is repeated with the same identifiers. The insert
  into PostgreSQL ignores the repetition; the order in memory starts over, also when it was filled
  in the meantime, and is announced again.\<close>

theorem repeated_order_starts_over:
  assumes "CreateFlowOrder ports now req s l = (r, s', l', ev)" "cs_accepted r"
    and "find (of_orders s) (cs_order_id r) = Some old" "fo_status old = ORDER_STATUS_FILLED"
  shows "\<exists>again. find (of_orders s') (cs_order_id r) = Some again \<and> fo_status again = ORDER_STATUS_NEW
    \<and> fo_remaining_qty again = fo_total_qty again
    \<and> ev = [OrderCreated (em_correlation_id (cr_meta req)) (in_symbol (fo_instrument again)) again]"
  using assms(1,2)
  by (auto simp: CreateFlowOrder_def Let_def stored_order_def find_put split: option.splits if_splits prod.splits)

section \<open>Identifiers\<close>

lemma length_hex [simp]: "length (hex n v) = n"
  by (induction n v rule: hex.induct) simp_all

lemma hex_inject: "v < 16 ^ n \<Longrightarrow> v' < 16 ^ n \<Longrightarrow> hex n v = hex n v' \<Longrightarrow> v = v'"
proof (induction n arbitrary: v v')
  case (Suc n)
  have l: "length ''0123456789abcdef'' = 16" and di: "distinct ''0123456789abcdef''" by simp_all
  have d: "hex_digit a = hex_digit b \<Longrightarrow> a < 16 \<Longrightarrow> b < 16 \<Longrightarrow> a = b" for a b :: nat
    unfolding hex_digit_def using nth_eq_iff_index_eq[OF di, unfolded l] by blast
  have "hex n (v div 16) = hex n (v' div 16)" "hex_digit (v mod 16) = hex_digit (v' mod 16)"
    using Suc.prems(3) by simp_all
  moreover have "v div 16 < 16 ^ n" "v' div 16 < 16 ^ n" using Suc.prems(1,2) by (simp_all add: less_mult_imp_div_less mult.commute)
  ultimately have "v div 16 = v' div 16" "v mod 16 = v' mod 16" using Suc.IH d by auto
  then show ?case by (metis div_mult_mod_eq)
qed simp

lemma hex_chars: "set (hex n v) \<subseteq> set ''0123456789abcdef''"
proof (induction n v rule: hex.induct)
  case (2 n v)
  have "hex_digit (v mod 16) \<in> set ''0123456789abcdef''" unfolding hex_digit_def by (rule nth_mem) simp
  with 2 have "set (hex n (v div 16)) \<union> {hex_digit (v mod 16)} \<subseteq> set ''0123456789abcdef''" by blast
  then show ?case unfolding hex.simps set_append by (simp only: list.set)
qed simp

lemma fnv_append: "fnv (a @ b) s = fnv b (fnv a s)"
  by (simp add: fnv_def)

lemma uuid_low_half: "fnv (key @ ''#rev'') s = fnv ''#rev'' (fnv key s)"
  by (rule fnv_append)

lemma uuid_high_half:
  fixes x y :: "64 word"
  assumes "hex 8 (unat (drop_bit 32 x) mod 2 ^ 32) = hex 8 (unat (drop_bit 32 y) mod 2 ^ 32)"
    "hex 4 (unat (drop_bit 16 x) mod 2 ^ 16) = hex 4 (unat (drop_bit 16 y) mod 2 ^ 16)"
    "hex 4 (unat x mod 2 ^ 16) = hex 4 (unat y mod 2 ^ 16)"
  shows "x = y"
proof -
  have h: "unat (drop_bit 32 x) mod 2 ^ 32 = unat (drop_bit 32 y) mod 2 ^ 32"
      "unat (drop_bit 16 x) mod 2 ^ 16 = unat (drop_bit 16 y) mod 2 ^ 16" "unat x mod 2 ^ 16 = unat y mod 2 ^ 16"
    using hex_inject[OF _ _ assms(1)] hex_inject[OF _ _ assms(2)] hex_inject[OF _ _ assms(3)] by simp_all
  have d: "unat (drop_bit n w) = unat w div 2 ^ n" for n and w :: "64 word"
    unfolding unat_drop_bit_eq by (rule drop_bit_eq_div)
  have b: "unat x < 2 ^ 64" "unat y < 2 ^ 64" using unsigned_less[of x] unsigned_less[of y] by simp_all
  have s: "a = (a div 2 ^ 32 mod 2 ^ 32) * 2 ^ 32 + (a div 2 ^ 16 mod 2 ^ 16) * 2 ^ 16 + a mod 2 ^ 16"
    if "a < 2 ^ 64" for a :: nat
  proof -
    have "a div 4294967296 = a div 65536 div 65536" using div_mult2_eq[of a 65536 65536] by simp
    moreover have "a div 4294967296 mod 4294967296 = a div 4294967296" using that by simp
    ultimately have "a = a div 4294967296 mod 4294967296 * 4294967296 + a div 65536 mod 65536 * 65536 + a mod 65536"
      using div_mult_mod_eq[of a 65536] div_mult_mod_eq[of "a div 65536" 65536] by linarith
    moreover have "(2::nat) ^ 32 = 4294967296" "(2::nat) ^ 16 = 65536" by simp_all
    ultimately show ?thesis by (simp only:)
  qed
  have "unat x = unat y" using h s[OF b(1)] s[OF b(2)] unfolding d by metis
  then show ?thesis by (simp add: word_unat_eq_iff)
qed

text \<open>The identifier of a reversal order. It has the 36 characters of a UUID, hexadecimal but for
  the dashes at the positions 8, 13, 18 and 23, so the buffer of 37 bytes suffices and a retry
  finds the order by the same key; and it carries 64 bits, not 128: the second half is the hash of the first continued
  over the suffix, so two keys share their identifier exactly when they share one 64-bit hash.\<close>

theorem reversal_id_shape:
  "length (DeterministicUuid key) = 36
    \<and> (\<forall>i < 36. if i \<in> {8, 13, 18, 23} then DeterministicUuid key ! i = CHR ''-''
        else DeterministicUuid key ! i \<in> set ''0123456789abcdef'')
    \<and> (DeterministicUuid key = DeterministicUuid key' \<longleftrightarrow> fnv key uuid_seed = fnv key' uuid_seed)"
proof -
  define a where "a k = hex 8 (unat (drop_bit 32 (fnv k uuid_seed)) mod 2 ^ 32)" for k
  define b where "b k = hex 4 (unat (drop_bit 16 (fnv k uuid_seed)) mod 2 ^ 16)" for k
  define c where "c k = hex 4 (unat (fnv k uuid_seed) mod 2 ^ 16)" for k
  define d where "d k = hex 4 (unat (drop_bit 48 (fnv (k @ ''#rev'') uuid_seed)) mod 2 ^ 16)" for k
  define e where "e k = hex 12 (unat (fnv (k @ ''#rev'') uuid_seed AND 0xFFFFFFFFFFFF))" for k
  have u: "DeterministicUuid k = a k @ ''-'' @ b k @ ''-'' @ c k @ ''-'' @ d k @ ''-'' @ e k" for k
    by (simp add: DeterministicUuid_def Let_def a_def b_def c_def d_def e_def)
  have len: "length (a k) = 8" "length (b k) = 4" "length (c k) = 4" "length (d k) = 4" "length (e k) = 12" for k
    by (simp_all add: a_def b_def c_def d_def e_def)
  let ?H = "set ''0123456789abcdef''"
  have ch: "set (a k) \<subseteq> ?H" "set (b k) \<subseteq> ?H" "set (c k) \<subseteq> ?H" "set (d k) \<subseteq> ?H" "set (e k) \<subseteq> ?H" for k
    unfolding a_def b_def c_def d_def e_def by (rule hex_chars)+
  have at: "xs ! i \<in> ?H" if "set xs \<subseteq> ?H" "i < length xs" for xs i using that nth_mem by blast
  have pos: "if i \<in> {8, 13, 18, 23} then DeterministicUuid key ! i = CHR ''-''
        else DeterministicUuid key ! i \<in> ?H" if i: "i < 36" for i
  proof -
    consider "i < 8" | "i = 8" | "8 < i" "i < 13" | "i = 13" | "13 < i" "i < 18" | "i = 18" | "18 < i" "i < 23"
      | "i = 23" | "23 < i" using i by linarith
    then show ?thesis
      by cases (use i at[OF ch(1), of i] at[OF ch(2), of "i - 9"] at[OF ch(3), of "i - 14"] at[OF ch(4), of "i - 19"]
        at[OF ch(5), of "i - 24"] in \<open>simp_all add: u nth_append nth_Cons' len less_diff_conv2 del: set_simps list.set\<close>)
  qed
  have eq: "fnv key uuid_seed = fnv key' uuid_seed" if "DeterministicUuid key = DeterministicUuid key'"
  proof -
    have "a key = a key'" "b key = b key'" "c key = c key'"
      using that unfolding u by (simp_all add: len)
    then show ?thesis unfolding a_def b_def c_def by (rule uuid_high_half)
  qed
  have "DeterministicUuid key = DeterministicUuid key'" if "fnv key uuid_seed = fnv key' uuid_seed"
    using that by (simp add: DeterministicUuid_def uuid_low_half)
  moreover have "length (DeterministicUuid key) = 36" by (simp add: u len)
  ultimately show ?thesis using pos eq by blast
qed

section \<open>Examples\<close>

definition ex_rev_leg :: reversal_leg_row where
  "ex_rev_leg = \<lparr>vl_rev_leg_id = ''l1'', vl_rev_instrument_symbol = ''BTC/USDT'', vl_rev_is_buy = True,
    vl_rev_p_low = mk_dec 9 0, vl_rev_p_high = mk_dec 11 0, vl_rev_q_rate = mk_dec 1 0,
    vl_rev_filled_cum = mk_dec 3 0\<rparr>"

definition ex_rev_ctx :: reversal_context where
  "ex_rev_ctx = \<lparr>vc_rev_user_id = ''alice'', vc_rev_account_id = ''a1'', vc_rev_legs = [ex_rev_leg]\<rparr>"

definition ex_pending :: pending_compensation where
  "ex_pending = \<lparr>pq_compensation_id = ''k1'', pq_parent_order_id = ''u'', pq_leg_id = ''l2'',
    pq_reason = ''rejected'', pq_internal_filled_qty = mk_dec 3 0, pq_created_at_ms = 0\<rparr>"

text \<open>A world of the requests made.\<close>

definition ex_comp_ports :: "create_request list compensation_ports" where
  "ex_comp_ports = \<lparr>kp_get_pending = (\<lambda>i w. Some ex_pending),
    kp_resolve_pending = (\<lambda>i action operator ref w. ((True, None), w)),
    kp_load_legs = (\<lambda>i w. Some ex_rev_ctx),
    kp_create_flow_order = (\<lambda>q w. (\<lparr>cs_meta = cr_meta q, cs_accepted = True,
      cs_order_id = fo_order_id (cr_order q), cs_error = None\<rparr>, w @ [q]))\<rparr>"

lemma ex_resolved: "\<exists>r w. Resolve ex_comp_ports (auto_request ex_pending) [] = Some (r, w) \<and> zs_applied r"
proof -
  have "0 < dcmp (mk_dec 3 0) dzero" by code_simp
  then show ?thesis
    by (simp add: Resolve_def Let_def auto_request_def ex_pending_def ex_comp_ports_def is_resolve_action_def
        reversals_of_def ComputeReversals_def ex_rev_ctx_def ex_rev_leg_def finish_resolve_def place_reversal_def)
qed


lemma ex_estimate: "EstimateNotional ex_rev_ctx = mk_dec 3000000000 8"
proof -
  have "ddiv_nz (dadd (mk_dec 9 0) (mk_dec 11 0)) (mk_dec 2 0) 8 = mk_dec 1000000000 8"
    "dadd dzero (dmul (mk_dec 3 0) (mk_dec 1000000000 8)) = mk_dec 3000000000 8" by code_simp+
  then show ?thesis by (simp add: EstimateNotional_def ex_rev_ctx_def ex_rev_leg_def)
qed

definition ex_auto_config :: auto_config where
  "ex_auto_config = \<lparr>ac_enabled = True, ac_max_notional = mk_dec 50 0, ac_window_notional = mk_dec 50 0,
    ac_max_per_window = 2, ac_min_age_ms = 0\<rparr>"


definition ex_comp_db :: combo_db where
  "ex_comp_db = ex_combo_db\<lparr>db_compensations := [(''k1'', \<lparr>mw_parent_order_id = ''u'', mw_leg_id = ''l2'',
    mw_report_id = ''r1'', mw_reason = ''rejected'', mw_internal_filled_qty = None, mw_status = ''pending'',
    mw_resolution_action = None, mw_operator_id = None, mw_resolving_ref = None, mw_created_at_ms = 0\<rparr>)]\<rparr>"

definition ex_no_ports :: "unit order_ports" where
  "ex_no_ports = \<lparr>op_risk = (\<lambda>q. \<lparr>ps_meta = empty_meta, ps_decision = RISK_DECISION_ACCEPT, ps_error = None,
      ps_resized_order = None, ps_required_initial_margin = None\<rparr>),
    op_reserve = (\<lambda>q l. (\<lparr>rp_meta = empty_meta, rp_success = True, rp_error = None, rp_reserved_amount = None\<rparr>, l)),
    op_release = (\<lambda>q l. l), op_insert = None\<rparr>"

definition ex_accept :: resolve_request where
  "ex_accept = \<lparr>zq_meta = empty_meta, zq_compensation_id = ''k1'', zq_action = ''accept'', zq_operator_id = ''op''\<rparr>"

theorem compensation_settles_once_witness:
  "\<exists>r w' r2. Resolve (service_ports False False ex_pg ex_no_ports (0, 0)) ex_accept
      \<lparr>cw_db = ex_comp_db, cw_orders = \<lparr>of_orders = [], of_applied_fills = []\<rparr>, cw_ledger = (), cw_events = []\<rparr>
      = Some (r, w') \<and> zs_applied r
    \<and> Resolve (service_ports False False ex_pg ex_no_ports (0, 0)) (auto_request ex_pending) w' = Some (r2, w')
    \<and> \<not> zs_applied r2"
proof -
  let ?w = "\<lparr>cw_db = ex_comp_db, cw_orders = \<lparr>of_orders = [], of_applied_fills = []\<rparr>, cw_ledger = (), cw_events = []\<rparr>"
  have "\<exists>r w'. Resolve (service_ports False False ex_pg ex_no_ports (0, 0)) ex_accept ?w = Some (r, w') \<and> zs_applied r"
    by (simp add: Resolve_def Let_def ex_accept_def is_resolve_action_def service_ports_def
        MatchingClient_GetPending_def GetPending_def ex_pg_def pending_rows_def ex_comp_db_def MapPendingRow_def
        finish_resolve_def MatchingClient_ResolvePending_def GrpcCompensationService_ResolvePending_def
        ResolvePending_def)
  then obtain r w' where r: "Resolve (service_ports False False ex_pg ex_no_ports (0, 0)) ex_accept ?w = Some (r, w')"
    "zs_applied r" by blast
  have "zq_compensation_id (auto_request ex_pending) = zq_compensation_id ex_accept"
    by (simp add: auto_request_def ex_pending_def ex_accept_def)
  from compensation_settles_once[OF r this refl, of False False ex_no_ports "(0, 0)"] r show ?thesis by blast
qed

end
