(* ===== verification/Venue_Health.thy ===== *)
theory Venue_Health
  imports Risk
begin

text \<open>
  The health of the venues: the raw reports of the connectors
  (\<open>venues/src/infra/venue_observability_producer.cpp\<close>), the circuit breaker and the score of the
  venue health service (\<open>venue_health/src\<close>) and the alerts of the observability service
  (\<open>observability/src/app/service.cpp\<close>). Scores are doubles, rational here with the rounding of
  \<open>fp\<close>; times are nanoseconds, durations milliseconds. Every reading of the clock is an argument.
\<close>

section \<open>Messages\<close>

datatype health_event_type =
    VENUE_HEALTH_EVENT_TYPE_UNSPECIFIED | VENUE_HEALTH_EVENT_TYPE_RAW | VENUE_HEALTH_EVENT_TYPE_AGGREGATED

record health_event =
  he_venue :: string
  he_timestamp :: int
  he_event_type :: health_event_type
  he_breaker_state :: breaker
  he_status :: venue_status
  he_health_score :: rat
  he_latency_ms :: int
  he_stale_ms :: int
  he_error_rate :: rat
  he_error_count :: int
  he_snapshots_per_sec :: rat
  he_last_snapshot_age :: rat
  he_routing_recommendation :: routing
  he_reason :: string

section \<open>Raw reports\<close>

datatype connection_status = kConnected | kEmpty | kStale | kDisconnected

record heartbeat =
  hb_venue_id :: string
  hb_status :: connection_status
  hb_timestamp :: int
  hb_consecutive_errors :: nat
  hb_connect_attempts :: nat
  hb_reconnect_calls :: nat
  hb_circuit_breaker_state :: string
  hb_circuit_breaker_reason :: string
  hb_circuit_breaker_error_count :: int

definition to_breaker_state :: "string \<Rightarrow> breaker" where
  "to_breaker_state s =
     (if s = ''CLOSED'' then BREAKER_CLOSED else if s = ''OPEN'' then BREAKER_OPEN
      else if s = ''HALF_OPEN'' then BREAKER_HALF_OPEN else BREAKER_UNSPECIFIED)"

fun to_health_status :: "connection_status \<Rightarrow> venue_status" where
  "to_health_status kConnected = VENUE_HEALTH_STATUS_OK"
| "to_health_status kStale = VENUE_HEALTH_STATUS_STALE"
| "to_health_status kDisconnected = VENUE_HEALTH_STATUS_DISCONNECTED"
| "to_health_status kEmpty = VENUE_HEALTH_STATUS_DEGRADED"

definition clamp01 :: "rat \<Rightarrow> rat" where
  "clamp01 x = (if x < 0 then 0 else if 1 < x then 1 else x)"

fun status_penalty :: "fp \<Rightarrow> connection_status \<Rightarrow> rat" where
  "status_penalty fl kConnected = 0"
| "status_penalty fl kEmpty = fp_round fl (20 / 100)"
| "status_penalty fl kStale = fp_round fl (25 / 100)"
| "status_penalty fl kDisconnected = fp_round fl (50 / 100)"

fun breaker_penalty :: "fp \<Rightarrow> breaker \<Rightarrow> rat" where
  "breaker_penalty fl BREAKER_OPEN = fp_round fl (50 / 100)"
| "breaker_penalty fl BREAKER_HALF_OPEN = fp_round fl (25 / 100)"
| "breaker_penalty fl BREAKER_CLOSED = 0"
| "breaker_penalty fl BREAKER_UNSPECIFIED = 0"

definition raw_routing :: "heartbeat \<Rightarrow> breaker \<Rightarrow> routing" where
  "raw_routing h b =
     (if b = BREAKER_OPEN \<or> hb_status h = kDisconnected then ROUTING_BLOCK
      else if b = BREAKER_HALF_OPEN \<or> hb_status h = kStale then ROUTING_AVOID
      else if 0 < hb_consecutive_errors h \<or> hb_status h = kEmpty then ROUTING_CAUTION
      else ROUTING_ALLOW)"

definition override_routing :: "string \<Rightarrow> routing \<Rightarrow> routing" where
  "override_routing mode r =
     (if mode = ''disable'' then ROUTING_BLOCK
      else if mode = ''watch'' \<and> r = ROUTING_ALLOW then ROUTING_CAUTION
      else r)"

definition health_reason :: "heartbeat \<Rightarrow> string \<Rightarrow> string \<Rightarrow> string" where
  "health_reason h reason mode =
     (let r = (if hb_circuit_breaker_reason h = [] then reason else hb_circuit_breaker_reason h)
      in if mode = [] then r
         else if r = [] then ''routing_mode='' @ mode
         else r @ '';routing_mode='' @ mode)"

text \<open>The fields the producer does not set are the defaults of the message.\<close>

definition PublishStatus :: "fp \<Rightarrow> heartbeat \<Rightarrow> string \<Rightarrow> string \<Rightarrow> health_event" where
  "PublishStatus fl h reason mode =
     (let b = to_breaker_state (hb_circuit_breaker_state h);
          attempts = fp_round fl (of_nat (hb_connect_attempts h + hb_reconnect_calls h));
          rate = (if 0 < attempts then fp_round fl (fp_round fl (of_nat (hb_consecutive_errors h)) / attempts)
                  else if 0 < hb_consecutive_errors h then 1 else 0);
          rate = clamp01 rate;
          score = fp_round fl (fp_round fl (fp_round fl (1 - status_penalty fl (hb_status h))
                    - breaker_penalty fl b) - min (fp_round fl (25 / 100)) rate)
      in \<lparr>he_venue = hb_venue_id h, he_timestamp = hb_timestamp h,
          he_event_type = VENUE_HEALTH_EVENT_TYPE_RAW, he_breaker_state = b,
          he_status = to_health_status (hb_status h), he_health_score = clamp01 score,
          he_latency_ms = 0, he_stale_ms = 0, he_error_rate = rate,
          he_error_count = hb_circuit_breaker_error_count h, he_snapshots_per_sec = 0,
          he_last_snapshot_age = 0,
          he_routing_recommendation = override_routing mode (raw_routing h b),
          he_reason = health_reason h reason mode\<rparr>)"

section \<open>The circuit breaker\<close>

datatype health_status =
    HealthStatus_Unspecified | HealthStatus_Ok | HealthStatus_Stale | HealthStatus_Disconnected
  | HealthStatus_RateLimit | HealthStatus_Degraded

datatype breaker_state = BreakerState_Closed | BreakerState_HalfOpen | BreakerState_Open

record raw_report =
  rr_venue :: string
  rr_timestamp :: int
  rr_venue_status :: health_status
  rr_latency :: int
  rr_stale :: int
  rr_error_rate :: rat
  rr_error_count :: int
  rr_snapshots_per_sec :: rat
  rr_last_snapshot_age :: rat
  rr_reason :: string

record health_config =
  hc_circuit_breaker_window :: int
  hc_circuit_breaker_cooldown :: int
  hc_circuit_breaker_error_threshold :: nat
  hc_stale_threshold :: int

record circuit_breaker =
  cb_state :: breaker_state
  cb_error_timestamps :: "int set"
  cb_cooldown_end :: int

definition IsError :: "health_status \<Rightarrow> bool" where
  "IsError s \<longleftrightarrow> s \<noteq> HealthStatus_Ok \<and> s \<noteq> HealthStatus_RateLimit"

definition ms :: "int \<Rightarrow> int" where
  "ms d = d * 1000000"

definition new_breaker :: circuit_breaker where
  "new_breaker = \<lparr>cb_state = BreakerState_Closed, cb_error_timestamps = {}, cb_cooldown_end = 0\<rparr>"

text \<open>The clock is read twice: \<open>t1\<close> for the window, \<open>t2\<close> for the cooldown.\<close>

definition Breaker_OnRawReport :: "health_config \<Rightarrow> int \<Rightarrow> int \<Rightarrow> raw_report \<Rightarrow> circuit_breaker \<Rightarrow> circuit_breaker" where
  "Breaker_OnRawReport cfg t1 t2 r b =
     (let border = t1 - ms (hc_circuit_breaker_window cfg);
          errors = Set.filter (\<lambda>t. border \<le> t) (cb_error_timestamps b);
          errors = (if IsError (rr_venue_status r) then insert (rr_timestamp r) errors else errors);
          b = b\<lparr>cb_error_timestamps := errors\<rparr>;
          reopened = b\<lparr>cb_cooldown_end := t2 + ms (hc_circuit_breaker_cooldown cfg), cb_state := BreakerState_Open\<rparr>
      in if hc_circuit_breaker_error_threshold cfg \<le> card errors then reopened
         else case cb_state b of
           BreakerState_Open \<Rightarrow> if cb_cooldown_end b \<le> t2 then b\<lparr>cb_state := BreakerState_HalfOpen\<rparr> else b
         | BreakerState_HalfOpen \<Rightarrow>
             if rr_venue_status r = HealthStatus_Ok then b\<lparr>cb_state := BreakerState_Closed\<rparr> else reopened
         | BreakerState_Closed \<Rightarrow> b)"

section \<open>The state of a venue\<close>

datatype recommendation = Routing_Block | Routing_Avoid | Routing_Caution | Routing_Allow

fun recommendation_rank :: "recommendation \<Rightarrow> nat" where
  "recommendation_rank Routing_Block = 0"
| "recommendation_rank Routing_Avoid = 1"
| "recommendation_rank Routing_Caution = 2"
| "recommendation_rank Routing_Allow = 3"

definition worse :: "recommendation \<Rightarrow> recommendation \<Rightarrow> recommendation" where
  "worse a b = (if recommendation_rank b < recommendation_rank a then b else a)"

record venue_state =
  vs_venue :: string
  vs_score :: rat
  vs_routing :: recommendation
  vs_updated_at :: int
  vs_status :: health_status
  vs_latency :: int
  vs_stale :: int
  vs_error_rate :: rat
  vs_error_count :: int
  vs_snapshots_per_sec :: rat
  vs_last_snapshot_age :: rat
  vs_reason :: string
  vs_breaker :: circuit_breaker

definition new_venue_state :: "int \<Rightarrow> string \<Rightarrow> venue_state" where
  "new_venue_state now venue =
     \<lparr>vs_venue = venue, vs_score = 1, vs_routing = Routing_Allow, vs_updated_at = now,
      vs_status = HealthStatus_Unspecified, vs_latency = 0, vs_stale = 0, vs_error_rate = 0,
      vs_error_count = 0, vs_snapshots_per_sec = 0, vs_last_snapshot_age = 0, vs_reason = [],
      vs_breaker = new_breaker\<rparr>"

definition base_score :: "fp \<Rightarrow> raw_report \<Rightarrow> rat \<Rightarrow> rat" where
  "base_score fl r score =
     fp_round fl (fp_round fl (fp_round fl (1 - rr_error_rate r) + score) / 2)"

definition lower_to :: "fp \<Rightarrow> bool \<Rightarrow> rat \<Rightarrow> recommendation \<Rightarrow> rat \<times> recommendation \<Rightarrow> rat \<times> recommendation" where
  "lower_to fl c limit r sr = (if c then (min (fst sr) (fp_round fl limit), worse (snd sr) r) else sr)"

definition Venue_OnRawReport :: "fp \<Rightarrow> health_config \<Rightarrow> int \<Rightarrow> int \<Rightarrow> raw_report \<Rightarrow> venue_state \<Rightarrow> venue_state" where
  "Venue_OnRawReport fl cfg t1 t2 r s =
     (let b = Breaker_OnRawReport cfg t1 t2 r (vs_breaker s);
          sr = (base_score fl r (vs_score s), Routing_Allow);
          sr = lower_to fl (rr_venue_status r = HealthStatus_Stale \<or> hc_stale_threshold cfg < rr_stale r)
                 (2 / 10) Routing_Avoid sr;
          sr = lower_to fl (500 < rr_latency r \<or> rr_snapshots_per_sec r < 2) (5 / 10) Routing_Caution sr;
          sr = lower_to fl (rr_venue_status r = HealthStatus_RateLimit) (8 / 10) Routing_Caution sr;
          sr = (case cb_state b of
                  BreakerState_Open \<Rightarrow> (0, Routing_Block)
                | BreakerState_HalfOpen \<Rightarrow> (fp_round fl (1 / 10), Routing_Avoid)
                | BreakerState_Closed \<Rightarrow> sr)
      in s\<lparr>vs_score := fst sr, vs_routing := snd sr, vs_updated_at := rr_timestamp r,
          vs_status := rr_venue_status r, vs_latency := rr_latency r, vs_stale := rr_stale r,
          vs_error_rate := rr_error_rate r, vs_error_count := rr_error_count r,
          vs_snapshots_per_sec := rr_snapshots_per_sec r,
          vs_last_snapshot_age := rr_last_snapshot_age r, vs_reason := rr_reason r, vs_breaker := b\<rparr>)"

section \<open>The service\<close>

text \<open>The constructor of a new state reads the clock too (\<open>t0\<close>).\<close>

definition Health_OnRawReport ::
    "fp \<Rightarrow> health_config \<Rightarrow> int \<Rightarrow> int \<Rightarrow> int \<Rightarrow> raw_report \<Rightarrow> venue_state umap \<Rightarrow> venue_state umap \<times> venue_state" where
  "Health_OnRawReport fl cfg t0 t1 t2 r m =
     (let old = (case find m (rr_venue r) of None \<Rightarrow> new_venue_state t0 (rr_venue r) | Some s \<Rightarrow> s);
          new = Venue_OnRawReport fl cfg t1 t2 r old
      in (put (rr_venue r) new m, new))"

fun status_of_proto :: "venue_status \<Rightarrow> health_status" where
  "status_of_proto VENUE_HEALTH_STATUS_UNSPECIFIED = HealthStatus_Unspecified"
| "status_of_proto VENUE_HEALTH_STATUS_OK = HealthStatus_Ok"
| "status_of_proto VENUE_HEALTH_STATUS_STALE = HealthStatus_Stale"
| "status_of_proto VENUE_HEALTH_STATUS_DISCONNECTED = HealthStatus_Disconnected"
| "status_of_proto VENUE_HEALTH_STATUS_RATE_LIMIT = HealthStatus_RateLimit"
| "status_of_proto VENUE_HEALTH_STATUS_DEGRADED = HealthStatus_Degraded"

fun status_to_proto :: "health_status \<Rightarrow> venue_status" where
  "status_to_proto HealthStatus_Unspecified = VENUE_HEALTH_STATUS_UNSPECIFIED"
| "status_to_proto HealthStatus_Ok = VENUE_HEALTH_STATUS_OK"
| "status_to_proto HealthStatus_Stale = VENUE_HEALTH_STATUS_STALE"
| "status_to_proto HealthStatus_Disconnected = VENUE_HEALTH_STATUS_DISCONNECTED"
| "status_to_proto HealthStatus_RateLimit = VENUE_HEALTH_STATUS_RATE_LIMIT"
| "status_to_proto HealthStatus_Degraded = VENUE_HEALTH_STATUS_DEGRADED"

fun breaker_to_proto :: "breaker_state \<Rightarrow> breaker" where
  "breaker_to_proto BreakerState_Closed = BREAKER_CLOSED"
| "breaker_to_proto BreakerState_HalfOpen = BREAKER_HALF_OPEN"
| "breaker_to_proto BreakerState_Open = BREAKER_OPEN"

fun routing_to_proto :: "recommendation \<Rightarrow> routing" where
  "routing_to_proto Routing_Block = ROUTING_BLOCK"
| "routing_to_proto Routing_Avoid = ROUTING_AVOID"
| "routing_to_proto Routing_Caution = ROUTING_CAUTION"
| "routing_to_proto Routing_Allow = ROUTING_ALLOW"

definition raw_report_of :: "health_event \<Rightarrow> raw_report" where
  "raw_report_of h = \<lparr>rr_venue = he_venue h, rr_timestamp = he_timestamp h,
     rr_venue_status = status_of_proto (he_status h), rr_latency = he_latency_ms h,
     rr_stale = he_stale_ms h, rr_error_rate = he_error_rate h, rr_error_count = he_error_count h,
     rr_snapshots_per_sec = he_snapshots_per_sec h, rr_last_snapshot_age = he_last_snapshot_age h,
     rr_reason = he_reason h\<rparr>"

definition uint32_ms :: "int \<Rightarrow> int" where
  "uint32_ms d = max 0 d mod 2 ^ 32"

definition health_event_of :: "venue_state \<Rightarrow> health_event" where
  "health_event_of s = \<lparr>he_venue = vs_venue s, he_timestamp = vs_updated_at s,
     he_event_type = VENUE_HEALTH_EVENT_TYPE_AGGREGATED,
     he_breaker_state = breaker_to_proto (cb_state (vs_breaker s)),
     he_status = status_to_proto (vs_status s), he_health_score = vs_score s,
     he_latency_ms = uint32_ms (vs_latency s), he_stale_ms = uint32_ms (vs_stale s),
     he_error_rate = vs_error_rate s, he_error_count = vs_error_count s,
     he_snapshots_per_sec = vs_snapshots_per_sec s, he_last_snapshot_age = vs_last_snapshot_age s,
     he_routing_recommendation = routing_to_proto (vs_routing s), he_reason = vs_reason s\<rparr>"

text \<open>The consumer feeds raw reports to the service and skips what the service publishes itself.\<close>

definition consume_health ::
    "fp \<Rightarrow> health_config \<Rightarrow> int \<times> int \<times> int \<Rightarrow> health_event \<Rightarrow> venue_state umap \<Rightarrow> venue_state umap \<times> health_event list" where
  "consume_health fl cfg clock h m =
     (case clock of (t0, t1, t2) \<Rightarrow>
      if he_event_type h = VENUE_HEALTH_EVENT_TYPE_RAW
      then (case Health_OnRawReport fl cfg t0 t1 t2 (raw_report_of h) m of (m', s) \<Rightarrow> (m', [health_event_of s]))
      else (m, []))"

text \<open>What the risk service reads of the message.\<close>

definition risk_health :: "health_event \<Rightarrow> venue_health" where
  "risk_health h = \<lparr>vh_venue = he_venue h, vh_status = he_status h, vh_routing = he_routing_recommendation h,
     vh_breaker = he_breaker_state h, vh_health_score = he_health_score h\<rparr>"

section \<open>Alerts\<close>

datatype alert_code = LowVenueHealthScore | CircuitBreakerOpen | LowLiquidityCurveConfidence

datatype alert_severity = Severity_Info | Severity_Warning | Severity_Error | Severity_Critical

datatype alert_status = Firing | Resolved

record alert =
  at_id :: string
  at_code :: alert_code
  at_labels :: "string umap"
  at_severity :: alert_severity
  at_status :: alert_status

record alert_check =
  ak_venue :: string
  ak_code :: alert_code
  ak_should_fire :: bool
  ak_should_resolve :: bool
  ak_severity :: alert_severity

type_synonym alerts = "((string \<times> alert_code) \<times> alert) list"

text \<open>\<open>i\<close> is the identifier a new alert gets.\<close>

definition CheckAlert :: "string \<Rightarrow> alert_check \<Rightarrow> alerts \<Rightarrow> alerts \<times> alert list" where
  "CheckAlert i c m =
     (let key = (ak_venue c, ak_code c)
      in case map_of m key of
        None \<Rightarrow>
          if ak_should_fire c
          then let a = \<lparr>at_id = i, at_code = ak_code c, at_labels = [(''venue'', ak_venue c)],
                        at_severity = ak_severity c, at_status = Firing\<rparr>
               in (AList.update key a m, [a])
          else (m, [])
      | Some a \<Rightarrow>
          if ak_should_resolve c then (AList.delete key m, [a\<lparr>at_status := Resolved\<rparr>]) else (m, []))"

definition Alerts_OnVenueHealth :: "fp \<Rightarrow> (nat \<Rightarrow> string) \<Rightarrow> health_event \<Rightarrow> alerts \<Rightarrow> alerts \<times> alert list" where
  "Alerts_OnVenueHealth fl uuid h m =
     (let limit = fp_round fl (8 / 10);
          (m1, a1) = CheckAlert (uuid 0) \<lparr>ak_venue = he_venue h, ak_code = LowVenueHealthScore,
            ak_should_fire = he_health_score h < limit, ak_should_resolve = limit \<le> he_health_score h,
            ak_severity = Severity_Warning\<rparr> m;
          (m2, a2) = CheckAlert (uuid 1) \<lparr>ak_venue = he_venue h, ak_code = CircuitBreakerOpen,
            ak_should_fire = (he_breaker_state h = BREAKER_OPEN),
            ak_should_resolve = (he_breaker_state h = BREAKER_CLOSED), ak_severity = Severity_Error\<rparr> m1
      in (m2, a1 @ a2))"

definition Alerts_OnVenueLiquidityCurve :: "fp \<Rightarrow> string \<Rightarrow> string \<Rightarrow> rat \<Rightarrow> alerts \<Rightarrow> alerts \<times> alert list" where
  "Alerts_OnVenueLiquidityCurve fl i venue confidence m =
     (let limit = fp_round fl (8 / 10)
      in CheckAlert i \<lparr>ak_venue = venue, ak_code = LowLiquidityCurveConfidence,
           ak_should_fire = confidence < limit, ak_should_resolve = limit \<le> confidence,
           ak_severity = Severity_Warning\<rparr> m)"

text \<open>The consumer passes on aggregated health events; an unspecified breaker state throws, after
  which nothing has changed.\<close>

definition observe_health :: "fp \<Rightarrow> (nat \<Rightarrow> string) \<Rightarrow> health_event \<Rightarrow> alerts \<Rightarrow> (alerts \<times> alert list) option" where
  "observe_health fl uuid h m =
     (if he_event_type h \<noteq> VENUE_HEALTH_EVENT_TYPE_AGGREGATED then Some (m, [])
      else if he_breaker_state h = BREAKER_UNSPECIFIED then None
      else Some (Alerts_OnVenueHealth fl uuid h m))"

end
