(* ===== verification/Venue_Health_Laws.thy ===== *)
theory Venue_Health_Laws
  imports Venue_Health Risk_Safety
begin

text \<open>
  The laws of the venue health chain: when the breaker opens and closes, what an open breaker
  publishes and how risk takes it, the range of the score, and the episodes of the alerts.
\<close>

section \<open>Runs of the breaker\<close>

type_synonym timed_report = "int \<times> int \<times> raw_report"

definition breaker_step :: "health_config \<Rightarrow> timed_report \<Rightarrow> circuit_breaker \<Rightarrow> circuit_breaker" where
  "breaker_step cfg x b = (case x of (t1, t2, r) \<Rightarrow> Breaker_OnRawReport cfg t1 t2 r b)"

definition error_times :: "timed_report list \<Rightarrow> int set" where
  "error_times xs = set (map (\<lambda>x. rr_timestamp (snd (snd x)))
     (filter (\<lambda>x. IsError (rr_venue_status (snd (snd x)))) xs))"

definition recent_errors :: "health_config \<Rightarrow> int \<Rightarrow> timed_report list \<Rightarrow> int set" where
  "recent_errors cfg t xs = Set.filter (\<lambda>e. t - ms (hc_circuit_breaker_window cfg) \<le> e) (error_times xs)"

definition kept_errors :: "health_config \<Rightarrow> timed_report list \<Rightarrow> timed_report \<Rightarrow> int set" where
  "kept_errors cfg xs x = (case x of (t1, t2, r) \<Rightarrow>
     recent_errors cfg t1 xs \<union> (if IsError (rr_venue_status r) then {rr_timestamp r} else {}))"

lemma breaker_errors:
  "cb_error_timestamps (Breaker_OnRawReport cfg t1 t2 r b) =
    {t \<in> cb_error_timestamps b. t1 - ms (hc_circuit_breaker_window cfg) \<le> t}
      \<union> (if IsError (rr_venue_status r) then {rr_timestamp r} else {})"
  by (auto simp: Breaker_OnRawReport_def Let_def split: breaker_state.splits)

lemma run_errors:
  assumes "sorted (map fst (xs @ [x]))"
  shows "cb_error_timestamps (fold (breaker_step cfg) (xs @ [x]) new_breaker) = kept_errors cfg xs x"
  using assms
proof (induction xs arbitrary: x rule: rev_induct)
  case Nil
  then show ?case
    by (cases x) (auto simp: breaker_step_def breaker_errors kept_errors_def recent_errors_def error_times_def new_breaker_def)
next
  case (snoc y xs)
  obtain t1 t2 r where x: "x = (t1, t2, r)" by (metis prod_cases3)
  obtain u1 u2 q where y: "y = (u1, u2, q)" by (metis prod_cases3)
  have u: "u1 \<le> t1" using snoc.prems by (simp add: x y sorted_append)
  let ?b = "fold (breaker_step cfg) (xs @ [y]) new_breaker"
  have b: "cb_error_timestamps ?b = kept_errors cfg xs y"
    using snoc.IH[of y] snoc.prems by (simp add: sorted_append)
  have "fold (breaker_step cfg) ((xs @ [y]) @ [x]) new_breaker = Breaker_OnRawReport cfg t1 t2 r ?b"
    by (simp add: breaker_step_def x)
  then have "cb_error_timestamps (fold (breaker_step cfg) ((xs @ [y]) @ [x]) new_breaker)
    = {t \<in> kept_errors cfg xs y. t1 - ms (hc_circuit_breaker_window cfg) \<le> t}
      \<union> (if IsError (rr_venue_status r) then {rr_timestamp r} else {})"
    by (simp only: breaker_errors b)
  also have "\<dots> = kept_errors cfg (xs @ [y]) x"
    using u by (auto simp: x y kept_errors_def recent_errors_def error_times_def split: if_splits)
  finally show ?case .
qed

text \<open>The circuit breaker follows the errors of the window. Over any sequence of reports at clock
  readings that do not go back, the breaker opens, or stays open with a new cooldown, exactly
  when the distinct times of the errors within the window reach the threshold; below it, an open
  breaker becomes half open when the cooldown has passed, a half-open one closes on a good report and
  reopens on any other, and a closed one stays closed.\<close>

theorem breaker_follows_errors:
  fixes cfg :: health_config
  assumes "sorted (map fst (xs @ [(t1, t2, r)]))"
  defines "old \<equiv> fold (breaker_step cfg) xs new_breaker"
    and "new \<equiv> fold (breaker_step cfg) (xs @ [(t1, t2, r)]) new_breaker"
  shows "if hc_circuit_breaker_error_threshold cfg \<le> card (kept_errors cfg xs (t1, t2, r))
    then cb_state new = BreakerState_Open \<and> cb_cooldown_end new = t2 + ms (hc_circuit_breaker_cooldown cfg)
    else cb_state new = (case cb_state old of
        BreakerState_Open \<Rightarrow> if cb_cooldown_end old \<le> t2 then BreakerState_HalfOpen else BreakerState_Open
      | BreakerState_HalfOpen \<Rightarrow> if rr_venue_status r = HealthStatus_Ok then BreakerState_Closed else BreakerState_Open
      | BreakerState_Closed \<Rightarrow> BreakerState_Closed)"
proof -
  have n: "new = Breaker_OnRawReport cfg t1 t2 r old" by (simp add: new_def old_def breaker_step_def)
  define es where "es = (if IsError (rr_venue_status r)
    then insert (rr_timestamp r) (Set.filter (\<lambda>t. t1 - ms (hc_circuit_breaker_window cfg) \<le> t) (cb_error_timestamps old))
    else Set.filter (\<lambda>t. t1 - ms (hc_circuit_breaker_window cfg) \<le> t) (cb_error_timestamps old))"
  have "es = cb_error_timestamps new" unfolding n es_def by (auto simp: breaker_errors)
  then have e: "es = kept_errors cfg xs (t1, t2, r)" using run_errors[OF assms(1)] by (simp add: new_def)
  show ?thesis unfolding n e[symmetric]
    by (cases "cb_state old"; cases "IsError (rr_venue_status r)") (simp_all add: Breaker_OnRawReport_def Let_def es_def)
qed

section \<open>An open breaker\<close>

lemma open_until_cooldown:
  assumes "cb_state b = BreakerState_Open" "\<forall>(t1, t2, r) \<in> set xs. t2 < cb_cooldown_end b"
    and "sorted (map (fst \<circ> snd) xs)" "\<forall>(t1, t2, r) \<in> set xs. cb_cooldown_end b \<le> t2 + ms (hc_circuit_breaker_cooldown cfg)"
  shows "cb_state (fold (breaker_step cfg) xs b) = BreakerState_Open"
  using assms
proof (induction xs arbitrary: b)
  case (Cons x xs)
  obtain t1 t2 r where x: "x = (t1, t2, r)" by (metis prod_cases3)
  let ?b = "Breaker_OnRawReport cfg t1 t2 r b"
  have o: "cb_state ?b = BreakerState_Open \<and> (cb_cooldown_end ?b = cb_cooldown_end b
      \<or> cb_cooldown_end ?b = t2 + ms (hc_circuit_breaker_cooldown cfg))"
    using Cons.prems by (auto simp: Breaker_OnRawReport_def Let_def x)
  have "\<forall>(u1, u2, q) \<in> set xs. u2 < cb_cooldown_end ?b" "\<forall>(u1, u2, q) \<in> set xs. cb_cooldown_end ?b \<le> u2 + ms (hc_circuit_breaker_cooldown cfg)"
    using o Cons.prems by (fastforce simp: x)+
  then show ?case using Cons.IH[of ?b] o Cons.prems(3) by (simp add: x breaker_step_def)
qed simp

definition service_step :: "fp \<Rightarrow> health_config \<Rightarrow> (int \<times> int \<times> int) \<times> health_event \<Rightarrow>
    venue_state umap \<times> health_event list \<Rightarrow> venue_state umap \<times> health_event list" where
  "service_step fl cfg x st = (case consume_health fl cfg (fst x) (snd x) (fst st) of (m, es) \<Rightarrow> (m, snd st @ es))"

definition fp_ok :: "fp \<Rightarrow> bool" where
  "fp_ok fl \<longleftrightarrow> mono (fp_round fl) \<and> fp_round fl 0 = 0 \<and> fp_round fl 1 = 1 \<and> fp_round fl 2 = 2"

lemma fp_unit: "fp_ok fl \<Longrightarrow> 0 \<le> x \<Longrightarrow> x \<le> 1 \<Longrightarrow> 0 \<le> fp_round fl x \<and> fp_round fl x \<le> 1"
  unfolding fp_ok_def by (metis monoE)

lemma fp_two: "fp_ok fl \<Longrightarrow> 0 \<le> x \<Longrightarrow> x \<le> 2 \<Longrightarrow> 0 \<le> fp_round fl x \<and> fp_round fl x \<le> 2"
  unfolding fp_ok_def by (metis monoE)

definition venue_ok :: "venue_state \<Rightarrow> bool" where
  "venue_ok s \<longleftrightarrow> 0 \<le> vs_score s \<and> vs_score s \<le> 1
     \<and> (vs_routing s = Routing_Block \<longleftrightarrow> cb_state (vs_breaker s) = BreakerState_Open)
     \<and> (cb_state (vs_breaker s) = BreakerState_Open \<longrightarrow> vs_score s = 0)
     \<and> (cb_state (vs_breaker s) = BreakerState_HalfOpen \<longrightarrow> vs_routing s = Routing_Avoid)"

lemma new_venue_ok: "venue_ok (new_venue_state t v)"
  by (simp add: venue_ok_def new_venue_state_def new_breaker_def)

lemma base_score_unit:
  assumes "fp_ok fl" "0 \<le> rr_error_rate r" "rr_error_rate r \<le> 1" "0 \<le> x" "x \<le> 1"
  shows "0 \<le> base_score fl r x \<and> base_score fl r x \<le> 1"
proof -
  have a: "0 \<le> fp_round fl (1 - rr_error_rate r) \<and> fp_round fl (1 - rr_error_rate r) \<le> 1"
    using fp_unit[OF assms(1)] assms(2,3) by simp
  then have "0 \<le> fp_round fl (fp_round fl (1 - rr_error_rate r) + x) \<and> fp_round fl (fp_round fl (1 - rr_error_rate r) + x) \<le> 2"
    using fp_two[OF assms(1)] assms(4,5) by simp
  then show ?thesis unfolding base_score_def using fp_unit[OF assms(1)] by simp
qed

lemma lower_to_keeps:
  assumes "fp_ok fl" "0 \<le> limit" "limit \<le> 1" "r \<noteq> Routing_Block" "0 \<le> fst sr \<and> fst sr \<le> 1 \<and> snd sr \<noteq> Routing_Block"
  shows "0 \<le> fst (lower_to fl c limit r sr) \<and> fst (lower_to fl c limit r sr) \<le> 1 \<and> snd (lower_to fl c limit r sr) \<noteq> Routing_Block"
  using assms(4,5) fp_unit[OF assms(1-3)] by (auto simp: lower_to_def worse_def)

lemma report_keeps_venue:
  assumes "fp_ok fl" "0 \<le> rr_error_rate r" "rr_error_rate r \<le> 1" "venue_ok s"
  shows "venue_ok (Venue_OnRawReport fl cfg t1 t2 r s)"
proof -
  have "0 \<le> base_score fl r (vs_score s) \<and> base_score fl r (vs_score s) \<le> 1"
    using base_score_unit[OF assms(1-3)] assms(4) by (simp add: venue_ok_def)
  then have "0 \<le> fst (base_score fl r (vs_score s), Routing_Allow) \<and> fst (base_score fl r (vs_score s), Routing_Allow) \<le> 1
      \<and> snd (base_score fl r (vs_score s), Routing_Allow) \<noteq> Routing_Block" by simp
  note k = lower_to_keeps[OF assms(1) _ _ _ lower_to_keeps[OF assms(1) _ _ _ lower_to_keeps[OF assms(1) _ _ _ this]]]
  show ?thesis
    using k[of "8 / 10" Routing_Caution "5 / 10" Routing_Caution "2 / 10" Routing_Avoid
        "rr_venue_status r = HealthStatus_RateLimit" "500 < rr_latency r \<or> rr_snapshots_per_sec r < 2"
        "rr_venue_status r = HealthStatus_Stale \<or> hc_stale_threshold cfg < rr_stale r"]
      fp_unit[OF assms(1), of "1 / 10"]
    by (cases "cb_state (Breaker_OnRawReport cfg t1 t2 r (vs_breaker s))")
      (simp_all add: venue_ok_def Venue_OnRawReport_def Let_def)
qed

lemma event_of_ok:
  assumes "venue_ok s"
  shows "0 \<le> he_health_score (health_event_of s) \<and> he_health_score (health_event_of s) \<le> 1"
    and "he_routing_recommendation (health_event_of s) = ROUTING_BLOCK \<longleftrightarrow> he_breaker_state (health_event_of s) = BREAKER_OPEN"
    and "he_breaker_state (health_event_of s) = BREAKER_OPEN \<Longrightarrow> he_health_score (health_event_of s) = 0"
    and "he_breaker_state (health_event_of s) \<noteq> BREAKER_UNSPECIFIED"
    and "he_event_type (health_event_of s) = VENUE_HEALTH_EVENT_TYPE_AGGREGATED"
  using assms by (cases "vs_routing s"; cases "cb_state (vs_breaker s)"; simp add: venue_ok_def health_event_of_def)+

lemma raw_rate [simp]: "rr_error_rate (raw_report_of h) = he_error_rate h"
  by (simp add: raw_report_of_def)

definition rate_ok :: "health_event \<Rightarrow> bool" where
  "rate_ok h \<longleftrightarrow> 0 \<le> he_error_rate h \<and> he_error_rate h \<le> 1"

lemma consume_keeps:
  assumes "fp_ok fl" "rate_ok h" "\<forall>(v, s) \<in> set m. venue_ok s"
    and "consume_health fl cfg clock h m = (m', es)"
  shows "(\<forall>(v, s) \<in> set m'. venue_ok s) \<and> (\<forall>e \<in> set es. \<exists>s. venue_ok s \<and> e = health_event_of s)"
proof (cases "he_event_type h = VENUE_HEALTH_EVENT_TYPE_RAW")
  case True
  obtain t0 t1 t2 where c: "clock = (t0, t1, t2)" by (metis prod_cases3)
  let ?r = "raw_report_of h"
  define old where "old = (case find m (rr_venue ?r) of None \<Rightarrow> new_venue_state t0 (rr_venue ?r) | Some s \<Rightarrow> s)"
  have "venue_ok old"
    using assms(3) new_venue_ok by (auto simp: old_def find_def dest!: map_of_SomeD split: option.splits)
  then have n: "venue_ok (Venue_OnRawReport fl cfg t1 t2 ?r old)"
    using report_keeps_venue[OF assms(1)] assms(2) by (simp add: rate_ok_def)
  have e: "m' = put (rr_venue ?r) (Venue_OnRawReport fl cfg t1 t2 ?r old) m"
    "es = [health_event_of (Venue_OnRawReport fl cfg t1 t2 ?r old)]"
    using assms(4) True by (simp_all add: consume_health_def c Health_OnRawReport_def Let_def old_def)
  have "\<forall>(v, s) \<in> set (put k x l). P s" if "P x" "\<forall>(v, s) \<in> set l. P s"
    for P and k :: string and x :: venue_state and l
    using that by (induction l) (auto simp: put_def)
  from this[of venue_ok, OF n assms(3)] n show ?thesis unfolding e by auto
next
  case False
  then show ?thesis using assms(3,4) by (cases clock) (simp add: consume_health_def)
qed

lemma put_others:
  assumes "distinct (map fst m)" "g \<in> snd ` set (put v x m)"
  shows "g = x \<or> (\<exists>u. u \<noteq> v \<and> (u, g) \<in> set m)"
proof -
  from assms(2) obtain u where u: "(u, g) \<in> set (put v x m)" by force
  have "distinct (map fst (put v x m))" using assms(1) by (simp add: put_def distinct_update)
  from in_find[OF this u] have "find (put v x m) u = Some g" .
  then show ?thesis using find_in[of m u g] by (auto split: if_splits)
qed

lemma put_not_empty: "put v x m \<noteq> []"
  unfolding put_def by (cases m) auto

text \<open>What the venue health service publishes. Over any sequence of events of the topic with error
  rates between zero and one, every published event carries a score between zero and one, recommends to
  block the venue exactly when its circuit breaker is open, and then has score zero; the risk
  service, on any state, takes such an event as a venue that is unavailable, and when every
  known venue is, it refuses every new order.\<close>

theorem published_health_is_sound:
  assumes "fp_ok fl" "\<forall>(clock, h) \<in> set events. rate_ok h"
    and "fold (service_step fl cfg) events ([], []) = (m, published)" "e \<in> set published"
  shows "he_event_type e = VENUE_HEALTH_EVENT_TYPE_AGGREGATED \<and> 0 \<le> he_health_score e \<and> he_health_score e \<le> 1
    \<and> (he_routing_recommendation e = ROUTING_BLOCK \<longleftrightarrow> he_breaker_state e = BREAKER_OPEN)
    \<and> (he_breaker_state e = BREAKER_OPEN \<longrightarrow> he_health_score e = 0
        \<and> hard_block (gate_of (risk_health e))
        \<and> (\<forall>s. distinct (map fst (rk_venue_health_gate s)) \<longrightarrow> (\<forall>v g. (v, g) \<in> set (rk_venue_health_gate s) \<longrightarrow> v = he_venue e \<or> hard_block g) \<longrightarrow>
            EvaluateVenueHealthGate fl (fst (HealthChecks (risk_health e) s)) = kReject))"
proof -
  have "(\<forall>(v, s) \<in> set m'. venue_ok s) \<and> (\<forall>e \<in> set out'. \<exists>s. venue_ok s \<and> e = health_event_of s)"
    if "fold (service_step fl cfg) xs (m0, out) = (m', out')" "\<forall>(clock, h) \<in> set xs. rate_ok h"
      "\<forall>(v, s) \<in> set m0. venue_ok s" "\<forall>e \<in> set out. \<exists>s. venue_ok s \<and> e = health_event_of s" for xs m0 out m' out'
    using that
  proof (induction xs arbitrary: m0 out)
    case (Cons x xs)
    obtain m1 es where c: "consume_health fl cfg (fst x) (snd x) m0 = (m1, es)" by force
    have "rate_ok (snd x)" using Cons.prems(2) by (cases x) simp
    from consume_keeps[OF assms(1) this Cons.prems(3) c] Cons.prems(4)
    have "\<forall>(v, s) \<in> set m1. venue_ok s" "\<forall>e \<in> set (out @ es). \<exists>s. venue_ok s \<and> e = health_event_of s" by auto
    from Cons.IH[OF _ _ this] Cons.prems(1,2) show ?case by (simp add: service_step_def c)
  qed simp
  from this[OF assms(3,2)] assms(4) obtain s where s: "venue_ok s" "e = health_event_of s" by auto
  note o = event_of_ok[OF s(1), folded s(2)]
  have b: "hard_block (gate_of (risk_health e))" if "he_breaker_state e = BREAKER_OPEN"
    using that by (simp add: hard_block_def gate_of_def risk_health_def)
  have "EvaluateVenueHealthGate fl (fst (HealthChecks (risk_health e) st)) = kReject"
    if "he_breaker_state e = BREAKER_OPEN" "distinct (map fst (rk_venue_health_gate st))"
      "\<forall>v g. (v, g) \<in> set (rk_venue_health_gate st) \<longrightarrow> v = he_venue e \<or> hard_block g" for st
    using put_others[OF that(2), of _ "vh_venue (risk_health e)" "gate_of (risk_health e)"] b[OF that(1)] that(3)
    by (force simp: HealthChecks_state venue_gate_decision(1) put_not_empty risk_health_def)
  with o b show ?thesis by auto
qed

section \<open>Episodes of the alerts\<close>

fun alert_run :: "(string \<times> alert_check) list \<Rightarrow> alerts \<Rightarrow> alerts \<times> alert list" where
  "alert_run [] m = (m, [])"
| "alert_run ((i, c) # cs) m =
     (case CheckAlert i c m of (m1, a1) \<Rightarrow> (case alert_run cs m1 of (m2, a2) \<Rightarrow> (m2, a1 @ a2)))"

definition about :: "string \<Rightarrow> alert_code \<Rightarrow> alert list \<Rightarrow> alert list" where
  "about v c as = filter (\<lambda>a. at_code a = c \<and> at_labels a = [(''venue'', v)]) as"

text \<open>An episode is an alert that fires and the same alert resolved.\<close>

definition episodes :: "alert list \<Rightarrow> alert option \<Rightarrow> bool" where
  "episodes as active \<longleftrightarrow> (\<exists>ds. as = concat (map (\<lambda>a. [a, a\<lparr>at_status := Resolved\<rparr>]) ds)
     @ (case active of None \<Rightarrow> [] | Some a \<Rightarrow> [a])
     \<and> (\<forall>a \<in> set ds \<union> set_option active. at_status a = Firing))"

definition labelled :: "alerts \<Rightarrow> bool" where
  "labelled m \<longleftrightarrow> (\<forall>v c a. map_of m (v, c) = Some a \<longrightarrow> at_code a = c \<and> at_labels a = [(''venue'', v)] \<and> at_status a = Firing)"

lemma episodes_fire: "episodes as None \<Longrightarrow> at_status a = Firing \<Longrightarrow> episodes (as @ [a]) (Some a)"
  unfolding episodes_def by auto

lemma episodes_resolve:
  assumes "episodes as (Some a)"
  shows "episodes (as @ [a\<lparr>at_status := Resolved\<rparr>]) None"
proof -
  obtain ds where d: "as = concat (map (\<lambda>a. [a, a\<lparr>at_status := Resolved\<rparr>]) ds) @ [a]"
      "\<forall>x \<in> set ds \<union> {a}. at_status x = Firing"
    using assms unfolding episodes_def by auto
  show ?thesis unfolding episodes_def by (rule exI[of _ "ds @ [a]"]) (use d in auto)
qed

lemma check_episode:
  assumes "labelled m" "episodes (about v c as) (map_of m (v, c))" "CheckAlert i k m = (m', new)"
  shows "labelled m' \<and> episodes (about v c (as @ new)) (map_of m' (v, c))"
proof (cases "map_of m (ak_venue k, ak_code k)")
  case None
  show ?thesis
  proof (cases "ak_should_fire k")
    case True
    then show ?thesis using assms None episodes_fire
      by (auto simp: CheckAlert_def Let_def labelled_def about_def update_conv' split: if_splits)
  qed (use assms None in \<open>simp add: CheckAlert_def Let_def\<close>)
next
  case (Some a)
  show ?thesis
  proof (cases "ak_should_resolve k")
    case True
    have l: "at_code a = ak_code k" "at_labels a = [(''venue'', ak_venue k)]" "at_status a = Firing"
      using assms(1) Some by (auto simp: labelled_def)
    show ?thesis using assms Some True l episodes_resolve[of "about v c as" a]
      by (auto simp: CheckAlert_def Let_def labelled_def about_def delete_conv' split: if_splits)
  qed (use assms Some in \<open>simp add: CheckAlert_def Let_def\<close>)
qed

lemma run_episodes:
  assumes "labelled m" "episodes (about v c as) (map_of m (v, c))" "alert_run cs m = (m', new)"
  shows "episodes (about v c (as @ new)) (map_of m' (v, c))"
  using assms
proof (induction cs arbitrary: m as new)
  case (Cons x cs)
  obtain i k where x: "x = (i, k)" by force
  obtain m1 a1 m2 a2 where c: "CheckAlert i k m = (m1, a1)" "alert_run cs m1 = (m2, a2)" by (metis surj_pair)
  from check_episode[OF Cons.prems(1,2) c(1)] Cons.IH[of m1 "as @ a1" a2] Cons.prems(3) c
  show ?case by (simp add: x)
qed simp

text \<open>Every alert fires and resolves in turn. Over any sequence of checks of any venues and codes,
  the published alerts of one venue and code are episodes: an alert fires once, is resolved
  under the same identifier and severity, and only then another one fires; the alert that is
  active at the end is the last one fired and not yet resolved.\<close>

theorem alerts_come_in_episodes:
  assumes "alert_run checks [] = (active, published)"
  shows "episodes (about v c published) (map_of active (v, c))"
proof -
  have "labelled []" "episodes (about v c []) (map_of [] (v, c))"
    by (simp_all add: labelled_def episodes_def about_def)
  from run_episodes[OF this assms] show ?thesis by simp
qed

lemma venue_health_run: "Alerts_OnVenueHealth fl uuid h m = alert_run
    [(uuid 0, \<lparr>ak_venue = he_venue h, ak_code = LowVenueHealthScore,
        ak_should_fire = he_health_score h < fp_round fl (8 / 10),
        ak_should_resolve = fp_round fl (8 / 10) \<le> he_health_score h, ak_severity = Severity_Warning\<rparr>),
     (uuid 1, \<lparr>ak_venue = he_venue h, ak_code = CircuitBreakerOpen,
        ak_should_fire = (he_breaker_state h = BREAKER_OPEN),
        ak_should_resolve = (he_breaker_state h = BREAKER_CLOSED), ak_severity = Severity_Error\<rparr>)] m"
  by (simp add: Alerts_OnVenueHealth_def Let_def split: prod.splits)

section \<open>The connectors do not send what the score reads\<close>

text \<open>The raw reports leave latency, staleness and snapshot rate unset, and the venue health service
  takes a rate below two per second as a reason for caution.\<close>

lemma routing_proto_allow: "routing_to_proto r = ROUTING_ALLOW \<longleftrightarrow> r = Routing_Allow"
  by (cases r) simp_all

theorem raw_reports_never_allow:
  assumes "consume_health fl cfg clock (PublishStatus fl h reason mode) m = (m', es)"
  shows "\<exists>e. es = [e] \<and> he_routing_recommendation e \<noteq> ROUTING_ALLOW"
proof -
  obtain t0 t1 t2 where c: "clock = (t0, t1, t2)" by (metis prod_cases3)
  let ?r = "raw_report_of (PublishStatus fl h reason mode)"
  have z: "rr_snapshots_per_sec ?r = 0" by (simp add: raw_report_of_def PublishStatus_def Let_def)
  have "vs_routing (Venue_OnRawReport fl cfg t1 t2 ?r s) \<noteq> Routing_Allow" for s
    by (cases "cb_state (Breaker_OnRawReport cfg t1 t2 ?r (vs_breaker s))")
      (simp_all add: Venue_OnRawReport_def Let_def z lower_to_def worse_def)
  then have "routing_to_proto (vs_routing (Venue_OnRawReport fl cfg t1 t2 ?r s)) \<noteq> ROUTING_ALLOW" for s
    unfolding routing_proto_allow .
  moreover have "he_event_type (PublishStatus fl h reason mode) = VENUE_HEALTH_EVENT_TYPE_RAW"
    by (simp add: PublishStatus_def Let_def)
  ultimately show ?thesis using assms
    by (auto simp: consume_health_def c Health_OnRawReport_def Let_def health_event_of_def)
qed

section \<open>Examples\<close>

definition ex_report :: "health_status \<Rightarrow> int \<Rightarrow> raw_report" where
  "ex_report st t = \<lparr>rr_venue = ''v'', rr_timestamp = t, rr_venue_status = st, rr_latency = 10, rr_stale = 0,
    rr_error_rate = 0, rr_error_count = 0, rr_snapshots_per_sec = 5, rr_last_snapshot_age = 0, rr_reason = []\<rparr>"

definition ex_health_config :: health_config where
  "ex_health_config = \<lparr>hc_circuit_breaker_window = 60, hc_circuit_breaker_cooldown = 300,
    hc_circuit_breaker_error_threshold = 2, hc_stale_threshold = 15\<rparr>"

text \<open>Two errors open the breaker until 300 milliseconds later.\<close>

theorem breaker_follows_errors_witness:
  "cb_state (fold (breaker_step ex_health_config) ([(1, 1, ex_report HealthStatus_Degraded 1)]
      @ [(2, 2, ex_report HealthStatus_Stale 2)]) new_breaker) = BreakerState_Open
    \<and> cb_cooldown_end (fold (breaker_step ex_health_config) ([(1, 1, ex_report HealthStatus_Degraded 1)]
      @ [(2, 2, ex_report HealthStatus_Stale 2)]) new_breaker) = 300000002"
proof -
  let ?xs = "[(1::int, 1::int, ex_report HealthStatus_Degraded 1)]" and ?r = "ex_report HealthStatus_Stale 2"
  have "kept_errors ex_health_config ?xs (2, 2, ?r) = {1, 2}"
    by (auto simp: kept_errors_def recent_errors_def error_times_def IsError_def ex_report_def ms_def ex_health_config_def)
  then have c: "hc_circuit_breaker_error_threshold ex_health_config \<le> card (kept_errors ex_health_config ?xs (2, 2, ?r))"
    by (simp add: ex_health_config_def)
  have s: "sorted (map fst (?xs @ [(2, 2, ?r)]))" by simp
  show ?thesis using breaker_follows_errors[OF s, of ex_health_config, unfolded if_P[OF c]]
    by (simp add: ms_def ex_health_config_def)
qed

definition ex_exact :: fp where
  "ex_exact = \<lparr>fp_round = (\<lambda>x. x), fp_strtod = (\<lambda>s. 0)\<rparr>"

definition ex_health_event :: "venue_status \<Rightarrow> int \<Rightarrow> health_event" where
  "ex_health_event st t = \<lparr>he_venue = ''v'', he_timestamp = t, he_event_type = VENUE_HEALTH_EVENT_TYPE_RAW,
    he_breaker_state = BREAKER_CLOSED, he_status = st, he_health_score = 1, he_latency_ms = 10, he_stale_ms = 0,
    he_error_rate = 0, he_error_count = 0, he_snapshots_per_sec = 5, he_last_snapshot_age = 0,
    he_routing_recommendation = ROUTING_ALLOW, he_reason = []\<rparr>"

theorem published_health_is_sound_witness:
  "\<exists>e. e \<in> set (snd (fold (service_step ex_exact ex_health_config)
      [((0, 1, 1), ex_health_event VENUE_HEALTH_STATUS_DEGRADED 1),
       ((2, 2, 2), ex_health_event VENUE_HEALTH_STATUS_STALE 2)] ([], [])))
    \<and> he_breaker_state e = BREAKER_OPEN \<and> he_routing_recommendation e = ROUTING_BLOCK \<and> he_health_score e = 0
    \<and> EvaluateVenueHealthGate ex_exact (fst (HealthChecks (risk_health e) empty_risk)) = kReject"
proof -
  let ?es = "[((0, 1, 1), ex_health_event VENUE_HEALTH_STATUS_DEGRADED 1),
       ((2, 2, 2), ex_health_event VENUE_HEALTH_STATUS_STALE 2)]"
  obtain m out where r: "fold (service_step ex_exact ex_health_config) ?es ([], []) = (m, out)" by force
  have t: "{a::int. a = 1 \<and> - 59999998 \<le> a} = {1}" by auto
  have "snd (fold (service_step ex_exact ex_health_config) ?es ([], [])) \<noteq> []
    \<and> he_breaker_state (last (snd (fold (service_step ex_exact ex_health_config) ?es ([], [])))) = BREAKER_OPEN"
    by (simp add: service_step_def consume_health_def ex_health_event_def Health_OnRawReport_def Let_def
          Venue_OnRawReport_def Breaker_OnRawReport_def raw_report_of_def IsError_def ms_def ex_health_config_def
          new_venue_state_def new_breaker_def t put_def find_def health_event_of_def)
  then have "last out \<in> set out" "he_breaker_state (last out) = BREAKER_OPEN" unfolding r by simp_all
  then obtain e where e: "e \<in> set out" "he_breaker_state e = BREAKER_OPEN" by blast
  have f: "fp_ok ex_exact" by (simp add: fp_ok_def ex_exact_def mono_def)
  have "\<forall>(clock, h) \<in> set ?es. rate_ok h" by (simp add: rate_ok_def ex_health_event_def)
  from published_health_is_sound[OF f this r e(1)] e r show ?thesis
    by (intro exI[of _ e]) (simp add: empty_risk_def)
qed

theorem alerts_come_in_episodes_witness:
  "episodes (about ''v'' CircuitBreakerOpen (snd (alert_run
      [(''1'', \<lparr>ak_venue = ''v'', ak_code = CircuitBreakerOpen, ak_should_fire = True, ak_should_resolve = False, ak_severity = Severity_Error\<rparr>),
       (''2'', \<lparr>ak_venue = ''v'', ak_code = CircuitBreakerOpen, ak_should_fire = True, ak_should_resolve = False, ak_severity = Severity_Error\<rparr>),
       (''3'', \<lparr>ak_venue = ''v'', ak_code = CircuitBreakerOpen, ak_should_fire = False, ak_should_resolve = True, ak_severity = Severity_Error\<rparr>)] []))) None"
proof -
  let ?cs = "[(''1'', \<lparr>ak_venue = ''v'', ak_code = CircuitBreakerOpen, ak_should_fire = True, ak_should_resolve = False, ak_severity = Severity_Error\<rparr>),
       (''2'', \<lparr>ak_venue = ''v'', ak_code = CircuitBreakerOpen, ak_should_fire = True, ak_should_resolve = False, ak_severity = Severity_Error\<rparr>),
       (''3'', \<lparr>ak_venue = ''v'', ak_code = CircuitBreakerOpen, ak_should_fire = False, ak_should_resolve = True, ak_severity = Severity_Error\<rparr>)]"
  obtain m out where r: "alert_run ?cs [] = (m, out)" by force
  then have "map_of m (''v'', CircuitBreakerOpen) = None" by (auto simp: CheckAlert_def Let_def)
  with alerts_come_in_episodes[OF r, of "''v''" CircuitBreakerOpen] r show ?thesis by simp
qed

end
