(* ===== verification/Replay_History.thy ===== *)
theory Replay_History
  imports Prelude "HOL-Library.Product_Lexorder" "HOL-Library.List_Lexorder" "HOL-Library.Char_ord" "HOL-Library.Multiset"
begin

text \<open>
  The history a replay runs on (\<open>backtest/src/app/historical_batch_loader_uc.cpp\<close>): rows of batch
  results, fills and market data are read page by page, sorted, and put together per batch. The
  storage (\<open>IHistoricalBatchLoader\<close>) is an argument. Doubles are rationals that are only passed on.
\<close>

section \<open>Rows\<close>

record batch_result_row =
  br_row_batch_id :: string
  br_row_event_time_ms :: int
  br_row_source :: string
  br_row_correlation_id :: string
  br_row_partition_key :: string
  br_row_residual_norm :: rat
  br_row_solve_time_ms :: int
  br_row_num_active_orders :: int
  br_row_config_version :: int
  br_row_solver_diagnostics_json :: string
  br_row_clear_prices_json :: string
  br_row_executed_rates_json :: string
  br_row_used_liquidity_json :: string
  br_row_fills_count :: nat

record fill_row =
  fr_batch_id :: string
  fr_event_time_ms :: int
  fr_order_id :: string
  fr_user_id :: string
  fr_symbol :: string
  fr_base :: string
  fr_quote :: string
  fr_side :: string
  fr_executed_qty :: rat
  fr_price :: rat
  fr_executed_notional :: rat
  fr_fee_amount :: rat
  fr_fee_currency :: string
  fr_liquidity_source :: string
  fr_venue_id :: string
  fr_snapshot_id :: string
  fr_curve_id :: string

record snapshot_row =
  sr_venue_id :: string
  sr_symbol :: string
  sr_event_time_ms :: int
  sr_best_bid :: rat
  sr_best_ask :: rat
  sr_mid_price :: rat
  sr_spread :: rat
  sr_bid_depth_json :: string
  sr_ask_depth_json :: string
  sr_tick_size :: rat
  sr_lot_size :: rat
  sr_status :: string

record historical_batch =
  hi_batch_result :: batch_result_row
  hi_fills :: "fill_row list"
  hi_marketdata_snapshots :: "snapshot_row list"

record loader_config =
  lf_from_ms :: int
  lf_to_ms :: int
  lf_chunk_size :: int

text \<open>A query: from, to, offset and limit.\<close>

type_synonym 'r row_query = "int \<Rightarrow> int \<Rightarrow> int \<Rightarrow> int \<Rightarrow> 'r list"

record row_loader =
  ld_batch_results :: "batch_result_row row_query"
  ld_fills :: "fill_row row_query"
  ld_snapshots :: "snapshot_row row_query"

record loader_stats =
  st_chunks_read :: nat
  st_batches_loaded :: nat
  st_fills_loaded :: nat
  st_snapshots_loaded :: nat
  st_last_batch_id :: string

section \<open>Reading page by page\<close>

text \<open>The loop ends with the first page that is not full; a storage that always fills the page never
  ends it.\<close>

partial_function (option) load_pages :: "(int \<Rightarrow> int \<Rightarrow> 'r list) \<Rightarrow> int \<Rightarrow> int \<Rightarrow> 'r list \<Rightarrow> nat \<Rightarrow> ('r list \<times> nat) option" where
  "load_pages load page offset acc reads =
     (if int (length (load offset page)) < page then Some (acc @ load offset page, reads + 1)
      else load_pages load page (offset + int (length (load offset page))) (acc @ load offset page) (reads + 1))"

definition LoadAllChunked :: "'r row_query \<Rightarrow> loader_config \<Rightarrow> ('r list \<times> nat) option" where
  "LoadAllChunked load cfg =
     (if lf_chunk_size cfg \<le> 0 then Some ([], 0)
      else load_pages (load (lf_from_ms cfg) (lf_to_ms cfg)) (lf_chunk_size cfg) 0 [] 0)"

section \<open>The history\<close>

text \<open>\<open>std::sort\<close> leaves the order of equal keys open; the model keeps it.\<close>

definition sort_batches :: "batch_result_row list \<Rightarrow> batch_result_row list" where
  "sort_batches = sort_key (\<lambda>r. (br_row_event_time_ms r, br_row_batch_id r))"

definition sort_fills :: "fill_row list \<Rightarrow> fill_row list" where
  "sort_fills = sort_key (\<lambda>r. (fr_event_time_ms r, fr_batch_id r, fr_order_id r))"

definition sort_snapshots :: "snapshot_row list \<Rightarrow> snapshot_row list" where
  "sort_snapshots = sort_key (\<lambda>r. (sr_event_time_ms r, sr_venue_id r, sr_symbol r))"

definition by_key :: "('r \<Rightarrow> 'k) \<Rightarrow> 'r list \<Rightarrow> ('k \<times> 'r list) list" where
  "by_key key rows = foldl (\<lambda>m r. AList.update (key r)
     ((case map_of m (key r) of None \<Rightarrow> [] | Some rs \<Rightarrow> rs) @ [r]) m) [] rows"

definition lookup_rows :: "('k \<times> 'r list) list \<Rightarrow> 'k \<Rightarrow> 'r list" where
  "lookup_rows m k = (case map_of m k of None \<Rightarrow> [] | Some rs \<Rightarrow> rs)"

definition historical_batch_of :: "(string \<times> fill_row list) list \<Rightarrow> (int \<times> snapshot_row list) list \<Rightarrow>
    batch_result_row \<Rightarrow> historical_batch" where
  "historical_batch_of fills snaps br =
     \<lparr>hi_batch_result = br, hi_fills = lookup_rows fills (br_row_batch_id br),
      hi_marketdata_snapshots = lookup_rows snaps (br_row_event_time_ms br)\<rparr>"

definition Loader_Run :: "row_loader option \<Rightarrow> loader_config \<Rightarrow> loader_stats \<Rightarrow>
    (historical_batch list \<times> loader_stats) option" where
  "Loader_Run loader cfg stats =
     (case loader of None \<Rightarrow> Some ([], stats) | Some l \<Rightarrow>
      if lf_to_ms cfg < lf_from_ms cfg then Some ([], stats)
      else case LoadAllChunked (ld_batch_results l) cfg of None \<Rightarrow> None | Some (bs, n1) \<Rightarrow>
      case LoadAllChunked (ld_fills l) cfg of None \<Rightarrow> None | Some (fs, n2) \<Rightarrow>
      case LoadAllChunked (ld_snapshots l) cfg of None \<Rightarrow> None | Some (ss, n3) \<Rightarrow>
        (let fills = by_key fr_batch_id (sort_fills fs);
             snaps = by_key sr_event_time_ms (sort_snapshots ss);
             hs = map (historical_batch_of fills snaps) (sort_batches bs)
         in Some (hs, stats\<lparr>st_chunks_read := st_chunks_read stats + n1 + n2 + n3,
              st_batches_loaded := st_batches_loaded stats + length hs,
              st_fills_loaded := st_fills_loaded stats + sum_list (map (length \<circ> hi_fills) hs),
              st_snapshots_loaded := st_snapshots_loaded stats + sum_list (map (length \<circ> hi_marketdata_snapshots) hs),
              st_last_batch_id := (if hs = [] then st_last_batch_id stats
                 else br_row_batch_id (hi_batch_result (last hs)))\<rparr>)))"

section \<open>Every row, once, in order\<close>

text \<open>A storage that answers a query with a page of a fixed list.\<close>

definition pages_of :: "'r row_query \<Rightarrow> loader_config \<Rightarrow> 'r list \<Rightarrow> bool" where
  "pages_of load cfg rows \<longleftrightarrow>
     (\<forall>offset limit. 0 \<le> offset \<longrightarrow> 0 \<le> limit \<longrightarrow>
       load (lf_from_ms cfg) (lf_to_ms cfg) offset limit = take (nat limit) (drop (nat offset) rows))"

lemma load_pages_all:
  assumes "\<And>i j. 0 \<le> i \<Longrightarrow> 0 \<le> j \<Longrightarrow> load i j = take (nat j) (drop (nat i) rows)" "0 < page" "n \<le> length rows"
  shows "load_pages load page (int n) (take n rows) r
    = Some (rows, r + (length rows - n) div nat page + 1)"
  using assms(3)
proof (induction "length rows - n" arbitrary: n r rule: less_induct)
  case less
  let ?rows = "take (nat page) (drop n rows)"
  have p: "load (int n) page = ?rows" using assms(1)[of "int n" page] assms(2) by simp
  show ?case
  proof (cases "length rows - n < nat page")
    case True
    then have "take n rows @ ?rows = rows" "int (length ?rows) < page" by auto
    then show ?thesis using True by (subst load_pages.simps) (simp add: p)
  next
    case False
    then have len: "length ?rows = nat page" "\<not> int (length ?rows) < page" using assms(2) by auto
    have t: "take n rows @ ?rows = take (n + nat page) rows" by (simp add: take_add)
    have "load_pages load page (int n) (take n rows) r
      = load_pages load page (int (n + nat page)) (take (n + nat page) rows) (r + 1)"
      using len t by (subst load_pages.simps) (simp add: p)
    also have "\<dots> = Some (rows, r + 1 + (length rows - (n + nat page)) div nat page + 1)"
      using less.hyps[of "n + nat page" "r + 1"] False assms(2) less.prems by auto
    also have "r + 1 + (length rows - (n + nat page)) div nat page + 1 = r + (length rows - n) div nat page + 1"
      using False assms(2) by (simp add: le_div_geq)
    finally show ?thesis .
  qed
qed

lemma LoadAllChunked_all:
  assumes "pages_of load cfg rows" "0 < lf_chunk_size cfg"
  shows "LoadAllChunked load cfg = Some (rows, length rows div nat (lf_chunk_size cfg) + 1)"
  using load_pages_all[of "load (lf_from_ms cfg) (lf_to_ms cfg)" rows "lf_chunk_size cfg" 0 0] assms
  by (simp add: LoadAllChunked_def pages_of_def)

lemma lookup_by_key: "lookup_rows (by_key key rows) k = filter (\<lambda>r. key r = k) rows"
proof -
  have "lookup_rows (foldl (\<lambda>m r. AList.update (key r)
      ((case map_of m (key r) of None \<Rightarrow> [] | Some rs \<Rightarrow> rs) @ [r]) m) m rows) k
    = lookup_rows m k @ filter (\<lambda>r. key r = k) rows" for m
    by (induction rows arbitrary: m) (auto simp: lookup_rows_def update_conv')
  from this[of "[]"] show ?thesis by (simp add: by_key_def lookup_rows_def)
qed

text \<open>C37. The history is read completely and the reading ends. When the storage answers with pages
  of fixed lists of rows and the page size is positive, the loader returns after one read more than
  the full pages of each list; it returns every batch once, ordered by time and identifier, each
  with exactly its own fills and the snapshots of its time, sorted, so no row is lost, repeated or
  given to a wrong batch.\<close>

theorem history_is_complete:
  assumes "pages_of (ld_batch_results l) cfg bs" "pages_of (ld_fills l) cfg fs" "pages_of (ld_snapshots l) cfg ss"
    and "0 < lf_chunk_size cfg" "lf_from_ms cfg \<le> lf_to_ms cfg"
  shows "\<exists>hs stats'. Loader_Run (Some l) cfg stats = Some (hs, stats')
    \<and> map hi_batch_result hs = sort_batches bs \<and> mset (map hi_batch_result hs) = mset bs
    \<and> sorted (map (\<lambda>h. (br_row_event_time_ms (hi_batch_result h), br_row_batch_id (hi_batch_result h))) hs)
    \<and> (\<forall>h \<in> set hs. mset (hi_fills h) = {#f \<in># mset fs. fr_batch_id f = br_row_batch_id (hi_batch_result h)#}
        \<and> sorted (map (\<lambda>f. (fr_event_time_ms f, fr_batch_id f, fr_order_id f)) (hi_fills h))
        \<and> mset (hi_marketdata_snapshots h) = {#x \<in># mset ss. sr_event_time_ms x = br_row_event_time_ms (hi_batch_result h)#}
        \<and> sorted (map (\<lambda>x. (sr_event_time_ms x, sr_venue_id x, sr_symbol x)) (hi_marketdata_snapshots h)))
    \<and> st_chunks_read stats' = st_chunks_read stats + length bs div nat (lf_chunk_size cfg)
        + length fs div nat (lf_chunk_size cfg) + length ss div nat (lf_chunk_size cfg) + 3
    \<and> st_batches_loaded stats' = st_batches_loaded stats + length bs"
proof -
  let ?of = "historical_batch_of (by_key fr_batch_id (sort_fills fs)) (by_key sr_event_time_ms (sort_snapshots ss))"
  let ?hs = "map ?of (sort_batches bs)"
  note r = LoadAllChunked_all[OF assms(1,4)] LoadAllChunked_all[OF assms(2,4)] LoadAllChunked_all[OF assms(3,4)]
  obtain stats' where run: "Loader_Run (Some l) cfg stats = Some (?hs, stats')"
    "st_chunks_read stats' = st_chunks_read stats + length bs div nat (lf_chunk_size cfg)
        + length fs div nat (lf_chunk_size cfg) + length ss div nat (lf_chunk_size cfg) + 3"
    "st_batches_loaded stats' = st_batches_loaded stats + length bs"
    using assms(5) by (simp add: Loader_Run_def r Let_def sort_batches_def)
  have m: "map hi_batch_result ?hs = sort_batches bs"
    by (simp add: historical_batch_of_def o_def)
  have s: "sorted (map (\<lambda>h. (br_row_event_time_ms (hi_batch_result h), br_row_batch_id (hi_batch_result h))) ?hs)"
    by (simp add: historical_batch_of_def o_def sort_batches_def)
  have f: "hi_fills (?of b) = filter (\<lambda>f. fr_batch_id f = br_row_batch_id b) (sort_fills fs)"
    "hi_marketdata_snapshots (?of b) = filter (\<lambda>x. sr_event_time_ms x = br_row_event_time_ms b) (sort_snapshots ss)"
    "hi_batch_result (?of b) = b" for b
    by (simp_all add: historical_batch_of_def lookup_by_key)
  have "mset (hi_fills h) = {#f \<in># mset fs. fr_batch_id f = br_row_batch_id (hi_batch_result h)#}
        \<and> sorted (map (\<lambda>f. (fr_event_time_ms f, fr_batch_id f, fr_order_id f)) (hi_fills h))
        \<and> mset (hi_marketdata_snapshots h) = {#x \<in># mset ss. sr_event_time_ms x = br_row_event_time_ms (hi_batch_result h)#}
        \<and> sorted (map (\<lambda>x. (sr_event_time_ms x, sr_venue_id x, sr_symbol x)) (hi_marketdata_snapshots h))"
    if "h \<in> set ?hs" for h
  proof -
    from that obtain b where h: "h = ?of b" by auto
    show ?thesis unfolding h f by (simp add: sort_fills_def sort_snapshots_def sorted_filter)
  qed
  with run m s show ?thesis by (intro exI[of _ ?hs] exI[of _ stats']) (simp add: sort_batches_def)
qed

section \<open>Examples\<close>

definition ex_batch_row :: "string \<Rightarrow> int \<Rightarrow> nat \<Rightarrow> batch_result_row" where
  "ex_batch_row i t n = \<lparr>br_row_batch_id = i, br_row_event_time_ms = t, br_row_source = [],
    br_row_correlation_id = [], br_row_partition_key = [], br_row_residual_norm = 0,
    br_row_solve_time_ms = 1, br_row_num_active_orders = 1, br_row_config_version = 1,
    br_row_solver_diagnostics_json = [], br_row_clear_prices_json = [], br_row_executed_rates_json = [],
    br_row_used_liquidity_json = [], br_row_fills_count = n\<rparr>"

definition ex_fill_row :: "string \<Rightarrow> int \<Rightarrow> string \<Rightarrow> fill_row" where
  "ex_fill_row b t i = \<lparr>fr_batch_id = b, fr_event_time_ms = t, fr_order_id = i, fr_user_id = ''u'',
    fr_symbol = ''BTC/USDT'', fr_base = ''BTC'', fr_quote = ''USDT'', fr_side = ''buy'', fr_executed_qty = 1,
    fr_price = 10, fr_executed_notional = 10, fr_fee_amount = 0, fr_fee_currency = [],
    fr_liquidity_source = [], fr_venue_id = [], fr_snapshot_id = [], fr_curve_id = []\<rparr>"

definition ex_paged :: "'r list \<Rightarrow> 'r row_query" where
  "ex_paged rows from until offset limit = take (nat limit) (drop (nat offset) rows)"

definition ex_row_loader :: row_loader where
  "ex_row_loader = \<lparr>ld_batch_results = ex_paged [ex_batch_row ''b2'' 20 1, ex_batch_row ''b1'' 10 1],
    ld_fills = ex_paged [ex_fill_row ''b2'' 20 ''o2'', ex_fill_row ''b1'' 10 ''o1''], ld_snapshots = ex_paged []\<rparr>"

text \<open>Two pages of one row and an empty one.\<close>

theorem history_is_complete_witness:
  "\<exists>hs stats. Loader_Run (Some ex_row_loader) \<lparr>lf_from_ms = 0, lf_to_ms = 100, lf_chunk_size = 1\<rparr>
      \<lparr>st_chunks_read = 0, st_batches_loaded = 0, st_fills_loaded = 0, st_snapshots_loaded = 0, st_last_batch_id = []\<rparr>
      = Some (hs, stats)
    \<and> map hi_batch_result hs = [ex_batch_row ''b1'' 10 1, ex_batch_row ''b2'' 20 1] \<and> st_chunks_read stats = 7"
proof -
  let ?cfg = "\<lparr>lf_from_ms = 0, lf_to_ms = 100, lf_chunk_size = 1\<rparr>"
  have p: "pages_of (ld_batch_results ex_row_loader) ?cfg [ex_batch_row ''b2'' 20 1, ex_batch_row ''b1'' 10 1]"
    "pages_of (ld_fills ex_row_loader) ?cfg [ex_fill_row ''b2'' 20 ''o2'', ex_fill_row ''b1'' 10 ''o1'']"
    "pages_of (ld_snapshots ex_row_loader) ?cfg []"
    by (simp_all add: pages_of_def ex_row_loader_def ex_paged_def)
  have s: "sort_batches [ex_batch_row ''b2'' 20 1, ex_batch_row ''b1'' 10 1] = [ex_batch_row ''b1'' 10 1, ex_batch_row ''b2'' 20 1]"
    by (simp add: sort_batches_def ex_batch_row_def)
  show ?thesis
    using history_is_complete[OF p, of "\<lparr>st_chunks_read = 0, st_batches_loaded = 0, st_fills_loaded = 0,
        st_snapshots_loaded = 0, st_last_batch_id = []\<rparr>"] s by auto
qed

end
