(* ===== verification/Replay_Journal.thy ===== *)
theory Replay_Journal
  imports Replay_History Risk
begin

text \<open>
  The steps of a replay: the result of a batch, the log written for it, the journal of the steps and
  the summary built from it (\<open>backtest/src/app/replay_orchestration_ports.hpp\<close>,
  \<open>replay_step_journal.cpp\<close>). Doubles are rationals with the rounding of \<open>fp\<close>; the square sqrt_d of
  the C library is an argument.
\<close>

section \<open>Results and logs\<close>

datatype failure_component =
    FailureComponent_kUnknown | FailureComponent_kSolver | FailureComponent_kMarketData
  | FailureComponent_kRisk | FailureComponent_kHistory | FailureComponent_kLedger
  | FailureComponent_kConfig | FailureComponent_kShadow | FailureComponent_kPipeline

datatype batch_outcome = BatchOutcome_kOk | BatchOutcome_kSoftFailure | BatchOutcome_kHardFailure

record batch_execution =
  be_outcome :: batch_outcome
  be_pnl :: rat
  be_is_value :: rat
  be_fill_rate :: rat
  be_fills_applied :: nat
  be_solve_time_ms :: nat
  be_error_details :: string
  be_error_code :: string
  be_failure_component :: failure_component
  be_residual_norm :: rat
  be_executed_qty :: rat
  be_requested_qty :: rat
  be_executed_notional :: rat
  be_is_weighted_sum :: rat
  be_is_weight :: rat
  be_state_json :: string
  be_action_json :: string
  be_fills_json :: string
  be_batch_result_json :: string
  be_metrics_json :: string
  be_risk_status :: string

definition no_execution :: batch_execution where
  "no_execution = \<lparr>be_outcome = BatchOutcome_kOk, be_pnl = 0, be_is_value = 0, be_fill_rate = 0,
     be_fills_applied = 0, be_solve_time_ms = 0, be_error_details = [], be_error_code = [],
     be_failure_component = FailureComponent_kUnknown, be_residual_norm = 0, be_executed_qty = 0,
     be_requested_qty = 0, be_executed_notional = 0, be_is_weighted_sum = 0, be_is_weight = 0,
     be_state_json = [], be_action_json = [], be_fills_json = [], be_batch_result_json = [],
     be_metrics_json = [], be_risk_status = []\<rparr>"

record agent_log =
  ag_log_id :: string
  ag_session_id :: string
  ag_batch_seq :: nat
  ag_original_batch_id :: string
  ag_event_time_ms :: int
  ag_pnl :: rat
  ag_is_value :: rat
  ag_fill_rate :: rat
  ag_fills_applied :: nat
  ag_solve_time_ms :: nat
  ag_residual_norm :: rat
  ag_reward :: rat
  ag_solver_error_flag :: bool
  ag_risk_status :: string
  ag_error_code :: string
  ag_error_details :: string
  ag_failure_component :: failure_component
  ag_state_json :: string
  ag_action_json :: string
  ag_fills_json :: string
  ag_batch_result_json :: string
  ag_metrics_json :: string
  ag_session_config_snapshot_version :: nat

record journal_entry =
  je_batch_id :: string
  je_agent_log :: agent_log
  je_execution :: batch_execution

section \<open>The journal\<close>

record journal =
  jn_order :: "string list"
  jn_entries :: "journal_entry umap"

definition empty_journal :: journal where
  "empty_journal = \<lparr>jn_order = [], jn_entries = []\<rparr>"

definition Journal_Size :: "journal \<Rightarrow> nat" where
  "Journal_Size j = length (jn_order j)"

definition Journal_Contains :: "journal \<Rightarrow> string \<Rightarrow> bool" where
  "Journal_Contains j i \<longleftrightarrow> find (jn_entries j) i \<noteq> None"

definition NextBatchSeq :: "journal \<Rightarrow> nat" where
  "NextBatchSeq j = length (jn_order j)"

definition Journal_Upsert :: "journal_entry \<Rightarrow> journal \<Rightarrow> journal" where
  "Journal_Upsert e j =
     (if je_batch_id e = [] then j
      else case find (jn_entries j) (je_batch_id e) of
        None \<Rightarrow> j\<lparr>jn_order := jn_order j @ [je_batch_id e], jn_entries := put (je_batch_id e) e (jn_entries j)\<rparr>
      | Some old \<Rightarrow> j\<lparr>jn_entries := put (je_batch_id e) e (jn_entries j)\<rparr>)"

definition TruncateFromBatch :: "string \<Rightarrow> journal \<Rightarrow> bool \<times> journal" where
  "TruncateFromBatch i j =
     (if i \<notin> set (jn_order j) then (False, j)
      else (True, \<lparr>jn_order = takeWhile (\<lambda>k. k \<noteq> i) (jn_order j),
                   jn_entries = fold erase (dropWhile (\<lambda>k. k \<noteq> i) (jn_order j)) (jn_entries j)\<rparr>))"

definition OrderedEntries :: "journal \<Rightarrow> journal_entry list" where
  "OrderedEntries j = List.map_filter (find (jn_entries j)) (jn_order j)"

section \<open>The summary\<close>

record replay_summary =
  sy_session_id :: string
  sy_total_batches :: nat
  sy_processed_batches :: nat
  sy_failed_batches :: nat
  sy_partial :: bool
  sy_total_pnl :: rat
  sy_avg_pnl :: rat
  sy_avg_is :: rat
  sy_std_pnl :: rat
  sy_sharpe :: rat
  sy_avg_fill_rate :: rat
  sy_avg_solve_time_ms :: rat
  sy_max_drawdown :: rat
  sy_total_fill_events :: nat
  sy_avg_vwap :: rat
  sy_avgis_rule :: string
  sy_decision_price_source :: string
  sy_no_requested_volume :: bool

definition empty_summary :: replay_summary where
  "empty_summary = \<lparr>sy_session_id = [], sy_total_batches = 0, sy_processed_batches = 0,
     sy_failed_batches = 0, sy_partial = False, sy_total_pnl = 0, sy_avg_pnl = 0, sy_avg_is = 0,
     sy_std_pnl = 0, sy_sharpe = 0, sy_avg_fill_rate = 0, sy_avg_solve_time_ms = 0, sy_max_drawdown = 0,
     sy_total_fill_events = 0, sy_avg_vwap = 0, sy_avgis_rule = ''volume_weighted'',
     sy_decision_price_source = ''marketdata_mid_with_clearprice_fallback'', sy_no_requested_volume = False\<rparr>"

text \<open>The running sums of the loop.\<close>

record summary_sums =
  ss_processed :: nat
  ss_failed :: nat
  ss_pnl :: rat
  ss_is :: rat
  ss_solve_time :: rat
  ss_fill_events :: nat
  ss_executed_qty :: rat
  ss_requested_qty :: rat
  ss_executed_notional :: rat
  ss_is_weighted :: rat
  ss_is_weight :: rat
  ss_cumulative_pnl :: rat
  ss_peak_pnl :: rat
  ss_max_drawdown :: rat
  ss_pnl_values :: "rat list"

definition no_sums :: summary_sums where
  "no_sums = \<lparr>ss_processed = 0, ss_failed = 0, ss_pnl = 0, ss_is = 0, ss_solve_time = 0, ss_fill_events = 0,
     ss_executed_qty = 0, ss_requested_qty = 0, ss_executed_notional = 0, ss_is_weighted = 0,
     ss_is_weight = 0, ss_cumulative_pnl = 0, ss_peak_pnl = 0, ss_max_drawdown = 0, ss_pnl_values = []\<rparr>"

definition sum_step :: "fp \<Rightarrow> batch_execution \<Rightarrow> summary_sums \<Rightarrow> summary_sums" where
  "sum_step fl x s =
     (let add = (\<lambda>a b. fp_round fl (a + b)); ok = (be_outcome x = BatchOutcome_kOk);
          cumulative = add (ss_cumulative_pnl s) (be_pnl x); peak = max (ss_peak_pnl s) cumulative
      in \<lparr>ss_processed = ss_processed s + (if ok then 1 else 0), ss_failed = ss_failed s + (if ok then 0 else 1),
          ss_pnl = add (ss_pnl s) (be_pnl x), ss_is = add (ss_is s) (be_is_value x),
          ss_solve_time = (if ok then add (ss_solve_time s) (of_nat (be_solve_time_ms x)) else ss_solve_time s),
          ss_fill_events = ss_fill_events s + be_fills_applied x,
          ss_executed_qty = add (ss_executed_qty s) (be_executed_qty x),
          ss_requested_qty = add (ss_requested_qty s) (be_requested_qty x),
          ss_executed_notional = add (ss_executed_notional s) (be_executed_notional x),
          ss_is_weighted = add (ss_is_weighted s) (be_is_weighted_sum x),
          ss_is_weight = add (ss_is_weight s) (be_is_weight x),
          ss_cumulative_pnl = cumulative, ss_peak_pnl = peak,
          ss_max_drawdown = max (ss_max_drawdown s) (fp_round fl (peak - cumulative)),
          ss_pnl_values = ss_pnl_values s @ [be_pnl x]\<rparr>)"

definition variance_of :: "fp \<Rightarrow> rat \<Rightarrow> rat list \<Rightarrow> rat" where
  "variance_of fl avg xs =
     (let diff = (\<lambda>x. fp_round fl (x - avg))
      in fp_round fl (foldl (\<lambda>v x. fp_round fl (v + fp_round fl (diff x * diff x))) 0 xs / of_nat (length xs)))"

definition BuildSummary :: "fp \<Rightarrow> (rat \<Rightarrow> rat) \<Rightarrow> string \<Rightarrow> nat \<Rightarrow> string \<Rightarrow> string \<Rightarrow> journal \<Rightarrow> replay_summary" where
  "BuildSummary fl sqrt_d session_id batch_count avgis_rule price_source j =
     (let s = fold (sum_step fl) (map je_execution (OrderedEntries j)) no_sums;
          quot = (\<lambda>a b. fp_round fl (a / b)); n = of_nat (length (ss_pnl_values s));
          rule = (if avgis_rule = [] then ''volume_weighted'' else avgis_rule);
          source = (if price_source = [] then ''marketdata_mid_with_clearprice_fallback'' else price_source);
          r = empty_summary\<lparr>sy_session_id := session_id, sy_total_batches := batch_count, sy_avgis_rule := rule,
                sy_decision_price_source := source, sy_processed_batches := ss_processed s,
                sy_failed_batches := ss_failed s, sy_total_fill_events := ss_fill_events s,
                sy_max_drawdown := ss_max_drawdown s\<rparr>;
          avg = quot (ss_pnl s) n; std = sqrt_d (variance_of fl avg (ss_pnl_values s));
          r = (if ss_pnl_values s = [] then r
               else r\<lparr>sy_total_pnl := ss_pnl s, sy_avg_pnl := avg,
                 sy_avg_is := (if rule = ''simple_mean'' then quot (ss_is s) n
                   else if 0 < ss_is_weight s then quot (ss_is_weighted s) (ss_is_weight s)
                   else quot (ss_is s) n),
                 sy_avg_fill_rate := (if 0 < ss_requested_qty s
                   then fp_round fl (quot (ss_executed_qty s) (ss_requested_qty s) * 100) else 0),
                 sy_no_requested_volume := (ss_requested_qty s \<le> 0),
                 sy_std_pnl := std, sy_sharpe := (if 0 < std then quot avg std else 0)\<rparr>);
          r = (if ss_processed s = 0 then r
               else r\<lparr>sy_avg_solve_time_ms := quot (ss_solve_time s) (of_nat (ss_processed s))\<rparr>)
      in if 0 < ss_executed_qty s then r\<lparr>sy_avg_vwap := quot (ss_executed_notional s) (ss_executed_qty s)\<rparr> else r)"

section \<open>Interface: a log of steps\<close>

text \<open>What a replay relies on: the log lists its steps in order, one per batch; a new step is
  appended, a step of a known batch is replaced in place, and cutting the log at a batch keeps what
  came before it.\<close>

definition replace_step :: "string \<Rightarrow> 'e \<Rightarrow> (string \<times> 'e) list \<Rightarrow> (string \<times> 'e) list" where
  "replace_step i e xs = (if i \<in> fst ` set xs then map (\<lambda>(k, x). (k, if k = i then e else x)) xs else xs @ [(i, e)])"

locale step_log =
  fixes good :: "'j \<Rightarrow> bool" and steps :: "'j \<Rightarrow> (string \<times> 'e) list" and fresh :: 'j
    and upsert :: "string \<Rightarrow> 'e \<Rightarrow> 'j \<Rightarrow> 'j" and cut :: "string \<Rightarrow> 'j \<Rightarrow> 'j" and has :: "'j \<Rightarrow> string \<Rightarrow> bool"
  assumes good_fresh: "good fresh" and fresh_steps: "steps fresh = []"
    and good_distinct: "good j \<Longrightarrow> distinct (map fst (steps j))"
    and good_upsert: "good j \<Longrightarrow> i \<noteq> [] \<Longrightarrow> good (upsert i e j)"
    and upsert_steps: "good j \<Longrightarrow> i \<noteq> [] \<Longrightarrow> steps (upsert i e j) = replace_step i e (steps j)"
    and good_cut: "good j \<Longrightarrow> good (cut i j)"
    and cut_steps: "good j \<Longrightarrow> steps (cut i j) = takeWhile (\<lambda>s. fst s \<noteq> i) (steps j)"
    and has_step: "good j \<Longrightarrow> has j i \<longleftrightarrow> i \<in> fst ` set (steps j)"
begin

definition restart :: "string \<Rightarrow> 'j \<Rightarrow> 'j" where
  "restart i j = (if has j i then cut i j else j)"

lemma good_restart: "good j \<Longrightarrow> good (restart i j)"
  by (simp add: restart_def good_cut)

lemma restart_steps:
  assumes "good j"
  shows "steps (restart i j) = takeWhile (\<lambda>s. fst s \<noteq> i) (steps j)"
proof (cases "has j i")
  case False
  then have "takeWhile (\<lambda>s. fst s \<noteq> i) (steps j) = steps j"
    using has_step[OF assms] by (auto simp: takeWhile_eq_all_conv)
  then show ?thesis using False by (simp only: restart_def if_False)
qed (simp add: restart_def cut_steps[OF assms])

lemma redo_steps:
  assumes "good j" "i \<noteq> []"
  shows "steps (upsert i e (restart i j)) = takeWhile (\<lambda>s. fst s \<noteq> i) (steps j) @ [(i, e)]"
proof -
  have "i \<notin> fst ` set (takeWhile (\<lambda>s. fst s \<noteq> i) (steps j))" by (auto dest: set_takeWhileD)
  then show ?thesis using upsert_steps[OF good_restart[OF assms(1)] assms(2)] restart_steps[OF assms(1)]
    by (simp add: replace_step_def)
qed

end

section \<open>The journal is a log of steps\<close>

definition step_journal_ok :: "journal \<Rightarrow> bool" where
  "step_journal_ok j \<longleftrightarrow> distinct (jn_order j) \<and> [] \<notin> set (jn_order j)
     \<and> (\<forall>i. find (jn_entries j) i \<noteq> None \<longleftrightarrow> i \<in> set (jn_order j))
     \<and> (\<forall>i e. find (jn_entries j) i = Some e \<longrightarrow> je_batch_id e = i)"

type_synonym batch_step = "agent_log \<times> batch_execution"

definition step_of :: "journal_entry \<Rightarrow> batch_step" where
  "step_of e = (je_agent_log e, je_execution e)"

definition journal_steps :: "journal \<Rightarrow> (string \<times> batch_step) list" where
  "journal_steps j = map (\<lambda>i. (i, step_of (the (find (jn_entries j) i)))) (jn_order j)"

definition journal_put :: "string \<Rightarrow> batch_step \<Rightarrow> journal \<Rightarrow> journal" where
  "journal_put i e j = Journal_Upsert \<lparr>je_batch_id = i, je_agent_log = fst e, je_execution = snd e\<rparr> j"

lemma find_erases: "find (fold erase ks m) k = (if k \<in> set ks then None else find m k)"
  by (induction ks arbitrary: m) auto

lemma split_at: "i \<in> set xs \<Longrightarrow> distinct xs \<Longrightarrow> k \<in> set (takeWhile (\<lambda>k. k \<noteq> i) xs) \<longleftrightarrow>
    k \<in> set xs \<and> k \<notin> set (dropWhile (\<lambda>k. k \<noteq> i) xs)"
  using takeWhile_dropWhile_id[of "\<lambda>k. k \<noteq> i" xs] distinct_append set_append
  by (metis (no_types, lifting) IntI Un_iff empty_iff)

lemma truncate_ok:
  assumes "step_journal_ok j"
  shows "step_journal_ok (snd (TruncateFromBatch i j))"
proof (cases "i \<in> set (jn_order j)")
  case True
  with assms show ?thesis
    by (auto simp: TruncateFromBatch_def step_journal_ok_def find_erases split_at distinct_takeWhile
        dest: set_takeWhileD split: if_splits)
qed (use assms in \<open>simp add: TruncateFromBatch_def\<close>)

lemma truncate_steps:
  assumes "step_journal_ok j"
  shows "journal_steps (snd (TruncateFromBatch i j)) = takeWhile (\<lambda>s. fst s \<noteq> i) (journal_steps j)"
proof (cases "i \<in> set (jn_order j)")
  case True
  with assms show ?thesis
    by (auto simp: TruncateFromBatch_def step_journal_ok_def journal_steps_def find_erases split_at takeWhile_map o_def
        cong: map_cong)
next
  case False
  then have "takeWhile (\<lambda>k. k \<noteq> i) (jn_order j) = jn_order j" by (auto simp: takeWhile_eq_all_conv)
  moreover have "snd (TruncateFromBatch i j) = j" using False by (simp add: TruncateFromBatch_def)
  moreover have "takeWhile (\<lambda>s. fst s \<noteq> i) (journal_steps j)
      = map (\<lambda>i. (i, step_of (the (find (jn_entries j) i)))) (takeWhile (\<lambda>k. k \<noteq> i) (jn_order j))"
    by (simp add: journal_steps_def takeWhile_map o_def)
  ultimately show ?thesis by (simp only: journal_steps_def)
qed

lemma entry_iff: "step_journal_ok j \<Longrightarrow> find (jn_entries j) i = None \<longleftrightarrow> i \<notin> set (jn_order j)"
  unfolding step_journal_ok_def by blast

lemma upsert_ok:
  assumes "step_journal_ok j"
  shows "step_journal_ok (Journal_Upsert e j)"
  using assms entry_iff[OF assms, of "je_batch_id e"]
  by (cases "find (jn_entries j) (je_batch_id e)") (auto simp: Journal_Upsert_def step_journal_ok_def)

lemma put_steps:
  assumes "step_journal_ok j" "i \<noteq> []"
  shows "journal_steps (journal_put i e j) = replace_step i e (journal_steps j)"
  using assms entry_iff[OF assms(1), of i]
  by (cases "find (jn_entries j) i")
    (auto simp: journal_put_def Journal_Upsert_def journal_steps_def replace_step_def step_of_def image_iff)

lemma journal_contains: "step_journal_ok j \<Longrightarrow> Journal_Contains j i \<longleftrightarrow> i \<in> fst ` set (journal_steps j)"
  by (auto simp: Journal_Contains_def entry_iff journal_steps_def image_iff)

text \<open>The key of a step is the identifier its entry carries.\<close>

interpretation batch_log: step_log step_journal_ok journal_steps empty_journal
    "\<lambda>i e. journal_put i e" "\<lambda>i j. snd (TruncateFromBatch i j)" Journal_Contains
proof
  fix j i and e :: batch_step
  show "step_journal_ok empty_journal" "journal_steps empty_journal = []"
    by (simp_all add: step_journal_ok_def journal_steps_def empty_journal_def)
  assume j: "step_journal_ok j"
  show "distinct (map fst (journal_steps j))"
    using j by (simp add: step_journal_ok_def journal_steps_def o_def)
  show "step_journal_ok (journal_put i e j)" using j by (simp add: journal_put_def upsert_ok)
  show "step_journal_ok (snd (TruncateFromBatch i j))" using j by (rule truncate_ok)
  show "journal_steps (snd (TruncateFromBatch i j)) = takeWhile (\<lambda>s. fst s \<noteq> i) (journal_steps j)"
    using j by (rule truncate_steps)
  show "Journal_Contains j i \<longleftrightarrow> i \<in> fst ` set (journal_steps j)" using j by (rule journal_contains)
  assume "i \<noteq> []"
  show "journal_steps (journal_put i e j) = replace_step i e (journal_steps j)" using j \<open>i \<noteq> []\<close> by (rule put_steps)
qed

end
