(* ===== verification/Replay_Sessions.thy ===== *)
theory Replay_Sessions
  imports Replay_Journal
begin

text \<open>
  The sessions of the backtest service and where they live: sessions that are not to be kept stay in
  the memory of the process (\<open>backtest/src/infra/ephemeral_session_registry.cpp\<close>), the others in
  PostgreSQL (\<open>infra/postgres/postgres_replay_session_repository.cpp\<close>); the routing wrappers
  (\<open>infra/routing_*.cpp\<close>) choose. A call that throws has no result (\<open>None\<close>). Time points are
  numbers; the conversion of time points to and from database columns is not modelled.
\<close>

section \<open>Sessions\<close>

datatype session_status =
    SessionStatus_kPending | SessionStatus_kRunning | SessionStatus_kCompleted
  | SessionStatus_kFailed | SessionStatus_kCancelled

record replay_session =
  se_session_id :: string
  se_user_id :: string
  se_name :: string
  se_strategy_json :: string
  se_date_range_from :: int
  se_date_range_to :: int
  se_solver_config_id :: string
  se_risk_limits_id :: string
  se_fee_model_json :: string
  se_snapshot_json :: "string option"
  se_status :: session_status
  se_total_batches :: "int option"
  se_progress_batches :: int
  se_created_at :: int
  se_started_at :: "int option"
  se_completed_at :: "int option"
  se_error_details :: "string option"
  se_retry_parent_id :: "string option"
  se_persist :: bool

record state_patch =
  pa_status :: "session_status option"
  pa_total_batches :: "int option"
  pa_progress_batches :: "int option"
  pa_started_at :: "int option"
  pa_completed_at :: "int option"
  pa_error_details :: "string option"

definition no_patch :: state_patch where
  "no_patch = \<lparr>pa_status = None, pa_total_batches = None, pa_progress_batches = None,
     pa_started_at = None, pa_completed_at = None, pa_error_details = None\<rparr>"

definition is_terminal :: "session_status \<Rightarrow> bool" where
  "is_terminal s \<longleftrightarrow> s \<in> {SessionStatus_kCompleted, SessionStatus_kFailed, SessionStatus_kCancelled}"

definition set_to :: "'a option \<Rightarrow> 'a \<Rightarrow> 'a" where
  "set_to p v = (case p of None \<Rightarrow> v | Some x \<Rightarrow> x)"

definition set_opt :: "'a option \<Rightarrow> 'a option \<Rightarrow> 'a option" where
  "set_opt p v = (case p of None \<Rightarrow> v | Some x \<Rightarrow> Some x)"

definition apply_patch :: "state_patch \<Rightarrow> replay_session \<Rightarrow> replay_session" where
  "apply_patch p s = s\<lparr>se_status := set_to (pa_status p) (se_status s),
     se_total_batches := set_opt (pa_total_batches p) (se_total_batches s),
     se_progress_batches := set_to (pa_progress_batches p) (se_progress_batches s),
     se_started_at := set_opt (pa_started_at p) (se_started_at s),
     se_completed_at := set_opt (pa_completed_at p) (se_completed_at s),
     se_error_details := set_opt (pa_error_details p) (se_error_details s)\<rparr>"

section \<open>The registry of ephemeral sessions\<close>

record registry =
  rg_sessions :: "replay_session umap"
  rg_ephemeral_ids :: "string set"

definition Registry_Insert :: "replay_session \<Rightarrow> registry \<Rightarrow> registry" where
  "Registry_Insert s r =
     (if se_session_id s \<in> rg_ephemeral_ids r then r
      else \<lparr>rg_sessions = put (se_session_id s) s (rg_sessions r),
            rg_ephemeral_ids = insert (se_session_id s) (rg_ephemeral_ids r)\<rparr>)"

definition IsEphemeral :: "registry \<Rightarrow> string \<Rightarrow> bool" where
  "IsEphemeral r i \<longleftrightarrow> i \<in> rg_ephemeral_ids r"

definition Registry_Get :: "registry \<Rightarrow> string \<Rightarrow> replay_session option" where
  "Registry_Get r i = find (rg_sessions r) i"

definition Registry_ApplyPatch :: "string \<Rightarrow> state_patch \<Rightarrow> registry \<Rightarrow> bool \<times> registry" where
  "Registry_ApplyPatch i p r =
     (case find (rg_sessions r) i of None \<Rightarrow> (False, r)
      | Some s \<Rightarrow> (True, r\<lparr>rg_sessions := put i (apply_patch p s) (rg_sessions r)\<rparr>))"

definition EvictIfTerminal :: "string \<Rightarrow> registry \<Rightarrow> bool \<times> registry" where
  "EvictIfTerminal i r =
     (case find (rg_sessions r) i of None \<Rightarrow> (False, r)
      | Some s \<Rightarrow> if is_terminal (se_status s)
          then (True, \<lparr>rg_sessions = erase i (rg_sessions r), rg_ephemeral_ids = rg_ephemeral_ids r - {i}\<rparr>)
          else (False, r))"

text \<open>Walking up the parents, with the visited sessions against a cycle.\<close>

function retry_walk :: "replay_session umap \<Rightarrow> string list \<Rightarrow> string \<Rightarrow> string list" where
  "retry_walk ss visited i =
     (if i = [] \<or> i \<in> set visited then []
      else case find ss i of None \<Rightarrow> []
      | Some s \<Rightarrow> i # (case se_retry_parent_id s of None \<Rightarrow> [] | Some p \<Rightarrow> retry_walk ss (i # visited) p))"
  by pat_completeness auto

termination
proof (relation "measure (\<lambda>(ss, visited, i). card (fst ` set ss - set visited))")
  fix ss :: "replay_session umap" and visited i s p
  assume "\<not> (i = [] \<or> i \<in> set visited)" "find ss i = Some s"
  then have "i \<in> fst ` set ss - set visited" by (force dest: find_in)
  then show "((ss, i # visited, p), (ss, visited, i)) \<in> measure (\<lambda>(ss, visited, i). card (fst ` set ss - set visited))"
    using psubset_card_mono[of "fst ` set ss - set visited" "fst ` set ss - set (i # visited)"] by auto
qed simp

declare retry_walk.simps [simp del]

definition Registry_GetRetryChain :: "registry \<Rightarrow> string \<Rightarrow> replay_session list" where
  "Registry_GetRetryChain r i =
     List.map_filter (find (rg_sessions r)) (rev (retry_walk (rg_sessions r) [] i))"

section \<open>The tables\<close>

text \<open>Sessions and summaries by session id.\<close>

record replay_tables =
  tb_sessions :: "replay_session umap"
  tb_summaries :: "replay_summary umap"

definition valid_new_session :: "replay_session \<Rightarrow> bool" where
  "valid_new_session s \<longleftrightarrow> se_session_id s \<noteq> [] \<and> se_user_id s \<noteq> [] \<and> se_name s \<noteq> []
     \<and> se_solver_config_id s \<noteq> [] \<and> se_risk_limits_id s \<noteq> []
     \<and> se_date_range_from s \<le> se_date_range_to s \<and> 0 \<le> se_progress_batches s
     \<and> (case se_total_batches s of None \<Rightarrow> True | Some t \<Rightarrow> se_progress_batches s \<le> t)"

definition valid_patch :: "state_patch \<Rightarrow> bool" where
  "valid_patch p \<longleftrightarrow> p \<noteq> no_patch
     \<and> (case pa_progress_batches p of None \<Rightarrow> True | Some n \<Rightarrow> 0 \<le> n)
     \<and> (case pa_total_batches p of None \<Rightarrow> True | Some t \<Rightarrow> 0 \<le> t)
     \<and> (case (pa_total_batches p, pa_progress_batches p) of (Some t, Some n) \<Rightarrow> n \<le> t | _ \<Rightarrow> True)"

text \<open>The primary key, the reference to the parent and the row that is read back. The JSON columns and
  the identifier columns keep the text (\<open>::jsonb\<close> and \<open>::uuid\<close> may refuse or rewrite it).\<close>

definition Pg_Create :: "replay_session \<Rightarrow> replay_tables \<Rightarrow> (replay_session \<times> replay_tables) option" where
  "Pg_Create s t =
     (if \<not> valid_new_session s \<or> find (tb_sessions t) (se_session_id s) \<noteq> None then None
      else if (case se_retry_parent_id s of None \<Rightarrow> False | Some p \<Rightarrow> find (tb_sessions t) p = None \<and> p \<noteq> se_session_id s) then None
      else let row = s\<lparr>se_persist := True\<rparr>
        in Some (row, t\<lparr>tb_sessions := put (se_session_id s) row (tb_sessions t)\<rparr>))"

definition Pg_GetById :: "string \<Rightarrow> replay_tables \<Rightarrow> replay_session option option" where
  "Pg_GetById i t = (if i = [] then None else Some (find (tb_sessions t) i))"

definition Pg_UpdateState :: "string \<Rightarrow> state_patch \<Rightarrow> replay_tables \<Rightarrow> (bool \<times> replay_tables) option" where
  "Pg_UpdateState i p t =
     (if i = [] \<or> \<not> valid_patch p then None
      else case find (tb_sessions t) i of None \<Rightarrow> Some (False, t)
      | Some s \<Rightarrow>
          let progress = set_to (pa_progress_batches p) (se_progress_batches s);
              batch_count = set_opt (pa_total_batches p) (se_total_batches s)
          in if progress < 0 \<or> (case batch_count of None \<Rightarrow> False | Some n \<Rightarrow> n < progress) then None
             else Some (True, t\<lparr>tb_sessions := put i (apply_patch p s) (tb_sessions t)\<rparr>))"

text \<open>The summary refers to its session and counts no more processed batches than there are.\<close>

definition Pg_SaveSummary :: "replay_summary \<Rightarrow> replay_tables \<Rightarrow> replay_tables option" where
  "Pg_SaveSummary s t =
     (if sy_session_id s = [] \<or> find (tb_sessions t) (sy_session_id s) = None
        \<or> sy_total_batches s < sy_processed_batches s then None
      else Some (t\<lparr>tb_summaries := put (sy_session_id s) s (tb_summaries t)\<rparr>))"

section \<open>Routing\<close>

text \<open>The tables are missing when no database is configured.\<close>

record session_store =
  so_registry :: registry
  so_tables :: "replay_tables option"

definition Store_Create :: "replay_session \<Rightarrow> session_store \<Rightarrow> (replay_session \<times> session_store) option" where
  "Store_Create s st =
     (if \<not> se_persist s then Some (s, st\<lparr>so_registry := Registry_Insert s (so_registry st)\<rparr>)
      else case so_tables st of None \<Rightarrow> None
      | Some t \<Rightarrow> (case Pg_Create s t of None \<Rightarrow> None | Some (row, t) \<Rightarrow> Some (row, st\<lparr>so_tables := Some t\<rparr>)))"

definition Store_GetById :: "string \<Rightarrow> session_store \<Rightarrow> replay_session option option" where
  "Store_GetById i st =
     (if IsEphemeral (so_registry st) i then Some (Registry_Get (so_registry st) i)
      else case so_tables st of None \<Rightarrow> Some None | Some t \<Rightarrow> Pg_GetById i t)"

definition Store_UpdateState :: "string \<Rightarrow> state_patch \<Rightarrow> session_store \<Rightarrow> (bool \<times> session_store) option" where
  "Store_UpdateState i p st =
     (if IsEphemeral (so_registry st) i
      then (let (ok, r) = Registry_ApplyPatch i p (so_registry st) in Some (ok, st\<lparr>so_registry := r\<rparr>))
      else case so_tables st of None \<Rightarrow> Some (False, st)
      | Some t \<Rightarrow> (case Pg_UpdateState i p t of None \<Rightarrow> None | Some (ok, t) \<Rightarrow> Some (ok, st\<lparr>so_tables := Some t\<rparr>)))"

definition Store_SaveSummary :: "replay_summary \<Rightarrow> session_store \<Rightarrow> session_store option" where
  "Store_SaveSummary s st =
     (if IsEphemeral (so_registry st) (sy_session_id s) then Some st
      else case so_tables st of None \<Rightarrow> Some st
      | Some t \<Rightarrow> map_option (\<lambda>t. st\<lparr>so_tables := Some t\<rparr>) (Pg_SaveSummary s t))"

definition Evict :: "string \<Rightarrow> session_store \<Rightarrow> session_store" where
  "Evict i st = st\<lparr>so_registry := snd (EvictIfTerminal i (so_registry st))\<rparr>"

section \<open>Facts\<close>

definition registry_ok :: "registry \<Rightarrow> bool" where
  "registry_ok r \<longleftrightarrow> (\<forall>i. i \<in> rg_ephemeral_ids r \<longleftrightarrow> find (rg_sessions r) i \<noteq> None)"

text \<open>What the rest of the service reads of a session.\<close>

definition session_at :: "session_store \<Rightarrow> string \<Rightarrow> replay_session option" where
  "session_at st i = (if IsEphemeral (so_registry st) i then Registry_Get (so_registry st) i
     else case so_tables st of None \<Rightarrow> None | Some t \<Rightarrow> find (tb_sessions t) i)"

lemma GetById_session_at: "i \<noteq> [] \<Longrightarrow> Store_GetById i st = Some (session_at st i)"
  by (simp add: Store_GetById_def session_at_def Pg_GetById_def split: option.splits)

lemma is_terminal_simps [simp]:
  "\<not> is_terminal SessionStatus_kPending" "\<not> is_terminal SessionStatus_kRunning"
  "is_terminal SessionStatus_kCompleted" "is_terminal SessionStatus_kFailed" "is_terminal SessionStatus_kCancelled"
  by (simp_all add: is_terminal_def)

lemma set_to_simps [simp]: "set_to None v = v" "set_to (Some x) v = x"
  by (simp_all add: set_to_def)

lemma set_opt_simps [simp]: "set_opt None v = v" "set_opt (Some x) v = Some x"
  by (simp_all add: set_opt_def)

lemma apply_patch_fields [simp]:
  "se_status (apply_patch p s) = set_to (pa_status p) (se_status s)"
  "se_total_batches (apply_patch p s) = set_opt (pa_total_batches p) (se_total_batches s)"
  "se_progress_batches (apply_patch p s) = set_to (pa_progress_batches p) (se_progress_batches s)"
  "se_session_id (apply_patch p s) = se_session_id s" "se_user_id (apply_patch p s) = se_user_id s"
  "se_retry_parent_id (apply_patch p s) = se_retry_parent_id s" "se_persist (apply_patch p s) = se_persist s"
  by (simp_all add: apply_patch_def)

text \<open>A patch of a known session that keeps the progress within the number of batches is applied,
  wherever the session lives, and touches no other session.\<close>

lemma UpdateState_applies:
  assumes "session_at st i = Some s" "registry_ok (so_registry st)" "i \<noteq> []" "valid_patch p"
    and "0 \<le> set_to (pa_progress_batches p) (se_progress_batches s)"
    and "\<And>n. set_opt (pa_total_batches p) (se_total_batches s) = Some n
      \<Longrightarrow> set_to (pa_progress_batches p) (se_progress_batches s) \<le> n"
  obtains st' where "Store_UpdateState i p st = Some (True, st')" "session_at st' i = Some (apply_patch p s)"
    "registry_ok (so_registry st')" "\<And>k. k \<noteq> i \<Longrightarrow> session_at st' k = session_at st k"
    "\<And>k. IsEphemeral (so_registry st') k = IsEphemeral (so_registry st) k" "(so_tables st' = None) = (so_tables st = None)"
proof (cases "IsEphemeral (so_registry st) i")
  case True
  then have f: "find (rg_sessions (so_registry st)) i = Some s" using assms(1) by (simp add: session_at_def Registry_Get_def)
  let ?st = "st\<lparr>so_registry := (so_registry st)\<lparr>rg_sessions := put i (apply_patch p s) (rg_sessions (so_registry st))\<rparr>\<rparr>"
  show ?thesis
  proof (rule that[of ?st])
    show "Store_UpdateState i p st = Some (True, ?st)" using True f by (simp add: Store_UpdateState_def Registry_ApplyPatch_def)
    show "session_at ?st i = Some (apply_patch p s)" using True by (simp add: session_at_def Registry_Get_def IsEphemeral_def)
    show "registry_ok (so_registry ?st)" using assms(2) f by (auto simp: registry_ok_def)
  qed (simp_all add: session_at_def Registry_Get_def IsEphemeral_def)
next
  case False
  then obtain t where t: "so_tables st = Some t" "find (tb_sessions t) i = Some s"
    using assms(1) by (auto simp: session_at_def split: option.splits)
  let ?t = "t\<lparr>tb_sessions := put i (apply_patch p s) (tb_sessions t)\<rparr>"
  have fit: "\<not> (case set_opt (pa_total_batches p) (se_total_batches s) of None \<Rightarrow> False
      | Some n \<Rightarrow> n < set_to (pa_progress_batches p) (se_progress_batches s))"
    using assms(6) by (force split: option.splits)
  have "Pg_UpdateState i p t = Some (True, ?t)"
    unfolding Pg_UpdateState_def Let_def using assms(3-5) t fit by simp
  then have u: "Store_UpdateState i p st = Some (True, st\<lparr>so_tables := Some ?t\<rparr>)" using False t by (simp add: Store_UpdateState_def)
  show ?thesis by (rule that[OF u]) (use False t assms(2) in \<open>simp_all add: session_at_def\<close>)
qed

lemma retry_walk_bounded:
  "distinct (retry_walk ss visited i) \<and> set (retry_walk ss visited i) \<inter> set visited = {}
    \<and> set (retry_walk ss visited i) \<subseteq> fst ` set ss"
proof (induction ss visited i rule: retry_walk.induct)
  case (1 ss visited i)
  show ?case
  proof (cases "i = [] \<or> i \<in> set visited \<or> find ss i = None")
    case True
    then show ?thesis by (subst (1 2 3) retry_walk.simps) auto
  next
    case False
    then obtain s where s: "find ss i = Some s" by auto
    then have i: "i \<in> fst ` set ss" by (force dest: find_in)
    show ?thesis
    proof (cases "se_retry_parent_id s")
      case None
      then show ?thesis using False s i by (subst (1 2 3) retry_walk.simps) auto
    next
      case (Some p)
      have w: "retry_walk ss visited i = i # retry_walk ss (i # visited) p"
        using False s Some by (subst retry_walk.simps) simp
      show ?thesis unfolding w using 1[OF _ s Some] False i by auto
    qed
  qed
qed

end
