(* ===== verification/Replay_Run.thy ===== *)
theory Replay_Run
  imports Replay_Sessions Decimal_Text
begin

text \<open>
  Running a replay session (\<open>backtest/src/app/run_replay_session_uc.cpp\<close>). The parts it calls are the
  fields of \<open>run_deps\<close>, a missing one is \<open>None\<close>; the shadow ledger behind them is a state of any
  type. An exception that leaves \<open>Run\<close> has no result. The library that reads JSON is an argument,
  as are the clock, the cancellation token and what other threads did to the stored sessions while
  the history was read. Metrics of the process are not modelled.
\<close>

section \<open>Events\<close>

datatype lifecycle_status =
    LifecycleStatus_kRunning | LifecycleStatus_kCompleted | LifecycleStatus_kFailed | LifecycleStatus_kCancelled

record lifecycle_event =
  le_session_id :: string
  le_status :: lifecycle_status
  le_summary :: "replay_summary option"
  le_error_details :: "string option"
  le_error_code :: "string option"

datatype replay_event = ProgressEvent string nat nat | LifecycleEvent lifecycle_event

fun ToLifecycle :: "session_status \<Rightarrow> lifecycle_status" where
  "ToLifecycle SessionStatus_kCompleted = LifecycleStatus_kCompleted"
| "ToLifecycle SessionStatus_kFailed = LifecycleStatus_kFailed"
| "ToLifecycle SessionStatus_kCancelled = LifecycleStatus_kCancelled"
| "ToLifecycle s = LifecycleStatus_kRunning"

section \<open>Reading the snapshot of the configuration\<close>

datatype json = JString string | JObject "(string \<times> json) list" | JOther

datatype reward_mode = RewardMode_kIncrementalPnl | RewardMode_kNegativeIs

definition tolower :: "char \<Rightarrow> char" where
  "tolower c = (if 65 \<le> (of_char c :: nat) \<and> (of_char c :: nat) \<le> 90 then char_of (of_char c + (32 :: nat)) else c)"

definition NormalizeMode :: "string \<Rightarrow> string" where
  "NormalizeMode raw = map tolower (filter (\<lambda>c. c \<notin> {CHR ''_'', CHR ''-'', CHR '' ''}) raw)"

fun JsonString :: "json \<Rightarrow> string list \<Rightarrow> string option" where
  "JsonString (JObject m) (k # ks) =
     (case find m k of Some (JString s) \<Rightarrow> if s = [] then JsonString (JObject m) ks else Some s
      | _ \<Rightarrow> JsonString (JObject m) ks)"
| "JsonString j ks = None"

definition raw_reward_mode :: "(string \<Rightarrow> json option) \<Rightarrow> json \<Rightarrow> string option" where
  "raw_reward_mode parse snapshot =
     (case JsonString snapshot [''rewardmode'', ''reward_mode'', ''mode''] of Some m \<Rightarrow> Some m | None \<Rightarrow>
      case snapshot of JObject m \<Rightarrow> (case find m ''reward_config'' of Some (JObject cfg) \<Rightarrow>
        (case JsonString (JObject cfg) [''mode''] of Some m \<Rightarrow> Some m | None \<Rightarrow>
         case JsonString (JObject cfg) [''body_json'', ''bodyJson''] of None \<Rightarrow> None | Some body \<Rightarrow>
         case parse body of None \<Rightarrow> None | Some b \<Rightarrow> JsonString b [''mode'', ''rewardmode'', ''reward_mode''])
      | _ \<Rightarrow> None) | _ \<Rightarrow> None)"

definition RewardModeFromSnapshot :: "(string \<Rightarrow> json option) \<Rightarrow> string \<Rightarrow> string + reward_mode" where
  "RewardModeFromSnapshot parse text =
     (case (if text = [] then None else parse text) of
        Some (JObject m) \<Rightarrow> (case raw_reward_mode parse (JObject m) of
            None \<Rightarrow> Inr RewardMode_kIncrementalPnl
          | Some raw \<Rightarrow>
              let mode = NormalizeMode raw
              in if mode = ''incrementalpnl'' then Inr RewardMode_kIncrementalPnl
                 else if mode \<in> {''is'', ''negativeis'', ''minusis'', ''shortfall''} then Inr RewardMode_kNegativeIs
                 else Inl (''Unsupported reward mode in replay snapshot: '' @ raw))
      | _ \<Rightarrow> Inr RewardMode_kIncrementalPnl)"

definition SnapshotStringOrDefault :: "(string \<Rightarrow> json option) \<Rightarrow> string \<Rightarrow> string list \<Rightarrow> string \<Rightarrow> string" where
  "SnapshotStringOrDefault parse text keys fallback =
     (case (if text = [] then None else parse text) of
        Some (JObject m) \<Rightarrow> (case JsonString (JObject m) keys of Some v \<Rightarrow> v | None \<Rightarrow> fallback)
      | _ \<Rightarrow> fallback)"

definition ComputeReward :: "batch_execution \<Rightarrow> reward_mode \<Rightarrow> rat" where
  "ComputeReward x mode =
     (if be_outcome x \<noteq> BatchOutcome_kOk then 0
      else case mode of RewardMode_kNegativeIs \<Rightarrow> - be_is_value x | RewardMode_kIncrementalPnl \<Rightarrow> be_pnl x)"

section \<open>Failures\<close>

definition ComposeError :: "string \<Rightarrow> string \<Rightarrow> string" where
  "ComposeError code details = (if code = [] then details else if details = [] then code else code @ '': '' @ details)"

definition MakeFailureResult :: "batch_outcome \<Rightarrow> failure_component \<Rightarrow> string \<Rightarrow> string \<Rightarrow> batch_execution" where
  "MakeFailureResult outcome component code details =
     no_execution\<lparr>be_outcome := outcome, be_error_code := code, be_error_details := ComposeError code details,
       be_failure_component := component\<rparr>"

definition batch_id_of :: "historical_batch \<Rightarrow> string" where
  "batch_id_of b = br_row_batch_id (hi_batch_result b)"

definition ValidateBatchInputs :: "historical_batch \<Rightarrow> batch_execution option" where
  "ValidateBatchInputs b =
     (if batch_id_of b = [] then Some (MakeFailureResult BatchOutcome_kHardFailure FailureComponent_kHistory
          ''history_corrupt'' ''historical batch_id is empty'')
      else if 0 < br_row_fills_count (hi_batch_result b) \<and> length (hi_fills b) < br_row_fills_count (hi_batch_result b)
      then Some (MakeFailureResult BatchOutcome_kSoftFailure FailureComponent_kHistory
          ''history_incomplete'' (''historical fills missing for batch_id='' @ batch_id_of b))
      else None)"

definition CountUniqueBatchIds :: "historical_batch list \<Rightarrow> nat" where
  "CountUniqueBatchIds history = length (remdups (map batch_id_of history))"

section \<open>The parts\<close>

record namespace_result =
  ns_ok :: bool
  ns_reused :: bool
  ns_namespace_id :: string
  ns_error :: string

record 'w shadow_ports =
  sh_has_checkpoint :: "string \<Rightarrow> string \<Rightarrow> 'w \<Rightarrow> bool"
  sh_restore_before :: "string \<Rightarrow> string \<Rightarrow> 'w \<Rightarrow> bool \<times> 'w"

text \<open>The executor gets namespace, snapshot, strategy, tracked user, currency and batch; the initializer
  session, tracked user, currency and time; \<open>rd_config\<close> is the answer of the configuration builder to
  the request of this run, an error or the snapshot; the writer answers with what it threw;
  \<open>rd_restore_state\<close> with an error.\<close>

record 'w run_deps =
  rd_session_repo :: bool
  rd_config :: "(string + string) option"
  rd_shadow_init :: "(string \<Rightarrow> string \<Rightarrow> string \<Rightarrow> int \<Rightarrow> 'w \<Rightarrow> namespace_result \<times> 'w) option"
  rd_shadow_ledger :: "'w shadow_ports option"
  rd_history_loader :: "(loader_config \<Rightarrow> historical_batch list) option"
  rd_batch_executor :: "(string \<Rightarrow> string \<Rightarrow> string \<Rightarrow> string \<Rightarrow> string \<Rightarrow> historical_batch \<Rightarrow> 'w \<Rightarrow> batch_execution \<times> 'w) option"
  rd_agent_log_writer :: "(agent_log \<Rightarrow> string option) option"
  rd_summary_store :: bool
  rd_event_publisher :: bool
  rd_rbac_engine :: "(string \<Rightarrow> string \<Rightarrow> bool \<times> string option) option"
  rd_restore_state :: "(string \<Rightarrow> string \<Rightarrow> string \<Rightarrow> 'w \<Rightarrow> string option \<times> 'w) option"

record run_request =
  rq_session_id :: string
  rq_tracked_user_id :: string
  rq_reporting_currency :: string
  rq_history_config :: loader_config

record replay_result =
  rn_final_status :: session_status
  rn_summary :: replay_summary
  rn_error_details :: string
  rn_error_code :: string

text \<open>Readings of one run: the clock at the namespace, at the start and at the end, the polls of the
  token in order, and the change of the stored sessions by others while the run prepared.\<close>

record run_readings =
  re_created_at_ms :: int
  re_started_at :: int
  re_completed_at :: int
  re_cancelled :: "nat \<Rightarrow> bool"
  re_meanwhile :: "session_store \<Rightarrow> session_store"

record 'w replay_world =
  wo_store :: session_store
  wo_shadow :: 'w
  wo_logs :: "agent_log list"
  wo_events :: "replay_event list"

definition publish :: "'w run_deps \<Rightarrow> replay_event \<Rightarrow> 'w replay_world \<Rightarrow> 'w replay_world" where
  "publish d e w = (if rd_event_publisher d then w\<lparr>wo_events := wo_events w @ [e]\<rparr> else w)"

definition update_session :: "string \<Rightarrow> state_patch \<Rightarrow> 'w replay_world \<Rightarrow> 'w replay_world option" where
  "update_session i p w = map_option (\<lambda>(ok, st). w\<lparr>wo_store := st\<rparr>) (Store_UpdateState i p (wo_store w))"

definition save_summary :: "'w run_deps \<Rightarrow> replay_summary \<Rightarrow> 'w replay_world \<Rightarrow> 'w replay_world option" where
  "save_summary d s w =
     (if rd_summary_store d then map_option (\<lambda>st. w\<lparr>wo_store := st\<rparr>) (Store_SaveSummary s (wo_store w)) else Some w)"

definition lifecycle :: "string \<Rightarrow> lifecycle_status \<Rightarrow> lifecycle_event" where
  "lifecycle i s = \<lparr>le_session_id = i, le_status = s, le_summary = None, le_error_details = None, le_error_code = None\<rparr>"

section \<open>Ways out before the first batch\<close>

definition failed_result :: "string \<Rightarrow> string \<Rightarrow> string \<Rightarrow> replay_result" where
  "failed_result i code err = \<lparr>rn_final_status = SessionStatus_kFailed,
     rn_summary = empty_summary\<lparr>sy_session_id := i, sy_partial := True\<rparr>,
     rn_error_details = ComposeError code err, rn_error_code = []\<rparr>"

definition FailFromInit :: "'w run_deps \<Rightarrow> run_readings \<Rightarrow> string \<Rightarrow> string \<Rightarrow> string \<Rightarrow> 'w replay_world \<Rightarrow>
    (replay_result \<times> 'w replay_world) option" where
  "FailFromInit d re i code err w =
     (let r = failed_result i code err;
          p = no_patch\<lparr>pa_status := Some SessionStatus_kFailed, pa_completed_at := Some (re_completed_at re),
                pa_error_details := Some (rn_error_details r)\<rparr>
      in case (if rd_session_repo d then update_session i p w else Some w) of None \<Rightarrow> None | Some w \<Rightarrow>
      case save_summary d (rn_summary r) w of None \<Rightarrow> None | Some w \<Rightarrow>
      Some (r, publish d (LifecycleEvent ((lifecycle i LifecycleStatus_kFailed)\<lparr>le_summary := Some (rn_summary r),
        le_error_details := Some (rn_error_details r),
        le_error_code := (if code = [] then None else Some code)\<rparr>)) w))"

definition stored_total_batches :: "replay_session \<Rightarrow> nat \<Rightarrow> nat" where
  "stored_total_batches s fallback = (case se_total_batches s of Some n \<Rightarrow> if 0 < n then nat n else fallback | None \<Rightarrow> fallback)"

definition stored_progress_batches :: "replay_session \<Rightarrow> nat" where
  "stored_progress_batches s = (if 0 < se_progress_batches s then nat (se_progress_batches s) else 0)"

definition value_or :: "string option \<Rightarrow> string \<Rightarrow> string" where
  "value_or p v = (case p of Some x \<Rightarrow> x | None \<Rightarrow> v)"

definition terminal_skip :: "string \<Rightarrow> replay_session \<Rightarrow> nat \<Rightarrow> replay_result" where
  "terminal_skip i s fallback = \<lparr>rn_final_status = se_status s,
     rn_summary = empty_summary\<lparr>sy_session_id := i, sy_total_batches := stored_total_batches s fallback,
       sy_processed_batches := stored_progress_batches s, sy_partial := (se_status s \<noteq> SessionStatus_kCompleted)\<rparr>,
     rn_error_details = value_or (se_error_details s) ''Replay session is already in terminal status'',
     rn_error_code = []\<rparr>"

definition cancel_before_running :: "'w run_deps \<Rightarrow> run_readings \<Rightarrow> string \<Rightarrow> nat \<Rightarrow> nat \<Rightarrow> string \<Rightarrow> 'w replay_world \<Rightarrow>
    (replay_result \<times> 'w replay_world) option" where
  "cancel_before_running d re i batch_count processed details w =
     (let r = \<lparr>rn_final_status = SessionStatus_kCancelled,
            rn_summary = empty_summary\<lparr>sy_session_id := i, sy_total_batches := batch_count,
              sy_processed_batches := processed, sy_partial := True\<rparr>,
            rn_error_details = (if details = [] then ''Replay session was cancelled before running'' else details),
            rn_error_code = ''cancelled''\<rparr>;
          p = no_patch\<lparr>pa_status := Some SessionStatus_kCancelled, pa_completed_at := Some (re_completed_at re),
                pa_progress_batches := Some (i32 (int processed)), pa_error_details := Some (rn_error_details r)\<rparr>
      in case update_session i p w of None \<Rightarrow> None | Some w \<Rightarrow>
      case save_summary d (rn_summary r) w of None \<Rightarrow> None | Some w \<Rightarrow>
      Some (r, publish d (LifecycleEvent ((lifecycle i LifecycleStatus_kCancelled)\<lparr>le_summary := Some (rn_summary r),
        le_error_details := Some (rn_error_details r), le_error_code := Some (rn_error_code r)\<rparr>)) w))"

section \<open>One batch\<close>

text \<open>What the loop reads but does not change.\<close>

record run_context =
  cx_session_id :: string
  cx_namespace_id :: string
  cx_snapshot_json :: string
  cx_strategy_json :: string
  cx_tracked_user_id :: string
  cx_reporting_currency :: string
  cx_total_batches :: nat
  cx_reward_mode :: reward_mode

datatype run_end = RunFinished | RunCancelled | RunHardFailed string string

text \<open>A batch that was already stepped starts over: the shadow ledger goes back to before it, and the
  journal forgets it and what followed.\<close>

definition restart_batch :: "'w run_deps \<Rightarrow> run_context \<Rightarrow> string \<Rightarrow> journal \<Rightarrow> 'w replay_world \<Rightarrow>
    run_end option \<times> journal \<times> 'w replay_world" where
  "restart_batch d cx b j w =
     (if \<not> Journal_Contains j b then (None, j, w)
      else case rd_restore_state d of
        Some restore \<Rightarrow> (case restore (cx_session_id cx) (cx_namespace_id cx) b (wo_shadow w) of
            (None, sh) \<Rightarrow> (None, j, w\<lparr>wo_shadow := sh\<rparr>)
          | (Some err, sh) \<Rightarrow> (Some (RunHardFailed ''restore_state_failed''
              (''RestoreState failed for batch_id='' @ b @ '': '' @ err)), j, w\<lparr>wo_shadow := sh\<rparr>))
      | None \<Rightarrow> (case rd_shadow_ledger d of
          None \<Rightarrow> (Some (RunHardFailed ''shadow_ledger_missing''
            (''Replay restart requires shadow_ledger dependency for duplicate batch_id='' @ b)), j, w)
        | Some sl \<Rightarrow>
            if sh_has_checkpoint sl (cx_namespace_id cx) b (wo_shadow w)
            then (let (ok, sh) = sh_restore_before sl (cx_namespace_id cx) b (wo_shadow w)
              in if ok then (None, snd (TruncateFromBatch b j), w\<lparr>wo_shadow := sh\<rparr>)
                 else (Some (RunHardFailed ''shadow_namespace_restore_failed''
                   (''Failed to restore shadow namespace before batch_id='' @ b)), j, w\<lparr>wo_shadow := sh\<rparr>))
            else (None, snd (TruncateFromBatch b j), w)))"

definition execute :: "'w run_deps \<Rightarrow> run_context \<Rightarrow> historical_batch \<Rightarrow> 'w \<Rightarrow> batch_execution \<times> 'w" where
  "execute d cx b sh =
     (case ValidateBatchInputs b of Some x \<Rightarrow> (x, sh)
      | None \<Rightarrow> the (rd_batch_executor d) (cx_namespace_id cx) (cx_snapshot_json cx) (cx_strategy_json cx)
          (cx_tracked_user_id cx) (cx_reporting_currency cx) b sh)"

text \<open>\<open>kSchemaVersion\<close> is an argument of the C++ log entry; its value is one.\<close>

definition agent_log_of :: "run_context \<Rightarrow> nat \<Rightarrow> historical_batch \<Rightarrow> batch_execution \<Rightarrow> agent_log" where
  "agent_log_of cx seq b x =
     \<lparr>ag_log_id = cx_session_id cx @ '':'' @ digits_of seq, ag_session_id = cx_session_id cx, ag_batch_seq = seq,
      ag_original_batch_id = batch_id_of b, ag_event_time_ms = br_row_event_time_ms (hi_batch_result b),
      ag_pnl = be_pnl x, ag_is_value = be_is_value x, ag_fill_rate = be_fill_rate x,
      ag_fills_applied = be_fills_applied x, ag_solve_time_ms = be_solve_time_ms x,
      ag_residual_norm = be_residual_norm x, ag_reward = ComputeReward x (cx_reward_mode cx),
      ag_solver_error_flag = (be_outcome x \<noteq> BatchOutcome_kOk),
      ag_risk_status = (if be_risk_status x \<noteq> [] then be_risk_status x
        else case be_outcome x of BatchOutcome_kOk \<Rightarrow> ''ok'' | BatchOutcome_kSoftFailure \<Rightarrow> ''soft''
          | BatchOutcome_kHardFailure \<Rightarrow> ''hard''),
      ag_error_code = be_error_code x, ag_error_details = be_error_details x,
      ag_failure_component = be_failure_component x, ag_state_json = be_state_json x,
      ag_action_json = be_action_json x, ag_fills_json = be_fills_json x,
      ag_batch_result_json = be_batch_result_json x, ag_metrics_json = be_metrics_json x,
      ag_session_config_snapshot_version = 1\<rparr>"

text \<open>The log of an ephemeral session is not written.\<close>

definition write_log :: "'w run_deps \<Rightarrow> agent_log \<Rightarrow> 'w replay_world \<Rightarrow> string + 'w replay_world" where
  "write_log d a w =
     (case rd_agent_log_writer d of None \<Rightarrow> Inr w
      | Some writer \<Rightarrow>
          if IsEphemeral (so_registry (wo_store w)) (ag_session_id a) then Inr w
          else case writer a of Some ex \<Rightarrow> Inl ex | None \<Rightarrow> Inr (w\<lparr>wo_logs := wo_logs w @ [a]\<rparr>))"

definition report_progress :: "'w run_deps \<Rightarrow> run_context \<Rightarrow> nat \<Rightarrow> 'w replay_world \<Rightarrow> 'w replay_world option" where
  "report_progress d cx n w =
     update_session (cx_session_id cx) (no_patch\<lparr>pa_progress_batches := Some (i32 (int n))\<rparr>)
       (publish d (ProgressEvent (cx_session_id cx) n (cx_total_batches cx)) w)"

definition run_batch :: "'w run_deps \<Rightarrow> run_context \<Rightarrow> historical_batch \<Rightarrow> journal \<Rightarrow> 'w replay_world \<Rightarrow>
    (run_end option \<times> journal \<times> 'w replay_world) option" where
  "run_batch d cx b j w =
     (case restart_batch d cx (batch_id_of b) j w of (Some stop, j, w) \<Rightarrow> Some (Some stop, j, w)
      | (None, j, w) \<Rightarrow>
        (let (x, sh) = execute d cx b (wo_shadow w);
             a = agent_log_of cx (NextBatchSeq j) b x
         in case write_log d a (w\<lparr>wo_shadow := sh\<rparr>) of
              Inl ex \<Rightarrow> Some (Some (RunHardFailed ''agentlog_write_failed''
                (ComposeError ''agentlog_write_failed'' (''AgentLog write failure: '' @ ex))), j, w\<lparr>wo_shadow := sh\<rparr>)
            | Inr w \<Rightarrow>
                let j = Journal_Upsert \<lparr>je_batch_id = batch_id_of b, je_agent_log = a, je_execution = x\<rparr> j
                in if be_outcome x = BatchOutcome_kHardFailure
                   then Some (Some (RunHardFailed (be_error_code x) (ComposeError (be_error_code x)
                     (if be_error_details x = [] then ''Hard failure on batch'' else be_error_details x))), j, w)
                   else map_option (\<lambda>w. (None, j, w)) (report_progress d cx (Journal_Size j) w)))"

text \<open>The token is polled before every batch; the first two polls are those of the preparation.\<close>

fun run_batches :: "'w run_deps \<Rightarrow> run_context \<Rightarrow> (nat \<Rightarrow> bool) \<Rightarrow> historical_batch list \<Rightarrow> journal \<Rightarrow>
    'w replay_world \<Rightarrow> (run_end \<times> journal \<times> 'w replay_world) option" where
  "run_batches d cx cancelled [] j w = Some (RunFinished, j, w)"
| "run_batches d cx cancelled (b # bs) j w =
     (if cancelled 0 then Some (RunCancelled, j, w)
      else case run_batch d cx b j w of None \<Rightarrow> None
        | Some (Some stop, j, w) \<Rightarrow> Some (stop, j, w)
        | Some (None, j, w) \<Rightarrow> run_batches d cx (\<lambda>k. cancelled (k + 1)) bs j w)"

section \<open>The whole run\<close>

definition result_of :: "run_end \<Rightarrow> nat \<Rightarrow> nat \<Rightarrow> replay_summary \<Rightarrow> replay_result" where
  "result_of stop journal_size batch_count s =
     (case stop of
        RunHardFailed code details \<Rightarrow> \<lparr>rn_final_status = SessionStatus_kFailed, rn_summary = s\<lparr>sy_partial := True\<rparr>,
          rn_error_details = details, rn_error_code = code\<rparr>
      | RunCancelled \<Rightarrow> \<lparr>rn_final_status = SessionStatus_kCancelled,
          rn_summary = s\<lparr>sy_partial := (journal_size < batch_count)\<rparr>, rn_error_details = [], rn_error_code = []\<rparr>
      | RunFinished \<Rightarrow> \<lparr>rn_final_status = SessionStatus_kCompleted,
          rn_summary = s\<lparr>sy_partial := (0 < sy_failed_batches s \<or> journal_size < batch_count)\<rparr>,
          rn_error_details = [], rn_error_code = []\<rparr>)"

definition some_if :: "string \<Rightarrow> string option" where
  "some_if s = (if s = [] then None else Some s)"

definition finish_run :: "'w run_deps \<Rightarrow> run_readings \<Rightarrow> string \<Rightarrow> nat \<Rightarrow> replay_result \<Rightarrow> 'w replay_world \<Rightarrow>
    (replay_result \<times> 'w replay_world) option" where
  "finish_run d re i journal_size r w =
     (case save_summary d (rn_summary r) w of None \<Rightarrow> None | Some w \<Rightarrow>
      case update_session i (no_patch\<lparr>pa_status := Some (rn_final_status r), pa_completed_at := Some (re_completed_at re),
          pa_progress_batches := Some (i32 (int journal_size)), pa_error_details := some_if (rn_error_details r)\<rparr>) w of
        None \<Rightarrow> None | Some w \<Rightarrow>
      Some (r, publish d (LifecycleEvent ((lifecycle i (ToLifecycle (rn_final_status r)))\<lparr>le_summary := Some (rn_summary r),
        le_error_details := some_if (rn_error_details r), le_error_code := some_if (rn_error_code r)\<rparr>)) w))"

text \<open>Doubles, the square root and the JSON library.\<close>

record run_library =
  lb_fp :: fp
  lb_sqrt :: "rat \<Rightarrow> rat"
  lb_parse :: "string \<Rightarrow> json option"

definition run_summary :: "run_library \<Rightarrow> run_context \<Rightarrow> journal \<Rightarrow> replay_summary" where
  "run_summary lb cx j =
     BuildSummary (lb_fp lb) (lb_sqrt lb) (cx_session_id cx) (cx_total_batches cx)
       (SnapshotStringOrDefault (lb_parse lb) (cx_snapshot_json cx) [''avgis_rule'', ''avg_is_rule''] ''volume_weighted'')
       (SnapshotStringOrDefault (lb_parse lb) (cx_snapshot_json cx) [''decision_price_source'', ''decisionpricesource'']
         ''marketdata_mid_with_clearprice_fallback'') j"

definition run_history :: "'w run_deps \<Rightarrow> run_library \<Rightarrow> run_readings \<Rightarrow> run_context \<Rightarrow> historical_batch list \<Rightarrow>
    'w replay_world \<Rightarrow> (replay_result \<times> 'w replay_world) option" where
  "run_history d lb re cx history w =
     (let i = cx_session_id cx;
          p = no_patch\<lparr>pa_status := Some SessionStatus_kRunning, pa_started_at := Some (re_started_at re),
                pa_total_batches := Some (i32 (int (cx_total_batches cx))), pa_progress_batches := Some 0\<rparr>
      in case update_session i p w of None \<Rightarrow> None | Some w \<Rightarrow>
      case run_batches d cx (\<lambda>k. re_cancelled re (k + 2)) history empty_journal
          (publish d (LifecycleEvent (lifecycle i LifecycleStatus_kRunning)) w) of None \<Rightarrow> None
      | Some (stop, j, w) \<Rightarrow>
          finish_run d re i (Journal_Size j) (result_of stop (Journal_Size j) (cx_total_batches cx) (run_summary lb cx j)) w)"

definition start_run :: "'w run_deps \<Rightarrow> run_library \<Rightarrow> run_readings \<Rightarrow> run_context \<Rightarrow> historical_batch list \<Rightarrow>
    'w replay_world \<Rightarrow> (replay_result \<times> 'w replay_world) option" where
  "start_run d lb re cx history w =
     (let i = cx_session_id cx; n = cx_total_batches cx;
          run = (if re_cancelled re 1
            then cancel_before_running d re i n 0 ''Replay session was cancelled before running'' w
            else run_history d lb re cx history w)
      in case Store_GetById i (wo_store w) of None \<Rightarrow> None
        | Some None \<Rightarrow> run
        | Some (Some s) \<Rightarrow>
            if se_status s = SessionStatus_kCancelled
            then cancel_before_running d re i (stored_total_batches s n) (stored_progress_batches s)
              (value_or (se_error_details s) ''Replay session was cancelled before running'') w
            else if se_status s \<in> {SessionStatus_kCompleted, SessionStatus_kFailed} then Some (terminal_skip i s n, w)
            else run)"

definition snapshot_for :: "'w run_deps \<Rightarrow> replay_session \<Rightarrow> string + string" where
  "snapshot_for d s = (case se_snapshot_json s of
     Some json \<Rightarrow> if json = [] then the (rd_config d) else Inr json | None \<Rightarrow> the (rd_config d))"

definition prepare_run :: "'w run_deps \<Rightarrow> run_library \<Rightarrow> run_readings \<Rightarrow> run_request \<Rightarrow> replay_session \<Rightarrow>
    'w replay_world \<Rightarrow> (replay_result \<times> 'w replay_world) option" where
  "prepare_run d lb re rq s w =
     (let i = rq_session_id rq in
      case snapshot_for d s of
        Inl err \<Rightarrow> FailFromInit d re i ''config_snapshot_failed'' (''Config snapshot failed: '' @ err) w
      | Inr snapshot \<Rightarrow> (case RewardModeFromSnapshot (lb_parse lb) snapshot of
        Inl err \<Rightarrow> FailFromInit d re i ''unsupported_reward_mode'' err w
      | Inr mode \<Rightarrow>
        (let (ns, sh) = the (rd_shadow_init d) i (rq_tracked_user_id rq) (rq_reporting_currency rq) (re_created_at_ms re) (wo_shadow w);
             w = w\<lparr>wo_shadow := sh\<rparr>
         in if \<not> ns_ok ns
            then FailFromInit d re i ''shadow_namespace_init_failed'' (''Shadow namespace init failed: '' @ ns_error ns) w
            else let history = the (rd_history_loader d) (rq_history_config rq); w = w\<lparr>wo_store := re_meanwhile re (wo_store w)\<rparr>
              in if CountUniqueBatchIds history = 0
                 then FailFromInit d re i ''no_data'' ''No historical batches loaded for requested range'' w
                 else start_run d lb re \<lparr>cx_session_id = i, cx_namespace_id = ns_namespace_id ns,
                   cx_snapshot_json = snapshot, cx_strategy_json = se_strategy_json s,
                   cx_tracked_user_id = (if rq_tracked_user_id rq = [] then se_user_id s else rq_tracked_user_id rq),
                   cx_reporting_currency = rq_reporting_currency rq,
                   cx_total_batches = CountUniqueBatchIds history, cx_reward_mode = mode\<rparr> history w)))"

definition Replay_Run :: "'w run_deps \<Rightarrow> run_library \<Rightarrow> run_readings \<Rightarrow> run_request \<Rightarrow> 'w replay_world \<Rightarrow>
    (replay_result \<times> 'w replay_world) option" where
  "Replay_Run d lb re rq w =
     (let i = rq_session_id rq in
      if \<not> rd_session_repo d \<or> rd_config d = None \<or> rd_shadow_init d = None \<or> rd_history_loader d = None
        \<or> rd_batch_executor d = None
      then FailFromInit d re i ''dependency_error'' ''RunReplaySession dependencies missing'' w
      else case Store_GetById i (wo_store w) of None \<Rightarrow> None
        | Some None \<Rightarrow> FailFromInit d re i ''session_not_found'' ''Session not found'' w
        | Some (Some s) \<Rightarrow>
            if is_terminal (se_status s) then Some (terminal_skip i s 0, w)
            else if re_cancelled re 0
            then cancel_before_running d re i (stored_total_batches s 0) (stored_progress_batches s)
              (value_or (se_error_details s) ''Replay session was cancelled before start'') w
            else case (case rd_rbac_engine d of None \<Rightarrow> (True, None) | Some can_execute \<Rightarrow> can_execute (se_user_id s) i) of
              (False, reason) \<Rightarrow> FailFromInit d re i ''unauthorized'' (value_or reason ''User cannot execute replay sessions'') w
            | (True, reason) \<Rightarrow> prepare_run d lb re rq s w)"

end
