(* ===== verification/Replay_Run_Laws.thy ===== *)
theory Replay_Run_Laws
  imports Replay_Run
begin

text \<open>
  What a replay run guarantees: its journal follows the history with restarted batches cut out, the
  stored session always settles, and what happens to a session that is cancelled and forgotten.
\<close>

section \<open>Stored sessions during a run\<close>

text \<open>A 32-bit progress within the number of batches, none while that number is unknown.\<close>

definition session_fits :: "replay_session \<Rightarrow> bool" where
  "session_fits s \<longleftrightarrow> 0 \<le> se_progress_batches s \<and> se_progress_batches s < 2147483648
     \<and> (\<forall>n. se_total_batches s = Some n \<longrightarrow> se_progress_batches s \<le> n)
     \<and> (se_total_batches s = None \<longrightarrow> se_progress_batches s = 0)"

definition holds_session :: "string \<Rightarrow> session_store \<Rightarrow> replay_session \<Rightarrow> bool" where
  "holds_session i st s \<longleftrightarrow> session_at st i = Some s \<and> registry_ok (so_registry st) \<and> session_fits s"

lemma update_session_applies:
  assumes "holds_session i (wo_store w) s" "i \<noteq> []" "valid_patch p" "session_fits (apply_patch p s)"
  obtains w' where "update_session i p w = Some w'" "holds_session i (wo_store w') (apply_patch p s)"
    "wo_shadow w' = wo_shadow w" "wo_logs w' = wo_logs w" "wo_events w' = wo_events w"
proof -
  have f: "0 \<le> set_to (pa_progress_batches p) (se_progress_batches s)"
    "\<And>n. set_opt (pa_total_batches p) (se_total_batches s) = Some n \<Longrightarrow> set_to (pa_progress_batches p) (se_progress_batches s) \<le> n"
    using assms(4) by (simp_all add: session_fits_def)
  from assms(1) have s: "session_at (wo_store w) i = Some s" "registry_ok (so_registry (wo_store w))"
    by (simp_all add: holds_session_def)
  obtain st where st: "Store_UpdateState i p (wo_store w) = Some (True, st)" "session_at st i = Some (apply_patch p s)"
      "registry_ok (so_registry st)"
    using UpdateState_applies[OF s assms(2,3) f] by metis
  show ?thesis
    by (rule that[of "w\<lparr>wo_store := st\<rparr>"]) (use st assms(4) in \<open>simp_all add: update_session_def holds_session_def\<close>)
qed

lemma Store_SaveSummary_works:
  assumes "holds_session i st s" "sy_session_id y = i" "i \<noteq> []" "sy_processed_batches y \<le> sy_total_batches y"
  obtains st' where "Store_SaveSummary y st = Some st'" "so_registry st' = so_registry st"
    "\<And>k. session_at st' k = session_at st k"
proof (cases "IsEphemeral (so_registry st) i \<or> so_tables st = None")
  case True
  show ?thesis by (rule that[of st]) (use True assms in \<open>auto simp: Store_SaveSummary_def\<close>)
next
  case False
  then obtain t where t: "so_tables st = Some t" by auto
  have f: "find (tb_sessions t) i = Some s" using assms(1) False t by (simp add: holds_session_def session_at_def)
  show ?thesis
    by (rule that[of "st\<lparr>so_tables := Some (t\<lparr>tb_summaries := put i y (tb_summaries t)\<rparr>)\<rparr>"])
      (use False t f assms(2-4) in \<open>simp_all add: Store_SaveSummary_def Pg_SaveSummary_def session_at_def\<close>)
qed

lemma save_summary_works:
  assumes "holds_session i (wo_store w) s" "sy_session_id y = i" "i \<noteq> []" "sy_processed_batches y \<le> sy_total_batches y"
  obtains w' where "save_summary d y w = Some w'" "holds_session i (wo_store w') s"
    "wo_shadow w' = wo_shadow w" "wo_logs w' = wo_logs w" "wo_events w' = wo_events w"
proof (cases "rd_summary_store d")
  case False
  show ?thesis by (rule that[of w]) (use False assms(1) in \<open>simp_all add: save_summary_def\<close>)
next
  case True
  obtain st where st: "Store_SaveSummary y (wo_store w) = Some st" "so_registry st = so_registry (wo_store w)"
    "\<And>k. session_at st k = session_at (wo_store w) k"
    using Store_SaveSummary_works[OF assms] by metis
  show ?thesis
    by (rule that[of "w\<lparr>wo_store := st\<rparr>"]) (use True st assms(1) in \<open>simp_all add: save_summary_def holds_session_def\<close>)
qed

lemma holds_publish [simp]: "wo_store (publish d e w) = wo_store w" "wo_shadow (publish d e w) = wo_shadow w"
    "wo_logs (publish d e w) = wo_logs w"
  by (simp_all add: publish_def)

definition told :: "'w run_deps \<Rightarrow> replay_event list \<Rightarrow> replay_event list" where
  "told d es = (if rd_event_publisher d then es else [])"

lemma publish_events: "wo_events (publish d e w) = wo_events w @ told d [e]"
  by (simp add: publish_def told_def)

lemma i32_count: "n < 2147483648 \<Longrightarrow> i32 (int n) = int n"
  by (simp add: i32_id in_i32_def)

section \<open>The ways out before the first batch\<close>

text \<open>The news of a run: at most running and progress, and the end last, once.\<close>

fun is_end :: "replay_event \<Rightarrow> bool" where
  "is_end (LifecycleEvent e) \<longleftrightarrow> le_status e \<noteq> LifecycleStatus_kRunning"
| "is_end (ProgressEvent i n k) \<longleftrightarrow> False"

definition announced :: "'w run_deps \<Rightarrow> string \<Rightarrow> replay_result \<Rightarrow> replay_event list \<Rightarrow> bool" where
  "announced d i r es \<longleftrightarrow> es = []
     \<or> (\<exists>news e. es = news @ told d [LifecycleEvent e] \<and> le_session_id e = i
          \<and> le_status e = ToLifecycle (rn_final_status r) \<and> (\<forall>x \<in> set news. \<not> is_end x))"

text \<open>What every way out leaves: a settled session and its news.\<close>

definition settled :: "'w run_deps \<Rightarrow> string \<Rightarrow> replay_result \<Rightarrow> 'w replay_world \<Rightarrow> 'w replay_world \<Rightarrow> bool" where
  "settled d i r w w' \<longleftrightarrow>
     (\<exists>s. holds_session i (wo_store w') s \<and> se_status s = rn_final_status r \<and> is_terminal (rn_final_status r))
     \<and> (\<exists>es. wo_events w' = wo_events w @ es \<and> announced d i r es)"

lemma announced_one:
  "le_session_id e = i \<Longrightarrow> le_status e = ToLifecycle (rn_final_status r) \<Longrightarrow> announced d i r (told d [LifecycleEvent e])"
  unfolding announced_def by (intro disjI2 exI[of _ "[]"] exI[of _ e]) simp

lemma settled_by:
  "holds_session i (wo_store w') s \<Longrightarrow> se_status s = rn_final_status r \<Longrightarrow> is_terminal (rn_final_status r)
    \<Longrightarrow> wo_events w' = wo_events w @ es \<Longrightarrow> announced d i r es \<Longrightarrow> settled d i r w w'"
  unfolding settled_def by blast

lemma FailFromInit_settles:
  assumes "holds_session i (wo_store w) s" "i \<noteq> []" "rd_session_repo d"
  obtains r w' where "FailFromInit d re i code err w = Some (r, w')" "settled d i r w w'"
proof -
  let ?r = "failed_result i code err"
  let ?p = "no_patch\<lparr>pa_status := Some SessionStatus_kFailed, pa_completed_at := Some (re_completed_at re),
                pa_error_details := Some (rn_error_details ?r)\<rparr>"
  let ?e = "(lifecycle i LifecycleStatus_kFailed)\<lparr>le_summary := Some (rn_summary ?r),
        le_error_details := Some (rn_error_details ?r), le_error_code := (if code = [] then None else Some code)\<rparr>"
  have v: "valid_patch ?p" by (simp add: valid_patch_def no_patch_def)
  have f: "session_fits (apply_patch ?p s)" using assms(1) by (simp add: holds_session_def session_fits_def no_patch_def)
  obtain w1 where w1: "update_session i ?p w = Some w1" "holds_session i (wo_store w1) (apply_patch ?p s)" "wo_events w1 = wo_events w"
    using update_session_applies[OF assms(1,2) v f] by metis
  have y: "sy_session_id (rn_summary ?r) = i" "sy_processed_batches (rn_summary ?r) \<le> sy_total_batches (rn_summary ?r)"
    by (simp_all add: failed_result_def empty_summary_def)
  obtain w2 where w2: "save_summary d (rn_summary ?r) w1 = Some w2" "holds_session i (wo_store w2) (apply_patch ?p s)" "wo_events w2 = wo_events w1"
    using save_summary_works[OF w1(2) y(1) assms(2) y(2), where d = d] by metis
  show ?thesis
  proof (rule that)
    show "FailFromInit d re i code err w = Some (?r, publish d (LifecycleEvent ?e) w2)"
      using assms(3) w1(1) w2(1) by (simp add: FailFromInit_def Let_def)
    show "settled d i ?r w (publish d (LifecycleEvent ?e) w2)"
      by (rule settled_by[where s = "apply_patch ?p s" and es = "told d [LifecycleEvent ?e]"])
        (use w1 w2 in \<open>simp_all add: failed_result_def no_patch_def publish_events announced_one lifecycle_def\<close>)
  qed
qed

lemma cancel_before_running_settles:
  assumes "holds_session i (wo_store w) s" "i \<noteq> []" "\<And>k. se_total_batches s = Some k \<Longrightarrow> int n \<le> k"
    and "se_total_batches s = None \<Longrightarrow> n = 0" "n \<le> m" "n < 2147483648"
  obtains r w' where "cancel_before_running d re i m n details w = Some (r, w')" "settled d i r w w'"
proof -
  let ?err = "if details = [] then ''Replay session was cancelled before running'' else details"
  let ?y = "empty_summary\<lparr>sy_session_id := i, sy_total_batches := m, sy_processed_batches := n, sy_partial := True\<rparr>"
  let ?p = "no_patch\<lparr>pa_status := Some SessionStatus_kCancelled, pa_completed_at := Some (re_completed_at re),
                pa_progress_batches := Some (i32 (int n)), pa_error_details := Some ?err\<rparr>"
  let ?r = "\<lparr>rn_final_status = SessionStatus_kCancelled, rn_summary = ?y, rn_error_details = ?err, rn_error_code = ''cancelled''\<rparr>"
  let ?e = "(lifecycle i LifecycleStatus_kCancelled)\<lparr>le_summary := Some ?y,
        le_error_details := Some ?err, le_error_code := Some ''cancelled''\<rparr>"
  have v: "valid_patch ?p" using assms(6) by (simp add: valid_patch_def no_patch_def i32_count)
  have f: "session_fits (apply_patch ?p s)" using assms(1,3,4,6)
    by (simp add: holds_session_def session_fits_def no_patch_def i32_count)
  obtain w1 where w1: "update_session i ?p w = Some w1" "holds_session i (wo_store w1) (apply_patch ?p s)" "wo_events w1 = wo_events w"
    using update_session_applies[OF assms(1,2) v f] by metis
  have y: "sy_session_id ?y = i" "sy_processed_batches ?y \<le> sy_total_batches ?y" using assms(5) by simp_all
  obtain w2 where w2: "save_summary d ?y w1 = Some w2" "holds_session i (wo_store w2) (apply_patch ?p s)" "wo_events w2 = wo_events w1"
    using save_summary_works[OF w1(2) y(1) assms(2) y(2), where d = d] by metis
  show ?thesis
  proof (rule that)
    show "cancel_before_running d re i m n details w = Some (?r, publish d (LifecycleEvent ?e) w2)"
      unfolding cancel_before_running_def Let_def using w1(1) w2(1) by simp
    show "settled d i ?r w (publish d (LifecycleEvent ?e) w2)"
      by (rule settled_by[where s = "apply_patch ?p s" and es = "told d [LifecycleEvent ?e]"])
        (use w1 w2 in \<open>simp_all add: no_patch_def publish_events announced_one lifecycle_def\<close>)
  qed
qed

section \<open>The loop over the history\<close>

text \<open>Steps are numbered from zero, and their logs name session and batch.\<close>

definition numbered :: "string \<Rightarrow> (string \<times> batch_step) list \<Rightarrow> bool" where
  "numbered sid xs \<longleftrightarrow> map (\<lambda>s. ag_batch_seq (fst (snd s))) xs = [0..<length xs]
     \<and> (\<forall>s \<in> set xs. ag_original_batch_id (fst (snd s)) = fst s \<and> ag_session_id (fst (snd s)) = sid)"

text \<open>The batches that count after the listed ones were run: a batch that comes again cuts off
  itself and what followed it.\<close>

definition follow :: "string list \<Rightarrow> string list \<Rightarrow> string list" where
  "follow = foldl (\<lambda>acc i. takeWhile (\<lambda>k. k \<noteq> i) acc @ [i])"

lemma follow_simps [simp]: "follow acc [] = acc" "follow acc (i # is) = follow (takeWhile (\<lambda>k. k \<noteq> i) acc @ [i]) is"
  by (simp_all add: follow_def)

lemma order_is_keys: "jn_order j = map fst (journal_steps j)"
  by (simp add: journal_steps_def o_def)

lemma size_is_length: "Journal_Size j = length (journal_steps j)" "NextBatchSeq j = length (journal_steps j)"
  by (simp_all add: Journal_Size_def NextBatchSeq_def journal_steps_def)

lemma keys_takeWhile: "map fst (takeWhile (\<lambda>s. fst s \<noteq> i) xs) = takeWhile (\<lambda>k. k \<noteq> i) (map fst xs)"
  by (simp add: takeWhile_map o_def)

lemma numbered_takeWhile:
  assumes "numbered sid xs"
  shows "numbered sid (takeWhile P xs)"
proof -
  obtain n where n: "takeWhile P xs = take n xs" using takeWhile_eq_take by blast
  have "map (\<lambda>s. ag_batch_seq (fst (snd s))) (take n xs) = take n [0..<length xs]"
    using assms by (simp add: numbered_def take_map[symmetric])
  then show ?thesis using assms unfolding n by (auto simp: numbered_def take_upt min_def dest: in_set_takeD)
qed

lemma numbered_snoc:
  "numbered sid xs \<Longrightarrow> ag_batch_seq a = length xs \<Longrightarrow> ag_original_batch_id a = i \<Longrightarrow> ag_session_id a = sid
    \<Longrightarrow> numbered sid (xs @ [(i, a, x)])"
  by (simp add: numbered_def)

text \<open>The parts are wired as in \<open>main.cpp\<close>: no separate restore of the state.\<close>

lemma restart_direct:
  assumes "rd_restore_state d = None" "step_journal_ok j" "restart_batch d cx b j w = (e, j1, w1)"
  shows "wo_store w1 = wo_store w" "wo_logs w1 = wo_logs w" "wo_events w1 = wo_events w"
    and "e = None \<Longrightarrow> j1 = batch_log.restart b j" and "e \<noteq> None \<Longrightarrow> j1 = j \<and> (\<exists>c m. e = Some (RunHardFailed c m))"
  using assms
  by (auto simp: restart_batch_def batch_log.restart_def split: if_splits option.splits prod.splits)

lemma write_log_effect:
  "write_log d a w = Inr w' \<Longrightarrow> wo_store w' = wo_store w \<and> wo_events w' = wo_events w \<and> wo_shadow w' = wo_shadow w"
  by (auto simp: write_log_def split: option.splits if_splits)

definition running :: "run_context \<Rightarrow> string list \<Rightarrow> journal \<Rightarrow> 'w replay_world \<Rightarrow> bool" where
  "running cx ids j w \<longleftrightarrow> step_journal_ok j \<and> set (jn_order j) \<subseteq> set ids \<and> numbered (cx_session_id cx) (journal_steps j)
     \<and> (\<exists>s. holds_session (cx_session_id cx) (wo_store w) s \<and> se_status s = SessionStatus_kRunning
         \<and> se_total_batches s = Some (int (cx_total_batches cx)))"

lemma running_size:
  assumes "running cx ids j w" "cx_total_batches cx = length (remdups ids)"
  shows "Journal_Size j \<le> cx_total_batches cx"
proof -
  have "distinct (jn_order j)" "set (jn_order j) \<subseteq> set ids" using assms(1) by (simp_all add: running_def step_journal_ok_def)
  then have "length (jn_order j) \<le> card (set ids)" by (metis distinct_card card_mono finite_set)
  then show ?thesis using assms(2) by (simp add: Journal_Size_def length_remdups_card_conv)
qed

lemma report_progress_works:
  assumes "running cx ids j w" "Journal_Size j \<le> cx_total_batches cx" "cx_total_batches cx < 2147483648" "cx_session_id cx \<noteq> []"
  obtains w' where "report_progress d cx (Journal_Size j) w = Some w'" "running cx ids j w'"
    "wo_events w' = wo_events w @ told d [ProgressEvent (cx_session_id cx) (Journal_Size j) (cx_total_batches cx)]"
proof -
  let ?i = "cx_session_id cx" and ?n = "Journal_Size j"
  obtain s where s: "holds_session ?i (wo_store w) s" "se_status s = SessionStatus_kRunning"
      "se_total_batches s = Some (int (cx_total_batches cx))"
    using assms(1) by (auto simp: running_def)
  let ?p = "no_patch\<lparr>pa_progress_batches := Some (i32 (int ?n))\<rparr>"
  let ?w = "publish d (ProgressEvent ?i ?n (cx_total_batches cx)) w"
  have n: "i32 (int ?n) = int ?n" using assms(2,3) by (simp add: i32_count)
  have v: "valid_patch ?p" by (simp add: valid_patch_def no_patch_def n)
  have f: "session_fits (apply_patch ?p s)" using s assms(2,3) by (simp add: session_fits_def no_patch_def n)
  have h: "holds_session ?i (wo_store ?w) s" using s(1) by simp
  obtain w' where w': "update_session ?i ?p ?w = Some w'" "holds_session ?i (wo_store w') (apply_patch ?p s)" "wo_events w' = wo_events ?w"
    using update_session_applies[OF h assms(4) v f] by metis
  show ?thesis
  proof (rule that)
    show "report_progress d cx ?n w = Some w'" using w'(1) by (simp add: report_progress_def)
    show "running cx ids j w'" using assms(1) w'(2) s unfolding running_def
      by (auto simp: no_patch_def intro!: exI[of _ "apply_patch ?p s"])
  qed (simp add: w'(3) publish_events)
qed

definition only_progress :: "replay_event list \<Rightarrow> bool" where
  "only_progress es \<longleftrightarrow> (\<forall>e \<in> set es. \<exists>i n k. e = ProgressEvent i n k)"

lemma run_batch_step:
  assumes wired: "rd_restore_state d = None" and run: "running cx ids j w" and b: "batch_id_of b \<in> set ids"
    and cx: "cx_total_batches cx = length (remdups ids)" "cx_total_batches cx < 2147483648" "cx_session_id cx \<noteq> []"
  obtains e j' w' es where "run_batch d cx b j w = Some (e, j', w')" "running cx ids j' w'"
    "wo_events w' = wo_events w @ es" "only_progress es"
    "e = None \<Longrightarrow> jn_order j' = takeWhile (\<lambda>k. k \<noteq> batch_id_of b) (jn_order j) @ [batch_id_of b]"
    "e \<noteq> None \<Longrightarrow> \<exists>c m. e = Some (RunHardFailed c m)"
proof -
  let ?i = "batch_id_of b"
  have j: "step_journal_ok j" "numbered (cx_session_id cx) (journal_steps j)" using run by (simp_all add: running_def)
  obtain e1 j1 w1 where r: "restart_batch d cx ?i j w = (e1, j1, w1)" by (metis prod.exhaust)
  note d = restart_direct[OF wired j(1) r]
  show ?thesis
  proof (cases e1)
    case (Some stop)
    then have "j1 = j" "\<exists>c m. stop = RunHardFailed c m" using d(5) by auto
    then show ?thesis
      using that[of "Some stop" j w1 "[]"] r run d(1-3) Some by (simp add: run_batch_def running_def only_progress_def)
  next
    case None
    then have j1: "j1 = batch_log.restart ?i j" using d(4) by simp
    have s1: "step_journal_ok j1" "journal_steps j1 = takeWhile (\<lambda>s. fst s \<noteq> ?i) (journal_steps j)"
      unfolding j1 by (rule batch_log.good_restart[OF j(1)], rule batch_log.restart_steps[OF j(1)])
    have n1: "numbered (cx_session_id cx) (journal_steps j1)" using s1(2) numbered_takeWhile[OF j(2)] by simp
    have o1: "jn_order j1 = takeWhile (\<lambda>k. k \<noteq> ?i) (jn_order j)" by (simp add: order_is_keys s1(2) keys_takeWhile)
    have "set (jn_order j1) \<subseteq> set ids" using run by (auto simp: o1 running_def dest: set_takeWhileD)
    then have run1: "running cx ids j1 w'" if "wo_store w' = wo_store w" for w' :: "'a replay_world"
      using that s1(1) n1 run by (simp add: running_def)
    obtain x sh where x: "execute d cx b (wo_shadow w1) = (x, sh)" by (metis prod.exhaust)
    let ?a = "agent_log_of cx (NextBatchSeq j1) b x"
    let ?w1 = "w1\<lparr>wo_shadow := sh\<rparr>"
    show ?thesis
    proof (cases "write_log d ?a ?w1")
      case (Inl ex)
      have "run_batch d cx b j w = Some (Some (RunHardFailed ''agentlog_write_failed''
                (ComposeError ''agentlog_write_failed'' (''AgentLog write failure: '' @ ex))), j1, ?w1)"
        using r None x Inl by (simp add: run_batch_def Let_def)
      then show ?thesis using that[of _ j1 ?w1 "[]"] run1[of ?w1] d(1,3) by (simp add: only_progress_def)
    next
      case (Inr w2)
      then have w2: "wo_store w2 = wo_store w" "wo_events w2 = wo_events w" using write_log_effect d(1,3) by fastforce+
      let ?j = "Journal_Upsert \<lparr>je_batch_id = ?i, je_agent_log = ?a, je_execution = x\<rparr> j1"
      have put: "?j = journal_put ?i (?a, x) j1" by (simp add: journal_put_def)
      have redo: "journal_steps ?j = journal_steps j1 @ [(?i, ?a, x)]" if "?i \<noteq> []"
        unfolding put s1(2) unfolding j1 by (rule batch_log.redo_steps[OF j(1) that])
      have step: "running cx ids ?j w'" if "wo_store w' = wo_store w" for w' :: "'a replay_world"
      proof (cases "?i = []")
        case True
        then have "?j = j1" by (simp add: Journal_Upsert_def)
        then show ?thesis using run1[OF that] by simp
      next
        case False
        have s: "journal_steps ?j = journal_steps j1 @ [(?i, ?a, x)]" by (rule redo[OF False])
        have "numbered (cx_session_id cx) (journal_steps ?j)"
          unfolding s by (rule numbered_snoc[OF n1]) (simp_all add: agent_log_of_def size_is_length)
        moreover have "step_journal_ok ?j" by (rule upsert_ok[OF s1(1)])
        moreover have "set (jn_order ?j) \<subseteq> set ids" using run1[OF that] b by (simp add: order_is_keys s running_def)
        ultimately show ?thesis using run1[OF that] by (simp add: running_def)
      qed
      show ?thesis
      proof (cases "be_outcome x = BatchOutcome_kHardFailure")
        case True
        then have "run_batch d cx b j w = Some (Some (RunHardFailed (be_error_code x) (ComposeError (be_error_code x)
             (if be_error_details x = [] then ''Hard failure on batch'' else be_error_details x))), ?j, w2)"
          using r None x Inr by (simp add: run_batch_def Let_def)
        then show ?thesis using that[of _ ?j w2 "[]"] step[of w2] w2 by (simp add: only_progress_def)
      next
        case False
        then have "?i \<noteq> []"
          using x by (auto simp: execute_def ValidateBatchInputs_def MakeFailureResult_def)
        then have s: "journal_steps ?j = journal_steps j1 @ [(?i, ?a, x)]" by (rule redo)
        have le: "Journal_Size ?j \<le> cx_total_batches cx" by (rule running_size[OF step cx(1)]) (rule w2(1))
        obtain w3 where w3: "report_progress d cx (Journal_Size ?j) w2 = Some w3" "running cx ids ?j w3"
            "wo_events w3 = wo_events w2 @ told d [ProgressEvent (cx_session_id cx) (Journal_Size ?j) (cx_total_batches cx)]"
          using report_progress_works[OF step[OF w2(1)] le cx(2,3)] by metis
        have "run_batch d cx b j w = Some (None, ?j, w3)"
          using r None x Inr False w3(1) by (simp add: run_batch_def Let_def)
        then show ?thesis
          using that[of None ?j w3] w3(2,3) w2(2) by (simp add: only_progress_def told_def order_is_keys s s1(2) keys_takeWhile)
      qed
    qed
  qed
qed

lemma run_batches_steps:
  assumes "rd_restore_state d = None" "running cx ids j w" "set (map batch_id_of bs) \<subseteq> set ids"
    and "cx_total_batches cx = length (remdups ids)" "cx_total_batches cx < 2147483648" "cx_session_id cx \<noteq> []"
  shows "\<exists>stop j' w' es. run_batches d cx cancelled bs j w = Some (stop, j', w') \<and> running cx ids j' w'
    \<and> wo_events w' = wo_events w @ es \<and> only_progress es
    \<and> (stop = RunFinished \<longrightarrow> jn_order j' = follow (jn_order j) (map batch_id_of bs) \<and> (\<forall>k < length bs. \<not> cancelled k))
    \<and> (stop = RunCancelled \<longrightarrow> (\<exists>k < length bs. cancelled k \<and> (\<forall>m < k. \<not> cancelled m)
        \<and> jn_order j' = follow (jn_order j) (take k (map batch_id_of bs))))"
  using assms(2,3)
proof (induction bs arbitrary: j w cancelled)
  case Nil
  then show ?case by (auto simp: only_progress_def intro!: exI[of _ "[]"])
next
  case (Cons b bs)
  show ?case
  proof (cases "cancelled 0")
    case True
    then show ?thesis using Cons.prems(1) by (auto simp: only_progress_def intro!: exI[of _ "[]"] exI[of _ 0])
  next
    case False
    have b: "batch_id_of b \<in> set ids" using Cons.prems(2) by simp
    obtain e j1 w1 es1 where r: "run_batch d cx b j w = Some (e, j1, w1)" "running cx ids j1 w1"
        "wo_events w1 = wo_events w @ es1" "only_progress es1"
        "e = None \<Longrightarrow> jn_order j1 = takeWhile (\<lambda>k. k \<noteq> batch_id_of b) (jn_order j) @ [batch_id_of b]"
        "e \<noteq> None \<Longrightarrow> \<exists>c m. e = Some (RunHardFailed c m)"
      using run_batch_step[OF assms(1) Cons.prems(1) b assms(4-6)] by metis
    show ?thesis
    proof (cases e)
      case (Some stop)
      then obtain c m where "stop = RunHardFailed c m" using r(6) by auto
      then show ?thesis using False r(1-4) Some by auto
    next
      case None
      have "set (map batch_id_of bs) \<subseteq> set ids" using Cons.prems(2) by simp
      from Cons.IH[OF r(2) this, of "\<lambda>k. cancelled (k + 1)"] obtain stop j' w' es where
        ih: "run_batches d cx (\<lambda>k. cancelled (k + 1)) bs j1 w1 = Some (stop, j', w')" "running cx ids j' w'"
          "wo_events w' = wo_events w1 @ es" "only_progress es"
          "stop = RunFinished \<longrightarrow> jn_order j' = follow (jn_order j1) (map batch_id_of bs) \<and> (\<forall>k < length bs. \<not> cancelled (k + 1))"
          "stop = RunCancelled \<longrightarrow> (\<exists>k < length bs. cancelled (k + 1) \<and> (\<forall>m < k. \<not> cancelled (m + 1))
            \<and> jn_order j' = follow (jn_order j1) (take k (map batch_id_of bs)))" by blast
      have run: "run_batches d cx cancelled (b # bs) j w = Some (stop, j', w')" using False r(1) None ih(1) by simp
      have fin: "jn_order j' = follow (jn_order j) (map batch_id_of (b # bs)) \<and> (\<forall>k < length (b # bs). \<not> cancelled k)"
        if "stop = RunFinished" using ih(5) that r(5)[OF None] False by (auto simp: less_Suc_eq_0_disj)
      have can: "\<exists>k < length (b # bs). cancelled k \<and> (\<forall>m < k. \<not> cancelled m)
            \<and> jn_order j' = follow (jn_order j) (take k (map batch_id_of (b # bs)))" if stop: "stop = RunCancelled"
      proof -
        obtain k where k: "k < length bs" "cancelled (k + 1)" "\<forall>m < k. \<not> cancelled (m + 1)"
          "jn_order j' = follow (jn_order j1) (take k (map batch_id_of bs))" using ih(6) stop by blast
        show ?thesis by (rule exI[of _ "k + 1"]) (use k r(5)[OF None] False in \<open>auto simp: less_Suc_eq_0_disj\<close>)
      qed
      have "wo_events w' = wo_events w @ es1 @ es" "only_progress (es1 @ es)" using r(3,4) ih(3,4) by (auto simp: only_progress_def)
      then show ?thesis using run ih(2) fin can by blast
    qed
  qed
qed

text \<open>The journal follows the history. With the parts wired as the service wires them and a stored
  running session, the loop ends without an exception and reports only progress; its journal lists
  exactly the batches that count after the history, a batch that comes again having cut off itself
  and what followed it, numbered from zero, each log naming its session and batch; after a
  cancellation the journal stops just so at the first poll that saw it.\<close>

theorem journal_follows_history:
  assumes "rd_restore_state d = None" "holds_session (cx_session_id cx) (wo_store w) s"
    and "se_status s = SessionStatus_kRunning" "se_total_batches s = Some (int (cx_total_batches cx))"
    and "cx_total_batches cx = CountUniqueBatchIds history" "cx_total_batches cx < 2147483648" "cx_session_id cx \<noteq> []"
  shows "\<exists>stop j w' es. run_batches d cx cancelled history empty_journal w = Some (stop, j, w')
    \<and> wo_events w' = wo_events w @ es \<and> only_progress es
    \<and> numbered (cx_session_id cx) (journal_steps j) \<and> distinct (jn_order j)
    \<and> set (jn_order j) \<subseteq> set (map batch_id_of history) \<and> Journal_Size j \<le> cx_total_batches cx
    \<and> (stop = RunFinished \<longrightarrow> jn_order j = follow [] (map batch_id_of history))
    \<and> (stop = RunCancelled \<longrightarrow> (\<exists>k < length history. cancelled k \<and> (\<forall>m < k. \<not> cancelled m)
        \<and> jn_order j = follow [] (take k (map batch_id_of history))))"
proof -
  let ?ids = "map batch_id_of history"
  have c: "cx_total_batches cx = length (remdups ?ids)" using assms(5) by (simp add: CountUniqueBatchIds_def)
  have run: "running cx ?ids empty_journal w"
    using assms(2-4) batch_log.good_fresh by (auto simp: running_def empty_journal_def numbered_def journal_steps_def)
  have "set (map batch_id_of history) \<subseteq> set ?ids" by simp
  from run_batches_steps[OF assms(1) run this c assms(6,7), of cancelled] obtain stop j w' es where
    r: "run_batches d cx cancelled history empty_journal w = Some (stop, j, w')" "running cx ?ids j w'"
      "wo_events w' = wo_events w @ es" "only_progress es"
      "stop = RunFinished \<longrightarrow> jn_order j = follow (jn_order empty_journal) ?ids"
      "stop = RunCancelled \<longrightarrow> (\<exists>k < length history. cancelled k \<and> (\<forall>m < k. \<not> cancelled m)
        \<and> jn_order j = follow (jn_order empty_journal) (take k ?ids))" by blast
  have "Journal_Size j \<le> cx_total_batches cx" by (rule running_size[OF r(2) c])
  moreover have "distinct (jn_order j)" "set (jn_order j) \<subseteq> set ?ids" "numbered (cx_session_id cx) (journal_steps j)"
    using r(2) by (simp_all add: running_def step_journal_ok_def)
  moreover have "jn_order empty_journal = []" by (simp add: empty_journal_def)
  ultimately show ?thesis using r(1,3-6) by metis
qed

section \<open>The summary\<close>

lemma entries_are_steps:
  assumes "step_journal_ok j"
  shows "map je_execution (OrderedEntries j) = map (\<lambda>s. snd (snd s)) (journal_steps j)"
proof -
  have "\<forall>i \<in> set is. find (jn_entries j) i \<noteq> None \<Longrightarrow>
      map je_execution (List.map_filter (find (jn_entries j)) is)
        = map (\<lambda>i. snd (step_of (the (find (jn_entries j) i)))) is" for "is"
    by (induction "is") (auto simp: List.map_filter_def step_of_def)
  from this[of "jn_order j"] show ?thesis
    using assms entry_iff[OF assms] by (simp add: OrderedEntries_def journal_steps_def o_def)
qed

lemma fold_sums:
  "ss_processed (fold (sum_step fl) xs s) = ss_processed s + length (filter (\<lambda>x. be_outcome x = BatchOutcome_kOk) xs)"
  "ss_failed (fold (sum_step fl) xs s) = ss_failed s + length (filter (\<lambda>x. be_outcome x \<noteq> BatchOutcome_kOk) xs)"
  by (induction xs arbitrary: s) (simp_all add: sum_step_def Let_def)

lemma summary_counts:
  assumes "step_journal_ok j"
  shows "sy_processed_batches (BuildSummary fl q i n rule src j) + sy_failed_batches (BuildSummary fl q i n rule src j)
      = Journal_Size j"
    and "sy_processed_batches (BuildSummary fl q i n rule src j)
      = length (filter (\<lambda>s. be_outcome (snd (snd s)) = BatchOutcome_kOk) (journal_steps j))"
    and "sy_session_id (BuildSummary fl q i n rule src j) = i" "sy_total_batches (BuildSummary fl q i n rule src j) = n"
proof -
  let ?xs = "map (\<lambda>s. snd (snd s)) (journal_steps j)"
  have p: "sy_processed_batches (BuildSummary fl q i n rule src j) = length (filter (\<lambda>x. be_outcome x = BatchOutcome_kOk) ?xs)"
    "sy_failed_batches (BuildSummary fl q i n rule src j) = length (filter (\<lambda>x. be_outcome x \<noteq> BatchOutcome_kOk) ?xs)"
    by (simp_all add: BuildSummary_def Let_def entries_are_steps[OF assms] fold_sums no_sums_def empty_summary_def)
  show "sy_processed_batches (BuildSummary fl q i n rule src j) + sy_failed_batches (BuildSummary fl q i n rule src j)
      = Journal_Size j"
    unfolding p size_is_length by (simp only: sum_length_filter_compl length_map)
  show "sy_processed_batches (BuildSummary fl q i n rule src j)
      = length (filter (\<lambda>s. be_outcome (snd (snd s)) = BatchOutcome_kOk) (journal_steps j))"
    unfolding p by (simp add: filter_map o_def)
  show "sy_session_id (BuildSummary fl q i n rule src j) = i" "sy_total_batches (BuildSummary fl q i n rule src j) = n"
    by (simp_all add: BuildSummary_def Let_def)
qed

section \<open>Every run settles its session\<close>

lemma result_of_fields:
  "is_terminal (rn_final_status (result_of stop n m y))" "sy_session_id (rn_summary (result_of stop n m y)) = sy_session_id y"
  "sy_processed_batches (rn_summary (result_of stop n m y)) = sy_processed_batches y"
  "sy_failed_batches (rn_summary (result_of stop n m y)) = sy_failed_batches y"
  "sy_total_batches (rn_summary (result_of stop n m y)) = sy_total_batches y"
  by (simp_all add: result_of_def split: run_end.splits)

lemma finish_run_settles:
  assumes "running cx ids j w" "Journal_Size j \<le> cx_total_batches cx" "cx_total_batches cx < 2147483648"
    and "cx_session_id cx \<noteq> []" "r = result_of stop (Journal_Size j) (cx_total_batches cx) (run_summary lb cx j)"
  obtains w' e where "finish_run d re (cx_session_id cx) (Journal_Size j) r w = Some (r, w')"
    "wo_events w' = wo_events w @ told d [LifecycleEvent e]" "le_session_id e = cx_session_id cx"
    "le_status e = ToLifecycle (rn_final_status r)"
    "\<exists>s. holds_session (cx_session_id cx) (wo_store w') s \<and> se_status s = rn_final_status r"
proof -
  let ?i = "cx_session_id cx" and ?n = "Journal_Size j" and ?y = "rn_summary r"
  let ?p = "no_patch\<lparr>pa_status := Some (rn_final_status r), pa_completed_at := Some (re_completed_at re),
          pa_progress_batches := Some (i32 (int ?n)), pa_error_details := some_if (rn_error_details r)\<rparr>"
  let ?e = "(lifecycle ?i (ToLifecycle (rn_final_status r)))\<lparr>le_summary := Some ?y,
        le_error_details := some_if (rn_error_details r), le_error_code := some_if (rn_error_code r)\<rparr>"
  obtain s where s: "holds_session ?i (wo_store w) s" "se_total_batches s = Some (int (cx_total_batches cx))"
    using assms(1) by (auto simp: running_def)
  have ok: "step_journal_ok j" using assms(1) by (simp add: running_def)
  have y1: "sy_session_id ?y = ?i"
    unfolding assms(5) result_of_fields run_summary_def by (rule summary_counts(3)[OF ok])
  have t: "sy_total_batches ?y = cx_total_batches cx"
    unfolding assms(5) result_of_fields run_summary_def by (rule summary_counts(4)[OF ok])
  have "sy_processed_batches ?y + sy_failed_batches ?y = Journal_Size j"
    unfolding assms(5) result_of_fields run_summary_def by (rule summary_counts(1)[OF ok])
  then have y2: "sy_processed_batches ?y \<le> sy_total_batches ?y" using assms(2) t by linarith
  obtain w1 where w1: "save_summary d ?y w = Some w1" "holds_session ?i (wo_store w1) s" "wo_events w1 = wo_events w"
    using save_summary_works[OF s(1) y1 assms(4) y2, where d = d] by metis
  have n: "i32 (int ?n) = int ?n" using assms(2,3) by (simp add: i32_count)
  have v: "valid_patch ?p" by (simp add: valid_patch_def no_patch_def n)
  have f: "session_fits (apply_patch ?p s)" using s(2) assms(2,3) by (simp add: session_fits_def no_patch_def n)
  obtain w2 where w2: "update_session ?i ?p w1 = Some w2" "holds_session ?i (wo_store w2) (apply_patch ?p s)" "wo_events w2 = wo_events w1"
    using update_session_applies[OF w1(2) assms(4) v f] by metis
  show ?thesis
  proof (rule that[where e = ?e])
    show "finish_run d re ?i ?n r w = Some (r, publish d (LifecycleEvent ?e) w2)"
      using w1(1) w2(1) by (simp add: finish_run_def)
    show "\<exists>s. holds_session ?i (wo_store (publish d (LifecycleEvent ?e) w2)) s \<and> se_status s = rn_final_status r"
      using w2(2) by (intro exI[of _ "apply_patch ?p s"]) (simp add: no_patch_def)
  qed (simp_all add: publish_events w1(3) w2(3) lifecycle_def)
qed

lemma run_history_settles:
  fixes d :: "'w run_deps"
  assumes "rd_restore_state d = None" "holds_session (cx_session_id cx) (wo_store w) s" "cx_session_id cx \<noteq> []"
    and "cx_total_batches cx = CountUniqueBatchIds history" "cx_total_batches cx < 2147483648"
  obtains stop j r w' and w0 :: "'w replay_world" where
    "run_history d lb re cx history w = Some (r, w')" "settled d (cx_session_id cx) r w w'"
    "running cx (map batch_id_of history) j w0"
    "r = result_of stop (Journal_Size j) (cx_total_batches cx) (run_summary lb cx j)"
    "stop = RunFinished \<longrightarrow> jn_order j = follow [] (map batch_id_of history)"
proof -
  let ?i = "cx_session_id cx" and ?ids = "map batch_id_of history"
  let ?p = "no_patch\<lparr>pa_status := Some SessionStatus_kRunning, pa_started_at := Some (re_started_at re),
        pa_total_batches := Some (i32 (int (cx_total_batches cx))), pa_progress_batches := Some 0\<rparr>"
  let ?e0 = "LifecycleEvent (lifecycle ?i LifecycleStatus_kRunning)"
  have n: "i32 (int (cx_total_batches cx)) = int (cx_total_batches cx)" using assms(5) by (rule i32_count)
  have v: "valid_patch ?p" by (simp add: valid_patch_def no_patch_def n)
  have f: "session_fits (apply_patch ?p s)" by (simp add: session_fits_def no_patch_def n)
  obtain w1 where w1: "update_session ?i ?p w = Some w1" "holds_session ?i (wo_store w1) (apply_patch ?p s)" "wo_events w1 = wo_events w"
    using update_session_applies[OF assms(2,3) v f] by metis
  let ?w1 = "publish d ?e0 w1"
  have c: "cx_total_batches cx = length (remdups ?ids)" using assms(4) by (simp add: CountUniqueBatchIds_def)
  have run: "running cx ?ids empty_journal ?w1"
    unfolding running_def using w1(2) batch_log.good_fresh
    by (auto simp: empty_journal_def numbered_def journal_steps_def no_patch_def n intro!: exI[of _ "apply_patch ?p s"])
  have "set (map batch_id_of history) \<subseteq> set ?ids" by simp
  from run_batches_steps[OF assms(1) run this c assms(5,3), of "\<lambda>k. re_cancelled re (k + 2)"] obtain stop j w2 es where
    r: "run_batches d cx (\<lambda>k. re_cancelled re (k + 2)) history empty_journal ?w1 = Some (stop, j, w2)" "running cx ?ids j w2"
      "wo_events w2 = wo_events ?w1 @ es" "only_progress es"
      "stop = RunFinished \<longrightarrow> jn_order j = follow (jn_order empty_journal) ?ids" by blast
  have le: "Journal_Size j \<le> cx_total_batches cx" by (rule running_size[OF r(2) c])
  let ?r = "result_of stop (Journal_Size j) (cx_total_batches cx) (run_summary lb cx j)"
  obtain w3 e where w3: "finish_run d re ?i (Journal_Size j) ?r w2 = Some (?r, w3)"
    "wo_events w3 = wo_events w2 @ told d [LifecycleEvent e]" "le_session_id e = ?i"
    "le_status e = ToLifecycle (rn_final_status ?r)"
    "\<exists>s. holds_session ?i (wo_store w3) s \<and> se_status s = rn_final_status ?r"
    using finish_run_settles[OF r(2) le assms(5,3) refl, where d = d and re = re] by metis
  have out: "run_history d lb re cx history w = Some (?r, w3)"
    unfolding run_history_def Let_def using w1(1) r(1) w3(1) by simp
  have quiet: "\<forall>x \<in> set (told d [?e0] @ es). \<not> is_end x"
    using r(4) by (auto simp: only_progress_def told_def lifecycle_def)
  have ev: "wo_events w3 = wo_events w @ (told d [?e0] @ es @ told d [LifecycleEvent e])"
    using w3(2) r(3) w1(3) by (simp add: publish_events)
  have "announced d ?i ?r (told d [?e0] @ es @ told d [LifecycleEvent e])"
    unfolding announced_def using quiet w3(3,4)
    by (intro disjI2 exI[of _ "told d [?e0] @ es"] exI[of _ e]) simp
  then have "settled d ?i ?r w w3" unfolding settled_def using w3(5) ev result_of_fields(1) by blast
  then show ?thesis using that[OF out _ r(2) refl] r(5) by (simp add: empty_journal_def)
qed

text \<open>What a finished summary says. A run over a history counts every step of its journal once,
  as processed or failed, and no more than the history has batches; only a completed run may be
  reported as not partial, and then every batch of the history was stepped and succeeded.\<close>

theorem summary_is_honest:
  fixes d :: "'w run_deps"
  assumes "rd_restore_state d = None" "holds_session (cx_session_id cx) (wo_store w) s" "cx_session_id cx \<noteq> []"
    and "cx_total_batches cx = CountUniqueBatchIds history" "cx_total_batches cx < 2147483648"
  shows "\<exists>r w'. run_history d lb re cx history w = Some (r, w')
    \<and> sy_processed_batches (rn_summary r) + sy_failed_batches (rn_summary r) \<le> CountUniqueBatchIds history
    \<and> (rn_final_status r = SessionStatus_kCompleted \<and> \<not> sy_partial (rn_summary r) \<longrightarrow>
        sy_processed_batches (rn_summary r) = CountUniqueBatchIds history \<and> sy_failed_batches (rn_summary r) = 0
        \<and> set (follow [] (map batch_id_of history)) = set (map batch_id_of history))"
proof -
  obtain stop j r w' and w0 :: "'w replay_world" where h: "run_history d lb re cx history w = Some (r, w')"
    "running cx (map batch_id_of history) j w0"
    "r = result_of stop (Journal_Size j) (cx_total_batches cx) (run_summary lb cx j)"
    "stop = RunFinished \<longrightarrow> jn_order j = follow [] (map batch_id_of history)"
    using run_history_settles[OF assms, of lb re] by metis
  have c: "cx_total_batches cx = length (remdups (map batch_id_of history))" using assms(4) by (simp add: CountUniqueBatchIds_def)
  have le: "Journal_Size j \<le> cx_total_batches cx" by (rule running_size[OF h(2) c])
  have ok: "step_journal_ok j" "set (jn_order j) \<subseteq> set (map batch_id_of history)" using h(2) by (simp_all add: running_def)
  have sum: "sy_processed_batches (rn_summary r) + sy_failed_batches (rn_summary r) = Journal_Size j"
    unfolding h(3) result_of_fields run_summary_def by (rule summary_counts(1)[OF ok(1)])
  have "sy_processed_batches (rn_summary r) = CountUniqueBatchIds history \<and> sy_failed_batches (rn_summary r) = 0
        \<and> set (follow [] (map batch_id_of history)) = set (map batch_id_of history)"
    if full: "rn_final_status r = SessionStatus_kCompleted" "\<not> sy_partial (rn_summary r)"
  proof -
    have stop: "stop = RunFinished" using full(1) by (simp add: h(3) result_of_def split: run_end.splits)
    then have z: "sy_failed_batches (rn_summary r) = 0" "cx_total_batches cx \<le> Journal_Size j"
      using full(2) by (simp_all add: h(3) result_of_def)
    then have "length (jn_order j) = card (set (map batch_id_of history))"
      using le c by (simp add: Journal_Size_def length_remdups_card_conv)
    moreover have "distinct (jn_order j)" using ok(1) by (simp add: step_journal_ok_def)
    ultimately have "set (jn_order j) = set (map batch_id_of history)"
      by (metis card_subset_eq distinct_card finite_set ok(2))
    then show ?thesis using sum z le assms(4) h(4) stop by simp
  qed
  then show ?thesis using h(1) sum le assms(4) by auto
qed

lemma stored_batches:
  assumes "session_fits s"
  shows "int (stored_progress_batches s) = se_progress_batches s" "stored_progress_batches s \<le> stored_total_batches s n"
    "\<And>k. se_total_batches s = Some k \<Longrightarrow> int (stored_progress_batches s) \<le> k"
    "se_total_batches s = None \<Longrightarrow> stored_progress_batches s = 0" "stored_progress_batches s < 2147483648"
  using assms by (auto simp: session_fits_def stored_progress_batches_def stored_total_batches_def split: option.splits if_splits)

lemma terminal_skip_settles:
  assumes "holds_session i (wo_store w) s" "is_terminal (se_status s)"
  shows "settled d i (terminal_skip i s n) w w"
  unfolding settled_def announced_def using assms by (auto simp: terminal_skip_def)

lemma cancelled_settles:
  assumes "holds_session i (wo_store w) s" "i \<noteq> []"
  obtains r w' where "cancel_before_running d re i (stored_total_batches s n) (stored_progress_batches s) details w = Some (r, w')"
    "settled d i r w w'"
proof -
  have "session_fits s" using assms(1) by (simp add: holds_session_def)
  note b = stored_batches[OF this]
  show ?thesis using cancel_before_running_settles[OF assms b(3,4,2,5)] that by metis
qed

lemma start_run_settles:
  assumes "rd_restore_state d = None" "holds_session (cx_session_id cx) (wo_store w) s" "cx_session_id cx \<noteq> []"
    and "cx_total_batches cx = CountUniqueBatchIds history" "cx_total_batches cx < 2147483648"
  shows "\<exists>r w'. start_run d lb re cx history w = Some (r, w') \<and> settled d (cx_session_id cx) r w w'"
proof -
  let ?i = "cx_session_id cx"
  have get: "Store_GetById ?i (wo_store w) = Some (Some s)"
    using assms(2,3) by (simp add: GetById_session_at holds_session_def)
  show ?thesis
  proof (cases "is_terminal (se_status s)")
    case True
    show ?thesis
    proof (cases "se_status s = SessionStatus_kCancelled")
      case c: True
      obtain r w' where "cancel_before_running d re ?i (stored_total_batches s (cx_total_batches cx)) (stored_progress_batches s)
          (value_or (se_error_details s) ''Replay session was cancelled before running'') w = Some (r, w')" "settled d ?i r w w'"
        by (rule cancelled_settles[OF assms(2,3)])
      then show ?thesis using c by (simp add: start_run_def get)
    next
      case False
      then have "start_run d lb re cx history w = Some (terminal_skip ?i s (cx_total_batches cx), w)"
        using True by (simp add: start_run_def get is_terminal_def)
      then show ?thesis using terminal_skip_settles[OF assms(2) True] by blast
    qed
  next
    case False
    then have live: "se_status s \<noteq> SessionStatus_kCancelled" "se_status s \<noteq> SessionStatus_kCompleted" "se_status s \<noteq> SessionStatus_kFailed"
      by (simp_all add: is_terminal_def)
    show ?thesis
    proof (cases "re_cancelled re 1")
      case True
      have fits: "session_fits s" using assms(2) by (simp add: holds_session_def)
      have k: "int 0 \<le> k" if "se_total_batches s = Some k" for k using fits that by (fastforce simp: session_fits_def)
      obtain r w' where "cancel_before_running d re ?i (cx_total_batches cx) 0 ''Replay session was cancelled before running'' w = Some (r, w')"
        "settled d ?i r w w'"
        by (rule cancel_before_running_settles[OF assms(2,3) k, where m = "cx_total_batches cx"]) auto
      then show ?thesis using live True by (simp add: start_run_def get)
    next
      case no: False
      obtain r w' where "run_history d lb re cx history w = Some (r, w')" "settled d ?i r w w'"
        by (rule run_history_settles[OF assms])
      then show ?thesis using live no by (simp add: start_run_def get)
    qed
  qed
qed

lemma prepare_run_settles:
  assumes "rd_restore_state d = None" "rd_session_repo d" "holds_session (rq_session_id rq) (wo_store w) s" "rq_session_id rq \<noteq> []"
    and "\<forall>st s. holds_session (rq_session_id rq) st s \<longrightarrow> (\<exists>s. holds_session (rq_session_id rq) (re_meanwhile re st) s)"
    and "length (the (rd_history_loader d) (rq_history_config rq)) < 2147483648"
  shows "\<exists>r w'. prepare_run d lb re rq stored w = Some (r, w') \<and> settled d (rq_session_id rq) r w w'"
proof -
  let ?i = "rq_session_id rq"
  note fails = FailFromInit_settles[OF _ assms(4,2)]
  show ?thesis
  proof (cases "snapshot_for d stored")
    case (Inl err)
    obtain r w' where "FailFromInit d re ?i ''config_snapshot_failed'' (''Config snapshot failed: '' @ err) w = Some (r, w')"
      "settled d ?i r w w'" by (rule fails[OF assms(3)])
    then show ?thesis using Inl by (simp add: prepare_run_def)
  next
    case snap: (Inr snapshot)
    show ?thesis
    proof (cases "RewardModeFromSnapshot (lb_parse lb) snapshot")
      case (Inl err)
      obtain r w' where "FailFromInit d re ?i ''unsupported_reward_mode'' err w = Some (r, w')"
        "settled d ?i r w w'" by (rule fails[OF assms(3)])
      then show ?thesis using snap Inl by (simp add: prepare_run_def)
    next
      case mode: (Inr mode)
      obtain ns sh where ns: "the (rd_shadow_init d) ?i (rq_tracked_user_id rq) (rq_reporting_currency rq) (re_created_at_ms re) (wo_shadow w) = (ns, sh)"
        by (metis prod.exhaust)
      have h1: "holds_session ?i (wo_store (w\<lparr>wo_shadow := sh\<rparr>)) s" using assms(3) by simp
      have same: "settled d ?i r (w\<lparr>wo_shadow := sh\<rparr>) w' = settled d ?i r w w'"
        "settled d ?i r (w\<lparr>wo_shadow := sh, wo_store := re_meanwhile re (wo_store w)\<rparr>) w' = settled d ?i r w w'" for r w'
        by (simp_all add: settled_def)
      show ?thesis
      proof (cases "ns_ok ns")
        case False
        obtain r w' where "FailFromInit d re ?i ''shadow_namespace_init_failed'' (''Shadow namespace init failed: '' @ ns_error ns) (w\<lparr>wo_shadow := sh\<rparr>) = Some (r, w')"
          "settled d ?i r (w\<lparr>wo_shadow := sh\<rparr>) w'" by (rule fails[OF h1])
        then show ?thesis using snap mode ns False same(1) by (simp add: prepare_run_def)
      next
        case True
        let ?w = "w\<lparr>wo_shadow := sh, wo_store := re_meanwhile re (wo_store w)\<rparr>"
        let ?history = "the (rd_history_loader d) (rq_history_config rq)"
        obtain s2 where h2: "holds_session ?i (wo_store ?w) s2" using assms(3,5) by auto
        show ?thesis
        proof (cases "CountUniqueBatchIds ?history = 0")
          case none: True
          obtain r w' where "FailFromInit d re ?i ''no_data'' ''No historical batches loaded for requested range'' ?w = Some (r, w')"
            "settled d ?i r ?w w'" by (rule fails[OF h2])
          then show ?thesis using snap mode ns True none same(2) by (simp add: prepare_run_def)
        next
          case some: False
          let ?cx = "\<lparr>cx_session_id = ?i, cx_namespace_id = ns_namespace_id ns,
                   cx_snapshot_json = snapshot, cx_strategy_json = se_strategy_json stored,
                   cx_tracked_user_id = (if rq_tracked_user_id rq = [] then se_user_id stored else rq_tracked_user_id rq),
                   cx_reporting_currency = rq_reporting_currency rq,
                   cx_total_batches = CountUniqueBatchIds ?history, cx_reward_mode = mode\<rparr>"
          have "CountUniqueBatchIds ?history \<le> length ?history"
            unfolding CountUniqueBatchIds_def using length_remdups_leq[of "map batch_id_of ?history"] by simp
          then have n: "cx_total_batches ?cx < 2147483648" using assms(6) by simp
          have cx: "holds_session (cx_session_id ?cx) (wo_store ?w) s2" "cx_session_id ?cx \<noteq> []"
            "cx_total_batches ?cx = CountUniqueBatchIds ?history" using h2 assms(4) by simp_all
          have "\<exists>r w'. start_run d lb re ?cx ?history ?w = Some (r, w') \<and> settled d (cx_session_id ?cx) r ?w w'"
            by (rule start_run_settles[OF assms(1) cx n])
          then obtain r w' where "start_run d lb re ?cx ?history ?w = Some (r, w')" "settled d ?i r ?w w'" by auto
          then show ?thesis using snap mode ns True some same(2) by (simp add: prepare_run_def)
        qed
      qed
    qed
  qed
qed


section \<open>Examples\<close>

definition ex_session :: "session_status \<Rightarrow> replay_session" where
  "ex_session st = \<lparr>se_session_id = ''s'', se_user_id = ''u'', se_name = ''n'', se_strategy_json = ''{}'',
    se_date_range_from = 0, se_date_range_to = 100, se_solver_config_id = ''c'', se_risk_limits_id = ''l'',
    se_fee_model_json = ''{}'', se_snapshot_json = Some ''{}'', se_status = st, se_total_batches = Some 2,
    se_progress_batches = 0, se_created_at = 0, se_started_at = None, se_completed_at = None,
    se_error_details = None, se_retry_parent_id = None, se_persist = False\<rparr>"

definition ex_world :: "session_status \<Rightarrow> unit replay_world" where
  "ex_world st = \<lparr>wo_store = \<lparr>so_registry = \<lparr>rg_sessions = [(''s'', ex_session st)], rg_ephemeral_ids = {''s''}\<rparr>,
     so_tables = None\<rparr>, wo_shadow = (), wo_logs = [], wo_events = []\<rparr>"

definition ex_history :: "historical_batch list" where
  "ex_history = map (\<lambda>i. \<lparr>hi_batch_result = ex_batch_row i 10 0, hi_fills = [], hi_marketdata_snapshots = []\<rparr>)
     [''b1'', ''b2'', ''b1'']"

definition ex_run_deps :: "unit run_deps" where
  "ex_run_deps = \<lparr>rd_session_repo = True, rd_config = Some (Inr ''{}''),
     rd_shadow_init = Some (\<lambda>i u c t sh. (\<lparr>ns_ok = True, ns_reused = False, ns_namespace_id = i, ns_error = []\<rparr>, sh)),
     rd_shadow_ledger = Some \<lparr>sh_has_checkpoint = (\<lambda>n b sh. True), sh_restore_before = (\<lambda>n b sh. (True, sh))\<rparr>,
     rd_history_loader = Some (\<lambda>cfg. ex_history),
     rd_batch_executor = Some (\<lambda>n j st u c b sh. (no_execution\<lparr>be_pnl := 1\<rparr>, sh)),
     rd_agent_log_writer = None, rd_summary_store = True, rd_event_publisher = True,
     rd_rbac_engine = None, rd_restore_state = None\<rparr>"

definition ex_cx :: run_context where
  "ex_cx = \<lparr>cx_session_id = ''s'', cx_namespace_id = ''n'', cx_snapshot_json = ''{}'', cx_strategy_json = ''{}'',
    cx_tracked_user_id = ''u'', cx_reporting_currency = ''USDT'', cx_total_batches = 2,
    cx_reward_mode = RewardMode_kIncrementalPnl\<rparr>"

definition ex_readings :: run_readings where
  "ex_readings = \<lparr>re_created_at_ms = 0, re_started_at = 1, re_completed_at = 2, re_cancelled = (\<lambda>k. False),
     re_meanwhile = (\<lambda>st. st)\<rparr>"

definition ex_library :: run_library where
  "ex_library = \<lparr>lb_fp = \<lparr>fp_round = (\<lambda>x. x), fp_strtod = (\<lambda>s. 0)\<rparr>, lb_sqrt = (\<lambda>x. x), lb_parse = (\<lambda>s. None)\<rparr>"

lemma ex_holds: "holds_session ''s'' (wo_store (ex_world st)) (ex_session st)"
  by (simp add: holds_session_def session_at_def ex_world_def ex_session_def IsEphemeral_def Registry_Get_def
      registry_ok_def session_fits_def find_Cons)

lemma ex_count: "CountUniqueBatchIds ex_history = 2" "map batch_id_of ex_history = [''b1'', ''b2'', ''b1'']"
  by (simp_all add: CountUniqueBatchIds_def ex_history_def batch_id_of_def ex_batch_row_def)

theorem journal_follows_history_witness:
  "\<exists>stop j w'. run_batches ex_run_deps ex_cx (\<lambda>k. k = 2) ex_history empty_journal (ex_world SessionStatus_kRunning) = Some (stop, j, w')
    \<and> Journal_Size j \<le> 2 \<and> (stop = RunFinished \<longrightarrow> jn_order j = [''b1''])"
proof -
  have "rd_restore_state ex_run_deps = None" "cx_session_id ex_cx = ''s''" "cx_session_id ex_cx \<noteq> []"
    "se_status (ex_session SessionStatus_kRunning) = SessionStatus_kRunning"
    "se_total_batches (ex_session SessionStatus_kRunning) = Some (int (cx_total_batches ex_cx))"
    "cx_total_batches ex_cx = CountUniqueBatchIds ex_history" "cx_total_batches ex_cx < 2147483648"
    "cx_total_batches ex_cx = 2"
    by (simp_all add: ex_run_deps_def ex_cx_def ex_session_def ex_count)
  note h = this
  have s: "holds_session (cx_session_id ex_cx) (wo_store (ex_world SessionStatus_kRunning)) (ex_session SessionStatus_kRunning)"
    unfolding h(2) by (rule ex_holds)
  have f: "follow [] (map batch_id_of ex_history) = [''b1'']" by (simp add: ex_count)
  show ?thesis
    using journal_follows_history[OF h(1) s h(4-7,3), of "\<lambda>k. k = 2"] unfolding f h(8) by blast
qed

theorem summary_is_honest_witness:
  "\<exists>r w'. run_history ex_run_deps ex_library ex_readings ex_cx ex_history (ex_world SessionStatus_kPending) = Some (r, w')
    \<and> sy_processed_batches (rn_summary r) + sy_failed_batches (rn_summary r) \<le> 2"
proof -
  have h: "rd_restore_state ex_run_deps = None" "cx_session_id ex_cx = ''s''" "cx_session_id ex_cx \<noteq> []"
    "cx_total_batches ex_cx = CountUniqueBatchIds ex_history" "cx_total_batches ex_cx < 2147483648"
    by (simp_all add: ex_run_deps_def ex_cx_def ex_count)
  have s: "holds_session (cx_session_id ex_cx) (wo_store (ex_world SessionStatus_kPending)) (ex_session SessionStatus_kPending)"
    unfolding h(2) by (rule ex_holds)
  show ?thesis using summary_is_honest[OF h(1) s h(3-5), of ex_library ex_readings] unfolding ex_count by blast
qed


end
