(* ===== verification/Replay_Control.thy ===== *)
theory Replay_Control
  imports Replay_Run_Laws
begin

text \<open>
  Cancelling and retrying replay sessions (\<open>backtest/src/app/cancel_replay_session_uc.cpp\<close>,
  \<open>retry_replay_session_uc.cpp\<close>) and the commands that do it
  (\<open>infra/replay_commands_kafka_consumer.cpp\<close>). The messages for people that go with an error code are
  left out; identifiers and clock readings are arguments.
\<close>

section \<open>Cancelling\<close>

record cancel_deps =
  cd_session_repo :: bool
  cd_summary_store :: bool
  cd_event_publisher :: bool

record cancel_session_request =
  cq_session_id :: string
  cq_requested_by :: "string option"
  cq_reason :: "string option"

record cancel_result =
  ca_ok :: bool
  ca_session :: "replay_session option"
  ca_dispatched :: bool
  ca_error_code :: string

definition cancel_error :: "string \<Rightarrow> cancel_result" where
  "cancel_error code = \<lparr>ca_ok = False, ca_session = None, ca_dispatched = False, ca_error_code = code\<rparr>"

definition cancel_ok :: "replay_session \<Rightarrow> bool \<Rightarrow> cancel_result" where
  "cancel_ok s sent = \<lparr>ca_ok = True, ca_session = Some s, ca_dispatched = sent, ca_error_code = []\<rparr>"

definition BuildErrorDetails :: "string option \<Rightarrow> string option \<Rightarrow> string" where
  "BuildErrorDetails by_user reason =
     ''cancelled'' @ (case by_user of Some u \<Rightarrow> if u = [] then [] else '' by user: '' @ u | None \<Rightarrow> [])
       @ (case reason of Some r \<Rightarrow> if r = [] then [] else '': '' @ r | None \<Rightarrow> [])"

text \<open>The cancelled identifiers are the token that runs poll.\<close>

definition IsCancelled :: "string set \<Rightarrow> string \<Rightarrow> bool" where
  "IsCancelled tokens i \<longleftrightarrow> i \<in> tokens"

definition cancelled_patch :: "int \<Rightarrow> cancel_session_request \<Rightarrow> state_patch" where
  "cancelled_patch now rq = no_patch\<lparr>pa_status := Some SessionStatus_kCancelled, pa_completed_at := Some now,
     pa_error_details := Some (BuildErrorDetails (cq_requested_by rq) (cq_reason rq))\<rparr>"

definition cancel_pending :: "cancel_deps \<Rightarrow> int \<Rightarrow> cancel_session_request \<Rightarrow> replay_session \<Rightarrow> 'w replay_world \<Rightarrow>
    (cancel_result \<times> 'w replay_world) option" where
  "cancel_pending d now rq s w =
     (case update_session (cq_session_id rq) (cancelled_patch now rq) w of
        None \<Rightarrow> Some (cancel_error ''repository_error'', w)
      | Some w \<Rightarrow>
          let s = s\<lparr>se_status := SessionStatus_kCancelled, se_completed_at := Some now,
                se_error_details := Some (BuildErrorDetails (cq_requested_by rq) (cq_reason rq))\<rparr>;
              y = empty_summary\<lparr>sy_session_id := cq_session_id rq, sy_total_batches := stored_total_batches s 0, sy_partial := True\<rparr>;
              e = (lifecycle (cq_session_id rq) LifecycleStatus_kCancelled)\<lparr>le_summary := Some y,
                le_error_details := se_error_details s, le_error_code := Some ''cancelled''\<rparr>
          in case (if cd_summary_store d then Store_SaveSummary y (wo_store w) else Some (wo_store w)) of None \<Rightarrow> None
             | Some st \<Rightarrow> Some (cancel_ok s False, w\<lparr>wo_store := st,
                 wo_events := wo_events w @ (if cd_event_publisher d then [LifecycleEvent e] else [])\<rparr>))"

definition Cancel_Run :: "cancel_deps \<Rightarrow> int \<Rightarrow> cancel_session_request \<Rightarrow> string set \<Rightarrow> 'w replay_world \<Rightarrow>
    (cancel_result \<times> string set \<times> 'w replay_world) option" where
  "Cancel_Run d now rq tokens w =
     (let i = cq_session_id rq in
      if \<not> cd_session_repo d then Some (cancel_error ''dependency_error'', tokens, w)
      else if i = [] then Some (cancel_error ''validation_error'', tokens, w)
      else case Store_GetById i (wo_store w) of
        None \<Rightarrow> Some (cancel_error ''repository_error'', tokens, w)
      | Some None \<Rightarrow> Some (cancel_error ''not_found'', tokens, w)
      | Some (Some s) \<Rightarrow> (case se_status s of
          SessionStatus_kCancelled \<Rightarrow> Some (cancel_ok s False, tokens, w)
        | SessionStatus_kPending \<Rightarrow>
            map_option (\<lambda>(r, w). (r, insert i tokens, w)) (cancel_pending d now rq s w)
        | SessionStatus_kRunning \<Rightarrow> Some (cancel_ok s True, insert i tokens, w)
        | _ \<Rightarrow> Some (cancel_error ''invalid_status'', tokens, w)))"

section \<open>Retrying\<close>

record retry_request =
  ry_original_session_id :: string
  ry_user_id :: string
  ry_new_session_id :: "string option"

definition CanRetry :: "session_status \<Rightarrow> bool" where
  "CanRetry s \<longleftrightarrow> s \<in> {SessionStatus_kFailed, SessionStatus_kCancelled}"

text \<open>The new session is a fresh \<open>ReplaySession\<close>, so it is persistent by its default.\<close>

definition CreateRetrySessionFromOriginal :: "string \<Rightarrow> int \<Rightarrow> replay_session \<Rightarrow> string option \<Rightarrow> replay_session" where
  "CreateRetrySessionFromOriginal uuid now original requested =
     \<lparr>se_session_id = (case requested of Some i \<Rightarrow> if i = [] then uuid else i | None \<Rightarrow> uuid),
      se_user_id = se_user_id original, se_name = se_name original @ '' (retry)'',
      se_strategy_json = se_strategy_json original, se_date_range_from = se_date_range_from original,
      se_date_range_to = se_date_range_to original, se_solver_config_id = se_solver_config_id original,
      se_risk_limits_id = se_risk_limits_id original, se_fee_model_json = se_fee_model_json original,
      se_snapshot_json = se_snapshot_json original, se_status = SessionStatus_kPending,
      se_total_batches = se_total_batches original, se_progress_batches = 0, se_created_at = now,
      se_started_at = None, se_completed_at = None, se_error_details = None,
      se_retry_parent_id = Some (se_session_id original), se_persist = True\<rparr>"

definition Retry_Execute :: "bool \<Rightarrow> string \<Rightarrow> int \<Rightarrow> retry_request \<Rightarrow> session_store \<Rightarrow>
    ((string + replay_session) \<times> session_store) option" where
  "Retry_Execute has_repo uuid now rq st =
     (if \<not> has_repo then Some (Inl ''dependency_error'', st)
      else if ry_original_session_id rq = [] then Some (Inl ''not_found'', st)
      else if ry_user_id rq = [] then Some (Inl ''permission_denied'', st)
      else case Store_GetById (ry_original_session_id rq) st of None \<Rightarrow> None
      | Some None \<Rightarrow> Some (Inl ''not_found'', st)
      | Some (Some original) \<Rightarrow>
          if se_user_id original \<noteq> ry_user_id rq then Some (Inl ''permission_denied'', st)
          else if \<not> CanRetry (se_status original) then Some (Inl ''invalid_state'', st)
          else case Store_Create (CreateRetrySessionFromOriginal uuid now original (ry_new_session_id rq)) st of
            None \<Rightarrow> Some (Inl ''creation_error'', st)
          | Some (s, st) \<Rightarrow> Some (Inr s, st))"

section \<open>Commands\<close>

text \<open>The cancel command forgets an ephemeral session that is over; so does the thread of a run.\<close>

definition cancel_command :: "cancel_deps \<Rightarrow> int \<Rightarrow> cancel_session_request \<Rightarrow> string set \<Rightarrow> 'w replay_world \<Rightarrow>
    (string set \<times> 'w replay_world) option" where
  "cancel_command d now rq tokens w =
     map_option (\<lambda>(r, tokens, w). (tokens, w\<lparr>wo_store := Evict (cq_session_id rq) (wo_store w)\<rparr>)) (Cancel_Run d now rq tokens w)"

definition run_thread :: "'w run_deps \<Rightarrow> run_library \<Rightarrow> run_readings \<Rightarrow> run_request \<Rightarrow> 'w replay_world \<Rightarrow> 'w replay_world option" where
  "run_thread d lb re rq w =
     map_option (\<lambda>(r, w). w\<lparr>wo_store := Evict (rq_session_id rq) (wo_store w)\<rparr>) (Replay_Run d lb re rq w)"

definition retry_run_request :: "replay_session \<Rightarrow> run_request" where
  "retry_run_request s = \<lparr>rq_session_id = se_session_id s, rq_tracked_user_id = se_user_id s,
     rq_reporting_currency = ''USDT'',
     rq_history_config = \<lparr>lf_from_ms = se_date_range_from s, lf_to_ms = se_date_range_to s, lf_chunk_size = 1000\<rparr>\<rparr>"

section \<open>What cancelling does\<close>

lemma cancel_outcome_core:
  assumes "cd_session_repo d" "holds_session (cq_session_id rq) (wo_store w) s" "cq_session_id rq \<noteq> []"
  shows "\<exists>r tokens' w'. Cancel_Run d now rq tokens w = Some (r, tokens', w')
    \<and> (ca_ok r \<longleftrightarrow> se_status s \<notin> {SessionStatus_kCompleted, SessionStatus_kFailed})
    \<and> (ca_ok r \<and> se_status s \<noteq> SessionStatus_kCancelled \<longrightarrow> IsCancelled tokens' (cq_session_id rq))
    \<and> (\<forall>i. i \<noteq> cq_session_id rq \<longrightarrow> IsCancelled tokens' i = IsCancelled tokens i \<and> session_at (wo_store w') i = session_at (wo_store w) i)
    \<and> wo_shadow w' = wo_shadow w \<and> wo_logs w' = wo_logs w
    \<and> (if se_status s = SessionStatus_kPending
       then (\<exists>s'. session_at (wo_store w') (cq_session_id rq) = Some s' \<and> se_status s' = SessionStatus_kCancelled)
         \<and> (cd_event_publisher d \<longrightarrow> (\<exists>e. wo_events w' = wo_events w @ [LifecycleEvent e]
              \<and> le_session_id e = cq_session_id rq \<and> le_status e = LifecycleStatus_kCancelled))
       else w' = w)"
proof -
  let ?i = "cq_session_id rq"
  have get: "Store_GetById ?i (wo_store w) = Some (Some s)"
    using assms(2,3) by (simp add: GetById_session_at holds_session_def)
  show ?thesis
  proof (cases "se_status s = SessionStatus_kPending")
    case False
    then show ?thesis using assms(1,3)
      by (cases "se_status s") (simp_all add: Cancel_Run_def get cancel_ok_def cancel_error_def IsCancelled_def)
  next
    case True
    let ?p = "cancelled_patch now rq"
    have s: "session_at (wo_store w) ?i = Some s" "registry_ok (so_registry (wo_store w))" "session_fits s"
      using assms(2) by (simp_all add: holds_session_def)
    have v: "valid_patch ?p" by (simp add: valid_patch_def cancelled_patch_def no_patch_def)
    have f: "0 \<le> set_to (pa_progress_batches ?p) (se_progress_batches s)"
      "\<And>n. set_opt (pa_total_batches ?p) (se_total_batches s) = Some n
        \<Longrightarrow> set_to (pa_progress_batches ?p) (se_progress_batches s) \<le> n"
      using s(3) by (simp_all add: cancelled_patch_def no_patch_def session_fits_def)
    obtain st where st: "Store_UpdateState ?i ?p (wo_store w) = Some (True, st)" "session_at st ?i = Some (apply_patch ?p s)"
      "registry_ok (so_registry st)" "\<And>k. k \<noteq> ?i \<Longrightarrow> session_at st k = session_at (wo_store w) k"
      using UpdateState_applies[OF s(1,2) assms(3) v f] by metis
    let ?w = "w\<lparr>wo_store := st\<rparr>"
    have u: "update_session ?i ?p w = Some ?w" using st(1) by (simp add: update_session_def)
    have h: "holds_session ?i st (apply_patch ?p s)"
      using st(2,3) s(3) by (simp add: holds_session_def session_fits_def cancelled_patch_def no_patch_def)
    let ?y = "empty_summary\<lparr>sy_session_id := ?i, sy_total_batches := stored_total_batches s 0, sy_partial := True\<rparr>"
    have y: "sy_session_id ?y = ?i" "sy_processed_batches ?y \<le> sy_total_batches ?y" by (simp_all add: empty_summary_def)
    obtain st2 where st2: "Store_SaveSummary ?y st = Some st2" "\<And>k. session_at st2 k = session_at st k"
      using Store_SaveSummary_works[OF h y(1) assms(3) y(2)] by metis
    let ?st = "if cd_summary_store d then st2 else st"
    have at: "session_at ?st k = session_at st k" for k using st2(2) by simp
    let ?s = "s\<lparr>se_status := SessionStatus_kCancelled, se_completed_at := Some now,
                se_error_details := Some (BuildErrorDetails (cq_requested_by rq) (cq_reason rq))\<rparr>"
    let ?e = "(lifecycle ?i LifecycleStatus_kCancelled)\<lparr>le_summary := Some ?y,
                le_error_details := se_error_details ?s, le_error_code := Some ''cancelled''\<rparr>"
    have tot: "stored_total_batches ?s 0 = stored_total_batches s 0" by (simp add: stored_total_batches_def)
    have p: "cancel_pending d now rq s w = Some (cancel_ok ?s False, ?w\<lparr>wo_store := ?st,
          wo_events := wo_events w @ (if cd_event_publisher d then [LifecycleEvent ?e] else [])\<rparr>)"
      unfolding cancel_pending_def Let_def u using st2(1) by (simp add: tot)
    have r: "Cancel_Run d now rq tokens w = Some (cancel_ok ?s False, insert ?i tokens, ?w\<lparr>wo_store := ?st,
          wo_events := wo_events w @ (if cd_event_publisher d then [LifecycleEvent ?e] else [])\<rparr>)"
      unfolding Cancel_Run_def Let_def get using assms(1,3) True p by simp
    have e: "ca_ok (cancel_ok ?s False)" "le_session_id ?e = ?i" "le_status ?e = LifecycleStatus_kCancelled"
      by (simp_all add: cancel_ok_def lifecycle_def)
    have c: "se_status (apply_patch ?p s) = SessionStatus_kCancelled" by (simp add: cancelled_patch_def)
    show ?thesis unfolding r
      by (intro exI conjI, rule refl) (use True e at st(2,4) c in \<open>auto simp: IsCancelled_def\<close>)
  qed
qed

text \<open>Cancelling, on every branch. A pending session becomes cancelled at once, its token is set and
  its end is announced; a running one only has its token set; a cancelled one is left alone; a
  completed or failed one is refused; and no other session changes.\<close>

theorem cancel_outcome:
  assumes "cd_session_repo d" "holds_session (cq_session_id rq) (wo_store w) s" "cq_session_id rq \<noteq> []"
  shows "\<exists>r tokens' w'. Cancel_Run d now rq tokens w = Some (r, tokens', w')
    \<and> (ca_ok r \<longleftrightarrow> se_status s \<notin> {SessionStatus_kCompleted, SessionStatus_kFailed})
    \<and> (ca_ok r \<and> se_status s \<noteq> SessionStatus_kCancelled \<longrightarrow> IsCancelled tokens' (cq_session_id rq))
    \<and> (\<forall>i. i \<noteq> cq_session_id rq \<longrightarrow> IsCancelled tokens' i = IsCancelled tokens i \<and> session_at (wo_store w') i = session_at (wo_store w) i)
    \<and> wo_shadow w' = wo_shadow w \<and> wo_logs w' = wo_logs w
    \<and> (if se_status s = SessionStatus_kPending
       then (\<exists>s'. session_at (wo_store w') (cq_session_id rq) = Some s' \<and> se_status s' = SessionStatus_kCancelled)
         \<and> (cd_event_publisher d \<longrightarrow> (\<exists>e. wo_events w' = wo_events w @ [LifecycleEvent e]
              \<and> le_session_id e = cq_session_id rq \<and> le_status e = LifecycleStatus_kCancelled))
       else w' = w)"
  by (rule cancel_outcome_core[OF assms])

theorem cancel_outcome_witness:
  "\<exists>r tokens' w'. Cancel_Run \<lparr>cd_session_repo = True, cd_summary_store = True, cd_event_publisher = True\<rparr> 7
      \<lparr>cq_session_id = ''s'', cq_requested_by = None, cq_reason = None\<rparr> {} (ex_world SessionStatus_kPending) = Some (r, tokens', w')
    \<and> ca_ok r \<and> IsCancelled tokens' ''s''"
proof -
  let ?d = "\<lparr>cd_session_repo = True, cd_summary_store = True, cd_event_publisher = True\<rparr>"
  let ?rq = "\<lparr>cq_session_id = ''s'', cq_requested_by = None, cq_reason = None\<rparr>"
  have h: "cd_session_repo ?d" "holds_session (cq_session_id ?rq) (wo_store (ex_world SessionStatus_kPending)) (ex_session SessionStatus_kPending)"
    "cq_session_id ?rq \<noteq> []" using ex_holds by simp_all
  have p: "se_status (ex_session SessionStatus_kPending) = SessionStatus_kPending" by (simp add: ex_session_def)
  obtain r tokens' w' where "Cancel_Run ?d 7 ?rq {} (ex_world SessionStatus_kPending) = Some (r, tokens', w')"
    "ca_ok r \<longleftrightarrow> se_status (ex_session SessionStatus_kPending) \<notin> {SessionStatus_kCompleted, SessionStatus_kFailed}"
    "ca_ok r \<and> se_status (ex_session SessionStatus_kPending) \<noteq> SessionStatus_kCancelled \<longrightarrow> IsCancelled tokens' (cq_session_id ?rq)"
    using cancel_outcome[OF h, of 7 "{}"] by blast
  then show ?thesis using p by auto
qed

text \<open>A session that is cancelled before its run starts never trades. Once a pending stored session
  was cancelled, a later run, whatever its readings, changes nothing at all: no batch is executed, no
  log is written and nothing more is announced.\<close>

theorem cancelled_session_never_runs:
  assumes "cd_session_repo c" "holds_session i (wo_store w) s" "i \<noteq> []" "cq_session_id cq = i" "rq_session_id rq = i"
    and "se_status s = SessionStatus_kPending" "Cancel_Run c now cq tokens w = Some (r, tokens', w')"
    and "rd_session_repo d" "rd_config d \<noteq> None" "rd_shadow_init d \<noteq> None" "rd_history_loader d \<noteq> None" "rd_batch_executor d \<noteq> None"
  shows "\<exists>r'. Replay_Run d lb re rq w' = Some (r', w') \<and> rn_final_status r' = SessionStatus_kCancelled"
proof -
  have h: "holds_session (cq_session_id cq) (wo_store w) s" "cq_session_id cq \<noteq> []" using assms(2-4) by simp_all
  obtain s' where s': "session_at (wo_store w') i = Some s'" "se_status s' = SessionStatus_kCancelled"
    using cancel_outcome_core[OF assms(1) h, of now tokens] assms(4,6,7) by auto
  have "Store_GetById i (wo_store w') = Some (Some s')" using s'(1) assms(3) by (simp add: GetById_session_at)
  then have "Replay_Run d lb re rq w' = Some (terminal_skip i s' 0, w')"
    using assms(5,8-12) s'(2) by (simp add: Replay_Run_def del: not_None_eq)
  then show ?thesis using s'(2) by (simp add: terminal_skip_def)
qed

text \<open>A forgotten session: an ephemeral session that was cancelled while pending is evicted by the cancel
  command, so its run no longer finds it.\<close>

lemma cancel_command_forgets:
  assumes "cd_session_repo c" "cq_session_id cq = i" "i \<noteq> []" "registry_ok (so_registry (wo_store w))" "session_fits s"
    and "find (rg_sessions (so_registry (wo_store w))) i = Some s" "se_status s = SessionStatus_kPending"
  obtains tokens' w' where "cancel_command c now cq tokens w = Some (tokens', w')"
    "\<not> IsEphemeral (so_registry (wo_store w')) i" "so_tables (wo_store w') = so_tables (wo_store w)"
proof -
  let ?r = "so_registry (wo_store w)"
  have e: "i \<in> rg_ephemeral_ids ?r" using assms(4,6) by (simp add: registry_ok_def)
  have get: "Store_GetById i (wo_store w) = Some (Some s)"
    using e assms(6) by (simp add: Store_GetById_def IsEphemeral_def Registry_Get_def)
  let ?s = "apply_patch (cancelled_patch now cq) s"
  let ?r1 = "?r\<lparr>rg_sessions := put i ?s (rg_sessions ?r)\<rparr>"
  have u: "update_session i (cancelled_patch now cq) w = Some (w\<lparr>wo_store := (wo_store w)\<lparr>so_registry := ?r1\<rparr>\<rparr>)"
    using e assms(6) by (simp add: update_session_def Store_UpdateState_def IsEphemeral_def Registry_ApplyPatch_def)
  have sv: "Store_SaveSummary y ((wo_store w)\<lparr>so_registry := ?r1\<rparr>) = Some ((wo_store w)\<lparr>so_registry := ?r1\<rparr>)"
    if "sy_session_id y = i" for y
    using that e by (simp add: Store_SaveSummary_def IsEphemeral_def)
  obtain r es where c: "Cancel_Run c now cq tokens w = Some (r, insert i tokens,
      w\<lparr>wo_store := (wo_store w)\<lparr>so_registry := ?r1\<rparr>, wo_events := es\<rparr>)"
    using assms(1-3,7) u by (simp add: Cancel_Run_def get cancel_pending_def Let_def sv)
  have t: "is_terminal (se_status ?s)" by (simp add: cancelled_patch_def)
  show ?thesis
    by (rule that[of "insert i tokens" "w\<lparr>wo_store := Evict i ((wo_store w)\<lparr>so_registry := ?r1\<rparr>), wo_events := es\<rparr>"])
      (use assms(2) t c in \<open>simp_all add: cancel_command_def Evict_def EvictIfTerminal_def IsEphemeral_def\<close>)
qed

text \<open>A run of a forgotten session ends the process. When an ephemeral session is cancelled while it
  is pending and the service has a database, the run that was already started for it does not find
  the session, tries to store a summary for it, which the reference to the session forbids, and the
  exception leaves the thread.\<close>

theorem forgotten_session_stops_service:
  assumes "cd_session_repo c" "cq_session_id cq = i" "rq_session_id rq = i" "i \<noteq> []" "registry_ok (so_registry (wo_store w))"
    and "find (rg_sessions (so_registry (wo_store w))) i = Some s" "session_fits s" "se_status s = SessionStatus_kPending"
    and "so_tables (wo_store w) = Some t" "find (tb_sessions t) i = None"
    and "rd_session_repo d" "rd_summary_store d" "rd_config d \<noteq> None" "rd_shadow_init d \<noteq> None"
    and "rd_history_loader d \<noteq> None" "rd_batch_executor d \<noteq> None"
  shows "\<exists>tokens' w'. cancel_command c now cq tokens w = Some (tokens', w') \<and> run_thread d lb re rq w' = None"
proof -
  obtain tokens' w' where w': "cancel_command c now cq tokens w = Some (tokens', w')"
    "\<not> IsEphemeral (so_registry (wo_store w')) i" "so_tables (wo_store w') = Some t"
    using cancel_command_forgets[OF assms(1,2,4,5,7,6,8), of now tokens] assms(9) by metis
  have get: "Store_GetById i (wo_store w') = Some None"
    using w'(2,3) assms(4,10) by (simp add: Store_GetById_def Pg_GetById_def)
  have u: "Store_UpdateState i p (wo_store w') = Some (False, (wo_store w')\<lparr>so_tables := Some t\<rparr>)" if "valid_patch p" for p
    using w'(2,3) assms(4,10) that by (simp add: Store_UpdateState_def Pg_UpdateState_def)
  have sv: "Store_SaveSummary y ((wo_store w')\<lparr>so_tables := Some t\<rparr>) = None" if "sy_session_id y = i" for y
    using w'(2) assms(10) that by (simp add: Store_SaveSummary_def Pg_SaveSummary_def)
  have "FailFromInit d re i ''session_not_found'' ''Session not found'' w' = None"
    using assms(11,12)
    by (simp add: FailFromInit_def Let_def update_session_def u valid_patch_def no_patch_def save_summary_def sv failed_result_def)
  then have "Replay_Run d lb re rq w' = None"
    using assms(3,11,13-16) get by (simp add: Replay_Run_def del: not_None_eq)
  then show ?thesis using w'(1) by (simp add: run_thread_def)
qed

section \<open>What retrying does\<close>

text \<open>A retry that succeeds leaves a fresh pending session in the tables, a copy of the original up to
  name, progress and times, that refers to it; the original was over and belonged to the user. Its
  row must be in the tables too, so an ephemeral session cannot be retried.\<close>

theorem retry_copies_session:
  assumes "Retry_Execute has_repo uuid now rq st = Some (Inr s', st')" "registry_ok (so_registry st)"
  obtains original t where "Store_GetById (ry_original_session_id rq) st = Some (Some original)"
    "se_user_id original = ry_user_id rq" "CanRetry (se_status original)" "so_tables st = Some t"
    "se_session_id s' = se_session_id original \<or> find (tb_sessions t) (se_session_id original) \<noteq> None"
    "find (tb_sessions t) (se_session_id s') = None"
    "s' = CreateRetrySessionFromOriginal uuid now original (ry_new_session_id rq)"
    "st' = st\<lparr>so_tables := Some (t\<lparr>tb_sessions := put (se_session_id s') s' (tb_sessions t)\<rparr>)\<rparr>"
    "session_fits s'"
proof -
  obtain original where o: "Store_GetById (ry_original_session_id rq) st = Some (Some original)"
    "se_user_id original = ry_user_id rq" "CanRetry (se_status original)"
    "Store_Create (CreateRetrySessionFromOriginal uuid now original (ry_new_session_id rq)) st = Some (s', st')"
    using assms(1) by (auto simp: Retry_Execute_def split: if_splits option.splits)
  let ?n = "CreateRetrySessionFromOriginal uuid now original (ry_new_session_id rq)"
  have n: "se_persist ?n" "se_retry_parent_id ?n = Some (se_session_id original)" "se_progress_batches ?n = 0" "?n\<lparr>se_persist := True\<rparr> = ?n"
    by (simp_all add: CreateRetrySessionFromOriginal_def)
  obtain t t' where t: "so_tables st = Some t" "Pg_Create ?n t = Some (s', t')" "st' = st\<lparr>so_tables := Some t'\<rparr>"
    using o(4) n(1) by (auto simp: Store_Create_def split: option.splits)
  have c: "valid_new_session ?n" "find (tb_sessions t) (se_session_id ?n) = None"
    "find (tb_sessions t) (se_session_id original) \<noteq> None \<or> se_session_id original = se_session_id ?n" "s' = ?n"
    "t' = t\<lparr>tb_sessions := put (se_session_id ?n) ?n (tb_sessions t)\<rparr>"
    using t(2) n(2,4) by (auto simp: Pg_Create_def Let_def split: if_splits)
  have "session_fits s'" using c(1,4) n(3) by (auto simp: session_fits_def valid_new_session_def split: option.splits)
  then show ?thesis using that[OF o(1-3) t(1)] c t(3) by metis
qed

section \<open>Examples\<close>

definition ex_cancel :: cancel_session_request where
  "ex_cancel = \<lparr>cq_session_id = ''s'', cq_requested_by = None, cq_reason = None\<rparr>"

definition ex_cancel_deps :: cancel_deps where
  "ex_cancel_deps = \<lparr>cd_session_repo = True, cd_summary_store = True, cd_event_publisher = True\<rparr>"

definition ex_request :: run_request where
  "ex_request = \<lparr>rq_session_id = ''s'', rq_tracked_user_id = [], rq_reporting_currency = ''USDT'',
     rq_history_config = \<lparr>lf_from_ms = 0, lf_to_ms = 100, lf_chunk_size = 10\<rparr>\<rparr>"

theorem cancelled_session_never_runs_witness:
  "\<exists>r tokens w'. Cancel_Run ex_cancel_deps 7 ex_cancel {} (ex_world SessionStatus_kPending) = Some (r, tokens, w')
    \<and> (\<exists>r'. Replay_Run ex_run_deps ex_library ex_readings ex_request w' = Some (r', w'))"
proof -
  have h: "cd_session_repo ex_cancel_deps" "''s'' \<noteq> []" "cq_session_id ex_cancel = ''s''" "rq_session_id ex_request = ''s''"
    "se_status (ex_session SessionStatus_kPending) = SessionStatus_kPending"
    "rd_session_repo ex_run_deps" "rd_config ex_run_deps \<noteq> None" "rd_shadow_init ex_run_deps \<noteq> None"
    "rd_history_loader ex_run_deps \<noteq> None" "rd_batch_executor ex_run_deps \<noteq> None"
    by (simp_all add: ex_cancel_deps_def ex_cancel_def ex_request_def ex_session_def ex_run_deps_def)
  have s: "holds_session (cq_session_id ex_cancel) (wo_store (ex_world SessionStatus_kPending)) (ex_session SessionStatus_kPending)"
    "cq_session_id ex_cancel \<noteq> []" using ex_holds h(3) by simp_all
  obtain r tokens w' where c: "Cancel_Run ex_cancel_deps 7 ex_cancel {} (ex_world SessionStatus_kPending) = Some (r, tokens, w')"
    using cancel_outcome_core[OF h(1) s, of 7 "{}"] by blast
  show ?thesis
    using cancelled_session_never_runs[OF h(1) ex_holds h(2-5) c h(6-10), of ex_library ex_readings] c by blast
qed

definition ex_db_world :: "unit replay_world" where
  "ex_db_world = (ex_world SessionStatus_kPending)\<lparr>wo_store := \<lparr>so_registry =
     \<lparr>rg_sessions = [(''s'', ex_session SessionStatus_kPending)], rg_ephemeral_ids = {''s''}\<rparr>,
     so_tables = Some \<lparr>tb_sessions = [], tb_summaries = []\<rparr>\<rparr>\<rparr>"

theorem forgotten_session_stops_service_witness:
  "\<exists>tokens w'. cancel_command ex_cancel_deps 7 ex_cancel {} ex_db_world = Some (tokens, w')
    \<and> run_thread ex_run_deps ex_library ex_readings ex_request w' = None"
proof -
  have h: "cd_session_repo ex_cancel_deps" "cq_session_id ex_cancel = ''s''" "rq_session_id ex_request = ''s''" "''s'' \<noteq> []"
    "registry_ok (so_registry (wo_store ex_db_world))"
    "find (rg_sessions (so_registry (wo_store ex_db_world))) ''s'' = Some (ex_session SessionStatus_kPending)"
    "session_fits (ex_session SessionStatus_kPending)"
    "se_status (ex_session SessionStatus_kPending) = SessionStatus_kPending"
    "so_tables (wo_store ex_db_world) = Some \<lparr>tb_sessions = [], tb_summaries = []\<rparr>"
    "find (tb_sessions \<lparr>tb_sessions = [], tb_summaries = []\<rparr>) ''s'' = None"
    "rd_session_repo ex_run_deps" "rd_summary_store ex_run_deps" "rd_config ex_run_deps \<noteq> None" "rd_shadow_init ex_run_deps \<noteq> None"
    "rd_history_loader ex_run_deps \<noteq> None" "rd_batch_executor ex_run_deps \<noteq> None"
    by (simp_all add: ex_cancel_deps_def ex_cancel_def ex_request_def ex_session_def ex_run_deps_def ex_db_world_def
        registry_ok_def find_Cons session_fits_def)
  show ?thesis by (rule forgotten_session_stops_service[OF h])
qed

end
