(* ===== verification/Replay_Shadow.thy ===== *)
theory Replay_Shadow
  imports Replay_Run Ledger_Views
begin

text \<open>
  The shadow ledger of a replay (\<open>backtest/src/infra/in_memory_shadow_ledger.cpp\<close>,
  \<open>app/shadow_namespace_uc.cpp\<close>): per session a namespace with a real ledger
  (\<open>Ledger_Core\<close>, \<open>Ledger_Batch\<close>, without repositories) and a checkpoint per applied batch. Doubles are
  rationals with the rounding of \<open>fp\<close>; a double beyond 64 bits, for which \<open>llround\<close> has no result,
  keeps its value. The prefix of the metrics of the process is left out.
\<close>

section \<open>Data\<close>

record namespace_state =
  nm_namespace_id :: string
  nm_session_id :: string
  nm_tracked_user_id :: string
  nm_reporting_currency :: string
  nm_balances :: "string umap"
  nm_reserved_balances :: "string umap"
  nm_positions :: "string umap"
  nm_avg_entry_prices :: "string umap"
  nm_realised_pnl :: "string umap"
  nm_created_at_ms :: int

record shadow_fill =
  sf_order_id :: string
  sf_user_id :: string
  sf_symbol :: string
  sf_base :: string
  sf_quote :: string
  sf_side :: string
  sf_executed_qty :: rat
  sf_price :: rat
  sf_executed_notional :: rat
  sf_fee_amount :: rat
  sf_fee_currency :: string
  sf_liquidity_source :: string
  sf_venue_id :: string
  sf_snapshot_id :: string
  sf_curve_id :: string

record apply_request =
  aq_namespace_id :: string
  aq_batch_id :: string
  aq_tracked_user_id :: string
  aq_reporting_currency :: string
  aq_fills :: "shadow_fill list"
  aq_clear_prices :: "rat umap"

record shadow_step =
  ss_namespace_id :: string
  ss_batch_id :: string
  ss_tracked_user_id :: string
  ss_reporting_currency :: string
  ss_realized_pnl :: string
  ss_unrealized_pnl :: string
  ss_total_pnl :: string
  ss_initial_margin :: string
  ss_maintenance_margin :: string
  ss_equity :: string
  ss_balances :: "string umap"
  ss_positions :: "string umap"
  ss_avg_entry_prices :: "string umap"
  ss_ok :: bool
  ss_error_code :: string
  ss_error_message :: string

definition empty_step :: shadow_step where
  "empty_step = \<lparr>ss_namespace_id = [], ss_batch_id = [], ss_tracked_user_id = [], ss_reporting_currency = [],
     ss_realized_pnl = [], ss_unrealized_pnl = [], ss_total_pnl = [], ss_initial_margin = [],
     ss_maintenance_margin = [], ss_equity = [], ss_balances = [], ss_positions = [], ss_avg_entry_prices = [],
     ss_ok = False, ss_error_code = [], ss_error_message = []\<rparr>"

record checkpoint =
  ck_namespace_id :: string
  ck_batch_id :: string
  ck_before_state :: namespace_state
  ck_after_state :: namespace_state
  ck_step :: shadow_step

record namespace_entry =
  en_state :: namespace_state
  en_last_step :: "shadow_step option"
  en_applied_batch_order :: "string list"
  en_checkpoints :: "checkpoint umap"
  en_ledger :: "ledger option"

type_synonym shadow_ledger = "namespace_entry umap"

section \<open>Conversions\<close>

definition llround :: "rat \<Rightarrow> int" where
  "llround x = (if x < 0 then - \<lfloor>- x + 1 / 2\<rfloor> else \<lfloor>x + 1 / 2\<rfloor>)"

text \<open>All four scales of the file are eight.\<close>

definition DecimalFromDouble :: "fp \<Rightarrow> rat \<Rightarrow> decimal" where
  "DecimalFromDouble fl x = mk_dec (llround (fp_round fl (x * 100000000))) 8"

definition ParseSide :: "string \<Rightarrow> side" where
  "ParseSide s = (if map tolower s = ''sell'' then SIDE_SELL else SIDE_BUY)"

definition ToProtoFill :: "fp \<Rightarrow> shadow_fill \<Rightarrow> flow_fill" where
  "ToProtoFill fl f =
     \<lparr>ff_order_id = sf_order_id f, ff_user_id = sf_user_id f,
      ff_instrument = \<lparr>in_symbol = sf_symbol f, in_base = sf_base f, in_quote = sf_quote f\<rparr>,
      ff_side = ParseSide (sf_side f), ff_executed_qty = DecimalFromDouble fl (sf_executed_qty f),
      ff_price = Some (DecimalFromDouble fl (sf_price f)),
      ff_executed_notional = DecimalFromDouble fl (sf_executed_notional f),
      ff_fee = (if sf_fee_amount f \<noteq> 0 \<or> sf_fee_currency f \<noteq> []
        then Some \<lparr>fe_cost = Some \<lparr>mo_currency = sf_fee_currency f,
          mo_amount = Some (DecimalFromDouble fl (sf_fee_amount f))\<rparr>\<rparr> else None),
      ff_liquidity_source = sf_liquidity_source f,
      ff_provenance = Some \<lparr>pv_liquidity_source = sf_liquidity_source f, pv_venue_id = sf_venue_id f,
        pv_snapshot_id = sf_snapshot_id f, pv_curve_id = sf_curve_id f\<rparr>\<rparr>"

definition ToCurrentPrices :: "fp \<Rightarrow> rat umap \<Rightarrow> decimal umap" where
  "ToCurrentPrices fl prices = map (\<lambda>(s, p). (s, DecimalFromDouble fl p)) prices"

definition LookupMarkPrice :: "fp \<Rightarrow> string \<Rightarrow> string \<Rightarrow> string \<Rightarrow> string \<Rightarrow> rat umap \<Rightarrow> decimal \<Rightarrow> decimal" where
  "LookupMarkPrice fl reporting symbol base quote prices fallback =
     (case find prices symbol of Some p \<Rightarrow> DecimalFromDouble fl p
      | None \<Rightarrow> (case (if quote = reporting \<and> base \<noteq> [] then find prices (base @ ''/'' @ reporting) else None) of
          Some p \<Rightarrow> DecimalFromDouble fl p
      | None \<Rightarrow> (case (if base = reporting \<and> quote \<noteq> [] then find prices (reporting @ ''/'' @ quote) else None) of
          Some p \<Rightarrow> if p \<noteq> 0 then DecimalFromDouble fl (fp_round fl (1 / p)) else fallback
      | None \<Rightarrow> fallback)))"

definition parsed :: "string umap \<Rightarrow> string \<Rightarrow> decimal" where
  "parsed m k = (case find m k of None \<Rightarrow> dzero | Some t \<Rightarrow> shadow_ParseDecimalString t)"

definition tracked_or_session :: "namespace_state \<Rightarrow> string" where
  "tracked_or_session s = (if nm_tracked_user_id s = [] then nm_session_id s else nm_tracked_user_id s)"

definition seed_balances :: "string \<Rightarrow> namespace_state \<Rightarrow> ledger \<Rightarrow> ledger" where
  "seed_balances user s l = fold (\<lambda>(ccy, t) l.
     SeedBalance user ccy (dsub (shadow_ParseDecimalString t) (parsed (nm_reserved_balances s) ccy))
       (parsed (nm_reserved_balances s) ccy) l) (nm_balances s) l"

definition seed_positions :: "string \<Rightarrow> namespace_state \<Rightarrow> ledger \<Rightarrow> ledger" where
  "seed_positions user s l = fold (\<lambda>(symbol, t) l.
     SeedPosition user symbol (shadow_ParseDecimalString t) (parsed (nm_avg_entry_prices s) symbol)
       (parsed (nm_realised_pnl s) symbol) l) (nm_positions s) l"

definition BuildLedgerFromState :: "namespace_state \<Rightarrow> ledger" where
  "BuildLedgerFromState s =
     seed_positions (tracked_or_session s) s (seed_balances (tracked_or_session s) s (LedgerUseCases_init False))"

section \<open>Namespaces\<close>

definition NamespaceExists :: "shadow_ledger \<Rightarrow> string \<Rightarrow> bool" where
  "NamespaceExists m i \<longleftrightarrow> find m i \<noteq> None"

definition or_usdt :: "string \<Rightarrow> string" where
  "or_usdt c = (if c = [] then ''USDT'' else c)"

definition CreateNamespace :: "namespace_state \<Rightarrow> shadow_ledger \<Rightarrow> bool \<times> shadow_ledger" where
  "CreateNamespace initial m =
     (if nm_namespace_id initial = [] \<or> NamespaceExists m (nm_namespace_id initial) then (False, m)
      else let s = initial\<lparr>nm_reporting_currency := or_usdt (nm_reporting_currency initial)\<rparr>
        in (True, put (nm_namespace_id initial) \<lparr>en_state = s, en_last_step = None, en_applied_batch_order = [],
             en_checkpoints = [], en_ledger = Some (BuildLedgerFromState s)\<rparr> m))"

definition GetNamespace :: "shadow_ledger \<Rightarrow> string \<Rightarrow> namespace_state option" where
  "GetNamespace m i = map_option en_state (find m i)"

definition GetLastStep :: "shadow_ledger \<Rightarrow> string \<Rightarrow> shadow_step option" where
  "GetLastStep m i = (case find m i of None \<Rightarrow> None | Some e \<Rightarrow> en_last_step e)"

definition GetCheckpoint :: "shadow_ledger \<Rightarrow> string \<Rightarrow> string \<Rightarrow> checkpoint option" where
  "GetCheckpoint m i b = (case find m i of None \<Rightarrow> None | Some e \<Rightarrow> find (en_checkpoints e) b)"

definition DropNamespace :: "string \<Rightarrow> shadow_ledger \<Rightarrow> bool \<times> shadow_ledger" where
  "DropNamespace i m = (NamespaceExists m i, erase i m)"

section \<open>Applying a batch\<close>

definition plain_ports :: ledger_ports where
  "plain_ports = \<lparr>lp_positions_repo = False, lp_entries_repo = False, lp_position_account_tx = False,
     lp_idempotency_repo = False, lp_positions_publisher = False\<rparr>"

definition shadow_batch :: "fp \<Rightarrow> string \<Rightarrow> string \<Rightarrow> shadow_fill list \<Rightarrow> batch_result" where
  "shadow_batch fl batch_id user fills =
     \<lparr>br_batch_id = batch_id, br_timestamp = (0, 0), br_clear_prices = [],
      br_fills = map (ToProtoFill fl) (filter (\<lambda>f. sf_user_id f = user) fills), br_order_updates = [],
      br_num_active_orders = 0, br_used_liquidity = []\<rparr>"

definition apply_to_ledger :: "fp \<Rightarrow> string \<Rightarrow> string \<Rightarrow> shadow_fill list \<Rightarrow> ledger \<Rightarrow> bool \<times> ledger" where
  "apply_to_ledger fl batch_id user fills l =
     (let b = shadow_batch fl batch_id user fills
      in if br_fills b = [] then (True, l)
         else let (ok, l, effects) = ApplyBatchResult plain_ports (\<lambda>_. False) 0 b l in (ok, l))"

definition sum_dec :: "decimal list \<Rightarrow> decimal" where
  "sum_dec xs = foldl dadd dzero xs"

text \<open>The parts of a symbol at its first slash; C++ division of integers truncates.\<close>

definition symbol_parts :: "string \<Rightarrow> string \<times> string" where
  "symbol_parts s = (case split_at (CHR ''/'') s of None \<Rightarrow> ([], []) | Some (b, q) \<Rightarrow> (b, q))"

definition trunc_div :: "int \<Rightarrow> int \<Rightarrow> int" where
  "trunc_div a b = (if a < 0 then - (- a div b) else a div b)"

definition shadow_notional :: "fp \<Rightarrow> string \<Rightarrow> rat umap \<Rightarrow> string \<times> position \<Rightarrow> decimal option" where
  "shadow_notional fl reporting prices sp =
     (case sp of (symbol, p) \<Rightarrow>
        if dcmp (po_amount p) dzero = 0 then None
        else let (base, quote) = symbol_parts symbol;
                 mark = LookupMarkPrice fl reporting symbol base quote prices (po_avg_entry_price p);
                 abs_qty = (if units (po_amount p) < 0 then mk_dec (i64 (- units (po_amount p))) (scale (po_amount p))
                   else po_amount p)
             in Some (dmul abs_qty mark))"

definition shadow_margin :: "int \<Rightarrow> decimal list \<Rightarrow> decimal" where
  "shadow_margin k notionals = sum_dec (map (\<lambda>n. mk_dec (trunc_div (units n) k) (scale n)) notionals)"

text \<open>The value of a balance in the reporting currency, when a price is known.\<close>

definition in_reporting :: "fp \<Rightarrow> string \<Rightarrow> rat umap \<Rightarrow> balance_view \<Rightarrow> decimal option" where
  "in_reporting fl reporting prices b =
     (if bv_currency b = reporting then Some (bv_total b)
      else case find prices (bv_currency b @ ''/'' @ reporting) of
        Some p \<Rightarrow> Some (dmul (bv_total b) (DecimalFromDouble fl p))
      | None \<Rightarrow> (case find prices (reporting @ ''/'' @ bv_currency b) of
          Some p \<Rightarrow> if p \<noteq> 0 then Some (dmul (bv_total b) (DecimalFromDouble fl (fp_round fl (1 / p)))) else None
        | None \<Rightarrow> None))"

definition texts :: "(position \<Rightarrow> decimal) \<Rightarrow> position umap \<Rightarrow> string umap" where
  "texts f ps = fold (\<lambda>(symbol, p) m. put symbol (to_string (f p)) m) ps []"

definition recorded_state :: "string \<Rightarrow> string \<Rightarrow> ledger \<Rightarrow> namespace_state \<Rightarrow> namespace_state" where
  "recorded_state user reporting l s =
     (let bs = GetBalances user l; ps = GetPositions user l
      in s\<lparr>nm_balances := fold (\<lambda>b m. put (bv_currency b) (to_string (bv_total b)) m) bs (nm_balances s),
           nm_reserved_balances := fold (\<lambda>b m. put (bv_currency b) (to_string (bv_reserved b)) m) bs (nm_reserved_balances s),
           nm_tracked_user_id := user, nm_reporting_currency := reporting,
           nm_positions := texts po_amount ps, nm_avg_entry_prices := texts po_avg_entry_price ps,
           nm_realised_pnl := texts po_realised_pnl ps\<rparr>)"

definition step_of_ledger :: "fp \<Rightarrow> string \<Rightarrow> string \<Rightarrow> rat umap \<Rightarrow> ledger \<Rightarrow> namespace_state \<Rightarrow> shadow_step \<Rightarrow> shadow_step" where
  "step_of_ledger fl user reporting prices l s step =
     (let realized = sum_dec (map snd (GetRealisedPnL user [] l));
          unrealized = sum_dec (map uv_unrealised_pnl (GetUnrealisedPnL user [] (ToCurrentPrices fl prices) l));
          notionals = List.map_filter (shadow_notional fl reporting prices) (GetPositions user l)
      in step\<lparr>ss_realized_pnl := to_string realized, ss_unrealized_pnl := to_string unrealized,
           ss_total_pnl := to_string (dadd realized unrealized),
           ss_initial_margin := to_string (shadow_margin 10 notionals),
           ss_maintenance_margin := to_string (shadow_margin 20 notionals),
           ss_equity := to_string (sum_dec (List.map_filter (in_reporting fl reporting prices) (GetBalances user l))),
           ss_balances := nm_balances s, ss_positions := nm_positions s, ss_avg_entry_prices := nm_avg_entry_prices s,
           ss_ok := True\<rparr>)"

definition tracked_user :: "apply_request \<Rightarrow> namespace_state \<Rightarrow> string" where
  "tracked_user rq s = (if aq_tracked_user_id rq \<noteq> [] then aq_tracked_user_id rq else tracked_or_session s)"

definition reporting_of :: "apply_request \<Rightarrow> namespace_state \<Rightarrow> string" where
  "reporting_of rq s = (if aq_reporting_currency rq \<noteq> [] then aq_reporting_currency rq else or_usdt (nm_reporting_currency s))"

definition shadow_error :: "string \<Rightarrow> string \<Rightarrow> shadow_step \<Rightarrow> shadow_step" where
  "shadow_error code msg step = step\<lparr>ss_error_code := code, ss_error_message := msg\<rparr>"

definition apply_to_entry :: "fp \<Rightarrow> apply_request \<Rightarrow> shadow_step \<Rightarrow> namespace_entry \<Rightarrow> shadow_step \<times> namespace_entry" where
  "apply_to_entry fl rq step e =
     (let user = tracked_user rq (en_state e); reporting = reporting_of rq (en_state e); b = aq_batch_id rq;
          step = step\<lparr>ss_tracked_user_id := user, ss_reporting_currency := reporting\<rparr>
      in if user = [] then (shadow_error ''missing_tracked_user'' ''tracked user id is required for shadow apply'' step, e)
         else case en_ledger e of
           None \<Rightarrow> (shadow_error ''ledger_not_initialized'' ''shadow ledger namespace has no backing ledger'' step, e)
         | Some l \<Rightarrow>
             if b = [] then (shadow_error ''missing_batch_id'' ''batch_id is required for shadow apply'' step, e)
             else case find (en_checkpoints e) b of Some c \<Rightarrow> (ck_step c, e)
             | None \<Rightarrow>
               (let (ok, l) = apply_to_ledger fl b user (aq_fills rq) l
                in if \<not> ok then (let s = shadow_error ''apply_failed'' ''shadow ledger apply failed'' step
                     in (s, e\<lparr>en_last_step := Some s, en_ledger := Some l\<rparr>))
                   else let s = recorded_state user reporting l (en_state e);
                            step = step_of_ledger fl user reporting (aq_clear_prices rq) l s step;
                            c = \<lparr>ck_namespace_id = aq_namespace_id rq, ck_batch_id = b,
                              ck_before_state = en_state e, ck_after_state = s, ck_step = step\<rparr>
                        in (step, \<lparr>en_state = s, en_last_step = Some step,
                             en_applied_batch_order = en_applied_batch_order e @ [b],
                             en_checkpoints = put b c (en_checkpoints e), en_ledger = Some l\<rparr>)))"

definition ApplyFills :: "fp \<Rightarrow> apply_request \<Rightarrow> shadow_ledger \<Rightarrow> shadow_step \<times> shadow_ledger" where
  "ApplyFills fl rq m =
     (let step = empty_step\<lparr>ss_namespace_id := aq_namespace_id rq, ss_batch_id := aq_batch_id rq\<rparr>
      in case find m (aq_namespace_id rq) of
           None \<Rightarrow> (shadow_error ''missing_namespace'' ''shadow namespace does not exist'' step, m)
         | Some e \<Rightarrow> (let (s, e) = apply_to_entry fl rq step e in (s, put (aq_namespace_id rq) e m)))"

section \<open>Going back\<close>

definition restore_entry :: "string \<Rightarrow> namespace_entry \<Rightarrow> namespace_entry option" where
  "restore_entry b e =
     (if b \<notin> set (en_applied_batch_order e) then None
      else case find (en_checkpoints e) b of None \<Rightarrow> None
      | Some c \<Rightarrow>
          let kept = takeWhile (\<lambda>k. k \<noteq> b) (en_applied_batch_order e)
          in Some \<lparr>en_state = ck_before_state c,
               en_last_step = (if kept = [] then None else map_option ck_step (find (en_checkpoints e) (last kept))),
               en_applied_batch_order = kept,
               en_checkpoints = fold erase (dropWhile (\<lambda>k. k \<noteq> b) (en_applied_batch_order e)) (en_checkpoints e),
               en_ledger = Some (BuildLedgerFromState (ck_before_state c))\<rparr>)"

definition RestoreBeforeBatch :: "string \<Rightarrow> string \<Rightarrow> shadow_ledger \<Rightarrow> bool \<times> shadow_ledger" where
  "RestoreBeforeBatch i b m =
     (case find m i of None \<Rightarrow> (False, m)
      | Some e \<Rightarrow> (case restore_entry b e of None \<Rightarrow> (False, m) | Some e \<Rightarrow> (True, put i e m)))"

section \<open>Opening a namespace for a session\<close>

datatype namespace_mode = NamespaceMode_kEmptySandbox | NamespaceMode_kExplicit

record namespace_request =
  nr_session_id :: string
  nr_tracked_user_id :: string
  nr_reporting_currency :: string
  nr_mode :: namespace_mode
  nr_initial_balances :: "string umap"
  nr_initial_reserved_balances :: "string umap"
  nr_initial_positions :: "string umap"
  nr_initial_avg_entry_prices :: "string umap"
  nr_initial_realised_pnl :: "string umap"
  nr_created_at_ms :: int
  nr_namespace_id_override :: "string option"

definition MakeNamespaceId :: "string \<Rightarrow> string" where
  "MakeNamespaceId session = ''replay::'' @ session"

definition Namespace_Init :: "namespace_request \<Rightarrow> shadow_ledger \<Rightarrow> namespace_result \<times> shadow_ledger" where
  "Namespace_Init rq m =
     (if nr_session_id rq = [] then
        (\<lparr>ns_ok = False, ns_reused = False, ns_namespace_id = [], ns_error = ''session_id must not be empty''\<rparr>, m)
      else let i = (case nr_namespace_id_override rq of Some x \<Rightarrow> x | None \<Rightarrow> MakeNamespaceId (nr_session_id rq));
               explicit = (\<lambda>x. if nr_mode rq = NamespaceMode_kExplicit then x else [])
        in if NamespaceExists m i then (\<lparr>ns_ok = True, ns_reused = True, ns_namespace_id = i, ns_error = []\<rparr>, m)
           else let (ok, m) = CreateNamespace
                      \<lparr>nm_namespace_id = i, nm_session_id = nr_session_id rq, nm_tracked_user_id = nr_tracked_user_id rq,
                       nm_reporting_currency = or_usdt (nr_reporting_currency rq),
                       nm_balances = explicit (nr_initial_balances rq),
                       nm_reserved_balances = explicit (nr_initial_reserved_balances rq),
                       nm_positions = explicit (nr_initial_positions rq),
                       nm_avg_entry_prices = explicit (nr_initial_avg_entry_prices rq),
                       nm_realised_pnl = explicit (nr_initial_realised_pnl rq), nm_created_at_ms = nr_created_at_ms rq\<rparr> m
             in if ok then (\<lparr>ns_ok = True, ns_reused = False, ns_namespace_id = i, ns_error = []\<rparr>, m)
                else (\<lparr>ns_ok = False, ns_reused = False, ns_namespace_id = i,
                  ns_error = ''shadow ledger refused namespace creation: '' @ i\<rparr>, m))"

section \<open>Going back undoes the batches\<close>

lemma plain_apply_succeeds: "fst (apply_to_ledger fl b user fills l)"
  by (simp add: apply_to_ledger_def Let_def ApplyBatchResult_def plain_ports_def split: prod.splits)

text \<open>The checkpoints of an entry are those of the applied batches, and the last step is the last one's.\<close>

definition entry_ok :: "namespace_entry \<Rightarrow> bool" where
  "entry_ok e \<longleftrightarrow> distinct (en_applied_batch_order e) \<and> en_ledger e \<noteq> None
     \<and> (\<forall>b. find (en_checkpoints e) b = None \<longleftrightarrow> b \<notin> set (en_applied_batch_order e))
     \<and> en_last_step e = (if en_applied_batch_order e = [] then None
          else map_option ck_step (find (en_checkpoints e) (last (en_applied_batch_order e))))"

definition shadow_ok :: "shadow_ledger \<Rightarrow> bool" where
  "shadow_ok m \<longleftrightarrow> (\<forall>i e. find m i = Some e \<longrightarrow> entry_ok e)"

text \<open>What one request does to an entry: nothing, or one more checkpoint.\<close>

definition one_more :: "string \<Rightarrow> namespace_entry \<Rightarrow> namespace_entry \<Rightarrow> bool" where
  "one_more b e e' \<longleftrightarrow> find (en_checkpoints e) b = None \<and> en_applied_batch_order e' = en_applied_batch_order e @ [b]
     \<and> (\<exists>c. en_checkpoints e' = put b c (en_checkpoints e) \<and> ck_before_state c = en_state e
          \<and> en_last_step e' = Some (ck_step c)) \<and> en_ledger e' \<noteq> None"

lemma apply_to_entry_cases:
  assumes "\<not> ss_ok step"
  obtains (refused) "snd (apply_to_entry fl rq step e) = e" "\<not> ss_ok (fst (apply_to_entry fl rq step e))"
  | (known) c where "snd (apply_to_entry fl rq step e) = e" "find (en_checkpoints e) (aq_batch_id rq) = Some c"
  | (more) "one_more (aq_batch_id rq) e (snd (apply_to_entry fl rq step e))"
proof -
  let ?user = "tracked_user rq (en_state e)"
  consider (bad) "?user = [] \<or> en_ledger e = None \<or> aq_batch_id rq = []"
    | (seen) c l where "?user \<noteq> []" "en_ledger e = Some l" "aq_batch_id rq \<noteq> []" "find (en_checkpoints e) (aq_batch_id rq) = Some c"
    | (fresh) l where "?user \<noteq> []" "en_ledger e = Some l" "aq_batch_id rq \<noteq> []" "find (en_checkpoints e) (aq_batch_id rq) = None"
    by (cases "find (en_checkpoints e) (aq_batch_id rq)"; cases "en_ledger e") blast+
  then show ?thesis
  proof cases
    case bad
    then show ?thesis using refused assms
      by (cases "en_ledger e") (auto simp: apply_to_entry_def Let_def shadow_error_def)
  next
    case seen
    then show ?thesis by (intro known) (simp_all add: apply_to_entry_def Let_def)
  next
    case (fresh l)
    obtain ok l' where a: "apply_to_ledger fl (aq_batch_id rq) ?user (aq_fills rq) l = (ok, l')" by (metis prod.exhaust)
    have "ok" using plain_apply_succeeds[of fl "aq_batch_id rq" ?user "aq_fills rq" l] by (simp add: a)
    then have "one_more (aq_batch_id rq) e (snd (apply_to_entry fl rq step e))"
      using fresh a unfolding apply_to_entry_def Let_def one_more_def
      by (simp, intro exI conjI) (rule refl, simp_all)
    then show ?thesis by (rule more)
  qed
qed

lemma one_more_ok: "one_more b e e' \<Longrightarrow> entry_ok e \<Longrightarrow> entry_ok e'"
  by (auto simp: one_more_def entry_ok_def split: if_splits)

text \<open>An entry that grew out of another keeps its checkpoints.\<close>

definition extends :: "namespace_entry \<Rightarrow> namespace_entry \<Rightarrow> bool" where
  "extends e e' \<longleftrightarrow> entry_ok e' \<and> (\<exists>bs. en_applied_batch_order e' = en_applied_batch_order e @ bs)
     \<and> (\<forall>b. b \<in> set (en_applied_batch_order e) \<longrightarrow> find (en_checkpoints e') b = find (en_checkpoints e) b)"

lemma extends_refl: "entry_ok e \<Longrightarrow> extends e e"
  by (simp add: extends_def)

lemma extends_trans: "extends e e1 \<Longrightarrow> extends e1 e2 \<Longrightarrow> extends e e2"
  unfolding extends_def by (elim conjE exE) (intro conjI, assumption, simp, simp)

lemma one_more_extends:
  assumes "one_more b e e'" "entry_ok e"
  shows "extends e e'"
proof -
  have "b \<notin> set (en_applied_batch_order e)" using assms by (simp add: one_more_def entry_ok_def)
  then show ?thesis using assms one_more_ok[OF assms] by (auto simp: extends_def one_more_def)
qed

definition blank_step :: "apply_request \<Rightarrow> shadow_step" where
  "blank_step rq = empty_step\<lparr>ss_namespace_id := aq_namespace_id rq, ss_batch_id := aq_batch_id rq\<rparr>"

lemma blank_not_ok: "\<not> ss_ok (blank_step rq)"
  by (simp add: blank_step_def empty_step_def)

lemma ApplyFills_entry:
  "find m (aq_namespace_id rq) = Some e \<Longrightarrow> ApplyFills fl rq m =
    (fst (apply_to_entry fl rq (blank_step rq) e), put (aq_namespace_id rq) (snd (apply_to_entry fl rq (blank_step rq) e)) m)"
  by (simp add: ApplyFills_def blank_step_def Let_def split: prod.splits)

lemma apply_extends: "entry_ok e \<Longrightarrow> extends e (snd (apply_to_entry fl rq (blank_step rq) e))"
  by (cases rule: apply_to_entry_cases[OF blank_not_ok, of fl rq rq e]) (auto simp: extends_refl one_more_extends)

lemma ApplyFills_extends:
  assumes "find m i = Some e" "entry_ok e"
  obtains e' where "find (snd (ApplyFills fl rq m)) i = Some e'" "extends e e'"
proof (cases "aq_namespace_id rq = i")
  case True
  then show ?thesis
    using that[of "snd (apply_to_entry fl rq (blank_step rq) e)"] assms apply_extends[OF assms(2)] ApplyFills_entry by simp
next
  case False
  then have "find (snd (ApplyFills fl rq m)) i = Some e"
    using assms(1) by (cases "find m (aq_namespace_id rq)") (simp add: ApplyFills_def Let_def, simp add: ApplyFills_entry)
  then show ?thesis using that extends_refl[OF assms(2)] by blast
qed

lemma run_extends:
  assumes "find m i = Some e" "entry_ok e"
  shows "\<exists>e'. find (fold (\<lambda>rq m. snd (ApplyFills fl rq m)) rqs m) i = Some e' \<and> extends e e'"
  using assms
proof (induction rqs arbitrary: m e)
  case Nil
  then show ?case by (simp add: extends_refl)
next
  case (Cons rq rqs)
  obtain e1 where e1: "find (snd (ApplyFills fl rq m)) i = Some e1" "extends e e1"
    using ApplyFills_extends[OF Cons.prems] by metis
  then have "entry_ok e1" by (simp add: extends_def)
  from Cons.IH[OF e1(1) this] e1(2) show ?case by (auto intro: extends_trans)
qed

lemma shadow_ok_kept:
  assumes "shadow_ok m"
  shows "shadow_ok (snd (CreateNamespace s m))" "shadow_ok (snd (ApplyFills fl rq m))" "shadow_ok (snd (DropNamespace i m))"
proof -
  show "shadow_ok (snd (CreateNamespace s m))"
    using assms by (auto simp: CreateNamespace_def shadow_ok_def entry_ok_def Let_def)
  show "shadow_ok (snd (DropNamespace i m))" using assms by (auto simp: DropNamespace_def shadow_ok_def split: if_splits)
  show "shadow_ok (snd (ApplyFills fl rq m))"
  proof (cases "find m (aq_namespace_id rq)")
    case None
    then show ?thesis using assms by (simp add: ApplyFills_def Let_def)
  next
    case (Some e)
    then have "entry_ok e" using assms by (simp add: shadow_ok_def)
    then have "entry_ok (snd (apply_to_entry fl rq (blank_step rq) e))" using apply_extends by (simp add: extends_def)
    then show ?thesis using assms by (simp add: ApplyFills_entry[OF Some] shadow_ok_def)
  qed
qed

text \<open>Restoring before a batch that was applied on top of an entry gives that entry back, but for the
  ledger, which is rebuilt from the recorded state.\<close>

lemma restore_gives_back:
  assumes "entry_ok e" "one_more b e e1" "extends e1 e2"
  obtains e3 where "restore_entry b e2 = Some e3" "en_state e3 = en_state e" "en_last_step e3 = en_last_step e"
    "en_applied_batch_order e3 = en_applied_batch_order e" "\<And>k. find (en_checkpoints e3) k = find (en_checkpoints e) k"
    "en_ledger e3 = Some (BuildLedgerFromState (en_state e))"
proof -
  let ?o = "en_applied_batch_order e"
  obtain c where c: "en_applied_batch_order e1 = ?o @ [b]" "en_checkpoints e1 = put b c (en_checkpoints e)"
    "ck_before_state c = en_state e" "find (en_checkpoints e) b = None"
    using assms(2) by (auto simp: one_more_def)
  have b: "b \<notin> set ?o" using assms(1) c(4) by (simp add: entry_ok_def)
  obtain bs where o2: "en_applied_batch_order e2 = ?o @ [b] @ bs" using assms(3) c(1) by (auto simp: extends_def)
  have kept: "find (en_checkpoints e2) k = find (put b c (en_checkpoints e)) k" if "k \<in> set (?o @ [b])" for k
    using assms(3) that unfolding extends_def c(1,2) by blast
  have ok2: "entry_ok e2" using assms(3) by (simp add: extends_def)
  have t: "takeWhile (\<lambda>k. k \<noteq> b) (en_applied_batch_order e2) = ?o" unfolding o2 using b by (simp add: takeWhile_append)
  have dr: "dropWhile (\<lambda>k. k \<noteq> b) (en_applied_batch_order e2) = [b] @ bs"
    unfolding o2 using b by (simp add: dropWhile_append)
  have cb: "find (en_checkpoints e2) b = Some c" using kept[of b] by simp
  let ?e3 = "\<lparr>en_state = ck_before_state c,
     en_last_step = (if ?o = [] then None else map_option ck_step (find (en_checkpoints e2) (last ?o))),
     en_applied_batch_order = ?o, en_checkpoints = fold erase ([b] @ bs) (en_checkpoints e2),
     en_ledger = Some (BuildLedgerFromState (ck_before_state c))\<rparr>"
  have r: "restore_entry b e2 = Some ?e3"
    unfolding restore_entry_def t dr Let_def using cb o2 by simp
  have cps: "find (fold erase ([b] @ bs) (en_checkpoints e2)) k = find (en_checkpoints e) k" for k
  proof (cases "k \<in> set ?o")
    case True
    moreover have "k \<notin> set ([b] @ bs)" using ok2 True b unfolding entry_ok_def o2 by auto
    ultimately show ?thesis using kept[of k] b unfolding find_erases by auto
  next
    case False
    then have "find (en_checkpoints e) k = None" using assms(1) by (simp add: entry_ok_def)
    moreover have "find (en_checkpoints e2) k = None" if "k \<notin> set ([b] @ bs)"
      using ok2 False that unfolding entry_ok_def o2 by auto
    ultimately show ?thesis unfolding find_erases by auto
  qed
  have last: "find (en_checkpoints e2) (last ?o) = find (en_checkpoints e) (last ?o)" if "?o \<noteq> []"
    using kept[of "last ?o"] that b by auto
  show ?thesis
    by (rule that[OF r]) (use c(3) cps last assms(1) in \<open>auto simp: entry_ok_def\<close>)
qed

text \<open>C38. Going back undoes the batches. When a batch of a namespace is applied for the first time and
  then any requests follow, for this namespace or others, repeated or refused, going back to before
  the batch succeeds and gives the namespace the recorded state, the last step and the checkpoints it
  had, rebuilds its ledger from that state, and leaves every other namespace alone.\<close>

theorem restore_undoes_batches:
  assumes "shadow_ok m" "GetCheckpoint m (aq_namespace_id rq) (aq_batch_id rq) = None" "ss_ok (fst (ApplyFills fl rq m))"
    and "m' = fold (\<lambda>rq m. snd (ApplyFills fl rq m)) (rq # rqs) m"
  shows "\<exists>m''. RestoreBeforeBatch (aq_namespace_id rq) (aq_batch_id rq) m' = (True, m'')
    \<and> GetNamespace m'' (aq_namespace_id rq) = GetNamespace m (aq_namespace_id rq)
    \<and> GetLastStep m'' (aq_namespace_id rq) = GetLastStep m (aq_namespace_id rq)
    \<and> (\<forall>b. GetCheckpoint m'' (aq_namespace_id rq) b = GetCheckpoint m (aq_namespace_id rq) b)
    \<and> map_option en_ledger (find m'' (aq_namespace_id rq))
        = Some (map_option BuildLedgerFromState (GetNamespace m (aq_namespace_id rq)))
    \<and> (\<forall>j. j \<noteq> aq_namespace_id rq \<longrightarrow> find m'' j = find m' j)"
proof -
  let ?i = "aq_namespace_id rq" and ?b = "aq_batch_id rq"
  obtain e where e: "find m ?i = Some e"
    using assms(3) by (cases "find m ?i") (auto simp: ApplyFills_def Let_def shadow_error_def empty_step_def)
  then have ok: "entry_ok e" using assms(1) by (simp add: shadow_ok_def)
  let ?e1 = "snd (apply_to_entry fl rq (blank_step rq) e)"
  have "one_more ?b e ?e1"
    by (cases rule: apply_to_entry_cases[OF blank_not_ok, of fl rq rq e])
      (use assms(2,3) e in \<open>auto simp: ApplyFills_entry[OF e] GetCheckpoint_def\<close>)
  moreover have "find (snd (ApplyFills fl rq m)) ?i = Some ?e1" by (simp add: ApplyFills_entry[OF e])
  then obtain e2 where e2: "find m' ?i = Some e2" "extends ?e1 e2"
    using run_extends[of "snd (ApplyFills fl rq m)" ?i ?e1 fl rqs] one_more_ok[OF calculation ok] assms(4) by auto
  ultimately obtain e3 where e3: "restore_entry ?b e2 = Some e3" "en_state e3 = en_state e" "en_last_step e3 = en_last_step e"
    "\<And>k. find (en_checkpoints e3) k = find (en_checkpoints e) k" "en_ledger e3 = Some (BuildLedgerFromState (en_state e))"
    using restore_gives_back[OF ok _ e2(2)] by metis
  have "RestoreBeforeBatch ?i ?b m' = (True, put ?i e3 m')" using e2(1) e3(1) by (simp add: RestoreBeforeBatch_def)
  then show ?thesis using e e3 by (auto simp: GetNamespace_def GetLastStep_def GetCheckpoint_def)
qed

section \<open>The rebuilt ledger\<close>

text \<open>The ledger that is rebuilt from what was recorded of a ledger has the same books for the tracked
  user: the positions exactly, the reserved balances exactly, the available ones by value.\<close>

definition recordable :: "nat \<Rightarrow> int \<Rightarrow> string \<Rightarrow> ledger \<Rightarrow> bool" where
  "recordable s m user l \<longleftrightarrow> 3 * m \<le> max_units
     \<and> (\<forall>ub. find (lg_balances l) user = Some ub \<longrightarrow> distinct (map fst ub)
        \<and> (\<forall>(c, b) \<in> set ub. grid s m (ba_available b) \<and> grid s m (ba_reserved b)))
     \<and> distinct (map fst (GetPositions user l))
     \<and> (\<forall>(i, p) \<in> set (GetPositions user l).
          writable (po_amount p) \<and> writable (po_avg_entry_price p) \<and> writable (po_realised_pnl p))"

lemma find_fold_put:
  "distinct (map k xs) \<Longrightarrow> x \<in> set xs \<Longrightarrow> find (fold (\<lambda>x m. put (k x) (f x) m) xs m) (k x) = Some (f x)"
proof (induction xs arbitrary: m)
  case (Cons y ys)
  have other: "k x \<notin> k ` set ys \<Longrightarrow> find (fold (\<lambda>x m. put (k x) (f x) m) ys m) (k x) = find m (k x)" for m
    by (induction ys arbitrary: m) auto
  show ?case using Cons other[of "put (k y) (f y) m"] by (cases "x = y") auto
qed simp

lemma find_fold_put_other:
  "i \<notin> k ` set xs \<Longrightarrow> find (fold (\<lambda>x m. put (k x) (f x) m) xs m) i = find m i"
  by (induction xs arbitrary: m) auto

lemma grid_writable: "grid s m d \<Longrightarrow> m \<le> max_units \<Longrightarrow> writable d"
  using grid_wf[of s m d] grid_at[of s m d "nat (scale d)"] by (auto simp: writable_def grid_def at_scale_def nat_le_iff)

lemma seed_balances_entry:
  assumes "distinct (map fst (nm_balances st))" "(c, t) \<in> set (nm_balances st)"
  shows "balance_of (seed_balances u st l) u c
    = \<lparr>ba_available = dsub (shadow_ParseDecimalString t) (parsed (nm_reserved_balances st) c),
       ba_reserved = parsed (nm_reserved_balances st) c\<rparr>"
proof -
  let ?f = "\<lambda>(ccy, t) l. SeedBalance u ccy (dsub (shadow_ParseDecimalString t) (parsed (nm_reserved_balances st) ccy))
       (parsed (nm_reserved_balances st) ccy) l"
  have other: "c \<notin> fst ` set xs \<Longrightarrow> balance_of (fold ?f xs l) u c = balance_of l u c" for xs l
    by (induction xs arbitrary: l) (auto simp: SeedBalance_def set_balance_def balance_of_def)
  have "distinct (map fst xs) \<Longrightarrow> (c, t) \<in> set xs \<Longrightarrow> balance_of (fold ?f xs l) u c
      = \<lparr>ba_available = dsub (shadow_ParseDecimalString t) (parsed (nm_reserved_balances st) c),
         ba_reserved = parsed (nm_reserved_balances st) c\<rparr>" for xs l
  proof (induction xs arbitrary: l)
    case (Cons x xs)
    show ?case
    proof (cases "x = (c, t)")
      case True
      then show ?thesis using Cons.prems other[of xs] by (auto simp: SeedBalance_def set_balance_def balance_of_def)
    next
      case False
      then show ?thesis using Cons by auto
    qed
  qed simp
  then show ?thesis unfolding seed_balances_def using assms by blast
qed

lemma seed_positions_balances: "balance_of (seed_positions u st l) = balance_of l"
proof -
  have "lg_balances (fold (\<lambda>(symbol, t) l. SeedPosition v symbol (shadow_ParseDecimalString t)
      (parsed (nm_avg_entry_prices st) symbol) (parsed (nm_realised_pnl st) symbol) l) xs l) = lg_balances l" for v xs l
    by (induction xs arbitrary: l) (auto simp: SeedPosition_def set_position_def)
  then show ?thesis by (auto simp: seed_positions_def balance_of_def fun_eq_iff)
qed

lemma seed_positions_entry:
  assumes "distinct (map fst (nm_positions st))" "(i, t) \<in> set (nm_positions st)"
  shows "GetPosition u i (seed_positions u st l)
    = \<lparr>po_amount = shadow_ParseDecimalString t, po_avg_entry_price = parsed (nm_avg_entry_prices st) i,
       po_realised_pnl = parsed (nm_realised_pnl st) i\<rparr>"
proof -
  let ?f = "\<lambda>(symbol, t) l. SeedPosition u symbol (shadow_ParseDecimalString t)
      (parsed (nm_avg_entry_prices st) symbol) (parsed (nm_realised_pnl st) symbol) l"
  have get: "GetPosition u i l = find2 empty_position (lg_positions l) u i" for l
    by (simp add: GetPosition_def find2_def find_or_def split: option.splits)
  have other: "i \<notin> fst ` set xs \<Longrightarrow> find2 empty_position (lg_positions (fold ?f xs l)) u i = find2 empty_position (lg_positions l) u i" for xs l
    by (induction xs arbitrary: l) (auto simp: SeedPosition_def set_position_def)
  have "distinct (map fst xs) \<Longrightarrow> (i, t) \<in> set xs \<Longrightarrow> find2 empty_position (lg_positions (fold ?f xs l)) u i
      = \<lparr>po_amount = shadow_ParseDecimalString t, po_avg_entry_price = parsed (nm_avg_entry_prices st) i,
       po_realised_pnl = parsed (nm_realised_pnl st) i\<rparr>" for xs l
  proof (induction xs arbitrary: l)
    case (Cons x xs)
    show ?case
    proof (cases "x = (i, t)")
      case True
      then show ?thesis using Cons.prems other[of xs] by (auto simp: SeedPosition_def set_position_def)
    next
      case False
      then show ?thesis using Cons by auto
    qed
  qed simp
  then show ?thesis unfolding seed_positions_def get using assms by blast
qed

lemma distinct_fold_put: "distinct (map fst m) \<Longrightarrow> distinct (map fst (fold (\<lambda>x m. put (k x) (f x) m) xs m))"
  by (induction xs arbitrary: m) (auto intro: distinct_put)

lemma texts_find:
  assumes "distinct (map fst ps)" "(i, p) \<in> set ps" "writable (f p)"
  shows "parsed (texts f ps) i = f p" "(i, to_string (f p)) \<in> set (texts f ps)"
proof -
  have t: "texts f ps = fold (\<lambda>x m. put (fst x) (to_string (f (snd x))) m) ps []"
    by (simp add: texts_def split_beta')
  have "find (texts f ps) i = Some (to_string (f p))"
    unfolding t using find_fold_put[OF assms(1,2), of "\<lambda>x. to_string (f (snd x))" "[]"] by simp
  moreover have "shadow_ParseDecimalString (to_string (f p)) = f p" by (rule to_string_shadow[OF assms(3)])
  ultimately show "parsed (texts f ps) i = f p" "(i, to_string (f p)) \<in> set (texts f ps)"
    by (simp_all add: parsed_def find_in)
qed

lemma distinct_texts: "distinct (map fst (texts f ps))"
  unfolding texts_def split_beta' using distinct_fold_put[of "[]"] by simp

text \<open>C39. The rebuilt ledger keeps the books. The ledger a namespace gets back after a restore is built
  from text; for the tracked user it has every position exactly as it was recorded, every reserved
  balance exactly, and every available balance with the same value, as long as the sums of the
  balances fit 64 bits.\<close>

theorem rebuilt_ledger_keeps_books:
  assumes "recordable s m user l" "user \<noteq> []" "distinct (map fst (nm_balances st))"
    and "l' = BuildLedgerFromState (recorded_state user reporting l st)"
  shows "(\<forall>c b. find (find_or [] (lg_balances l) user) c = Some b \<longrightarrow>
        ba_reserved (balance_of l' user c) = ba_reserved b \<and> dval (ba_available (balance_of l' user c)) = dval (ba_available b))
    \<and> (\<forall>i p. find (GetPositions user l) i = Some p \<longrightarrow> GetPosition user i l' = p)"
proof (intro conjI allI impI)
  let ?st = "recorded_state user reporting l st"
  let ?bs = "GetBalances user l" and ?ps = "GetPositions user l"
  have build: "l' = seed_positions user ?st (seed_balances user ?st (LedgerUseCases_init False))"
    using assms(2) by (simp add: assms(4) BuildLedgerFromState_def tracked_or_session_def recorded_state_def Let_def)
  {
    fix c b assume f: "find (find_or [] (lg_balances l) user) c = Some b"
    then obtain ub where ub: "find (lg_balances l) user = Some ub" "(c, b) \<in> set ub"
      by (cases "find (lg_balances l) user") (auto simp: find_or_def dest: find_in)
    let ?v = "\<lparr>bv_currency = c, bv_available = ba_available b, bv_reserved = ba_reserved b,
      bv_total = dadd (ba_available b) (ba_reserved b)\<rparr>"
    have v: "?v \<in> set ?bs" using ub by (force simp: GetBalances_def)
    have "distinct (map bv_currency ?bs)" using assms(1) ub(1) by (simp add: GetBalances_def recordable_def o_def split_beta')
    note fp = find_fold_put[OF this v]
    have g: "grid s m (ba_available b)" "grid s m (ba_reserved b)" "3 * m \<le> max_units"
      using assms(1) ub by (auto simp: recordable_def)
    have m: "0 \<le> m" by (rule grid_nonneg[OF g(1)])
    have t: "dval (dadd (ba_available b) (ba_reserved b)) = dval (ba_available b) + dval (ba_reserved b)"
      "grid s (m + m) (dadd (ba_available b) (ba_reserved b))"
      using grid_add[OF g(1,2)] g(3) m by auto
    have w: "writable (dadd (ba_available b) (ba_reserved b))" "writable (ba_reserved b)"
      using grid_writable[OF t(2)] grid_writable[OF g(2)] g(3) m by auto
    have tot: "(c, to_string (dadd (ba_available b) (ba_reserved b))) \<in> set (nm_balances ?st)"
      using fp[of "\<lambda>b. to_string (bv_total b)" "nm_balances st"] by (simp add: recorded_state_def Let_def find_in)
    have res: "parsed (nm_reserved_balances ?st) c = ba_reserved b"
      using fp[of "\<lambda>b. to_string (bv_reserved b)" "nm_reserved_balances st"] to_string_shadow[OF w(2)]
      by (simp add: recorded_state_def Let_def parsed_def)
    have d: "distinct (map fst (nm_balances ?st))"
      using distinct_fold_put[OF assms(3)] by (simp add: recorded_state_def Let_def)
    have bal: "balance_of l' user c = \<lparr>ba_available = dsub (dadd (ba_available b) (ba_reserved b)) (ba_reserved b), ba_reserved = ba_reserved b\<rparr>"
      unfolding build seed_positions_balances using seed_balances_entry[OF d tot] res to_string_shadow[OF w(1)] by simp
    show "ba_reserved (balance_of l' user c) = ba_reserved b" by (simp add: bal)
    show "dval (ba_available (balance_of l' user c)) = dval (ba_available b)"
      using grid_sub(1)[OF t(2) g(2)] g(3) t(1) by (simp add: bal)
  next
    fix i p assume "find (GetPositions user l) i = Some p"
    then have p: "(i, p) \<in> set ?ps" by (rule find_in)
    have d: "distinct (map fst ?ps)" and w: "writable (po_amount p)" "writable (po_avg_entry_price p)" "writable (po_realised_pnl p)"
      using assms(1) p by (auto simp: recordable_def)
    have "nm_positions ?st = texts po_amount ?ps" "nm_avg_entry_prices ?st = texts po_avg_entry_price ?ps"
      "nm_realised_pnl ?st = texts po_realised_pnl ?ps" by (simp_all add: recorded_state_def Let_def)
    note e = this
    have dt: "distinct (map fst (nm_positions ?st))" unfolding e by (rule distinct_texts)
    have it: "(i, to_string (po_amount p)) \<in> set (nm_positions ?st)" unfolding e by (rule texts_find(2)[where f = po_amount, OF d p w(1)])
    have "GetPosition user i l' = \<lparr>po_amount = shadow_ParseDecimalString (to_string (po_amount p)),
        po_avg_entry_price = parsed (nm_avg_entry_prices ?st) i, po_realised_pnl = parsed (nm_realised_pnl ?st) i\<rparr>"
      unfolding build by (rule seed_positions_entry[OF dt it])
    also have "\<dots> = \<lparr>po_amount = po_amount p, po_avg_entry_price = po_avg_entry_price p, po_realised_pnl = po_realised_pnl p\<rparr>"
      unfolding e using texts_find(1)[where f = po_avg_entry_price, OF d p w(2)] texts_find(1)[where f = po_realised_pnl, OF d p w(3)]
        to_string_shadow[OF w(1)] by simp
    finally show "GetPosition user i l' = p" by simp
  }
qed

section \<open>The ports of a run\<close>

definition in_memory_ports :: "shadow_ledger shadow_ports" where
  "in_memory_ports = \<lparr>sh_has_checkpoint = (\<lambda>i b m. GetCheckpoint m i b \<noteq> None), sh_restore_before = RestoreBeforeBatch\<rparr>"

text \<open>A batch that failed softly has no checkpoint. When it comes again, the journal forgets the batches
  after it, but the shadow ledger keeps what they did.\<close>

theorem restart_keeps_later_fills:
  assumes "rd_restore_state d = None" "rd_shadow_ledger d = Some in_memory_ports" "step_journal_ok j" "Journal_Contains j b"
    and "GetCheckpoint (wo_shadow w) (cx_namespace_id cx) b = None"
  shows "restart_batch d cx b j w = (None, batch_log.restart b j, w)"
    and "journal_steps (batch_log.restart b j) = takeWhile (\<lambda>s. fst s \<noteq> b) (journal_steps j)"
proof -
  show "restart_batch d cx b j w = (None, batch_log.restart b j, w)"
    using assms(1,2,4,5) by (simp add: restart_batch_def in_memory_ports_def batch_log.restart_def)
  show "journal_steps (batch_log.restart b j) = takeWhile (\<lambda>s. fst s \<noteq> b) (journal_steps j)"
    by (rule batch_log.restart_steps[OF assms(3)])
qed

section \<open>Examples\<close>

definition ex_fl :: fp where
  "ex_fl = \<lparr>fp_round = (\<lambda>x. x), fp_strtod = (\<lambda>s. 0)\<rparr>"

definition ex_namespace :: namespace_state where
  "ex_namespace = \<lparr>nm_namespace_id = ''n'', nm_session_id = ''s'', nm_tracked_user_id = ''u'',
     nm_reporting_currency = ''USDT'', nm_balances = [], nm_reserved_balances = [], nm_positions = [],
     nm_avg_entry_prices = [], nm_realised_pnl = [], nm_created_at_ms = 0\<rparr>"

definition ex_apply :: "string \<Rightarrow> apply_request" where
  "ex_apply b = \<lparr>aq_namespace_id = ''n'', aq_batch_id = b, aq_tracked_user_id = ''u'', aq_reporting_currency = ''USDT'',
     aq_fills = [\<lparr>sf_order_id = ''o'', sf_user_id = ''u'', sf_symbol = ''BTC/USDT'', sf_base = ''BTC'', sf_quote = ''USDT'',
       sf_side = ''buy'', sf_executed_qty = 1, sf_price = 10, sf_executed_notional = 10, sf_fee_amount = 0,
       sf_fee_currency = [], sf_liquidity_source = [], sf_venue_id = [], sf_snapshot_id = [], sf_curve_id = []\<rparr>],
     aq_clear_prices = [(''BTC/USDT'', 11)]\<rparr>"

definition ex_shadow :: shadow_ledger where
  "ex_shadow = snd (CreateNamespace ex_namespace [])"

lemma ex_shadow_entry: "find ex_shadow ''n'' = Some \<lparr>en_state = ex_namespace, en_last_step = None,
    en_applied_batch_order = [], en_checkpoints = [], en_ledger = Some empty_ledger\<rparr>"
  by (simp add: ex_shadow_def CreateNamespace_def NamespaceExists_def ex_namespace_def or_usdt_def BuildLedgerFromState_def
      seed_positions_def seed_balances_def LedgerUseCases_init_def find_Cons)

theorem restore_undoes_batches_witness:
  "\<exists>m''. RestoreBeforeBatch ''n'' ''b1'' (fold (\<lambda>rq m. snd (ApplyFills ex_fl rq m)) [ex_apply ''b1'', ex_apply ''b2''] ex_shadow) = (True, m'')
    \<and> GetNamespace m'' ''n'' = Some ex_namespace"
proof -
  have n: "aq_namespace_id (ex_apply ''b1'') = ''n''" "aq_batch_id (ex_apply ''b1'') = ''b1''" by (simp_all add: ex_apply_def)
  have ok: "shadow_ok ex_shadow"
    unfolding ex_shadow_def by (rule shadow_ok_kept(1)) (simp add: shadow_ok_def)
  have none: "GetCheckpoint ex_shadow (aq_namespace_id (ex_apply ''b1'')) (aq_batch_id (ex_apply ''b1'')) = None"
    by (simp add: n GetCheckpoint_def ex_shadow_entry)
  have e: "find ex_shadow (aq_namespace_id (ex_apply ''b1'')) = Some \<lparr>en_state = ex_namespace, en_last_step = None,
    en_applied_batch_order = [], en_checkpoints = [], en_ledger = Some empty_ledger\<rparr>"
    by (simp add: n ex_shadow_entry)
  obtain ok' l' where a: "apply_to_ledger ex_fl ''b1'' ''u'' (aq_fills (ex_apply ''b1'')) empty_ledger = (ok', l')" by (metis prod.exhaust)
  then have "ok'" using plain_apply_succeeds[of ex_fl "''b1''" "''u''" "aq_fills (ex_apply ''b1'')" empty_ledger] by simp
  moreover have "tracked_user (ex_apply ''b1'') ex_namespace = ''u''" by (simp add: tracked_user_def ex_apply_def)
  ultimately have s: "ss_ok (fst (ApplyFills ex_fl (ex_apply ''b1'') ex_shadow))"
    unfolding ApplyFills_entry[OF e] using a n by (simp add: apply_to_entry_def Let_def step_of_ledger_def)
  have g: "GetNamespace ex_shadow ''n'' = Some ex_namespace" by (simp add: GetNamespace_def ex_shadow_entry)
  show ?thesis
    using restore_undoes_batches[OF ok none s refl, of "[ex_apply ''b2'']"] unfolding n g by blast
qed

theorem rebuilt_ledger_keeps_books_witness:
  "GetPosition ''u'' ''BTC/USDT'' (BuildLedgerFromState (recorded_state ''u'' ''USDT''
      (SeedPosition ''u'' ''BTC/USDT'' (mk_dec (-5) 1) (mk_dec 100 2) dzero empty_ledger) ex_namespace))
    = \<lparr>po_amount = mk_dec (-5) 1, po_avg_entry_price = mk_dec 100 2, po_realised_pnl = dzero\<rparr>"
proof -
  let ?l = "SeedPosition ''u'' ''BTC/USDT'' (mk_dec (-5) 1) (mk_dec 100 2) dzero empty_ledger"
  let ?p = "\<lparr>po_amount = mk_dec (-5) 1, po_avg_entry_price = mk_dec 100 2, po_realised_pnl = dzero\<rparr>"
  have ps: "GetPositions ''u'' ?l = [(''BTC/USDT'', ?p)]" and bs: "lg_balances ?l = []"
    by (simp_all add: GetPositions_def SeedPosition_def set_position_def ensure_position_def empty_ledger_def put2_def put_def
        find_Cons find_or_def find2_def empty_position_def)
  have w: "writable (mk_dec (-5) 1)" "writable (mk_dec 100 2)" "writable dzero" by (simp_all add: writable_def dzero_def)
  have r: "recordable 8 0 ''u'' ?l"
    using w by (simp add: recordable_def ps bs)
  have f: "find (GetPositions ''u'' ?l) ''BTC/USDT'' = Some ?p" by (simp add: ps find_Cons)
  have d: "distinct (map fst (nm_balances ex_namespace))" by (simp add: ex_namespace_def)
  show ?thesis
    using rebuilt_ledger_keeps_books[OF r _ d refl, of "''USDT''"] f by blast
qed

end
