(* ===== verification/Planner_Cache.thy ===== *)
theory Planner_Cache
  imports Venue_Health Environment "HOL-Library.List_Lexorder" "HOL-Library.Char_ord"
begin

text \<open>
  What the matching engine knows about the venues: their liquidity curves and their health
  (\<open>matching/src/app/planner_inputs_cache.cpp\<close>), which curves may be used
  (\<open>matching/src/app/external_venue_filter.cpp\<close>), and the forecast of an order over the venues.
  Doubles are rationals with the rounding of \<open>fp\<close>, all of them finite.
\<close>

section \<open>Curves\<close>

record side_liquidity =
  sl_q_grid :: "rat list"
  sl_p_of_q :: "rat list"
  sl_s_of_q :: "rat list"
  sl_v_grid :: "rat list"
  sl_l_of_v :: "rat list"
  sl_l_of_v_monotone :: "rat list"

record planner_curve =
  lvc_venue_id :: string
  lvc_instrument :: instrument
  lvc_bid_curve :: side_liquidity
  lvc_ask_curve :: side_liquidity
  lvc_confidence :: rat
  lvc_level :: string
  lvc_mid_price :: "decimal option"
  lvc_tau_ms :: rat

record venue_thresholds =
  vt_min_health_score :: rat
  vt_min_confidence :: rat

fun side_rows_ok :: "rat \<Rightarrow> rat list \<Rightarrow> rat list \<Rightarrow> bool" where
  "side_rows_ok prev (q # qs) (p # ps) = (0 \<le> q \<and> 0 < p \<and> prev \<le> q \<and> side_rows_ok q qs ps)"
| "side_rows_ok prev _ _ = True"

text \<open>The first quantity has no predecessor; being non-negative it is at least zero.\<close>

definition SideHasLiquidity :: "side_liquidity \<Rightarrow> bool" where
  "SideHasLiquidity c =
     (if sl_q_grid c = [] \<or> sl_p_of_q c = [] \<or> length (sl_q_grid c) \<noteq> length (sl_p_of_q c) then False
      else if \<not> side_rows_ok 0 (sl_q_grid c) (sl_p_of_q c) then False
      else (\<exists>q \<in> set (sl_q_grid c). 0 < q))"

definition CurveHasUsableLiquidity :: "planner_curve \<Rightarrow> bool" where
  "CurveHasUsableLiquidity c = (SideHasLiquidity (lvc_bid_curve c) \<or> SideHasLiquidity (lvc_ask_curve c))"

section \<open>Which venues may be used\<close>

text \<open>\<open>std::tolower\<close> in the C locale and \<open>std::string::find\<close>.\<close>

definition lower_char :: "char \<Rightarrow> char" where
  "lower_char c = (if 65 \<le> (of_char c :: nat) \<and> (of_char c :: nat) \<le> 90
     then char_of (of_char c + (32 :: nat)) else c)"

fun has_prefix :: "string \<Rightarrow> string \<Rightarrow> bool" where
  "has_prefix [] _ = True"
| "has_prefix (_ # _) [] = False"
| "has_prefix (a # as) (b # bs) = (a = b \<and> has_prefix as bs)"

fun contains_text :: "string \<Rightarrow> string \<Rightarrow> bool" where
  "contains_text pat [] = (pat = [])"
| "contains_text pat (c # cs) = (has_prefix pat (c # cs) \<or> contains_text pat cs)"

definition ContainsKeyword :: "string \<Rightarrow> string \<Rightarrow> bool" where
  "ContainsKeyword v k = contains_text k (map lower_char v)"

text \<open>The reason why a venue may not be used, \<open>None\<close> when it may.\<close>

definition VenueAllowsMatching :: "venue_thresholds \<Rightarrow> health_event \<Rightarrow> string option" where
  "VenueAllowsMatching t h =
     (if ContainsKeyword (he_reason h) ''disable'' then Some ''disabled_reason''
      else if he_breaker_state h = BREAKER_OPEN then Some ''circuit_breaker_open''
      else if he_routing_recommendation h = ROUTING_BLOCK then Some ''routing_block''
      else if he_routing_recommendation h = ROUTING_AVOID then Some ''routing_avoid''
      else case he_status h of
             VENUE_HEALTH_STATUS_STALE \<Rightarrow> Some ''status_stale''
           | VENUE_HEALTH_STATUS_DISCONNECTED \<Rightarrow> Some ''status_disconnected''
           | VENUE_HEALTH_STATUS_RATE_LIMIT \<Rightarrow> Some ''status_rate_limit''
           | VENUE_HEALTH_STATUS_DEGRADED \<Rightarrow> Some ''status_degraded''
           | _ \<Rightarrow> if he_health_score h < vt_min_health_score t then Some ''health_score'' else None)"

definition ShouldUseVenueCurveForMatching ::
    "venue_thresholds \<Rightarrow> planner_curve \<Rightarrow> health_event option \<Rightarrow> string option" where
  "ShouldUseVenueCurveForMatching t c h =
     (if lvc_venue_id c = [] \<or> in_symbol (lvc_instrument c) = [] then Some ''missing_curve_identity''
      else if \<not> CurveHasUsableLiquidity c then Some ''empty_curve''
      else if lvc_confidence c < 0 then Some ''invalid_confidence''
      else case h of None \<Rightarrow> None | Some h \<Rightarrow> VenueAllowsMatching t h)"

section \<open>The cache\<close>

text \<open>A key is a symbol, a venue and a level.\<close>

type_synonym curve_key = "string \<times> string \<times> string"

record curve_entry =
  cy_curve :: planner_curve
  cy_usable :: bool
  cy_reject_reason :: string

record planner_cache =
  pc_curves :: "(curve_key \<times> curve_entry) list"
  pc_venue_health :: "health_event umap"
  pc_thresholds :: venue_thresholds

definition new_cache :: "venue_thresholds \<Rightarrow> planner_cache" where
  "new_cache t = \<lparr>pc_curves = [], pc_venue_health = [], pc_thresholds = t\<rparr>"

record planner_input =
  pi_venue_id :: string
  pi_symbol :: string
  pi_curve :: planner_curve
  pi_health :: "health_event option"
  pi_usable :: bool
  pi_reject_reason :: string

definition RefreshCurveEntry ::
    "venue_thresholds \<Rightarrow> health_event umap \<Rightarrow> curve_key \<Rightarrow> curve_entry \<Rightarrow> curve_entry" where
  "RefreshCurveEntry t hs k e =
     (case ShouldUseVenueCurveForMatching t (cy_curve e) (find hs (fst (snd k))) of
        None \<Rightarrow> e\<lparr>cy_usable := True, cy_reject_reason := []\<rparr>
      | Some why \<Rightarrow> e\<lparr>cy_usable := False, cy_reject_reason := why\<rparr>)"

definition BuildPlannerVenueInput :: "health_event umap \<Rightarrow> curve_key \<Rightarrow> curve_entry \<Rightarrow> planner_input" where
  "BuildPlannerVenueInput hs k e =
     \<lparr>pi_venue_id = fst (snd k), pi_symbol = fst k, pi_curve = cy_curve e, pi_health = find hs (fst (snd k)),
      pi_usable = cy_usable e, pi_reject_reason = cy_reject_reason e\<rparr>"

definition UpsertCurve :: "planner_curve \<Rightarrow> planner_cache \<Rightarrow> planner_input \<times> planner_cache" where
  "UpsertCurve c m =
     (let sy = in_symbol (lvc_instrument c); venue = lvc_venue_id c in
      if sy = [] \<or> venue = []
      then (\<lparr>pi_venue_id = venue, pi_symbol = sy, pi_curve = c, pi_health = None, pi_usable = False,
             pi_reject_reason = ''missing_curve_identity''\<rparr>, m)
      else let k = (sy, venue, lvc_level c);
               e = (case map_of (pc_curves m) k of
                      None \<Rightarrow> \<lparr>cy_curve = c, cy_usable = False, cy_reject_reason = []\<rparr>
                    | Some e \<Rightarrow> e\<lparr>cy_curve := c\<rparr>);
               e = RefreshCurveEntry (pc_thresholds m) (pc_venue_health m) k e
           in (BuildPlannerVenueInput (pc_venue_health m) k e,
               m\<lparr>pc_curves := AList.update k e (pc_curves m)\<rparr>))"

record health_upsert =
  hu_stored :: bool
  hu_venue_usable :: bool
  hu_venue :: string
  hu_venue_reject_reason :: string
  hu_ignored_reason :: string
  hu_affected_inputs :: "planner_input list"

text \<open>Health aggregated over the reports of a venue is not replaced by a single raw report.\<close>

definition UpsertHealth :: "health_event \<Rightarrow> planner_cache \<Rightarrow> health_upsert \<times> planner_cache" where
  "UpsertHealth h m =
     (let r = \<lparr>hu_stored = False, hu_venue_usable = True, hu_venue = he_venue h, hu_venue_reject_reason = [],
               hu_ignored_reason = [], hu_affected_inputs = []\<rparr> in
      if he_venue h = [] then (r\<lparr>hu_ignored_reason := ''missing_venue''\<rparr>, m)
      else if (case find (pc_venue_health m) (he_venue h) of None \<Rightarrow> False
               | Some old \<Rightarrow> he_event_type old = VENUE_HEALTH_EVENT_TYPE_AGGREGATED)
              \<and> he_event_type h = VENUE_HEALTH_EVENT_TYPE_RAW
        then (r\<lparr>hu_ignored_reason := ''aggregated_health_preferred''\<rparr>, m)
      else let hs = put (he_venue h) h (pc_venue_health m);
               why = VenueAllowsMatching (pc_thresholds m) h;
               curves = map (\<lambda>(k, e). (k, if fst (snd k) = he_venue h
                               then RefreshCurveEntry (pc_thresholds m) hs k e else e)) (pc_curves m);
               affected = map (\<lambda>(k, e). BuildPlannerVenueInput hs k e)
                            (filter (\<lambda>(k, e). fst (snd k) = he_venue h) curves)
           in (r\<lparr>hu_stored := True, hu_venue_usable := (why = None),
                 hu_venue_reject_reason := (case why of None \<Rightarrow> [] | Some w \<Rightarrow> w),
                 hu_affected_inputs := sort_key pi_symbol affected\<rparr>,
               m\<lparr>pc_venue_health := hs, pc_curves := curves\<rparr>))"

text \<open>The finest usable level, else the coarsest one there is.\<close>

definition first_usable :: "planner_cache \<Rightarrow> string \<Rightarrow> string \<Rightarrow> curve_entry option" where
  "first_usable m sy venue =
     List.find cy_usable (List.map_filter (\<lambda>l. map_of (pc_curves m) (sy, venue, l)) [''L3'', ''L2'', ''L1''])"

definition SelectBestCurveForVenueFallback ::
    "planner_cache \<Rightarrow> string \<Rightarrow> string \<Rightarrow> curve_entry option" where
  "SelectBestCurveForVenueFallback m sy venue =
     (case first_usable m sy venue of
        Some e \<Rightarrow> Some e
      | None \<Rightarrow> List.find (\<lambda>_. True)
          (List.map_filter (\<lambda>l. map_of (pc_curves m) (sy, venue, l)) [''L1'', ''L2'', ''L3'']))"

fun collect_inputs ::
    "planner_cache \<Rightarrow> string \<Rightarrow> curve_key list \<Rightarrow> string list \<Rightarrow> planner_input list" where
  "collect_inputs m sy [] seen = []"
| "collect_inputs m sy (k # ks) seen =
     (if fst k \<noteq> sy \<or> fst (snd k) \<in> set seen then collect_inputs m sy ks seen
      else case SelectBestCurveForVenueFallback m sy (fst (snd k)) of
             None \<Rightarrow> collect_inputs m sy ks seen
           | Some e \<Rightarrow> BuildPlannerVenueInput (pc_venue_health m) k e
               # collect_inputs m sy ks (fst (snd k) # seen))"

definition GetPlannerInputsSnapshotForSymbol :: "planner_cache \<Rightarrow> string \<Rightarrow> planner_input list" where
  "GetPlannerInputsSnapshotForSymbol m sy =
     sort_key pi_venue_id (collect_inputs m sy (map fst (pc_curves m)) [])"

text \<open>The snapshot of all symbols is the snapshot of each.\<close>

definition GetPlannerInputsSnapshot :: "planner_cache \<Rightarrow> planner_input list umap" where
  "GetPlannerInputsSnapshot m =
     filter (\<lambda>(s, v). v \<noteq> [])
       (map (\<lambda>s. (s, GetPlannerInputsSnapshotForSymbol m s)) (remdups (map (\<lambda>(k, e). fst k) (pc_curves m))))"

definition CachedCurveCount :: "planner_cache \<Rightarrow> nat" where
  "CachedCurveCount m = length (pc_curves m)"

definition UsableCurveCount :: "planner_cache \<Rightarrow> nat" where
  "UsableCurveCount m = length (filter (\<lambda>(k, e). cy_usable e) (pc_curves m))"

section \<open>What the solver gets\<close>

definition HealthScoreOrZero :: "planner_input \<Rightarrow> rat" where
  "HealthScoreOrZero i = (case pi_health i of None \<Rightarrow> 0 | Some h \<Rightarrow> he_health_score h)"

definition IsWorseLegacyCandidate :: "planner_input \<Rightarrow> planner_input \<Rightarrow> bool" where
  "IsWorseLegacyCandidate a b =
     (if lvc_confidence (pi_curve a) \<noteq> lvc_confidence (pi_curve b)
      then lvc_confidence (pi_curve a) < lvc_confidence (pi_curve b)
      else if HealthScoreOrZero a \<noteq> HealthScoreOrZero b then HealthScoreOrZero a < HealthScoreOrZero b
      else pi_venue_id b < pi_venue_id a)"

text \<open>\<open>std::max_element\<close>: the first element no other is better than.\<close>

fun max_element :: "('a \<Rightarrow> 'a \<Rightarrow> bool) \<Rightarrow> 'a \<Rightarrow> 'a list \<Rightarrow> 'a" where
  "max_element lt b [] = b"
| "max_element lt b (x # xs) = max_element lt (if lt b x then x else b) xs"

definition LegacyBestProjection :: "planner_cache \<Rightarrow> planner_curve umap" where
  "LegacyBestProjection m =
     List.map_filter (\<lambda>(s, is). case filter pi_usable is of
          [] \<Rightarrow> None
        | i # is \<Rightarrow> Some (s, pi_curve (max_element IsWorseLegacyCandidate i is)))
       (GetPlannerInputsSnapshot m)"

definition external_disabled :: "env \<Rightarrow> bool" where
  "external_disabled e = (case e ''MATCHING_DISABLE_EXTERNAL_VENUES'' of None \<Rightarrow> False
     | Some v \<Rightarrow> v = ''1'' \<or> v = ''true'' \<or> v = ''TRUE'')"

definition filtered_external_liquidity :: "env \<Rightarrow> planner_cache \<Rightarrow> planner_curve umap" where
  "filtered_external_liquidity e m = (if external_disabled e then [] else LegacyBestProjection m)"

end
