(* ===== verification/Planner_Forecast.thy ===== *)
theory Planner_Forecast
  imports Planner_Cache
begin

text \<open>
  The forecast of an order over the venues (\<open>CompareVenues\<close> and \<open>BuildOrderForecast\<close> of
  \<open>matching/src/app/planner_inputs_cache.cpp\<close>): what a venue's curve would charge, the penalties for
  speed, health and confidence, the limits, and the best venue of every leg. An infinite shortfall is
  \<open>None\<close>.
\<close>

section \<open>Interpolation\<close>

text \<open>\<open>kEpsilon\<close>.\<close>

definition eps :: "fp \<Rightarrow> rat" where
  "eps fl = fp_round fl (1 / 1000000000)"

definition IsValidMonotoneSeries :: "rat list \<Rightarrow> bool \<Rightarrow> bool" where
  "IsValidMonotoneSeries xs non_negative = (xs \<noteq> [] \<and> sorted xs \<and> (non_negative \<longrightarrow> (\<forall>x \<in> set xs. 0 \<le> x)))"

definition IsValidInterpolationGrid :: "rat list \<Rightarrow> rat list \<Rightarrow> bool \<Rightarrow> bool \<Rightarrow> bool" where
  "IsValidInterpolationGrid xs ys non_negative_x non_negative_y =
     (if xs = [] \<or> ys = [] \<or> length xs \<noteq> length ys then False
      else IsValidMonotoneSeries xs non_negative_x \<and> (non_negative_y \<longrightarrow> (\<forall>y \<in> set ys. 0 \<le> y)))"

fun between :: "fp \<Rightarrow> rat \<Rightarrow> rat list \<Rightarrow> rat list \<Rightarrow> rat" where
  "between fl x (x0 # x1 # xs) (y0 # y1 # ys) =
     (if x1 < x then between fl x (x1 # xs) (y1 # ys)
      else if x1 \<le> x0 then y1
      else let t = fp_round fl (fp_round fl (x - x0) / fp_round fl (x1 - x0))
           in fp_round fl (y0 + fp_round fl (t * fp_round fl (y1 - y0))))"
| "between fl x _ ys = last ys"

definition LinearInterpolate :: "fp \<Rightarrow> rat list \<Rightarrow> rat list \<Rightarrow> rat \<Rightarrow> rat option" where
  "LinearInterpolate fl xs ys x =
     (if \<not> IsValidInterpolationGrid xs ys False False then None
      else if x \<le> hd xs then Some (hd ys)
      else if last xs \<le> x then Some (last ys)
      else Some (between fl x xs ys))"

section \<open>Comparing the venues\<close>

datatype forecast_side = Forecast_kBuy | Forecast_kSell

record comparison_request =
  cq_symbol :: string
  cq_side :: forecast_side
  cq_target_qty :: rat
  cq_target_speed :: rat
  cq_reference_price :: "rat option"
  cq_limit_price :: "rat option"
  cq_max_slippage_bps :: "rat option"

record venue_comparison =
  vm_venue_id :: string
  vm_symbol :: string
  vm_side :: forecast_side
  vm_requested_qty :: rat
  vm_requested_speed :: rat
  vm_expected_notional :: rat
  vm_expected_vwap :: rat
  vm_base_is_bps :: rat
  vm_flow_penalty_bps :: rat
  vm_health_penalty_bps :: rat
  vm_confidence_penalty_bps :: rat
  vm_expected_is_bps :: "rat option"
  vm_health_score :: rat
  vm_confidence :: rat
  vm_feasible :: bool
  vm_reject_reason :: string

definition SelectCurveBySide :: "planner_curve \<Rightarrow> forecast_side \<Rightarrow> side_liquidity" where
  "SelectCurveBySide c sd = (if sd = Forecast_kBuy then lvc_ask_curve c else lvc_bid_curve c)"

definition MidPriceFallback :: "fp \<Rightarrow> planner_curve \<Rightarrow> rat" where
  "MidPriceFallback fl c = (case lvc_mid_price c of None \<Rightarrow> 0 | Some d \<Rightarrow> to_double fl d)"

definition start_comparison :: "comparison_request \<Rightarrow> planner_input \<Rightarrow> venue_comparison" where
  "start_comparison q i =
     \<lparr>vm_venue_id = pi_venue_id i, vm_symbol = cq_symbol q, vm_side = cq_side q,
      vm_requested_qty = cq_target_qty q, vm_requested_speed = cq_target_speed q,
      vm_expected_notional = 0, vm_expected_vwap = 0, vm_base_is_bps = 0, vm_flow_penalty_bps = 0,
      vm_health_penalty_bps = 0, vm_confidence_penalty_bps = 0, vm_expected_is_bps = None,
      vm_health_score = (case pi_health i of None \<Rightarrow> 1 | Some h \<Rightarrow> clamp01 (he_health_score h)),
      vm_confidence = clamp01 (lvc_confidence (pi_curve i)), vm_feasible = False, vm_reject_reason = []\<rparr>"

definition reject_venue :: "string \<Rightarrow> venue_comparison \<Rightarrow> venue_comparison" where
  "reject_venue why c = c\<lparr>vm_reject_reason := why\<rparr>"

text \<open>The cost of the speed, or the reason why there is none.\<close>

definition flow_cost :: "fp \<Rightarrow> rat \<Rightarrow> side_liquidity \<Rightarrow> string + rat" where
  "flow_cost fl speed sc =
     (if sl_v_grid sc = [] then Inr 1
      else let ls = (if IsValidInterpolationGrid (sl_v_grid sc) (sl_l_of_v_monotone sc) True True
                     then sl_l_of_v_monotone sc else sl_l_of_v sc)
           in if \<not> IsValidInterpolationGrid (sl_v_grid sc) ls True True then Inl ''curve_invalid''
              else if fp_round fl (last (sl_v_grid sc) + eps fl) < speed then Inl ''speed_limit''
              else case LinearInterpolate fl (sl_v_grid sc) ls (max speed 0) of
                     None \<Rightarrow> Inl ''curve_invalid''
                   | Some x \<Rightarrow> if x \<le> 0 then Inl ''curve_invalid'' else Inr x)"

definition price_comparison ::
    "fp \<Rightarrow> comparison_request \<Rightarrow> planner_input \<Rightarrow> rat \<Rightarrow> rat \<Rightarrow> venue_comparison \<Rightarrow> venue_comparison" where
  "price_comparison fl q i ref cost c =
     (let r = fp_round fl;
          tau = (if 0 < lvc_tau_ms (pi_curve i) then r (lvc_tau_ms (pi_curve i) / 1000) else 1);
          flow = r (10000 * max 0 (r (r (r (cost * tau) / r (vm_expected_notional c + eps fl)) - 1)));
          health = r (r (1 - vm_health_score c) * 100);
          conf = r (r (1 - vm_confidence c) * 50)
      in c\<lparr>vm_flow_penalty_bps := flow, vm_health_penalty_bps := health, vm_confidence_penalty_bps := conf,
           vm_expected_is_bps := Some (r (r (r (vm_base_is_bps c + flow) + health) + conf))\<rparr>)"

definition limit_comparison :: "fp \<Rightarrow> comparison_request \<Rightarrow> venue_comparison \<Rightarrow> venue_comparison" where
  "limit_comparison fl q c =
     (let over_limit = (case cq_limit_price q of None \<Rightarrow> False
            | Some p \<Rightarrow> 0 < p \<and> (if cq_side q = Forecast_kBuy then fp_round fl (p + eps fl) < vm_expected_vwap c
                                 else fp_round fl (vm_expected_vwap c + eps fl) < p));
          over_slippage = (case cq_max_slippage_bps q of None \<Rightarrow> False
            | Some b \<Rightarrow> 0 < b \<and> (case vm_expected_is_bps c of None \<Rightarrow> True | Some x \<Rightarrow> fp_round fl (b + eps fl) < x))
      in if over_limit then reject_venue ''price_limit'' c
         else if over_slippage then reject_venue ''slippage_limit'' c
         else c\<lparr>vm_feasible := True\<rparr>)"

definition compare_venue :: "fp \<Rightarrow> comparison_request \<Rightarrow> planner_input \<Rightarrow> venue_comparison" where
  "compare_venue fl q i =
     (let r = fp_round fl; c = start_comparison q i; sc = SelectCurveBySide (pi_curve i) (cq_side q) in
      if \<not> pi_usable i
        then reject_venue (if pi_reject_reason i = [] then ''curve_invalid'' else pi_reject_reason i) c
      else if cq_target_qty q \<le> 0 then reject_venue ''qty_limit'' c
      else if \<not> IsValidInterpolationGrid (sl_q_grid sc) (sl_s_of_q sc) True True then reject_venue ''curve_invalid'' c
      else if r (last (sl_q_grid sc) + eps fl) < cq_target_qty q then reject_venue ''qty_limit'' c
      else case LinearInterpolate fl (sl_q_grid sc) (sl_s_of_q sc) (cq_target_qty q) of
        None \<Rightarrow> reject_venue ''curve_invalid'' c
      | Some notional \<Rightarrow>
          if notional \<le> 0 then reject_venue ''curve_invalid'' c
          else let vwap = r (notional / max (cq_target_qty q) (eps fl));
                   c = c\<lparr>vm_expected_notional := notional, vm_expected_vwap := vwap\<rparr>;
                   ref = (case cq_reference_price q of
                            Some p \<Rightarrow> if 0 < p then p else MidPriceFallback fl (pi_curve i)
                          | None \<Rightarrow> MidPriceFallback fl (pi_curve i))
               in if \<not> 0 < ref then reject_venue ''reference_price_missing'' c
                  else let c = c\<lparr>vm_base_is_bps :=
                         r (r (r (if cq_side q = Forecast_kBuy then vwap / ref else ref / vwap) - 1) * 10000)\<rparr>
                       in case flow_cost fl (cq_target_speed q) sc of
                            Inl why \<Rightarrow> reject_venue why c
                          | Inr cost \<Rightarrow> limit_comparison fl q (price_comparison fl q i ref cost c))"

text \<open>A shortfall that is not finite is larger than every finite one.\<close>

definition less_is :: "rat option \<Rightarrow> rat option \<Rightarrow> bool" where
  "less_is a b = (case a of None \<Rightarrow> False | Some x \<Rightarrow> (case b of None \<Rightarrow> True | Some y \<Rightarrow> x < y))"

definition IsHigherRankedComparison :: "venue_comparison \<Rightarrow> venue_comparison \<Rightarrow> bool" where
  "IsHigherRankedComparison a b =
     (if vm_feasible a \<noteq> vm_feasible b then vm_feasible a \<and> \<not> vm_feasible b
      else if vm_expected_is_bps a \<noteq> vm_expected_is_bps b then less_is (vm_expected_is_bps a) (vm_expected_is_bps b)
      else if vm_health_score a \<noteq> vm_health_score b then vm_health_score b < vm_health_score a
      else if vm_confidence a \<noteq> vm_confidence b then vm_confidence b < vm_confidence a
      else vm_venue_id a < vm_venue_id b)"

text \<open>\<open>std::sort\<close> with a comparison.\<close>

fun insert_by :: "('a \<Rightarrow> 'a \<Rightarrow> bool) \<Rightarrow> 'a \<Rightarrow> 'a list \<Rightarrow> 'a list" where
  "insert_by before x [] = [x]"
| "insert_by before x (y # ys) = (if before y x then y # insert_by before x ys else x # y # ys)"

definition sort_by :: "('a \<Rightarrow> 'a \<Rightarrow> bool) \<Rightarrow> 'a list \<Rightarrow> 'a list" where
  "sort_by before xs = foldr (insert_by before) xs []"

definition CompareVenues :: "fp \<Rightarrow> planner_cache \<Rightarrow> comparison_request \<Rightarrow> venue_comparison list" where
  "CompareVenues fl m q = sort_by IsHigherRankedComparison
     (map (compare_venue fl q) (GetPlannerInputsSnapshotForSymbol m (cq_symbol q)))"

section \<open>The forecast of an order\<close>

record leg_request =
  lq_symbol :: string
  lq_coefficient :: rat

record leg_forecast =
  lf_symbol :: string
  lf_coefficient :: rat
  lf_side :: forecast_side
  lf_requested_qty :: rat
  lf_requested_speed :: rat
  lf_comparisons :: "venue_comparison list"
  lf_best_comparison :: "venue_comparison option"
  lf_feasible :: bool
  lf_reject_reason :: string

record forecast_request =
  fq_order_id :: string
  fq_target_qty :: rat
  fq_target_speed :: rat
  fq_legs :: "leg_request list"
  fq_reference_prices_by_symbol :: "rat umap"
  fq_buy_limit_price :: "rat option"
  fq_sell_limit_price :: "rat option"
  fq_max_slippage_bps :: "rat option"

record order_forecast =
  of_order_id :: string
  of_requested_qty :: rat
  of_requested_speed :: rat
  of_expected_notional :: rat
  of_expected_vwap :: rat
  of_base_is_bps :: rat
  of_flow_penalty_bps :: rat
  of_health_penalty_bps :: rat
  of_confidence_penalty_bps :: rat
  of_expected_is_bps :: rat
  of_feasible :: bool
  of_reject_reason :: string
  of_leg_forecasts :: "leg_forecast list"

definition forecast_leg :: "fp \<Rightarrow> planner_cache \<Rightarrow> forecast_request \<Rightarrow> leg_request \<Rightarrow> leg_forecast" where
  "forecast_leg fl m q l =
     (let sd = (if 0 < lq_coefficient l then Forecast_kBuy else Forecast_kSell);
          qty = fp_round fl (\<bar>lq_coefficient l\<bar> * fq_target_qty q);
          speed = fp_round fl (\<bar>lq_coefficient l\<bar> * fq_target_speed q);
          cs = CompareVenues fl m
            \<lparr>cq_symbol = lq_symbol l, cq_side = sd, cq_target_qty = qty, cq_target_speed = speed,
             cq_reference_price = find (fq_reference_prices_by_symbol q) (lq_symbol l),
             cq_limit_price = (if sd = Forecast_kBuy then fq_buy_limit_price q else fq_sell_limit_price q),
             cq_max_slippage_bps = fq_max_slippage_bps q\<rparr>;
          (best, ok, why) = (case List.find vm_feasible cs of
              Some c \<Rightarrow> (Some c, True, [])
            | None \<Rightarrow> (case cs of [] \<Rightarrow> (None, False, ''no_venues'')
                       | c # _ \<Rightarrow> (Some c, False, vm_reject_reason c)))
      in \<lparr>lf_symbol = lq_symbol l, lf_coefficient = lq_coefficient l, lf_side = sd, lf_requested_qty = qty,
          lf_requested_speed = speed, lf_comparisons = cs, lf_best_comparison = best, lf_feasible = ok,
          lf_reject_reason = why\<rparr>)"

text \<open>Adding \<open>value * qty\<close> of the best comparisons of the feasible legs.\<close>

definition weighted :: "fp \<Rightarrow> (venue_comparison \<Rightarrow> rat) \<Rightarrow> leg_forecast list \<Rightarrow> rat" where
  "weighted fl f ls = foldl (\<lambda>a l. case lf_best_comparison l of
       Some c \<Rightarrow> if lf_feasible l then fp_round fl (a + fp_round fl (f c * lf_requested_qty l)) else a
     | None \<Rightarrow> a) 0 ls"

definition sum_legs :: "fp \<Rightarrow> (leg_forecast \<Rightarrow> venue_comparison \<Rightarrow> rat) \<Rightarrow> leg_forecast list \<Rightarrow> rat" where
  "sum_legs fl f ls = foldl (\<lambda>a l. case lf_best_comparison l of
       Some c \<Rightarrow> if lf_feasible l then fp_round fl (a + f l c) else a
     | None \<Rightarrow> a) 0 ls"

definition leg_problem :: "leg_forecast \<Rightarrow> string" where
  "leg_problem l = lf_symbol l @ '':'' @ (if lf_reject_reason l = [] then ''infeasible'' else lf_reject_reason l)"

definition empty_forecast :: "forecast_request \<Rightarrow> order_forecast" where
  "empty_forecast q =
     \<lparr>of_order_id = fq_order_id q, of_requested_qty = fq_target_qty q, of_requested_speed = fq_target_speed q,
      of_expected_notional = 0, of_expected_vwap = 0, of_base_is_bps = 0, of_flow_penalty_bps = 0,
      of_health_penalty_bps = 0, of_confidence_penalty_bps = 0, of_expected_is_bps = 0, of_feasible = False,
      of_reject_reason = [], of_leg_forecasts = []\<rparr>"

definition is_bps :: "venue_comparison \<Rightarrow> rat" where
  "is_bps c = (case vm_expected_is_bps c of None \<Rightarrow> 0 | Some x \<Rightarrow> x)"

definition BuildOrderForecast :: "fp \<Rightarrow> planner_cache \<Rightarrow> forecast_request \<Rightarrow> order_forecast" where
  "BuildOrderForecast fl m q =
     (let f = empty_forecast q; legs = filter (\<lambda>l. eps fl < \<bar>lq_coefficient l\<bar>) (fq_legs q) in
      if fq_target_qty q \<le> 0 then f\<lparr>of_reject_reason := ''qty_limit''\<rparr>
      else if fq_legs q = [] then f\<lparr>of_reject_reason := ''no_non_zero_legs''\<rparr>
      else let ls = map (forecast_leg fl m q) legs;
               f = f\<lparr>of_expected_notional := sum_legs fl (\<lambda>_. vm_expected_notional) ls, of_leg_forecasts := ls\<rparr>
           in if ls = [] then f\<lparr>of_reject_reason := ''no_non_zero_legs''\<rparr>
           else let qty = sum_legs fl (\<lambda>l _. lf_requested_qty l) ls;
                    f = (if eps fl < qty
                         then f\<lparr>of_expected_vwap := fp_round fl (of_expected_notional f / qty),
                                of_base_is_bps := fp_round fl (weighted fl vm_base_is_bps ls / qty),
                                of_flow_penalty_bps := fp_round fl (weighted fl vm_flow_penalty_bps ls / qty),
                                of_health_penalty_bps := fp_round fl (weighted fl vm_health_penalty_bps ls / qty),
                                of_confidence_penalty_bps := fp_round fl (weighted fl vm_confidence_penalty_bps ls / qty),
                                of_expected_is_bps := fp_round fl (weighted fl is_bps ls / qty)\<rparr>
                         else f)
                in case List.find (\<lambda>l. \<not> lf_feasible l) ls of
                     None \<Rightarrow> f\<lparr>of_feasible := True\<rparr>
                   | Some l \<Rightarrow> f\<lparr>of_reject_reason := leg_problem l\<rparr>)"

end
