(* ===== verification/Hedge_Planner.thy ===== *)
theory Hedge_Planner
  imports Planner_Cache Matching_Hedging
begin

text \<open>
  Splitting a hedge over several venues (\<open>matching/src/app/execution_planner.cpp\<close>) and the place of
  the matching loop that does it for the intents of a batch (\<open>run_one_batch\<close> of
  \<open>app/matching_loop.cpp\<close>). Liquidity and shares are doubles, the quantities decimals.
\<close>

section \<open>The plan\<close>

record venue_allocation =
  va_venue_id :: string
  va_qty :: decimal
  va_liquidity_used :: rat
  va_share :: rat

record plan_request =
  pq_symbol :: string
  pq_side :: side
  pq_target_qty :: decimal
  pq_allowed_venues :: "string list"
  pq_planner_inputs :: "planner_input list"

record plan_config =
  pf_min_allocation_fraction :: rat
  pf_min_allocation_abs :: rat

record plan_result =
  pl_allocations :: "venue_allocation list"
  pl_reject_reason :: string
  pl_feasible :: bool

definition MaxQtyOnSide :: "side_liquidity \<Rightarrow> rat" where
  "MaxQtyOnSide c = foldl (\<lambda>m q. if m < q then q else m) 0 (sl_q_grid c)"

definition SideCurveForIntent :: "planner_curve \<Rightarrow> side \<Rightarrow> side_liquidity" where
  "SideCurveForIntent c sd = (if sd = SIDE_BUY then lvc_ask_curve c else lvc_bid_curve c)"

definition VenueHealthGreen :: "health_event \<Rightarrow> bool" where
  "VenueHealthGreen h =
     (if he_routing_recommendation h = ROUTING_BLOCK then False
      else if he_breaker_state h = BREAKER_OPEN then False else True)"

text \<open>\<open>DecimalFromDouble\<close> with its default scale of eight.\<close>

definition plan_decimal :: "fp \<Rightarrow> rat \<Rightarrow> decimal" where
  "plan_decimal fl x =
     (if x \<le> 0 then dzero
      else let n = i64 (round_away (((\<lambda>y. fp_round fl (y * 10)) ^^ 8) x))
           in mk_dec (if n < 0 then 0 else n) 8)"

text \<open>A venue that may take part, with its liquidity.\<close>

definition plan_candidate :: "plan_request \<Rightarrow> planner_input \<Rightarrow> (string \<times> rat) option" where
  "plan_candidate q i =
     (if \<not> pi_usable i then None
      else if pq_allowed_venues q \<noteq> [] \<and> pi_venue_id i \<notin> set (pq_allowed_venues q) then None
      else if (case pi_health i of None \<Rightarrow> False | Some h \<Rightarrow> \<not> VenueHealthGreen h) then None
      else let l = MaxQtyOnSide (SideCurveForIntent (pi_curve i) (pq_side q))
           in if \<not> 0 < l then None else Some (pi_venue_id i, l))"

definition plan_candidates :: "plan_request \<Rightarrow> (string \<times> rat) list" where
  "plan_candidates q = List.map_filter (plan_candidate q) (pq_planner_inputs q)"

record provisional =
  pv_venue_id :: string
  pv_liquidity :: rat
  pv_share :: rat
  pv_qty :: rat

definition rsum :: "fp \<Rightarrow> rat list \<Rightarrow> rat" where
  "rsum fl xs = foldl (\<lambda>a x. fp_round fl (a + x)) 0 xs"

definition provisional_of :: "fp \<Rightarrow> rat \<Rightarrow> rat \<Rightarrow> string \<times> rat \<Rightarrow> provisional" where
  "provisional_of fl whole target c =
     (let share = fp_round fl (snd c / whole)
      in \<lparr>pv_venue_id = fst c, pv_liquidity = snd c, pv_share = share, pv_qty = fp_round fl (share * target)\<rparr>)"

text \<open>Allocations below the threshold are dropped and their share goes to the others.\<close>

definition kept_provisional :: "fp \<Rightarrow> rat \<Rightarrow> rat \<Rightarrow> provisional list \<Rightarrow> provisional list" where
  "kept_provisional fl threshold target ps =
     (let kept = filter (\<lambda>p. \<not> pv_qty p < threshold) ps;
          dropped = rsum fl (map pv_share (filter (\<lambda>p. pv_qty p < threshold) ps));
          kept_share = fp_round fl (1 - dropped)
      in if 0 < dropped \<and> 0 < kept_share
         then map (\<lambda>p. let s = fp_round fl (pv_share p / kept_share)
                       in p\<lparr>pv_share := s, pv_qty := fp_round fl (s * target)\<rparr>) kept
         else kept)"

fun largest_from :: "nat \<Rightarrow> nat \<Rightarrow> rat \<Rightarrow> rat list \<Rightarrow> nat" where
  "largest_from best i v [] = best"
| "largest_from best i v (x # xs) =
     (if v < x then largest_from i (Suc i) x xs else largest_from best (Suc i) v xs)"

definition largest_index :: "rat list \<Rightarrow> nat" where
  "largest_index xs = (case xs of [] \<Rightarrow> 0 | x # xs \<Rightarrow> largest_from 0 1 x xs)"

text \<open>The rounded quantities, the largest share corrected by what is missing to the target.\<close>

definition settle_rounding :: "decimal \<Rightarrow> rat list \<Rightarrow> decimal list \<Rightarrow> decimal list" where
  "settle_rounding target shares qtys =
     (let diff = dsub target (foldl dadd dzero qtys)
      in if dcmp diff dzero = 0 then qtys
         else qtys[largest_index shares := dadd (qtys ! largest_index shares) diff])"

definition single_allocation :: "plan_request \<Rightarrow> string \<Rightarrow> rat \<Rightarrow> plan_result" where
  "single_allocation q venue l =
     \<lparr>pl_allocations = [\<lparr>va_venue_id = venue, va_qty = pq_target_qty q, va_liquidity_used = l, va_share = 1\<rparr>],
      pl_reject_reason = [], pl_feasible = True\<rparr>"

definition no_plan :: "string \<Rightarrow> plan_result" where
  "no_plan why = \<lparr>pl_allocations = [], pl_reject_reason = why, pl_feasible = False\<rparr>"

definition allocate :: "fp \<Rightarrow> plan_request \<Rightarrow> provisional list \<Rightarrow> plan_result" where
  "allocate fl q kept =
     (let qtys = settle_rounding (pq_target_qty q) (map pv_qty kept) (map (\<lambda>p. plan_decimal fl (pv_qty p)) kept)
      in \<lparr>pl_allocations = map2 (\<lambda>p d. \<lparr>va_venue_id = pv_venue_id p, va_qty = d,
            va_liquidity_used = pv_liquidity p, va_share = pv_share p\<rparr>) kept qtys,
          pl_reject_reason = [], pl_feasible = True\<rparr>)"

definition BuildMultiVenuePlan :: "fp \<Rightarrow> plan_config \<Rightarrow> plan_request \<Rightarrow> plan_result" where
  "BuildMultiVenuePlan fl cfg q =
     (let target = to_double fl (pq_target_qty q) in
      if target \<le> 0 then no_plan ''target_qty_non_positive''
      else case plan_candidates q of
        [] \<Rightarrow> no_plan ''no_usable_venue''
      | [(v, l)] \<Rightarrow> single_allocation q v l
      | cs \<Rightarrow>
          let whole = rsum fl (map snd cs) in
          if \<not> 0 < whole then no_plan ''zero_total_liquidity''
          else let threshold = max (pf_min_allocation_abs cfg)
                     (fp_round fl (pf_min_allocation_fraction cfg * target));
                   ps = map (provisional_of fl whole target) cs;
                   kept = kept_provisional fl threshold target ps
               in if kept = []
                  then let best = max_element (\<lambda>a b. pv_liquidity a < pv_liquidity b) (hd ps) (tl ps)
                       in single_allocation q (pv_venue_id best) (pv_liquidity best)
                  else allocate fl q kept)"

section \<open>Fan-out of an intent\<close>

definition fan_out_child :: "timestamp \<Rightarrow> exec_intent \<Rightarrow> venue_allocation \<Rightarrow> exec_intent" where
  "fan_out_child now i a =
     (let flow = (if ei_hedge_flow_id i = [] then ''hedge|'' @ va_venue_id a
                  else ei_hedge_flow_id i @ ''|'' @ va_venue_id a);
          id = flow @ ''|intent''
      in i\<lparr>ei_hedge_flow_id := flow, ei_intent_id := id, ei_client_order_id := id, ei_venue := va_venue_id a,
           ei_target_qty := va_qty a,
           ei_target_notional := (case ei_reference_mid i of None \<Rightarrow> ei_target_notional i
             | Some mid \<Rightarrow> dmul (va_qty a) mid),
           ei_allowed_venues := [va_venue_id a],
           ei_meta := (ei_meta i)\<lparr>em_event_id := id, em_ts_event := Some now,
             em_partition_key := ei_provider_id i @ ''|'' @ in_symbol (ei_instrument i)\<rparr>\<rparr>)"

definition FanOutIntentByPlan :: "timestamp \<Rightarrow> exec_intent \<Rightarrow> plan_result \<Rightarrow> exec_intent list" where
  "FanOutIntentByPlan now i p =
     (if \<not> pl_feasible p \<or> pl_allocations p = [] then [i]
      else if length (pl_allocations p) = 1 \<and> va_venue_id (hd (pl_allocations p)) = [] then [i]
      else map (fan_out_child now i) (pl_allocations p))"

definition plan_request_of :: "planner_cache \<Rightarrow> exec_intent \<Rightarrow> plan_request" where
  "plan_request_of m i =
     \<lparr>pq_symbol = in_symbol (ei_instrument i), pq_side = ei_side i, pq_target_qty = ei_target_qty i,
      pq_allowed_venues = ei_allowed_venues i,
      pq_planner_inputs = GetPlannerInputsSnapshotForSymbol m (in_symbol (ei_instrument i))\<rparr>"

text \<open>\<open>PlanConfig{}\<close>: five percent of the target, no absolute minimum.\<close>

definition default_plan_config :: "fp \<Rightarrow> plan_config" where
  "default_plan_config fl = \<lparr>pf_min_allocation_fraction = fp_round fl (5 / 100), pf_min_allocation_abs = 0\<rparr>"

text \<open>The intents of a batch that are published: only a plan with two or more venues replaces an
  intent.\<close>

definition route_intent :: "fp \<Rightarrow> timestamp \<Rightarrow> planner_cache \<Rightarrow> exec_intent \<Rightarrow> exec_intent list" where
  "route_intent fl now m i =
     (let plan = BuildMultiVenuePlan fl (default_plan_config fl) (plan_request_of m i)
      in if pl_feasible plan \<and> 2 \<le> length (pl_allocations plan) then FanOutIntentByPlan now i plan else [i])"

definition fanned_out :: "fp \<Rightarrow> timestamp \<Rightarrow> planner_cache \<Rightarrow> exec_intent list \<Rightarrow> exec_intent list" where
  "fanned_out fl now m is = concat (map (route_intent fl now m) is)"

end
