(* ===== verification/Planner_Laws.thy ===== *)
theory Planner_Laws
  imports Planner_Cache
begin

text \<open>
  The planner's cache after any sequence of messages: every stored curve is the latest of its key,
  it is usable exactly when the rules of \<open>external_venue_filter.cpp\<close> allow it under the health the
  cache holds, and what the planner and the solver get says so too.
\<close>

section \<open>Messages\<close>

datatype venue_message = CurveMessage planner_curve | HealthMessage health_event

definition cache_step :: "venue_message \<Rightarrow> planner_cache \<Rightarrow> planner_cache" where
  "cache_step x m = (case x of CurveMessage c \<Rightarrow> snd (UpsertCurve c m) | HealthMessage h \<Rightarrow> snd (UpsertHealth h m))"

definition cache_run :: "venue_thresholds \<Rightarrow> venue_message list \<Rightarrow> planner_cache" where
  "cache_run t xs = fold cache_step xs (new_cache t)"

lemma cache_run_snoc: "cache_run t (xs @ [x]) = cache_step x (cache_run t xs)"
  by (simp add: cache_run_def)

definition key_of :: "planner_curve \<Rightarrow> curve_key" where
  "key_of c = (in_symbol (lvc_instrument c), lvc_venue_id c, lvc_level c)"

definition verdict :: "planner_cache \<Rightarrow> planner_curve \<Rightarrow> string option" where
  "verdict m c = ShouldUseVenueCurveForMatching (pc_thresholds m) c (find (pc_venue_health m) (lvc_venue_id c))"

definition entry_ok :: "planner_cache \<Rightarrow> curve_key \<Rightarrow> curve_entry \<Rightarrow> bool" where
  "entry_ok m k e \<longleftrightarrow> k = key_of (cy_curve e) \<and> cy_usable e = (verdict m (cy_curve e) = None)
     \<and> cy_reject_reason e = (case verdict m (cy_curve e) of None \<Rightarrow> [] | Some w \<Rightarrow> w)"

definition cache_ok :: "planner_cache \<Rightarrow> bool" where
  "cache_ok m \<longleftrightarrow> distinct (map fst (pc_curves m))
     \<and> (\<forall>k e. map_of (pc_curves m) k = Some e \<longrightarrow> entry_ok m k e)"

lemma refreshed_entry:
  "k = key_of (cy_curve e) \<Longrightarrow>
   entry_ok m k (RefreshCurveEntry (pc_thresholds m) (pc_venue_health m) k e)"
  by (auto simp: entry_ok_def RefreshCurveEntry_def verdict_def key_of_def split: option.splits)

lemma refreshed_curve [simp]: "cy_curve (RefreshCurveEntry t hs k e) = cy_curve e"
  by (simp add: RefreshCurveEntry_def split: option.splits)

text \<open>A verdict looks at the thresholds and the health of the curve's venue.\<close>

lemma entry_ok_cong:
  "pc_thresholds m' = pc_thresholds m \<Longrightarrow>
   find (pc_venue_health m') (lvc_venue_id (cy_curve e)) = find (pc_venue_health m) (lvc_venue_id (cy_curve e)) \<Longrightarrow>
   entry_ok m k e \<Longrightarrow> entry_ok m' k e"
  by (simp add: entry_ok_def verdict_def)

lemma map_of_refresh:
  "map_of (map (\<lambda>(k, e). (k, f k e)) xs) k = map_option (f k) (map_of xs k)"
  by (induction xs) auto

lemma curve_message_curves:
  "map_of (pc_curves (snd (UpsertCurve c m))) k =
    (if fst (key_of c) \<noteq> [] \<and> fst (snd (key_of c)) \<noteq> [] \<and> k = key_of c
     then Some (RefreshCurveEntry (pc_thresholds m) (pc_venue_health m) k
       (case map_of (pc_curves m) k of None \<Rightarrow> \<lparr>cy_curve = c, cy_usable = False, cy_reject_reason = []\<rparr>
        | Some e \<Rightarrow> e\<lparr>cy_curve := c\<rparr>))
     else map_of (pc_curves m) k)"
  by (simp add: UpsertCurve_def Let_def key_of_def update_conv')

lemma curve_message_frame [simp]:
  "pc_venue_health (snd (UpsertCurve c m)) = pc_venue_health m"
  "pc_thresholds (snd (UpsertCurve c m)) = pc_thresholds m"
  by (simp_all add: UpsertCurve_def Let_def)

definition health_kept :: "health_event \<Rightarrow> planner_cache \<Rightarrow> bool" where
  "health_kept h m \<longleftrightarrow> he_venue h \<noteq> [] \<and> \<not> ((case find (pc_venue_health m) (he_venue h) of None \<Rightarrow> False
      | Some old \<Rightarrow> he_event_type old = VENUE_HEALTH_EVENT_TYPE_AGGREGATED)
     \<and> he_event_type h = VENUE_HEALTH_EVENT_TYPE_RAW)"

lemma health_message_frame [simp]: "pc_thresholds (snd (UpsertHealth h m)) = pc_thresholds m"
  by (simp add: UpsertHealth_def Let_def)

lemma health_message_health:
  "find (pc_venue_health (snd (UpsertHealth h m))) v =
    (if health_kept h m \<and> v = he_venue h then Some h else find (pc_venue_health m) v)"
  by (auto simp: UpsertHealth_def Let_def health_kept_def)

lemma health_message_curves:
  "pc_curves (snd (UpsertHealth h m)) = (if health_kept h m
     then map (\<lambda>(k, e). (k, if fst (snd k) = he_venue h
            then RefreshCurveEntry (pc_thresholds m) (put (he_venue h) h (pc_venue_health m)) k e else e))
          (pc_curves m)
     else pc_curves m)"
  by (auto simp: UpsertHealth_def Let_def health_kept_def)

lemma health_message_stored:
  "health_kept h m \<Longrightarrow> pc_venue_health (snd (UpsertHealth h m)) = put (he_venue h) h (pc_venue_health m)"
  by (auto simp: UpsertHealth_def Let_def health_kept_def)

lemma cache_step_thresholds [simp]: "pc_thresholds (cache_step x m) = pc_thresholds m"
  by (simp add: cache_step_def split: venue_message.splits)

lemma cache_run_thresholds [simp]: "pc_thresholds (cache_run t xs) = t"
  by (induction xs rule: rev_induct) (simp_all add: cache_run_snoc, simp add: cache_run_def new_cache_def)

lemma cache_ok_step:
  assumes ok: "cache_ok m"
  shows "cache_ok (cache_step x m)"
proof (cases x)
  case (CurveMessage c)
  let ?m = "snd (UpsertCurve c m)"
  have "distinct (map fst (pc_curves ?m))"
    using ok by (simp add: cache_ok_def UpsertCurve_def Let_def distinct_update)
  moreover have "entry_ok ?m k e" if e: "map_of (pc_curves ?m) k = Some e" for k e
  proof (cases "fst (key_of c) \<noteq> [] \<and> fst (snd (key_of c)) \<noteq> [] \<and> k = key_of c")
    case True
    obtain e0 where "e = RefreshCurveEntry (pc_thresholds m) (pc_venue_health m) k e0" "cy_curve e0 = c"
      using e True by (cases "map_of (pc_curves m) k") (auto simp: curve_message_curves)
    then show ?thesis using refreshed_entry[of k e0 ?m] True by simp
  next
    case False
    then have "map_of (pc_curves m) k = Some e" using e by (simp only: curve_message_curves if_False)
    then have "entry_ok m k e" using ok unfolding cache_ok_def by blast
    then show ?thesis by (rule entry_ok_cong[rotated 2]) simp_all
  qed
  ultimately show ?thesis by (simp add: cache_ok_def cache_step_def CurveMessage)
next
  case (HealthMessage h)
  let ?m = "snd (UpsertHealth h m)"
  have "distinct (map fst (pc_curves ?m))"
    using ok by (auto simp: cache_ok_def health_message_curves case_prod_beta comp_def)
  moreover have "entry_ok ?m k e" if e: "map_of (pc_curves ?m) k = Some e" for k e
  proof (cases "health_kept h m")
    case False
    then have "map_of (pc_curves m) k = Some e" using e by (simp only: health_message_curves if_False)
    then have "entry_ok m k e" using ok unfolding cache_ok_def by blast
    then show ?thesis by (rule entry_ok_cong[rotated 2]) (simp_all add: health_message_health False)
  next
    case True
    obtain e0 where e0: "map_of (pc_curves m) k = Some e0" "e = (if fst (snd k) = he_venue h
        then RefreshCurveEntry (pc_thresholds m) (put (he_venue h) h (pc_venue_health m)) k e0 else e0)"
      using e unfolding health_message_curves by (auto simp: True map_of_refresh)
    have k: "entry_ok m k e0" using ok e0(1) unfolding cache_ok_def by blast
    then have key: "k = key_of (cy_curve e0)" by (simp add: entry_ok_def)
    show ?thesis
    proof (cases "fst (snd k) = he_venue h")
      case v: True
      show ?thesis using refreshed_entry[OF key, of ?m] e0(2) v health_message_stored[OF True] by simp
    next
      case v: False
      have "entry_ok ?m k e0"
        by (rule entry_ok_cong[OF _ _ k]) (use v key in \<open>simp_all add: health_message_health key_of_def\<close>)
      then show ?thesis using e0(2) v by simp
    qed
  qed
  ultimately show ?thesis by (simp add: cache_ok_def cache_step_def HealthMessage)
qed

lemma cache_ok_run: "cache_ok (cache_run t xs)"
  by (induction xs rule: rev_induct)
    (simp_all add: cache_run_snoc cache_ok_step, simp add: cache_run_def new_cache_def cache_ok_def)

section \<open>The latest messages\<close>

text \<open>The last element that has a property.\<close>

definition latest :: "('a \<Rightarrow> bool) \<Rightarrow> 'a list \<Rightarrow> 'a option" where
  "latest p xs = List.find p (rev xs)"

lemma latest_Nil [simp]: "latest p [] = None"
  by (simp add: latest_def)

lemma latest_snoc [simp]: "latest p (xs @ [x]) = (if p x then Some x else latest p xs)"
  by (simp add: latest_def)

definition curves_in :: "venue_message list \<Rightarrow> planner_curve list" where
  "curves_in xs = List.map_filter (\<lambda>x. case x of CurveMessage c \<Rightarrow> Some c | _ \<Rightarrow> None) xs"

definition health_in :: "venue_message list \<Rightarrow> health_event list" where
  "health_in xs = List.map_filter (\<lambda>x. case x of HealthMessage h \<Rightarrow> Some h | _ \<Rightarrow> None) xs"

lemma messages_snoc [simp]:
  "curves_in (xs @ [CurveMessage c]) = curves_in xs @ [c]" "curves_in (xs @ [HealthMessage h]) = curves_in xs"
  "health_in (xs @ [CurveMessage c]) = health_in xs" "health_in (xs @ [HealthMessage h]) = health_in xs @ [h]"
  "curves_in [] = []" "health_in [] = []"
  by (simp_all add: curves_in_def health_in_def map_filter_def)

lemma cached_curve:
  "map_option cy_curve (map_of (pc_curves (cache_run t xs)) k) =
    (if fst k = [] \<or> fst (snd k) = [] then None else latest (\<lambda>c. key_of c = k) (curves_in xs))"
proof (induction xs rule: rev_induct)
  case Nil
  then show ?case by (simp add: cache_run_def new_cache_def)
next
  case (snoc x xs)
  show ?case
  proof (cases x)
    case (CurveMessage c)
    then show ?thesis using snoc
      by (auto simp: cache_run_snoc cache_step_def curve_message_curves split: option.splits)
  next
    case (HealthMessage h)
    have "map_option cy_curve (map_of (pc_curves (snd (UpsertHealth h m))) k)
        = map_option cy_curve (map_of (pc_curves m) k)" for m
      by (cases "map_of (pc_curves m) k") (simp_all add: health_message_curves map_of_refresh)
    then show ?thesis using snoc HealthMessage by (simp add: cache_run_snoc cache_step_def)
  qed
qed

text \<open>An aggregated report is only replaced by another one.\<close>

definition preferred :: "string \<Rightarrow> health_event list \<Rightarrow> health_event option" where
  "preferred v hs = (case latest (\<lambda>h. he_venue h = v \<and> he_event_type h = VENUE_HEALTH_EVENT_TYPE_AGGREGATED) hs of
     Some h \<Rightarrow> Some h | None \<Rightarrow> latest (\<lambda>h. he_venue h = v) hs)"

definition typed_reports :: "health_event list \<Rightarrow> bool" where
  "typed_reports hs \<longleftrightarrow> (\<forall>h \<in> set hs. he_event_type h = VENUE_HEALTH_EVENT_TYPE_RAW
     \<or> he_event_type h = VENUE_HEALTH_EVENT_TYPE_AGGREGATED)"

lemma latest_Some: "latest p xs = Some x \<Longrightarrow> x \<in> set xs \<and> p x"
proof -
  assume "latest p xs = Some x"
  then obtain i where "i < length (rev xs)" "p (rev xs ! i)" "x = rev xs ! i"
    unfolding latest_def find_Some_iff by blast
  then show ?thesis using nth_mem[of i "rev xs"] by simp
qed

lemma latest_None: "latest p xs = None \<longleftrightarrow> (\<forall>x \<in> set xs. \<not> p x)"
  by (auto simp: latest_def find_None_iff)

lemma cached_health:
  assumes "typed_reports (health_in xs)" "v \<noteq> []"
  shows "find (pc_venue_health (cache_run t xs)) v = preferred v (health_in xs)"
  using assms(1)
proof (induction xs rule: rev_induct)
  case Nil
  then show ?case by (simp add: cache_run_def new_cache_def preferred_def)
next
  case (snoc x xs)
  show ?case
  proof (cases x)
    case (CurveMessage c)
    then show ?thesis using snoc by (simp add: cache_run_snoc cache_step_def)
  next
    case (HealthMessage h)
    have IH: "find (pc_venue_health (cache_run t xs)) v = preferred v (health_in xs)"
      and ty: "he_event_type h = VENUE_HEALTH_EVENT_TYPE_RAW \<or> he_event_type h = VENUE_HEALTH_EVENT_TYPE_AGGREGATED"
        "typed_reports (health_in xs)"
      using snoc HealthMessage by (auto simp: typed_reports_def)
    let ?agg = "\<lambda>h. he_venue h = v \<and> he_event_type h = VENUE_HEALTH_EVENT_TYPE_AGGREGATED"
    show ?thesis
    proof (cases "he_venue h = v")
      case True
      let ?hs = "health_in xs"
      have keep: "health_kept h (cache_run t xs) \<longleftrightarrow> latest ?agg ?hs = None
          \<or> he_event_type h = VENUE_HEALTH_EVENT_TYPE_AGGREGATED"
      proof (cases "latest ?agg ?hs")
        case None
        then have "he_event_type g \<noteq> VENUE_HEALTH_EVENT_TYPE_AGGREGATED"
          if "latest (\<lambda>h. he_venue h = v) ?hs = Some g" for g
          using latest_Some[OF that] by (simp add: latest_None)
        then show ?thesis using IH True assms(2) None by (simp add: health_kept_def preferred_def split: option.splits)
      next
        case (Some g)
        then show ?thesis using IH True assms(2) ty(1) latest_Some[OF Some]
          by (auto simp: health_kept_def preferred_def)
      qed
      show ?thesis
        using True HealthMessage IH ty(1) keep
        by (auto simp: cache_run_snoc cache_step_def health_message_health preferred_def split: option.split)
    next
      case False
      then show ?thesis using IH HealthMessage
        by (simp add: cache_run_snoc cache_step_def health_message_health preferred_def split: option.split)
    qed
  qed
qed

section \<open>What the planner and the solver get\<close>

lemma find_some_in: "List.find p xs = Some x \<Longrightarrow> x \<in> set xs \<and> p x"
  by (metis find_Some_iff nth_mem)

lemma in_map_filter: "x \<in> set (List.map_filter f xs) \<longleftrightarrow> (\<exists>y \<in> set xs. f y = Some x)"
  by (force simp: map_filter_def)

lemma found_filtered: "List.find p (List.map_filter f ls) = Some e \<Longrightarrow> \<exists>l. f l = Some e"
  using find_some_in[of p "List.map_filter f ls" e] by (auto simp: map_filter_def)

lemma fallback_entry:
  assumes "SelectBestCurveForVenueFallback m sy v = Some e"
  shows "\<exists>l. map_of (pc_curves m) (sy, v, l) = Some e"
proof (cases "first_usable m sy v")
  case None
  then have "List.find (\<lambda>_. True) (List.map_filter (\<lambda>l. map_of (pc_curves m) (sy, v, l)) [''L1'', ''L2'', ''L3'']) = Some e"
    using assms by (simp only: SelectBestCurveForVenueFallback_def option.case)
  then show ?thesis by (rule found_filtered)
next
  case (Some x)
  then have "List.find cy_usable (List.map_filter (\<lambda>l. map_of (pc_curves m) (sy, v, l)) [''L3'', ''L2'', ''L1'']) = Some e"
    using assms by (simp only: SelectBestCurveForVenueFallback_def first_usable_def option.case)
  then show ?thesis by (rule found_filtered)
qed

lemma fallback_usable:
  assumes "map_of (pc_curves m) (sy, v, l) = Some e" "cy_usable e" "l \<in> {''L1'', ''L2'', ''L3''}"
  shows "\<exists>e. SelectBestCurveForVenueFallback m sy v = Some e \<and> cy_usable e"
proof -
  let ?es = "List.map_filter (\<lambda>l. map_of (pc_curves m) (sy, v, l)) [''L3'', ''L2'', ''L1'']"
  have "e \<in> set ?es" using assms(1,3) by (auto simp: map_filter_def)
  then obtain e' where "List.find cy_usable ?es = Some e'"
    using assms(2) by (cases "List.find cy_usable ?es") (auto simp: find_None_iff)
  then show ?thesis using find_some_in[of cy_usable ?es e']
    by (simp add: SelectBestCurveForVenueFallback_def first_usable_def)
qed

lemma collected_input:
  assumes "i \<in> set (collect_inputs m sy ks seen)"
  shows "\<exists>v l e. map_of (pc_curves m) (sy, v, l) = Some e \<and> v \<notin> set seen
    \<and> i = \<lparr>pi_venue_id = v, pi_symbol = sy, pi_curve = cy_curve e, pi_health = find (pc_venue_health m) v,
           pi_usable = cy_usable e, pi_reject_reason = cy_reject_reason e\<rparr>"
  using assms
proof (induction m sy ks seen rule: collect_inputs.induct)
  case (2 m sy k ks seen)
  show ?case
  proof (cases "fst k \<noteq> sy \<or> fst (snd k) \<in> set seen")
    case True
    then show ?thesis using 2 by simp
  next
    case False
    show ?thesis
    proof (cases "SelectBestCurveForVenueFallback m sy (fst (snd k))")
      case None
      then show ?thesis using 2 False by simp
    next
      case (Some e)
      obtain l where "map_of (pc_curves m) (sy, fst (snd k), l) = Some e" using fallback_entry[OF Some] ..
      then show ?thesis
        using 2(3)[OF False Some] "2.prems" False Some by (auto simp: BuildPlannerVenueInput_def)
    qed
  qed
qed simp

lemma collected_distinct: "distinct (map pi_venue_id (collect_inputs m sy ks seen))"
proof (induction m sy ks seen rule: collect_inputs.induct)
  case (2 m sy k ks seen)
  have "fst (snd k) \<notin> pi_venue_id ` set (collect_inputs m sy ks (fst (snd k) # seen))"
    by (auto dest!: collected_input)
  then show ?case
    using 2 by (cases "SelectBestCurveForVenueFallback m sy (fst (snd k))") (simp_all add: BuildPlannerVenueInput_def)
qed simp

lemma collected_covers:
  assumes "k \<in> set ks" "fst k = sy" "SelectBestCurveForVenueFallback m sy (fst (snd k)) = Some e"
    and "fst (snd k) \<notin> set seen"
  shows "\<exists>i \<in> set (collect_inputs m sy ks seen). pi_venue_id i = fst (snd k) \<and> pi_usable i = cy_usable e"
  using assms
proof (induction m sy ks seen rule: collect_inputs.induct)
  case (2 m sy k' ks seen)
  show ?case
  proof (cases "fst k' = sy \<and> fst (snd k') = fst (snd k)")
    case True
    then show ?thesis using 2 by (auto simp: BuildPlannerVenueInput_def)
  next
    case False
    then have k: "k \<in> set ks" using "2.prems" by auto
    show ?thesis
    proof (cases "fst k' \<noteq> sy \<or> fst (snd k') \<in> set seen")
      case True
      then show ?thesis using 2(1)[OF True k] 2(5-7) by simp
    next
      case t: False
      show ?thesis
      proof (cases "SelectBestCurveForVenueFallback m sy (fst (snd k'))")
        case None
        then show ?thesis using 2(2)[OF t None k] 2(5-7) t by simp
      next
        case (Some e')
        have "fst (snd k) \<notin> set (fst (snd k') # seen)" using False t 2(7) by auto
        then show ?thesis using 2(3)[OF t Some k] 2(5,6) t Some by auto
      qed
    qed
  qed
qed simp

text \<open>What an input says is true of its curve and the current health.\<close>

definition input_sound :: "planner_cache \<Rightarrow> planner_input \<Rightarrow> bool" where
  "input_sound m i \<longleftrightarrow> pi_symbol i = in_symbol (lvc_instrument (pi_curve i)) \<and> pi_venue_id i = lvc_venue_id (pi_curve i)
     \<and> pi_health i = find (pc_venue_health m) (pi_venue_id i) \<and> pi_usable i = (verdict m (pi_curve i) = None)
     \<and> pi_reject_reason i = (case verdict m (pi_curve i) of None \<Rightarrow> [] | Some w \<Rightarrow> w)"

lemma snapshot_sound:
  assumes "cache_ok m" "i \<in> set (GetPlannerInputsSnapshotForSymbol m sy)"
  shows "input_sound m i" "pi_symbol i = sy"
proof -
  obtain v l e where i: "map_of (pc_curves m) (sy, v, l) = Some e"
    "i = \<lparr>pi_venue_id = v, pi_symbol = sy, pi_curve = cy_curve e, pi_health = find (pc_venue_health m) v,
          pi_usable = cy_usable e, pi_reject_reason = cy_reject_reason e\<rparr>"
    using collected_input[of i m sy "map fst (pc_curves m)" "[]"] assms(2)
    by (auto simp: GetPlannerInputsSnapshotForSymbol_def)
  have "entry_ok m (sy, v, l) e" using assms(1) i(1) unfolding cache_ok_def by blast
  then show "input_sound m i" "pi_symbol i = sy"
    by (simp_all add: i(2) input_sound_def entry_ok_def key_of_def)
qed

lemma best_element: "max_element lt b xs \<in> insert b (set xs)"
proof (induction xs arbitrary: b)
  case (Cons x xs)
  show ?case using Cons[of "if lt b x then x else b"] by (auto split: if_splits)
qed simp

lemma solver_curve:
  assumes "(sy, c) \<in> set (LegacyBestProjection m)"
  shows "\<exists>i \<in> set (GetPlannerInputsSnapshotForSymbol m sy). pi_usable i \<and> pi_curve i = c"
proof -
  obtain s' ins where s: "(s', ins) \<in> set (GetPlannerInputsSnapshot m)" "(case filter pi_usable ins of [] \<Rightarrow> None
      | i # is \<Rightarrow> Some (s', pi_curve (max_element IsWorseLegacyCandidate i is))) = Some (sy, c)"
    using assms unfolding LegacyBestProjection_def in_map_filter Bex_def split_paired_Ex prod.case by blast
  then obtain j js where "filter pi_usable ins = j # js" "s' = sy"
    "c = pi_curve (max_element IsWorseLegacyCandidate j js)" by (cases "filter pi_usable ins") auto
  moreover have "ins = GetPlannerInputsSnapshotForSymbol m s'" using s(1) by (auto simp: GetPlannerInputsSnapshot_def)
  moreover have "max_element IsWorseLegacyCandidate j js \<in> set (j # js)" using best_element[of _ j js] by simp
  moreover have "set (filter pi_usable ins) = {i \<in> set ins. pi_usable i}" by simp
  ultimately show ?thesis by auto
qed


text \<open>Two levels of one venue, the finer one with a broken grid.\<close>

definition ex_side :: side_liquidity where
  "ex_side = \<lparr>sl_q_grid = [1, 2], sl_p_of_q = [100, 101], sl_s_of_q = [100, 202], sl_v_grid = [],
     sl_l_of_v = [], sl_l_of_v_monotone = []\<rparr>"

definition ex_curve :: "string \<Rightarrow> string \<Rightarrow> side_liquidity \<Rightarrow> planner_curve" where
  "ex_curve v l sl = \<lparr>lvc_venue_id = v, lvc_instrument = \<lparr>in_symbol = ''BTC/USDT'', in_base = ''BTC'', in_quote = ''USDT''\<rparr>,
     lvc_bid_curve = sl, lvc_ask_curve = sl, lvc_confidence = 1, lvc_level = l, lvc_mid_price = None, lvc_tau_ms = 0\<rparr>"

definition ex_health :: "health_event_type \<Rightarrow> breaker \<Rightarrow> health_event" where
  "ex_health ty b = \<lparr>he_venue = ''binance'', he_timestamp = 0, he_event_type = ty, he_breaker_state = b,
     he_status = VENUE_HEALTH_STATUS_OK, he_health_score = 1, he_latency_ms = 0, he_stale_ms = 0, he_error_rate = 0,
     he_error_count = 0, he_snapshots_per_sec = 5, he_last_snapshot_age = 0,
     he_routing_recommendation = ROUTING_ALLOW, he_reason = []\<rparr>"

definition ex_messages :: "venue_message list" where
  "ex_messages = [CurveMessage (ex_curve ''binance'' ''L3'' (ex_side\<lparr>sl_q_grid := [2, 1]\<rparr>)),
     CurveMessage (ex_curve ''binance'' ''L1'' ex_side),
     HealthMessage (ex_health VENUE_HEALTH_EVENT_TYPE_AGGREGATED BREAKER_CLOSED),
     HealthMessage (ex_health VENUE_HEALTH_EVENT_TYPE_RAW BREAKER_OPEN)]"

lemma ex_messages_facts:
  "typed_reports (health_in ex_messages)"
  "map (\<lambda>(k, e). (k, cy_usable e)) (pc_curves (cache_run \<lparr>vt_min_health_score = 0, vt_min_confidence = 0\<rparr> ex_messages))
    = [((''BTC/USDT'', ''binance'', ''L3''), False), ((''BTC/USDT'', ''binance'', ''L1''), True)]"
  by code_simp+


end
