(* ===== verification/Hedge_Planner_Laws.thy ===== *)
theory Hedge_Planner_Laws
  imports Hedge_Planner Planner_Laws
begin

text \<open>
  A plan spreads exactly the target of an intent over distinct venues that may serve it, and the
  intents the engine publishes in place of the intents of a batch still offset the positions.
\<close>

section \<open>Rounding\<close>

lemma largest_from_bound: "best < n + length xs \<Longrightarrow> largest_from best n v xs < n + length xs"
  if "best < n" for best n
  using that
proof (induction xs arbitrary: best n v)
  case (Cons x xs)
  show ?case using Cons.IH[of n "Suc n" x] Cons.IH[of best "Suc n" v] Cons.prems by simp
qed simp

lemma largest_index_bound: "xs \<noteq> [] \<Longrightarrow> largest_index xs < length xs"
  using largest_from_bound[of 0 1] by (cases xs) (auto simp: largest_index_def)

lemma sum_of_update: "k < length xs \<Longrightarrow> sum_list (xs[k := x]) = sum_list xs + x - (xs ! k :: rat)"
proof (induction xs arbitrary: k)
  case (Cons y ys)
  then show ?case by (cases k) simp_all
qed simp

lemma settled_sum:
  assumes t: "grid s M target" and q: "\<forall>d \<in> set qtys. grid s m d" "0 \<le> m"
    and n: "length shares = length qtys" "qtys \<noteq> []"
    and fits: "M + int (Suc (length qtys)) * m \<le> max_units"
  shows "(\<Sum>d \<leftarrow> settle_rounding target shares qtys. dval d) = dval target"
    and "length (settle_rounding target shares qtys) = length qtys"
proof -
  let ?n = "int (length qtys) * m" and ?sum = "foldl dadd dzero qtys" and ?k = "largest_index shares"
  have M: "0 \<le> M" by (rule grid_nonneg[OF t])
  have nm: "0 \<le> ?n" using q(2) by simp
  have len: "int (Suc (length qtys)) * m = m + ?n" by (simp add: algebra_simps)
  have fits': "M + ?n \<le> max_units" "?n \<le> max_units" "m + (M + ?n) \<le> max_units"
    using fits q(2) M nm unfolding len by linarith+
  have z: "grid s 0 dzero" using grid_le_18[OF t] by simp
  have sum: "dval ?sum = (\<Sum>d \<leftarrow> qtys. dval d)" "grid s ?n ?sum"
    using dec.sum_exact[OF z q(1) _ q(2)] fits'(2) by (simp_all add: foldl_conv_fold dec.zero_val)
  have diff: "dval (dsub target ?sum) = dval target - dval ?sum" "grid s (M + ?n) (dsub target ?sum)"
    using grid_sub[OF t sum(2) fits'(1)] by simp_all
  have zero: "dcmp (dsub target ?sum) dzero = 0 \<longleftrightarrow> dval (dsub target ?sum) = 0"
    using dcmp_dzero[OF grid_wf[OF diff(2) fits'(1)]] by (metis less_irrefl linorder_neqE_linordered_idom)
  have k: "?k < length qtys" using largest_index_bound[of shares] n by (cases shares) auto
  have "dval (dadd (qtys ! ?k) (dsub target ?sum)) = dval (qtys ! ?k) + dval (dsub target ?sum)"
    by (rule grid_add(1)[OF _ diff(2) fits'(3)]) (use q(1) k in simp)
  then show "(\<Sum>d \<leftarrow> settle_rounding target shares qtys. dval d) = dval target"
    using zero diff(1) sum(1) k
      sum_of_update[of ?k "map dval qtys" "dval (qtys ! ?k) + dval (dsub target ?sum)"]
    by (simp add: settle_rounding_def Let_def map_update)
  show "length (settle_rounding target shares qtys) = length qtys" by (simp add: settle_rounding_def Let_def)
qed

section \<open>The venues of a plan\<close>

text \<open>A venue may serve a hedge: the filter admits its curve, the intent allows it, its health does not
  forbid it and its curve has liquidity on the side the hedge takes.\<close>

definition may_serve :: "plan_request \<Rightarrow> planner_input \<Rightarrow> bool" where
  "may_serve q i \<longleftrightarrow> pi_usable i \<and> (pq_allowed_venues q = [] \<or> pi_venue_id i \<in> set (pq_allowed_venues q))
     \<and> (\<forall>h. pi_health i = Some h \<longrightarrow> he_routing_recommendation h \<noteq> ROUTING_BLOCK \<and> he_breaker_state h \<noteq> BREAKER_OPEN)
     \<and> 0 < MaxQtyOnSide (SideCurveForIntent (pi_curve i) (pq_side q))"

lemma candidate_iff:
  "plan_candidate q i = Some c \<longleftrightarrow> may_serve q i
     \<and> c = (pi_venue_id i, MaxQtyOnSide (SideCurveForIntent (pi_curve i) (pq_side q)))"
  by (auto simp: plan_candidate_def may_serve_def VenueHealthGreen_def Let_def split: option.splits)

lemma candidates_from_inputs:
  "c \<in> set (plan_candidates q) \<longleftrightarrow> (\<exists>i \<in> set (pq_planner_inputs q). plan_candidate q i = Some c)"
  by (simp add: plan_candidates_def in_map_filter)

lemma candidate_venues_distinct:
  assumes "distinct (map pi_venue_id (pq_planner_inputs q))"
  shows "distinct (map fst (plan_candidates q))"
proof -
  have "distinct (map fst (List.map_filter (plan_candidate q) is))" if "distinct (map pi_venue_id is)" for "is"
    using that
  proof (induction "is")
    case (Cons i "is")
    show ?case
    proof (cases "plan_candidate q i")
      case None
      then show ?thesis using Cons by (simp add: map_filter_simps)
    next
      case (Some c)
      then have "fst c \<notin> fst ` set (List.map_filter (plan_candidate q) is)"
        using Cons.prems by (auto simp: in_map_filter candidate_iff)
      then show ?thesis using Cons Some by (simp add: map_filter_simps)
    qed
  qed (simp add: map_filter_simps)
  then show ?thesis using assms by (simp add: plan_candidates_def)
qed

lemma provisional_sel [simp]:
  "pv_venue_id (provisional_of fl w t c) = fst c" "pv_liquidity (provisional_of fl w t c) = snd c"
  by (simp_all add: provisional_of_def Let_def)

lemma kept_venues:
  "\<exists>ps'. map (\<lambda>p. (pv_venue_id p, pv_liquidity p)) (kept_provisional fl th t ps)
     = map (\<lambda>p. (pv_venue_id p, pv_liquidity p)) (filter ps' ps)"
  by (rule exI[of _ "\<lambda>p. \<not> pv_qty p < th"]) (simp add: kept_provisional_def Let_def comp_def)

text \<open>The kept venues of the plan and their rounded quantities, before the last correction.\<close>

definition kept_of :: "fp \<Rightarrow> plan_config \<Rightarrow> plan_request \<Rightarrow> provisional list" where
  "kept_of fl cfg q =
     (let target = to_double fl (pq_target_qty q); cs = plan_candidates q
      in kept_provisional fl (max (pf_min_allocation_abs cfg) (fp_round fl (pf_min_allocation_fraction cfg * target)))
           target (map (provisional_of fl (rsum fl (map snd cs)) target) cs))"

definition rounded_split :: "fp \<Rightarrow> plan_config \<Rightarrow> plan_request \<Rightarrow> decimal list" where
  "rounded_split fl cfg q = map (\<lambda>p. plan_decimal fl (pv_qty p)) (kept_of fl cfg q)"

definition plan_feasible :: "fp \<Rightarrow> plan_request \<Rightarrow> bool" where
  "plan_feasible fl q \<longleftrightarrow> 0 < to_double fl (pq_target_qty q) \<and> plan_candidates q \<noteq> []
     \<and> (length (plan_candidates q) = 1 \<or> 0 < rsum fl (map snd (plan_candidates q)))"

lemma plan_cases:
  assumes "p = BuildMultiVenuePlan fl cfg q"
  obtains (none) why where "\<not> plan_feasible fl q" "p = no_plan why"
  | (single) c where "plan_feasible fl q" "c \<in> set (plan_candidates q)" "p = single_allocation q (fst c) (snd c)"
  | (split) "plan_feasible fl q" "kept_of fl cfg q \<noteq> []" "p = allocate fl q (kept_of fl cfg q)"
proof -
  let ?t = "to_double fl (pq_target_qty q)" and ?cs = "plan_candidates q"
  let ?ps = "map (provisional_of fl (rsum fl (map snd ?cs)) ?t) ?cs"
  consider "?t \<le> 0" | "0 < ?t" "?cs = []" | c where "0 < ?t" "?cs = [c]"
    | v l d cs where "0 < ?t" "?cs = (v, l) # d # cs" by (cases ?cs rule: remdups_adj.cases) force+
  then show ?thesis
  proof cases
    case 4
    show ?thesis
    proof (cases "0 < rsum fl (map snd ?cs)")
      case False
      then show ?thesis using 4 none[of "''zero_total_liquidity''"]
        by (simp add: assms BuildMultiVenuePlan_def plan_feasible_def)
    next
      case True
      have f: "plan_feasible fl q" using 4 True by (simp add: plan_feasible_def)
      show ?thesis
      proof (cases "kept_of fl cfg q = []")
        case k: True
        let ?best = "max_element (\<lambda>a b. pv_liquidity a < pv_liquidity b) (hd ?ps) (tl ?ps)"
        have "?ps \<noteq> []" using 4 by simp
        then have "insert (hd ?ps) (set (tl ?ps)) = set ?ps" by (cases ?ps) simp_all
        then have "?best \<in> set ?ps" using best_element[of "\<lambda>a b. pv_liquidity a < pv_liquidity b" "hd ?ps" "tl ?ps"] by simp
        then obtain b where b: "b \<in> set ?cs" "?best = provisional_of fl (rsum fl (map snd ?cs)) ?t b" by auto
        have "p = single_allocation q (pv_venue_id ?best) (pv_liquidity ?best)"
          using 4 True k by (simp add: assms BuildMultiVenuePlan_def Let_def kept_of_def)
        then show ?thesis using single[OF f b(1)] by (simp add: b(2))
      next
        case k: False
        have "p = allocate fl q (kept_of fl cfg q)"
          using 4 True k by (simp add: assms BuildMultiVenuePlan_def Let_def kept_of_def)
        then show ?thesis using split f k by blast
      qed
    qed
  next
    case 1
    then show ?thesis using none[of "''target_qty_non_positive''"] by (simp add: assms BuildMultiVenuePlan_def plan_feasible_def)
  next
    case 2
    then show ?thesis using none[of "''no_usable_venue''"] by (simp add: assms BuildMultiVenuePlan_def plan_feasible_def)
  next
    case (3 c)
    then show ?thesis using single[of c] by (cases c) (simp add: assms BuildMultiVenuePlan_def plan_feasible_def)
  qed
qed

lemma allocate_sel:
  assumes "length (settle_rounding (pq_target_qty q) (map pv_qty kept) (map (\<lambda>p. plan_decimal fl (pv_qty p)) kept)) = length kept"
  shows "map (\<lambda>a. (va_venue_id a, va_liquidity_used a)) (pl_allocations (allocate fl q kept))
      = map (\<lambda>p. (pv_venue_id p, pv_liquidity p)) kept"
    and "map va_qty (pl_allocations (allocate fl q kept))
      = settle_rounding (pq_target_qty q) (map pv_qty kept) (map (\<lambda>p. plan_decimal fl (pv_qty p)) kept)"
  using assms by (simp_all add: allocate_def Let_def list_eq_iff_nth_eq)

lemma kept_candidates:
  "set (map (\<lambda>p. (pv_venue_id p, pv_liquidity p)) (kept_of fl cfg q)) \<subseteq> set (plan_candidates q)"
  "distinct (map fst (plan_candidates q)) \<Longrightarrow> distinct (map pv_venue_id (kept_of fl cfg q))"
proof -
  let ?t = "to_double fl (pq_target_qty q)" and ?cs = "plan_candidates q"
  let ?ps = "map (provisional_of fl (rsum fl (map snd ?cs)) ?t) ?cs"
  obtain f where f: "map (\<lambda>p. (pv_venue_id p, pv_liquidity p)) (kept_of fl cfg q)
      = map (\<lambda>p. (pv_venue_id p, pv_liquidity p)) (filter f ?ps)"
    unfolding kept_of_def Let_def using kept_venues by blast
  show "set (map (\<lambda>p. (pv_venue_id p, pv_liquidity p)) (kept_of fl cfg q)) \<subseteq> set ?cs" unfolding f by auto
  have "map pv_venue_id (kept_of fl cfg q) = map pv_venue_id (filter f ?ps)"
    using arg_cong[OF f, of "map fst"] by (simp add: comp_def)
  moreover assume "distinct (map fst ?cs)"
  then have "distinct (map pv_venue_id ?ps)" by (simp add: comp_def)
  ultimately show "distinct (map pv_venue_id (kept_of fl cfg q))" by (metis distinct_map_filter)
qed

lemma plan_parts:
  assumes "grid s M (pq_target_qty q)" "\<forall>d \<in> set (rounded_split fl cfg q). grid s m d" "0 \<le> m"
    and "M + int (Suc (length (pq_planner_inputs q))) * m \<le> max_units"
    and "distinct (map pi_venue_id (pq_planner_inputs q))"
  defines "p \<equiv> BuildMultiVenuePlan fl cfg q"
  shows "(pl_feasible p \<longleftrightarrow> plan_feasible fl q) \<and> (pl_feasible p \<longleftrightarrow> pl_allocations p \<noteq> [])"
    and "pl_feasible p \<Longrightarrow> (\<Sum>a \<leftarrow> pl_allocations p. dval (va_qty a)) = dval (pq_target_qty q)"
    and "distinct (map va_venue_id (pl_allocations p))"
    and "\<forall>a \<in> set (pl_allocations p). \<exists>i \<in> set (pq_planner_inputs q). may_serve q i \<and> va_venue_id a = pi_venue_id i
        \<and> va_liquidity_used a = MaxQtyOnSide (SideCurveForIntent (pi_curve i) (pq_side q))"
proof -
  have "(pl_feasible p \<longleftrightarrow> plan_feasible fl q) \<and> (pl_feasible p \<longleftrightarrow> pl_allocations p \<noteq> [])
    \<and> (pl_feasible p \<longrightarrow> (\<Sum>a \<leftarrow> pl_allocations p. dval (va_qty a)) = dval (pq_target_qty q))
    \<and> distinct (map va_venue_id (pl_allocations p))
    \<and> (\<forall>a \<in> set (pl_allocations p). \<exists>i \<in> set (pq_planner_inputs q). may_serve q i \<and> va_venue_id a = pi_venue_id i
        \<and> va_liquidity_used a = MaxQtyOnSide (SideCurveForIntent (pi_curve i) (pq_side q)))"
  proof (rule plan_cases[OF p_def[THEN meta_eq_to_obj_eq]])
  fix why assume "\<not> plan_feasible fl q" "p = no_plan why"
  then show ?thesis by (simp add: no_plan_def)
next
  fix c assume c: "plan_feasible fl q" "c \<in> set (plan_candidates q)" "p = single_allocation q (fst c) (snd c)"
  obtain i where "i \<in> set (pq_planner_inputs q)" "plan_candidate q i = Some c" using c(2) by (auto simp: candidates_from_inputs)
  then show ?thesis using c(1,3) by (auto simp: single_allocation_def candidate_iff)
next
  let ?kept = "kept_of fl cfg q"
  let ?qtys = "settle_rounding (pq_target_qty q) (map pv_qty ?kept) (map (\<lambda>p. plan_decimal fl (pv_qty p)) ?kept)"
  assume k: "plan_feasible fl q" "?kept \<noteq> []" "p = allocate fl q ?kept"
  have "length ?kept = card (set (map pv_venue_id ?kept))"
    using distinct_card[OF kept_candidates(2)[OF candidate_venues_distinct[OF assms(5)]]] by (metis length_map)
  also have "\<dots> \<le> card (set (map fst (plan_candidates q)))"
    using kept_candidates(1)[of fl cfg q] by (intro card_mono) force+
  also have "\<dots> \<le> card (set (map pi_venue_id (pq_planner_inputs q)))"
    by (intro card_mono) (auto simp: candidates_from_inputs candidate_iff)
  also have "\<dots> \<le> length (pq_planner_inputs q)" by (metis card_length length_map)
  finally have "int (Suc (length ?kept)) * m \<le> int (Suc (length (pq_planner_inputs q))) * m"
    using assms(3) by (intro mult_right_mono) simp_all
  then have fits: "M + int (Suc (length (map (\<lambda>p. plan_decimal fl (pv_qty p)) ?kept))) * m \<le> max_units"
    using assms(4) by simp
  note sum = settled_sum[OF assms(1) assms(2)[unfolded rounded_split_def] assms(3) _ _ fits, of "map pv_qty ?kept"]
  have len: "length ?qtys = length ?kept" using sum(2) k(2) by simp
  note sel = allocate_sel[OF len]
  have qty: "(\<Sum>a \<leftarrow> pl_allocations p. dval (va_qty a)) = dval (pq_target_qty q)"
    using sum(1) k(2) arg_cong[OF sel(2), of "\<lambda>xs. sum_list (map dval xs)"] by (simp add: k(3) comp_def)
  have vs: "map va_venue_id (pl_allocations p) = map pv_venue_id ?kept"
    using arg_cong[OF sel(1), of "map fst"] by (simp add: k(3) comp_def)
  have "pl_allocations p \<noteq> []" using arg_cong[OF vs, of length] k(2) by auto
  moreover have "distinct (map va_venue_id (pl_allocations p))"
    unfolding vs by (rule kept_candidates(2)[OF candidate_venues_distinct[OF assms(5)]])
  moreover have "\<exists>i \<in> set (pq_planner_inputs q). may_serve q i \<and> va_venue_id a = pi_venue_id i
      \<and> va_liquidity_used a = MaxQtyOnSide (SideCurveForIntent (pi_curve i) (pq_side q))"
    if "a \<in> set (pl_allocations p)" for a
  proof -
    have "(va_venue_id a, va_liquidity_used a) \<in> set (map (\<lambda>a. (va_venue_id a, va_liquidity_used a)) (pl_allocations p))"
      using that by simp
    then have "(va_venue_id a, va_liquidity_used a) \<in> set (plan_candidates q)"
      using kept_candidates(1)[of fl cfg q] unfolding k(3) sel(1) by blast
    then show ?thesis by (auto simp: candidates_from_inputs candidate_iff)
  qed
  ultimately show ?thesis using k(1) qty by (simp add: k(3) allocate_def Let_def)
qed
  then show "(pl_feasible p \<longleftrightarrow> plan_feasible fl q) \<and> (pl_feasible p \<longleftrightarrow> pl_allocations p \<noteq> [])"
    "pl_feasible p \<Longrightarrow> (\<Sum>a \<leftarrow> pl_allocations p. dval (va_qty a)) = dval (pq_target_qty q)"
    "distinct (map va_venue_id (pl_allocations p))"
    "\<forall>a \<in> set (pl_allocations p). \<exists>i \<in> set (pq_planner_inputs q). may_serve q i \<and> va_venue_id a = pi_venue_id i
        \<and> va_liquidity_used a = MaxQtyOnSide (SideCurveForIntent (pi_curve i) (pq_side q))"
    by blast+
qed

text \<open>C19. Splitting a hedge. A plan exists exactly when the target is positive and some venue may serve
  it (with more than one, when their liquidity adds up to something positive); it then spreads
  exactly the target over distinct venues, each of which the filter admits, the intent allows, whose
  health does not forbid it and which shows liquidity on the side the hedge takes.
\<close>

theorem plan_splits_target:
  assumes "grid s M (pq_target_qty q)" "\<forall>d \<in> set (rounded_split fl cfg q). grid s m d" "0 \<le> m"
    and "M + int (Suc (length (pq_planner_inputs q))) * m \<le> max_units"
    and "distinct (map pi_venue_id (pq_planner_inputs q))"
  defines "p \<equiv> BuildMultiVenuePlan fl cfg q"
  shows "(pl_feasible p \<longleftrightarrow> plan_feasible fl q) \<and> (pl_feasible p \<longleftrightarrow> pl_allocations p \<noteq> [])
    \<and> (pl_feasible p \<longrightarrow> (\<Sum>a \<leftarrow> pl_allocations p. dval (va_qty a)) = dval (pq_target_qty q))
    \<and> distinct (map va_venue_id (pl_allocations p))
    \<and> (\<forall>a \<in> set (pl_allocations p). \<exists>i \<in> set (pq_planner_inputs q). may_serve q i \<and> va_venue_id a = pi_venue_id i
        \<and> va_liquidity_used a = MaxQtyOnSide (SideCurveForIntent (pi_curve i) (pq_side q)))"
  unfolding p_def using plan_parts[OF assms(1-5)] by blast

definition ex_fp :: fp where
  "ex_fp = \<lparr>fp_round = (\<lambda>x. x), fp_strtod = (\<lambda>_. 0)\<rparr>"

definition two_venues :: "venue_message list" where
  "two_venues = [CurveMessage (ex_curve ''binance'' ''L1'' ex_side), CurveMessage (ex_curve ''okx'' ''L1'' ex_side)]"

definition ex_cache :: planner_cache where
  "ex_cache = cache_run \<lparr>vt_min_health_score = 0, vt_min_confidence = 0\<rparr> two_venues"

definition ex_plan_request :: plan_request where
  "ex_plan_request = \<lparr>pq_symbol = ''BTC/USDT'', pq_side = SIDE_BUY, pq_target_qty = mk_dec 6 0, pq_allowed_venues = [],
     pq_planner_inputs = GetPlannerInputsSnapshotForSymbol ex_cache ''BTC/USDT''\<rparr>"

lemma ex_plan_facts:
  "map units (rounded_split ex_fp (default_plan_config ex_fp) ex_plan_request) = [300000000, 300000000]"
  "map scale (rounded_split ex_fp (default_plan_config ex_fp) ex_plan_request) = [8, 8]"
  "map pi_venue_id (pq_planner_inputs ex_plan_request) = [''binance'', ''okx'']"
  "plan_feasible ex_fp ex_plan_request"
  by code_simp+

lemma ex_plan_grid:
  "\<forall>d \<in> set (rounded_split ex_fp (default_plan_config ex_fp) ex_plan_request). grid 8 600000000 d"
  using ex_plan_facts(1,2) by (auto simp: map_eq_Cons_conv grid_def at_scale_def)

theorem plan_splits_target_witness:
  "(\<Sum>a \<leftarrow> pl_allocations (BuildMultiVenuePlan ex_fp (default_plan_config ex_fp) ex_plan_request). dval (va_qty a)) = 6"
proof -
  have n: "length (pq_planner_inputs ex_plan_request) = 2" using arg_cong[OF ex_plan_facts(3), of length] by simp
  have t: "grid 8 600000000 (pq_target_qty ex_plan_request)" "dval (pq_target_qty ex_plan_request) = 6"
    by (simp_all add: ex_plan_request_def grid_def at_scale_def dval_def)
  show ?thesis
    using plan_splits_target[OF t(1) ex_plan_grid, of ] n t(2) ex_plan_facts(3,4) by simp
qed

section \<open>The intents that replace an intent\<close>

definition signed_target :: "exec_intent \<Rightarrow> rat" where
  "signed_target x = (if ei_side x = SIDE_BUY then dval (ei_target_qty x) else - dval (ei_target_qty x))"

definition hedged :: "exec_intent \<Rightarrow> string \<times> string" where
  "hedged x = (ei_provider_id x, in_symbol (ei_instrument x))"

text \<open>The quantities of the plan of an intent are in the range of the decimals.\<close>

definition in_range :: "fp \<Rightarrow> planner_cache \<Rightarrow> exec_intent \<Rightarrow> bool" where
  "in_range fl m x \<longleftrightarrow> (\<exists>s M k. grid s M (ei_target_qty x)
     \<and> (\<forall>d \<in> set (rounded_split fl (default_plan_config fl) (plan_request_of m x)). grid s k d) \<and> 0 \<le> k
     \<and> M + int (Suc (length (pq_planner_inputs (plan_request_of m x)))) * k \<le> max_units)"

text \<open>An intent goes where the operator's configuration, the filter and the current health allow.\<close>

definition well_routed :: "planner_cache \<Rightarrow> exec_intent \<Rightarrow> exec_intent \<Rightarrow> bool" where
  "well_routed m x y \<longleftrightarrow> y = x \<or> (\<exists>i \<in> set (GetPlannerInputsSnapshotForSymbol m (in_symbol (ei_instrument x))).
     may_serve (plan_request_of m x) i \<and> verdict m (pi_curve i) = None \<and> ei_venue y = pi_venue_id i
     \<and> ei_hedge_flow_id y = ei_hedge_flow_id x @ CHR ''|'' # ei_venue y)"

lemma child_sel [simp]:
  "hedged (fan_out_child now x a) = hedged x" "ei_side (fan_out_child now x a) = ei_side x"
  "ei_target_qty (fan_out_child now x a) = va_qty a" "ei_venue (fan_out_child now x a) = va_venue_id a"
  "ei_hedge_flow_id x \<noteq> [] \<Longrightarrow>
    ei_hedge_flow_id (fan_out_child now x a) = ei_hedge_flow_id x @ CHR ''|'' # va_venue_id a"
  by (simp_all add: fan_out_child_def Let_def hedged_def)

lemma sum_list_neg: "(\<Sum>x \<leftarrow> xs. - f x) = - (\<Sum>x \<leftarrow> xs. f x :: rat)"
  by (induction xs) simp_all

lemma routed:
  assumes r: "in_range fl m x" and c: "m = cache_run t msgs" and flow: "ei_hedge_flow_id x \<noteq> []"
  shows "\<forall>y \<in> set (route_intent fl now m x). hedged y = hedged x \<and> well_routed m x y"
    and "(\<Sum>y \<leftarrow> route_intent fl now m x. signed_target y) = signed_target x"
    and "distinct (map ei_hedge_flow_id (route_intent fl now m x))"
proof -
  let ?q = "plan_request_of m x" and ?cfg = "default_plan_config fl"
  let ?p = "BuildMultiVenuePlan fl ?cfg ?q" and ?ys = "route_intent fl now m x"
  have ok: "cache_ok m" by (simp add: c cache_ok_run)
  have q: "pq_target_qty ?q = ei_target_qty x"
    "pq_planner_inputs ?q = GetPlannerInputsSnapshotForSymbol m (in_symbol (ei_instrument x))"
    by (simp_all add: plan_request_of_def)
  obtain s M k where g: "grid s M (pq_target_qty ?q)" "\<forall>d \<in> set (rounded_split fl ?cfg ?q). grid s k d" "0 \<le> k"
    "M + int (Suc (length (pq_planner_inputs ?q))) * k \<le> max_units"
    using r unfolding in_range_def q by blast
  have "distinct (map pi_venue_id (pq_planner_inputs ?q))"
    using collected_distinct[of m "in_symbol (ei_instrument x)" "map fst (pc_curves m)" "[]"]
    unfolding q by (simp add: GetPlannerInputsSnapshotForSymbol_def distinct_map)
  note plan = plan_parts[OF g this]
  show "\<forall>y \<in> set ?ys. hedged y = hedged x \<and> well_routed m x y"
  proof (cases "?ys = [x]")
    case True
    then show ?thesis by (simp add: well_routed_def)
  next
    case False
    then have ys: "?ys = map (fan_out_child now x) (pl_allocations ?p)"
      by (auto simp: route_intent_def Let_def FanOutIntentByPlan_def split: if_splits)
    have "well_routed m x (fan_out_child now x a)" if a: "a \<in> set (pl_allocations ?p)" for a
    proof -
      obtain i where i: "i \<in> set (pq_planner_inputs ?q)" "may_serve ?q i" "va_venue_id a = pi_venue_id i"
        using plan(4) a by blast
      have "verdict m (pi_curve i) = None"
        using snapshot_sound(1)[OF ok] i(1,2) unfolding q(2) by (simp add: input_sound_def may_serve_def)
      then show ?thesis using i flow unfolding well_routed_def q(2) by auto
    qed
    then show ?thesis by (auto simp: ys)
  qed
  have split: "?ys = [x] \<or> pl_feasible ?p \<and> ?ys = map (fan_out_child now x) (pl_allocations ?p)"
    by (auto simp: route_intent_def Let_def FanOutIntentByPlan_def split: if_splits)
  then show "(\<Sum>y \<leftarrow> ?ys. signed_target y) = signed_target x"
    using plan(2) q(1) by (auto simp: signed_target_def comp_def sum_list_neg)
  have "distinct (map ei_hedge_flow_id (map (fan_out_child now x) (pl_allocations ?p)))"
    using plan(3) flow by (simp add: comp_def distinct_map inj_on_def)
  then show "distinct (map ei_hedge_flow_id ?ys)" using split by auto
qed

section \<open>The published hedges of a batch\<close>

lemma in_fanned_out: "y \<in> set (fanned_out fl now m xs) \<longleftrightarrow> (\<exists>x \<in> set xs. y \<in> set (route_intent fl now m x))"
  by (simp add: fanned_out_def)

lemma total_by_position:
  assumes "\<forall>x \<in> set xs. (\<forall>y \<in> set (f x). hedged y = hedged x) \<and> (\<Sum>y \<leftarrow> f x. g y) = (g x :: rat)"
    and "distinct (map hedged xs)"
  shows "(\<Sum>y \<leftarrow> filter (\<lambda>y. hedged y = k) (concat (map f xs)). g y) = (\<Sum>x \<leftarrow> filter (\<lambda>x. hedged x = k) xs. g x)"
  using assms
proof (induction xs)
  case (Cons x xs)
  have "filter (\<lambda>y. hedged y = k) (f x) = (if hedged x = k then f x else [])"
    using Cons.prems(1) by (induction "f x") (auto simp: filter_id_conv filter_empty_conv)
  then show ?case using Cons by simp
qed simp

lemma one_by_key: "distinct (map h xs) \<Longrightarrow> x \<in> set xs \<Longrightarrow> filter (\<lambda>y. h y = h x) xs = [x]"
proof (induction xs)
  case (Cons y ys)
  have "filter (\<lambda>z. h z = h y) ys = []" using Cons.prems(1) by (auto simp: filter_empty_conv image_iff)
  then show ?case using Cons by (auto simp: image_iff)
qed simp

text \<open>A flow with a suffix still names its position.\<close>

lemma flow_names_position:
  assumes "p @ u @ CHR ''|'' # s @ r = p @ u' @ CHR ''|'' # s' @ r'"
    and "plain_id u" "plain_id u'" "plain_id s" "plain_id s'"
    and "r = [] \<or> (\<exists>v. r = CHR ''|'' # v)" "r' = [] \<or> (\<exists>v. r' = CHR ''|'' # v)"
  shows "u = u' \<and> s = s'"
proof -
  have 1: "u = u' \<and> s @ r = s' @ r'"
    using assms(1-3) split_unique[of u "CHR ''|''" "s @ r" u' "s' @ r'"] by (simp add: plain_id_def)
  have "CHR ''|'' \<notin> set s" "CHR ''|'' \<notin> set s'" using assms(4,5) by (simp_all add: plain_id_def)
  moreover have "s @ r = s' @ r'" using 1 by blast
  ultimately have "s = s'" using assms(6,7)
  proof (elim disjE exE)
    fix v v' assume "CHR ''|'' \<notin> set s" "CHR ''|'' \<notin> set s'" "r = CHR ''|'' # v" "r' = CHR ''|'' # v'" "s @ r = s' @ r'"
    then show "s = s'" using split_unique[of s "CHR ''|''" v s' v'] by blast
  qed auto
  then show ?thesis using 1 by simp
qed

lemma distinct_concat_keys:
  assumes "\<forall>x \<in> set xs. distinct (map h (f x))"
    and "distinct xs" "\<forall>x \<in> set xs. \<forall>x' \<in> set xs. \<forall>y \<in> set (f x). \<forall>y' \<in> set (f x'). h y = h y' \<longrightarrow> x = x'"
  shows "distinct (map h (concat (map f xs)))"
  using assms
proof (induction xs)
  case (Cons x xs)
  have "h ` set (f x) \<inter> h ` (\<Union>x \<in> set xs. set (f x)) = {}" using Cons.prems(2,3) by fastforce
  then show ?case using Cons by (simp add: image_UN)
qed simp


lemma ex_no_venues:
  "rounded_split ex_fp (default_plan_config ex_fp) (plan_request_of (cache_run t []) x) = []"
proof -
  have "plan_candidates (plan_request_of (cache_run t []) x) = []"
    by (simp add: plan_candidates_def plan_request_of_def cache_run_def new_cache_def
        GetPlannerInputsSnapshotForSymbol_def map_filter_simps)
  then show ?thesis by (simp add: rounded_split_def kept_of_def kept_provisional_def Let_def)
qed

lemma no_inputs [simp]: "pq_planner_inputs (plan_request_of (cache_run t []) x) = []"
  by (simp add: plan_request_of_def cache_run_def new_cache_def GetPlannerInputsSnapshotForSymbol_def)


end
