(* ===== verification/Venue_Adapters.thy ===== *)
theory Venue_Adapters
  imports Matching_Hedge Planner_Cache "HOL-Library.Signed_Division"
begin

text \<open>
  The adapters of the external venues (\<open>venues/src/domain/venue_adapter.hpp\<close>) and the two simulated
  ones: the market simulator (\<open>infra/simulated_venue_adapter.cpp\<close>) and the adapter of backtests that
  walks a book (\<open>infra/venue_sim_adapter.cpp\<close>). An order either gets a result or throws (\<open>None\<close>).
  The sine and cosine of the C library are arguments, and so are clock readings.
\<close>

section \<open>The interface\<close>

datatype venue_type = VenueType_kCex | VenueType_kDex | VenueType_kAmm

record order_result =
  or_accepted :: bool
  or_venue_order_id :: string
  or_status :: exec_status
  or_filled_qty :: decimal
  or_remaining_qty :: decimal
  or_average_price :: decimal
  or_error_code :: string
  or_error_message :: string
  or_fee :: decimal
  or_fee_currency :: string
  or_fee_rate :: decimal
  or_slippage_bps :: int
  or_latency_ms :: int

definition empty_result :: order_result where
  "empty_result = \<lparr>or_accepted = False, or_venue_order_id = [], or_status = EXEC_UNSPECIFIED,
     or_filled_qty = dzero, or_remaining_qty = dzero, or_average_price = dzero, or_error_code = [],
     or_error_message = [], or_fee = dzero, or_fee_currency = [], or_fee_rate = dzero, or_slippage_bps = 0,
     or_latency_ms = 0\<rparr>"

definition refused :: "string \<Rightarrow> string \<Rightarrow> order_result \<Rightarrow> order_result" where
  "refused code msg r = r\<lparr>or_accepted := False, or_status := EXEC_REJECTED, or_error_code := code,
     or_error_message := msg\<rparr>"

text \<open>The calls on an adapter whose state is of type \<open>'a\<close>. Of the heartbeat the status is kept. The
  addresses in the configuration of a venue are left out.\<close>

record venue_config =
  vf_venue_id :: string
  vf_venue_symbol :: string
  vf_depth_levels :: int
  vf_curve_level :: string
  vf_stale_threshold_ms :: int
  vf_circuit_breaker_enabled :: bool
  vf_circuit_breaker_errors :: int
  vf_circuit_breaker_window_ms :: int
  vf_circuit_breaker_cooldown_ms :: int
  vf_is_active :: bool
  vf_routing_mode :: string
  vf_updated_at_ms :: int

record venue_subscription =
  vs_instrument :: instrument
  vs_venue_symbol :: string
  vs_depth_levels :: nat

record 'a adapter_ops =
  ao_Heartbeat :: "'a \<Rightarrow> connection_status"
  ao_Reconnect :: "'a \<Rightarrow> bool \<times> 'a"
  ao_SendOrder :: "exec_intent \<Rightarrow> 'a \<Rightarrow> order_result option \<times> 'a"
  ao_Subscribe :: "venue_subscription list \<Rightarrow> 'a \<Rightarrow> bool \<times> 'a"
  ao_ApplyRuntimeConfig :: "venue_config \<Rightarrow> 'a \<Rightarrow> bool \<times> 'a"

record 'a adapter =
  ad_VenueId :: string
  ad_Type :: venue_type
  ad_state :: 'a

section \<open>Snapshots\<close>

record book_level =
  bl_price :: decimal
  bl_qty :: decimal

record raw_snapshot =
  ws_venue_id :: string
  ws_venue_type :: venue_type
  ws_instrument :: instrument
  ws_venue_symbol :: string
  ws_sequence :: int
  ws_bids :: "book_level list"
  ws_asks :: "book_level list"
  ws_best_bid :: decimal
  ws_best_ask :: decimal
  ws_mid_price :: decimal
  ws_spread :: decimal
  ws_volume_24h :: decimal
  ws_maker_fee :: decimal
  ws_taker_fee :: decimal
  ws_tick_size :: decimal
  ws_lot_size :: decimal
  ws_min_notional :: decimal
  ws_min_qty :: decimal
  ws_max_qty :: decimal

section \<open>The market simulator\<close>

record trig =
  tr_sin :: "rat \<Rightarrow> rat"
  tr_cos :: "rat \<Rightarrow> rat"

record venue_profile =
  vp_base_mid_units :: int
  vp_primary_wave_units :: int
  vp_secondary_wave_units :: int
  vp_base_half_spread_units :: int
  vp_spread_wave_units :: int
  vp_price_step_units :: int
  vp_base_qty_units :: int
  vp_qty_wave_units :: int
  vp_qty_decay_units :: int
  vp_base_volume_units :: int
  vp_volume_wave_units :: int
  vp_price_scale :: int
  vp_qty_scale :: int
  vp_maker_fee :: decimal
  vp_taker_fee :: decimal
  vp_tick_size :: decimal
  vp_lot_size :: decimal
  vp_min_notional :: decimal
  vp_min_qty :: decimal
  vp_max_qty :: decimal
  vp_phase_seed :: int

definition coinbase_profile :: venue_profile where
  "coinbase_profile = \<lparr>vp_base_mid_units = 6845560, vp_primary_wave_units = 1850, vp_secondary_wave_units = 620,
     vp_base_half_spread_units = 95, vp_spread_wave_units = 30, vp_price_step_units = 1,
     vp_base_qty_units = 1950, vp_qty_wave_units = 240, vp_qty_decay_units = 85,
     vp_base_volume_units = 12940300, vp_volume_wave_units = 920000, vp_price_scale = 2, vp_qty_scale = 3,
     vp_maker_fee = mk_dec 12 4, vp_taker_fee = mk_dec 14 4, vp_tick_size = mk_dec 1 2,
     vp_lot_size = mk_dec 1 5, vp_min_notional = mk_dec 100 1, vp_min_qty = mk_dec 1 5,
     vp_max_qty = mk_dec 1200000 4, vp_phase_seed = 11\<rparr>"

definition dex_profile :: venue_profile where
  "dex_profile = \<lparr>vp_base_mid_units = 6842080, vp_primary_wave_units = 2650, vp_secondary_wave_units = 1180,
     vp_base_half_spread_units = 320, vp_spread_wave_units = 95, vp_price_step_units = 5,
     vp_base_qty_units = 860, vp_qty_wave_units = 140, vp_qty_decay_units = 42,
     vp_base_volume_units = 3875600, vp_volume_wave_units = 260000, vp_price_scale = 2, vp_qty_scale = 3,
     vp_maker_fee = mk_dec 0 4, vp_taker_fee = mk_dec 30 4, vp_tick_size = mk_dec 1 2,
     vp_lot_size = mk_dec 1 5, vp_min_notional = mk_dec 2500 2, vp_min_qty = mk_dec 1 5,
     vp_max_qty = mk_dec 350000 4, vp_phase_seed = 23\<rparr>"

definition binance_profile :: venue_profile where
  "binance_profile = \<lparr>vp_base_mid_units = 6844210, vp_primary_wave_units = 2100, vp_secondary_wave_units = 780,
     vp_base_half_spread_units = 60, vp_spread_wave_units = 25, vp_price_step_units = 10,
     vp_base_qty_units = 4200, vp_qty_wave_units = 520, vp_qty_decay_units = 180,
     vp_base_volume_units = 43820500, vp_volume_wave_units = 1500000, vp_price_scale = 2, vp_qty_scale = 3,
     vp_maker_fee = mk_dec 10 4, vp_taker_fee = mk_dec 10 4, vp_tick_size = mk_dec 10 2,
     vp_lot_size = mk_dec 1 4, vp_min_notional = mk_dec 1000 2, vp_min_qty = mk_dec 1 4,
     vp_max_qty = mk_dec 5000000 4, vp_phase_seed = 5\<rparr>"

definition other_profile :: venue_profile where
  "other_profile = \<lparr>vp_base_mid_units = 6843700, vp_primary_wave_units = 1650, vp_secondary_wave_units = 550,
     vp_base_half_spread_units = 110, vp_spread_wave_units = 35, vp_price_step_units = 5,
     vp_base_qty_units = 1500, vp_qty_wave_units = 220, vp_qty_decay_units = 70,
     vp_base_volume_units = 9400500, vp_volume_wave_units = 640000, vp_price_scale = 2, vp_qty_scale = 3,
     vp_maker_fee = mk_dec 12 4, vp_taker_fee = mk_dec 16 4, vp_tick_size = mk_dec 5 2,
     vp_lot_size = mk_dec 1 4, vp_min_notional = mk_dec 1500 2, vp_min_qty = mk_dec 1 4,
     vp_max_qty = mk_dec 1500000 4, vp_phase_seed = 31\<rparr>"

definition build_venue_profile :: "string \<Rightarrow> venue_type \<Rightarrow> venue_profile" where
  "build_venue_profile venue ty =
     (if ContainsKeyword venue ''coinbase'' then coinbase_profile
      else if ContainsKeyword venue ''uniswap'' \<or> ContainsKeyword venue ''curve''
        \<or> ty = VenueType_kDex \<or> ty = VenueType_kAmm then dex_profile
      else if ContainsKeyword venue ''binance'' then binance_profile else other_profile)"

record sim_adapter =
  sa_venue_id :: string
  sa_venue_type :: venue_type
  sa_connected :: bool
  sa_consecutive_errors :: nat
  sa_reconnect_attempts :: nat
  sa_sequence :: int
  sa_mid_price_units :: int
  sa_subscriptions :: "venue_subscription list"

definition new_sim_adapter :: "string \<Rightarrow> venue_type \<Rightarrow> sim_adapter" where
  "new_sim_adapter venue ty =
     \<lparr>sa_venue_id = venue, sa_venue_type = ty, sa_connected = False, sa_consecutive_errors = 0,
      sa_reconnect_attempts = 0, sa_sequence = 0,
      sa_mid_price_units = vp_base_mid_units (build_venue_profile venue ty), sa_subscriptions = []\<rparr>"

definition sim_Connect :: "sim_adapter \<Rightarrow> bool \<times> sim_adapter" where
  "sim_Connect a = (True, a\<lparr>sa_connected := True, sa_consecutive_errors := 0\<rparr>)"

definition sim_Subscribe :: "venue_subscription list \<Rightarrow> sim_adapter \<Rightarrow> bool \<times> sim_adapter" where
  "sim_Subscribe ss a =
     (if \<not> sa_connected a then (False, a\<lparr>sa_consecutive_errors := Suc (sa_consecutive_errors a)\<rparr>)
      else (True, a\<lparr>sa_subscriptions := ss, sa_consecutive_errors := 0\<rparr>))"

definition sim_Reconnect :: "sim_adapter \<Rightarrow> bool \<times> sim_adapter" where
  "sim_Reconnect a = (True, a\<lparr>sa_reconnect_attempts := Suc (sa_reconnect_attempts a), sa_connected := True,
     sa_consecutive_errors := 0\<rparr>)"

definition sim_Heartbeat :: "sim_adapter \<Rightarrow> connection_status" where
  "sim_Heartbeat a = (if sa_connected a then kConnected else kDisconnected)"

definition round_to_step :: "int \<Rightarrow> int \<Rightarrow> int" where
  "round_to_step u step = (if step \<le> 1 then u else (u + step sdiv 2) sdiv step * step)"

definition wave_units :: "fp \<Rightarrow> trig \<Rightarrow> int \<Rightarrow> int \<Rightarrow> rat \<Rightarrow> int \<Rightarrow> bool \<Rightarrow> int" where
  "wave_units fl tr seq seed speed amplitude use_sine =
     (if amplitude = 0 then 0
      else let phase = fp_round fl (of_int (seq + seed));
               x = fp_round fl (phase * fp_round fl speed);
               osc = (if use_sine then tr_sin tr x else tr_cos tr x)
           in round_away (fp_round fl (osc * of_int amplitude)))"

definition compute_mid_price_units :: "fp \<Rightarrow> trig \<Rightarrow> venue_profile \<Rightarrow> int \<Rightarrow> int" where
  "compute_mid_price_units fl tr p seq =
     (let drift = wave_units fl tr seq (vp_phase_seed p) (43 / 100) (vp_primary_wave_units p) True +
                  wave_units fl tr seq (vp_phase_seed p * 2) (16 / 100) (vp_secondary_wave_units p) False
      in max (vp_price_step_units p) (round_to_step (vp_base_mid_units p + drift) (vp_price_step_units p)))"

definition compute_half_spread_units :: "fp \<Rightarrow> trig \<Rightarrow> venue_profile \<Rightarrow> int \<Rightarrow> int" where
  "compute_half_spread_units fl tr p seq =
     max (vp_price_step_units p) (vp_base_half_spread_units p +
       \<bar>wave_units fl tr seq (vp_phase_seed p * 3) (29 / 100) (vp_spread_wave_units p) True\<bar>)"

definition compute_volume_units :: "fp \<Rightarrow> trig \<Rightarrow> venue_profile \<Rightarrow> int \<Rightarrow> int" where
  "compute_volume_units fl tr p seq =
     max (vp_base_volume_units p sdiv 2) (vp_base_volume_units p +
       wave_units fl tr seq (vp_phase_seed p * 5) (8 / 100) (vp_volume_wave_units p) False)"

definition default_instrument :: instrument where
  "default_instrument = \<lparr>in_symbol = ''BTC/USDT'', in_base = ''BTC'', in_quote = ''USDT''\<rparr>"

definition ensure_instrument_fields :: "instrument \<Rightarrow> instrument" where
  "ensure_instrument_fields i =
     (let i = (if in_symbol i = [] \<and> in_base i \<noteq> [] \<and> in_quote i \<noteq> []
               then i\<lparr>in_symbol := in_base i @ ''/'' @ in_quote i\<rparr> else i);
          i = (if in_symbol i \<noteq> [] \<and> (in_base i = [] \<or> in_quote i = [])
               then (case split_at CHR ''/'' (in_symbol i) of
                   None \<Rightarrow> i
                 | Some (b, q) \<Rightarrow> i\<lparr>in_base := if in_base i = [] then b else in_base i,
                                   in_quote := if in_quote i = [] then q else in_quote i\<rparr>)
               else i)
      in if in_symbol i = [] then default_instrument else i)"

definition derive_venue_symbol :: "instrument \<Rightarrow> string" where
  "derive_venue_symbol i =
     (if in_base i \<noteq> [] \<and> in_quote i \<noteq> [] then in_base i @ in_quote i
      else let s = filter (\<lambda>c. c \<noteq> CHR ''/'') (in_symbol i) in if s = [] then ''BTCUSDT'' else s)"

text \<open>A request for a snapshot is a subscription; a missing depth is zero.\<close>

definition sim_ResolveInstrument :: "venue_subscription \<Rightarrow> sim_adapter \<Rightarrow> instrument" where
  "sim_ResolveInstrument q a =
     (if in_symbol (vs_instrument q) \<noteq> [] \<or> in_base (vs_instrument q) \<noteq> [] \<or> in_quote (vs_instrument q) \<noteq> []
      then ensure_instrument_fields (vs_instrument q)
      else case sa_subscriptions a of
             s # _ \<Rightarrow> ensure_instrument_fields (vs_instrument s)
           | [] \<Rightarrow> default_instrument)"

definition sim_ResolveVenueSymbol :: "venue_subscription \<Rightarrow> sim_adapter \<Rightarrow> string" where
  "sim_ResolveVenueSymbol q a =
     (if vs_venue_symbol q \<noteq> [] then vs_venue_symbol q
      else case sa_subscriptions a of
             s # _ \<Rightarrow> if vs_venue_symbol s \<noteq> [] then vs_venue_symbol s
                      else derive_venue_symbol (sim_ResolveInstrument q a)
           | [] \<Rightarrow> derive_venue_symbol (sim_ResolveInstrument q a))"

definition sim_bid :: "fp \<Rightarrow> trig \<Rightarrow> venue_profile \<Rightarrow> int \<Rightarrow> int \<Rightarrow> int \<Rightarrow> nat \<Rightarrow> book_level" where
  "sim_bid fl tr p seq mid half i =
     (let offset = half + int i * vp_price_step_units p;
          qty = max 25 (vp_base_qty_units p +
            wave_units fl tr (seq + int i) (vp_phase_seed p + int i) (31 / 100) (vp_qty_wave_units p) True -
            int i * vp_qty_decay_units p)
      in \<lparr>bl_price = mk_dec (max (vp_price_step_units p) (mid - offset)) (vp_price_scale p),
          bl_qty = mk_dec qty (vp_qty_scale p)\<rparr>)"

definition sim_ask :: "fp \<Rightarrow> trig \<Rightarrow> venue_profile \<Rightarrow> int \<Rightarrow> int \<Rightarrow> int \<Rightarrow> nat \<Rightarrow> book_level" where
  "sim_ask fl tr p seq mid half i =
     (let offset = half + int i * vp_price_step_units p;
          qty = max 25 (vp_base_qty_units p +
            wave_units fl tr (seq + int i + 3) (vp_phase_seed p + int i + 7) (27 / 100)
              (vp_qty_wave_units p sdiv 2) False -
            int i * max 15 (vp_qty_decay_units p - 10))
      in \<lparr>bl_price = mk_dec (mid + offset) (vp_price_scale p), bl_qty = mk_dec qty (vp_qty_scale p)\<rparr>)"

definition sim_RequestSnapshot ::
    "fp \<Rightarrow> trig \<Rightarrow> venue_subscription \<Rightarrow> sim_adapter \<Rightarrow> raw_snapshot option \<times> sim_adapter" where
  "sim_RequestSnapshot fl tr q a =
     (if \<not> sa_connected a then (None, a\<lparr>sa_consecutive_errors := Suc (sa_consecutive_errors a)\<rparr>)
      else let depth = (if vs_depth_levels q = 0 then 20 else vs_depth_levels q);
               p = build_venue_profile (sa_venue_id a) (sa_venue_type a);
               seq = sa_sequence a + 1;
               mid = compute_mid_price_units fl tr p seq;
               half = compute_half_spread_units fl tr p seq;
               bids = map (sim_bid fl tr p seq mid half) [0..<depth];
               asks = map (sim_ask fl tr p seq mid half) [0..<depth];
               bb = bl_price (hd bids); ba = bl_price (hd asks)
           in (Some \<lparr>ws_venue_id = sa_venue_id a, ws_venue_type = sa_venue_type a,
                 ws_instrument = sim_ResolveInstrument q a, ws_venue_symbol = sim_ResolveVenueSymbol q a,
                 ws_sequence = seq, ws_bids = bids, ws_asks = asks, ws_best_bid = bb, ws_best_ask = ba,
                 ws_mid_price = mk_dec ((units bb + units ba) sdiv 2) (scale bb), ws_spread = dsub ba bb,
                 ws_volume_24h = mk_dec (compute_volume_units fl tr p seq) (vp_qty_scale p),
                 ws_maker_fee = vp_maker_fee p, ws_taker_fee = vp_taker_fee p, ws_tick_size = vp_tick_size p,
                 ws_lot_size = vp_lot_size p, ws_min_notional = vp_min_notional p, ws_min_qty = vp_min_qty p,
                 ws_max_qty = vp_max_qty p\<rparr>,
               a\<lparr>sa_sequence := seq, sa_mid_price_units := mid\<rparr>))"

definition order_id_suffix :: "exec_intent \<Rightarrow> string" where
  "order_id_suffix i = (if ei_intent_id i = [] then ei_client_order_id i else ei_intent_id i)"

definition real_limit :: "exec_intent \<Rightarrow> decimal option" where
  "real_limit i = (case ei_limit_price i of Some p \<Rightarrow> if units p \<noteq> 0 then Some p else None | None \<Rightarrow> None)"

definition sim_SendOrder :: "exec_intent \<Rightarrow> sim_adapter \<Rightarrow> order_result option \<times> sim_adapter" where
  "sim_SendOrder i a =
     (let r = empty_result\<lparr>or_venue_order_id := ''SIM-'' @ order_id_suffix i\<rparr> in
      if \<not> sa_connected a
      then (Some (refused ''VENUE_DISCONNECTED'' ''Adapter is disconnected'' r),
            a\<lparr>sa_consecutive_errors := Suc (sa_consecutive_errors a)\<rparr>)
      else (Some (r\<lparr>or_accepted := True, or_status := EXEC_FILLED, or_filled_qty := ei_target_qty i,
                    or_remaining_qty := mk_dec 0 (scale (ei_target_qty i)),
                    or_average_price := (case real_limit i of Some p \<Rightarrow> p
                      | None \<Rightarrow> mk_dec (sa_mid_price_units a)
                          (vp_price_scale (build_venue_profile (sa_venue_id a) (sa_venue_type a))))\<rparr>),
            a\<lparr>sa_consecutive_errors := 0\<rparr>))"

definition sim_ops :: "sim_adapter adapter_ops" where
  "sim_ops = \<lparr>ao_Heartbeat = sim_Heartbeat, ao_Reconnect = sim_Reconnect, ao_SendOrder = sim_SendOrder,
     ao_Subscribe = sim_Subscribe, ao_ApplyRuntimeConfig = (\<lambda>_ a. (True, a))\<rparr>"

section \<open>The adapter of backtests\<close>

record order_policy =
  op_fill_ratio :: rat
  op_slippage_units :: int
  op_forced_status :: exec_status
  op_reject_code :: string
  op_reject_message :: string
  op_walk_book :: bool
  op_taker_fee_bps :: int
  op_fee_currency :: string
  op_latency_ms :: int
  op_reference_mid_units :: int
  op_enforce_limit_price :: bool

definition default_policy :: order_policy where
  "default_policy = \<lparr>op_fill_ratio = 1, op_slippage_units = 0, op_forced_status = EXEC_UNSPECIFIED,
     op_reject_code = [], op_reject_message = [], op_walk_book = False, op_taker_fee_bps = 0,
     op_fee_currency = [], op_latency_ms = 0, op_reference_mid_units = 0, op_enforce_limit_price = True\<rparr>"

record vsim_adapter =
  va_inner :: sim_adapter
  va_default_policy :: order_policy
  va_per_intent_policies :: "order_policy umap"
  va_last_snapshot :: "raw_snapshot option"
  va_sent_orders :: nat

definition new_vsim_adapter :: "string \<Rightarrow> venue_type \<Rightarrow> vsim_adapter" where
  "new_vsim_adapter venue ty = \<lparr>va_inner = new_sim_adapter venue ty, va_default_policy = default_policy,
     va_per_intent_policies = [], va_last_snapshot = None, va_sent_orders = 0\<rparr>"

definition dec_from_units :: "int \<Rightarrow> int \<Rightarrow> decimal" where
  "dec_from_units u s = mk_dec u (max 0 s)"

definition SetDefaultOrderPolicy :: "order_policy \<Rightarrow> vsim_adapter \<Rightarrow> vsim_adapter" where
  "SetDefaultOrderPolicy p a = a\<lparr>va_default_policy := p\<lparr>op_fill_ratio := clamp01 (op_fill_ratio p)\<rparr>\<rparr>"

definition SetOrderPolicyFor :: "string \<Rightarrow> order_policy \<Rightarrow> vsim_adapter \<Rightarrow> vsim_adapter" where
  "SetOrderPolicyFor k p a = (if k = [] then a
     else a\<lparr>va_per_intent_policies := put k (p\<lparr>op_fill_ratio := clamp01 (op_fill_ratio p)\<rparr>) (va_per_intent_policies a)\<rparr>)"

definition vsim_RequestSnapshot ::
    "fp \<Rightarrow> trig \<Rightarrow> venue_subscription \<Rightarrow> vsim_adapter \<Rightarrow> raw_snapshot option \<times> vsim_adapter" where
  "vsim_RequestSnapshot fl tr q a =
     (let (s, inner) = sim_RequestSnapshot fl tr q (va_inner a);
          a = a\<lparr>va_inner := inner\<rparr>
      in (s, if s = None then a else a\<lparr>va_last_snapshot := s\<rparr>))"

definition ResolvePolicy :: "exec_intent \<Rightarrow> vsim_adapter \<Rightarrow> order_policy" where
  "ResolvePolicy i a =
     (let k = order_id_suffix i in
      if k = [] then va_default_policy a else find_or (va_default_policy a) (va_per_intent_policies a) k)"

record book_walk =
  bw_filled_units :: int
  bw_remaining_units :: int
  bw_vwap_price_units :: int
  bw_price_scale :: int
  bw_side_empty :: bool

text \<open>Remaining quantity, filled quantity and notional over the levels. Levels on another scale than the
  target are skipped.\<close>

fun walk_levels :: "book_level list \<Rightarrow> int \<Rightarrow> int \<times> int \<times> int \<Rightarrow> int \<times> int \<times> int" where
  "walk_levels [] sc st = st"
| "walk_levels (l # ls) sc (remaining, filled, notional) =
     (if remaining \<le> 0 then (remaining, filled, notional)
      else if units (bl_qty l) \<le> 0 \<or> scale (bl_qty l) \<noteq> sc then walk_levels ls sc (remaining, filled, notional)
      else let take = min (units (bl_qty l)) remaining
           in walk_levels ls sc (remaining - take, filled + take,
                i128 (notional + take * units (bl_price l))))"

definition walk_book :: "book_level list \<Rightarrow> int \<Rightarrow> int \<Rightarrow> book_walk" where
  "walk_book ls target sc =
     (if ls = [] then \<lparr>bw_filled_units = 0, bw_remaining_units = target, bw_vwap_price_units = 0,
                       bw_price_scale = 0, bw_side_empty = True\<rparr>
      else let (remaining, filled, notional) = walk_levels ls sc (target, 0, 0)
           in \<lparr>bw_filled_units = filled, bw_remaining_units = max 0 (target - filled),
               bw_vwap_price_units = (if 0 < filled then i64 (notional sdiv filled) else 0),
               bw_price_scale = scale (bl_price (hd ls)), bw_side_empty = False\<rparr>)"

definition compute_slippage_bps :: "fp \<Rightarrow> int \<Rightarrow> int \<Rightarrow> side \<Rightarrow> int" where
  "compute_slippage_bps fl avg ref sd =
     (if ref = 0 \<or> avg = 0 then 0
      else let a = fp_round fl (of_int avg); b = fp_round fl (of_int ref);
               slip = fp_round fl (fp_round fl (a - b) / b);
               slip = (if sd = SIDE_SELL then - slip else slip)
           in i32 (round_away (fp_round fl (slip * 10000))))"

definition reference_units :: "order_policy \<Rightarrow> exec_intent \<Rightarrow> int \<Rightarrow> int" where
  "reference_units pol i mid =
     (if op_reference_mid_units pol \<noteq> 0 then op_reference_mid_units pol
      else case real_limit i of Some p \<Rightarrow> units p | None \<Rightarrow> mid)"

text \<open>Slippage, fee and fee currency of a result whose quantity and price are set.\<close>

definition enrich :: "fp \<Rightarrow> order_policy \<Rightarrow> exec_intent \<Rightarrow> int \<Rightarrow> int \<Rightarrow> order_result \<Rightarrow> order_result" where
  "enrich fl pol i filled ref r =
     (let avg = or_average_price r;
          r = r\<lparr>or_slippage_bps := compute_slippage_bps fl (units avg) ref (ei_side i)\<rparr>;
          r = (if op_taker_fee_bps pol \<noteq> 0 \<and> 0 < filled
               then r\<lparr>or_fee := dec_from_units
                        (i64 (i128 (i128 (filled * units avg) * op_taker_fee_bps pol) sdiv 10000))
                        (scale avg + scale (ei_target_qty i)),
                      or_fee_rate := dec_from_units (op_taker_fee_bps pol) 4\<rparr>
               else r)
      in r\<lparr>or_fee_currency := (if op_fee_currency pol = [] then in_quote (ei_instrument i)
                              else op_fee_currency pol)\<rparr>)"

definition with_status :: "exec_status \<Rightarrow> order_result \<Rightarrow> order_result" where
  "with_status st r = r\<lparr>or_status := st, or_accepted := (st \<noteq> EXEC_REJECTED \<and> st \<noteq> EXEC_CANCELLED)\<rparr>"

definition forced :: "order_policy \<Rightarrow> exec_status \<Rightarrow> exec_status" where
  "forced pol st = (if op_forced_status pol = EXEC_UNSPECIFIED then st else op_forced_status pol)"

text \<open>An order that walks the book of the last snapshot.\<close>

definition walk_result :: "fp \<Rightarrow> order_policy \<Rightarrow> exec_intent \<Rightarrow> raw_snapshot option \<Rightarrow> order_result \<Rightarrow> order_result" where
  "walk_result fl pol i snap r =
     (case snap of
        None \<Rightarrow> refused ''VENUE_SIM_NO_SNAPSHOT''
          ''walk_book requested but no historical snapshot has been injected'' r
      | Some s \<Rightarrow>
          let target = ei_target_qty i; buy = (ei_side i \<noteq> SIDE_SELL);
              w = walk_book (if buy then ws_asks s else ws_bids s) (units target) (scale target);
              unfilled = dec_from_units (units target) (scale target)
          in if bw_side_empty w \<or> bw_filled_units w = 0
             then (refused ''INSUFFICIENT_LIQUIDITY'' ''VenueSim book side has no fillable liquidity'' r)
                    \<lparr>or_remaining_qty := unfilled\<rparr>
             else if op_enforce_limit_price pol \<and>
                  (case real_limit i of None \<Rightarrow> False | Some p \<Rightarrow>
                     if buy then units p < bw_vwap_price_units w else bw_vwap_price_units w < units p)
             then r\<lparr>or_accepted := False, or_status := EXEC_CANCELLED, or_error_code := ''PRICE_LIMIT_EXCEEDED'',
                    or_error_message := ''VenueSim VWAP breached intent limit_price'', or_remaining_qty := unfilled\<rparr>
             else let r = r\<lparr>or_filled_qty := dec_from_units (bw_filled_units w) (scale target),
                            or_remaining_qty := dec_from_units (bw_remaining_units w) (scale target),
                            or_average_price := dec_from_units
                              (i64 (bw_vwap_price_units w + op_slippage_units pol)) (bw_price_scale w)\<rparr>
                  in with_status (forced pol (if bw_remaining_units w = 0 then EXEC_FILLED else EXEC_PARTIALLY_FILLED))
                       (enrich fl pol i (bw_filled_units w) (reference_units pol i (units (ws_mid_price s))) r))"

text \<open>An order that fills a fraction of its target; without a limit price it executes at the price of
  the market simulator.\<close>

definition ratio_result :: "fp \<Rightarrow> order_policy \<Rightarrow> exec_intent \<Rightarrow> order_result option \<Rightarrow> order_result \<Rightarrow> order_result" where
  "ratio_result fl pol i inner r =
     (let target = ei_target_qty i;
          filled = i64 (round_away (fp_round fl (fp_round fl (of_int (units target)) * clamp01 (op_fill_ratio pol))));
          remaining = max 0 (i64 (units target - filled));
          r = r\<lparr>or_filled_qty := dec_from_units filled (scale target),
                or_remaining_qty := dec_from_units remaining (scale target)\<rparr>;
          finish = (\<lambda>p r. with_status (forced pol (if filled = 0 then EXEC_CANCELLED
                           else if remaining = 0 then EXEC_FILLED else EXEC_PARTIALLY_FILLED))
             (enrich fl pol i filled (reference_units pol i 0)
               (r\<lparr>or_average_price := dec_from_units (i64 (units p + op_slippage_units pol)) (scale p)\<rparr>)))
      in case real_limit i of
           Some p \<Rightarrow> finish p r
         | None \<Rightarrow> (case inner of
               Some x \<Rightarrow> if or_accepted x then finish (or_average_price x) r
                         else refused (if or_error_code x = [] then ''VENUE_SIM_DISCONNECTED'' else or_error_code x)
                                (or_error_message x) r
             | None \<Rightarrow> r))"

definition BuildResult :: "fp \<Rightarrow> exec_intent \<Rightarrow> order_policy \<Rightarrow> vsim_adapter \<Rightarrow> order_result \<times> vsim_adapter" where
  "BuildResult fl i pol a =
     (let r = empty_result\<lparr>or_venue_order_id := ''VSIM-'' @ order_id_suffix i, or_latency_ms := op_latency_ms pol\<rparr> in
      if op_reject_code pol \<noteq> [] \<or> op_reject_message pol \<noteq> []
      then (refused (if op_reject_code pol = [] then ''VENUE_SIM_REJECTED'' else op_reject_code pol)
              (op_reject_message pol) r, a)
      else if op_walk_book pol then (walk_result fl pol i (va_last_snapshot a) r, a)
      else if real_limit i \<noteq> None then (ratio_result fl pol i None r, a)
      else let (x, inner) = sim_SendOrder i (va_inner a)
           in (ratio_result fl pol i x r, a\<lparr>va_inner := inner\<rparr>))"

definition vsim_SendOrder :: "fp \<Rightarrow> exec_intent \<Rightarrow> vsim_adapter \<Rightarrow> order_result option \<times> vsim_adapter" where
  "vsim_SendOrder fl i a =
     (if sim_Heartbeat (va_inner a) = kDisconnected
      then (Some (refused ''VENUE_SIM_DISCONNECTED'' ''VenueSim adapter is disconnected''
              (empty_result\<lparr>or_venue_order_id := ''VSIM-'' @ order_id_suffix i\<rparr>)), a)
      else let (r, a) = BuildResult fl i (ResolvePolicy i a) a
           in (Some r, a\<lparr>va_sent_orders := Suc (va_sent_orders a)\<rparr>))"

definition vsim_Reconnect :: "vsim_adapter \<Rightarrow> bool \<times> vsim_adapter" where
  "vsim_Reconnect a = (let (ok, inner) = sim_Reconnect (va_inner a) in (ok, a\<lparr>va_inner := inner\<rparr>))"

definition vsim_Subscribe :: "venue_subscription list \<Rightarrow> vsim_adapter \<Rightarrow> bool \<times> vsim_adapter" where
  "vsim_Subscribe ss a = (let (ok, inner) = sim_Subscribe ss (va_inner a) in (ok, a\<lparr>va_inner := inner\<rparr>))"

definition vsim_ops :: "fp \<Rightarrow> vsim_adapter adapter_ops" where
  "vsim_ops fl = \<lparr>ao_Heartbeat = (\<lambda>a. sim_Heartbeat (va_inner a)), ao_Reconnect = vsim_Reconnect,
     ao_SendOrder = vsim_SendOrder fl, ao_Subscribe = vsim_Subscribe,
     ao_ApplyRuntimeConfig = (\<lambda>_ a. (True, a))\<rparr>"

end
