(* ===== verification/Venue_Execution.thy ===== *)
theory Venue_Execution
  imports Venue_Adapters
begin

text \<open>
  How an intent becomes an order and a report: the choice of the adapter (\<open>find_adapter\<close> of
  \<open>venues/src/app/venues_loop.cpp\<close>), the child intent and the report
  (\<open>app/execute_on_venue.cpp\<close>) and the topics a report is published to
  (\<open>infra/execution_report_producer.cpp\<close>). Generated identifiers and the clock are arguments.
\<close>

section \<open>Reports\<close>

text \<open>A report with its envelope. The tags are those a backtest adds.\<close>

record venue_report = exec_report +
  vr_source :: string
  vr_correlation_id :: string
  vr_partition_key :: string
  vr_tags :: "string umap"
  vr_slippage_bps :: int

record report_ids =
  ri_now :: timestamp
  ri_report_id :: string

section \<open>Symbols\<close>

definition trim_space :: "string \<Rightarrow> string" where
  "trim_space s = rev (dropWhile is_space (rev (dropWhile is_space s)))"

definition normalize_venue_symbol :: "string \<Rightarrow> string" where
  "normalize_venue_symbol s = filter (\<lambda>c. \<not> is_space c) (filter (\<lambda>c. c \<noteq> CHR ''/'') s)"

definition normalize_instrument :: "instrument \<Rightarrow> instrument" where
  "normalize_instrument i =
     (if in_symbol i \<noteq> [] then i
      else if in_base i \<noteq> [] \<and> in_quote i \<noteq> [] then i\<lparr>in_symbol := in_base i @ ''/'' @ in_quote i\<rparr> else i)"

definition canonical_symbol :: "instrument \<Rightarrow> string" where
  "canonical_symbol i =
     (if in_symbol i \<noteq> [] then in_symbol i
      else if in_base i \<noteq> [] \<and> in_quote i \<noteq> [] then in_base i @ ''/'' @ in_quote i else [])"

definition default_venue_symbol :: "instrument \<Rightarrow> string" where
  "default_venue_symbol i =
     (if in_base i \<noteq> [] \<and> in_quote i \<noteq> [] then in_base i @ in_quote i
      else normalize_venue_symbol (canonical_symbol i))"

text \<open>\<open>venue|symbol=name\<close> entries separated by commas, semicolons and line ends.\<close>

fun symbol_items :: "string \<Rightarrow> string list" where
  "symbol_items [] = [[]]"
| "symbol_items (c # cs) =
     (if c = CHR '','' \<or> c = CHR '';'' \<or> c = CHR 0x0A then [] # symbol_items cs
      else case symbol_items cs of [] \<Rightarrow> [[c]] | x # xs \<Rightarrow> (c # x) # xs)"

definition symbol_entry :: "string \<Rightarrow> (string \<times> string) option" where
  "symbol_entry item =
     (case split_at CHR ''='' (trim_space item) of
        None \<Rightarrow> None
      | Some (l, r) \<Rightarrow>
          let lhs = trim_space l; rhs = normalize_venue_symbol (trim_space r)
          in if lhs = [] \<or> rhs = [] then None else Some (lhs, rhs))"

definition parse_symbol_map :: "string \<Rightarrow> string umap" where
  "parse_symbol_map text = fold (\<lambda>(k, v). put k v) (List.map_filter symbol_entry (symbol_items text)) []"

section \<open>Executing on a venue\<close>

record execute_on_venue =
  ev_symbol_map :: "string umap"
  ev_runtime_symbol_map :: "string umap"

definition new_execute_on_venue :: "env \<Rightarrow> execute_on_venue" where
  "new_execute_on_venue e = \<lparr>ev_symbol_map = parse_symbol_map (env_get_string e ''VENUE_SYMBOL_MAP'' []),
     ev_runtime_symbol_map = []\<rparr>"

definition SetVenueSymbolOverride :: "string \<Rightarrow> string \<Rightarrow> execute_on_venue \<Rightarrow> execute_on_venue" where
  "SetVenueSymbolOverride venue s x =
     (if venue = [] then x
      else let n = normalize_venue_symbol s
           in if n = [] then x\<lparr>ev_runtime_symbol_map := erase venue (ev_runtime_symbol_map x)\<rparr>
              else x\<lparr>ev_runtime_symbol_map := put venue n (ev_runtime_symbol_map x)\<rparr>)"

fun first_some :: "'a option list \<Rightarrow> 'a option" where
  "first_some [] = None"
| "first_some (Some x # xs) = Some x"
| "first_some (None # xs) = first_some xs"

definition ResolveVenueSymbol :: "execute_on_venue \<Rightarrow> exec_intent \<Rightarrow> string \<Rightarrow> string" where
  "ResolveVenueSymbol x i venue =
     (if ei_venue_symbol i \<noteq> [] then normalize_venue_symbol (ei_venue_symbol i)
      else let s = canonical_symbol (ei_instrument i)
           in case first_some
               [if venue \<noteq> [] then find (ev_runtime_symbol_map x) venue else None,
                if venue \<noteq> [] \<and> s \<noteq> [] then find (ev_symbol_map x) (venue @ ''|'' @ s) else None,
                if venue \<noteq> [] \<and> s \<noteq> [] then find (ev_symbol_map x) (venue @ '':'' @ s) else None,
                if s \<noteq> [] then find (ev_symbol_map x) s else None] of
             Some v \<Rightarrow> v
           | None \<Rightarrow> default_venue_symbol (ei_instrument i))"

definition BuildChildIntent :: "execute_on_venue \<Rightarrow> exec_intent \<Rightarrow> 'a adapter option \<Rightarrow> exec_intent" where
  "BuildChildIntent x i ad =
     (let c = (case ad of None \<Rightarrow> i | Some a \<Rightarrow> if ad_VenueId a \<noteq> [] then i\<lparr>ei_venue := ad_VenueId a\<rparr> else i);
          c = c\<lparr>ei_instrument := normalize_instrument (ei_instrument i)\<rparr>;
          s = ResolveVenueSymbol x c (ei_venue c);
          c = (if s \<noteq> [] then c\<lparr>ei_venue_symbol := s\<rparr> else c);
          c = (if ei_client_order_id c = [] \<and> ei_intent_id c \<noteq> []
               then c\<lparr>ei_client_order_id := ei_intent_id c\<rparr> else c);
          c = (if ei_strategy c = EXEC_STRATEGY_UNSPECIFIED
               then c\<lparr>ei_strategy := if real_limit c \<noteq> None then EXEC_STRATEGY_LIMIT else EXEC_STRATEGY_MARKET\<rparr>
               else c)
      in if ei_tif c = TIF_UNSPECIFIED
         then (if (case ad of None \<Rightarrow> False | Some a \<Rightarrow> ad_Type a = VenueType_kDex \<or> ad_Type a = VenueType_kAmm)
               then c\<lparr>ei_tif := TIF_IOC\<rparr>
               else if real_limit c \<noteq> None then c\<lparr>ei_tif := TIF_GTC\<rparr> else c)
         else c)"

definition intent_correlation :: "exec_intent \<Rightarrow> string" where
  "intent_correlation i =
     (if em_correlation_id (ei_meta i) = [] then ei_intent_id i else em_correlation_id (ei_meta i))"

definition make_execution_report ::
    "report_ids \<Rightarrow> exec_intent \<Rightarrow> string \<Rightarrow> order_result \<Rightarrow> venue_report" where
  "make_execution_report ids i venue r =
     \<lparr>xr_ts_event = Some (ri_now ids), xr_report_id = ri_report_id ids, xr_intent_id = ei_intent_id i,
      xr_hedge_flow_id = [], xr_venue = (if venue = [] then ei_venue i else venue),
      xr_instrument = ei_instrument i, xr_venue_symbol = ei_venue_symbol i,
      xr_venue_order_id = or_venue_order_id r, xr_client_order_id = ei_client_order_id i,
      xr_status = or_status r, xr_filled_qty = or_filled_qty r, xr_remaining_qty = or_remaining_qty r,
      xr_average_price = or_average_price r,
      xr_fee_total = (if units (or_fee r) \<noteq> 0 \<or> or_fee_currency r \<noteq> []
        then Some \<lparr>fe_cost = Some \<lparr>mo_currency = or_fee_currency r, mo_amount = Some (or_fee r)\<rparr>\<rparr> else None),
      xr_error = (if or_error_code r \<noteq> [] \<or> or_error_message r \<noteq> []
        then Some (mk_error (or_error_code r) (or_error_message r)) else None),
      vr_source = ''venues'', vr_correlation_id = intent_correlation i, vr_partition_key = ei_intent_id i,
      vr_tags = [], vr_slippage_bps = or_slippage_bps r\<rparr>"

text \<open>The report and the state of the adapter afterwards; an exception of the adapter leaves no report.\<close>

definition ExecuteOnVenue_Run ::
    "'a adapter_ops \<Rightarrow> report_ids \<Rightarrow> execute_on_venue \<Rightarrow> exec_intent \<Rightarrow> 'a adapter option
      \<Rightarrow> venue_report option \<times> 'a adapter option" where
  "ExecuteOnVenue_Run ops ids x i ad =
     (let c = BuildChildIntent x i ad in
      case ad of
        None \<Rightarrow> (Some (make_execution_report ids c (ei_venue c) (refused ''VENUE_NOT_FOUND''
                  (''No venue adapter registered for venue='' @ ei_venue c) empty_result)), None)
      | Some a \<Rightarrow>
          let (up, s) = (if ao_Heartbeat ops (ad_state a) = kDisconnected then ao_Reconnect ops (ad_state a)
                         else (True, ad_state a))
          in if \<not> up
             then (Some (make_execution_report ids c (ad_VenueId a)
                    (refused ''RECONNECT_FAILED'' ''Venue adapter reconnect failed'' empty_result)),
                   Some (a\<lparr>ad_state := s\<rparr>))
             else let (r, s) = ao_SendOrder ops c s
                  in (map_option (make_execution_report ids c (ad_VenueId a)) r, Some (a\<lparr>ad_state := s\<rparr>)))"

section \<open>The choice of the adapter\<close>

definition normalize_routing_mode :: "string \<Rightarrow> string" where
  "normalize_routing_mode m = (if map lower_char m = ''watch'' then ''watch'' else ''auto'')"

definition is_adapter_eligible ::
    "'a adapter_ops \<Rightarrow> venue_config umap \<Rightarrow> bool \<Rightarrow> 'a adapter \<Rightarrow> bool" where
  "is_adapter_eligible ops cfgs enforce_health_check a =
     (if (case find cfgs (ad_VenueId a) of None \<Rightarrow> False
          | Some c \<Rightarrow> \<not> vf_is_active c \<or> normalize_routing_mode (vf_routing_mode c) = ''watch'') then False
      else if \<not> enforce_health_check then True
      else ao_Heartbeat ops (ad_state a) \<noteq> kDisconnected)"

text \<open>The first eligible index after the start, going round once.\<close>

definition next_eligible :: "('a adapter \<Rightarrow> bool) \<Rightarrow> 'a adapter list \<Rightarrow> nat \<Rightarrow> nat option" where
  "next_eligible ok ads start =
     List.find (\<lambda>k. ok (ads ! k)) (map (\<lambda>offset. (start + offset) mod length ads) [0..<length ads])"

text \<open>The index of the adapter and the new start of the rotation.\<close>

definition find_adapter ::
    "'a adapter_ops \<Rightarrow> venue_config umap \<Rightarrow> 'a adapter list \<Rightarrow> nat \<Rightarrow> string \<Rightarrow> nat option \<times> nat" where
  "find_adapter ops cfgs ads nxt venue =
     (if ads = [] then (None, nxt)
      else if venue \<noteq> []
      then (case List.find (\<lambda>k. ad_VenueId (ads ! k) = venue) [0..<length ads] of
              None \<Rightarrow> (None, nxt)
            | Some k \<Rightarrow> (if is_adapter_eligible ops cfgs False (ads ! k) then Some k else None, nxt))
      else let start = nxt mod length ads
           in case next_eligible (is_adapter_eligible ops cfgs True) ads start of
                Some k \<Rightarrow> (Some k, Suc k mod length ads)
              | None \<Rightarrow>
                  (case next_eligible (is_adapter_eligible ops cfgs False) ads start of
                     Some k \<Rightarrow> (Some k, Suc k mod length ads)
                   | None \<Rightarrow> (None, nxt)))"

section \<open>Publication\<close>

record report_topics =
  tp_venue :: string
  tp_legacy :: string
  tp_backtest :: string

definition default_topics :: report_topics where
  "default_topics = \<lparr>tp_venue = ''execution.venue'', tp_legacy = ''execution.reports'',
     tp_backtest = ''backtest.execution.venue''\<rparr>"

record backtest_session =
  bs_session_id :: string
  bs_namespace_id :: string

definition session_enabled :: "backtest_session \<Rightarrow> bool" where
  "session_enabled s = (bs_session_id s \<noteq> [])"

definition session_MakeNamespaceId :: "string \<Rightarrow> string" where
  "session_MakeNamespaceId i = (if i = [] then [] else ''replay::'' @ i)"

definition ResolveNamespace :: "backtest_session \<Rightarrow> string" where
  "ResolveNamespace s =
     (if \<not> session_enabled s then []
      else if bs_namespace_id s \<noteq> [] then bs_namespace_id s else session_MakeNamespaceId (bs_session_id s))"

definition report_has_error :: "('a) exec_report_scheme \<Rightarrow> bool" where
  "report_has_error r = (case xr_error r of None \<Rightarrow> False
     | Some e \<Rightarrow> er_code e \<noteq> [] \<or> er_message e \<noteq> [] \<or> er_details e \<noteq> [])"

definition Normalize :: "('a) exec_report_scheme \<Rightarrow> ('a) exec_report_scheme" where
  "Normalize r =
     (let filled = (0 < dcmp (xr_filled_qty r) dzero); remaining = (0 < dcmp (xr_remaining_qty r) dzero)
      in if xr_status r = EXEC_NEW \<or> xr_status r = EXEC_UNSPECIFIED
         then (if report_has_error r then r\<lparr>xr_status := EXEC_REJECTED\<rparr>
               else if filled \<and> remaining then r\<lparr>xr_status := EXEC_PARTIALLY_FILLED\<rparr>
               else if filled \<and> \<not> remaining then r\<lparr>xr_status := EXEC_FILLED\<rparr> else r)
         else r)"

definition report_key :: "venue_report \<Rightarrow> string" where
  "report_key r = (if vr_partition_key r = [] then (if xr_intent_id r = [] then xr_report_id r else xr_intent_id r)
     else vr_partition_key r)"

definition StampForSession :: "venue_report \<Rightarrow> backtest_session \<Rightarrow> venue_report" where
  "StampForSession r s =
     (let r = Normalize r in
      if \<not> session_enabled s then r
      else let ns = ResolveNamespace s;
               tags = put ''backtest_session_id'' (bs_session_id s) (put ''mode'' ''backtest'' (vr_tags r));
               tags = (if ns \<noteq> [] then put ''backtest_namespace'' ns tags else tags);
               key = report_key r
           in r\<lparr>vr_tags := tags, vr_partition_key := (if ns \<noteq> [] then ns @ ''|'' @ key else key)\<rparr>)"

text \<open>The messages sent: topic, key and report. A topic without a name gets none.\<close>

type_synonym produced = "string \<times> string \<times> venue_report"

definition Publish :: "report_topics \<Rightarrow> backtest_session \<Rightarrow> venue_report \<Rightarrow> produced list" where
  "Publish t s r =
     (let out = (if session_enabled s then StampForSession r s else Normalize r)
      in filter (\<lambda>(topic, _). topic \<noteq> [])
           (map (\<lambda>topic. (topic, report_key out, out))
             (if session_enabled s then [tp_backtest t] else [tp_venue t, tp_legacy t])))"

end
