(* ===== verification/Venue_Sim.thy ===== *)
theory Venue_Sim
  imports Venue_Execution
begin

text \<open>
  Simulation sessions: which intents of the hedging go to a simulator instead of, or in addition to, a
  venue. The operator's use cases (\<open>venues/src/app/sim_session_manager.cpp\<close>), the table
  \<open>sim_sessions\<close> (\<open>infra/postgres_sim_session_repository.cpp\<close>, \<open>sim_session_pg_codec.cpp\<close>), the
  events on \<open>sim.config\<close> (\<open>app/sim_config_applier.cpp\<close>), the registry of running sessions
  (\<open>sim_session_registry.cpp\<close>) and the routing decision (\<open>venue_sim_router.cpp\<close>). The protobuf
  library writes a message as JSON and reads it back unchanged, so a column of models holds models.
\<close>

section \<open>Sessions\<close>

datatype routing_mode =
    ROUTING_MODE_UNSPECIFIED | ROUTING_MODE_SIM_ONLY | ROUTING_MODE_LIVE_ONLY | ROUTING_MODE_SHADOW

datatype sim_session_status =
    SIM_SESSION_STATUS_UNSPECIFIED | SIM_SESSION_STATUS_ACTIVE | SIM_SESSION_STATUS_PAUSED
  | SIM_SESSION_STATUS_COMPLETED | SIM_SESSION_STATUS_CANCELLED

datatype partial_fill_mode =
    PARTIAL_FILL_MODE_UNSPECIFIED | PARTIAL_FILL_MODE_PROPORTIONAL
  | PARTIAL_FILL_MODE_LEVEL_BY_LEVEL | PARTIAL_FILL_MODE_NONE

datatype latency_distribution =
    LATENCY_DISTRIBUTION_UNSPECIFIED | LATENCY_DISTRIBUTION_LOGNORMAL | LATENCY_DISTRIBUTION_UNIFORM
  | LATENCY_DISTRIBUTION_FIXED | LATENCY_DISTRIBUTION_EMPIRICAL

datatype impact_model_type =
    IMPACT_MODEL_TYPE_UNSPECIFIED | IMPACT_MODEL_TYPE_LINEAR | IMPACT_MODEL_TYPE_SQRT
  | IMPACT_MODEL_TYPE_POWER_LAW | IMPACT_MODEL_TYPE_LEVEL_BY_LEVEL

record latency_model =
  lm_distribution :: latency_distribution
  lm_p50_ms :: int
  lm_p95_ms :: int
  lm_p99_ms :: int
  lm_tail_probability :: rat
  lm_timeout_ms :: int

record impact_model =
  im_model_type :: impact_model_type
  im_impact_coeff :: rat
  im_power_exponent :: rat

record fee_model =
  fm_maker_bps :: int
  fm_taker_bps :: int
  fm_min_fee :: decimal
  fm_gas_flat :: decimal

record rejection_model =
  rm_insufficient_liquidity_enabled :: bool
  rm_price_constraint_enabled :: bool
  rm_random_rejection_rate :: rat
  rm_rate_limit_reject_rate :: rat
  rm_min_liquidity_threshold :: decimal

record sim_models =
  sm_latency :: latency_model
  sm_impact :: impact_model
  sm_fee :: fee_model
  sm_rejection :: rejection_model

definition default_models :: sim_models where
  "default_models =
     \<lparr>sm_latency = \<lparr>lm_distribution = LATENCY_DISTRIBUTION_UNSPECIFIED, lm_p50_ms = 0, lm_p95_ms = 0,
        lm_p99_ms = 0, lm_tail_probability = 0, lm_timeout_ms = 0\<rparr>,
      sm_impact = \<lparr>im_model_type = IMPACT_MODEL_TYPE_UNSPECIFIED, im_impact_coeff = 0, im_power_exponent = 0\<rparr>,
      sm_fee = \<lparr>fm_maker_bps = 0, fm_taker_bps = 0, fm_min_fee = dzero, fm_gas_flat = dzero\<rparr>,
      sm_rejection = \<lparr>rm_insufficient_liquidity_enabled = False, rm_price_constraint_enabled = False,
        rm_random_rejection_rate = 0, rm_rate_limit_reject_rate = 0, rm_min_liquidity_threshold = dzero\<rparr>\<rparr>"

record sim_session =
  zs_sim_session_id :: string
  zs_name :: string
  zs_routing_mode :: routing_mode
  zs_scope_venues :: "string list"
  zs_scope_instruments :: "string list"
  zs_models :: sim_models
  zs_stale_lob_threshold_ms :: int
  zs_partial_fill_mode :: partial_fill_mode
  zs_status :: sim_session_status
  zs_created_at :: "timestamp option"
  zs_activated_at :: "timestamp option"
  zs_completed_at :: "timestamp option"
  zs_created_by :: string

definition sim_IsTerminal :: "sim_session_status \<Rightarrow> bool" where
  "sim_IsTerminal s = (s = SIM_SESSION_STATUS_COMPLETED \<or> s = SIM_SESSION_STATUS_CANCELLED)"

section \<open>The table\<close>

fun RoutingModeToText :: "routing_mode \<Rightarrow> string" where
  "RoutingModeToText ROUTING_MODE_SIM_ONLY = ''SIM_ONLY''"
| "RoutingModeToText ROUTING_MODE_LIVE_ONLY = ''LIVE_ONLY''"
| "RoutingModeToText ROUTING_MODE_SHADOW = ''SHADOW''"
| "RoutingModeToText ROUTING_MODE_UNSPECIFIED = ''LIVE_ONLY''"

definition RoutingModeFromText :: "string \<Rightarrow> routing_mode" where
  "RoutingModeFromText t = (if t = ''SIM_ONLY'' then ROUTING_MODE_SIM_ONLY
     else if t = ''SHADOW'' then ROUTING_MODE_SHADOW else ROUTING_MODE_LIVE_ONLY)"

fun SimStatusToText :: "sim_session_status \<Rightarrow> string" where
  "SimStatusToText SIM_SESSION_STATUS_ACTIVE = ''ACTIVE''"
| "SimStatusToText SIM_SESSION_STATUS_PAUSED = ''PAUSED''"
| "SimStatusToText SIM_SESSION_STATUS_COMPLETED = ''COMPLETED''"
| "SimStatusToText SIM_SESSION_STATUS_CANCELLED = ''CANCELLED''"
| "SimStatusToText SIM_SESSION_STATUS_UNSPECIFIED = ''ACTIVE''"

definition SimStatusFromText :: "string \<Rightarrow> sim_session_status" where
  "SimStatusFromText t = (if t = ''PAUSED'' then SIM_SESSION_STATUS_PAUSED
     else if t = ''COMPLETED'' then SIM_SESSION_STATUS_COMPLETED
     else if t = ''CANCELLED'' then SIM_SESSION_STATUS_CANCELLED else SIM_SESSION_STATUS_ACTIVE)"

fun PartialFillModeToText :: "partial_fill_mode \<Rightarrow> string" where
  "PartialFillModeToText PARTIAL_FILL_MODE_PROPORTIONAL = ''PROPORTIONAL''"
| "PartialFillModeToText PARTIAL_FILL_MODE_LEVEL_BY_LEVEL = ''LEVEL_BY_LEVEL''"
| "PartialFillModeToText PARTIAL_FILL_MODE_NONE = ''NONE''"
| "PartialFillModeToText PARTIAL_FILL_MODE_UNSPECIFIED = ''LEVEL_BY_LEVEL''"

definition PartialFillModeFromText :: "string \<Rightarrow> partial_fill_mode" where
  "PartialFillModeFromText t = (if t = ''PROPORTIONAL'' then PARTIAL_FILL_MODE_PROPORTIONAL
     else if t = ''NONE'' then PARTIAL_FILL_MODE_NONE else PARTIAL_FILL_MODE_LEVEL_BY_LEVEL)"

text \<open>Time columns hold seconds.\<close>

record session_row =
  wr_name :: string
  wr_routing_mode :: string
  wr_scope_venues :: "string list"
  wr_scope_instruments :: "string list"
  wr_models :: sim_models
  wr_stale_lob_threshold_ms :: int
  wr_partial_fill_mode :: string
  wr_status :: string
  wr_created_at :: int
  wr_activated_at :: "int option"
  wr_completed_at :: "int option"
  wr_created_by :: string

text \<open>\<open>array_to_string\<close> and the split at commas that reads it back.\<close>

fun join_commas :: "string list \<Rightarrow> string" where
  "join_commas [] = []"
| "join_commas [s] = s"
| "join_commas (s # ss) = s @ CHR '','' # join_commas ss"

definition SplitCsv :: "string \<Rightarrow> string list" where
  "SplitCsv s = filter (\<lambda>x. x \<noteq> []) (split_commas s)"

definition RowToSession :: "string \<Rightarrow> session_row \<Rightarrow> sim_session" where
  "RowToSession i r =
     \<lparr>zs_sim_session_id = i, zs_name = wr_name r, zs_routing_mode = RoutingModeFromText (wr_routing_mode r),
      zs_scope_venues = SplitCsv (join_commas (wr_scope_venues r)),
      zs_scope_instruments = SplitCsv (join_commas (wr_scope_instruments r)), zs_models = wr_models r,
      zs_stale_lob_threshold_ms = wr_stale_lob_threshold_ms r,
      zs_partial_fill_mode = PartialFillModeFromText (wr_partial_fill_mode r),
      zs_status = SimStatusFromText (wr_status r), zs_created_at = Some (wr_created_at r, 0),
      zs_activated_at = map_option (\<lambda>e. (e, 0)) (wr_activated_at r),
      zs_completed_at = map_option (\<lambda>e. (e, 0)) (wr_completed_at r), zs_created_by = wr_created_by r\<rparr>"

text \<open>\<open>uuid t\<close> is the identifier a text is cast to, \<open>None\<close> if the cast fails; \<open>now\<close> is the clock of
  the database. An existing row keeps its creation time. \<open>None\<close> is a failed transaction.\<close>

definition repo_Upsert ::
    "(string \<Rightarrow> string option) \<Rightarrow> int \<Rightarrow> sim_session \<Rightarrow> session_row umap \<Rightarrow> session_row umap option" where
  "repo_Upsert uuid now s db =
     (case uuid (zs_sim_session_id s) of
        None \<Rightarrow> None
      | Some i \<Rightarrow>
          let stale = i32 (if 0 < zs_stale_lob_threshold_ms s then zs_stale_lob_threshold_ms s else 2000)
          in if stale \<le> 0 then None
             else Some (put i
               \<lparr>wr_name = zs_name s, wr_routing_mode = RoutingModeToText (zs_routing_mode s),
                wr_scope_venues = zs_scope_venues s, wr_scope_instruments = zs_scope_instruments s,
                wr_models = zs_models s, wr_stale_lob_threshold_ms = stale,
                wr_partial_fill_mode = PartialFillModeToText (zs_partial_fill_mode s),
                wr_status = SimStatusToText (zs_status s),
                wr_created_at = (case find db i of
                    Some old \<Rightarrow> wr_created_at old
                  | None \<Rightarrow> (case zs_created_at s of Some t \<Rightarrow> fst t | None \<Rightarrow> now)),
                wr_activated_at = map_option fst (zs_activated_at s),
                wr_completed_at = map_option fst (zs_completed_at s),
                wr_created_by = (if zs_created_by s = [] then ''operator'' else zs_created_by s)\<rparr> db))"

definition repo_Get :: "(string \<Rightarrow> string option) \<Rightarrow> string \<Rightarrow> session_row umap \<Rightarrow> sim_session option" where
  "repo_Get uuid i db = (case uuid i of None \<Rightarrow> None | Some i \<Rightarrow> map_option (RowToSession i) (find db i))"

definition repo_List :: "sim_session_status \<Rightarrow> nat \<Rightarrow> session_row umap \<Rightarrow> sim_session list" where
  "repo_List st limit db =
     (let rows = sort_key (\<lambda>(i, r). - wr_created_at r)
            (filter (\<lambda>(i, r). st = SIM_SESSION_STATUS_UNSPECIFIED \<or> wr_status r = SimStatusToText st) db)
      in map (\<lambda>(i, r). RowToSession i r) (if limit = 0 then rows else take limit rows))"

section \<open>The use cases of the operator\<close>

datatype config_event_type =
    SIM_CONFIG_EVENT_TYPE_UNSPECIFIED | SIM_CONFIG_EVENT_TYPE_UPSERT | SIM_CONFIG_EVENT_TYPE_DELETE

record config_event =
  ce_event_type :: config_event_type
  ce_session :: sim_session

record session_update =
  zu_sim_session_id :: string
  zu_routing_mode :: routing_mode
  zu_latency_model :: "latency_model option"
  zu_impact_model :: "impact_model option"
  zu_fee_model :: "fee_model option"
  zu_rejection_model :: "rejection_model option"
  zu_stale_lob_threshold_ms :: int
  zu_partial_fill_mode :: partial_fill_mode
  zu_status :: sim_session_status

text \<open>The error code or the session, the table and the event on \<open>sim.config\<close>.\<close>

type_synonym session_step = "(string + sim_session) \<times> session_row umap \<times> config_event list"

definition config_event_of :: "sim_session \<Rightarrow> config_event" where
  "config_event_of s = \<lparr>ce_event_type = (if sim_IsTerminal (zs_status s) then SIM_CONFIG_EVENT_TYPE_DELETE
     else SIM_CONFIG_EVENT_TYPE_UPSERT), ce_session = s\<rparr>"

definition store_session ::
    "(string \<Rightarrow> string option) \<Rightarrow> timestamp \<Rightarrow> sim_session \<Rightarrow> config_event \<Rightarrow> session_row umap \<Rightarrow> session_step" where
  "store_session uuid now s ev db =
     (case repo_Upsert uuid (fst now) s db of
        None \<Rightarrow> (Inl ''INTERNAL'', db, [])
      | Some db \<Rightarrow> (Inr s, db, [ev]))"

definition sim_Create ::
    "(string \<Rightarrow> string option) \<Rightarrow> string \<Rightarrow> timestamp \<Rightarrow> sim_session \<Rightarrow> session_row umap \<Rightarrow> session_step" where
  "sim_Create uuid new_id now s db =
     (if zs_routing_mode s = ROUTING_MODE_UNSPECIFIED then (Inl ''INVALID_ARGUMENT'', db, [])
      else let s = (if zs_sim_session_id s = [] then s\<lparr>zs_sim_session_id := new_id\<rparr> else s);
               s = s\<lparr>zs_created_at := Some now\<rparr>;
               s = (if zs_status s = SIM_SESSION_STATUS_UNSPECIFIED
                    then s\<lparr>zs_status := SIM_SESSION_STATUS_ACTIVE\<rparr> else s);
               s = (if zs_status s = SIM_SESSION_STATUS_ACTIVE \<and> zs_activated_at s = None
                    then s\<lparr>zs_activated_at := Some now\<rparr> else s)
           in store_session uuid now s (config_event_of s) db)"

definition sim_Get :: "(string \<Rightarrow> string option) \<Rightarrow> string \<Rightarrow> session_row umap \<Rightarrow> string + sim_session" where
  "sim_Get uuid i db = (case repo_Get uuid i db of None \<Rightarrow> Inl ''NOT_FOUND'' | Some s \<Rightarrow> Inr s)"

definition update_models :: "session_update \<Rightarrow> sim_models \<Rightarrow> sim_models" where
  "update_models u m =
     \<lparr>sm_latency = (case zu_latency_model u of None \<Rightarrow> sm_latency m | Some x \<Rightarrow> x),
      sm_impact = (case zu_impact_model u of None \<Rightarrow> sm_impact m | Some x \<Rightarrow> x),
      sm_fee = (case zu_fee_model u of None \<Rightarrow> sm_fee m | Some x \<Rightarrow> x),
      sm_rejection = (case zu_rejection_model u of None \<Rightarrow> sm_rejection m | Some x \<Rightarrow> x)\<rparr>"

definition apply_update :: "timestamp \<Rightarrow> session_update \<Rightarrow> sim_session \<Rightarrow> sim_session" where
  "apply_update now u s =
     (let s = (if zu_routing_mode u \<noteq> ROUTING_MODE_UNSPECIFIED then s\<lparr>zs_routing_mode := zu_routing_mode u\<rparr> else s);
          s = s\<lparr>zs_models := update_models u (zs_models s)\<rparr>;
          s = (if zu_stale_lob_threshold_ms u \<noteq> 0
               then s\<lparr>zs_stale_lob_threshold_ms := zu_stale_lob_threshold_ms u\<rparr> else s);
          s = (if zu_partial_fill_mode u \<noteq> PARTIAL_FILL_MODE_UNSPECIFIED
               then s\<lparr>zs_partial_fill_mode := zu_partial_fill_mode u\<rparr> else s)
      in if zu_status u = SIM_SESSION_STATUS_UNSPECIFIED then s
         else let s = s\<lparr>zs_status := zu_status u\<rparr>;
                  s = (if zu_status u = SIM_SESSION_STATUS_ACTIVE \<and> zs_activated_at s = None
                       then s\<lparr>zs_activated_at := Some now\<rparr> else s)
              in if sim_IsTerminal (zu_status u) \<and> zs_completed_at s = None
                 then s\<lparr>zs_completed_at := Some now\<rparr> else s)"

definition sim_Update ::
    "(string \<Rightarrow> string option) \<Rightarrow> timestamp \<Rightarrow> session_update \<Rightarrow> session_row umap \<Rightarrow> session_step" where
  "sim_Update uuid now u db =
     (case repo_Get uuid (zu_sim_session_id u) db of
        None \<Rightarrow> (Inl ''NOT_FOUND'', db, [])
      | Some s \<Rightarrow> let s = apply_update now u s in store_session uuid now s (config_event_of s) db)"

definition sim_Complete ::
    "(string \<Rightarrow> string option) \<Rightarrow> timestamp \<Rightarrow> string \<Rightarrow> session_row umap \<Rightarrow> session_step" where
  "sim_Complete uuid now i db =
     (case repo_Get uuid i db of
        None \<Rightarrow> (Inl ''NOT_FOUND'', db, [])
      | Some s \<Rightarrow>
          let s = s\<lparr>zs_status := SIM_SESSION_STATUS_COMPLETED, zs_completed_at := Some now\<rparr>
          in store_session uuid now s \<lparr>ce_event_type = SIM_CONFIG_EVENT_TYPE_DELETE, ce_session = s\<rparr> db)"

section \<open>The registry\<close>

text \<open>A \<open>std::map\<close> whose order plays no role: among the matching sessions exactly one is the most
  recent.\<close>

type_synonym session_registry = "sim_session umap"

definition Registry_Upsert :: "sim_session \<Rightarrow> session_registry \<Rightarrow> session_registry" where
  "Registry_Upsert s m =
     (if zs_sim_session_id s = [] then m
      else if sim_IsTerminal (zs_status s) then erase (zs_sim_session_id s) m
      else put (zs_sim_session_id s) s m)"

definition Registry_Remove :: "string \<Rightarrow> session_registry \<Rightarrow> session_registry" where
  "Registry_Remove i m = erase i m"

definition InScope :: "string list \<Rightarrow> string \<Rightarrow> bool" where
  "InScope scope v = (scope = [] \<or> v \<in> set scope)"

definition time_of :: "timestamp option \<Rightarrow> timestamp" where
  "time_of t = (case t of None \<Rightarrow> (0, 0) | Some t \<Rightarrow> t)"

definition MoreRecent :: "sim_session \<Rightarrow> sim_session \<Rightarrow> bool" where
  "MoreRecent a b =
     (let ta = time_of (zs_activated_at a); tb = time_of (zs_activated_at b) in
      if fst ta \<noteq> fst tb then fst tb < fst ta
      else if snd ta \<noteq> snd tb then snd tb < snd ta
      else zs_sim_session_id b < zs_sim_session_id a)"

definition governs :: "string \<Rightarrow> string \<Rightarrow> sim_session \<Rightarrow> bool" where
  "governs venue sy s \<longleftrightarrow> zs_status s = SIM_SESSION_STATUS_ACTIVE \<and> InScope (zs_scope_venues s) venue
     \<and> InScope (zs_scope_instruments s) sy"

fun most_recent :: "sim_session option \<Rightarrow> sim_session list \<Rightarrow> sim_session option" where
  "most_recent best [] = best"
| "most_recent best (s # ss) =
     most_recent (case best of None \<Rightarrow> Some s | Some b \<Rightarrow> if MoreRecent s b then Some s else Some b) ss"

definition Registry_Resolve :: "string \<Rightarrow> string \<Rightarrow> session_registry \<Rightarrow> sim_session option" where
  "Registry_Resolve venue sy m = most_recent None (filter (governs venue sy) (map snd m))"

datatype config_action = SimConfig_kIgnored | SimConfig_kUpsert | SimConfig_kDelete

definition ApplySimConfigEvent :: "config_event \<Rightarrow> session_registry \<Rightarrow> config_action \<times> session_registry" where
  "ApplySimConfigEvent e m =
     (let s = ce_session e in
      if zs_sim_session_id s = [] then (SimConfig_kIgnored, m)
      else case ce_event_type e of
             SIM_CONFIG_EVENT_TYPE_UPSERT \<Rightarrow> (SimConfig_kUpsert, Registry_Upsert s m)
           | SIM_CONFIG_EVENT_TYPE_DELETE \<Rightarrow> (SimConfig_kDelete, Registry_Remove (zs_sim_session_id s) m)
           | SIM_CONFIG_EVENT_TYPE_UNSPECIFIED \<Rightarrow> (SimConfig_kIgnored, m))"

section \<open>Routing\<close>

record route_decision =
  rd_mode :: routing_mode
  rd_has_session :: bool
  rd_sim_session_id :: string
  rd_models :: sim_models
  rd_stale_lob_threshold_ms :: int
  rd_partial_fill_mode :: partial_fill_mode

definition Decide :: "session_registry \<Rightarrow> string \<Rightarrow> string \<Rightarrow> route_decision" where
  "Decide m venue sy =
     (case Registry_Resolve venue sy m of
        None \<Rightarrow> \<lparr>rd_mode = ROUTING_MODE_LIVE_ONLY, rd_has_session = False, rd_sim_session_id = [],
                 rd_models = default_models, rd_stale_lob_threshold_ms = 2000,
                 rd_partial_fill_mode = PARTIAL_FILL_MODE_LEVEL_BY_LEVEL\<rparr>
      | Some s \<Rightarrow>
          \<lparr>rd_mode = (if zs_routing_mode s = ROUTING_MODE_UNSPECIFIED then ROUTING_MODE_LIVE_ONLY else zs_routing_mode s),
           rd_has_session = True, rd_sim_session_id = zs_sim_session_id s, rd_models = zs_models s,
           rd_stale_lob_threshold_ms = (if 0 < zs_stale_lob_threshold_ms s then zs_stale_lob_threshold_ms s else 2000),
           rd_partial_fill_mode = (if zs_partial_fill_mode s \<noteq> PARTIAL_FILL_MODE_UNSPECIFIED
             then zs_partial_fill_mode s else PARTIAL_FILL_MODE_LEVEL_BY_LEVEL)\<rparr>)"

definition RoutingSymbol :: "instrument \<Rightarrow> string" where
  "RoutingSymbol i =
     (if in_symbol i \<noteq> [] then in_symbol i
      else if in_base i \<noteq> [] \<and> in_quote i \<noteq> [] then in_base i @ ''/'' @ in_quote i else in_symbol i)"

end
