(* ===== verification/Venue_Simulator.thy ===== *)
theory Venue_Simulator
  imports Venue_Sim
begin

text \<open>
  The simulation of one order against a live book (\<open>venues/src/app/venue_simulator.cpp\<close>), the report
  and its annotation (\<open>sim_execution_assembler.cpp\<close>) and their publication (\<open>PublishSimExecution\<close> of
  \<open>venues_loop.cpp\<close>). The random engine, the functions of the C library and the hash that gives the
  seed are arguments. Doubles are rationals with the rounding of \<open>fp\<close>.
\<close>

section \<open>Requests and results\<close>

record cmath =
  cm_sqrt :: "rat \<Rightarrow> rat"
  cm_pow :: "rat \<Rightarrow> rat \<Rightarrow> rat"
  cm_log :: "rat \<Rightarrow> rat"

record 'r rng =
  rg_seed :: "int \<Rightarrow> 'r"
  rg_unit :: "'r \<Rightarrow> rat \<times> 'r"
  rg_lognormal :: "rat \<Rightarrow> rat \<Rightarrow> 'r \<Rightarrow> rat \<times> 'r"

record venue_snapshot =
  vn_event_id :: string
  vn_ts_event_ms :: int
  vn_bid_prices :: "decimal list"
  vn_bid_quantities :: "decimal list"
  vn_ask_prices :: "decimal list"
  vn_ask_quantities :: "decimal list"
  vn_mid_price :: "decimal option"
  vn_best_bid :: "decimal option"
  vn_best_ask :: "decimal option"
  vn_has_fees :: bool

record sim_request =
  qq_symbol :: string
  qq_side :: side
  qq_order_type :: strategy
  qq_target_qty :: decimal
  qq_limit_price :: "decimal option"
  qq_snapshot :: "venue_snapshot option"
  qq_lob_age_ms :: int
  qq_stale_threshold_ms :: int
  qq_partial_fill_mode :: partial_fill_mode
  qq_rng_seed :: int

record simulate_result =
  qr_status :: exec_status
  qr_filled_qty :: decimal
  qr_remaining_qty :: decimal
  qr_avg_price :: decimal
  qr_fee :: decimal
  qr_fee_currency :: string
  qr_impact_bps :: rat
  qr_slippage_bps :: int
  qr_latency_sample_ms :: int
  qr_lob_snapshot_id :: string
  qr_reject_reason :: string

section \<open>The fill\<close>

definition D2Dec :: "fp \<Rightarrow> rat \<Rightarrow> decimal" where
  "D2Dec fl x = mk_dec (i64 (round_away (((\<lambda>y. fp_round fl (y * 10)) ^^ 8) x))) 8"

text \<open>Price and quantity of the levels the order can hit, the best price first.\<close>

definition ExtractLevels :: "fp \<Rightarrow> venue_snapshot \<Rightarrow> side \<Rightarrow> (rat \<times> rat) list" where
  "ExtractLevels fl s sd =
     (if sd = SIDE_BUY
      then sort_key fst (zip (map (to_double fl) (vn_ask_prices s)) (map (to_double fl) (vn_ask_quantities s)))
      else sort_key (\<lambda>l. - fst l)
             (zip (map (to_double fl) (vn_bid_prices s)) (map (to_double fl) (vn_bid_quantities s))))"

definition MidPrice :: "fp \<Rightarrow> venue_snapshot \<Rightarrow> rat" where
  "MidPrice fl s =
     (let d = (\<lambda>x. case x of None \<Rightarrow> 0 | Some y \<Rightarrow> to_double fl y);
          bb = d (vn_best_bid s); ba = d (vn_best_ask s)
      in if 0 < d (vn_mid_price s) then d (vn_mid_price s)
         else if 0 < bb \<and> 0 < ba then fp_round fl (1 / 2 * fp_round fl (bb + ba))
         else if 0 < bb then bb else ba)"

definition ImpactDelta :: "fp \<Rightarrow> cmath \<Rightarrow> impact_model \<Rightarrow> rat \<Rightarrow> rat" where
  "ImpactDelta fl cm m q =
     (case im_model_type m of
        IMPACT_MODEL_TYPE_LINEAR \<Rightarrow> fp_round fl (im_impact_coeff m * q)
      | IMPACT_MODEL_TYPE_SQRT \<Rightarrow> fp_round fl (im_impact_coeff m * cm_sqrt cm (max 0 q))
      | IMPACT_MODEL_TYPE_POWER_LAW \<Rightarrow> fp_round fl (im_impact_coeff m *
          cm_pow cm (max 0 q) (if 0 < im_power_exponent m then im_power_exponent m else 1))
      | _ \<Rightarrow> 0)"

definition FeeRate :: "fp \<Rightarrow> fee_model \<Rightarrow> strategy \<Rightarrow> rat" where
  "FeeRate fl m ty = fp_round fl (of_int (if ty = EXEC_STRATEGY_LIMIT \<or> ty = EXEC_STRATEGY_POST_ONLY
     then fm_maker_bps m else fm_taker_bps m) / 10000)"

text \<open>Filled quantity and notional over the levels. A limit skips the worse levels.\<close>

fun match_levels ::
    "fp \<Rightarrow> bool \<Rightarrow> rat option \<Rightarrow> rat \<Rightarrow> (rat \<times> rat) list \<Rightarrow> rat \<times> rat \<Rightarrow> rat \<times> rat" where
  "match_levels fl buy limit target [] st = st"
| "match_levels fl buy limit target ((price, qty) # ls) (filled, notional) =
     (if target \<le> filled then (filled, notional)
      else if qty \<le> 0 \<or> price \<le> 0 then match_levels fl buy limit target ls (filled, notional)
      else if (case limit of None \<Rightarrow> False | Some p \<Rightarrow> if buy then p < price else price < p)
      then match_levels fl buy limit target ls (filled, notional)
      else let take = min qty (fp_round fl (target - filled))
           in match_levels fl buy limit target ls
                (fp_round fl (filled + take), fp_round fl (notional + fp_round fl (take * price))))"

section \<open>Latency\<close>

definition double_to_u32 :: "rat \<Rightarrow> int" where
  "double_to_u32 x = \<lfloor>x\<rfloor> mod 2 ^ 32"

definition sample_latency :: "fp \<Rightarrow> cmath \<Rightarrow> ('r, 'b) rng_scheme \<Rightarrow> latency_model \<Rightarrow> 'r \<Rightarrow> int" where
  "sample_latency fl cm rg m st =
     (case lm_distribution m of
        LATENCY_DISTRIBUTION_FIXED \<Rightarrow> lm_p50_ms m
      | LATENCY_DISTRIBUTION_UNIFORM \<Rightarrow>
          let lo = of_int (lm_p50_ms m); hi = max lo (of_int (lm_p99_ms m)); (u, st) = rg_unit rg st
          in double_to_u32 (fp_round fl (lo + fp_round fl (u * fp_round fl (hi - lo))))
      | _ \<Rightarrow>
          let p50 = max 1 (of_int (lm_p50_ms m)); p95 = max p50 (of_int (lm_p95_ms m));
              mu = cm_log cm p50;
              sigma = max 0 (fp_round fl (fp_round fl (cm_log cm p95 - mu) / fp_round fl (1645 / 1000)));
              (sample, st) = rg_lognormal rg mu sigma st;
              sample = (if 0 < lm_tail_probability m \<and> fst (rg_unit rg st) < lm_tail_probability m
                        then fp_round fl (sample * 3) else sample)
          in double_to_u32 (max 0 sample))"

section \<open>The simulation\<close>

definition sim_reject :: "string \<Rightarrow> simulate_result \<Rightarrow> simulate_result" where
  "sim_reject why r = r\<lparr>qr_status := EXEC_REJECTED, qr_reject_reason := why\<rparr>"

text \<open>A random rejection draws a number only when its rate is positive.\<close>

definition random_reject :: "('r, 'b) rng_scheme \<Rightarrow> rat \<Rightarrow> 'r \<Rightarrow> bool \<times> 'r" where
  "random_reject rg rate st =
     (if rate \<le> 0 then (False, st) else let (u, st) = rg_unit rg st in (u < rate, st))"

definition fill_status :: "fp \<Rightarrow> sim_request \<Rightarrow> rat \<Rightarrow> exec_status" where
  "fill_status fl q filled =
     (if to_double fl (qq_target_qty q) \<le> fp_round fl (filled + fp_round fl (1 / 1000000000)) then EXEC_FILLED
      else if qq_partial_fill_mode q = PARTIAL_FILL_MODE_NONE then EXEC_UNDERFILLED
      else EXEC_PARTIALLY_FILLED)"

text \<open>Impact, fee, latency and the result of an order that matched \<open>filled\<close> at \<open>notional\<close>.\<close>

definition finish_simulation ::
    "fp \<Rightarrow> cmath \<Rightarrow> ('r, 'b) rng_scheme \<Rightarrow> sim_models \<Rightarrow> sim_request \<Rightarrow> venue_snapshot \<Rightarrow> rat \<Rightarrow> rat \<Rightarrow> 'r
      \<Rightarrow> simulate_result \<Rightarrow> simulate_result" where
  "finish_simulation fl cm rg m q s filled notional st r =
     (let rd = fp_round fl; buy = (qq_side q = SIDE_BUY); mid = MidPrice fl s;
          target = to_double fl (qq_target_qty q);
          vwap = rd (notional / filled);
          delta = ImpactDelta fl cm (sm_impact m) filled;
          avg = rd (if buy then vwap + delta else vwap - delta);
          r = (if 0 < mid
               then r\<lparr>qr_impact_bps := rd (rd (\<bar>rd (avg - mid)\<bar> / mid) * 10000),
                      qr_slippage_bps := i32 (round_away
                        (rd (rd (rd (avg - mid) / mid) * 10000) * (if buy then 1 else -1)))\<rparr>
               else r);
          fee = rd (rd (filled * avg) * FeeRate fl (sm_fee m) (qq_order_type q));
          min_fee = to_double fl (fm_min_fee (sm_fee m));
          fee = (if 0 < min_fee \<and> fee < min_fee then min_fee else fee);
          gas = to_double fl (fm_gas_flat (sm_fee m));
          fee = (if 0 < gas then rd (fee + gas) else fee);
          latency = sample_latency fl cm rg (sm_latency m) st;
          r = r\<lparr>qr_latency_sample_ms := latency\<rparr>
      in if 0 < lm_timeout_ms (sm_latency m) \<and> lm_timeout_ms (sm_latency m) < latency
         then (sim_reject ''SIM_TIMEOUT'' r)\<lparr>qr_filled_qty := dzero, qr_remaining_qty := qq_target_qty q\<rparr>
         else r\<lparr>qr_filled_qty := D2Dec fl filled, qr_remaining_qty := D2Dec fl (max 0 (rd (target - filled))),
                qr_avg_price := D2Dec fl avg, qr_fee := D2Dec fl fee,
                qr_fee_currency := (if vn_has_fees s then qq_symbol q else []),
                qr_status := fill_status fl q filled\<rparr>)"

definition empty_sim_result :: "sim_request \<Rightarrow> simulate_result" where
  "empty_sim_result q = \<lparr>qr_status = EXEC_UNSPECIFIED, qr_filled_qty = dzero, qr_remaining_qty = qq_target_qty q,
     qr_avg_price = dzero, qr_fee = dzero, qr_fee_currency = [], qr_impact_bps = 0, qr_slippage_bps = 0,
     qr_latency_sample_ms = 0,
     qr_lob_snapshot_id = (case qq_snapshot q of None \<Rightarrow> [] | Some s \<Rightarrow> vn_event_id s), qr_reject_reason = []\<rparr>"

definition Simulate :: "fp \<Rightarrow> cmath \<Rightarrow> ('r, 'b) rng_scheme \<Rightarrow> sim_models \<Rightarrow> sim_request \<Rightarrow> simulate_result" where
  "Simulate fl cm rg m q =
     (let r = empty_sim_result q; rj = sm_rejection m in
      if qq_stale_threshold_ms q < qq_lob_age_ms q then sim_reject ''SIM_STALE_LOB'' r
      else case qq_snapshot q of None \<Rightarrow> sim_reject ''SIM_NO_LIQUIDITY'' r
      | Some s \<Rightarrow>
        let (limited, st) = random_reject rg (rm_rate_limit_reject_rate rj) (rg_seed rg (qq_rng_seed q)) in
        if limited then sim_reject ''SIM_RATE_LIMIT'' r
        else let limit = (if qq_order_type q = EXEC_STRATEGY_MARKET then None
                          else map_option (to_double fl) (qq_limit_price q));
                 (filled, notional) = match_levels fl (qq_side q = SIDE_BUY) limit
                   (to_double fl (qq_target_qty q)) (ExtractLevels fl s (qq_side q)) (0, 0);
                 min_liq = to_double fl (rm_min_liquidity_threshold rj) in
        if rm_price_constraint_enabled rj \<and> limit \<noteq> None \<and> filled \<le> 0 then sim_reject ''SIM_PRICE_CONSTRAINT'' r
        else if filled \<le> 0 then sim_reject ''SIM_NO_LIQUIDITY'' r
        else if rm_insufficient_liquidity_enabled rj \<and> 0 < min_liq \<and> filled < min_liq
        then sim_reject ''SIM_NO_LIQUIDITY'' r
        else let (unlucky, st) = random_reject rg (rm_random_rejection_rate rj) st in
        if unlucky then sim_reject ''SIM_RANDOM_REJECT'' r
        else finish_simulation fl cm rg m q s filled notional st r)"

section \<open>Report and annotation\<close>

record sim_annotation =
  sn_report_id :: string
  sn_sim_session_id :: string
  sn_lob_snapshot_id :: string
  sn_lob_age_ms :: int
  sn_impact_bps :: rat
  sn_latency_sample_ms :: int

definition sim_request_of ::
    "exec_intent \<Rightarrow> venue_snapshot option \<Rightarrow> int \<Rightarrow> int \<Rightarrow> route_decision \<Rightarrow> sim_request" where
  "sim_request_of i snap age seed d =
     \<lparr>qq_symbol = canonical_symbol (ei_instrument i), qq_side = ei_side i, qq_order_type = ei_strategy i,
      qq_target_qty = ei_target_qty i, qq_limit_price = real_limit i, qq_snapshot = snap, qq_lob_age_ms = age,
      qq_stale_threshold_ms = rd_stale_lob_threshold_ms d, qq_partial_fill_mode = rd_partial_fill_mode d,
      qq_rng_seed = seed\<rparr>"

definition Assemble ::
    "fp \<Rightarrow> cmath \<Rightarrow> ('r, 'b) rng_scheme \<Rightarrow> report_ids \<Rightarrow> exec_intent \<Rightarrow> venue_snapshot option \<Rightarrow> int \<Rightarrow> int
      \<Rightarrow> route_decision \<Rightarrow> venue_report \<times> sim_annotation" where
  "Assemble fl cm rg ids i snap age seed d =
     (let r = Simulate fl cm rg (rd_models d) (sim_request_of i snap age seed d)
      in (\<lparr>xr_ts_event = Some (ri_now ids), xr_report_id = ri_report_id ids, xr_intent_id = ei_intent_id i,
           xr_hedge_flow_id = ei_hedge_flow_id i, xr_venue = ei_venue i, xr_instrument = ei_instrument i,
           xr_venue_symbol = ei_venue_symbol i, xr_venue_order_id = [], xr_client_order_id = ei_client_order_id i,
           xr_status = qr_status r, xr_filled_qty = qr_filled_qty r, xr_remaining_qty = qr_remaining_qty r,
           xr_average_price = qr_avg_price r,
           xr_fee_total = (if units (qr_fee r) \<noteq> 0 \<or> qr_fee_currency r \<noteq> []
             then Some \<lparr>fe_cost = Some \<lparr>mo_currency = qr_fee_currency r, mo_amount = Some (qr_fee r)\<rparr>\<rparr> else None),
           xr_error = (if qr_status r = EXEC_REJECTED \<and> qr_reject_reason r \<noteq> []
             then Some (mk_error (qr_reject_reason r) (''sim reject: '' @ qr_reject_reason r)) else None),
           vr_source = ''venue-simulator'', vr_correlation_id = intent_correlation i,
           vr_partition_key = ei_intent_id i, vr_tags = [], vr_slippage_bps = qr_slippage_bps r\<rparr>,
          \<lparr>sn_report_id = ri_report_id ids, sn_sim_session_id = rd_sim_session_id d,
           sn_lob_snapshot_id = qr_lob_snapshot_id r, sn_lob_age_ms = age, sn_impact_bps = qr_impact_bps r,
           sn_latency_sample_ms = qr_latency_sample_ms r\<rparr>))"

section \<open>Publication\<close>

datatype sim_alert_type =
    SIM_ALERT_TYPE_UNSPECIFIED | SIM_ALERT_TYPE_STALE_LOB | SIM_ALERT_TYPE_SIM_TIMEOUT
  | SIM_ALERT_TYPE_LOB_SOURCE_DOWN | SIM_ALERT_TYPE_RANDOM_REJECT_SPIKE

record sim_alert =
  za_type :: sim_alert_type
  za_sim_session_id :: string
  za_venue_id :: string
  za_symbol :: string
  za_message :: string

datatype sim_message = SimReport venue_report | SimAnnotation sim_annotation | SimAlert sim_alert

definition alert_type_of :: "string \<Rightarrow> sim_alert_type" where
  "alert_type_of reason =
     (if reason = ''SIM_STALE_LOB'' then SIM_ALERT_TYPE_STALE_LOB
      else if reason = ''SIM_TIMEOUT'' then SIM_ALERT_TYPE_SIM_TIMEOUT
      else if reason = ''SIM_NO_LIQUIDITY'' then SIM_ALERT_TYPE_LOB_SOURCE_DOWN
      else SIM_ALERT_TYPE_UNSPECIFIED)"

definition lob_age :: "int \<Rightarrow> venue_snapshot option \<Rightarrow> int" where
  "lob_age now_ms snap = (case snap of None \<Rightarrow> 0
     | Some s \<Rightarrow> if vn_ts_event_ms s < now_ms then min (now_ms - vn_ts_event_ms s) 4294967295 else 0)"

text \<open>What is sent, as topic, key and message, once the latency of the venue has passed.\<close>

definition PublishSimExecution ::
    "fp \<Rightarrow> cmath \<Rightarrow> ('r, 'b) rng_scheme \<Rightarrow> (string \<Rightarrow> int) \<Rightarrow> report_ids \<Rightarrow> venue_snapshot umap
      \<Rightarrow> exec_intent \<Rightarrow> route_decision \<Rightarrow> (string \<times> string \<times> sim_message) list" where
  "PublishSimExecution fl cm rg hash ids snaps i d =
     (let snap = find snaps (ei_venue i);
          age = lob_age (fst (ri_now ids) * 1000 + snd (ri_now ids) div 1000000) snap;
          seed = hash (if ei_client_order_id i = [] then ei_intent_id i else ei_client_order_id i);
          (rep, ann) = Assemble fl cm rg ids i snap age seed d;
          code = (case xr_error rep of None \<Rightarrow> [] | Some e \<Rightarrow> er_code e);
          alert = alert_type_of code
      in [(''sim.execution.venue'', if ei_hedge_flow_id i = [] then ei_intent_id i else ei_hedge_flow_id i,
           SimReport rep),
          (''sim.execution.annotations'', xr_report_id rep, SimAnnotation ann)]
         @ (if xr_status rep = EXEC_REJECTED \<and> alert \<noteq> SIM_ALERT_TYPE_UNSPECIFIED
            then [(''sim.alerts'', rd_sim_session_id d,
                   SimAlert \<lparr>za_type = alert, za_sim_session_id = rd_sim_session_id d, za_venue_id = ei_venue i,
                     za_symbol = RoutingSymbol (ei_instrument i),
                     za_message = (case xr_error rep of None \<Rightarrow> [] | Some e \<Rightarrow> er_message e)\<rparr>)]
            else []))"

end
