(* ===== verification/Venue_Tables.thy ===== *)
theory Venue_Tables
  imports Venue_Execution Combo_Tables
begin

text \<open>
  The tables of the hedging, \<open>hedgeflows\<close> and \<open>child_orders\<close> of \<open>infra/postgres/init.sql\<close>, and the
  repositories that write them (\<open>venues/src/infra/postgres_hedgeflow_repository.cpp\<close>,
  \<open>postgres_child_order_repository.cpp\<close>). A failed statement changes nothing and its result is ignored. Columns no modelled code reads (notional, reference price, profit, fee) are left
  out, as are time stamps other than whether a flow is completed.
\<close>

section \<open>Rows\<close>

record hedgeflow_row =
  hw_intent_id :: string
  hw_provider_id :: string
  hw_symbol :: string
  hw_side :: string
  hw_target_qty :: int
  hw_filled_qty :: int
  hw_avg_fill_price :: "int option"
  hw_urgency :: string
  hw_timeout_ms :: int
  hw_status :: string
  hw_error_code :: "string option"
  hw_error_message :: "string option"
  hw_completed :: bool

record child_order_row =
  cw_hedge_flow_id :: string
  cw_venue_id :: string
  cw_symbol :: string
  cw_side :: string
  cw_order_type :: string
  cw_qty :: int
  cw_price :: "int option"
  cw_tif :: string
  cw_filled_qty :: int
  cw_avg_price :: "int option"
  cw_client_order_id :: string
  cw_venue_order_id :: "string option"
  cw_status :: string
  cw_error_code :: "string option"
  cw_error_message :: "string option"

record hedge_db =
  hd_hedgeflows :: "hedgeflow_row umap"
  hd_child_orders :: "child_order_row umap"

text \<open>A value with more than 20 digits before the point overflows the column.\<close>

definition numeric_ok :: "int \<Rightarrow> bool" where
  "numeric_ok n = (\<bar>n\<bar> < 10 ^ 38)"

text \<open>\<open>filled_qty <= target_qty * 1.01\<close>: one percent of tolerance.\<close>

definition hedgeflow_row_ok :: "hedgeflow_row \<Rightarrow> bool" where
  "hedgeflow_row_ok r \<longleftrightarrow> 0 < hw_target_qty r \<and> numeric_ok (hw_target_qty r) \<and> 0 \<le> hw_filled_qty r
     \<and> numeric_ok (hw_filled_qty r) \<and> hw_filled_qty r * 100 \<le> hw_target_qty r * 101
     \<and> (case hw_avg_fill_price r of None \<Rightarrow> True | Some p \<Rightarrow> numeric_ok p)
     \<and> 0 < hw_timeout_ms r \<and> in_i32 (hw_timeout_ms r)"

definition child_row_ok :: "child_order_row \<Rightarrow> bool" where
  "child_row_ok r \<longleftrightarrow> 0 < cw_qty r \<and> numeric_ok (cw_qty r) \<and> 0 \<le> cw_filled_qty r
     \<and> numeric_ok (cw_filled_qty r) \<and> cw_filled_qty r * 100 \<le> cw_qty r * 101
     \<and> (case cw_price r of None \<Rightarrow> True | Some p \<Rightarrow> numeric_ok p)
     \<and> (case cw_avg_price r of None \<Rightarrow> True | Some p \<Rightarrow> numeric_ok p)"

section \<open>Hedge flows\<close>

fun flow_SideToText :: "side \<Rightarrow> string" where
  "flow_SideToText SIDE_BUY = ''BUY''"
| "flow_SideToText SIDE_SELL = ''SELL''"
| "flow_SideToText SIDE_UNSPECIFIED = ''BUY''"

fun UrgencyToText :: "urgency \<Rightarrow> string" where
  "UrgencyToText URGENCY_LOW = ''LOW''"
| "UrgencyToText URGENCY_HIGH = ''HIGH''"
| "UrgencyToText URGENCY_MEDIUM = ''MEDIUM''"
| "UrgencyToText URGENCY_UNSPECIFIED = ''MEDIUM''"

fun ReportStatusToHedgeFlowStatus :: "exec_status \<Rightarrow> string" where
  "ReportStatusToHedgeFlowStatus EXEC_FILLED = ''COMPLETED''"
| "ReportStatusToHedgeFlowStatus EXEC_PARTIALLY_FILLED = ''OPEN''"
| "ReportStatusToHedgeFlowStatus EXEC_UNDERFILLED = ''UNDERFILLED''"
| "ReportStatusToHedgeFlowStatus EXEC_REJECTED = ''REJECTED''"
| "ReportStatusToHedgeFlowStatus EXEC_CANCELLED = ''CANCELLED''"
| "ReportStatusToHedgeFlowStatus EXEC_EXPIRED = ''CANCELLED''"
| "ReportStatusToHedgeFlowStatus EXEC_OVERFILL_GUARD = ''COMPLETED''"
| "ReportStatusToHedgeFlowStatus EXEC_NEW = ''OPEN''"
| "ReportStatusToHedgeFlowStatus EXEC_UNSPECIFIED = ''OPEN''"

definition flow_IsTerminalStatus :: "string \<Rightarrow> bool" where
  "flow_IsTerminalStatus s = (s = ''COMPLETED'' \<or> s = ''UNDERFILLED'' \<or> s = ''REJECTED''
     \<or> s = ''CANCELLED'' \<or> s = ''RISK_REJECTED'')"

definition flow_id :: "string \<Rightarrow> string \<Rightarrow> string" where
  "flow_id flow intent = (if flow = [] then intent else flow)"

definition InsertOpen :: "exec_intent \<Rightarrow> hedge_db \<Rightarrow> hedge_db" where
  "InsertOpen i db =
     (if ei_intent_id i = [] then db
      else let k = flow_id (ei_hedge_flow_id i) (ei_intent_id i);
               r = \<lparr>hw_intent_id = ei_intent_id i, hw_provider_id = ei_provider_id i,
                    hw_symbol = in_symbol (ei_instrument i), hw_side = flow_SideToText (ei_side i),
                    hw_target_qty = pg_numeric (ei_target_qty i), hw_filled_qty = 0, hw_avg_fill_price = None,
                    hw_urgency = UrgencyToText (ei_urgency i),
                    hw_timeout_ms = (if 0 < ei_timeout_ms i then ei_timeout_ms i else 30000),
                    hw_status = ''OPEN'', hw_error_code = None, hw_error_message = None, hw_completed = False\<rparr>
           in if \<not> hedgeflow_row_ok r \<or> find (hd_hedgeflows db) k \<noteq> None then db
              else db\<lparr>hd_hedgeflows := put k r (hd_hedgeflows db)\<rparr>)"

text \<open>A quotient of numerics has at least 36 decimals here before the column rounds it to 18.\<close>

definition pg_average :: "int \<Rightarrow> int \<Rightarrow> int \<Rightarrow> int \<Rightarrow> int" where
  "pg_average avg filled price qty =
     round_away (of_int (round_away (of_int (avg * filled + price * qty) / of_int (filled + qty) * 10 ^ 18)) / 10 ^ 18)"

definition text_or :: "string \<Rightarrow> string option \<Rightarrow> string option" where
  "text_or s old = (if s = [] then old else Some s)"

definition report_error_code :: "('a) exec_report_scheme \<Rightarrow> string" where
  "report_error_code r = (case xr_error r of None \<Rightarrow> [] | Some e \<Rightarrow> er_code e)"

definition report_error_message :: "('a) exec_report_scheme \<Rightarrow> string" where
  "report_error_message r = (case xr_error r of None \<Rightarrow> [] | Some e \<Rightarrow> er_message e)"

definition settle_flow :: "('a) exec_report_scheme \<Rightarrow> hedgeflow_row \<Rightarrow> hedgeflow_row" where
  "settle_flow rep r =
     (let qty = pg_numeric (xr_filled_qty rep); price = pg_numeric (xr_average_price rep);
          filled = hw_filled_qty r + qty; st = ReportStatusToHedgeFlowStatus (xr_status rep)
      in r\<lparr>hw_filled_qty := filled,
           hw_avg_fill_price := (if 0 < filled
             then Some (pg_average (case hw_avg_fill_price r of None \<Rightarrow> 0 | Some a \<Rightarrow> a) (hw_filled_qty r) price qty)
             else hw_avg_fill_price r),
           hw_status := (if flow_IsTerminalStatus (hw_status r) then hw_status r else st),
           hw_error_code := text_or (report_error_code rep) (hw_error_code r),
           hw_error_message := text_or (report_error_message rep) (hw_error_message r),
           hw_completed := (flow_IsTerminalStatus st \<or> hw_completed r)\<rparr>)"

definition Flow_ApplyReport :: "('a) exec_report_scheme \<Rightarrow> hedge_db \<Rightarrow> hedge_db" where
  "Flow_ApplyReport rep db =
     (let k = flow_id (xr_hedge_flow_id rep) (xr_intent_id rep) in
      if k = [] then db
      else case find (hd_hedgeflows db) k of
             None \<Rightarrow> db
           | Some r \<Rightarrow> if hedgeflow_row_ok (settle_flow rep r)
                       then db\<lparr>hd_hedgeflows := put k (settle_flow rep r) (hd_hedgeflows db)\<rparr> else db)"

section \<open>Child orders\<close>

definition child_SideToText :: "side \<Rightarrow> string" where
  "child_SideToText s = (if s = SIDE_SELL then ''SELL'' else ''BUY'')"

definition StrategyToOrderType :: "strategy \<Rightarrow> string" where
  "StrategyToOrderType s = (if s = EXEC_STRATEGY_MARKET then ''MARKET''
     else if s = EXEC_STRATEGY_POST_ONLY then ''POST_ONLY'' else ''LIMIT'')"

definition TifToText :: "tif \<Rightarrow> string" where
  "TifToText t = (if t = TIF_IOC then ''IOC'' else if t = TIF_FOK then ''FOK'' else ''GTC'')"

fun ReportStatusToChildOrderStatus :: "exec_status \<Rightarrow> string" where
  "ReportStatusToChildOrderStatus EXEC_FILLED = ''FILLED''"
| "ReportStatusToChildOrderStatus EXEC_PARTIALLY_FILLED = ''PARTIALLY_FILLED''"
| "ReportStatusToChildOrderStatus EXEC_REJECTED = ''REJECTED''"
| "ReportStatusToChildOrderStatus EXEC_CANCELLED = ''CANCELLED''"
| "ReportStatusToChildOrderStatus EXEC_EXPIRED = ''CANCELLED''"
| "ReportStatusToChildOrderStatus EXEC_OVERFILL_GUARD = ''CANCELLED''"
| "ReportStatusToChildOrderStatus EXEC_UNDERFILLED = ''CANCELLED''"
| "ReportStatusToChildOrderStatus EXEC_NEW = ''PENDING''"
| "ReportStatusToChildOrderStatus EXEC_UNSPECIFIED = ''PENDING''"

text \<open>\<open>new_id\<close> is the identifier of an order without a client order id. The flow must exist (foreign
  key), and a flow has one order per client order id (unique index).\<close>

definition InsertPending :: "string \<Rightarrow> exec_intent \<Rightarrow> hedge_db \<Rightarrow> hedge_db" where
  "InsertPending new_id i db =
     (if ei_intent_id i = [] then db
      else let k = (if ei_client_order_id i \<noteq> [] then ei_client_order_id i else new_id);
               flow = flow_id (ei_hedge_flow_id i) (ei_intent_id i);
               r = \<lparr>cw_hedge_flow_id = flow, cw_venue_id = ei_venue i,
                    cw_symbol = (if ei_venue_symbol i = [] then in_symbol (ei_instrument i) else ei_venue_symbol i),
                    cw_side = child_SideToText (ei_side i), cw_order_type = StrategyToOrderType (ei_strategy i),
                    cw_qty = pg_numeric (ei_target_qty i), cw_price = map_option pg_numeric (ei_limit_price i),
                    cw_tif = TifToText (ei_tif i), cw_filled_qty = 0, cw_avg_price = None,
                    cw_client_order_id = ei_client_order_id i, cw_venue_order_id = None, cw_status = ''PENDING'',
                    cw_error_code = None, cw_error_message = None\<rparr>
           in if \<not> child_row_ok r \<or> find (hd_child_orders db) k \<noteq> None
                \<or> find (hd_hedgeflows db) flow = None
                \<or> (\<exists>x \<in> snd ` set (hd_child_orders db).
                     cw_hedge_flow_id x = flow \<and> cw_client_order_id x = ei_client_order_id i) then db
              else db\<lparr>hd_child_orders := put k r (hd_child_orders db)\<rparr>)"

definition settle_child :: "('a) exec_report_scheme \<Rightarrow> child_order_row \<Rightarrow> child_order_row" where
  "settle_child rep r =
     r\<lparr>cw_filled_qty := pg_numeric (xr_filled_qty rep), cw_avg_price := Some (pg_numeric (xr_average_price rep)),
       cw_venue_order_id := text_or (xr_venue_order_id rep) (cw_venue_order_id r),
       cw_status := ReportStatusToChildOrderStatus (xr_status rep),
       cw_error_code := text_or (report_error_code rep) (cw_error_code r),
       cw_error_message := text_or (report_error_message rep) (cw_error_message r)\<rparr>"

definition child_matches :: "('a) exec_report_scheme \<Rightarrow> child_order_row \<Rightarrow> bool" where
  "child_matches rep r \<longleftrightarrow> cw_hedge_flow_id r = flow_id (xr_hedge_flow_id rep) (xr_intent_id rep)
     \<and> cw_client_order_id r = xr_client_order_id rep"

definition Child_ApplyReport :: "('a) exec_report_scheme \<Rightarrow> hedge_db \<Rightarrow> hedge_db" where
  "Child_ApplyReport rep db =
     (if xr_client_order_id rep = [] \<or> flow_id (xr_hedge_flow_id rep) (xr_intent_id rep) = [] then db
      else let rows = map (\<lambda>(k, r). (k, if child_matches rep r then settle_child rep r else r)) (hd_child_orders db)
           in if \<forall>(k, r) \<in> set (hd_child_orders db). child_matches rep r \<longrightarrow> child_row_ok (settle_child rep r)
              then db\<lparr>hd_child_orders := rows\<rparr> else db)"

end
