(* ===== verification/Venue_Loop.thy ===== *)
theory Venue_Loop
  imports Venue_Simulator Venue_Tables
begin

text \<open>
  The execution side of the venues service (\<open>venues/src/app/venues_loop.cpp\<close>): the handler of an
  execution intent (\<open>exec_consume_loop\<close>), of a \<open>sim.config\<close> event and the operator's calls on the
  configuration of a venue. The state is what these handlers share; what else changes an adapter or
  the last snapshots happens between them. A failed write to the tables changes nothing.
\<close>

section \<open>State\<close>

record 'a venues =
  vl_adapters :: "'a adapter list"
  vl_next_exec_adapter_idx :: nat
  vl_venue_configs :: "venue_config umap"
  vl_execute_on_venue :: execute_on_venue
  vl_registry :: session_registry
  vl_last_snapshots :: "venue_snapshot umap"
  vl_db :: hedge_db

text \<open>What is fixed when the service starts. A repository that is not configured is \<open>False\<close>.\<close>

record ('a, 'r) venues_env =
  ve_ops :: "'a adapter_ops"
  ve_fp :: fp
  ve_cmath :: cmath
  ve_rng :: "'r rng"
  ve_hash :: "string \<Rightarrow> int"
  ve_topics :: report_topics
  ve_backtest_session :: backtest_session
  ve_hedgeflow_repo :: bool
  ve_child_order_repo :: bool
  ve_default_subscription :: venue_subscription

text \<open>The identifiers and clock readings of one message.\<close>

record intent_ids =
  id_report :: report_ids
  id_sim_report :: report_ids
  id_child_order :: string
  id_exception :: string

datatype venue_output =
    Produced string string venue_report
  | SimProduced string string sim_message
  | ObserveExecution exec_intent venue_report

section \<open>Execution intents\<close>

definition make_execution_exception_report ::
    "report_ids \<Rightarrow> exec_intent \<Rightarrow> string \<Rightarrow> string \<Rightarrow> venue_report" where
  "make_execution_exception_report ids i code msg =
     \<lparr>xr_ts_event = Some (ri_now ids), xr_report_id = ri_report_id ids, xr_intent_id = ei_intent_id i,
      xr_hedge_flow_id = [], xr_venue = ei_venue i, xr_instrument = ei_instrument i,
      xr_venue_symbol = ei_venue_symbol i, xr_venue_order_id = [], xr_client_order_id = ei_client_order_id i,
      xr_status = EXEC_REJECTED, xr_filled_qty = dzero, xr_remaining_qty = ei_target_qty i,
      xr_average_price = dzero, xr_fee_total = None, xr_error = Some (mk_error code msg),
      vr_source = ''venues'', vr_correlation_id = intent_correlation i, vr_partition_key = ei_intent_id i,
      vr_tags = [], vr_slippage_bps = 0\<rparr>"

text \<open>The order is sent to the chosen adapter. The report carries the flow of the intent.\<close>

definition execute_live ::
    "('a, 'r) venues_env \<Rightarrow> intent_ids \<Rightarrow> exec_intent \<Rightarrow> 'a venues \<Rightarrow> venue_report \<times> 'a venues" where
  "execute_live ve ids i s =
     (let (k, nxt) = find_adapter (ve_ops ve) (vl_venue_configs s) (vl_adapters s)
            (vl_next_exec_adapter_idx s) (ei_venue i);
          ad = map_option (\<lambda>k. vl_adapters s ! k) k;
          (rep, ad') = ExecuteOnVenue_Run (ve_ops ve) (id_report ids) (vl_execute_on_venue s) i ad;
          rep = (case rep of Some r \<Rightarrow> r
                 | None \<Rightarrow> make_execution_exception_report (id_report ids) i ''EXECUTION_EXCEPTION'' (id_exception ids));
          rep = (if xr_hedge_flow_id rep = [] \<and> ei_hedge_flow_id i \<noteq> []
                 then rep\<lparr>xr_hedge_flow_id := ei_hedge_flow_id i\<rparr> else rep)
      in (rep, s\<lparr>vl_next_exec_adapter_idx := nxt,
                 vl_adapters := (case (k, ad') of (Some k, Some a) \<Rightarrow> (vl_adapters s)[k := a]
                   | _ \<Rightarrow> vl_adapters s)\<rparr>))"

definition store_intent :: "('a, 'r) venues_env \<Rightarrow> intent_ids \<Rightarrow> exec_intent \<Rightarrow> hedge_db \<Rightarrow> hedge_db" where
  "store_intent ve ids i db =
     (let db = (if ve_hedgeflow_repo ve then InsertOpen i db else db)
      in if ve_child_order_repo ve then InsertPending (id_child_order ids) i db else db)"

definition store_report :: "('a, 'r) venues_env \<Rightarrow> venue_report \<Rightarrow> hedge_db \<Rightarrow> hedge_db" where
  "store_report ve r db =
     (let db = (if ve_child_order_repo ve then Child_ApplyReport r db else db)
      in if ve_hedgeflow_repo ve then Flow_ApplyReport r db else db)"

definition simulated ::
    "('a, 'r) venues_env \<Rightarrow> intent_ids \<Rightarrow> exec_intent \<Rightarrow> route_decision \<Rightarrow> 'a venues \<Rightarrow> venue_output list" where
  "simulated ve ids i d s =
     map (\<lambda>(topic, key, m). SimProduced topic key m)
       (PublishSimExecution (ve_fp ve) (ve_cmath ve) (ve_rng ve) (ve_hash ve) (id_sim_report ids)
         (vl_last_snapshots s) i d)"

definition OnExecutionIntent ::
    "('a, 'r) venues_env \<Rightarrow> intent_ids \<Rightarrow> exec_intent \<Rightarrow> 'a venues \<Rightarrow> 'a venues \<times> venue_output list" where
  "OnExecutionIntent ve ids i s =
     (let d = Decide (vl_registry s) (ei_venue i) (RoutingSymbol (ei_instrument i)) in
      if rd_mode d = ROUTING_MODE_SIM_ONLY then (s, simulated ve ids i d s)
      else let s = s\<lparr>vl_db := store_intent ve ids i (vl_db s)\<rparr>;
               (rep, s) = execute_live ve ids i s;
               rep = Normalize rep;
               s = s\<lparr>vl_db := store_report ve rep (vl_db s)\<rparr>
           in (s, [ObserveExecution i rep]
                  @ map (\<lambda>(topic, key, r). Produced topic key r)
                      (Publish (ve_topics ve) (ve_backtest_session ve) rep)
                  @ (if rd_mode d = ROUTING_MODE_SHADOW then simulated ve ids i d s else [])))"

section \<open>Session events and the operator's calls\<close>

definition OnSimConfig :: "config_event \<Rightarrow> 'a venues \<Rightarrow> 'a venues" where
  "OnSimConfig e s = s\<lparr>vl_registry := snd (ApplySimConfigEvent e (vl_registry s))\<rparr>"

definition configure_adapter ::
    "'a adapter_ops \<Rightarrow> venue_config \<Rightarrow> venue_subscription \<Rightarrow> 'a adapter \<Rightarrow> 'a adapter" where
  "configure_adapter ops c sub a =
     (if ad_VenueId a \<noteq> vf_venue_id c then a
      else let (_, x) = ao_ApplyRuntimeConfig ops c (ad_state a);
               (ok, x) = ao_Subscribe ops [sub] x
           in if ok then a\<lparr>ad_state := x\<rparr>
              else let (_, x) = ao_Reconnect ops x; (_, x) = ao_Subscribe ops [sub] x
                   in a\<lparr>ad_state := x\<rparr>)"

definition apply_runtime_config :: "('a, 'r) venues_env \<Rightarrow> venue_config \<Rightarrow> 'a venues \<Rightarrow> 'a venues" where
  "apply_runtime_config ve c s =
     (let sub = ve_default_subscription ve;
          sub = (if vf_venue_symbol c \<noteq> [] then sub\<lparr>vs_venue_symbol := vf_venue_symbol c\<rparr> else sub);
          sub = sub\<lparr>vs_depth_levels := nat (max 1 (vf_depth_levels c))\<rparr>;
          rc = c\<lparr>vf_stale_threshold_ms := max 1 (vf_stale_threshold_ms c),
                 vf_circuit_breaker_errors := max 1 (vf_circuit_breaker_errors c),
                 vf_circuit_breaker_window_ms := max 1 (vf_circuit_breaker_window_ms c),
                 vf_circuit_breaker_cooldown_ms := max 1 (vf_circuit_breaker_cooldown_ms c)\<rparr>
      in s\<lparr>vl_execute_on_venue := SetVenueSymbolOverride (vf_venue_id c) (vf_venue_symbol c) (vl_execute_on_venue s),
           vl_adapters := map (configure_adapter (ve_ops ve) rc sub) (vl_adapters s)\<rparr>)"

definition UpsertVenueConfig ::
    "('a, 'r) venues_env \<Rightarrow> int \<Rightarrow> venue_config \<Rightarrow> 'a venues \<Rightarrow> bool \<times> 'a venues" where
  "UpsertVenueConfig ve now_ms c s =
     (if vf_venue_id c = [] then (False, s)
      else let c = c\<lparr>vf_depth_levels := max 1 (vf_depth_levels c),
                     vf_stale_threshold_ms := max 1 (vf_stale_threshold_ms c),
                     vf_circuit_breaker_errors := max 1 (vf_circuit_breaker_errors c),
                     vf_circuit_breaker_window_ms := max 1 (vf_circuit_breaker_window_ms c),
                     vf_circuit_breaker_cooldown_ms := max 1 (vf_circuit_breaker_cooldown_ms c),
                     vf_curve_level := (if vf_curve_level c = [] then ''L3'' else vf_curve_level c),
                     vf_routing_mode := normalize_routing_mode (vf_routing_mode c), vf_updated_at_ms := now_ms\<rparr>;
               s = apply_runtime_config ve c s
           in (True, s\<lparr>vl_venue_configs := put (vf_venue_id c) c (vl_venue_configs s)\<rparr>))"

definition DeleteVenueConfig ::
    "('a, 'r) venues_env \<Rightarrow> int \<Rightarrow> string \<Rightarrow> 'a venues \<Rightarrow> bool \<times> 'a venues" where
  "DeleteVenueConfig ve now_ms venue s =
     (case find (vl_venue_configs s) venue of
        None \<Rightarrow> (False, s)
      | Some c \<Rightarrow>
          let c = c\<lparr>vf_is_active := False, vf_updated_at_ms := now_ms\<rparr>
          in (True, apply_runtime_config ve c (s\<lparr>vl_venue_configs := put venue c (vl_venue_configs s)\<rparr>)))"

definition ForceReconnect :: "('a, 'r) venues_env \<Rightarrow> string \<Rightarrow> 'a venues \<Rightarrow> bool \<times> 'a venues" where
  "ForceReconnect ve venue s =
     (if venue = [] then (False, s)
      else case List.find (\<lambda>k. ad_VenueId (vl_adapters s ! k) = venue) [0..<length (vl_adapters s)] of
             None \<Rightarrow> (False, s)
           | Some k \<Rightarrow>
               let a = vl_adapters s ! k; (ok, x) = ao_Reconnect (ve_ops ve) (ad_state a)
               in (ok, s\<lparr>vl_adapters := (vl_adapters s)[k := a\<lparr>ad_state := x\<rparr>]\<rparr>))"

end
