(* ===== verification/Venue_Port.thy ===== *)
theory Venue_Port
  imports Venue_Execution
begin

text \<open>
  What the venues service relies on when it calls an adapter (\<open>VenueAdapter::SendOrder\<close>), as an
  interface: every order is answered, never with more than its target and in full when the answer says
  filled. Both simulated adapters implement it, the one of backtests when its policies walk the book.
\<close>

section \<open>The interface\<close>

definition order_ok :: "exec_intent \<Rightarrow> bool" where
  "order_ok i \<longleftrightarrow> 0 \<le> units (ei_target_qty i) \<and> 0 \<le> scale (ei_target_qty i)"

definition fair_result :: "exec_intent \<Rightarrow> order_result \<Rightarrow> bool" where
  "fair_result i r \<longleftrightarrow> 0 \<le> units (or_filled_qty r) \<and> 0 \<le> scale (or_filled_qty r)
     \<and> scale (or_filled_qty r) \<le> scale (ei_target_qty i) \<and> dval (or_filled_qty r) \<le> dval (ei_target_qty i)
     \<and> (or_status r = EXEC_FILLED \<longrightarrow> dval (or_filled_qty r) = dval (ei_target_qty i))
     \<and> (or_status r = EXEC_REJECTED \<longrightarrow> units (or_filled_qty r) = 0)
     \<and> or_status r \<in> {EXEC_FILLED, EXEC_PARTIALLY_FILLED, EXEC_REJECTED, EXEC_CANCELLED}"

text \<open>A child intent differs from its intent in the venue, the instrument's missing symbol, the symbol of
  the venue, a missing client order id, and defaults of strategy and time in force.\<close>

lemma let_keeps: "Q e \<Longrightarrow> (\<And>c. Q c \<Longrightarrow> R (f c)) \<Longrightarrow> R (Let e f)"
  by simp

definition child_venue :: "exec_intent \<Rightarrow> 'a adapter option \<Rightarrow> string" where
  "child_venue i ad = (case ad of None \<Rightarrow> ei_venue i | Some a \<Rightarrow> if ad_VenueId a = [] then ei_venue i else ad_VenueId a)"

definition child_of :: "exec_intent \<Rightarrow> string \<Rightarrow> exec_intent \<Rightarrow> bool" where
  "child_of i v c \<longleftrightarrow> (\<exists>s o' st f. c = i\<lparr>ei_venue := v, ei_instrument := normalize_instrument (ei_instrument i),
       ei_venue_symbol := s, ei_client_order_id := o', ei_strategy := st, ei_tif := f\<rparr>
     \<and> (o' = ei_client_order_id i \<or> ei_client_order_id i = [] \<and> o' = ei_intent_id i))"

lemma child_of_update:
  assumes "child_of i v c"
  shows "child_of i v (c\<lparr>ei_venue_symbol := s\<rparr>)" "child_of i v (c\<lparr>ei_strategy := st\<rparr>)" "child_of i v (c\<lparr>ei_tif := f\<rparr>)"
    "ei_client_order_id c = [] \<Longrightarrow> child_of i v (c\<lparr>ei_client_order_id := ei_intent_id c\<rparr>)"
proof -
  obtain s' o' st' f' where c: "c = i\<lparr>ei_venue := v, ei_instrument := normalize_instrument (ei_instrument i),
       ei_venue_symbol := s', ei_client_order_id := o', ei_strategy := st', ei_tif := f'\<rparr>"
     "o' = ei_client_order_id i \<or> ei_client_order_id i = [] \<and> o' = ei_intent_id i"
    using assms unfolding child_of_def by blast
  show "child_of i v (c\<lparr>ei_venue_symbol := s\<rparr>)" unfolding child_of_def c(1)
    by (rule exI[of _ s], rule exI[of _ o'], rule exI[of _ st'], rule exI[of _ f']) (use c(2) in simp)
  show "child_of i v (c\<lparr>ei_strategy := st\<rparr>)" unfolding child_of_def c(1)
    by (rule exI[of _ s'], rule exI[of _ o'], rule exI[of _ st], rule exI[of _ f']) (use c(2) in simp)
  show "child_of i v (c\<lparr>ei_tif := f\<rparr>)" unfolding child_of_def c(1)
    by (rule exI[of _ s'], rule exI[of _ o'], rule exI[of _ st'], rule exI[of _ f]) (use c(2) in simp)
  show "child_of i v (c\<lparr>ei_client_order_id := ei_intent_id c\<rparr>)" if "ei_client_order_id c = []" unfolding child_of_def c(1)
    by (rule exI[of _ s'], rule exI[of _ "ei_intent_id i"], rule exI[of _ st'], rule exI[of _ f']) (use c that in auto)
qed

lemma child_shape: "child_of i (child_venue i ad) (BuildChildIntent x i ad)"
proof -
  let ?v = "child_venue i ad" and ?n = "normalize_instrument (ei_instrument i)"
  have base: "child_of i ?v (i\<lparr>ei_venue := ?v, ei_instrument := ?n\<rparr>)" unfolding child_of_def
    by (rule exI[of _ "ei_venue_symbol i"], rule exI[of _ "ei_client_order_id i"], rule exI[of _ "ei_strategy i"],
        rule exI[of _ "ei_tif i"]) simp
  show ?thesis unfolding BuildChildIntent_def
  proof (rule let_keeps[of "\<lambda>c. c = i\<lparr>ei_venue := ?v\<rparr>"], simp add: child_venue_def split: option.split,
      rule let_keeps[of "child_of i ?v"], simp only: base, rule let_keeps[of "\<lambda>_. True"], simp,
      rule let_keeps[of "child_of i ?v"], simp add: child_of_update, rule let_keeps[of "child_of i ?v"],
      simp add: child_of_update, rule let_keeps[of "child_of i ?v"], simp add: child_of_update)
    fix c assume "child_of i ?v c"
    then show "child_of i ?v (if ei_tif c = TIF_UNSPECIFIED
      then (if (case ad of None \<Rightarrow> False | Some a \<Rightarrow> ad_Type a = VenueType_kDex \<or> ad_Type a = VenueType_kAmm)
            then c\<lparr>ei_tif := TIF_IOC\<rparr> else if real_limit c \<noteq> None then c\<lparr>ei_tif := TIF_GTC\<rparr> else c) else c)"
      by (simp add: child_of_update)
  qed
qed

lemma child_fields:
  "ei_intent_id (BuildChildIntent x i ad) = ei_intent_id i" "ei_hedge_flow_id (BuildChildIntent x i ad) = ei_hedge_flow_id i"
  "ei_side (BuildChildIntent x i ad) = ei_side i" "ei_target_qty (BuildChildIntent x i ad) = ei_target_qty i"
  "ei_limit_price (BuildChildIntent x i ad) = ei_limit_price i" "ei_meta (BuildChildIntent x i ad) = ei_meta i"
  "ei_venue (BuildChildIntent x i ad) = child_venue i ad"
  "ei_instrument (BuildChildIntent x i ad) = normalize_instrument (ei_instrument i)"
  "ei_client_order_id i \<noteq> [] \<Longrightarrow> ei_client_order_id (BuildChildIntent x i ad) = ei_client_order_id i"
  using child_shape[of i ad x] unfolding child_of_def by auto

locale venue_port =
  fixes ops :: "'a adapter_ops"
    and fit :: "'a \<Rightarrow> bool"
  assumes reconnect_fit: "fit a \<Longrightarrow> fit (snd (ao_Reconnect ops a))"
    and send_fit: "fit a \<Longrightarrow> fit (snd (ao_SendOrder ops i a))"
    and send_answers: "fit a \<Longrightarrow> order_ok i \<Longrightarrow> \<exists>r. fst (ao_SendOrder ops i a) = Some r \<and> fair_result i r"
begin

text \<open>Whatever happens on the way, the intent gets a report and the adapter stays fit.\<close>

lemma refusal_fair: "fair_result i (refused code msg empty_result)" if "order_ok i"
  using that by (simp add: fair_result_def refused_def empty_result_def dzero_def dval_def order_ok_def)

lemma run_answers:
  assumes "order_ok i" "\<forall>a. ad = Some a \<longrightarrow> fit (ad_state a)"
  shows "\<exists>r venue. fst (ExecuteOnVenue_Run ops ids x i ad)
        = Some (make_execution_report ids (BuildChildIntent x i ad) venue r)
      \<and> fair_result i r"
    and "\<forall>a. snd (ExecuteOnVenue_Run ops ids x i ad) = Some a \<longrightarrow> fit (ad_state a)"
proof -
  let ?c = "BuildChildIntent x i ad"
  have c: "ei_target_qty ?c = ei_target_qty i"
    by (simp add: child_fields)
  have ok: "order_ok ?c" and fair: "fair_result ?c r = fair_result i r" for r
    using assms(1) by (simp_all add: order_ok_def fair_result_def c)
  have "(\<exists>r venue. fst (ExecuteOnVenue_Run ops ids x i ad) = Some (make_execution_report ids ?c venue r)
      \<and> fair_result i r) \<and> (\<forall>a. snd (ExecuteOnVenue_Run ops ids x i ad) = Some a \<longrightarrow> fit (ad_state a))"
  proof (cases ad)
    case None
    show ?thesis
      using refusal_fair[OF assms(1)] by (auto simp: ExecuteOnVenue_Run_def None Let_def)
  next
    case (Some a)
    let ?st = "if ao_Heartbeat ops (ad_state a) = kDisconnected then ao_Reconnect ops (ad_state a) else (True, ad_state a)"
    obtain up s where st: "?st = (up, s)" by fastforce
    have s: "fit s" using st assms(2) Some reconnect_fit[of "ad_state a"] by (auto split: if_splits)
    show ?thesis
    proof (cases up)
      case False
      then show ?thesis using refusal_fair[OF assms(1)] s st
        by (auto simp: ExecuteOnVenue_Run_def Some[symmetric]) (auto simp: Some)
    next
      case True
      obtain r s' where send: "ao_SendOrder ops ?c s = (r, s')" by fastforce
      have "\<exists>x. r = Some x \<and> fair_result i x" "fit s'"
        using send_answers[OF s ok] send_fit[OF s, of ?c] send fair by auto
      then show ?thesis using st True send by (auto simp: ExecuteOnVenue_Run_def Some)
    qed
  qed
  then show "\<exists>r venue. fst (ExecuteOnVenue_Run ops ids x i ad) = Some (make_execution_report ids ?c venue r)
      \<and> fair_result i r"
    "\<forall>a. snd (ExecuteOnVenue_Run ops ids x i ad) = Some a \<longrightarrow> fit (ad_state a)" by blast+
qed

end

section \<open>The market simulator\<close>

interpretation simulated_market: venue_port sim_ops "\<lambda>_. True"
  by unfold_locales
    (auto simp: sim_ops_def sim_SendOrder_def fair_result_def refused_def empty_result_def order_ok_def dzero_def
      dval_def Let_def)

section \<open>Walking a book\<close>

definition usable_level :: "int \<Rightarrow> book_level \<Rightarrow> bool" where
  "usable_level sc l \<longleftrightarrow> 0 < units (bl_qty l) \<and> scale (bl_qty l) = sc"

text \<open>The quantity taken from each level, best first.\<close>

fun takes :: "int \<Rightarrow> book_level list \<Rightarrow> int \<Rightarrow> int list" where
  "takes sc [] rest = []"
| "takes sc (l # ls) rest = (if usable_level sc l then min (units (bl_qty l)) (max 0 rest) else 0)
     # takes sc ls (if usable_level sc l then rest - min (units (bl_qty l)) (max 0 rest) else rest)"

definition offered :: "int \<Rightarrow> book_level list \<Rightarrow> int" where
  "offered sc ls = (\<Sum>l \<leftarrow> filter (usable_level sc) ls. units (bl_qty l))"

definition notional_of :: "book_level list \<Rightarrow> int list \<Rightarrow> int" where
  "notional_of ls ts = (\<Sum>(l, t) \<leftarrow> zip ls ts. t * units (bl_price l))"

lemma takes_length [simp]: "length (takes sc ls rest) = length ls"
  by (induction ls arbitrary: rest) simp_all

lemma takes_nothing: "rest \<le> 0 \<Longrightarrow> takes sc ls rest = replicate (length ls) 0"
  by (induction ls arbitrary: rest) (auto simp: usable_level_def)

lemma offered_nonneg: "0 \<le> offered sc ls"
  unfolding offered_def by (induction ls) (auto simp: usable_level_def)

lemma takes_sum: "0 \<le> rest \<Longrightarrow> sum_list (takes sc ls rest) = min rest (offered sc ls)"
proof (induction ls arbitrary: rest)
  case (Cons l ls)
  show ?case
    using Cons.IH[of "rest - min (units (bl_qty l)) rest"] Cons.IH[of rest] Cons.prems offered_nonneg[of sc ls]
    by (auto simp: offered_def usable_level_def)
qed (simp add: offered_def)

lemma takes_range: "t \<in> set (takes sc ls rest) \<Longrightarrow> 0 \<le> t"
  by (induction ls arbitrary: rest) (auto simp: usable_level_def)

lemma takes_bound: "k < length ls \<Longrightarrow> 0 < takes sc ls rest ! k \<Longrightarrow>
    usable_level sc (ls ! k) \<and> takes sc ls rest ! k \<le> units (bl_qty (ls ! k))"
proof (induction ls arbitrary: k rest)
  case (Cons l ls)
  then show ?case by (cases k) (auto split: if_splits)
qed simp

text \<open>A level is only touched when the better ones are used up.\<close>

lemma takes_in_order:
  "j < k \<Longrightarrow> k < length ls \<Longrightarrow> 0 < takes sc ls rest ! k \<Longrightarrow> usable_level sc (ls ! j) \<Longrightarrow>
   takes sc ls rest ! j = units (bl_qty (ls ! j))"
proof (induction ls arbitrary: j k rest)
  case (Cons l ls)
  then obtain k' where k: "k = Suc k'" by (cases k) auto
  show ?case
  proof (cases j)
    case (Suc j')
    then show ?thesis using Cons k by (auto split: if_splits)
  next
    case 0
    let ?t = "min (units (bl_qty l)) (max 0 rest)"
    have u: "usable_level sc l" using Cons.prems(4) 0 by simp
    have "0 < rest - ?t"
    proof (rule ccontr)
      assume "\<not> 0 < rest - ?t"
      then have "takes sc ls (rest - ?t) = replicate (length ls) 0" by (intro takes_nothing) simp
      then show False using Cons.prems(2,3) u k by simp
    qed
    then show ?thesis using u 0 by simp
  qed
qed simp

lemma weighted_prices:
  assumes "\<forall>l \<in> set ls. usable_level sc l \<longrightarrow> lo \<le> units (bl_price l) \<and> units (bl_price l) \<le> hi"
  shows "lo * sum_list (takes sc ls rest) \<le> notional_of ls (takes sc ls rest)
    \<and> notional_of ls (takes sc ls rest) \<le> hi * sum_list (takes sc ls rest)"
  using assms
proof (induction ls arbitrary: rest)
  case (Cons l ls)
  let ?t = "if usable_level sc l then min (units (bl_qty l)) (max 0 rest) else 0"
  have t: "0 \<le> ?t" by (auto simp: usable_level_def)
  have "lo * ?t \<le> ?t * units (bl_price l)" "?t * units (bl_price l) \<le> hi * ?t"
    using Cons.prems t mult_left_mono[of lo "units (bl_price l)" ?t] mult_left_mono[of "units (bl_price l)" hi ?t]
    by (auto simp: mult.commute)
  moreover have "takes sc (l # ls) rest = ?t # takes sc ls (if usable_level sc l then rest - ?t else rest)" by simp
  ultimately show ?case
    using Cons.IH[of "if usable_level sc l then rest - ?t else rest"] Cons.prems
    by (simp add: notional_of_def distrib_left)
qed (simp add: notional_of_def)

definition fair_prices :: "int \<Rightarrow> book_level list \<Rightarrow> bool" where
  "fair_prices sc ls \<longleftrightarrow> (\<forall>l \<in> set ls. usable_level sc l \<longrightarrow> 0 \<le> units (bl_price l) \<and> units (bl_price l) \<le> max_units)"

lemma walked:
  assumes "fair_prices sc ls" "0 \<le> notional" "0 \<le> rest" "notional + rest * max_units \<le> max_units * max_units"
  shows "walk_levels ls sc (rest, filled, notional) = (rest - sum_list (takes sc ls rest),
     filled + sum_list (takes sc ls rest), notional + notional_of ls (takes sc ls rest))"
  using assms
proof (induction ls arbitrary: rest filled notional)
  case Nil
  then show ?case by (simp add: notional_of_def)
next
  case (Cons l ls)
  have fair: "fair_prices sc ls" using Cons.prems(1) by (simp add: fair_prices_def)
  show ?case
  proof (cases "rest \<le> 0")
    case True
    have z: "notional_of ls' (replicate (length ls') 0) = 0" for ls' by (induction ls') (simp_all add: notional_of_def)
    show ?thesis using True takes_nothing[OF True, of sc "l # ls"] z[of "l # ls"]
      by (simp del: takes.simps add: sum_list_replicate)
  next
    case False
    show ?thesis
    proof (cases "usable_level sc l")
      case u: False
      then have skip: "units (bl_qty l) \<le> 0 \<or> scale (bl_qty l) \<noteq> sc" by (auto simp: usable_level_def)
      show ?thesis using Cons.IH[OF fair Cons.prems(2-4), of filled] False u skip by (simp add: notional_of_def)
    next
      case u: True
      let ?t = "min (units (bl_qty l)) rest" and ?p = "units (bl_price l)"
      have p: "0 \<le> ?p" "?p \<le> max_units" using Cons.prems(1) u by (auto simp: fair_prices_def)
      have t: "0 \<le> ?t" "?t \<le> rest" using u Cons.prems(3) by (auto simp: usable_level_def)
      have tp: "0 \<le> ?t * ?p" "?t * ?p \<le> ?t * max_units" using t p by (simp_all add: mult_left_mono)
      have fits: "notional + ?t * ?p + (rest - ?t) * max_units \<le> max_units * max_units"
        using Cons.prems(4) tp(2) by (simp add: left_diff_distrib)
      have "0 \<le> (rest - ?t) * max_units" using t by simp
      then have "\<bar>notional + ?t * ?p\<bar> \<le> max_units * max_units" using fits Cons.prems(2) tp(1) by linarith
      then have "i128 (notional + ?t * ?p) = notional + ?t * ?p" by (intro i128_id in_i128_abs) simp
      moreover have "scale (bl_qty l) = sc" "\<not> units (bl_qty l) \<le> 0" using u by (auto simp: usable_level_def)
      ultimately have "walk_levels (l # ls) sc (rest, filled, notional)
          = walk_levels ls sc (rest - ?t, filled + ?t, notional + ?t * ?p)"
        using False by (simp add: Let_def)
      also have "\<dots> = (rest - ?t - sum_list (takes sc ls (rest - ?t)),
          filled + ?t + sum_list (takes sc ls (rest - ?t)),
          notional + ?t * ?p + notional_of ls (takes sc ls (rest - ?t)))"
        by (rule Cons.IH[OF fair _ _ fits]) (use Cons.prems(2) tp(1) t in simp_all)
      finally show ?thesis using u False by (simp add: notional_of_def)
    qed
  qed
qed

text \<open>Walking a book. For a target and prices in the range of 64 bits the walk takes from the levels
  in order, from none more than it offers and from none before the better ones are used up; it fills
  the smaller of the target and what the levels on the scale of the target offer, the rest
  remains, and its price is the notional of the touched levels over the filled quantity,
  truncated, and thus between the best and the worst price touched.
\<close>

theorem book_walk_exact:
  assumes "0 \<le> target" "target \<le> max_units" "fair_prices sc ls"
  defines "w \<equiv> walk_book ls target sc" and "ts \<equiv> takes sc ls target"
  shows "bw_filled_units w = sum_list ts \<and> bw_filled_units w = min target (offered sc ls)
    \<and> bw_filled_units w + bw_remaining_units w = target \<and> (bw_side_empty w \<longleftrightarrow> ls = [])
    \<and> (\<forall>k < length ls. 0 < ts ! k \<longrightarrow> usable_level sc (ls ! k) \<and> ts ! k \<le> units (bl_qty (ls ! k))
         \<and> (\<forall>j < k. usable_level sc (ls ! j) \<longrightarrow> ts ! j = units (bl_qty (ls ! j))))
    \<and> (0 < bw_filled_units w \<longrightarrow> bw_vwap_price_units w = notional_of ls ts div bw_filled_units w
         \<and> (\<forall>lo hi. (\<forall>l \<in> set ls. usable_level sc l \<longrightarrow> lo \<le> units (bl_price l) \<and> units (bl_price l) \<le> hi) \<longrightarrow>
              lo \<le> bw_vwap_price_units w \<and> bw_vwap_price_units w \<le> hi))"
proof -
  have fits: "0 + target * max_units \<le> max_units * max_units"
    using mult_right_mono[OF assms(2), of max_units] by simp
  note run = walked[OF assms(3) order_refl assms(1) fits, of 0, folded ts_def]
  have sum: "sum_list ts = min target (offered sc ls)" unfolding ts_def by (rule takes_sum[OF assms(1)])
  have pos: "0 \<le> sum_list ts" using sum assms(1) offered_nonneg[of sc ls] by simp
  have filled: "bw_filled_units w = sum_list ts" "bw_filled_units w + bw_remaining_units w = target"
      "bw_side_empty w \<longleftrightarrow> ls = []"
    using run sum assms(1) offered_nonneg[of sc ls]
    by (auto simp: w_def walk_book_def ts_def Let_def)
  have price: "bw_vwap_price_units w = notional_of ls ts div sum_list ts
      \<and> (\<forall>lo hi. (\<forall>l \<in> set ls. usable_level sc l \<longrightarrow> lo \<le> units (bl_price l) \<and> units (bl_price l) \<le> hi) \<longrightarrow>
            lo \<le> bw_vwap_price_units w \<and> bw_vwap_price_units w \<le> hi)" if f: "0 < sum_list ts"
  proof -
    have ne: "ls \<noteq> []" using f by (auto simp: ts_def)
    have "0 * sum_list ts \<le> notional_of ls ts \<and> notional_of ls ts \<le> max_units * sum_list ts"
      unfolding ts_def by (rule weighted_prices) (use assms(3) in \<open>auto simp: fair_prices_def\<close>)
    then have n: "0 \<le> notional_of ls ts" "notional_of ls ts div sum_list ts \<le> max_units"
      using f zdiv_mono1[of "notional_of ls ts" "max_units * sum_list ts" "sum_list ts"] by simp_all
    have "in_i64 (notional_of ls ts div sum_list ts)" using n f by (intro in_i64_abs) (simp add: pos_imp_zdiv_nonneg_iff)
    then have v: "bw_vwap_price_units w = notional_of ls ts div sum_list ts"
      using run ne f n(1) by (simp add: w_def walk_book_def Let_def i64_id signed_divide_int_def sgn_if in_i64_def)
    moreover have "lo \<le> notional_of ls ts div sum_list ts \<and> notional_of ls ts div sum_list ts \<le> hi"
      if "\<forall>l \<in> set ls. usable_level sc l \<longrightarrow> lo \<le> units (bl_price l) \<and> units (bl_price l) \<le> hi" for lo hi
    proof -
      have "lo * sum_list ts \<le> notional_of ls ts" "notional_of ls ts \<le> hi * sum_list ts"
        using weighted_prices[OF that, of target] unfolding ts_def by simp_all
      then show ?thesis using f zdiv_mono1[of "lo * sum_list ts" "notional_of ls ts" "sum_list ts"]
          zdiv_mono1[of "notional_of ls ts" "hi * sum_list ts" "sum_list ts"] by simp
    qed
    ultimately show ?thesis by (simp only:) blast
  qed
  have order: "0 < ts ! k \<Longrightarrow> k < length ls \<Longrightarrow> usable_level sc (ls ! k) \<and> ts ! k \<le> units (bl_qty (ls ! k))
      \<and> (\<forall>j < k. usable_level sc (ls ! j) \<longrightarrow> ts ! j = units (bl_qty (ls ! j)))" for k
    using takes_bound[of k ls sc target] takes_in_order[of _ k ls sc target] unfolding ts_def by blast
  show ?thesis unfolding filled(1)
    by (intro conjI) (use filled sum price order in \<open>blast | simp\<close>)+
qed

theorem book_walk_exact_witness:
  "bw_filled_units (walk_book [\<lparr>bl_price = mk_dec 100 0, bl_qty = mk_dec 3 0\<rparr>, \<lparr>bl_price = mk_dec 102 0, bl_qty = mk_dec 5 0\<rparr>] 4 0) = 4"
  using book_walk_exact[of 4 0 "[\<lparr>bl_price = mk_dec 100 0, bl_qty = mk_dec 3 0\<rparr>, \<lparr>bl_price = mk_dec 102 0, bl_qty = mk_dec 5 0\<rparr>]"]
  by (simp add: fair_prices_def usable_level_def offered_def)

section \<open>The adapter of backtests\<close>

definition walks :: "order_policy \<Rightarrow> bool" where
  "walks pol \<longleftrightarrow> op_walk_book pol \<and> op_forced_status pol = EXEC_UNSPECIFIED"

definition vsim_fit :: "vsim_adapter \<Rightarrow> bool" where
  "vsim_fit a \<longleftrightarrow> walks (va_default_policy a) \<and> (\<forall>k p. find (va_per_intent_policies a) k = Some p \<longrightarrow> walks p)"

lemma resolved_walks: "vsim_fit a \<Longrightarrow> walks (ResolvePolicy i a)"
  by (auto simp: vsim_fit_def ResolvePolicy_def find_or_def Let_def split: option.split)

text \<open>Quantities of a walk, whatever the prices are.\<close>

lemma walk_levels_quantities:
  "0 \<le> rest \<Longrightarrow> walk_levels ls sc (rest, filled, notional) = (r, f, n) \<Longrightarrow>
   f = filled + min rest (offered sc ls) \<and> r = rest - min rest (offered sc ls)"
proof (induction ls arbitrary: rest filled notional)
  case Nil
  then show ?case by (simp add: offered_def)
next
  case (Cons l ls)
  show ?case
  proof (cases "usable_level sc l \<and> 0 < rest")
    case False
    have "offered sc (l # ls) = (if usable_level sc l then units (bl_qty l) else 0) + offered sc ls"
      by (simp add: offered_def)
    moreover have "walk_levels ls sc (rest, filled, notional) = (r, f, n) \<or> rest = 0 \<and> (rest, filled) = (r, f)"
      using False Cons.prems by (auto simp: usable_level_def split: if_splits)
    ultimately show ?thesis
      using Cons.IH[OF Cons.prems(1)] False Cons.prems(1) offered_nonneg[of sc ls] by (auto simp: usable_level_def)
  next
    case True
    let ?t = "min (units (bl_qty l)) rest"
    have u: "0 < units (bl_qty l)" "scale (bl_qty l) = sc" using True by (simp_all add: usable_level_def)
    have "walk_levels ls sc (rest - ?t, filled + ?t, i128 (notional + ?t * units (bl_price l))) = (r, f, n)"
      using Cons.prems(2) True u by (simp add: Let_def)
    moreover have "0 \<le> rest - ?t" by simp
    ultimately have "f = filled + ?t + min (rest - ?t) (offered sc ls) \<and> r = rest - ?t - min (rest - ?t) (offered sc ls)"
      using Cons.IH by blast
    moreover have "min rest (units (bl_qty l) + offered sc ls) = ?t + min (rest - ?t) (offered sc ls)"
      using u(1) offered_nonneg[of sc ls] by (simp add: min_def)
    moreover have "offered sc (l # ls) = units (bl_qty l) + offered sc ls" using True by (simp add: offered_def)
    ultimately show ?thesis by simp
  qed
qed

lemma walk_quantities:
  assumes "0 \<le> target"
  shows "bw_filled_units (walk_book ls target sc) = min target (offered sc ls)"
    and "bw_remaining_units (walk_book ls target sc) = target - min target (offered sc ls)"
proof -
  obtain r f n where w: "walk_levels ls sc (target, 0, 0) = (r, f, n)" by (cases "walk_levels ls sc (target, 0, 0)")
  note q = walk_levels_quantities[OF assms w]
  show "bw_filled_units (walk_book ls target sc) = min target (offered sc ls)"
    "bw_remaining_units (walk_book ls target sc) = target - min target (offered sc ls)"
    using q w assms by (auto simp: walk_book_def offered_def)
qed

lemma enrich_sel [simp]:
  "or_filled_qty (enrich fl pol i f ref r) = or_filled_qty r" "or_status (enrich fl pol i f ref r) = or_status r"
  by (simp_all add: enrich_def Let_def)

lemma status_sel [simp]:
  "or_filled_qty (with_status st r) = or_filled_qty r" "or_status (with_status st r) = st"
  "or_filled_qty (refused code msg r) = or_filled_qty r" "or_status (refused code msg r) = EXEC_REJECTED"
  by (simp_all add: with_status_def refused_def)

lemma walk_result_fair:
  assumes ok: "order_ok i" and pol: "walks pol" and r: "or_filled_qty r = dzero"
  shows "fair_result i (walk_result fl pol i snap r)"
proof -
  let ?t = "ei_target_qty i"
  have none: "fair_result i x" if "or_filled_qty x = dzero" "or_status x = EXEC_REJECTED \<or> or_status x = EXEC_CANCELLED" for x
    using that ok by (auto simp: fair_result_def order_ok_def dzero_def dval_def)
  have t: "0 \<le> units ?t" "0 \<le> scale ?t" using ok by (simp_all add: order_ok_def)
  show ?thesis
  proof (cases snap)
    case None
    then show ?thesis using r by (intro none) (simp_all add: walk_result_def)
  next
    case (Some s)
    define ls where "ls = (if ei_side i \<noteq> SIDE_SELL then ws_asks s else ws_bids s)"
    let ?w = "walk_book ls (units ?t) (scale ?t)"
    note q = walk_quantities[OF t(1), of ls "scale ?t"]
    define unfillable where "unfillable \<longleftrightarrow> bw_side_empty ?w \<or> bw_filled_units ?w = 0"
    define breached where "breached \<longleftrightarrow> op_enforce_limit_price pol \<and> (case real_limit i of None \<Rightarrow> False | Some p \<Rightarrow>
      if ei_side i \<noteq> SIDE_SELL then units p < bw_vwap_price_units ?w else bw_vwap_price_units ?w < units p)"
    let ?x = "walk_result fl pol i snap r"
    note shape = walk_result_def[of fl pol i snap r, unfolded Some option.case Let_def, folded ls_def,
        folded unfillable_def breached_def, folded Some]
    consider "unfillable" | "\<not> unfillable" "breached" | "\<not> unfillable" "\<not> breached" by blast
    then show ?thesis
    proof cases
      case 1
      then have "or_filled_qty ?x = dzero \<and> or_status ?x = EXEC_REJECTED" using r by (simp add: shape)
      then show ?thesis by (intro none) simp_all
    next
      case 2
      then have "or_filled_qty ?x = dzero \<and> or_status ?x = EXEC_CANCELLED" using r by (simp add: shape)
      then show ?thesis by (intro none) simp_all
    next
      case 3
      have x: "or_filled_qty ?x = mk_dec (bw_filled_units ?w) (scale ?t)
          \<and> or_status ?x = (if bw_remaining_units ?w = 0 then EXEC_FILLED else EXEC_PARTIALLY_FILLED)"
        using 3 pol t(2) by (simp add: shape dec_from_units_def forced_def walks_def)
      then show ?thesis using t q offered_nonneg[of "scale ?t" ls]
        by (auto simp: fair_result_def dval_def divide_right_mono)
    qed
  qed
qed

lemma vsim_answers:
  assumes "vsim_fit a" "order_ok i"
  shows "\<exists>r. fst (vsim_SendOrder fl i a) = Some r \<and> fair_result i r" and "vsim_fit (snd (vsim_SendOrder fl i a))"
proof -
  let ?pol = "ResolvePolicy i a"
  have w: "walks ?pol" by (rule resolved_walks[OF assms(1)])
  have none: "fair_result i (refused c m x)" if "or_filled_qty x = dzero" for c m x
    using that assms(2) by (simp add: fair_result_def order_ok_def dzero_def dval_def refused_def)
  have "snd (BuildResult fl i ?pol a) = a \<and> fair_result i (fst (BuildResult fl i ?pol a))"
    using w walk_result_fair[OF assms(2) w, of "empty_result\<lparr>or_venue_order_id := ''VSIM-'' @ order_id_suffix i, or_latency_ms := op_latency_ms ?pol\<rparr>"]
    by (auto simp: BuildResult_def Let_def walks_def empty_result_def intro!: none)
  then show "\<exists>r. fst (vsim_SendOrder fl i a) = Some r \<and> fair_result i r" "vsim_fit (snd (vsim_SendOrder fl i a))"
    using assms(1) none by (auto simp: vsim_SendOrder_def empty_result_def case_prod_beta vsim_fit_def)
qed

lemma vsim_keeps_policies: "vsim_fit a \<Longrightarrow> vsim_fit (snd (vsim_SendOrder fl i a))"
proof -
  assume a: "vsim_fit a"
  have "snd (BuildResult fl i (ResolvePolicy i a) a) = a"
    using resolved_walks[OF a, of i] by (auto simp: BuildResult_def Let_def walks_def)
  then show ?thesis using a by (auto simp: vsim_SendOrder_def case_prod_beta vsim_fit_def)
qed

interpretation backtest_venue: venue_port "vsim_ops fl" vsim_fit for fl
proof
  fix a i assume a: "vsim_fit a"
  show "vsim_fit (snd (ao_Reconnect (vsim_ops fl) a))"
    using a by (simp add: vsim_ops_def vsim_Reconnect_def vsim_fit_def case_prod_beta)
  show "vsim_fit (snd (ao_SendOrder (vsim_ops fl) i a))"
    using vsim_keeps_policies[OF a] by (simp add: vsim_ops_def)
  show "order_ok i \<Longrightarrow> \<exists>r. fst (ao_SendOrder (vsim_ops fl) i a) = Some r \<and> fair_result i r"
    using vsim_answers(1)[OF a] by (simp add: vsim_ops_def)
qed

end
