(* ===== verification/Venue_Laws.thy ===== *)
theory Venue_Laws
  imports Venue_Loop Venue_Port
begin

text \<open>
  The choice of the adapter is safe and fair, and every execution intent gets exactly one report, live or
  simulated, which says whose it is.
\<close>

section \<open>The choice of the adapter\<close>

abbreviation ready :: "'a adapter_ops \<Rightarrow> venue_config umap \<Rightarrow> 'a adapter \<Rightarrow> bool" where
  "ready ops cfgs \<equiv> is_adapter_eligible ops cfgs True"

abbreviation allowed :: "'a adapter_ops \<Rightarrow> venue_config umap \<Rightarrow> 'a adapter \<Rightarrow> bool" where
  "allowed ops cfgs \<equiv> is_adapter_eligible ops cfgs False"

lemma ready_iff: "ready ops cfgs a \<longleftrightarrow> allowed ops cfgs a \<and> ao_Heartbeat ops (ad_state a) \<noteq> kDisconnected"
  by (auto simp: is_adapter_eligible_def)

lemma allowed_iff: "allowed ops cfgs a \<longleftrightarrow> (\<forall>c. find cfgs (ad_VenueId a) = Some c \<longrightarrow>
    vf_is_active c \<and> normalize_routing_mode (vf_routing_mode c) \<noteq> ''watch'')"
  by (auto simp: is_adapter_eligible_def split: option.split)

lemma first_in_range:
  assumes "List.find p [0..<n] = Some k"
  shows "k < n" "p k" "\<forall>j < k. \<not> p j"
  using assms by (auto simp: find_Some_iff)

lemma turn:
  assumes "k < (n :: nat)"
  shows "\<exists>d < n. (s + d) mod n = k"
proof -
  let ?d = "(k + n - s mod n) mod n"
  have n: "0 < n" using assms by simp
  have "s mod n + (k + n - s mod n) = k + n" using mod_less_divisor[OF n, of s] by linarith
  then have "(s mod n + (k + n - s mod n)) mod n = k" using assms by simp
  then have "(s + ?d) mod n = k" by (metis mod_add_eq mod_mod_trivial)
  then show ?thesis using n by (intro exI[of _ ?d]) simp
qed

text \<open>Going round from the start, the nearest index that is fine.\<close>

lemma next_eligible_Some:
  assumes "next_eligible ok ads start = Some k"
  obtains d where "d < length ads" "k = (start + d) mod length ads" "ok (ads ! k)"
    "\<forall>e < d. \<not> ok (ads ! ((start + e) mod length ads))"
proof -
  obtain d where "d < length ads" "k = (start + d) mod length ads" "ok (ads ! k)"
    "\<forall>e < d. \<not> ok (ads ! ((start + e) mod length ads))"
    using assms by (auto simp: next_eligible_def find_Some_iff)
  then show ?thesis by (rule that)
qed

lemma next_eligible_None:
  assumes "next_eligible ok ads start = None" "k < length ads"
  shows "\<not> ok (ads ! k)"
proof -
  obtain d where "d < length ads" "(start + d) mod length ads = k" using turn[OF assms(2), of start] by blast
  then show ?thesis using assms(1) by (auto simp: next_eligible_def find_None_iff)
qed

text \<open>Successive intents without a venue of their own.\<close>

fun picks :: "'a adapter_ops \<Rightarrow> venue_config umap \<Rightarrow> 'a adapter list \<Rightarrow> nat \<Rightarrow> nat \<Rightarrow> nat option list" where
  "picks ops cfgs ads nxt 0 = []"
| "picks ops cfgs ads nxt (Suc n) =
     fst (find_adapter ops cfgs ads nxt []) # picks ops cfgs ads (snd (find_adapter ops cfgs ads nxt [])) n"

lemma picks_mono: "m \<le> m' \<Longrightarrow> set (picks ops cfgs ads x m) \<subseteq> set (picks ops cfgs ads x m')"
proof (induction m arbitrary: x m')
  case (Suc m)
  then show ?case by (cases m') auto
qed simp

lemma rotation_step:
  assumes ads: "(nxt + d) mod length ads = k" "d < length ads" "ready ops cfgs (ads ! k)"
    and k: "find_adapter ops cfgs ads nxt [] = (k', nxt')"
  shows "k' = Some k \<or> (\<exists>d' < d. (nxt' + d') mod length ads = k)"
    and "\<exists>j. k' = Some j \<and> j < length ads \<and> ready ops cfgs (ads ! j)"
proof -
  let ?n = "length ads"
  have n: "0 < ?n" using ads(2) by linarith
  have start: "(nxt mod ?n + d) mod ?n = k" using ads(1) by (simp add: mod_add_left_eq)
  have "k < ?n" using ads(1) n by auto
  then obtain j where j: "next_eligible (ready ops cfgs) ads (nxt mod ?n) = Some j"
    using next_eligible_None[of "ready ops cfgs" ads "nxt mod ?n" k] ads(3) n by fastforce
  obtain o' where o': "o' < ?n" "j = (nxt mod ?n + o') mod ?n" "ready ops cfgs (ads ! j)"
    "\<forall>e < o'. \<not> ready ops cfgs (ads ! ((nxt mod ?n + e) mod ?n))"
    using j by (rule next_eligible_Some)
  have k': "k' = Some j" "nxt' = Suc j mod ?n" using k j n by (auto simp: find_adapter_def Let_def)
  show "\<exists>j. k' = Some j \<and> j < length ads \<and> ready ops cfgs (ads ! j)" using k' o' n by auto
  have "o' \<le> d" using o'(4) start ads(3) by (metis not_le)
  then show "k' = Some k \<or> (\<exists>d' < d. (nxt' + d') mod ?n = k)"
  proof (cases "o' = d")
    case False
    then have "o' < d" using \<open>o' \<le> d\<close> by simp
    have "(nxt' + (d - Suc o')) mod ?n = (Suc (nxt mod ?n + o') + (d - Suc o')) mod ?n"
      unfolding k'(2) o'(2) by (metis mod_Suc_eq mod_add_left_eq)
    also have "\<dots> = k" using start \<open>o' < d\<close> by simp
    finally show ?thesis using \<open>o' < d\<close> by (intro disjI2 exI[of _ "d - Suc o'"]) simp
  qed (use o'(2) start k' in simp)
qed

lemma picked_in_time:
  "(nxt + d) mod length ads = k \<Longrightarrow> d < length ads \<Longrightarrow> ready ops cfgs (ads ! k) \<Longrightarrow>
   Some k \<in> set (picks ops cfgs ads nxt (Suc d))"
proof (induction d arbitrary: nxt rule: less_induct)
  case (less d)
  obtain k' nxt' where f: "find_adapter ops cfgs ads nxt [] = (k', nxt')" by fastforce
  from rotation_step(1)[OF less.prems f] show ?case
  proof (elim disjE exE conjE)
    fix d' assume d': "d' < d" "(nxt' + d') mod length ads = k"
    have "Some k \<in> set (picks ops cfgs ads nxt' (Suc d'))"
      using less.IH[OF d'] d'(1) less.prems(2,3) by simp
    then show ?thesis using picks_mono[of "Suc d'" d ops cfgs ads nxt'] d'(1) f by auto
  qed (simp add: f)
qed

lemma chosen_is_allowed:
  assumes "find_adapter ops cfgs ads nxt venue = (Some k, nxt')"
  shows "k < length ads" "allowed ops cfgs (ads ! k)" "venue \<noteq> [] \<Longrightarrow> ad_VenueId (ads ! k) = venue"
proof -
  have "k < length ads \<and> allowed ops cfgs (ads ! k) \<and> (venue \<noteq> [] \<longrightarrow> ad_VenueId (ads ! k) = venue)"
  proof (cases "venue = []")
    case True
    then show ?thesis using assms
      by (auto simp: find_adapter_def Let_def ready_iff split: if_splits option.splits elim!: next_eligible_Some)
  next
    case False
    then show ?thesis using assms
      by (auto simp: find_adapter_def split: if_splits option.splits dest: first_in_range)
  qed
  then show "k < length ads" "allowed ops cfgs (ads ! k)" "venue \<noteq> [] \<Longrightarrow> ad_VenueId (ads ! k) = venue" by simp_all
qed

lemma none_is_allowed:
  assumes "fst (find_adapter ops cfgs ads nxt venue) = None" "k < length ads" "venue = [] \<or> ad_VenueId (ads ! k) = venue"
    and "distinct (map ad_VenueId ads)"
  shows "\<not> allowed ops cfgs (ads ! k)"
proof (cases "venue = []")
  case True
  then show ?thesis using assms(1,2) next_eligible_None[of "allowed ops cfgs" ads "nxt mod length ads" k]
    by (auto simp: find_adapter_def Let_def split: if_splits option.splits)
next
  case False
  then obtain j where j: "List.find (\<lambda>k. ad_VenueId (ads ! k) = venue) [0..<length ads] = Some j"
    using assms(2,3) by (cases "List.find (\<lambda>k. ad_VenueId (ads ! k) = venue) [0..<length ads]") (auto simp: find_None_iff)
  then have "j = k" using first_in_range[OF j] assms(2,3,4) False by (metis length_map nth_eq_iff_index_eq nth_map)
  then show ?thesis using assms(1,2) False j by (auto simp: find_adapter_def split: if_splits)
qed


definition ex_adapters :: "sim_adapter adapter list" where
  "ex_adapters = map (\<lambda>v. \<lparr>ad_VenueId = v, ad_Type = VenueType_kCex,
     ad_state = snd (sim_Connect (new_sim_adapter v VenueType_kCex))\<rparr>) [''binance'', ''okx'']"


section \<open>One report per intent\<close>

definition live_messages :: "venue_output list \<Rightarrow> (string \<times> string \<times> venue_report) list" where
  "live_messages os = List.map_filter (\<lambda>x. case x of Produced t k r \<Rightarrow> Some (t, k, r) | _ \<Rightarrow> None) os"

definition sim_messages :: "venue_output list \<Rightarrow> (string \<times> string \<times> sim_message) list" where
  "sim_messages os = List.map_filter (\<lambda>x. case x of SimProduced t k m \<Rightarrow> Some (t, k, m) | _ \<Rightarrow> None) os"

lemma messages_of [simp]:
  "live_messages [] = []" "sim_messages [] = []"
  "live_messages (xs @ ys) = live_messages xs @ live_messages ys" "sim_messages (xs @ ys) = sim_messages xs @ sim_messages ys"
  "live_messages (ObserveExecution i r # xs) = live_messages xs" "sim_messages (ObserveExecution i r # xs) = sim_messages xs"
  "live_messages (Produced p k r # xs) = (p, k, r) # live_messages xs" "sim_messages (Produced p k r # xs) = sim_messages xs"
  "live_messages (map (\<lambda>(t, k, r). Produced t k r) ps) = ps" "sim_messages (map (\<lambda>(t, k, r). Produced t k r) ps) = []"
  "live_messages (map (\<lambda>(t, k, m). SimProduced t k m) qs) = []" "sim_messages (map (\<lambda>(t, k, m). SimProduced t k m) qs) = qs"
  by (auto simp: live_messages_def sim_messages_def map_filter_def comp_def case_prod_beta filter_map
      intro!: map_idI filter_True)

lemma normalize_sel [simp]:
  "xr_intent_id (Normalize r) = xr_intent_id r" "xr_hedge_flow_id (Normalize r) = xr_hedge_flow_id r"
  "xr_filled_qty (Normalize r) = xr_filled_qty r" "xr_venue (Normalize r) = xr_venue r"
  "xr_client_order_id (Normalize r) = xr_client_order_id r" "xr_venue_order_id (Normalize r) = xr_venue_order_id r"
  "xr_report_id (Normalize r) = xr_report_id r" "xr_instrument (Normalize r) = xr_instrument r"
  "xr_venue_symbol (Normalize r) = xr_venue_symbol r" "xr_average_price (Normalize r) = xr_average_price r"
  "exec_report.more (Normalize r) = exec_report.more r"
  by (simp_all add: Normalize_def Let_def)

lemma normalize_idem [simp]: "Normalize (Normalize r) = Normalize r"
  by (simp add: Normalize_def Let_def report_has_error_def)

text \<open>What the report of a live intent says and what else changes.\<close>

definition answers :: "exec_intent \<Rightarrow> venue_report \<Rightarrow> bool" where
  "answers i r \<longleftrightarrow> xr_intent_id r = ei_intent_id i \<and> xr_hedge_flow_id r = ei_hedge_flow_id i
     \<and> (ei_client_order_id i \<noteq> [] \<longrightarrow> xr_client_order_id r = ei_client_order_id i)
     \<and> vr_partition_key r = ei_intent_id i \<and> vr_tags r = []"

lemma made_report:
  "xr_intent_id (make_execution_report ids i v r) = ei_intent_id i"
  "xr_hedge_flow_id (make_execution_report ids i v r) = []"
  "xr_client_order_id (make_execution_report ids i v r) = ei_client_order_id i"
  "vr_partition_key (make_execution_report ids i v r) = ei_intent_id i"
  "vr_tags (make_execution_report ids i v r) = []"
  "xr_filled_qty (make_execution_report ids i v r) = or_filled_qty r"
  "xr_status (make_execution_report ids i v r) = or_status r"
  by (simp_all add: make_execution_report_def)

lemma run_report:
  assumes "fst (ExecuteOnVenue_Run ops ids x i ad) = Some rep"
  shows "\<exists>v r. rep = make_execution_report ids (BuildChildIntent x i ad) v r"
  using assms by (auto simp: ExecuteOnVenue_Run_def Let_def case_prod_beta split: option.splits if_splits)

lemma live_report:
  assumes "execute_live ve ids i s = (rep, s')"
  shows "answers i rep" and "vl_registry s' = vl_registry s" "vl_venue_configs s' = vl_venue_configs s"
    "vl_execute_on_venue s' = vl_execute_on_venue s" "vl_last_snapshots s' = vl_last_snapshots s" "vl_db s' = vl_db s"
    "length (vl_adapters s') = length (vl_adapters s)"
proof -
  obtain k nxt where k: "find_adapter (ve_ops ve) (vl_venue_configs s) (vl_adapters s) (vl_next_exec_adapter_idx s) (ei_venue i) = (k, nxt)"
    by fastforce
  let ?ad = "map_option (\<lambda>k. vl_adapters s ! k) k"
  obtain rp ad' where run: "ExecuteOnVenue_Run (ve_ops ve) (id_report ids) (vl_execute_on_venue s) i ?ad = (rp, ad')" by fastforce
  define r0 where "r0 = (case rp of Some r \<Rightarrow> r
    | None \<Rightarrow> make_execution_exception_report (id_report ids) i ''EXECUTION_EXCEPTION'' (id_exception ids))"
  have eq: "rep = (if xr_hedge_flow_id r0 = [] \<and> ei_hedge_flow_id i \<noteq> [] then r0\<lparr>xr_hedge_flow_id := ei_hedge_flow_id i\<rparr> else r0)"
    "s' = s\<lparr>vl_next_exec_adapter_idx := nxt, vl_adapters := (case (k, ad') of (Some k, Some a) \<Rightarrow> (vl_adapters s)[k := a] | _ \<Rightarrow> vl_adapters s)\<rparr>"
    using assms unfolding execute_live_def Let_def k run prod.case r0_def[symmetric] by auto
  have r0: "xr_hedge_flow_id r0 = []" "xr_intent_id r0 = ei_intent_id i" "vr_partition_key r0 = ei_intent_id i" "vr_tags r0 = []"
    "ei_client_order_id i \<noteq> [] \<longrightarrow> xr_client_order_id r0 = ei_client_order_id i"
  proof -
    have "xr_hedge_flow_id r0 = [] \<and> xr_intent_id r0 = ei_intent_id i \<and> vr_partition_key r0 = ei_intent_id i \<and> vr_tags r0 = []
      \<and> (ei_client_order_id i \<noteq> [] \<longrightarrow> xr_client_order_id r0 = ei_client_order_id i)"
    proof (cases rp)
      case None
      then show ?thesis by (simp add: r0_def make_execution_exception_report_def)
    next
      case (Some r)
      then obtain v x where "r = make_execution_report (id_report ids) (BuildChildIntent (vl_execute_on_venue s) i ?ad) v x"
        using run_report[of "ve_ops ve" "id_report ids" "vl_execute_on_venue s" i ?ad r] run by auto
      then show ?thesis using Some by (simp add: r0_def made_report child_fields)
    qed
    then show "xr_hedge_flow_id r0 = []" "xr_intent_id r0 = ei_intent_id i" "vr_partition_key r0 = ei_intent_id i" "vr_tags r0 = []"
      "ei_client_order_id i \<noteq> [] \<longrightarrow> xr_client_order_id r0 = ei_client_order_id i" by simp_all
  qed
  then show "answers i rep" by (simp add: eq(1) answers_def)
  show "vl_registry s' = vl_registry s" "vl_venue_configs s' = vl_venue_configs s"
    "vl_execute_on_venue s' = vl_execute_on_venue s" "vl_last_snapshots s' = vl_last_snapshots s" "vl_db s' = vl_db s"
    "length (vl_adapters s') = length (vl_adapters s)"
    by (simp_all add: eq(2) split: option.split)
qed

lemma normalized_answers [simp]: "answers i (Normalize r) = answers i r"
proof -
  have "vr_partition_key (Normalize r) = vr_partition_key r" "vr_tags (Normalize r) = vr_tags r"
    by (simp_all add: Normalize_def Let_def)
  then show ?thesis by (simp add: answers_def)
qed

text \<open>A live intent in one equation.\<close>

definition live_step :: "('a, 'r) venues_env \<Rightarrow> intent_ids \<Rightarrow> exec_intent \<Rightarrow> 'a venues \<Rightarrow> venue_report \<times> 'a venues" where
  "live_step ve ids i s = (let (rep, s') = execute_live ve ids i (s\<lparr>vl_db := store_intent ve ids i (vl_db s)\<rparr>)
     in (Normalize rep, s'\<lparr>vl_db := store_report ve (Normalize rep) (vl_db s')\<rparr>))"

lemma OnExecutionIntent_cases:
  fixes ve :: "('a, 'r) venues_env"
  defines "d s i \<equiv> Decide (vl_registry s) (ei_venue i) (RoutingSymbol (ei_instrument i))"
  shows "rd_mode (d s i) = ROUTING_MODE_SIM_ONLY \<Longrightarrow> OnExecutionIntent ve ids i s = (s, simulated ve ids i (d s i) s)"
    and "rd_mode (d s i) \<noteq> ROUTING_MODE_SIM_ONLY \<Longrightarrow> live_step ve ids i s = (rep, s') \<Longrightarrow>
      OnExecutionIntent ve ids i s = (s', ObserveExecution i rep
        # map (\<lambda>(topic, key, r). Produced topic key r) (Publish (ve_topics ve) (ve_backtest_session ve) rep)
        @ (if rd_mode (d s i) = ROUTING_MODE_SHADOW then simulated ve ids i (d s i) s' else []))"
  by (auto simp: OnExecutionIntent_def d_def live_step_def Let_def split: prod.splits)

lemma live_step_report:
  assumes "live_step ve ids i s = (rep, s')"
  shows "answers i rep" "Normalize rep = rep" "vl_registry s' = vl_registry s" "vl_venue_configs s' = vl_venue_configs s"
    "vl_execute_on_venue s' = vl_execute_on_venue s" "vl_last_snapshots s' = vl_last_snapshots s"
proof -
  obtain r0 s0 where x: "execute_live ve ids i (s\<lparr>vl_db := store_intent ve ids i (vl_db s)\<rparr>) = (r0, s0)" by fastforce
  then show "answers i rep" "Normalize rep = rep" "vl_registry s' = vl_registry s" "vl_venue_configs s' = vl_venue_configs s"
    "vl_execute_on_venue s' = vl_execute_on_venue s" "vl_last_snapshots s' = vl_last_snapshots s"
    using assms live_report[OF x] by (auto simp: live_step_def)
qed

lemma simulated_messages [simp]:
  "live_messages (simulated ve ids i d s) = []"
  "sim_messages (simulated ve ids i d s) = PublishSimExecution (ve_fp ve) (ve_cmath ve) (ve_rng ve) (ve_hash ve)
     (id_sim_report ids) (vl_last_snapshots s) i d"
  by (simp_all add: simulated_def)

lemma published_live:
  "Normalize r = r \<Longrightarrow> vr_partition_key r = ei_intent_id i \<Longrightarrow> ei_intent_id i \<noteq> [] \<Longrightarrow> bs_session_id b = [] \<Longrightarrow>
   Publish t b r = map (\<lambda>topic. (topic, ei_intent_id i, r)) (filter (\<lambda>x. x \<noteq> []) [tp_venue t, tp_legacy t])"
  by (simp add: Publish_def session_enabled_def report_key_def Let_def)

text \<open>The topics of a simulation and whose execution they carry.\<close>

definition about_sim :: "exec_intent \<Rightarrow> string \<Rightarrow> string \<times> string \<times> sim_message \<Rightarrow> bool" where
  "about_sim i session x \<longleftrightarrow> (case x of (t, k, m) \<Rightarrow> (case m of
      SimReport r \<Rightarrow> t = ''sim.execution.venue'' \<and> xr_intent_id r = ei_intent_id i \<and> xr_hedge_flow_id r = ei_hedge_flow_id i
    | SimAnnotation a \<Rightarrow> t = ''sim.execution.annotations'' \<and> sn_sim_session_id a = session
    | SimAlert a \<Rightarrow> t = ''sim.alerts'' \<and> za_sim_session_id a = session))"

definition is_report :: "string \<times> string \<times> sim_message \<Rightarrow> bool" where
  "is_report x \<longleftrightarrow> (case x of (t, k, m) \<Rightarrow> (case m of SimReport r \<Rightarrow> True | _ \<Rightarrow> False))"

lemma published_sim:
  "x \<in> set (PublishSimExecution fl cm rg hash ids snaps i d) \<Longrightarrow> about_sim i (rd_sim_session_id d) x"
  "length (filter is_report (PublishSimExecution fl cm rg hash ids snaps i d)) = 1"
  by (auto simp: PublishSimExecution_def about_sim_def is_report_def Assemble_def Let_def case_prod_beta)


definition ex_order :: exec_intent where
  "ex_order = \<lparr>ei_meta = empty_meta, ei_intent_id = ''i7'', ei_batch_id = [], ei_internal_order_id = [],
     ei_reason = [], ei_hedge_flow_id = ''f7'', ei_provider_id = [], ei_source = HEDGE_SOURCE_AUTO_BATCH,
     ei_venue = ''okx'', ei_instrument = \<lparr>in_symbol = ''BTC/USDT'', in_base = ''BTC'', in_quote = ''USDT''\<rparr>,
     ei_venue_symbol = [], ei_allowed_venues = [],
     ei_side = SIDE_SELL, ei_target_qty = mk_dec 3 0, ei_target_notional = dzero,
     ei_limit_price = None, ei_max_slippage_bps = 0, ei_reference_mid = None,
     ei_strategy = EXEC_STRATEGY_MARKET, ei_urgency = URGENCY_LOW, ei_tif = TIF_IOC,
     ei_timeout_ms = 0, ei_client_order_id = []\<rparr>"

definition ex_venues :: "sim_adapter venues" where
  "ex_venues = \<lparr>vl_adapters = ex_adapters, vl_next_exec_adapter_idx = 0, vl_venue_configs = [],
     vl_execute_on_venue = \<lparr>ev_symbol_map = [], ev_runtime_symbol_map = []\<rparr>, vl_registry = [],
     vl_last_snapshots = [], vl_db = \<lparr>hd_hedgeflows = [], hd_child_orders = []\<rparr>\<rparr>"

definition ex_venues_env :: "(sim_adapter, int) venues_env" where
  "ex_venues_env = \<lparr>ve_ops = sim_ops, ve_fp = \<lparr>fp_round = (\<lambda>x. x), fp_strtod = (\<lambda>_. 0)\<rparr>,
     ve_cmath = \<lparr>cm_sqrt = (\<lambda>x. x), cm_pow = (\<lambda>x y. x), cm_log = (\<lambda>x. x)\<rparr>,
     ve_rng = \<lparr>rg_seed = (\<lambda>x. x), rg_unit = (\<lambda>x. (0, x)), rg_lognormal = (\<lambda>a b x. (a, x))\<rparr>,
     ve_hash = (\<lambda>_. 0), ve_topics = default_topics, ve_backtest_session = \<lparr>bs_session_id = [], bs_namespace_id = []\<rparr>,
     ve_hedgeflow_repo = True, ve_child_order_repo = True,
     ve_default_subscription = \<lparr>vs_instrument = ei_instrument ex_order, vs_venue_symbol = [], vs_depth_levels = 1\<rparr>\<rparr>"

definition ex_ids :: intent_ids where
  "ex_ids = \<lparr>id_report = \<lparr>ri_now = (1, 0), ri_report_id = ''r7''\<rparr>, id_sim_report = \<lparr>ri_now = (1, 0), ri_report_id = ''s7''\<rparr>,
     id_child_order = ''c7'', id_exception = []\<rparr>"


end
