(* ===== verification/Venue_Hedging.thy ===== *)
theory Venue_Hedging
  imports Venue_Laws Ledger_Hedge
begin

text \<open>
  A hedge from the intent to the venue balance: the intent the matching engine sends reaches both the
  venues service, which executes it on a simulated venue, and the ledger, to which the report of the
  venue is delivered.
\<close>

section \<open>What the report of a simulated venue says\<close>

definition reported :: "exec_intent \<Rightarrow> string \<Rightarrow> string \<Rightarrow> decimal \<Rightarrow> ('a) exec_report_scheme \<Rightarrow> bool" where
  "reported i rid v q r \<longleftrightarrow> xr_report_id r = rid \<and> xr_intent_id r = ei_intent_id i
     \<and> xr_venue r = v \<and> (ei_venue i = [] \<or> v = ei_venue i)
     \<and> xr_instrument r = normalize_instrument (ei_instrument i) \<and> xr_filled_qty r = q
     \<and> xr_status r \<in> {EXEC_FILLED, EXEC_REJECTED}
     \<and> (ei_client_order_id i \<noteq> [] \<longrightarrow> xr_client_order_id r = ei_client_order_id i) \<and> xr_fee_total r = None"

lemma reported_truncate [simp]: "reported i rid v q (exec_report.truncate r) = reported i rid v q r"
  by (simp add: reported_def exec_report.defs)

lemma reported_updates [simp]:
  "reported i rid v q (r\<lparr>xr_hedge_flow_id := f\<rparr>) = reported i rid v q r"
  by (simp add: reported_def)

lemma reported_normalize: "reported i rid v q r \<Longrightarrow> Normalize r = r"
  by (auto simp: reported_def Normalize_def Let_def)

definition chosen_venue :: "('a, 'r) venues_env \<Rightarrow> exec_intent \<Rightarrow> 'a venues \<Rightarrow> string option" where
  "chosen_venue ve i s = map_option (\<lambda>k. ad_VenueId (vl_adapters s ! k))
     (fst (find_adapter (ve_ops ve) (vl_venue_configs s) (vl_adapters s) (vl_next_exec_adapter_idx s) (ei_venue i)))"

lemma simulated_answer:
  assumes "ei_venue i = [] \<or> ad_VenueId a = ei_venue i"
  shows "\<exists>r. fst (ExecuteOnVenue_Run sim_ops ids x i (Some a)) = Some r
    \<and> reported i (ri_report_id ids) (ad_VenueId a) (ei_target_qty i) r"
  using assms
  by (cases "sa_connected (ad_state a)")
    (auto simp: ExecuteOnVenue_Run_def sim_ops_def sim_Heartbeat_def sim_Reconnect_def sim_SendOrder_def Let_def
      reported_def make_execution_report_def child_fields child_venue_def empty_result_def dzero_def)

lemma no_venue_answer:
  "\<exists>r. fst (ExecuteOnVenue_Run ops ids x i None) = Some r
    \<and> reported i (ri_report_id ids) (ei_venue i) dzero r"
  by (auto simp: ExecuteOnVenue_Run_def Let_def reported_def make_execution_report_def child_fields child_venue_def
      empty_result_def refused_def dzero_def)

lemma executed_report:
  assumes "ve_ops ve = sim_ops" "execute_live ve ids i s = (rep, s')"
  shows "case chosen_venue ve i s of None \<Rightarrow> reported i (ri_report_id (id_report ids)) (ei_venue i) dzero rep
     | Some v \<Rightarrow> reported i (ri_report_id (id_report ids)) v (ei_target_qty i) rep"
proof -
  obtain k nxt where k: "find_adapter sim_ops (vl_venue_configs s) (vl_adapters s) (vl_next_exec_adapter_idx s) (ei_venue i) = (k, nxt)"
    by fastforce
  have v: "chosen_venue ve i s = map_option (\<lambda>k. ad_VenueId (vl_adapters s ! k)) k"
    using k assms(1) by (simp add: chosen_venue_def)
  show ?thesis
  proof (cases k)
    case None
    obtain r where "fst (ExecuteOnVenue_Run sim_ops (id_report ids) (vl_execute_on_venue s) i None) = Some r"
      "reported i (ri_report_id (id_report ids)) (ei_venue i) dzero r" using no_venue_answer by blast
    then show ?thesis using assms k None v by (auto simp: execute_live_def Let_def case_prod_beta)
  next
    case (Some j)
    let ?a = "vl_adapters s ! j"
    have "ei_venue i = [] \<or> ad_VenueId ?a = ei_venue i" using chosen_is_allowed(3)[OF k[unfolded Some]] by blast
    from simulated_answer[OF this] obtain r where
      "fst (ExecuteOnVenue_Run sim_ops (id_report ids) (vl_execute_on_venue s) i (Some ?a)) = Some r"
      "reported i (ri_report_id (id_report ids)) (ad_VenueId ?a) (ei_target_qty i) r" by blast
    then show ?thesis using assms k Some v by (auto simp: execute_live_def Let_def case_prod_beta)
  qed
qed

section \<open>What the ledger does with it\<close>

text \<open>The ledger knows the intent and has seen no report of it.\<close>

definition awaits :: "exec_intent \<Rightarrow> string \<Rightarrow> ledger \<Rightarrow> bool" where
  "awaits i rid l \<longleftrightarrow> find (lg_intents l) (ei_intent_id i) = Some i \<and> rid \<notin> set (lg_seen_reports l)
     \<and> (\<forall>order_id. exec_state_of l (ei_intent_id i @ ''|'' @ order_id) = empty_exec_state)"

lemma settle_report_other:
  assumes "v \<noteq> xr_venue r"
  shows "venue_total (fst (settle_report sk now i r st d l)) v c = venue_total l v c"
  using assms by (auto simp: settle_report_def Let_def case_prod_beta settle_base_def settle_quote_def
      settle_venue_fee_def venue_total_move)

lemma applied_other_venue:
  assumes "v \<noteq> xr_venue r"
  shows "venue_total (applied_ledger sk now r l) v c = venue_total l v c"
  using assms by (auto simp: settle_report_other applied_ledger_def apply_execution_report_locked_def Let_def case_prod_beta split: option.splits)

lemma plan_matched:
  assumes "reported i rid v q r" "ei_venue_symbol i = []" "grid s N q" "grid s N (ei_target_qty i)" "2 * N \<le> max_units"
    and "dval q \<le> dval (ei_target_qty i)"
  shows "report_matches_plan i r"
proof -
  have "instrument_matches i r"
    using assms(1) by (auto simp: instrument_matches_def reported_def normalize_instrument_def Let_def)
  moreover have "\<not> 0 < dcmp q (ei_target_qty i)"
    using grid_cmp(2)[OF assms(3,4)] assms(5,6) grid_nonneg[OF assms(3)] by simp
  moreover have "\<not> (ei_venue i \<noteq> [] \<and> xr_venue r \<noteq> [] \<and> ei_venue i \<noteq> xr_venue r)"
    "\<not> (ei_client_order_id i \<noteq> [] \<and> xr_client_order_id r \<noteq> [] \<and> ei_client_order_id i \<noteq> xr_client_order_id r)"
    "xr_filled_qty r = q"
    using assms(1) by (auto simp only: reported_def)
  ultimately show ?thesis unfolding report_matches_plan_def by (simp only: assms(2) simp_thms if_False if_True)
qed

lemma report_settled:
  assumes r: "reported i rid v q r" and l: "awaits i rid l" and ids: "rid \<noteq> []" "ei_intent_id i \<noteq> []"
    and i: "ei_venue_symbol i = []" "in_base (ei_instrument i) \<noteq> []" "in_quote (ei_instrument i) \<noteq> []"
      "in_base (ei_instrument i) \<noteq> in_quote (ei_instrument i)"
    and q: "grid s N q" "grid s N (ei_target_qty i)" "0 \<le> dval q" "dval q \<le> dval (ei_target_qty i)"
    and m: "grid s M (venue_total l v (in_base (ei_instrument i)))" "M + 2 * N \<le> max_units"
  shows "dval (venue_total (fst (ApplyExecutionReport sk now r l)) w (in_base (ei_instrument i)))
      = dval (venue_total l w (in_base (ei_instrument i))) + (if w = v then side_sign (ei_side i) * dval q else 0)"
    and "rid \<in> set (lg_seen_reports (fst (ApplyExecutionReport sk now r l)))"
proof -
  let ?l = "l\<lparr>lg_seen_reports := rid # lg_seen_reports l\<rparr>"
  let ?k = "execution_state_key r"
  have k: "execution_report_key r = rid" "xr_intent_id r = ei_intent_id i" "xr_venue r = v" "xr_filled_qty r = q"
    using r ids by (simp_all add: reported_def execution_report_key_def)
  have e: "fst (ApplyExecutionReport sk now r l) = applied_ledger sk now r ?l"
    using l k ids by (simp add: ApplyExecutionReport_outcome awaits_def)
  then show "rid \<in> set (lg_seen_reports (fst (ApplyExecutionReport sk now r l)))" by simp
  have same: "venue_entry ?l = venue_entry l" "exec_state_of ?l = exec_state_of l"
    by (rule venue_entry_cong, simp) (rule exec_state_of_cong, simp)
  have fresh: "exec_state_of ?l ?k = empty_exec_state"
    using l same k by (simp add: awaits_def execution_state_key_def)
  have find: "find (lg_intents ?l) (ei_intent_id i) = Some i" using l by (simp add: awaits_def)
  have x: "same_execution i ?k v s N r" using r q i by (simp add: same_execution_def reported_def report_fee_def)
  have z: "grid s N (es_filled_qty (exec_state_of ?l ?k))" "dval (es_filled_qty (exec_state_of ?l ?k)) = 0"
    using fresh grid_nonneg[OF q(1)] grid_le_18[OF q(1)] by (simp_all add: empty_exec_state_def)
  have N: "0 \<le> N" "0 \<le> M" "2 * N \<le> max_units" using grid_nonneg[OF q(1)] grid_nonneg[OF m(1)] m(2) by auto
  have "accepts ?l r"
    using plan_matched[OF r i(1) q(1,2) N(3) q(4)] find k r fresh grid_cmp(1)[OF q(1) z(1)] z(2) q(3) N
    by (auto simp: accepts_def is_allowed_status_transition_def empty_exec_state_def)
  then have f: "es_filled_qty (exec_state_of (applied_ledger sk now r ?l) ?k) = q"
    using k by (simp add: exec_state_applied)
  show "dval (venue_total (fst (ApplyExecutionReport sk now r l)) w (in_base (ei_instrument i)))
      = dval (venue_total l w (in_base (ei_instrument i))) + (if w = v then side_sign (ei_side i) * dval q else 0)"
  proof (cases "w = v")
    case True
    then show ?thesis
      using applied_telescopes(1)[OF find x i(2-4) z(1), of M sk now] m f z(2) same by (simp add: e)
  next
    case False
    then show ?thesis using applied_other_venue[of w r sk now ?l] same k by (simp add: e)
  qed
qed

lemma redelivered:
  assumes "\<forall>x \<in> set rs. execution_report_key x \<in> set (lg_seen_reports l)"
  shows "venue_entry (deliver sk now rs l) = venue_entry l"
  using assms
proof (induction rs arbitrary: l)
  case (Cons x rs)
  then show ?case by (simp add: ApplyExecutionReport_outcome)
qed simp

section \<open>From the intent to the balance\<close>

text \<open>C21. A hedge reaches the books. An intent goes to the venues service and to the ledger; unless a session
  replaces live execution, a simulated venue executes it, and whichever of the published copies of
  its report are delivered to the ledger, in whatever number, the base balance of the venue that
  executed it moves by exactly the signed target of the intent and that of no other venue moves.
  When every venue is switched off, no balance moves at all.
\<close>

theorem hedge_reaches_venue_balance:
  assumes ops: "ve_ops ve = sim_ops" "bs_session_id (ve_backtest_session ve) = []"
    and ids: "ei_intent_id i \<noteq> []" "ri_report_id (id_report ids) \<noteq> []"
    and i: "ei_venue_symbol i = []" "in_base (ei_instrument i) \<noteq> []" "in_quote (ei_instrument i) \<noteq> []"
      "in_base (ei_instrument i) \<noteq> in_quote (ei_instrument i)"
    and target: "grid s N (ei_target_qty i)" "0 \<le> dval (ei_target_qty i)"
    and live: "rd_mode (Decide (vl_registry m) (ei_venue i) (RoutingSymbol (ei_instrument i))) \<noteq> ROUTING_MODE_SIM_ONLY"
    and run: "OnExecutionIntent ve ids i m = (m', os)"
    and l: "awaits i (ri_report_id (id_report ids)) l" "\<forall>v. grid s M (venue_total l v (in_base (ei_instrument i)))"
      "M + 2 * N \<le> max_units"
    and rs: "rs \<noteq> []" "set rs \<subseteq> (\<lambda>(t, k, r). exec_report.truncate r) ` set (live_messages os)"
  shows "dval (venue_total (deliver sk now rs l) v (in_base (ei_instrument i)))
    = dval (venue_total l v (in_base (ei_instrument i)))
      + (if chosen_venue ve i m = Some v then side_sign (ei_side i) * dval (ei_target_qty i) else 0)"
proof -
  let ?rid = "ri_report_id (id_report ids)" and ?m = "m\<lparr>vl_db := store_intent ve ids i (vl_db m)\<rparr>"
  obtain rep m1 where x: "execute_live ve ids i ?m = (rep, m1)" by fastforce
  obtain rep' m2 where s: "live_step ve ids i m = (rep', m2)" by fastforce
  note r = live_step_report[OF s]
  have rep: "rep' = Normalize rep" using s x by (simp add: live_step_def)
  have "chosen_venue ve i ?m = chosen_venue ve i m" by (simp add: chosen_venue_def)
  then obtain w q where q: "reported i ?rid w q rep" "q = (if chosen_venue ve i m = Some w then ei_target_qty i else dzero)"
    "\<forall>v. chosen_venue ve i m = Some v \<longrightarrow> v = w"
    using executed_report[OF ops(1) x] by (cases "chosen_venue ve i m") auto
  have "vr_partition_key rep' = ei_intent_id i" using r(1) by (simp add: answers_def)
  then have "r' = rep'" if "(t, k, r') \<in> set (live_messages os)" for t k r'
    using that OnExecutionIntent_cases(2)[OF live s] run published_live[OF r(2) _ ids(1) ops(2)]
    by (auto split: if_splits)
  moreover have rep': "rep' = rep" using rep q(1) by (simp add: reported_normalize)
  ultimately have all: "x = exec_report.truncate rep" if "x \<in> set rs" for x using that rs(2) by fastforce
  obtain rest where rest: "rs = exec_report.truncate rep # rest" "set rest \<subseteq> {exec_report.truncate rep}"
    using rs(1) all by (cases rs) auto
  have g: "grid s N q" "0 \<le> dval q" "dval q \<le> dval (ei_target_qty i)"
    using target grid_nonneg[OF target(1)] grid_le_18[OF target(1)] by (auto simp: q(2))
  note settled = report_settled[of i ?rid w q "exec_report.truncate rep", OF _ l(1) ids(2,1) i g(1) target(1) g(2,3) spec[OF l(2)] l(3)]
  have k: "execution_report_key (exec_report.truncate rep) = ?rid"
    using q(1) ids(2) by (simp add: execution_report_key_def reported_def exec_report.defs)
  have "venue_entry (deliver sk now rs l) = venue_entry (fst (ApplyExecutionReport sk now (exec_report.truncate rep) l))"
  proof -
    have "\<forall>x \<in> set rest. execution_report_key x \<in> set (lg_seen_reports (fst (ApplyExecutionReport sk now (exec_report.truncate rep) l)))"
      using rest(2) k settled(2)[of sk now] q(1) by fastforce
    then show ?thesis using rest(1) redelivered by simp
  qed
  then show ?thesis using settled(1)[of sk now v] q by auto
qed

definition ex_hedge_ledger :: ledger where
  "ex_hedge_ledger = empty_ledger\<lparr>lg_intents := [(''i7'', ex_order)]\<rparr>"

theorem hedge_reaches_venue_balance_witness:
  "dval (venue_total (deliver True 5 (map (\<lambda>(t, k, r). exec_report.truncate r)
      (live_messages (snd (OnExecutionIntent ex_venues_env ex_ids ex_order ex_venues)))) ex_hedge_ledger) ''okx'' ''BTC'') = -3"
proof -
  obtain m' os where run: "OnExecutionIntent ex_venues_env ex_ids ex_order ex_venues = (m', os)" by fastforce
  let ?rs = "map (\<lambda>(t, k, r). exec_report.truncate r) (live_messages os)"
  have "length (live_messages (snd (OnExecutionIntent ex_venues_env ex_ids ex_order ex_venues))) = 2" by code_simp
  then have rs: "?rs \<noteq> []" using run by auto
  have o: "ve_ops ex_venues_env = sim_ops" "bs_session_id (ve_backtest_session ex_venues_env) = []"
    "ei_intent_id ex_order \<noteq> []" "ri_report_id (id_report ex_ids) \<noteq> []" "ei_venue_symbol ex_order = []"
    "in_base (ei_instrument ex_order) \<noteq> []" "in_quote (ei_instrument ex_order) \<noteq> []"
    "in_base (ei_instrument ex_order) \<noteq> in_quote (ei_instrument ex_order)" "grid 0 3 (ei_target_qty ex_order)"
    "0 \<le> dval (ei_target_qty ex_order)"
    by (simp_all add: ex_venues_env_def ex_order_def ex_ids_def grid_def at_scale_def dval_def)
  have live: "rd_mode (Decide (vl_registry ex_venues) (ei_venue ex_order) (RoutingSymbol (ei_instrument ex_order))) \<noteq> ROUTING_MODE_SIM_ONLY"
    by code_simp
  have aw: "awaits ex_order (ri_report_id (id_report ex_ids)) ex_hedge_ledger"
    by (simp add: awaits_def ex_hedge_ledger_def ex_order_def ex_ids_def find_def exec_state_empty empty_ledger_def)
  have z: "venue_total ex_hedge_ledger v c = dzero" for v c
    by (simp add: ex_hedge_ledger_def venue_entry_def empty_ledger_def find2_def find_or_def empty_venue_balance_def)
  have g: "\<forall>v. grid 0 0 (venue_total ex_hedge_ledger v (in_base (ei_instrument ex_order)))" by (simp add: z)
  have c: "chosen_venue ex_venues_env ex_order ex_venues = Some ''okx''" by code_simp
  have m: "0 + 2 * 3 \<le> max_units" by simp
  have "dval (venue_total (deliver True 5 ?rs ex_hedge_ledger) ''okx'' (in_base (ei_instrument ex_order))) = -3"
    using hedge_reaches_venue_balance[OF o live run aw g m rs, of True 5 "''okx''"] c z
    by (simp add: ex_order_def side_sign_def dval_def dzero_def)
  then show ?thesis using run by (simp add: ex_order_def)
qed

end
