(* ===== verification/Venue_Sim_Laws.thy ===== *)
theory Venue_Sim_Laws
  imports Venue_Sim
begin

text \<open>
  The registry of simulation sessions follows the table: whatever the operator does, a session is running
  in the venues service exactly while its row is not in a terminal status, and an intent is simulated only
  under an active row with it in scope.
\<close>

section \<open>Columns and what is read from them\<close>

text \<open>Scopes the table gives back as they were stored.\<close>

definition plain_scope :: "string list \<Rightarrow> bool" where
  "plain_scope xs \<longleftrightarrow> (\<forall>x \<in> set xs. x \<noteq> [] \<and> CHR '','' \<notin> set x)"

lemma split_plain: "CHR '','' \<notin> set x \<Longrightarrow> split_commas x = [x]"
  by (induction x) auto

lemma split_joined: "CHR '','' \<notin> set x \<Longrightarrow> split_commas (x @ CHR '','' # y) = x # split_commas y"
  by (induction x) auto

lemma SplitCsv_join [simp]: "plain_scope xs \<Longrightarrow> SplitCsv (join_commas xs) = xs"
proof (induction xs rule: join_commas.induct)
  case (3 s t ss)
  then show ?case by (auto simp: SplitCsv_def plain_scope_def split_joined)
qed (auto simp: SplitCsv_def plain_scope_def split_plain)

definition valid_session :: "sim_session \<Rightarrow> bool" where
  "valid_session s \<longleftrightarrow> zs_routing_mode s \<noteq> ROUTING_MODE_UNSPECIFIED \<and> zs_status s \<noteq> SIM_SESSION_STATUS_UNSPECIFIED
     \<and> plain_scope (zs_scope_venues s) \<and> plain_scope (zs_scope_instruments s)
     \<and> 0 \<le> zs_stale_lob_threshold_ms s \<and> zs_stale_lob_threshold_ms s < 2 ^ 32"

text \<open>What a decision takes from a session, the defaults included.\<close>

definition effective :: "sim_session \<Rightarrow> route_decision" where
  "effective s = \<lparr>rd_mode = zs_routing_mode s, rd_has_session = True, rd_sim_session_id = zs_sim_session_id s,
     rd_models = zs_models s,
     rd_stale_lob_threshold_ms = (if 0 < zs_stale_lob_threshold_ms s then zs_stale_lob_threshold_ms s else 2000),
     rd_partial_fill_mode = (if zs_partial_fill_mode s = PARTIAL_FILL_MODE_UNSPECIFIED
       then PARTIAL_FILL_MODE_LEVEL_BY_LEVEL else zs_partial_fill_mode s)\<rparr>"

definition same_session :: "sim_session \<Rightarrow> sim_session \<Rightarrow> bool" where
  "same_session s t \<longleftrightarrow> effective s = effective t \<and> zs_name s = zs_name t \<and> zs_status s = zs_status t
     \<and> zs_scope_venues s = zs_scope_venues t \<and> zs_scope_instruments s = zs_scope_instruments t
     \<and> map_option fst (zs_activated_at s) = map_option fst (zs_activated_at t)
     \<and> map_option fst (zs_completed_at s) = map_option fst (zs_completed_at t)"

lemma text_roundtrips [simp]:
  "m \<noteq> ROUTING_MODE_UNSPECIFIED \<Longrightarrow> RoutingModeFromText (RoutingModeToText m) = m"
  "st \<noteq> SIM_SESSION_STATUS_UNSPECIFIED \<Longrightarrow> SimStatusFromText (SimStatusToText st) = st"
  "PartialFillModeFromText (PartialFillModeToText p)
     = (if p = PARTIAL_FILL_MODE_UNSPECIFIED then PARTIAL_FILL_MODE_LEVEL_BY_LEVEL else p)"
  by ((cases m; simp add: RoutingModeFromText_def), (cases st; simp add: SimStatusFromText_def),
      (cases p; simp add: PartialFillModeFromText_def))

lemma never_unspecified [simp]:
  "RoutingModeFromText t \<noteq> ROUTING_MODE_UNSPECIFIED" "SimStatusFromText t \<noteq> SIM_SESSION_STATUS_UNSPECIFIED"
  "PartialFillModeFromText t \<noteq> PARTIAL_FILL_MODE_UNSPECIFIED"
  by (simp_all add: RoutingModeFromText_def SimStatusFromText_def PartialFillModeFromText_def)

lemma stored_stale: "0 \<le> x \<Longrightarrow> x < 2 ^ 32 \<Longrightarrow> 0 < i32 x \<Longrightarrow> i32 x = x"
proof (cases "x < 2147483648")
  case True
  moreover assume "0 \<le> x"
  ultimately show ?thesis by (simp add: i32_def)
next
  case False
  moreover assume "x < 2 ^ 32" "0 < i32 x"
  moreover have "(x + 2147483648) mod 4294967296 = (x - 2147483648) mod 4294967296"
    using mod_add_self2[of "x - 2147483648" "4294967296 :: int"] by (simp add: add.commute)
  ultimately show ?thesis by (simp add: i32_def)
qed

text \<open>A row and the session it was written from.\<close>

definition row_of :: "sim_session \<Rightarrow> session_row \<Rightarrow> bool" where
  "row_of s r \<longleftrightarrow> same_session s (RowToSession (zs_sim_session_id s) r) \<and> valid_session (RowToSession (zs_sim_session_id s) r)
     \<and> SimStatusFromText (wr_status r) = zs_status s
     \<and> plain_scope (wr_scope_venues r) \<and> plain_scope (wr_scope_instruments r)"

lemma stored_row:
  assumes "repo_Upsert uuid now s db = Some db'" "valid_session s" "uuid (zs_sim_session_id s) = Some (zs_sim_session_id s)"
  obtains r where "db' = put (zs_sim_session_id s) r db" "row_of s r"
proof -
  let ?stale = "if 0 < zs_stale_lob_threshold_ms s then zs_stale_lob_threshold_ms s else 2000"
  let ?r = "\<lparr>wr_name = zs_name s, wr_routing_mode = RoutingModeToText (zs_routing_mode s),
     wr_scope_venues = zs_scope_venues s, wr_scope_instruments = zs_scope_instruments s,
     wr_models = zs_models s, wr_stale_lob_threshold_ms = i32 ?stale,
     wr_partial_fill_mode = PartialFillModeToText (zs_partial_fill_mode s),
     wr_status = SimStatusToText (zs_status s),
     wr_created_at = (case find db (zs_sim_session_id s) of
         Some old \<Rightarrow> wr_created_at old
       | None \<Rightarrow> (case zs_created_at s of Some t \<Rightarrow> fst t | None \<Rightarrow> now)),
     wr_activated_at = map_option fst (zs_activated_at s), wr_completed_at = map_option fst (zs_completed_at s),
     wr_created_by = (if zs_created_by s = [] then ''operator'' else zs_created_by s)\<rparr>"
  have st: "0 < i32 ?stale" and db': "db' = put (zs_sim_session_id s) ?r db"
    using assms(1,3) by (auto simp: repo_Upsert_def Let_def split: if_splits)
  have "i32 ?stale = ?stale" using st assms(2) by (intro stored_stale) (auto simp: valid_session_def)
  then have "row_of s ?r" using assms(2) st
    by (simp add: row_of_def same_session_def effective_def RowToSession_def valid_session_def option.map_comp comp_def
        option.map_ident)
  then show ?thesis using that db' by blast
qed

section \<open>What the operator does\<close>

datatype session_op =
    CreateSession string timestamp sim_session
  | UpdateSession timestamp session_update
  | CompleteSession timestamp string

definition session_effect ::
    "(string \<Rightarrow> string option) \<Rightarrow> session_op \<Rightarrow> session_row umap \<Rightarrow> session_step" where
  "session_effect uuid x db = (case x of
     CreateSession new_id now s \<Rightarrow> sim_Create uuid new_id now s db
   | UpdateSession now u \<Rightarrow> sim_Update uuid now u db
   | CompleteSession now i \<Rightarrow> sim_Complete uuid now i db)"

text \<open>The use case and the consumer of its event.\<close>

definition session_do ::
    "(string \<Rightarrow> string option) \<Rightarrow> session_op \<Rightarrow> session_row umap \<times> session_registry \<Rightarrow> session_row umap \<times> session_registry" where
  "session_do uuid x st = (let (_, db, evs) = session_effect uuid x (fst st)
     in (db, fold (\<lambda>e m. snd (ApplySimConfigEvent e m)) evs (snd st)))"

definition session_run ::
    "(string \<Rightarrow> string option) \<Rightarrow> session_op list \<Rightarrow> session_row umap \<times> session_registry" where
  "session_run uuid xs = fold (session_do uuid) xs ([], [])"

text \<open>New identifiers are in the text the database gives back; numbers are those of their fields.\<close>

definition canonical :: "(string \<Rightarrow> string option) \<Rightarrow> string \<Rightarrow> bool" where
  "canonical uuid i \<longleftrightarrow> uuid i = None \<or> uuid i = Some i"

fun good_op :: "(string \<Rightarrow> string option) \<Rightarrow> session_op \<Rightarrow> bool" where
  "good_op uuid (CreateSession new_id now s) \<longleftrightarrow> canonical uuid new_id \<and> canonical uuid (zs_sim_session_id s)
     \<and> plain_scope (zs_scope_venues s) \<and> plain_scope (zs_scope_instruments s)
     \<and> 0 \<le> zs_stale_lob_threshold_ms s \<and> zs_stale_lob_threshold_ms s < 2 ^ 32"
| "good_op uuid (UpdateSession now u) \<longleftrightarrow> 0 \<le> zu_stale_lob_threshold_ms u \<and> zu_stale_lob_threshold_ms u < 2 ^ 32"
| "good_op uuid (CompleteSession now i) \<longleftrightarrow> True"

definition uuid_ok :: "(string \<Rightarrow> string option) \<Rightarrow> bool" where
  "uuid_ok uuid \<longleftrightarrow> uuid [] = None \<and> (\<forall>t i. uuid t = Some i \<longrightarrow> uuid i = Some i)"

section \<open>The registry follows the table\<close>

definition session_follows :: "session_row option \<Rightarrow> sim_session option \<Rightarrow> bool" where
  "session_follows row s \<longleftrightarrow> (case row of None \<Rightarrow> s = None
     | Some r \<Rightarrow> if sim_IsTerminal (SimStatusFromText (wr_status r)) then s = None else \<exists>x. s = Some x \<and> row_of x r)"

definition in_step :: "(string \<Rightarrow> string option) \<Rightarrow> session_row umap \<times> session_registry \<Rightarrow> bool" where
  "in_step uuid st \<longleftrightarrow> distinct (map fst (snd st))
     \<and> (\<forall>i s. find (snd st) i = Some s \<longrightarrow> zs_sim_session_id s = i)
     \<and> (\<forall>i r. find (fst st) i = Some r \<longrightarrow> uuid i = Some i \<and> valid_session (RowToSession i r))
     \<and> (\<forall>i. session_follows (find (fst st) i) (find (snd st) i))"

lemma event_applied:
  "zs_sim_session_id s \<noteq> [] \<Longrightarrow> snd (ApplySimConfigEvent (config_event_of s) m)
    = (if sim_IsTerminal (zs_status s) then erase (zs_sim_session_id s) m else put (zs_sim_session_id s) s m)"
  by (simp add: ApplySimConfigEvent_def config_event_of_def Registry_Upsert_def Registry_Remove_def Let_def)

lemma stored_in_step:
  assumes u: "uuid_ok uuid" and st: "in_step uuid (db, m)" and s: "valid_session s" "canonical uuid (zs_sim_session_id s)"
    and run: "store_session uuid now s (config_event_of s) db = (a, db', evs)"
  shows "in_step uuid (db', fold (\<lambda>e m. snd (ApplySimConfigEvent e m)) evs m)"
proof (cases "repo_Upsert uuid (fst now) s db")
  case None
  then show ?thesis using run st by (simp add: store_session_def)
next
  case (Some db1)
  let ?i = "zs_sim_session_id s"
  have "uuid ?i \<noteq> None" using Some by (auto simp: repo_Upsert_def split: option.splits)
  then have i: "uuid ?i = Some ?i" "?i \<noteq> []" using s(2) u by (auto simp: canonical_def uuid_ok_def)
  obtain r where r: "db1 = put ?i r db" "row_of s r" using stored_row[OF Some s(1) i(1)] .
  have e: "db' = put ?i r db" "fold (\<lambda>e m. snd (ApplySimConfigEvent e m)) evs m
      = (if sim_IsTerminal (zs_status s) then erase ?i m else put ?i s m)"
    using run Some r(1) i(2) by (auto simp: store_session_def event_applied)
  have m: "distinct (map fst m)" "\<And>j x. find m j = Some x \<Longrightarrow> zs_sim_session_id x = j"
    "\<And>j x. find db j = Some x \<Longrightarrow> uuid j = Some j \<and> valid_session (RowToSession j x)"
    "\<And>j. session_follows (find db j) (find m j)" using st by (simp_all add: in_step_def)
  have f: "session_follows (Some r) (if sim_IsTerminal (zs_status s) then None else Some s)"
    using r(2) by (simp add: session_follows_def row_of_def)
  show ?thesis unfolding e in_step_def fst_conv snd_conv
  proof (intro conjI allI impI)
    show "distinct (map fst (if sim_IsTerminal (zs_status s) then erase ?i m else put ?i s m))"
      using m(1) by (simp add: distinct_put distinct_erase)
    show "session_follows (find (put ?i r db) j) (find (if sim_IsTerminal (zs_status s) then erase ?i m else put ?i s m) j)" for j
      using m(4)[of j] f by (cases "j = ?i") (simp_all split: if_splits)
  qed (use m(2,3) r(2) i(1) in \<open>auto simp: row_of_def split: if_splits\<close>)
qed

lemma updated_valid:
  assumes "valid_session s" "good_op uuid (UpdateSession now u)"
  shows "valid_session (apply_update now u s)" "zs_sim_session_id (apply_update now u s) = zs_sim_session_id s"
  using assms by (simp_all add: apply_update_def valid_session_def Let_def)

lemma completed_valid:
  "valid_session s \<Longrightarrow> valid_session (s\<lparr>zs_status := SIM_SESSION_STATUS_COMPLETED, zs_completed_at := Some now\<rparr>)"
  by (simp add: valid_session_def)

lemma read_session:
  assumes "in_step uuid (db, m)" "repo_Get uuid t db = Some s"
  shows "valid_session s" "canonical uuid (zs_sim_session_id s)"
  using assms by (auto simp: repo_Get_def in_step_def canonical_def RowToSession_def split: option.splits)

lemma done_in_step:
  assumes u: "uuid_ok uuid" and st: "in_step uuid st" and x: "good_op uuid x"
  shows "in_step uuid (session_do uuid x st)"
proof -
  obtain db m where dm: "st = (db, m)" by fastforce
  obtain a db' evs where e: "session_effect uuid x db = (a, db', evs)" using prod_cases3 by blast
  have kept: "in_step uuid (db', fold (\<lambda>e m. snd (ApplySimConfigEvent e m)) evs m)" if "db' = db" "evs = []"
    using st dm that by simp
  have stored: "in_step uuid (db', fold (\<lambda>e m. snd (ApplySimConfigEvent e m)) evs m)"
    if "valid_session s" "canonical uuid (zs_sim_session_id s)" "store_session uuid now s (config_event_of s) db = (a, db', evs)"
    for s now by (rule stored_in_step[OF u st[unfolded dm] that])
  have "in_step uuid (db', fold (\<lambda>e m. snd (ApplySimConfigEvent e m)) evs m)"
  proof (cases x)
    case (CreateSession new_id now s)
    show ?thesis
    proof (cases "zs_routing_mode s = ROUTING_MODE_UNSPECIFIED")
      case True
      then show ?thesis using e CreateSession by (intro kept) (simp_all add: session_effect_def sim_Create_def)
    next
      case False
      then show ?thesis using e CreateSession x
        by (intro stored[of "let s = (if zs_sim_session_id s = [] then s\<lparr>zs_sim_session_id := new_id\<rparr> else s);
               s = s\<lparr>zs_created_at := Some now\<rparr>;
               s = (if zs_status s = SIM_SESSION_STATUS_UNSPECIFIED
                    then s\<lparr>zs_status := SIM_SESSION_STATUS_ACTIVE\<rparr> else s)
           in if zs_status s = SIM_SESSION_STATUS_ACTIVE \<and> zs_activated_at s = None
              then s\<lparr>zs_activated_at := Some now\<rparr> else s" now])
          (simp_all add: session_effect_def sim_Create_def valid_session_def Let_def)
    qed
  next
    case (UpdateSession now t)
    show ?thesis
    proof (cases "repo_Get uuid (zu_sim_session_id t) db")
      case None
      then show ?thesis using e UpdateSession by (intro kept) (simp_all add: session_effect_def sim_Update_def)
    next
      case (Some s)
      note s = read_session[OF st[unfolded dm] Some]
      show ?thesis using e UpdateSession Some s updated_valid[OF s(1) x[unfolded UpdateSession]]
        by (intro stored[of "apply_update now t s" now]) (simp_all add: session_effect_def sim_Update_def Let_def)
    qed
  next
    case (CompleteSession now t)
    show ?thesis
    proof (cases "repo_Get uuid t db")
      case None
      then show ?thesis using e CompleteSession by (intro kept) (simp_all add: session_effect_def sim_Complete_def)
    next
      case (Some s)
      note s = read_session[OF st[unfolded dm] Some]
      show ?thesis using e CompleteSession Some s completed_valid[OF s(1)]
        by (intro stored[of "s\<lparr>zs_status := SIM_SESSION_STATUS_COMPLETED, zs_completed_at := Some now\<rparr>" now])
          (simp_all add: session_effect_def sim_Complete_def Let_def config_event_of_def sim_IsTerminal_def)
    qed
  qed
  then show ?thesis using e dm by (simp add: session_do_def)
qed

lemma run_in_step:
  assumes "uuid_ok uuid" "\<forall>x \<in> set xs. good_op uuid x"
  shows "in_step uuid (session_run uuid xs)"
  using assms(2) unfolding session_run_def
proof (induction xs rule: rev_induct)
  case Nil
  then show ?case by (simp add: in_step_def session_follows_def)
next
  case (snoc x xs)
  then show ?case using done_in_step[OF assms(1)] by simp
qed

section \<open>The decision\<close>

lemma most_recent_cases: "(case most_recent best xs of None \<Rightarrow> best = None \<and> xs = [] | Some s \<Rightarrow> best = Some s \<or> s \<in> set xs)"
proof (induction xs arbitrary: best)
  case (Cons x xs)
  show ?case using Cons.IH[of "case best of None \<Rightarrow> Some x | Some b \<Rightarrow> if MoreRecent x b then Some x else Some b"]
    by (auto split: option.splits if_splits)
qed (simp split: option.split)

lemma resolved:
  "Registry_Resolve v sy m = Some s \<Longrightarrow> \<exists>i. (i, s) \<in> set m \<and> governs v sy s"
  "Registry_Resolve v sy m = None \<Longrightarrow> (i, s) \<in> set m \<Longrightarrow> \<not> governs v sy s"
  using most_recent_cases[of None "filter (governs v sy) (map snd m)"]
  by (auto simp: Registry_Resolve_def filter_empty_conv)

text \<open>The rows under which an intent is to be decided.\<close>

definition row_governs :: "string \<Rightarrow> string \<Rightarrow> session_row \<Rightarrow> bool" where
  "row_governs v sy r \<longleftrightarrow> SimStatusFromText (wr_status r) = SIM_SESSION_STATUS_ACTIVE
     \<and> InScope (wr_scope_venues r) v \<and> InScope (wr_scope_instruments r) sy"

lemma row_sel:
  assumes "row_of s r"
  shows "zs_status s = SimStatusFromText (wr_status r)" "zs_scope_venues s = wr_scope_venues r"
    "zs_scope_instruments s = wr_scope_instruments r" "effective s = effective (RowToSession (zs_sim_session_id s) r)"
    "zs_routing_mode s = RoutingModeFromText (wr_routing_mode r)"
proof -
  have p: "plain_scope (wr_scope_venues r)" "plain_scope (wr_scope_instruments r)" "SimStatusFromText (wr_status r) = zs_status s"
    "same_session s (RowToSession (zs_sim_session_id s) r)" using assms by (simp_all only: row_of_def)
  then show "zs_status s = SimStatusFromText (wr_status r)" by (simp only:)
  show "zs_scope_venues s = wr_scope_venues r" "zs_scope_instruments s = wr_scope_instruments r"
    using p(4) SplitCsv_join[OF p(1)] SplitCsv_join[OF p(2)]
    by (simp_all only: same_session_def RowToSession_def sim_session.simps)
  show e: "effective s = effective (RowToSession (zs_sim_session_id s) r)" using p(4) by (simp only: same_session_def)
  show "zs_routing_mode s = RoutingModeFromText (wr_routing_mode r)"
    using arg_cong[OF e, of rd_mode] by (simp only: effective_def RowToSession_def route_decision.simps sim_session.simps)
qed

lemma governs_row: "row_of s r \<Longrightarrow> governs v sy s = row_governs v sy r"
  by (simp only: governs_def row_governs_def row_sel)

lemma decided:
  assumes "Registry_Resolve v sy m = Some s" "row_of s r"
  shows "Decide m v sy = effective (RowToSession (zs_sim_session_id s) r)"
proof -
  have "zs_routing_mode s \<noteq> ROUTING_MODE_UNSPECIFIED" unfolding row_sel(5)[OF assms(2)] by simp
  then have "Decide m v sy = effective s" using assms(1) by (simp add: Decide_def effective_def)
  then show ?thesis using row_sel(4)[OF assms(2)] by simp
qed


definition ex_session :: sim_session where
  "ex_session = \<lparr>zs_sim_session_id = [], zs_name = ''dry run'', zs_routing_mode = ROUTING_MODE_SIM_ONLY,
     zs_scope_venues = [''okx''], zs_scope_instruments = [], zs_models = default_models,
     zs_stale_lob_threshold_ms = 0, zs_partial_fill_mode = PARTIAL_FILL_MODE_UNSPECIFIED,
     zs_status = SIM_SESSION_STATUS_UNSPECIFIED, zs_created_at = None, zs_activated_at = None,
     zs_completed_at = None, zs_created_by = []\<rparr>"

definition ex_uuid :: "string \<Rightarrow> string option" where
  "ex_uuid t = (if t = ''a1'' \<or> t = ''b2'' then Some t else None)"

definition ex_ops :: "session_op list" where
  "ex_ops = [CreateSession ''a1'' (5, 0) ex_session, CreateSession ''b2'' (6, 0) ex_session, CompleteSession (7, 0) ''b2'']"


end
