(* ===== verification/Matching_Solver.thy ===== *)
theory Matching_Solver
  imports Matching_Batch Planner_Cache
begin

text \<open>
  The clearing solver of the matching engine (\<open>matching/src/domain/solver_impl.cpp\<close>): the quadratic program
  it builds from the active orders, the fallback when its solution is not finite, the three phases
  that share executions among the orders, a venue and each other, and the batch it returns. The
  interior point iteration (\<open>SolveImpl\<close>) runs on vectors of the Eigen library, which fixes no order
  of its floating-point operations; it is an argument, and nothing is assumed of its
  result. Doubles are rationals with the rounding of \<open>fp\<close>; an infinite bound is \<open>None\<close>.
\<close>

section \<open>Configuration and numbers\<close>

record solver_config =
  sv_version :: int
  sv_batch_interval_ms :: int
  sv_max_iterations :: nat
  sv_epsilon_liquidity :: rat
  sv_tolerance :: rat

definition default_solver_config :: "fp \<Rightarrow> solver_config" where
  "default_solver_config fl = \<lparr>sv_version = 0, sv_batch_interval_ms = 1000, sv_max_iterations = 1000,
     sv_epsilon_liquidity = fp_round fl (1 / 10 ^ 9), sv_tolerance = fp_round fl (1 / 10 ^ 6)\<rparr>"

definition kQtyEps :: "fp \<Rightarrow> rat" where
  "kQtyEps fl = fp_round fl (1 / 10 ^ 12)"

definition ToDecimal :: "fp \<Rightarrow> rat \<Rightarrow> decimal" where
  "ToDecimal fl x = mk_dec (i64 (round_away (fp_round fl (x * 10 ^ 12)))) 12"

definition clamp_to :: "rat \<Rightarrow> rat \<Rightarrow> rat \<Rightarrow> rat" where
  "clamp_to lo hi x = (if x < lo then lo else if hi < x then hi else x)"

text \<open>A rate over the batch interval.\<close>

definition per_batch :: "fp \<Rightarrow> solver_config \<Rightarrow> rat \<Rightarrow> rat" where
  "per_batch fl cfg rate = fp_round fl (fp_round fl (rate * of_int (sv_batch_interval_ms cfg)) / 1000)"

definition sum_double :: "fp \<Rightarrow> rat list \<Rightarrow> rat" where
  "sum_double fl xs = foldl (\<lambda>t x. fp_round fl (t + x)) 0 xs"

section \<open>Curves of the venue\<close>

definition LiquiditySourceForVenue :: "string \<Rightarrow> string" where
  "LiquiditySourceForVenue v =
     (if contains_text ''uniswap'' v \<or> contains_text ''dex'' v then ''dex_hedge'' else ''cex_hedge'')"

definition SelectExternalCurve :: "venue_curve \<Rightarrow> side \<Rightarrow> side_curve option" where
  "SelectExternalCurve c sd = (case sd of SIDE_BUY \<Rightarrow> vc_ask_curve c | SIDE_SELL \<Rightarrow> vc_bid_curve c
     | SIDE_UNSPECIFIED \<Rightarrow> None)"

text \<open>The curve of a side if it has points.\<close>

definition side_points :: "venue_curve \<Rightarrow> side \<Rightarrow> side_curve option" where
  "side_points c sd = (case SelectExternalCurve c sd of None \<Rightarrow> None
     | Some x \<Rightarrow> if sc_q_grid x = [] \<or> sc_p_of_q x = [] then None else Some x)"

definition price_at :: "side_curve \<Rightarrow> nat \<Rightarrow> rat" where
  "price_at x i = sc_p_of_q x ! min i (length (sc_p_of_q x) - 1)"

definition ExternalPriceAtQty :: "fp \<Rightarrow> venue_curve \<Rightarrow> side \<Rightarrow> rat \<Rightarrow> rat option" where
  "ExternalPriceAtQty fl c sd qty =
     (case side_points c sd of None \<Rightarrow> None
      | Some x \<Rightarrow>
          let n = length (sc_q_grid x);
              idx = (case List.find (\<lambda>i. qty \<le> fp_round fl (sc_q_grid x ! i + kQtyEps fl)) [0..<n] of
                  None \<Rightarrow> n - 1 | Some i \<Rightarrow> i)
          in Some (price_at x idx))"

definition limit_price :: "fp \<Rightarrow> side \<Rightarrow> book_order \<Rightarrow> rat" where
  "limit_price fl sd b = (if sd = SIDE_BUY then to_double fl (bo_p_high b) else - to_double fl (bo_p_high b))"

definition acceptable_price :: "fp \<Rightarrow> side \<Rightarrow> book_order \<Rightarrow> rat \<Rightarrow> bool" where
  "acceptable_price fl sd b price = (if sd = SIDE_BUY then price \<le> fp_round fl (limit_price fl sd b + kQtyEps fl)
     else limit_price fl sd b \<le> fp_round fl (price + kQtyEps fl))"

definition improving_price :: "fp \<Rightarrow> side \<Rightarrow> rat \<Rightarrow> rat \<Rightarrow> bool" where
  "improving_price fl sd internal_price price = (if sd = SIDE_BUY then fp_round fl (price + kQtyEps fl) < internal_price
     else fp_round fl (internal_price + kQtyEps fl) < price)"

text \<open>The quantity of the last point before the first whose price does not pass.\<close>

definition last_passing :: "(rat \<Rightarrow> bool) \<Rightarrow> side_curve option \<Rightarrow> rat" where
  "last_passing pass x = (case x of None \<Rightarrow> 0
     | Some x \<Rightarrow> let is = takeWhile (\<lambda>i. pass (price_at x i)) [0..<length (sc_q_grid x)]
         in if is = [] then 0 else sc_q_grid x ! last is)"

definition MaxTradableExternalQtyForOrder :: "fp \<Rightarrow> venue_curve \<Rightarrow> side \<Rightarrow> book_order \<Rightarrow> rat" where
  "MaxTradableExternalQtyForOrder fl c sd b = last_passing (acceptable_price fl sd b) (side_points c sd)"

definition MaxPriceImprovingExternalQtyForOrder ::
    "fp \<Rightarrow> venue_curve \<Rightarrow> side \<Rightarrow> book_order \<Rightarrow> rat \<Rightarrow> rat" where
  "MaxPriceImprovingExternalQtyForOrder fl c sd b internal_price =
     last_passing (\<lambda>p. acceptable_price fl sd b p \<and> improving_price fl sd internal_price p) (side_points c sd)"

text \<open>What the price band of an order lets through in a batch, \<open>None\<close> when it sets no bound. The prices
  of a sell order are stored with the opposite sign.\<close>

definition band_of :: "fp \<Rightarrow> book_order \<Rightarrow> rat \<times> rat" where
  "band_of fl b =
     (let low = to_double fl (bo_p_low b); high = to_double fl (bo_p_high b);
          (low, high) = (if low < 0 \<and> high < 0 then (- high, - low) else (low, high))
      in if high < low then (high, low) else (low, high))"

definition PriceBandMaxQtyForSingleLegOrder :: "fp \<Rightarrow> solver_config \<Rightarrow> book_order \<Rightarrow> side \<Rightarrow> rat \<Rightarrow> rat option" where
  "PriceBandMaxQtyForSingleLegOrder fl cfg b sd price =
     (if length (bo_legs b) \<noteq> 1 then None
      else let (low, high) = band_of fl b; width = fp_round fl (high - low)
           in if width \<le> kQtyEps fl then None
              else let ratio = (case sd of SIDE_BUY \<Rightarrow> fp_round fl (fp_round fl (high - price) / width)
                     | SIDE_SELL \<Rightarrow> fp_round fl (fp_round fl (price - low) / width) | SIDE_UNSPECIFIED \<Rightarrow> 1)
                   in Some (per_batch fl cfg (fp_round fl (to_double fl (bo_q_rate b) * clamp_to 0 1 ratio))))"

section \<open>The quadratic program\<close>

text \<open>Lower bounds of the sellers, upper bounds of the buyers.\<close>

definition overlap_bounds :: "fp \<Rightarrow> book_order list \<Rightarrow> string \<Rightarrow> bool \<Rightarrow> rat list" where
  "overlap_bounds fl os s buy = List.map_filter (\<lambda>b. case find_leg b s of None \<Rightarrow> None
     | Some l \<Rightarrow> let w = to_double fl (ol_weight l)
         in if \<bar>w\<bar> \<le> kQtyEps fl \<or> (0 < w) \<noteq> buy then None
            else Some (if buy then to_double fl (bo_p_high b) else - to_double fl (bo_p_high b))) os"

definition ComputeInternalOverlapPrice :: "fp \<Rightarrow> book_order list \<Rightarrow> string \<Rightarrow> rat option" where
  "ComputeInternalOverlapPrice fl os s =
     (case (overlap_bounds fl os s True, overlap_bounds fl os s False) of
        (b # bs, a # as) \<Rightarrow>
          let buy_max = foldl min b bs; sell_min = foldl max a as
          in if fp_round fl (buy_max + kQtyEps fl) < sell_min then None
             else Some (fp_round fl (1 / 2 * fp_round fl (sell_min + buy_max)))
      | _ \<Rightarrow> None)"

text \<open>The symbols in the order they appear; the place of a symbol is its index.\<close>

definition add_symbol :: "string list \<Rightarrow> string \<Rightarrow> string list" where
  "add_symbol ss s = (if s \<in> set ss then ss else ss @ [s])"

definition symbols_of :: "book_order list \<Rightarrow> string list" where
  "symbols_of os = foldl add_symbol [] (concat (map (map ol_instrument_symbol \<circ> bo_legs) os))"

fun place_of :: "string \<Rightarrow> string list \<Rightarrow> nat" where
  "place_of s [] = 0"
| "place_of s (x # xs) = (if s = x then 0 else Suc (place_of s xs))"

record clearing_problem =
  cp_W :: "(nat \<times> nat \<times> rat) list"
  cp_pi :: "rat list"
  cp_d :: "rat option list"
  cp_qH :: "rat list"
  cp_pH :: "rat list"

definition quotient :: "fp \<Rightarrow> rat \<Rightarrow> rat \<Rightarrow> rat option" where
  "quotient fl x y = (if y = 0 then None else Some (fp_round fl (x / y)))"

definition initial_pi :: "fp \<Rightarrow> book_order list \<Rightarrow> decimal umap \<Rightarrow> string \<Rightarrow> rat" where
  "initial_pi fl os refs s = (case ComputeInternalOverlapPrice fl os s of Some p \<Rightarrow> p
     | None \<Rightarrow> (case find refs s of None \<Rightarrow> 0 | Some p \<Rightarrow> to_double fl p))"

definition order_capacity :: "fp \<Rightarrow> solver_config \<Rightarrow> book_order \<Rightarrow> rat" where
  "order_capacity fl cfg b =
     (let secs = max (fp_round fl (1 / 10 ^ 9)) (fp_round fl (of_int (sv_batch_interval_ms cfg) / 1000))
      in min (to_double fl (bo_q_rate b)) (fp_round fl (to_double fl (remaining_qty b) / secs)))"

definition exchange_capacity :: "fp \<Rightarrow> book_order list \<Rightarrow> string \<Rightarrow> rat" where
  "exchange_capacity fl os s = foldl (\<lambda>t (r, l). if ol_instrument_symbol l = s
     then fp_round fl (t + fp_round fl (\<bar>to_double fl (ol_weight l)\<bar> * r)) else t) 1
     (concat (map (\<lambda>b. map (\<lambda>l. (to_double fl (bo_q_rate b), l)) (bo_legs b)) os))"

definition solver_Init :: "fp \<Rightarrow> solver_config \<Rightarrow> book_order list \<Rightarrow> decimal umap \<Rightarrow> clearing_problem" where
  "solver_Init fl cfg os refs =
     (let ss = symbols_of os; n = length os; k = length ss; prices = map (initial_pi fl os refs) ss;
          penalty = quotient fl 1 (sv_epsilon_liquidity cfg); cover = map (exchange_capacity fl os) ss
      in \<lparr>cp_W = concat (map (\<lambda>(i, b). map (\<lambda>l. (place_of (ol_instrument_symbol l) ss, i, to_double fl (ol_weight l)))
                  (bo_legs b)) (enumerate 0 os))
              @ map (\<lambda>a. (a, n + a, 1)) [0..<k] @ map (\<lambda>a. (a, n + k + a, -1)) [0..<k],
          cp_pi = prices,
          cp_d = map (\<lambda>b. quotient fl (to_double fl (dsub (bo_p_high b) (bo_p_low b))) (to_double fl (bo_q_rate b))) os
              @ replicate k penalty @ replicate k penalty,
          cp_qH = map (order_capacity fl cfg) os @ cover @ cover,
          cp_pH = map (\<lambda>b. to_double fl (bo_p_high b)) os @ prices @ map uminus prices\<rparr>)"

text \<open>Rates of the orders and prices of the symbols, \<open>None\<close> if one of them is not finite.\<close>

type_synonym interior_point = "solver_config \<Rightarrow> clearing_problem \<Rightarrow> (rat list \<times> rat list) option"

text \<open>Without a finite solution every order asks for all it may have, at the initial prices.\<close>

definition solved_rates ::
    "fp \<Rightarrow> solver_config \<Rightarrow> interior_point \<Rightarrow> book_order list \<Rightarrow> decimal umap \<Rightarrow> rat list \<times> rat list" where
  "solved_rates fl cfg ip os refs =
     (let q = solver_Init fl cfg os refs
      in case ip cfg q of None \<Rightarrow> (take (length os) (cp_qH q), cp_pi q) | Some r \<Rightarrow> r)"

section \<open>Planned executions\<close>

record planned_fill =
  pf_order :: book_order
  pf_order_index :: nat
  pf_symbol :: string
  pf_side :: side
  pf_order_qty :: rat
  pf_max_leg_qty :: rat
  pf_weight_abs :: rat
  pf_requested :: rat
  pf_clear_price :: rat
  pf_actual :: rat
  pf_internal :: rat
  pf_external :: rat

definition plan_leg ::
    "fp \<Rightarrow> solver_config \<Rightarrow> string list \<Rightarrow> rat list \<Rightarrow> rat \<Rightarrow> rat \<Rightarrow> nat \<Rightarrow> book_order \<Rightarrow> order_leg \<Rightarrow> planned_fill option" where
  "plan_leg fl cfg ss prices x qH i b l =
     (let executed = per_batch fl cfg (clamp_to 0 qH x); w = \<bar>to_double fl (ol_weight l)\<bar>;
          qty = fp_round fl (executed * w)
      in if qty \<le> kQtyEps fl then None
         else Some \<lparr>pf_order = b, pf_order_index = i, pf_symbol = ol_instrument_symbol l,
                pf_side = (if 0 < units (ol_weight l) then SIDE_BUY else SIDE_SELL),
                pf_order_qty = executed, pf_max_leg_qty = fp_round fl (per_batch fl cfg qH * w),
                pf_weight_abs = w, pf_requested = qty,
                pf_clear_price = prices ! place_of (ol_instrument_symbol l) ss,
                pf_actual = 0, pf_internal = 0, pf_external = 0\<rparr>)"

definition plan_fills ::
    "fp \<Rightarrow> solver_config \<Rightarrow> book_order list \<Rightarrow> rat list \<Rightarrow> rat list \<Rightarrow> planned_fill list" where
  "plan_fills fl cfg os xs prices =
     concat (map (\<lambda>(i, b). List.map_filter
       (plan_leg fl cfg (symbols_of os) prices (xs ! i) (order_capacity fl cfg b) i b) (bo_legs b)) (enumerate 0 os))"

text \<open>The buys and the sells of a symbol, in the order of the plan.\<close>

definition in_plan :: "string \<Rightarrow> side \<Rightarrow> planned_fill \<Rightarrow> bool" where
  "in_plan s sd p \<longleftrightarrow> pf_symbol p = s \<and> pf_side p = sd"

definition requested_remaining :: "fp \<Rightarrow> string \<Rightarrow> side \<Rightarrow> planned_fill list \<Rightarrow> rat" where
  "requested_remaining fl s sd ps =
     sum_double fl (map (\<lambda>p. max 0 (fp_round fl (pf_requested p - pf_actual p))) (filter (in_plan s sd) ps))"

definition capacity_remaining :: "fp \<Rightarrow> string \<Rightarrow> side \<Rightarrow> planned_fill list \<Rightarrow> rat" where
  "capacity_remaining fl s sd ps =
     sum_double fl (map (\<lambda>p. max 0 (fp_round fl (pf_max_leg_qty p - pf_actual p))) (filter (in_plan s sd) ps))"

text \<open>The executions and the quantity of each order.\<close>

type_synonym allocation = "planned_fill list \<times> rat list"

definition update_actual_order_qty :: "fp \<Rightarrow> planned_fill \<Rightarrow> rat list \<Rightarrow> rat list" where
  "update_actual_order_qty fl p aq =
     (if pf_weight_abs p \<le> kQtyEps fl then aq
      else aq[pf_order_index p := max (aq ! pf_order_index p) (fp_round fl (pf_actual p / pf_weight_abs p))])"

section \<open>Crossing orders with each other\<close>

fun internal_loop :: "fp \<Rightarrow> string \<Rightarrow> side \<Rightarrow> rat \<Rightarrow> planned_fill list \<Rightarrow> rat list \<Rightarrow> allocation" where
  "internal_loop fl s sd ratio [] aq = ([], aq)"
| "internal_loop fl s sd ratio (p # ps) aq =
     (let qty = fp_round fl (max 0 (fp_round fl (pf_requested p - pf_actual p)) * ratio);
          skip = (\<not> in_plan s sd p \<or> qty \<le> kQtyEps fl);
          p = (if skip then p else p\<lparr>pf_internal := fp_round fl (pf_internal p + qty),
                                    pf_actual := fp_round fl (pf_actual p + qty)\<rparr>);
          aq = (if skip then aq else update_actual_order_qty fl p aq);
          (ps, aq) = internal_loop fl s sd ratio ps aq
      in (p # ps, aq))"

definition allocate_internal_side :: "fp \<Rightarrow> string \<Rightarrow> side \<Rightarrow> rat \<Rightarrow> allocation \<Rightarrow> allocation" where
  "allocate_internal_side fl s sd target st =
     (let whole = requested_remaining fl s sd (fst st)
      in if filter (in_plan s sd) (fst st) = [] \<or> whole \<le> kQtyEps fl \<or> target \<le> kQtyEps fl then st
         else internal_loop fl s sd (clamp_to 0 1 (fp_round fl (target / whole))) (fst st) (snd st))"

section \<open>Executing on the venue\<close>

text \<open>What one order may take when \<open>rest\<close> is still to be placed and \<open>consumed\<close> is taken from the curve.\<close>

definition external_qty ::
    "fp \<Rightarrow> solver_config \<Rightarrow> venue_curve \<Rightarrow> side \<Rightarrow> bool \<Rightarrow> rat \<Rightarrow> rat \<Rightarrow> planned_fill \<Rightarrow> rat option" where
  "external_qty fl cfg c sd improve rest consumed p =
     (let at_qty = fp_round fl (consumed + min rest (max 0 (fp_round fl (pf_max_leg_qty p - pf_actual p))));
          price = (case ExternalPriceAtQty fl c sd at_qty of None \<Rightarrow> pf_clear_price p | Some x \<Rightarrow> x);
          bound = (case PriceBandMaxQtyForSingleLegOrder fl cfg (pf_order p) sd price of None \<Rightarrow> pf_max_leg_qty p
            | Some q \<Rightarrow> min (pf_max_leg_qty p) (fp_round fl (q * pf_weight_abs p)));
          capacity = max 0 (fp_round fl (bound - pf_actual p))
      in if capacity \<le> kQtyEps fl then None
         else let tradable = (if improve then MaxPriceImprovingExternalQtyForOrder fl c sd (pf_order p) (pf_clear_price p)
                    else MaxTradableExternalQtyForOrder fl c sd (pf_order p));
                  qty = min rest (min capacity (max 0 (fp_round fl (tradable - consumed))))
              in if qty \<le> kQtyEps fl then None else Some qty)"

fun external_loop ::
    "fp \<Rightarrow> solver_config \<Rightarrow> venue_curve \<Rightarrow> string \<Rightarrow> side \<Rightarrow> bool \<Rightarrow> rat \<Rightarrow> rat \<Rightarrow> rat
      \<Rightarrow> planned_fill list \<Rightarrow> rat list \<Rightarrow> allocation \<times> bool" where
  "external_loop fl cfg c s sd improve target consumed allocated [] aq = (([], aq), False)"
| "external_loop fl cfg c s sd improve target consumed allocated (p # ps) aq =
     (let rest = fp_round fl (target - allocated) in
      if in_plan s sd p \<and> rest \<le> kQtyEps fl then ((p # ps, aq), False)
      else case (if in_plan s sd p then external_qty fl cfg c sd improve rest consumed p else None) of
             None \<Rightarrow>
               let ((ps, aq), used) = external_loop fl cfg c s sd improve target consumed allocated ps aq
               in ((p # ps, aq), used)
           | Some qty \<Rightarrow>
               let p = p\<lparr>pf_external := fp_round fl (pf_external p + qty), pf_actual := fp_round fl (pf_actual p + qty)\<rparr>;
                   ((ps, aq), _) = external_loop fl cfg c s sd improve target (fp_round fl (consumed + qty))
                     (fp_round fl (allocated + qty)) ps (update_actual_order_qty fl p aq)
               in ((p # ps, aq), True))"

definition allocate_external_side ::
    "fp \<Rightarrow> solver_config \<Rightarrow> venue_curve option \<Rightarrow> string \<Rightarrow> side \<Rightarrow> bool \<Rightarrow> allocation \<Rightarrow> allocation \<times> bool" where
  "allocate_external_side fl cfg curve s sd improve st =
     (let target = capacity_remaining fl s sd (fst st)
      in case curve of
           None \<Rightarrow> (st, False)
         | Some c \<Rightarrow>
             if filter (in_plan s sd) (fst st) = [] \<or> target \<le> kQtyEps fl then (st, False)
             else external_loop fl cfg c s sd improve target
               (sum_double fl (map pf_external (filter (in_plan s sd) (fst st)))) 0 (fst st) (snd st))"

section \<open>One symbol\<close>

text \<open>With an order of several legs every request of the symbol counts as executed.\<close>

definition grant_requests :: "string \<Rightarrow> allocation \<Rightarrow> allocation" where
  "grant_requests s st =
     (map (\<lambda>p. if pf_symbol p = s then p\<lparr>pf_actual := pf_requested p, pf_internal := pf_requested p\<rparr> else p) (fst st),
      fold (\<lambda>p aq. aq[pf_order_index p := pf_order_qty p]) (filter (\<lambda>p. pf_symbol p = s) (fst st)) (snd st))"

text \<open>The three phases: a venue that is cheaper, the orders with each other, the venue for the rest.\<close>

definition improve_phase :: "fp \<Rightarrow> solver_config \<Rightarrow> venue_curve option \<Rightarrow> string \<Rightarrow> allocation \<Rightarrow> allocation \<times> bool" where
  "improve_phase fl cfg curve s st =
     (let (st, u1) = allocate_external_side fl cfg curve s SIDE_BUY True st;
          (st, u2) = allocate_external_side fl cfg curve s SIDE_SELL True st in (st, u1 \<or> u2))"

definition cross_phase :: "fp \<Rightarrow> string \<Rightarrow> allocation \<Rightarrow> allocation" where
  "cross_phase fl s st =
     (let crossed = min (requested_remaining fl s SIDE_BUY (fst st)) (requested_remaining fl s SIDE_SELL (fst st))
      in allocate_internal_side fl s SIDE_SELL crossed (allocate_internal_side fl s SIDE_BUY crossed st))"

definition residual_phase :: "fp \<Rightarrow> solver_config \<Rightarrow> venue_curve option \<Rightarrow> string \<Rightarrow> allocation \<Rightarrow> allocation \<times> bool" where
  "residual_phase fl cfg curve s st =
     (let buy = requested_remaining fl s SIDE_BUY (fst st); sell = requested_remaining fl s SIDE_SELL (fst st)
      in if fp_round fl (sell + kQtyEps fl) < buy then allocate_external_side fl cfg curve s SIDE_BUY False st
         else if fp_round fl (buy + kQtyEps fl) < sell then allocate_external_side fl cfg curve s SIDE_SELL False st
         else (st, False))"

record clearing =
  cl_allocation :: allocation
  cl_residual_norm :: rat
  cl_external_symbols_used :: nat

definition clear_symbol ::
    "fp \<Rightarrow> solver_config \<Rightarrow> venue_curve umap \<Rightarrow> clearing \<Rightarrow> string \<Rightarrow> clearing" where
  "clear_symbol fl cfg ext x s =
     (let st = cl_allocation x; mine = filter (\<lambda>p. pf_symbol p = s) (fst st);
          asked = (\<lambda>sd. sum_double fl (map pf_requested (filter (in_plan s sd) (fst st))))
      in if \<exists>p \<in> set mine. length (bo_legs (pf_order p)) \<noteq> 1
         then x\<lparr>cl_allocation := grant_requests s st,
                cl_residual_norm := max (cl_residual_norm x) \<bar>fp_round fl (asked SIDE_BUY - asked SIDE_SELL)\<bar>\<rparr>
         else let (st, u1) = improve_phase fl cfg (find ext s) s st;
                  st = cross_phase fl s st;
                  (st, u2) = residual_phase fl cfg (find ext s) s st;
                  gap = fp_round fl (requested_remaining fl s SIDE_BUY (fst st) - requested_remaining fl s SIDE_SELL (fst st))
              in \<lparr>cl_allocation = st, cl_residual_norm = max (cl_residual_norm x) \<bar>gap\<bar>,
                  cl_external_symbols_used = (if u1 \<or> u2 then Suc (cl_external_symbols_used x)
                    else cl_external_symbols_used x)\<rparr>)"

text \<open>The symbols of the plan, in some order.\<close>

definition clear_all :: "fp \<Rightarrow> solver_config \<Rightarrow> venue_curve umap \<Rightarrow> nat \<Rightarrow> planned_fill list \<Rightarrow> clearing" where
  "clear_all fl cfg ext n ps =
     foldl (clear_symbol fl cfg ext)
       \<lparr>cl_allocation = (ps, replicate n 0), cl_residual_norm = 0, cl_external_symbols_used = 0\<rparr>
       (foldl add_symbol [] (map pf_symbol ps))"

section \<open>The batch\<close>

definition fill_instrument :: "string \<Rightarrow> instrument" where
  "fill_instrument s = (case split_at CHR ''/'' s of
       None \<Rightarrow> \<lparr>in_symbol = s, in_base = [], in_quote = []\<rparr>
     | Some (b, q) \<Rightarrow> \<lparr>in_symbol = s, in_base = b, in_quote = q\<rparr>)"

definition solver_AddFill ::
    "fp \<Rightarrow> book_order \<Rightarrow> string \<Rightarrow> side \<Rightarrow> rat \<Rightarrow> rat \<Rightarrow> string \<Rightarrow> venue_curve option \<Rightarrow> flow_fill list" where
  "solver_AddFill fl b s sd qty price source curve =
     (if qty \<le> kQtyEps fl then []
      else [\<lparr>ff_order_id = bo_order_id b, ff_user_id = bo_user_id b, ff_instrument = fill_instrument s, ff_side = sd,
             ff_executed_qty = ToDecimal fl qty, ff_price = Some (ToDecimal fl price),
             ff_executed_notional = ToDecimal fl (fp_round fl (qty * price)), ff_fee = None,
             ff_liquidity_source = source,
             ff_provenance = Some (case curve of
                 None \<Rightarrow> \<lparr>pv_liquidity_source = source, pv_venue_id = [], pv_snapshot_id = [], pv_curve_id = []\<rparr>
               | Some c \<Rightarrow> \<lparr>pv_liquidity_source = source, pv_venue_id = vc_venue_id c,
                             pv_snapshot_id = vc_snapshot_id c, pv_curve_id = CurveIdForAudit c\<rparr>)\<rparr>])"

definition ExternalConsumedKey :: "string \<Rightarrow> side \<Rightarrow> string" where
  "ExternalConsumedKey s sd = s @ ''|'' @ (case sd of SIDE_UNSPECIFIED \<Rightarrow> ''0'' | SIDE_BUY \<Rightarrow> ''1'' | SIDE_SELL \<Rightarrow> ''2'')"

record emission =
  em_fills :: "flow_fill list"
  em_total_qty :: "rat umap"
  em_total_notional :: "rat umap"
  em_consumed :: "rat umap"

definition emit_part ::
    "fp \<Rightarrow> planned_fill \<Rightarrow> rat \<Rightarrow> rat \<Rightarrow> string \<Rightarrow> venue_curve option \<Rightarrow> emission \<Rightarrow> emission" where
  "emit_part fl p qty price source curve e =
     (let s = pf_symbol p
      in e\<lparr>em_fills := em_fills e @ solver_AddFill fl (pf_order p) s (pf_side p) qty price source curve,
           em_total_qty := put s (fp_round fl (find_or 0 (em_total_qty e) s + qty)) (em_total_qty e),
           em_total_notional := put s (fp_round fl (find_or 0 (em_total_notional e) s + fp_round fl (qty * price)))
             (em_total_notional e)\<rparr>)"

definition emit_planned :: "fp \<Rightarrow> venue_curve umap \<Rightarrow> planned_fill \<Rightarrow> emission \<Rightarrow> emission" where
  "emit_planned fl ext p e =
     (let e = (if kQtyEps fl < pf_internal p
            then emit_part fl p (pf_internal p) (pf_clear_price p) ''internal'' None e else e)
      in if pf_external p \<le> kQtyEps fl then e
         else case find ext (pf_symbol p) of
                None \<Rightarrow> e
              | Some c \<Rightarrow>
                  let k = ExternalConsumedKey (pf_symbol p) (pf_side p);
                      consumed = fp_round fl (find_or 0 (em_consumed e) k + pf_external p);
                      price = (case ExternalPriceAtQty fl c (pf_side p) consumed of None \<Rightarrow> pf_clear_price p | Some x \<Rightarrow> x)
                  in emit_part fl p (pf_external p) price (LiquiditySourceForVenue (vc_venue_id c)) (Some c)
                       (e\<lparr>em_consumed := put k consumed (em_consumed e)\<rparr>))"

definition solver_update :: "fp \<Rightarrow> timestamp \<Rightarrow> book_order \<Rightarrow> rat \<Rightarrow> order_update" where
  "solver_update fl now b executed =
     (let remaining = max 0 (fp_round fl (to_double fl (remaining_qty b) - executed))
      in \<lparr>ou_order_id = bo_order_id b,
          ou_status = (if remaining \<le> kQtyEps fl then ORDER_STATUS_FILLED else ORDER_STATUS_PARTIALLY_FILLED),
          ou_remaining_qty = Some (ToDecimal fl remaining),
          ou_filled_qty_total = Some (ToDecimal fl (fp_round fl (to_double fl (bo_filled_cum b) + executed))),
          ou_updated_at = Some now\<rparr>)"

record solver_output = batch_output +
  so_executed_rates :: "decimal umap"
  so_residual_norm :: rat
  so_config_version :: int
  so_external_symbols_used :: nat

definition Solve ::
    "fp \<Rightarrow> solver_config \<Rightarrow> interior_point \<Rightarrow> timestamp \<Rightarrow> book_order list \<Rightarrow> decimal umap \<Rightarrow> venue_curve umap
      \<Rightarrow> solver_output" where
  "Solve fl cfg ip now os refs ext =
     (let (xs, prices) = solved_rates fl cfg ip os refs;
          x = clear_all fl cfg ext (length os) (plan_fills fl cfg os xs prices);
          (ps, aq) = cl_allocation x;
          e = fold (emit_planned fl ext) ps \<lparr>em_fills = [], em_total_qty = [], em_total_notional = [], em_consumed = []\<rparr>;
          executed = filter (\<lambda>(b, q). kQtyEps fl < q) (zip os aq);
          vwap = List.map_filter (\<lambda>(s, q). if q \<le> kQtyEps fl then None
            else Some (s, ToDecimal fl (fp_round fl (find_or 0 (em_total_notional e) s / q)))) (em_total_qty e)
      in \<lparr>br_batch_id = [], br_timestamp = (0, 0),
          br_clear_prices = fold (\<lambda>(s, p). put s p) vwap (map (\<lambda>(s, p). (s, ToDecimal fl p)) (zip (symbols_of os) prices)),
          br_fills = em_fills e, br_order_updates = map (\<lambda>(b, q). solver_update fl now b q) executed,
          br_num_active_orders = length os mod 4294967296, br_used_liquidity = [], bx_meta = empty_meta,
          bx_solve_time_ms = 0,
          so_executed_rates = fold (\<lambda>(b, q). put (bo_order_id b)
            (ToDecimal fl (fp_round fl (fp_round fl (q * 1000) / of_int (sv_batch_interval_ms cfg))))) executed [],
          so_residual_norm = cl_residual_norm x, so_config_version = sv_version cfg,
          so_external_symbols_used = cl_external_symbols_used x\<rparr>)"

end
