(* ===== verification/Matching_Solver_Laws.thy ===== *)
theory Matching_Solver_Laws
  imports Matching_Solver
begin

text \<open>
  What the clearing of \<open>Matching_Solver\<close> guarantees whatever the interior point iteration returns: no
  order executes more than its speed and its remaining quantity allow, the venue gives no more than its
  curve shows, and the orders of a symbol buy from each other what they sell to each other.
  Arithmetic is exact here; with doubles the bounds hold up to their rounding.
\<close>

lemma eps_exact [simp]: "exact fl \<Longrightarrow> kQtyEps fl = 1 / 10 ^ 12"
  by (simp add: kQtyEps_def)

lemma sum_double_exact [simp]: "exact fl \<Longrightarrow> sum_double fl xs = sum_list xs"
proof -
  assume "exact fl"
  then have "foldl (\<lambda>t x. fp_round fl (t + x)) a xs = a + sum_list xs" for a
    by (induction xs arbitrary: a) simp_all
  then show ?thesis by (simp add: sum_double_def)
qed

lemma all2_from: "list_all2 R xs ys \<Longrightarrow> y \<in> set ys \<Longrightarrow> \<exists>x \<in> set xs. R x y"
  by (induction rule: list_all2_induct) auto

lemma clamp_inside: "lo \<le> x \<Longrightarrow> x \<le> hi \<Longrightarrow> clamp_to lo hi x = x"
  by (simp add: clamp_to_def)

section \<open>One planned execution\<close>

text \<open>It stays within what its leg may have; \<open>cap\<close> is the quantity each order may have in the batch.\<close>

definition sound :: "planned_fill \<Rightarrow> bool" where
  "sound p \<longleftrightarrow> 0 \<le> pf_internal p \<and> 0 \<le> pf_external p \<and> pf_actual p = pf_internal p + pf_external p
     \<and> pf_actual p \<le> pf_max_leg_qty p \<and> 0 \<le> pf_requested p \<and> pf_requested p \<le> pf_max_leg_qty p"

definition fits :: "(nat \<Rightarrow> rat) \<Rightarrow> planned_fill \<Rightarrow> bool" where
  "fits cap p \<longleftrightarrow> sound p \<and> pf_max_leg_qty p = cap (pf_order_index p) * pf_weight_abs p \<and> 0 < pf_weight_abs p
     \<and> pf_order_qty p \<le> cap (pf_order_index p)"

definition capped :: "(nat \<Rightarrow> rat) \<Rightarrow> rat list \<Rightarrow> bool" where
  "capped cap aq \<longleftrightarrow> (\<forall>i < length aq. aq ! i \<le> cap i)"

text \<open>What an allocation may change of an execution.\<close>

definition same_plan :: "planned_fill \<Rightarrow> planned_fill \<Rightarrow> bool" where
  "same_plan p q \<longleftrightarrow> (\<exists>a i e. q = p\<lparr>pf_actual := a, pf_internal := i, pf_external := e\<rparr>)"

lemma same_plan_refl [simp]: "same_plan p p"
  unfolding same_plan_def by (rule exI[of _ "pf_actual p"], rule exI[of _ "pf_internal p"], rule exI[of _ "pf_external p"]) simp

lemma same_plan_sel:
  "same_plan p q \<Longrightarrow> pf_order q = pf_order p" "same_plan p q \<Longrightarrow> pf_order_index q = pf_order_index p"
  "same_plan p q \<Longrightarrow> pf_symbol q = pf_symbol p" "same_plan p q \<Longrightarrow> pf_side q = pf_side p"
  "same_plan p q \<Longrightarrow> pf_max_leg_qty q = pf_max_leg_qty p" "same_plan p q \<Longrightarrow> pf_weight_abs q = pf_weight_abs p"
  "same_plan p q \<Longrightarrow> pf_requested q = pf_requested p" "same_plan p q \<Longrightarrow> pf_order_qty q = pf_order_qty p"
  "same_plan p q \<Longrightarrow> pf_clear_price q = pf_clear_price p"
  by (auto simp: same_plan_def)

lemma same_plan_trans: "same_plan p q \<Longrightarrow> same_plan q r \<Longrightarrow> same_plan p r"
  unfolding same_plan_def by fastforce

lemma same_plan_in_plan: "same_plan p q \<Longrightarrow> in_plan s sd q = in_plan s sd p"
  by (simp add: in_plan_def same_plan_sel)

lemma fits_same: "same_plan p q \<Longrightarrow> fits cap p \<Longrightarrow> sound q \<Longrightarrow> fits cap q"
  by (simp add: fits_def same_plan_sel)

lemma update_capped:
  assumes "exact fl" "fits cap p" "capped cap aq"
  shows "capped cap (update_actual_order_qty fl p aq)" "length (update_actual_order_qty fl p aq) = length aq"
proof -
  have "pf_actual p / pf_weight_abs p \<le> cap (pf_order_index p)"
    using assms(2) by (simp add: fits_def sound_def pos_divide_le_eq)
  then have "update_actual_order_qty fl p aq ! i \<le> cap i" if "i < length aq" for i
    using assms(1,3) that by (cases "pf_order_index p = i") (auto simp: capped_def update_actual_order_qty_def)
  moreover show "length (update_actual_order_qty fl p aq) = length aq" by (simp add: update_actual_order_qty_def)
  ultimately show "capped cap (update_actual_order_qty fl p aq)" unfolding capped_def by simp
qed

section \<open>The loops\<close>

text \<open>What crossing does to an execution.\<close>

definition crossed_step :: "string \<Rightarrow> side \<Rightarrow> planned_fill \<Rightarrow> planned_fill \<Rightarrow> bool" where
  "crossed_step s sd p q \<longleftrightarrow> same_plan p q \<and> (\<not> in_plan s sd p \<longrightarrow> q = p) \<and> pf_external q = pf_external p \<and> sound q"

lemma internal_loop_keeps:
  assumes "exact fl" "0 \<le> ratio" "ratio \<le> 1"
  shows "\<forall>p \<in> set ps. fits cap p \<Longrightarrow> capped cap aq \<Longrightarrow> internal_loop fl s sd ratio ps aq = (qs, bq) \<Longrightarrow>
    list_all2 (crossed_step s sd) ps qs \<and> capped cap bq \<and> length bq = length aq"
proof (induction ps arbitrary: aq qs bq)
  case (Cons p ps)
  let ?d = "max 0 (pf_requested p - pf_actual p)"
  let ?skip = "\<not> in_plan s sd p \<or> ?d * ratio \<le> kQtyEps fl"
  define q where "q = (if ?skip then p else p\<lparr>pf_internal := pf_internal p + ?d * ratio, pf_actual := pf_actual p + ?d * ratio\<rparr>)"
  define cq where "cq = (if ?skip then aq else update_actual_order_qty fl q aq)"
  obtain qs' bq' where r: "internal_loop fl s sd ratio ps cq = (qs', bq')" by fastforce
  have e: "qs = q # qs'" "bq = bq'" using Cons.prems(3) r assms(1) by (auto simp: q_def cq_def Let_def split: if_splits)
  have p: "fits cap p" "sound p" using Cons.prems(1) by (simp_all add: fits_def)
  have d: "0 \<le> ?d * ratio" "?d * ratio \<le> ?d" using assms(2,3) by (simp_all add: mult_left_le)
  then have "pf_actual p + ?d * ratio \<le> pf_max_leg_qty p"
    using p(2) by (auto simp: sound_def max_def split: if_splits)
  then have sq: "sound q" using p(2) d by (auto simp: q_def sound_def)
  have same: "same_plan p q" unfolding same_plan_def
    by (rule exI[of _ "pf_actual q"], rule exI[of _ "pf_internal q"], rule exI[of _ "pf_external q"]) (simp add: q_def)
  have "capped cap cq" "length cq = length aq"
    using update_capped[OF assms(1) fits_same[OF same p(1) sq] Cons.prems(2)] Cons.prems(2) by (simp_all add: cq_def)
  then have "list_all2 (crossed_step s sd) ps qs' \<and> capped cap bq' \<and> length bq' = length aq"
    using Cons.IH[OF _ _ r] Cons.prems(1) by simp
  moreover have "crossed_step s sd p q" using same sq by (simp add: crossed_step_def q_def)
  ultimately show ?case by (simp add: e)
qed (simp add: crossed_step_def)

lemma last_passing_point:
  assumes "0 < last_passing pass x"
  obtains y i where "x = Some y" "i < length (sc_q_grid y)" "last_passing pass x = sc_q_grid y ! i"
    "\<forall>j \<le> i. pass (price_at y j)"
proof -
  obtain y where y: "x = Some y" using assms by (cases x) (simp_all add: last_passing_def)
  let ?n = "length (sc_q_grid y)" and ?P = "\<lambda>i. pass (price_at y i)"
  define m where "m = length (takeWhile ?P [0..<?n])"
  have m: "m \<le> ?n" using length_takeWhile_le[of ?P "[0..<?n]"] by (simp add: m_def)
  have e: "takeWhile ?P [0..<?n] = [0..<m]" using takeWhile_eq_take[of ?P "[0..<?n]"] m by (simp add: m_def)
  have "0 < m" using assms y by (auto simp: last_passing_def Let_def e split: if_splits)
  then have l: "last_passing pass x = sc_q_grid y ! (m - 1)" by (simp add: last_passing_def y Let_def e)
  have "?P j" if "j < m" for j using set_takeWhileD[of j ?P "[0..<?n]"] that by (simp add: e)
  then show ?thesis using that[of y "m - 1"] y l m \<open>0 < m\<close> by auto
qed

lemma tradable_point:
  assumes "0 < (if improve then MaxPriceImprovingExternalQtyForOrder fl c sd b x else MaxTradableExternalQtyForOrder fl c sd b)"
  obtains y i where "side_points c sd = Some y" "i < length (sc_q_grid y)"
    "(if improve then MaxPriceImprovingExternalQtyForOrder fl c sd b x else MaxTradableExternalQtyForOrder fl c sd b) = sc_q_grid y ! i"
    "\<forall>j \<le> i. acceptable_price fl sd b (price_at y j)"
  using assms
  by (cases improve) (auto simp: MaxPriceImprovingExternalQtyForOrder_def MaxTradableExternalQtyForOrder_def elim!: last_passing_point)

text \<open>The most the curve of a side shows, and that its first price suits an order.\<close>

definition depth :: "venue_curve \<Rightarrow> side \<Rightarrow> rat" where
  "depth c sd = (case side_points c sd of None \<Rightarrow> 0 | Some y \<Rightarrow> max 0 (Max (set (sc_q_grid y))))"

definition suits :: "fp \<Rightarrow> venue_curve \<Rightarrow> side \<Rightarrow> book_order \<Rightarrow> bool" where
  "suits fl c sd b \<longleftrightarrow> (\<exists>y. side_points c sd = Some y \<and> acceptable_price fl sd b (price_at y 0))"

definition venue_step :: "fp \<Rightarrow> venue_curve \<Rightarrow> string \<Rightarrow> side \<Rightarrow> planned_fill \<Rightarrow> planned_fill \<Rightarrow> bool" where
  "venue_step fl c s sd p q \<longleftrightarrow> same_plan p q \<and> (\<not> in_plan s sd p \<longrightarrow> q = p) \<and> pf_internal q = pf_internal p \<and> sound q
     \<and> (pf_external q \<noteq> pf_external p \<longrightarrow> suits fl c sd (pf_order p))"

lemma external_qty_bounds:
  assumes "exact fl" "0 \<le> consumed" and q: "external_qty fl cfg c sd improve rest consumed p = Some q"
  shows "0 < q" "q \<le> pf_max_leg_qty p - pf_actual p" "consumed + q \<le> depth c sd" "suits fl c sd (pf_order p)"
proof -
  define t where "t = (if improve then MaxPriceImprovingExternalQtyForOrder fl c sd (pf_order p) (pf_clear_price p)
    else MaxTradableExternalQtyForOrder fl c sd (pf_order p))"
  define price where "price = (case ExternalPriceAtQty fl c sd (fp_round fl (consumed + min rest (max 0 (fp_round fl (pf_max_leg_qty p - pf_actual p)))))
    of None \<Rightarrow> pf_clear_price p | Some x \<Rightarrow> x)"
  define bound where "bound = (case PriceBandMaxQtyForSingleLegOrder fl cfg (pf_order p) sd price of None \<Rightarrow> pf_max_leg_qty p
    | Some x \<Rightarrow> min (pf_max_leg_qty p) (fp_round fl (x * pf_weight_abs p)))"
  have b: "bound \<le> pf_max_leg_qty p" by (simp add: bound_def split: option.split)
  have "(if max 0 (bound - pf_actual p) \<le> 1 / 10 ^ 12 then None
    else let y = min rest (min (max 0 (bound - pf_actual p)) (max 0 (t - consumed)))
      in if y \<le> 1 / 10 ^ 12 then None else Some y) = Some q"
    using q unfolding external_qty_def Let_def price_def[symmetric] bound_def[symmetric] t_def[symmetric]
    by (simp only: exact_round[OF assms(1)] eps_exact[OF assms(1)])
  then have c: "\<not> max 0 (bound - pf_actual p) \<le> 1 / 10 ^ 12" "\<not> q \<le> 1 / 10 ^ 12"
    "q = min rest (min (max 0 (bound - pf_actual p)) (max 0 (t - consumed)))"
    by (auto simp only: Let_def option.inject split: if_splits)
  show pos: "0 < q" using c(2) by (simp add: not_le less_trans[of 0 "1 / 10 ^ 12"])
  have le: "q \<le> max 0 (bound - pf_actual p)" "q \<le> max 0 (t - consumed)" unfolding c(3) by simp_all
  show "q \<le> pf_max_leg_qty p - pf_actual p" using le(1) pos b by (simp add: max_def split: if_splits)
  have t: "consumed + q \<le> t" using le(2) pos by (simp add: max_def split: if_splits)
  then have "0 < t" using pos assms(2) by simp
  then obtain y i where y: "side_points c sd = Some y" "i < length (sc_q_grid y)" "t = sc_q_grid y ! i"
    "\<forall>j \<le> i. acceptable_price fl sd (pf_order p) (price_at y j)"
    unfolding t_def by (rule tradable_point)
  then have "t \<le> Max (set (sc_q_grid y))" by simp
  then show "consumed + q \<le> depth c sd" using t y(1) by (simp add: depth_def)
  show "suits fl c sd (pf_order p)" using y(1,4) by (auto simp: suits_def)
qed

text \<open>The sum of a field over the executions of one side of a symbol.\<close>

definition side_sum :: "(planned_fill \<Rightarrow> rat) \<Rightarrow> string \<Rightarrow> side \<Rightarrow> planned_fill list \<Rightarrow> rat" where
  "side_sum f s sd ps = sum_list (map f (filter (in_plan s sd) ps))"

lemma side_sum_simps [simp]:
  "side_sum f s sd [] = 0" "side_sum f s sd (p # ps) = (if in_plan s sd p then f p else 0) + side_sum f s sd ps"
  by (simp_all add: side_sum_def)

lemma external_loop_keeps:
  assumes "exact fl"
  shows "\<forall>p \<in> set ps. fits cap p \<Longrightarrow> capped cap aq \<Longrightarrow> 0 \<le> consumed \<Longrightarrow> consumed \<le> depth c sd \<Longrightarrow>
    external_loop fl cfg c s sd improve target consumed allocated ps aq = ((qs, bq), used) \<Longrightarrow>
    list_all2 (venue_step fl c s sd) ps qs \<and> capped cap bq \<and> length bq = length aq
    \<and> consumed + side_sum pf_external s sd qs - side_sum pf_external s sd ps \<le> depth c sd"
proof (induction ps arbitrary: aq qs bq consumed allocated used)
  case (Cons p ps)
  have p: "fits cap p" "sound p" "\<forall>x \<in> set ps. fits cap x" using Cons.prems(1) by (simp_all add: fits_def)
  have refl: "list_all2 (venue_step fl c s sd) xs xs" if "\<forall>x \<in> set xs. sound x" for xs
    using that by (induction xs) (simp_all add: venue_step_def)
  let ?rest = "target - allocated"
  consider (stop) "in_plan s sd p" "?rest \<le> kQtyEps fl" | (skip) "\<not> (in_plan s sd p \<and> ?rest \<le> kQtyEps fl)"
      "(if in_plan s sd p then external_qty fl cfg c sd improve ?rest consumed p else None) = None"
    | (take) q where "in_plan s sd p" "\<not> ?rest \<le> kQtyEps fl" "external_qty fl cfg c sd improve ?rest consumed p = Some q"
    by (cases "in_plan s sd p"; cases "?rest \<le> kQtyEps fl"; cases "external_qty fl cfg c sd improve ?rest consumed p") auto
  then show ?case
  proof cases
    case stop
    then have "qs = p # ps" "bq = aq" using Cons.prems(5) assms by auto
    then show ?thesis using refl[of "p # ps"] Cons.prems(1,2,4) by (simp add: fits_def)
  next
    case skip
    obtain qs' bq' u where r: "external_loop fl cfg c s sd improve target consumed allocated ps aq = ((qs', bq'), u)"
      by (metis prod.collapse)
    have e: "qs = p # qs'" "bq = bq'" using Cons.prems(5) r skip assms by (auto simp: Let_def)
    show ?thesis using Cons.IH[OF p(3) Cons.prems(2-4) r] p(2) by (auto simp: e venue_step_def)
  next
    case (take q)
    note b = external_qty_bounds[OF assms Cons.prems(3) take(3)]
    define x where "x = p\<lparr>pf_external := pf_external p + q, pf_actual := pf_actual p + q\<rparr>"
    obtain qs' bq' u where r: "external_loop fl cfg c s sd improve target (consumed + q) (allocated + q) ps
        (update_actual_order_qty fl x aq) = ((qs', bq'), u)" by (metis prod.collapse)
    have e: "qs = x # qs'" "bq = bq'" using Cons.prems(5) r take assms by (auto simp: Let_def x_def)
    have x: "sound x" "same_plan p x" "pf_external x = pf_external p + q" "pf_internal x = pf_internal p" "in_plan s sd x"
      using p(2) b(1,2) take(1) by (auto simp: x_def sound_def same_plan_def in_plan_def)
        (rule exI[of _ "pf_actual p + q"], rule exI[of _ "pf_internal p"], rule exI[of _ "pf_external p + q"], simp)
    have upd: "capped cap (update_actual_order_qty fl x aq)" "length (update_actual_order_qty fl x aq) = length aq"
      using update_capped[OF assms fits_same[OF x(2) p(1) x(1)] Cons.prems(2)] by simp_all
    have "venue_step fl c s sd p x" using x b(4) take(1) by (simp add: venue_step_def)
    then show ?thesis using Cons.IH[OF p(3) upd(1) _ b(3) r] b(1) Cons.prems(3) upd(2) x(3,5) take(1) by (simp add: e)
  qed
qed simp

section \<open>Allocations\<close>

definition alloc_ok :: "(nat \<Rightarrow> rat) \<Rightarrow> allocation \<Rightarrow> bool" where
  "alloc_ok cap st \<longleftrightarrow> (\<forall>p \<in> set (fst st). fits cap p) \<and> capped cap (snd st)"

text \<open>Only executions of a symbol change, and only in what is allocated to them.\<close>

definition touched :: "string \<Rightarrow> allocation \<Rightarrow> allocation \<Rightarrow> bool" where
  "touched s st st' \<longleftrightarrow> list_all2 (\<lambda>p q. same_plan p q \<and> (pf_symbol p \<noteq> s \<longrightarrow> q = p)) (fst st) (fst st')
     \<and> length (snd st') = length (snd st)"

lemma touched_refl [simp]: "touched s st st"
  by (simp add: touched_def list_all2_same)

lemma touched_trans:
  assumes "touched s a b" "touched s b c"
  shows "touched s a c"
proof -
  let ?R = "\<lambda>p q. same_plan p q \<and> (pf_symbol p \<noteq> s \<longrightarrow> q = p)"
  have "list_all2 ?R (fst a) (fst c)"
  proof (rule list_all2_trans)
    show "list_all2 ?R (fst a) (fst b)" "list_all2 ?R (fst b) (fst c)" using assms by (simp_all add: touched_def)
  qed (use same_plan_trans same_plan_sel(3) in metis)
  then show ?thesis using assms by (simp add: touched_def)
qed

lemma touched_length: "touched s a b \<Longrightarrow> length (fst b) = length (fst a)"
  unfolding touched_def using list_all2_lengthD by fastforce

lemma side_sum_same:
  assumes "list_all2 (\<lambda>p q. same_plan p q \<and> (in_plan s sd p \<longrightarrow> f q = f p)) ps qs"
  shows "side_sum f s sd qs = side_sum f s sd ps"
  using assms by induction (auto simp: same_plan_in_plan)

definition depth_at :: "venue_curve option \<Rightarrow> side \<Rightarrow> rat" where
  "depth_at curve sd = (case curve of None \<Rightarrow> 0 | Some c \<Rightarrow> depth c sd)"

text \<open>The venue's part of a symbol.\<close>

definition from_venue_ok :: "fp \<Rightarrow> venue_curve option \<Rightarrow> string \<Rightarrow> planned_fill list \<Rightarrow> bool" where
  "from_venue_ok fl curve s ps \<longleftrightarrow> (\<forall>sd. side_sum pf_external s sd ps \<le> depth_at curve sd)
     \<and> (\<forall>p \<in> set ps. pf_symbol p = s \<and> pf_external p \<noteq> 0 \<longrightarrow>
          (\<exists>c. curve = Some c \<and> suits fl c (pf_side p) (pf_order p)))"

lemma external_side_keeps:
  assumes "exact fl" and ok: "alloc_ok cap st" "from_venue_ok fl curve s (fst st)"
    and run: "allocate_external_side fl cfg curve s sd improve st = (st', used)"
  shows "alloc_ok cap st'" "touched s st st'" "from_venue_ok fl curve s (fst st')"
    "map pf_internal (fst st') = map pf_internal (fst st)"
proof -
  have "alloc_ok cap st' \<and> touched s st st' \<and> from_venue_ok fl curve s (fst st') \<and> map pf_internal (fst st') = map pf_internal (fst st)"
  proof (cases "st' = st")
    case False
    then obtain c where c: "curve = Some c" "external_loop fl cfg c s sd improve (capacity_remaining fl s sd (fst st))
        (side_sum pf_external s sd (fst st)) 0 (fst st) (snd st) = (st', used)"
      using run assms(1) by (auto simp: allocate_external_side_def Let_def side_sum_def split: option.splits if_splits)
    have nn: "0 \<le> side_sum pf_external s sd (fst st)" using ok(1)
      by (auto simp: side_sum_def alloc_ok_def fits_def sound_def intro!: sum_list_nonneg)
    have le: "side_sum pf_external s sd (fst st) \<le> depth c sd" using ok(2) c(1) by (simp add: from_venue_ok_def depth_at_def)
    obtain qs bq where st': "st' = (qs, bq)" by fastforce
    have "\<forall>p \<in> set (fst st). fits cap p" "capped cap (snd st)" using ok(1) by (simp_all add: alloc_ok_def)
    from external_loop_keeps[OF assms(1) this nn le c(2)[unfolded st']]
    have k: "list_all2 (venue_step fl c s sd) (fst st) qs" "capped cap bq" "length bq = length (snd st)"
      "side_sum pf_external s sd qs \<le> depth c sd" by simp_all
    have p: "same_plan p q" "in_plan s sd p \<or> q = p" "pf_internal q = pf_internal p" "sound q"
      "pf_external q \<noteq> pf_external p \<longrightarrow> suits fl c sd (pf_order p)" if "venue_step fl c s sd p q" for p q
      using that by (auto simp: venue_step_def)
    have "fits cap q" if "q \<in> set qs" for q
    proof -
      obtain p where "p \<in> set (fst st)" "venue_step fl c s sd p q" using all2_from[OF k(1)] \<open>q \<in> set qs\<close> by blast
      then show ?thesis using fits_same[OF p(1)] p(4) ok(1) by (auto simp: alloc_ok_def)
    qed
    moreover have "touched s st st'" unfolding touched_def st' using k(3)
      by (auto intro!: list_all2_mono[OF k(1)] simp: venue_step_def in_plan_def)
    moreover have "map pf_internal qs = map pf_internal (fst st)"
      using k(1) by induction (simp_all add: venue_step_def)
    moreover have "from_venue_ok fl curve s qs" unfolding from_venue_ok_def
    proof (intro conjI allI ballI impI)
      show "side_sum pf_external s x qs \<le> depth_at curve x" for x
      proof (cases "x = sd")
        case False
        have "side_sum pf_external s x qs = side_sum pf_external s x (fst st)"
          using False by (intro side_sum_same list_all2_mono[OF k(1)]) (auto simp: venue_step_def in_plan_def)
        then show ?thesis using ok(2) by (simp add: from_venue_ok_def)
      qed (use k(4) c(1) in \<open>simp add: depth_at_def\<close>)
      fix q assume q: "q \<in> set qs" "pf_symbol q = s \<and> pf_external q \<noteq> 0"
      obtain p where pq: "p \<in> set (fst st)" "venue_step fl c s sd p q" using all2_from[OF k(1) q(1)] by blast
      show "\<exists>c. curve = Some c \<and> suits fl c (pf_side q) (pf_order q)"
      proof (cases "pf_external q = pf_external p")
        case True
        then show ?thesis using ok(2) pq q(2) same_plan_sel[OF p(1)[OF pq(2)]] by (auto simp: from_venue_ok_def)
      next
        case False
        then have "in_plan s sd p" "suits fl c sd (pf_order p)" using p(2,5)[OF pq(2)] by auto
        then show ?thesis using c(1) same_plan_sel[OF p(1)[OF pq(2)]] by (simp add: in_plan_def)
      qed
    qed
    ultimately show ?thesis using k(2) by (simp add: st' alloc_ok_def)
  qed (use ok in simp)
  then show "alloc_ok cap st'" "touched s st st'" "from_venue_ok fl curve s (fst st')"
    "map pf_internal (fst st') = map pf_internal (fst st)" by simp_all
qed

section \<open>Crossing\<close>

lemma internal_loop_sum:
  assumes "exact fl" "0 \<le> ratio" "internal_loop fl s sd ratio ps aq = (qs, bq)"
  defines "asked \<equiv> side_sum (\<lambda>p. max 0 (pf_requested p - pf_actual p)) s sd ps"
  shows "side_sum pf_internal s sd ps + asked * ratio - of_nat (length ps) / 10 ^ 12 \<le> side_sum pf_internal s sd qs"
    and "side_sum pf_internal s sd qs \<le> side_sum pf_internal s sd ps + asked * ratio"
proof -
  have "side_sum pf_internal s sd ps + side_sum (\<lambda>p. max 0 (pf_requested p - pf_actual p)) s sd ps * ratio
        - of_nat (length ps) / 10 ^ 12 \<le> side_sum pf_internal s sd qs
      \<and> side_sum pf_internal s sd qs
        \<le> side_sum pf_internal s sd ps + side_sum (\<lambda>p. max 0 (pf_requested p - pf_actual p)) s sd ps * ratio"
    using assms(3)
  proof (induction ps arbitrary: aq qs bq)
    case (Cons p ps)
    let ?d = "max 0 (pf_requested p - pf_actual p) * ratio"
    let ?skip = "\<not> in_plan s sd p \<or> ?d \<le> 1 / 10 ^ 12"
    define q where "q = (if ?skip then p else p\<lparr>pf_internal := pf_internal p + ?d, pf_actual := pf_actual p + ?d\<rparr>)"
    define cq where "cq = (if ?skip then aq else update_actual_order_qty fl q aq)"
    obtain qs' bq' where r: "internal_loop fl s sd ratio ps cq = (qs', bq')" by fastforce
    have e: "qs = q # qs'" using Cons.prems r assms(1) by (auto simp: q_def cq_def Let_def split: if_splits)
    have "0 \<le> ?d" using assms(2) by simp
    then have q: "in_plan s sd q = in_plan s sd p" "in_plan s sd p \<Longrightarrow> pf_internal p + ?d - 1 / 10 ^ 12 \<le> pf_internal q"
      "in_plan s sd p \<Longrightarrow> pf_internal q \<le> pf_internal p + ?d"
      by (simp_all add: q_def in_plan_def)
    show ?case
    proof (cases "in_plan s sd p")
      case True
      then show ?thesis using Cons.IH[OF r] q by (simp add: e algebra_simps add_divide_distrib)
    next
      case False
      then show ?thesis using Cons.IH[OF r] q(1) by (simp add: e algebra_simps add_divide_distrib)
    qed
  qed simp
  then show "side_sum pf_internal s sd ps + asked * ratio - of_nat (length ps) / 10 ^ 12 \<le> side_sum pf_internal s sd qs"
    "side_sum pf_internal s sd qs \<le> side_sum pf_internal s sd ps + asked * ratio" by (simp_all add: asked_def)
qed

lemma remaining_exact: "exact fl \<Longrightarrow> requested_remaining fl s sd ps = side_sum (\<lambda>p. max 0 (pf_requested p - pf_actual p)) s sd ps"
  by (simp add: requested_remaining_def side_sum_def)

lemma internal_side_keeps:
  assumes "exact fl" and ok: "alloc_ok cap st" "from_venue_ok fl curve s (fst st)"
    and target: "target \<le> requested_remaining fl s sd (fst st)"
    and run: "allocate_internal_side fl s sd target st = st'"
  shows "alloc_ok cap st'" "touched s st st'" "from_venue_ok fl curve s (fst st')"
    "target \<le> 1 / 10 ^ 12 \<Longrightarrow> st' = st"
    "1 / 10 ^ 12 < target \<Longrightarrow> target - of_nat (length (fst st)) / 10 ^ 12
       \<le> side_sum pf_internal s sd (fst st') - side_sum pf_internal s sd (fst st)
     \<and> side_sum pf_internal s sd (fst st') - side_sum pf_internal s sd (fst st) \<le> target"
    "sd' \<noteq> sd \<Longrightarrow> side_sum f s sd' (fst st') = side_sum f s sd' (fst st)"
proof -
  let ?w = "requested_remaining fl s sd (fst st)"
  have ran: "alloc_ok cap st' \<and> touched s st st' \<and> from_venue_ok fl curve s (fst st')
    \<and> (target - of_nat (length (fst st)) / 10 ^ 12 \<le> side_sum pf_internal s sd (fst st') - side_sum pf_internal s sd (fst st)
      \<and> side_sum pf_internal s sd (fst st') - side_sum pf_internal s sd (fst st) \<le> target)
    \<and> (sd' \<noteq> sd \<longrightarrow> side_sum f s sd' (fst st') = side_sum f s sd' (fst st))" if big: "1 / 10 ^ 12 < target"
  proof -
    have w: "1 / 10 ^ 12 < ?w" using big target by simp
    have ne: "filter (in_plan s sd) (fst st) \<noteq> []" using w assms(1) by (auto simp: remaining_exact side_sum_def)
    have ratio: "0 \<le> target / ?w" "target / ?w \<le> 1" "?w * (target / ?w) = target"
      using w big target less_trans[of 0 "1 / 10 ^ 12 :: rat"] by (simp_all add: field_simps)
    obtain qs bq where st': "st' = (qs, bq)" by fastforce
    have loop: "internal_loop fl s sd (target / ?w) (fst st) (snd st) = (qs, bq)"
      using run ne w big clamp_inside[OF ratio(1,2)] assms(1) by (simp add: allocate_internal_side_def Let_def st' not_le)
    have fit: "\<forall>p \<in> set (fst st). fits cap p" "capped cap (snd st)" using ok(1) by (simp_all add: alloc_ok_def)
    have k: "list_all2 (crossed_step s sd) (fst st) qs" "capped cap bq" "length bq = length (snd st)"
      using internal_loop_keeps[OF assms(1) ratio(1,2) fit loop] by simp_all
    have p: "same_plan p q" "in_plan s sd p \<or> q = p" "pf_external q = pf_external p" "sound q"
      if "crossed_step s sd p q" for p q using that by (auto simp: crossed_step_def)
    have "fits cap q" if "q \<in> set qs" for q
    proof -
      obtain p where "p \<in> set (fst st)" "crossed_step s sd p q" using all2_from[OF k(1)] \<open>q \<in> set qs\<close> by blast
      then show ?thesis using fits_same[OF p(1)] p(4) fit(1) by auto
    qed
    moreover have "touched s st st'" unfolding touched_def st' using k(3)
      by (auto intro!: list_all2_mono[OF k(1)] simp: crossed_step_def in_plan_def)
    moreover have "from_venue_ok fl curve s qs" unfolding from_venue_ok_def
    proof (intro conjI allI ballI impI)
      have "side_sum pf_external s x qs = side_sum pf_external s x (fst st)" for x
        by (intro side_sum_same list_all2_mono[OF k(1)]) (auto simp: crossed_step_def)
      then show "side_sum pf_external s x qs \<le> depth_at curve x" for x using ok(2) by (simp add: from_venue_ok_def)
      fix q assume q: "q \<in> set qs" "pf_symbol q = s \<and> pf_external q \<noteq> 0"
      obtain p where pq: "p \<in> set (fst st)" "crossed_step s sd p q" using all2_from[OF k(1) q(1)] by blast
      then show "\<exists>c. curve = Some c \<and> suits fl c (pf_side q) (pf_order q)"
        using ok(2) q(2) same_plan_sel[OF p(1)[OF pq(2)]] p(3)[OF pq(2)] by (auto simp: from_venue_ok_def)
    qed
    moreover have "sd' \<noteq> sd \<longrightarrow> side_sum f s sd' qs = side_sum f s sd' (fst st)"
      by (intro impI side_sum_same list_all2_mono[OF k(1)]) (auto simp: crossed_step_def in_plan_def)
    ultimately show ?thesis
      using internal_loop_sum[OF assms(1) ratio(1) loop] ratio(3) k(2) assms(1)
      by (simp add: st' alloc_ok_def remaining_exact)
  qed
  have small: "st' = st" if "target \<le> 1 / 10 ^ 12"
    using run that assms(1) by (simp add: allocate_internal_side_def Let_def)
  then show "target \<le> 1 / 10 ^ 12 \<Longrightarrow> st' = st" .
  show "alloc_ok cap st'" "touched s st st'" "from_venue_ok fl curve s (fst st')"
    "sd' \<noteq> sd \<Longrightarrow> side_sum f s sd' (fst st') = side_sum f s sd' (fst st)"
    using ran small ok by (cases "target \<le> 1 / 10 ^ 12"; simp add: not_le)+
  show "1 / 10 ^ 12 < target \<Longrightarrow> target - of_nat (length (fst st)) / 10 ^ 12
       \<le> side_sum pf_internal s sd (fst st') - side_sum pf_internal s sd (fst st)
     \<and> side_sum pf_internal s sd (fst st') - side_sum pf_internal s sd (fst st) \<le> target" using ran by blast
qed

section \<open>One symbol\<close>

definition single_leg :: "string \<Rightarrow> planned_fill list \<Rightarrow> bool" where
  "single_leg s ps \<longleftrightarrow> (\<forall>p \<in> set ps. pf_symbol p = s \<longrightarrow> length (bo_legs (pf_order p)) = 1)"

definition symbol_ok :: "fp \<Rightarrow> venue_curve option \<Rightarrow> string \<Rightarrow> planned_fill list \<Rightarrow> bool" where
  "symbol_ok fl curve s ps \<longleftrightarrow> from_venue_ok fl curve s ps
     \<and> (single_leg s ps \<longrightarrow> \<bar>side_sum pf_internal s SIDE_BUY ps - side_sum pf_internal s SIDE_SELL ps\<bar>
          \<le> of_nat (length ps) / 10 ^ 12)"

definition untouched :: "string \<Rightarrow> planned_fill list \<Rightarrow> bool" where
  "untouched s ps \<longleftrightarrow> (\<forall>p \<in> set ps. pf_symbol p = s \<longrightarrow> pf_internal p = 0 \<and> pf_external p = 0)"

lemma side_sum_own: "side_sum f s sd ps = side_sum f s sd (filter (\<lambda>p. pf_symbol p = s) ps)"
  by (induction ps) (simp_all add: in_plan_def)

lemma own_cong:
  assumes "filter (\<lambda>p. pf_symbol p = s) ps = filter (\<lambda>p. pf_symbol p = s) qs" "length ps = length qs"
  shows "symbol_ok fl curve s ps = symbol_ok fl curve s qs" "untouched s ps = untouched s qs"
proof -
  have mem: "p \<in> set ps \<longleftrightarrow> p \<in> set qs" if "pf_symbol p = s" for p
    using arg_cong[OF assms(1), of set] that by auto
  have sums: "side_sum f s sd ps = side_sum f s sd qs" for f sd
    using assms(1) side_sum_own[of f s sd ps] side_sum_own[of f s sd qs] by simp
  have "from_venue_ok fl curve s ps = from_venue_ok fl curve s qs"
    unfolding from_venue_ok_def sums using mem by blast
  moreover have "single_leg s ps = single_leg s qs" unfolding single_leg_def using mem by blast
  ultimately show "symbol_ok fl curve s ps = symbol_ok fl curve s qs" unfolding symbol_ok_def sums assms(2) by simp
  show "untouched s ps = untouched s qs" unfolding untouched_def using mem by blast
qed

lemma touched_others:
  assumes "touched s st st'" "s' \<noteq> s"
  shows "filter (\<lambda>p. pf_symbol p = s') (fst st') = filter (\<lambda>p. pf_symbol p = s') (fst st)"
    "length (fst st') = length (fst st)"
proof -
  have l: "list_all2 (\<lambda>p q. same_plan p q \<and> (pf_symbol p \<noteq> s \<longrightarrow> q = p)) (fst st) (fst st')"
    using assms(1) by (simp add: touched_def)
  then show "filter (\<lambda>p. pf_symbol p = s') (fst st') = filter (\<lambda>p. pf_symbol p = s') (fst st)"
    by induction (use assms(2) same_plan_sel(3) in auto)
  show "length (fst st') = length (fst st)" using list_all2_lengthD[OF l] by simp
qed

lemma touched_single: "touched s st st' \<Longrightarrow> single_leg s' (fst st') = single_leg s' (fst st)"
proof -
  assume "touched s st st'"
  then have "list_all2 (\<lambda>p q. same_plan p q \<and> (pf_symbol p \<noteq> s \<longrightarrow> q = p)) (fst st) (fst st')" by (simp add: touched_def)
  then show ?thesis by induction (auto simp: single_leg_def same_plan_sel)
qed

lemma granted:
  assumes "alloc_ok cap st" "untouched s (fst st)"
  shows "alloc_ok cap (grant_requests s st)" "touched s st (grant_requests s st)"
    "from_venue_ok fl curve s (fst (grant_requests s st))"
proof -
  let ?g = "\<lambda>p. if pf_symbol p = s then p\<lparr>pf_actual := pf_requested p, pf_internal := pf_requested p\<rparr> else p"
  have same: "same_plan p (?g p)" for p
  proof (cases "pf_symbol p = s")
    case True
    then show ?thesis unfolding same_plan_def
      by (intro exI[of _ "pf_requested p"] exI[of _ "pf_external p"]) simp
  qed simp
  have fit: "fits cap (?g p)" if p: "p \<in> set (fst st)" for p
  proof -
    have f: "fits cap p" "pf_symbol p = s \<longrightarrow> pf_external p = 0" using assms p by (auto simp: alloc_ok_def untouched_def)
    then have "sound (?g p)" by (auto simp: fits_def sound_def)
    then show ?thesis using fits_same[OF same f(1)] by blast
  qed
  have cap: "capped cap (fold (\<lambda>p aq. aq[pf_order_index p := pf_order_qty p]) ps aq)
      \<and> length (fold (\<lambda>p aq. aq[pf_order_index p := pf_order_qty p]) ps aq) = length aq"
    if "\<forall>p \<in> set ps. fits cap p" "capped cap aq" for ps aq
    using that
  proof (induction ps arbitrary: aq)
    case (Cons p ps)
    have "aq[pf_order_index p := pf_order_qty p] ! i \<le> cap i" if "i < length aq" for i
      using Cons.prems that by (cases "pf_order_index p = i") (auto simp: capped_def fits_def)
    then have "capped cap (aq[pf_order_index p := pf_order_qty p])" by (simp add: capped_def)
    then show ?case using Cons.IH[of "aq[pf_order_index p := pf_order_qty p]"] Cons.prems by simp
  qed simp
  have all: "\<forall>p \<in> set (filter (\<lambda>p. pf_symbol p = s) (fst st)). fits cap p" "capped cap (snd st)"
    using assms(1) by (simp_all add: alloc_ok_def)
  note c = cap[OF all]
  have "fits cap q" if "q \<in> set (map ?g (fst st))" for q
    using that fit by (auto simp only: set_map)
  then show "alloc_ok cap (grant_requests s st)" unfolding alloc_ok_def grant_requests_def fst_conv snd_conv
    using c by blast
  show "touched s st (grant_requests s st)" unfolding touched_def grant_requests_def fst_conv snd_conv
    using same c by (simp add: list_all2_map2 list_all2_same)
  have e: "pf_external (?g p) = pf_external p" "in_plan s sd (?g p) = in_plan s sd p" for p sd by (simp_all add: in_plan_def)
  have "side_sum pf_external s sd (map ?g ps) = 0" if "untouched s ps" for sd ps
    using that by (induction ps) (auto simp: untouched_def in_plan_def)
  then have z: "side_sum pf_external s sd (map ?g (fst st)) = 0" for sd using assms(2) by blast
  have "0 \<le> depth_at curve sd" for sd by (auto simp: depth_at_def depth_def split: option.split)
  moreover have "pf_external (?g p) = 0" if "p \<in> set (fst st)" "pf_symbol (?g p) = s" for p
    using assms(2) that by (auto simp: untouched_def split: if_splits)
  ultimately show "from_venue_ok fl curve s (fst (grant_requests s st))"
    unfolding from_venue_ok_def grant_requests_def fst_conv z
    by (simp only: set_map ball_simps(9) simp_thms) blast
qed

lemma three_phases:
  fixes cfg :: solver_config and curve :: "venue_curve option"
  assumes "exact fl" and ok: "alloc_ok cap st" "untouched s (fst st)"
  defines "st1 \<equiv> fst (improve_phase fl cfg curve s st)"
  defines "st2 \<equiv> cross_phase fl s st1"
  defines "st3 \<equiv> fst (residual_phase fl cfg curve s st2)"
  shows "alloc_ok cap st3" "touched s st st3" "symbol_ok fl curve s (fst st3)"
proof -
  let ?I = "side_sum pf_internal s"
  have zero: "side_sum f s sd ps = 0" if "untouched s ps" "f = pf_internal \<or> f = pf_external" for f sd ps
    using that by (induction ps) (auto simp: untouched_def in_plan_def)
  have "0 \<le> depth_at curve sd" for sd by (auto simp: depth_at_def depth_def split: option.split)
  then have v: "from_venue_ok fl curve s (fst st)" using ok(2) zero[OF ok(2)] by (auto simp: from_venue_ok_def untouched_def)
  obtain a u1 where a: "allocate_external_side fl cfg curve s SIDE_BUY True st = (a, u1)" by fastforce
  obtain b u2 where b: "allocate_external_side fl cfg curve s SIDE_SELL True a = (b, u2)" by fastforce
  note ka = external_side_keeps[OF assms(1) ok(1) v a]
  note kb = external_side_keeps[OF assms(1) ka(1,3) b]
  have st1: "st1 = b" by (simp add: st1_def improve_phase_def a b)
  have own: "?I sd (fst b) = 0" for sd
  proof -
    have "side_sum pf_internal s sd (fst b) = side_sum pf_internal s sd (fst st)"
    proof -
      have "list_all2 (\<lambda>p q. same_plan p q \<and> (pf_symbol p \<noteq> s \<longrightarrow> q = p)) (fst st) (fst b)"
        using touched_trans[OF ka(2) kb(2)] by (simp add: touched_def)
      moreover have "list_all2 (\<lambda>p q. pf_internal q = pf_internal p) (fst st) (fst b)"
        using ka(4) kb(4) by (auto simp: list_all2_conv_all_nth list_eq_iff_nth_eq)
      ultimately have "list_all2 (\<lambda>p q. same_plan p q \<and> (in_plan s sd p \<longrightarrow> pf_internal q = pf_internal p)) (fst st) (fst b)"
        by (auto simp: list_all2_conv_all_nth)
      then show ?thesis by (rule side_sum_same)
    qed
    then show ?thesis using zero[OF ok(2)] by simp
  qed
  define t where "t = min (requested_remaining fl s SIDE_BUY (fst b)) (requested_remaining fl s SIDE_SELL (fst b))"
  define c where "c = allocate_internal_side fl s SIDE_BUY t b"
  define d where "d = allocate_internal_side fl s SIDE_SELL t c"
  have st2: "st2 = d" by (simp add: st2_def st1 cross_phase_def t_def c_def d_def Let_def)
  note kc = internal_side_keeps[OF assms(1) kb(1,3) _ c_def[symmetric]]
  have tb: "t \<le> requested_remaining fl s SIDE_BUY (fst b)" by (simp add: t_def)
  have "requested_remaining fl s SIDE_SELL (fst c) = requested_remaining fl s SIDE_SELL (fst b)"
    using kc(6)[OF tb, of SIDE_SELL] assms(1) by (simp add: remaining_exact)
  then have ts: "t \<le> requested_remaining fl s SIDE_SELL (fst c)" by (simp add: t_def)
  note kd = internal_side_keeps[OF assms(1) kc(1)[OF tb] kc(3)[OF tb] ts d_def[symmetric]]
  have bs: "?I SIDE_BUY (fst d) = ?I SIDE_BUY (fst c)" using kd(6)[of SIDE_BUY] by simp
  have sb: "?I SIDE_SELL (fst c) = ?I SIDE_SELL (fst b)" using kc(6)[OF tb, of SIDE_SELL] by simp
  have len: "length (fst c) = length (fst b)" "length (fst d) = length (fst c)"
    using touched_length[OF kc(2)[OF tb]] touched_length[OF kd(2)] by simp_all
  have bal: "\<bar>?I SIDE_BUY (fst d) - ?I SIDE_SELL (fst d)\<bar> \<le> of_nat (length (fst d)) / 10 ^ 12"
  proof (cases "1 / 10 ^ 12 < t")
    case True
    note x = kc(5)[OF tb True] and y = kd(5)[OF True]
    have near: "\<bar>u - w\<bar> \<le> k" if "t - k \<le> u" "u \<le> t" "t - k \<le> w" "w \<le> t" for u w k using that by linarith
    show ?thesis unfolding bs len
      by (rule near) (use x y own[of SIDE_BUY] own[of SIDE_SELL] sb len in simp_all)
  next
    case False
    then have "c = b" "d = c" using kc(4)[OF tb] kd(4) by simp_all
    then show ?thesis using own by simp
  qed
  have after: "alloc_ok cap st3 \<and> touched s d st3 \<and> from_venue_ok fl curve s (fst st3) \<and> map pf_internal (fst st3) = map pf_internal (fst d)"
  proof -
    have keep: "alloc_ok cap x \<and> touched s d x \<and> from_venue_ok fl curve s (fst x) \<and> map pf_internal (fst x) = map pf_internal (fst d)"
      if "allocate_external_side fl cfg curve s sd False d = (x, u)" for sd x u
      using external_side_keeps[OF assms(1) kd(1,3) that] by blast
    have "fst (residual_phase fl cfg curve s d) \<in> {fst (allocate_external_side fl cfg curve s SIDE_BUY False d),
        fst (allocate_external_side fl cfg curve s SIDE_SELL False d), d}"
      by (simp add: residual_phase_def Let_def)
    then show ?thesis using keep[of SIDE_BUY, OF prod.collapse[symmetric]] keep[of SIDE_SELL, OF prod.collapse[symmetric]] kd(1,3)
      unfolding st3_def st2 by auto
  qed
  then show "alloc_ok cap st3" "touched s st st3"
    using touched_trans[OF touched_trans[OF touched_trans[OF touched_trans[OF ka(2) kb(2)] kc(2)[OF tb]] kd(2)], of st3] by simp_all
  have "?I sd (fst st3) = ?I sd (fst d)" for sd
  proof -
    have "list_all2 (\<lambda>p q. same_plan p q \<and> (in_plan s sd p \<longrightarrow> pf_internal q = pf_internal p)) (fst d) (fst st3)"
    proof -
      have "list_all2 (\<lambda>p q. pf_internal q = pf_internal p) (fst d) (fst st3)"
        using after by (simp add: list_all2_conv_all_nth list_eq_iff_nth_eq)
      moreover have "list_all2 (\<lambda>p q. same_plan p q \<and> (pf_symbol p \<noteq> s \<longrightarrow> q = p)) (fst d) (fst st3)"
        using after by (simp add: touched_def)
      ultimately show ?thesis by (simp add: list_all2_conv_all_nth)
    qed
    then show ?thesis by (rule side_sum_same)
  qed
  moreover have "length (fst st3) = length (fst d)" using after touched_length by blast
  ultimately show "symbol_ok fl curve s (fst st3)" using after bal by (simp add: symbol_ok_def)
qed

lemma clear_symbol_keeps:
  assumes "exact fl" "alloc_ok cap (cl_allocation x)" "untouched s (fst (cl_allocation x))"
  shows "alloc_ok cap (cl_allocation (clear_symbol fl cfg ext x s))"
    "touched s (cl_allocation x) (cl_allocation (clear_symbol fl cfg ext x s))"
    "symbol_ok fl (find ext s) s (fst (cl_allocation (clear_symbol fl cfg ext x s)))"
proof -
  let ?st = "cl_allocation x" and ?y = "cl_allocation (clear_symbol fl cfg ext x s)"
  have "alloc_ok cap ?y \<and> touched s ?st ?y \<and> symbol_ok fl (find ext s) s (fst ?y)"
  proof (cases "single_leg s (fst ?st)")
    case True
    then have "\<not> (\<exists>p \<in> set (filter (\<lambda>p. pf_symbol p = s) (fst ?st)). length (bo_legs (pf_order p)) \<noteq> 1)"
      by (simp add: single_leg_def)
    then have "?y = fst (residual_phase fl cfg (find ext s) s (cross_phase fl s (fst (improve_phase fl cfg (find ext s) s ?st))))"
      by (simp add: clear_symbol_def Let_def split_beta del: bex_simps)
    then show ?thesis using three_phases[OF assms, where cfg = cfg and curve = "find ext s"] by simp
  next
    case False
    then have "\<exists>p \<in> set (filter (\<lambda>p. pf_symbol p = s) (fst ?st)). length (bo_legs (pf_order p)) \<noteq> 1"
      by (auto simp: single_leg_def)
    then have y: "?y = grant_requests s ?st" by (simp add: clear_symbol_def Let_def del: bex_simps)
    note g = granted(1,2)[OF assms(2,3)] granted(3)[OF assms(2,3), of fl "find ext s"]
    have "\<not> single_leg s (fst ?y)" using touched_single[OF g(2), of s] False y by simp
    then show ?thesis using g y by (simp add: symbol_ok_def)
  qed
  then show "alloc_ok cap ?y" "touched s ?st ?y" "symbol_ok fl (find ext s) s (fst ?y)" by simp_all
qed

section \<open>The whole clearing\<close>

definition clearing_ok :: "fp \<Rightarrow> venue_curve umap \<Rightarrow> (nat \<Rightarrow> rat) \<Rightarrow> planned_fill list \<Rightarrow> nat \<Rightarrow> string set \<Rightarrow> clearing \<Rightarrow> bool" where
  "clearing_ok fl ext cap ps n seen x \<longleftrightarrow> alloc_ok cap (cl_allocation x) \<and> length (snd (cl_allocation x)) = n
     \<and> list_all2 same_plan ps (fst (cl_allocation x))
     \<and> (\<forall>s \<in> seen. symbol_ok fl (find ext s) s (fst (cl_allocation x)))
     \<and> (\<forall>s. s \<notin> seen \<longrightarrow> untouched s (fst (cl_allocation x)))"

lemma clear_symbols_keep:
  assumes "exact fl"
  shows "distinct ss \<Longrightarrow> set ss \<inter> seen = {} \<Longrightarrow> clearing_ok fl ext cap ps n seen x \<Longrightarrow>
    clearing_ok fl ext cap ps n (seen \<union> set ss) (foldl (clear_symbol fl cfg ext) x ss)"
proof (induction ss arbitrary: x seen)
  case (Cons s ss)
  let ?y = "clear_symbol fl cfg ext x s"
  have x: "alloc_ok cap (cl_allocation x)" "untouched s (fst (cl_allocation x))"
    using Cons.prems(2,3) by (simp_all add: clearing_ok_def)
  note k = clear_symbol_keeps[OF assms x, where cfg = cfg and ext = ext]
  note others = touched_others[OF k(2)]
  have "symbol_ok fl (find ext s') s' (fst (cl_allocation ?y))" if "s' \<in> insert s seen" for s'
  proof (cases "s' = s")
    case False
    then show ?thesis using that Cons.prems(3) own_cong(1)[OF others(1)[OF False] others(2)[OF False]] by (simp add: clearing_ok_def)
  qed (use k(3) in simp)
  moreover have "untouched s' (fst (cl_allocation ?y))" if "s' \<notin> insert s seen" for s'
  proof -
    have ne: "s' \<noteq> s" using that by simp
    show ?thesis using that Cons.prems(3) own_cong(2)[OF others(1)[OF ne] others(2)[OF ne]] by (simp add: clearing_ok_def)
  qed
  moreover have "list_all2 same_plan ps (fst (cl_allocation ?y))"
  proof (rule list_all2_trans)
    show "list_all2 same_plan ps (fst (cl_allocation x))" using Cons.prems(3) by (simp add: clearing_ok_def)
    show "list_all2 same_plan (fst (cl_allocation x)) (fst (cl_allocation ?y))"
      using k(2) unfolding touched_def by (auto elim: list_all2_mono)
  qed (rule same_plan_trans)
  ultimately have "clearing_ok fl ext cap ps n (insert s seen) ?y"
    using k(1,2) Cons.prems(3) by (simp add: clearing_ok_def touched_def)
  then show ?case using Cons.IH[of "insert s seen" ?y] Cons.prems(1,2) by simp
qed simp

lemma distinct_symbols: "distinct ss \<Longrightarrow> distinct (foldl add_symbol ss xs) \<and> set (foldl add_symbol ss xs) = set ss \<union> set xs"
proof (induction xs arbitrary: ss)
  case (Cons x xs)
  then show ?case using Cons.IH[of "add_symbol ss x"] by (auto simp: add_symbol_def)
qed simp

text \<open>What an order may execute in one batch: its speed over the interval and what remains of it.\<close>

definition batch_limit :: "fp \<Rightarrow> solver_config \<Rightarrow> book_order \<Rightarrow> rat" where
  "batch_limit fl cfg b = max 0 (min (to_double fl (bo_q_rate b) * of_int (sv_batch_interval_ms cfg) / 1000)
     (to_double fl (remaining_qty b)))"

lemma capacity_limit:
  assumes "exact fl" "0 < sv_batch_interval_ms cfg"
  shows "max 0 (per_batch fl cfg (order_capacity fl cfg b)) = batch_limit fl cfg b"
proof -
  let ?m = "of_int (sv_batch_interval_ms cfg) :: rat"
  have m: "1 \<le> ?m" using assms(2) by simp
  have "max (1 / 10 ^ 9) (?m / 1000) = ?m / 1000" using m by (simp add: max_def)
  moreover have "min r (q / (?m / 1000)) * ?m / 1000 = min (r * ?m / 1000) q" for r q
    using m by (auto simp: min_def field_simps)
  ultimately show ?thesis using assms(1) by (simp add: per_batch_def order_capacity_def batch_limit_def Let_def)
qed

lemma planned_facts:
  assumes "exact fl" "0 < sv_batch_interval_ms cfg" "p \<in> set (plan_fills fl cfg os xs prices)"
  defines "cap \<equiv> \<lambda>i. batch_limit fl cfg (os ! i)"
  shows "fits cap p" "pf_order_index p < length os" "pf_order p = os ! pf_order_index p"
    "pf_internal p = 0" "pf_external p = 0" "pf_side p \<noteq> SIDE_UNSPECIFIED"
proof -
  obtain i b l where p: "(i, b) \<in> set (enumerate 0 os)" "l \<in> set (bo_legs b)"
    "plan_leg fl cfg (symbols_of os) prices (xs ! i) (order_capacity fl cfg b) i b l = Some p"
    using assms(3) by (auto simp: plan_fills_def map_filter_def comp_def)
  have i: "i < length os" "b = os ! i" using p(1) by (auto simp: in_set_enumerate_eq)
  let ?q = "order_capacity fl cfg b" and ?m = "of_int (sv_batch_interval_ms cfg) / 1000 :: rat"
  define k where "k = ?m"
  define x where "x = clamp_to 0 ?q (xs ! i)"
  define w where "w = \<bar>to_double fl (ol_weight l)\<bar>"
  have m: "0 < k" using assms(2) by (simp add: k_def)
  have pb: "per_batch fl cfg r = r * k" for r using assms(1) by (simp add: per_batch_def k_def)
  have "(if x * k * w \<le> kQtyEps fl then None else Some \<lparr>pf_order = b, pf_order_index = i, pf_symbol = ol_instrument_symbol l,
      pf_side = (if 0 < units (ol_weight l) then SIDE_BUY else SIDE_SELL), pf_order_qty = x * k, pf_max_leg_qty = ?q * k * w,
      pf_weight_abs = w, pf_requested = x * k * w,
      pf_clear_price = prices ! place_of (ol_instrument_symbol l) (symbols_of os),
      pf_actual = 0, pf_internal = 0, pf_external = 0\<rparr>) = Some p"
    using p(3) unfolding plan_leg_def Let_def pb x_def[symmetric] w_def[symmetric] exact_round[OF assms(1)] .
  then have big: "1 / 10 ^ 12 < x * k * w" and e: "pf_order p = b" "pf_order_index p = i" "pf_order_qty p = x * k"
    "pf_max_leg_qty p = ?q * k * w" "pf_weight_abs p = w" "pf_requested p = x * k * w" "pf_actual p = 0"
    "pf_internal p = 0" "pf_external p = 0" "pf_side p \<noteq> SIDE_UNSPECIFIED"
    using eps_exact[OF assms(1)] by (auto simp only: not_le option.inject planned_fill.simps side.simps split: if_splits)
  have "0 < x * k * w" using big by (rule less_trans[rotated]) simp
  moreover have "0 \<le> w" by (simp add: w_def)
  ultimately have w: "0 < w" "0 < x" using m by (auto simp: zero_less_mult_iff)
  then have "x \<le> ?q" by (auto simp: x_def clamp_to_def split: if_splits)
  then have q: "x * k \<le> ?q * k" "0 < ?q * k" using m w(2) by (simp_all add: mult_right_mono)
  have cap: "cap i = ?q * k" using capacity_limit[OF assms(1,2), of b] pb q(2) i by (simp add: cap_def)
  have "0 \<le> x * k * w" "x * k * w \<le> ?q * k * w" using w q m by (simp_all add: mult_right_mono)
  then show "fits cap p" using e cap w q by (simp add: fits_def sound_def)
  show "pf_order_index p < length os" "pf_order p = os ! pf_order_index p" "pf_internal p = 0" "pf_external p = 0"
    "pf_side p \<noteq> SIDE_UNSPECIFIED" using e i by simp_all
qed

lemma cleared:
  assumes "exact fl" "0 < sv_batch_interval_ms cfg"
    and "cl_allocation (clear_all fl cfg ext (length os) (plan_fills fl cfg os xs prices)) = (ps, aq)"
  defines "cap \<equiv> \<lambda>i. batch_limit fl cfg (os ! i)"
  shows "\<forall>p \<in> set ps. fits cap p \<and> pf_order_index p < length os \<and> pf_order p = os ! pf_order_index p"
    "length aq = length os" "capped cap aq" "symbol_ok fl (find ext s) s ps"
proof -
  let ?ps = "plan_fills fl cfg os xs prices" and ?ss = "foldl add_symbol [] (map pf_symbol (plan_fills fl cfg os xs prices))"
  let ?x = "\<lparr>cl_allocation = (?ps, replicate (length os) 0), cl_residual_norm = 0, cl_external_symbols_used = 0\<rparr>"
  note planned = planned_facts[OF assms(1,2), where os = os and xs = xs and prices = prices]
  have "clearing_ok fl ext cap ?ps (length os) {} ?x"
    using planned(1,4,5)
    by (auto simp: clearing_ok_def alloc_ok_def cap_def capped_def batch_limit_def untouched_def list_all2_same)
  then have k: "clearing_ok fl ext cap ?ps (length os) ({} \<union> set ?ss) (foldl (clear_symbol fl cfg ext) ?x ?ss)"
    using distinct_symbols[of "[]" "map pf_symbol ?ps"] by (intro clear_symbols_keep[OF assms(1)]) simp_all
  have x: "cl_allocation (foldl (clear_symbol fl cfg ext) ?x ?ss) = (ps, aq)" using assms(3) by (simp add: clear_all_def)
  have all: "alloc_ok cap (ps, aq)" "length aq = length os" "list_all2 same_plan ?ps ps"
    "s \<in> set ?ss \<Longrightarrow> symbol_ok fl (find ext s) s ps" "s \<notin> set ?ss \<Longrightarrow> untouched s ps"
    using k unfolding clearing_ok_def x by auto
  show "length aq = length os" "capped cap aq" using all(1,2) by (simp_all add: alloc_ok_def)
  show "\<forall>p \<in> set ps. fits cap p \<and> pf_order_index p < length os \<and> pf_order p = os ! pf_order_index p"
  proof
    fix q assume q: "q \<in> set ps"
    obtain p where "p \<in> set ?ps" "same_plan p q" using all2_from[OF all(3) q] by blast
    then show "fits cap q \<and> pf_order_index q < length os \<and> pf_order q = os ! pf_order_index q"
      using planned(2,3) all(1) q by (auto simp: same_plan_sel alloc_ok_def)
  qed
  show "symbol_ok fl (find ext s) s ps"
  proof (cases "s \<in> set ?ss")
    case False
    then have "side_sum f s sd ps = 0" if "f = pf_internal \<or> f = pf_external" for f sd
      using all(5) that by (induction ps) (auto simp: untouched_def in_plan_def)
    moreover have "0 \<le> depth_at (find ext s) sd" for sd by (auto simp: depth_at_def depth_def split: option.split)
    ultimately show ?thesis using all(5)[OF False] by (auto simp: symbol_ok_def from_venue_ok_def untouched_def)
  qed (rule all(4))
qed

lemma emitted_fills:
  "f \<in> set (em_fills (fold (emit_planned fl ext) ps e)) \<Longrightarrow> f \<in> set (em_fills e) \<or> (\<exists>p \<in> set ps.
    ff_order_id f = bo_order_id (pf_order p) \<and> in_symbol (ff_instrument f) = pf_symbol p \<and> ff_side f = pf_side p
    \<and> (if ff_liquidity_source f = ''internal'' then ff_executed_qty f = ToDecimal fl (pf_internal p)
       else ff_executed_qty f = ToDecimal fl (pf_external p)))"
proof (induction ps arbitrary: e)
  case (Cons p ps)
  have i: "in_symbol (fill_instrument s) = s" for s by (simp add: fill_instrument_def split: option.split)
  have v: "LiquiditySourceForVenue x \<noteq> ''internal''" for x by (simp add: LiquiditySourceForVenue_def)
  have "f \<in> set (em_fills e) \<or> (ff_order_id f = bo_order_id (pf_order p) \<and> in_symbol (ff_instrument f) = pf_symbol p
      \<and> ff_side f = pf_side p \<and> (if ff_liquidity_source f = ''internal'' then ff_executed_qty f = ToDecimal fl (pf_internal p)
       else ff_executed_qty f = ToDecimal fl (pf_external p)))" if "f \<in> set (em_fills (emit_planned fl ext p e))"
    using that i v
    by (auto simp: emit_planned_def emit_part_def solver_AddFill_def Let_def split: if_splits option.splits)
  then show ?case using Cons.IH[of "emit_planned fl ext p e"] Cons.prems by auto
qed simp

section \<open>Examples\<close>

text \<open>A buyer and a seller of one symbol in exact arithmetic.\<close>

definition ex_band_order :: "string \<Rightarrow> int \<Rightarrow> int \<Rightarrow> int \<Rightarrow> book_order" where
  "ex_band_order i w low high = \<lparr>bo_order_id = i, bo_user_id = i, bo_legs = [\<lparr>ol_instrument_symbol = ''BTC/USDT'', ol_weight = mk_dec w 0\<rparr>],
     bo_p_low = mk_dec low 0, bo_p_high = mk_dec high 0, bo_q_rate = mk_dec 2 0, bo_q_max = mk_dec 10 0, bo_filled_cum = dzero,
     bo_time_in_force = KGtc, bo_window_start = 0, bo_window_end = None, bo_status = KActive, bo_created_at = 0, bo_updated_at = 0\<rparr>"

definition ex_book :: "book_order list" where
  "ex_book = [ex_band_order ''b'' 1 80 90, ex_band_order ''s'' (-1) (-110) (-100)]"

definition ex_prices :: "decimal umap" where
  "ex_prices = [(''BTC/USDT'', mk_dec 95 0)]"

text \<open>The two orders of the example, each executed in full.\<close>

definition ex_planned :: "string \<Rightarrow> int \<Rightarrow> int \<Rightarrow> int \<Rightarrow> nat \<Rightarrow> side \<Rightarrow> rat \<Rightarrow> planned_fill" where
  "ex_planned i w low high n sd q = \<lparr>pf_order = ex_band_order i w low high, pf_order_index = n,
     pf_symbol = ''BTC/USDT'', pf_side = sd, pf_order_qty = 2, pf_max_leg_qty = 2, pf_weight_abs = 1, pf_requested = 2,
     pf_clear_price = 95, pf_actual = q, pf_internal = q, pf_external = 0\<rparr>"

abbreviation ex_plan :: "rat \<Rightarrow> planned_fill list" where
  "ex_plan q \<equiv> [ex_planned ''b'' 1 80 90 0 SIDE_BUY q, ex_planned ''s'' (-1) (-110) (-100) 1 SIDE_SELL q]"

abbreviation ex_config :: solver_config where
  "ex_config \<equiv> default_solver_config exact_fp"

lemma ex_numbers:
  "to_double exact_fp (mk_dec m 0) = of_int m" "per_batch exact_fp ex_config x = x"
  "to_double exact_fp (remaining_qty (ex_band_order i w low high)) = 10"
proof -
  have r: "clamp_neg (dsub (mk_dec 10 0) dzero) = mk_dec 10 0" by code_simp
  show t: "to_double exact_fp (mk_dec m 0) = of_int m" for m using exact_exact_fp by (simp add: to_double_def mk_dec_def)
  show "per_batch exact_fp ex_config x = x" using exact_exact_fp by (simp add: per_batch_def default_solver_config_def)
  show "to_double exact_fp (remaining_qty (ex_band_order i w low high)) = 10"
    using r t[of 10] by (simp add: remaining_qty_def ex_band_order_def)
qed

lemma ex_capacity: "order_capacity exact_fp ex_config (ex_band_order i w low high) = 2"
  using exact_exact_fp ex_numbers(3)[of i w low high]
  by (simp add: order_capacity_def default_solver_config_def ex_numbers(1) ex_band_order_def)

lemma ex_solved: "solved_rates exact_fp ex_config (\<lambda>_ _. None) ex_book ex_prices = ([2, 2], [95])"
proof -
  have s: "symbols_of ex_book = [''BTC/USDT'']" by code_simp
  have p: "initial_pi exact_fp ex_book ex_prices ''BTC/USDT'' = 95"
    using exact_exact_fp by (simp add: initial_pi_def ComputeInternalOverlapPrice_def overlap_bounds_def map_filter_def ex_book_def ex_band_order_def
      find_leg_def ex_numbers(1) ex_prices_def find_def)
  show ?thesis using s p ex_capacity by (simp add: solved_rates_def solver_Init_def Let_def ex_book_def)
qed

lemma ex_leg_planned:
  "\<bar>w\<bar> = 1 \<Longrightarrow> plan_leg exact_fp ex_config [''BTC/USDT''] [95] 2 2 n (ex_band_order i w low high)
      \<lparr>ol_instrument_symbol = ''BTC/USDT'', ol_weight = mk_dec w 0\<rparr>
    = Some (ex_planned i w low high n (if 0 < w then SIDE_BUY else SIDE_SELL) 0)"
  using exact_exact_fp of_int_abs[of w, where 'a = rat]
  by (simp add: plan_leg_def ex_numbers clamp_to_def Let_def ex_planned_def)

lemma ex_order_legs:
  "bo_legs (ex_band_order i w low high) = [\<lparr>ol_instrument_symbol = ''BTC/USDT'', ol_weight = mk_dec w 0\<rparr>]"
  by (simp add: ex_band_order_def)

lemma ex_plan: "plan_fills exact_fp ex_config ex_book [2, 2] [95] = ex_plan 0"
proof -
  have s: "symbols_of ex_book = [''BTC/USDT'']" by code_simp
  then show ?thesis by (simp add: plan_fills_def map_filter_def ex_capacity ex_leg_planned ex_order_legs ex_book_def)
qed

lemma ex_cross:
  "cl_allocation (clear_all exact_fp ex_config [] 2 (ex_plan 0)) = (ex_plan 2, [2, 2])"
proof -
  have own: "in_plan ''BTC/USDT'' sd (ex_planned i w low high n sd' q) = (sd' = sd)" for sd sd' i w low high n q
    by (simp add: in_plan_def ex_planned_def)
  have sel: "pf_requested (ex_planned i w low high n sd q) = 2" "pf_actual (ex_planned i w low high n sd q) = q"
    "pf_internal (ex_planned i w low high n sd q) = q" "pf_symbol (ex_planned i w low high n sd q) = ''BTC/USDT''"
    "bo_legs (pf_order (ex_planned i w low high n sd q)) = [\<lparr>ol_instrument_symbol = ''BTC/USDT'', ol_weight = mk_dec w 0\<rparr>]"
    "(ex_planned i w low high n sd q)\<lparr>pf_internal := q', pf_actual := q'\<rparr> = ex_planned i w low high n sd q'"
    "update_actual_order_qty exact_fp (ex_planned i w low high n sd q) aq = aq[n := max (aq ! n) q]"
    for i w low high n sd q q' aq
    using exact_exact_fp by (simp_all add: ex_planned_def ex_order_legs update_actual_order_qty_def)
  have "requested_remaining exact_fp ''BTC/USDT'' SIDE_BUY (ex_plan 0) = 2"
    "requested_remaining exact_fp ''BTC/USDT'' SIDE_SELL (ex_plan 0) = 2"
    "requested_remaining exact_fp ''BTC/USDT'' SIDE_BUY (ex_plan 2) = 0"
    "requested_remaining exact_fp ''BTC/USDT'' SIDE_SELL (ex_plan 2) = 0"
    using exact_exact_fp by (simp_all add: requested_remaining_def own sel)
  then have "cross_phase exact_fp ''BTC/USDT'' (ex_plan 0, [0, 0]) = (ex_plan 2, [2, 2])"
    "improve_phase exact_fp ex_config None ''BTC/USDT'' (ex_plan 0, [0, 0]) = ((ex_plan 0, [0, 0]), False)"
    "residual_phase exact_fp ex_config None ''BTC/USDT'' (ex_plan 2, [2, 2]) = ((ex_plan 2, [2, 2]), False)"
    using exact_exact_fp
    by (simp_all add: cross_phase_def improve_phase_def residual_phase_def allocate_internal_side_def allocate_external_side_def
      requested_remaining_def own sel clamp_to_def)
  moreover have "replicate 2 0 = [0, 0 :: rat]" by (simp add: numeral_2_eq_2)
  ultimately show ?thesis by (simp add: clear_all_def clear_symbol_def Let_def sel add_symbol_def find_def del: One_nat_def)
    (auto simp: sel)
qed

lemma ex_emitted:
  "fold (emit_planned exact_fp []) (ex_plan 2) \<lparr>em_fills = [], em_total_qty = [], em_total_notional = [], em_consumed = []\<rparr>
   = \<lparr>em_fills = concat (map (\<lambda>(i, w, low, high, sd). solver_AddFill exact_fp (ex_band_order i w low high) ''BTC/USDT'' sd 2 95
        ''internal'' None) [(''b'', 1, 80, 90, SIDE_BUY), (''s'', -1, -110, -100, SIDE_SELL)]),
      em_total_qty = [(''BTC/USDT'', 4)], em_total_notional = [(''BTC/USDT'', 380)], em_consumed = []\<rparr>"
  using exact_exact_fp by (simp add: Let_def emit_planned_def emit_part_def ex_planned_def find_or_def find_def put_def)

text \<open>Without a finite solution the clearing crosses a buyer with a limit of 90 and a seller with one of 100,
  at the reference price.\<close>

theorem fallback_ignores_limits:
  "map (\<lambda>f. (ff_order_id f, ff_executed_qty f, ff_price f))
     (br_fills (Solve exact_fp ex_config (\<lambda>_ _. None) (0, 0) ex_book ex_prices []))
   = [(''b'', ToDecimal exact_fp 2, Some (ToDecimal exact_fp 95)),
      (''s'', ToDecimal exact_fp 2, Some (ToDecimal exact_fp 95))]"
proof -
  have n: "length ex_book = 2" by (simp add: ex_book_def)
  have e: "fp_round exact_fp x = x" "kQtyEps exact_fp = 1 / 10 ^ 12" for x using exact_exact_fp by simp_all
  have i: "bo_order_id (ex_band_order i w low high) = i" for i w low high by (simp add: ex_band_order_def)
  show ?thesis
    by (simp add: Solve_def Let_def ex_solved ex_plan n ex_cross ex_emitted solver_AddFill_def e i del: One_nat_def fold_Nil fold_Cons)
qed
section \<open>Properties\<close>





end
