(* ===== verification/Venue_Depth.thy ===== *)
theory Venue_Depth
  imports Venue_Adapters
begin

text \<open>
  From the book of a venue to its cost curves (\<open>venues/src/domain/depth_canonicalizer.cpp\<close>,
  \<open>depth_curve_builder.cpp\<close>): canonical levels, the tables of \<open>Q(p)\<close>, \<open>p(q)\<close>, \<open>S(q)\<close> and \<open>L(v)\<close>, their
  monotone interpolation, convex hull, smoothing and Fenchel-Legendre dual. Doubles are rationals
  with the rounding of \<open>fp\<close>, the extended format of \<open>long double\<close> is a second rounding \<open>ld\<close>. The
  powers of ten of \<open>std::pow\<close> are rounded exact powers.
\<close>

section \<open>Canonical levels\<close>

datatype book_side = BookSide_kBid | BookSide_kAsk

record depth_config =
  dc_tick_size :: decimal
  dc_lot_size :: decimal
  dc_min_qty :: decimal
  dc_max_levels_per_side :: nat

text \<open>Units of price and quantity at the scales of the side.\<close>

type_synonym normalized_level = "int \<times> int"

definition pow10_checked :: "int \<Rightarrow> int" where
  "pow10_checked p = (if p < 0 \<or> 18 < p then 0 else pow10_loop i64 (nat p) 1)"

definition align_to_scale :: "decimal \<Rightarrow> int \<Rightarrow> int option" where
  "align_to_scale v target =
     (if target < 0 then None
      else if target = scale v then Some (units v)
      else if target < scale v
      then (let k = pow10_checked (i32 (scale v - target)) in if k = 0 then None else Some (units v sdiv k))
      else (let k = pow10_checked (i32 (target - scale v)); x = units v * k
            in if k = 0 \<or> 9223372036854775807 < x \<or> x < -9223372036854775808 then None else Some x))"

definition floor_to_step :: "int \<Rightarrow> int \<Rightarrow> int" where
  "floor_to_step v step =
     (if step \<le> 0 then v
      else if 0 \<le> v then i64 ((v sdiv step) * step)
      else i64 (- i64 ((i64 (i64 (i64 (- v) + step) - 1) sdiv step) * step)))"

definition ceil_to_step :: "int \<Rightarrow> int \<Rightarrow> int" where
  "ceil_to_step v step =
     (if step \<le> 0 then v
      else if 0 \<le> v then i64 ((i64 (i64 (v + step) - 1) sdiv step) * step)
      else i64 (- i64 ((i64 (- v) sdiv step) * step)))"

definition detect_price_scale :: "book_level list \<Rightarrow> depth_config \<Rightarrow> int" where
  "detect_price_scale ls c = foldl (\<lambda>s l. max s (scale (bl_price l)))
     (if 0 < units (dc_tick_size c) then max 0 (scale (dc_tick_size c)) else 0) ls"

definition detect_qty_scale :: "book_level list \<Rightarrow> depth_config \<Rightarrow> int" where
  "detect_qty_scale ls c =
     (let s = (if 0 < units (dc_lot_size c) then max 0 (scale (dc_lot_size c)) else 0);
          s = (if 0 < units (dc_min_qty c) then max s (scale (dc_min_qty c)) else s)
      in foldl (\<lambda>s l. max s (scale (bl_qty l))) s ls)"

text \<open>A tick, lot or minimum in units of the side, 0 if there is none.\<close>

definition step_units :: "decimal \<Rightarrow> int \<Rightarrow> int" where
  "step_units d s = (if 0 < units d then case align_to_scale d s of Some u \<Rightarrow> (if u \<le> 0 then 0 else u) | None \<Rightarrow> 0 else 0)"

definition normalize_level ::
    "book_side \<Rightarrow> int \<Rightarrow> int \<Rightarrow> int \<Rightarrow> int \<Rightarrow> int \<Rightarrow> book_level \<Rightarrow> normalized_level option" where
  "normalize_level sd ps qs tick lot least l =
     (if units (bl_price l) \<le> 0 \<or> units (bl_qty l) \<le> 0 then None
      else case (align_to_scale (bl_price l) ps, align_to_scale (bl_qty l) qs) of
             (Some p, Some q) \<Rightarrow>
               let p = (if 0 < tick then (case sd of BookSide_kBid \<Rightarrow> floor_to_step p tick
                          | BookSide_kAsk \<Rightarrow> ceil_to_step p tick) else p);
                   q = (if 0 < lot then floor_to_step q lot else q)
               in if p \<le> 0 \<or> q \<le> 0 \<or> (0 < least \<and> q < least) then None else Some (p, q)
           | _ \<Rightarrow> None)"

definition better_first :: "book_side \<Rightarrow> int \<Rightarrow> int" where
  "better_first sd p = (case sd of BookSide_kBid \<Rightarrow> - p | BookSide_kAsk \<Rightarrow> p)"

text \<open>The best price first, of equal prices the largest quantity.\<close>

definition sort_levels :: "book_side \<Rightarrow> normalized_level list \<Rightarrow> normalized_level list" where
  "sort_levels sd ls = sort_key (\<lambda>l. better_first sd (fst l)) (sort_key (\<lambda>l. - snd l) ls)"

fun aggregate_from :: "normalized_level \<Rightarrow> normalized_level list \<Rightarrow> normalized_level list" where
  "aggregate_from a [] = [a]"
| "aggregate_from a (l # ls) = (if fst a = fst l then aggregate_from (fst a, i64 (snd a + snd l)) ls
     else a # aggregate_from l ls)"

fun aggregate :: "normalized_level list \<Rightarrow> normalized_level list" where
  "aggregate [] = []"
| "aggregate (l # ls) = aggregate_from l ls"

definition normalized_levels :: "book_level list \<Rightarrow> book_side \<Rightarrow> depth_config \<Rightarrow> normalized_level list" where
  "normalized_levels ls sd c =
     (let ps = detect_price_scale ls c; qs = detect_qty_scale ls c
      in List.map_filter (normalize_level sd ps qs (step_units (dc_tick_size c) ps) (step_units (dc_lot_size c) qs)
           (step_units (dc_min_qty c) qs)) ls)"

definition CanonicalizeBookSide :: "book_level list \<Rightarrow> book_side \<Rightarrow> depth_config \<Rightarrow> book_level list" where
  "CanonicalizeBookSide ls sd c =
     (let out = aggregate (sort_levels sd (normalized_levels ls sd c));
          n = dc_max_levels_per_side c;
          out = (if 0 < n \<and> n < length out then take n out else out)
      in map (\<lambda>(p, q). \<lparr>bl_price = mk_dec p (detect_price_scale ls c), bl_qty = mk_dec q (detect_qty_scale ls c)\<rparr>) out)"

record canonical_book =
  cb_bids :: "book_level list"
  cb_asks :: "book_level list"

definition CanonicalizeOrderBook :: "book_level list \<Rightarrow> book_level list \<Rightarrow> depth_config \<Rightarrow> canonical_book" where
  "CanonicalizeOrderBook bids asks c = \<lparr>cb_bids = CanonicalizeBookSide bids BookSide_kBid c,
     cb_asks = CanonicalizeBookSide asks BookSide_kAsk c\<rparr>"

section \<open>Numbers of the curves\<close>

abbreviation fadd :: "fp \<Rightarrow> rat \<Rightarrow> rat \<Rightarrow> rat" where "fadd fl x y \<equiv> fp_round fl (x + y)"
abbreviation fsub :: "fp \<Rightarrow> rat \<Rightarrow> rat \<Rightarrow> rat" where "fsub fl x y \<equiv> fp_round fl (x - y)"
abbreviation fmul :: "fp \<Rightarrow> rat \<Rightarrow> rat \<Rightarrow> rat" where "fmul fl x y \<equiv> fp_round fl (x * y)"
abbreviation fdiv :: "fp \<Rightarrow> rat \<Rightarrow> rat \<Rightarrow> rat" where "fdiv fl x y \<equiv> fp_round fl (x / y)"
abbreviation tiny :: "fp \<Rightarrow> nat \<Rightarrow> rat" where "tiny fl n \<equiv> fp_round fl (1 / 10 ^ n)"

definition clamp_i64 :: "int \<Rightarrow> int" where
  "clamp_i64 q = (if 9223372036854775807 < q then 9223372036854775807
     else if q < -9223372036854775808 then -9223372036854775808 else q)"

definition DivideDecimal :: "decimal \<Rightarrow> decimal \<Rightarrow> int \<Rightarrow> decimal" where
  "DivideDecimal a b out_scale =
     (let s = (if out_scale < 0 then 0 else out_scale)
      in if units b = 0 then mk_dec 0 s
         else let k = i32 (i32 (scale b + s) - scale a);
                  num = (if 0 \<le> k then i128 (units a * pow10_i128 k) else units a);
                  den = (if 0 \<le> k then units b else i128 (units b * pow10_i128 (i32 (- k))));
                  negative = ((num < 0) \<noteq> (den < 0));
                  abs_num = (if num < 0 then i128 (- num) else num);
                  abs_den = (if den < 0 then i128 (- den) else den)
              in if abs_den = 0 then mk_dec 0 s
                 else let q = i128 (abs_num + abs_den sdiv 2) sdiv abs_den
                      in mk_dec (clamp_i64 (if negative then i128 (- q) else q)) s)"

definition ToDecimalWithScale :: "fp \<Rightarrow> rat \<Rightarrow> int \<Rightarrow> decimal" where
  "ToDecimalWithScale fl x s =
     (let scaled = round_away (fmul fl x (fp_round fl (10 ^ nat s)))
      in if 9223372036854775808 < scaled then mk_dec 9223372036854775807 s
         else if scaled < -9223372036854775808 then mk_dec (-9223372036854775808) s
         else mk_dec (i64 scaled) s)"

section \<open>Tables of a side\<close>

datatype execution_side = ExecutionSide_kBuy | ExecutionSide_kSell

record qp_point =
  qp_price :: decimal
  qp_cumulative_qty :: decimal

record pq_point =
  pq_qty :: decimal
  pq_price :: decimal

record sq_point =
  sq_qty :: decimal
  sq_cost :: decimal

record lv_point =
  lv_speed :: decimal
  lv_lagrangian :: decimal

record dual_point =
  dp_price :: decimal
  dp_dual_value :: decimal

record argmax_point =
  ap_price :: decimal
  ap_optimal_qty :: decimal

record fenchel_layer =
  fen_s_star_of_p :: "dual_point list"
  fen_q_star_of_p :: "argmax_point list"

record depth_curves =
  ds_side :: execution_side
  ds_tau_sec :: decimal
  ds_q_of_p :: "qp_point list"
  ds_p_of_q :: "pq_point list"
  ds_s_of_q :: "sq_point list"
  ds_l_of_v :: "lv_point list"
  ds_l_of_v_monotone :: "lv_point list"
  ds_fenchel_legendre :: fenchel_layer

definition empty_curves :: "execution_side \<Rightarrow> decimal \<Rightarrow> depth_curves" where
  "empty_curves sd tau = \<lparr>ds_side = sd, ds_tau_sec = tau, ds_q_of_p = [], ds_p_of_q = [], ds_s_of_q = [], ds_l_of_v = [],
     ds_l_of_v_monotone = [], ds_fenchel_legendre = \<lparr>fen_s_star_of_p = [], fen_q_star_of_p = []\<rparr>\<rparr>"

definition tau_or_one :: "decimal \<Rightarrow> decimal" where
  "tau_or_one tau = (if 0 < units tau then tau else mk_dec 1 0)"

definition MonotonicPrice :: "decimal \<Rightarrow> decimal \<Rightarrow> execution_side \<Rightarrow> decimal" where
  "MonotonicPrice previous current sd = (case sd of ExecutionSide_kBuy \<Rightarrow> dmax previous current
     | ExecutionSide_kSell \<Rightarrow> dmin previous current)"

definition lv_of :: "decimal \<Rightarrow> decimal \<Rightarrow> decimal \<Rightarrow> lv_point" where
  "lv_of tau qty cost = \<lparr>lv_speed = DivideDecimal qty tau 6, lv_lagrangian = DivideDecimal cost tau 6\<rparr>"

text \<open>The best price so far, the quantity and the cost up to a level.\<close>

record depth_acc =
  da_price :: decimal
  da_qty :: decimal
  da_cost :: decimal
  da_curves :: depth_curves

definition add_depth :: "book_level \<Rightarrow> depth_acc \<Rightarrow> depth_acc" where
  "add_depth l a =
     (let c = da_curves a; price = MonotonicPrice (da_price a) (bl_price l) (ds_side c);
          qty = dadd (da_qty a) (bl_qty l); cost = dadd (da_cost a) (dmul price (bl_qty l));
          v = lv_of (ds_tau_sec c) qty cost; prev = lv_lagrangian (last (ds_l_of_v c));
          v = (if dcmp (lv_lagrangian v) prev < 0 then v\<lparr>lv_lagrangian := prev\<rparr> else v)
      in \<lparr>da_price = price, da_qty = qty, da_cost = cost,
          da_curves = c\<lparr>ds_q_of_p := ds_q_of_p c @ [\<lparr>qp_price = price, qp_cumulative_qty = qty\<rparr>],
                        ds_p_of_q := ds_p_of_q c @ [\<lparr>pq_qty = qty, pq_price = price\<rparr>],
                        ds_s_of_q := ds_s_of_q c @ [\<lparr>sq_qty = qty, sq_cost = cost\<rparr>],
                        ds_l_of_v := ds_l_of_v c @ [v]\<rparr>\<rparr>)"

definition start_depth :: "book_level \<Rightarrow> execution_side \<Rightarrow> decimal \<Rightarrow> depth_acc" where
  "start_depth l sd tau =
     (let qty = mk_dec 0 (scale (bl_qty l)); cost = mk_dec 0 (max 0 (scale (dmul (bl_price l) (bl_qty l))))
      in \<lparr>da_price = bl_price l, da_qty = qty, da_cost = cost,
          da_curves = (empty_curves sd tau)\<lparr>ds_p_of_q := [\<lparr>pq_qty = qty, pq_price = bl_price l\<rparr>],
            ds_s_of_q := [\<lparr>sq_qty = qty, sq_cost = cost\<rparr>], ds_l_of_v := [lv_of tau qty cost]\<rparr>\<rparr>)"

section \<open>Monotone interpolation\<close>

text \<open>Differences of neighbours, and their quotients over the steps \<open>h\<close>.\<close>

definition steps_of :: "fp \<Rightarrow> rat list \<Rightarrow> rat list" where
  "steps_of fl x = map (\<lambda>i. fsub fl (x ! Suc i) (x ! i)) [0..<length x - 1]"

definition secants :: "fp \<Rightarrow> rat list \<Rightarrow> rat list \<Rightarrow> rat list" where
  "secants fl y h = map2 (fdiv fl) (steps_of fl y) h"

definition hermite_slope :: "fp \<Rightarrow> rat list \<Rightarrow> rat list \<Rightarrow> nat \<Rightarrow> rat" where
  "hermite_slope fl h d i =
     (if i = 0 then d ! 0
      else if length d \<le> i then d ! (length d - 1)
      else if fmul fl (d ! (i - 1)) (d ! i) \<le> 0 then 0
      else let w1 = fadd fl (fmul fl 2 (h ! i)) (h ! (i - 1)); w2 = fadd fl (h ! i) (fmul fl 2 (h ! (i - 1)))
           in fdiv fl (fadd fl w1 w2) (fadd fl (fdiv fl w1 (d ! (i - 1))) (fdiv fl w2 (d ! i))))"

definition hermite_value :: "fp \<Rightarrow> rat \<Rightarrow> rat \<Rightarrow> rat \<Rightarrow> rat \<Rightarrow> rat \<Rightarrow> rat \<Rightarrow> rat" where
  "hermite_value fl t hi y0 y1 m0 m1 =
     (let t2 = fmul fl t t; t3 = fmul fl t2 t;
          h00 = fadd fl (fsub fl (fmul fl 2 t3) (fmul fl 3 t2)) 1;
          h10 = fadd fl (fsub fl t3 (fmul fl 2 t2)) t;
          h01 = fadd fl (fmul fl (-2) t3) (fmul fl 3 t2);
          h11 = fsub fl t3 t2;
          y = fadd fl (fadd fl (fadd fl (fmul fl h00 y0) (fmul fl (fmul fl h10 hi) m0)) (fmul fl h01 y1))
                (fmul fl (fmul fl h11 hi) m1)
      in max (min y0 y1) (min (max y0 y1) y))"

fun push_points :: "fp \<Rightarrow> lv_point \<Rightarrow> (rat \<times> rat) list \<Rightarrow> lv_point list" where
  "push_points fl prev [] = []"
| "push_points fl prev (xy # r) =
     (let y = ToDecimalWithScale fl (snd xy) 6;
          point = \<lparr>lv_speed = ToDecimalWithScale fl (fst xy) 6,
            lv_lagrangian = (if dcmp y (lv_lagrangian prev) < 0 then lv_lagrangian prev else y)\<rparr>
      in point # push_points fl point r)"

definition BuildMonotoneLagrangianInterpolation :: "fp \<Rightarrow> lv_point list \<Rightarrow> nat \<Rightarrow> lv_point list" where
  "BuildMonotoneLagrangianInterpolation fl knots subdivisions =
     (let n = (if subdivisions = 0 then 1 else subdivisions);
          x = map (to_double fl \<circ> lv_speed) knots; y = map (to_double fl \<circ> lv_lagrangian) knots;
          h = steps_of fl x; d = secants fl y h; m = map (hermite_slope fl h d) [0..<length knots]
      in if length knots \<le> 1 \<or> (\<exists>s \<in> set h. s \<le> 0) then knots
         else let first = \<lparr>lv_speed = ToDecimalWithScale fl (x ! 0) 6, lv_lagrangian = ToDecimalWithScale fl (y ! 0) 6\<rparr>
              in first # push_points fl first (concat (map (\<lambda>i. map (\<lambda>s.
                   let t = fdiv fl (of_nat s) (of_nat n)
                   in (fadd fl (x ! i) (fmul fl t (h ! i)), hermite_value fl t (h ! i) (y ! i) (y ! Suc i) (m ! i) (m ! Suc i)))
                   [1..<Suc n]) [0..<length knots - 1])))"

definition BuildDepthSideCurvesFromLevels :: "fp \<Rightarrow> book_level list \<Rightarrow> execution_side \<Rightarrow> decimal \<Rightarrow> depth_curves" where
  "BuildDepthSideCurvesFromLevels fl ls sd tau =
     (case ls of [] \<Rightarrow> empty_curves sd (tau_or_one tau)
      | l # _ \<Rightarrow> let c = da_curves (fold add_depth ls (start_depth l sd (tau_or_one tau)))
                in c\<lparr>ds_l_of_v_monotone := BuildMonotoneLagrangianInterpolation fl (ds_l_of_v c) 8\<rparr>)"

definition BuildDepthSideCurves :: "fp \<Rightarrow> canonical_book \<Rightarrow> execution_side \<Rightarrow> decimal \<Rightarrow> depth_curves" where
  "BuildDepthSideCurves fl book sd tau = BuildDepthSideCurvesFromLevels fl
     (case sd of ExecutionSide_kBuy \<Rightarrow> cb_asks book | ExecutionSide_kSell \<Rightarrow> cb_bids book) sd tau"

section \<open>Convex cost\<close>

record convex_config =
  cc_q_min :: "decimal option"
  cc_q_max :: "decimal option"

text \<open>The first and the last point of the working range.\<close>

definition SelectConvexRange :: "sq_point list \<Rightarrow> convex_config \<Rightarrow> (nat \<times> nat) option" where
  "SelectConvexRange s c =
     (let from = (case cc_q_min c of None \<Rightarrow> Some 0
            | Some q \<Rightarrow> List.find (\<lambda>i. 0 \<le> dcmp (sq_qty (s ! i)) q) [0..<length s]);
          to = (case cc_q_max c of None \<Rightarrow> Some (length s - 1)
            | Some q \<Rightarrow> List.find (\<lambda>i. dcmp (sq_qty (s ! i)) q \<le> 0) (List.rev [0..<length s]))
      in if length s < 2 then None
         else case (from, to) of (Some b, Some e) \<Rightarrow> (if e \<le> b then None else Some (b, e)) | _ \<Rightarrow> None)"

record pav_block =
  pb_left :: nat
  pb_right :: nat
  pb_weight_sum :: rat
  pb_weighted_slope_sum :: rat

definition pav_mean :: "fp \<Rightarrow> pav_block \<Rightarrow> rat" where
  "pav_mean fl b = fdiv fl (pb_weighted_slope_sum b) (pb_weight_sum b)"

text \<open>The blocks with the last one first.\<close>

fun pav_merge :: "fp \<Rightarrow> pav_block \<Rightarrow> pav_block list \<Rightarrow> pav_block list" where
  "pav_merge fl b [] = [b]"
| "pav_merge fl b (a # bs) =
     (if pav_mean fl a \<le> pav_mean fl b then b # a # bs
      else pav_merge fl \<lparr>pb_left = pb_left a, pb_right = pb_right b,
             pb_weight_sum = fadd fl (pb_weight_sum a) (pb_weight_sum b),
             pb_weighted_slope_sum = fadd fl (pb_weighted_slope_sum a) (pb_weighted_slope_sum b)\<rparr> bs)"

definition pav_block_of :: "fp \<Rightarrow> rat list \<Rightarrow> rat list \<Rightarrow> nat \<Rightarrow> pav_block" where
  "pav_block_of fl slopes weights i = \<lparr>pb_left = i, pb_right = i, pb_weight_sum = weights ! i,
     pb_weighted_slope_sum = fmul fl (weights ! i) (slopes ! i)\<rparr>"

text \<open>Neighbouring blocks cover the indices one after the other.\<close>

definition ConvexifySlopesPav :: "fp \<Rightarrow> rat list \<Rightarrow> rat list \<Rightarrow> rat list" where
  "ConvexifySlopesPav fl slopes weights =
     (let bs = fold (\<lambda>i bs. pav_merge fl (pav_block_of fl slopes weights i) bs) [0..<length slopes] []
      in concat (map (\<lambda>b. replicate (Suc (pb_right b) - pb_left b) (pav_mean fl b)) (List.rev bs)))"

fun integrate :: "fp \<Rightarrow> rat \<Rightarrow> (rat \<times> rat) list \<Rightarrow> rat list" where
  "integrate fl y [] = [y]"
| "integrate fl y (sh # r) = y # integrate fl (fadd fl y (fmul fl (fst sh) (snd sh))) r"

definition ExtractQtyGrid :: "fp \<Rightarrow> sq_point list \<Rightarrow> rat list" where
  "ExtractQtyGrid fl s = map (to_double fl \<circ> sq_qty) s"

definition ExtractCostValues :: "fp \<Rightarrow> sq_point list \<Rightarrow> rat list" where
  "ExtractCostValues fl s = map (to_double fl \<circ> sq_cost) s"

definition with_costs :: "fp \<Rightarrow> int \<Rightarrow> sq_point list \<Rightarrow> rat list \<Rightarrow> sq_point list" where
  "with_costs fl k s ys = map2 (\<lambda>p y. p\<lparr>sq_cost := ToDecimalWithScale fl y k\<rparr>) s ys"

definition ConvexifyCostLayer :: "fp \<Rightarrow> sq_point list \<Rightarrow> convex_config \<Rightarrow> sq_point list" where
  "ConvexifyCostLayer fl s c =
     (if length s < 3 then s
      else case SelectConvexRange s c of
             None \<Rightarrow> s
           | Some (b, e) \<Rightarrow>
               let part = take (Suc e - b) (drop b s);
                   x = ExtractQtyGrid fl part; y = ExtractCostValues fl part; h = steps_of fl x;
                   out_scale = foldl max 6 (map (scale \<circ> sq_cost) part)
               in if length part < 3 \<or> (\<exists>d \<in> set h. d \<le> 0) then s
                  else take b s @ with_costs fl out_scale part
                         (integrate fl (y ! 0) (zip (ConvexifySlopesPav fl (secants fl y h) h) h)) @ drop (Suc e) s)"

section \<open>Smoothing\<close>

text \<open>The scale is lowered until the largest cost fits in 64 bits.\<close>

fun fitting_scale :: "(rat \<Rightarrow> rat) \<Rightarrow> rat \<Rightarrow> nat \<Rightarrow> nat" where
  "fitting_scale ld x 0 = 0"
| "fitting_scale ld x (Suc k) = (if ld (x * ld (10 ^ Suc k)) \<le> 9223372036854775807 then Suc k else fitting_scale ld x k)"

definition DetectCostOutputScale :: "fp \<Rightarrow> (rat \<Rightarrow> rat) \<Rightarrow> sq_point list \<Rightarrow> int" where
  "DetectCostOutputScale fl ld s =
     (let k = foldl max 6 (map (scale \<circ> sq_cost) s); m = foldl max 0 (map abs (ExtractCostValues fl s))
      in if m \<le> 0 then k else int (fitting_scale ld m (nat k)))"

definition DetectQtyOutputScale :: "sq_point list \<Rightarrow> int" where
  "DetectQtyOutputScale s = foldl max 0 (map (scale \<circ> sq_qty) s)"

fun raise_from :: "rat \<Rightarrow> rat list \<Rightarrow> rat list" where
  "raise_from a [] = []"
| "raise_from a (x # xs) = (let x = (if x < a then a else x) in x # raise_from x xs)"

fun EnforceNonDecreasing :: "rat list \<Rightarrow> rat list" where
  "EnforceNonDecreasing [] = []"
| "EnforceNonDecreasing (x # xs) = x # raise_from x xs"

text \<open>The reference price of the penalty: the steepest slope, or the mean one.\<close>

definition moreau_reference :: "fp \<Rightarrow> rat list \<Rightarrow> rat list \<Rightarrow> rat" where
  "moreau_reference fl x y =
     (let r = foldl (\<lambda>r i. let dq = fsub fl (x ! i) (x ! (i - 1))
              in if dq \<le> tiny fl 12 then r else max r \<bar>fdiv fl (fsub fl (y ! i) (y ! (i - 1))) dq\<bar>) 0 [1..<length x]
      in if r \<le> 0 then max 1 (fdiv fl \<bar>fsub fl (last y) (hd y)\<bar> (max (tiny fl 9) (fsub fl (last x) (hd x)))) else r)"

definition moreau_value :: "fp \<Rightarrow> rat \<Rightarrow> rat list \<Rightarrow> rat list \<Rightarrow> nat \<Rightarrow> rat" where
  "moreau_value fl mu x y i = foldl (\<lambda>best j. let dx = fsub fl (x ! i) (x ! j);
       candidate = fadd fl (y ! j) (fdiv fl (fmul fl dx dx) (fmul fl 2 mu))
     in if candidate < best then candidate else best) (y ! i) [0..<length y]"

definition RegularizeCostLayerMoreauL2 :: "fp \<Rightarrow> (rat \<Rightarrow> rat) \<Rightarrow> sq_point list \<Rightarrow> rat \<Rightarrow> sq_point list" where
  "RegularizeCostLayerMoreauL2 fl ld s smoothing =
     (if length s < 2 \<or> smoothing \<le> 0 then s
      else let x = ExtractQtyGrid fl s; y = ExtractCostValues fl s;
               mu = max (tiny fl 12) (fdiv fl smoothing (moreau_reference fl x y));
               z = map (moreau_value fl mu x y) [0..<length y]
           in with_costs fl (DetectCostOutputScale fl ld s) s (EnforceNonDecreasing (z[0 := y ! 0])))"

record tikhonov_config =
  tk_curvature_penalty :: rat
  tk_max_iterations :: nat
  tk_tolerance :: rat

definition DotProduct :: "fp \<Rightarrow> rat list \<Rightarrow> rat list \<Rightarrow> rat" where
  "DotProduct fl a b = (if length a \<noteq> length b then 0 else foldl (\<lambda>t xy. fadd fl t (fmul fl (fst xy) (snd xy))) 0 (zip a b))"

definition ApplySecondDifferenceNormalMatrix :: "fp \<Rightarrow> rat list \<Rightarrow> rat list" where
  "ApplySecondDifferenceNormalMatrix fl z = fold (\<lambda>k out.
       let d2 = fadd fl (fsub fl (z ! k) (fmul fl 2 (z ! Suc k))) (z ! Suc (Suc k));
           out = out[k := fadd fl (out ! k) d2];
           out = out[Suc k := fsub fl (out ! Suc k) (fmul fl 2 d2)]
       in out[Suc (Suc k) := fadd fl (out ! Suc (Suc k)) d2])
     [0..<length z - 2] (replicate (length z) 0)"

definition ApplyTikhonovSystemMatrix :: "fp \<Rightarrow> rat \<Rightarrow> rat list \<Rightarrow> rat list" where
  "ApplyTikhonovSystemMatrix fl penalty z = map2 (\<lambda>x d. fadd fl x (fmul fl penalty d)) z (ApplySecondDifferenceNormalMatrix fl z)"

fun conjugate_gradient :: "fp \<Rightarrow> rat \<Rightarrow> rat \<Rightarrow> nat \<Rightarrow> rat list \<Rightarrow> rat list \<Rightarrow> rat list \<Rightarrow> rat \<Rightarrow> rat list" where
  "conjugate_gradient fl penalty tol2 0 z r p rr = z"
| "conjugate_gradient fl penalty tol2 (Suc n) z r p rr =
     (let ap = ApplyTikhonovSystemMatrix fl penalty p; denom = DotProduct fl p ap
      in if \<bar>denom\<bar> \<le> tiny fl 20 then z
         else let alpha = fdiv fl rr denom;
                  z = map2 (\<lambda>a b. fadd fl a (fmul fl alpha b)) z p;
                  r = map2 (\<lambda>a b. fsub fl a (fmul fl alpha b)) r ap;
                  rr_new = DotProduct fl r r
              in if rr_new \<le> tol2 then z
                 else conjugate_gradient fl penalty tol2 n z r
                        (map2 (\<lambda>a b. fadd fl a (fmul fl (fdiv fl rr_new rr) b)) r p) rr_new)"

definition SolveTikhonovCg :: "fp \<Rightarrow> rat list \<Rightarrow> tikhonov_config \<Rightarrow> rat list" where
  "SolveTikhonovCg fl y c =
     (if length y < 3 \<or> tk_curvature_penalty c \<le> 0 then y
      else let r = map2 (fsub fl) y (ApplyTikhonovSystemMatrix fl (tk_curvature_penalty c) y); rr = DotProduct fl r r;
               tol = max 0 (tk_tolerance c); tol2 = fmul fl (fmul fl tol tol) (max 1 (DotProduct fl y y))
           in if rr \<le> tol2 then y
              else conjugate_gradient fl (tk_curvature_penalty c) tol2 (max 1 (tk_max_iterations c)) y r r rr)"

definition RegularizeCostLayerTikhonovL2 :: "fp \<Rightarrow> (rat \<Rightarrow> rat) \<Rightarrow> sq_point list \<Rightarrow> tikhonov_config \<Rightarrow> sq_point list" where
  "RegularizeCostLayerTikhonovL2 fl ld s c =
     (if length s < 3 \<or> tk_curvature_penalty c \<le> 0 then s
      else let y = ExtractCostValues fl s; z = SolveTikhonovCg fl y c
           in with_costs fl (DetectCostOutputScale fl ld s) s (EnforceNonDecreasing (z[0 := y ! 0])))"

section \<open>The dual layer\<close>

record fenchel_config =
  fc_p_min :: "decimal option"
  fc_p_max :: "decimal option"
  fc_p_step :: "decimal option"
  fc_include_price_knots :: bool

definition ExtractSlopeKnots :: "fp \<Rightarrow> sq_point list \<Rightarrow> rat list" where
  "ExtractSlopeKnots fl s = (let x = ExtractQtyGrid fl s; y = ExtractCostValues fl s
     in List.map_filter (\<lambda>i. let dq = fsub fl (x ! i) (x ! (i - 1))
          in if dq \<le> 0 then None else Some (fdiv fl (fsub fl (y ! i) (y ! (i - 1))) dq)) [1..<length s])"

fun unique_from :: "fp \<Rightarrow> rat \<Rightarrow> rat \<Rightarrow> rat list \<Rightarrow> rat list" where
  "unique_from fl eps a [] = [a]"
| "unique_from fl eps a (x # xs) = (if eps < \<bar>fsub fl x a\<bar> then a # unique_from fl eps x xs else unique_from fl eps a xs)"

definition UniqueSortedWithTolerance :: "fp \<Rightarrow> rat list \<Rightarrow> rat \<Rightarrow> rat list" where
  "UniqueSortedWithTolerance fl xs eps = (case sort xs of [] \<Rightarrow> [] | a # r \<Rightarrow> unique_from fl eps a r)"

definition InferFenchelStep :: "fp \<Rightarrow> rat list \<Rightarrow> rat" where
  "InferFenchelStep fl knots =
     (let u = UniqueSortedWithTolerance fl knots (tiny fl 12);
          ds = filter (\<lambda>d. tiny fl 12 < d) (steps_of fl u)
      in if length knots < 2 \<or> length u < 2 then 1
         else case ds of [] \<Rightarrow> 1 | d # r \<Rightarrow> let step = foldl min d r in if step \<le> 0 then 1 else step)"

function price_steps :: "fp \<Rightarrow> rat \<Rightarrow> rat \<Rightarrow> nat \<Rightarrow> rat \<Rightarrow> rat list" where
  "price_steps fl step bound room p =
     (if room = 0 \<or> \<not> p \<le> bound then [] else p # price_steps fl step bound (room - 1) (fadd fl p step))"
  by pat_completeness auto
termination
  by (relation "measure (\<lambda>(fl, step, bound, room, p). room)") auto

declare price_steps.simps [simp del]

definition BuildFenchelPriceGrid :: "fp \<Rightarrow> sq_point list \<Rightarrow> fenchel_config \<Rightarrow> rat list" where
  "BuildFenchelPriceGrid fl s c =
     (let knots = ExtractSlopeKnots fl s;
          lo = (case (fc_p_min c, knots) of (Some p, _) \<Rightarrow> to_double fl p | (None, k # ks) \<Rightarrow> foldl min k ks | (None, []) \<Rightarrow> 0);
          hi = (case (fc_p_max c, knots) of (Some p, _) \<Rightarrow> to_double fl p | (None, k # ks) \<Rightarrow> foldl max k ks | (None, []) \<Rightarrow> lo);
          (lo, hi) = (if hi < lo then (hi, lo) else (lo, hi));
          step = (case fc_p_step c of Some p \<Rightarrow> \<bar>to_double fl p\<bar> | None \<Rightarrow> 0);
          step = (if step \<le> 0 then InferFenchelStep fl knots else step);
          step = (if step \<le> 0 then 1 else step);
          grid = (if \<bar>fsub fl hi lo\<bar> \<le> tiny fl 12 then [lo]
            else let g = price_steps fl step (fadd fl hi (tiny fl 12)) 20000 lo
                 in if g = [] \<or> tiny fl 9 < \<bar>fsub fl (last g) hi\<bar> then g @ [hi] else g);
          grid = (if fc_include_price_knots c
            then grid @ filter (\<lambda>k. fsub fl lo (tiny fl 12) \<le> k \<and> k \<le> fadd fl hi (tiny fl 12)) knots else grid)
      in UniqueSortedWithTolerance fl grid (tiny fl 10))"

text \<open>The largest \<open>p q - S(q)\<close> so far and the point that has it, the larger quantity on a tie.\<close>

definition best_step :: "fp \<Rightarrow> rat \<Rightarrow> rat list \<Rightarrow> rat list \<Rightarrow> nat \<Rightarrow> rat \<times> nat \<Rightarrow> rat \<times> nat" where
  "best_step fl p x y i b =
     (let candidate = fsub fl (fmul fl p (x ! i)) (y ! i)
      in if fadd fl (fst b) (tiny fl 9) < candidate then (candidate, i)
         else if \<bar>fsub fl candidate (fst b)\<bar> \<le> tiny fl 9 \<and> x ! snd b < x ! i then (fst b, i) else b)"

definition best_point :: "fp \<Rightarrow> rat list \<Rightarrow> rat list \<Rightarrow> rat \<Rightarrow> rat \<times> nat" where
  "best_point fl x y p = fold (best_step fl p x y) [1..<length x] (fsub fl (fmul fl p (x ! 0)) (y ! 0), 0)"

definition dual_values :: "fp \<Rightarrow> sq_point list \<Rightarrow> rat list \<Rightarrow> rat list" where
  "dual_values fl s ps = map (\<lambda>p. fst (best_point fl (ExtractQtyGrid fl s) (ExtractCostValues fl s) p)) ps"

definition argmax_quantities :: "fp \<Rightarrow> sq_point list \<Rightarrow> rat list \<Rightarrow> rat list" where
  "argmax_quantities fl s ps = EnforceNonDecreasing
     (map (\<lambda>p. ExtractQtyGrid fl s ! snd (best_point fl (ExtractQtyGrid fl s) (ExtractCostValues fl s) p)) ps)"

definition BuildFenchelLegendreLayer :: "fp \<Rightarrow> (rat \<Rightarrow> rat) \<Rightarrow> sq_point list \<Rightarrow> fenchel_config \<Rightarrow> fenchel_layer" where
  "BuildFenchelLegendreLayer fl ld s c =
     (let ps = BuildFenchelPriceGrid fl s c; k = max (DetectCostOutputScale fl ld s) 6; m = DetectQtyOutputScale s
      in if s = [] \<or> ps = [] then \<lparr>fen_s_star_of_p = [], fen_q_star_of_p = []\<rparr>
         else \<lparr>fen_s_star_of_p = map2 (\<lambda>p v. \<lparr>dp_price = ToDecimalWithScale fl p 6, dp_dual_value = ToDecimalWithScale fl v k\<rparr>)
                 ps (dual_values fl s ps),
               fen_q_star_of_p = map2 (\<lambda>p q. \<lparr>ap_price = ToDecimalWithScale fl p 6, ap_optimal_qty = ToDecimalWithScale fl q m\<rparr>)
                 ps (argmax_quantities fl s ps)\<rparr>)"

section \<open>Rebuilding the tables\<close>

text \<open>The prices between points, kept monotone after the first.\<close>

fun marginal_prices :: "execution_side \<Rightarrow> int \<Rightarrow> sq_point \<Rightarrow> decimal option \<Rightarrow> sq_point list \<Rightarrow> pq_point list" where
  "marginal_prices sd k p prev [] = []"
| "marginal_prices sd k p prev (q # r) =
     (let price = DivideDecimal (dsub (sq_cost q) (sq_cost p)) (dsub (sq_qty q) (sq_qty p)) k;
          price = (case prev of None \<Rightarrow> price
            | Some prior \<Rightarrow> if (sd = ExecutionSide_kBuy \<and> dcmp price prior < 0) \<or> (sd = ExecutionSide_kSell \<and> 0 < dcmp price prior)
                then prior else price)
      in \<lparr>pq_qty = sq_qty q, pq_price = price\<rparr> # marginal_prices sd k q (Some price) r)"

definition RebuildFromCostLayer :: "fp \<Rightarrow> depth_curves \<Rightarrow> sq_point list \<Rightarrow> depth_curves" where
  "RebuildFromCostLayer fl c s =
     (let c' = c\<lparr>ds_s_of_q := s, ds_fenchel_legendre := \<lparr>fen_s_star_of_p = [], fen_q_star_of_p = []\<rparr>\<rparr>
      in case s of
           [] \<Rightarrow> c'\<lparr>ds_q_of_p := [], ds_p_of_q := [], ds_l_of_v := [], ds_l_of_v_monotone := []\<rparr>
         | p # r \<Rightarrow>
             let k = max (foldl max 0 (map (scale \<circ> pq_price) (ds_p_of_q c))) 6;
                 ps = marginal_prices (ds_side c) k p None r;
                 start = \<lparr>pq_qty = sq_qty p, pq_price = (case ps of [] \<Rightarrow> mk_dec 0 k | q # _ \<Rightarrow> pq_price q)\<rparr>;
                 ls = map (\<lambda>p. lv_of (tau_or_one (ds_tau_sec c)) (sq_qty p) (sq_cost p)) s
             in c'\<lparr>ds_p_of_q := start # ps,
                   ds_q_of_p := map (\<lambda>q. \<lparr>qp_price = pq_price q, qp_cumulative_qty = pq_qty q\<rparr>) ps,
                   ds_l_of_v := ls,
                   ds_l_of_v_monotone := BuildMonotoneLagrangianInterpolation fl ls 8\<rparr>)"

definition SellSideReferencePrice :: "depth_curves \<Rightarrow> decimal" where
  "SellSideReferencePrice c = (case ds_p_of_q c of p # _ \<Rightarrow> pq_price p
     | [] \<Rightarrow> (case ds_q_of_p c of q # _ \<Rightarrow> qp_price q | [] \<Rightarrow> dzero))"

text \<open>The cost of a sale is concave; what it falls short of the best price is convex. The same step
  leads back.\<close>

definition NormalizeCostLayerForL2 :: "depth_curves \<Rightarrow> sq_point list \<Rightarrow> sq_point list" where
  "NormalizeCostLayerForL2 c s =
     (if ds_side c \<noteq> ExecutionSide_kSell then s
      else map (\<lambda>p. p\<lparr>sq_cost := dsub (dmul (SellSideReferencePrice c) (sq_qty p)) (sq_cost p)\<rparr>) s)"

definition DenormalizeCostLayerFromL2 :: "depth_curves \<Rightarrow> sq_point list \<Rightarrow> sq_point list" where
  "DenormalizeCostLayerFromL2 c s =
     (if ds_side c \<noteq> ExecutionSide_kSell then s
      else map (\<lambda>p. p\<lparr>sq_cost := dsub (dmul (SellSideReferencePrice c) (sq_qty p)) (sq_cost p)\<rparr>) s)"

definition ApplyConvexifiedCostLayer :: "fp \<Rightarrow> depth_curves \<Rightarrow> convex_config \<Rightarrow> depth_curves" where
  "ApplyConvexifiedCostLayer fl c k = RebuildFromCostLayer fl c
     (DenormalizeCostLayerFromL2 c (ConvexifyCostLayer fl (NormalizeCostLayerForL2 c (ds_s_of_q c)) k))"

definition ApplyMoreauRegularizationL2 :: "fp \<Rightarrow> (rat \<Rightarrow> rat) \<Rightarrow> depth_curves \<Rightarrow> rat \<Rightarrow> depth_curves" where
  "ApplyMoreauRegularizationL2 fl ld c smoothing = RebuildFromCostLayer fl c
     (DenormalizeCostLayerFromL2 c (RegularizeCostLayerMoreauL2 fl ld (NormalizeCostLayerForL2 c (ds_s_of_q c)) smoothing))"

definition ApplyTikhonovRegularizationL2 :: "fp \<Rightarrow> (rat \<Rightarrow> rat) \<Rightarrow> depth_curves \<Rightarrow> tikhonov_config \<Rightarrow> depth_curves" where
  "ApplyTikhonovRegularizationL2 fl ld c k = RebuildFromCostLayer fl c
     (DenormalizeCostLayerFromL2 c (RegularizeCostLayerTikhonovL2 fl ld (NormalizeCostLayerForL2 c (ds_s_of_q c)) k))"

definition ApplyFenchelLegendreLayer :: "fp \<Rightarrow> (rat \<Rightarrow> rat) \<Rightarrow> depth_curves \<Rightarrow> fenchel_config \<Rightarrow> depth_curves" where
  "ApplyFenchelLegendreLayer fl ld c k = c\<lparr>ds_fenchel_legendre := BuildFenchelLegendreLayer fl ld (ds_s_of_q c) k\<rparr>"

end
