(* ===== verification/Venue_Depth_Laws.thy ===== *)
theory Venue_Depth_Laws
  imports Venue_Depth "HOL-Library.Multiset"
begin

text \<open>
  Laws of the curves of \<open>Venue_Depth\<close>: a canonical side is the book it was made of, the cost curve is
  the cost of that book, pooling adjacent slopes gives the convex hull of a cost, and the dual layer
  is its conjugate. Decimals are exact while they fit (\<open>grid\<close>); doubles are exact (\<open>exact\<close>).
\<close>


section \<open>Pooling adjacent violators\<close>

text \<open>Pairs of slope and weight: their integral and their total weight.\<close>

definition area :: "(rat \<times> rat) list \<Rightarrow> rat" where
  "area zs = sum_list (map (\<lambda>(s, w). s * w) zs)"

definition weight :: "(rat \<times> rat) list \<Rightarrow> rat" where
  "weight zs = sum_list (map snd zs)"

definition flat :: "rat \<Rightarrow> (rat \<times> rat) list \<Rightarrow> (rat \<times> rat) list" where
  "flat m zs = map (\<lambda>(s, w). (m, w)) zs"

lemma area_simps [simp]: "area [] = 0" "area (z # zs) = fst z * snd z + area zs" "area (xs @ zs) = area xs + area zs"
  "weight [] = 0" "weight (z # zs) = snd z + weight zs" "weight (xs @ zs) = weight xs + weight zs"
  by (simp_all add: area_def weight_def split_beta)

lemma flat_simps [simp]: "length (flat m zs) = length zs" "area (flat m zs) = m * weight zs" "take k (flat m zs) = flat m (take k zs)"
  "map snd (flat m zs) = map snd zs" "flat m (xs @ zs) = flat m xs @ flat m zs" "map fst (flat m zs) = replicate (length zs) m"
  by (simp_all add: flat_def take_map split_beta map_replicate_const comp_def)
    (induction zs; auto simp: algebra_simps)

lemma weight_nonneg: "\<forall>z \<in> set zs. 0 < snd z \<Longrightarrow> 0 \<le> weight zs"
  by (induction zs) auto

lemma weight_pos: "\<forall>z \<in> set zs. 0 < snd z \<Longrightarrow> zs \<noteq> [] \<Longrightarrow> 0 < weight zs"
  using weight_nonneg by (cases zs) (auto intro: add_pos_nonneg)

lemma take_weight: "\<forall>z \<in> set zs. 0 < snd z \<Longrightarrow> 0 \<le> weight (take k zs) \<and> weight (take k zs) \<le> weight zs"
proof -
  assume z: "\<forall>z \<in> set zs. 0 < snd z"
  then have "0 \<le> weight (take k zs)" "0 \<le> weight (drop k zs)"
    by (auto intro!: weight_nonneg dest: in_set_takeD in_set_dropD)
  then show ?thesis using area_simps(6)[of "take k zs" "drop k zs"] by simp
qed

text \<open>A run of slopes pooled to their mean: no prefix of it lies above the run.\<close>

definition pooled :: "(rat \<times> rat) list \<Rightarrow> rat \<Rightarrow> bool" where
  "pooled zs m \<longleftrightarrow> zs \<noteq> [] \<and> (\<forall>z \<in> set zs. 0 < snd z) \<and> area zs = m * weight zs
     \<and> (\<forall>k. m * weight (take k zs) \<le> area (take k zs))"

lemma pooled_one: "0 < w \<Longrightarrow> pooled [(s, w)] s"
  by (auto simp: pooled_def take_Cons')

lemma pooled_join:
  assumes "pooled xs a" "pooled ys b" "b < a"
  defines "m \<equiv> (area xs + area ys) / (weight xs + weight ys)"
  shows "pooled (xs @ ys) m" "b \<le> m" "m \<le> a"
proof -
  let ?v = "weight xs" and ?w = "weight ys"
  have pos: "0 < ?v" "0 < ?w" using assms(1,2) by (auto simp: pooled_def intro!: weight_pos)
  have sums: "area xs = a * ?v" "area ys = b * ?w" using assms(1,2) by (simp_all add: pooled_def)
  have m: "m * (?v + ?w) = a * ?v + b * ?w" using pos sums by (simp add: m_def)
  have lo: "b * (?v + ?w) \<le> a * ?v + b * ?w" and hi: "a * ?v + b * ?w \<le> a * (?v + ?w)"
    using pos assms(3) by (simp_all add: algebra_simps mult_right_mono)
  show mb: "b \<le> m" using lo pos by (simp add: m_def sums pos_le_divide_eq)
  show ma: "m \<le> a" using hi pos by (simp add: m_def sums pos_divide_le_eq)
  show "pooled (xs @ ys) m" unfolding pooled_def
  proof (intro conjI allI)
    show "xs @ ys \<noteq> []" "\<forall>z \<in> set (xs @ ys). 0 < snd z" using assms(1,2) by (auto simp: pooled_def)
    show "area (xs @ ys) = m * weight (xs @ ys)" using m sums by simp
    fix k
    show "m * weight (take k (xs @ ys)) \<le> area (take k (xs @ ys))"
    proof (cases "k \<le> length xs")
      case True
      have "m * weight (take k xs) \<le> a * weight (take k xs)"
        using ma take_weight[of xs k] assms(1) by (intro mult_right_mono) (auto simp: pooled_def)
      also have "\<dots> \<le> area (take k xs)" using assms(1) by (simp add: pooled_def)
      finally show ?thesis using True by simp
    next
      case False
      let ?u = "weight (take (k - length xs) ys)"
      have "(m - b) * ?u \<le> (m - b) * ?w"
        using mb take_weight[of ys] assms(2) by (intro mult_left_mono) (auto simp: pooled_def)
      moreover have "b * ?u \<le> area (take (k - length xs) ys)" using assms(2) by (simp add: pooled_def)
      moreover have "take k xs = xs" using False by simp
      ultimately show ?thesis using m sums(1) by (simp add: algebra_simps)
    qed
  qed
qed

text \<open>The stack of blocks, the last one first, over the runs they stand for.\<close>

definition block_stands :: "(rat \<times> rat) list \<Rightarrow> pav_block \<Rightarrow> bool" where
  "block_stands zs b \<longleftrightarrow> pb_weight_sum b = weight zs \<and> pb_weighted_slope_sum b = area zs
     \<and> Suc (pb_right b) = pb_left b + length zs \<and> pooled zs (area zs / weight zs)"

definition stack_ok :: "fp \<Rightarrow> (rat \<times> rat) list list \<Rightarrow> pav_block list \<Rightarrow> nat \<Rightarrow> bool" where
  "stack_ok fl zss bs n \<longleftrightarrow> list_all2 block_stands zss bs \<and> sorted_wrt (\<lambda>b a. pav_mean fl a \<le> pav_mean fl b) bs
     \<and> (\<forall>b bs'. bs = b # bs' \<longrightarrow> Suc (pb_right b) = n) \<and> successively (\<lambda>b a. pb_left b = Suc (pb_right a)) bs"

lemma stands_mean: "exact fl \<Longrightarrow> block_stands zs b \<Longrightarrow> pav_mean fl b = area zs / weight zs"
  by (simp add: block_stands_def pav_mean_def)

lemma pooled_scaled: "pooled zs m \<Longrightarrow> m = area zs / weight zs"
  using weight_pos[of zs] by (auto simp: pooled_def)

lemma merge_keeps:
  "exact fl \<Longrightarrow> block_stands zs b \<Longrightarrow> stack_ok fl zss bs (pb_left b) \<Longrightarrow>
    \<exists>zss'. stack_ok fl zss' (pav_merge fl b bs) (Suc (pb_right b)) \<and> concat (List.rev zss') = concat (List.rev zss) @ zs"
proof (induction fl b bs arbitrary: zs zss rule: pav_merge.induct)
  case (1 fl b)
  then have "stack_ok fl [zs] [b] (Suc (pb_right b))" "zss = []" by (simp_all add: stack_ok_def)
  then show ?case by (intro exI[of _ "[zs]"]) simp
next
  case (2 fl b a bs)
  note ex = "2.prems"(1) and b = "2.prems"(2)
  obtain ys yss where z: "zss = ys # yss" "block_stands ys a" "list_all2 block_stands yss bs"
    using "2.prems"(3) by (auto simp: stack_ok_def list_all2_Cons2)
  note st = "2.prems"(3)[unfolded z(1)]
  show ?case
  proof (cases "pav_mean fl a \<le> pav_mean fl b")
    case True
    then have "stack_ok fl (zs # zss) (b # a # bs) (Suc (pb_right b))"
      using st b z by (auto simp: stack_ok_def intro: order_trans)
    then show ?thesis using True by (intro exI[of _ "zs # zss"]) simp
  next
    case False
    let ?m = "\<lparr>pb_left = pb_left a, pb_right = pb_right b, pb_weight_sum = fadd fl (pb_weight_sum a) (pb_weight_sum b),
             pb_weighted_slope_sum = fadd fl (pb_weighted_slope_sum a) (pb_weighted_slope_sum b)\<rparr>"
    have "area zs / weight zs < area ys / weight ys" using False stands_mean[OF ex] b z(2) by simp
    then have "pooled (ys @ zs) (area (ys @ zs) / weight (ys @ zs))"
      using pooled_join(1)[of ys "area ys / weight ys" zs "area zs / weight zs"] b z(2) by (simp add: block_stands_def)
    then have m: "block_stands (ys @ zs) ?m"
      using b z(2) st ex by (auto simp: block_stands_def stack_ok_def)
    have "stack_ok fl yss bs (pb_left ?m)"
      using st z(3) by (cases bs) (auto simp: stack_ok_def)
    then show ?thesis using "2.IH"[OF False ex m] False z(1) by auto
  qed
qed

lemma pushed_blocks:
  assumes "exact fl" "length ws = length ss" "\<forall>w \<in> set ws. 0 < w" "n \<le> length ss"
  shows "\<exists>zss. stack_ok fl zss (fold (\<lambda>i bs. pav_merge fl (pav_block_of fl ss ws i) bs) [0..<n] []) n
    \<and> concat (List.rev zss) = take n (zip ss ws)"
  using assms(4)
proof (induction n)
  case 0
  then show ?case by (intro exI[of _ "[]"]) (simp add: stack_ok_def)
next
  case (Suc n)
  let ?bs = "fold (\<lambda>i bs. pav_merge fl (pav_block_of fl ss ws i) bs) [0..<n] []" and ?b = "pav_block_of fl ss ws n"
  obtain zss where z: "stack_ok fl zss ?bs n" "concat (List.rev zss) = take n (zip ss ws)"
    using Suc by auto
  have "0 < ws ! n" using Suc.prems assms(2,3) by simp
  then have "block_stands [(ss ! n, ws ! n)] ?b"
    using assms(1) pooled_one by (simp add: block_stands_def pav_block_of_def)
  moreover have "stack_ok fl zss ?bs (pb_left ?b)" using z(1) by (simp add: pav_block_of_def)
  ultimately obtain zss' where "stack_ok fl zss' (pav_merge fl ?b ?bs) (Suc (pb_right ?b))"
    "concat (List.rev zss') = concat (List.rev zss) @ [(ss ! n, ws ! n)]"
    using merge_keeps[OF assms(1)] by blast
  then show ?case using z(2) Suc.prems assms(2)
    by (intro exI[of _ zss']) (simp add: pav_block_of_def take_Suc_conv_app_nth)
qed

text \<open>Runs with their means, from the first to the last.\<close>

definition runs_ok :: "((rat \<times> rat) list \<times> rat) list \<Rightarrow> bool" where
  "runs_ok rs \<longleftrightarrow> (\<forall>(zs, m) \<in> set rs. pooled zs m) \<and> sorted (map snd rs)"

lemma pav_runs:
  assumes "exact fl" "length ws = length ss" "\<forall>w \<in> set ws. 0 < w"
  obtains rs where "runs_ok rs" "concat (map fst rs) = zip ss ws"
    "ConvexifySlopesPav fl ss ws = concat (map (\<lambda>(zs, m). replicate (length zs) m) rs)"
proof -
  define bs where "bs = fold (\<lambda>i bs. pav_merge fl (pav_block_of fl ss ws i) bs) [0..<length ss] []"
  obtain zss where z: "stack_ok fl zss bs (length ss)" "concat (List.rev zss) = zip ss ws"
    using pushed_blocks[OF assms, of "length ss"] assms(2) by (auto simp: bs_def)
  define rs where "rs = List.rev (zip zss (map (pav_mean fl) bs))"
  have len: "length zss = length bs" and all: "list_all2 block_stands zss bs"
    using z(1) by (auto simp: stack_ok_def dest: list_all2_lengthD)
  have m: "map fst rs = List.rev zss" "map snd rs = List.rev (map (pav_mean fl) bs)"
    using len by (simp_all add: rs_def rev_map[symmetric])
  have "sorted (map snd rs)"
    using z(1) unfolding m by (simp add: stack_ok_def sorted_wrt_rev sorted_wrt_map)
  moreover have "pooled zs a" if "(zs, a) \<in> set rs" for zs a
  proof -
    obtain i where i: "i < length zss" "zs = zss ! i" "a = pav_mean fl (bs ! i)"
      using \<open>(zs, a) \<in> set rs\<close> len by (auto simp: rs_def set_zip)
    have "block_stands zs (bs ! i)" using list_all2_nthD[OF all] i by simp
    moreover from this have "pav_mean fl (bs ! i) = area zs / weight zs" by (rule stands_mean[OF assms(1)])
    ultimately show ?thesis using i(3) by (simp add: block_stands_def)
  qed
  ultimately have "runs_ok rs" by (auto simp: runs_ok_def)
  moreover have "concat (map fst rs) = zip ss ws" using m z(2) by simp
  moreover have "ConvexifySlopesPav fl ss ws = concat (map (\<lambda>(zs, m). replicate (length zs) m) rs)"
  proof -
    have "map (\<lambda>b. replicate (Suc (pb_right b) - pb_left b) (pav_mean fl b)) bs
        = map (\<lambda>(zs, m). replicate (length zs) m) (zip zss (map (pav_mean fl) bs))"
      using all len by (intro nth_equalityI) (auto simp: list_all2_conv_all_nth block_stands_def)
    then show ?thesis by (simp add: ConvexifySlopesPav_def rs_def bs_def flip: rev_map)
  qed
  ultimately show ?thesis by (rule that)
qed

lemma integrate_nth: "exact fl \<Longrightarrow> k \<le> length zs \<Longrightarrow> integrate fl y zs ! k = y + area (take k zs)"
proof (induction zs arbitrary: y k)
  case (Cons z zs)
  then show ?case by (cases k) auto
qed simp

lemma area_bounds:
  assumes "\<forall>z \<in> set zs. 0 < snd z"
  shows "\<forall>z \<in> set zs. fst z \<le> m \<Longrightarrow> area zs \<le> m * weight zs" "\<forall>z \<in> set zs. m \<le> fst z \<Longrightarrow> m * weight zs \<le> area zs"
  using assms by (induction zs) (auto simp: distrib_left intro!: add_mono mult_right_mono)

text \<open>A convex curve below a line at both ends is below it between them.\<close>

lemma chord:
  assumes "\<forall>z \<in> set zs. 0 < snd z" "sorted (map fst zs)" "c \<le> y" "c + area zs \<le> y + m * weight zs"
  shows "c + area (take k zs) \<le> y + m * weight (take k zs)"
proof (cases "k < length zs \<and> m < fst (zs ! k)")
  case True
  have "\<forall>z \<in> set (drop k zs). m \<le> fst z"
  proof
    fix z assume "z \<in> set (drop k zs)"
    then obtain i where "i < length zs - k" "z = zs ! (k + i)" by (auto simp: in_set_conv_nth)
    then show "m \<le> fst z" using True sorted_nth_mono[OF assms(2), of k "k + i"] by (simp; linarith)
  qed
  then have "m * weight (drop k zs) \<le> area (drop k zs)"
    using assms(1) by (intro area_bounds(2)) (auto dest: in_set_dropD)
  moreover have "area zs = area (take k zs) + area (drop k zs)" "weight zs = weight (take k zs) + weight (drop k zs)"
    by (simp_all flip: area_simps)
  ultimately show ?thesis using assms(4) by (simp add: distrib_left)
next
  case False
  show ?thesis
  proof (cases "k < length zs")
    case True
    have "\<forall>z \<in> set (take k zs). fst z \<le> m"
    proof
      fix z assume "z \<in> set (take k zs)"
      then obtain i where "i < k" "z = zs ! i" using True by (auto simp: in_set_conv_nth)
      then show "fst z \<le> m" using True \<open>\<not> _\<close> sorted_nth_mono[OF assms(2), of i k] by simp
    qed
    then have "area (take k zs) \<le> m * weight (take k zs)"
      using assms(1) by (intro area_bounds(1)) (auto dest: in_set_takeD)
    then show ?thesis using assms(3) by simp
  qed (use assms(4) in simp)
qed

abbreviation flat_runs :: "((rat \<times> rat) list \<times> rat) list \<Rightarrow> (rat \<times> rat) list" where
  "flat_runs rs \<equiv> concat (map (\<lambda>(zs, m). flat m zs) rs)"

lemma hull_below:
  assumes "\<forall>(zs, m) \<in> set rs. pooled zs m"
  shows "area (take k (flat_runs rs)) \<le> area (take k (concat (map fst rs)))" "area (flat_runs rs) = area (concat (map fst rs))"
  using assms by (induction rs arbitrary: k) (auto simp: pooled_def split: prod.splits intro!: add_mono)

lemma hull_greatest:
  assumes "\<forall>(zs, m) \<in> set rs. pooled zs m" "length gs = length (concat (map fst rs))" "sorted gs"
    and "\<And>k. c + area (take k (zip gs (map snd (concat (map fst rs))))) \<le> y + area (take k (concat (map fst rs)))"
  shows "c + area (take k (zip gs (map snd (concat (map fst rs))))) \<le> y + area (take k (flat_runs rs))"
  using assms
proof (induction rs arbitrary: c y gs k)
  case (Cons r rs)
  obtain zs m where r: "r = (zs, m)" by (cases r)
  have p: "pooled zs m" using Cons.prems(1) r by auto
  define n where "n = length zs"
  define ga where "ga = take n gs"
  define gb where "gb = drop n gs"
  have g: "gs = ga @ gb" "length ga = n" "length gb = length (concat (map fst rs))"
    using Cons.prems(2) by (simp_all add: ga_def gb_def n_def r)
  have so: "sorted ga" "sorted gb" using Cons.prems(3) g(1) by (simp_all add: sorted_append)
  let ?za = "zip ga (map snd zs)" and ?zb = "zip gb (map snd (concat (map fst rs)))"
  have z: "zip gs (map snd (concat (map fst (r # rs)))) = ?za @ ?zb" using g by (simp add: r n_def)
  have len: "length ?za = n" using g(2) by (simp add: n_def)
  have w: "weight (take j ?za) = weight (take j zs)" for j
    using g(2) by (simp add: weight_def n_def take_map[symmetric] take_zip)
  have tot: "area zs = m * weight zs" using p by (simp add: pooled_def)
  have c0: "c \<le> y" using Cons.prems(4)[of 0] by simp
  have c1: "c + area ?za \<le> y + m * weight zs"
    using Cons.prems(4)[of n] tot len unfolding z by (simp add: r n_def)
  show ?case
  proof (cases "k \<le> n")
    case True
    have "c + area (take k ?za) \<le> y + m * weight (take k ?za)"
    proof (rule chord[OF _ _ c0])
      show "\<forall>z \<in> set ?za. 0 < snd z" using p by (auto simp: pooled_def dest!: set_zip_rightD)
      show "sorted (map fst ?za)" using so(1) g(2) by (simp add: n_def)
      show "c + area ?za \<le> y + m * weight ?za" using c1 w[of n] len by (simp add: n_def)
    qed
    then show ?thesis using True w len unfolding z by (simp add: r n_def)
  next
    case False
    have "c + area ?za + area (take (k - n) ?zb) \<le> y + area zs + area (take (k - n) (flat_runs rs))"
    proof (rule Cons.IH)
      fix j show "c + area ?za + area (take j ?zb) \<le> y + area zs + area (take j (concat (map fst rs)))"
        using Cons.prems(4)[of "n + j"] len unfolding z by (simp add: r n_def)
    qed (use Cons.prems(1) g(3) so(2) in auto)
    then show ?thesis using False len tot unfolding z by (simp add: r n_def)
  qed
qed simp

lemma zip_runs:
  "zip (concat (map (\<lambda>(zs, m). replicate (length zs) m) rs)) (map snd (concat (map fst rs))) = flat_runs rs"
proof (induction rs)
  case (Cons r rs)
  have "zip (replicate (length zs) m) (map snd zs) = flat m zs" for zs :: "(rat \<times> rat) list" and m
    by (induction zs) (auto simp: flat_def)
  then show ?case using Cons by (auto split: prod.splits)
qed simp

text \<open>C27. The convexified cost is the convex hull of the cost. Pooling adjacent slopes of a cost curve gives
  slopes that never fall; the cost they integrate to has the same value at both ends, never lies
  above the original, and no convex curve below the original lies above it anywhere.
\<close>

theorem convexified_cost_is_hull:
  fixes y0 :: rat
  assumes "exact fl" "length h = length ss" "\<forall>w \<in> set h. 0 < w"
  defines "us \<equiv> ConvexifySlopesPav fl ss h"
  defines "y \<equiv> integrate fl y0 (zip ss h)" and "z \<equiv> integrate fl y0 (zip us h)"
  shows "length us = length ss \<and> sorted us \<and> z ! length ss = y ! length ss \<and> (\<forall>k \<le> length ss. z ! k \<le> y ! k)
    \<and> (\<forall>c gs. length gs = length ss \<and> sorted gs \<and> (\<forall>k \<le> length ss. integrate fl c (zip gs h) ! k \<le> y ! k)
        \<longrightarrow> (\<forall>k \<le> length ss. integrate fl c (zip gs h) ! k \<le> z ! k))"
proof -
  obtain rs where rs: "runs_ok rs" "concat (map fst rs) = zip ss h"
    "us = concat (map (\<lambda>(zs, m). replicate (length zs) m) rs)"
    using pav_runs[OF assms(1-3)] unfolding us_def by metis
  have p: "\<forall>(zs, m) \<in> set rs. pooled zs m" and so: "sorted (map snd rs)" using rs(1) by (auto simp: runs_ok_def)
  have h: "map snd (concat (map fst rs)) = h" using assms(2) rs(2) by simp
  have us: "zip us h = flat_runs rs" using zip_runs[of rs] h rs(3) by simp
  have "length us = length (concat (map fst rs))" unfolding rs(3) by (induction rs) auto
  then have len: "length us = length ss" using rs(2) assms(2) by simp
  have "sorted us" using so unfolding rs(3)
    by (induction rs) (auto simp: sorted_append split: prod.splits)
  moreover have y: "y ! k = y0 + area (take k (concat (map fst rs)))" "z ! k = y0 + area (take k (flat_runs rs))"
    if "k \<le> length ss" for k
    using that assms(1,2) len by (simp_all add: y_def z_def integrate_nth rs(2)) (simp add: integrate_nth flip: us)
  moreover have "area (take (length ss) (flat_runs rs)) = area (take (length ss) (concat (map fst rs)))"
    using hull_below(2)[OF p] len assms(2) by (simp add: rs(2) flip: us)
  moreover have "integrate fl c (zip gs h) ! k \<le> z ! k"
    if g: "length gs = length ss" "sorted gs" "\<forall>k \<le> length ss. integrate fl c (zip gs h) ! k \<le> y ! k" and k: "k \<le> length ss" for c gs k
  proof -
    have "c + area (take k (zip gs (map snd (concat (map fst rs))))) \<le> y0 + area (take k (flat_runs rs))"
    proof (rule hull_greatest[OF p _ g(2)])
      show "length gs = length (concat (map fst rs))" using g(1) assms(2) rs(2) by simp
      fix j
      have "integrate fl c (zip gs h) ! min j (length ss) \<le> y ! min j (length ss)" using g(3) by simp
      then show "c + area (take j (zip gs (map snd (concat (map fst rs))))) \<le> y0 + area (take j (concat (map fst rs)))"
        using assms(1,2) g(1) unfolding h by (cases "j \<le> length ss") (simp_all add: integrate_nth y rs(2) min_def)
    qed
    then show ?thesis using k y(2) g(1) assms(1,2) by (simp add: h integrate_nth)
  qed
  ultimately show ?thesis using hull_below(1)[OF p] len by auto
qed

theorem convexified_cost_is_hull_witness: "sorted (ConvexifySlopesPav exact_fp [3, 1, 2] [1, 1, 2])"
  using convexified_cost_is_hull[OF exact_exact_fp, of "[1, 1, 2]" "[3, 1, 2]"] by simp

section \<open>The dual layer\<close>

text \<open>The value found for a price is reached at some point and missed by no point by more than \<open>10 ^ -9\<close>.\<close>

definition best_of :: "rat \<Rightarrow> rat list \<Rightarrow> rat list \<Rightarrow> nat \<Rightarrow> rat \<times> nat \<Rightarrow> bool" where
  "best_of p x y n b \<longleftrightarrow> (\<exists>j < n. fst b = p * x ! j - y ! j) \<and> (\<forall>j < n. p * x ! j - y ! j \<le> fst b + 1 / 10 ^ 9)
     \<and> snd b < n \<and> fst b - 1 / 10 ^ 9 \<le> p * x ! snd b - y ! snd b"

lemma best_point_best:
  assumes "exact fl" "x \<noteq> []"
  shows "best_of p x y (length x) (best_point fl x y p)"
proof -
  have step: "best_of p x y (Suc n) (best_step fl p x y n b)" if b: "best_of p x y n b" for n b
  proof -
    let ?c = "p * x ! n - y ! n"
    obtain j where j: "j < n" "fst b = p * x ! j - y ! j" using b by (auto simp: best_of_def)
    note all = b[unfolded best_of_def, THEN conjunct2, THEN conjunct1, rule_format]
    have i: "snd b < n" "fst b - 1 / 10 ^ 9 \<le> p * x ! snd b - y ! snd b" using b by (simp_all add: best_of_def)
    consider (new) "fst b + 1 / 10 ^ 9 < ?c" | (tie) "?c \<le> fst b + 1 / 10 ^ 9" "\<bar>?c - fst b\<bar> \<le> 1 / 10 ^ 9" "x ! snd b < x ! n"
      | (old) "?c \<le> fst b + 1 / 10 ^ 9" "\<not> (\<bar>?c - fst b\<bar> \<le> 1 / 10 ^ 9 \<and> x ! snd b < x ! n)" by linarith
    then show ?thesis
    proof cases
      case new
      then have e: "best_step fl p x y n b = (?c, n)" using assms(1) by (simp add: best_step_def)
      have "p * x ! k - y ! k \<le> ?c + 1 / 10 ^ 9" if "k < Suc n" for k
      proof (cases "k = n")
        case False
        then have "p * x ! k - y ! k \<le> fst b + 1 / 10 ^ 9" using all[of k] that by simp
        also have "\<dots> \<le> ?c" using new by (rule less_imp_le)
        also have "\<dots> \<le> ?c + 1 / 10 ^ 9" by simp
        finally show ?thesis .
      qed simp
      then show ?thesis unfolding best_of_def e by auto
    next
      case tie
      then have e: "best_step fl p x y n b = (fst b, n)" using assms(1) by (simp add: best_step_def Let_def)
      have "p * x ! k - y ! k \<le> fst b + 1 / 10 ^ 9" if "k < Suc n" for k
        using that all[of k] tie(1) by (cases "k = n") simp_all
      moreover have "fst b - 1 / 10 ^ 9 \<le> ?c" using tie(2) by (simp only: abs_le_iff) linarith
      ultimately show ?thesis unfolding best_of_def e using j by (auto intro!: exI[of _ j])
    next
      case old
      then have e: "best_step fl p x y n b = b" using assms(1) by (auto simp: best_step_def Let_def)
      have "p * x ! k - y ! k \<le> fst b + 1 / 10 ^ 9" if "k < Suc n" for k
        using that all[of k] old(1) by (cases "k = n") simp_all
      then show ?thesis unfolding best_of_def e using j i by (auto intro!: exI[of _ j])
    qed
  qed
  have "best_of p x y (Suc n) (fold (best_step fl p x y) [1..<Suc n] (p * x ! 0 - y ! 0, 0))" for n
  proof (induction n)
    case (Suc n)
    have "[1..<Suc (Suc n)] = [1..<Suc n] @ [Suc n]" by simp
    then show ?case using step[OF Suc] by (simp only: fold_append fold_simps comp_apply)
  qed (simp add: best_of_def)
  from this[of "length x - 1"] show ?thesis using assms by (simp add: best_point_def)
qed

lemma raised:
  "sorted (raise_from a xs) \<and> (\<forall>x \<in> set (raise_from a xs). a \<le> x) \<and> set (raise_from a xs) \<subseteq> insert a (set xs)
    \<and> length (raise_from a xs) = length xs"
proof (induction xs arbitrary: a)
  case (Cons x xs)
  show ?case using Cons[of "if x < a then a else x"] by (auto simp: Let_def split: if_splits)
qed simp

lemma enforced:
  "sorted (EnforceNonDecreasing xs)" "set (EnforceNonDecreasing xs) \<subseteq> set xs" "length (EnforceNonDecreasing xs) = length xs"
  using raised by (cases xs; fastforce)+

lemma raised_above: "i < length xs \<Longrightarrow> xs ! i \<le> raise_from a xs ! i"
proof (induction xs arbitrary: a i)
  case (Cons x xs)
  then show ?case by (cases i) (auto simp: Let_def)
qed simp

lemma enforced_above: "i < length xs \<Longrightarrow> xs ! i \<le> EnforceNonDecreasing xs ! i"
  using raised_above by (cases xs; cases i) auto

lemma round_away_mono: "x \<le> y \<Longrightarrow> round_away x \<le> round_away y"
proof (cases "x < 0 \<and> 0 \<le> y")
  case True
  have "0 \<le> \<lfloor>- x + 1 / 2\<rfloor>" "0 \<le> \<lfloor>y + 1 / 2\<rfloor>" using True by auto
  then show ?thesis using True by (simp add: round_away_def del: zero_le_floor)
next
  case False
  assume "x \<le> y"
  then have "\<lfloor>- y + 1 / 2\<rfloor> \<le> \<lfloor>- x + 1 / 2\<rfloor>" "\<lfloor>x + 1 / 2\<rfloor> \<le> \<lfloor>y + 1 / 2\<rfloor>" by (auto intro!: floor_mono)
  then show ?thesis using False \<open>x \<le> y\<close> by (auto simp: round_away_def)
qed

text \<open>Rounding to a decimal keeps the order below the largest unit.\<close>

lemma decimal_mono:
  assumes "exact fl" "x \<le> y" "y * 10 ^ nat k \<le> 9223372036854775807"
  shows "units (ToDecimalWithScale fl x k) \<le> units (ToDecimalWithScale fl y k)"
proof -
  let ?a = "round_away (x * 10 ^ nat k)" and ?b = "round_away (y * 10 ^ nat k)"
  have "?b \<le> round_away (of_int 9223372036854775807)" using assms(3) by (intro round_away_mono) simp
  then have b: "?b \<le> 9223372036854775807" by (simp only: round_away_of_int)
  have ab: "?a \<le> ?b" using assms(2) by (intro round_away_mono mult_right_mono) auto
  have "i64 z = z" if "- 9223372036854775808 \<le> z" "z \<le> 9223372036854775807" for z
    using that by (intro i64_id) (simp add: in_i64_def)
  then show ?thesis using ab b assms(1) by (auto simp: ToDecimalWithScale_def Let_def)
qed


definition ex_costs :: "sq_point list" where
  "ex_costs = [\<lparr>sq_qty = mk_dec 0 0, sq_cost = mk_dec 0 0\<rparr>, \<lparr>sq_qty = mk_dec 2 0, sq_cost = mk_dec 200 0\<rparr>]"

definition ex_dual_config :: fenchel_config where
  "ex_dual_config = \<lparr>fc_p_min = Some (mk_dec 99 0), fc_p_max = Some (mk_dec 101 0), fc_p_step = Some (mk_dec 1 0),
     fc_include_price_knots = True\<rparr>"


section \<open>Canonical levels\<close>

definition level_qty :: "int \<Rightarrow> normalized_level list \<Rightarrow> int" where
  "level_qty p ls = sum_list (map snd (filter (\<lambda>l. fst l = p) ls))"

lemma level_qty_simps [simp]: "level_qty p [] = 0" "level_qty p (l # ls) = (if fst l = p then snd l else 0) + level_qty p ls"
  by (simp_all add: level_qty_def)

lemma level_qty_absent: "p \<notin> fst ` set ls \<Longrightarrow> level_qty p ls = 0"
  by (induction ls) auto

lemma level_qty_mset: "mset xs = mset ys \<Longrightarrow> level_qty p xs = level_qty p ys"
proof -
  assume "mset xs = mset ys"
  then have "mset (map snd (filter (\<lambda>l. fst l = p) xs)) = mset (map snd (filter (\<lambda>l. fst l = p) ys))" by simp
  then show ?thesis by (simp only: level_qty_def flip: sum_mset_sum_list)
qed

lemma sorted_levels:
  "mset (sort_levels sd ls) = mset ls" "set (sort_levels sd ls) = set ls" "sorted (map (better_first sd \<circ> fst) (sort_levels sd ls))"
  using sorted_sort_key[of "\<lambda>l. better_first sd (fst l)" "sort_key (\<lambda>l. - snd l) ls"] by (simp_all add: sort_levels_def comp_def)

lemma better_first_eq [simp]: "better_first sd p = better_first sd q \<longleftrightarrow> p = q"
  by (simp add: better_first_def split: book_side.split)

lemma aggregated_from:
  assumes "sorted (map (better_first sd \<circ> fst) (a # ls))" "\<forall>l \<in> set (a # ls). 0 < snd l"
    and "sum_list (map snd (a # ls)) \<le> 9223372036854775807"
  shows "sorted_wrt (\<lambda>x y. better_first sd (fst x) < better_first sd (fst y)) (aggregate_from a ls)
    \<and> fst ` set (aggregate_from a ls) = fst ` set (a # ls)
    \<and> (\<forall>l \<in> set (aggregate_from a ls). 0 < snd l \<and> snd l = level_qty (fst l) (a # ls))"
  using assms
proof (induction a ls rule: aggregate_from.induct)
  case (2 a l ls)
  have rest: "0 \<le> sum_list (map snd ls)" using "2.prems"(2) by (intro sum_list_nonneg) auto
  show ?case
  proof (cases "fst a = fst l")
    case True
    have w: "i64 (snd a + snd l) = snd a + snd l"
      using "2.prems"(2,3) rest by (intro i64_id) (auto simp: in_i64_def)
    then have e: "aggregate_from a (l # ls) = aggregate_from (fst a, snd a + snd l) ls" using True by simp
    have q: "level_qty p ((fst a, snd a + snd l) # ls) = level_qty p (a # l # ls)" for p using True by simp
    have k: "fst ` set ((fst a, snd a + snd l) # ls) = fst ` set (a # l # ls)" using True by simp
    have "sorted (map (better_first sd \<circ> fst) ((fst a, snd a + snd l) # ls))"
      "\<forall>x \<in> set ((fst a, snd a + snd l) # ls). 0 < snd x" "sum_list (map snd ((fst a, snd a + snd l) # ls)) \<le> 9223372036854775807"
      using "2.prems" by (simp_all add: add.assoc comp_def)
    from "2.IH"(1)[OF True, unfolded w, OF this] show ?thesis unfolding e q k .
  next
    case False
    note ih = "2.IH"(2)[OF False]
    have pre: "sorted (map (better_first sd \<circ> fst) (l # ls))" "\<forall>x \<in> set (l # ls). 0 < snd x"
      "sum_list (map snd (l # ls)) \<le> 9223372036854775807"
      using "2.prems" by (auto simp: comp_def)
    have less: "better_first sd (fst a) < better_first sd (fst x)" if "x \<in> set (l # ls)" for x
    proof -
      have "better_first sd (fst a) \<le> better_first sd (fst l)" "better_first sd (fst l) \<le> better_first sd (fst x)"
        using "2.prems"(1) that by auto
      moreover have "better_first sd (fst a) \<noteq> better_first sd (fst l)" using False by simp
      ultimately show ?thesis by linarith
    qed
    have keys: "fst ` set (aggregate_from l ls) = fst ` set (l # ls)" using ih[OF pre] by blast
    have lt: "better_first sd (fst a) < better_first sd (fst x)" if "x \<in> set (aggregate_from l ls)" for x
    proof -
      have "fst x \<in> fst ` set (l # ls)" using that unfolding keys[symmetric] by (rule imageI)
      then show ?thesis using less by fastforce
    qed
    have own: "level_qty (fst a) (l # ls) = 0"
      using less by (intro level_qty_absent) fastforce
    have "sorted_wrt (\<lambda>x y. better_first sd (fst x) < better_first sd (fst y)) (aggregate_from a (l # ls))"
      using ih[OF pre] lt False by simp
    moreover have "fst ` set (aggregate_from a (l # ls)) = fst ` set (a # l # ls)" using keys False by simp
    moreover have "\<forall>x \<in> set (aggregate_from a (l # ls)). 0 < snd x \<and> snd x = level_qty (fst x) (a # l # ls)"
    proof
      fix x assume "x \<in> set (aggregate_from a (l # ls))"
      then consider "x = a" | "x \<in> set (aggregate_from l ls)" using False by auto
      then show "0 < snd x \<and> snd x = level_qty (fst x) (a # l # ls)"
      proof cases
        case 1
        then show ?thesis using own "2.prems"(2) by simp
      next
        case 2
        then have "fst x \<noteq> fst a" using lt by fastforce
        then show ?thesis using ih[OF pre] 2 by auto
      qed
    qed
    ultimately show ?thesis by blast
  qed
qed auto

lemma aggregated:
  fixes sd ls
  defines "out \<equiv> aggregate (sort_levels sd ls)"
  assumes "\<forall>l \<in> set ls. 0 < snd l" "sum_list (map snd ls) \<le> 9223372036854775807"
  shows "sorted_wrt (\<lambda>x y. better_first sd (fst x) < better_first sd (fst y)) out \<and> fst ` set out = fst ` set ls
    \<and> (\<forall>l \<in> set out. 0 < snd l \<and> snd l = level_qty (fst l) ls)"
proof (cases "sort_levels sd ls")
  case (Cons a r)
  note s = sorted_levels[where sd = sd and ls = ls]
  have q: "level_qty p (a # r) = level_qty p ls" for p using level_qty_mset[OF s(1)] unfolding Cons .
  have "mset (map snd (a # r)) = mset (map snd ls)" using s(1) unfolding Cons mset_map by (rule arg_cong)
  then have "sum_list (map snd (a # r)) = sum_list (map snd ls)" by (simp only: flip: sum_mset_sum_list)
  then have pre: "sorted (map (better_first sd \<circ> fst) (a # r))" "\<forall>l \<in> set (a # r). 0 < snd l"
    "sum_list (map snd (a # r)) \<le> 9223372036854775807" and k: "set (a # r) = set ls"
    using s(2,3) assms(2,3) unfolding Cons by simp_all
  have "aggregate_from a r = out" by (simp add: out_def Cons)
  from aggregated_from[OF pre, unfolded this q k] show ?thesis .
qed (use sorted_levels(2)[of sd ls] in \<open>simp add: out_def\<close>)

lemma normalized_positive: "normalize_level sd ps qs tick lot least l = Some (p, q) \<Longrightarrow> 0 < p \<and> 0 < q"
  by (auto simp: normalize_level_def Let_def split: if_splits option.splits)

lemma canonical_side_core:
  fixes ls sd c
  defines "out \<equiv> CanonicalizeBookSide ls sd c" and "nls \<equiv> normalized_levels ls sd c"
  assumes "sum_list (map snd nls) \<le> 9223372036854775807"
  shows "sorted_wrt (\<lambda>a b. better_first sd (units (bl_price a)) < better_first sd (units (bl_price b))) out" (is ?order)
    and "\<forall>l \<in> set out. scale (bl_price l) = detect_price_scale ls c \<and> scale (bl_qty l) = detect_qty_scale ls c
        \<and> units (bl_price l) \<in> fst ` set nls \<and> 0 < units (bl_qty l)
        \<and> units (bl_qty l) = level_qty (units (bl_price l)) nls" (is ?sums)
    and "\<forall>p \<in> fst ` set nls. p \<in> (units \<circ> bl_price) ` set out
        \<or> (0 < dc_max_levels_per_side c \<and> length out = dc_max_levels_per_side c
           \<and> (\<forall>l \<in> set out. better_first sd (units (bl_price l)) < better_first sd p))" (is ?cut)
proof -
  let ?n = "dc_max_levels_per_side c"
  define all where "all = aggregate (sort_levels sd nls)"
  define kept where "kept = (if 0 < ?n \<and> ?n < length all then take ?n all else all)"
  have "\<forall>l \<in> set nls. 0 < snd l"
    using normalized_positive by (fastforce simp: nls_def normalized_levels_def Let_def map_filter_def)
  note a = aggregated[OF this assms(3), of sd, folded all_def, THEN conjunct1]
    aggregated[OF this assms(3), of sd, folded all_def, THEN conjunct2, THEN conjunct1]
    aggregated[OF this assms(3), of sd, folded all_def, THEN conjunct2, THEN conjunct2]
  have out: "out = map (\<lambda>(p, q). \<lparr>bl_price = mk_dec p (detect_price_scale ls c), bl_qty = mk_dec q (detect_qty_scale ls c)\<rparr>) kept"
    by (simp add: out_def CanonicalizeBookSide_def kept_def all_def nls_def Let_def)
  have kept: "set kept \<subseteq> set all" by (auto simp: kept_def dest: in_set_takeD)
  have "sorted_wrt (\<lambda>x y. better_first sd (fst x) < better_first sd (fst y)) kept"
    using a(1) by (simp add: kept_def sorted_wrt_take)
  then show ?order
    unfolding out sorted_wrt_map by (simp add: split_beta)
  have "p \<in> (units \<circ> bl_price) ` set out
        \<or> (0 < ?n \<and> length out = ?n \<and> (\<forall>l \<in> set out. better_first sd (units (bl_price l)) < better_first sd p))"
    if p: "p \<in> fst ` set nls" for p
  proof (cases "p \<in> fst ` set kept")
    case False
    obtain x where x: "x \<in> set all" "fst x = p" using p a(2) by (metis imageE)
    have cut: "0 < ?n" "?n < length all" "kept = take ?n all" using False x by (auto simp: kept_def split: if_splits)
    then have "x \<in> set (drop ?n all)" using x False by (metis UnE append_take_drop_id imageI set_append)
    moreover have "sorted_wrt (\<lambda>x y. better_first sd (fst x) < better_first sd (fst y)) (take ?n all @ drop ?n all)"
      using a(1) by simp
    ultimately have "\<forall>l \<in> set kept. better_first sd (fst l) < better_first sd p"
      unfolding sorted_wrt_append cut(3) using x(2) by auto
    then show ?thesis using cut unfolding out by (auto simp: split_beta)
  qed (force simp: out)
  then show ?cut by blast
  have "scale (bl_price l) = detect_price_scale ls c \<and> scale (bl_qty l) = detect_qty_scale ls c
        \<and> units (bl_price l) \<in> fst ` set nls \<and> 0 < units (bl_qty l)
        \<and> units (bl_qty l) = level_qty (units (bl_price l)) nls" if "l \<in> set out" for l
  proof -
    obtain x where "x \<in> set all" "l = \<lparr>bl_price = mk_dec (fst x) (detect_price_scale ls c), bl_qty = mk_dec (snd x) (detect_qty_scale ls c)\<rparr>"
      using \<open>l \<in> set out\<close> kept unfolding out by auto
    moreover from this have "fst x \<in> fst ` set nls" "0 < snd x \<and> snd x = level_qty (fst x) nls" using a(2,3) by blast+
    ultimately show ?thesis by simp
  qed
  then show ?sums by blast
qed

text \<open>C26. A canonical side shows exactly the book. Its prices are strictly ordered from the best on, the quantity
  at a price is the sum of all normalized levels at that price, and a price is missing only when
  the side is cut to its maximum of levels and all that are kept are better.
\<close>

theorem canonical_side_is_book:
  fixes ls sd c
  defines "out \<equiv> CanonicalizeBookSide ls sd c" and "nls \<equiv> normalized_levels ls sd c"
  assumes "sum_list (map snd nls) \<le> 9223372036854775807"
  shows "sorted_wrt (\<lambda>a b. better_first sd (units (bl_price a)) < better_first sd (units (bl_price b))) out
    \<and> (\<forall>l \<in> set out. scale (bl_price l) = detect_price_scale ls c \<and> scale (bl_qty l) = detect_qty_scale ls c
        \<and> units (bl_price l) \<in> fst ` set nls \<and> 0 < units (bl_qty l)
        \<and> units (bl_qty l) = level_qty (units (bl_price l)) nls)
    \<and> (\<forall>p \<in> fst ` set nls. p \<in> (units \<circ> bl_price) ` set out
        \<or> (0 < dc_max_levels_per_side c \<and> length out = dc_max_levels_per_side c
           \<and> (\<forall>l \<in> set out. better_first sd (units (bl_price l)) < better_first sd p)))"
  using canonical_side_core[of ls sd c] assms(3) unfolding out_def nls_def by blast

definition ex_side :: "book_level list" where
  "ex_side = [\<lparr>bl_price = mk_dec 1005 1, bl_qty = mk_dec 2 0\<rparr>, \<lparr>bl_price = mk_dec 100 0, bl_qty = mk_dec 1 0\<rparr>,
     \<lparr>bl_price = mk_dec 100 0, bl_qty = mk_dec 3 0\<rparr>]"

definition ex_depth_config :: depth_config where
  "ex_depth_config = \<lparr>dc_tick_size = dzero, dc_lot_size = dzero, dc_min_qty = dzero, dc_max_levels_per_side = 0\<rparr>"

lemma ex_side_levels:
  "normalized_levels ex_side BookSide_kAsk ex_depth_config = [(1005, 2), (1000, 1), (1000, 3)]"
  "normalized_levels [] BookSide_kBid ex_depth_config = []"
  "CanonicalizeBookSide ex_side BookSide_kAsk ex_depth_config
   = [\<lparr>bl_price = mk_dec 1000 1, bl_qty = mk_dec 4 0\<rparr>, \<lparr>bl_price = mk_dec 1005 1, bl_qty = mk_dec 2 0\<rparr>]"
  by code_simp+

theorem canonical_side_is_book_witness:
  "sorted_wrt (\<lambda>a b. better_first BookSide_kAsk (units (bl_price a)) < better_first BookSide_kAsk (units (bl_price b)))
     (CanonicalizeBookSide ex_side BookSide_kAsk ex_depth_config)"
  using canonical_side_is_book[of ex_side BookSide_kAsk ex_depth_config] by (simp add: ex_side_levels(1))

text \<open>Rounding to the steps of the venue never improves a level for the taker: bids go down, asks go up,
  quantities go down, each by less than a step.\<close>

theorem levels_round_against_taker:
  assumes "normalize_level sd ps qs tick lot least l = Some (p, q)"
    and "wf_dec (bl_price l)" "scale (bl_price l) \<le> ps" "ps \<le> 18" "wf_dec (bl_qty l)" "scale (bl_qty l) \<le> qs" "qs \<le> 18"
    and "at_scale (nat ps) (bl_price l) + tick \<le> max_units"
  shows "(tick \<le> 0 \<longrightarrow> p = at_scale (nat ps) (bl_price l)) \<and> (0 < tick \<longrightarrow> tick dvd p \<and>
      (case sd of BookSide_kBid \<Rightarrow> p \<le> at_scale (nat ps) (bl_price l) \<and> at_scale (nat ps) (bl_price l) < p + tick
       | BookSide_kAsk \<Rightarrow> at_scale (nat ps) (bl_price l) \<le> p \<and> p < at_scale (nat ps) (bl_price l) + tick))
    \<and> q \<le> at_scale (nat qs) (bl_qty l) \<and> (0 < lot \<longrightarrow> lot dvd q \<and> at_scale (nat qs) (bl_qty l) < q + lot) \<and> least \<le> q"
proof -
  have al: "align_to_scale d t = Some u \<Longrightarrow> u = at_scale (nat t) d \<and> u \<le> max_units" if "wf_dec d" "scale d \<le> t" "t \<le> 18" for d t u
  proof -
    assume a: "align_to_scale d t = Some u"
    have k: "i32 (t - scale d) = t - scale d" using that by (intro i32_id) (auto simp: in_i32_def wf_dec_def)
    have "(10 :: int) ^ nat (t - scale d) \<le> 10 ^ 18" using that by (intro power_increasing) (auto simp: wf_dec_def)
    then have p: "pow10_checked (t - scale d) = 10 ^ nat (t - scale d)"
      using that pow10_loop_i64[of 1 "nat (t - scale d)"] by (auto simp: pow10_checked_def wf_dec_def)
    have "nat t - nat (scale d) = nat (t - scale d)" using that by (auto simp: wf_dec_def nat_diff_distrib)
    then show ?thesis using a that k p
      by (auto simp: align_to_scale_def at_scale_def wf_dec_def in_i64_def Let_def split: if_splits)
  qed
  obtain u v where uv: "align_to_scale (bl_price l) ps = Some u" "align_to_scale (bl_qty l) qs = Some v"
    using assms(1) by (auto simp: normalize_level_def split: if_splits option.splits)
  have u: "u = at_scale (nat ps) (bl_price l)" "u \<le> max_units" "v = at_scale (nat qs) (bl_qty l)" "v \<le> max_units"
    using al[OF assms(2-4) uv(1)] al[OF assms(5-7) uv(2)] by simp_all
  have pos: "0 \<le> u" "0 \<le> v" using assms(1) u by (auto simp: normalize_level_def at_scale_def split: if_splits)
  have near: "(x div n) * n \<le> x" "x < (x div n) * n + n" if "0 < n" for x n :: int
    using that div_mult_mod_eq[of x n] pos_mod_bound[of n x] pos_mod_sign[of n x] by linarith+
  have fl: "floor_to_step x n = (x div n) * n" if "0 \<le> x" "x \<le> max_units" "0 < n" for x n
  proof -
    have "0 \<le> (x div n) * n" "(x div n) * n \<le> x" using that near(1) by (simp_all add: pos_imp_zdiv_nonneg_iff)
    then show ?thesis using that by (cases "x = 0") (simp_all add: floor_to_step_def signed_divide_int_def i64_id in_i64_def)
  qed
  have ce: "ceil_to_step x n = ((x + n - 1) div n) * n" if "0 \<le> x" "x + n \<le> max_units" "0 < n" for x n
  proof -
    have "0 \<le> ((x + n - 1) div n) * n" "((x + n - 1) div n) * n \<le> x + n - 1"
      using that near(1)[of n "x + n - 1"] by (simp_all only: zero_le_mult_iff pos_imp_zdiv_nonneg_iff) linarith+
    then show ?thesis using that by (cases "x + n - 1 = 0") (simp_all add: ceil_to_step_def signed_divide_int_def i64_id in_i64_def)
  qed
  have "p = (if 0 < tick then (case sd of BookSide_kBid \<Rightarrow> (u div tick) * tick | BookSide_kAsk \<Rightarrow> ((u + tick - 1) div tick) * tick) else u)"
    "q = (if 0 < lot then (v div lot) * lot else v)" "least \<le> q"
    using assms(1) uv fl[OF pos(1) u(2), of tick] ce[OF pos(1), of tick] fl[OF pos(2) u(4), of lot] assms(8) u(1)
    by (auto simp: normalize_level_def Let_def split: if_splits book_side.splits)
  then show ?thesis using near[of tick u] near[of tick "u + tick - 1"] near[of lot v] u(1,3)
    by (auto split: book_side.splits)
qed

section \<open>The cost of a side\<close>

lemma add_depth_sel:
  fixes l a
  defines "price \<equiv> MonotonicPrice (da_price a) (bl_price l) (ds_side (da_curves a))"
  shows "da_price (add_depth l a) = price" "da_qty (add_depth l a) = dadd (da_qty a) (bl_qty l)"
    "da_cost (add_depth l a) = dadd (da_cost a) (dmul price (bl_qty l))"
    "ds_side (da_curves (add_depth l a)) = ds_side (da_curves a)"
    "ds_s_of_q (da_curves (add_depth l a)) = ds_s_of_q (da_curves a)
      @ [\<lparr>sq_qty = da_qty (add_depth l a), sq_cost = da_cost (add_depth l a)\<rparr>]"
    "ds_p_of_q (da_curves (add_depth l a)) = ds_p_of_q (da_curves a)
      @ [\<lparr>pq_qty = da_qty (add_depth l a), pq_price = da_price (add_depth l a)\<rparr>]"
  by (simp_all add: add_depth_def Let_def price_def)

text \<open>Levels that get worse from the first on.\<close>

definition worse_later :: "execution_side \<Rightarrow> book_level list \<Rightarrow> bool" where
  "worse_later sd ls = sorted_wrt (\<lambda>a b. case sd of ExecutionSide_kBuy \<Rightarrow> dval (bl_price a) < dval (bl_price b)
     | ExecutionSide_kSell \<Rightarrow> dval (bl_price b) < dval (bl_price a)) ls"

definition first_qty :: "book_level list \<Rightarrow> nat \<Rightarrow> rat" where
  "first_qty ls k = (\<Sum>l \<leftarrow> take k ls. dval (bl_qty l))"

definition first_cost :: "book_level list \<Rightarrow> nat \<Rightarrow> rat" where
  "first_cost ls k = (\<Sum>l \<leftarrow> take k ls. dval (bl_price l) * dval (bl_qty l))"

lemma first_simps [simp]: "first_qty ls 0 = 0" "first_cost ls 0 = 0"
  "k < length ls \<Longrightarrow> first_qty ls (Suc k) = first_qty ls k + dval (bl_qty (ls ! k))"
  "k < length ls \<Longrightarrow> first_cost ls (Suc k) = first_cost ls k + dval (bl_price (ls ! k)) * dval (bl_qty (ls ! k))"
  by (simp_all add: first_qty_def first_cost_def take_Suc_conv_app_nth)

lemma monotonic_price:
  assumes "grid s m a" "grid s m b" "m \<le> max_units"
    and "case sd of ExecutionSide_kBuy \<Rightarrow> dval a \<le> dval b | ExecutionSide_kSell \<Rightarrow> dval b \<le> dval a"
  shows "dval (MonotonicPrice a b sd) = dval b \<and> grid s m (MonotonicPrice a b sd)"
  using assms grid_cmp(3,4)[OF assms(1,2,3,3)]
  by (auto simp: MonotonicPrice_def dmax_def dmin_def split: execution_side.splits)

text \<open>The tables after the first \<open>k\<close> levels.\<close>

definition depth_ok :: "execution_side \<Rightarrow> book_level list \<Rightarrow> nat \<Rightarrow> nat \<Rightarrow> int \<Rightarrow> int \<Rightarrow> nat \<Rightarrow> depth_acc \<Rightarrow> bool" where
  "depth_ok sd ls s t m n k a \<longleftrightarrow> ds_side (da_curves a) = sd
     \<and> length (ds_s_of_q (da_curves a)) = Suc k \<and> length (ds_p_of_q (da_curves a)) = Suc k
     \<and> grid s m (da_price a) \<and> dval (da_price a) = dval (bl_price (ls ! (k - 1)))
     \<and> grid t (int k * n) (da_qty a) \<and> dval (da_qty a) = first_qty ls k
     \<and> grid (s + t) (int k * (m * n)) (da_cost a) \<and> dval (da_cost a) = first_cost ls k
     \<and> (\<forall>j \<le> k. dval (sq_qty (ds_s_of_q (da_curves a) ! j)) = first_qty ls j
          \<and> dval (sq_cost (ds_s_of_q (da_curves a) ! j)) = first_cost ls j
          \<and> dval (pq_price (ds_p_of_q (da_curves a) ! j)) = dval (bl_price (ls ! (j - 1)))
          \<and> dval (pq_qty (ds_p_of_q (da_curves a) ! j)) = first_qty ls j)"

lemma depth_steps:
  assumes "ls \<noteq> []" "worse_later sd ls" "\<forall>l \<in> set ls. grid s m (bl_price l) \<and> grid t n (bl_qty l)" "s + t \<le> 18"
    and "m \<le> max_units" "m * n \<le> max_units" "int (length ls) * n \<le> max_units" "int (length ls) * (m * n) \<le> max_units"
  shows "k \<le> length ls \<Longrightarrow> depth_ok sd ls s t m n k (fold add_depth (take k ls) (start_depth (ls ! 0) sd tau))"
proof (induction k)
  case 0
  have g: "grid s m (bl_price (ls ! 0))" "grid t n (bl_qty (ls ! 0))" using assms(1,3) by simp_all
  have n: "n \<le> max_units"
    using assms(1,7) grid_nonneg[OF g(2)] mult_right_mono[of 1 "int (length ls)" n] by (cases ls) auto
  have "grid (s + t) (m * n) (dmul (bl_price (ls ! 0)) (bl_qty (ls ! 0)))"
    using grid_mul(2)[OF g assms(4,5) n assms(6)] .
  then show ?case using g assms(4)
    by (auto simp: depth_ok_def start_depth_def Let_def empty_curves_def grid_def at_scale_def dval_def)
next
  case (Suc k)
  let ?l = "ls ! k" and ?a = "fold add_depth (take k ls) (start_depth (ls ! 0) sd tau)"
  have k: "k < length ls" using Suc.prems by simp
  have ih: "depth_ok sd ls s t m n k ?a" using Suc by simp
  have g: "grid s m (bl_price ?l)" "grid t n (bl_qty ?l)" using assms(3) k by simp_all
  have nn: "0 \<le> m" "0 \<le> n" using grid_nonneg g by blast+
  have bound: "int k * x + x \<le> max_units" "x \<le> max_units" if "0 \<le> x" "int (length ls) * x \<le> max_units" for x
  proof -
    have "int (Suc k) * x \<le> int (length ls) * x" using Suc.prems that(1) by (intro mult_right_mono) auto
    then show "int k * x + x \<le> max_units" using that(2) by (simp add: distrib_right)
    then show "x \<le> max_units" using mult_nonneg_nonneg[of "int k" x] that(1) by linarith
  qed
  note bn = bound[OF nn(2) assms(7)] and bc = bound[OF mult_nonneg_nonneg[OF nn] assms(8)]
  have order: "case sd of ExecutionSide_kBuy \<Rightarrow> dval (da_price ?a) \<le> dval (bl_price ?l)
      | ExecutionSide_kSell \<Rightarrow> dval (bl_price ?l) \<le> dval (da_price ?a)"
  proof (cases k)
    case 0
    then show ?thesis using ih by (cases sd) (simp_all add: depth_ok_def)
  next
    case (Suc j)
    then have "case sd of ExecutionSide_kBuy \<Rightarrow> dval (bl_price (ls ! j)) < dval (bl_price ?l)
      | ExecutionSide_kSell \<Rightarrow> dval (bl_price ?l) < dval (bl_price (ls ! j))"
      using assms(2) k sorted_wrt_nth_less[OF assms(2)[unfolded worse_later_def], of j k] by simp
    then show ?thesis using ih Suc by (cases sd) (simp_all add: depth_ok_def)
  qed
  have side: "ds_side (da_curves ?a) = sd" and pr: "grid s m (da_price ?a)" and qa: "grid t (int k * n) (da_qty ?a)" "dval (da_qty ?a) = first_qty ls k"
    and ca: "grid (s + t) (int k * (m * n)) (da_cost ?a)" "dval (da_cost ?a) = first_cost ls k"
    using ih by (simp_all add: depth_ok_def)
  let ?b = "add_depth ?l ?a"
  note sel = add_depth_sel[where l = ?l and a = ?a, unfolded side]
  have p: "dval (da_price ?b) = dval (bl_price ?l)" "grid s m (da_price ?b)"
    using monotonic_price[OF pr g(1) assms(5) order] by (simp_all add: sel)
  have q: "dval (da_qty ?b) = first_qty ls (Suc k)" "grid t (int (Suc k) * n) (da_qty ?b)"
    using grid_add[OF qa(1) g(2) bn(1)] qa(2) k by (simp_all add: sel distrib_right add.commute)
  note mul = grid_mul[OF p(2) g(2) assms(4,5) bn(2) assms(6)]
  have c: "dval (da_cost ?b) = first_cost ls (Suc k)" "grid (s + t) (int (Suc k) * (m * n)) (da_cost ?b)"
    using grid_add[OF ca(1) mul(2) bc(1)] mul(1) ca(2) k p(1) unfolding sel(3)
    by (simp_all add: distrib_right add.commute flip: sel(1))
  have "depth_ok sd ls s t m n (Suc k) ?b"
    using ih p q c unfolding depth_ok_def sel(4-6) by (auto simp: nth_append le_Suc_eq)
  then show ?case using k by (simp add: take_Suc_conv_app_nth)
qed

text \<open>C25. The cost curve of a side is the cost of its book. For either side of a canonical book whose amounts
  leave room in 64 bits, \<open>S(q)\<close> at the quantity of the first \<open>k\<close> levels is the exact sum of their price
  times quantity, \<open>p(q)\<close> is the price of the last of them, and no level is left out.
\<close>

theorem curve_is_book_cost:
  fixes fl bids asks c sd tau
  defines "ls \<equiv> (case sd of ExecutionSide_kBuy \<Rightarrow> cb_asks (CanonicalizeOrderBook bids asks c)
      | ExecutionSide_kSell \<Rightarrow> cb_bids (CanonicalizeOrderBook bids asks c))"
    and "d \<equiv> BuildDepthSideCurves fl (CanonicalizeOrderBook bids asks c) sd tau"
  assumes "\<forall>s \<in> {BookSide_kBid, BookSide_kAsk}. sum_list (map snd (normalized_levels
      (case s of BookSide_kBid \<Rightarrow> bids | BookSide_kAsk \<Rightarrow> asks) s c)) \<le> max_units"
    and "\<forall>l \<in> set ls. grid s m (bl_price l) \<and> grid t n (bl_qty l)" "s + t \<le> 18" "m \<le> max_units" "m * n \<le> max_units"
      "int (length ls) * n \<le> max_units" "int (length ls) * (m * n) \<le> max_units"
  shows "if ls = [] then ds_s_of_q d = [] \<and> ds_p_of_q d = []
    else length (ds_s_of_q d) = Suc (length ls) \<and> length (ds_p_of_q d) = Suc (length ls)
      \<and> (\<forall>k \<le> length ls. dval (sq_qty (ds_s_of_q d ! k)) = (\<Sum>l \<leftarrow> take k ls. dval (bl_qty l))
          \<and> dval (sq_cost (ds_s_of_q d ! k)) = (\<Sum>l \<leftarrow> take k ls. dval (bl_price l) * dval (bl_qty l))
          \<and> dval (pq_price (ds_p_of_q d ! k)) = dval (bl_price (ls ! (k - 1)))
          \<and> dval (pq_qty (ds_p_of_q d ! k)) = dval (sq_qty (ds_s_of_q d ! k)))"
proof (cases ls)
  case Nil
  then show ?thesis by (auto simp: d_def ls_def BuildDepthSideCurves_def BuildDepthSideCurvesFromLevels_def empty_curves_def
    split: execution_side.splits)
next
  case (Cons l r)
  define sd' where "sd' = (case sd of ExecutionSide_kBuy \<Rightarrow> BookSide_kAsk | ExecutionSide_kSell \<Rightarrow> BookSide_kBid)"
  define xs where "xs = (case sd of ExecutionSide_kBuy \<Rightarrow> asks | ExecutionSide_kSell \<Rightarrow> bids)"
  have ls: "ls = CanonicalizeBookSide xs sd' c"
    by (simp add: ls_def sd'_def xs_def CanonicalizeOrderBook_def split: execution_side.splits)
  have tot: "sum_list (map snd (normalized_levels xs sd' c)) \<le> max_units"
    using assms(3) by (simp add: sd'_def xs_def split: execution_side.splits)
  note can = canonical_side_core[OF tot, folded ls]
  have "worse_later sd ls" unfolding worse_later_def
  proof (rule sorted_wrt_mono_rel[OF _ can(1)])
    fix a b assume "a \<in> set ls" "b \<in> set ls" "better_first sd' (units (bl_price a)) < better_first sd' (units (bl_price b))"
    moreover from this can(2) have "scale (bl_price a) = scale (bl_price b)" by metis
    ultimately show "case sd of ExecutionSide_kBuy \<Rightarrow> dval (bl_price a) < dval (bl_price b)
     | ExecutionSide_kSell \<Rightarrow> dval (bl_price b) < dval (bl_price a)"
      by (auto simp: dval_def sd'_def better_first_def divide_strict_right_mono split: execution_side.splits)
  qed
  then have "depth_ok sd ls s t m n (length ls) (fold add_depth ls (start_depth (ls ! 0) sd (tau_or_one tau)))"
    using depth_steps[OF _ _ assms(4-9), of sd "length ls"] Cons by simp
  moreover have "ds_s_of_q d = ds_s_of_q (da_curves (fold add_depth ls (start_depth (ls ! 0) sd (tau_or_one tau))))"
    "ds_p_of_q d = ds_p_of_q (da_curves (fold add_depth ls (start_depth (ls ! 0) sd (tau_or_one tau))))"
    using Cons by (auto simp: d_def ls_def BuildDepthSideCurves_def BuildDepthSideCurvesFromLevels_def Let_def
      split: execution_side.splits)
  ultimately show ?thesis using Cons by (simp add: depth_ok_def first_qty_def first_cost_def)
qed

theorem curve_is_book_cost_witness:
  "dval (sq_cost (ds_s_of_q (BuildDepthSideCurves exact_fp (CanonicalizeOrderBook [] ex_side ex_depth_config) ExecutionSide_kBuy
     (mk_dec 1 0)) ! 2)) = 601"
proof -
  have asks: "cb_asks (CanonicalizeOrderBook [] ex_side ex_depth_config)
      = [\<lparr>bl_price = mk_dec 1000 1, bl_qty = mk_dec 4 0\<rparr>, \<lparr>bl_price = mk_dec 1005 1, bl_qty = mk_dec 2 0\<rparr>]"
    by (simp add: CanonicalizeOrderBook_def ex_side_levels(3))
  show ?thesis
    using curve_is_book_cost[where fl = exact_fp and bids = "[]" and asks = ex_side and c = ex_depth_config
        and sd = ExecutionSide_kBuy and tau = "mk_dec 1 0" and s = 1 and m = 1005 and t = 0 and n = 4]
    by (simp add: asks ex_side_levels(1,2) grid_def at_scale_def)
qed

end
