(* ===== verification/Spec2Isabelle.thy ===== *)
theory Spec2Isabelle
  imports Decimal_Laws Decimal_Text Ledger_Accounts Ledger_Consumers Ledger_Position Ledger_Hedge
    Ledger_Views Risk_Safety Order_Lifecycle Matching_Books Matching_Intake Matching_Hedging
    Matching_Grouping Matching_Child_Graph Combo_Reversal Venue_Health_Laws Replay_Control Replay_Shadow
    Planner_Forecast Hedge_Planner_Laws Venue_Hedging Venue_Sim_Laws Matching_Solver_Laws Venue_Depth_Laws
begin

text \<open>
  Verification library of the continuous exchange (\<open>cpp/\<close>): an exchange that clears flow orders in
  batches and hedges the residual on external venues. Services talk over gRPC and Kafka.

  \<^bold>\<open>Parts and how they interact.\<close> The order flow validates an order, asks risk for a pre-trade
  decision, reserves the user's funds in the ledger and announces the order to the matching
  engine. The matching engine produces batch results, which the ledger settles, the order flow
  applies to its order book and risk turns into margin snapshots. Hedge intents go to the
  venues, whose execution reports come back to the ledger (venue balances, hedge profit) and to
  risk (alerts). Money is \<open>Decimal\<close>, a 64-bit integer with a decimal scale.

  \<^bold>\<open>Theories.\<close>
  \<^item> \<open>Prelude\<close>: machine integers as \<open>int\<close> with the wrap written out, \<open>unordered_map\<close> as an
    association list whose order stands for the unspecified iteration order, first-error loops,
    and the interfaces \<open>idempotent_consumer\<close> and \<open>status_machine\<close>.
  \<^item> \<open>Decimal\<close> (\<open>common/src/decimal.cpp\<close>), \<open>Decimal_Laws\<close> (what every service relies on; interface
    \<open>exact_money\<close>), \<open>Decimal_Text\<close> (\<open>to_string\<close> and the four parsers of the services).
  \<^item> \<open>Contracts\<close>, \<open>Order_Messages\<close>: the protobuf messages (\<open>contracts/proto\<close>). Fields no modelled
    handler reads or writes are left out.
  \<^item> \<open>Ledger_Core\<close>, \<open>Ledger_Batch\<close> (\<open>ledger/src/app/ledger_uc.cpp\<close>): balances, reservations, the
    position engine, \<open>ApplyBatchResult\<close>, \<open>ApplyExecutionGroup\<close>. \<open>Ledger_Spec\<close> is the abstract book
    of accounts, \<open>Ledger_Refine\<close> the refinement, \<open>Ledger_Accounts\<close> double entry and backing of
    reserved funds, \<open>Ledger_Consumers\<close> redelivery, \<open>Ledger_Position\<close> positions and realised profit.
  \<^item> \<open>Ledger_Exec\<close>, \<open>Ledger_Hedge\<close>: execution reports, their state machine, venue balances and hedge
    profit; \<open>Ledger_Views\<close>: the read side and the simulation book (\<open>sim_book_applier.cpp\<close>).
  \<^item> \<open>Risk_Domain\<close> (\<open>risk/src/domain\<close>), \<open>Risk\<close> (\<open>risk/src/app/risk_uc.cpp\<close>), \<open>Risk_Safety\<close>: margin,
    group check, kill switch, health gate, pre-trade and pre-hedge checks, margin snapshots.
  \<^item> \<open>Order_Flow\<close> (\<open>order_flow/src/app/order_flow_uc.cpp\<close>), \<open>Order_Reservations\<close> (order flow, risk and
    ledger together, over the interface \<open>reservation_port\<close>), \<open>Order_Lifecycle\<close>.
  \<^item> Matching engine (\<open>matching/src\<close>). \<open>Environment\<close>: environment variables and their parsers.
    \<open>Matching_Orders\<close>: the order, its construction and the table \<open>flow_orders\<close>. \<open>Matching_Intake\<close>:
    what enters the engine is well formed. \<open>Matching_Batch\<close> (\<open>run_batch_uc.cpp\<close>), \<open>Matching_Fills\<close>,
    \<open>Matching_Books\<close>: fills stay within the order, and the table, the published fills and the active
    orders agree after a batch. \<open>Matching_Hedge\<close>, \<open>Matching_Hedging\<close>: positions, triggers and hedge
    intents, and that the intents offset the positions.
  \<^item> Combo groups in the matching engine. \<open>Matching_Groups\<close>, \<open>Matching_Grouping\<close>: caps, grouped solver,
    constraints, routing. \<open>Matching_Graph\<close> and \<open>Matching_Child_Graph\<close>: the passes over the graph of
    the legs and their reference definition. \<open>Matching_Combos\<close>, \<open>Matching_Combo_Loop\<close>: the tables,
    the batch over the active groups, reports of external legs.
  \<^item> Combo orders in the order flow (\<open>order_flow/src\<close>). \<open>Combo_Domain\<close>, \<open>Combo_Tables\<close>,
    \<open>Combo_Numeric\<close>, \<open>Combo_Usecases\<close>: domain, policy, the tables shared with the engine, create and
    cancel. \<open>Combo_Intake\<close>: both use cases on every branch, and that the engine loads what was
    accepted. \<open>Combo_Life\<close>: all steps of the two services as one step relation, with invariants over
    its reachable states. \<open>Combo_Compensation\<close>, \<open>Combo_Reversal\<close>: failed external legs, resolved by
    the operator or automatically within a budget per window.
  \<^item> Venues' health (\<open>venue_health/src\<close>, \<open>venues/src/infra\<close>, \<open>observability/src/app\<close>).
    \<open>Venue_Health\<close>: raw reports, circuit breaker, score, alerts; \<open>Venue_Health_Laws\<close>: their laws, to
    the health gate of \<open>Risk\<close>.
  \<^item> Routing of hedges in the matching engine (\<open>planner_inputs_cache.cpp\<close>,
    \<open>execution_planner.cpp\<close>). \<open>Planner_Cache\<close>: liquidity curves and health by venue, \<open>Planner_Laws\<close>:
    what the planner sees after any messages. \<open>Planner_Forecast\<close>: comparison of venues and forecast
    of an order. \<open>Hedge_Planner\<close>, \<open>Hedge_Planner_Laws\<close>: the plan of a hedge and the intents that replace
    it, which offset the positions of \<open>Matching_Hedging\<close>.
  \<^item> Venues (\<open>venues/src\<close>). \<open>Venue_Adapters\<close>: the simulated adapter and that of backtests.
    \<open>Venue_Port\<close>: interface \<open>venue_port\<close> of an adapter that answers fairly, both adapters as
    interpretations, the walk through a book. \<open>Venue_Execution\<close>: the order, the choice of the venue, the
    report and its publication. \<open>Venue_Sim\<close>, \<open>Venue_Simulator\<close>: simulation sessions and the simulated
    execution. \<open>Venue_Tables\<close>: the rows of flows and child orders. \<open>Venue_Loop\<close>, \<open>Venue_Laws\<close>: the
    handler of an intent, one report for each intent, turns among the venues. \<open>Venue_Hedging\<close>: venues
    and ledger together. \<open>Venue_Sim_Laws\<close>: what the registry of sessions holds after any operations.
  \<^item> Curves of a venue (\<open>venues/src/domain\<close>). \<open>Venue_Depth\<close>: canonical levels of a book, its cost curve with
    interpolation, convex hull, smoothing and dual; \<open>Venue_Depth_Laws\<close>: the curve is the cost of the book,
    pooling gives the convex hull, the dual layer is the conjugate.
  \<^item> \<open>Matching_Solver\<close> (\<open>matching/src/domain/solver_impl.cpp\<close>): the quadratic program of a batch and what
    is made of its solution; \<open>Matching_Solver_Laws\<close>: limits of the orders, balance of what they get from
    each other, depth of the venue, in exact arithmetic (\<open>exact\<close>) and for every solution.
  \<^item> Replay of history (\<open>backtest/src\<close>). \<open>Replay_History\<close>: the paged loader and the batches it puts
    together. \<open>Replay_Journal\<close>: steps, journal and summary (interface \<open>step_log\<close>).
    \<open>Replay_Sessions\<close>: where sessions live. \<open>Replay_Run\<close>, \<open>Replay_Run_Laws\<close>: the orchestrator, over
    an abstract ledger and executor. \<open>Replay_Control\<close>: cancel and retry. \<open>Replay_Shadow\<close>: the
    ledger of a session with its checkpoints, over \<open>Ledger_Core\<close> and \<open>Ledger_Batch\<close>: restoring undoes
    batches, and a rebuilt ledger keeps the books of \<open>Ledger_Spec\<close>.

  \<^bold>\<open>State and effects.\<close> A handler takes its request and the state and returns response, new state
  and effects (repository writes, published events) as data; a C++ exception or early return is
  a branch. Clocks, generated ids, environment variables, database reads and remote calls are
  arguments. Locking is not modelled: every handler holds one mutex for the part that is
  modelled as one step. Logging and metrics are left out.

  \<^bold>\<open>Bounds.\<close> \<open>grid s m d\<close> says that \<open>d\<close> is a multiple of \<open>10 ^ - s\<close> of at most \<open>m\<close> units. Theorems about
  money assume that the sums of such bounds stay below \<open>2 ^ 63\<close>, which is when the code's 64-bit
  results are exact; \<open>decimal_arithmetic_error\<close> says what happens otherwise. Loops are structural
  recursions or have a termination proof; no fuel is used.

  \<^bold>\<open>Not modelled.\<close> Doubles are rationals with an arbitrary rounding function
  (record \<open>fp\<close>). The interior point iteration of the clearing solver, the vector solver (OSQP), the
  venue connectors, the pools of automated market makers, the calibration of published curves and
  the market data service are numerical or network code; what a modelled part gets from them is an
  argument. The remaining use cases and the ClickHouse storage of the backtest, the gateway and the
  front end are not modelled. The manifest lists every part.
\<close>

end
